(* ===== verification/Qodem_Prelude.thy ===== *)
theory Qodem_Prelude
  imports "HOL-Library.Word"
begin

unbundle bit_operations_syntax

text \<open>
  Shared vocabulary of the development: the machine types of the C sources, the
  fault values that stand for \<open>assert\<close>, null dereference, buffer overflow and
  non-termination, sequencing of fallible steps, buffer copies
  (\<open>memcpy\<close>, \<open>memset\<close>), decimal and octal numerals as \<open>snprintf\<close>, \<open>atol\<close> and
  \<open>sscanf\<close> produce and read them, and the generic lemmas on lists and words that
  the component theories use.
\<close>

section \<open>Machine types\<close>

type_synonym byte = "8 word"
type_synonym u32 = "32 word"
type_synonym ulong = "64 word"
type_synonym cstring = "byte list"
type_synonym time_t = int

named_theorems buffer_simps \<open>rewriting of buffer copies and lookups\<close>
named_theorems frame_simps \<open>fields an operation does not touch\<close>

section \<open>Control characters\<close>

definition C_SOH :: byte where "C_SOH = 0x01"
definition C_STX :: byte where "C_STX = 0x02"
definition C_EOT :: byte where "C_EOT = 0x04"
definition C_ACK :: byte where "C_ACK = 0x06"
definition C_LF :: byte where "C_LF = 0x0A"
definition C_CR :: byte where "C_CR = 0x0D"
definition C_XON :: byte where "C_XON = 0x11"
definition C_XOFF :: byte where "C_XOFF = 0x13"
definition C_NAK :: byte where "C_NAK = 0x15"
definition C_CAN :: byte where "C_CAN = 0x18"
definition C_SUB :: byte where "C_SUB = 0x1A"

lemmas control_bytes = C_SOH_def C_STX_def C_EOT_def C_ACK_def C_NAK_def C_CAN_def C_SUB_def

section \<open>Faults and sequencing\<close>

text \<open>
  A handler of the program either returns a new state or is stopped: a failed
  \<open>assert\<close>, a call of \<open>abort()\<close>, a use of a null stream, a write past the end
  of a fixed buffer, behaviour that C leaves undefined, or a loop that never ends.
\<close>

datatype fault = Assert_failed | Abort_called | Null_stream | Buffer_overflow | Undefined | Diverges

type_synonym 'a run = "fault + 'a"

fun andthen :: "'a run \<Rightarrow> ('a \<Rightarrow> 'b run) \<Rightarrow> 'b run" where
  "andthen (Inl e) f = Inl e"
| "andthen (Inr x) f = f x"

definition check :: "bool \<Rightarrow> fault \<Rightarrow> 'a run \<Rightarrow> 'a run" where
  "check b e r = (if b then r else Inl e)"

lemma andthen_eq_Inr: "andthen m f = Inr y \<longleftrightarrow> (\<exists>x. m = Inr x \<and> f x = Inr y)"
  by (cases m) auto

lemma check_eq_Inr [simp]: "check b e r = Inr y \<longleftrightarrow> b \<and> r = Inr y"
  by (simp add: check_def)

lemma check_True [simp]: "b \<Longrightarrow> check b e r = r"
  by (simp add: check_def)

lemma check_False [simp]: "\<not> b \<Longrightarrow> check b e r = Inl e"
  by (simp add: check_def)

text \<open>What holds of every result of a step that may be stopped, and rules to follow a sequence of steps.\<close>

fun yields :: "('a \<Rightarrow> bool) \<Rightarrow> 'a run \<Rightarrow> bool" where
  "yields Q (Inl e) = True"
| "yields Q (Inr x) = Q x"

lemma yields_iff: "yields Q r \<longleftrightarrow> (\<forall>x. r = Inr x \<longrightarrow> Q x)"
  by (cases r) auto

lemma yieldsD: "yields Q r \<Longrightarrow> r = Inr x \<Longrightarrow> Q x"
  by simp

lemma yields_any [simp]: "yields (\<lambda>_. True) r"
  by (simp add: yields_iff)

lemma yields_mono: "yields P r \<Longrightarrow> (\<And>x. P x \<Longrightarrow> Q x) \<Longrightarrow> yields Q r"
  by (simp add: yields_iff)

lemma yields_check [intro]: "(b \<Longrightarrow> yields Q r) \<Longrightarrow> yields Q (check b e r)"
  by (simp add: check_def)

lemma yields_andthen: "yields P r \<Longrightarrow> (\<And>x. P x \<Longrightarrow> yields Q (f x)) \<Longrightarrow> yields Q (andthen r f)"
  by (cases r) auto

lemma yields_andthen_any: "(\<And>x. yields Q (f x)) \<Longrightarrow> yields Q (andthen r f)"
  by (cases r) auto

section \<open>Buffers\<close>

definition memcpy :: "'a list \<Rightarrow> nat \<Rightarrow> 'a list \<Rightarrow> 'a list" where
  "memcpy dst off src = take off dst @ src @ drop (off + length src) dst"

lemma length_memcpy [simp]:
  "off + length src \<le> length dst \<Longrightarrow> length (memcpy dst off src) = length dst"
  by (simp add: memcpy_def)

lemma memcpy_Nil [simp]: "memcpy dst off [] = dst"
  by (simp add: memcpy_def)

lemma nth_memcpy:
  "off + length src \<le> length dst \<Longrightarrow> i < length dst \<Longrightarrow>
   memcpy dst off src ! i = (if off \<le> i \<and> i < off + length src then src ! (i - off) else dst ! i)"
  by (auto simp: memcpy_def nth_append)

lemma take_drop_memcpy:
  "off + length src \<le> length dst \<Longrightarrow> length src = n \<Longrightarrow> take n (drop off (memcpy dst off src)) = src"
  by (auto simp: memcpy_def)

lemma take_list_update_ge [buffer_simps]: "n \<le> i \<Longrightarrow> take n (xs[i := v]) = take n xs"
  by simp

lemma drop_list_update_lt [buffer_simps]: "i < n \<Longrightarrow> drop n (xs[i := v]) = drop n xs"
  by simp

lemma slice_list_update [buffer_simps]:
  "i < off \<or> off + n \<le> i \<Longrightarrow> take n (drop off (xs[i := v])) = take n (drop off xs)"
  by (auto simp: drop_update_swap not_less)

section \<open>C strings and numerals\<close>

definition c_string :: "byte list \<Rightarrow> cstring" where
  "c_string bs = takeWhile (\<lambda>b. b \<noteq> 0) bs"

text \<open>The bytes of a string literal.\<close>

definition ascii :: "string \<Rightarrow> cstring" where
  "ascii s = map (\<lambda>c. of_nat (of_char c)) s"

definition to_lower :: "byte \<Rightarrow> byte" where
  "to_lower b = (if 65 \<le> b \<and> b \<le> 90 then b + 32 else b)"

definition strcasecmp_eq :: "cstring \<Rightarrow> cstring \<Rightarrow> bool" where
  "strcasecmp_eq a b \<longleftrightarrow> map to_lower a = map to_lower b"

definition is_space :: "byte \<Rightarrow> bool" where
  "is_space c \<longleftrightarrow> c = 32 \<or> (9 \<le> c \<and> c \<le> 13)"

definition digit :: "nat \<Rightarrow> byte" where
  "digit d = of_nat (48 + d)"

fun digits_base :: "nat \<Rightarrow> nat \<Rightarrow> byte list" where
  "digits_base b n = (if b < 2 \<or> n < b then [digit n]
     else digits_base b (n div b) @ [digit (n mod b)])"

declare digits_base.simps [simp del]

fun read_base :: "nat \<Rightarrow> nat \<Rightarrow> byte list \<Rightarrow> nat" where
  "read_base b acc [] = acc"
| "read_base b acc (c # cs) =
     (if 48 \<le> unat c \<and> unat c < 48 + b then read_base b (acc * b + (unat c - 48)) cs else acc)"

fun signed_numeral :: "nat \<Rightarrow> byte list \<Rightarrow> int" where
  "signed_numeral b [] = 0"
| "signed_numeral b (c # cs) =
     (if c = 45 then - int (read_base b 0 cs)
      else if c = 43 then int (read_base b 0 cs)
      else int (read_base b 0 (c # cs)))"

definition atol :: "cstring \<Rightarrow> int" where
  "atol bs = signed_numeral 10 (dropWhile is_space bs)"

text \<open>The conversion \<open>%04d\<close>.\<close>

definition suffix_4d :: "nat \<Rightarrow> cstring" where
  "suffix_4d i = (let ds = digits_base 10 i in replicate (4 - length ds) 48 @ ds)"

lemma unat_digit: "d < 10 \<Longrightarrow> unat (digit d) = 48 + d"
  by (simp add: digit_def unat_of_nat del: of_nat_add)

lemma digits_base_step:
  "2 \<le> b \<Longrightarrow> \<not> n < b \<Longrightarrow> digits_base b n = digits_base b (n div b) @ [digit (n mod b)]"
  by (subst digits_base.simps) simp

lemma digits_base_small: "n < b \<Longrightarrow> digits_base b n = [digit n]"
  by (subst digits_base.simps) simp

lemma mod_base_lt_10: "2 \<le> b \<Longrightarrow> b \<le> (10::nat) \<Longrightarrow> n mod b < 10"
  by (rule order.strict_trans2 [OF mod_less_divisor]) auto

lemma read_base_digits:
  assumes "2 \<le> b" "b \<le> 10"
  shows "read_base b acc (digits_base b n @ rest) =
         read_base b (acc * b ^ length (digits_base b n) + n) rest"
  using assms
proof (induction b n arbitrary: acc rest rule: digits_base.induct)
  case (1 b n)
  show ?case
  proof (cases "n < b")
    case True
    then show ?thesis using 1 by (simp add: digits_base_small unat_digit)
  next
    case False
    then have IH: "read_base b acc (digits_base b (n div b) @ rest) =
        read_base b (acc * b ^ length (digits_base b (n div b)) + n div b) rest" for acc rest
      using 1 by simp
    show ?thesis using False 1 mod_base_lt_10 [of b n]
      by (simp add: digits_base_step IH unat_digit algebra_simps)
  qed
qed

lemma digits_base_range:
  assumes "2 \<le> b" "b \<le> 10" "c \<in> set (digits_base b n)"
  shows "48 \<le> unat c \<and> unat c < 58"
  using assms
proof (induction b n rule: digits_base.induct)
  case (1 b n)
  then show ?case using unat_digit [of n] unat_digit [of "n mod b"] mod_base_lt_10 [of b n]
    by (cases "n < b") (auto simp: digits_base_small digits_base_step)
qed

lemma digits_base_nonempty [simp]: "digits_base b n \<noteq> []"
  by (subst digits_base.simps) simp

lemma digits_base_lt:
  assumes "2 \<le> b" "b \<le> 10" "c \<in> set (digits_base b n)"
  shows "48 \<le> unat c" "unat c < 48 + b"
  using assms
proof (induction b n rule: digits_base.induct)
  case (1 b n)
  { case 1
    then show ?case using digits_base_range by blast
  next
    case 2
    have "unat (digit (n mod b)) < 48 + b" using 2 mod_base_lt_10 [of b n] by (simp add: unat_digit)
    then show ?case using 1 2 by (cases "n < b") (auto simp: digits_base_small digits_base_step unat_digit)
  }
qed

lemma digits_not:
  assumes "2 \<le> b" "b \<le> 10" "c \<in> set (digits_base b n)"
  shows "c \<noteq> 0" "c \<noteq> 32" "\<not> is_space c" "c \<noteq> 45" "c \<noteq> 43" "48 \<le> c"
  using digits_base_lt(1) [OF assms] by (auto simp: is_space_def word_le_nat_alt)

lemma digits_Cons:
  obtains c cs where "digits_base b n = c # cs"
  by (cases "digits_base b n") auto

lemma digits_length: "2 \<le> b \<Longrightarrow> n < b ^ Suc k \<Longrightarrow> length (digits_base b n) \<le> Suc k"
proof (induction k arbitrary: n)
  case 0
  then show ?case by (simp add: digits_base_small)
next
  case (Suc k)
  then have "n div b < b ^ Suc k" by (simp add: less_mult_imp_div_less mult.commute)
  then show ?case using Suc by (cases "n < b") (auto simp: digits_base_small digits_base_step)
qed

lemma c_string_id: "0 \<notin> set w \<Longrightarrow> c_string w = w"
  by (auto simp: c_string_def takeWhile_eq_all_conv)

section \<open>Words\<close>

lemma sint_of_word_of_int:
  "- (2 ^ (LENGTH('a) - 1)) \<le> i \<Longrightarrow> i < 2 ^ (LENGTH('a) - 1) \<Longrightarrow> sint (word_of_int i :: 'a::len word) = i"
  by (simp add: sint_sbintrunc' signed_take_bit_int_eq_self)

lemma xor_self_left [simp]: "a XOR (a XOR b) = (b :: 'a::len word)"
  by (simp add: xor.assoc [symmetric])

lemma xor_left_cancel: "a XOR b = a XOR c \<longleftrightarrow> b = (c :: 'a::len word)"
  by (metis xor_self_left)

lemma xor_right_cancel: "b XOR a = c XOR a \<longleftrightarrow> b = (c :: 'a::len word)"
  by (simp add: xor.commute [of _ a] xor_left_cancel)

lemma bit_and_exp: "(c AND push_bit n 1 \<noteq> (0 :: 'a::len word)) = bit c n"
  by (simp add: bit_iff_and_push_bit_not_eq_0)

lemma ucast_push_bit_down:
  "LENGTH('b) \<le> LENGTH('a) \<Longrightarrow>
   (ucast (push_bit k (c :: 'a::len word)) :: 'b::len word) = push_bit k (ucast c)"
  by (rule bit_word_eqI) (auto simp add: bit_push_bit_iff bit_ucast_iff)

lemma ucast_xor_distrib:
  "(ucast (a XOR b :: 'a::len word) :: 'b::len word) = ucast a XOR ucast b"
  by (rule bit_word_eqI) (auto simp add: bit_xor_iff bit_ucast_iff)

lemma ucast_ucast_up:
  "LENGTH('a) \<le> LENGTH('b) \<Longrightarrow> (ucast (ucast (x :: 'a::len word) :: 'b::len word) :: 'c::len word) = ucast x"
  by (rule bit_word_eqI) (auto simp add: bit_ucast_iff dest: bit_imp_le_length)

end
