(* ===== verification/Main_Loop.thy ===== *)
theory Main_Loop
  imports Qodem_Prelude
begin

text \<open>
  The main loop around a transfer: the part of \<open>process_incoming_data\<close> (qodem.c) that reads
  from the connection, calls the engine of the protocol until it writes nothing more,
  translates what it wrote and gives it to the connection.  It is written over an arbitrary
  engine: \<open>process\<close> is its \<open>protocol_process_data\<close>, which returns the unprocessed input and
  its new state, \<open>out\<close> and \<open>put\<close> read and replace its output buffer
  \<open>q_transfer_buffer_raw\<close>.  The locale \<open>transfer_engine\<close> states what these have to satisfy and
  holds the lemmas about the loop; it is interpreted on the engines of Xmodem and of the
  ASCII transfer.
\<close>

abbreviation (input) Q_BUFFER_SIZE :: nat where
  "Q_BUFFER_SIZE \<equiv> 4096"

section \<open>One pass\<close>

text \<open>
  Only the bytes that are new in the output buffer are translated.  The loop is left
  when a call did not change their number.
\<close>

partial_function (option) transfer_loop ::
  "(byte list \<Rightarrow> 's \<Rightarrow> (byte list \<times> 's) run) \<Rightarrow> ('s \<Rightarrow> byte list) \<Rightarrow> (byte list \<Rightarrow> 's \<Rightarrow> 's) \<Rightarrow>
   (byte \<Rightarrow> byte) \<Rightarrow> byte list \<Rightarrow> 's \<Rightarrow> (byte list \<times> 's) run option" where
  "transfer_loop process out put tr inp s =
     (case process inp s of
        Inl e \<Rightarrow> Some (Inl e)
      | Inr (rest, s1) \<Rightarrow>
          let n = length (out s);
              s2 = put (take n (out s1) @ map tr (drop n (out s1))) s1
          in if length (out s1) = n then Some (Inr (rest, s2))
             else transfer_loop process out put tr rest s2)"

definition main_loop ::
  "(byte list \<Rightarrow> 's \<Rightarrow> (byte list \<times> 's) run) \<Rightarrow> ('s \<Rightarrow> byte list) \<Rightarrow> (byte list \<Rightarrow> 's \<Rightarrow> 's) \<Rightarrow>
   (byte \<Rightarrow> byte) \<Rightarrow> byte list \<Rightarrow> 's \<Rightarrow> (byte list \<times> 's) run" where
  "main_loop process out put tr inp s =
     (case transfer_loop process out put tr inp s of None \<Rightarrow> Inl Diverges | Some r \<Rightarrow> r)"

text \<open>
  The program between two rounds: the input that is not processed yet and the engine,
  whose output buffer holds what is not written yet.  In a round \<open>qodem_read\<close> delivers
  \<open>bs\<close>, at most what fits the buffer, and \<open>qodem_write\<close> takes \<open>k\<close> bytes (0 when the
  connection is busy); the rest stays for the next round.  The result is what was
  written, and the program.
\<close>

record 's program =
  q_buffer_raw :: "byte list"
  engine :: 's

definition read_input :: "byte list \<Rightarrow> byte list \<Rightarrow> byte list" where
  "read_input bs buf = buf @ take (Q_BUFFER_SIZE - length buf) bs"

definition process_incoming_data ::
  "(byte list \<Rightarrow> 's \<Rightarrow> (byte list \<times> 's) run) \<Rightarrow> ('s \<Rightarrow> byte list) \<Rightarrow> (byte list \<Rightarrow> 's \<Rightarrow> 's) \<Rightarrow>
   (byte \<Rightarrow> byte) \<Rightarrow> byte list \<Rightarrow> nat \<Rightarrow> 's program \<Rightarrow> (byte list \<times> 's program) run" where
  "process_incoming_data process out put tr bs k p =
     andthen (main_loop process out put tr (read_input bs (q_buffer_raw p)) (engine p)) (\<lambda>(rest, s).
       Inr (take k (out s), \<lparr>q_buffer_raw = rest, engine = put (drop k (out s)) s\<rparr>))"

lemma read_input_short [simp]: "length bs \<le> Q_BUFFER_SIZE \<Longrightarrow> read_input bs [] = bs"
  by (simp add: read_input_def)

lemma read_input_none [simp]: "read_input [] buf = buf"
  by (simp add: read_input_def)

section \<open>The loop over an engine\<close>

locale transfer_engine =
  fixes process :: "byte list \<Rightarrow> 's \<Rightarrow> (byte list \<times> 's) run"
    and out :: "'s \<Rightarrow> byte list" and put :: "byte list \<Rightarrow> 's \<Rightarrow> 's"
  assumes out_put: "out (put bs s) = bs"
    and put_put: "put bs (put bs' s) = put bs s"
    and put_out: "put (out s) s = s"
begin

lemma loop_fails: "process inp s = Inl e \<Longrightarrow> main_loop process out put tr inp s = Inl e"
  by (simp add: main_loop_def transfer_loop.simps)

lemma loop_stays:
  "process inp s = Inr (rest, s') \<Longrightarrow> length (out s') = length (out s) \<Longrightarrow>
   main_loop process out put tr inp s = Inr (rest, s')"
  by (simp add: main_loop_def transfer_loop.simps put_out)

lemma loop_goes_on:
  "process inp s = Inr (rest, s') \<Longrightarrow> length (out s') \<noteq> length (out s) \<Longrightarrow>
   main_loop process out put tr inp s =
     main_loop process out put tr rest (put (take (length (out s)) (out s') @ map tr (drop (length (out s)) (out s'))) s')"
  unfolding main_loop_def by (subst transfer_loop.simps) (simp add: Let_def)

text \<open>An engine that writes something into the empty buffer and is then at rest.\<close>

lemma loop_twice:
  assumes "process inp s = Inr (rest, s')" "out s = []"
    and "process rest (put (map tr (out s')) s') = Inr (rest', put (map tr (out s')) s')"
    and "out s' = [] \<Longrightarrow> rest' = rest"
  shows "main_loop process out put tr inp s = Inr (rest', put (map tr (out s')) s')"
proof (cases "out s' = []")
  case True
  then show ?thesis using loop_stays [OF assms(1)] assms(2,4) put_out [of s'] by simp
next
  case False
  then show ?thesis using loop_goes_on [OF assms(1)] loop_stays [OF assms(3)] assms(2) by simp
qed

text \<open>
  An engine that only adds to its output, within a bound, makes the loop end: whenever
  the loop goes on there is more output than before.
\<close>

lemma loop_total:
  assumes step: "\<And>inp s. J inp s \<Longrightarrow> \<exists>rest s'. process inp s = Inr (rest, s') \<and> I s' \<and>
      length (out s) \<le> length (out s') \<and> length (out s') \<le> B \<and> (length (out s') \<noteq> length (out s) \<longrightarrow> J rest s')"
    and keep: "\<And>inp s bs. J inp s \<Longrightarrow> length bs = length (out s) \<Longrightarrow> J inp (put bs s)"
    and J: "J inp s"
  shows "\<exists>rest s'. main_loop process out put tr inp s = Inr (rest, s') \<and> I s' \<and> length (out s') \<le> B"
  using J
proof (induction "B - length (out s)" arbitrary: inp s rule: less_induct)
  case less
  obtain rest s' where s': "process inp s = Inr (rest, s')" "I s'" "length (out s) \<le> length (out s')"
      "length (out s') \<le> B" "length (out s') \<noteq> length (out s) \<longrightarrow> J rest s'"
    using step [OF less.prems] by blast
  show ?case
  proof (cases "length (out s') = length (out s)")
    case True
    then show ?thesis using loop_stays [OF s'(1)] s' by blast
  next
    case False
    let ?t = "put (take (length (out s)) (out s') @ map tr (drop (length (out s)) (out s'))) s'"
    have t: "length (out ?t) = length (out s')" using s'(3) by (simp add: out_put)
    then have "J rest ?t" "B - length (out ?t) < B - length (out s)"
      using keep s' False by (auto simp: out_put)
    then show ?thesis using less.hyps loop_goes_on [OF s'(1) False] by simp
  qed
qed

end

end
