(* ===== verification/Stdio.thy ===== *)
theory Stdio
  imports Qodem_Prelude
begin

text \<open>
  The part of the C library and of the operating system the transfer protocols use: the
  clock, files on disk, \<open>FILE\<close> streams with their position and their end-of-file and
  error indicators, and the path functions.  A stream holds the contents of
  its file while it is open, and \<open>fclose\<close> puts them into the directory.  A device may have a first unreadable offset per file
  (reads past it set the error indicator) and a limit on the size of a file (writes past
  it are short).
\<close>

section \<open>The world outside the program\<close>

record os =
  now :: time_t
  files :: "cstring \<Rightarrow> (byte list \<times> time_t) option"
  may_open :: "cstring \<Rightarrow> bool"
  bad_at :: "cstring \<Rightarrow> nat option"
  space :: nat
  uninit :: byte
  stat_denied :: "cstring \<Rightarrow> bool"
  entropy :: u32

text \<open>
  \<open>uninit\<close> is what a read of uninitialised memory yields; \<open>stat_denied\<close> tells the paths on
  which \<open>stat\<close> fails for another reason than a missing file; \<open>entropy\<close> is what a read of
  \<open>/dev/random\<close> (or a call of \<open>random()\<close>) yields.
\<close>

record stream =
  s_path :: cstring
  s_data :: "byte list"
  s_pos :: nat
  s_eof :: bool
  s_err :: bool
  s_write :: bool

section \<open>Stream operations\<close>

definition readable :: "os \<Rightarrow> stream \<Rightarrow> nat" where
  "readable w f = (case bad_at w (s_path f) of
     None \<Rightarrow> length (s_data f) | Some b \<Rightarrow> min b (length (s_data f)))"

definition fread :: "os \<Rightarrow> nat \<Rightarrow> stream \<Rightarrow> byte list \<times> stream" where
  "fread w n f =
     (if s_eof f then ([], f)
      else let lim = readable w f;
               got = take n (drop (s_pos f) (take lim (s_data f)));
               short = length got < n;
               bad = lim < length (s_data f)
           in (got, f\<lparr>s_pos := s_pos f + length got,
                       s_err := s_err f \<or> (short \<and> bad),
                       s_eof := short \<and> \<not> bad\<rparr>))"

definition fwrite :: "os \<Rightarrow> byte list \<Rightarrow> stream \<Rightarrow> nat \<times> stream" where
  "fwrite w bs f =
     (let out = take (space w - s_pos f) bs;
          base = s_data f @ replicate (s_pos f - length (s_data f)) 0
      in (length out, f\<lparr>s_data := memcpy base (s_pos f) out,
                         s_pos := s_pos f + length out,
                         s_err := s_err f \<or> length out < length bs\<rparr>))"

definition ftell :: "stream \<Rightarrow> nat" where
  "ftell f = s_pos f"

text \<open>\<open>fseek(file, -k, SEEK_END)\<close>: fails, and changes nothing, before the start of the file.\<close>

definition fseek_end :: "nat \<Rightarrow> stream \<Rightarrow> bool \<times> stream" where
  "fseek_end k f =
     (if k \<le> length (s_data f)
      then (True, f\<lparr>s_pos := length (s_data f) - k, s_eof := False\<rparr>)
      else (False, f))"

definition fseek_set :: "nat \<Rightarrow> stream \<Rightarrow> stream" where
  "fseek_set n f = f\<lparr>s_pos := n, s_eof := False\<rparr>"

definition ftruncate :: "int \<Rightarrow> stream \<Rightarrow> bool \<times> stream" where
  "ftruncate n f =
     (if n < 0 then (False, f)
      else (True, f\<lparr>s_data := take (nat n) (s_data f) @
                      replicate (nat n - length (s_data f)) 0\<rparr>))"

definition fopen_rb :: "os \<Rightarrow> cstring \<Rightarrow> stream option" where
  "fopen_rb w p =
     (if may_open w p
      then map_option (\<lambda>(d, t). \<lparr>s_path = p, s_data = d, s_pos = 0, s_eof = False,
                                 s_err = False, s_write = False\<rparr>) (files w p)
      else None)"

definition fopen_wb :: "os \<Rightarrow> cstring \<Rightarrow> (stream \<times> os) option" where
  "fopen_wb w p =
     (if may_open w p
      then Some (\<lparr>s_path = p, s_data = [], s_pos = 0, s_eof = False, s_err = False,
                  s_write = True\<rparr>, w\<lparr>files := (files w)(p \<mapsto> ([], now w))\<rparr>)
      else None)"

text \<open>Modes \<open>r+b\<close> and \<open>w+b\<close>: the second is \<open>fopen_wb\<close>, since every stream here may be read.\<close>

definition fopen_rplus :: "os \<Rightarrow> cstring \<Rightarrow> stream option" where
  "fopen_rplus w p = map_option (\<lambda>f. f\<lparr>s_write := True\<rparr>) (fopen_rb w p)"

definition fclose :: "stream \<Rightarrow> os \<Rightarrow> os" where
  "fclose f w = (if s_write f
     then w\<lparr>files := (files w)(s_path f \<mapsto> (s_data f, now w))\<rparr> else w)"

definition fflush :: "stream \<Rightarrow> os \<Rightarrow> os" where
  "fflush f w = fclose f w"

definition unlink :: "cstring \<Rightarrow> os \<Rightarrow> os" where
  "unlink p w = w\<lparr>files := (files w)(p := None)\<rparr>"

definition utime :: "cstring \<Rightarrow> time_t \<Rightarrow> os \<Rightarrow> os" where
  "utime p t w = w\<lparr>files := (files w)(p := map_option (\<lambda>(d, _). (d, t)) (files w p))\<rparr>"

definition stat_size :: "os \<Rightarrow> cstring \<Rightarrow> nat option" where
  "stat_size w p = map_option (\<lambda>(d, _). length d) (files w p)"

datatype stat_result = Stat_ok nat | Stat_enoent | Stat_error

definition stat :: "os \<Rightarrow> cstring \<Rightarrow> stat_result" where
  "stat w p = (if stat_denied w p then Stat_error
               else case stat_size w p of None \<Rightarrow> Stat_enoent | Some n \<Rightarrow> Stat_ok n)"

section \<open>Paths\<close>

definition slash :: byte where
  "slash = 47"

definition strip_slashes :: "cstring \<Rightarrow> cstring" where
  "strip_slashes p = rev (dropWhile (\<lambda>c. c = slash) (rev p))"

definition basename :: "cstring \<Rightarrow> cstring" where
  "basename p =
     (if p = [] then [46]
      else let q = strip_slashes p
           in if q = [] then [slash] else rev (takeWhile (\<lambda>c. c \<noteq> slash) (rev q)))"

definition dirname :: "cstring \<Rightarrow> cstring" where
  "dirname p =
     (let q = strip_slashes p;
          d = rev (dropWhile (\<lambda>c. c \<noteq> slash) (rev q))
      in if p \<noteq> [] \<and> q = [] then [slash]
         else if d = [] then [46]
         else if strip_slashes d = [] then [slash] else strip_slashes d)"

section \<open>Laws of the streams\<close>

text \<open>
  What the protocols rely on: reading a healthy file yields its bytes in order and raises
  the end-of-file indicator exactly on a short read; writing at the end appends.
\<close>

definition healthy :: "os \<Rightarrow> stream \<Rightarrow> bool" where
  "healthy w f \<longleftrightarrow> bad_at w (s_path f) = None \<and> \<not> s_err f \<and> \<not> s_eof f"

lemma readable_healthy [simp]: "healthy w f \<Longrightarrow> readable w f = length (s_data f)"
  by (simp add: readable_def healthy_def)

lemma fread_healthy:
  assumes "healthy w f"
  shows "fread w n f =
    (take n (drop (s_pos f) (s_data f)),
     f\<lparr>s_pos := s_pos f + length (take n (drop (s_pos f) (s_data f))),
       s_err := False,
       s_eof := length (take n (drop (s_pos f) (s_data f))) < n\<rparr>)"
  using assms by (auto simp: fread_def Let_def healthy_def readable_def)

lemma fread_length: "length (fst (fread w n f)) \<le> n"
  by (simp add: fread_def Let_def)

lemma fread_s_data [simp]: "s_data (snd (fread w n f)) = s_data f"
  and fread_s_path [simp]: "s_path (snd (fread w n f)) = s_path f"
  and fread_s_write [simp]: "s_write (snd (fread w n f)) = s_write f"
  by (simp_all add: fread_def Let_def)

lemma fwrite_append:
  assumes "s_pos f = length (s_data f)" "length (s_data f) + length bs \<le> space w"
  shows "fwrite w bs f = (length bs, f\<lparr>s_data := s_data f @ bs, s_pos := s_pos f + length bs\<rparr>)"
  using assms by (simp add: fwrite_def Let_def memcpy_def)

lemma fwrite_count: "fst (fwrite w bs f) \<le> length bs"
  by (simp add: fwrite_def Let_def)

lemma fwrite_path [simp]: "s_path (snd (fwrite w bs f)) = s_path f"
  and fwrite_write [simp]: "s_write (snd (fwrite w bs f)) = s_write f"
  by (simp_all add: fwrite_def Let_def)

text \<open>
  The interface between a protocol and the file it copies, as a contract on the
  two operations used: chunks read one after the other make up the file, and chunks
  written one after the other make up the file.
\<close>

locale block_source =
  fixes read :: "nat \<Rightarrow> 'f \<Rightarrow> byte list \<times> 'f"
    and rest :: "'f \<Rightarrow> byte list"
    and ok :: "'f \<Rightarrow> bool"
  assumes read_take: "ok f \<Longrightarrow> fst (read n f) = take n (rest f)"
    and read_rest: "ok f \<Longrightarrow> rest (snd (read n f)) = drop n (rest f)"
    and read_ok: "ok f \<Longrightarrow> n \<le> length (rest f) \<Longrightarrow> ok (snd (read n f))"
begin

fun read_all :: "nat \<Rightarrow> nat \<Rightarrow> 'f \<Rightarrow> byte list list" where
  "read_all 0 n f = []"
| "read_all (Suc k) n f = fst (read n f) # read_all k n (snd (read n f))"

lemma concat_read_all:
  "ok f \<Longrightarrow> k * n \<le> length (rest f) \<Longrightarrow> concat (read_all k n f) = take (k * n) (rest f)"
proof (induction k arbitrary: f)
  case (Suc k)
  then have "ok (snd (read n f))" and "k * n \<le> length (rest (snd (read n f)))"
    by (auto simp: read_ok read_rest)
  with Suc show ?case by (simp add: read_take read_rest take_add)
qed simp

end

definition unread :: "stream \<Rightarrow> byte list" where
  "unread f = drop (s_pos f) (s_data f)"

interpretation healthy_file: block_source "fread w" unread "healthy w" for w
  by unfold_locales (auto simp: fread_healthy unread_def healthy_def min_def add.commute)

end
