(* ===== verification/Transfer_Stats.thy ===== *)
theory Transfer_Stats
  imports Stdio
begin

text \<open>
  The transfer statistics behind the file transfer dialog (\<open>struct
  q_transfer_stats_struct\<close> of protocols.h) and the functions of protocols.c that set
  them.  \<open>unsigned long\<close> counters are 64-bit words and wrap.  A message is its format
  string and the number substituted for \<open>%d\<close>, when there is one.  A null string pointer
  is the empty string.
\<close>

section \<open>Data\<close>

abbreviation (input) FILENAME_SIZE :: nat where
  "FILENAME_SIZE \<equiv> 256"

datatype q_protocol =
    Q_PROTOCOL_ASCII | Q_PROTOCOL_KERMIT | Q_PROTOCOL_XMODEM | Q_PROTOCOL_XMODEM_CRC
  | Q_PROTOCOL_XMODEM_RELAXED | Q_PROTOCOL_XMODEM_1K | Q_PROTOCOL_YMODEM
  | Q_PROTOCOL_ZMODEM | Q_PROTOCOL_XMODEM_1K_G | Q_PROTOCOL_YMODEM_G

datatype q_transfer_state =
    Q_TRANSFER_STATE_INIT | Q_TRANSFER_STATE_FILE_INFO | Q_TRANSFER_STATE_TRANSFER
  | Q_TRANSFER_STATE_FILE_DONE | Q_TRANSFER_STATE_ABORT | Q_TRANSFER_STATE_END

type_synonym message = "string \<times> u32 option"

record transfer_stats =
  t_state :: q_transfer_state
  t_protocol :: q_protocol
  t_protocol_name :: string
  t_filename :: cstring
  t_pathname :: cstring
  t_last_message :: message
  t_bytes_total :: ulong
  t_bytes_transfer :: ulong
  t_blocks :: ulong
  t_block_size :: ulong
  t_blocks_transfer :: ulong
  t_error_count :: ulong
  t_batch_bytes_total :: ulong
  t_batch_bytes_transfer :: ulong
  t_batch_start_time :: time_t
  t_file_start_time :: time_t
  t_end_time :: time_t

definition initial_stats :: transfer_stats where
  "initial_stats =
     \<lparr>t_state = Q_TRANSFER_STATE_INIT, t_protocol = Q_PROTOCOL_ASCII, t_protocol_name = [], t_filename = [],
      t_pathname = [], t_last_message = ([], None), t_bytes_total = 0, t_bytes_transfer = 0, t_blocks = 0,
      t_block_size = 0, t_blocks_transfer = 0, t_error_count = 0, t_batch_bytes_total = 0,
      t_batch_bytes_transfer = 0, t_batch_start_time = 0, t_file_start_time = 0, t_end_time = 0\<rparr>"

record file_info =
  fi_name :: cstring
  fi_size :: nat
  fi_mtime :: time_t

section \<open>Setters\<close>

definition set_transfer_stats_protocol_name :: "string \<Rightarrow> transfer_stats \<Rightarrow> transfer_stats" where
  "set_transfer_stats_protocol_name n t = t\<lparr>t_protocol_name := n\<rparr>"

definition set_transfer_stats_filename :: "cstring \<Rightarrow> transfer_stats \<Rightarrow> transfer_stats" where
  "set_transfer_stats_filename n t = t\<lparr>t_filename := n\<rparr>"

definition set_transfer_stats_pathname :: "cstring \<Rightarrow> transfer_stats \<Rightarrow> transfer_stats" where
  "set_transfer_stats_pathname n t = t\<lparr>t_pathname := n\<rparr>"

definition set_transfer_stats_last_message :: "message \<Rightarrow> transfer_stats \<Rightarrow> transfer_stats" where
  "set_transfer_stats_last_message m t = t\<lparr>t_last_message := m\<rparr>"

text \<open>
  \<open>clear_stats\<close>: per-transfer counters to zero; for a batch upload the total is the sum of
  the sizes of the files of the batch.
\<close>

definition clear_stats :: "file_info list option \<Rightarrow> transfer_stats \<Rightarrow> transfer_stats" where
  "clear_stats batch t =
     t\<lparr>t_filename := [], t_pathname := [], t_protocol_name := [], t_last_message := ([], None),
       t_state := Q_TRANSFER_STATE_INIT,
       t_bytes_total := 0, t_bytes_transfer := 0, t_error_count := 0, t_blocks := 0,
       t_block_size := 0, t_blocks_transfer := 0,
       t_batch_bytes_total := (case batch of None \<Rightarrow> 0
          | Some fs \<Rightarrow> sum_list (map (of_nat \<circ> fi_size) fs)),
       t_batch_bytes_transfer := 0\<rparr>"

lemmas stats_setters = set_transfer_stats_protocol_name_def set_transfer_stats_filename_def
  set_transfer_stats_pathname_def set_transfer_stats_last_message_def

definition transfer_over :: "transfer_stats \<Rightarrow> bool" where
  "transfer_over t \<longleftrightarrow> t_state t = Q_TRANSFER_STATE_ABORT \<or> t_state t = Q_TRANSFER_STATE_END"

end
