(* ===== verification/Xmodem_State.thy ===== *)
theory Xmodem_State
  imports Transfer_Stats
begin

text \<open>
  State of the Xmodem and Ymodem engine (the static variables of xmodem.c) and its
  bookkeeping: timers, timeouts, statistics, cancellation and the end of a transfer.
  The static variables are the fields of the record \<open>xmodem\<close>, under the names they have
  in the source (\<open>file\<close> is \<open>file_ptr\<close>).  \<open>stats\<close> is the global \<open>q_transfer_stats\<close>, \<open>world\<close> the operating
  system, and \<open>out_buf\<close> the bytes in the caller's output buffer, so that
  \<open>output[0] = c; *output_n = 1\<close> is \<open>out_buf := [c]\<close>.  Not modelled are the debug log,
  repainting, \<open>qlog\<close>, the notification dialogs and the music.
\<close>

section \<open>Constants and data\<close>

abbreviation (input) XMODEM_MAX_BLOCK_SIZE :: nat where
  "XMODEM_MAX_BLOCK_SIZE \<equiv> 1029"

datatype xmodem_flavor = X_NORMAL | X_CRC | X_RELAXED | X_1K | X_1K_G | Y_NORMAL | Y_G

datatype xmodem_state =
    INIT | PURGE_INPUT | FIRST_BLOCK | BLOCK | LAST_BLOCK | EOT_ACK | COMPLETE | ABORT
  | YMODEM_BLOCK0 | YMODEM_BLOCK0_ACK1 | YMODEM_BLOCK0_ACK2

record xmodem =
  filename :: "cstring option"
  file_ptr :: "stream option"
  current_block :: "byte list"
  current_block_n :: nat
  current_block_sequence_i :: byte
  current_block_number :: u32
  first_byte :: byte
  sending :: bool
  state :: xmodem_state
  prior_state :: xmodem_state
  timeout_begin :: time_t
  timeout_max :: nat
  timeout_count :: nat
  flavor :: xmodem_flavor
  upload_file_list :: "file_info list"
  upload_file_list_i :: nat
  download_path :: "cstring option"
  download_file_modtime :: time_t
  block0_has_been_seen :: bool
  stats :: transfer_stats
  world :: os
  out_buf :: "byte list"

text \<open>The static initialisers, with the protocol chosen in the dialog.\<close>

definition initial_xmodem :: "q_protocol \<Rightarrow> os \<Rightarrow> xmodem" where
  "initial_xmodem p w =
     \<lparr>filename = None, file_ptr = None, current_block = replicate XMODEM_MAX_BLOCK_SIZE 0,
      current_block_n = 0, current_block_sequence_i = 1, current_block_number = 1, first_byte = C_NAK,
      sending = False, state = INIT, prior_state = INIT, timeout_begin = 0, timeout_max = 10,
      timeout_count = 0, flavor = X_NORMAL, upload_file_list = [], upload_file_list_i = 0,
      download_path = None, download_file_modtime = 0, block0_has_been_seen = False,
      stats = initial_stats\<lparr>t_protocol := p\<rparr>, world = w, out_buf = []\<rparr>"

definition timeout_length :: int where "timeout_length = 10"
definition errors_max :: ulong where "errors_max = 15"

definition is_ymodem :: "xmodem_flavor \<Rightarrow> bool" where
  "is_ymodem f \<longleftrightarrow> f = Y_NORMAL \<or> f = Y_G"

definition is_streaming :: "xmodem_flavor \<Rightarrow> bool" where
  "is_streaming f \<longleftrightarrow> f = X_1K_G \<or> f = Y_G"

definition is_1k :: "xmodem_flavor \<Rightarrow> bool" where
  "is_1k f \<longleftrightarrow> f = X_1K \<or> f = X_1K_G \<or> f = Y_NORMAL \<or> f = Y_G"

section \<open>Block and timer\<close>

definition clear_block :: "xmodem \<Rightarrow> xmodem" where
  "clear_block s = s\<lparr>current_block := replicate XMODEM_MAX_BLOCK_SIZE 0, current_block_n := 0\<rparr>"

definition reset_timer :: "xmodem \<Rightarrow> xmodem" where
  "reset_timer s = s\<lparr>timeout_begin := now (world s)\<rparr>"

definition update_stats :: "(transfer_stats \<Rightarrow> transfer_stats) \<Rightarrow> xmodem \<Rightarrow> xmodem" where
  "update_stats f s = s\<lparr>stats := f (stats s)\<rparr>"

definition last_message :: "string \<Rightarrow> xmodem \<Rightarrow> xmodem" where
  "last_message m = update_stats (set_transfer_stats_last_message (m, None))"

definition last_message_n :: "string \<Rightarrow> xmodem \<Rightarrow> xmodem" where
  "last_message_n m s =
     update_stats (set_transfer_stats_last_message (m, Some (current_block_number s))) s"

section \<open>End of a transfer\<close>

definition xmodem_stop :: "bool \<Rightarrow> xmodem \<Rightarrow> xmodem" where
  "xmodem_stop save_partial s =
     (let w = (case file_ptr s of
                 None \<Rightarrow> world s
               | Some f \<Rightarrow>
                   if save_partial \<or> sending s then fclose f (world s)
                   else (case filename s of
                           None \<Rightarrow> fclose f (world s)
                         | Some n \<Rightarrow> unlink n (fclose f (world s))))
      in s\<lparr>world := w, file_ptr := None, filename := None\<rparr>)"

definition ymodem_stop :: "bool \<Rightarrow> xmodem \<Rightarrow> xmodem" where
  "ymodem_stop save_partial s = (xmodem_stop save_partial s)\<lparr>download_path := None\<rparr>"

text \<open>
  \<open>stop_file_transfer\<close> of protocols.c, as the Xmodem engine sees it: the protocol of the
  statistics selects which engine is stopped.
\<close>

definition stop_file_transfer :: "q_transfer_state \<Rightarrow> xmodem \<Rightarrow> xmodem" where
  "stop_file_transfer new_state s =
     (let s1 = (case t_protocol (stats s) of
                  Q_PROTOCOL_XMODEM \<Rightarrow> xmodem_stop True s
                | Q_PROTOCOL_XMODEM_CRC \<Rightarrow> xmodem_stop True s
                | Q_PROTOCOL_XMODEM_RELAXED \<Rightarrow> xmodem_stop True s
                | Q_PROTOCOL_XMODEM_1K \<Rightarrow> xmodem_stop True s
                | Q_PROTOCOL_XMODEM_1K_G \<Rightarrow> xmodem_stop True s
                | Q_PROTOCOL_YMODEM \<Rightarrow> ymodem_stop True s
                | Q_PROTOCOL_YMODEM_G \<Rightarrow> ymodem_stop True s
                | _ \<Rightarrow> s)
      in update_stats (\<lambda>t. t\<lparr>t_state := new_state, t_end_time := now (world s1)\<rparr>) s1)"

section \<open>Timeouts\<close>

definition check_timeout :: "xmodem \<Rightarrow> bool \<times> xmodem" where
  "check_timeout s =
     (let elapsed = now (world s) - timeout_begin s in
      if sending s \<and> elapsed < 2 * timeout_length then (False, s)
      else if timeout_length \<le> elapsed then
        let s1 = update_stats (\<lambda>t. t\<lparr>t_error_count := t_error_count t + 1\<rparr>)
                   (s\<lparr>timeout_count := timeout_count s + 1\<rparr>);
            s2 = (if timeout_max s1 \<le> timeout_count s1 then
                    let s3 = last_message ''TOO MANY TIMEOUTS, TRANSFER CANCELLED'' s1;
                        s4 = (if sending s3 then s3 else s3\<lparr>out_buf := [C_CAN]\<rparr>)
                    in (stop_file_transfer Q_TRANSFER_STATE_ABORT s4)\<lparr>state := ABORT\<rparr>
                  else (last_message ''TIMEOUT'' s1)
                         \<lparr>prior_state := state s1, state := PURGE_INPUT\<rparr>)
        in (True, reset_timer s2)
      else (False, s))"

section \<open>Statistics\<close>

definition stats_increment_errors_m :: "message \<Rightarrow> xmodem \<Rightarrow> xmodem" where
  "stats_increment_errors_m m s =
     (let s1 = update_stats (\<lambda>t. (set_transfer_stats_last_message m t)
                 \<lparr>t_error_count := t_error_count t + 1\<rparr>) s
      in if errors_max \<le> t_error_count (stats s1)
         then (stop_file_transfer Q_TRANSFER_STATE_ABORT (last_message ''TRANSFER_MAX_ERRORS'' s1))
                \<lparr>state := ABORT\<rparr>
         else s1)"

definition stats_increment_errors :: "string \<Rightarrow> xmodem \<Rightarrow> xmodem" where
  "stats_increment_errors m s = stats_increment_errors_m (m, None) s"

definition stats_increment_errors_n :: "string \<Rightarrow> xmodem \<Rightarrow> xmodem" where
  "stats_increment_errors_n m s = stats_increment_errors_m (m, Some (current_block_number s)) s"

definition stats_file_complete_ok :: "xmodem \<Rightarrow> xmodem" where
  "stats_file_complete_ok s =
     (let s1 = update_stats (\<lambda>t. (set_transfer_stats_last_message (''SUCCESS'', None) t)
                 \<lparr>t_bytes_transfer := t_bytes_total t\<rparr>) s;
          s2 = stop_file_transfer Q_TRANSFER_STATE_END (s1\<lparr>state := COMPLETE\<rparr>)
      in update_stats (\<lambda>t. t\<lparr>t_end_time := now (world s2)\<rparr>) s2)"

definition stats_file_cancelled :: "string \<Rightarrow> xmodem \<Rightarrow> xmodem" where
  "stats_file_cancelled m s =
     (stop_file_transfer Q_TRANSFER_STATE_ABORT (last_message m s))\<lparr>state := ABORT\<rparr>"

definition downgrade_to_vanilla_xmodem :: "xmodem \<Rightarrow> xmodem" where
  "downgrade_to_vanilla_xmodem s =
     (update_stats (\<lambda>t.
        let t1 = (set_transfer_stats_protocol_name ''Xmodem'' t)\<lparr>t_block_size := 128\<rparr>
        in if flavor s = X_1K \<or> flavor s = X_1K_G
           then t1\<lparr>t_blocks := t_bytes_total t1 div 128 +
                     (if t_bytes_total t1 mod 128 > 0 then 1 else 0)\<rparr>
           else t1) s)\<lparr>flavor := X_NORMAL\<rparr>"

text \<open>
  \<open>stats_increment_blocks\<close>: \<open>first\<close> is the first byte of the buffer passed, used by the
  receiver to tell a 1024-byte block.  \<open>bytes_left\<close> is an \<open>int\<close>: the 64-bit difference is
  cut to 32 bits and read as signed; the product of the division is again unsigned long.
\<close>

definition increment_bytes :: "bool \<Rightarrow> byte \<Rightarrow> xmodem \<Rightarrow> transfer_stats \<Rightarrow> transfer_stats \<times> ulong" where
  "increment_bytes xmodem_receiver first s t =
     (if is_1k (flavor s) \<and> first = C_STX \<and> \<not> sending s then
        (let t1 = t\<lparr>t_bytes_transfer := t_bytes_transfer t + 1024\<rparr>
         in (if xmodem_receiver then t1\<lparr>t_bytes_total := t_bytes_total t1 + 1024\<rparr> else t1, 1024))
      else if 1024 \<le> current_block_n s \<and> sending s then
        (t\<lparr>t_bytes_transfer := t_bytes_transfer t + 1024\<rparr>, 1024)
      else
        (let t1 = t\<lparr>t_bytes_transfer := t_bytes_transfer t + 128\<rparr>
         in (if xmodem_receiver then t1\<lparr>t_bytes_total := t_bytes_total t1 + 128\<rparr> else t1, 128)))"

definition recompute_blocks :: "ulong \<Rightarrow> transfer_stats \<Rightarrow> transfer_stats" where
  "recompute_blocks new_block_size t =
     (let bytes_left = sint (ucast (t_bytes_total t - t_bytes_transfer t) :: u32);
          size = uint new_block_size
      in if 0 < bytes_left
         then t\<lparr>t_blocks := word_of_int (bytes_left div size + (if bytes_left mod size > 0 then 1 else 0))
                  + t_blocks_transfer t,
                t_block_size := new_block_size\<rparr>
         else t)"

definition stats_increment_blocks :: "byte \<Rightarrow> xmodem \<Rightarrow> xmodem" where
  "stats_increment_blocks first s =
     (let old_block_size = t_block_size (stats s);
          xmodem_receiver = (\<not> sending s \<and> \<not> is_ymodem (flavor s));
          t0 = (if xmodem_receiver then (stats s)\<lparr>t_blocks := t_blocks (stats s) + 1\<rparr> else stats s);
          t1 = t0\<lparr>t_blocks_transfer := t_blocks_transfer t0 + 1\<rparr>;
          (t2, new_block_size) = increment_bytes xmodem_receiver first s t1;
          t3 = (if \<not> sending s \<and> is_ymodem (flavor s) \<and> t_bytes_total t2 < t_bytes_transfer t2
                then t2\<lparr>t_bytes_transfer := t_bytes_total t2\<rparr>
                else if new_block_size \<noteq> old_block_size \<and> (sending s \<or> is_ymodem (flavor s))
                then recompute_blocks new_block_size t2
                else t2)
      in s\<lparr>stats := t3\<rparr>)"

definition stats_new_file :: "cstring \<Rightarrow> cstring \<Rightarrow> int \<Rightarrow> int \<Rightarrow> xmodem \<Rightarrow> xmodem" where
  "stats_new_file fname pathname filesize blocks s =
     update_stats (\<lambda>t.
       let t1 = t\<lparr>t_batch_bytes_transfer := t_batch_bytes_transfer t + t_bytes_transfer t,
                  t_blocks_transfer := 0, t_bytes_transfer := 0, t_error_count := 0\<rparr>;
           t2 = set_transfer_stats_pathname pathname (set_transfer_stats_filename fname
                  (set_transfer_stats_last_message ([], None) t1))
       in t2\<lparr>t_bytes_total := word_of_int filesize, t_blocks := word_of_int blocks,
             t_block_size := (if is_1k (flavor s) then 1024 else 128),
             t_state := Q_TRANSFER_STATE_TRANSFER,
             t_file_start_time := now (world s)\<rparr>) s"

section \<open>The next file of a batch\<close>

definition close_file :: "xmodem \<Rightarrow> xmodem" where
  "close_file s = s\<lparr>world := (case file_ptr s of None \<Rightarrow> world s | Some f \<Rightarrow> fclose f (world s)),
                    file_ptr := None\<rparr>"

definition setup_for_next_file :: "xmodem \<Rightarrow> bool \<times> xmodem" where
  "setup_for_next_file s =
     (let s1 = (close_file s)\<lparr>filename := None\<rparr> in
      if length (upload_file_list s1) \<le> upload_file_list_i s1 then
        (True, update_stats (\<lambda>t. t\<lparr>t_batch_bytes_transfer :=
                  t_batch_bytes_transfer t + t_bytes_transfer t\<rparr>) s1)
      else
        let fi = upload_file_list s1 ! upload_file_list_i s1 in
        (case fopen_rb (world s1) (fi_name fi) of
           None \<Rightarrow> (False, s1)
         | Some f \<Rightarrow>
             let s2 = (reset_timer (s1\<lparr>file_ptr := Some f\<rparr>))\<lparr>filename := Some (basename (fi_name fi))\<rparr>;
                 blocks = fi_size fi div 1024 + (if fi_size fi mod 1024 > 0 then 1 else 0)
             in (True, stats_new_file (basename (fi_name fi)) (dirname (fi_name fi))
                         (sint (of_nat (fi_size fi) :: u32)) (int blocks) s2)))"

end
