(* ===== verification/Check_Registers.thy ===== *)
theory Check_Registers
  imports Qodem_Prelude
begin

text \<open>
  The error-detecting codes of the transfer protocols are registers that are stepped
  once per byte: the 8-bit sum of Xmodem, the CRC-16 of Xmodem, Ymodem and Zmodem and
  the CRC-32 of Zmodem.  This theory states what such a register promises as two
  locales and proves the consequences once; the protocol theories interpret them on
  their own step functions.  The reference shift registers (\<open>lfsr_left\<close>,
  \<open>lfsr_right\<close>) are the textbook polynomial divisions.
\<close>

section \<open>Registers that lose no information\<close>

locale check_register =
  fixes step :: "'r \<Rightarrow> byte \<Rightarrow> 'r"
  assumes step_inj_register: "step r b = step s b \<Longrightarrow> r = s"
    and step_inj_byte: "step r b = step r c \<Longrightarrow> b = c"
begin

lemma foldl_inj_register: "foldl step r bs = foldl step s bs \<Longrightarrow> r = s"
  by (induction bs arbitrary: r s) (auto dest: step_inj_register)

lemma single_byte_change:
  assumes "foldl step r (xs @ b # ys) = foldl step r (xs @ c # ys)"
  shows "b = c"
proof -
  have "foldl step (step (foldl step r xs) b) ys = foldl step (step (foldl step r xs) c) ys"
    using assms by simp
  then show ?thesis by (blast dest: foldl_inj_register step_inj_byte)
qed

lemma single_byte_error_detected:
  assumes "i < length bs" "b \<noteq> bs ! i"
  shows "foldl step r (bs[i := b]) \<noteq> foldl step r bs"
proof
  assume eq: "foldl step r (bs[i := b]) = foldl step r bs"
  have "bs = take i bs @ bs ! i # drop (Suc i) bs"
    using assms(1) by (rule id_take_nth_drop)
  moreover have "bs[i := b] = take i bs @ b # drop (Suc i) bs"
    using assms(1) by (rule upd_conv_take_nth_drop)
  ultimately have "foldl step r (take i bs @ b # drop (Suc i) bs) =
      foldl step r (take i bs @ bs ! i # drop (Suc i) bs)"
    using eq by simp
  then show False using assms(2) by (blast dest: single_byte_change)
qed

end

section \<open>Linear registers\<close>

locale linear_register = check_register step
  for step :: "'a::len word \<Rightarrow> byte \<Rightarrow> 'a word" +
  assumes step_xor: "step (r XOR s) (b XOR c) = step r b XOR step s c"
begin

lemma step_0_0: "step 0 0 = 0"
  using step_xor [of 0 0 0 0] by simp

lemma foldl_zeros: "foldl step 0 (replicate n 0) = 0"
  by (induction n) (simp_all add: step_0_0)

lemma foldl_xor:
  "length bs = length cs \<Longrightarrow>
   foldl step (r XOR s) (map2 (XOR) bs cs) = foldl step r bs XOR foldl step s cs"
  by (induction bs cs arbitrary: r s rule: list_induct2) (auto simp: step_xor)

text \<open>Whether corruption is seen depends on the error pattern alone, not on the data.\<close>

lemma error_pattern_detected:
  assumes "length bs = length es"
  shows "foldl step r (map2 (XOR) bs es) = foldl step r bs \<longleftrightarrow> foldl step 0 es = 0"
proof -
  have "foldl step r (map2 (XOR) bs es) = foldl step r bs XOR foldl step 0 es"
    using foldl_xor [OF assms, of r 0] by simp
  then show ?thesis using xor_left_cancel [of "foldl step r bs" _ 0] by simp
qed

end

section \<open>Reference shift registers\<close>

definition lfsr_left :: "'a::len word \<Rightarrow> 'a word \<Rightarrow> 'a word" where
  "lfsr_left p r = (if bit r (LENGTH('a) - 1) then push_bit 1 r XOR p else push_bit 1 r)"

definition lfsr_right :: "'a::len word \<Rightarrow> 'a word \<Rightarrow> 'a word" where
  "lfsr_right p r = (if bit r 0 then drop_bit 1 r XOR p else drop_bit 1 r)"

lemma push_bit_1_eqD:
  assumes "push_bit 1 r = push_bit 1 (s :: 'a::len word)"
    and "bit r (LENGTH('a) - 1) = bit s (LENGTH('a) - 1)"
  shows "r = s"
proof (rule bit_word_eqI)
  fix n assume n: "n < LENGTH('a)"
  show "bit r n = bit s n"
  proof (cases "n = LENGTH('a) - 1")
    case True then show ?thesis using assms(2) by simp
  next
    case False
    with n have "Suc n < LENGTH('a)" by linarith
    moreover have "bit (push_bit 1 r) (Suc n) = bit (push_bit 1 s) (Suc n)"
      using assms(1) by simp
    ultimately show ?thesis by (simp only: bit_push_bit_iff) auto
  qed
qed

lemma drop_bit_1_eqD:
  assumes "drop_bit 1 r = drop_bit 1 (s :: 'a::len word)" and "bit r 0 = bit s 0"
  shows "r = s"
proof (rule bit_word_eqI)
  fix n
  show "bit r n = bit s n"
  proof (cases n)
    case 0 then show ?thesis using assms(2) by simp
  next
    case (Suc m)
    have "bit (drop_bit 1 r) m = bit (drop_bit 1 s) m" using assms(1) by simp
    then show ?thesis using Suc by (simp only: bit_drop_bit_eq o_apply) simp
  qed
qed

lemma inj_lfsr_left:
  assumes "bit p 0"
  shows "inj (lfsr_left p)"
proof (rule injI)
  fix r s :: "'a word" assume eq: "lfsr_left p r = lfsr_left p s"
  have n: "\<not> bit (push_bit 1 x) 0" for x :: "'a word"
    by (simp only: bit_push_bit_iff) simp
  have "bit (lfsr_left p x) 0 = bit x (LENGTH('a) - 1)" for x
    using assms n by (auto simp only: lfsr_left_def bit_xor_iff split: if_split)
  with eq have t: "bit r (LENGTH('a) - 1) = bit s (LENGTH('a) - 1)" by metis
  with eq have "push_bit 1 r = push_bit 1 s"
    by (auto simp only: lfsr_left_def xor_right_cancel split: if_split_asm)
  then show "r = s" using t by (rule push_bit_1_eqD)
qed

lemma inj_lfsr_right:
  assumes "bit p (LENGTH('a) - 1)"
  shows "inj (lfsr_right (p :: 'a::len word))"
proof (rule injI)
  fix r s :: "'a word" assume eq: "lfsr_right p r = lfsr_right p s"
  have n: "\<not> bit (drop_bit 1 x) (LENGTH('a) - 1)" for x :: "'a word"
    by (auto simp only: bit_drop_bit_eq o_apply dest!: bit_imp_le_length)
  have "bit (lfsr_right p x) (LENGTH('a) - 1) = bit x 0" for x
    using assms n by (auto simp only: lfsr_right_def bit_xor_iff split: if_split)
  with eq have t: "bit r 0 = bit s 0" by metis
  with eq have "drop_bit 1 r = drop_bit 1 s"
    by (auto simp only: lfsr_right_def xor_right_cancel split: if_split_asm)
  then show "r = s" using t by (rule drop_bit_1_eqD)
qed

lemmas xor_group = xor.assoc xor.left_commute xor.commute xor_self_left xor_self_eq
  xor.right_neutral xor.left_neutral

lemma lfsr_left_xor: "lfsr_left p (r XOR s) = lfsr_left p r XOR lfsr_left p s"
  unfolding lfsr_left_def bit_xor_iff push_bit_xor
  by (simp add: xor_group del: push_bit_of_1)

lemma lfsr_right_xor: "lfsr_right p (r XOR s) = lfsr_right p r XOR lfsr_right p s"
  unfolding lfsr_right_def bit_xor_iff drop_bit_xor
  by (simp add: xor_group)

lemma funpow_xor:
  fixes f :: "'a::len word \<Rightarrow> 'a word"
  assumes "\<And>r s. f (r XOR s) = f r XOR f s"
  shows "(f ^^ n) (r XOR s) = (f ^^ n) r XOR (f ^^ n) s"
  by (induction n) (simp_all add: assms)

text \<open>
  Shifting a register \<open>m\<close> times: its low bits go through the table, the others move down.
\<close>

lemma lfsr_right_shift: "\<not> bit x 0 \<Longrightarrow> lfsr_right p x = drop_bit 1 x"
  by (simp add: lfsr_right_def)

lemma lfsr_right_pow_shift: "(\<And>i. i < m \<Longrightarrow> \<not> bit x i) \<Longrightarrow> (lfsr_right p ^^ m) x = drop_bit m x"
  by (induction m) (simp_all add: lfsr_right_shift bit_drop_bit_eq)

lemma lfsr_right_table:
  "(lfsr_right p ^^ m) (x :: 'a::len word) = (lfsr_right p ^^ m) (x AND mask m) XOR drop_bit m x"
proof -
  have "x = (x AND mask m) XOR (x AND NOT (mask m))"
    by (rule bit_word_eqI) (auto simp only: bit_xor_iff bit_and_iff bit_not_iff possible_bit_word)
  then have "(lfsr_right p ^^ m) x = (lfsr_right p ^^ m) ((x AND mask m) XOR (x AND NOT (mask m)))"
    by (rule arg_cong)
  moreover have "(lfsr_right p ^^ m) (x AND NOT (mask m)) = drop_bit m (x AND NOT (mask m))"
    by (rule lfsr_right_pow_shift) (simp only: bit_and_iff bit_not_iff bit_mask_iff, simp)
  moreover have "drop_bit m (x AND NOT (mask m)) = drop_bit m x"
    by (rule bit_word_eqI) (auto simp only: bit_drop_bit_eq o_apply bit_and_iff bit_not_iff bit_mask_iff, auto dest: bit_imp_le_length)
  ultimately show ?thesis by (simp only: funpow_xor [OF lfsr_right_xor])
qed

section \<open>One byte through a register\<close>

text \<open>
  The CRC-16 register takes a byte at its high end and shifts it left eight times; the
  reflected CRC-32 register takes it at its low end and shifts right.
\<close>

definition crc16_step :: "16 word \<Rightarrow> byte \<Rightarrow> 16 word" where
  "crc16_step r b = (lfsr_left 0x1021 ^^ 8) (r XOR push_bit 8 (ucast b))"

definition crc32_step :: "u32 \<Rightarrow> byte \<Rightarrow> u32" where
  "crc32_step r b = (lfsr_right 0xEDB88320 ^^ 8) (r XOR ucast b)"

lemma crc16_input_inj: "push_bit 8 (ucast b :: 16 word) = push_bit 8 (ucast c) \<Longrightarrow> b = (c :: byte)"
proof (rule bit_word_eqI)
  fix n assume eq: "push_bit 8 (ucast b :: 16 word) = push_bit 8 (ucast c)" and n: "n < LENGTH(8)"
  then have "bit (push_bit 8 (ucast b :: 16 word)) (n + 8) = bit (push_bit 8 (ucast c :: 16 word)) (n + 8)"
    by simp
  then show "bit b n = bit c n" using n by (simp add: bit_push_bit_iff bit_ucast_iff)
qed

lemma ucast_byte_inj: "(ucast b :: u32) = ucast c \<Longrightarrow> b = (c :: byte)"
proof (rule bit_word_eqI)
  fix n assume eq: "(ucast b :: u32) = ucast c" and n: "n < LENGTH(8)"
  then have "bit (ucast b :: u32) n = bit (ucast c :: u32) n" by simp
  then show "bit b n = bit c n" using n by (simp add: bit_ucast_iff)
qed

lemma inj_crc16_shift: "inj (lfsr_left (0x1021 :: 16 word) ^^ 8)"
  by (intro inj_fn inj_lfsr_left) simp

lemma inj_crc32_shift: "inj (lfsr_right (0xEDB88320 :: u32) ^^ 8)"
  by (intro inj_fn inj_lfsr_right) simp

interpretation crc16: linear_register crc16_step
proof unfold_locales
  show "r = s" if "crc16_step r b = crc16_step s b" for r s b
    using injD [OF inj_crc16_shift that [unfolded crc16_step_def]] by (simp add: xor_right_cancel)
  show "b = c" if "crc16_step r b = crc16_step r c" for r b c
    using injD [OF inj_crc16_shift that [unfolded crc16_step_def]]
    by (simp only: xor_left_cancel crc16_input_inj)
  show "crc16_step (r XOR s) (b XOR c) = crc16_step r b XOR crc16_step s c" for r s b c
    unfolding crc16_step_def ucast_xor_distrib push_bit_xor
    by (subst funpow_xor [symmetric], rule lfsr_left_xor) (simp only: xor_group)
qed

interpretation crc32: linear_register crc32_step
proof unfold_locales
  show "r = s" if "crc32_step r b = crc32_step s b" for r s b
    using injD [OF inj_crc32_shift that [unfolded crc32_step_def]] by (simp add: xor_right_cancel)
  show "b = c" if "crc32_step r b = crc32_step r c" for r b c
    using injD [OF inj_crc32_shift that [unfolded crc32_step_def]]
    by (simp only: xor_left_cancel ucast_byte_inj)
  show "crc32_step (r XOR s) (b XOR c) = crc32_step r b XOR crc32_step s c" for r s b c
    unfolding crc32_step_def ucast_xor_distrib
    by (subst funpow_xor [symmetric], rule lfsr_right_xor) (simp only: xor_group)
qed

section \<open>The CRC-16 loop of the engines\<close>

text \<open>
  The Xmodem and the Zmodem engine carry the same bit loop: a register in an \<open>int\<close> whose
  upper half is not cleared between the bytes.  Its low half is the CRC-16 register.
\<close>

definition crc_bit :: "u32 \<Rightarrow> u32" where
  "crc_bit crc = (if crc AND 0x8000 \<noteq> 0 then push_bit 1 crc XOR 0x1021 else push_bit 1 crc)"

definition crc_byte :: "u32 \<Rightarrow> byte \<Rightarrow> u32" where
  "crc_byte crc b = (crc_bit ^^ 8) (crc XOR push_bit 8 (ucast b))"

definition crc_hi :: "u32 \<Rightarrow> byte" where
  "crc_hi crc = ucast (drop_bit 8 crc AND 0xFF)"

definition crc_lo :: "u32 \<Rightarrow> byte" where
  "crc_lo crc = ucast (crc AND 0xFF)"

lemma and_8000: "(c AND 0x8000 \<noteq> (0::u32)) = bit c 15"
  using bit_and_exp [of c 15] by simp

lemma and_FFFF: "w AND 0xFFFF = (ucast (ucast w :: 16 word) :: u32)" 
proof -
  have *: "(0xFFFF::u32) = mask 16" by (simp add: mask_eq_exp_minus_1)
  show ?thesis unfolding *
   by (auto intro!: bit_word_eqI simp only: bit_and_iff bit_ucast_iff bit_mask_iff) (auto dest: bit_imp_le_length)
qed

lemma ucast_push_bit_16: "(ucast (push_bit k (c :: u32)) :: 16 word) = push_bit k (ucast c)"
  by (rule ucast_push_bit_down) simp

lemma ucast_crc_bit: "(ucast (crc_bit c) :: 16 word) = lfsr_left 0x1021 (ucast c)"
proof -
  have "(ucast (0x1021 :: u32) :: 16 word) = 0x1021" by simp
  moreover have "bit (ucast c :: 16 word) (LENGTH(16) - 1) = bit c 15"
    by (simp add: bit_ucast_iff)
  ultimately show ?thesis
    unfolding crc_bit_def lfsr_left_def and_8000
    by (simp only: ucast_push_bit_16 ucast_xor_distrib if_distrib [of ucast])
qed

lemma ucast_crc_byte: "(ucast (crc_byte c b) :: 16 word) = crc16_step (ucast c) b"
proof -
  have "ucast ((crc_bit ^^ n) d) = (lfsr_left (0x1021 :: 16 word) ^^ n) (ucast d)" for n d
    by (induction n) (auto simp: ucast_crc_bit)
  then show ?thesis
    by (simp add: crc_byte_def crc16_step_def ucast_xor_distrib ucast_push_bit_down ucast_ucast_up)
qed

lemma ucast_foldl_crc_byte: "(ucast (foldl crc_byte c bs) :: 16 word) = foldl crc16_step (ucast c) bs"
  by (induction bs arbitrary: c) (auto simp: ucast_crc_byte)

lemma and_FF_byte: "(ucast (w AND 0xFF :: u32) :: byte) = ucast w"
proof -
  have *: "(0xFF::u32) = mask 8" by (simp add: mask_eq_exp_minus_1)
  show ?thesis unfolding *
    by (rule bit_word_eqI) (simp add: bit_and_iff bit_ucast_iff bit_mask_iff del: mask_numeral)
qed

lemma crc_bytes_inj:
  assumes "crc_hi (ucast r) = crc_hi (ucast t)" "crc_lo (ucast r) = crc_lo (ucast t)"
  shows "r = (t :: 16 word)"
proof (rule bit_word_eqI)
  fix n assume n: "n < LENGTH(16)"
  show "bit r n = bit t n"
  proof (cases "n < 8")
    case True
    then have "bit (crc_lo (ucast x)) n = bit x n" for x :: "16 word"
      by (simp add: crc_lo_def and_FF_byte bit_ucast_iff)
    then show ?thesis using assms(2) by metis
  next
    case False
    with n have "n - 8 < 8" by simp
    with False n have "bit (crc_hi (ucast x)) (n - 8) = bit x n" for x :: "16 word"
      by (simp add: crc_hi_def and_FF_byte bit_ucast_iff bit_drop_bit_eq)
    then show ?thesis using assms(1) by metis
  qed
qed

lemma ucast_16_inj: "(ucast r :: u32) = ucast t \<Longrightarrow> r = (t::16 word)"
  by (rule crc_bytes_inj) simp_all

end
