(* ===== verification/Xmodem_Block.thy ===== *)
theory Xmodem_Block
  imports Xmodem_State Check_Registers
begin

text \<open>
  Blocks of Xmodem and Ymodem: the CRC routine, \<open>construct_block\<close> and \<open>verify_block\<close>,
  and Ymodem's block 0 with the name, size and time of a file
  (\<open>ymodem_construct_block_0\<close>, \<open>ymodem_decode_block_0\<close>).  \<open>xframe\<close> is the abstract
  wire format: the theory shows that the sender emits it and that the receiver accepts
  it and appends its payload to the file.
\<close>

section \<open>CRC and checksum\<close>

text \<open>
  \<open>calcrc\<close> keeps its register in an \<open>int\<close> whose upper half is never cleared and masks it
  at the end.
\<close>

definition calcrc :: "byte list \<Rightarrow> u32" where
  "calcrc bs = foldl crc_byte 0 bs AND 0xFFFF"

definition checksum :: "byte list \<Rightarrow> byte" where
  "checksum bs = foldl (+) 0 bs"

section \<open>Constructing a block\<close>

definition put_crc :: "nat \<Rightarrow> xmodem \<Rightarrow> xmodem" where
  "put_crc n s =
     (let crc = calcrc (take n (drop 3 (current_block s)))
      in s\<lparr>current_block := (current_block s)[n + 3 := crc_hi crc, n + 4 := crc_lo crc],
            current_block_n := n + 5\<rparr>)"

definition put_checksum :: "xmodem \<Rightarrow> xmodem" where
  "put_checksum s =
     s\<lparr>current_block := (current_block s)[131 := checksum (take 128 (drop 3 (current_block s)))],
       current_block_n := 132\<rparr>"

definition put_header :: "byte \<Rightarrow> xmodem \<Rightarrow> xmodem" where
  "put_header h s = s\<lparr>current_block := (current_block s)[0 := h]\<rparr>"

definition number_block :: "xmodem \<Rightarrow> xmodem" where
  "number_block s =
     s\<lparr>current_block := (current_block s)[1 := current_block_sequence_i s,
                                           2 := 0xFF - current_block_sequence_i s],
       current_block_sequence_i := current_block_sequence_i s + 1,
       current_block_number := current_block_number s + 1\<rparr>"

text \<open>Read up to \<open>n\<close> bytes of the file into the data area and pad the rest with SUB.\<close>

definition fill_block :: "nat \<Rightarrow> stream \<Rightarrow> xmodem \<Rightarrow> nat option \<times> xmodem" where
  "fill_block n f s =
     (let (got, f') = fread (world s) n f;
          s1 = s\<lparr>file_ptr := Some f', current_block := memcpy (current_block s) 3 got\<rparr>
      in if s_err f' then (None, stats_file_cancelled ''DISK READ ERROR'' s1)
         else let s2 = (if s_eof f' then s1\<lparr>state := LAST_BLOCK\<rparr> else s1)
              in (Some (length got),
                  s2\<lparr>current_block := memcpy (current_block s2) (3 + length got)
                                        (replicate (n - length got) C_SUB)\<rparr>))"

definition construct_block :: "xmodem \<Rightarrow> (bool \<times> xmodem) run" where
  "construct_block s =
     (case file_ptr s of
        None \<Rightarrow> Inl Null_stream
      | Some f \<Rightarrow>
          if flavor s = X_RELAXED \<or> flavor s = X_NORMAL \<or> flavor s = X_CRC then
            (case fill_block 128 f s of
               (None, s1) \<Rightarrow> Inr (False, s1)
             | (Some rc, s1) \<Rightarrow>
                 let s2 = (if flavor s1 = X_CRC then put_crc 128 s1 else put_checksum s1)
                 in Inr (True, number_block (put_header C_SOH s2)))
          else
            (case fill_block 1024 f s of
               (None, s1) \<Rightarrow> Inr (False, s1)
             | (Some rc, s1) \<Rightarrow>
                 let s2 = (if rc \<le> 128 then put_header C_SOH (put_crc 128 s1)
                           else put_header C_STX (put_crc 1024 s1))
                 in Inr (True, number_block s2)))"

section \<open>Verifying a block\<close>

definition block_size_ok :: "xmodem_flavor \<Rightarrow> nat \<Rightarrow> bool" where
  "block_size_ok fl n =
     (case fl of X_RELAXED \<Rightarrow> n = 128 + 4 | X_NORMAL \<Rightarrow> n = 128 + 4 | X_CRC \<Rightarrow> n = 128 + 5
      | _ \<Rightarrow> n = 1024 + 5 \<or> n = 128 + 5)"

definition header_ok :: "xmodem_flavor \<Rightarrow> byte \<Rightarrow> bool" where
  "header_ok fl ch =
     (case fl of X_RELAXED \<Rightarrow> ch = C_SOH | X_NORMAL \<Rightarrow> ch = C_SOH | X_CRC \<Rightarrow> ch = C_SOH
      | _ \<Rightarrow> ch = C_SOH \<or> ch = C_STX)"

text \<open>
  The test of the source for a CRC error over \<open>n\<close> data bytes: both stored bytes differ
  from the computed ones.
\<close>

definition crc_mismatch :: "nat \<Rightarrow> byte list \<Rightarrow> bool" where
  "crc_mismatch n blk =
     (let crc = calcrc (take n (drop 3 blk))
      in crc_hi crc \<noteq> blk ! (n + 3) \<and> crc_lo crc \<noteq> blk ! (n + 4))"

definition checksum_mismatch :: "byte list \<Rightarrow> bool" where
  "checksum_mismatch blk \<longleftrightarrow> checksum (take 128 (drop 3 blk)) \<noteq> blk ! 131"

definition check_error :: "xmodem_flavor \<Rightarrow> byte list \<Rightarrow> string option" where
  "check_error fl blk =
     (if fl = X_NORMAL \<or> fl = X_RELAXED then
        (if checksum_mismatch blk then Some ''CHECKSUM ERROR IN BLOCK #%d'' else None)
      else if fl = X_CRC then
        (if crc_mismatch 128 blk then Some ''CRC ERROR IN BLOCK #%d'' else None)
      else if blk ! 0 = C_SOH then
        (if crc_mismatch 128 blk then Some ''CRC ERROR IN BLOCK #%d'' else None)
      else
        (if crc_mismatch 1024 blk then Some ''CRC ERROR IN BLOCK #%d'' else None))"

text \<open>The rejections of \<open>verify_block\<close> before anything is written, in their order.\<close>

definition verify_error :: "xmodem \<Rightarrow> string option" where
  "verify_error s =
     (let blk = current_block s in
      if \<not> block_size_ok (flavor s) (current_block_n s) then Some ''SHORT/LONG BLOCK #%d''
      else if \<not> header_ok (flavor s) (blk ! 0) then Some ''HEADER ERROR IN BLOCK #%d''
      else if current_block_sequence_i s \<noteq> blk ! 1 then Some ''BAD BLOCK NUMBER IN BLOCK #%d''
      else if uint (blk ! 1) + uint (blk ! 2) \<noteq> 0xFF then Some ''COMPLIMENT BYTE BAD IN BLOCK #%d''
      else if check_error (flavor s) blk \<noteq> None then check_error (flavor s) blk
      else if uint (blk ! 1) = uint (current_block_sequence_i s) - 1 then Some ''DUPLICATE BLOCK #%d''
      else None)"

definition data_length :: "byte list \<Rightarrow> nat" where
  "data_length blk = (if blk ! 0 = C_SOH then 128 else 1024)"

definition verify_block :: "xmodem \<Rightarrow> (bool \<times> xmodem) run" where
  "verify_block s =
     (case verify_error s of
        Some msg \<Rightarrow> Inr (False, stats_increment_errors_n msg s)
      | None \<Rightarrow>
          (case file_ptr s of
             None \<Rightarrow> Inl Null_stream
           | Some f \<Rightarrow>
               let n = data_length (current_block s);
                   (rc, f') = fwrite (world s) (take n (drop 3 (current_block s))) f;
                   s1 = s\<lparr>file_ptr := Some f'\<rparr>
               in if rc \<noteq> n
                  then Inr (False, stats_increment_errors ''FILE WRITE ERROR, IS DISK FULL?'' s1)
                  else Inr (True, s1\<lparr>current_block_sequence_i := current_block_sequence_i s1 + 1,
                                     current_block_number := current_block_number s1 + 1\<rparr>)))"

section \<open>Ymodem block 0\<close>

definition mtime_ulong :: "time_t \<Rightarrow> nat" where
  "mtime_ulong t = nat (t mod 2 ^ 64)"

definition block0_text :: "cstring \<Rightarrow> nat \<Rightarrow> time_t \<Rightarrow> byte list" where
  "block0_text name sz mtime =
     name @ [0] @ digits_base 10 sz @ [32] @ digits_base 8 (mtime_ulong mtime) @ [0]"

definition seal_block0 :: "xmodem \<Rightarrow> xmodem" where
  "seal_block0 s =
     (let s1 = (if 128 + 5 - 2 < current_block_n s then put_header C_STX (put_crc 1024 s)
                else put_header C_SOH (put_crc 128 s))
      in s1\<lparr>current_block := (current_block s1)[1 := current_block_sequence_i s1,
                                                 2 := 0xFF - current_block_sequence_i s1],
            current_block_sequence_i := current_block_sequence_i s1 + 1\<rparr>)"

text \<open>
  The two NUL terminators are not stored, the position only moves over the cleared byte,
  so the last byte written is the one before the end of the text.
\<close>

definition ymodem_construct_block_0 :: "xmodem \<Rightarrow> xmodem run" where
  "ymodem_construct_block_0 s =
     check (is_ymodem (flavor s)) Assert_failed
       (let s1 = s\<lparr>current_block := replicate XMODEM_MAX_BLOCK_SIZE 0, current_block_n := 3\<rparr> in
        if upload_file_list_i s1 < length (upload_file_list s1) then
          (case filename s1 of
             None \<Rightarrow> Inl Null_stream
           | Some name \<Rightarrow>
               let fi = upload_file_list s1 ! upload_file_list_i s1;
                   txt = block0_text name (fi_size fi) (fi_mtime fi)
               in check (3 + length txt - 1 \<le> XMODEM_MAX_BLOCK_SIZE) Buffer_overflow
                    (Inr (seal_block0
                      (s1\<lparr>current_block := memcpy (current_block s1) 3 (butlast txt),
                          current_block_n := 3 + length txt\<rparr>))))
        else Inr (seal_block0 s1))"

text \<open>
  One field of block 0: bytes are copied until the byte \<^emph>\<open>after\<close> the one just copied is a
  terminator, at most 255 of them.
\<close>

fun read_field :: "(byte \<Rightarrow> bool) \<Rightarrow> byte list \<Rightarrow> nat \<Rightarrow> nat \<Rightarrow> byte list \<times> nat" where
  "read_field stop blk 0 n = ([], n)"
| "read_field stop blk (Suc k) n =
     (if stop (blk ! Suc n) then ([blk ! n], Suc n)
      else (case read_field stop blk k (Suc n) of (bs, m) \<Rightarrow> (blk ! n # bs, m)))"

fun octal_start :: "byte list \<Rightarrow> bool" where
  "octal_start [] = False"
| "octal_start (c # cs) =
     (if c = 45 \<or> c = 43 then cs \<noteq> [] \<and> 48 \<le> hd cs \<and> hd cs \<le> 55 else 48 \<le> c \<and> c \<le> 55)"

definition sscanf_lo :: "cstring \<Rightarrow> time_t \<Rightarrow> time_t" where
  "sscanf_lo bs old =
     (let cs = dropWhile is_space bs
      in if octal_start cs then sint (word_of_int (signed_numeral 8 cs) :: ulong) else old)"

definition block0_error :: "xmodem \<Rightarrow> string option" where
  "block0_error s =
     (let blk = current_block s in
      if current_block_n s \<noteq> 1024 + 5 \<and> current_block_n s \<noteq> 128 + 5 then Some ''SHORT/LONG BLOCK #%d''
      else if blk ! 0 \<noteq> C_SOH \<and> blk ! 0 \<noteq> C_STX then Some ''HEADER ERROR IN BLOCK #%d''
      else if current_block_sequence_i s \<noteq> blk ! 1 then Some ''BAD BLOCK NUMBER IN BLOCK #%d''
      else if uint (blk ! 1) + uint (blk ! 2) \<noteq> 0xFF then Some ''COMPLIMENT BYTE BAD IN BLOCK #%d''
      else if crc_mismatch (data_length blk) blk then Some ''CRC ERROR IN BLOCK #%d''
      else None)"

text \<open>
  Once the file is open: size and modification time.  \<open>length\<close> and \<open>blocks\<close> are \<open>int\<close>,
  with C's division.
\<close>

definition decode_block0_rest :: "cstring \<Rightarrow> xmodem \<Rightarrow> xmodem" where
  "decode_block0_rest fname s =
     (let (len_bytes, n1) = read_field (\<lambda>c. c = 0 \<or> c = 32) (current_block s) (FILENAME_SIZE - 1)
                              (current_block_n s);
          blk = (current_block s)[n1 := 32];
          n2 = n1 + 1;
          len = sint (word_of_int (atol (c_string len_bytes)) :: u32);
          blocks = (if len < 0 then - ((- len) div 1024) else len div 1024);
          blocks' = (if 0 < len \<and> 0 < len mod 1024 then blocks + 1 else blocks);
          (time_bytes, n3) = read_field (\<lambda>c. c = 0 \<or> c = 32) blk (FILENAME_SIZE - 1) n2;
          s1 = s\<lparr>current_block := blk, current_block_n := n3,
                 download_file_modtime := sscanf_lo (c_string time_bytes) (download_file_modtime s)\<rparr>;
          s2 = stats_new_file fname (t_pathname (stats s1)) len blocks' s1
      in s2\<lparr>current_block_sequence_i := current_block_sequence_i s2 + 1\<rparr>)"

definition ymodem_decode_block_0 :: "xmodem \<Rightarrow> (bool \<times> xmodem) run" where
  "ymodem_decode_block_0 s =
     check (is_ymodem (flavor s)) Assert_failed
       (case block0_error s of
          Some msg \<Rightarrow> Inr (False, stats_increment_errors_n msg s)
        | None \<Rightarrow>
            let (name_bytes, n) = read_field (\<lambda>c. c = 0) (current_block s) (FILENAME_SIZE - 1) 3;
                fname = c_string name_bytes;
                s1 = s\<lparr>current_block_n := n + 1, filename := Some fname\<rparr>
            in if fname = [] then Inr (True, s1)
               else (case download_path s1 of
                  None \<Rightarrow> Inl Null_stream
                | Some dir \<Rightarrow>
                    check (length dir + 1 + length fname < FILENAME_SIZE) Buffer_overflow
                      (case fopen_wb (world s1) (dir @ [slash] @ fname) of
                         None \<Rightarrow> Inr (False, stats_increment_errors ''FILE OPEN ERROR'' (s1\<lparr>file_ptr := None\<rparr>))
                       | Some (f, w) \<Rightarrow>
                           Inr (True, decode_block0_rest fname (s1\<lparr>file_ptr := Some f, world := w\<rparr>)))))"

section \<open>Facts on the CRC\<close>

lemma calcrc_eq: "calcrc bs = ucast (foldl crc16_step 0 bs)"
  by (simp add: calcrc_def and_FFFF ucast_foldl_crc_byte)

lemma calcrc_bytes_inj:
  "crc_hi (calcrc xs) = crc_hi (calcrc ys) \<Longrightarrow> crc_lo (calcrc xs) = crc_lo (calcrc ys) \<Longrightarrow> calcrc xs = calcrc ys"
  unfolding calcrc_eq by (drule (1) crc_bytes_inj) simp

interpretation sum8: check_register "(+) :: byte \<Rightarrow> byte \<Rightarrow> byte"
  by unfold_locales auto

lemma calcrc_zeros: "calcrc (replicate n 0) = 0"
  by (simp add: calcrc_eq crc16.foldl_zeros)

section \<open>The wire format\<close>

definition xframe :: "xmodem_flavor \<Rightarrow> byte \<Rightarrow> byte list \<Rightarrow> byte list" where
  "xframe fl seq p =
     [if length p = 128 then C_SOH else C_STX, seq, 0xFF - seq] @ p @
     (if fl = X_NORMAL \<or> fl = X_RELAXED then [checksum p]
      else [crc_hi (calcrc p), crc_lo (calcrc p)])"

definition payload_ok :: "xmodem_flavor \<Rightarrow> byte list \<Rightarrow> bool" where
  "payload_ok fl p \<longleftrightarrow> length p = 128 \<or> (is_1k fl \<and> length p = 1024)"

text \<open>The payload of the next block of a file: what is left of it, padded with SUB.\<close>

definition next_payload :: "xmodem_flavor \<Rightarrow> byte list \<Rightarrow> byte list" where
  "next_payload fl rest =
     (if is_1k fl \<and> 128 < length rest
      then take 1024 rest @ replicate (1024 - length rest) C_SUB
      else take 128 rest @ replicate (128 - length rest) C_SUB)"

definition chunk_size :: "xmodem_flavor \<Rightarrow> nat" where
  "chunk_size fl = (if is_1k fl then 1024 else 128)"

definition sent_block :: "xmodem \<Rightarrow> byte list" where
  "sent_block s = take (current_block_n s) (current_block s)"

lemma length_next_payload: "payload_ok fl (next_payload fl rest)"
  by (auto simp: payload_ok_def next_payload_def)

lemma take_update_end: "m < length r \<Longrightarrow> take (Suc m) (r[m := h]) = take m r @ [h]"
  by (simp add: take_Suc_conv_app_nth)

lemma take_update_end2:
  "Suc m < length r \<Longrightarrow> take (Suc (Suc m)) (r[m := h, Suc m := l]) = take m r @ [h, l]"
  by (simp add: take_Suc_conv_app_nth)

lemma split3: "3 \<le> length blk \<Longrightarrow> \<exists>x y z r. blk = x # y # z # r"
  by (cases blk; cases "tl blk"; cases "tl (tl blk)") auto

lemma memcpy_3: "memcpy (x # y # z # r) 3 p = x # y # z # p @ drop (length p) r"
  by (simp add: memcpy_def numeral_3_eq_3)

lemma take_framed2:
  assumes "m \<le> length p" "3 + length p \<le> length blk" "m + 5 \<le> length blk"
  shows "take (m + 5) ((memcpy blk 3 p)[m + 3 := h, m + 4 := l, 0 := a, Suc 0 := b, 2 := c]) =
         [a, b, c] @ take m p @ [h, l]"
proof -
  obtain x y z r where blk: "blk = x # y # z # r" using split3 [of blk] assms by auto
  let ?r = "p @ drop (length p) r"
  have "m + 5 = Suc (Suc (Suc (Suc (Suc m))))" "m + 3 = Suc (Suc (Suc m))"
    "m + 4 = Suc (Suc (Suc (Suc m)))" by auto
  moreover have "Suc m < length ?r" using assms blk by simp
  ultimately show ?thesis using assms(1) unfolding blk memcpy_3
    by (simp only: numeral_2_eq_2 list_update_code take_Suc_Cons take_update_end2) simp
qed

lemma take_framed1:
  assumes "m \<le> length p" "3 + length p \<le> length blk" "m + 4 \<le> length blk"
  shows "take (m + 4) ((memcpy blk 3 p)[m + 3 := h, 0 := a, Suc 0 := b, 2 := c]) =
         [a, b, c] @ take m p @ [h]"
proof -
  obtain x y z r where blk: "blk = x # y # z # r" using split3 [of blk] assms by auto
  let ?r = "p @ drop (length p) r"
  have "m + 4 = Suc (Suc (Suc (Suc m)))" "m + 3 = Suc (Suc (Suc m))" by auto
  moreover have "m < length ?r" using assms blk by simp
  ultimately show ?thesis using assms(1) unfolding blk memcpy_3
    by (simp only: numeral_2_eq_2 list_update_code take_Suc_Cons take_update_end) simp
qed

lemma memcpy_memcpy_next:
  "off + length xs + length ys \<le> length blk \<Longrightarrow>
   memcpy (memcpy blk off xs) (off + length xs) ys = memcpy blk off (xs @ ys)"
  by (simp add: memcpy_def ac_simps)

lemma fill_block_healthy:
  assumes "healthy (world s) f" "3 + n \<le> length (current_block s)"
  defines "got \<equiv> take n (unread f)"
  shows "fill_block n f s =
     (Some (length got),
      s\<lparr>file_ptr := Some (snd (fread (world s) n f)),
        current_block := memcpy (current_block s) 3 (got @ replicate (n - length got) C_SUB),
        state := (if length (unread f) < n then LAST_BLOCK else state s)\<rparr>)"
proof -
  have "memcpy (memcpy (current_block s) 3 got) (3 + length got) (replicate (n - length got) C_SUB) =
        memcpy (current_block s) 3 (got @ replicate (n - length got) C_SUB)"
    using assms(2) by (intro memcpy_memcpy_next) (auto simp: got_def)
  then show ?thesis
    unfolding fill_block_def fread_healthy [OF assms(1)] got_def
    by (auto simp: Let_def unread_def)
qed

lemma slice_memcpy:
  "m \<le> length p \<Longrightarrow> off \<le> length blk \<Longrightarrow> take m (drop off (memcpy blk off p)) = take m p"
  by (simp add: memcpy_def)

definition padded :: "nat \<Rightarrow> byte list \<Rightarrow> byte list" where
  "padded n rest = take n rest @ replicate (n - length (take n rest)) C_SUB"

lemma length_padded [simp]: "length (padded n rest) = n"
  by (simp add: padded_def)

lemma take_padded: "length (take n rest) \<le> m \<Longrightarrow> m \<le> n \<Longrightarrow> take m (padded n rest) = padded m rest"
  by (auto simp: padded_def min_def split: if_splits)

lemma next_payload_padded:
  "next_payload fl rest = (if is_1k fl \<and> 128 < length rest then padded 1024 rest else padded 128 rest)"
  by (auto simp: next_payload_def padded_def min_def)

definition constructed :: "xmodem \<Rightarrow> stream \<Rightarrow> nat \<Rightarrow> byte list \<Rightarrow> xmodem" where
  "constructed s f n blk =
     s\<lparr>file_ptr := Some (snd (fread (world s) (chunk_size (flavor s)) f)),
       state := (if length (unread f) < chunk_size (flavor s) then LAST_BLOCK else state s),
       current_block_n := n, current_block := blk,
       current_block_sequence_i := current_block_sequence_i s + 1,
       current_block_number := current_block_number s + 1\<rparr>"

lemma fill_block_padded:
  assumes "healthy (world s) f" "3 + n \<le> length (current_block s)"
  shows "fill_block n f s =
     (Some (length (take n (unread f))),
      s\<lparr>file_ptr := Some (snd (fread (world s) n f)),
        state := (if length (unread f) < n then LAST_BLOCK else state s),
        current_block := memcpy (current_block s) 3 (padded n (unread f))\<rparr>)"
  using fill_block_healthy [OF assms] by (simp add: padded_def)

lemma frame_existsI:
  "\<lbrakk>c = Inr (True, constructed s f n blk); length blk = 1029; take n blk = fr; length fr = n\<rbrakk>
   \<Longrightarrow> \<exists>blk. c = Inr (True, constructed s f (length fr) blk) \<and>
            length blk = 1029 \<and> take (length fr) blk = fr"
  by auto

lemma construct_block_128:
  assumes f: "file_ptr s = Some f" "healthy (world s) f" and len: "length (current_block s) = 1029"
    and fl: "flavor s = X_RELAXED \<or> flavor s = X_NORMAL \<or> flavor s = X_CRC"
  defines "fr \<equiv> xframe (flavor s) (current_block_sequence_i s) (padded 128 (unread f))"
  shows "\<exists>blk. construct_block s = Inr (True, constructed s f (length fr) blk) \<and>
               length blk = 1029 \<and> take (length fr) blk = fr"
proof -
  let ?p = "padded 128 (unread f)"
  let ?mem = "memcpy (current_block s) 3 ?p"
  have fill: "fill_block 128 f s = (Some (length (take 128 (unread f))),
      s\<lparr>file_ptr := Some (snd (fread (world s) 128 f)),
        state := (if length (unread f) < 128 then LAST_BLOCK else state s), current_block := ?mem\<rparr>)"
    using len by (intro fill_block_padded f) simp
  have slice: "take 128 (drop 3 ?mem) = ?p" using len by (simp add: slice_memcpy)
  have chunk: "chunk_size (flavor s) = 128" using fl by (auto simp: chunk_size_def is_1k_def)
  let ?blk2 = "?mem[131 := crc_hi (calcrc ?p), 132 := crc_lo (calcrc ?p), 0 := C_SOH,
     Suc 0 := current_block_sequence_i s, 2 := 0xFF - current_block_sequence_i s]"
  let ?blk1 = "?mem[131 := checksum ?p, 0 := C_SOH,
     Suc 0 := current_block_sequence_i s, 2 := 0xFF - current_block_sequence_i s]"
  show ?thesis
  proof (cases "flavor s = X_CRC")
    case True
    have c: "construct_block s = Inr (True, constructed s f 133 ?blk2)"
      unfolding constructed_def chunk
      using True by (simp add: construct_block_def f fill put_crc_def put_header_def
          number_block_def slice Let_def)
    have "fr = [C_SOH, current_block_sequence_i s, 0xFF - current_block_sequence_i s] @ ?p @
        [crc_hi (calcrc ?p), crc_lo (calcrc ?p)]"
      using True by (simp add: fr_def xframe_def)
    then show ?thesis using take_framed2 [of 128 ?p "current_block s"] len
      by (intro frame_existsI [OF c]) simp_all
  next
    case False
    have c: "construct_block s = Inr (True, constructed s f 132 ?blk1)"
      unfolding constructed_def chunk
      using False fl by (simp add: construct_block_def f fill put_checksum_def put_header_def
          number_block_def slice Let_def)
    have "fr = [C_SOH, current_block_sequence_i s, 0xFF - current_block_sequence_i s] @ ?p @
        [checksum ?p]"
      using False fl by (auto simp add: fr_def xframe_def)
    then show ?thesis using take_framed1 [of 128 ?p "current_block s"] len
      by (intro frame_existsI [OF c]) simp_all
  qed
qed

lemma construct_block_1k:
  assumes f: "file_ptr s = Some f" "healthy (world s) f" and len: "length (current_block s) = 1029"
    and fl: "is_1k (flavor s)"
  defines "p \<equiv> next_payload (flavor s) (unread f)"
  defines "fr \<equiv> xframe (flavor s) (current_block_sequence_i s) p"
  shows "\<exists>blk. construct_block s = Inr (True, constructed s f (length fr) blk) \<and>
               length blk = 1029 \<and> take (length fr) blk = fr"
proof -
  let ?q = "padded 1024 (unread f)"
  let ?mem = "memcpy (current_block s) 3 ?q"
  let ?m = "length p"
  have p: "p = take ?m ?q" and m: "?m = (if 128 < length (unread f) then 1024 else 128)"
    using fl by (auto simp: p_def next_payload_padded take_padded)
  have fill: "fill_block 1024 f s = (Some (length (take 1024 (unread f))),
      s\<lparr>file_ptr := Some (snd (fread (world s) 1024 f)),
        state := (if length (unread f) < 1024 then LAST_BLOCK else state s), current_block := ?mem\<rparr>)"
    using len by (intro fill_block_padded f) simp
  have slice: "take ?m (drop 3 ?mem) = p" using len m p by (simp add: slice_memcpy)
  have chunk: "chunk_size (flavor s) = 1024" using fl by (auto simp: chunk_size_def)
  have nf: "\<not> (flavor s = X_RELAXED \<or> flavor s = X_NORMAL \<or> flavor s = X_CRC)"
    using fl by (auto simp: is_1k_def)
  let ?h = "if ?m = 128 then C_SOH else C_STX"
  let ?blk = "?mem[?m + 3 := crc_hi (calcrc p), ?m + 4 := crc_lo (calcrc p), 0 := ?h,
     Suc 0 := current_block_sequence_i s, 2 := 0xFF - current_block_sequence_i s]"
  have c: "construct_block s = Inr (True, constructed s f (?m + 5) ?blk)"
    unfolding constructed_def chunk
    using nf slice m by (simp add: construct_block_def f fill put_crc_def put_header_def
        number_block_def Let_def split: if_splits)
  have fr: "fr = [?h, current_block_sequence_i s, 0xFF - current_block_sequence_i s] @ p @
      [crc_hi (calcrc p), crc_lo (calcrc p)]"
    using nf by (simp add: fr_def xframe_def)
  have "take (?m + 5) ?blk = [?h, current_block_sequence_i s, 0xFF - current_block_sequence_i s] @ p @
      [crc_hi (calcrc p), crc_lo (calcrc p)]"
    using len m p take_framed2 [of ?m ?q "current_block s"] by simp
  then show ?thesis using len fr by (intro frame_existsI [OF c]) simp_all
qed

lemma construct_block_frame:
  assumes "file_ptr s = Some f" "healthy (world s) f" "length (current_block s) = 1029"
  defines "fr \<equiv> xframe (flavor s) (current_block_sequence_i s) (next_payload (flavor s) (unread f))"
  shows "\<exists>blk. construct_block s = Inr (True, constructed s f (length fr) blk) \<and>
               length blk = 1029 \<and> take (length fr) blk = fr"
proof (cases "is_1k (flavor s)")
  case True
  then show ?thesis using construct_block_1k [OF assms(1-3)] by (simp add: fr_def)
next
  case False
  then have "flavor s = X_RELAXED \<or> flavor s = X_NORMAL \<or> flavor s = X_CRC"
    by (cases "flavor s") (auto simp: is_1k_def)
  then show ?thesis using construct_block_128 [OF assms(1-3)] False
    by (simp add: fr_def next_payload_padded)
qed

lemma uint_complement: "uint x + uint (0xFF - x :: byte) = 0xFF"
proof -
  have "uint x < 256" "0 \<le> uint x" using uint_lt2p [of x] by simp_all
  then have "(255 - uint x) mod 256 = 255 - uint x" by (intro mod_pos_pos_trivial) linarith+
  then show ?thesis by (simp add: uint_word_ariths)
qed

lemma complement_unique: "uint x + uint y = 0xFF \<Longrightarrow> y = (0xFF - x :: byte)"
  using uint_complement [of x] by (intro word_uint_eqI) linarith

lemma header_distinct [simp]: "C_STX \<noteq> C_SOH" "C_SOH \<noteq> C_STX"
  by (simp_all add: control_bytes)

lemma framed_block:
  assumes "take (length fr) blk = fr" "fr = [a, b, c] @ p @ chk"
  shows "blk ! 0 = a" "blk ! 1 = b" "blk ! 2 = c" "take (length p) (drop 3 blk) = p"
    "i < length chk \<Longrightarrow> blk ! (length p + 3 + i) = chk ! i"
proof -
  have "blk = a # b # c # p @ chk @ drop (length fr) blk"
    using assms by (metis append.assoc append_Cons append_Nil append_take_drop_id)
  then obtain r where r: "blk = a # b # c # p @ chk @ r" ..
  show "blk ! 0 = a" "blk ! 1 = b" "blk ! 2 = c" "take (length p) (drop 3 blk) = p"
    by (simp_all add: r numeral_2_eq_2 numeral_3_eq_3)
  show "blk ! (length p + 3 + i) = chk ! i" if "i < length chk"
    using that by (simp add: r numeral_3_eq_3 nth_append)
qed

lemma xframe_block:
  assumes "take (length fr) blk = fr" "fr = xframe fl seq p" "payload_ok fl p"
  shows "blk ! 0 = (if length p = 128 then C_SOH else C_STX)" "blk ! 1 = seq" "blk ! 2 = 0xFF - seq"
    "data_length blk = length p" "take (length p) (drop 3 blk) = p"
    "check_error fl blk = None" "header_ok fl (blk ! 0)" "block_size_ok fl (length fr)"
proof -
  let ?chk = "if fl = X_NORMAL \<or> fl = X_RELAXED then [checksum p] else [crc_hi (calcrc p), crc_lo (calcrc p)]"
  have fr: "fr = [if length p = 128 then C_SOH else C_STX, seq, 0xFF - seq] @ p @ ?chk"
    using assms(2) by (simp add: xframe_def)
  note fb = framed_block [OF assms(1) fr]
  show b: "blk ! 0 = (if length p = 128 then C_SOH else C_STX)" "blk ! 1 = seq" "blk ! 2 = 0xFF - seq"
    and d: "take (length p) (drop 3 blk) = p" using fb by simp_all
  show dl: "data_length blk = length p"
    using assms(3) b by (auto simp: data_length_def payload_ok_def)
  show "check_error fl blk = None"
    using assms(3) b d fb(5) [of 0] fb(5) [of 1]
    by (cases fl) (auto simp: check_error_def crc_mismatch_def checksum_mismatch_def payload_ok_def is_1k_def)
  show "header_ok fl (blk ! 0)" "block_size_ok fl (length fr)"
    using assms(3) b unfolding fr
    by (cases fl; auto simp: header_ok_def block_size_ok_def payload_ok_def is_1k_def)+
qed

lemma verify_error_frame:
  assumes "take (current_block_n s) (current_block s) = fr" "current_block_n s = length fr"
    "fr = xframe (flavor s) (current_block_sequence_i s) p" "payload_ok (flavor s) p"
  shows "verify_error s = None"
proof -
  have "take (length fr) (current_block s) = fr" using assms by simp
  note x = xframe_block [OF this assms(3,4)]
  have "uint (current_block_sequence_i s) + uint (255 - current_block_sequence_i s) = 255"
    using uint_complement by simp
  then show ?thesis unfolding verify_error_def Let_def using x by (simp add: assms(2))
qed

lemma verify_block_frame:
  assumes "take (current_block_n s) (current_block s) = fr" "current_block_n s = length fr"
    "fr = xframe (flavor s) (current_block_sequence_i s) p" "payload_ok (flavor s) p"
    and f: "file_ptr s = Some f" "s_pos f = length (s_data f)"
    "length (s_data f) + length p \<le> space (world s)"
  shows "verify_block s = Inr (True,
     s\<lparr>file_ptr := Some (f\<lparr>s_data := s_data f @ p, s_pos := s_pos f + length p\<rparr>),
       current_block_sequence_i := current_block_sequence_i s + 1,
       current_block_number := current_block_number s + 1\<rparr>)"
proof -
  have "take (length fr) (current_block s) = fr" using assms by simp
  note x = xframe_block [OF this assms(3,4)]
  show ?thesis
    using x(4,5) f(1) fwrite_append [OF f(2,3)]
    by (simp add: verify_block_def verify_error_frame [OF assms(1-4)] Let_def)
qed

lemma nth_3_split:
  assumes "n + 4 \<le> length blk"
  shows "take (n + 4) blk = [blk ! 0, blk ! 1, blk ! 2] @ take n (drop 3 blk) @ [blk ! (n + 3)]"
proof -
  obtain x y z r where r: "blk = x # y # z # r" using split3 [of blk] assms by auto
  have "n < length r" using assms r by simp
  moreover have "take (n + 4) (x # y # z # r) = x # y # z # take (Suc n) r"
    by (simp add: eval_nat_numeral)
  ultimately show ?thesis unfolding r
    by (simp add: numeral_2_eq_2 numeral_3_eq_3 take_Suc_conv_app_nth)
qed

lemma checksum_verify_iff:
  assumes "length (current_block s) = 1029" "flavor s = X_NORMAL \<or> flavor s = X_RELAXED"
    "current_block_n s = 132"
  shows "verify_error s = None \<longleftrightarrow>
    take 132 (current_block s) =
      xframe (flavor s) (current_block_sequence_i s) (take 128 (drop 3 (current_block s)))"
    (is "?L \<longleftrightarrow> ?R")
proof
  let ?p = "take 128 (drop 3 (current_block s))"
  have lp: "length ?p = 128" using assms(1) by simp
  { assume ?R
    then show ?L using assms lp
      by (intro verify_error_frame [where p = ?p]) (auto simp: payload_ok_def xframe_def) }
  assume ?L
  then have a: "current_block s ! 0 = C_SOH" "current_block s ! 1 = current_block_sequence_i s"
    "uint (current_block s ! 1) + uint (current_block s ! 2) = 0xFF"
    "checksum ?p = current_block s ! 131"
    using assms by (auto simp: verify_error_def Let_def header_ok_def check_error_def
        checksum_mismatch_def split: if_splits)
  then have "current_block s ! 2 = 0xFF - current_block_sequence_i s"
    by (metis complement_unique)
  then show ?R using a lp assms nth_3_split [of 128 "current_block s"] by (auto simp: xframe_def)
qed

lemma crc16_step_89: "crc16_step 0 0x89 = 0xA1"
  by code_simp

lemma foldl_crc16_snoc_xor:
  "foldl crc16_step r (xs @ [b XOR e]) = foldl crc16_step r (xs @ [b]) XOR crc16_step 0 e"
  using crc16.step_xor [of "foldl crc16_step r xs" 0 b e] by simp

lemma crc_hi_xor: "crc_hi (c XOR d) = crc_hi c XOR crc_hi d"
  unfolding crc_hi_def and_FF_byte
  by (rule bit_word_eqI) (simp add: bit_ucast_iff bit_drop_bit_eq bit_xor_iff)

lemma calcrc_snoc_89:
  "crc_hi (calcrc (xs @ [b XOR 0x89])) = crc_hi (calcrc (xs @ [b]))"
proof -
  have "calcrc (xs @ [b XOR 0x89]) = calcrc (xs @ [b]) XOR 0xA1"
    unfolding calcrc_eq foldl_crc16_snoc_xor crc16_step_89 ucast_xor_distrib by simp
  moreover have "crc_hi 0xA1 = 0" by (simp add: crc_hi_def)
  ultimately show ?thesis by (simp add: crc_hi_xor)
qed

end
