(* ===== verification/Xmodem_Receive.thy ===== *)
theory Xmodem_Receive
  imports Xmodem_Block
begin

text \<open>
  The receiver, \<open>xmodem_receive\<close>, split along the states and the phases of its BLOCK
  state.  Every function takes the unread input and the engine state and returns the
  input that is left (\<open>*input_n\<close> bytes) and the new state.
\<close>

section \<open>Starting\<close>

definition receive_init :: "xmodem \<Rightarrow> xmodem" where
  "receive_init s =
     reset_timer (s\<lparr>out_buf := [first_byte s],
       state := (if flavor s = X_NORMAL \<or> flavor s = X_RELAXED \<or> flavor s = Y_NORMAL \<or> flavor s = Y_G
                 then BLOCK else FIRST_BLOCK)\<rparr>)"

definition first_block_timeout :: "xmodem \<Rightarrow> xmodem" where
  "first_block_timeout s =
     (if 3 < now (world s) - timeout_begin s then
        let s1 = s\<lparr>timeout_count := timeout_count s + 1\<rparr>;
            s2 = (if 5 \<le> timeout_count s1 then
                    downgrade_to_vanilla_xmodem
                      ((stats_increment_errors ''FALLBACK TO NORMAL XMODEM'' s1)
                         \<lparr>out_buf := [C_NAK], prior_state := BLOCK, state := PURGE_INPUT\<rparr>)
                  else stats_increment_errors ''TIMEOUT'' s1)
        in (reset_timer s2)\<lparr>out_buf := [first_byte s2]\<rparr>
      else s)"

section \<open>End of file\<close>

text \<open>
  The loop that drops the padding: read the last byte of the file, cut the file when it
  is SUB, stop when it is not.  \<open>filesize\<close>, an \<open>int\<close> of 32 bits, is the position where the
  previous turn left the stream; a failed seek or an empty read leaves \<open>last_byte\<close> as it was.
\<close>

definition int_of_long :: "nat \<Rightarrow> int" where
  "int_of_long n = sint (of_nat n :: u32)"

partial_function (option) trim_subs ::
  "os \<Rightarrow> stream \<Rightarrow> byte \<Rightarrow> ulong \<Rightarrow> ulong \<Rightarrow> (stream \<times> ulong \<times> ulong) option" where
  "trim_subs w f last_byte transfer total_b =
     (let filesize = int_of_long (ftell f);
          f1 = snd (fseek_end 1 f);
          got = fst (fread w 1 f1);
          f2 = snd (fread w 1 f1);
          last_byte' = (if got = [] then last_byte else hd got)
      in if last_byte' = C_SUB
         then trim_subs w (snd (ftruncate (filesize - 1) f2)) last_byte' (transfer - 1) (total_b - 1)
         else Some (f2, transfer, total_b))"

definition full_name :: "cstring \<Rightarrow> cstring \<Rightarrow> cstring" where
  "full_name dir name = dir @ [slash] @ name"

definition receive_eot_xmodem :: "xmodem \<Rightarrow> (byte list \<times> xmodem) run" where
  "receive_eot_xmodem s =
     (case file_ptr s of
        None \<Rightarrow> Inl Null_stream
      | Some f \<Rightarrow>
          (case trim_subs (world s) f (uninit (world s))
                  (t_bytes_transfer (stats s)) (t_bytes_total (stats s)) of
             None \<Rightarrow> Inl Diverges
           | Some (f', transfer, total_b) \<Rightarrow>
               Inr ([], stats_file_complete_ok
                 ((update_stats (\<lambda>t. t\<lparr>t_bytes_transfer := transfer, t_bytes_total := total_b\<rparr>)
                    (s\<lparr>file_ptr := Some f'\<rparr>))\<lparr>out_buf := [C_ACK]\<rparr>))))"

definition receive_eot_ymodem :: "xmodem \<Rightarrow> (byte list \<times> xmodem) run" where
  "receive_eot_ymodem s =
     (case file_ptr s of
        None \<Rightarrow> Inl Null_stream
      | Some f \<Rightarrow>
          let f' = snd (ftruncate (sint (t_bytes_total (stats s))) f);
              s1 = s\<lparr>world := fclose f' (world s), file_ptr := None\<rparr>
          in (case (download_path s1, filename s1) of
                (Some dir, Some name) \<Rightarrow>
                  check (length (full_name dir name) < FILENAME_SIZE) Buffer_overflow
                    (let s2 = s1\<lparr>world := utime (full_name dir name) (download_file_modtime s1) (world s1)\<rparr>;
                         s3 = update_stats (\<lambda>t. t\<lparr>t_state := Q_TRANSFER_STATE_FILE_DONE\<rparr>)
                                (last_message ''EOF'' s2)
                     in Inr ([], s3\<lparr>out_buf := [C_ACK, first_byte s3], block0_has_been_seen := False,
                                    current_block_sequence_i := 0, current_block_number := 1\<rparr>))
              | _ \<Rightarrow> Inl Null_stream))"

definition receive_eot :: "xmodem \<Rightarrow> (byte list \<times> xmodem) run" where
  "receive_eot s =
     (if is_ymodem (flavor s) then receive_eot_ymodem (clear_block s)
      else receive_eot_xmodem (clear_block s))"

definition at_eot :: "xmodem \<Rightarrow> bool" where
  "at_eot s \<longleftrightarrow> current_block_n s = 1 \<and> current_block s ! 0 = C_EOT"

section \<open>Data blocks\<close>

definition purge_from_block :: "xmodem \<Rightarrow> xmodem" where
  "purge_from_block s = s\<lparr>prior_state := BLOCK, state := PURGE_INPUT\<rparr>"

definition append_input :: "byte list \<Rightarrow> xmodem \<Rightarrow> xmodem" where
  "append_input bs s =
     s\<lparr>current_block := memcpy (current_block s) (current_block_n s) bs,
       current_block_n := current_block_n s + length bs\<rparr>"

text \<open>The -G flavors: blocks come without pause, the receiver cuts them out of the input.\<close>

definition receive_streamed :: "byte list \<Rightarrow> xmodem \<Rightarrow> (byte list \<times> xmodem) run" where
  "receive_streamed inp s =
     (let n = (if current_block s ! 0 = C_SOH then 128 + 5 else 1024 + 5) in
      check (current_block_n s < n) Assert_failed
        (if length inp + current_block_n s < n then
           (let s1 = append_input inp s
            in if at_eot s1 then receive_eot s1 else Inr ([], s1))
         else
           (let k = n - current_block_n s;
                s1 = append_input (take k inp) s
            in andthen (verify_block s1) (\<lambda>(ok, s2).
                 if \<not> ok then Inr ([], stats_file_cancelled ''Xmodem 1K/G error'' (clear_block s2))
                 else Inr (drop k inp,
                        clear_block (stats_increment_blocks (current_block s2 ! 0) s2))))))"

definition receive_block0 :: "xmodem \<Rightarrow> (byte list \<times> xmodem) run" where
  "receive_block0 s =
     (if current_block s ! 0 = C_STX \<and> XMODEM_MAX_BLOCK_SIZE \<le> current_block_n s \<or>
         current_block s ! 0 = C_SOH \<and> 128 + 5 \<le> current_block_n s then
        andthen (ymodem_decode_block_0 s) (\<lambda>(ok, s1).
          if ok then
            (let s2 = clear_block (s1\<lparr>out_buf := [C_ACK, first_byte s1], block0_has_been_seen := True\<rparr>)
             in (case filename s2 of
                   None \<Rightarrow> Inl Null_stream
                 | Some name \<Rightarrow>
                     Inr ([], if name = [] then stats_file_complete_ok (s2\<lparr>out_buf := [C_ACK]\<rparr>) else s2)))
          else Inr ([], purge_from_block (clear_block s1)))
      else Inr ([], s))"

definition waiting_for_data :: "xmodem \<Rightarrow> bool" where
  "waiting_for_data s =
     (if is_1k (flavor s) then
        current_block s ! 0 = C_STX \<and> current_block_n s < XMODEM_MAX_BLOCK_SIZE \<or>
        current_block_n s < 128 + 5
      else if flavor s = X_CRC then current_block_n s < 128 + 5
      else current_block_n s < 128 + 4)"

definition receive_data :: "xmodem \<Rightarrow> (byte list \<times> xmodem) run" where
  "receive_data s =
     (if waiting_for_data s then Inr ([], s)
      else andthen (verify_block s) (\<lambda>(ok, s1).
        if \<not> ok then
          (if state s1 = ABORT then Inr ([], s1) else Inr ([], purge_from_block (clear_block s1)))
        else Inr ([], clear_block (stats_increment_blocks (current_block s1 ! 0)
                        (s1\<lparr>out_buf := [C_ACK]\<rparr>)))))"

definition receive_no_data :: "xmodem \<Rightarrow> xmodem" where
  "receive_no_data s =
     (let (timed_out, s1) = check_timeout s in
      if timed_out \<and> state s1 \<noteq> ABORT then
        let s2 = last_message_n ''SENDING NAK #%d'' (s1\<lparr>out_buf := [first_byte s1]\<rparr>)
        in if current_block_number s2 = 1 then s2\<lparr>state := prior_state s2\<rparr> else s2
      else s1)"

definition receive_stored :: "byte list \<Rightarrow> xmodem \<Rightarrow> (byte list \<times> xmodem) run" where
  "receive_stored inp s =
     (if XMODEM_MAX_BLOCK_SIZE < current_block_n s + length inp then
        Inr ([], purge_from_block (clear_block s))
      else
        let s1 = append_input inp s in
        if at_eot s1 then receive_eot s1
        else if is_ymodem (flavor s1) \<and> current_block_sequence_i s1 = 0 \<and>
                current_block_number s1 = 1 \<and> \<not> block0_has_been_seen s1
        then receive_block0 s1
        else receive_data s1)"

definition receive_block :: "byte list \<Rightarrow> xmodem \<Rightarrow> (byte list \<times> xmodem) run" where
  "receive_block inp s =
     (if inp = [] then Inr ([], receive_no_data s)
      else
        let s1 = reset_timer s in
        if XMODEM_MAX_BLOCK_SIZE < current_block_n s1 + length inp \<and> \<not> is_streaming (flavor s1)
        then Inr ([], purge_from_block s1)
        else if is_streaming (flavor s1) \<and>
                \<not> (current_block_sequence_i s1 = 0 \<and> current_block_number s1 = 1)
        then receive_streamed inp s1
        else receive_stored inp s1)"

section \<open>The receiver\<close>

definition receive_purge :: "xmodem \<Rightarrow> xmodem" where
  "receive_purge s =
     last_message_n ''SENDING NAK #%d'' (s\<lparr>out_buf := [C_NAK], state := prior_state s\<rparr>)"

definition xmodem_receive :: "byte list \<Rightarrow> xmodem \<Rightarrow> (byte list \<times> xmodem) run" where
  "xmodem_receive inp s =
     (if state s = INIT then Inr ([], receive_init s)
      else if state s = FIRST_BLOCK \<and> inp = [] then Inr ([], first_block_timeout s)
      else
        let s1 = (if state s = FIRST_BLOCK then s\<lparr>state := BLOCK\<rparr> else s) in
        if state s1 = BLOCK then receive_block inp s1
        else if state s1 = PURGE_INPUT \<and> inp = [] then Inr ([], receive_purge s1)
        else Inr ([], s1))"

end
