(* ===== verification/Xmodem_Send.thy ===== *)
theory Xmodem_Send
  imports Xmodem_Receive
begin

text \<open>
  The sender, \<open>xmodem_send\<close>.  The source runs through its states top to bottom, a state
  may fall through into a later one with a changed input buffer.  A phase is
  therefore either done, with the input that is left, or passes input and state on.
\<close>

datatype phase = Done "byte list" xmodem | Pass "byte list" xmodem

definition put_output :: "byte list \<Rightarrow> xmodem \<Rightarrow> xmodem" where
  "put_output bs s = s\<lparr>out_buf := out_buf s @ bs\<rparr>"

definition waits_ack :: "byte list \<Rightarrow> xmodem \<Rightarrow> bool" where
  "waits_ack inp s \<longleftrightarrow> inp = [C_ACK] \<or> flavor s = X_1K_G \<or> flavor s = Y_G"

section \<open>Phases of the sender\<close>

definition send_init :: "byte list \<Rightarrow> xmodem \<Rightarrow> phase" where
  "send_init inp s =
     (let s1 = last_message ''WAITING FOR NAK'' s in
      if inp = [] then Done [] (snd (check_timeout s1))
      else if flavor s1 = X_RELAXED \<or> flavor s1 = X_NORMAL then
        (if hd inp = first_byte s1
         then Pass (C_ACK # tl inp) (last_message '''' (s1\<lparr>state := BLOCK\<rparr>))
         else Done [] s1)
      else if flavor s1 = X_CRC \<or> flavor s1 = X_1K \<or> flavor s1 = X_1K_G then
        (if hd inp = first_byte s1
         then Pass (C_ACK # tl inp) (last_message '''' (s1\<lparr>state := BLOCK\<rparr>))
         else if hd inp = C_NAK
         then Pass (C_ACK # tl inp)
                ((downgrade_to_vanilla_xmodem (last_message '''' s1))\<lparr>state := BLOCK\<rparr>)
         else Done [] s1)
      else
        (if hd inp = first_byte s1 then Pass inp (s1\<lparr>state := YMODEM_BLOCK0\<rparr>) else Pass inp s1))"

definition send_block0 :: "xmodem \<Rightarrow> xmodem run" where
  "send_block0 s =
     andthen (ymodem_construct_block_0 s) (\<lambda>s1.
       check (out_buf s1 = []) Assert_failed
         (let s2 = put_output (sent_block s1) s1;
              s3 = (if filename s2 \<noteq> None then last_message ''SENDING HEADER'' s2 else s2)
          in Inr (reset_timer (s3\<lparr>state := YMODEM_BLOCK0_ACK1\<rparr>))))"

definition send_block0_ack1 :: "byte list \<Rightarrow> xmodem \<Rightarrow> phase" where
  "send_block0_ack1 inp s =
     (if flavor s = Y_G \<and> filename s = None then Done [] (stats_file_complete_ok s)
      else if inp = [] then Done [] (snd (check_timeout s))
      else
        let acked = (hd inp = C_ACK \<and> flavor s = Y_NORMAL \<or> hd inp = 71 \<and> flavor s = Y_G) in
        if acked \<and> filename s = None then Done [] (stats_file_complete_ok s)
        else
          let (inp1, s1) =
                (if \<not> acked then (inp, s)
                 else if flavor s = Y_NORMAL then
                   (if length inp = 2 \<and> inp ! 1 = first_byte s then ([C_ACK], s\<lparr>state := BLOCK\<rparr>)
                    else (inp, s\<lparr>state := YMODEM_BLOCK0_ACK2\<rparr>))
                 else ([], s\<lparr>state := BLOCK\<rparr>))
          in if inp1 = [C_NAK] then Done [] (s1\<lparr>state := YMODEM_BLOCK0, current_block_sequence_i := 0\<rparr>)
             else Pass inp1 (last_message '''' s1))"

definition send_block0_ack2 :: "byte list \<Rightarrow> xmodem \<Rightarrow> phase" where
  "send_block0_ack2 inp s =
     (if inp = [] then Done [] (snd (check_timeout s))
      else if inp = [first_byte s] then Pass [C_ACK] (last_message '''' (s\<lparr>state := BLOCK\<rparr>))
      else Pass inp (last_message '''' s))"

text \<open>
  Every branch of the BLOCK state returns.  \<open>stats_increment_blocks\<close> is passed the input
  buffer, whose first byte only the receiver's branch of it looks at.
\<close>

definition send_new_block :: "byte list \<Rightarrow> xmodem \<Rightarrow> xmodem run" where
  "send_new_block inp s =
     andthen (construct_block (clear_block (reset_timer s))) (\<lambda>(ok, s1).
       if \<not> ok then Inr s1
       else check (is_streaming (flavor s1) \<or> out_buf s1 = []) Assert_failed
         (let s2 = put_output (sent_block s1) s1
          in Inr (if state s2 = LAST_BLOCK
                  then update_stats (\<lambda>t. t\<lparr>t_bytes_transfer := t_bytes_total t\<rparr>) s2
                  else stats_increment_blocks (if inp = [] then 0 else hd inp) s2)))"

definition send_block :: "byte list \<Rightarrow> xmodem \<Rightarrow> xmodem run" where
  "send_block inp s =
     (if waits_ack inp s then send_new_block inp s
      else if inp = [C_NAK] then
        Inr (stats_increment_errors ''NAK'' (s\<lparr>prior_state := BLOCK, state := PURGE_INPUT\<rparr>))
      else if inp = [] then
        (let (timed_out, s1) = check_timeout s
         in Inr (if timed_out then s1\<lparr>prior_state := BLOCK, state := PURGE_INPUT\<rparr> else s1))
      else
        Inr (stats_increment_errors ''LINE NOISE, !@#&*%U''
               (s\<lparr>prior_state := BLOCK, state := PURGE_INPUT\<rparr>)))"

definition send_purge :: "byte list \<Rightarrow> xmodem \<Rightarrow> xmodem run" where
  "send_purge inp s =
     (let s1 = reset_timer s in
      if inp = [] then
        (if prior_state s1 = BLOCK \<or> prior_state s1 = LAST_BLOCK
         then check (out_buf s1 = []) Assert_failed
                (Inr ((put_output (sent_block s1) s1)\<lparr>state := prior_state s1\<rparr>))
         else Inr (s1\<lparr>state := prior_state s1\<rparr>))
      else Inr s1)"

definition send_last_block :: "byte list \<Rightarrow> xmodem \<Rightarrow> byte list \<times> xmodem" where
  "send_last_block inp s =
     (if waits_ack inp s then
        ([], reset_timer (update_stats
               (\<lambda>t. t\<lparr>t_blocks_transfer := t_blocks_transfer t + 1, t_bytes_transfer := t_bytes_total t\<rparr>)
               (last_message ''SENDING EOT'' ((put_output [C_EOT] s)\<lparr>state := EOT_ACK\<rparr>))))
      else if inp = [C_NAK] then
        ([], stats_increment_errors ''NAK'' (s\<lparr>prior_state := LAST_BLOCK, state := PURGE_INPUT\<rparr>))
      else if inp = [] then ([], snd (check_timeout s))
      else
        (inp, stats_increment_errors ''LINE NOISE, !@#&*%U''
                (s\<lparr>prior_state := LAST_BLOCK, state := PURGE_INPUT\<rparr>)))"

definition send_next_file :: "xmodem \<Rightarrow> xmodem" where
  "send_next_file s =
     (let s1 = update_stats (\<lambda>t. t\<lparr>t_bytes_transfer := t_bytes_total t\<rparr>) (last_message ''EOF'' s);
          s2 = snd (setup_for_next_file (s1\<lparr>upload_file_list_i := upload_file_list_i s1 + 1\<rparr>))
      in reset_timer ((clear_block (s2\<lparr>current_block_sequence_i := 0, current_block_number := 1,
                                        timeout_count := 0\<rparr>))\<lparr>state := INIT\<rparr>))"

definition send_eot_ack :: "byte list \<Rightarrow> xmodem \<Rightarrow> (byte list \<times> xmodem) run" where
  "send_eot_ack inp s =
     (if inp = [] then
        (let (timed_out, s1) = check_timeout s
         in Inr ([], if timed_out then put_output [C_EOT] s1 else s1))
      else if hd inp = C_ACK then
        (case file_ptr s of
           None \<Rightarrow> Inl Null_stream
         | Some f \<Rightarrow>
             let s1 = close_file s in
             if is_ymodem (flavor s1)
             then Inr (if 1 < length inp then tl inp else inp, send_next_file s1)
             else Inr ([], stats_file_complete_ok s1))
      else Inr ([], s))"

section \<open>The sender\<close>

definition send_data_phase :: "byte list \<Rightarrow> xmodem \<Rightarrow> (byte list \<times> xmodem) run" where
  "send_data_phase inp s =
     (if state s = BLOCK then andthen (send_block inp s) (\<lambda>s1. Inr ([], s1))
      else if state s = PURGE_INPUT then andthen (send_purge inp s) (\<lambda>s1. Inr ([], s1))
      else if state s = LAST_BLOCK then Inr (send_last_block inp s)
      else if state s = EOT_ACK then send_eot_ack inp s
      else Inr ([], s))"

definition send_ack2_phase :: "byte list \<Rightarrow> xmodem \<Rightarrow> (byte list \<times> xmodem) run" where
  "send_ack2_phase inp s =
     (case (if state s = YMODEM_BLOCK0_ACK2 then send_block0_ack2 inp s else Pass inp s) of
        Done inp1 s1 \<Rightarrow> Inr (inp1, s1)
      | Pass inp1 s1 \<Rightarrow> send_data_phase inp1 s1)"

definition send_ack1_phase :: "byte list \<Rightarrow> xmodem \<Rightarrow> (byte list \<times> xmodem) run" where
  "send_ack1_phase inp s =
     (if state s = YMODEM_BLOCK0 then andthen (send_block0 s) (\<lambda>s1. Inr ([], s1))
      else (case (if state s = YMODEM_BLOCK0_ACK1 then send_block0_ack1 inp s else Pass inp s) of
              Done inp1 s1 \<Rightarrow> Inr (inp1, s1)
            | Pass inp1 s1 \<Rightarrow> send_ack2_phase inp1 s1))"

definition xmodem_send :: "byte list \<Rightarrow> xmodem \<Rightarrow> (byte list \<times> xmodem) run" where
  "xmodem_send inp s =
     (if inp \<noteq> [] \<and> hd inp = C_CAN
      then Inr ([], stats_file_cancelled ''TRANSFER CANCELLED BY RECEIVER'' s)
      else (case (if state s = INIT then send_init inp s else Pass inp s) of
              Done inp1 s1 \<Rightarrow> Inr (inp1, s1)
            | Pass inp1 s1 \<Rightarrow> send_ack1_phase inp1 s1))"

end
