(* ===== verification/Xmodem_Engine.thy ===== *)
theory Xmodem_Engine
  imports Xmodem_Send
begin

text \<open>
  The entry points of the Xmodem and Ymodem engine: \<open>xmodem\<close> with its two loops,
  \<open>xmodem_start\<close> and \<open>ymodem_start\<close>, and the parts of \<open>start_file_transfer\<close> and
  \<open>protocol_process_data\<close> of protocols.c that drive them.  Both loops are shown to
  terminate.
\<close>

section \<open>How much input a call leaves\<close>

lemma drop_shorter: "n < k \<Longrightarrow> drop (k - n) inp \<noteq> [] \<Longrightarrow> length (drop (k - n) inp) < length inp"
  by simp

lemma receive_eot_input: "receive_eot s = Inr (inp', s') \<Longrightarrow> inp' = []"
  by (auto simp: receive_eot_def receive_eot_xmodem_def receive_eot_ymodem_def Let_def
      split: if_splits option.splits)

lemma receive_streamed_input:
  "receive_streamed inp s = Inr (inp', s') \<Longrightarrow> inp' \<noteq> [] \<Longrightarrow> length inp' < length inp"
  by (auto simp: receive_streamed_def Let_def andthen_eq_Inr
      split: if_splits dest: receive_eot_input)

lemma receive_stored_input: "receive_stored inp s = Inr (inp', s') \<Longrightarrow> inp' = []"
  by (auto simp: receive_stored_def receive_block0_def receive_data_def Let_def andthen_eq_Inr
      split: if_splits option.splits dest: receive_eot_input)

lemma xmodem_receive_input:
  "xmodem_receive inp s = Inr (inp', s') \<Longrightarrow> inp' \<noteq> [] \<Longrightarrow> length inp' < length inp"
  by (auto simp: xmodem_receive_def receive_block_def Let_def split: if_splits
      dest: receive_streamed_input receive_stored_input)

section \<open>The loops of xmodem\<close>

function receive_loop :: "byte list \<Rightarrow> xmodem \<Rightarrow> xmodem run" where
  "receive_loop inp s =
     (case xmodem_receive inp s of
        Inl e \<Rightarrow> Inl e
      | Inr (inp', s') \<Rightarrow> if inp' = [] then Inr s' else receive_loop inp' s')"
  by auto
termination
  by (relation "measure (\<lambda>(inp, s). length inp)") (auto dest: xmodem_receive_input)

text \<open>
  The sender's loop has no count to rest on: the input is left alone when noise follows
  the last block, and when the ACK of a Ymodem EOT is the only byte.  Both leave the two
  states in which this can happen.
\<close>

definition keeps_input :: "xmodem \<Rightarrow> bool" where
  "keeps_input s \<longleftrightarrow> state s = LAST_BLOCK \<or> state s = EOT_ACK"

lemma state_update_stats [simp]: "state (update_stats f s) = state s"
  by (simp add: update_stats_def)

lemma state_stats_increment_errors:
  "state (stats_increment_errors m s) = ABORT \<or> state (stats_increment_errors m s) = state s"
  by (auto simp: stats_increment_errors_def stats_increment_errors_m_def Let_def)

lemma send_eot_ack_input:
  "send_eot_ack inp s = Inr (inp', s') \<Longrightarrow> inp' \<noteq> [] \<Longrightarrow> state s' = INIT"
  by (auto simp: send_eot_ack_def send_next_file_def reset_timer_def Let_def
      split: if_splits option.splits prod.splits)

lemma send_last_block_input:
  "send_last_block inp s = (inp', s') \<Longrightarrow> inp' \<noteq> [] \<Longrightarrow> state s' = PURGE_INPUT \<or> state s' = ABORT"
  using state_stats_increment_errors [of "''LINE NOISE, !@#&*%U''" "s\<lparr>prior_state := LAST_BLOCK, state := PURGE_INPUT\<rparr>"]
  by (auto simp: send_last_block_def split: if_splits)

lemma send_data_phase_input:
  "send_data_phase inp s = Inr (inp', s') \<Longrightarrow> inp' \<noteq> [] \<Longrightarrow> keeps_input s \<and> \<not> keeps_input s'"
  by (auto simp: send_data_phase_def andthen_eq_Inr keeps_input_def split: if_splits
      dest!: send_eot_ack_input send_last_block_input)

lemma send_block0_ack1_pass:
  "send_block0_ack1 inp s = Pass inp' s' \<Longrightarrow> state s = YMODEM_BLOCK0_ACK1 \<Longrightarrow> \<not> keeps_input s'"
  by (auto simp: send_block0_ack1_def keeps_input_def last_message_def Let_def split: if_splits)

lemma send_block0_ack1_done: "send_block0_ack1 inp s = Done inp' s' \<Longrightarrow> inp' = []"
  by (auto simp: send_block0_ack1_def Let_def split: if_splits)

lemma send_block0_ack2_pass:
  "send_block0_ack2 inp s = Pass inp' s' \<Longrightarrow> state s = YMODEM_BLOCK0_ACK2 \<Longrightarrow> \<not> keeps_input s'"
  by (auto simp: send_block0_ack2_def keeps_input_def last_message_def split: if_splits)

lemma send_block0_ack2_done: "send_block0_ack2 inp s = Done inp' s' \<Longrightarrow> inp' = []"
  by (auto simp: send_block0_ack2_def split: if_splits)

lemma send_init_pass: "send_init inp s = Pass inp' s' \<Longrightarrow> state s = INIT \<Longrightarrow> \<not> keeps_input s'"
  by (auto simp: send_init_def keeps_input_def last_message_def Let_def split: if_splits)

lemma send_init_done: "send_init inp s = Done inp' s' \<Longrightarrow> inp' = []"
  by (auto simp: send_init_def Let_def split: if_splits)

lemma send_ack2_phase_input:
  "send_ack2_phase inp s = Inr (inp', s') \<Longrightarrow> inp' \<noteq> [] \<Longrightarrow> keeps_input s \<and> \<not> keeps_input s'"
  by (auto simp: send_ack2_phase_def split: phase.splits if_splits
      dest: send_block0_ack2_done send_block0_ack2_pass send_data_phase_input)

lemma send_ack1_phase_input:
  "send_ack1_phase inp s = Inr (inp', s') \<Longrightarrow> inp' \<noteq> [] \<Longrightarrow> keeps_input s \<and> \<not> keeps_input s'"
  by (auto simp: send_ack1_phase_def andthen_eq_Inr split: phase.splits if_splits
      dest: send_block0_ack1_done send_block0_ack1_pass send_ack2_phase_input)

lemma xmodem_send_input:
  "xmodem_send inp s = Inr (inp', s') \<Longrightarrow> inp' \<noteq> [] \<Longrightarrow> keeps_input s \<and> \<not> keeps_input s'"
  by (auto simp: xmodem_send_def split: phase.splits if_splits
      dest: send_init_done send_init_pass send_ack1_phase_input)

function send_loop :: "byte list \<Rightarrow> xmodem \<Rightarrow> xmodem run" where
  "send_loop inp s =
     (case xmodem_send inp s of
        Inl e \<Rightarrow> Inl e
      | Inr (inp', s') \<Rightarrow> if inp' = [] then Inr s' else send_loop inp' s')"
  by auto
termination
  by (relation "measure (\<lambda>(inp, s). if keeps_input s then 1 else 0)") (auto dest: xmodem_send_input)

declare receive_loop.simps [simp del] send_loop.simps [simp del]

text \<open>
  \<open>xmodem\<close>: the first component says whether \<open>*remaining\<close> was set to 0, that is, whether
  the input was taken.
\<close>

definition xmodem :: "byte list \<Rightarrow> nat \<Rightarrow> xmodem \<Rightarrow> (bool \<times> xmodem) run" where
  "xmodem inp output_max s =
     check (XMODEM_MAX_BLOCK_SIZE < output_max) Assert_failed
       (if state s = ABORT then Inr (False, s)
        else if \<not> sending s then andthen (receive_loop inp s) (\<lambda>s'. Inr (True, s'))
        else if (of_nat output_max - of_nat (length (out_buf s)) :: u32) < 1029 then Inr (False, s)
        else andthen (send_loop inp s) (\<lambda>s'. Inr (True, s')))"

section \<open>Starting a transfer\<close>

definition start_blocks :: "ulong \<Rightarrow> xmodem \<Rightarrow> xmodem" where
  "start_blocks sz s =
     update_stats (\<lambda>t.
       let unit = (if flavor s = X_1K \<or> flavor s = X_1K_G then 1024 else 128);
           b = sz div unit
       in t\<lparr>t_bytes_total := sz, t_blocks := (if 0 < b mod unit then b + 1 else b)\<rparr>) s"

definition xmodem_first_byte :: "xmodem_flavor \<Rightarrow> byte" where
  "xmodem_first_byte fl =
     (case fl of X_RELAXED \<Rightarrow> C_NAK | X_NORMAL \<Rightarrow> C_NAK | X_CRC \<Rightarrow> 67 | X_1K \<Rightarrow> 67 | Y_NORMAL \<Rightarrow> 67
      | X_1K_G \<Rightarrow> 71 | Y_G \<Rightarrow> 71)"

definition open_for_transfer :: "cstring \<Rightarrow> bool \<Rightarrow> xmodem \<Rightarrow> bool \<times> xmodem" where
  "open_for_transfer name send s =
     (if send then
        (if stat_size (world s) name = None then (False, s)
         else (case fopen_rb (world s) name of
                 None \<Rightarrow> (False, s\<lparr>file_ptr := None\<rparr>)
               | Some f \<Rightarrow> (True, reset_timer (s\<lparr>file_ptr := Some f\<rparr>))))
      else (case fopen_wb (world s) name of
              None \<Rightarrow> (False, s\<lparr>file_ptr := None\<rparr>)
            | Some (f, w) \<Rightarrow> (True, s\<lparr>file_ptr := Some f, world := w\<rparr>)))"

definition xmodem_start :: "cstring \<Rightarrow> bool \<Rightarrow> xmodem_flavor \<Rightarrow> xmodem \<Rightarrow> (bool \<times> xmodem) run" where
  "xmodem_start name send fl s =
     (let (opened, s1) = open_for_transfer name send (s\<lparr>state := ABORT\<rparr>) in
      if \<not> opened then Inr (False, s1)
      else
        let s2 = clear_block (s1\<lparr>filename := Some name, sending := send, flavor := fl, state := INIT,
                                 current_block_sequence_i := 1, current_block_number := 1,
                                 timeout_count := 0, timeout_max := 10\<rparr>)
        in (case (if send then stat_size (world s2) name else Some 0) of
              None \<Rightarrow> Inr (False, s2)
            | Some sz \<Rightarrow>
                check (\<not> is_ymodem fl) Abort_called
                  (let s3 = (if send then start_blocks (of_nat sz) s2 else s2);
                       s4 = update_stats (\<lambda>t. t\<lparr>t_block_size :=
                              (if fl = X_1K \<or> fl = X_1K_G then 1024 else 128)\<rparr>) s3;
                       s5 = s4\<lparr>timeout_max := (if fl = X_RELAXED then 10 * timeout_max s4 else timeout_max s4),
                               first_byte := xmodem_first_byte fl\<rparr>
                   in Inr (True, last_message '''' s5))))"

definition ymodem_start ::
  "file_info list \<Rightarrow> cstring \<Rightarrow> bool \<Rightarrow> xmodem_flavor \<Rightarrow> xmodem \<Rightarrow> bool \<times> xmodem" where
  "ymodem_start file_list path send fl s =
     (let s1 = s\<lparr>state := ABORT, upload_file_list := file_list, upload_file_list_i := 0\<rparr>;
          (ready, s2) =
            (if send then setup_for_next_file s1
             else (True, update_stats (\<lambda>t. set_transfer_stats_pathname path
                           (set_transfer_stats_filename [] t)) (s1\<lparr>download_path := Some path\<rparr>)))
      in if \<not> ready then (False, s2)
         else
           let s3 = clear_block (s2\<lparr>sending := send, flavor := fl, state := INIT,
                      current_block_sequence_i := 0, current_block_number := 1,
                      block0_has_been_seen := False, timeout_count := 0, timeout_max := 10\<rparr>);
               s4 = update_stats (\<lambda>t. t\<lparr>t_block_size := 1024\<rparr>) s3
           in (True, last_message '''' (s4\<lparr>first_byte := (if fl = Y_NORMAL then 67 else 71)\<rparr>)))"

section \<open>The parts of protocols.c that drive the engine\<close>

text \<open>
  \<open>start_file_transfer\<close> is entered with the program in one of three states.  It is
  modelled for the protocols of this engine; the result is whether the engine started.
  The strip loop reads before the start of a location that is empty or only slashes.
\<close>

datatype q_program_state = Q_STATE_DOWNLOAD | Q_STATE_UPLOAD | Q_STATE_UPLOAD_BATCH

definition protocol_title :: "q_protocol \<Rightarrow> string" where
  "protocol_title p =
     (case p of Q_PROTOCOL_ASCII \<Rightarrow> ''ASCII'' | Q_PROTOCOL_KERMIT \<Rightarrow> ''Kermit''
      | Q_PROTOCOL_XMODEM \<Rightarrow> ''Xmodem'' | Q_PROTOCOL_XMODEM_CRC \<Rightarrow> ''Xmodem CRC''
      | Q_PROTOCOL_XMODEM_RELAXED \<Rightarrow> ''Xmodem Relaxed'' | Q_PROTOCOL_XMODEM_1K \<Rightarrow> ''XMODEM_1K''
      | Q_PROTOCOL_XMODEM_1K_G \<Rightarrow> ''Xmodem-1K/G'' | Q_PROTOCOL_YMODEM \<Rightarrow> ''Ymodem Batch''
      | Q_PROTOCOL_YMODEM_G \<Rightarrow> ''Ymodem/G Batch'' | Q_PROTOCOL_ZMODEM \<Rightarrow> ''Zmodem Batch'')"

definition engine_start ::
  "q_program_state \<Rightarrow> cstring \<Rightarrow> file_info list \<Rightarrow> xmodem \<Rightarrow> (bool \<times> xmodem) run option" where
  "engine_start ps loc batch s =
     (case t_protocol (stats s) of
        Q_PROTOCOL_XMODEM \<Rightarrow> Some (xmodem_start loc (ps = Q_STATE_UPLOAD) X_NORMAL s)
      | Q_PROTOCOL_XMODEM_CRC \<Rightarrow> Some (xmodem_start loc (ps = Q_STATE_UPLOAD) X_CRC s)
      | Q_PROTOCOL_XMODEM_RELAXED \<Rightarrow> Some (xmodem_start loc (ps = Q_STATE_UPLOAD) X_RELAXED s)
      | Q_PROTOCOL_XMODEM_1K \<Rightarrow> Some (xmodem_start loc (ps = Q_STATE_UPLOAD) X_1K s)
      | Q_PROTOCOL_XMODEM_1K_G \<Rightarrow> Some (xmodem_start loc (ps = Q_STATE_UPLOAD) X_1K_G s)
      | Q_PROTOCOL_YMODEM \<Rightarrow> Some (Inr (ymodem_start batch loc (ps = Q_STATE_UPLOAD_BATCH) Y_NORMAL s))
      | Q_PROTOCOL_YMODEM_G \<Rightarrow> Some (Inr (ymodem_start batch loc (ps \<noteq> Q_STATE_DOWNLOAD) Y_G s))
      | _ \<Rightarrow> None)"

definition start_file_transfer ::
  "q_program_state \<Rightarrow> cstring \<Rightarrow> file_info list \<Rightarrow> xmodem \<Rightarrow> (bool \<times> xmodem) run option" where
  "start_file_transfer ps loc batch s =
     (let s1 = update_stats (\<lambda>t. set_transfer_stats_protocol_name (protocol_title (t_protocol t))
                 (clear_stats (if ps = Q_STATE_UPLOAD_BATCH then Some batch else None) t)) s;
          loc' = (if ps = Q_STATE_UPLOAD_BATCH then loc else strip_slashes loc)
      in map_option (\<lambda>started.
           check (ps = Q_STATE_UPLOAD_BATCH \<or> loc' \<noteq> []) Buffer_overflow
             (andthen started (\<lambda>(ok, s2).
                if \<not> ok then Inr (False, s2)
                else
                  let s3 = (if is_ymodem (flavor s2) then s2
                            else update_stats (\<lambda>t. set_transfer_stats_pathname (dirname loc')
                                   (set_transfer_stats_filename (basename loc') t)) s2)
                  in Inr (True, update_stats (\<lambda>t. t\<lparr>t_file_start_time := now (world s3),
                                                    t_batch_start_time := now (world s3)\<rparr>) s3))))
         (engine_start ps loc' batch s1))"

text \<open>\<open>protocol_process_data\<close> for the protocols of this engine.\<close>

definition protocol_process_data :: "byte list \<Rightarrow> nat \<Rightarrow> xmodem \<Rightarrow> (bool \<times> xmodem) run" where
  "protocol_process_data inp output_max s =
     (if transfer_over (stats s) then Inr (False, s) else xmodem inp output_max s)"

end
