(* ===== verification/Xmodem_Padding.thy ===== *)
theory Xmodem_Padding
  imports Xmodem_Receive
begin

text \<open>
  The loop that drops the SUB padding at the end of an Xmodem download: when it ends,
  what it leaves in the file, and when it does not end: for a file of nothing but SUBs, and
  for one whose size does not fit the 32-bit variable that holds it.
\<close>

section \<open>Files that end in padding\<close>

definition strip_subs :: "byte list \<Rightarrow> byte list" where
  "strip_subs d = rev (dropWhile (\<lambda>b. b = C_SUB) (rev d))"

definition subs_count :: "byte list \<Rightarrow> nat" where
  "subs_count d = length d - length (strip_subs d)"

lemma strip_subs_append [simp]: "strip_subs (d @ replicate k C_SUB) = strip_subs d"
  by (simp add: strip_subs_def dropWhile_append)

lemma strip_subs_last: "d \<noteq> [] \<Longrightarrow> last d \<noteq> C_SUB \<Longrightarrow> strip_subs d = d"
  by (cases d rule: rev_cases) (simp_all add: strip_subs_def)

lemma strip_subs_split: "d = strip_subs d @ replicate (subs_count d) C_SUB"
proof -
  let ?t = "takeWhile (\<lambda>b. b = C_SUB) (rev d)"
  have "?t = replicate (length ?t) C_SUB"
    by (rule sym, rule replicate_length_same) (auto dest: set_takeWhileD)
  moreover have d: "d = strip_subs d @ rev ?t"
    unfolding strip_subs_def by (metis rev_append rev_rev_ident takeWhile_dropWhile_id)
  moreover have "subs_count d = length ?t"
    using arg_cong [OF d, of length] by (simp add: subs_count_def)
  ultimately show ?thesis by (metis rev_replicate)
qed

lemma strip_subs_nonempty: "(\<exists>b\<in>set d. b \<noteq> C_SUB) \<Longrightarrow> strip_subs d \<noteq> []"
  by (auto simp: strip_subs_def)

lemma last_strip_subs: "strip_subs d \<noteq> [] \<Longrightarrow> last (strip_subs d) \<noteq> C_SUB"
  using hd_dropWhile [of "\<lambda>b. b = C_SUB" "rev d"] by (simp add: strip_subs_def last_rev)

section \<open>One turn of the loop\<close>

lemma int_of_long_small [simp]:
  assumes "n < 2 ^ 31"
  shows "int_of_long n = int n"
proof -
  have "uint (of_nat n :: u32) = int n" using assms by (simp add: unsigned_of_nat take_bit_eq_mod)
  then show ?thesis using assms by (simp add: int_of_long_def sint_uint signed_take_bit_int_eq_self)
qed

lemma read_last:
  assumes "bad_at w (s_path f) = None" "s_data f \<noteq> []"
  shows "fread w 1 (snd (fseek_end 1 f)) =
    ([last (s_data f)], f\<lparr>s_pos := length (s_data f), s_eof := False\<rparr>)"
proof -
  obtain d b where "s_data f = d @ [b]" using assms(2) by (cases "s_data f" rule: rev_cases) auto
  then show ?thesis using assms(1)
    by (simp add: fread_def fseek_end_def readable_def Let_def)
qed

lemma trim_stop:
  assumes "bad_at w (s_path f) = None" "s_data f \<noteq> []" "last (s_data f) \<noteq> C_SUB"
  shows "trim_subs w f lb tr tot = Some (f\<lparr>s_pos := length (s_data f), s_eof := False\<rparr>, tr, tot)"
  by (subst trim_subs.simps) (simp add: read_last [OF assms(1,2), simplified] assms Let_def)

lemma trim_turn:
  assumes "bad_at w (s_path f) = None" "s_data f \<noteq> []" "last (s_data f) = C_SUB"
  shows "trim_subs w f lb tr tot =
     trim_subs w (snd (ftruncate (int_of_long (s_pos f) - 1) (f\<lparr>s_pos := length (s_data f), s_eof := False\<rparr>)))
       C_SUB (tr - 1) (tot - 1)"
  by (subst trim_subs.simps) (simp add: read_last [OF assms(1,2), simplified] assms Let_def ftell_def)

text \<open>
  A byte is removed on every other turn: the truncation uses the position at which the
  previous turn left the stream, which is one past the end after a removal.
\<close>

lemma trim_two_positions:
  assumes "bad_at w (s_path f) = None" "d \<noteq> []" "last d \<noteq> C_SUB" "s_data f = d @ replicate k C_SUB"
    "s_pos f = length d + k \<or> s_pos f = length d + k + 1" "s_pos f < 2 ^ 31"
  shows "trim_subs w f lb tr tot =
     (let n = of_nat (if s_pos f = length d + k then 2 * k - 1 else 2 * k)
      in Some (f\<lparr>s_data := d, s_pos := length d, s_eof := False\<rparr>, tr - n, tot - n))"
  using assms
proof (induction "if s_pos f = length d + k then 2 * k else 2 * k + 1" arbitrary: f k lb tr tot rule: less_induct)
  case less
  show ?case
  proof (cases k)
    case 0
    with less.prems show ?thesis by (auto simp: trim_stop)
  next
    case (Suc j)
    have sub: "last (s_data f) = C_SUB" "s_data f \<noteq> []" and len: "length (s_data f) = length d + k"
      using less.prems Suc by (auto simp flip: replicate_append_same)
    note turn = trim_turn [OF less.prems(1) sub(2) sub(1)]
    show ?thesis
    proof (cases "s_pos f = length d + k")
      case True
      let ?g = "f\<lparr>s_data := d @ replicate j C_SUB, s_pos := length d + j + 1, s_eof := False\<rparr>"
      have "take (length d + j) (s_data f) = d @ replicate j C_SUB"
        using Suc less.prems(4) by (simp add: take_append del: replicate_Suc)
      then have g: "snd (ftruncate (int_of_long (s_pos f) - 1) (f\<lparr>s_pos := length (s_data f), s_eof := False\<rparr>)) = ?g"
        using True Suc len less.prems(6) by (simp add: ftruncate_def nat_add_distrib)
      have "trim_subs w ?g C_SUB (tr - 1) (tot - 1) =
         (let n = of_nat (2 * j) in Some (?g\<lparr>s_data := d, s_pos := length d, s_eof := False\<rparr>, tr - 1 - n, tot - 1 - n))"
        using less.hyps [of ?g j C_SUB "tr - 1" "tot - 1"] less.prems(1-3,6) True Suc by simp
      moreover have "of_nat (2 * k - 1) = (1 + of_nat (2 * j) :: ulong)" using Suc by simp
      ultimately show ?thesis unfolding turn g using True by (simp add: Let_def diff_diff_eq)
    next
      case False
      let ?g = "f\<lparr>s_pos := length d + k, s_eof := False\<rparr>"
      have g: "snd (ftruncate (int_of_long (s_pos f) - 1) (f\<lparr>s_pos := length (s_data f), s_eof := False\<rparr>)) = ?g"
        using False less.prems(5,6) len by (auto simp: ftruncate_def nat_add_distrib)
      have "trim_subs w ?g C_SUB (tr - 1) (tot - 1) =
         (let n = of_nat (2 * k - 1) in Some (?g\<lparr>s_data := d, s_pos := length d, s_eof := False\<rparr>, tr - 1 - n, tot - 1 - n))"
        using less.hyps [of ?g k C_SUB "tr - 1" "tot - 1"] less.prems(1-4,5,6) False by auto
      moreover have "of_nat (2 * k) = (1 + of_nat (2 * k - 1) :: ulong)" using Suc by simp
      ultimately show ?thesis unfolding turn g using False by (simp add: Let_def diff_diff_eq del: of_nat_mult)
    qed
  qed
qed

lemma trim_subs_strips:
  assumes "bad_at w (s_path f) = None" "\<exists>b\<in>set (s_data f). b \<noteq> C_SUB" "s_pos f = length (s_data f)"
    "length (s_data f) < 2 ^ 31"
  shows "trim_subs w f lb tr tot =
     (let n = of_nat (2 * subs_count (s_data f) - 1)
      in Some (f\<lparr>s_data := strip_subs (s_data f), s_pos := length (strip_subs (s_data f)), s_eof := False\<rparr>,
               tr - n, tot - n))"
proof -
  let ?d = "strip_subs (s_data f)"
  have "?d \<noteq> []" "last ?d \<noteq> C_SUB" using strip_subs_nonempty [OF assms(2)] last_strip_subs by blast+
  moreover have split: "s_data f = ?d @ replicate (subs_count (s_data f)) C_SUB" by (rule strip_subs_split)
  moreover have "s_pos f = length ?d + subs_count (s_data f)"
    using assms(3) arg_cong [OF split, of length] by simp
  moreover have "s_pos f < 2 ^ 31" using assms(3,4) by simp
  ultimately show ?thesis
    using trim_two_positions [OF assms(1), of ?d "subs_count (s_data f)"] by (simp only: simp_thms if_True)
qed

section \<open>Files of padding only\<close>

definition only_subs :: "os \<Rightarrow> stream \<Rightarrow> byte \<Rightarrow> bool" where
  "only_subs w f lb \<longleftrightarrow> bad_at w (s_path f) = None \<and> set (s_data f) \<subseteq> {C_SUB} \<and>
     (s_data f = [] \<longrightarrow> lb = C_SUB) \<and> (s_pos f = length (s_data f) \<or> s_pos f = Suc (length (s_data f))) \<and> s_pos f < 2 ^ 31"

definition trim_next :: "os \<Rightarrow> stream \<Rightarrow> stream" where
  "trim_next w f = snd (ftruncate (int_of_long (ftell f) - 1) (snd (fread w 1 (snd (fseek_end 1 f)))))"

lemma only_subs_next:
  assumes "only_subs w f lb"
  shows "(if fst (fread w 1 (snd (fseek_end 1 f))) = [] then lb
          else hd (fst (fread w 1 (snd (fseek_end 1 f))))) = C_SUB"
    and "only_subs w (trim_next w f) C_SUB"
proof -
  have "s_data f = [] \<or> last (s_data f) = C_SUB"
    using assms by (metis only_subs_def last_in_set singletonD subsetD)
  then show "(if fst (fread w 1 (snd (fseek_end 1 f))) = [] then lb
          else hd (fst (fread w 1 (snd (fseek_end 1 f))))) = C_SUB"
    using assms read_last [of w f]
    by (cases "s_data f = []") (auto simp: only_subs_def fread_def fseek_end_def Let_def)
  show "only_subs w (trim_next w f) C_SUB"
  proof (cases "s_data f = []")
    case True
    then show ?thesis using assms
      by (auto simp: only_subs_def trim_next_def ftell_def ftruncate_def fread_def fseek_end_def readable_def Let_def)
  next
    case False
    then show ?thesis using assms read_last [of w f]
      by (auto simp: only_subs_def trim_next_def ftell_def ftruncate_def Suc_le_eq nat_diff_distrib dest: in_set_takeD)
  qed
qed

lemma trim_subs_only:
  assumes "trim_subs w f lb tr tot = Some r"
  shows "\<not> only_subs w f lb"
proof (rule trim_subs.raw_induct [where P = "\<lambda>w f lb _ _ _. \<not> only_subs w f lb", OF _ assms])
  fix trim w f lb tr tot r
  assume IH: "\<And>w f lb tr tot r. trim w f lb tr tot = Some r \<Longrightarrow> \<not> only_subs w f lb"
    and body: "(let filesize = int_of_long (ftell f); f1 = snd (fseek_end 1 f); got = fst (fread w 1 f1);
          f2 = snd (fread w 1 f1); last_byte' = if got = [] then lb else hd got
      in if last_byte' = C_SUB
         then trim w (snd (ftruncate (filesize - 1) f2)) last_byte' (tr - 1) (tot - 1)
         else Some (f2, tr, tot)) = Some r"
  show "\<not> only_subs w f lb"
  proof
    assume only: "only_subs w f lb"
    have "trim w (trim_next w f) C_SUB (tr - 1) (tot - 1) = Some r"
      using body only_subs_next(1) [OF only] by (simp only: Let_def trim_next_def simp_thms if_True)
    then show False using IH only_subs_next(2) [OF only] by blast
  qed
qed

section \<open>Large files\<close>

text \<open>
  From 2 GiB on the position does not fit \<open>filesize\<close>: the length passed to \<open>ftruncate\<close> is
  negative, the file is not cut, and its last byte is read again and again.
\<close>

lemma int_of_long_large:
  assumes "2 ^ 31 \<le> n" "n < 2 ^ 32"
  shows "int_of_long n < 0"
proof -
  have u: "uint (of_nat n :: u32) = int n" using assms(2) by (simp add: unsigned_of_nat take_bit_eq_mod)
  have "int n div 2 ^ 31 = 1" using assms by (simp add: div_pos_geq div_pos_pos_trivial)
  then have "bit (int n) 31" by (simp add: bit_iff_odd)
  then show ?thesis by (simp add: int_of_long_def sint_uint u)
qed

definition large_file :: "os \<Rightarrow> stream \<Rightarrow> bool" where
  "large_file w f \<longleftrightarrow> bad_at w (s_path f) = None \<and> 2 ^ 31 \<le> length (s_data f) \<and> length (s_data f) < 2 ^ 32 \<and>
     last (s_data f) = C_SUB \<and> s_pos f = length (s_data f)"

lemma large_file_next:
  assumes "large_file w f"
  shows "fst (fread w 1 (snd (fseek_end 1 f))) = [C_SUB]" "large_file w (trim_next w f)"
proof -
  have ne: "s_data f \<noteq> []" using assms by (auto simp: large_file_def)
  note rd = read_last [OF _ ne, of w]
  show "fst (fread w 1 (snd (fseek_end 1 f))) = [C_SUB]" using assms rd by (simp add: large_file_def)
  show "large_file w (trim_next w f)"
    using assms rd int_of_long_large [of "s_pos f"]
    by (simp add: large_file_def trim_next_def ftell_def ftruncate_def)
qed

lemma trim_subs_large:
  assumes "trim_subs w f lb tr tot = Some r"
  shows "\<not> large_file w f"
proof (rule trim_subs.raw_induct [where P = "\<lambda>w f _ _ _ _. \<not> large_file w f", OF _ assms])
  fix trim w f lb tr tot r
  assume IH: "\<And>w f lb tr tot r. trim w f lb tr tot = Some r \<Longrightarrow> \<not> large_file w f"
    and body: "(let filesize = int_of_long (ftell f); f1 = snd (fseek_end 1 f); got = fst (fread w 1 f1);
          f2 = snd (fread w 1 f1); last_byte' = if got = [] then lb else hd got
      in if last_byte' = C_SUB
         then trim w (snd (ftruncate (filesize - 1) f2)) last_byte' (tr - 1) (tot - 1)
         else Some (f2, tr, tot)) = Some r"
  show "\<not> large_file w f"
  proof
    assume large: "large_file w f"
    have "trim w (trim_next w f) C_SUB (tr - 1) (tot - 1) = Some r"
      using body large_file_next(1) [OF large] by (simp add: Let_def trim_next_def)
    then show False using IH large_file_next(2) [OF large] by blast
  qed
qed

end
