(* ===== verification/Xmodem_Session.thy ===== *)
theory Xmodem_Session
  imports Main_Loop Xmodem_Engine Xmodem_Padding
begin

text \<open>
  A whole Xmodem transfer between two copies of the program: the engine in the main loop
  (\<open>xmodem_round\<close>), on a clean line that takes all output (\<open>feed\<close>).  The locale
  \<open>stop_and_wait\<close> is the contract of a sender that waits for the acknowledgement of every
  block and a receiver that acknowledges it; its theorem says that a run in lockstep
  delivers all blocks.  The engine is shown to meet the contract for the flavors of
  Xmodem that wait (all but 1K/G).
\<close>

section \<open>The contract\<close>

fun rounds :: "('m \<Rightarrow> 's \<Rightarrow> ('m \<times> 's) run) \<Rightarrow> ('m \<Rightarrow> 'r \<Rightarrow> ('m \<times> 'r) run) \<Rightarrow>
    nat \<Rightarrow> 'm \<times> 's \<times> 'r \<Rightarrow> ('s \<times> 'r) run" where
  "rounds sfeed rfeed 0 (m, s, r) = Inr (s, r)"
| "rounds sfeed rfeed (Suc n) (m, s, r) =
     andthen (sfeed m s) (\<lambda>(m1, s'). andthen (rfeed m1 r) (\<lambda>(m2, r'). rounds sfeed rfeed n (m2, s', r')))"

locale stop_and_wait =
  fixes sfeed :: "'m \<Rightarrow> 's \<Rightarrow> ('m \<times> 's) run" and rfeed :: "'m \<Rightarrow> 'r \<Rightarrow> ('m \<times> 'r) run"
    and hello :: 'm and ack :: 'm and eot :: 'm and frame :: "byte \<Rightarrow> 'p \<Rightarrow> 'm"
    and fresh :: "'p list \<Rightarrow> byte \<Rightarrow> 's \<Rightarrow> bool" and left :: "'p list \<Rightarrow> byte \<Rightarrow> 's \<Rightarrow> bool"
    and ended :: "'s \<Rightarrow> bool" and complete :: "'s \<Rightarrow> bool"
    and room :: "'p list \<Rightarrow> bool" and final :: "'p list \<Rightarrow> bool"
    and got :: "'p list \<Rightarrow> byte \<Rightarrow> 'r \<Rightarrow> bool" and saved :: "'p list \<Rightarrow> 'r \<Rightarrow> bool"
  assumes start_send: "fresh (p # ps) q s \<Longrightarrow> \<exists>s'. sfeed hello s = Inr (frame q p, s') \<and> left ps (q + 1) s'"
    and next_send: "left (p # ps) q s \<Longrightarrow> \<exists>s'. sfeed ack s = Inr (frame q p, s') \<and> left ps (q + 1) s'"
    and end_send: "left [] q s \<Longrightarrow> \<exists>s'. sfeed ack s = Inr (eot, s') \<and> ended s'"
    and close_send: "ended s \<Longrightarrow> \<exists>m s'. sfeed ack s = Inr (m, s') \<and> complete s'"
    and recv: "got acc q r \<Longrightarrow> room (acc @ [p]) \<Longrightarrow> \<exists>r'. rfeed (frame q p) r = Inr (ack, r') \<and> got (acc @ [p]) (q + 1) r'"
    and end_recv: "got acc q r \<Longrightarrow> final acc \<Longrightarrow> \<exists>r'. rfeed eot r = Inr (ack, r') \<and> saved acc r'"
    and idle_recv: "saved acc r \<Longrightarrow> \<exists>m' r'. rfeed m r = Inr (m', r') \<and> saved acc r'"
    and room_prefix: "room (xs @ ys) \<Longrightarrow> room xs"
begin

lemma deliver:
  "left ps q s \<Longrightarrow> got acc q r \<Longrightarrow> room (acc @ ps) \<Longrightarrow> final (acc @ ps) \<Longrightarrow>
   \<exists>s' r'. rounds sfeed rfeed (length ps + 2) (ack, s, r) = Inr (s', r') \<and> complete s' \<and> saved (acc @ ps) r'"
proof (induction ps arbitrary: acc q s r)
  case Nil
  then obtain s1 where s1: "sfeed ack s = Inr (eot, s1)" "ended s1" using end_send by blast
  obtain r1 where r1: "rfeed eot r = Inr (ack, r1)" "saved acc r1" using end_recv Nil.prems by fastforce
  obtain m s2 where s2: "sfeed ack s1 = Inr (m, s2)" "complete s2" using close_send s1 by blast
  obtain m' r2 where "rfeed m r1 = Inr (m', r2)" "saved acc r2" using idle_recv r1 by blast
  with Nil.prems s1 r1 s2 show ?case by (simp add: numeral_2_eq_2)
next
  case (Cons p ps)
  have room: "room (acc @ [p])" using room_prefix [of "acc @ [p]" ps] Cons.prems by simp
  obtain s1 where s1: "sfeed ack s = Inr (frame q p, s1)" "left ps (q + 1) s1"
    using next_send Cons.prems(1) by blast
  obtain r1 where r1: "rfeed (frame q p) r = Inr (ack, r1)" "got (acc @ [p]) (q + 1) r1"
    using recv room Cons.prems(2) by blast
  show ?case using Cons.IH [OF s1(2) r1(2)] Cons.prems s1 r1 by simp
qed

theorem transfer:
  assumes "fresh ps q s" "ps \<noteq> []" "got [] q r" "room ps" "final ps"
  shows "\<exists>s' r'. rounds sfeed rfeed (length ps + 2) (hello, s, r) = Inr (s', r') \<and> complete s' \<and> saved ps r'"
proof -
  obtain p ps' where ps: "ps = p # ps'" using assms(2) by (cases ps) auto
  have room: "room ([] @ [p])" using room_prefix [of "[p]" ps'] assms(4) ps by simp
  obtain s1 where s1: "sfeed hello s = Inr (frame q p, s1)" "left ps' (q + 1) s1"
    using start_send assms(1) ps by blast
  obtain r1 where r1: "rfeed (frame q p) r = Inr (ack, r1)" "got ([] @ [p]) (q + 1) r1"
    using recv room assms(3) by blast
  show ?thesis using deliver [OF s1(2) r1(2)] assms(4,5) s1 r1 ps by simp
qed

end

section \<open>Payloads of a file\<close>

lemma chunk_size_pos [simp]: "0 < chunk_size fl"
  by (simp add: chunk_size_def)

function payloads :: "xmodem_flavor \<Rightarrow> byte list \<Rightarrow> byte list list" where
  "payloads fl d =
     (if length d < chunk_size fl then [next_payload fl d]
      else next_payload fl d # payloads fl (drop (chunk_size fl) d))"
  by auto
termination
proof (relation "measure (\<lambda>(fl, d). length d)")
  fix fl and d :: "byte list"
  assume "\<not> length d < chunk_size fl"
  then show "((fl, drop (chunk_size fl) d), fl, d) \<in> measure (\<lambda>(fl, d). length d)"
    by (auto simp: chunk_size_def split: if_splits)
qed simp

declare payloads.simps [simp del]

lemma payloads_nonempty [simp]: "payloads fl d \<noteq> []"
  by (subst payloads.simps) simp

lemma payloads_ok: "p \<in> set (payloads fl d) \<Longrightarrow> payload_ok fl p"
  by (induction fl d rule: payloads.induct)
    (subst (asm) (2) payloads.simps, auto split: if_splits simp: length_next_payload)

lemma next_payload_full: "chunk_size fl \<le> length d \<Longrightarrow> next_payload fl d = take (chunk_size fl) d"
  by (auto simp: next_payload_def chunk_size_def)

lemma next_payload_short:
  "length d < chunk_size fl \<Longrightarrow>
   \<exists>k. next_payload fl d = d @ replicate k C_SUB \<and> length d + k \<le> chunk_size fl"
  by (auto simp: next_payload_def chunk_size_def split: if_splits)

lemma concat_payloads:
  "\<exists>k. concat (payloads fl d) = d @ replicate k C_SUB \<and> length d + k \<le> length d + chunk_size fl"
proof (induction fl d rule: payloads.induct)
  case (1 fl d)
  show ?case
  proof (cases "length d < chunk_size fl")
    case True
    then show ?thesis using next_payload_short [OF True] by (subst (1) payloads.simps) auto
  next
    case False
    then obtain k where "concat (payloads fl (drop (chunk_size fl) d)) =
        drop (chunk_size fl) d @ replicate k C_SUB" "k \<le> chunk_size fl"
      using 1 by auto
    then show ?thesis using False
      by (subst (1) payloads.simps) (auto simp: next_payload_full simp flip: append_assoc)
  qed
qed


section \<open>The engine as a pair of sender and receiver\<close>

text \<open>
  The engine in the main loop.  A round of the program is \<open>process_incoming_data\<close> with this
  engine; \<open>tr\<close> is the 8-bit table of the output, and \<open>k\<close> the number of bytes the connection
  takes.  \<open>feed\<close> is a round on a clean line: the table changes nothing, and the connection
  takes all there is.
\<close>

definition xmodem_process :: "byte list \<Rightarrow> xmodem \<Rightarrow> (byte list \<times> xmodem) run" where
  "xmodem_process inp s =
     andthen (protocol_process_data inp Q_BUFFER_SIZE s) (\<lambda>(taken, s'). Inr (if taken then [] else inp, s'))"

definition put_out_buf :: "byte list \<Rightarrow> xmodem \<Rightarrow> xmodem" where
  "put_out_buf bs s = s\<lparr>out_buf := bs\<rparr>"

interpretation xm: transfer_engine xmodem_process out_buf put_out_buf
  by unfold_locales (simp_all add: put_out_buf_def)

definition xmodem_round ::
  "(byte \<Rightarrow> byte) \<Rightarrow> byte list \<Rightarrow> nat \<Rightarrow> xmodem program \<Rightarrow> (byte list \<times> xmodem program) run" where
  "xmodem_round = process_incoming_data xmodem_process out_buf put_out_buf"

definition feed :: "byte list \<Rightarrow> xmodem program \<Rightarrow> (byte list \<times> xmodem program) run" where
  "feed bs p = xmodem_round (\<lambda>b. b) bs Q_BUFFER_SIZE p"

text \<open>The program between two rounds, with nothing to process and nothing to write.\<close>

definition at_rest :: "xmodem \<Rightarrow> xmodem program" where
  "at_rest s = \<lparr>q_buffer_raw = [], engine = s\<lparr>out_buf := []\<rparr>\<rparr>"

definition between :: "(xmodem \<Rightarrow> bool) \<Rightarrow> xmodem program \<Rightarrow> bool" where
  "between P p \<longleftrightarrow> (\<exists>s. p = at_rest s \<and> P s)"

text \<open>An engine that a call without input leaves as it is: the main loop goes on to its next round.\<close>

definition quiet :: "xmodem \<Rightarrow> bool" where
  "quiet s \<longleftrightarrow> xmodem_process [] s = Inr ([], s)"

definition fresh_timer :: "xmodem \<Rightarrow> bool" where
  "fresh_timer s \<longleftrightarrow> timeout_begin s = now (world s)"

lemma feed_call:
  assumes "xmodem_process inp (s\<lparr>out_buf := []\<rparr>) = Inr ([], s')" "quiet s' \<or> out_buf s' = []"
    and "length inp \<le> Q_BUFFER_SIZE" "length (out_buf s') \<le> Q_BUFFER_SIZE"
  shows "feed inp (at_rest s) = Inr (out_buf s', at_rest s')"
proof -
  have "main_loop xmodem_process out_buf put_out_buf (\<lambda>b. b) inp (s\<lparr>out_buf := []\<rparr>) = Inr ([], s')"
  proof (cases "out_buf s' = []")
    case True
    then show ?thesis using xm.loop_stays [OF assms(1)] by simp
  next
    case False
    then have "xmodem_process [] s' = Inr ([], s')" using assms(2) by (simp add: quiet_def)
    moreover have "s'\<lparr>out_buf := out_buf s'\<rparr> = s'" by simp
    ultimately show ?thesis
      using xm.loop_twice [OF assms(1), of "\<lambda>b. b" "[]"] False by (simp add: put_out_buf_def)
  qed
  then show ?thesis using assms(3,4)
    by (simp add: feed_def xmodem_round_def process_incoming_data_def at_rest_def put_out_buf_def)
qed

lemma feed_take: "feed (take Q_BUFFER_SIZE bs) (at_rest s) = feed bs (at_rest s)"
  by (simp add: feed_def xmodem_round_def process_incoming_data_def at_rest_def read_input_def)

lemma feed_fails:
  assumes "xmodem_process inp (s\<lparr>out_buf := []\<rparr>) = Inl e" "length inp \<le> Q_BUFFER_SIZE"
  shows "feed inp (at_rest s) = Inl e"
  using xm.loop_fails [OF assms(1)] assms(2)
  by (simp add: feed_def xmodem_round_def process_incoming_data_def at_rest_def)

lemma process_send:
  assumes "\<not> transfer_over (stats s)" "sending s" "state s \<noteq> ABORT" "out_buf s = []" "xmodem_send inp s = Inr ([], s')"
  shows "xmodem_process inp s = Inr ([], s')"
  using assms by (simp add: xmodem_process_def protocol_process_data_def xmodem_def send_loop.simps)

lemma process_receive:
  assumes "\<not> transfer_over (stats s)" "\<not> sending s" "state s \<noteq> ABORT" "xmodem_receive inp s = Inr ([], s')"
  shows "xmodem_process inp s = Inr ([], s')"
  using assms by (simp add: xmodem_process_def protocol_process_data_def xmodem_def receive_loop.simps)

lemma quiet_over: "transfer_over (stats s) \<Longrightarrow> quiet s"
  by (simp add: quiet_def xmodem_process_def protocol_process_data_def)

lemma no_timeout: "fresh_timer s \<Longrightarrow> check_timeout s = (False, s)"
  by (simp add: check_timeout_def fresh_timer_def timeout_length_def Let_def)

lemma quiet_sender:
  assumes "sending s" "state s = BLOCK \<or> state s = LAST_BLOCK \<or> state s = EOT_ACK" "\<not> is_streaming (flavor s)" "fresh_timer s"
  shows "quiet s"
proof -
  have "xmodem_send [] s = Inr ([], s)"
    using assms no_timeout [OF assms(4)]
    by (auto simp: xmodem_send_def send_ack1_phase_def send_ack2_phase_def send_data_phase_def send_block_def
        send_last_block_def send_eot_ack_def waits_ack_def is_streaming_def)
  then show ?thesis using assms(1)
    by (simp add: quiet_def xmodem_process_def protocol_process_data_def xmodem_def send_loop.simps)
qed

lemma quiet_receiver:
  assumes "\<not> sending s" "state s = FIRST_BLOCK \<or> state s = BLOCK" "fresh_timer s"
  shows "quiet s"
proof -
  have "xmodem_receive [] s = Inr ([], s)"
    using assms no_timeout [OF assms(3)]
    by (auto simp: xmodem_receive_def receive_block_def receive_no_data_def first_block_timeout_def fresh_timer_def)
  then show ?thesis using assms(1)
    by (simp add: quiet_def xmodem_process_def protocol_process_data_def xmodem_def receive_loop.simps)
qed

definition single_file_protocol :: "q_protocol \<Rightarrow> bool" where
  "single_file_protocol p \<longleftrightarrow> p = Q_PROTOCOL_XMODEM \<or> p = Q_PROTOCOL_XMODEM_CRC \<or>
     p = Q_PROTOCOL_XMODEM_RELAXED \<or> p = Q_PROTOCOL_XMODEM_1K \<or> p = Q_PROTOCOL_XMODEM_1K_G"

definition running :: "xmodem_flavor \<Rightarrow> xmodem \<Rightarrow> bool" where
  "running fl s \<longleftrightarrow> flavor s = fl \<and> \<not> is_ymodem fl \<and> \<not> is_streaming fl \<and>
     \<not> transfer_over (stats s) \<and> single_file_protocol (t_protocol (stats s)) \<and>
     t_error_count (stats s) = 0"

definition snd_base :: "xmodem_flavor \<Rightarrow> byte \<Rightarrow> xmodem \<Rightarrow> bool" where
  "snd_base fl q s \<longleftrightarrow> running fl s \<and> sending s \<and> current_block_sequence_i s = q"

definition snd_file :: "xmodem_flavor \<Rightarrow> byte list list \<Rightarrow> xmodem \<Rightarrow> bool" where
  "snd_file fl ps s \<longleftrightarrow> (\<exists>f. file_ptr s = Some f \<and> healthy (world s) f \<and> payloads fl (unread f) = ps)"

definition snd_fresh :: "xmodem_flavor \<Rightarrow> byte \<Rightarrow> byte list list \<Rightarrow> byte \<Rightarrow> xmodem \<Rightarrow> bool" where
  "snd_fresh fl c ps q s \<longleftrightarrow> snd_base fl q s \<and> snd_file fl ps s \<and> state s = INIT \<and> first_byte s = c \<and> c \<noteq> C_CAN"

definition snd_left :: "xmodem_flavor \<Rightarrow> byte list list \<Rightarrow> byte \<Rightarrow> xmodem \<Rightarrow> bool" where
  "snd_left fl ps q s \<longleftrightarrow> snd_base fl q s \<and>
     (if ps = [] then state s = LAST_BLOCK \<and> file_ptr s \<noteq> None else state s = BLOCK \<and> snd_file fl ps s)"

definition snd_ended :: "xmodem_flavor \<Rightarrow> xmodem \<Rightarrow> bool" where
  "snd_ended fl s \<longleftrightarrow> running fl s \<and> sending s \<and> state s = EOT_ACK \<and> file_ptr s \<noteq> None"

definition snd_complete :: "xmodem \<Rightarrow> bool" where
  "snd_complete s \<longleftrightarrow> state s = COMPLETE \<and> t_state (stats s) = Q_TRANSFER_STATE_END \<and>
     t_error_count (stats s) = 0"

definition rcv_got :: "xmodem_flavor \<Rightarrow> cstring \<Rightarrow> nat \<Rightarrow> byte list list \<Rightarrow> byte \<Rightarrow> xmodem \<Rightarrow> bool" where
  "rcv_got fl name sp acc q r \<longleftrightarrow> running fl r \<and> \<not> sending r \<and> (state r = FIRST_BLOCK \<or> state r = BLOCK) \<and>
     current_block_sequence_i r = q \<and> current_block_n r = 0 \<and> length (current_block r) = 1029 \<and>
     space (world r) = sp \<and> bad_at (world r) name = None \<and>
     (\<exists>f. file_ptr r = Some f \<and> s_path f = name \<and> s_write f \<and> s_data f = concat acc \<and>
          s_pos f = length (s_data f))"

definition rcv_saved :: "cstring \<Rightarrow> byte list list \<Rightarrow> xmodem \<Rightarrow> bool" where
  "rcv_saved name acc r \<longleftrightarrow> state r = COMPLETE \<and> t_state (stats r) = Q_TRANSFER_STATE_END \<and>
     t_error_count (stats r) = 0 \<and>
     map_option fst (files (world r) name) = Some (strip_subs (concat acc))"

definition fits :: "xmodem_flavor \<Rightarrow> nat \<Rightarrow> byte list list \<Rightarrow> bool" where
  "fits fl sp ps \<longleftrightarrow> list_all (payload_ok fl) ps \<and> length (concat ps) \<le> sp"

definition some_data :: "byte list list \<Rightarrow> bool" where
  "some_data ps \<longleftrightarrow> (\<exists>b\<in>set (concat ps). b \<noteq> C_SUB) \<and> length (concat ps) < 2 ^ 31"

lemma increment_bytes_frame [frame_simps]:
  "t_state (fst (increment_bytes x b s t)) = t_state t"
  "t_protocol (fst (increment_bytes x b s t)) = t_protocol t"
  "t_error_count (fst (increment_bytes x b s t)) = t_error_count t"
  by (simp_all add: increment_bytes_def Let_def)

lemma recompute_blocks_frame [frame_simps]:
  "t_state (recompute_blocks n t) = t_state t"
  "t_protocol (recompute_blocks n t) = t_protocol t"
  "t_error_count (recompute_blocks n t) = t_error_count t"
  unfolding recompute_blocks_def Let_def by simp_all

lemma stats_increment_blocks_frame:
  "\<exists>t. stats_increment_blocks b s = s\<lparr>stats := t\<rparr> \<and> t_state t = t_state (stats s) \<and>
     t_protocol t = t_protocol (stats s) \<and> t_error_count t = t_error_count (stats s)"
  unfolding stats_increment_blocks_def Let_def case_prod_beta
  by (rule exI, rule conjI, rule refl) (simp add: frame_simps)

lemma running_stats:
  assumes "running fl s" "flavor s' = flavor s" "t_state (stats s') = t_state (stats s)"
    "t_protocol (stats s') = t_protocol (stats s)" "t_error_count (stats s') = t_error_count (stats s)"
  shows "running fl s'"
  using assms by (simp add: running_def transfer_over_def)

lemma send_new_block_left:
  assumes base: "snd_base fl q s" and src: "snd_file fl (p # ps) s"
    and st: "state s = BLOCK" and out: "out_buf s = []"
  shows "\<exists>s'. send_new_block inp s = Inr s' \<and> snd_left fl ps (q + 1) s' \<and> out_buf s' = xframe fl q p \<and> quiet s'"
proof -
  let ?s = "clear_block (reset_timer s)"
  obtain f where f: "file_ptr s = Some f" "healthy (world s) f" "payloads fl (unread f) = p # ps"
    using src by (auto simp: snd_file_def)
  have p: "p = next_payload fl (unread f)" and ps: "ps = (if length (unread f) < chunk_size fl then []
      else payloads fl (drop (chunk_size fl) (unread f)))"
    using f(3) payloads.simps [of fl "unread f"] by (auto split: if_splits)
  have fl: "flavor s = fl" "\<not> is_streaming fl" "current_block_sequence_i s = q"
    using base by (auto simp: snd_base_def running_def)
  obtain blk where blk: "construct_block ?s = Inr (True, constructed ?s f (length (xframe fl q p)) blk)"
      "length blk = 1029" "take (length (xframe fl q p)) blk = xframe fl q p"
    using construct_block_frame [of ?s f] f fl p by (auto simp: clear_block_def reset_timer_def)
  let ?c = "constructed ?s f (length (xframe fl q p)) blk"
  have c: "out_buf ?c = []" "flavor ?c = fl" "sent_block ?c = xframe fl q p"
    "state ?c = (if ps = [] then LAST_BLOCK else BLOCK)"
    using blk fl st out ps by (simp_all add: constructed_def sent_block_def clear_block_def reset_timer_def)
  let ?p = "put_output (xframe fl q p) ?c"
  have sp: "stats ?p = stats s" "state ?p = state ?c"
    by (simp_all add: put_output_def constructed_def clear_block_def reset_timer_def)
  have snb: "send_new_block inp s = Inr (if state ?p = LAST_BLOCK
      then update_stats (\<lambda>t. t\<lparr>t_bytes_transfer := t_bytes_total t\<rparr>) ?p
      else stats_increment_blocks (if inp = [] then 0 else hd inp) ?p)"
    using blk(1) c fl by (simp add: send_new_block_def Let_def)
  obtain t where t: "send_new_block inp s = Inr (?p\<lparr>stats := t\<rparr>)" "t_state t = t_state (stats s)"
      "t_protocol t = t_protocol (stats s)" "t_error_count t = t_error_count (stats s)"
  proof (cases "state ?p = LAST_BLOCK")
    case True
    then show ?thesis using snb sp(1)
      by (intro that [of "(stats s)\<lparr>t_bytes_transfer := t_bytes_total (stats s)\<rparr>"])
        (simp_all add: update_stats_def)
  next
    case False
    obtain t where "stats_increment_blocks (if inp = [] then 0 else hd inp) ?p = ?p\<lparr>stats := t\<rparr>"
      "t_state t = t_state (stats ?p)" "t_protocol t = t_protocol (stats ?p)"
      "t_error_count t = t_error_count (stats ?p)"
      using stats_increment_blocks_frame by blast
    then show ?thesis using snb sp(1) False by (intro that [of t]) simp_all
  qed
  have "healthy (world s) (snd (fread (world s) (chunk_size fl) f)) \<and>
      unread (snd (fread (world s) (chunk_size fl) f)) = drop (chunk_size fl) (unread f)" if "ps \<noteq> []"
    using that ps f(2) healthy_file.read_ok healthy_file.read_rest by (metis not_less)
  then have "snd_left fl ps (q + 1) (?p\<lparr>stats := t\<rparr>)"
    using base c t ps running_stats [of fl s "?p\<lparr>stats := t\<rparr>"] fl
    by (auto simp: snd_left_def snd_base_def snd_file_def put_output_def constructed_def clear_block_def
        reset_timer_def)
  moreover have "out_buf (?p\<lparr>stats := t\<rparr>) = xframe fl q p" using c by (simp add: put_output_def)
  moreover have "sending (?p\<lparr>stats := t\<rparr>)" "fresh_timer (?p\<lparr>stats := t\<rparr>)"
    using base by (simp_all add: snd_base_def fresh_timer_def put_output_def constructed_def clear_block_def reset_timer_def)
  then have "quiet (?p\<lparr>stats := t\<rparr>)" using c st fl
    by (intro quiet_sender) (auto simp: put_output_def constructed_def)
  ultimately show ?thesis using t(1) by blast
qed

lemma feed_send:
  assumes "\<not> transfer_over (stats s)" "sending s" "state s \<noteq> ABORT" "xmodem_send inp (s\<lparr>out_buf := []\<rparr>) = Inr ([], s')"
    "quiet s' \<or> out_buf s' = []" "length inp \<le> Q_BUFFER_SIZE" "length (out_buf s') \<le> Q_BUFFER_SIZE"
  shows "feed inp (at_rest s) = Inr (out_buf s', at_rest s')"
  using process_send [of "s\<lparr>out_buf := []\<rparr>"] assms by (intro feed_call) simp_all

lemma feed_receive:
  assumes "\<not> transfer_over (stats s)" "\<not> sending s" "state s \<noteq> ABORT"
    "xmodem_receive inp (s\<lparr>out_buf := []\<rparr>) = Inr ([], s')"
    "quiet s' \<or> out_buf s' = []" "length inp \<le> Q_BUFFER_SIZE" "length (out_buf s') \<le> Q_BUFFER_SIZE"
  shows "feed inp (at_rest s) = Inr (out_buf s', at_rest s')"
  using process_receive [of "s\<lparr>out_buf := []\<rparr>"] assms by (intro feed_call) simp_all

lemma running_not_over: "running fl s \<Longrightarrow> \<not> transfer_over (stats s)"
  by (simp add: running_def)

lemma running_flavor:
  "running fl s \<Longrightarrow> flavor s = fl \<and> (fl = X_NORMAL \<or> fl = X_RELAXED \<or> fl = X_CRC \<or> fl = X_1K)"
  by (cases fl) (auto simp: running_def is_ymodem_def is_streaming_def)

lemma running_update [frame_simps]:
  "running fl (s\<lparr>out_buf := x\<rparr>) = running fl s" "running fl (s\<lparr>state := st\<rparr>) = running fl s"
  "running fl (last_message m s) = running fl s" "running fl (clear_block s) = running fl s"
  "running fl (reset_timer s) = running fl s" "running fl (close_file s) = running fl s"
  "running fl (append_input bs s) = running fl s"
  by (simp_all add: running_def last_message_def update_stats_def transfer_over_def stats_setters
      clear_block_def reset_timer_def close_file_def append_input_def)

lemma block_data_phase:
  "state s = BLOCK \<Longrightarrow> send_ack1_phase [C_ACK] s = andthen (send_new_block [C_ACK] s) (\<lambda>s1. Inr ([], s1))"
  by (simp add: send_ack1_phase_def send_ack2_phase_def send_data_phase_def send_block_def waits_ack_def)

lemma length_xframe:
  "length (xframe fl q p) = length p + (if fl = X_NORMAL \<or> fl = X_RELAXED then 4 else 5)"
  by (simp add: xframe_def)

lemma snd_file_frame: "snd_file fl (p # ps) s \<Longrightarrow> length (xframe fl q p) \<le> Q_BUFFER_SIZE"
proof -
  assume "snd_file fl (p # ps) s"
  then obtain f where "payloads fl (unread f) = p # ps" by (auto simp: snd_file_def)
  then have "payload_ok fl p" by (intro payloads_ok [of p fl "unread f"]) simp
  then show ?thesis by (auto simp: payload_ok_def length_xframe)
qed

lemma snd_start:
  assumes "snd_fresh fl c (p # ps) q s"
  shows "\<exists>s'. feed [c] (at_rest s) = Inr (xframe fl q p, at_rest s') \<and> snd_left fl ps (q + 1) s'"
proof -
  have r: "running fl s" "sending s" "state s = INIT" "first_byte s = c" "c \<noteq> C_CAN"
    and q: "current_block_sequence_i s = q" and f: "snd_file fl (p # ps) s"
    using assms by (auto simp: snd_fresh_def snd_base_def)
  let ?s = "last_message '''' ((last_message ''WAITING FOR NAK'' (s\<lparr>out_buf := []\<rparr>))\<lparr>state := BLOCK\<rparr>)"
  have init: "send_init [c] (s\<lparr>out_buf := []\<rparr>) = Pass [C_ACK] ?s"
    using running_flavor [OF r(1)] r
    by (auto simp: send_init_def Let_def last_message_def update_stats_def)
  have s: "snd_base fl q ?s" "snd_file fl (p # ps) ?s" "state ?s = BLOCK" "out_buf ?s = []"
    using r q f by (simp_all add: snd_base_def snd_file_def frame_simps) (simp_all add: last_message_def update_stats_def)
  obtain s' where s': "send_new_block [C_ACK] ?s = Inr s'" "snd_left fl ps (q + 1) s'" "out_buf s' = xframe fl q p" "quiet s'"
    using send_new_block_left [OF s] by blast
  have "xmodem_send [c] (s\<lparr>out_buf := []\<rparr>) = Inr ([], s')"
    using r init s(3) s'(1) by (simp add: xmodem_send_def block_data_phase)
  then show ?thesis using feed_send [OF running_not_over [OF r(1)] r(2)] r(3) s' snd_file_frame [OF f] by auto
qed

lemma ack_not_can [simp]: "C_ACK \<noteq> C_CAN" "C_ACK \<noteq> C_NAK"
  by (simp_all add: control_bytes)

lemma snd_next:
  assumes "snd_left fl (p # ps) q s"
  shows "\<exists>s'. feed [C_ACK] (at_rest s) = Inr (xframe fl q p, at_rest s') \<and> snd_left fl ps (q + 1) s'"
proof -
  let ?s = "s\<lparr>out_buf := []\<rparr>"
  have r: "running fl s" "sending s" "state s = BLOCK" using assms by (auto simp: snd_left_def snd_base_def)
  have s: "snd_base fl q ?s" "snd_file fl (p # ps) ?s" "state ?s = BLOCK" "out_buf ?s = []"
    using assms by (simp_all add: snd_left_def snd_base_def snd_file_def frame_simps)
  obtain s' where s': "send_new_block [C_ACK] ?s = Inr s'" "snd_left fl ps (q + 1) s'" "out_buf s' = xframe fl q p" "quiet s'"
    using send_new_block_left [OF s] by blast
  have "xmodem_send [C_ACK] ?s = Inr ([], s')"
    using r s'(1) by (simp add: xmodem_send_def block_data_phase)
  then show ?thesis using feed_send [OF running_not_over [OF r(1)] r(2)] r(3) s' snd_file_frame [OF s(2)] by auto
qed

lemma snd_end:
  assumes "snd_left fl [] q s"
  shows "\<exists>s'. feed [C_ACK] (at_rest s) = Inr ([C_EOT], at_rest s') \<and> snd_ended fl s'"
proof -
  have r: "running fl s" "sending s" "state s = LAST_BLOCK" "file_ptr s \<noteq> None"
    using assms by (auto simp: snd_left_def snd_base_def)
  let ?s' = "snd (send_last_block [C_ACK] (s\<lparr>out_buf := []\<rparr>))"
  have "xmodem_send [C_ACK] (s\<lparr>out_buf := []\<rparr>) = Inr ([], ?s')"
    using r by (simp add: xmodem_send_def send_ack1_phase_def send_ack2_phase_def send_data_phase_def
        send_last_block_def waits_ack_def)
  moreover have "snd_ended fl ?s'" "out_buf ?s' = [C_EOT]" "fresh_timer ?s'" "sending ?s'" "state ?s' = EOT_ACK"
    "\<not> is_streaming (flavor ?s')"
    using r by (simp_all add: send_last_block_def waits_ack_def snd_ended_def running_def transfer_over_def
        update_stats_def last_message_def put_output_def reset_timer_def stats_setters fresh_timer_def)
  moreover from this have "quiet ?s'" by (intro quiet_sender) simp_all
  ultimately show ?thesis using feed_send [OF running_not_over [OF r(1)] r(2)] r(3) by auto
qed

lemma stop_single_file:
  "single_file_protocol (t_protocol (stats s)) \<Longrightarrow>
   stop_file_transfer st s = update_stats (\<lambda>t. t\<lparr>t_state := st, t_end_time := now (world (xmodem_stop True s))\<rparr>)
     (xmodem_stop True s)"
  by (auto simp: stop_file_transfer_def single_file_protocol_def Let_def)

lemma stats_file_complete_ok_single:
  assumes "single_file_protocol (t_protocol (stats s))"
  shows "state (stats_file_complete_ok s) = COMPLETE"
    "t_state (stats (stats_file_complete_ok s)) = Q_TRANSFER_STATE_END"
    "t_error_count (stats (stats_file_complete_ok s)) = t_error_count (stats s)"
    "out_buf (stats_file_complete_ok s) = out_buf s"
    "file_ptr s = Some f \<Longrightarrow> s_write f \<Longrightarrow>
      files (world (stats_file_complete_ok s)) = (files (world s))(s_path f \<mapsto> (s_data f, now (world s)))"
  using assms
  by (simp_all add: stats_file_complete_ok_def stop_single_file update_stats_def stats_setters
      xmodem_stop_def fclose_def Let_def)

lemma snd_close:
  assumes "snd_ended fl s"
  shows "\<exists>m s'. feed [C_ACK] (at_rest s) = Inr (m, at_rest s') \<and> snd_complete s'"
proof -
  let ?c = "close_file (s\<lparr>out_buf := []\<rparr>)"
  have r: "running fl s" "sending s" "state s = EOT_ACK" "file_ptr s \<noteq> None"
    and sf: "single_file_protocol (t_protocol (stats ?c))" "t_error_count (stats ?c) = 0"
    using assms by (auto simp: snd_ended_def running_def close_file_def)
  have "xmodem_send [C_ACK] (s\<lparr>out_buf := []\<rparr>) = Inr ([], stats_file_complete_ok ?c)"
    using r by (auto simp: xmodem_send_def send_ack1_phase_def send_ack2_phase_def send_data_phase_def
        send_eot_ack_def running_def Let_def close_file_def)
  moreover have "out_buf (stats_file_complete_ok ?c) = []"
    using stats_file_complete_ok_single(4) [OF sf(1)] by (simp add: close_file_def split: option.split)
  ultimately show ?thesis using feed_send [OF running_not_over [OF r(1)] r(2)] r(3) sf
    by (auto simp: snd_complete_def stats_file_complete_ok_single)
qed

section \<open>The receiver meets its part of the contract\<close>

lemma append_input_frame:
  assumes "current_block_n s = 0" "length (current_block s) = 1029" "length bs \<le> 1029"
  shows "take (length bs) (current_block (append_input bs s)) = bs"
    "current_block_n (append_input bs s) = length bs"
  using assms by (simp_all add: append_input_def memcpy_def)

lemma not_waiting:
  assumes "take (length fr) (current_block s) = fr" "current_block_n s = length fr"
    "fr = xframe (flavor s) q p" "payload_ok (flavor s) p"
  shows "\<not> waiting_for_data s"
proof -
  have "current_block s ! 0 = (if length p = 128 then C_SOH else C_STX)"
    using xframe_block(1) [OF assms(1,3,4)] .
  then show ?thesis using assms(2,3,4)
    by (cases "flavor s") (auto simp: waiting_for_data_def is_1k_def length_xframe payload_ok_def)
qed

lemma xmodem_receive_in_block:
  assumes "state s = FIRST_BLOCK \<or> state s = BLOCK" "inp \<noteq> []"
  shows "xmodem_receive inp s = receive_block inp (s\<lparr>state := BLOCK\<rparr>)"
proof (cases "state s = BLOCK")
  case True
  then have eq: "s\<lparr>state := BLOCK\<rparr> = s" by (cases s) simp
  show ?thesis unfolding eq using True by (simp add: xmodem_receive_def)
next
  case False
  then show ?thesis using assms by (simp add: xmodem_receive_def)
qed

definition accepted :: "byte list \<Rightarrow> stream \<Rightarrow> transfer_stats \<Rightarrow> xmodem \<Rightarrow> xmodem" where
  "accepted p f t r =
     clear_block (r\<lparr>state := BLOCK, timeout_begin := now (world r), out_buf := [C_ACK], stats := t,
       file_ptr := Some (f\<lparr>s_data := s_data f @ p, s_pos := s_pos f + length p\<rparr>),
       current_block_sequence_i := current_block_sequence_i r + 1,
       current_block_number := current_block_number r + 1\<rparr>)"

lemma receiver_accepts:
  assumes r: "\<not> transfer_over (stats r)" "\<not> sending r" "state r = FIRST_BLOCK \<or> state r = BLOCK"
    and fl: "\<not> is_ymodem (flavor r)" "\<not> is_streaming (flavor r)"
    and buf: "current_block_n r = 0" "length (current_block r) = 1029"
    and f: "file_ptr r = Some f" "s_pos f = length (s_data f)" "length (s_data f) + length p \<le> space (world r)"
    and p: "payload_ok (flavor r) p"
  shows "\<exists>t. feed (xframe (flavor r) (current_block_sequence_i r) p) (at_rest r) = Inr ([C_ACK], at_rest (accepted p f t r)) \<and>
     t_state t = t_state (stats r) \<and> t_protocol t = t_protocol (stats r) \<and> t_error_count t = t_error_count (stats r)"
proof -
  let ?fr = "xframe (flavor r) (current_block_sequence_i r) p"
  have len: "1 < length ?fr" "length ?fr \<le> 1029"
    using p by (auto simp: length_xframe payload_ok_def)
  let ?b = "(r\<lparr>out_buf := []\<rparr>)\<lparr>state := BLOCK\<rparr>"
  let ?a = "append_input ?fr (reset_timer ?b)"
  have a: "take (current_block_n ?a) (current_block ?a) = ?fr" "current_block_n ?a = length ?fr"
      "flavor ?a = flavor r" "current_block_sequence_i ?a = current_block_sequence_i r"
      "file_ptr ?a = Some f" "world ?a = world r" "stats ?a = stats r"
    using append_input_frame [of "reset_timer ?b" ?fr] buf len f
    by (simp_all add: reset_timer_def append_input_def)
  let ?v = "?a\<lparr>file_ptr := Some (f\<lparr>s_data := s_data f @ p, s_pos := s_pos f + length p\<rparr>),
       current_block_sequence_i := current_block_sequence_i ?a + 1,
       current_block_number := current_block_number ?a + 1\<rparr>"
  have v: "verify_block ?a = Inr (True, ?v)"
    using verify_block_frame [of ?a ?fr p f] a p f by simp
  obtain t where t: "stats_increment_blocks (current_block ?v ! 0) (?v\<lparr>out_buf := [C_ACK]\<rparr>) =
        ?v\<lparr>out_buf := [C_ACK], stats := t\<rparr>" "t_state t = t_state (stats r)"
      "t_protocol t = t_protocol (stats r)" "t_error_count t = t_error_count (stats r)"
    using stats_increment_blocks_frame [of "current_block ?v ! 0" "?v\<lparr>out_buf := [C_ACK]\<rparr>"] a(7) by auto
  let ?r' = "clear_block (?v\<lparr>out_buf := [C_ACK], stats := t\<rparr>)"
  have "receive_data ?a = Inr ([], ?r')"
    using v t(1) not_waiting [of ?fr ?a "current_block_sequence_i r" p] a p by (simp add: receive_data_def)
  moreover have "\<not> at_eot ?a" using a(2) len by (simp add: at_eot_def)
  ultimately have "receive_stored ?fr (reset_timer ?b) = Inr ([], ?r')"
    using a(3) fl len buf by (simp add: receive_stored_def Let_def reset_timer_def)
  then have "receive_block ?fr ?b = Inr ([], ?r')"
    using fl len buf by (auto simp: receive_block_def Let_def reset_timer_def)
  then have "xmodem_receive ?fr (r\<lparr>out_buf := []\<rparr>) = Inr ([], ?r')"
    using r len by (subst xmodem_receive_in_block) auto
  moreover have eq: "?r' = accepted p f t r"
    by (simp add: accepted_def clear_block_def append_input_def reset_timer_def)
  moreover have "quiet (accepted p f t r)"
    using r by (intro quiet_receiver) (simp_all add: accepted_def clear_block_def fresh_timer_def)
  moreover have "out_buf (accepted p f t r) = [C_ACK]" by (simp add: accepted_def clear_block_def)
  ultimately have "feed ?fr (at_rest r) = Inr ([C_ACK], at_rest (accepted p f t r))"
    using r len feed_receive [of r ?fr "accepted p f t r"] by auto
  then show ?thesis using t by auto
qed

lemma rcv_next:
  assumes g: "rcv_got fl name sp acc q r" and fits: "fits fl sp (acc @ [p])"
  shows "\<exists>r'. feed (xframe fl q p) (at_rest r) = Inr ([C_ACK], at_rest r') \<and> rcv_got fl name sp (acc @ [p]) (q + 1) r'"
proof -
  have r: "running fl r" "\<not> sending r" "state r = FIRST_BLOCK \<or> state r = BLOCK" "current_block_n r = 0"
    "length (current_block r) = 1029" "current_block_sequence_i r = q" "space (world r) = sp"
    "bad_at (world r) name = None"
    using g by (auto simp: rcv_got_def)
  obtain f where f: "file_ptr r = Some f" "s_path f = name" "s_write f" "s_data f = concat acc"
    "s_pos f = length (s_data f)" using g by (auto simp: rcv_got_def)
  have fl: "flavor r = fl" "\<not> is_ymodem (flavor r)" "\<not> is_streaming (flavor r)" "\<not> transfer_over (stats r)"
    using r(1) by (auto simp: running_def)
  have p: "payload_ok (flavor r) p" and sp: "length (s_data f) + length p \<le> space (world r)"
    using fits r f fl(1) by (auto simp: fits_def)
  obtain t where t: "feed (xframe fl q p) (at_rest r) = Inr ([C_ACK], at_rest (accepted p f t r))" "t_state t = t_state (stats r)"
      "t_protocol t = t_protocol (stats r)" "t_error_count t = t_error_count (stats r)"
    using receiver_accepts [OF fl(4) r(2,3) fl(2,3) r(4,5) f(1,5) sp p] fl(1) r(6) by auto
  moreover have "rcv_got fl name sp (acc @ [p]) (q + 1) (accepted p f t r)"
    using r f t running_stats [OF r(1), of "accepted p f t r"]
    by (simp add: rcv_got_def accepted_def clear_block_def)
  ultimately show ?thesis by blast
qed

lemma rcv_end:
  assumes g: "rcv_got fl name sp acc q r" and some: "some_data acc"
  shows "\<exists>r'. feed [C_EOT] (at_rest r) = Inr ([C_ACK], at_rest r') \<and> rcv_saved name acc r'"
proof -
  have r: "running fl r" "\<not> sending r" "state r = FIRST_BLOCK \<or> state r = BLOCK" "current_block_n r = 0"
    "length (current_block r) = 1029" "bad_at (world r) name = None"
    using g by (auto simp: rcv_got_def)
  obtain f where f: "file_ptr r = Some f" "s_path f = name" "s_write f" "s_data f = concat acc"
    "s_pos f = length (s_data f)" using g by (auto simp: rcv_got_def)
  have fl: "flavor r = fl" "\<not> is_ymodem fl" "\<not> is_streaming fl"
    "single_file_protocol (t_protocol (stats r))" "t_error_count (stats r) = 0"
    using r(1) by (auto simp: running_def)
  let ?b = "(r\<lparr>out_buf := []\<rparr>)\<lparr>state := BLOCK\<rparr>"
  let ?a = "append_input [C_EOT] (reset_timer ?b)"
  let ?f = "f\<lparr>s_data := strip_subs (concat acc), s_pos := length (strip_subs (concat acc)), s_eof := False\<rparr>"
  let ?n = "of_nat (2 * subs_count (concat acc) - 1)"
  let ?u = "(update_stats (\<lambda>t. t\<lparr>t_bytes_transfer := t_bytes_transfer (stats r) - ?n,
      t_bytes_total := t_bytes_total (stats r) - ?n\<rparr>) ((clear_block ?a)\<lparr>file_ptr := Some ?f\<rparr>))\<lparr>out_buf := [C_ACK]\<rparr>"
  have a: "file_ptr (clear_block ?a) = Some f" "world (clear_block ?a) = world r"
    "stats (clear_block ?a) = stats r" "flavor ?a = fl" "at_eot ?a"
    using r f fl by (simp_all add: clear_block_def append_input_def reset_timer_def at_eot_def memcpy_def)
  have "trim_subs (world r) f (uninit (world r)) (t_bytes_transfer (stats r)) (t_bytes_total (stats r)) =
      Some (?f, t_bytes_transfer (stats r) - ?n, t_bytes_total (stats r) - ?n)"
    using trim_subs_strips [of "world r" f] r f some by (simp add: some_data_def Let_def)
  then have "receive_eot ?a = Inr ([], stats_file_complete_ok ?u)"
    using a fl by (simp add: receive_eot_def receive_eot_xmodem_def)
  then have "receive_stored [C_EOT] (reset_timer ?b) = Inr ([], stats_file_complete_ok ?u)"
    using a fl r by (simp add: receive_stored_def Let_def reset_timer_def)
  then have "receive_block [C_EOT] ?b = Inr ([], stats_file_complete_ok ?u)"
    using fl r by (auto simp: receive_block_def Let_def reset_timer_def)
  then have "xmodem_receive [C_EOT] (r\<lparr>out_buf := []\<rparr>) = Inr ([], stats_file_complete_ok ?u)"
    using r by (subst xmodem_receive_in_block) auto
  moreover have saved: "rcv_saved name acc (stats_file_complete_ok ?u)" "out_buf (stats_file_complete_ok ?u) = [C_ACK]"
    using stats_file_complete_ok_single(1-4) [of ?u] stats_file_complete_ok_single(5) [of ?u ?f] a fl f
    by (simp_all add: rcv_saved_def update_stats_def)
  moreover have "quiet (stats_file_complete_ok ?u)"
    using saved(1) by (intro quiet_over) (simp add: rcv_saved_def transfer_over_def)
  ultimately have "feed [C_EOT] (at_rest r) = Inr ([C_ACK], at_rest (stats_file_complete_ok ?u))"
    using feed_receive [OF running_not_over [OF r(1)] r(2), of "[C_EOT]" "stats_file_complete_ok ?u"] r(3) by auto
  then show ?thesis using saved(1) by blast
qed

lemma round_over:
  assumes "transfer_over (stats (engine p))"
  shows "xmodem_round tr bs k p =
    Inr (take k (out_buf (engine p)), \<lparr>q_buffer_raw = read_input bs (q_buffer_raw p),
      engine = put_out_buf (drop k (out_buf (engine p))) (engine p)\<rparr>)"
proof -
  have "xmodem_process inp (engine p) = Inr (inp, engine p)" for inp
    using assms by (simp add: xmodem_process_def protocol_process_data_def)
  then show ?thesis by (simp add: xmodem_round_def process_incoming_data_def xm.loop_stays)
qed

lemma rcv_idle:
  "rcv_saved name acc (engine p) \<Longrightarrow> \<exists>m p'. feed bs p = Inr (m, p') \<and> rcv_saved name acc (engine p')"
  using round_over [of p] by (simp add: feed_def rcv_saved_def transfer_over_def put_out_buf_def)

lemma fits_prefix: "fits fl sp (xs @ ys) \<Longrightarrow> fits fl sp xs"
  by (auto simp: fits_def)

lemma engine_idle [simp]: "snd_complete (engine (at_rest s)) = snd_complete s"
    "rcv_saved name acc (engine (at_rest s)) = rcv_saved name acc s"
  by (simp_all add: at_rest_def snd_complete_def rcv_saved_def)

interpretation xmodem_pair: stop_and_wait feed feed "[c]" "[C_ACK]" "[C_EOT]" "xframe fl"
    "\<lambda>ps q. between (snd_fresh fl c ps q)" "\<lambda>ps q. between (snd_left fl ps q)" "between (snd_ended fl)"
    "\<lambda>p. snd_complete (engine p)" "fits fl sp" some_data
    "\<lambda>acc q. between (rcv_got fl name sp acc q)" "\<lambda>acc p. rcv_saved name acc (engine p)"
  for c fl name sp
proof unfold_locales
  show "\<exists>s'. feed [c] s = Inr (xframe fl q p, s') \<and> between (snd_left fl ps (q + 1)) s'"
    if "between (snd_fresh fl c (p # ps) q) s" for p ps q s
    using that snd_start [of fl c p ps q] unfolding between_def by blast
  show "\<exists>s'. feed [C_ACK] s = Inr (xframe fl q p, s') \<and> between (snd_left fl ps (q + 1)) s'"
    if "between (snd_left fl (p # ps) q) s" for p ps q s
    using that snd_next [of fl p ps q] unfolding between_def by blast
  show "\<exists>s'. feed [C_ACK] s = Inr ([C_EOT], s') \<and> between (snd_ended fl) s'"
    if "between (snd_left fl [] q) s" for q s
    using that snd_end [of fl q] unfolding between_def by blast
  show "\<exists>m s'. feed [C_ACK] s = Inr (m, s') \<and> snd_complete (engine s')" if "between (snd_ended fl) s" for s
    using that snd_close [of fl] engine_idle(1) unfolding between_def by metis
  show "\<exists>r'. feed (xframe fl q p) r = Inr ([C_ACK], r') \<and> between (rcv_got fl name sp (acc @ [p]) (q + 1)) r'"
    if "between (rcv_got fl name sp acc q) r" "fits fl sp (acc @ [p])" for acc q r p
    using that rcv_next [of fl name sp acc q _ p] unfolding between_def by blast
  show "\<exists>r'. feed [C_EOT] r = Inr ([C_ACK], r') \<and> rcv_saved name acc (engine r')"
    if "between (rcv_got fl name sp acc q) r" "some_data acc" for acc q r
    using that rcv_end [of fl name sp acc q] engine_idle(2) unfolding between_def by metis
qed (auto intro: rcv_idle dest: fits_prefix)

section \<open>From the start of the transfer\<close>

definition waiting_flavor :: "q_protocol \<Rightarrow> xmodem_flavor option" where
  "waiting_flavor p =
     (case p of Q_PROTOCOL_XMODEM \<Rightarrow> Some X_NORMAL | Q_PROTOCOL_XMODEM_CRC \<Rightarrow> Some X_CRC
      | Q_PROTOCOL_XMODEM_RELAXED \<Rightarrow> Some X_RELAXED | Q_PROTOCOL_XMODEM_1K \<Rightarrow> Some X_1K | _ \<Rightarrow> None)"

definition file_path :: "cstring \<Rightarrow> bool" where
  "file_path p \<longleftrightarrow> p \<noteq> [] \<and> last p \<noteq> slash"

definition readable_file :: "os \<Rightarrow> cstring \<Rightarrow> byte list \<Rightarrow> bool" where
  "readable_file w p d \<longleftrightarrow> may_open w p \<and> bad_at w p = None \<and> map_option fst (files w p) = Some d"

definition writable_file :: "os \<Rightarrow> cstring \<Rightarrow> nat \<Rightarrow> bool" where
  "writable_file w p n \<longleftrightarrow> may_open w p \<and> bad_at w p = None \<and> n \<le> space w"

lemma waiting_flavor_props:
  assumes "waiting_flavor p = Some fl"
  shows "\<not> is_ymodem fl" "\<not> is_streaming fl" "single_file_protocol p"
    "\<And>ps loc b s. t_protocol (stats s) = p \<Longrightarrow>
      engine_start ps loc b s = Some (xmodem_start loc (ps = Q_STATE_UPLOAD) fl s)"
  using assms by (auto simp: waiting_flavor_def is_ymodem_def is_streaming_def single_file_protocol_def
      engine_start_def split: q_protocol.splits)

lemma strip_slashes_path: "file_path p \<Longrightarrow> strip_slashes p = p"
  by (cases p rule: rev_cases) (simp_all add: file_path_def strip_slashes_def)

lemmas start_simps = xmodem_start_def open_for_transfer_def start_blocks_def update_stats_def
  last_message_def stats_setters clear_block_def reset_timer_def clear_stats_def transfer_over_def

lemma first_byte_not_can: "xmodem_first_byte fl \<noteq> C_CAN"
  by (cases fl) (simp_all add: xmodem_first_byte_def control_bytes)

lemma start_sender:
  assumes fl: "waiting_flavor (t_protocol (stats s0)) = Some fl" and p: "file_path p"
    and d: "readable_file (world s0) p d"
  shows "\<exists>s. start_file_transfer Q_STATE_UPLOAD p [] s0 = Some (Inr (True, s)) \<and>
           snd_fresh fl (xmodem_first_byte fl) (payloads fl d) 1 s"
proof -
  note w = waiting_flavor_props [OF fl]
  obtain t where "files (world s0) p = Some (d, t)" "may_open (world s0) p" "bad_at (world s0) p = None"
    using d by (auto simp: readable_file_def)
  then show ?thesis using p w(1-3) first_byte_not_can [of fl]
    by (simp add: start_file_transfer_def strip_slashes_path w(4) start_simps stat_size_def fopen_rb_def
        snd_fresh_def snd_base_def snd_file_def running_def healthy_def unread_def file_path_def Let_def)
qed

lemma start_receiver:
  assumes fl: "waiting_flavor (t_protocol (stats r0)) = Some fl" and p: "file_path p"
    and w: "writable_file (world r0) p n"
  shows "\<exists>r r1. start_file_transfer Q_STATE_DOWNLOAD p [] r0 = Some (Inr (True, r)) \<and>
           feed [] (at_rest r) = Inr ([xmodem_first_byte fl], at_rest r1) \<and> rcv_got fl p (space (world r0)) [] 1 r1"
proof -
  note wf = waiting_flavor_props [OF fl]
  have w': "may_open (world r0) p" "bad_at (world r0) p = None" using w by (auto simp: writable_file_def)
  obtain r where r: "start_file_transfer Q_STATE_DOWNLOAD p [] r0 = Some (Inr (True, r))"
      "running fl r" "\<not> sending r" "state r = INIT" "first_byte r = xmodem_first_byte fl"
      "current_block_sequence_i r = 1" "current_block_n r = 0" "length (current_block r) = 1029"
      "space (world r) = space (world r0)" "bad_at (world r) p = None"
      "\<exists>f. file_ptr r = Some f \<and> s_path f = p \<and> s_write f \<and> s_data f = [] \<and> s_pos f = 0"
    using p wf(1-3) w'
    by (simp add: start_file_transfer_def strip_slashes_path wf(4) start_simps fopen_wb_def
        running_def file_path_def Let_def)
  have "xmodem_receive [] (r\<lparr>out_buf := []\<rparr>) = Inr ([], receive_init (r\<lparr>out_buf := []\<rparr>))"
    using r(4) by (simp add: xmodem_receive_def)
  moreover have o: "out_buf (receive_init (r\<lparr>out_buf := []\<rparr>)) = [xmodem_first_byte fl]"
    using r(5) by (simp add: receive_init_def reset_timer_def)
  moreover have "quiet (receive_init (r\<lparr>out_buf := []\<rparr>))"
    using r(3) by (intro quiet_receiver) (simp_all add: receive_init_def reset_timer_def fresh_timer_def)
  ultimately have "feed [] (at_rest r) = Inr ([xmodem_first_byte fl], at_rest (receive_init (r\<lparr>out_buf := []\<rparr>)))"
    using feed_receive [OF running_not_over [OF r(2)] r(3), of "[]" "receive_init (r\<lparr>out_buf := []\<rparr>)"] r(4) by simp
  moreover have "rcv_got fl p (space (world r0)) [] 1 (receive_init (r\<lparr>out_buf := []\<rparr>))"
    using r(2-) by (auto simp: rcv_got_def receive_init_def reset_timer_def running_def)
  ultimately show ?thesis using r(1) by blast
qed

lemma payloads_fit: "length d + chunk_size fl \<le> sp \<Longrightarrow> fits fl sp (payloads fl d)"
  using concat_payloads [of fl d] by (auto simp: fits_def list_all_iff payloads_ok)

lemma payloads_some_data: "\<exists>b\<in>set d. b \<noteq> C_SUB \<Longrightarrow> length d + 1024 < 2 ^ 31 \<Longrightarrow> some_data (payloads fl d)"
  using concat_payloads [of fl d]
  by (auto simp: some_data_def chunk_size_def simp del: set_concat split: if_splits)

lemma strip_payloads: "strip_subs (concat (payloads fl d)) = strip_subs d"
  using concat_payloads [of fl d] by auto

definition lockstep :: "nat \<Rightarrow> byte list \<times> xmodem program \<times> xmodem program \<Rightarrow> (xmodem program \<times> xmodem program) run" where
  "lockstep = rounds feed feed"

lemma transfer_completes:
  assumes fl: "waiting_flavor (t_protocol (stats s0)) = Some fl"
    and same: "t_protocol (stats r0) = t_protocol (stats s0)"
    and src: "file_path src" "readable_file (world s0) src d" "\<exists>b\<in>set d. b \<noteq> C_SUB" "length d + 1024 < 2 ^ 31"
    and dst: "file_path dst" "writable_file (world r0) dst (length d + 1024)"
  shows "\<exists>s r m r1 s' r'.
    start_file_transfer Q_STATE_UPLOAD src [] s0 = Some (Inr (True, s)) \<and>
    start_file_transfer Q_STATE_DOWNLOAD dst [] r0 = Some (Inr (True, r)) \<and>
    feed [] (at_rest r) = Inr (m, r1) \<and> lockstep (length (payloads fl d) + 2) (m, at_rest s, r1) = Inr (s', r') \<and>
    snd_complete (engine s') \<and> rcv_saved dst (payloads fl d) (engine r')"
proof -
  have fl': "waiting_flavor (t_protocol (stats r0)) = Some fl" using fl same by simp
  obtain s where s: "start_file_transfer Q_STATE_UPLOAD src [] s0 = Some (Inr (True, s))"
    "snd_fresh fl (xmodem_first_byte fl) (payloads fl d) 1 s"
    using start_sender [OF fl src(1,2)] by blast
  obtain r r1 where r: "start_file_transfer Q_STATE_DOWNLOAD dst [] r0 = Some (Inr (True, r))"
    "feed [] (at_rest r) = Inr ([xmodem_first_byte fl], at_rest r1)" "rcv_got fl dst (space (world r0)) [] 1 r1"
    using start_receiver [OF fl' dst] by blast
  have "length d + chunk_size fl \<le> space (world r0)"
    using dst(2) by (auto simp: writable_file_def chunk_size_def)
  moreover have "between (snd_fresh fl (xmodem_first_byte fl) (payloads fl d) 1) (at_rest s)"
    "between (rcv_got fl dst (space (world r0)) [] 1) (at_rest r1)" using s(2) r(3) by (auto simp: between_def)
  ultimately show ?thesis
    using xmodem_pair.transfer [OF _ payloads_nonempty _ payloads_fit payloads_some_data [OF src(3,4)], of fl
        "xmodem_first_byte fl" 1 "at_rest s" dst "space (world r0)" "at_rest r1"] s(1) r(1,2)
    unfolding lockstep_def by blast
qed

end
