(* ===== verification/Xmodem_Safety.thy ===== *)
theory Xmodem_Safety
  imports Xmodem_Session
begin

text \<open>
  Safety of the Xmodem engine in the main loop against an arbitrary remote side: whatever
  bytes arrive, the flavors that wait for acknowledgements keep the block buffer within its
  bounds, fail no assertion and use no closed file; errors and cancellation end the
  transfer.  The step relation \<open>program_step\<close> has a round of the main loop, of which the
  connection takes some number of bytes, and the passing of time.
\<close>

section \<open>Fields the bookkeeping leaves alone\<close>

lemma xmodem_stop_frame [frame_simps]:
  "sending (xmodem_stop b s) = sending s" "flavor (xmodem_stop b s) = flavor s"
  "current_block (xmodem_stop b s) = current_block s" "current_block_n (xmodem_stop b s) = current_block_n s"
  "state (xmodem_stop b s) = state s" "stats (xmodem_stop b s) = stats s" "out_buf (xmodem_stop b s) = out_buf s"
  "prior_state (xmodem_stop b s) = prior_state s"
  by (simp_all add: xmodem_stop_def Let_def)

lemma stop_file_transfer_frame [frame_simps]:
  "sending (stop_file_transfer t s) = sending s" "flavor (stop_file_transfer t s) = flavor s"
  "current_block (stop_file_transfer t s) = current_block s"
  "current_block_n (stop_file_transfer t s) = current_block_n s"
  "t_protocol (stats (stop_file_transfer t s)) = t_protocol (stats s)"
  "t_state (stats (stop_file_transfer t s)) = t" "state (stop_file_transfer t s) = state s"
  "out_buf (stop_file_transfer t s) = out_buf s" "prior_state (stop_file_transfer t s) = prior_state s"
  by (simp_all add: stop_file_transfer_def update_stats_def ymodem_stop_def frame_simps Let_def
      split: q_protocol.split)

lemma update_stats_frame [frame_simps]:
  "sending (update_stats g s) = sending s" "flavor (update_stats g s) = flavor s"
  "current_block (update_stats g s) = current_block s" "current_block_n (update_stats g s) = current_block_n s"
  "state (update_stats g s) = state s" "out_buf (update_stats g s) = out_buf s"
  "stats (update_stats g s) = g (stats s)" "file_ptr (update_stats g s) = file_ptr s"
  "world (update_stats g s) = world s" "prior_state (update_stats g s) = prior_state s"
  by (simp_all add: update_stats_def)

lemmas bookkeeping = last_message_def last_message_n_def stats_setters reset_timer_def clear_block_def
  frame_simps Let_def

section \<open>The invariant\<close>

definition buffer_ok :: "xmodem \<Rightarrow> bool" where
  "buffer_ok s \<longleftrightarrow> length (current_block s) = 1029 \<and> current_block_n s \<le> 1029"

definition waits :: "xmodem_flavor \<Rightarrow> bool" where
  "waits fl \<longleftrightarrow> \<not> is_ymodem fl \<and> \<not> is_streaming fl"

definition file_open :: "xmodem \<Rightarrow> bool" where
  "file_open s \<longleftrightarrow> (\<exists>f. file_ptr s = Some f \<and> s_pos f = length (s_data f) \<and> bad_at (world s) (s_path f) = None)"

text \<open>What every operation of the engine keeps: the part shared by sender and receiver.\<close>

definition engine_inv :: "xmodem \<Rightarrow> bool" where
  "engine_inv s \<longleftrightarrow> waits (flavor s) \<and> single_file_protocol (t_protocol (stats s)) \<and> buffer_ok s"

definition rcv_inv :: "xmodem \<Rightarrow> bool" where
  "rcv_inv s \<longleftrightarrow> \<not> sending s \<and> engine_inv s \<and> (transfer_over (stats s) \<or> file_open s)"

lemma over_abort [simp]: "t_state t = Q_TRANSFER_STATE_ABORT \<Longrightarrow> transfer_over t"
  by (simp add: transfer_over_def)

lemma over_end [simp]: "t_state t = Q_TRANSFER_STATE_END \<Longrightarrow> transfer_over t"
  by (simp add: transfer_over_def)

lemma rcv_inv_cong:
  assumes "rcv_inv s" "sending s' = sending s" "flavor s' = flavor s"
    "t_protocol (stats s') = t_protocol (stats s)" "t_state (stats s') = t_state (stats s)"
    "current_block s' = current_block s" "current_block_n s' = current_block_n s"
    "file_ptr s' = file_ptr s" "world s' = world s"
  shows "rcv_inv s'"
  using assms by (simp add: rcv_inv_def engine_inv_def buffer_ok_def file_open_def transfer_over_def)

lemma rcv_inv_stopped:
  "rcv_inv s \<Longrightarrow> t = Q_TRANSFER_STATE_ABORT \<or> t = Q_TRANSFER_STATE_END \<Longrightarrow> rcv_inv (stop_file_transfer t s)"
  by (auto simp: rcv_inv_def engine_inv_def buffer_ok_def frame_simps)

lemma rcv_inv_update [simp]:
  "rcv_inv (s\<lparr>state := a\<rparr>) = rcv_inv s" "rcv_inv (s\<lparr>prior_state := a\<rparr>) = rcv_inv s"
  "rcv_inv (s\<lparr>out_buf := b\<rparr>) = rcv_inv s" "rcv_inv (s\<lparr>timeout_count := n\<rparr>) = rcv_inv s"
  "rcv_inv (s\<lparr>timeout_begin := i\<rparr>) = rcv_inv s"
  "rcv_inv (s\<lparr>current_block_sequence_i := q\<rparr>) = rcv_inv s" "rcv_inv (s\<lparr>current_block_number := k\<rparr>) = rcv_inv s"
  by (simp_all add: rcv_inv_def engine_inv_def buffer_ok_def file_open_def)

lemma rcv_inv_stats:
  "(\<And>t. t_state (g t) = t_state t) \<Longrightarrow> (\<And>t. t_protocol (g t) = t_protocol t) \<Longrightarrow>
   rcv_inv (update_stats g s) = rcv_inv s"
  by (simp add: rcv_inv_def engine_inv_def buffer_ok_def file_open_def transfer_over_def frame_simps)

lemma rcv_inv_messages [simp]:
  "rcv_inv (last_message m s) = rcv_inv s" "rcv_inv (last_message_n m s) = rcv_inv s"
  by (simp_all add: last_message_def last_message_n_def rcv_inv_stats stats_setters)

lemma rcv_inv_errors: "rcv_inv s \<Longrightarrow> rcv_inv (stats_increment_errors_m m s)"
  by (simp add: stats_increment_errors_m_def Let_def rcv_inv_stopped rcv_inv_stats stats_setters)

lemma rcv_inv_reset_timer [simp]: "rcv_inv (reset_timer s) = rcv_inv s"
  by (simp add: reset_timer_def)

lemma rcv_inv_timeout: "rcv_inv s \<Longrightarrow> rcv_inv (snd (check_timeout s))"
  by (simp add: check_timeout_def Let_def rcv_inv_stopped rcv_inv_stats)

lemma rcv_inv_clear: "rcv_inv s \<Longrightarrow> rcv_inv (clear_block s)"
  by (simp add: rcv_inv_def engine_inv_def buffer_ok_def clear_block_def file_open_def)

lemma rcv_inv_append: "rcv_inv s \<Longrightarrow> current_block_n s + length bs \<le> 1029 \<Longrightarrow> rcv_inv (append_input bs s)"
  by (simp add: rcv_inv_def engine_inv_def buffer_ok_def append_input_def file_open_def)

lemma rcv_inv_downgrade: "rcv_inv s \<Longrightarrow> rcv_inv (downgrade_to_vanilla_xmodem s)"
  by (simp add: downgrade_to_vanilla_xmodem_def rcv_inv_def engine_inv_def buffer_ok_def file_open_def
      transfer_over_def waits_def is_ymodem_def is_streaming_def stats_setters frame_simps Let_def)

lemma rcv_inv_blocks: "rcv_inv (stats_increment_blocks b s) = rcv_inv s"
proof -
  obtain t where "stats_increment_blocks b s = update_stats (\<lambda>_. t) s" "t_state t = t_state (stats s)"
      "t_protocol t = t_protocol (stats s)"
    using stats_increment_blocks_frame [of b s] by (auto simp: update_stats_def)
  then show ?thesis
    by (simp add: rcv_inv_def engine_inv_def buffer_ok_def file_open_def transfer_over_def frame_simps)
qed

lemmas rcv_inv_intros = rcv_inv_stopped rcv_inv_errors rcv_inv_timeout rcv_inv_clear rcv_inv_append
  rcv_inv_downgrade

section \<open>The receiver never fails\<close>

text \<open>
  The receiver writes at the front of the output buffer: a call leaves the buffer as it
  was or with one byte in it.
\<close>

definition answers :: "xmodem \<Rightarrow> xmodem \<Rightarrow> bool" where
  "answers s s' \<longleftrightarrow> out_buf s' = out_buf s \<or> length (out_buf s') = 1"

lemma answers_same: "out_buf s' = out_buf s \<Longrightarrow> answers s s'"
  by (simp add: answers_def)

lemma answers_byte: "out_buf s' = [b] \<Longrightarrow> answers s s'"
  by (simp add: answers_def)

lemma answers_trans: "answers s s' \<Longrightarrow> answers s' s'' \<Longrightarrow> answers s s''"
  by (auto simp: answers_def)

lemma out_buf_errors_m [frame_simps]: "out_buf (stats_increment_errors_m m s) = out_buf s"
  by (simp add: stats_increment_errors_m_def last_message_def frame_simps Let_def)

lemma out_buf_blocks [frame_simps]: "out_buf (stats_increment_blocks b s) = out_buf s"
  using stats_increment_blocks_frame [of b s] by auto

lemma out_buf_complete [frame_simps]: "out_buf (stats_file_complete_ok s) = out_buf s"
  by (simp add: stats_file_complete_ok_def frame_simps Let_def)

lemma out_buf_plain [frame_simps]:
  "out_buf (reset_timer s) = out_buf s" "out_buf (clear_block s) = out_buf s" "out_buf (append_input bs s) = out_buf s"
  "out_buf (downgrade_to_vanilla_xmodem s) = out_buf s" "out_buf (purge_from_block s) = out_buf s"
  "out_buf (last_message m s) = out_buf s" "out_buf (last_message_n m s) = out_buf s"
  by (simp_all add: reset_timer_def clear_block_def append_input_def downgrade_to_vanilla_xmodem_def
      purge_from_block_def last_message_def last_message_n_def frame_simps)

lemma answers_timeout: "answers s (snd (check_timeout s))"
  by (simp add: answers_def check_timeout_def frame_simps Let_def)

lemma fwrite_at_end:
  "s_pos f = length (s_data f) \<Longrightarrow> s_pos (snd (fwrite w bs f)) = length (s_data (snd (fwrite w bs f)))"
  by (simp add: fwrite_def memcpy_def Let_def)

lemma rcv_inv_write:
  "rcv_inv s \<Longrightarrow> file_open s \<Longrightarrow> file_ptr s = Some f \<Longrightarrow>
   rcv_inv (s\<lparr>file_ptr := Some (snd (fwrite (world s) bs f))\<rparr>)"
  by (auto simp: rcv_inv_def engine_inv_def buffer_ok_def file_open_def fwrite_at_end)

lemma verify_block_total:
  assumes "rcv_inv s" "file_open s"
  shows "\<exists>ok s'. verify_block s = Inr (ok, s') \<and> rcv_inv s' \<and> out_buf s' = out_buf s"
proof (cases "verify_error s")
  case None
  obtain f where f: "file_ptr s = Some f" using assms(2) by (auto simp: file_open_def)
  let ?bs = "take (data_length (current_block s)) (drop 3 (current_block s))"
  have "rcv_inv (s\<lparr>file_ptr := Some (snd (fwrite (world s) ?bs f))\<rparr>)"
    using rcv_inv_write [OF assms f] .
  then show ?thesis using None f
    by (auto simp: verify_block_def stats_increment_errors_def case_prod_beta frame_simps Let_def intro: rcv_inv_errors)
next
  case (Some m)
  then show ?thesis using assms(1)
    by (auto simp: verify_block_def stats_increment_errors_n_def rcv_inv_errors frame_simps)
qed

lemma receive_data_total:
  assumes "rcv_inv s" "file_open s"
  shows "\<exists>s'. receive_data s = Inr ([], s') \<and> rcv_inv s' \<and> answers s s'"
  using verify_block_total [OF assms] assms(1)
  by (auto simp: receive_data_def rcv_inv_blocks rcv_inv_clear frame_simps answers_def)
    (auto simp: purge_from_block_def rcv_inv_clear)

text \<open>The files whose padding the trimming loop does not get rid of.\<close>

definition endless_file :: "xmodem \<Rightarrow> bool" where
  "endless_file s \<longleftrightarrow> (\<exists>f. file_ptr s = Some f \<and> (set (s_data f) \<subseteq> {C_SUB} \<or> 2 ^ 31 \<le> length (s_data f)))"

lemma stats_file_complete_ok_inv:
  "\<not> sending s \<Longrightarrow> engine_inv s \<Longrightarrow> rcv_inv (stats_file_complete_ok s)"
  by (simp add: stats_file_complete_ok_def rcv_inv_def engine_inv_def buffer_ok_def stats_setters
      transfer_over_def frame_simps Let_def)

lemma receive_eot_total:
  assumes inv: "rcv_inv s" and opn: "file_open s"
  shows "(\<exists>s'. receive_eot s = Inr ([], s') \<and> rcv_inv s' \<and> answers s s') \<or> receive_eot s = Inl Diverges \<and> endless_file s"
proof -
  let ?c = "clear_block s"
  have c: "rcv_inv ?c" "\<not> is_ymodem (flavor s)"
    using inv rcv_inv_clear [OF inv] by (simp_all add: rcv_inv_def engine_inv_def waits_def)
  obtain f where f: "file_ptr ?c = Some f" "file_ptr s = Some f" "s_pos f = length (s_data f)"
      "bad_at (world ?c) (s_path f) = None"
    using opn by (auto simp: file_open_def clear_block_def)
  show ?thesis
  proof (cases "trim_subs (world ?c) f (uninit (world ?c)) (t_bytes_transfer (stats ?c)) (t_bytes_total (stats ?c))")
    case None
    have "\<exists>b\<in>set (s_data f). b \<noteq> C_SUB \<Longrightarrow> length (s_data f) < 2 ^ 31 \<Longrightarrow>
        trim_subs (world ?c) f lb tr tot \<noteq> None" for lb tr tot
      using trim_subs_strips [OF f(4) _ f(3)] by (simp add: Let_def)
    then have "\<not> (\<exists>b\<in>set (s_data f). b \<noteq> C_SUB) \<or> \<not> length (s_data f) < 2 ^ 31"
      using None by blast
    then have "endless_file s" using f(2) by (auto simp: endless_file_def not_less)
    then show ?thesis using None c f by (simp add: receive_eot_def receive_eot_xmodem_def)
  next
    case (Some a)
    then obtain f' x y where a: "a = (f', x, y)" by (cases a) auto
    let ?u = "(update_stats (\<lambda>t. t\<lparr>t_bytes_transfer := x, t_bytes_total := y\<rparr>) (?c\<lparr>file_ptr := Some f'\<rparr>))\<lparr>out_buf := [C_ACK]\<rparr>"
    have "\<not> sending ?u" "engine_inv ?u"
      using c(1) by (simp_all add: rcv_inv_def engine_inv_def buffer_ok_def frame_simps)
    then have "rcv_inv (stats_file_complete_ok ?u)" by (rule stats_file_complete_ok_inv)
    moreover have "answers s (stats_file_complete_ok ?u)" by (simp add: answers_def frame_simps)
    ultimately show ?thesis using Some a c f by (simp add: receive_eot_def receive_eot_xmodem_def)
  qed
qed

lemma receive_block_total:
  assumes inv: "rcv_inv s" and opn: "file_open s"
  shows "(\<exists>s'. receive_block inp s = Inr ([], s') \<and> rcv_inv s' \<and> answers s s') \<or>
     receive_block inp s = Inl Diverges \<and> inp = [C_EOT] \<and> endless_file s"
proof (cases "inp = [] \<or> XMODEM_MAX_BLOCK_SIZE < current_block_n s + length inp")
  case True
  have "rcv_inv (receive_no_data s)"
    using rcv_inv_timeout [OF inv] by (simp add: receive_no_data_def case_prod_beta Let_def)
  moreover have "answers s (receive_no_data s)"
    using answers_timeout [of s] by (simp add: receive_no_data_def case_prod_beta Let_def answers_def frame_simps)
  moreover have "\<not> is_streaming (flavor s)" "current_block_n (reset_timer s) = current_block_n s"
    "flavor (reset_timer s) = flavor s"
    using inv by (auto simp: rcv_inv_def engine_inv_def waits_def reset_timer_def)
  ultimately show ?thesis using True inv
    by (auto simp: receive_block_def frame_simps answers_same Let_def) (auto simp: purge_from_block_def)
next
  case False
  let ?a = "append_input inp (reset_timer s)"
  have fl: "\<not> is_streaming (flavor s)" "\<not> is_ymodem (flavor s)"
    using inv by (auto simp: rcv_inv_def engine_inv_def waits_def)
  have a: "rcv_inv ?a" "file_open ?a" "flavor ?a = flavor s" "file_ptr ?a = file_ptr s"
    "current_block_n ?a = current_block_n s + length inp"
    using inv opn False rcv_inv_append [of "reset_timer s" inp]
    by (simp_all add: reset_timer_def) (simp_all add: append_input_def file_open_def)
  have "receive_block inp s = (if at_eot ?a then receive_eot ?a else receive_data ?a)"
    using False fl a(3) by (simp add: receive_block_def receive_stored_def reset_timer_def Let_def)
  moreover have "at_eot ?a \<Longrightarrow> inp = [C_EOT]"
  proof -
    assume e: "at_eot ?a"
    then have "current_block_n s = 0" "length inp = 1" using a(5) False by (cases inp; auto simp: at_eot_def)+
    then show "inp = [C_EOT]" using e
      by (cases inp) (auto simp: at_eot_def append_input_def reset_timer_def memcpy_def)
  qed
  moreover have "endless_file ?a = endless_file s" using a(4) by (simp add: endless_file_def)
  moreover have "answers s ?a" by (simp add: answers_same frame_simps)
  ultimately show ?thesis
    using receive_eot_total [OF a(1,2)] receive_data_total [OF a(1,2)] by (auto intro: answers_trans)
qed

lemma xmodem_receive_total:
  assumes inv: "rcv_inv s" and opn: "file_open s"
  shows "(\<exists>s'. xmodem_receive inp s = Inr ([], s') \<and> rcv_inv s' \<and> answers s s') \<or>
     xmodem_receive inp s = Inl Diverges \<and> inp = [C_EOT] \<and> endless_file s"
proof -
  have b: "rcv_inv (s\<lparr>state := BLOCK\<rparr>)" "file_open (s\<lparr>state := BLOCK\<rparr>)"
    "endless_file (s\<lparr>state := BLOCK\<rparr>) = endless_file s"
    using inv opn by (simp_all add: file_open_def endless_file_def)
  have "rcv_inv (first_block_timeout s)"
    using inv by (auto simp: first_block_timeout_def stats_increment_errors_def Let_def
        intro!: rcv_inv_intros)
  moreover have "rcv_inv (receive_init s)" "rcv_inv (receive_purge s)"
    using inv by (simp_all add: receive_init_def receive_purge_def)
  moreover have "answers s (receive_init s)" "answers s (receive_purge s)" "answers s (first_block_timeout s)"
    by (simp_all add: answers_def receive_init_def receive_purge_def first_block_timeout_def
        stats_increment_errors_def frame_simps Let_def)
  moreover have "answers (s\<lparr>state := BLOCK\<rparr>) s' = answers s s'" for s' by (simp add: answers_def)
  note first = receive_block_total [OF b(1,2), of inp, unfolded b(3) this]
  ultimately show ?thesis
  proof (cases "state s = INIT \<or> state s = FIRST_BLOCK \<and> inp = []")
    case False
    consider "state s = FIRST_BLOCK" "inp \<noteq> []" | "state s = BLOCK" | "state s = PURGE_INPUT" "inp = []"
      | "state s \<noteq> FIRST_BLOCK" "state s \<noteq> BLOCK" "\<not> (state s = PURGE_INPUT \<and> inp = [])"
      using False by blast
    then show ?thesis
    proof cases
      case 1
      then have "xmodem_receive inp s = receive_block inp (s\<lparr>state := BLOCK\<rparr>)" by (simp add: xmodem_receive_def)
      then show ?thesis using first by simp
    next
      case 2
      then show ?thesis using receive_block_total [OF inv opn, of inp] by (simp add: xmodem_receive_def)
    next
      case 3
      then show ?thesis using \<open>rcv_inv (receive_purge s)\<close> \<open>answers s (receive_purge s)\<close>
        by (simp add: xmodem_receive_def)
    next
      case 4
      then show ?thesis using False inv by (auto simp: xmodem_receive_def Let_def answers_same)
    qed
  qed (auto simp: xmodem_receive_def)
qed

lemma process_rcv_total:
  assumes inv: "rcv_inv s" and out: "length (out_buf s) \<le> 1"
  shows "(\<exists>rest s'. xmodem_process inp s = Inr (rest, s') \<and> rcv_inv s' \<and> length (out_buf s) \<le> length (out_buf s') \<and>
      length (out_buf s') \<le> 1 \<and> (length (out_buf s') \<noteq> length (out_buf s) \<longrightarrow> rest = [])) \<or>
     xmodem_process inp s = Inl Diverges \<and> inp = [C_EOT] \<and> endless_file s"
proof (cases "transfer_over (stats s) \<or> state s = ABORT")
  case True
  then show ?thesis using inv out by (auto simp: xmodem_process_def protocol_process_data_def xmodem_def)
next
  case False
  then have s: "file_open s" "\<not> sending s"
    using inv by (auto simp: rcv_inv_def)
  have out': "answers s s' \<Longrightarrow> length (out_buf s) \<le> length (out_buf s') \<and> length (out_buf s') \<le> 1" for s'
    using out by (auto simp: answers_def)
  from xmodem_receive_total [OF inv s(1), of inp] show ?thesis
  proof (elim disjE exE conjE)
    fix s' assume "xmodem_receive inp s = Inr ([], s')" "rcv_inv s'" "answers s s'"
    then show ?thesis using False s(2) process_receive [of s inp s'] out' by auto
  next
    assume "xmodem_receive inp s = Inl Diverges" "inp = [C_EOT]" "endless_file s"
    then show ?thesis using False s(2)
      by (simp add: xmodem_process_def protocol_process_data_def xmodem_def receive_loop.simps)
  qed
qed

text \<open>A whole round of the program, with any table and any number of bytes taken by the connection.\<close>

lemma main_rcv_total:
  assumes inv: "rcv_inv s" and out: "length (out_buf s) \<le> 1"
  shows "(\<exists>rest s'. main_loop xmodem_process out_buf put_out_buf tr inp s = Inr (rest, s') \<and> rcv_inv s' \<and>
      length (out_buf s') \<le> 1) \<or>
     main_loop xmodem_process out_buf put_out_buf tr inp s = Inl Diverges \<and> inp = [C_EOT] \<and> endless_file s"
  using process_rcv_total [OF assms, of inp]
proof (elim disjE exE conjE)
  fix rest s'
  assume s': "xmodem_process inp s = Inr (rest, s')" "rcv_inv s'" "length (out_buf s) \<le> length (out_buf s')"
    "length (out_buf s') \<le> 1" "length (out_buf s') \<noteq> length (out_buf s) \<longrightarrow> rest = []"
  show ?thesis
  proof (cases "length (out_buf s') = length (out_buf s)")
    case True
    then show ?thesis using xm.loop_stays [OF s'(1)] s' by simp
  next
    case False
    let ?t = "put_out_buf (take (length (out_buf s)) (out_buf s') @ map tr (drop (length (out_buf s)) (out_buf s'))) s'"
    let ?J = "\<lambda>inp s. inp = [] \<and> rcv_inv s \<and> length (out_buf s) \<le> 1"
    have "\<exists>rest s'. main_loop xmodem_process out_buf put_out_buf tr [] ?t = Inr (rest, s') \<and> rcv_inv s' \<and> length (out_buf s') \<le> 1"
    proof (rule xm.loop_total [where J = ?J])
      show "\<exists>rest s'. xmodem_process inp s = Inr (rest, s') \<and> rcv_inv s' \<and> length (out_buf s) \<le> length (out_buf s') \<and>
          length (out_buf s') \<le> 1 \<and> (length (out_buf s') \<noteq> length (out_buf s) \<longrightarrow> ?J rest s')" if "?J inp s" for inp s
        using that process_rcv_total [of s inp] by fastforce
      show "?J inp (put_out_buf bs s)" if "?J inp s" "length bs = length (out_buf s)" for inp s bs
        using that by (simp add: put_out_buf_def)
      show "?J [] ?t" using s' by (simp add: put_out_buf_def)
    qed
    then show ?thesis using xm.loop_goes_on [OF s'(1) False] s'(5) False by simp
  qed
next
  assume "xmodem_process inp s = Inl Diverges" "inp = [C_EOT]" "endless_file s"
  then show ?thesis using xm.loop_fails by blast
qed

definition rcv_program :: "xmodem program \<Rightarrow> bool" where
  "rcv_program p \<longleftrightarrow> rcv_inv (engine p) \<and> length (out_buf (engine p)) \<le> 1"

lemma round_rcv_total:
  assumes "rcv_program p"
  shows "(\<exists>w p'. xmodem_round tr bs k p = Inr (w, p') \<and> rcv_program p') \<or>
     xmodem_round tr bs k p = Inl Diverges \<and> read_input bs (q_buffer_raw p) = [C_EOT] \<and> endless_file (engine p)"
proof -
  have "rcv_inv (engine p)" "length (out_buf (engine p)) \<le> 1" using assms by (simp_all add: rcv_program_def)
  from main_rcv_total [OF this, of tr "read_input bs (q_buffer_raw p)"] show ?thesis
    by (auto simp: xmodem_round_def process_incoming_data_def rcv_program_def put_out_buf_def)
qed

lemma round_rcv_written:
  assumes "rcv_program p" "xmodem_round tr bs k p = Inr (w, p')"
  shows "length w \<le> 1"
proof -
  have "rcv_inv (engine p)" "length (out_buf (engine p)) \<le> 1" using assms(1) by (simp_all add: rcv_program_def)
  from main_rcv_total [OF this, of tr "read_input bs (q_buffer_raw p)"] show ?thesis
    using assms(2) by (auto simp: xmodem_round_def process_incoming_data_def)
qed

section \<open>The sender never fails\<close>

definition xmodem_only :: "xmodem_state \<Rightarrow> bool" where
  "xmodem_only st \<longleftrightarrow> st \<noteq> YMODEM_BLOCK0 \<and> st \<noteq> YMODEM_BLOCK0_ACK1 \<and> st \<noteq> YMODEM_BLOCK0_ACK2"

definition snd_inv :: "xmodem \<Rightarrow> bool" where
  "snd_inv s \<longleftrightarrow> sending s \<and> \<not> is_ymodem (flavor s) \<and> single_file_protocol (t_protocol (stats s)) \<and>
     buffer_ok s \<and> xmodem_only (state s) \<and> (state s = PURGE_INPUT \<longrightarrow> xmodem_only (prior_state s)) \<and>
     (transfer_over (stats s) \<or> file_ptr s \<noteq> None)"

lemma xmodem_only_states [simp]:
  "xmodem_only INIT" "xmodem_only PURGE_INPUT" "xmodem_only BLOCK" "xmodem_only LAST_BLOCK"
  "xmodem_only EOT_ACK" "xmodem_only COMPLETE" "xmodem_only ABORT"
  by (simp_all add: xmodem_only_def)

lemma snd_inv_state:
  "snd_inv s \<Longrightarrow> xmodem_only a \<Longrightarrow> a = PURGE_INPUT \<longrightarrow> xmodem_only (prior_state s) \<Longrightarrow> snd_inv (s\<lparr>state := a\<rparr>)"
  by (simp add: snd_inv_def buffer_ok_def)

lemma snd_inv_purge:
  "snd_inv s \<Longrightarrow> xmodem_only a \<Longrightarrow> snd_inv (s\<lparr>prior_state := a, state := PURGE_INPUT\<rparr>)"
  by (simp add: snd_inv_def buffer_ok_def)

lemma snd_inv_update [simp]:
  "snd_inv (s\<lparr>out_buf := b\<rparr>) = snd_inv s" "snd_inv (s\<lparr>timeout_count := n\<rparr>) = snd_inv s"
  "snd_inv (s\<lparr>timeout_begin := i\<rparr>) = snd_inv s"
  "snd_inv (s\<lparr>current_block_sequence_i := q\<rparr>) = snd_inv s" "snd_inv (s\<lparr>current_block_number := k\<rparr>) = snd_inv s"
  by (simp_all add: snd_inv_def buffer_ok_def)

lemma snd_inv_stats:
  "(\<And>t. t_state (g t) = t_state t) \<Longrightarrow> (\<And>t. t_protocol (g t) = t_protocol t) \<Longrightarrow>
   snd_inv (update_stats g s) = snd_inv s"
  by (simp add: snd_inv_def buffer_ok_def transfer_over_def frame_simps)

lemma snd_inv_simps [simp]:
  "snd_inv (last_message m s) = snd_inv s" "snd_inv (reset_timer s) = snd_inv s"
  "snd_inv (put_output bs s) = snd_inv s"
  by (simp_all add: last_message_def snd_inv_stats stats_setters reset_timer_def put_output_def)

lemma snd_inv_stopped:
  "snd_inv s \<Longrightarrow> t = Q_TRANSFER_STATE_ABORT \<or> t = Q_TRANSFER_STATE_END \<Longrightarrow> snd_inv (stop_file_transfer t s)"
  by (auto simp: snd_inv_def buffer_ok_def frame_simps)

lemma snd_inv_errors: "snd_inv s \<Longrightarrow> snd_inv (stats_increment_errors m s)"
  by (simp add: stats_increment_errors_def stats_increment_errors_m_def Let_def snd_inv_stopped snd_inv_stats
      stats_setters snd_inv_state)

lemma snd_inv_timeout: "snd_inv s \<Longrightarrow> snd_inv (snd (check_timeout s))"
proof -
  assume inv: "snd_inv s"
  then have "xmodem_only (state s)" by (simp add: snd_inv_def)
  then show ?thesis using inv
    by (auto simp: check_timeout_def Let_def snd_inv_stats frame_simps intro!: snd_inv_stopped snd_inv_purge snd_inv_state [of _ ABORT])
qed

lemma snd_inv_clear: "snd_inv s \<Longrightarrow> snd_inv (clear_block s)"
  by (simp add: snd_inv_def buffer_ok_def clear_block_def)

lemma snd_inv_downgrade: "snd_inv s \<Longrightarrow> snd_inv (downgrade_to_vanilla_xmodem s)"
  by (simp add: downgrade_to_vanilla_xmodem_def snd_inv_def buffer_ok_def
      transfer_over_def is_ymodem_def stats_setters frame_simps Let_def)

lemma snd_inv_blocks: "snd_inv (stats_increment_blocks b s) = snd_inv s"
proof -
  obtain t where "stats_increment_blocks b s = update_stats (\<lambda>_. t) s" "t_state t = t_state (stats s)"
      "t_protocol t = t_protocol (stats s)"
    using stats_increment_blocks_frame [of b s] by (auto simp: update_stats_def)
  then show ?thesis by (simp add: snd_inv_def buffer_ok_def transfer_over_def frame_simps)
qed

lemma snd_inv_fill:
  assumes "snd_inv s" "file_ptr s = Some f" "n \<le> 1024"
  shows "snd_inv (snd (fill_block n f s))" "out_buf (snd (fill_block n f s)) = out_buf s"
proof -
  have got: "length (fst (fread (world s) n f)) \<le> n" by (rule fread_length)
  let ?s1 = "s\<lparr>file_ptr := Some (snd (fread (world s) n f)),
               current_block := memcpy (current_block s) 3 (fst (fread (world s) n f))\<rparr>"
  have s1: "snd_inv ?s1" using assms got by (simp add: snd_inv_def buffer_ok_def)
  then have "snd_inv (stats_file_cancelled m ?s1)" for m
    by (simp add: stats_file_cancelled_def snd_inv_state snd_inv_stopped)
  moreover have "snd_inv (?s1\<lparr>current_block := memcpy (current_block ?s1) (3 + length (fst (fread (world s) n f)))
      (replicate (n - length (fst (fread (world s) n f))) C_SUB), state := a\<rparr>)" if "xmodem_only a" "a = PURGE_INPUT \<longrightarrow> xmodem_only (prior_state s)" for a
    using s1 that got assms(3) by (simp add: snd_inv_def buffer_ok_def)
  note this [of "state s"] this [of LAST_BLOCK]
  ultimately show "snd_inv (snd (fill_block n f s))"
    using assms(1) by (auto simp: fill_block_def case_prod_beta Let_def snd_inv_def buffer_ok_def)
  show "out_buf (snd (fill_block n f s)) = out_buf s"
    by (auto simp: fill_block_def case_prod_beta Let_def stats_file_cancelled_def last_message_def frame_simps)
qed

lemma snd_inv_block:
  "snd_inv s \<Longrightarrow> n \<le> 1024 \<Longrightarrow> snd_inv (put_crc n s)" "snd_inv s \<Longrightarrow> snd_inv (put_checksum s)"
  "snd_inv (put_header h s) = snd_inv s" "snd_inv (number_block s) = snd_inv s"
  by (simp_all add: snd_inv_def buffer_ok_def put_crc_def put_checksum_def put_header_def number_block_def Let_def)

lemma out_buf_block [frame_simps]:
  "out_buf (put_crc n s) = out_buf s" "out_buf (put_checksum s) = out_buf s"
  "out_buf (put_header h s) = out_buf s" "out_buf (number_block s) = out_buf s"
  by (simp_all add: put_crc_def put_checksum_def put_header_def number_block_def Let_def)

lemma construct_block_total:
  assumes "snd_inv s" "file_ptr s = Some f"
  shows "\<exists>ok s'. construct_block s = Inr (ok, s') \<and> snd_inv s' \<and> out_buf s' = out_buf s"
proof -
  let ?n = "if flavor s = X_RELAXED \<or> flavor s = X_NORMAL \<or> flavor s = X_CRC then 128 else 1024"
  obtain rc s1 where fill: "fill_block ?n f s = (rc, s1)" by fastforce
  have "snd_inv s1" "out_buf s1 = out_buf s"
    using snd_inv_fill [OF assms, of ?n] fill by simp_all
  then show ?thesis using assms(2) fill
    by (cases rc) (auto simp: construct_block_def Let_def frame_simps snd_inv_block)
qed

text \<open>
  What a call may do: it may write when nothing is left to be written or when it has
  nothing to process and does not have to send a block again; and what it adds is at
  most one block, after which no block has to be sent again.
\<close>

definition not_resending :: "xmodem \<Rightarrow> bool" where
  "not_resending s \<longleftrightarrow> \<not> (state s = PURGE_INPUT \<and> (prior_state s = BLOCK \<or> prior_state s = LAST_BLOCK))"

definition may_send :: "byte list \<Rightarrow> xmodem \<Rightarrow> bool" where
  "may_send inp s \<longleftrightarrow> out_buf s = [] \<or> inp = [] \<and> not_resending s"

definition adds :: "xmodem \<Rightarrow> xmodem \<Rightarrow> bool" where
  "adds s s' \<longleftrightarrow> (\<exists>bs. out_buf s' = out_buf s @ bs \<and> length bs \<le> 1029 \<and> (bs \<noteq> [] \<longrightarrow> not_resending s'))"

lemma adds_same: "out_buf s' = out_buf s \<Longrightarrow> adds s s'"
  by (simp add: adds_def)

lemma adds_some: "out_buf s' = out_buf s @ bs \<Longrightarrow> length bs \<le> 1029 \<Longrightarrow> not_resending s' \<Longrightarrow> adds s s'"
  by (auto simp: adds_def)

lemma not_resending_state: "state s \<noteq> PURGE_INPUT \<Longrightarrow> not_resending s"
  by (simp add: not_resending_def)

lemma out_buf_put [frame_simps]: "out_buf (put_output bs s) = out_buf s @ bs"
  by (simp add: put_output_def)

lemma construct_block_state:
  assumes "construct_block s = Inr (True, s')"
  shows "(state s' = state s \<or> state s' = LAST_BLOCK) \<and> flavor s' = flavor s"
proof -
  have fill: "(state s1 = state s \<or> state s1 = LAST_BLOCK) \<and> flavor s1 = flavor s"
    if "fill_block n f s = (Some rc, s1)" for n f rc s1
    using that by (auto simp: fill_block_def case_prod_beta Let_def split: if_splits)
  have put: "state (put_crc n s) = state s" "state (put_checksum s) = state s" "state (put_header h s) = state s"
      "state (number_block s) = state s" "flavor (put_crc n s) = flavor s" "flavor (put_checksum s) = flavor s"
      "flavor (put_header h s) = flavor s" "flavor (number_block s) = flavor s" for n h s
    by (simp_all add: put_crc_def put_checksum_def put_header_def number_block_def Let_def)
  obtain f where f: "file_ptr s = Some f" using assms by (auto simp: construct_block_def split: option.splits)
  let ?n = "if flavor s = X_RELAXED \<or> flavor s = X_NORMAL \<or> flavor s = X_CRC then 128 else 1024"
  obtain got s1 where s1: "fill_block ?n f s = (got, s1)" by fastforce
  show ?thesis
  proof (cases got)
    case None
    then show ?thesis using assms f s1 by (simp add: construct_block_def split: if_splits)
  next
    case (Some rc)
    have "state s' = state s1 \<and> flavor s' = flavor s1"
      using assms f s1 Some by (auto simp: construct_block_def put Let_def split: if_splits)
    then show ?thesis using fill s1 Some by simp
  qed
qed

lemma send_new_block_total:
  assumes "snd_inv s" "\<not> transfer_over (stats s)" "state s = BLOCK" "out_buf s = [] \<or> is_streaming (flavor s)"
  shows "\<exists>s'. send_new_block inp s = Inr s' \<and> snd_inv s' \<and> adds s s'"
proof -
  let ?s = "clear_block (reset_timer s)"
  have f: "flavor ?s = flavor s" "state ?s = state s" "out_buf ?s = out_buf s"
    by (simp_all add: clear_block_def reset_timer_def)
  obtain f where "file_ptr ?s = Some f" "snd_inv ?s"
    using assms by (auto simp: snd_inv_clear) (auto simp: snd_inv_def clear_block_def reset_timer_def)
  then obtain ok s1 where s1: "construct_block ?s = Inr (ok, s1)" "snd_inv s1" "out_buf s1 = out_buf s"
    using construct_block_total f(3) by metis
  show ?thesis
  proof (cases ok)
    case True
    let ?p = "put_output (sent_block s1) s1"
    have st: "state s1 = BLOCK \<or> state s1 = LAST_BLOCK" "flavor s1 = flavor s"
      using construct_block_state [of ?s s1] s1(1) True f assms(3) by auto
    let ?q = "if state ?p = LAST_BLOCK then update_stats (\<lambda>t. t\<lparr>t_bytes_transfer := t_bytes_total t\<rparr>) ?p
      else stats_increment_blocks (if inp = [] then 0 else hd inp) ?p"
    have "is_streaming (flavor s1) \<or> out_buf s1 = []" using assms(4) s1(3) st(2) by auto
    then have "send_new_block inp s = Inr ?q" using s1(1) True
      by (simp add: send_new_block_def Let_def check_def split del: if_split)
    moreover have "snd_inv ?q" using s1(2) by (simp add: snd_inv_stats snd_inv_blocks)
    moreover have "out_buf ?q = out_buf ?p" by (simp add: frame_simps)
    moreover have "state (stats_increment_blocks b ?p) = state s1" for b
      using stats_increment_blocks_frame [of b ?p] by (auto simp: put_output_def)
    then have "state ?q = state s1" by (simp add: frame_simps) (simp add: put_output_def)
    ultimately obtain s' where s': "send_new_block inp s = Inr s'" "snd_inv s'" "out_buf s' = out_buf ?p" "state s' = state s1"
      by blast
    have "length (sent_block s1) \<le> 1029" using s1(2) by (simp add: sent_block_def snd_inv_def buffer_ok_def)
    moreover have "not_resending s'" using s'(4) st(1) by (auto simp: not_resending_def)
    ultimately show ?thesis using s1(3) s' adds_some [of s' s "sent_block s1"] by (auto simp: frame_simps)
  next
    case False
    then show ?thesis using s1 by (simp add: send_new_block_def adds_same)
  qed
qed

lemma length_out_errors [simp]: "out_buf (stats_increment_errors m s) = out_buf s"
  by (simp add: stats_increment_errors_def frame_simps)

lemma out_buf_timeout: "sending s \<Longrightarrow> out_buf (snd (check_timeout s)) = out_buf s"
  by (simp add: check_timeout_def last_message_def reset_timer_def frame_simps Let_def)

lemma snd_timeout:
  "snd_inv s \<Longrightarrow> snd_inv (snd (check_timeout s)) \<and> out_buf (snd (check_timeout s)) = out_buf s"
  by (metis snd_inv_def snd_inv_timeout out_buf_timeout)

lemma send_block_total:
  assumes inv: "snd_inv s" and run: "\<not> transfer_over (stats s)" and st: "state s = BLOCK" and may: "may_send inp s"
  shows "\<exists>s'. send_block inp s = Inr s' \<and> snd_inv s' \<and> adds s s'"
proof (cases "waits_ack inp s")
  case True
  then have "out_buf s = [] \<or> is_streaming (flavor s)"
    using may by (auto simp: waits_ack_def may_send_def is_streaming_def)
  then show ?thesis using True send_new_block_total [OF inv run st] by (simp add: send_block_def)
next
  case False
  have t: "snd_inv (snd (check_timeout s))" "out_buf (snd (check_timeout s)) = out_buf s"
    using inv snd_timeout by blast+
  have e: "snd_inv (stats_increment_errors m (s\<lparr>prior_state := BLOCK, state := PURGE_INPUT\<rparr>))" for m
    using inv by (intro snd_inv_errors snd_inv_purge) simp_all
  show ?thesis using False t e
    by (auto simp: send_block_def case_prod_beta Let_def adds_same intro!: snd_inv_purge)
qed

lemma send_purge_total:
  assumes "snd_inv s" "state s = PURGE_INPUT" "may_send inp s"
  shows "\<exists>s'. send_purge inp s = Inr s' \<and> snd_inv s' \<and> adds s s' \<and> (inp \<noteq> [] \<longrightarrow> out_buf s' = out_buf s)"
proof -
  have "prior_state (reset_timer s) = prior_state s" "out_buf (reset_timer s) = out_buf s"
    "sent_block (reset_timer s) = sent_block s"
    by (simp_all add: reset_timer_def sent_block_def)
  moreover have "length (sent_block s) \<le> 1029" "xmodem_only (prior_state s)"
    using assms by (simp_all add: sent_block_def snd_inv_def buffer_ok_def)
  moreover have "prior_state s = BLOCK \<or> prior_state s = LAST_BLOCK \<Longrightarrow> out_buf s = []" if "inp = []"
    using assms that by (auto simp: may_send_def not_resending_def)
  moreover have "adds s ((put_output (sent_block s) (reset_timer s))\<lparr>state := a\<rparr>)" if "a = BLOCK \<or> a = LAST_BLOCK" for a
    using that calculation by (intro adds_some [where bs = "sent_block s"] not_resending_state) (auto simp: frame_simps)
  moreover have "adds s ((reset_timer s)\<lparr>state := a\<rparr>)" "adds s (reset_timer s)" for a
    using calculation by (simp_all add: adds_same)
  ultimately show ?thesis using assms
    by (auto simp: send_purge_def Let_def intro!: snd_inv_state)
qed

lemma send_last_block_total:
  assumes "snd_inv s"
  shows "snd_inv (snd (send_last_block inp s)) \<and> adds s (snd (send_last_block inp s))"
proof -
  have e: "snd_inv (stats_increment_errors m (s\<lparr>prior_state := LAST_BLOCK, state := PURGE_INPUT\<rparr>))" for m
    using assms by (intro snd_inv_errors snd_inv_purge) simp_all
  have t: "out_buf (snd (check_timeout s)) = out_buf s" using assms snd_timeout by blast
  let ?e = "reset_timer (update_stats
        (\<lambda>t. t\<lparr>t_blocks_transfer := t_blocks_transfer t + 1, t_bytes_transfer := t_bytes_total t\<rparr>)
        (last_message ''SENDING EOT'' ((put_output [C_EOT] s)\<lparr>state := EOT_ACK\<rparr>)))"
  have "out_buf ?e = out_buf s @ [C_EOT]" "not_resending ?e"
    by (simp_all add: frame_simps not_resending_def last_message_def reset_timer_def)
  then have "adds s ?e" using adds_some [of ?e s "[C_EOT]"] by simp
  moreover have "snd_inv ?e" using assms by (simp add: snd_inv_stats snd_inv_state)
  ultimately show ?thesis using assms e t
    by (auto simp: send_last_block_def snd_inv_timeout intro!: adds_same)
qed

lemma send_eot_ack_total:
  assumes inv: "snd_inv s" and run: "\<not> transfer_over (stats s)" and st: "state s = EOT_ACK"
  shows "\<exists>s'. send_eot_ack inp s = Inr ([], s') \<and> snd_inv s' \<and> adds s s'"
proof -
  have t: "snd_inv (snd (check_timeout s))" "out_buf (snd (check_timeout s)) = out_buf s"
    using inv snd_timeout by blast+
  have "not_resending (snd (check_timeout s))" using st
    by (simp add: check_timeout_def not_resending_def reset_timer_def last_message_def frame_simps Let_def)
  then have "not_resending (put_output [C_EOT] (snd (check_timeout s)))" by (simp add: not_resending_def put_output_def)
  then have "adds s (put_output [C_EOT] (snd (check_timeout s)))" using t(2)
    by (intro adds_some [where bs = "[C_EOT]"]) (simp_all add: frame_simps)
  moreover have f: "file_ptr s \<noteq> None" "\<not> is_ymodem (flavor (close_file s))"
    using inv run by (simp_all add: snd_inv_def close_file_def)
  moreover have "single_file_protocol (t_protocol (stats (close_file s)))" using inv by (simp add: snd_inv_def close_file_def)
  then have "out_buf (stats_file_complete_ok (close_file s)) = out_buf s" "snd_inv (stats_file_complete_ok (close_file s))"
    using inv stats_file_complete_ok_single
    by (simp_all add: close_file_def)
      (simp add: stats_file_complete_ok_def snd_inv_def buffer_ok_def transfer_over_def stats_setters frame_simps Let_def)
  ultimately show ?thesis using t inv
    by (auto simp: send_eot_ack_def case_prod_beta Let_def adds_same)
qed

lemma send_data_phase_total:
  assumes "snd_inv s" "\<not> transfer_over (stats s)" "may_send inp s"
  shows "\<exists>inp' s'. send_data_phase inp s = Inr (inp', s') \<and> snd_inv s' \<and> adds s s' \<and>
    (inp' \<noteq> [] \<longrightarrow> (state s' = PURGE_INPUT \<or> state s' = ABORT) \<and> inp' = inp \<and> out_buf s' = out_buf s)"
proof -
  obtain inp' s' where l: "send_last_block inp s = (inp', s')" by fastforce
  then have "snd_inv s'" "adds s s'" using send_last_block_total [OF assms(1), of inp] by simp_all
  moreover have "inp' \<noteq> [] \<longrightarrow> inp' = inp \<and> out_buf s' = out_buf s" using l by (auto simp: send_last_block_def split: if_splits)
  ultimately show ?thesis
    using send_block_total [OF assms(1,2) _ assms(3)] send_purge_total [OF assms(1) _ assms(3)] l assms(1)
      send_eot_ack_total [OF assms(1,2), of inp] send_last_block_input [OF l] adds_same [of s s]
    by (auto simp: send_data_phase_def)
qed

lemma send_init_total:
  assumes inv: "snd_inv s"
  shows "case send_init inp s of Done inp' s' \<Rightarrow> inp' = [] \<and> snd_inv s' \<and> out_buf s' = out_buf s
     | Pass inp' s' \<Rightarrow> inp \<noteq> [] \<and> snd_inv s' \<and> out_buf s' = out_buf s \<and> t_state (stats s') = t_state (stats s)"
proof -
  let ?m = "last_message ''WAITING FOR NAK'' s"
  have m: "snd_inv ?m" "out_buf ?m = out_buf s" "flavor ?m = flavor s"
    using inv by (simp_all add: frame_simps) (simp_all add: last_message_def frame_simps)
  have fl: "flavor s = X_RELAXED \<or> flavor s = X_NORMAL \<or> flavor s = X_CRC \<or> flavor s = X_1K \<or> flavor s = X_1K_G"
    using inv by (cases "flavor s") (auto simp: snd_inv_def is_ymodem_def)
  have "t_state (stats (last_message a x)) = t_state (stats x)"
    "t_state (stats (downgrade_to_vanilla_xmodem x)) = t_state (stats x)" for a x
    by (simp_all add: last_message_def downgrade_to_vanilla_xmodem_def stats_setters frame_simps Let_def)
  then show ?thesis using m snd_timeout [OF m(1)] fl
    by (auto simp: send_init_def frame_simps Let_def intro!: snd_inv_state snd_inv_downgrade)
qed

lemma send_phases_xmodem:
  "xmodem_only (state s) \<Longrightarrow> send_ack1_phase inp s = send_data_phase inp s"
  by (simp add: send_ack1_phase_def send_ack2_phase_def xmodem_only_def)

lemma snd_cancelled:
  "snd_inv s \<Longrightarrow> snd_inv (stats_file_cancelled m s) \<and> out_buf (stats_file_cancelled m s) = out_buf s"
  by (simp add: stats_file_cancelled_def snd_inv_state snd_inv_stopped)
    (simp add: last_message_def frame_simps)

lemma xmodem_send_total:
  assumes inv: "snd_inv s" and run: "\<not> transfer_over (stats s)" and may: "may_send inp s"
  shows "\<exists>inp' s'. xmodem_send inp s = Inr (inp', s') \<and> snd_inv s' \<and> adds s s' \<and>
    (inp' \<noteq> [] \<longrightarrow> (state s' = PURGE_INPUT \<or> state s' = ABORT) \<and> out_buf s' = out_buf s)"
proof (cases "inp \<noteq> [] \<and> hd inp = C_CAN")
  case True
  then show ?thesis using snd_cancelled [OF inv] by (simp add: xmodem_send_def adds_same)
next
  case False
  show ?thesis
  proof (cases "state s = INIT")
    case init: True
    show ?thesis
    proof (cases "send_init inp s")
      case (Done inp' s')
      then show ?thesis using False init send_init_total [OF inv, of inp] by (auto simp: xmodem_send_def adds_same)
    next
      case (Pass inp' s')
      then have p: "snd_inv s'" "out_buf s' = out_buf s" "\<not> transfer_over (stats s')" "inp \<noteq> []"
        using send_init_total [OF inv, of inp] run by (auto simp: transfer_over_def)
      then have "xmodem_only (state s')" "may_send inp' s'" "adds s' s'' = adds s s''" for s''
        using may by (auto simp: snd_inv_def may_send_def adds_def)
      then show ?thesis using False init Pass send_data_phase_total [OF p(1,3), of inp'] p(2)
        by (auto simp: xmodem_send_def send_phases_xmodem)
    qed
  next
    case other: False
    have "xmodem_only (state s)" using inv by (simp add: snd_inv_def)
    then show ?thesis using False other send_data_phase_total [OF inv run may]
      by (auto simp: xmodem_send_def send_phases_xmodem)
  qed
qed

lemma xmodem_send_again:
  assumes "snd_inv s" "state s = PURGE_INPUT \<or> state s = ABORT" "inp \<noteq> []"
  shows "\<exists>s'. xmodem_send inp s = Inr ([], s') \<and> snd_inv s' \<and> out_buf s' = out_buf s"
proof -
  have "send_data_phase inp s = Inr ([], if state s = PURGE_INPUT then reset_timer s else s)"
    using assms by (auto simp: send_data_phase_def send_purge_def Let_def)
  then show ?thesis
    using assms snd_cancelled [OF assms(1)]
    by (auto simp: xmodem_send_def send_phases_xmodem reset_timer_def)
qed

lemma send_loop_total:
  assumes "snd_inv s" "\<not> transfer_over (stats s)" "may_send inp s"
  shows "\<exists>s'. send_loop inp s = Inr s' \<and> snd_inv s' \<and> adds s s'"
proof -
  obtain inp1 s1 where s1: "xmodem_send inp s = Inr (inp1, s1)" "snd_inv s1" "adds s s1"
      "inp1 \<noteq> [] \<longrightarrow> (state s1 = PURGE_INPUT \<or> state s1 = ABORT) \<and> out_buf s1 = out_buf s"
    using xmodem_send_total [OF assms] by blast
  show ?thesis
  proof (cases "inp1 = []")
    case True
    then show ?thesis using s1 by (auto simp: send_loop.simps [of inp])
  next
    case False
    then obtain s2 where "xmodem_send inp1 s1 = Inr ([], s2)" "snd_inv s2" "out_buf s2 = out_buf s1"
      using xmodem_send_again [OF s1(2)] s1(4) by blast
    then show ?thesis using s1 False by (auto simp: send_loop.simps [of inp] send_loop.simps [of inp1] adds_same)
  qed
qed

text \<open>A call either leaves the number of bytes to be written, or adds a block that fits the buffer.\<close>

lemma send_room:
  assumes "n \<le> Q_BUFFER_SIZE"
  shows "(of_nat Q_BUFFER_SIZE - of_nat n :: u32) < 1029 \<longleftrightarrow> 3067 < n"
proof -
  obtain m where m: "Q_BUFFER_SIZE = n + m" using assms le_Suc_ex by blast
  have "(of_nat Q_BUFFER_SIZE - of_nat n :: u32) = of_nat m" unfolding m by simp
  moreover have "unat (of_nat m :: u32) = m" using m by (simp add: unat_of_nat take_bit_nat_eq_self)
  ultimately have "(of_nat Q_BUFFER_SIZE - of_nat n :: u32) < 1029 \<longleftrightarrow> m < 1029" by (simp only: word_less_nat_alt) simp
  also have "m < 1029 \<longleftrightarrow> 3067 < n" using m by auto
  finally show ?thesis .
qed

lemma process_snd_total:
  assumes "snd_inv s" "may_send inp s" "length (out_buf s) \<le> Q_BUFFER_SIZE"
  shows "\<exists>rest s'. xmodem_process inp s = Inr (rest, s') \<and> snd_inv s' \<and> length (out_buf s) \<le> length (out_buf s') \<and>
    length (out_buf s') \<le> Q_BUFFER_SIZE \<and> (length (out_buf s') \<noteq> length (out_buf s) \<longrightarrow> may_send rest s')"
proof -
  note room = send_room [OF assms(3)]
  show ?thesis
  proof (cases "transfer_over (stats s) \<or> state s = ABORT \<or> 3067 < length (out_buf s)")
    case True
    have "sending s" using assms(1) by (simp add: snd_inv_def)
    with True show ?thesis using assms room by (auto simp: xmodem_process_def protocol_process_data_def xmodem_def)
  next
    case False
    then obtain s' where s': "send_loop inp s = Inr s'" "snd_inv s'" "adds s s'"
      using send_loop_total assms(1,2) by blast
    then have "xmodem_process inp s = Inr ([], s')" using False room assms(1)
      by (simp add: xmodem_process_def protocol_process_data_def xmodem_def snd_inv_def)
    then show ?thesis using s' False by (auto simp: adds_def may_send_def)
  qed
qed

text \<open>A round of the program in which the connection takes all output.\<close>

definition snd_program :: "xmodem program \<Rightarrow> bool" where
  "snd_program p \<longleftrightarrow> snd_inv (engine p) \<and> out_buf (engine p) = []"

lemma round_snd_total:
  assumes "snd_program p" "Q_BUFFER_SIZE \<le> k"
  shows "\<exists>w p'. xmodem_round tr bs k p = Inr (w, p') \<and> snd_program p' \<and> length w \<le> Q_BUFFER_SIZE"
proof -
  let ?J = "\<lambda>inp s. snd_inv s \<and> may_send inp s \<and> length (out_buf s) \<le> Q_BUFFER_SIZE"
  have "\<exists>rest s'. main_loop xmodem_process out_buf put_out_buf tr (read_input bs (q_buffer_raw p)) (engine p) = Inr (rest, s') \<and>
      snd_inv s' \<and> length (out_buf s') \<le> Q_BUFFER_SIZE"
  proof (rule xm.loop_total [where J = ?J])
    show "\<exists>rest s'. xmodem_process inp s = Inr (rest, s') \<and> snd_inv s' \<and> length (out_buf s) \<le> length (out_buf s') \<and>
        length (out_buf s') \<le> Q_BUFFER_SIZE \<and> (length (out_buf s') \<noteq> length (out_buf s) \<longrightarrow> ?J rest s')" if "?J inp s" for inp s
      using that process_snd_total [of s inp] by blast
    show "?J inp (put_out_buf bs s)" if "?J inp s" "length bs = length (out_buf s)" for inp s bs
      using that by (auto simp: put_out_buf_def may_send_def not_resending_def)
    show "?J (read_input bs (q_buffer_raw p)) (engine p)" using assms by (simp add: snd_program_def may_send_def)
  qed
  then show ?thesis using assms(2)
    by (auto simp: xmodem_round_def process_incoming_data_def snd_program_def put_out_buf_def)
qed

section \<open>Whole sessions\<close>

text \<open>
  A session interleaves rounds with arbitrary input and the passing of time; \<open>K\<close> holds the
  numbers of bytes the connection may take in a round.
\<close>

inductive program_step :: "(byte \<Rightarrow> byte) \<Rightarrow> nat set \<Rightarrow> xmodem program \<Rightarrow> xmodem program \<Rightarrow> bool"
  for tr :: "byte \<Rightarrow> byte" and K :: "nat set" where
  tick: "now (world (engine p)) \<le> t \<Longrightarrow>
    program_step tr K p (p\<lparr>engine := (engine p)\<lparr>world := (world (engine p))\<lparr>now := t\<rparr>\<rparr>\<rparr>)"
| round: "k \<in> K \<Longrightarrow> xmodem_round tr bs k p = Inr (w, p') \<Longrightarrow> program_step tr K p p'"

inductive_cases program_stepE: "program_step tr K p p'"

lemma snd_inv_tick: "snd_inv (s\<lparr>world := w\<rparr>) = snd_inv s"
  by (simp add: snd_inv_def buffer_ok_def)

lemma rcv_inv_tick: "bad_at w = bad_at (world s) \<Longrightarrow> rcv_inv (s\<lparr>world := w\<rparr>) = rcv_inv s"
  by (simp add: rcv_inv_def engine_inv_def buffer_ok_def file_open_def)

lemma program_step_snd: "program_step tr {Q_BUFFER_SIZE..} p p' \<Longrightarrow> snd_program p \<Longrightarrow> snd_program p'"
proof (induction rule: program_step.induct)
  case (round k bs p w p')
  then show ?case using round_snd_total [of p k tr bs] by auto
qed (simp add: snd_program_def snd_inv_tick)

lemma program_step_rcv: "program_step tr K p p' \<Longrightarrow> rcv_program p \<Longrightarrow> rcv_program p'"
proof (induction rule: program_step.induct)
  case (round k bs p w p')
  then show ?case using round_rcv_total [of p tr bs k] by auto
qed (simp add: rcv_program_def rcv_inv_tick)

lemma program_steps_snd:
  "(program_step tr {Q_BUFFER_SIZE..})\<^sup>*\<^sup>* p p' \<Longrightarrow> snd_program p \<Longrightarrow> snd_program p'"
  by (induction rule: rtranclp_induct) (auto dest: program_step_snd)

lemma program_steps_rcv: "(program_step tr K)\<^sup>*\<^sup>* p p' \<Longrightarrow> rcv_program p \<Longrightarrow> rcv_program p'"
  by (induction rule: rtranclp_induct) (auto dest: program_step_rcv)

lemma start_snd_inv:
  assumes "start_file_transfer Q_STATE_UPLOAD p [] s0 = Some (Inr (True, s))"
    "single_file_protocol (t_protocol (stats s0))"
  shows "snd_inv s"
  using assms unfolding single_file_protocol_def
  by (elim disjE; auto simp: start_file_transfer_def engine_start_def start_simps is_ymodem_def andthen_eq_Inr
      snd_inv_def buffer_ok_def single_file_protocol_def Let_def split: option.splits if_splits)

lemma start_rcv_inv:
  assumes "start_file_transfer Q_STATE_DOWNLOAD p [] s0 = Some (Inr (True, s))"
    "waiting_flavor (t_protocol (stats s0)) \<noteq> None" "bad_at (world s0) p = None" "file_path p"
  shows "rcv_inv s"
proof -
  obtain fl where fl: "waiting_flavor (t_protocol (stats s0)) = Some fl" using assms(2) by auto
  note wf = waiting_flavor_props [OF fl]
  show ?thesis using assms(1,3,4) wf(1-3)
    by (auto simp: start_file_transfer_def strip_slashes_path wf(4) start_simps fopen_wb_def rcv_inv_def engine_inv_def
        buffer_ok_def file_open_def waits_def file_path_def Let_def split: option.splits if_splits)
qed

end
