(* ===== verification/Ymodem_Block0.thy ===== *)
theory Ymodem_Block0
  imports Xmodem_Session
begin

text \<open>
  The header block of Ymodem: what \<open>ymodem_construct_block_0\<close> puts on the wire and what
  \<open>ymodem_decode_block_0\<close> reads back from it.
\<close>

section \<open>Reading fields and numerals\<close>

lemma read_field_word:
  assumes "drop n blk = w @ c # rest" "w \<noteq> []" "stop c" "\<forall>x\<in>set (tl w). \<not> stop x" "length w \<le> k"
  shows "read_field stop blk k n = (w, n + length w)"
  using assms
proof (induction w arbitrary: n k)
  case (Cons x w)
  then obtain k' where k: "k = Suc k'" by (cases k) auto
  have d: "drop (Suc n) blk = w @ c # rest" using Cons.prems(1) by (metis append_Cons drop_Suc list.sel(3) tl_drop)
  have n: "Suc n < length blk"
    using arg_cong [OF Cons.prems(1), of length] by simp
  have h: "blk ! n = x" "blk ! Suc n = hd (w @ [c])"
    using Cons.prems(1) d n by (metis Suc_lessD append_Cons hd_drop_conv_nth list.sel(1),
      metis append_Nil append_is_Nil_conv hd_append2 hd_drop_conv_nth list.sel(1))
  show ?case
  proof (cases w)
    case Nil
    then show ?thesis using Cons.prems(3) h k by simp
  next
    case (Cons y w')
    then have "read_field stop blk k' (Suc n) = (w, Suc n + length w)"
      using Cons.IH [OF d] Cons.prems k by simp
    then show ?thesis using Cons h k Cons.prems(4) by simp
  qed
qed simp

lemma signed_numeral_digits:
  assumes "2 \<le> b" "b \<le> 10"
  shows "signed_numeral b (dropWhile is_space (digits_base b n)) = int n"
proof -
  obtain c cs where d: "digits_base b n = c # cs" by (rule digits_Cons)
  have "read_base b 0 (digits_base b n) = n" using read_base_digits [OF assms, of 0 n "[]"] by simp
  then show ?thesis using digits_not [OF assms, of c n] by (simp add: d)
qed

lemma atol_digits: "atol (digits_base 10 n) = int n"
  by (simp add: atol_def signed_numeral_digits)

lemma sscanf_lo_digits: "n < 2 ^ 63 \<Longrightarrow> sscanf_lo (digits_base 8 n) old = int n"
proof -
  assume n: "n < 2 ^ 63"
  obtain c cs where d: "digits_base 8 n = c # cs" by (rule digits_Cons)
  have "octal_start (dropWhile is_space (digits_base 8 n))"
    using digits_not [of 8 c n] digits_base_lt(2) [of 8 c n] by (simp add: d word_le_nat_alt)
  moreover have "sint (word_of_int (int n) :: ulong) = int n"
    using n by (simp add: sint_of_word_of_int del: of_int_of_nat_eq)
  ultimately show ?thesis by (simp add: sscanf_lo_def signed_numeral_digits del: of_int_of_nat_eq)
qed

section \<open>What the sender builds\<close>

definition block0_size :: "byte list \<Rightarrow> nat" where
  "block0_size txt = (if 131 < 3 + length txt then 1024 else 128)"

definition block0_payload :: "byte list \<Rightarrow> byte list" where
  "block0_payload txt = butlast txt @ replicate (block0_size txt - length (butlast txt)) 0"

lemma memcpy_zeros:
  "3 + length p \<le> 1029 \<Longrightarrow> m \<le> 1026 \<Longrightarrow> length p \<le> m \<Longrightarrow>
   memcpy (replicate 1029 0) 3 p = memcpy (replicate 1029 0) 3 (p @ replicate (m - length p) 0)"
  by (simp add: memcpy_def flip: replicate_add)

lemma seal_frame:
  assumes "current_block s = memcpy (replicate 1029 0) 3 p" "length p = m" "m = 128 \<or> m = 1024"
    and "131 < current_block_n s \<longleftrightarrow> m = 1024" and "is_ymodem (flavor s)"
  shows "sent_block (seal_block0 s) = xframe (flavor s) (current_block_sequence_i s) p"
    and "current_block_sequence_i (seal_block0 s) = current_block_sequence_i s + 1"
proof -
  let ?b = "replicate 1029 (0 :: byte)" and ?q = "current_block_sequence_i s"
  let ?h = "if m = 128 then C_SOH else C_STX"
  have slice: "take m (drop 3 (current_block s)) = p"
    using assms(1,2,3) by (auto simp: slice_memcpy)
  have len: "m \<le> length p" "3 + length p \<le> length ?b" "m + 5 \<le> length ?b" using assms(2,3) by auto
  have "sent_block (seal_block0 s) =
      take (m + 5) ((memcpy ?b 3 p)[m + 3 := crc_hi (calcrc p), m + 4 := crc_lo (calcrc p), 0 := ?h,
        Suc 0 := ?q, 2 := 0xFF - ?q])"
    using assms slice by (auto simp: seal_block0_def put_crc_def put_header_def sent_block_def Let_def)
  also have "\<dots> = [?h, ?q, 0xFF - ?q] @ take m p @ [crc_hi (calcrc p), crc_lo (calcrc p)]"
    by (rule take_framed2 [OF len])
  finally show "sent_block (seal_block0 s) = xframe (flavor s) ?q p"
    using assms(2,3,5) by (auto simp: xframe_def is_ymodem_def)
  show "current_block_sequence_i (seal_block0 s) = ?q + 1"
    by (auto simp: seal_block0_def put_crc_def put_header_def Let_def)
qed

lemma construct_block0_frame:
  assumes y: "is_ymodem (flavor s)" and i: "upload_file_list_i s < length (upload_file_list s)"
    and n: "filename s = Some name"
  defines "fi \<equiv> upload_file_list s ! upload_file_list_i s"
  defines "txt \<equiv> block0_text name (fi_size fi) (fi_mtime fi)"
  assumes len: "length txt \<le> 1024"
  shows "\<exists>s'. ymodem_construct_block_0 s = Inr s' \<and>
     sent_block s' = xframe (flavor s) (current_block_sequence_i s) (block0_payload txt)"
proof -
  let ?z = "replicate 1029 (0 :: byte)" and ?p = "block0_payload txt" and ?m = "block0_size txt"
  let ?s = "s\<lparr>current_block := memcpy ?z 3 (butlast txt), current_block_n := 3 + length txt\<rparr>"
  have bl: "length (butlast txt) \<le> ?m" "?m = 128 \<or> ?m = 1024" "length ?p = ?m"
    using len by (auto simp: block0_size_def block0_payload_def)
  then have mem: "memcpy ?z 3 (butlast txt) = memcpy ?z 3 ?p"
    using memcpy_zeros [of "butlast txt" ?m] unfolding block0_payload_def by auto
  have "sent_block (seal_block0 ?s) = xframe (flavor ?s) (current_block_sequence_i ?s) ?p"
    using seal_frame(1) [of ?s ?p ?m] bl mem y by (simp add: block0_size_def)
  moreover have "ymodem_construct_block_0 s = Inr (seal_block0 ?s)"
    using y i n len by (simp add: ymodem_construct_block_0_def Let_def fi_def [symmetric] txt_def [symmetric])
  ultimately show ?thesis by simp
qed

section \<open>What the receiver reads\<close>

lemma block0_accepted:
  assumes "take (length fr) (current_block r) = fr" "current_block_n r = length fr"
    "fr = xframe (flavor r) (current_block_sequence_i r) p" "payload_ok (flavor r) p" "is_ymodem (flavor r)"
  shows "block0_error r = None"
proof -
  note x = xframe_block [OF assms(1,3,4)]
  have fl: "flavor r = Y_NORMAL \<or> flavor r = Y_G" using assms(5) by (simp add: is_ymodem_def)
  have "\<not> crc_mismatch (data_length (current_block r)) (current_block r)"
    using x(6) fl by (auto simp: check_error_def data_length_def split: if_splits)
  moreover have "uint (current_block_sequence_i r) + uint (255 - current_block_sequence_i r) = 255"
    using uint_complement by simp
  moreover have "length fr = 1029 \<or> length fr = 133" using x(8) fl by (auto simp: block_size_ok_def)
  ultimately show ?thesis using x assms(2) by (auto simp: block0_error_def Let_def)
qed

definition opened_for_download :: "cstring \<Rightarrow> stream" where
  "opened_for_download p = \<lparr>s_path = p, s_data = [], s_pos = 0, s_eof = False, s_err = False, s_write = True\<rparr>"

lemma decode_rest:
  assumes blk: "drop n (current_block r) = digits_base 10 sz @ 32 # digits_base 8 (nat mt) @ 0 # rest"
    and n: "current_block_n r = n" "n \<le> length (current_block r)"
    and sz: "sz < 2 ^ 31" and mt: "0 \<le> mt" "mt < 2 ^ 63"
  shows "t_bytes_total (stats (decode_block0_rest name r)) = of_nat sz"
    "download_file_modtime (decode_block0_rest name r) = mt"
    "filename (decode_block0_rest name r) = filename r" "file_ptr (decode_block0_rest name r) = file_ptr r"
    "t_filename (stats (decode_block0_rest name r)) = name"
    "t_state (stats (decode_block0_rest name r)) = Q_TRANSFER_STATE_TRANSFER"
    "current_block_sequence_i (decode_block0_rest name r) = current_block_sequence_i r + 1"
proof -
  let ?stop = "\<lambda>c. c = 0 \<or> c = (32 :: byte)" and ?d = "digits_base 10 sz" and ?o = "digits_base 8 (nat mt)"
  have no: "\<forall>x\<in>set (tl (digits_base b k)). \<not> ?stop x" "0 \<notin> set (digits_base b k)" if "b = 10 \<or> b = 8" for b k
    using that digits_not(1) [of b 0 k] digits_not(2) [of b 32 k] by (cases "digits_base b k"; auto)+
  have "length ?d \<le> Suc 9" "length ?o \<le> Suc 20"
    using sz mt by (intro digits_length; simp)+
  then have len: "length ?d \<le> 255" "length ?o \<le> 255" by simp_all
  have f1: "read_field ?stop (current_block r) 255 n = (?d, n + length ?d)"
    by (rule read_field_word [OF blk]) (use no len in auto)
  have at: "drop (n + length ?d) (current_block r) = 32 # ?o @ 0 # rest"
    using blk by (metis add.commute append_eq_conv_conj drop_drop)
  then have "current_block r ! (n + length ?d) = 32"
    by (metis drop_all hd_drop_conv_nth list.distinct(1) list.sel(1) not_le)
  then have upd: "(current_block r)[n + length ?d := 32] = current_block r"
    by (metis list_update_id)
  have "drop (Suc (n + length ?d)) (current_block r) = ?o @ 0 # rest"
    using at by (metis drop_Suc list.sel(3) tl_drop)
  then have f2: "read_field ?stop (current_block r) 255 (Suc (n + length ?d)) = (?o, Suc (n + length ?d) + length ?o)"
    by (rule read_field_word) (use no len in auto)
  have "sint (word_of_int (int sz) :: u32) = int sz" using sz by (intro sint_of_word_of_int) simp_all
  then have num: "sint (word_of_int (atol (c_string ?d)) :: u32) = int sz" "\<And>old. sscanf_lo (c_string ?o) old = mt"
    using no(2) mt by (simp_all add: c_string_id atol_digits sscanf_lo_digits)
  have scast: "(scast (word_of_int (atol (c_string ?d)) :: u32) :: ulong) = of_nat sz"
    using num(1) by (metis of_int_of_nat_eq of_int_sint)
  show "t_bytes_total (stats (decode_block0_rest name r)) = of_nat sz"
    "download_file_modtime (decode_block0_rest name r) = mt"
    "filename (decode_block0_rest name r) = filename r" "file_ptr (decode_block0_rest name r) = file_ptr r"
    "t_filename (stats (decode_block0_rest name r)) = name"
    "t_state (stats (decode_block0_rest name r)) = Q_TRANSFER_STATE_TRANSFER"
    "current_block_sequence_i (decode_block0_rest name r) = current_block_sequence_i r + 1"
    using n f1 f2 upd num scast
    by (simp_all add: decode_block0_rest_def stats_new_file_def update_stats_def stats_setters Let_def)
qed

lemma decode_block0_frame:
  assumes fr: "take (length fr) (current_block r) = fr" "current_block_n r = length fr"
    "fr = xframe (flavor r) (current_block_sequence_i r) (block0_payload (block0_text name sz mt))"
    and y: "is_ymodem (flavor r)" and len: "length (current_block r) = 1029"
    and name: "name \<noteq> []" "0 \<notin> set name" "length dir + 1 + length name < 256"
    and sz: "sz < 2 ^ 31" and mt: "0 \<le> mt" "mt < 2 ^ 63"
    and dir: "download_path r = Some dir" "may_open (world r) (dir @ [slash] @ name)"
  shows "\<exists>r'. ymodem_decode_block_0 r = Inr (True, r') \<and> filename r' = Some name \<and>
     file_ptr r' = Some (opened_for_download (dir @ [slash] @ name)) \<and>
     t_bytes_total (stats r') = of_nat sz \<and> t_filename (stats r') = name \<and>
     download_file_modtime r' = mt \<and> current_block_sequence_i r' = current_block_sequence_i r + 1"
proof -
  let ?d = "digits_base 10 sz" and ?o = "digits_base 8 (nat mt)"
  let ?txt = "block0_text name sz mt" and ?p = "block0_payload (block0_text name sz mt)"
  have "mtime_ulong mt = nat mt" using mt by (simp add: mtime_ulong_def mod_pos_pos_trivial)
  then have bt: "butlast ?txt = name @ 0 # ?d @ 32 # ?o" by (simp add: block0_text_def butlast_append)
  have dl: "length ?d \<le> Suc 9" "length ?o \<le> Suc 20" using sz mt by (intro digits_length; simp)+
  have tl: "length ?txt = Suc (length (butlast ?txt))" by (simp add: block0_text_def)
  obtain z where p: "?p = name @ 0 # ?d @ 32 # ?o @ 0 # z"
  proof -
    have "0 < block0_size ?txt - length (butlast ?txt)"
      using tl name(3) dl unfolding bt by (auto simp: block0_size_def)
    then obtain k where "block0_size ?txt - length (butlast ?txt) = Suc k" by (cases "block0_size ?txt - length (butlast ?txt)") auto
    then show ?thesis using that [of "replicate k 0"] by (simp add: block0_payload_def bt)
  qed
  have pok: "payload_ok (flavor r) ?p"
    using tl name(3) dl y unfolding payload_ok_def block0_payload_def bt
    by (auto simp: block0_size_def is_1k_def is_ymodem_def)
  have "\<exists>rest. drop 3 (current_block r) = ?p @ rest"
    using xframe_block(5) [OF fr(1,3) pok] by (metis append_take_drop_id)
  then obtain rest where d3: "drop 3 (current_block r) = name @ 0 # ?d @ 32 # ?o @ 0 # (z @ rest)"
    unfolding p by auto
  have f: "read_field (\<lambda>c. c = 0) (current_block r) 255 3 = (name, 3 + length name)"
    by (rule read_field_word [OF d3]) (use name in \<open>auto dest: list.set_sel(2) [rotated]\<close>)
  let ?w = "(world r)\<lparr>files := (files (world r))(dir @ [slash] @ name \<mapsto> ([], now (world r)))\<rparr>"
  let ?r = "r\<lparr>current_block_n := Suc (3 + length name), filename := Some name,
      file_ptr := Some (opened_for_download (dir @ [slash] @ name)), world := ?w\<rparr>"
  have at: "drop (Suc (3 + length name)) (current_block ?r) = ?d @ 32 # ?o @ 0 # (z @ rest)"
  proof -
    have "drop (Suc (length name)) (drop 3 (current_block r)) = ?d @ 32 # ?o @ 0 # (z @ rest)"
      unfolding d3 by simp
    moreover have "Suc (length name) + 3 = Suc (3 + length name)" by simp
    ultimately show ?thesis by (simp only: drop_drop) simp
  qed
  have "Suc (3 + length name) \<le> length (current_block ?r)" using len name(3) by simp
  note rest = decode_rest [OF at _ this sz mt]
  have "ymodem_decode_block_0 r = Inr (True, decode_block0_rest name ?r)"
    using block0_accepted [OF fr pok y] y f name dir
    by (simp add: ymodem_decode_block_0_def c_string_id fopen_wb_def opened_for_download_def Let_def)
  then show ?thesis using rest by simp
qed

end
