(* ===== verification/Xmodem_Properties.thy ===== *)
theory Xmodem_Properties
  imports Xmodem_Safety Ymodem_Block0
begin

text \<open>
  The properties of the Xmodem and Ymodem engine: its error detection, the round trips of
  blocks and of Ymodem's header block, the end of a download, the reaction to damaged
  blocks, to cancellation and to too many errors, and the safety of whole sessions.
\<close>

section \<open>Concrete states\<close>

text \<open>A disk with one file, and an engine on it at the moment a transfer is set up.\<close>

definition sample_path :: cstring where
  "sample_path = [97]"

definition sample_os :: "byte list \<Rightarrow> os" where
  "sample_os d = \<lparr>now = 0, files = [sample_path \<mapsto> (d, 0)], may_open = (\<lambda>_. True), bad_at = (\<lambda>_. None),
                  space = 4096, uninit = 0, stat_denied = (\<lambda>_. False), entropy = 0\<rparr>"

definition sample_stream :: "byte list \<Rightarrow> bool \<Rightarrow> stream" where
  "sample_stream d w = \<lparr>s_path = sample_path, s_data = d, s_pos = (if w then length d else 0), s_eof = False,
                        s_err = False, s_write = w\<rparr>"

definition sample_sender :: "byte list \<Rightarrow> xmodem" where
  "sample_sender d = (initial_xmodem Q_PROTOCOL_XMODEM (sample_os d))
     \<lparr>sending := True, state := BLOCK, file_ptr := Some (sample_stream d False)\<rparr>"

definition sample_receiver :: "byte list \<Rightarrow> xmodem" where
  "sample_receiver d = (initial_xmodem Q_PROTOCOL_XMODEM (sample_os d))
     \<lparr>state := BLOCK, file_ptr := Some (sample_stream d True)\<rparr>"

lemmas sample_defs = sample_path_def sample_os_def sample_stream_def sample_sender_def sample_receiver_def
  initial_xmodem_def initial_stats_def

section \<open>Error detection\<close>

text \<open>
  \<open>calcrc\<close>, which keeps a 32-bit register and masks it only at the end, computes the
  16-bit register of the polynomial x^16 + x^12 + x^5 + 1 stepped over the bytes.
\<close>

lemma calcrc_is_crc16: "calcrc bs = ucast (foldl crc16_step 0 bs)"
  by (rule calcrc_eq)

text \<open>
  The CRC of a block changes whenever one byte of the data is replaced by another.
\<close>

lemma calcrc_detects_byte:
  assumes "i < length bs" "b \<noteq> bs ! i"
  shows "calcrc (bs[i := b]) \<noteq> calcrc bs"
  using crc16.single_byte_error_detected [OF assms, of 0] by (auto simp: calcrc_eq dest: ucast_16_inj)

text \<open>
  With the checksum flavors a block of 132 bytes passes all the tests of
  \<open>verify_block\<close> exactly when it is the frame of its own 128 data bytes under the expected
  block number.
\<close>

lemma checksum_accepts_frames:
  assumes "length (current_block s) = 1029" "flavor s = X_NORMAL \<or> flavor s = X_RELAXED"
    "current_block_n s = 132"
  shows "verify_error s = None \<longleftrightarrow>
    take 132 (current_block s) =
      xframe (flavor s) (current_block_sequence_i s) (take 128 (drop 3 (current_block s)))"
  using assms by (rule checksum_verify_iff)

lemma xframe_update:
  assumes fr: "fr = xframe fl q p" and len: "length p = 128" and fl: "fl = X_NORMAL \<or> fl = X_RELAXED"
    and i: "i < 132" "b \<noteq> fr ! i"
  shows "fr[i := b] \<noteq> xframe fl q (take 128 (drop 3 (fr[i := b])))"
proof
  assume eq: "fr[i := b] = xframe fl q (take 128 (drop 3 (fr[i := b])))"
  have form: "xframe fl q x = [C_SOH, q, 0xFF - q] @ x @ [checksum x]" if "length x = 128" for x
    using fl that by (auto simp: xframe_def)
  have frl: "length fr = 132" using form [OF len] fr len by simp
  let ?p' = "take 128 (drop 3 (fr[i := b]))"
  have p': "length ?p' = 128" using frl by simp
  have neq: "fr[i := b] \<noteq> fr" using i frl by (metis nth_list_update_eq)
  show False
  proof (cases "3 \<le> i \<and> i < 131")
    case True
    obtain j where j: "i = Suc (Suc (Suc j))" using True by (intro that [of "i - 3"]) arith
    have "?p' = p[i - 3 := b]" using form [OF len] fr len True
      by (simp add: j list_update_append)
    moreover have "p ! (i - 3) \<noteq> b" using True i fr form [OF len] len by (auto simp: j nth_append)
    moreover have "i - 3 < length p" using True len by arith
    ultimately have "checksum ?p' \<noteq> checksum p"
      using sum8.single_byte_error_detected [of "i - 3" p b 0] by (auto simp: checksum_def)
    moreover have last: "xframe fl q x ! 131 = checksum x" if "length x = 128" for x
      using form [OF that] that by (simp add: nth_append)
    have "fr[i := b] ! 131 = checksum p" using True last [OF len] fr by simp
    ultimately show False using last [OF p'] eq by simp
  next
    case False
    then have "?p' = p" using form [OF len] fr len i by (auto simp: list_eq_iff_nth_eq nth_append nth_list_update)
    then show False using eq neq fr by simp
  qed
qed

text \<open>
  C25.  With the checksum flavors, a frame of which any one byte (header, block number,
  complement, data or checksum) was changed on the line is rejected.
\<close>

theorem checksum_rejects_damage:
  assumes "length (current_block s) = 1029" "flavor s = X_NORMAL \<or> flavor s = X_RELAXED"
    "current_block_n s = 132" "length p = 128" "i < 132"
    "b \<noteq> xframe (flavor s) (current_block_sequence_i s) p ! i"
    "take 132 (current_block s) = (xframe (flavor s) (current_block_sequence_i s) p)[i := b]"
  shows "verify_error s \<noteq> None"
proof -
  have "take 128 (drop 3 (current_block s)) = take 128 (drop 3 (take 132 (current_block s)))"
    by (simp add: drop_take)
  then show ?thesis
    using checksum_verify_iff [OF assms(1-3)] xframe_update [OF refl assms(4,2,5,6)] assms(7) by simp
qed

theorem checksum_rejects_damage_witness:
  "verify_error ((sample_receiver [])\<lparr>current_block_n := 132,
     current_block := (xframe X_NORMAL 1 (replicate 128 0))[5 := 9] @ replicate 897 0\<rparr>) \<noteq> None"
  by (rule checksum_rejects_damage [of _ "replicate 128 0" 5 9]) (simp_all add: sample_defs xframe_def nth_append)

text \<open>
  C32.  A CRC flavor accepts a block when only one of the two CRC bytes is right: flipping
  the bits 0x89 of the last data byte of a valid frame leaves the high CRC byte as it was,
  and the damaged block passes every test.
\<close>

theorem crc_accepts_half_match:
  assumes "flavor s = X_CRC" "current_block_n s = 133" "length xs = 127"
    "take 133 (current_block s) = [C_SOH, current_block_sequence_i s, 0xFF - current_block_sequence_i s] @
       (xs @ [b XOR 0x89]) @ [crc_hi (calcrc (xs @ [b])), crc_lo (calcrc (xs @ [b]))]"
  shows "verify_error s = None"
proof -
  let ?q = "current_block_sequence_i s" and ?p = "xs @ [b XOR 0x89]"
  let ?chk = "[crc_hi (calcrc (xs @ [b])), crc_lo (calcrc (xs @ [b]))]"
  let ?fr = "[C_SOH, ?q, 0xFF - ?q] @ ?p @ ?chk"
  have "take (length ?fr) (current_block s) = ?fr" using assms(3,4) by simp
  note f = framed_block [OF this refl]
  have "current_block s ! 131 = crc_hi (calcrc (xs @ [b]))" using f(5) [of 0] assms(3) by simp
  moreover have "take 128 (drop 3 (current_block s)) = ?p" using f(4) assms(3) by simp
  ultimately have "check_error X_CRC (current_block s) = None"
    by (simp add: check_error_def crc_mismatch_def calcrc_snoc_89 Let_def)
  moreover have "uint ?q + uint (255 - ?q) = 255" using uint_complement by simp
  ultimately show ?thesis using assms(1,2) f(1-3)
    by (simp add: verify_error_def block_size_ok_def header_ok_def Let_def)
qed

theorem crc_accepts_half_match_witness:
  "verify_error ((sample_receiver [])\<lparr>flavor := X_CRC, current_block_n := 133,
     current_block := ([C_SOH, 1, 0xFE] @ (replicate 127 0 @ [0 XOR 0x89]) @
       [crc_hi (calcrc (replicate 127 0 @ [0])), crc_lo (calcrc (replicate 127 0 @ [0]))]) @ replicate 896 0\<rparr>) = None"
  by (rule crc_accepts_half_match [of _ "replicate 127 0" 0]) (simp_all add: sample_defs)

text \<open>
  The branch of \<open>verify_block\<close> that is to recognise a block sent twice is never
  taken: a repeated block has already been turned away for its number.
\<close>

lemma duplicate_never_reported: "verify_error s \<noteq> Some ''DUPLICATE BLOCK #%d''"
  by (simp add: verify_error_def check_error_def Let_def)

section \<open>Round trips\<close>

text \<open>
  C6.  What \<open>construct_block\<close> builds from a readable file, \<open>verify_block\<close> accepts on the
  other side, for every flavor: it appends to the download exactly the next part of the
  file, padded with SUB, and both sides go on with the same block number.
\<close>

theorem block_roundtrip:
  assumes "file_ptr s = Some f" "healthy (world s) f" "length (current_block s) = 1029"
    and "flavor r = flavor s" "current_block_sequence_i r = current_block_sequence_i s"
    and "length (current_block r) = 1029" "current_block_n r = 0"
    and "file_ptr r = Some g" "s_pos g = length (s_data g)" "length (s_data g) + 1024 \<le> space (world r)"
  shows "\<exists>s' r'. construct_block s = Inr (True, s') \<and>
     verify_block (append_input (sent_block s') r) = Inr (True, r') \<and>
     map_option s_data (file_ptr r') = Some (s_data g @ next_payload (flavor s) (unread f)) \<and>
     current_block_sequence_i r' = current_block_sequence_i s'"
proof -
  let ?p = "next_payload (flavor s) (unread f)" and ?q = "current_block_sequence_i s"
  let ?fr = "xframe (flavor s) ?q ?p"
  obtain blk where c: "construct_block s = Inr (True, constructed s f (length ?fr) blk)"
      "length blk = 1029" "take (length ?fr) blk = ?fr"
    using construct_block_frame [OF assms(1-3)] by blast
  have pok: "payload_ok (flavor s) ?p" by (rule length_next_payload)
  then have len: "length ?p \<le> 1024" "length ?fr \<le> 1029" by (auto simp: payload_ok_def length_xframe)
  have sent: "sent_block (constructed s f (length ?fr) blk) = ?fr"
    using c(3) by (simp add: sent_block_def constructed_def)
  let ?a = "append_input ?fr r"
  have a: "take (current_block_n ?a) (current_block ?a) = ?fr" "current_block_n ?a = length ?fr"
    using append_input_frame [OF assms(7,6) len(2)] by simp_all
  have "verify_block ?a = Inr (True, ?a\<lparr>file_ptr := Some (g\<lparr>s_data := s_data g @ ?p, s_pos := s_pos g + length ?p\<rparr>),
       current_block_sequence_i := current_block_sequence_i ?a + 1,
       current_block_number := current_block_number ?a + 1\<rparr>)"
    using assms pok len a by (intro verify_block_frame [where fr = ?fr]) (simp_all add: append_input_def)
  then show ?thesis using c(1) sent assms(5) by (simp add: append_input_def constructed_def)
qed

theorem block_roundtrip_witness:
  "\<exists>s' r'. construct_block (sample_sender [1, 2, 3]) = Inr (True, s') \<and>
     verify_block (append_input (sent_block s') (sample_receiver [])) = Inr (True, r') \<and>
     map_option s_data (file_ptr r') = Some ([] @ next_payload X_NORMAL [1, 2, 3]) \<and>
     current_block_sequence_i r' = current_block_sequence_i s'"
  using block_roundtrip [of "sample_sender [1, 2, 3]" "sample_stream [1, 2, 3] False" "sample_receiver []"
      "sample_stream [] True"]
  by (simp add: sample_defs healthy_def unread_def)

text \<open>
  C7.  The header block of a Ymodem upload read back by the receiver: it opens the file of
  that name in the download directory and takes over its size and modification time.
\<close>

theorem block0_roundtrip:
  assumes "is_ymodem (flavor s)" "upload_file_list_i s < length (upload_file_list s)"
    and "filename s = Some name" "name \<noteq> []" "0 \<notin> set name"
    and "fi = upload_file_list s ! upload_file_list_i s" "fi_size fi < 2 ^ 31" "0 \<le> fi_mtime fi" "fi_mtime fi < 2 ^ 63"
    and "flavor r = flavor s" "current_block_sequence_i r = current_block_sequence_i s"
    and "length (current_block r) = 1029" "current_block_n r = 0"
    and "download_path r = Some dir" "length dir + 1 + length name < 256"
    and "may_open (world r) (dir @ [slash] @ name)"
  shows "\<exists>s' r'. ymodem_construct_block_0 s = Inr s' \<and>
     ymodem_decode_block_0 (append_input (sent_block s') r) = Inr (True, r') \<and>
     filename r' = Some name \<and> file_ptr r' = Some (opened_for_download (dir @ [slash] @ name)) \<and>
     t_filename (stats r') = name \<and> t_bytes_total (stats r') = of_nat (fi_size fi) \<and>
     download_file_modtime r' = fi_mtime fi"
proof -
  let ?txt = "block0_text name (fi_size fi) (fi_mtime fi)"
  let ?fr = "xframe (flavor s) (current_block_sequence_i s) (block0_payload ?txt)"
  have "mtime_ulong (fi_mtime fi) = nat (fi_mtime fi)"
    using assms(8,9) by (simp add: mtime_ulong_def mod_pos_pos_trivial)
  then have "length (digits_base 10 (fi_size fi)) \<le> Suc 9" "length (digits_base 8 (mtime_ulong (fi_mtime fi))) \<le> Suc 20"
    using assms(7,8,9) by (intro digits_length; simp)+
  then have len: "length ?txt \<le> 1024" using assms(15) by (simp add: block0_text_def)
  obtain s' where s': "ymodem_construct_block_0 s = Inr s'" "sent_block s' = ?fr"
    using construct_block0_frame [OF assms(1-3)] len assms(6) by auto
  have "length (block0_payload ?txt) \<le> 1024" using len by (simp add: block0_payload_def block0_size_def)
  then have "length ?fr \<le> 1029" by (simp add: length_xframe)
  note a = append_input_frame [OF assms(13,12) this]
  have f: "flavor (append_input ?fr r) = flavor s" "length (current_block (append_input ?fr r)) = 1029"
    "current_block_sequence_i (append_input ?fr r) = current_block_sequence_i s"
    "download_path (append_input ?fr r) = Some dir" "world (append_input ?fr r) = world r"
    using assms(10-14) \<open>length ?fr \<le> 1029\<close> by (simp_all add: append_input_def)
  show ?thesis
    using decode_block0_frame [OF a(1), where name = name and sz = "fi_size fi" and mt = "fi_mtime fi" and dir = dir]
      a(2) f assms s' by auto
qed

theorem block0_roundtrip_witness:
  "let s = (sample_sender [])\<lparr>flavor := Y_NORMAL, current_block_sequence_i := 0, filename := Some [97],
         upload_file_list := [\<lparr>fi_name = [97], fi_size = 300, fi_mtime = 1500000000\<rparr>]\<rparr>;
       r = (sample_receiver [])\<lparr>flavor := Y_NORMAL, current_block_sequence_i := 0, download_path := Some [46]\<rparr>
   in \<exists>s' r'. ymodem_construct_block_0 s = Inr s' \<and>
     ymodem_decode_block_0 (append_input (sent_block s') r) = Inr (True, r') \<and>
     filename r' = Some [97] \<and> file_ptr r' = Some (opened_for_download ([46] @ [slash] @ [97])) \<and>
     t_filename (stats r') = [97] \<and> t_bytes_total (stats r') = 300 \<and>
     download_file_modtime r' = 1500000000"
  unfolding Let_def
  using block0_roundtrip [of "(sample_sender [])\<lparr>flavor := Y_NORMAL, current_block_sequence_i := 0,
         filename := Some [97], upload_file_list := [\<lparr>fi_name = [97], fi_size = 300, fi_mtime = 1500000000\<rparr>]\<rparr>"
      "[97]" "\<lparr>fi_name = [97], fi_size = 300, fi_mtime = 1500000000\<rparr>"
      "(sample_receiver [])\<lparr>flavor := Y_NORMAL, current_block_sequence_i := 0, download_path := Some [46]\<rparr>" "[46]"]
  by (simp add: sample_defs is_ymodem_def)

section \<open>The end of a download\<close>

text \<open>
  C26.  When the file is shorter than 2 GiB and holds a byte other than SUB, the trimming loop
  of the receiver ends and leaves exactly the file without its trailing SUBs.  The byte counters are decremented
  once per turn of the loop, which is twice for every SUB removed but the first.
\<close>

theorem padding_is_trimmed:
  assumes "bad_at w (s_path f) = None" "\<exists>b\<in>set (s_data f). b \<noteq> C_SUB" "s_pos f = length (s_data f)"
    "length (s_data f) < 2 ^ 31"
  shows "\<exists>f' n. trim_subs w f lb tr tot = Some (f', tr - n, tot - n) \<and>
     s_data f' = strip_subs (s_data f) \<and> n = of_nat (2 * subs_count (s_data f) - 1)"
  using trim_subs_strips [OF assms] by (simp add: Let_def)

theorem padding_is_trimmed_witness:
  "\<exists>f' n. trim_subs (sample_os []) (sample_stream [1, 26, 2, 26, 26] True) 0 10 10 = Some (f', 10 - n, 10 - n) \<and>
     s_data f' = strip_subs [1, 26, 2, 26, 26] \<and> n = of_nat (2 * subs_count [1, 26, 2, 26, 26] - 1)"
  using padding_is_trimmed [of "sample_os []" "sample_stream [1, 26, 2, 26, 26] True" 0 10 10]
  by (simp add: sample_defs control_bytes)

text \<open>
  When all blocks of a download were padding, as for an empty file sent by this same
  program, the EOT never gets its answer: the trimming loop does not end.
\<close>

lemma padding_only_hangs:
  assumes "rcv_got fl name sp acc q r" "concat acc \<noteq> []" "set (concat acc) \<subseteq> {C_SUB}" "length (concat acc) < 2 ^ 31"
  shows "feed [C_EOT] (at_rest r) = Inl Diverges"
proof -
  have r: "running fl r" "\<not> sending r" "state r = FIRST_BLOCK \<or> state r = BLOCK" "current_block_n r = 0"
    "length (current_block r) = 1029" "bad_at (world r) name = None"
    using assms(1) by (auto simp: rcv_got_def)
  obtain f where f: "file_ptr r = Some f" "s_path f = name" "s_data f = concat acc" "s_pos f = length (s_data f)"
    using assms(1) by (auto simp: rcv_got_def)
  have fl: "flavor r = fl" "\<not> is_ymodem fl" "\<not> is_streaming fl" using r(1) by (auto simp: running_def)
  let ?b = "(r\<lparr>out_buf := []\<rparr>)\<lparr>state := BLOCK\<rparr>"
  let ?a = "append_input [C_EOT] (reset_timer ?b)"
  have a: "file_ptr (clear_block ?a) = Some f" "world (clear_block ?a) = world r" "flavor ?a = fl" "at_eot ?a"
    using r f fl by (simp_all add: clear_block_def append_input_def reset_timer_def at_eot_def memcpy_def)
  have "only_subs (world r) f lb" for lb
    using assms(2,3,4) r f by (auto simp: only_subs_def)
  then have "trim_subs (world r) f lb tr tot = None" for lb tr tot
    using trim_subs_only [of "world r" f lb tr tot] by (cases "trim_subs (world r) f lb tr tot") auto
  then have "receive_eot ?a = Inl Diverges" using a fl by (simp add: receive_eot_def receive_eot_xmodem_def)
  then have "receive_block [C_EOT] ?b = Inl Diverges"
    using a fl r by (auto simp: receive_block_def receive_stored_def Let_def reset_timer_def)
  then have "xmodem_receive [C_EOT] (r\<lparr>out_buf := []\<rparr>) = Inl Diverges"
    using r by (subst xmodem_receive_in_block) auto
  then have "xmodem_process [C_EOT] (r\<lparr>out_buf := []\<rparr>) = Inl Diverges" using r
    by (auto simp: xmodem_process_def protocol_process_data_def running_def xmodem_def receive_loop.simps)
  then show ?thesis by (intro feed_fails) simp_all
qed

section \<open>Damaged blocks\<close>

definition few_errors :: "xmodem \<Rightarrow> bool" where
  "few_errors s \<longleftrightarrow> unat (t_error_count (stats s)) < 14"

lemma error_noted:
  assumes "few_errors s"
  shows "stats_increment_errors_m m s =
    update_stats (\<lambda>t. (set_transfer_stats_last_message m t)\<lparr>t_error_count := t_error_count t + 1\<rparr>) s"
proof -
  have "unat (t_error_count (stats s) + 1) = unat (t_error_count (stats s)) + 1"
    using assms by (simp add: few_errors_def unat_word_ariths)
  then have "\<not> errors_max \<le> t_error_count (stats s) + 1"
    using assms by (simp add: errors_max_def few_errors_def word_le_nat_alt)
  then show ?thesis
    by (simp add: stats_increment_errors_m_def frame_simps stats_setters Let_def)
qed

lemma nak_distinct: "C_NAK \<noteq> C_CAN" "C_NAK \<noteq> C_ACK"
  by (simp_all add: control_bytes)

lemma sender_resends:
  assumes "sending s" "state s = BLOCK" "few_errors s" "\<not> is_streaming (flavor s)" "\<not> transfer_over (stats s)"
    "length (sent_block s) \<le> Q_BUFFER_SIZE"
  shows "\<exists>s1 s2. feed [C_NAK] (at_rest s) = Inr ([], at_rest s1) \<and> feed [] (at_rest s1) = Inr (sent_block s, at_rest s2) \<and>
    state s2 = BLOCK \<and> file_ptr s2 = file_ptr s \<and> world s2 = world s \<and>
    current_block_sequence_i s2 = current_block_sequence_i s"
proof -
  let ?p = "s\<lparr>out_buf := [], prior_state := BLOCK, state := PURGE_INPUT\<rparr>"
  let ?s1 = "update_stats (\<lambda>t. (set_transfer_stats_last_message (''NAK'', None) t)
      \<lparr>t_error_count := t_error_count t + 1\<rparr>) ?p"
  have s1: "stats_increment_errors ''NAK'' ?p = ?s1"
    using error_noted [of ?p] assms(3) by (simp add: stats_increment_errors_def few_errors_def)
  have "xmodem_send [C_NAK] (s\<lparr>out_buf := []\<rparr>) = Inr ([], ?s1)"
    using assms s1 nak_distinct
    by (simp add: xmodem_send_def send_ack1_phase_def send_ack2_phase_def send_data_phase_def send_block_def
        waits_ack_def is_streaming_def)
  moreover have "out_buf ?s1 = []" by (simp add: update_stats_def)
  ultimately have f1: "feed [C_NAK] (at_rest s) = Inr ([], at_rest ?s1)"
    using assms feed_send [of s "[C_NAK]" ?s1] by simp
  let ?s2 = "(put_output (sent_block s) (reset_timer ?s1))\<lparr>state := BLOCK\<rparr>"
  have "xmodem_send [] (?s1\<lparr>out_buf := []\<rparr>) = Inr ([], ?s2)"
    by (simp add: xmodem_send_def send_ack1_phase_def send_ack2_phase_def send_data_phase_def send_purge_def
        update_stats_def reset_timer_def put_output_def sent_block_def Let_def)
  moreover have s2: "state ?s2 = BLOCK" "file_ptr ?s2 = file_ptr s" "world ?s2 = world s"
    "current_block_sequence_i ?s2 = current_block_sequence_i s" "sending ?s2" "\<not> is_streaming (flavor ?s2)"
    "fresh_timer ?s2" "out_buf ?s2 = sent_block s"
    using assms by (simp_all add: update_stats_def reset_timer_def put_output_def fresh_timer_def)
  moreover have "sending ?s1" "state ?s1 \<noteq> ABORT" "\<not> transfer_over (stats ?s1)"
    using assms by (simp_all add: update_stats_def stats_setters transfer_over_def)
  ultimately have "feed [] (at_rest ?s1) = Inr (sent_block s, at_rest ?s2)"
    using assms(6) feed_send [of ?s1 "[]" ?s2] quiet_sender [of ?s2] by simp
  then show ?thesis using f1 s2 by blast
qed

lemma receiver_rejects:
  assumes r: "\<not> sending r" "state r = BLOCK" "few_errors r" "waits (flavor r)" "\<not> transfer_over (stats r)"
    and buf: "current_block_n r = 0" "length (current_block r) = 1029"
    and bad: "1 < length bad" "length bad \<le> 1029" "\<not> waiting_for_data (append_input bad r)"
      "verify_error (append_input bad r) \<noteq> None"
  shows "\<exists>r1 r2. feed bad (at_rest r) = Inr ([], at_rest r1) \<and> feed [] (at_rest r1) = Inr ([C_NAK], at_rest r2) \<and>
    state r2 = BLOCK \<and> file_ptr r2 = file_ptr r \<and> world r2 = world r \<and> flavor r2 = flavor r \<and> \<not> sending r2 \<and>
    current_block_n r2 = 0 \<and> length (current_block r2) = 1029 \<and> \<not> transfer_over (stats r2) \<and>
    current_block_sequence_i r2 = current_block_sequence_i r"
proof -
  let ?a = "append_input bad (reset_timer (r\<lparr>out_buf := []\<rparr>))"
  have cong: "waiting_for_data ?a = waiting_for_data (append_input bad r)" "verify_error ?a = verify_error (append_input bad r)"
    by (simp_all add: waiting_for_data_def verify_error_def append_input_def reset_timer_def Let_def)
  obtain m where m: "verify_error ?a = Some m" using bad(4) cong by auto
  let ?n = "(m, Some (current_block_number ?a))"
  let ?v = "update_stats (\<lambda>t. (set_transfer_stats_last_message ?n t)\<lparr>t_error_count := t_error_count t + 1\<rparr>) ?a"
  have "stats_increment_errors_m ?n ?a = ?v"
    using assms(3) by (intro error_noted) (simp add: few_errors_def append_input_def reset_timer_def)
  then have v: "verify_block ?a = Inr (False, ?v)" using m by (simp add: verify_block_def stats_increment_errors_n_def)
  let ?r1 = "purge_from_block (clear_block ?v)"
  have "receive_data ?a = Inr ([], ?r1)"
    using v bad(3) cong r(2) by (simp add: receive_data_def update_stats_def append_input_def reset_timer_def)
  then have "receive_block bad (r\<lparr>out_buf := []\<rparr>) = Inr ([], ?r1)"
    using bad(1,2) buf r(4)
    by (auto simp: receive_block_def receive_stored_def at_eot_def waits_def append_input_def reset_timer_def Let_def)
  then have "xmodem_receive bad (r\<lparr>out_buf := []\<rparr>) = Inr ([], ?r1)"
    using r(2) by (simp add: xmodem_receive_def Let_def)
  moreover have "out_buf ?r1 = []"
    by (simp add: purge_from_block_def clear_block_def update_stats_def append_input_def reset_timer_def)
  ultimately have f1: "feed bad (at_rest r) = Inr ([], at_rest ?r1)" using r bad(2) feed_receive [of r bad ?r1] by simp
  let ?r2 = "receive_purge (?r1\<lparr>out_buf := []\<rparr>)"
  have st: "state ?r1 = PURGE_INPUT" "\<not> sending ?r1" "\<not> transfer_over (stats ?r1)"
    using r by (simp_all add: purge_from_block_def clear_block_def update_stats_def append_input_def reset_timer_def
        transfer_over_def stats_setters)
  have "xmodem_receive [] (?r1\<lparr>out_buf := []\<rparr>) = Inr ([], ?r2)"
    using st by (simp add: xmodem_receive_def)
  moreover have r2: "\<not> sending ?r2" "state ?r2 = BLOCK" "fresh_timer ?r2" "out_buf ?r2 = [C_NAK]" "file_ptr ?r2 = file_ptr r"
    "world ?r2 = world r" "flavor ?r2 = flavor r" "current_block_n ?r2 = 0" "length (current_block ?r2) = 1029"
    "\<not> transfer_over (stats ?r2)" "current_block_sequence_i ?r2 = current_block_sequence_i r"
    using r by (simp_all add: purge_from_block_def clear_block_def update_stats_def append_input_def reset_timer_def
        receive_purge_def last_message_n_def transfer_over_def stats_setters fresh_timer_def)
  ultimately have "feed [] (at_rest ?r1) = Inr ([C_NAK], at_rest ?r2)"
    using st feed_receive [of ?r1 "[]" ?r2] quiet_receiver [of ?r2] by simp
  then show ?thesis using f1 r2 by blast
qed

text \<open>
  C2.  A damaged block is repaired by one exchange: the receiver drops it, keeps the file
  as it was and answers NAK once the line is quiet; the sender, once the line is quiet,
  sends the same block again; the receiver accepts it, appends its data and acknowledges.
\<close>

theorem damaged_block_recovered:
  assumes s: "sending s" "state s = BLOCK" "few_errors s" "\<not> transfer_over (stats s)" "waits (flavor s)"
      "sent_block s = xframe (flavor s) q p" "payload_ok (flavor s) p"
    and r: "\<not> sending r" "state r = BLOCK" "few_errors r" "\<not> transfer_over (stats r)" "flavor r = flavor s"
      "current_block_sequence_i r = q" "current_block_n r = 0" "length (current_block r) = 1029"
      "file_ptr r = Some f" "s_pos f = length (s_data f)" "length (s_data f) + length p \<le> space (world r)"
    and bad: "1 < length bad" "length bad \<le> 1029" "\<not> waiting_for_data (append_input bad r)"
      "verify_error (append_input bad r) \<noteq> None"
  shows "\<exists>r1 r2 s1 s2 r3 nak blk. feed bad (at_rest r) = Inr ([], at_rest r1) \<and> feed [] (at_rest r1) = Inr (nak, at_rest r2) \<and>
     file_ptr r2 = Some f \<and> feed nak (at_rest s) = Inr ([], at_rest s1) \<and> feed [] (at_rest s1) = Inr (blk, at_rest s2) \<and>
     blk = sent_block s \<and> feed blk (at_rest r2) = Inr ([C_ACK], at_rest r3) \<and>
     map_option s_data (file_ptr r3) = Some (s_data f @ p) \<and> state s2 = BLOCK \<and> current_block_sequence_i s2 = current_block_sequence_i s"
proof -
  have fl: "\<not> is_ymodem (flavor s)" "\<not> is_streaming (flavor s)" using s(5) by (simp_all add: waits_def)
  have len: "length (sent_block s) \<le> Q_BUFFER_SIZE" using s(6,7) by (auto simp: length_xframe payload_ok_def)
  obtain r1 r2 where r2: "feed bad (at_rest r) = Inr ([], at_rest r1)" "feed [] (at_rest r1) = Inr ([C_NAK], at_rest r2)"
    "state r2 = BLOCK" "file_ptr r2 = Some f" "world r2 = world r" "flavor r2 = flavor s" "\<not> sending r2"
    "current_block_n r2 = 0" "length (current_block r2) = 1029" "\<not> transfer_over (stats r2)"
    "current_block_sequence_i r2 = q"
    using receiver_rejects [OF r(1-3) _ r(4,7,8) bad] s(5) r(5,6,9) by auto
  obtain s1 s2 where s2: "feed [C_NAK] (at_rest s) = Inr ([], at_rest s1)" "feed [] (at_rest s1) = Inr (sent_block s, at_rest s2)"
    "state s2 = BLOCK" "current_block_sequence_i s2 = current_block_sequence_i s"
    using sender_resends [OF s(1-3) fl(2) s(4) len] by blast
  have ok: "\<not> is_ymodem (flavor r2)" "\<not> is_streaming (flavor r2)" "state r2 = FIRST_BLOCK \<or> state r2 = BLOCK"
    "length (s_data f) + length p \<le> space (world r2)" "payload_ok (flavor r2) p"
    using fl r2 r(11) s(7) by simp_all
  obtain t where t: "feed (sent_block s) (at_rest r2) = Inr ([C_ACK], at_rest (accepted p f t r2))"
    using receiver_accepts [OF r2(10,7) ok(3,1,2) r2(8,9,4) r(10) ok(4,5)] s(6) r2(6,11) by auto
  have "map_option s_data (file_ptr (accepted p f t r2)) = Some (s_data f @ p)" by (simp add: accepted_def clear_block_def)
  then show ?thesis using r2(1,2,4) s2 t by blast
qed

theorem damaged_block_recovered_witness:
  "let s = (sample_sender [])\<lparr>current_block := xframe X_NORMAL 1 (replicate 128 5) @ replicate 897 0,
         current_block_n := 132\<rparr>;
       r = sample_receiver [7]; bad = (xframe X_NORMAL 1 (replicate 128 5))[0 := 9]
   in \<exists>r1 r2 s1 s2 r3 nak blk. feed bad (at_rest r) = Inr ([], at_rest r1) \<and> feed [] (at_rest r1) = Inr (nak, at_rest r2) \<and>
     file_ptr r2 = Some (sample_stream [7] True) \<and> feed nak (at_rest s) = Inr ([], at_rest s1) \<and>
     feed [] (at_rest s1) = Inr (blk, at_rest s2) \<and> blk = sent_block s \<and> feed blk (at_rest r2) = Inr ([C_ACK], at_rest r3) \<and>
     map_option s_data (file_ptr r3) = Some (s_data (sample_stream [7] True) @ replicate 128 5) \<and> state s2 = BLOCK \<and> current_block_sequence_i s2 = current_block_sequence_i s"
  unfolding Let_def
  by (rule damaged_block_recovered [where q = 1])
    (simp_all add: sample_defs few_errors_def transfer_over_def waits_def is_ymodem_def is_streaming_def
      sent_block_def xframe_def payload_ok_def append_input_def memcpy_def waiting_for_data_def is_1k_def
      verify_error_def block_size_ok_def header_ok_def control_bytes)

section \<open>Ends of a transfer\<close>

text \<open>
  C28.  A CAN at the start of the input makes the sender abort at once, in every state and
  for every flavor: nothing is sent, the file is closed and the transfer is over.
\<close>

theorem can_aborts_sender:
  assumes "sending s" "\<not> transfer_over (stats s)" "state s \<noteq> ABORT"
    "t_protocol (stats s) \<notin> {Q_PROTOCOL_ASCII, Q_PROTOCOL_KERMIT, Q_PROTOCOL_ZMODEM}"
  shows "\<exists>s'. feed (C_CAN # inp) (at_rest s) = Inr ([], at_rest s') \<and> state s' = ABORT \<and> file_ptr s' = None \<and>
     transfer_over (stats s')"
proof -
  let ?s' = "stats_file_cancelled ''TRANSFER CANCELLED BY RECEIVER'' (s\<lparr>out_buf := []\<rparr>)"
  have o: "out_buf ?s' = []" by (simp add: stats_file_cancelled_def frame_simps)
  have "xmodem_send (C_CAN # take 4095 inp) (s\<lparr>out_buf := []\<rparr>) = Inr ([], ?s')" by (simp add: xmodem_send_def)
  then have "feed (C_CAN # take 4095 inp) (at_rest s) = Inr ([], at_rest ?s')"
    using assms o feed_send [of s "C_CAN # take 4095 inp" ?s'] by simp
  then have "feed (C_CAN # inp) (at_rest s) = Inr ([], at_rest ?s')"
    using feed_take [of "C_CAN # inp" s] by simp
  moreover have "file_ptr ?s' = None"
    using assms(4) by (cases "t_protocol (stats s)") (simp_all add: stats_file_cancelled_def stop_file_transfer_def
        last_message_def update_stats_def stats_setters xmodem_stop_def ymodem_stop_def Let_def)
  moreover have "state ?s' = ABORT" "transfer_over (stats ?s')"
    by (simp_all add: stats_file_cancelled_def last_message_def frame_simps)
  ultimately show ?thesis by blast
qed

theorem can_aborts_sender_witness:
  "\<exists>s'. feed (C_CAN # [1, 2]) (at_rest (sample_sender [5])) = Inr ([], at_rest s') \<and> state s' = ABORT \<and>
     file_ptr s' = None \<and> transfer_over (stats s')"
  by (rule can_aborts_sender) (simp_all add: sample_defs transfer_over_def)

text \<open>
  C29.  The fifteenth error ends the transfer: whoever reports it finds the engine in
  state ABORT with the transfer over; before that an error is only counted.
\<close>

theorem error_limit_aborts:
  assumes "unat (t_error_count (stats s)) < 15"
  shows "if unat (t_error_count (stats s)) = 14
    then state (stats_increment_errors m s) = ABORT \<and> transfer_over (stats (stats_increment_errors m s))
    else state (stats_increment_errors m s) = state s \<and> t_state (stats (stats_increment_errors m s)) = t_state (stats s) \<and>
         unat (t_error_count (stats (stats_increment_errors m s))) = unat (t_error_count (stats s)) + 1"
proof (cases "unat (t_error_count (stats s)) = 14")
  case True
  then have "t_error_count (stats s) = 14" by (simp add: word_unat_eq_iff)
  then show ?thesis using True
    by (simp add: stats_increment_errors_def stats_increment_errors_m_def errors_max_def last_message_def
        stats_setters frame_simps Let_def)
next
  case False
  then have few: "few_errors s" using assms by (simp add: few_errors_def)
  then have "unat (t_error_count (stats s) + 1) = unat (t_error_count (stats s)) + 1"
    by (simp add: few_errors_def unat_word_ariths)
  then show ?thesis using False error_noted [OF few]
    by (simp add: stats_increment_errors_def stats_setters frame_simps)
qed

theorem error_limit_aborts_witness:
  "let s = (sample_receiver [])\<lparr>stats := (stats (sample_receiver []))\<lparr>t_error_count := 14\<rparr>\<rparr>
   in state (stats_increment_errors ''NAK'' s) = ABORT \<and> transfer_over (stats (stats_increment_errors ''NAK'' s))"
  using error_limit_aborts [of "(sample_receiver [])\<lparr>stats := (stats (sample_receiver []))\<lparr>t_error_count := 14\<rparr>\<rparr>" "''NAK''"]
  by simp

text \<open>
  Once the transfer is over, no further rounds with whatever input, and no passing of
  time, change the engine, its files or its statistics, or add a byte to what is still to
  be written.
\<close>

lemma finished_transfer_inert:
  assumes "transfer_over (stats (engine p))" "(program_step tr K)\<^sup>*\<^sup>* p p'"
  shows "\<exists>t k. engine p' = (engine p)\<lparr>world := (world (engine p))\<lparr>now := t\<rparr>, out_buf := drop k (out_buf (engine p))\<rparr>"
  using assms(2)
proof (induction rule: rtranclp_induct)
  case base
  show ?case by (rule exI [of _ "now (world (engine p))"], rule exI [of _ 0]) simp
next
  case (step y z)
  then obtain t k where y: "engine y = (engine p)\<lparr>world := (world (engine p))\<lparr>now := t\<rparr>, out_buf := drop k (out_buf (engine p))\<rparr>"
    by auto
  from step(2) show ?case
  proof (cases rule: program_step.cases)
    case (tick t')
    then show ?thesis by (intro exI [of _ t'] exI [of _ k]) (simp add: y)
  next
    case (round k' bs w)
    then have "engine z = (engine p)\<lparr>world := (world (engine p))\<lparr>now := t\<rparr>, out_buf := drop (k' + k) (out_buf (engine p))\<rparr>"
      using assms(1) round_over [of y tr bs k'] by (auto simp: y put_out_buf_def)
    then show ?thesis by blast
  qed
qed

section \<open>Whole sessions\<close>

text \<open>
  C3.  An Xmodem upload survives every remote side, as long as the connection takes what a
  round of the main loop has written: after any interleaving of rounds with arbitrary
  input, under any translation table, and waits, the next round ends; no assertion fails,
  the file is not used after it was closed, the output buffer is not overfilled, and all
  it holds is written.
\<close>

theorem upload_never_fails:
  assumes "single_file_protocol (t_protocol (stats s0))"
    "start_file_transfer Q_STATE_UPLOAD f [] s0 = Some (Inr (True, s))"
    "(program_step tr {Q_BUFFER_SIZE..})\<^sup>*\<^sup>* (at_rest s) p" "Q_BUFFER_SIZE \<le> k"
  shows "\<exists>w p'. xmodem_round tr bs k p = Inr (w, p') \<and> length w \<le> Q_BUFFER_SIZE \<and> out_buf (engine p') = [] \<and>
    current_block_n (engine p') \<le> length (current_block (engine p'))"
proof -
  have "snd_program (at_rest s)" using start_snd_inv [OF assms(2,1)] by (simp add: snd_program_def at_rest_def)
  then have "snd_program p" using program_steps_snd [OF assms(3)] by blast
  then show ?thesis using round_snd_total [of p k tr bs] assms(4) by (auto simp: snd_program_def snd_inv_def buffer_ok_def)
qed

theorem upload_never_fails_witness:
  "\<exists>s. start_file_transfer Q_STATE_UPLOAD sample_path [] (initial_xmodem Q_PROTOCOL_XMODEM_1K_G (sample_os [1])) =
        Some (Inr (True, s)) \<and>
       (\<exists>w p'. xmodem_round (\<lambda>b. b + 1) [3, 1, 4] 5000 (at_rest s) = Inr (w, p') \<and> length w \<le> 4096 \<and> out_buf (engine p') = [] \<and>
         current_block_n (engine p') \<le> length (current_block (engine p')))"
proof -
  obtain s where s: "start_file_transfer Q_STATE_UPLOAD sample_path [] (initial_xmodem Q_PROTOCOL_XMODEM_1K_G (sample_os [1])) =
        Some (Inr (True, s))"
    by (simp add: start_file_transfer_def engine_start_def start_simps sample_defs stat_size_def fopen_rb_def
        strip_slashes_def slash_def is_ymodem_def Let_def)
  show ?thesis using upload_never_fails [OF _ s rtranclp.rtrancl_refl, of 5000 "\<lambda>b. b + 1" "[3, 1, 4]"] s
    by (simp add: single_file_protocol_def initial_xmodem_def)
qed

text \<open>
  C4.  An upload with a flavor that waits for acknowledgements does not survive a connection
  that stalls: when the timeout of the sender (but the last one permitted) strikes in a
  round without input while a part of its block is still to be written, and the round
  does not get rid of it, the block is to be sent again into an output buffer that is not
  empty, and the assertion on it stops the program in the next round (a defect).
\<close>

theorem upload_stall_asserts:
  assumes "sending s" "state s = BLOCK" "waits (flavor s)" "\<not> transfer_over (stats s)"
    and "k < length (out_buf s)" "length (out_buf s) \<le> 3067"
    and "timeout_begin s + 2 * timeout_length \<le> now (world s)" "timeout_count s + 1 < timeout_max s"
  shows "\<exists>p'. xmodem_round tr [] k \<lparr>q_buffer_raw = [], engine = s\<rparr> = Inr (take k (out_buf s), p') \<and>
    xmodem_round tr [] k' p' = Inl Assert_failed"
proof -
  let ?s1 = "(reset_timer ((last_message ''TIMEOUT'' (update_stats (\<lambda>t. t\<lparr>t_error_count := t_error_count t + 1\<rparr>)
      (s\<lparr>timeout_count := timeout_count s + 1\<rparr>)))\<lparr>prior_state := BLOCK, state := PURGE_INPUT\<rparr>))
      \<lparr>prior_state := BLOCK, state := PURGE_INPUT\<rparr>"
  let ?s2 = "put_out_buf (drop k (out_buf s)) ?s1"
  have room: "\<not> (of_nat Q_BUFFER_SIZE - of_nat n :: u32) < 1029" if "n \<le> 3067" for n
    using that send_room [of n] by simp
  have o: "out_buf ?s1 = out_buf s" by (simp add: reset_timer_def last_message_def frame_simps)
  have f: "sending ?s2" "state ?s2 = PURGE_INPUT" "prior_state ?s2 = BLOCK" "\<not> transfer_over (stats ?s2)" "out_buf ?s2 \<noteq> []"
    "length (out_buf ?s2) \<le> 3067"
    using assms by (simp_all add: put_out_buf_def reset_timer_def last_message_def frame_simps transfer_over_def stats_setters)
  have "check_timeout s = (True, reset_timer ((last_message ''TIMEOUT'' (update_stats (\<lambda>t. t\<lparr>t_error_count := t_error_count t + 1\<rparr>)
      (s\<lparr>timeout_count := timeout_count s + 1\<rparr>)))\<lparr>prior_state := BLOCK, state := PURGE_INPUT\<rparr>))"
    using assms by (simp add: check_timeout_def timeout_length_def update_stats_def Let_def)
  then have "xmodem_send [] s = Inr ([], ?s1)"
    using assms(2,3) by (simp add: xmodem_send_def send_ack1_phase_def send_ack2_phase_def send_data_phase_def send_block_def
        waits_ack_def waits_def is_streaming_def)
  then have "xmodem_process [] s = Inr ([], ?s1)"
    using assms(1,2,4,6) room by (simp add: xmodem_process_def protocol_process_data_def xmodem_def send_loop.simps)
  then have "main_loop xmodem_process out_buf put_out_buf tr [] s = Inr ([], ?s1)"
    using xm.loop_stays o by simp
  then have 1: "xmodem_round tr [] k \<lparr>q_buffer_raw = [], engine = s\<rparr> =
      Inr (take k (out_buf s), \<lparr>q_buffer_raw = [], engine = ?s2\<rparr>)"
    using o by (simp add: xmodem_round_def process_incoming_data_def)
  have "out_buf (reset_timer ?s2) \<noteq> []" "prior_state (reset_timer ?s2) = BLOCK"
    using f by (simp_all add: reset_timer_def)
  then have "send_purge [] ?s2 = Inl Assert_failed" by (simp add: send_purge_def check_def Let_def)
  then have "xmodem_send [] ?s2 = Inl Assert_failed"
    using f(2) by (simp add: xmodem_send_def send_ack1_phase_def send_ack2_phase_def send_data_phase_def)
  then have "xmodem_process [] ?s2 = Inl Assert_failed"
    using f room by (simp add: xmodem_process_def protocol_process_data_def xmodem_def send_loop.simps)
  then have "main_loop xmodem_process out_buf put_out_buf tr [] ?s2 = Inl Assert_failed" by (rule xm.loop_fails)
  then show ?thesis using 1 by (simp add: xmodem_round_def process_incoming_data_def)
qed

theorem upload_stall_asserts_witness:
  "let s = (sample_sender [1])\<lparr>out_buf := [1, 2, 3], world := (sample_os [1])\<lparr>now := 20\<rparr>\<rparr>
   in \<exists>p'. xmodem_round (\<lambda>b. b) [] 2 \<lparr>q_buffer_raw = [], engine = s\<rparr> = Inr (take 2 [1, 2, 3], p') \<and>
     xmodem_round (\<lambda>b. b) [] 0 p' = Inl Assert_failed"
  using upload_stall_asserts [of "(sample_sender [1])\<lparr>out_buf := [1, 2, 3], world := (sample_os [1])\<lparr>now := 20\<rparr>\<rparr>" 2 "\<lambda>b. b" 0]
  by (simp add: sample_defs waits_def is_ymodem_def is_streaming_def transfer_over_def timeout_length_def)



section \<open>Streamed blocks\<close>

text \<open>
  The receiver of 1K/G between two blocks: the buffer is clear, and the two block counters
  agree modulo 256.
\<close>

definition streaming_at :: "stream \<Rightarrow> xmodem \<Rightarrow> bool" where
  "streaming_at f r \<longleftrightarrow> flavor r = X_1K_G \<and> \<not> sending r \<and> state r = BLOCK \<and>
     current_block r = replicate 1029 0 \<and> current_block_n r = 0 \<and>
     current_block_sequence_i r = ucast (current_block_number r) \<and>
     file_ptr r = Some f \<and> s_pos f = length (s_data f)"

primrec stream_frames :: "byte \<Rightarrow> byte list list \<Rightarrow> byte list" where
  "stream_frames q [] = []"
| "stream_frames q (p # ps) = xframe X_1K_G q p @ stream_frames (q + 1) ps"

lemma ucast_Suc_byte: "(ucast (n + 1 :: u32) :: byte) = ucast n + 1"
  by (rule word_uint_eqI) (simp add: uint_word_ariths unsigned_ucast_eq take_bit_eq_mod mod_mod_cancel mod_simps)

lemma streamed_block:
  assumes r: "streaming_at f r" and p: "length p = 1024" "length (s_data f) + 1024 \<le> space (world r)"
  shows "\<exists>r'. xmodem_receive (xframe X_1K_G (current_block_sequence_i r) p @ rest) r = Inr (rest, r') \<and>
     streaming_at (f\<lparr>s_data := s_data f @ p, s_pos := s_pos f + 1024\<rparr>) r' \<and>
     current_block_sequence_i r' = current_block_sequence_i r + 1 \<and> world r' = world r \<and> out_buf r' = out_buf r"
proof -
  let ?q = "current_block_sequence_i r" and ?b = "reset_timer r"
  let ?fr = "xframe X_1K_G ?q p"
  let ?a = "append_input ?fr ?b"
  note d = r [unfolded streaming_at_def]
  have len: "length ?fr = 1029" using p by (simp add: length_xframe)
  have a: "take (current_block_n ?a) (current_block ?a) = ?fr" "current_block_n ?a = length ?fr"
    "flavor ?a = X_1K_G" "current_block_sequence_i ?a = ?q" "file_ptr ?a = Some f" "world ?a = world r"
    using append_input_frame [of ?b ?fr] d len by (simp_all add: reset_timer_def append_input_def)
  let ?v = "?a\<lparr>file_ptr := Some (f\<lparr>s_data := s_data f @ p, s_pos := s_pos f + length p\<rparr>),
       current_block_sequence_i := current_block_sequence_i ?a + 1,
       current_block_number := current_block_number ?a + 1\<rparr>"
  have v: "verify_block ?a = Inr (True, ?v)"
    using verify_block_frame [of ?a ?fr p f] a p d by (simp add: payload_ok_def is_1k_def)
  obtain t where t: "stats_increment_blocks (current_block ?v ! 0) ?v = ?v\<lparr>stats := t\<rparr>"
    using stats_increment_blocks_frame [of "current_block ?v ! 0" ?v] by auto
  have "\<not> (?q = 0 \<and> current_block_number r = 1)" using d by auto
  then have "xmodem_receive (?fr @ rest) r = receive_streamed (?fr @ rest) ?b"
    using d len by (auto simp: xmodem_receive_def receive_block_def is_streaming_def reset_timer_def Let_def)
  also have "\<dots> = Inr (rest, clear_block (?v\<lparr>stats := t\<rparr>))"
    using d len v t by (simp add: receive_streamed_def reset_timer_def control_bytes Let_def)
  finally have "xmodem_receive (?fr @ rest) r = Inr (rest, clear_block (?v\<lparr>stats := t\<rparr>))" .
  moreover have "streaming_at (f\<lparr>s_data := s_data f @ p, s_pos := s_pos f + 1024\<rparr>) (clear_block (?v\<lparr>stats := t\<rparr>))"
    using d p by (simp add: streaming_at_def clear_block_def append_input_def reset_timer_def ucast_Suc_byte)
  ultimately show ?thesis by (simp add: clear_block_def append_input_def reset_timer_def)
qed

text \<open>
  C27.  Xmodem 1K/G: a run of full blocks that arrives in one input is taken block by block;
  all data is appended in order and nothing is answered.
\<close>

theorem streamed_blocks_received:
  assumes "streaming_at f r" "list_all (\<lambda>p. length p = 1024) ps" "ps \<noteq> []"
    "length (s_data f) + length (concat ps) \<le> space (world r)"
  shows "\<exists>r'. receive_loop (stream_frames (current_block_sequence_i r) ps) r = Inr r' \<and>
     map_option s_data (file_ptr r') = Some (s_data f @ concat ps) \<and> out_buf r' = out_buf r"
  using assms
proof (induction ps arbitrary: f r)
  case (Cons p ps)
  have p: "length p = 1024" "length (s_data f) + 1024 \<le> space (world r)" using Cons.prems by simp_all
  let ?f = "f\<lparr>s_data := s_data f @ p, s_pos := s_pos f + 1024\<rparr>"
  obtain r1 where r1: "xmodem_receive (stream_frames (current_block_sequence_i r) (p # ps)) r =
        Inr (stream_frames (current_block_sequence_i r + 1) ps, r1)"
      "streaming_at ?f r1" "current_block_sequence_i r1 = current_block_sequence_i r + 1"
      "world r1 = world r" "out_buf r1 = out_buf r"
    using streamed_block [OF Cons.prems(1) p] by auto
  show ?case
  proof (cases "ps = []")
    case True
    then show ?thesis using r1 by (simp add: receive_loop.simps streaming_at_def)
  next
    case False
    then have "stream_frames (current_block_sequence_i r + 1) ps \<noteq> []" by (cases ps) (simp_all add: xframe_def)
    then have "receive_loop (stream_frames (current_block_sequence_i r) (p # ps)) r =
        receive_loop (stream_frames (current_block_sequence_i r + 1) ps) r1"
      using r1(1) by (subst receive_loop.simps) (simp del: stream_frames.simps)
    then show ?thesis using Cons.IH [OF r1(2)] False r1 Cons.prems(2,4) p by (simp del: stream_frames.simps)
  qed
qed simp

theorem streamed_blocks_received_witness:
  "let r = (sample_receiver [])\<lparr>flavor := X_1K_G\<rparr>; ps = [replicate 1024 5, replicate 1024 6]
   in \<exists>r'. receive_loop (stream_frames (current_block_sequence_i r) ps) r = Inr r' \<and>
     map_option s_data (file_ptr r') = Some (s_data (sample_stream [] True) @ concat ps) \<and> out_buf r' = out_buf r"
  unfolding Let_def
  by (rule streamed_blocks_received) (simp_all add: streaming_at_def sample_defs)

text \<open>
  The loop of the sender makes at most two passes over the input.
\<close>

lemma sender_loop_two_passes:
  "send_loop inp s =
     (case xmodem_send inp s of Inl e \<Rightarrow> Inl e
      | Inr (inp1, s1) \<Rightarrow> if inp1 = [] then Inr s1
          else (case xmodem_send inp1 s1 of Inl e \<Rightarrow> Inl e | Inr (inp2, s2) \<Rightarrow> Inr s2))"
proof -
  have "send_loop inp1 s1 = (case xmodem_send inp1 s1 of Inl e \<Rightarrow> Inl e | Inr (inp2, s2) \<Rightarrow> Inr s2)"
    if "xmodem_send inp s = Inr (inp1, s1)" "inp1 \<noteq> []" for inp1 s1
  proof -
    have "\<not> keeps_input s1" using xmodem_send_input [OF that] by simp
    then have "inp2 = []" if "xmodem_send inp1 s1 = Inr (inp2, s2)" for inp2 s2
      using xmodem_send_input [OF that] by blast
    then show ?thesis by (subst send_loop.simps) (auto split: sum.splits)
  qed
  then show ?thesis by (subst send_loop.simps) (auto split: sum.splits)
qed

section \<open>Where the code fails\<close>

text \<open>
  Xmodem 1K/G: a valid 128-byte block that arrives in one piece into an empty buffer
  is stored but not processed, and whatever arrives next fails an assertion.
\<close>

lemma short_streamed_block_asserts:
  assumes "\<not> sending r" "flavor r = X_1K_G" "state r = BLOCK" "\<not> transfer_over (stats r)"
    "current_block r = replicate 1029 0" "current_block_n r = 0" "current_block_sequence_i r \<noteq> 0"
    "length p = 128" "inp \<noteq> []" "length inp \<le> Q_BUFFER_SIZE"
  shows "\<exists>r'. feed (xframe X_1K_G (current_block_sequence_i r) p) (at_rest r) = Inr ([], at_rest r') \<and>
     file_ptr r' = file_ptr r \<and> feed inp (at_rest r') = Inl Assert_failed"
proof -
  let ?fr = "xframe X_1K_G (current_block_sequence_i r) p" and ?b = "reset_timer (r\<lparr>out_buf := []\<rparr>)"
  let ?r' = "append_input ?fr ?b"
  have len: "length ?fr = 133" using assms(8) by (simp add: length_xframe)
  have "receive_streamed ?fr ?b = Inr ([], ?r')"
    using assms len by (simp add: receive_streamed_def at_eot_def append_input_def reset_timer_def control_bytes Let_def)
  then have "xmodem_receive ?fr (r\<lparr>out_buf := []\<rparr>) = Inr ([], ?r')"
    using assms len by (auto simp: xmodem_receive_def receive_block_def is_streaming_def reset_timer_def Let_def)
  moreover have o: "out_buf ?r' = []" by (simp add: append_input_def reset_timer_def)
  ultimately have f: "feed ?fr (at_rest r) = Inr ([], at_rest ?r')" using assms len feed_receive [of r ?fr ?r'] by simp
  have hd: "current_block ?r' ! 0 = C_SOH" "current_block_n ?r' = 133"
    using assms len by (simp_all add: append_input_def reset_timer_def memcpy_def xframe_def)
  have "receive_streamed inp (reset_timer (?r'\<lparr>out_buf := []\<rparr>)) = Inl Assert_failed"
    using hd by (simp add: receive_streamed_def reset_timer_def Let_def)
  then have "xmodem_receive inp (?r'\<lparr>out_buf := []\<rparr>) = Inl Assert_failed"
    using assms by (auto simp: xmodem_receive_def receive_block_def is_streaming_def reset_timer_def append_input_def Let_def)
  then have "xmodem_process inp (?r'\<lparr>out_buf := []\<rparr>) = Inl Assert_failed"
    using assms by (simp add: xmodem_process_def protocol_process_data_def xmodem_def receive_loop.simps)
      (simp add: append_input_def reset_timer_def)
  then have "feed inp (at_rest ?r') = Inl Assert_failed" using assms(10) by (intro feed_fails)
  moreover have "file_ptr ?r' = file_ptr r" by (simp add: append_input_def reset_timer_def)
  ultimately show ?thesis using f by blast
qed

text \<open>
  Ymodem: an EOT that arrives while no file is open, for instance a second EOT because
  the answer to the first was lost, makes the receiver use the null stream.
\<close>

lemma repeated_eot_null_stream:
  assumes "\<not> sending r" "flavor r = Y_NORMAL" "state r = BLOCK" "\<not> transfer_over (stats r)" "file_ptr r = None"
    "length (current_block r) = 1029" "current_block_n r = 0"
  shows "feed [C_EOT] (at_rest r) = Inl Null_stream"
proof -
  let ?a = "append_input [C_EOT] (reset_timer (r\<lparr>out_buf := []\<rparr>))"
  have "receive_eot ?a = Inl Null_stream"
    using assms by (simp add: receive_eot_def receive_eot_ymodem_def is_ymodem_def clear_block_def append_input_def reset_timer_def)
  moreover have "at_eot ?a" using assms by (simp add: at_eot_def append_input_def reset_timer_def memcpy_def)
  ultimately have "xmodem_receive [C_EOT] (r\<lparr>out_buf := []\<rparr>) = Inl Null_stream"
    using assms by (simp add: xmodem_receive_def receive_block_def receive_stored_def is_streaming_def reset_timer_def Let_def)
  then have "xmodem_process [C_EOT] (r\<lparr>out_buf := []\<rparr>) = Inl Null_stream" using assms
    by (simp add: xmodem_process_def protocol_process_data_def xmodem_def receive_loop.simps)
  then show ?thesis by (intro feed_fails) simp_all
qed

end
