(* ===== verification/Codepage.thy ===== *)
theory Codepage
  imports Qodem_Prelude
begin

text \<open>
  The 8-bit codepages of codepage.c: their names, their tables of Unicode code points, the
  map from a byte to its glyph and the search that maps a code point back to a byte.
\<close>

section \<open>Names\<close>

datatype Q_CODEPAGE =
    Q_CODEPAGE_CP437
  | Q_CODEPAGE_ISO8859_1
  | Q_CODEPAGE_CP720
  | Q_CODEPAGE_CP737
  | Q_CODEPAGE_CP775
  | Q_CODEPAGE_CP850
  | Q_CODEPAGE_CP852
  | Q_CODEPAGE_CP857
  | Q_CODEPAGE_CP858
  | Q_CODEPAGE_CP860
  | Q_CODEPAGE_CP862
  | Q_CODEPAGE_CP863
  | Q_CODEPAGE_CP866
  | Q_CODEPAGE_CP1250
  | Q_CODEPAGE_CP1251
  | Q_CODEPAGE_CP1252
  | Q_CODEPAGE_KOI8_R
  | Q_CODEPAGE_KOI8_U
  | Q_CODEPAGE_DEC
  | Q_CODEPAGE_PETSCII
  | Q_CODEPAGE_ATASCII

fun codepage_string :: "Q_CODEPAGE \<Rightarrow> cstring" where
  "codepage_string Q_CODEPAGE_CP437 = ascii ''CP437''"
| "codepage_string Q_CODEPAGE_ISO8859_1 = ascii ''ISO 8859-1''"
| "codepage_string Q_CODEPAGE_DEC = ascii ''DEC''"
| "codepage_string Q_CODEPAGE_PETSCII = ascii ''PETSCII''"
| "codepage_string Q_CODEPAGE_ATASCII = ascii ''ATASCII''"
| "codepage_string Q_CODEPAGE_CP720 = ascii ''CP720''"
| "codepage_string Q_CODEPAGE_CP737 = ascii ''CP737''"
| "codepage_string Q_CODEPAGE_CP775 = ascii ''CP775''"
| "codepage_string Q_CODEPAGE_CP850 = ascii ''CP850''"
| "codepage_string Q_CODEPAGE_CP852 = ascii ''CP852''"
| "codepage_string Q_CODEPAGE_CP857 = ascii ''CP857''"
| "codepage_string Q_CODEPAGE_CP858 = ascii ''CP858''"
| "codepage_string Q_CODEPAGE_CP860 = ascii ''CP860''"
| "codepage_string Q_CODEPAGE_CP862 = ascii ''CP862''"
| "codepage_string Q_CODEPAGE_CP863 = ascii ''CP863''"
| "codepage_string Q_CODEPAGE_CP866 = ascii ''CP866''"
| "codepage_string Q_CODEPAGE_CP1250 = ascii ''CP1250''"
| "codepage_string Q_CODEPAGE_CP1251 = ascii ''CP1251''"
| "codepage_string Q_CODEPAGE_CP1252 = ascii ''CP1252''"
| "codepage_string Q_CODEPAGE_KOI8_R = ascii ''KOI8_R''"
| "codepage_string Q_CODEPAGE_KOI8_U = ascii ''KOI8_U''"

definition codepage_from_string :: "cstring \<Rightarrow> Q_CODEPAGE" where
  "codepage_from_string s =
     (if s = ascii ''ISO 8859-1'' then Q_CODEPAGE_ISO8859_1
      else if s = ascii ''ISO-8859-1'' then Q_CODEPAGE_ISO8859_1
      else if strcasecmp_eq s (ascii ''DEC'') then Q_CODEPAGE_DEC
      else if strcasecmp_eq s (ascii ''PETSCII'') then Q_CODEPAGE_PETSCII
      else if strcasecmp_eq s (ascii ''ATASCII'') then Q_CODEPAGE_ATASCII
      else if strcasecmp_eq s (ascii ''CP437'') then Q_CODEPAGE_CP437
      else if strcasecmp_eq s (ascii ''CP720'') then Q_CODEPAGE_CP720
      else if strcasecmp_eq s (ascii ''CP737'') then Q_CODEPAGE_CP737
      else if strcasecmp_eq s (ascii ''CP775'') then Q_CODEPAGE_CP775
      else if strcasecmp_eq s (ascii ''CP850'') then Q_CODEPAGE_CP850
      else if strcasecmp_eq s (ascii ''CP852'') then Q_CODEPAGE_CP852
      else if strcasecmp_eq s (ascii ''CP857'') then Q_CODEPAGE_CP857
      else if strcasecmp_eq s (ascii ''CP858'') then Q_CODEPAGE_CP858
      else if strcasecmp_eq s (ascii ''CP860'') then Q_CODEPAGE_CP860
      else if strcasecmp_eq s (ascii ''CP862'') then Q_CODEPAGE_CP862
      else if strcasecmp_eq s (ascii ''CP863'') then Q_CODEPAGE_CP863
      else if strcasecmp_eq s (ascii ''CP866'') then Q_CODEPAGE_CP866
      else if strcasecmp_eq s (ascii ''CP1250'') then Q_CODEPAGE_CP1250
      else if strcasecmp_eq s (ascii ''CP1251'') then Q_CODEPAGE_CP1251
      else if strcasecmp_eq s (ascii ''CP1252'') then Q_CODEPAGE_CP1252
      else if strcasecmp_eq s (ascii ''Windows-1250'') then Q_CODEPAGE_CP1250
      else if strcasecmp_eq s (ascii ''Windows-1251'') then Q_CODEPAGE_CP1251
      else if strcasecmp_eq s (ascii ''Windows-1252'') then Q_CODEPAGE_CP1252
      else if strcasecmp_eq s (ascii ''KOI8_R'') then Q_CODEPAGE_KOI8_R
      else if strcasecmp_eq s (ascii ''KOI8_U'') then Q_CODEPAGE_KOI8_U
      else if strcasecmp_eq s (ascii ''KOI8-R'') then Q_CODEPAGE_KOI8_R
      else if strcasecmp_eq s (ascii ''KOI8-U'') then Q_CODEPAGE_KOI8_U
      else Q_CODEPAGE_DEC)"

section \<open>Tables\<close>

definition cp437_chars :: "nat list" where
  "cp437_chars =
    [0x2007, 0x263A, 0x263B, 0x2665, 0x2666, 0x2663, 0x2660, 0x2022, 0x25D8, 0x25CB, 0x25D9, 0x2642, 0x2640, 0x266A, 0x266B, 0x263C,
     0x25B6, 0x25C0, 0x2195, 0x203C, 0xB6, 0xA7, 0x25AC, 0x21A8, 0x2191, 0x2193, 0x2192, 0x2190, 0x221F, 0x2194, 0x25B2, 0x25BC,
     0x20, 0x21, 0x22, 0x23, 0x24, 0x25, 0x26, 0x27, 0x28, 0x29, 0x2A, 0x2B, 0x2C, 0x2D, 0x2E, 0x2F,
     0x30, 0x31, 0x32, 0x33, 0x34, 0x35, 0x36, 0x37, 0x38, 0x39, 0x3A, 0x3B, 0x3C, 0x3D, 0x3E, 0x3F,
     0x40, 0x41, 0x42, 0x43, 0x44, 0x45, 0x46, 0x47, 0x48, 0x49, 0x4A, 0x4B, 0x4C, 0x4D, 0x4E, 0x4F,
     0x50, 0x51, 0x52, 0x53, 0x54, 0x55, 0x56, 0x57, 0x58, 0x59, 0x5A, 0x5B, 0x5C, 0x5D, 0x5E, 0x5F,
     0x60, 0x61, 0x62, 0x63, 0x64, 0x65, 0x66, 0x67, 0x68, 0x69, 0x6A, 0x6B, 0x6C, 0x6D, 0x6E, 0x6F,
     0x70, 0x71, 0x72, 0x73, 0x74, 0x75, 0x76, 0x77, 0x78, 0x79, 0x7A, 0x7B, 0x7C, 0x7D, 0x7E, 0x2302,
     0xC7, 0xFC, 0xE9, 0xE2, 0xE4, 0xE0, 0xE5, 0xE7, 0xEA, 0xEB, 0xE8, 0xEF, 0xEE, 0xEC, 0xC4, 0xC5,
     0xC9, 0xE6, 0xC6, 0xF4, 0xF6, 0xF2, 0xFB, 0xF9, 0xFF, 0xD6, 0xDC, 0xA2, 0xA3, 0xA5, 0x20A7, 0x192,
     0xE1, 0xED, 0xF3, 0xFA, 0xF1, 0xD1, 0xAA, 0xBA, 0xBF, 0x2310, 0xAC, 0xBD, 0xBC, 0xA1, 0xAB, 0xBB,
     0x2591, 0x2592, 0x2593, 0x2502, 0x2524, 0x2561, 0x2562, 0x2556, 0x2555, 0x2563, 0x2551, 0x2557, 0x255D, 0x255C, 0x255B, 0x2510,
     0x2514, 0x2534, 0x252C, 0x251C, 0x2500, 0x253C, 0x255E, 0x255F, 0x255A, 0x2554, 0x2569, 0x2566, 0x2560, 0x2550, 0x256C, 0x2567,
     0x2568, 0x2564, 0x2565, 0x2559, 0x2558, 0x2552, 0x2553, 0x256B, 0x256A, 0x2518, 0x250C, 0x2588, 0x2584, 0x258C, 0x2590, 0x2580,
     0x3B1, 0xDF, 0x393, 0x3C0, 0x3A3, 0x3C3, 0xB5, 0x3C4, 0x3A6, 0x398, 0x3A9, 0x3B4, 0x221E, 0x3C6, 0x3B5, 0x2229,
     0x2261, 0xB1, 0x2265, 0x2264, 0x2320, 0x2321, 0xF7, 0x2248, 0xB0, 0x2219, 0xB7, 0x221A, 0x207F, 0xB2, 0x25A0, 0xA0]"

definition iso8859_1_chars :: "nat list" where
  "iso8859_1_chars =
    [0x2007, 0x263A, 0x263B, 0x2665, 0x2666, 0x2663, 0x2660, 0x2022, 0x25D8, 0x25CB, 0x25D9, 0x2642, 0x2640, 0x266A, 0x266B, 0x263C,
     0x25B6, 0x25C0, 0x2195, 0x203C, 0xB6, 0xA7, 0x25AC, 0x21A8, 0x2191, 0x2193, 0x2192, 0x2190, 0x221F, 0x2194, 0x25B2, 0x25BC,
     0x20, 0x21, 0x22, 0x23, 0x24, 0x25, 0x26, 0x27, 0x28, 0x29, 0x2A, 0x2B, 0x2C, 0x2D, 0x2E, 0x2F,
     0x30, 0x31, 0x32, 0x33, 0x34, 0x35, 0x36, 0x37, 0x38, 0x39, 0x3A, 0x3B, 0x3C, 0x3D, 0x3E, 0x3F,
     0x40, 0x41, 0x42, 0x43, 0x44, 0x45, 0x46, 0x47, 0x48, 0x49, 0x4A, 0x4B, 0x4C, 0x4D, 0x4E, 0x4F,
     0x50, 0x51, 0x52, 0x53, 0x54, 0x55, 0x56, 0x57, 0x58, 0x59, 0x5A, 0x5B, 0x5C, 0x5D, 0x5E, 0x5F,
     0x60, 0x61, 0x62, 0x63, 0x64, 0x65, 0x66, 0x67, 0x68, 0x69, 0x6A, 0x6B, 0x6C, 0x6D, 0x6E, 0x6F,
     0x70, 0x71, 0x72, 0x73, 0x74, 0x75, 0x76, 0x77, 0x78, 0x79, 0x7A, 0x7B, 0x7C, 0x7D, 0x7E, 0x7F,
     0x80, 0x81, 0x82, 0x83, 0x84, 0x85, 0x86, 0x87, 0x88, 0x89, 0x8A, 0x8B, 0x8C, 0x8D, 0x8E, 0x8F,
     0x90, 0x91, 0x92, 0x93, 0x94, 0x95, 0x96, 0x97, 0x98, 0x99, 0x9A, 0x9B, 0x9C, 0x9D, 0x9E, 0x9F,
     0xA0, 0xA1, 0xA2, 0xA3, 0xA4, 0xA5, 0xA6, 0xA7, 0xA8, 0xA9, 0xAA, 0xAB, 0xAC, 0xAD, 0xAE, 0xAF,
     0xB0, 0xB1, 0xB2, 0xB3, 0xB4, 0xB5, 0xB6, 0xB7, 0xB8, 0xB9, 0xBA, 0xBB, 0xBC, 0xBD, 0xBE, 0xBF,
     0xC0, 0xC1, 0xC2, 0xC3, 0xC4, 0xC5, 0xC6, 0xC7, 0xC8, 0xC9, 0xCA, 0xCB, 0xCC, 0xCD, 0xCE, 0xCF,
     0xD0, 0xD1, 0xD2, 0xD3, 0xD4, 0xD5, 0xD6, 0xD7, 0xD8, 0xD9, 0xDA, 0xDB, 0xDC, 0xDD, 0xDE, 0xDF,
     0xE0, 0xE1, 0xE2, 0xE3, 0xE4, 0xE5, 0xE6, 0xE7, 0xE8, 0xE9, 0xEA, 0xEB, 0xEC, 0xED, 0xEE, 0xEF,
     0xF0, 0xF1, 0xF2, 0xF3, 0xF4, 0xF5, 0xF6, 0xF7, 0xF8, 0xF9, 0xFA, 0xFB, 0xFC, 0xFD, 0xFE, 0xFF]"

definition cp720_chars :: "nat list" where
  "cp720_chars =
    [0x2007, 0x263A, 0x263B, 0x2665, 0x2666, 0x2663, 0x2660, 0x2022, 0x25D8, 0x25CB, 0x25D9, 0x2642, 0x2640, 0x266A, 0x266B, 0x263C,
     0x25B6, 0x25C0, 0x2195, 0x203C, 0xB6, 0xA7, 0x25AC, 0x21A8, 0x2191, 0x2193, 0x2192, 0x2190, 0x221F, 0x2194, 0x25B2, 0x25BC,
     0x20, 0x21, 0x22, 0x23, 0x24, 0x25, 0x26, 0x27, 0x28, 0x29, 0x2A, 0x2B, 0x2C, 0x2D, 0x2E, 0x2F,
     0x30, 0x31, 0x32, 0x33, 0x34, 0x35, 0x36, 0x37, 0x38, 0x39, 0x3A, 0x3B, 0x3C, 0x3D, 0x3E, 0x3F,
     0x40, 0x41, 0x42, 0x43, 0x44, 0x45, 0x46, 0x47, 0x48, 0x49, 0x4A, 0x4B, 0x4C, 0x4D, 0x4E, 0x4F,
     0x50, 0x51, 0x52, 0x53, 0x54, 0x55, 0x56, 0x57, 0x58, 0x59, 0x5A, 0x5B, 0x5C, 0x5D, 0x5E, 0x5F,
     0x60, 0x61, 0x62, 0x63, 0x64, 0x65, 0x66, 0x67, 0x68, 0x69, 0x6A, 0x6B, 0x6C, 0x6D, 0x6E, 0x6F,
     0x70, 0x71, 0x72, 0x73, 0x74, 0x75, 0x76, 0x77, 0x78, 0x79, 0x7A, 0x7B, 0x7C, 0x7D, 0x7E, 0x2302,
     0x20, 0x20, 0xE9, 0xE2, 0x20, 0xE0, 0x20, 0xE7, 0xEA, 0xEB, 0xE8, 0xEF, 0xEE, 0x20, 0x20, 0x20,
     0x20, 0x651, 0x652, 0xF4, 0xA4, 0x640, 0xFB, 0xF9, 0x621, 0x622, 0x623, 0x624, 0xA3, 0x625, 0x626, 0x627,
     0x628, 0x629, 0x62A, 0x62B, 0x62C, 0x62D, 0x62E, 0x62F, 0x630, 0x631, 0x632, 0x633, 0x634, 0x635, 0xAB, 0xBB,
     0x2591, 0x2592, 0x2593, 0x2502, 0x2524, 0x2561, 0x2562, 0x2556, 0x2555, 0x2563, 0x2551, 0x2557, 0x255D, 0x255C, 0x255B, 0x2510,
     0x2514, 0x2534, 0x252C, 0x251C, 0x2500, 0x253C, 0x255E, 0x255F, 0x255A, 0x2554, 0x2569, 0x2566, 0x2560, 0x2550, 0x256C, 0x2567,
     0x2568, 0x2564, 0x2565, 0x2559, 0x2558, 0x2552, 0x2553, 0x256B, 0x256A, 0x2518, 0x250C, 0x2588, 0x2584, 0x258C, 0x2590, 0x2580,
     0x636, 0x637, 0x638, 0x639, 0x63A, 0x641, 0xB5, 0x642, 0x643, 0x644, 0x645, 0x646, 0x647, 0x648, 0x649, 0x64A,
     0x2261, 0x64B, 0x64C, 0x64D, 0x64E, 0x64F, 0x650, 0x2248, 0xB0, 0x2219, 0xB7, 0x221A, 0x207F, 0xB2, 0x25A0, 0xA0]"

definition cp737_chars :: "nat list" where
  "cp737_chars =
    [0x2007, 0x263A, 0x263B, 0x2665, 0x2666, 0x2663, 0x2660, 0x2022, 0x25D8, 0x25CB, 0x25D9, 0x2642, 0x2640, 0x266A, 0x266B, 0x263C,
     0x25B6, 0x25C0, 0x2195, 0x203C, 0xB6, 0xA7, 0x25AC, 0x21A8, 0x2191, 0x2193, 0x2192, 0x2190, 0x221F, 0x2194, 0x25B2, 0x25BC,
     0x20, 0x21, 0x22, 0x23, 0x24, 0x25, 0x26, 0x27, 0x28, 0x29, 0x2A, 0x2B, 0x2C, 0x2D, 0x2E, 0x2F,
     0x30, 0x31, 0x32, 0x33, 0x34, 0x35, 0x36, 0x37, 0x38, 0x39, 0x3A, 0x3B, 0x3C, 0x3D, 0x3E, 0x3F,
     0x40, 0x41, 0x42, 0x43, 0x44, 0x45, 0x46, 0x47, 0x48, 0x49, 0x4A, 0x4B, 0x4C, 0x4D, 0x4E, 0x4F,
     0x50, 0x51, 0x52, 0x53, 0x54, 0x55, 0x56, 0x57, 0x58, 0x59, 0x5A, 0x5B, 0x5C, 0x5D, 0x5E, 0x5F,
     0x60, 0x61, 0x62, 0x63, 0x64, 0x65, 0x66, 0x67, 0x68, 0x69, 0x6A, 0x6B, 0x6C, 0x6D, 0x6E, 0x6F,
     0x70, 0x71, 0x72, 0x73, 0x74, 0x75, 0x76, 0x77, 0x78, 0x79, 0x7A, 0x7B, 0x7C, 0x7D, 0x7E, 0x2302,
     0x391, 0x392, 0x393, 0x394, 0x395, 0x396, 0x397, 0x398, 0x399, 0x39A, 0x39B, 0x39C, 0x39D, 0x39E, 0x39F, 0x3A0,
     0x3A1, 0x3A3, 0x3A4, 0x3A5, 0x3A6, 0x3A7, 0x3A8, 0x3A9, 0x3B1, 0x3B2, 0x3B3, 0x3B4, 0x3B5, 0x3B6, 0x3B7, 0x3B8,
     0x3B9, 0x3BA, 0x3BB, 0x3BC, 0x3BD, 0x3BE, 0x3BF, 0x3C0, 0x3C1, 0x3C3, 0x3C2, 0x3C4, 0x3C5, 0x3C6, 0x3C7, 0x3C8,
     0x2591, 0x2592, 0x2593, 0x2502, 0x2524, 0x2561, 0x2562, 0x2556, 0x2555, 0x2563, 0x2551, 0x2557, 0x255D, 0x255C, 0x255B, 0x2510,
     0x2514, 0x2534, 0x252C, 0x251C, 0x2500, 0x253C, 0x255E, 0x255F, 0x255A, 0x2554, 0x2569, 0x2566, 0x2560, 0x2550, 0x256C, 0x2567,
     0x2568, 0x2564, 0x2565, 0x2559, 0x2558, 0x2552, 0x2553, 0x256B, 0x256A, 0x2518, 0x250C, 0x2588, 0x2584, 0x258C, 0x2590, 0x2580,
     0x3C9, 0x3AC, 0x3AD, 0x3AE, 0x3CA, 0x3AF, 0x3CC, 0x3CD, 0x3CB, 0x3CE, 0x386, 0x388, 0x389, 0x38A, 0x38C, 0x38E,
     0x38F, 0xB1, 0x2265, 0x2264, 0x3AA, 0x3AB, 0xF7, 0x2248, 0xB0, 0x2219, 0xB7, 0x221A, 0x207F, 0xB2, 0x25A0, 0xA0]"

definition cp775_chars :: "nat list" where
  "cp775_chars =
    [0x2007, 0x263A, 0x263B, 0x2665, 0x2666, 0x2663, 0x2660, 0x2022, 0x25D8, 0x25CB, 0x25D9, 0x2642, 0x2640, 0x266A, 0x266B, 0x263C,
     0x25B6, 0x25C0, 0x2195, 0x203C, 0xB6, 0xA7, 0x25AC, 0x21A8, 0x2191, 0x2193, 0x2192, 0x2190, 0x221F, 0x2194, 0x25B2, 0x25BC,
     0x20, 0x21, 0x22, 0x23, 0x24, 0x25, 0x26, 0x27, 0x28, 0x29, 0x2A, 0x2B, 0x2C, 0x2D, 0x2E, 0x2F,
     0x30, 0x31, 0x32, 0x33, 0x34, 0x35, 0x36, 0x37, 0x38, 0x39, 0x3A, 0x3B, 0x3C, 0x3D, 0x3E, 0x3F,
     0x40, 0x41, 0x42, 0x43, 0x44, 0x45, 0x46, 0x47, 0x48, 0x49, 0x4A, 0x4B, 0x4C, 0x4D, 0x4E, 0x4F,
     0x50, 0x51, 0x52, 0x53, 0x54, 0x55, 0x56, 0x57, 0x58, 0x59, 0x5A, 0x5B, 0x5C, 0x5D, 0x5E, 0x5F,
     0x60, 0x61, 0x62, 0x63, 0x64, 0x65, 0x66, 0x67, 0x68, 0x69, 0x6A, 0x6B, 0x6C, 0x6D, 0x6E, 0x6F,
     0x70, 0x71, 0x72, 0x73, 0x74, 0x75, 0x76, 0x77, 0x78, 0x79, 0x7A, 0x7B, 0x7C, 0x7D, 0x7E, 0x2302,
     0x106, 0xFC, 0xE9, 0x101, 0xE4, 0x123, 0xE5, 0x107, 0x142, 0x113, 0x156, 0x157, 0x12B, 0x179, 0xC4, 0xC5,
     0xC9, 0xE6, 0xC6, 0x14D, 0xF6, 0x122, 0xA2, 0x15A, 0x15B, 0xD6, 0xDC, 0xF8, 0xA3, 0xD8, 0xD7, 0xA4,
     0x100, 0x12A, 0xF3, 0x17B, 0x17C, 0x17A, 0x201D, 0xA6, 0xA9, 0xAE, 0xAC, 0xBD, 0xBC, 0x141, 0xAB, 0xBB,
     0x2591, 0x2592, 0x2593, 0x2502, 0x2524, 0x104, 0x10C, 0x118, 0x116, 0x2563, 0x2551, 0x2557, 0x255D, 0x12E, 0x160, 0x2510,
     0x2514, 0x2534, 0x252C, 0x251C, 0x2500, 0x253C, 0x172, 0x16A, 0x255A, 0x2554, 0x2569, 0x2566, 0x2560, 0x2550, 0x256C, 0x17D,
     0x105, 0x10D, 0x119, 0x117, 0x12F, 0x161, 0x173, 0x16B, 0x17E, 0x2518, 0x250C, 0x2588, 0x2584, 0x258C, 0x2590, 0x2580,
     0xD3, 0xDF, 0x14C, 0x143, 0xF5, 0xD5, 0xB5, 0x144, 0x136, 0x137, 0x13B, 0x13C, 0x146, 0x112, 0x145, 0x2019,
     0xAD, 0xB1, 0x201C, 0xBE, 0xB6, 0xA7, 0xF7, 0x201E, 0xB0, 0x2219, 0xB7, 0xB9, 0xB3, 0xB2, 0x25A0, 0xA0]"

definition cp850_chars :: "nat list" where
  "cp850_chars =
    [0x2007, 0x263A, 0x263B, 0x2665, 0x2666, 0x2663, 0x2660, 0x2022, 0x25D8, 0x25CB, 0x25D9, 0x2642, 0x2640, 0x266A, 0x266B, 0x263C,
     0x25B6, 0x25C0, 0x2195, 0x203C, 0xB6, 0xA7, 0x25AC, 0x21A8, 0x2191, 0x2193, 0x2192, 0x2190, 0x221F, 0x2194, 0x25B2, 0x25BC,
     0x20, 0x21, 0x22, 0x23, 0x24, 0x25, 0x26, 0x27, 0x28, 0x29, 0x2A, 0x2B, 0x2C, 0x2D, 0x2E, 0x2F,
     0x30, 0x31, 0x32, 0x33, 0x34, 0x35, 0x36, 0x37, 0x38, 0x39, 0x3A, 0x3B, 0x3C, 0x3D, 0x3E, 0x3F,
     0x40, 0x41, 0x42, 0x43, 0x44, 0x45, 0x46, 0x47, 0x48, 0x49, 0x4A, 0x4B, 0x4C, 0x4D, 0x4E, 0x4F,
     0x50, 0x51, 0x52, 0x53, 0x54, 0x55, 0x56, 0x57, 0x58, 0x59, 0x5A, 0x5B, 0x5C, 0x5D, 0x5E, 0x5F,
     0x60, 0x61, 0x62, 0x63, 0x64, 0x65, 0x66, 0x67, 0x68, 0x69, 0x6A, 0x6B, 0x6C, 0x6D, 0x6E, 0x6F,
     0x70, 0x71, 0x72, 0x73, 0x74, 0x75, 0x76, 0x77, 0x78, 0x79, 0x7A, 0x7B, 0x7C, 0x7D, 0x7E, 0x2302,
     0xC7, 0xFC, 0xE9, 0xE2, 0xE4, 0xE0, 0xE5, 0xE7, 0xEA, 0xEB, 0xE8, 0xEF, 0xEE, 0xEC, 0xC4, 0xC5,
     0xC9, 0xE6, 0xC6, 0xF4, 0xF6, 0xF2, 0xFB, 0xF9, 0xFF, 0xD6, 0xDC, 0xF8, 0xA3, 0xD8, 0xD7, 0x192,
     0xE1, 0xED, 0xF3, 0xFA, 0xF1, 0xD1, 0xAA, 0xBA, 0xBF, 0xAE, 0xAC, 0xBD, 0xBC, 0xA1, 0xAB, 0xBB,
     0x2591, 0x2592, 0x2593, 0x2502, 0x2524, 0xC1, 0xC2, 0xC0, 0xA9, 0x2563, 0x2551, 0x2557, 0x255D, 0xA2, 0xA5, 0x2510,
     0x2514, 0x2534, 0x252C, 0x251C, 0x2500, 0x253C, 0xE3, 0xC3, 0x255A, 0x2554, 0x2569, 0x2566, 0x2560, 0x2550, 0x256C, 0xA4,
     0xF0, 0xD0, 0xCA, 0xCB, 0xC8, 0x131, 0xCD, 0xCE, 0xCF, 0x2518, 0x250C, 0x2588, 0x2584, 0xA6, 0xCC, 0x2580,
     0xD3, 0xDF, 0xD4, 0xD2, 0xF5, 0xD5, 0xB5, 0xFE, 0xDE, 0xDA, 0xDB, 0xD9, 0xFD, 0xDD, 0xAF, 0xB4,
     0xAD, 0xB1, 0x2017, 0xBE, 0xB6, 0xA7, 0xF7, 0xB8, 0xB0, 0xA8, 0xB7, 0xB9, 0xB3, 0xB2, 0x25A0, 0xA0]"

definition cp852_chars :: "nat list" where
  "cp852_chars =
    [0x2007, 0x263A, 0x263B, 0x2665, 0x2666, 0x2663, 0x2660, 0x2022, 0x25D8, 0x25CB, 0x25D9, 0x2642, 0x2640, 0x266A, 0x266B, 0x263C,
     0x25B6, 0x25C0, 0x2195, 0x203C, 0xB6, 0xA7, 0x25AC, 0x21A8, 0x2191, 0x2193, 0x2192, 0x2190, 0x221F, 0x2194, 0x25B2, 0x25BC,
     0x20, 0x21, 0x22, 0x23, 0x24, 0x25, 0x26, 0x27, 0x28, 0x29, 0x2A, 0x2B, 0x2C, 0x2D, 0x2E, 0x2F,
     0x30, 0x31, 0x32, 0x33, 0x34, 0x35, 0x36, 0x37, 0x38, 0x39, 0x3A, 0x3B, 0x3C, 0x3D, 0x3E, 0x3F,
     0x40, 0x41, 0x42, 0x43, 0x44, 0x45, 0x46, 0x47, 0x48, 0x49, 0x4A, 0x4B, 0x4C, 0x4D, 0x4E, 0x4F,
     0x50, 0x51, 0x52, 0x53, 0x54, 0x55, 0x56, 0x57, 0x58, 0x59, 0x5A, 0x5B, 0x5C, 0x5D, 0x5E, 0x5F,
     0x60, 0x61, 0x62, 0x63, 0x64, 0x65, 0x66, 0x67, 0x68, 0x69, 0x6A, 0x6B, 0x6C, 0x6D, 0x6E, 0x6F,
     0x70, 0x71, 0x72, 0x73, 0x74, 0x75, 0x76, 0x77, 0x78, 0x79, 0x7A, 0x7B, 0x7C, 0x7D, 0x7E, 0x2302,
     0xC7, 0xFC, 0xE9, 0xE2, 0xE4, 0x16F, 0x107, 0xE7, 0x142, 0xEB, 0x150, 0x151, 0xEE, 0x179, 0xC4, 0x106,
     0xC9, 0x139, 0x13A, 0xF4, 0xF6, 0x13D, 0x13E, 0x15A, 0x15B, 0xD6, 0xDC, 0x164, 0x165, 0x141, 0xD7, 0x10D,
     0xE1, 0xED, 0xF3, 0xFA, 0x104, 0x105, 0x17D, 0x17E, 0x118, 0x119, 0xAC, 0x17A, 0x10C, 0x15F, 0xAB, 0xBB,
     0x2591, 0x2592, 0x2593, 0x2502, 0x2524, 0xC1, 0xC2, 0x11A, 0x15E, 0x2563, 0x2551, 0x2557, 0x255D, 0x17B, 0x17C, 0x2510,
     0x2514, 0x2534, 0x252C, 0x251C, 0x2500, 0x253C, 0x102, 0x103, 0x255A, 0x2554, 0x2569, 0x2566, 0x2560, 0x2550, 0x256C, 0xA4,
     0x111, 0x110, 0x10E, 0xCB, 0x10F, 0x147, 0xCD, 0xCE, 0x11B, 0x2518, 0x250C, 0x2588, 0x2584, 0x162, 0x16E, 0x2580,
     0xD3, 0xDF, 0xD4, 0x143, 0x144, 0x148, 0x160, 0x161, 0x154, 0xDA, 0x155, 0x170, 0xFD, 0xDD, 0x163, 0xB4,
     0xAD, 0x2DD, 0x2DB, 0x2C7, 0x2D8, 0xA7, 0xF7, 0xB8, 0xB0, 0xA8, 0x2D9, 0x171, 0x158, 0x159, 0x25A0, 0xA0]"

definition cp857_chars :: "nat list" where
  "cp857_chars =
    [0x2007, 0x263A, 0x263B, 0x2665, 0x2666, 0x2663, 0x2660, 0x2022, 0x25D8, 0x25CB, 0x25D9, 0x2642, 0x2640, 0x266A, 0x266B, 0x263C,
     0x25B6, 0x25C0, 0x2195, 0x203C, 0xB6, 0xA7, 0x25AC, 0x21A8, 0x2191, 0x2193, 0x2192, 0x2190, 0x221F, 0x2194, 0x25B2, 0x25BC,
     0x20, 0x21, 0x22, 0x23, 0x24, 0x25, 0x26, 0x27, 0x28, 0x29, 0x2A, 0x2B, 0x2C, 0x2D, 0x2E, 0x2F,
     0x30, 0x31, 0x32, 0x33, 0x34, 0x35, 0x36, 0x37, 0x38, 0x39, 0x3A, 0x3B, 0x3C, 0x3D, 0x3E, 0x3F,
     0x40, 0x41, 0x42, 0x43, 0x44, 0x45, 0x46, 0x47, 0x48, 0x49, 0x4A, 0x4B, 0x4C, 0x4D, 0x4E, 0x4F,
     0x50, 0x51, 0x52, 0x53, 0x54, 0x55, 0x56, 0x57, 0x58, 0x59, 0x5A, 0x5B, 0x5C, 0x5D, 0x5E, 0x5F,
     0x60, 0x61, 0x62, 0x63, 0x64, 0x65, 0x66, 0x67, 0x68, 0x69, 0x6A, 0x6B, 0x6C, 0x6D, 0x6E, 0x6F,
     0x70, 0x71, 0x72, 0x73, 0x74, 0x75, 0x76, 0x77, 0x78, 0x79, 0x7A, 0x7B, 0x7C, 0x7D, 0x7E, 0x2302,
     0xC7, 0xFC, 0xE9, 0xE2, 0xE4, 0xE0, 0xE5, 0xE7, 0xEA, 0xEB, 0xE8, 0xEF, 0xEE, 0x131, 0xC4, 0xC5,
     0xC9, 0xE6, 0xC6, 0xF4, 0xF6, 0xF2, 0xFB, 0xF9, 0x130, 0xD6, 0xDC, 0xF8, 0xA3, 0xD8, 0x15E, 0x15F,
     0xE1, 0xED, 0xF3, 0xFA, 0xF1, 0xD1, 0x11E, 0x11F, 0xBF, 0xAE, 0xAC, 0xBD, 0xBC, 0xA1, 0xAB, 0xBB,
     0x2591, 0x2592, 0x2593, 0x2502, 0x2524, 0xC1, 0xC2, 0xC0, 0xA9, 0x2563, 0x2551, 0x2557, 0x255D, 0xA2, 0xA5, 0x2510,
     0x2514, 0x2534, 0x252C, 0x251C, 0x2500, 0x253C, 0xE3, 0xC3, 0x255A, 0x2554, 0x2569, 0x2566, 0x2560, 0x2550, 0x256C, 0xA4,
     0xBA, 0xAA, 0xCA, 0xCB, 0xC8, 0x20, 0xCD, 0xCE, 0xCF, 0x2518, 0x250C, 0x2588, 0x2584, 0xA6, 0xCC, 0x2580,
     0xD3, 0xDF, 0xD4, 0xD2, 0xF5, 0xD5, 0xB5, 0x20, 0xD7, 0xDA, 0xDB, 0xD9, 0xEC, 0xFF, 0xAF, 0xB4,
     0xAD, 0xB1, 0x20, 0xBE, 0xB6, 0xA7, 0xF7, 0xB8, 0xB0, 0xA8, 0xB7, 0xB9, 0xB3, 0xB2, 0x25A0, 0xA0]"

definition cp858_chars :: "nat list" where
  "cp858_chars =
    [0x2007, 0x263A, 0x263B, 0x2665, 0x2666, 0x2663, 0x2660, 0x2022, 0x25D8, 0x25CB, 0x25D9, 0x2642, 0x2640, 0x266A, 0x266B, 0x263C,
     0x25B6, 0x25C0, 0x2195, 0x203C, 0xB6, 0xA7, 0x25AC, 0x21A8, 0x2191, 0x2193, 0x2192, 0x2190, 0x221F, 0x2194, 0x25B2, 0x25BC,
     0x20, 0x21, 0x22, 0x23, 0x24, 0x25, 0x26, 0x27, 0x28, 0x29, 0x2A, 0x2B, 0x2C, 0x2D, 0x2E, 0x2F,
     0x30, 0x31, 0x32, 0x33, 0x34, 0x35, 0x36, 0x37, 0x38, 0x39, 0x3A, 0x3B, 0x3C, 0x3D, 0x3E, 0x3F,
     0x40, 0x41, 0x42, 0x43, 0x44, 0x45, 0x46, 0x47, 0x48, 0x49, 0x4A, 0x4B, 0x4C, 0x4D, 0x4E, 0x4F,
     0x50, 0x51, 0x52, 0x53, 0x54, 0x55, 0x56, 0x57, 0x58, 0x59, 0x5A, 0x5B, 0x5C, 0x5D, 0x5E, 0x5F,
     0x60, 0x61, 0x62, 0x63, 0x64, 0x65, 0x66, 0x67, 0x68, 0x69, 0x6A, 0x6B, 0x6C, 0x6D, 0x6E, 0x6F,
     0x70, 0x71, 0x72, 0x73, 0x74, 0x75, 0x76, 0x77, 0x78, 0x79, 0x7A, 0x7B, 0x7C, 0x7D, 0x7E, 0x2302,
     0xC7, 0xFC, 0xE9, 0xE2, 0xE4, 0xE0, 0xE5, 0xE7, 0xEA, 0xEB, 0xE8, 0xEF, 0xEE, 0xEC, 0xC4, 0xC5,
     0xC9, 0xE6, 0xC6, 0xF4, 0xF6, 0xF2, 0xFB, 0xF9, 0xFF, 0xD6, 0xDC, 0xF8, 0xA3, 0xD8, 0xD7, 0x192,
     0xE1, 0xED, 0xF3, 0xFA, 0xF1, 0xD1, 0xAA, 0xBA, 0xBF, 0xAE, 0xAC, 0xBD, 0xBC, 0xA1, 0xAB, 0xBB,
     0x2591, 0x2592, 0x2593, 0x2502, 0x2524, 0xC1, 0xC2, 0xC0, 0xA9, 0x2563, 0x2551, 0x2557, 0x255D, 0xA2, 0xA5, 0x2510,
     0x2514, 0x2534, 0x252C, 0x251C, 0x2500, 0x253C, 0xE3, 0xC3, 0x255A, 0x2554, 0x2569, 0x2566, 0x2560, 0x2550, 0x256C, 0xA4,
     0xF0, 0xD0, 0xCA, 0xCB, 0xC8, 0x20AC, 0xCD, 0xCE, 0xCF, 0x2518, 0x250C, 0x2588, 0x2584, 0xA6, 0xCC, 0x2580,
     0xD3, 0xDF, 0xD4, 0xD2, 0xF5, 0xD5, 0xB5, 0xFE, 0xDE, 0xDA, 0xDB, 0xD9, 0xFD, 0xDD, 0xAF, 0xB4,
     0xAD, 0xB1, 0x2017, 0xBE, 0xB6, 0xA7, 0xF7, 0xB8, 0xB0, 0xA8, 0xB7, 0xB9, 0xB3, 0xB2, 0x25A0, 0xA0]"

definition cp860_chars :: "nat list" where
  "cp860_chars =
    [0x2007, 0x263A, 0x263B, 0x2665, 0x2666, 0x2663, 0x2660, 0x2022, 0x25D8, 0x25CB, 0x25D9, 0x2642, 0x2640, 0x266A, 0x266B, 0x263C,
     0x25B6, 0x25C0, 0x2195, 0x203C, 0xB6, 0xA7, 0x25AC, 0x21A8, 0x2191, 0x2193, 0x2192, 0x2190, 0x221F, 0x2194, 0x25B2, 0x25BC,
     0x20, 0x21, 0x22, 0x23, 0x24, 0x25, 0x26, 0x27, 0x28, 0x29, 0x2A, 0x2B, 0x2C, 0x2D, 0x2E, 0x2F,
     0x30, 0x31, 0x32, 0x33, 0x34, 0x35, 0x36, 0x37, 0x38, 0x39, 0x3A, 0x3B, 0x3C, 0x3D, 0x3E, 0x3F,
     0x40, 0x41, 0x42, 0x43, 0x44, 0x45, 0x46, 0x47, 0x48, 0x49, 0x4A, 0x4B, 0x4C, 0x4D, 0x4E, 0x4F,
     0x50, 0x51, 0x52, 0x53, 0x54, 0x55, 0x56, 0x57, 0x58, 0x59, 0x5A, 0x5B, 0x5C, 0x5D, 0x5E, 0x5F,
     0x60, 0x61, 0x62, 0x63, 0x64, 0x65, 0x66, 0x67, 0x68, 0x69, 0x6A, 0x6B, 0x6C, 0x6D, 0x6E, 0x6F,
     0x70, 0x71, 0x72, 0x73, 0x74, 0x75, 0x76, 0x77, 0x78, 0x79, 0x7A, 0x7B, 0x7C, 0x7D, 0x7E, 0x2302,
     0xC7, 0xFC, 0xE9, 0xE2, 0xE3, 0xE0, 0xC1, 0xE7, 0xEA, 0xCA, 0xE8, 0xCD, 0xD4, 0xEC, 0xC3, 0xC2,
     0xC9, 0xC0, 0xC8, 0xF4, 0xF5, 0xF2, 0xDA, 0xF9, 0xCC, 0xD5, 0xDC, 0xA2, 0xA3, 0xD9, 0x20A7, 0xD3,
     0xE1, 0xED, 0xF3, 0xFA, 0xF1, 0xD1, 0xAA, 0xBA, 0xBF, 0xD2, 0xAC, 0xBD, 0xBC, 0xA1, 0xAB, 0xBB,
     0x2591, 0x2592, 0x2593, 0x2502, 0x2524, 0x2561, 0x2562, 0x2556, 0x2555, 0x2563, 0x2551, 0x2557, 0x255D, 0x255C, 0x255B, 0x2510,
     0x2514, 0x2534, 0x252C, 0x251C, 0x2500, 0x253C, 0x255E, 0x255F, 0x255A, 0x2554, 0x2569, 0x2566, 0x2560, 0x2550, 0x256C, 0x2567,
     0x2568, 0x2564, 0x2565, 0x2559, 0x2558, 0x2552, 0x2553, 0x256B, 0x256A, 0x2518, 0x250C, 0x2588, 0x2584, 0x258C, 0x2590, 0x2580,
     0x3B1, 0xDF, 0x393, 0x3C0, 0x3A3, 0x3C3, 0xB5, 0x3C4, 0x3A6, 0x398, 0x3A9, 0x3B4, 0x221E, 0x3C6, 0x3B5, 0x2229,
     0x2261, 0xB1, 0x2265, 0x2264, 0x2320, 0x2321, 0xF7, 0x2248, 0xB0, 0x2219, 0xB7, 0x221A, 0x207F, 0xB2, 0x25A0, 0xA0]"

definition cp862_chars :: "nat list" where
  "cp862_chars =
    [0x2007, 0x263A, 0x263B, 0x2665, 0x2666, 0x2663, 0x2660, 0x2022, 0x25D8, 0x25CB, 0x25D9, 0x2642, 0x2640, 0x266A, 0x266B, 0x263C,
     0x25B6, 0x25C0, 0x2195, 0x203C, 0xB6, 0xA7, 0x25AC, 0x21A8, 0x2191, 0x2193, 0x2192, 0x2190, 0x221F, 0x2194, 0x25B2, 0x25BC,
     0x20, 0x21, 0x22, 0x23, 0x24, 0x25, 0x26, 0x27, 0x28, 0x29, 0x2A, 0x2B, 0x2C, 0x2D, 0x2E, 0x2F,
     0x30, 0x31, 0x32, 0x33, 0x34, 0x35, 0x36, 0x37, 0x38, 0x39, 0x3A, 0x3B, 0x3C, 0x3D, 0x3E, 0x3F,
     0x40, 0x41, 0x42, 0x43, 0x44, 0x45, 0x46, 0x47, 0x48, 0x49, 0x4A, 0x4B, 0x4C, 0x4D, 0x4E, 0x4F,
     0x50, 0x51, 0x52, 0x53, 0x54, 0x55, 0x56, 0x57, 0x58, 0x59, 0x5A, 0x5B, 0x5C, 0x5D, 0x5E, 0x5F,
     0x60, 0x61, 0x62, 0x63, 0x64, 0x65, 0x66, 0x67, 0x68, 0x69, 0x6A, 0x6B, 0x6C, 0x6D, 0x6E, 0x6F,
     0x70, 0x71, 0x72, 0x73, 0x74, 0x75, 0x76, 0x77, 0x78, 0x79, 0x7A, 0x7B, 0x7C, 0x7D, 0x7E, 0x2302,
     0x5D0, 0x5D1, 0x5D2, 0x5D3, 0x5D4, 0x5D5, 0x5D6, 0x5D7, 0x5D8, 0x5D9, 0x5DA, 0x5DB, 0x5DC, 0x5DD, 0x5DE, 0x5DF,
     0x5E0, 0x5E1, 0x5E2, 0x5E3, 0x5E4, 0x5E5, 0x5E6, 0x5E7, 0x5E8, 0x5E9, 0x5EA, 0xA2, 0xA3, 0xA5, 0x20A7, 0x192,
     0xE1, 0xED, 0xF3, 0xFA, 0xF1, 0xD1, 0xAA, 0xBA, 0xBF, 0x2310, 0xAC, 0xBD, 0xBC, 0xA1, 0xAB, 0xBB,
     0x2591, 0x2592, 0x2593, 0x2502, 0x2524, 0x2561, 0x2562, 0x2556, 0x2555, 0x2563, 0x2551, 0x2557, 0x255D, 0x255C, 0x255B, 0x2510,
     0x2514, 0x2534, 0x252C, 0x251C, 0x2500, 0x253C, 0x255E, 0x255F, 0x255A, 0x2554, 0x2569, 0x2566, 0x2560, 0x2550, 0x256C, 0x2567,
     0x2568, 0x2564, 0x2565, 0x2559, 0x2558, 0x2552, 0x2553, 0x256B, 0x256A, 0x2518, 0x250C, 0x2588, 0x2584, 0x258C, 0x2590, 0x2580,
     0x3B1, 0xDF, 0x393, 0x3C0, 0x3A3, 0x3C3, 0xB5, 0x3C4, 0x3A6, 0x398, 0x3A9, 0x3B4, 0x221E, 0x3C6, 0x3B5, 0x2229,
     0x2261, 0xB1, 0x2265, 0x2264, 0x2320, 0x2321, 0xF7, 0x2248, 0xB0, 0x2219, 0xB7, 0x221A, 0x207F, 0xB2, 0x25A0, 0xA0]"

definition cp863_chars :: "nat list" where
  "cp863_chars =
    [0x2007, 0x263A, 0x263B, 0x2665, 0x2666, 0x2663, 0x2660, 0x2022, 0x25D8, 0x25CB, 0x25D9, 0x2642, 0x2640, 0x266A, 0x266B, 0x263C,
     0x25B6, 0x25C0, 0x2195, 0x203C, 0xB6, 0xA7, 0x25AC, 0x21A8, 0x2191, 0x2193, 0x2192, 0x2190, 0x221F, 0x2194, 0x25B2, 0x25BC,
     0x20, 0x21, 0x22, 0x23, 0x24, 0x25, 0x26, 0x27, 0x28, 0x29, 0x2A, 0x2B, 0x2C, 0x2D, 0x2E, 0x2F,
     0x30, 0x31, 0x32, 0x33, 0x34, 0x35, 0x36, 0x37, 0x38, 0x39, 0x3A, 0x3B, 0x3C, 0x3D, 0x3E, 0x3F,
     0x40, 0x41, 0x42, 0x43, 0x44, 0x45, 0x46, 0x47, 0x48, 0x49, 0x4A, 0x4B, 0x4C, 0x4D, 0x4E, 0x4F,
     0x50, 0x51, 0x52, 0x53, 0x54, 0x55, 0x56, 0x57, 0x58, 0x59, 0x5A, 0x5B, 0x5C, 0x5D, 0x5E, 0x5F,
     0x60, 0x61, 0x62, 0x63, 0x64, 0x65, 0x66, 0x67, 0x68, 0x69, 0x6A, 0x6B, 0x6C, 0x6D, 0x6E, 0x6F,
     0x70, 0x71, 0x72, 0x73, 0x74, 0x75, 0x76, 0x77, 0x78, 0x79, 0x7A, 0x7B, 0x7C, 0x7D, 0x7E, 0x2302,
     0xC7, 0xFC, 0xE9, 0xE2, 0xC2, 0xE0, 0xB6, 0xE7, 0xEA, 0xEB, 0xE8, 0xEF, 0xEE, 0x2017, 0xC0, 0xA7,
     0xC9, 0xC8, 0xCA, 0xF4, 0xCB, 0xCF, 0xFB, 0xF9, 0xA4, 0xD4, 0xDC, 0xA2, 0xA3, 0xD9, 0xDB, 0x192,
     0xA6, 0xB4, 0xF3, 0xFA, 0xA8, 0xB8, 0xB3, 0xAF, 0xCE, 0x2310, 0xAC, 0xBD, 0xBC, 0xBE, 0xAB, 0xBB,
     0x2591, 0x2592, 0x2593, 0x2502, 0x2524, 0x2561, 0x2562, 0x2556, 0x2555, 0x2563, 0x2551, 0x2557, 0x255D, 0x255C, 0x255B, 0x2510,
     0x2514, 0x2534, 0x252C, 0x251C, 0x2500, 0x253C, 0x255E, 0x255F, 0x255A, 0x2554, 0x2569, 0x2566, 0x2560, 0x2550, 0x256C, 0x2567,
     0x2568, 0x2564, 0x2565, 0x2559, 0x2558, 0x2552, 0x2553, 0x256B, 0x256A, 0x2518, 0x250C, 0x2588, 0x2584, 0x258C, 0x2590, 0x2580,
     0x3B1, 0xDF, 0x393, 0x3C0, 0x3A3, 0x3C3, 0xB5, 0x3C4, 0x3A6, 0x398, 0x3A9, 0x3B4, 0x221E, 0x3C6, 0x3B5, 0x2229,
     0x2261, 0xB1, 0x2265, 0x2264, 0x2320, 0x2321, 0xF7, 0x2248, 0xB0, 0x2219, 0xB7, 0x221A, 0x207F, 0xB2, 0x25A0, 0xA0]"

definition cp866_chars :: "nat list" where
  "cp866_chars =
    [0x2007, 0x263A, 0x263B, 0x2665, 0x2666, 0x2663, 0x2660, 0x2022, 0x25D8, 0x25CB, 0x25D9, 0x2642, 0x2640, 0x266A, 0x266B, 0x263C,
     0x25B6, 0x25C0, 0x2195, 0x203C, 0xB6, 0xA7, 0x25AC, 0x21A8, 0x2191, 0x2193, 0x2192, 0x2190, 0x221F, 0x2194, 0x25B2, 0x25BC,
     0x20, 0x21, 0x22, 0x23, 0x24, 0x25, 0x26, 0x27, 0x28, 0x29, 0x2A, 0x2B, 0x2C, 0x2D, 0x2E, 0x2F,
     0x30, 0x31, 0x32, 0x33, 0x34, 0x35, 0x36, 0x37, 0x38, 0x39, 0x3A, 0x3B, 0x3C, 0x3D, 0x3E, 0x3F,
     0x40, 0x41, 0x42, 0x43, 0x44, 0x45, 0x46, 0x47, 0x48, 0x49, 0x4A, 0x4B, 0x4C, 0x4D, 0x4E, 0x4F,
     0x50, 0x51, 0x52, 0x53, 0x54, 0x55, 0x56, 0x57, 0x58, 0x59, 0x5A, 0x5B, 0x5C, 0x5D, 0x5E, 0x5F,
     0x60, 0x61, 0x62, 0x63, 0x64, 0x65, 0x66, 0x67, 0x68, 0x69, 0x6A, 0x6B, 0x6C, 0x6D, 0x6E, 0x6F,
     0x70, 0x71, 0x72, 0x73, 0x74, 0x75, 0x76, 0x77, 0x78, 0x79, 0x7A, 0x7B, 0x7C, 0x7D, 0x7E, 0x2302,
     0x410, 0x411, 0x412, 0x413, 0x414, 0x415, 0x416, 0x417, 0x418, 0x419, 0x41A, 0x41B, 0x41C, 0x41D, 0x41E, 0x41F,
     0x420, 0x421, 0x422, 0x423, 0x424, 0x425, 0x426, 0x427, 0x428, 0x429, 0x42A, 0x42B, 0x42C, 0x42D, 0x42E, 0x42F,
     0x430, 0x431, 0x432, 0x433, 0x434, 0x435, 0x436, 0x437, 0x438, 0x439, 0x43A, 0x43B, 0x43C, 0x43D, 0x43E, 0x43F,
     0x2591, 0x2592, 0x2593, 0x2502, 0x2524, 0x2561, 0x2562, 0x2556, 0x2555, 0x2563, 0x2551, 0x2557, 0x255D, 0x255C, 0x255B, 0x2510,
     0x2514, 0x2534, 0x252C, 0x251C, 0x2500, 0x253C, 0x255E, 0x255F, 0x255A, 0x2554, 0x2569, 0x2566, 0x2560, 0x2550, 0x256C, 0x2567,
     0x2568, 0x2564, 0x2565, 0x2559, 0x2558, 0x2552, 0x2553, 0x256B, 0x256A, 0x2518, 0x250C, 0x2588, 0x2584, 0x258C, 0x2590, 0x2580,
     0x440, 0x441, 0x442, 0x443, 0x444, 0x445, 0x446, 0x447, 0x448, 0x449, 0x44A, 0x44B, 0x44C, 0x44D, 0x44E, 0x44F,
     0x401, 0x451, 0x404, 0x454, 0x407, 0x457, 0x40E, 0x45E, 0xB0, 0x2219, 0xB7, 0x221A, 0x2116, 0xA4, 0x25A0, 0xA0]"

definition cp1250_chars :: "nat list" where
  "cp1250_chars =
    [0x2007, 0x263A, 0x263B, 0x2665, 0x2666, 0x2663, 0x2660, 0x2022, 0x25D8, 0x25CB, 0x25D9, 0x2642, 0x2640, 0x266A, 0x266B, 0x263C,
     0x25B6, 0x25C0, 0x2195, 0x203C, 0xB6, 0xA7, 0x25AC, 0x21A8, 0x2191, 0x2193, 0x2192, 0x2190, 0x221F, 0x2194, 0x25B2, 0x25BC,
     0x20, 0x21, 0x22, 0x23, 0x24, 0x25, 0x26, 0x27, 0x28, 0x29, 0x2A, 0x2B, 0x2C, 0x2D, 0x2E, 0x2F,
     0x30, 0x31, 0x32, 0x33, 0x34, 0x35, 0x36, 0x37, 0x38, 0x39, 0x3A, 0x3B, 0x3C, 0x3D, 0x3E, 0x3F,
     0x40, 0x41, 0x42, 0x43, 0x44, 0x45, 0x46, 0x47, 0x48, 0x49, 0x4A, 0x4B, 0x4C, 0x4D, 0x4E, 0x4F,
     0x50, 0x51, 0x52, 0x53, 0x54, 0x55, 0x56, 0x57, 0x58, 0x59, 0x5A, 0x5B, 0x5C, 0x5D, 0x5E, 0x5F,
     0x60, 0x61, 0x62, 0x63, 0x64, 0x65, 0x66, 0x67, 0x68, 0x69, 0x6A, 0x6B, 0x6C, 0x6D, 0x6E, 0x6F,
     0x70, 0x71, 0x72, 0x73, 0x74, 0x75, 0x76, 0x77, 0x78, 0x79, 0x7A, 0x7B, 0x7C, 0x7D, 0x7E, 0x2302,
     0x20AC, 0x20, 0x201A, 0x20, 0x201E, 0x2026, 0x2020, 0x2021, 0x20, 0x2030, 0x160, 0x2039, 0x15A, 0x164, 0x17D, 0x179,
     0x20, 0x2018, 0x2019, 0x201C, 0x201D, 0x2022, 0x2013, 0x2014, 0x20, 0x2122, 0x161, 0x203A, 0x15B, 0x165, 0x17E, 0x17A,
     0xA0, 0x2C7, 0x2D8, 0x141, 0xA4, 0x104, 0xA6, 0xA7, 0xA8, 0xA9, 0x15E, 0xAB, 0xAC, 0xAD, 0xAE, 0x17B,
     0xB0, 0xB1, 0x2DB, 0x142, 0xB4, 0xB5, 0xB6, 0xB7, 0xB8, 0x105, 0x15F, 0xBB, 0x13D, 0x2DD, 0x13E, 0x17C,
     0x154, 0xC1, 0xC2, 0x102, 0xC4, 0x139, 0x106, 0xC7, 0x10C, 0xC9, 0x118, 0xCB, 0x11A, 0xCD, 0xCE, 0x10E,
     0x110, 0x143, 0x147, 0xD3, 0xD4, 0x150, 0xD6, 0xD7, 0x158, 0x16E, 0xDA, 0x170, 0xDC, 0xDD, 0x162, 0xDF,
     0x155, 0xE1, 0xE2, 0x103, 0xE4, 0x13A, 0x107, 0xE7, 0x10D, 0xE9, 0x119, 0xEB, 0x11B, 0xED, 0xEE, 0x10F,
     0x111, 0x144, 0x148, 0xF3, 0xF4, 0x151, 0xF6, 0xF7, 0x159, 0x16F, 0xFA, 0x171, 0xFC, 0xFD, 0x163, 0x2D9]"

definition cp1251_chars :: "nat list" where
  "cp1251_chars =
    [0x2007, 0x263A, 0x263B, 0x2665, 0x2666, 0x2663, 0x2660, 0x2022, 0x25D8, 0x25CB, 0x25D9, 0x2642, 0x2640, 0x266A, 0x266B, 0x263C,
     0x25B6, 0x25C0, 0x2195, 0x203C, 0xB6, 0xA7, 0x25AC, 0x21A8, 0x2191, 0x2193, 0x2192, 0x2190, 0x221F, 0x2194, 0x25B2, 0x25BC,
     0x20, 0x21, 0x22, 0x23, 0x24, 0x25, 0x26, 0x27, 0x28, 0x29, 0x2A, 0x2B, 0x2C, 0x2D, 0x2E, 0x2F,
     0x30, 0x31, 0x32, 0x33, 0x34, 0x35, 0x36, 0x37, 0x38, 0x39, 0x3A, 0x3B, 0x3C, 0x3D, 0x3E, 0x3F,
     0x40, 0x41, 0x42, 0x43, 0x44, 0x45, 0x46, 0x47, 0x48, 0x49, 0x4A, 0x4B, 0x4C, 0x4D, 0x4E, 0x4F,
     0x50, 0x51, 0x52, 0x53, 0x54, 0x55, 0x56, 0x57, 0x58, 0x59, 0x5A, 0x5B, 0x5C, 0x5D, 0x5E, 0x5F,
     0x60, 0x61, 0x62, 0x63, 0x64, 0x65, 0x66, 0x67, 0x68, 0x69, 0x6A, 0x6B, 0x6C, 0x6D, 0x6E, 0x6F,
     0x70, 0x71, 0x72, 0x73, 0x74, 0x75, 0x76, 0x77, 0x78, 0x79, 0x7A, 0x7B, 0x7C, 0x7D, 0x7E, 0x2302,
     0x402, 0x403, 0x201A, 0x453, 0x201E, 0x2026, 0x2020, 0x2021, 0x20AC, 0x2030, 0x409, 0x2039, 0x40A, 0x40C, 0x40B, 0x40F,
     0x452, 0x2018, 0x2019, 0x201C, 0x201D, 0x2022, 0x2013, 0x2014, 0x20, 0x2122, 0x459, 0x203A, 0x45A, 0x45C, 0x45B, 0x45F,
     0xA0, 0x40E, 0x45E, 0x408, 0xA4, 0x490, 0xA6, 0xA7, 0x401, 0xA9, 0x404, 0xAB, 0xAC, 0xAD, 0xAE, 0x407,
     0xB0, 0xB1, 0x406, 0x456, 0x491, 0xB5, 0xB6, 0xB7, 0x451, 0x2116, 0x454, 0xBB, 0x458, 0x405, 0x455, 0x457,
     0x410, 0x411, 0x412, 0x413, 0x414, 0x415, 0x416, 0x417, 0x418, 0x419, 0x41A, 0x41B, 0x41C, 0x41D, 0x41E, 0x41F,
     0x420, 0x421, 0x422, 0x423, 0x424, 0x425, 0x426, 0x427, 0x428, 0x429, 0x42A, 0x42B, 0x42C, 0x42D, 0x42E, 0x42F,
     0x430, 0x431, 0x432, 0x433, 0x434, 0x435, 0x436, 0x437, 0x438, 0x439, 0x43A, 0x43B, 0x43C, 0x43D, 0x43E, 0x43F,
     0x440, 0x441, 0x442, 0x443, 0x444, 0x445, 0x446, 0x447, 0x448, 0x449, 0x44A, 0x44B, 0x44C, 0x44D, 0x44E, 0x44F]"

definition cp1252_chars :: "nat list" where
  "cp1252_chars =
    [0x2007, 0x263A, 0x263B, 0x2665, 0x2666, 0x2663, 0x2660, 0x2022, 0x25D8, 0x25CB, 0x25D9, 0x2642, 0x2640, 0x266A, 0x266B, 0x263C,
     0x25B6, 0x25C0, 0x2195, 0x203C, 0xB6, 0xA7, 0x25AC, 0x21A8, 0x2191, 0x2193, 0x2192, 0x2190, 0x221F, 0x2194, 0x25B2, 0x25BC,
     0x20, 0x21, 0x22, 0x23, 0x24, 0x25, 0x26, 0x27, 0x28, 0x29, 0x2A, 0x2B, 0x2C, 0x2D, 0x2E, 0x2F,
     0x30, 0x31, 0x32, 0x33, 0x34, 0x35, 0x36, 0x37, 0x38, 0x39, 0x3A, 0x3B, 0x3C, 0x3D, 0x3E, 0x3F,
     0x40, 0x41, 0x42, 0x43, 0x44, 0x45, 0x46, 0x47, 0x48, 0x49, 0x4A, 0x4B, 0x4C, 0x4D, 0x4E, 0x4F,
     0x50, 0x51, 0x52, 0x53, 0x54, 0x55, 0x56, 0x57, 0x58, 0x59, 0x5A, 0x5B, 0x5C, 0x5D, 0x5E, 0x5F,
     0x60, 0x61, 0x62, 0x63, 0x64, 0x65, 0x66, 0x67, 0x68, 0x69, 0x6A, 0x6B, 0x6C, 0x6D, 0x6E, 0x6F,
     0x70, 0x71, 0x72, 0x73, 0x74, 0x75, 0x76, 0x77, 0x78, 0x79, 0x7A, 0x7B, 0x7C, 0x7D, 0x7E, 0x2302,
     0x20AC, 0x20, 0x201A, 0x192, 0x201E, 0x2026, 0x2020, 0x2021, 0x2C6, 0x2030, 0x160, 0x2039, 0x152, 0x20, 0x17D, 0x20,
     0x20, 0x2018, 0x2019, 0x201C, 0x201D, 0x2022, 0x2013, 0x2014, 0x2DC, 0x2122, 0x161, 0x203A, 0x153, 0x20, 0x17E, 0x178,
     0xA0, 0xA1, 0xA2, 0xA3, 0xA4, 0xA5, 0xA6, 0xA7, 0xA8, 0xA9, 0xAA, 0xAB, 0xAC, 0xAD, 0xAE, 0xAF,
     0xB0, 0xB1, 0xB2, 0xB3, 0xB4, 0xB5, 0xB6, 0xB7, 0xB8, 0xB9, 0xBA, 0xBB, 0xBC, 0xBD, 0xBE, 0xBF,
     0xC0, 0xC1, 0xC2, 0xC3, 0xC4, 0xC5, 0xC6, 0xC7, 0xC8, 0xC9, 0xCA, 0xCB, 0xCC, 0xCD, 0xCE, 0xCF,
     0xD0, 0xD1, 0xD2, 0xD3, 0xD4, 0xD5, 0xD6, 0xD7, 0xD8, 0xD9, 0xDA, 0xDB, 0xDC, 0xDD, 0xDE, 0xDF,
     0xE0, 0xE1, 0xE2, 0xE3, 0xE4, 0xE5, 0xE6, 0xE7, 0xE8, 0xE9, 0xEA, 0xEB, 0xEC, 0xED, 0xEE, 0xEF,
     0xF0, 0xF1, 0xF2, 0xF3, 0xF4, 0xF5, 0xF6, 0xF7, 0xF8, 0xF9, 0xFA, 0xFB, 0xFC, 0xFD, 0xFE, 0xFF]"

definition koi8_r_chars :: "nat list" where
  "koi8_r_chars =
    [0x2007, 0x263A, 0x263B, 0x2665, 0x2666, 0x2663, 0x2660, 0x2022, 0x25D8, 0x25CB, 0x25D9, 0x2642, 0x2640, 0x266A, 0x266B, 0x263C,
     0x25B6, 0x25C0, 0x2195, 0x203C, 0xB6, 0xA7, 0x25AC, 0x21A8, 0x2191, 0x2193, 0x2192, 0x2190, 0x221F, 0x2194, 0x25B2, 0x25BC,
     0x20, 0x21, 0x22, 0x23, 0x24, 0x25, 0x26, 0x27, 0x28, 0x29, 0x2A, 0x2B, 0x2C, 0x2D, 0x2E, 0x2F,
     0x30, 0x31, 0x32, 0x33, 0x34, 0x35, 0x36, 0x37, 0x38, 0x39, 0x3A, 0x3B, 0x3C, 0x3D, 0x3E, 0x3F,
     0x40, 0x41, 0x42, 0x43, 0x44, 0x45, 0x46, 0x47, 0x48, 0x49, 0x4A, 0x4B, 0x4C, 0x4D, 0x4E, 0x4F,
     0x50, 0x51, 0x52, 0x53, 0x54, 0x55, 0x56, 0x57, 0x58, 0x59, 0x5A, 0x5B, 0x5C, 0x5D, 0x5E, 0x5F,
     0x60, 0x61, 0x62, 0x63, 0x64, 0x65, 0x66, 0x67, 0x68, 0x69, 0x6A, 0x6B, 0x6C, 0x6D, 0x6E, 0x6F,
     0x70, 0x71, 0x72, 0x73, 0x74, 0x75, 0x76, 0x77, 0x78, 0x79, 0x7A, 0x7B, 0x7C, 0x7D, 0x7E, 0x2302,
     0x2500, 0x2502, 0x250C, 0x2510, 0x2514, 0x2518, 0x251C, 0x2524, 0x252C, 0x2534, 0x253C, 0x2580, 0x2584, 0x2588, 0x258C, 0x2590,
     0x2591, 0x2592, 0x2593, 0x2320, 0x25A0, 0x2219, 0x221A, 0x2248, 0x2264, 0x2265, 0xA0, 0x2321, 0xB0, 0xB2, 0xB7, 0xF7,
     0x2550, 0x2551, 0x2552, 0x451, 0x2553, 0x2554, 0x2555, 0x2556, 0x2557, 0x2558, 0x2559, 0x255A, 0x255B, 0x255C, 0x255D, 0x255E,
     0x255F, 0x2560, 0x2561, 0x401, 0x2562, 0x2563, 0x2564, 0x2565, 0x2566, 0x2567, 0x2568, 0x2569, 0x256A, 0x256B, 0x256C, 0xA9,
     0x44E, 0x430, 0x431, 0x446, 0x434, 0x435, 0x444, 0x433, 0x445, 0x438, 0x439, 0x43A, 0x43B, 0x43C, 0x43D, 0x43E,
     0x43F, 0x44F, 0x440, 0x441, 0x442, 0x443, 0x436, 0x432, 0x44C, 0x44B, 0x437, 0x448, 0x44D, 0x449, 0x447, 0x44A,
     0x42E, 0x410, 0x411, 0x426, 0x414, 0x415, 0x424, 0x413, 0x425, 0x418, 0x419, 0x41A, 0x41B, 0x41C, 0x41D, 0x41E,
     0x41F, 0x42F, 0x420, 0x421, 0x422, 0x423, 0x416, 0x412, 0x42C, 0x42B, 0x417, 0x428, 0x42D, 0x429, 0x427, 0x42A]"

definition koi8_u_chars :: "nat list" where
  "koi8_u_chars =
    [0x2007, 0x263A, 0x263B, 0x2665, 0x2666, 0x2663, 0x2660, 0x2022, 0x25D8, 0x25CB, 0x25D9, 0x2642, 0x2640, 0x266A, 0x266B, 0x263C,
     0x25B6, 0x25C0, 0x2195, 0x203C, 0xB6, 0xA7, 0x25AC, 0x21A8, 0x2191, 0x2193, 0x2192, 0x2190, 0x221F, 0x2194, 0x25B2, 0x25BC,
     0x20, 0x21, 0x22, 0x23, 0x24, 0x25, 0x26, 0x27, 0x28, 0x29, 0x2A, 0x2B, 0x2C, 0x2D, 0x2E, 0x2F,
     0x30, 0x31, 0x32, 0x33, 0x34, 0x35, 0x36, 0x37, 0x38, 0x39, 0x3A, 0x3B, 0x3C, 0x3D, 0x3E, 0x3F,
     0x40, 0x41, 0x42, 0x43, 0x44, 0x45, 0x46, 0x47, 0x48, 0x49, 0x4A, 0x4B, 0x4C, 0x4D, 0x4E, 0x4F,
     0x50, 0x51, 0x52, 0x53, 0x54, 0x55, 0x56, 0x57, 0x58, 0x59, 0x5A, 0x5B, 0x5C, 0x5D, 0x5E, 0x5F,
     0x60, 0x61, 0x62, 0x63, 0x64, 0x65, 0x66, 0x67, 0x68, 0x69, 0x6A, 0x6B, 0x6C, 0x6D, 0x6E, 0x6F,
     0x70, 0x71, 0x72, 0x73, 0x74, 0x75, 0x76, 0x77, 0x78, 0x79, 0x7A, 0x7B, 0x7C, 0x7D, 0x7E, 0x2302,
     0x2500, 0x2502, 0x250C, 0x2510, 0x2514, 0x2518, 0x251C, 0x2524, 0x252C, 0x2534, 0x253C, 0x2580, 0x2584, 0x2588, 0x258C, 0x2590,
     0x2591, 0x2592, 0x2593, 0x2320, 0x25A0, 0x2219, 0x221A, 0x2248, 0x2264, 0x2265, 0xA0, 0x2321, 0xB0, 0xB2, 0xB7, 0xF7,
     0x2550, 0x2551, 0x2552, 0x451, 0x454, 0x2554, 0x456, 0x457, 0x2557, 0x2558, 0x2559, 0x255A, 0x255B, 0x491, 0x255D, 0x255E,
     0x255F, 0x2560, 0x2561, 0x401, 0x404, 0x2563, 0x406, 0x407, 0x2566, 0x2567, 0x2568, 0x2569, 0x256A, 0x490, 0x256C, 0xA9,
     0x44E, 0x430, 0x431, 0x446, 0x434, 0x435, 0x444, 0x433, 0x445, 0x438, 0x439, 0x43A, 0x43B, 0x43C, 0x43D, 0x43E,
     0x43F, 0x44F, 0x440, 0x441, 0x442, 0x443, 0x436, 0x432, 0x44C, 0x44B, 0x437, 0x448, 0x44D, 0x449, 0x447, 0x44A,
     0x42E, 0x410, 0x411, 0x426, 0x414, 0x415, 0x424, 0x413, 0x425, 0x418, 0x419, 0x41A, 0x41B, 0x41C, 0x41D, 0x41E,
     0x41F, 0x42F, 0x420, 0x421, 0x422, 0x423, 0x416, 0x412, 0x42C, 0x42B, 0x417, 0x428, 0x42D, 0x429, 0x427, 0x42A]"

definition atascii_chars :: "nat list" where
  "atascii_chars =
    [0x2665, 0x251C, 0x23B9, 0x2518, 0x2524, 0x2510, 0x2571, 0x2572, 0x25E2, 0x2597, 0x25E3, 0x259D, 0x2598, 0x23BA, 0x23BD, 0x2596,
     0x2663, 0x250C, 0x2500, 0x253C, 0x25CF, 0x2584, 0x23B8, 0x252C, 0x2534, 0x258C, 0x2514, 0x241B, 0x2191, 0x2193, 0x2190, 0x2192,
     0x20, 0x21, 0x22, 0x23, 0x24, 0x25, 0x26, 0x27, 0x28, 0x29, 0x2A, 0x2B, 0x2C, 0x2D, 0x2E, 0x2F,
     0x30, 0x31, 0x32, 0x33, 0x34, 0x35, 0x36, 0x37, 0x38, 0x39, 0x3A, 0x3B, 0x3C, 0x3D, 0x3E, 0x3F,
     0x40, 0x41, 0x42, 0x43, 0x44, 0x45, 0x46, 0x47, 0x48, 0x49, 0x4A, 0x4B, 0x4C, 0x4D, 0x4E, 0x4F,
     0x50, 0x51, 0x52, 0x53, 0x54, 0x55, 0x56, 0x57, 0x58, 0x59, 0x5A, 0x5B, 0x5C, 0x5D, 0x5E, 0x5F,
     0x2666, 0x61, 0x62, 0x63, 0x64, 0x65, 0x66, 0x67, 0x68, 0x69, 0x6A, 0x6B, 0x6C, 0x6D, 0x6E, 0x6F,
     0x70, 0x71, 0x72, 0x73, 0x74, 0x75, 0x76, 0x77, 0x78, 0x79, 0x7A, 0x2660, 0x7C, 0x2196, 0x25C0, 0x25B6]"

section \<open>Mapping\<close>

text \<open>\<open>vt52\<close> tells whether the emulation is the VT52.\<close>

fun codepage_map_char :: "bool \<Rightarrow> Q_CODEPAGE \<Rightarrow> byte \<Rightarrow> u32" where
  "codepage_map_char vt52 Q_CODEPAGE_PETSCII ch = ucast ch"
| "codepage_map_char vt52 Q_CODEPAGE_ATASCII ch = ucast ch"
| "codepage_map_char vt52 Q_CODEPAGE_DEC ch = (if \<not> vt52 then ucast ch else of_nat (cp437_chars ! unat ch))"
| "codepage_map_char vt52 Q_CODEPAGE_CP437 ch = of_nat (cp437_chars ! unat ch)"
| "codepage_map_char vt52 Q_CODEPAGE_ISO8859_1 ch = of_nat (iso8859_1_chars ! unat ch)"
| "codepage_map_char vt52 Q_CODEPAGE_CP720 ch = of_nat (cp720_chars ! unat ch)"
| "codepage_map_char vt52 Q_CODEPAGE_CP737 ch = of_nat (cp737_chars ! unat ch)"
| "codepage_map_char vt52 Q_CODEPAGE_CP775 ch = of_nat (cp775_chars ! unat ch)"
| "codepage_map_char vt52 Q_CODEPAGE_CP850 ch = of_nat (cp850_chars ! unat ch)"
| "codepage_map_char vt52 Q_CODEPAGE_CP852 ch = of_nat (cp852_chars ! unat ch)"
| "codepage_map_char vt52 Q_CODEPAGE_CP857 ch = of_nat (cp857_chars ! unat ch)"
| "codepage_map_char vt52 Q_CODEPAGE_CP858 ch = of_nat (cp858_chars ! unat ch)"
| "codepage_map_char vt52 Q_CODEPAGE_CP860 ch = of_nat (cp860_chars ! unat ch)"
| "codepage_map_char vt52 Q_CODEPAGE_CP862 ch = of_nat (cp862_chars ! unat ch)"
| "codepage_map_char vt52 Q_CODEPAGE_CP863 ch = of_nat (cp863_chars ! unat ch)"
| "codepage_map_char vt52 Q_CODEPAGE_CP866 ch = of_nat (cp866_chars ! unat ch)"
| "codepage_map_char vt52 Q_CODEPAGE_CP1250 ch = of_nat (cp1250_chars ! unat ch)"
| "codepage_map_char vt52 Q_CODEPAGE_CP1251 ch = of_nat (cp1251_chars ! unat ch)"
| "codepage_map_char vt52 Q_CODEPAGE_CP1252 ch = of_nat (cp1252_chars ! unat ch)"
| "codepage_map_char vt52 Q_CODEPAGE_KOI8_R ch = of_nat (koi8_r_chars ! unat ch)"
| "codepage_map_char vt52 Q_CODEPAGE_KOI8_U ch = of_nat (koi8_u_chars ! unat ch)"

text \<open>The loop over a table, from index \<open>i\<close>: the first index that holds \<open>ch\<close>, and success.\<close>

fun search :: "nat list \<Rightarrow> nat \<Rightarrow> u32 \<Rightarrow> bool \<times> u32" where
  "search [] i ch = (False, 0)"
| "search (c # cs) i ch = (if of_nat c = ch then (True, of_nat i) else search cs (Suc i) ch)"

fun codepage_unmap_byte :: "u32 \<Rightarrow> Q_CODEPAGE \<Rightarrow> (bool \<times> u32) run" where
  "codepage_unmap_byte ch Q_CODEPAGE_DEC = Inl Assert_failed"
| "codepage_unmap_byte ch Q_CODEPAGE_PETSCII = Inl Abort_called"
| "codepage_unmap_byte ch Q_CODEPAGE_ATASCII = Inr (search atascii_chars 0 (ch AND 0x7F))"
| "codepage_unmap_byte ch Q_CODEPAGE_CP437 = Inr (search cp437_chars 0 ch)"
| "codepage_unmap_byte ch Q_CODEPAGE_ISO8859_1 = Inr (search iso8859_1_chars 0 ch)"
| "codepage_unmap_byte ch Q_CODEPAGE_CP720 = Inr (search cp720_chars 0 ch)"
| "codepage_unmap_byte ch Q_CODEPAGE_CP737 = Inr (search cp737_chars 0 ch)"
| "codepage_unmap_byte ch Q_CODEPAGE_CP775 = Inr (search cp775_chars 0 ch)"
| "codepage_unmap_byte ch Q_CODEPAGE_CP850 = Inr (search cp850_chars 0 ch)"
| "codepage_unmap_byte ch Q_CODEPAGE_CP852 = Inr (search cp852_chars 0 ch)"
| "codepage_unmap_byte ch Q_CODEPAGE_CP857 = Inr (search cp857_chars 0 ch)"
| "codepage_unmap_byte ch Q_CODEPAGE_CP858 = Inr (search cp858_chars 0 ch)"
| "codepage_unmap_byte ch Q_CODEPAGE_CP860 = Inr (search cp860_chars 0 ch)"
| "codepage_unmap_byte ch Q_CODEPAGE_CP862 = Inr (search cp862_chars 0 ch)"
| "codepage_unmap_byte ch Q_CODEPAGE_CP863 = Inr (search cp863_chars 0 ch)"
| "codepage_unmap_byte ch Q_CODEPAGE_CP866 = Inr (search cp866_chars 0 ch)"
| "codepage_unmap_byte ch Q_CODEPAGE_CP1250 = Inr (search cp1250_chars 0 ch)"
| "codepage_unmap_byte ch Q_CODEPAGE_CP1251 = Inr (search cp1251_chars 0 ch)"
| "codepage_unmap_byte ch Q_CODEPAGE_CP1252 = Inr (search cp1252_chars 0 ch)"
| "codepage_unmap_byte ch Q_CODEPAGE_KOI8_R = Inr (search koi8_r_chars 0 ch)"
| "codepage_unmap_byte ch Q_CODEPAGE_KOI8_U = Inr (search koi8_u_chars 0 ch)"

section \<open>Facts on the search\<close>

lemma search_nth:
  "k < length cs \<Longrightarrow> \<exists>j \<le> k. search cs i (of_nat (cs ! k)) = (True, of_nat (i + j)) \<and>
     (of_nat (cs ! j) :: u32) = of_nat (cs ! k) \<and> (\<forall>m<j. (of_nat (cs ! m) :: u32) \<noteq> of_nat (cs ! k))"
proof (induction cs arbitrary: i k)
  case (Cons c cs)
  show ?case
  proof (cases "(of_nat c :: u32) = of_nat ((c # cs) ! k)")
    case True
    then show ?thesis by (intro exI [of _ 0]) simp
  next
    case False
    then obtain k' where k: "k = Suc k'" by (cases k) auto
    then obtain j where j: "j \<le> k'" "search cs (Suc i) (of_nat (cs ! k')) = (True, of_nat (Suc i + j))"
      "(of_nat (cs ! j) :: u32) = of_nat (cs ! k')" "\<forall>m<j. (of_nat (cs ! m) :: u32) \<noteq> of_nat (cs ! k')"
      using Cons.IH [of k' "Suc i"] Cons.prems by auto
    have "\<forall>m<Suc j. (of_nat ((c # cs) ! m) :: u32) \<noteq> of_nat ((c # cs) ! k)"
      using False k j(4) by (auto simp: less_Suc_eq_0_disj)
    then show ?thesis using False k j by (intro exI [of _ "Suc j"]) simp
  qed
qed simp

lemma of_nat_u32_inject: "a < 2 ^ 32 \<Longrightarrow> b < 2 ^ 32 \<Longrightarrow> (of_nat a :: u32) = of_nat b \<longleftrightarrow> a = b"
  by (auto simp: word_unat_eq_iff unat_of_nat)

lemma search_distinct:
  assumes "distinct cs" "list_all (\<lambda>c. c < 2 ^ 32) cs" "k < length cs"
  shows "search cs 0 (of_nat (cs ! k)) = (True, of_nat k)"
proof -
  obtain j where j: "j \<le> k" "search cs 0 (of_nat (cs ! k)) = (True, of_nat j)" "(of_nat (cs ! j) :: u32) = of_nat (cs ! k)"
    using search_nth [OF assms(3), of 0] by auto
  then have "cs ! j = cs ! k" using assms(2,3) by (subst of_nat_u32_inject [symmetric]) (auto simp: list_all_length)
  then show ?thesis using j assms nth_eq_iff_index_eq [of cs j k] by simp
qed

lemma distinct_cp437: "distinct cp437_chars"
  by (simp add: cp437_chars_def)

lemma distinct_cp737: "distinct cp737_chars"
  by (simp add: cp737_chars_def)

lemma distinct_cp860: "distinct cp860_chars"
  by (simp add: cp860_chars_def)

lemma distinct_cp862: "distinct cp862_chars"
  by (simp add: cp862_chars_def)

lemma distinct_cp866: "distinct cp866_chars"
  by (simp add: cp866_chars_def)

lemma distinct_koi8_r: "distinct koi8_r_chars"
  by (simp add: koi8_r_chars_def)

lemma distinct_koi8_u: "distinct koi8_u_chars"
  by (simp add: koi8_u_chars_def)

lemma length_tables [simp]:
  "length cp437_chars = 256" "length iso8859_1_chars = 256" "length cp720_chars = 256" "length cp737_chars = 256"
  "length cp775_chars = 256" "length cp850_chars = 256" "length cp852_chars = 256" "length cp857_chars = 256"
  "length cp858_chars = 256" "length cp860_chars = 256" "length cp862_chars = 256" "length cp863_chars = 256"
  "length cp866_chars = 256" "length cp1250_chars = 256" "length cp1251_chars = 256" "length cp1252_chars = 256"
  "length koi8_r_chars = 256" "length koi8_u_chars = 256"
  by (simp_all add: cp437_chars_def iso8859_1_chars_def cp720_chars_def cp737_chars_def cp775_chars_def cp850_chars_def
      cp852_chars_def cp857_chars_def cp858_chars_def cp860_chars_def cp862_chars_def cp863_chars_def cp866_chars_def
      cp1250_chars_def cp1251_chars_def cp1252_chars_def koi8_r_chars_def koi8_u_chars_def)


lemmas distinct_tables = distinct_cp437 distinct_cp737 distinct_cp860 distinct_cp862 distinct_cp866 distinct_koi8_r distinct_koi8_u

lemma small_tables: "list_all (\<lambda>c. c < 2 ^ 32) cp437_chars" "list_all (\<lambda>c. c < 2 ^ 32) cp737_chars" "list_all (\<lambda>c. c < 2 ^ 32) cp860_chars" "list_all (\<lambda>c. c < 2 ^ 32) cp862_chars" "list_all (\<lambda>c. c < 2 ^ 32) cp866_chars" "list_all (\<lambda>c. c < 2 ^ 32) koi8_r_chars" "list_all (\<lambda>c. c < 2 ^ 32) koi8_u_chars"
  by (simp_all add: cp437_chars_def cp737_chars_def cp860_chars_def cp862_chars_def cp866_chars_def koi8_r_chars_def koi8_u_chars_def)

section \<open>Properties\<close>

definition searchable :: "Q_CODEPAGE \<Rightarrow> bool" where
  "searchable cp \<longleftrightarrow> cp \<notin> {Q_CODEPAGE_DEC, Q_CODEPAGE_PETSCII, Q_CODEPAGE_ATASCII}"

definition reversible :: "Q_CODEPAGE \<Rightarrow> bool" where
  "reversible cp \<longleftrightarrow> cp \<in> {Q_CODEPAGE_CP437, Q_CODEPAGE_CP737, Q_CODEPAGE_CP860, Q_CODEPAGE_CP862, Q_CODEPAGE_CP866,
     Q_CODEPAGE_KOI8_R, Q_CODEPAGE_KOI8_U}"

lemma unat_byte_256: "unat (b :: byte) < 256"
  using unsigned_less [of b, where 'a = nat] by simp

lemma search_byte:
  assumes "length cs = 256"
  shows "\<exists>i :: byte. search cs 0 (of_nat (cs ! unat b)) = (True, ucast i) \<and> i \<le> b \<and>
    (of_nat (cs ! unat i) :: u32) = of_nat (cs ! unat b) \<and>
    (of_nat (cs ! unat b) :: u32) \<notin> (\<lambda>j. of_nat (cs ! unat j)) ` {..<i}"
proof -
  obtain j where j: "j \<le> unat b" "search cs 0 (of_nat (cs ! unat b)) = (True, of_nat j)" "(of_nat (cs ! j) :: u32) = of_nat (cs ! unat b)"
    "\<forall>m<j. (of_nat (cs ! m) :: u32) \<noteq> of_nat (cs ! unat b)"
    using search_nth [of "unat b" cs 0] unat_byte_256 [of b] assms by auto
  have u: "unat (of_nat j :: byte) = j" using j(1) unat_byte_256 [of b] by (simp add: unat_of_nat)
  then have "ucast (of_nat j :: byte) = (of_nat j :: u32)"
    using j(1) unat_byte_256 [of b] by (simp add: word_unat_eq_iff unsigned_ucast_eq unat_of_nat take_bit_nat_eq_self)
  moreover have "(of_nat j :: byte) \<le> b" using j(1) u by (simp add: word_le_nat_alt)
  moreover have "(of_nat (cs ! unat b) :: u32) \<notin> (\<lambda>i :: byte. of_nat (cs ! unat i)) ` {..<of_nat j}"
    using j(4) u by (auto simp: word_less_nat_alt)
  ultimately show ?thesis using j u by (intro exI [of _ "of_nat j"]) simp
qed

text \<open>
  In every codepage with a table of its own, the search finds, for the glyph of a byte,
  the first byte with that glyph.
\<close>

lemma codepage_unmap_finds_glyph:
  assumes "searchable cp"
  shows "\<exists>i. codepage_unmap_byte (codepage_map_char vt52 cp b) cp = Inr (True, ucast i) \<and> i \<le> b \<and>
    codepage_map_char vt52 cp i = codepage_map_char vt52 cp b \<and>
    codepage_map_char vt52 cp b \<notin> codepage_map_char vt52 cp ` {..<i}"
  using assms by (cases cp) (simp_all add: searchable_def search_byte)

text \<open>
  C35.  In the codepages whose table repeats no glyph (437, 737, 860, 862, 866, KOI8-R and
  KOI8-U) mapping a byte to its glyph and back is the identity.
\<close>

theorem codepage_roundtrip:
  assumes "reversible cp"
  shows "codepage_unmap_byte (codepage_map_char vt52 cp b) cp = Inr (True, ucast b)"
proof -
  have "of_nat (unat b) = (ucast b :: u32)" by (simp add: of_nat_unat)
  then show ?thesis
    using assms search_distinct [OF distinct_tables(1) small_tables(1), of "unat b"]
    search_distinct [OF distinct_tables(2) small_tables(2), of "unat b"]
    search_distinct [OF distinct_tables(3) small_tables(3), of "unat b"]
    search_distinct [OF distinct_tables(4) small_tables(4), of "unat b"]
    search_distinct [OF distinct_tables(5) small_tables(5), of "unat b"]
    search_distinct [OF distinct_tables(6) small_tables(6), of "unat b"]
    search_distinct [OF distinct_tables(7) small_tables(7), of "unat b"] unat_byte_256 [of b]
    by (cases cp) (auto simp: reversible_def)
qed

theorem codepage_roundtrip_witness:
  "codepage_unmap_byte (codepage_map_char False Q_CODEPAGE_KOI8_R 0xC1) Q_CODEPAGE_KOI8_R = Inr (True, ucast (0xC1 :: byte))"
  by (rule codepage_roundtrip) (simp add: reversible_def)

text \<open>
  The tables reuse the CP437 glyphs for control bytes, and the search takes the first
  match: in ISO 8859-1 the paragraph sign 0xB6 and the section sign 0xA7, which have bytes
  of their own, are sent as the control bytes 0x14 and 0x15, and in ATASCII the heart, whose
  byte is 0, is sent as the letter "e".
\<close>

lemma codepage_unmap_sends_control:
  "codepage_map_char vt52 Q_CODEPAGE_ISO8859_1 0xA7 = 0xA7 \<and> codepage_unmap_byte 0xA7 Q_CODEPAGE_ISO8859_1 = Inr (True, 0x15) \<and>
   codepage_map_char vt52 Q_CODEPAGE_ISO8859_1 0xB6 = 0xB6 \<and> codepage_unmap_byte 0xB6 Q_CODEPAGE_ISO8859_1 = Inr (True, 0x14) \<and>
   atascii_chars ! 0 = 0x2665 \<and> codepage_unmap_byte 0x2665 Q_CODEPAGE_ATASCII = Inr (True, 0x65)"
  by (simp add: iso8859_1_chars_def atascii_chars_def)

text \<open>
  The printable name of every codepage is read back as that codepage.
\<close>

lemma codepage_names:
  "codepage_from_string (codepage_string cp) = cp"
  by (cases cp) (simp_all add: codepage_from_string_def strcasecmp_eq_def to_lower_def ascii_def)

end
