(* ===== verification/Translate.thy ===== *)
theory Translate
  imports Codepage
begin

text \<open>
  The translation tables of translate.c: 8-bit tables and lists of Unicode mappings, their
  file format, and the translations the transfers, scripts and keyboard use.  A data
  directory is a map from file names to contents; \<open>may_write\<close> tells which files can be
  opened for writing.  The editor screens are not modelled.
\<close>

section \<open>Reading a text file\<close>

fun fgets :: "nat \<Rightarrow> byte list \<Rightarrow> byte list \<times> byte list" where
  "fgets 0 bs = ([], bs)"
| "fgets (Suc n) [] = ([], [])"
| "fgets (Suc n) (b # bs) = (if b = 10 then ([b], bs) else let (l, r) = fgets n bs in (b # l, r))"

lemma fgets_split: "fst (fgets n bs) @ snd (fgets n bs) = bs"
  by (induction n bs rule: fgets.induct) (auto simp: Let_def split: prod.splits)

lemma fgets_progress: "bs \<noteq> [] \<Longrightarrow> length (snd (fgets (Suc n) bs)) < length bs"
proof (cases bs)
  case (Cons b bs')
  have "length (snd (fgets n bs')) \<le> length bs'"
    by (metis fgets_split length_append le_add2)
  then show ?thesis using Cons by (auto simp: Let_def split: prod.splits)
qed simp

text \<open>The lines that a buffer of 128 bytes sees of a file.\<close>

function file_lines :: "byte list \<Rightarrow> byte list list" where
  "file_lines bs = (if bs = [] then [] else let (l, r) = fgets 127 bs in l # file_lines r)"
  by pat_completeness auto
termination
proof (relation "measure length")
  fix bs :: "byte list" and p l r
  assume "bs \<noteq> []" "p = fgets 127 bs" "(l, r) = p"
  then show "(r, bs) \<in> measure length"
    using fgets_progress [of bs 126] by (simp add: numeral_eq_Suc split: prod.splits) (metis snd_conv)
qed simp

declare file_lines.simps [simp del]

section \<open>Numbers\<close>

definition c_isspace :: "byte \<Rightarrow> bool" where
  "c_isspace b \<longleftrightarrow> b = 32 \<or> 9 \<le> b \<and> b \<le> 13"

definition q_isspace :: "byte \<Rightarrow> bool" where
  "q_isspace b \<longleftrightarrow> b = 32 \<or> b = 13 \<or> b = 10"

definition digit_value :: "byte \<Rightarrow> nat" where
  "digit_value b =
     (if 48 \<le> b \<and> b \<le> 57 then unat b - 48
      else if 97 \<le> b \<and> b \<le> 122 then unat b - 87
      else if 65 \<le> b \<and> b \<le> 90 then unat b - 55
      else 36)"

definition numeral_value :: "nat \<Rightarrow> cstring \<Rightarrow> nat" where
  "numeral_value base ds = foldl (\<lambda>a d. a * base + digit_value d) 0 ds"

definition hex_prefix :: "cstring \<Rightarrow> bool" where
  "hex_prefix s \<longleftrightarrow> 3 \<le> length s \<and> s ! 0 = 48 \<and> (s ! 1 = 120 \<or> s ! 1 = 88) \<and> digit_value (s ! 2) < 16"

text \<open>\<open>strtoul\<close> for the bases 10 and 16: the value and the rest of the string.\<close>

definition strtoul :: "nat \<Rightarrow> cstring \<Rightarrow> ulong \<times> cstring" where
  "strtoul base s =
     (let s1 = dropWhile c_isspace s;
          neg = (s1 \<noteq> [] \<and> hd s1 = 45);
          s2 = (if s1 \<noteq> [] \<and> (hd s1 = 45 \<or> hd s1 = 43) then tl s1 else s1);
          s3 = (if base = 16 \<and> hex_prefix s2 then drop 2 s2 else s2);
          ds = takeWhile (\<lambda>d. digit_value d < base) s3;
          v = numeral_value base ds
      in if ds = [] then (0, s)
         else (if 2 ^ 64 \<le> v then - 1 else if neg then - of_nat v else of_nat v, drop (length ds) s3))"

section \<open>Tables and their files\<close>

record translate =
  table_8bit_input :: "byte list"
  table_8bit_output :: "byte list"
  table_unicode_input :: "(u32 \<times> u32) list"
  table_unicode_output :: "(u32 \<times> u32) list"
  data_files :: "cstring \<Rightarrow> byte list option"
  may_write :: "cstring \<Rightarrow> bool"
  read_only :: bool

datatype scan_state = SCAN_INPUT | SCAN_INPUT_VALUES | SCAN_OUTPUT_VALUES

definition strip_end :: "cstring \<Rightarrow> cstring" where
  "strip_end s = rev (dropWhile q_isspace (rev s))"

definition split_mapping :: "cstring \<Rightarrow> (cstring \<times> cstring) option" where
  "split_mapping s =
     (let key = dropWhile q_isspace s
      in if 61 \<notin> set key then None
         else let k = takeWhile (\<lambda>b. b \<noteq> 61) key;
                  v = dropWhile q_isspace (tl (dropWhile (\<lambda>b. b \<noteq> 61) key))
              in if v = [] then None else Some (k, v))"

definition parse_8bit :: "cstring \<Rightarrow> (byte \<times> byte) option" where
  "parse_8bit s =
     (case split_mapping s of
        None \<Rightarrow> None
      | Some (k, v) \<Rightarrow>
          let (map_to, e) = strtoul 10 v; (map_from, e') = strtoul 10 (strip_end k)
          in if e \<noteq> [] then None else if e' \<noteq> [] then None else Some (ucast map_from, ucast map_to))"

definition backslash_u :: "cstring \<Rightarrow> bool" where
  "backslash_u s \<longleftrightarrow> 2 < length s \<and> \<not> (s ! 0 \<noteq> 92 \<and> s ! 1 \<noteq> 117)"

definition parse_unicode :: "cstring \<Rightarrow> (u32 \<times> u32) option" where
  "parse_unicode s =
     (case split_mapping s of
        None \<Rightarrow> None
      | Some (k, v) \<Rightarrow>
          if \<not> backslash_u v then None
          else let (map_to, e) = strtoul 16 (drop 2 v)
               in if e \<noteq> [] then None
                  else if \<not> backslash_u (strip_end k) then None
                  else let (map_from, e') = strtoul 16 (drop 2 (strip_end k))
                       in if e' \<noteq> [] then None else Some (ucast map_from, ucast map_to))"

definition load_line ::
  "(cstring \<Rightarrow> 'm option) \<Rightarrow> ('m \<Rightarrow> 't \<Rightarrow> 't) \<Rightarrow> byte list \<Rightarrow> scan_state \<times> 't \<times> 't \<Rightarrow> scan_state \<times> 't \<times> 't" where
  "load_line parse put line = (\<lambda>(st, t_in, t_out).
     let s = c_string line
     in if s = [] \<or> hd s = 35 then (st, t_in, t_out)
        else let s = strip_end s
             in if st = SCAN_INPUT then (if s = ascii ''[input]'' then SCAN_INPUT_VALUES else st, t_in, t_out)
                else if s = ascii ''[output]'' then (SCAN_OUTPUT_VALUES, t_in, t_out)
                else (case parse s of
                        None \<Rightarrow> (st, t_in, t_out)
                      | Some m \<Rightarrow> if st = SCAN_INPUT_VALUES then (st, put m t_in, t_out) else (st, t_in, put m t_out)))"

definition load_lines ::
  "(cstring \<Rightarrow> 'm option) \<Rightarrow> ('m \<Rightarrow> 't \<Rightarrow> 't) \<Rightarrow> byte list list \<Rightarrow> 't \<Rightarrow> 't \<times> 't" where
  "load_lines parse put lines t = snd (fold (load_line parse put) lines (SCAN_INPUT, t, t))"

definition identity_table :: "byte list" where
  "identity_table = map of_nat [0..<256]"

definition put_8bit :: "byte \<times> byte \<Rightarrow> byte list \<Rightarrow> byte list" where
  "put_8bit m t = t[unat (fst m) := snd m]"

definition put_unicode :: "u32 \<times> u32 \<Rightarrow> (u32 \<times> u32) list \<Rightarrow> (u32 \<times> u32) list" where
  "put_unicode m t = t @ [m]"

definition load_translate_tables_8bit :: "cstring \<Rightarrow> translate \<Rightarrow> translate" where
  "load_translate_tables_8bit filename s =
     (case data_files s filename of
        None \<Rightarrow> s
      | Some content \<Rightarrow>
          let (t_in, t_out) = load_lines parse_8bit put_8bit (file_lines content) identity_table
          in s\<lparr>table_8bit_input := t_in, table_8bit_output := t_out\<rparr>)"

definition load_translate_tables_unicode :: "cstring \<Rightarrow> translate \<Rightarrow> translate" where
  "load_translate_tables_unicode filename s =
     (case data_files s filename of
        None \<Rightarrow> s
      | Some content \<Rightarrow>
          let (t_in, t_out) = load_lines parse_unicode put_unicode (file_lines content) []
          in s\<lparr>table_unicode_input := t_in, table_unicode_output := t_out\<rparr>)"

definition unlines :: "cstring list \<Rightarrow> byte list" where
  "unlines ls = concat (map (\<lambda>l. l @ [10]) ls)"

definition header_8bit :: "cstring list" where
  "header_8bit =
     [ascii ''# Qodem ASCII translate tables file'',
      ascii ''# ---------------------------------'',
      ascii ''#'',
      ascii ''# The default is an identity mapping.  Entries in this'',
      ascii ''# file record overrides from that default.'',
      ascii ''#'',
      ascii ''# This is the list of 8-bit overrides.  Entries use'',
      ascii ''# base 10 (0-255).  For example, to make all incoming'',
      ascii ''# '' @ [39, 36, 39] @ ascii '' bytes turn into '' @ [39, 111, 39] @ ascii '', add a line that has:'',
      ascii ''#     36 = 111'',
      ascii ''# ...in the [input] section.'',
      ascii ''#'']"

definition header_unicode :: "cstring list" where
  "header_unicode =
     [ascii ''# Qodem ASCII translate tables file'',
      ascii ''# ---------------------------------'',
      ascii ''#'',
      ascii ''# The default is an identity mapping.  Entries in this'',
      ascii ''# file record overrides from that default.'',
      ascii ''#'',
      ascii ''# This is the list of Unicode overrides.  Entries use'',
      ascii ''# 16-bit base 16 (0x0000-0xFFFF).  For example, to make'',
      ascii ''# all incoming '' @ [39, 36, 39] @ ascii '' bytes turn into '' @ [39, 111, 39] @ ascii '', add a line that'',
      ascii ''# has:'',
      ascii ''#     '' @ [92] @ ascii ''u0024 = '' @ [92] @ ascii ''u006F'',
      ascii ''# ...in the [input] section.'',
      ascii ''#'']"

definition save_values_8bit :: "byte list \<Rightarrow> cstring list" where
  "save_values_8bit t =
     map (\<lambda>i. digits_base 10 i @ ascii '' = '' @ digits_base 10 (unat (t ! i))) (filter (\<lambda>i. t ! i \<noteq> of_nat i) [0..<256])"

definition hex_digit :: "nat \<Rightarrow> byte" where
  "hex_digit d = of_nat (if d < 10 then 48 + d else 87 + d)"

text \<open>\<open>%04x\<close> of a 16-bit value.\<close>

definition hex4 :: "16 word \<Rightarrow> cstring" where
  "hex4 w = map (\<lambda>k. hex_digit (unat w div 16 ^ k mod 16)) [3, 2, 1, 0]"

definition save_values_unicode :: "(u32 \<times> u32) list \<Rightarrow> cstring list" where
  "save_values_unicode t =
     map (\<lambda>(k, v). [92, 117] @ hex4 (ucast k) @ ascii '' = '' @ [92, 117] @ hex4 (ucast v)) (filter (\<lambda>(k, v). k \<noteq> v) t)"

definition save_translate_tables_8bit :: "cstring \<Rightarrow> byte list \<Rightarrow> byte list \<Rightarrow> translate \<Rightarrow> translate" where
  "save_translate_tables_8bit filename t_in t_out s =
     (if read_only s \<or> \<not> may_write s filename then s
      else s\<lparr>data_files := (data_files s)(filename \<mapsto>
        unlines (header_8bit @ [[], ascii ''[input]''] @ save_values_8bit t_in @ [[], ascii ''[output]''] @ save_values_8bit t_out))\<rparr>)"

text \<open>The tables that are saved are the ones in use, not the arguments.\<close>

definition save_translate_tables_unicode ::
  "cstring \<Rightarrow> (u32 \<times> u32) list \<Rightarrow> (u32 \<times> u32) list \<Rightarrow> translate \<Rightarrow> translate" where
  "save_translate_tables_unicode filename t_in t_out s =
     (if read_only s \<or> \<not> may_write s filename then s
      else s\<lparr>data_files := (data_files s)(filename \<mapsto>
        unlines (header_unicode @ [[], ascii ''[input]''] @ save_values_unicode (table_unicode_input s) @
          [[], ascii ''[output]''] @ save_values_unicode (table_unicode_output s)))\<rparr>)"

definition reset_table_8bit :: "byte list" where
  "reset_table_8bit = identity_table"

definition reset_table_unicode :: "(u32 \<times> u32) list" where
  "reset_table_unicode = []"

definition use_translate_table_8bit :: "cstring \<Rightarrow> translate \<Rightarrow> translate" where
  "use_translate_table_8bit filename s =
     (if data_files s filename = None
      then save_translate_tables_8bit filename reset_table_8bit reset_table_8bit
             (s\<lparr>table_8bit_input := reset_table_8bit, table_8bit_output := reset_table_8bit\<rparr>)
      else load_translate_tables_8bit filename s)"

definition use_translate_table_unicode :: "cstring \<Rightarrow> translate \<Rightarrow> translate" where
  "use_translate_table_unicode filename s =
     (if data_files s filename = None
      then save_translate_tables_unicode filename reset_table_unicode reset_table_unicode
             (s\<lparr>table_unicode_input := reset_table_unicode, table_unicode_output := reset_table_unicode\<rparr>)
      else load_translate_tables_unicode filename s)"

section \<open>Translations\<close>

definition translate_8bit_in :: "translate \<Rightarrow> byte \<Rightarrow> byte" where
  "translate_8bit_in s b = table_8bit_input s ! unat b"

definition translate_8bit_out :: "translate \<Rightarrow> byte \<Rightarrow> byte" where
  "translate_8bit_out s b = table_8bit_output s ! unat b"

fun unicode_table_get :: "(u32 \<times> u32) list \<Rightarrow> u32 \<Rightarrow> u32" where
  "unicode_table_get [] key = key"
| "unicode_table_get ((k, v) # t) key = (if k = key then v else unicode_table_get t key)"

fun unicode_table_set :: "(u32 \<times> u32) list \<Rightarrow> u32 \<Rightarrow> u32 \<Rightarrow> (u32 \<times> u32) list" where
  "unicode_table_set [] key val = [(key, val)]"
| "unicode_table_set ((k, v) # t) key val = (if k = key then (k, val) # t else (k, v) # unicode_table_set t key val)"

definition translate_unicode_in :: "translate \<Rightarrow> u32 \<Rightarrow> u32" where
  "translate_unicode_in s c = unicode_table_get (table_unicode_input s) c"

definition translate_unicode_out :: "translate \<Rightarrow> u32 \<Rightarrow> u32" where
  "translate_unicode_out s c = unicode_table_get (table_unicode_output s) c"

definition translate_unicode_to_8bit :: "translate \<Rightarrow> u32 \<Rightarrow> Q_CODEPAGE \<Rightarrow> byte run" where
  "translate_unicode_to_8bit s c cp =
     (if sint c < 0x80 then Inr (table_8bit_output s ! unat (c AND 0x7F))
      else if cp = Q_CODEPAGE_DEC then Inr 63
      else if cp = Q_CODEPAGE_PETSCII then Inr (if sint c < 0x100 then ucast (c AND 0xFF) else 63)
      else andthen (codepage_unmap_byte (translate_unicode_out s c) cp) (\<lambda>(success, ch).
        Inr (if success then ucast ch else 63)))"

section \<open>Lines\<close>

lemma fgets_line: "10 \<notin> set l \<Longrightarrow> length l < n \<Longrightarrow> fgets n (l @ 10 # r) = (l @ [10], r)"
proof (induction l arbitrary: n)
  case Nil
  then show ?case by (cases n) simp_all
next
  case (Cons b l)
  then show ?case by (cases n) auto
qed

lemma file_lines_unlines:
  "list_all (\<lambda>l. 10 \<notin> set l \<and> length l < 127) ls \<Longrightarrow> file_lines (unlines ls) = map (\<lambda>l. l @ [10]) ls"
proof (induction ls)
  case Nil
  show ?case by (simp add: unlines_def file_lines.simps)
next
  case (Cons l ls)
  have u: "unlines (l # ls) = l @ 10 # unlines ls" by (simp add: unlines_def)
  then have "file_lines (unlines (l # ls)) = (l @ [10]) # file_lines (unlines ls)"
    using Cons.prems by (subst file_lines.simps) (simp add: fgets_line)
  then show ?case using Cons by simp
qed

lemma strip_end_newline: "l \<noteq> [] \<Longrightarrow> \<not> q_isspace (last l) \<Longrightarrow> strip_end (l @ [10]) = l"
proof -
  assume "l \<noteq> []" "\<not> q_isspace (last l)"
  then obtain l' b where "l = l' @ [b]" "\<not> q_isspace b" by (metis append_butlast_last_id)
  then show ?thesis by (simp add: strip_end_def q_isspace_def)
qed

lemma strip_end_keep: "l = [] \<or> \<not> q_isspace (last l) \<Longrightarrow> strip_end l = l"
proof (cases l rule: rev_cases)
  case (snoc l' b)
  assume "l = [] \<or> \<not> q_isspace (last l)"
  then show ?thesis using snoc by (simp add: strip_end_def)
qed (simp add: strip_end_def)

lemma c_string_keep: "0 \<notin> set l \<Longrightarrow> c_string (l @ [10]) = l @ [10]"
  by (auto simp: c_string_def takeWhile_append2 intro!: takeWhile_eq_all_conv [THEN iffD2])

text \<open>
  A file of mappings: what reading it gives, for any way to write a mapping on a line that
  the parser reads back.
\<close>

locale mapping_file =
  fixes parse :: "cstring \<Rightarrow> 'm option" and put :: "'m \<Rightarrow> 't \<Rightarrow> 't" and show_line :: "'m \<Rightarrow> cstring" and ok :: "'m \<Rightarrow> bool"
  assumes parse_line: "ok m \<Longrightarrow> parse (show_line m) = Some m"
    and parse_blank: "parse [] = None"
    and line_text: "ok m \<Longrightarrow> show_line m \<noteq> [] \<and> 0 \<notin> set (show_line m) \<and> 10 \<notin> set (show_line m) \<and> length (show_line m) < 127"
    and line_start: "ok m \<Longrightarrow> hd (show_line m) \<noteq> 35 \<and> hd (show_line m) \<noteq> 91"
    and line_end: "ok m \<Longrightarrow> \<not> q_isspace (last (show_line m))"
begin

lemma load_value:
  assumes "ok m" "st \<noteq> SCAN_INPUT"
  shows "load_line parse put (show_line m @ [10]) (st, t_in, t_out) =
    (st, if st = SCAN_INPUT_VALUES then put m t_in else t_in, if st = SCAN_INPUT_VALUES then t_out else put m t_out)"
proof -
  have "c_string (show_line m @ [10]) = show_line m @ [10]" using line_text [OF assms(1)] by (simp add: c_string_keep)
  moreover have "hd (show_line m @ [10]) = hd (show_line m)" using line_text [OF assms(1)] by simp
  moreover have "strip_end (show_line m @ [10]) = show_line m"
    using line_text [OF assms(1)] line_end [OF assms(1)] by (simp add: strip_end_newline)
  moreover have "show_line m \<noteq> ascii ''[output]''" using line_start [OF assms(1)] by (auto simp: ascii_def)
  ultimately show ?thesis
    using assms line_start [OF assms(1)] by (simp add: load_line_def Let_def parse_line)
qed

lemma load_values:
  "list_all ok ms \<Longrightarrow> st \<noteq> SCAN_INPUT \<Longrightarrow>
   fold (load_line parse put) (map (\<lambda>m. show_line m @ [10]) ms) (st, t_in, t_out) =
   (st, if st = SCAN_INPUT_VALUES then fold put ms t_in else t_in, if st = SCAN_INPUT_VALUES then t_out else fold put ms t_out)"
  by (induction ms arbitrary: t_in t_out) (simp_all add: load_value)

lemma load_blank: "load_line parse put [10] s = s"
  by (cases s) (simp add: load_line_def c_string_def strip_end_def q_isspace_def parse_blank ascii_def)

lemma load_section:
  "load_line parse put (ascii ''[input]'' @ [10]) (SCAN_INPUT, t) = (SCAN_INPUT_VALUES, t)"
  "load_line parse put (ascii ''[output]'' @ [10]) (SCAN_INPUT_VALUES, t) = (SCAN_OUTPUT_VALUES, t)"
  by (cases t, simp add: load_line_def c_string_def strip_end_def q_isspace_def ascii_def)+

lemma load_comments:
  "list_all (\<lambda>l. l \<noteq> [] \<and> hd l = 35) ls \<Longrightarrow> fold (load_line parse put) (map (\<lambda>l. l @ [10]) ls) s = s"
proof (induction ls)
  case (Cons l ls)
  then obtain l' where "l = 35 # l'" by (cases l) auto
  then show ?case using Cons by (cases s) (simp add: load_line_def c_string_def)
qed simp

lemma load_file:
  assumes "list_all (\<lambda>l. l \<noteq> [] \<and> hd l = 35 \<and> 10 \<notin> set l \<and> length l < 127) hs" "list_all ok ms" "list_all ok ns"
  shows "load_lines parse put (file_lines (unlines (hs @ [[], ascii ''[input]''] @ map show_line ms @
    [[], ascii ''[output]''] @ map show_line ns))) t = (fold put ms t, fold put ns t)"
proof -
  have "list_all (\<lambda>l. 10 \<notin> set l \<and> length l < 127) (hs @ [[], ascii ''[input]''] @ map show_line ms @ [[], ascii ''[output]''] @ map show_line ns)"
    using assms line_text by (auto simp: list_all_iff ascii_def)
  then show ?thesis using assms
    by (simp add: file_lines_unlines load_lines_def comp_def load_comments load_blank load_section load_values list_all_iff)
qed

end

section \<open>Numbers in a mapping\<close>

lemma digit_value_digit: "d < 10 \<Longrightarrow> digit_value (digit d) = d"
  using unat_digit [of d] by (simp add: digit_value_def word_le_nat_alt)

lemma numeral_value_snoc: "numeral_value base (ds @ [d]) = numeral_value base ds * base + digit_value d"
  by (simp add: numeral_value_def)

lemma numeral_value_digits: "numeral_value 10 (digits_base 10 n) = n"
proof (induction "10 :: nat" n rule: digits_base.induct)
  case (1 n)
  show ?case
  proof (cases "n < 10")
    case True
    then show ?thesis by (simp add: digits_base_small numeral_value_def digit_value_digit)
  next
    case False
    then show ?thesis using 1 by (simp add: digits_base_step numeral_value_snoc digit_value_digit)
  qed
qed

definition plain_digits :: "nat \<Rightarrow> cstring \<Rightarrow> bool" where
  "plain_digits base ds \<longleftrightarrow> ds \<noteq> [] \<and> list_all (\<lambda>d. digit_value d < base \<and> d \<noteq> 0 \<and> d \<noteq> 43 \<and> d \<noteq> 45 \<and> d \<noteq> 61 \<and> d \<noteq> 35 \<and> d \<noteq> 91 \<and> \<not> c_isspace d) ds"

lemma q_isspace_c: "q_isspace b \<Longrightarrow> c_isspace b"
  by (auto simp: q_isspace_def c_isspace_def)

lemma strtoul_digits:
  assumes "plain_digits base ds" "base \<le> 16" "numeral_value base ds < 2 ^ 64"
  shows "strtoul base ds = (of_nat (numeral_value base ds), [])"
proof -
  have "dropWhile c_isspace ds = ds" using assms(1) by (cases ds) (simp_all add: plain_digits_def)
  moreover have "\<not> hex_prefix ds"
  proof
    assume "hex_prefix ds"
    then have "1 < length ds" "digit_value (ds ! 1) = 33" by (auto simp: hex_prefix_def digit_value_def)
    then show False using assms(1,2) by (auto simp: plain_digits_def list_all_length)
  qed
  moreover have t: "takeWhile (\<lambda>d. digit_value d < base) ds = ds"
    using assms(1) by (simp add: plain_digits_def list_all_iff takeWhile_eq_all_conv)
  moreover have "hd ds \<noteq> 45" "hd ds \<noteq> 43" "ds \<noteq> []" using assms(1) by (cases ds; simp add: plain_digits_def)+
  ultimately show ?thesis using assms(3) by (simp add: strtoul_def Let_def t)
qed

lemma dropWhile_blank: "plain_digits base ds \<Longrightarrow> dropWhile q_isspace (ds @ r) = ds @ r"
  by (cases ds) (auto simp: plain_digits_def dest: q_isspace_c)

lemma split_digits:
  assumes "dropWhile q_isspace (k @ ascii '' = '' @ v) = k @ ascii '' = '' @ v" "61 \<notin> set k" "v \<noteq> []" "\<not> q_isspace (hd v)"
  shows "split_mapping (k @ ascii '' = '' @ v) = Some (k @ [32], v)"
proof -
  have e: "ascii '' = '' = [32, 61, 32]" by (simp add: ascii_def)
  have "takeWhile (\<lambda>b. b \<noteq> 61) (k @ [32, 61, 32] @ v) = k @ [32]" "dropWhile (\<lambda>b. b \<noteq> 61) (k @ [32, 61, 32] @ v) = [61, 32] @ v"
    using assms(2) by (induction k) auto
  then show ?thesis using assms unfolding e
    by (cases v) (simp_all add: split_mapping_def Let_def q_isspace_def)
qed

lemma plain_digits_end: "plain_digits base ds \<Longrightarrow> \<not> q_isspace (last ds)"
  using last_in_set [of ds] q_isspace_c [of "last ds"] by (auto simp: plain_digits_def list_all_iff)

lemma plain_digits_start: "plain_digits base ds \<Longrightarrow> \<not> q_isspace (hd ds) \<and> hd ds \<noteq> 35 \<and> hd ds \<noteq> 91"
  using hd_in_set [of ds] q_isspace_c [of "hd ds"] by (auto simp: plain_digits_def list_all_iff)

lemma strip_end_blank: "k \<noteq> [] \<Longrightarrow> \<not> q_isspace (last k) \<Longrightarrow> strip_end (k @ [32]) = k"
  by (cases k rule: rev_cases) (simp_all add: strip_end_def q_isspace_def)

lemma digits_plain: "plain_digits 10 (digits_base 10 n)"
proof -
  have "digit_value d < 10 \<and> d \<noteq> 0 \<and> d \<noteq> 43 \<and> d \<noteq> 45 \<and> d \<noteq> 61 \<and> d \<noteq> 35 \<and> d \<noteq> 91 \<and> \<not> c_isspace d" if "48 \<le> unat d" "unat d < 58" for d :: byte
    using that by (auto simp: digit_value_def c_isspace_def word_le_nat_alt word_unat_eq_iff)
  then show ?thesis using digits_base_range [of 10] by (auto simp: plain_digits_def list_all_iff)
qed


section \<open>The two file formats\<close>

definition line_8bit :: "byte \<times> byte \<Rightarrow> cstring" where
  "line_8bit m = digits_base 10 (unat (fst m)) @ ascii '' = '' @ digits_base 10 (unat (snd m))"

definition line_unicode :: "u32 \<times> u32 \<Rightarrow> cstring" where
  "line_unicode m = [92, 117] @ hex4 (ucast (fst m)) @ ascii '' = '' @ [92, 117] @ hex4 (ucast (snd m))"

definition bmp :: "u32 \<times> u32 \<Rightarrow> bool" where
  "bmp m \<longleftrightarrow> unat (fst m) < 2 ^ 16 \<and> unat (snd m) < 2 ^ 16"

lemma digits_short: "unat (b :: byte) < 256 \<Longrightarrow> length (digits_base 10 (unat b)) \<le> 3"
proof -
  assume b: "unat b < 256"
  consider "unat b < 10" | "10 \<le> unat b" "unat b < 100" | "100 \<le> unat b" by linarith
  then show ?thesis using b by cases (simp_all add: digits_base_small digits_base_step)
qed

lemma byte_via_ulong: "ucast (ucast (b :: byte) :: ulong) = b"
  by (simp add: ucast_ucast_up)

lemma parse_8bit_line: "parse_8bit (line_8bit m) = Some m"
proof -
  let ?k = "digits_base 10 (unat (fst m))" and ?v = "digits_base 10 (unat (snd m))"
  have "split_mapping (?k @ ascii '' = '' @ ?v) = Some (?k @ [32], ?v)"
  proof (rule split_digits)
    show "dropWhile q_isspace (?k @ ascii '' = '' @ ?v) = ?k @ ascii '' = '' @ ?v" using dropWhile_blank [OF digits_plain] .
    show "61 \<notin> set ?k" using digits_plain [of "unat (fst m)"] by (auto simp: plain_digits_def list_all_iff)
    show "\<not> q_isspace (hd ?v)" using plain_digits_start [OF digits_plain] by simp
  qed simp
  moreover have "strip_end (?k @ [32]) = ?k" using plain_digits_end [OF digits_plain] by (intro strip_end_blank) simp_all
  moreover have "strtoul 10 (digits_base 10 (unat b)) = (of_nat (unat b), [])" for b :: byte
    using strtoul_digits [OF digits_plain, of "unat b"] unat_byte_256 [of b] by (simp add: numeral_value_digits)
  ultimately show ?thesis by (simp add: parse_8bit_def line_8bit_def byte_via_ulong)
qed

interpretation file_8bit: mapping_file parse_8bit put_8bit line_8bit "\<lambda>_. True"
proof
  fix m :: "byte \<times> byte"
  show "parse_8bit (line_8bit m) = Some m" by (rule parse_8bit_line)
  show "parse_8bit [] = None" by (simp add: parse_8bit_def split_mapping_def)
  have z: "0 \<notin> set (digits_base 10 n)" "10 \<notin> set (digits_base 10 n)" for n
    using digits_base_range [of 10 "0 :: byte" n] digits_base_range [of 10 "10 :: byte" n] by auto
  show "line_8bit m \<noteq> [] \<and> 0 \<notin> set (line_8bit m) \<and> 10 \<notin> set (line_8bit m) \<and> length (line_8bit m) < 127"
    using digits_short [OF unat_byte_256, of "fst m"] digits_short [OF unat_byte_256, of "snd m"] z
    by (auto simp: line_8bit_def ascii_def)
  show "hd (line_8bit m) \<noteq> 35 \<and> hd (line_8bit m) \<noteq> 91"
    using plain_digits_start [OF digits_plain] by (simp add: line_8bit_def)
  show "\<not> q_isspace (last (line_8bit m))"
    using plain_digits_end [OF digits_plain] by (simp add: line_8bit_def)
qed

lemma hex_digit_value: "d < 16 \<Longrightarrow> digit_value (hex_digit d) = d"
  by (auto simp: hex_digit_def digit_value_def word_le_nat_alt unat_of_nat simp del: of_nat_add)


lemma hex4_plain: "plain_digits 16 (hex4 w)"
proof -
  have "digit_value (hex_digit d) < 16 \<and> hex_digit d \<noteq> 0 \<and> hex_digit d \<noteq> 43 \<and> hex_digit d \<noteq> 45 \<and> hex_digit d \<noteq> 61 \<and>
     hex_digit d \<noteq> 35 \<and> hex_digit d \<noteq> 91 \<and> \<not> c_isspace (hex_digit d)" if "d < 16" for d
  proof -
    have "unat (hex_digit d) = (if d < 10 then 48 + d else 87 + d)" using that by (simp add: hex_digit_def unat_of_nat del: of_nat_add)
    then show ?thesis using that hex_digit_value [OF that] by (auto simp: c_isspace_def word_le_nat_alt word_unat_eq_iff)
  qed
  then show ?thesis by (simp add: hex4_def plain_digits_def)
qed

lemma horner4: "v = ((a * 16 + b) * 16 + c) * 16 + d \<Longrightarrow> x = 16 * a + b \<Longrightarrow> y = 16 * x + c \<Longrightarrow> u = 16 * y + d \<Longrightarrow> v = (u :: nat)"
  by simp

lemma numeral_value_hex4: "numeral_value 16 (hex4 w) = unat w"
proof (rule horner4)
  show "numeral_value 16 (hex4 w) =
     ((unat w div 4096 mod 16 * 16 + unat w div 256 mod 16) * 16 + unat w div 16 mod 16) * 16 + unat w mod 16"
    by (simp add: hex4_def numeral_value_def hex_digit_value)
  have "unat w < 2 ^ 16" using unsigned_less [of w, where 'a = nat] by simp
  then have "unat w div 4096 mod 16 = unat w div 4096" by (simp add: less_mult_imp_div_less)
  then show "unat w div 256 = 16 * (unat w div 4096 mod 16) + unat w div 256 mod 16"
    using mult_div_mod_eq [of 16 "unat w div 256"] by (simp add: div_mult2_eq [symmetric])
  show "unat w div 16 = 16 * (unat w div 256) + unat w div 16 mod 16"
    using mult_div_mod_eq [of 16 "unat w div 16"] by (simp add: div_mult2_eq [symmetric])
  show "unat w = 16 * (unat w div 16) + unat w mod 16" by simp
qed

lemma length_hex4 [simp]: "length (hex4 w) = 4"
  by (simp add: hex4_def)

lemma strtoul_hex4: "strtoul 16 (hex4 w) = (of_nat (unat w), [])"
proof -
  have "unat w < 2 ^ 16" using unsigned_less [of w, where 'a = nat] by simp
  then show ?thesis using strtoul_digits [OF hex4_plain, of w] by (simp add: numeral_value_hex4)
qed

lemma bmp_word: "unat (c :: u32) < 2 ^ 16 \<Longrightarrow> ucast (ucast (ucast c :: 16 word) :: ulong) = c"
proof -
  assume c: "unat c < 2 ^ 16"
  then have 16: "unat (ucast c :: 16 word) = unat c" by (simp add: unsigned_ucast_eq take_bit_nat_eq_self)
  then have "unat (ucast (ucast c :: 16 word) :: ulong) = unat c" using c by (subst unsigned_ucast_eq) (simp add: take_bit_nat_eq_self)
  then have "unat (ucast (ucast (ucast c :: 16 word) :: ulong) :: u32) = unat c" using c by (subst unsigned_ucast_eq) (simp add: take_bit_nat_eq_self)
  then show ?thesis by (simp only: word_unat_eq_iff)
qed

lemma parse_unicode_line: "bmp m \<Longrightarrow> parse_unicode (line_unicode m) = Some m"
proof -
  assume m: "bmp m"
  let ?k = "[92, 117] @ hex4 (ucast (fst m))" and ?v = "[92, 117] @ hex4 (ucast (snd m))"
  have "split_mapping (?k @ ascii '' = '' @ ?v) = Some (?k @ [32], ?v)"
  proof (rule split_digits)
    show "61 \<notin> set ?k" using hex4_plain [of "ucast (fst m)"] by (auto simp: plain_digits_def list_all_iff)
  qed (simp_all add: q_isspace_def)
  moreover have "strip_end (?k @ [32]) = ?k" using plain_digits_end [OF hex4_plain] by (intro strip_end_blank) (simp_all add: hex4_def)
  moreover have "backslash_u ?k" "backslash_u ?v" by (simp_all add: backslash_u_def)
  moreover have "ucast (ucast (ucast (fst m) :: 16 word) :: ulong) = fst m" "ucast (ucast (ucast (snd m) :: 16 word) :: ulong) = snd m"
    using m by (simp_all add: bmp_def bmp_word)
  ultimately show ?thesis by (simp add: parse_unicode_def line_unicode_def strtoul_hex4)
qed

interpretation file_unicode: mapping_file parse_unicode put_unicode line_unicode bmp
proof
  fix m :: "u32 \<times> u32"
  show "parse_unicode [] = None" by (simp add: parse_unicode_def split_mapping_def)
  assume m: "bmp m"
  then show "parse_unicode (line_unicode m) = Some m" by (rule parse_unicode_line)
  have blank: "c_isspace 10" by (simp add: c_isspace_def)
  have z: "0 \<notin> set (hex4 w)" "10 \<notin> set (hex4 w)" for w
    using hex4_plain [of w] blank by (auto simp: plain_digits_def list_all_iff)
  then show "line_unicode m \<noteq> [] \<and> 0 \<notin> set (line_unicode m) \<and> 10 \<notin> set (line_unicode m) \<and> length (line_unicode m) < 127"
    by (auto simp: line_unicode_def ascii_def)
  show "hd (line_unicode m) \<noteq> 35 \<and> hd (line_unicode m) \<noteq> 91" by (simp add: line_unicode_def)
  show "\<not> q_isspace (last (line_unicode m))"
    using plain_digits_end [OF hex4_plain] by (simp add: line_unicode_def hex4_def)
qed


section \<open>What is saved is read back\<close>

lemma headers_ok:
  "list_all (\<lambda>l. l \<noteq> [] \<and> hd l = 35 \<and> 10 \<notin> set l \<and> length l < 127) header_8bit"
  "list_all (\<lambda>l. l \<noteq> [] \<and> hd l = 35 \<and> 10 \<notin> set l \<and> length l < 127) header_unicode"
  by (simp_all add: header_8bit_def header_unicode_def ascii_def)

definition overrides :: "byte list \<Rightarrow> (byte \<times> byte) list" where
  "overrides t = map (\<lambda>i. (of_nat i, t ! i)) (filter (\<lambda>i. t ! i \<noteq> of_nat i) [0..<256])"

lemma save_values_overrides: "save_values_8bit t = map line_8bit (overrides t)"
  by (auto simp: save_values_8bit_def overrides_def line_8bit_def unat_of_nat)

lemma put_overrides:
  assumes "length t = 256" "n \<le> 256"
  shows "fold put_8bit (map (\<lambda>i. (of_nat i, t ! i)) (filter (\<lambda>i. t ! i \<noteq> of_nat i) [0..<n])) identity_table =
    take n t @ drop n identity_table"
  using assms(2)
proof (induction n)
  case (Suc n)
  have l: "length identity_table = 256" by (simp add: identity_table_def)
  have "take (Suc n) t = take n t @ [t ! n]" "drop n identity_table = of_nat n # drop (Suc n) identity_table"
    using Suc.prems assms(1) l by (simp_all add: take_Suc_conv_app_nth Cons_nth_drop_Suc [symmetric]) (simp add: identity_table_def)
  then show ?case using Suc assms(1) l
    by (auto simp: put_8bit_def unat_of_nat list_update_append)
qed simp

lemma fold_overrides: "length t = 256 \<Longrightarrow> fold put_8bit (overrides t) identity_table = t"
  using put_overrides [of t 256] by (simp add: overrides_def identity_table_def)

lemma fold_put_unicode: "fold put_unicode ms t = t @ ms"
  by (induction ms arbitrary: t) (simp_all add: put_unicode_def)

lemma get_filter: "distinct (map fst t) \<Longrightarrow> unicode_table_get (filter (\<lambda>(k, v). k \<noteq> v) t) c = unicode_table_get t c"
proof (induction t)
  case (Cons m t)
  have "unicode_table_get u c = c" if "c \<notin> fst ` set u" for u
    using that by (induction u) auto
  then show ?case using Cons by (cases m) force
qed simp

lemma unicode_table_get_set: "unicode_table_get (unicode_table_set t k v) c = (if c = k then v else unicode_table_get t c)"
  by (induction t k v rule: unicode_table_set.induct) auto

lemma unicode_table_set_distinct: "distinct (map fst t) \<Longrightarrow> distinct (map fst (unicode_table_set t k v))"
proof -
  have keys: "set (map fst (unicode_table_set t k v)) = insert k (set (map fst t))" for t
    by (induction t k v rule: unicode_table_set.induct) auto
  show "distinct (map fst t) \<Longrightarrow> distinct (map fst (unicode_table_set t k v))"
    by (induction t) (use keys in auto)
qed


lemma load_after_save_8bit:
  assumes "\<not> read_only s" "may_write s f" "length t_in = 256" "length t_out = 256"
  shows "load_translate_tables_8bit f (save_translate_tables_8bit f t_in t_out s) =
    (save_translate_tables_8bit f t_in t_out s)\<lparr>table_8bit_input := t_in, table_8bit_output := t_out\<rparr>"
  using assms file_8bit.load_file [OF headers_ok(1), of "overrides t_in" "overrides t_out" identity_table]
  by (simp add: load_translate_tables_8bit_def save_translate_tables_8bit_def save_values_overrides fold_overrides list_all_iff)

lemma load_after_save_unicode:
  assumes "\<not> read_only s" "may_write s f" "list_all bmp (table_unicode_input s)" "list_all bmp (table_unicode_output s)"
  shows "load_translate_tables_unicode f (save_translate_tables_unicode f t_in t_out s) =
    (save_translate_tables_unicode f t_in t_out s)\<lparr>
      table_unicode_input := filter (\<lambda>(k, v). k \<noteq> v) (table_unicode_input s),
      table_unicode_output := filter (\<lambda>(k, v). k \<noteq> v) (table_unicode_output s)\<rparr>"
proof -
  have v: "save_values_unicode t = map line_unicode (filter (\<lambda>(k, v). k \<noteq> v) t)" for t
    by (auto simp: save_values_unicode_def line_unicode_def)
  have "list_all bmp (filter (\<lambda>(k, v). k \<noteq> v) t)" if "list_all bmp t" for t
    using that by (auto simp: list_all_iff)
  then show ?thesis
    using assms file_unicode.load_file [OF headers_ok(2), where t = "[]"]
    by (simp add: load_translate_tables_unicode_def save_translate_tables_unicode_def v fold_put_unicode)
qed

section \<open>Properties\<close>

definition sample_translate :: translate where
  "sample_translate =
     \<lparr>table_8bit_input = identity_table[36 := 111], table_8bit_output = identity_table,
      table_unicode_input = [(0x24, 0x6F)], table_unicode_output = [(0x20AC, 0x45)],
      data_files = Map.empty, may_write = (\<lambda>_. True), read_only = False\<rparr>"

lemma length_identity_table [simp]: "length identity_table = 256"
  by (simp add: identity_table_def)

lemma nth_identity_table [simp]: "n < 256 \<Longrightarrow> identity_table ! n = of_nat n"
  by (simp add: identity_table_def)

text \<open>
  C36.  The file that \<open>save_translate_tables_8bit\<close> writes is read back by
  \<open>load_translate_tables_8bit\<close> as the same two tables, whatever bytes they map to.
\<close>

theorem translate_8bit_file_roundtrip:
  assumes "\<not> read_only s" "may_write s f" "length t_in = 256" "length t_out = 256"
  shows "table_8bit_input (load_translate_tables_8bit f (save_translate_tables_8bit f t_in t_out s)) = t_in \<and>
    table_8bit_output (load_translate_tables_8bit f (save_translate_tables_8bit f t_in t_out s)) = t_out"
  using load_after_save_8bit [OF assms] by simp

theorem translate_8bit_file_roundtrip_witness:
  "table_8bit_input (load_translate_tables_8bit [97] (save_translate_tables_8bit [97] (identity_table[36 := 111]) identity_table
     sample_translate)) = identity_table[36 := 111] \<and>
   table_8bit_output (load_translate_tables_8bit [97] (save_translate_tables_8bit [97] (identity_table[36 := 111]) identity_table
     sample_translate)) = identity_table"
  using translate_8bit_file_roundtrip [of sample_translate "[97]" "identity_table[36 := 111]" identity_table]
  by (simp add: sample_translate_def)

text \<open>
  C37.  Saving the Unicode tables and loading them again keeps the translation of every code
  point in both directions, as long as all mappings are within the 16 bits the file holds
  and no key occurs twice, which \<open>unicode_table_set\<close> keeps so.
\<close>

theorem translate_unicode_file_roundtrip:
  assumes "\<not> read_only s" "may_write s f"
    and "list_all bmp (table_unicode_input s)" "distinct (map fst (table_unicode_input s))"
    and "list_all bmp (table_unicode_output s)" "distinct (map fst (table_unicode_output s))"
  shows "translate_unicode_in (load_translate_tables_unicode f (save_translate_tables_unicode f t_in t_out s)) c = translate_unicode_in s c \<and>
    translate_unicode_out (load_translate_tables_unicode f (save_translate_tables_unicode f t_in t_out s)) c = translate_unicode_out s c"
  using load_after_save_unicode [OF assms(1,2,3,5)] assms(4,6)
  by (simp add: translate_unicode_in_def translate_unicode_out_def get_filter)

theorem translate_unicode_file_roundtrip_witness:
  "translate_unicode_in (load_translate_tables_unicode [97] (save_translate_tables_unicode [97] [] [] sample_translate)) 0x24 = 0x6F \<and>
   translate_unicode_out (load_translate_tables_unicode [97] (save_translate_tables_unicode [97] [] [] sample_translate)) 0x20AC = 0x45"
proof -
  have "translate_unicode_in sample_translate 0x24 = 0x6F" "translate_unicode_out sample_translate 0x20AC = 0x45"
    by (simp_all add: sample_translate_def translate_unicode_in_def translate_unicode_out_def)
  moreover have "\<not> read_only sample_translate" "may_write sample_translate [97]"
    "list_all bmp (table_unicode_input sample_translate)" "distinct (map fst (table_unicode_input sample_translate))"
    "list_all bmp (table_unicode_output sample_translate)" "distinct (map fst (table_unicode_output sample_translate))"
    by (simp_all add: sample_translate_def bmp_def)
  ultimately show ?thesis using translate_unicode_file_roundtrip [of sample_translate "[97]" _ _] by metis
qed

definition full_tables :: "translate \<Rightarrow> bool" where
  "full_tables s \<longleftrightarrow> length (table_8bit_input s) = 256 \<and> length (table_8bit_output s) = 256"

lemma load_line_full:
  "length (fst (snd s)) = 256 \<Longrightarrow> length (snd (snd s)) = 256 \<Longrightarrow>
   length (fst (snd (load_line parse_8bit put_8bit l s))) = 256 \<and> length (snd (snd (load_line parse_8bit put_8bit l s))) = 256"
  by (cases s) (simp add: load_line_def put_8bit_def Let_def split: option.split)

lemma load_lines_full:
  assumes "length t = 256"
  shows "length (fst (load_lines parse_8bit put_8bit ls t)) = 256 \<and> length (snd (load_lines parse_8bit put_8bit ls t)) = 256"
proof -
  have "length (fst (snd (fold (load_line parse_8bit put_8bit) ls s))) = 256 \<and> length (snd (snd (fold (load_line parse_8bit put_8bit) ls s))) = 256"
    if "length (fst (snd s)) = 256 \<and> length (snd (snd s)) = 256" for s
    using that by (induction ls arbitrary: s) (simp_all add: load_line_full)
  then show ?thesis using assms by (simp add: load_lines_def)
qed

text \<open>
  Whatever a translation file contains, both 8-bit tables have their 256 entries after
  it was loaded or created, so that every byte has a translation; and mapping a code point
  to an 8-bit codepage then always yields a byte, never an assertion failure or an abort.
\<close>

lemma translate_total:
  assumes "full_tables s"
  shows "full_tables (use_translate_table_8bit f s) \<and>
    (\<exists>b. translate_unicode_to_8bit (use_translate_table_8bit f s) c cp = Inr b)"
proof -
  have "full_tables (use_translate_table_8bit f s)"
    using assms load_lines_full [of identity_table] length_identity_table
    by (auto simp: use_translate_table_8bit_def load_translate_tables_8bit_def save_translate_tables_8bit_def reset_table_8bit_def
        full_tables_def split: option.split prod.split) (metis fst_conv snd_conv)+
  moreover have "\<exists>b. translate_unicode_to_8bit t c cp = Inr b" for t
    by (cases cp) (simp_all add: translate_unicode_to_8bit_def split: prod.split)
  ultimately show ?thesis by blast
qed

end
