(* ===== verification/Ascii_Transfer.thy ===== *)
theory Ascii_Transfer
  imports Main_Loop Transfer_Stats Translate
begin

text \<open>
  The ASCII upload and download of protocols.c: the CR and LF policies, the translation
  tables, the transfer of one buffer, start and stop, and the engine in the main loop.  The
  static variables are the fields of \<open>ascii_xfer\<close>, the translation tables in use are its field
  \<open>tables\<close>.  Showing the input on the console is not modelled.
\<close>

section \<open>Data\<close>

datatype ASCII_XFER_STATE = ASCII_XFER_STATE_OK | ASCII_XFER_STATE_ABORT

datatype ASCII_XFER_CRLF_POLICY = ASCII_XFER_CRLF_NONE | ASCII_XFER_CRLF_STRIP | ASCII_XFER_CRLF_ADD

record ascii_xfer =
  xfer_state :: ASCII_XFER_STATE
  xfer_file :: "stream option"
  xfer_filename :: "cstring option"
  xfer_sending :: bool
  upload_use_xlate_table :: bool
  download_use_xlate_table :: bool
  upload_cr_handling :: ASCII_XFER_CRLF_POLICY
  upload_lf_handling :: ASCII_XFER_CRLF_POLICY
  download_cr_handling :: ASCII_XFER_CRLF_POLICY
  download_lf_handling :: ASCII_XFER_CRLF_POLICY
  tables :: translate
  xfer_stats :: transfer_stats
  xfer_world :: os
  xfer_out :: "byte list"

record ascii_options =
  opt_upload_use_translate_table :: cstring
  opt_upload_cr_policy :: cstring
  opt_upload_lf_policy :: cstring
  opt_download_use_translate_table :: cstring
  opt_download_cr_policy :: cstring
  opt_download_lf_policy :: cstring

abbreviation (input) ascii_buffer_size :: nat where
  "ascii_buffer_size \<equiv> 4096"

section \<open>Line ends\<close>

fun crlf_loop :: "ASCII_XFER_CRLF_POLICY \<Rightarrow> ASCII_XFER_CRLF_POLICY \<Rightarrow> byte list \<Rightarrow> byte list" where
  "crlf_loop cr lf [] = []"
| "crlf_loop cr lf (b # bs) =
     (if b = C_CR \<and> cr = ASCII_XFER_CRLF_STRIP then crlf_loop cr lf bs
      else if b = C_CR \<and> cr = ASCII_XFER_CRLF_ADD then b # C_LF # crlf_loop cr lf bs
      else if b = C_LF \<and> lf = ASCII_XFER_CRLF_STRIP then crlf_loop cr lf bs
      else if b = C_LF \<and> lf = ASCII_XFER_CRLF_ADD then C_CR # b # crlf_loop cr lf bs
      else b # crlf_loop cr lf bs)"

definition ascii_transfer_crlf_handling ::
  "ASCII_XFER_CRLF_POLICY \<Rightarrow> ASCII_XFER_CRLF_POLICY \<Rightarrow> byte list \<Rightarrow> byte list" where
  "ascii_transfer_crlf_handling cr lf inp =
     (if cr = ASCII_XFER_CRLF_NONE \<and> lf = ASCII_XFER_CRLF_NONE then inp else crlf_loop cr lf inp)"

section \<open>Transfer\<close>

definition ascii_transfer_stop :: "bool \<Rightarrow> ascii_xfer \<Rightarrow> ascii_xfer" where
  "ascii_transfer_stop save_partial s =
     (let w = (case xfer_file s of
                 None \<Rightarrow> xfer_world s
               | Some f \<Rightarrow>
                   if save_partial \<or> xfer_sending s then fclose f (xfer_world s)
                   else (case xfer_filename s of
                           None \<Rightarrow> fclose f (xfer_world s)
                         | Some n \<Rightarrow> unlink n (fclose f (xfer_world s))))
      in s\<lparr>xfer_world := w, xfer_file := None, xfer_filename := None\<rparr>)"

definition ascii_stop_file_transfer :: "q_transfer_state \<Rightarrow> ascii_xfer \<Rightarrow> ascii_xfer" where
  "ascii_stop_file_transfer new_state s =
     (let s1 = ascii_transfer_stop True s
      in s1\<lparr>xfer_stats := (xfer_stats s1)\<lparr>t_state := new_state, t_end_time := now (xfer_world s1)\<rparr>\<rparr>)"

definition ascii_send :: "nat \<Rightarrow> ascii_xfer \<Rightarrow> ascii_xfer run" where
  "ascii_send output_max s =
     (if (of_nat output_max - of_nat (length (xfer_out s)) :: u32) < 4096 then Inr s
      else (case xfer_file s of
        None \<Rightarrow> Inl Null_stream
      | Some f \<Rightarrow>
          check (output_max div 2 - 1 \<le> 2 * ascii_buffer_size) Buffer_overflow
            (let (got, f') = fread (xfer_world s) (output_max div 2 - 1) f;
                 out = ascii_transfer_crlf_handling (upload_cr_handling s) (upload_lf_handling s) got
             in check (length out \<le> output_max) Buffer_overflow
               (let t = xfer_stats s;
                    s1 = s\<lparr>xfer_file := Some f',
                           xfer_stats := t\<lparr>t_bytes_transfer := t_bytes_transfer t + of_nat (length out)\<rparr>,
                           xfer_out := (if upload_use_xlate_table s then map (translate_8bit_out (tables s)) out else out)\<rparr>
                in Inr (if s_err f'
                        then (ascii_stop_file_transfer Q_TRANSFER_STATE_ABORT s1)\<lparr>xfer_state := ASCII_XFER_STATE_ABORT\<rparr>
                        else if s_eof f'
                        then (ascii_stop_file_transfer Q_TRANSFER_STATE_END s1)\<lparr>xfer_state := ASCII_XFER_STATE_ABORT\<rparr>
                        else s1)))))"

definition ascii_receive :: "byte list \<Rightarrow> ascii_xfer \<Rightarrow> ascii_xfer run" where
  "ascii_receive inp s =
     (let inp1 = (if download_use_xlate_table s then map (translate_8bit_in (tables s)) inp else inp);
          work = ascii_transfer_crlf_handling (download_cr_handling s) (download_lf_handling s) inp1
      in check (length work \<le> 2 * ascii_buffer_size) Buffer_overflow
        (case xfer_file s of
           None \<Rightarrow> Inl Null_stream
         | Some f \<Rightarrow>
             let (rc, f') = fwrite (xfer_world s) work f;
                 s1 = s\<lparr>xfer_file := Some f'\<rparr>
             in Inr (if s_err f' \<or> rc < length work
                     then (ascii_stop_file_transfer Q_TRANSFER_STATE_ABORT s1)\<lparr>xfer_state := ASCII_XFER_STATE_ABORT\<rparr>
                     else s1)))"

definition ascii_transfer :: "byte list \<Rightarrow> nat \<Rightarrow> ascii_xfer \<Rightarrow> ascii_xfer run" where
  "ascii_transfer inp output_max s =
     check (1 \<le> output_max) Assert_failed
       (if xfer_state s = ASCII_XFER_STATE_ABORT then Inr s
        else if xfer_sending s then ascii_send output_max s
        else ascii_receive inp s)"

section \<open>Start\<close>

definition word_true :: cstring where "word_true = [116, 114, 117, 101]"
definition word_strip :: cstring where "word_strip = [115, 116, 114, 105, 112]"
definition word_add :: cstring where "word_add = [97, 100, 100]"

definition pull_policy :: "cstring \<Rightarrow> ASCII_XFER_CRLF_POLICY \<Rightarrow> ASCII_XFER_CRLF_POLICY" where
  "pull_policy opt old =
     (let p = (if strcasecmp_eq opt word_strip then ASCII_XFER_CRLF_STRIP else old)
      in if strcasecmp_eq opt word_add then ASCII_XFER_CRLF_ADD else p)"

definition pull_options :: "ascii_options \<Rightarrow> ascii_xfer \<Rightarrow> ascii_xfer" where
  "pull_options opt s =
     s\<lparr>upload_use_xlate_table := upload_use_xlate_table s \<or> strcasecmp_eq (opt_upload_use_translate_table opt) word_true,
       upload_cr_handling := pull_policy (opt_upload_cr_policy opt) (upload_cr_handling s),
       upload_lf_handling := pull_policy (opt_upload_lf_policy opt) (upload_lf_handling s),
       download_use_xlate_table := download_use_xlate_table s \<or> strcasecmp_eq (opt_download_use_translate_table opt) word_true,
       download_cr_handling := pull_policy (opt_download_cr_policy opt) (download_cr_handling s),
       download_lf_handling := pull_policy (opt_download_lf_policy opt) (download_lf_handling s)\<rparr>"

definition ascii_open :: "cstring \<Rightarrow> bool \<Rightarrow> ascii_xfer \<Rightarrow> bool \<times> ascii_xfer" where
  "ascii_open name send s =
     (if send then
        (case stat_size (xfer_world s) name of
           None \<Rightarrow> (False, s)
         | Some sz \<Rightarrow>
             (case fopen_rb (xfer_world s) name of
                None \<Rightarrow> (False, s\<lparr>xfer_file := None\<rparr>)
              | Some f \<Rightarrow>
                  let b = of_nat sz div 128
                  in (True, s\<lparr>xfer_file := Some f,
                              xfer_stats := (xfer_stats s)\<lparr>t_bytes_total := of_nat sz, t_block_size := 128,
                                t_blocks := (if 0 < b mod 128 then b + 1 else b)\<rparr>\<rparr>)))
      else (case fopen_wb (xfer_world s) name of
              None \<Rightarrow> (False, s\<lparr>xfer_file := None\<rparr>)
            | Some (f, w) \<Rightarrow> (True, s\<lparr>xfer_file := Some f, xfer_world := w\<rparr>)))"

definition ascii_transfer_start :: "ascii_options \<Rightarrow> cstring \<Rightarrow> bool \<Rightarrow> ascii_xfer \<Rightarrow> bool \<times> ascii_xfer" where
  "ascii_transfer_start opt name send s =
     (let (ok, s1) = ascii_open name send (pull_options opt (s\<lparr>xfer_state := ASCII_XFER_STATE_ABORT\<rparr>))
      in if ok then (True, s1\<lparr>xfer_filename := Some name, xfer_sending := send, xfer_state := ASCII_XFER_STATE_OK\<rparr>)
         else (False, s1))"

section \<open>Facts on line ends\<close>

lemma crlf_loop_append: "crlf_loop cr lf (xs @ ys) = crlf_loop cr lf xs @ crlf_loop cr lf ys"
  by (induction xs) auto

lemma crlf_handling_append:
  "ascii_transfer_crlf_handling cr lf (xs @ ys) =
   ascii_transfer_crlf_handling cr lf xs @ ascii_transfer_crlf_handling cr lf ys"
  by (simp add: ascii_transfer_crlf_handling_def crlf_loop_append)

lemma length_crlf_loop: "length (crlf_loop cr lf xs) \<le> 2 * length xs"
  by (induction xs) auto

lemma length_crlf_handling: "length (ascii_transfer_crlf_handling cr lf xs) \<le> 2 * length xs"
  by (simp add: ascii_transfer_crlf_handling_def length_crlf_loop)

text \<open>
  What the policies promise, byte by byte: a CR or a LF is left alone, dropped, or made
  a CR followed by a LF.
\<close>

definition line_end :: "ASCII_XFER_CRLF_POLICY \<Rightarrow> ASCII_XFER_CRLF_POLICY \<Rightarrow> byte \<Rightarrow> byte list" where
  "line_end cr lf b =
     (case (if b = 0x0D then cr else if b = 0x0A then lf else ASCII_XFER_CRLF_NONE) of
        ASCII_XFER_CRLF_NONE \<Rightarrow> [b] | ASCII_XFER_CRLF_STRIP \<Rightarrow> [] | ASCII_XFER_CRLF_ADD \<Rightarrow> [0x0D, 0x0A])"

lemma crlf_handling_line_ends: "ascii_transfer_crlf_handling cr lf d = concat (map (line_end cr lf) d)"
proof -
  have "crlf_loop cr lf d = concat (map (line_end cr lf) d)"
    by (induction d) (auto simp: line_end_def C_CR_def C_LF_def split: ASCII_XFER_CRLF_POLICY.split)
  moreover have "concat (map (line_end ASCII_XFER_CRLF_NONE ASCII_XFER_CRLF_NONE) d) = d"
    by (induction d) (simp_all add: line_end_def)
  ultimately show ?thesis by (auto simp: ascii_transfer_crlf_handling_def)
qed

section \<open>The engine in the main loop\<close>

text \<open>
  \<open>protocol_process_data\<close> for this protocol: the input goes to the console, which
  consumes it, unless the call returned before that.  The main loop translates what the
  engine wrote, which the engine itself may have translated before.
\<close>

definition ascii_process :: "byte list \<Rightarrow> ascii_xfer \<Rightarrow> (byte list \<times> ascii_xfer) run" where
  "ascii_process inp s =
     (if transfer_over (xfer_stats s) \<or> xfer_state s = ASCII_XFER_STATE_ABORT \<or>
         xfer_sending s \<and> (of_nat Q_BUFFER_SIZE - of_nat (length (xfer_out s)) :: u32) < 4096
      then Inr (inp, s)
      else andthen (ascii_transfer inp Q_BUFFER_SIZE s) (\<lambda>s'.
        Inr (if t_state (xfer_stats s') \<noteq> Q_TRANSFER_STATE_ABORT then []
             else if \<not> xfer_sending s \<and> download_use_xlate_table s then map (translate_8bit_in (tables s)) inp
             else inp, s')))"

definition put_xfer_out :: "byte list \<Rightarrow> ascii_xfer \<Rightarrow> ascii_xfer" where
  "put_xfer_out bs s = s\<lparr>xfer_out := bs\<rparr>"

interpretation ascii_engine: transfer_engine ascii_process xfer_out put_xfer_out
  by unfold_locales (simp_all add: put_xfer_out_def)

definition ascii_round :: "byte list \<Rightarrow> nat \<Rightarrow> ascii_xfer program \<Rightarrow> (byte list \<times> ascii_xfer program) run" where
  "ascii_round bs k p =
     process_incoming_data ascii_process xfer_out put_xfer_out (translate_8bit_out (tables (engine p))) bs k p"

text \<open>Rounds, each with what is read and how many bytes the connection takes, and all they write.\<close>

fun ascii_rounds :: "(byte list \<times> nat) list \<Rightarrow> ascii_xfer program \<Rightarrow> (byte list \<times> ascii_xfer program) run" where
  "ascii_rounds [] p = Inr ([], p)"
| "ascii_rounds ((bs, k) # rs) p =
     andthen (ascii_round bs k p) (\<lambda>(w, p1). andthen (ascii_rounds rs p1) (\<lambda>(ws, p2). Inr (w @ ws, p2)))"

section \<open>An upload\<close>

text \<open>A file on the wire: with its line ends changed, and translated once or twice.\<close>

definition on_wire :: "ascii_xfer \<Rightarrow> byte list \<Rightarrow> byte list" where
  "on_wire s d =
     (let t = translate_8bit_out (tables s);
          text = concat (map (line_end (upload_cr_handling s) (upload_lf_handling s)) d)
      in if upload_use_xlate_table s then map (\<lambda>b. t (t b)) text else map t text)"

lemma on_wire_append: "on_wire s (xs @ ys) = on_wire s xs @ on_wire s ys"
  by (simp add: on_wire_def Let_def)

lemma on_wire_Nil [simp]: "on_wire s [] = []"
  by (simp add: on_wire_def Let_def)

definition same_options :: "ascii_xfer \<Rightarrow> ascii_xfer \<Rightarrow> bool" where
  "same_options s s' \<longleftrightarrow> upload_cr_handling s' = upload_cr_handling s \<and> upload_lf_handling s' = upload_lf_handling s \<and>
     upload_use_xlate_table s' = upload_use_xlate_table s \<and> tables s' = tables s"

lemma same_options_out [simp]: "same_options s (put_xfer_out bs s') = same_options s s'"
  by (simp add: same_options_def put_xfer_out_def)

lemma put_xfer_out_fields [simp]:
  "xfer_stats (put_xfer_out bs s) = xfer_stats s" "xfer_state (put_xfer_out bs s) = xfer_state s"
  "xfer_sending (put_xfer_out bs s) = xfer_sending s" "xfer_file (put_xfer_out bs s) = xfer_file s"
  "xfer_world (put_xfer_out bs s) = xfer_world s" "xfer_out (put_xfer_out bs s) = bs"
  by (simp_all add: put_xfer_out_def)

lemma on_wire_cong: "same_options s s' \<Longrightarrow> on_wire s' = on_wire s"
  by (rule ext) (simp add: on_wire_def same_options_def Let_def)

text \<open>The engine after it has read the last bytes of the file (\<open>fin\<close>) or others.\<close>

definition chunk_sent :: "ascii_xfer \<Rightarrow> stream \<Rightarrow> transfer_stats \<Rightarrow> byte list \<Rightarrow> bool \<Rightarrow> ascii_xfer" where
  "chunk_sent s f t out fin =
     (let s1 = s\<lparr>xfer_file := Some f, xfer_stats := t, xfer_out := out\<rparr>
      in if fin then (ascii_stop_file_transfer Q_TRANSFER_STATE_END s1)\<lparr>xfer_state := ASCII_XFER_STATE_ABORT\<rparr> else s1)"

lemma chunk_sent_fields [simp]:
  "xfer_out (chunk_sent s f t out fin) = out" "xfer_sending (chunk_sent s f t out fin) = xfer_sending s"
  "same_options s' (chunk_sent s f t out fin) = same_options s' s"
  "t_state (xfer_stats (chunk_sent s f t out fin)) = (if fin then Q_TRANSFER_STATE_END else t_state t)"
  "xfer_state (chunk_sent s f t out False) = xfer_state s" "xfer_file (chunk_sent s f t out False) = Some f"
  "xfer_world (chunk_sent s f t out False) = xfer_world s"
  by (simp_all add: chunk_sent_def ascii_stop_file_transfer_def ascii_transfer_stop_def same_options_def Let_def)

definition chunk_output :: "ascii_xfer \<Rightarrow> byte list \<Rightarrow> byte list" where
  "chunk_output s d =
     (let c = ascii_transfer_crlf_handling (upload_cr_handling s) (upload_lf_handling s) d
      in if upload_use_xlate_table s then map (translate_8bit_out (tables s)) c else c)"

lemma length_chunk_output: "length (chunk_output s d) \<le> 2 * length d"
  using length_crlf_handling by (simp add: chunk_output_def Let_def)

lemma chunk_output_wire: "map (translate_8bit_out (tables s)) (chunk_output s d) = on_wire s d"
  by (simp add: chunk_output_def on_wire_def crlf_handling_line_ends o_def Let_def)

lemma ascii_send_step:
  assumes "xfer_state s = ASCII_XFER_STATE_OK" "xfer_sending s" "xfer_file s = Some f" "healthy (xfer_world s) f"
    "xfer_out s = []"
  shows "\<exists>t. t_state t = t_state (xfer_stats s) \<and> (\<forall>inp. ascii_transfer inp Q_BUFFER_SIZE s =
     Inr (chunk_sent s (snd (fread (xfer_world s) 2047 f)) t (chunk_output s (take 2047 (unread f))) (length (unread f) < 2047)))"
proof -
  define f' where "f' = snd (fread (xfer_world s) 2047 f)"
  let ?got = "take 2047 (unread f)"
  let ?c = "ascii_transfer_crlf_handling (upload_cr_handling s) (upload_lf_handling s) ?got"
  have fr: "fread (xfer_world s) 2047 f = (?got, f')" "\<not> s_err f'" "s_eof f' = (length (unread f) < 2047)"
    using fread_healthy [OF assms(4), of 2047] by (auto simp: unread_def f'_def)
  have "length ?c \<le> 4096" by (rule order.trans [OF length_crlf_handling]) simp
  then show ?thesis using assms(1-3,5) fr unfolding f'_def [symmetric]
    by (intro exI [of _ "(xfer_stats s)\<lparr>t_bytes_transfer := t_bytes_transfer (xfer_stats s) + of_nat (length ?c)\<rparr>"])
      (simp add: ascii_transfer_def ascii_send_def chunk_sent_def chunk_output_def Let_def)
qed

text \<open>
  The upload between two rounds: \<open>d\<close> is the rest of the file; \<open>to_do\<close> counts the rounds
  that take everything which are still needed.
\<close>

definition uploading :: "ascii_xfer \<Rightarrow> byte list \<Rightarrow> ascii_xfer program \<Rightarrow> bool" where
  "uploading s d p \<longleftrightarrow> same_options s (engine p) \<and> length (xfer_out (engine p)) \<le> Q_BUFFER_SIZE \<and>
     (if t_state (xfer_stats (engine p)) = Q_TRANSFER_STATE_END then d = []
      else \<not> transfer_over (xfer_stats (engine p)) \<and> xfer_state (engine p) = ASCII_XFER_STATE_OK \<and> xfer_sending (engine p) \<and>
        (\<exists>f. xfer_file (engine p) = Some f \<and> healthy (xfer_world (engine p)) f \<and> unread f = d))"

definition to_do :: "byte list \<Rightarrow> ascii_xfer program \<Rightarrow> nat" where
  "to_do d p = (if t_state (xfer_stats (engine p)) = Q_TRANSFER_STATE_END then 0 else Suc (length d div 2047)) +
     (if xfer_out (engine p) = [] then 0 else 1)"

lemma ascii_waits:
  assumes "xfer_out s \<noteq> []" "length (xfer_out s) \<le> Q_BUFFER_SIZE" "xfer_sending s \<or> t_state (xfer_stats s) = Q_TRANSFER_STATE_END"
  shows "ascii_process inp s = Inr (inp, s)"
proof -
  obtain m where m: "Q_BUFFER_SIZE = length (xfer_out s) + m" using assms(2) le_Suc_ex by blast
  have "(of_nat Q_BUFFER_SIZE - of_nat (length (xfer_out s)) :: u32) = of_nat m" unfolding m by simp
  moreover have "unat (of_nat m :: u32) = m" using m by (simp add: unat_of_nat take_bit_nat_eq_self)
  moreover have "m < 4096" using m assms(1) by (cases "xfer_out s") auto
  ultimately have "(of_nat Q_BUFFER_SIZE - of_nat (length (xfer_out s)) :: u32) < 4096"
    by (simp only: word_less_nat_alt) simp
  then show ?thesis using assms(3) by (auto simp: ascii_process_def transfer_over_def)
qed

lemma round_writes:
  assumes "main_loop ascii_process xfer_out put_xfer_out (translate_8bit_out (tables (engine p)))
      (read_input bs (q_buffer_raw p)) (engine p) = Inr (rest, s)"
  shows "ascii_round bs k p = Inr (take k (xfer_out s), \<lparr>q_buffer_raw = rest, engine = put_xfer_out (drop k (xfer_out s)) s\<rparr>)"
  using assms by (simp add: ascii_round_def process_incoming_data_def)

text \<open>A round with something left to be written, or after the end, only writes.\<close>

lemma round_pending:
  assumes "uploading s d p" "xfer_out (engine p) \<noteq> [] \<or> t_state (xfer_stats (engine p)) = Q_TRANSFER_STATE_END"
  shows "\<exists>p'. ascii_round bs k p = Inr (take k (xfer_out (engine p)), p') \<and>
    engine p' = put_xfer_out (drop k (xfer_out (engine p))) (engine p)"
proof -
  have "ascii_process inp (engine p) = Inr (inp, engine p)" for inp
  proof (cases "t_state (xfer_stats (engine p)) = Q_TRANSFER_STATE_END")
    case True
    then show ?thesis by (simp add: ascii_process_def transfer_over_def)
  next
    case False
    then show ?thesis using assms by (intro ascii_waits) (auto simp: uploading_def)
  qed
  then show ?thesis using round_writes [OF ascii_engine.loop_stays] by simp
qed

text \<open>A round that starts with an empty output buffer sends the next 2047 bytes of the file.\<close>

lemma round_sends:
  assumes up: "uploading s d p" and out: "xfer_out (engine p) = []" and run: "t_state (xfer_stats (engine p)) \<noteq> Q_TRANSFER_STATE_END"
  shows "\<exists>p' e. ascii_round bs k p = Inr (take k (on_wire s (take 2047 d)), p') \<and>
    engine p' = put_xfer_out (drop k (on_wire s (take 2047 d))) e \<and>
    length (on_wire s (take 2047 d)) \<le> Q_BUFFER_SIZE \<and> uploading s (drop 2047 d) \<lparr>q_buffer_raw = [], engine = put_xfer_out [] e\<rparr> \<and>
    (t_state (xfer_stats e) = Q_TRANSFER_STATE_END \<longleftrightarrow> length d < 2047)"
proof -
  let ?s = "engine p"
  let ?t = "translate_8bit_out (tables ?s)"
  obtain f where f: "xfer_file ?s = Some f" "healthy (xfer_world ?s) f" "unread f = d"
    and ok: "xfer_state ?s = ASCII_XFER_STATE_OK" "xfer_sending ?s" "\<not> transfer_over (xfer_stats ?s)" "same_options s ?s"
    using up run by (auto simp: uploading_def)
  let ?f = "snd (fread (xfer_world ?s) 2047 f)" and ?o = "chunk_output ?s (take 2047 d)"
  obtain st where st: "t_state st = t_state (xfer_stats ?s)"
    "\<And>inp. ascii_transfer inp Q_BUFFER_SIZE ?s = Inr (chunk_sent ?s ?f st ?o (length d < 2047))"
    using ascii_send_step [OF ok(1,2) f(1,2) out] f(3) by auto
  let ?e = "chunk_sent ?s ?f st ?o (length d < 2047)"
  have "t_state (xfer_stats ?e) \<noteq> Q_TRANSFER_STATE_ABORT" using st(1) ok(3) by (auto simp: transfer_over_def)
  then have call: "ascii_process inp ?s = Inr ([], ?e)" for inp
    using ok out st(2) by (simp add: ascii_process_def)
  have wire: "map ?t ?o = on_wire s (take 2047 d)"
    using chunk_output_wire [of ?s] on_wire_cong [OF ok(4)] by simp
  have len: "length ?o \<le> Q_BUFFER_SIZE" by (rule order.trans [OF length_chunk_output]) simp
  have idle: "ascii_process [] (put_xfer_out (map ?t ?o) ?e) = Inr ([], put_xfer_out (map ?t ?o) ?e)" if "?o \<noteq> []"
    using that len ok(2) by (intro ascii_waits) auto
  have loop: "main_loop ascii_process xfer_out put_xfer_out ?t inp ?s = Inr ([], put_xfer_out (map ?t ?o) ?e)" for inp
  proof (cases "?o = []")
    case True
    then have "put_xfer_out (map ?t ?o) ?e = ?e" using ascii_engine.put_out [of ?e] by simp
    then show ?thesis using ascii_engine.loop_stays [OF call] out True by simp
  next
    case False
    then show ?thesis using ascii_engine.loop_twice [OF call out, of ?t "[]"] idle by simp
  qed
  have "\<not> length d < 2047 \<Longrightarrow> healthy (xfer_world ?s) ?f \<and> unread ?f = drop 2047 d"
    using f healthy_file.read_ok healthy_file.read_rest by (metis not_less)
  then have "uploading s (drop 2047 d) \<lparr>q_buffer_raw = [], engine = put_xfer_out [] ?e\<rparr>"
    using ok run st(1) by (cases "length d < 2047") (auto simp: uploading_def transfer_over_def)
  moreover have "length (on_wire s (take 2047 d)) \<le> Q_BUFFER_SIZE" using len unfolding wire [symmetric] by simp
  moreover have "t_state (xfer_stats ?e) = Q_TRANSFER_STATE_END \<longleftrightarrow> length d < 2047" using st(1) run by simp
  moreover have "ascii_round bs k p = Inr (take k (on_wire s (take 2047 d)),
      \<lparr>q_buffer_raw = [], engine = put_xfer_out (drop k (on_wire s (take 2047 d))) ?e\<rparr>)"
    using round_writes [OF loop, of bs k] by (simp add: wire ascii_engine.out_put ascii_engine.put_put)
  ultimately show ?thesis
    by (intro exI [of _ "\<lparr>q_buffer_raw = [], engine = put_xfer_out (drop k (on_wire s (take 2047 d))) ?e\<rparr>"] exI [of _ ?e]) simp
qed

lemma round_uploads:
  assumes up: "uploading s d p"
  shows "\<exists>w p' d'. ascii_round bs k p = Inr (w, p') \<and> uploading s d' p' \<and>
    w @ xfer_out (engine p') @ on_wire s d' = xfer_out (engine p) @ on_wire s d \<and>
    to_do d' p' \<le> to_do d p - (if Q_BUFFER_SIZE \<le> k then 1 else 0)"
proof (cases "xfer_out (engine p) \<noteq> [] \<or> t_state (xfer_stats (engine p)) = Q_TRANSFER_STATE_END")
  case True
  obtain p' where p': "ascii_round bs k p = Inr (take k (xfer_out (engine p)), p')"
    "engine p' = put_xfer_out (drop k (xfer_out (engine p))) (engine p)"
    using round_pending [OF up True] by blast
  then have "uploading s d p'" "xfer_out (engine p') = drop k (xfer_out (engine p))"
    "t_state (xfer_stats (engine p')) = t_state (xfer_stats (engine p))"
    using up by (auto simp: uploading_def)
  moreover have "length (xfer_out (engine p)) \<le> Q_BUFFER_SIZE" using up by (simp add: uploading_def)
  ultimately show ?thesis using p' True
    by (intro exI [of _ "take k (xfer_out (engine p))"] exI [of _ p'] exI [of _ d]) (auto simp: to_do_def)
next
  case False
  then obtain p' e where p': "ascii_round bs k p = Inr (take k (on_wire s (take 2047 d)), p')"
    "engine p' = put_xfer_out (drop k (on_wire s (take 2047 d))) e" "length (on_wire s (take 2047 d)) \<le> Q_BUFFER_SIZE"
    "uploading s (drop 2047 d) \<lparr>q_buffer_raw = [], engine = put_xfer_out [] e\<rparr>"
    "t_state (xfer_stats e) = Q_TRANSFER_STATE_END \<longleftrightarrow> length d < 2047"
    using round_sends [OF up, of bs k] by blast
  have "uploading s (drop 2047 d) p'" using p'(2-4) by (auto simp: uploading_def)
  moreover have "to_do (drop 2047 d) p' \<le> to_do d p - (if Q_BUFFER_SIZE \<le> k then 1 else 0)"
    using False p'(2,3,5) by (auto simp: to_do_def div_if [of "length d"])
  moreover have "take k w @ drop k w @ on_wire s (drop 2047 d) = on_wire s d" if "w = on_wire s (take 2047 d)" for w
    using that on_wire_append [of s "take 2047 d" "drop 2047 d"] by (simp flip: append_assoc)
  ultimately show ?thesis using p'(1,2) False by auto
qed

definition full_rounds :: "(byte list \<times> nat) list \<Rightarrow> nat" where
  "full_rounds rs = length (filter (\<lambda>(bs, k). Q_BUFFER_SIZE \<le> k) rs)"

lemma rounds_upload:
  "uploading s d p \<Longrightarrow> \<exists>w p' d'. ascii_rounds rs p = Inr (w, p') \<and> uploading s d' p' \<and>
    w @ xfer_out (engine p') @ on_wire s d' = xfer_out (engine p) @ on_wire s d \<and> to_do d' p' \<le> to_do d p - full_rounds rs"
proof (induction rs arbitrary: d p)
  case (Cons r rs)
  obtain bs k where r: "r = (bs, k)" by fastforce
  obtain w p1 d1 where 1: "ascii_round bs k p = Inr (w, p1)" "uploading s d1 p1"
    "w @ xfer_out (engine p1) @ on_wire s d1 = xfer_out (engine p) @ on_wire s d"
    "to_do d1 p1 \<le> to_do d p - (if Q_BUFFER_SIZE \<le> k then 1 else 0)"
    using round_uploads [OF Cons.prems] by blast
  obtain w' p2 d2 where 2: "ascii_rounds rs p1 = Inr (w', p2)" "uploading s d2 p2"
    "w' @ xfer_out (engine p2) @ on_wire s d2 = xfer_out (engine p1) @ on_wire s d1" "to_do d2 p2 \<le> to_do d1 p1 - full_rounds rs"
    using Cons.IH [OF 1(2)] by blast
  have "to_do d2 p2 \<le> to_do d p - full_rounds (r # rs)" using 1(4) 2(4) by (auto simp: full_rounds_def r split: if_splits)
  then show ?case using 1 2 by (auto simp: r)
qed (auto simp: full_rounds_def)

section \<open>Properties\<close>

definition sample_ascii :: "byte list \<Rightarrow> bool \<Rightarrow> ascii_xfer" where
  "sample_ascii d send =
     \<lparr>xfer_state = ASCII_XFER_STATE_OK,
      xfer_file = Some \<lparr>s_path = [97], s_data = d, s_pos = (if send then 0 else length d), s_eof = False, s_err = False,
                        s_write = \<not> send\<rparr>,
      xfer_filename = Some [97], xfer_sending = send, upload_use_xlate_table = True, download_use_xlate_table = True,
      upload_cr_handling = ASCII_XFER_CRLF_STRIP, upload_lf_handling = ASCII_XFER_CRLF_ADD,
      download_cr_handling = ASCII_XFER_CRLF_ADD, download_lf_handling = ASCII_XFER_CRLF_STRIP,
      tables = sample_translate, xfer_stats = initial_stats,
      xfer_world = \<lparr>now = 0, files = Map.empty, may_open = (\<lambda>_. True), bad_at = (\<lambda>_. None), space = 10000, uninit = 0, stat_denied = (\<lambda>_. False), entropy = 0\<rparr>,
      xfer_out = []\<rparr>"

text \<open>
  C40.  An ASCII upload of a readable file under any connection: whatever is read and
  however many bytes each round of the main loop gets rid of, what has been written and
  what is still in the output buffer is the beginning of the file with its line ends
  changed as the policies say, every byte translated by the main loop, and by the upload
  before that when it uses the table (so that the table is applied twice).  Once the
  connection has taken everything in one more round than the file has buffers of 2047
  bytes, all of it is written and the transfer has ended.
\<close>

theorem ascii_upload_sends_file:
  assumes "xfer_state s = ASCII_XFER_STATE_OK" "xfer_sending s" "xfer_file s = Some f" "healthy (xfer_world s) f"
    and "\<not> transfer_over (xfer_stats s)" "xfer_out s = []"
  shows "\<exists>w p rest. ascii_rounds rs \<lparr>q_buffer_raw = buf, engine = s\<rparr> = Inr (w, p) \<and>
     w @ xfer_out (engine p) @ rest = on_wire s (unread f) \<and>
     (length (unread f) div 2047 < full_rounds rs \<longrightarrow>
        w = on_wire s (unread f) \<and> t_state (xfer_stats (engine p)) = Q_TRANSFER_STATE_END)"
proof -
  let ?p = "\<lparr>q_buffer_raw = buf, engine = s\<rparr>"
  have "uploading s (unread f) ?p" using assms by (auto simp: uploading_def same_options_def transfer_over_def)
  from rounds_upload [OF this, of rs] obtain w p d where p: "ascii_rounds rs ?p = Inr (w, p)" "uploading s d p"
    "w @ xfer_out (engine p) @ on_wire s d = on_wire s (unread f)" "to_do d p \<le> to_do (unread f) ?p - full_rounds rs"
    using assms(6) by auto
  have "t_state (xfer_stats (engine p)) = Q_TRANSFER_STATE_END \<and> xfer_out (engine p) = []" if "length (unread f) div 2047 < full_rounds rs"
    using p(4) that assms(5,6) by (auto simp: to_do_def transfer_over_def split: if_splits)
  moreover from this have "d = []" if "length (unread f) div 2047 < full_rounds rs" using p(2) that by (simp add: uploading_def)
  ultimately show ?thesis using p(1,3) by (intro exI [of _ w] exI [of _ p] exI [of _ "on_wire s d"]) auto
qed

theorem ascii_upload_sends_file_witness:
  "\<exists>w p. ascii_rounds [([65], 1), ([], 5000)] \<lparr>q_buffer_raw = [], engine = sample_ascii [13, 10] True\<rparr> = Inr (w, p) \<and>
     w = on_wire (sample_ascii [13, 10] True) [13, 10] \<and> t_state (xfer_stats (engine p)) = Q_TRANSFER_STATE_END"
  using ascii_upload_sends_file [of "sample_ascii [13, 10] True" "\<lparr>s_path = [97], s_data = [13, 10], s_pos = 0, s_eof = False,
      s_err = False, s_write = False\<rparr>" "[([65], 1), ([], 5000)]" "[]"]
  by (auto simp: sample_ascii_def healthy_def unread_def transfer_over_def initial_stats_def full_rounds_def)

text \<open>
  The table is applied twice: a byte that it maps to another one that it maps again does not
  arrive as its image.
\<close>

lemma ascii_upload_translates_twice:
  "on_wire ((sample_ascii d True)\<lparr>upload_lf_handling := ASCII_XFER_CRLF_NONE,
     tables := sample_translate\<lparr>table_8bit_output := identity_table[65 := 66, 66 := 67]\<rparr>\<rparr>) [65] = [67]"
  by (simp add: on_wire_def line_end_def sample_ascii_def translate_8bit_out_def sample_translate_def identity_table_def)

text \<open>
  One buffer of an ASCII download, of at most the 4096 bytes the main loop reads at
  once, never overruns the working buffer; with room on the disk it appends exactly the
  translated input with its line ends changed as the policies say.
\<close>

lemma ascii_download_appends:
  assumes "xfer_state s = ASCII_XFER_STATE_OK" "\<not> xfer_sending s" "length inp \<le> 4096"
    and "xfer_file s = Some f" "\<not> s_err f" "s_pos f = length (s_data f)"
    and "length (s_data f) + 2 * length inp \<le> space (xfer_world s)"
  shows "\<exists>f'. ascii_transfer inp 4096 s = Inr (s\<lparr>xfer_file := Some f'\<rparr>) \<and>
     s_data f' = s_data f @ ascii_transfer_crlf_handling (download_cr_handling s) (download_lf_handling s)
       (if download_use_xlate_table s then map (translate_8bit_in (tables s)) inp else inp)"
proof -
  let ?inp = "if download_use_xlate_table s then map (translate_8bit_in (tables s)) inp else inp"
  let ?w = "ascii_transfer_crlf_handling (download_cr_handling s) (download_lf_handling s) ?inp"
  have w: "length ?w \<le> 2 * length inp" by (rule order.trans [OF length_crlf_handling]) simp
  moreover have "fwrite (xfer_world s) ?w f = (length ?w, f\<lparr>s_data := s_data f @ ?w, s_pos := s_pos f + length ?w\<rparr>)"
    using assms(6,7) w by (intro fwrite_append) simp_all
  ultimately show ?thesis using assms(1-5)
    by (intro exI [of _ "f\<lparr>s_data := s_data f @ ?w, s_pos := s_pos f + length ?w\<rparr>"])
      (simp add: ascii_transfer_def ascii_receive_def Let_def)
qed

text \<open>
  \<open>ascii_transfer_start\<close> never goes back to leaving line ends alone: an option that is
  neither "strip" nor "add" leaves the policy of the previous transfer in force.
\<close>

lemma ascii_policy_sticks:
  assumes "\<not> strcasecmp_eq (opt_upload_cr_policy opt) word_strip" "\<not> strcasecmp_eq (opt_upload_cr_policy opt) word_add"
  shows "upload_cr_handling (snd (ascii_transfer_start opt name send s)) = upload_cr_handling s"
  using assms
  by (simp add: ascii_transfer_start_def ascii_open_def pull_options_def pull_policy_def Let_def
      split: option.split prod.split)

end
