(* ===== verification/Utf8.thy ===== *)
theory Utf8
  imports Qodem_Prelude
begin

text \<open>
  The UTF-8 encoder and the table driven decoder of codepage.c, the loop bodies that call
  the decoder, and the proof that the decoder accepts exactly the well-formed encodings.
\<close>

section \<open>Encoder and decoder\<close>

text \<open>A \<open>wchar_t\<close> is a signed 32-bit integer, hence the signed comparisons.\<close>

definition utf8_encode :: "u32 \<Rightarrow> byte list" where
  "utf8_encode ch =
     (if sint ch \<le> 0x7F then [ucast ch]
      else if sint ch \<le> 0x7FF then
        [ucast (0xC0 OR (drop_bit 6 ch AND 0x1F)),
         ucast (0x80 OR (ch AND 0x3F))]
      else if sint ch \<le> 0xFFFF then
        [ucast (0xE0 OR (drop_bit 12 ch AND 0x0F)),
         ucast (0x80 OR (drop_bit 6 ch AND 0x3F)),
         ucast (0x80 OR (ch AND 0x3F))]
      else if sint ch \<le> 0x10FFFF then
        [ucast (0xF0 OR (drop_bit 18 ch AND 0x07)),
         ucast (0x80 OR (drop_bit 12 ch AND 0x3F)),
         ucast (0x80 OR (drop_bit 6 ch AND 0x3F)),
         ucast (0x80 OR (ch AND 0x3F))]
      else [])"

definition UTF8_ACCEPT :: u32 where "UTF8_ACCEPT = 0"
definition UTF8_REJECT :: u32 where "UTF8_REJECT = 1"

definition utf8d :: "nat list" where
  "utf8d =
    [0, 0, 0, 0, 0, 0, 0, 0, 0, 0, 0, 0, 0, 0, 0, 0, 0, 0, 0, 0, 0, 0, 0, 0, 0, 0, 0, 0, 0, 0, 0, 0,
     0, 0, 0, 0, 0, 0, 0, 0, 0, 0, 0, 0, 0, 0, 0, 0, 0, 0, 0, 0, 0, 0, 0, 0, 0, 0, 0, 0, 0, 0, 0, 0,
     0, 0, 0, 0, 0, 0, 0, 0, 0, 0, 0, 0, 0, 0, 0, 0, 0, 0, 0, 0, 0, 0, 0, 0, 0, 0, 0, 0, 0, 0, 0, 0,
     0, 0, 0, 0, 0, 0, 0, 0, 0, 0, 0, 0, 0, 0, 0, 0, 0, 0, 0, 0, 0, 0, 0, 0, 0, 0, 0, 0, 0, 0, 0, 0,
     1, 1, 1, 1, 1, 1, 1, 1, 1, 1, 1, 1, 1, 1, 1, 1, 9, 9, 9, 9, 9, 9, 9, 9, 9, 9, 9, 9, 9, 9, 9, 9,
     7, 7, 7, 7, 7, 7, 7, 7, 7, 7, 7, 7, 7, 7, 7, 7, 7, 7, 7, 7, 7, 7, 7, 7, 7, 7, 7, 7, 7, 7, 7, 7,
     8, 8, 2, 2, 2, 2, 2, 2, 2, 2, 2, 2, 2, 2, 2, 2, 2, 2, 2, 2, 2, 2, 2, 2, 2, 2, 2, 2, 2, 2, 2, 2,
     10, 3, 3, 3, 3, 3, 3, 3, 3, 3, 3, 3, 3, 4, 3, 3,
     11, 6, 6, 6, 5, 8, 8, 8, 8, 8, 8, 8, 8, 8, 8, 8,
     0, 1, 2, 3, 5, 8, 7, 1, 1, 1, 4, 6, 1, 1, 1, 1,
     1, 1, 1, 1, 1, 1, 1, 1, 1, 1, 1, 1, 1, 1, 1, 1, 1, 0, 1, 1, 1, 1, 1, 0, 1, 0, 1, 1, 1, 1, 1, 1,
     1, 2, 1, 1, 1, 1, 1, 2, 1, 2, 1, 1, 1, 1, 1, 1, 1, 1, 1, 1, 1, 1, 1, 2, 1, 1, 1, 1, 1, 1, 1, 1,
     1, 2, 1, 1, 1, 1, 1, 1, 1, 2, 1, 1, 1, 1, 1, 1, 1, 1, 1, 1, 1, 1, 1, 3, 1, 3, 1, 1, 1, 1, 1, 1,
     1, 3, 1, 1, 1, 1, 1, 3, 1, 3, 1, 1, 1, 1, 1, 1, 1, 3, 1, 1, 1, 1, 1, 1, 1, 1, 1, 1, 1, 1, 1, 1]"

definition utf8_decode :: "u32 \<Rightarrow> u32 \<Rightarrow> u32 \<Rightarrow> (u32 \<times> u32) run" where
  "utf8_decode st codep b =
     check (unat b < length utf8d) Buffer_overflow
       (let type = utf8d ! unat b;
            codep' = (if st \<noteq> UTF8_ACCEPT then (b AND 0x3F) OR push_bit 6 codep else drop_bit type 0xFF AND b);
            i = unat (256 + st * 16 + of_nat type)
        in check (i < length utf8d) Buffer_overflow (Inr (of_nat (utf8d ! i), codep')))"

section \<open>The table, by ranges\<close>

text \<open>The type of a byte and the next state, as the comments of the table mean them.\<close>

definition byte_type :: "nat \<Rightarrow> nat" where
  "byte_type n =
     (if n < 0x80 then 0 else if n < 0x90 then 1 else if n < 0xA0 then 9 else if n < 0xC0 then 7
      else if n < 0xC2 then 8 else if n < 0xE0 then 2 else if n = 0xE0 then 10 else if n = 0xED then 4
      else if n < 0xF0 then 3 else if n = 0xF0 then 11 else if n < 0xF4 then 6 else if n = 0xF4 then 5 else 8)"

definition first_state :: "nat \<Rightarrow> nat" where
  "first_state n =
     (if n < 0x80 then 0 else if n < 0xC2 then 1 else if n < 0xE0 then 2 else if n = 0xE0 then 4
      else if n = 0xED then 5 else if n < 0xF0 then 3 else if n = 0xF0 then 6 else if n < 0xF4 then 7
      else if n = 0xF4 then 8 else 1)"

definition tail_ok :: "nat \<Rightarrow> nat \<Rightarrow> bool" where
  "tail_ok s n \<longleftrightarrow> 0x80 \<le> n \<and> n < 0xC0 \<and> s \<noteq> 1 \<and> (s = 4 \<longrightarrow> 0xA0 \<le> n) \<and> (s = 5 \<longrightarrow> n < 0xA0) \<and>
     (s = 6 \<longrightarrow> 0x90 \<le> n) \<and> (s = 8 \<longrightarrow> n < 0x90)"

definition tail_state :: "nat \<Rightarrow> nat" where
  "tail_state s = (if s = 2 then 0 else if s \<le> 5 then 2 else 3)"

definition next_state :: "nat \<Rightarrow> nat \<Rightarrow> nat" where
  "next_state s n = (if s = 0 then first_state n else if tail_ok s n then tail_state s else 1)"

lemma length_utf8d [simp]: "length utf8d = 400"
  by (simp add: utf8d_def)

lemma byte_types: "map byte_type [0..<256] = take 256 utf8d"
  by code_simp

lemma utf8d_type: "n < 256 \<Longrightarrow> utf8d ! n = byte_type n"
  using arg_cong [OF byte_types, of "\<lambda>l. l ! n"] by simp

lemma byte_type_range: "byte_type n \<in> {0, 1, 2, 3, 4, 5, 6, 7, 8, 9, 10, 11}"
  by (simp add: byte_type_def)

lemma byte_type_less: "byte_type n < 12"
  by (simp add: byte_type_def)

definition type_next :: "nat \<Rightarrow> nat \<Rightarrow> nat" where
  "type_next s k = (if s = 0 then [0, 1, 2, 3, 5, 8, 7, 1, 1, 1, 4, 6] ! k
     else if s \<noteq> 1 \<and> (k = 1 \<and> s \<notin> {4, 6} \<or> k = 9 \<and> s \<notin> {4, 8} \<or> k = 7 \<and> s \<notin> {5, 8}) then tail_state s else 1)"

lemma utf8d_states: "list_all (\<lambda>s. list_all (\<lambda>k. utf8d ! (256 + s * 16 + k) = type_next s k) [0..<12]) [0..<9]"
  by code_simp

lemma type_next_state: "type_next s (byte_type n) = next_state s n"
  by (simp add: type_next_def next_state_def byte_type_def first_state_def tail_ok_def)

lemma utf8d_next: "s < 9 \<Longrightarrow> n < 256 \<Longrightarrow> utf8d ! (256 + s * 16 + byte_type n) = next_state s n"
  using utf8d_states byte_type_less [of n] by (simp add: list_all_iff type_next_state)

section \<open>One byte\<close>

lemma and_mask_unat: "unat (b AND mask k :: u32) = unat b mod 2 ^ k"
  by (simp only: take_bit_eq_mask [symmetric] unsigned_take_bit_eq) (simp add: take_bit_eq_mod)

lemma or_shifted_nat:
  fixes a c :: nat
  assumes "a < 2 ^ k"
  shows "a OR push_bit k c = a + c * 2 ^ k"
proof -
  have "a AND push_bit k c = 0"
  proof (rule bit_eqI)
    fix n
    have "\<not> bit a n" if "k \<le> n"
    proof -
      have "a < 2 ^ n" by (rule order.strict_trans2 [OF assms power_increasing [OF that]]) simp
      then show ?thesis by (simp add: bit_iff_odd)
    qed
    then show "bit (a AND push_bit k c) n = bit 0 n" by (auto simp: bit_and_iff bit_push_bit_iff)
  qed
  then show ?thesis by (simp add: disjunctive_add_eq_or [symmetric] push_bit_eq_mult)
qed

lemma or_add_shifted:
  assumes "a < 2 ^ k" "a + c * 2 ^ k < 2 ^ 32"
  shows "unat (of_nat a OR push_bit k (of_nat c) :: u32) = a + c * 2 ^ k"
proof -
  have "of_nat a OR push_bit k (of_nat c) = (of_nat (a OR push_bit k c) :: u32)"
    by (simp add: of_nat_or_eq push_bit_of_nat)
  then show ?thesis using assms by (simp only: or_shifted_nat unat_of_nat) simp
qed


lemma unat_tail: "unat c < 2 ^ 26 \<Longrightarrow> unat ((b AND 0x3F) OR push_bit 6 c :: u32) = unat b mod 64 + unat c * 64"
proof -
  assume c: "unat c < 2 ^ 26"
  have m: "(0x3F :: u32) = mask 6" by (simp add: mask_eq_exp_minus_1)
  have b: "b AND mask 6 = of_nat (unat b mod 64)" by (simp add: word_unat_eq_iff and_mask_unat unat_of_nat)
  have "unat b mod 64 < 64" by simp
  then have "unat b mod 64 + unat c * 64 < 2 ^ 32" using c by simp
  then show ?thesis using or_add_shifted [of "unat b mod 64" 6 "unat c"] unfolding m b by simp
qed

lemma unat_byte_less: "unat (b :: byte) < 256"
  using unsigned_less [of b, where 'a = nat] by simp

lemma unat_ucast_byte: "unat (ucast (b :: byte) :: u32) = unat b"
  using unat_byte_less [of b] by (simp add: unsigned_ucast_eq take_bit_nat_eq_self)

lemma decode_index: "s < 9 \<Longrightarrow> n < 256 \<Longrightarrow> unat (256 + of_nat s * 16 + of_nat (byte_type n) :: u32) = 256 + s * 16 + byte_type n"
proof -
  assume "s < 9" "n < 256"
  moreover have "256 + of_nat s * 16 + of_nat (byte_type n) = (of_nat (256 + s * 16 + byte_type n) :: u32)" by simp
  ultimately show ?thesis using byte_type_less [of n] by (simp only: unat_of_nat) simp
qed

lemma decode_byte:
  assumes "s < 9"
  shows "utf8_decode (of_nat s) c (ucast (b :: byte)) =
     Inr (of_nat (next_state s (unat b)),
       if s \<noteq> 0 then (ucast b AND 0x3F) OR push_bit 6 c else drop_bit (byte_type (unat b)) 0xFF AND ucast b)"
proof -
  have n: "unat b < 256" "unat (ucast b :: u32) = unat b" by (rule unat_byte_less, rule unat_ucast_byte)
  have "(of_nat s :: u32) = 0 \<longleftrightarrow> s = 0"
    using assms by (auto simp: word_unat_eq_iff unat_of_nat)
  moreover have "256 + s * 16 + byte_type (unat b) < 400" using assms byte_type_less [of "unat b"] by simp
  ultimately show ?thesis using n decode_index [OF assms n(1)] utf8d_next [OF assms n(1)]
    by (simp add: utf8_decode_def utf8d_type UTF8_ACCEPT_def Let_def)
qed


section \<open>Texts\<close>

text \<open>Reading a whole text: the code points, if every byte is used and none rejected.\<close>

fun utf8_text :: "u32 \<Rightarrow> u32 \<Rightarrow> byte list \<Rightarrow> u32 list option" where
  "utf8_text st c [] = (if st = UTF8_ACCEPT then Some [] else None)"
| "utf8_text st c (b # bs) =
     (case utf8_decode st c (ucast b) of
        Inl _ \<Rightarrow> None
      | Inr (st', c') \<Rightarrow>
          if st' = UTF8_REJECT then None
          else if st' = UTF8_ACCEPT then map_option ((#) c') (utf8_text st' c' bs)
          else utf8_text st' c' bs)"

definition scalar :: "u32 \<Rightarrow> bool" where
  "scalar c \<longleftrightarrow> unat c < 0x110000 \<and> \<not> (0xD800 \<le> unat c \<and> unat c < 0xE000)"

lemma eq_of_nat_unat: "unat (w :: u32) = n \<Longrightarrow> w = of_nat n"
  by auto

lemma of_nat_state_eq: "s < 9 \<Longrightarrow> t < 9 \<Longrightarrow> (of_nat s :: u32) = of_nat t \<longleftrightarrow> s = t"
  by (auto simp: word_unat_eq_iff unat_of_nat)

lemma next_state_less: "next_state s n < 9"
  by (simp add: next_state_def first_state_def tail_state_def)

lemma utf8_text_any: "utf8_text 0 c bs = utf8_text 0 0 bs"
proof (cases bs)
  case (Cons b bs')
  have "utf8_decode 0 c (ucast b) = utf8_decode 0 0 (ucast b)" by (simp add: utf8_decode_def UTF8_ACCEPT_def)
  then show ?thesis using Cons by simp
qed simp

text \<open>The same on numbers: what is read of \<open>bs\<close> in state \<open>s\<close> with the value \<open>v\<close> so far.\<close>

definition reads :: "nat \<Rightarrow> nat \<Rightarrow> byte list \<Rightarrow> u32 list option" where
  "reads s v bs =
     (if s = 1 then None else if s = 0 then map_option ((#) (of_nat v)) (utf8_text 0 0 bs) else utf8_text (of_nat s) (of_nat v) bs)"

definition head_value :: "nat \<Rightarrow> nat" where
  "head_value n = (if n < 0x80 then n else if n < 0xE0 then n - 0xC0 else if n < 0xF0 then n - 0xE0 else n - 0xF0)"

lemma utf8_text_Cons:
  assumes "s < 9" "utf8_decode (of_nat s) c (ucast b) = Inr (of_nat (next_state s (unat b)), of_nat v)"
  shows "utf8_text (of_nat s) c (b # bs) = reads (next_state s (unat b)) v bs"
  using of_nat_state_eq [OF next_state_less, of 1] of_nat_state_eq [OF next_state_less, of 0] utf8_text_any [of "of_nat v" bs] assms
  by (simp add: UTF8_REJECT_def UTF8_ACCEPT_def reads_def)

lemma reads_tail:
  assumes "s < 9" "s \<noteq> 0" "s \<noteq> 1" "v < 2 ^ 26"
  shows "reads s v (b # bs) = (if tail_ok s (unat b) then reads (tail_state s) (v * 64 + unat b mod 64) bs else None)"
proof -
  have val: "unat ((ucast b AND 0x3F) OR push_bit 6 (of_nat v) :: u32) = unat b mod 64 + v * 64"
    using assms(4) by (subst unat_tail) (simp_all add: unat_of_nat unat_ucast_byte)
  have "utf8_decode (of_nat s) (of_nat v) (ucast b) = Inr (of_nat (next_state s (unat b)), of_nat (v * 64 + unat b mod 64))"
    using assms decode_byte [of s "of_nat v" b] eq_of_nat_unat [OF val] by (simp add: add.commute del: of_nat_add of_nat_mult)
  from utf8_text_Cons [OF assms(1) this] show ?thesis
    using assms by (simp add: reads_def next_state_def)
qed

lemma unat_head: "unat (drop_bit k 0xFF AND b :: u32) = unat b mod 2 ^ (8 - k)"
proof -
  have "drop_bit k (0xFF :: u32) = drop_bit k (mask 8)" by (simp add: mask_eq_exp_minus_1)
  also have "\<dots> = mask (8 - k)" by (rule bit_word_eqI) (auto simp: bit_drop_bit_eq bit_mask_iff)
  finally show ?thesis using and_mask_unat [of b "8 - k"] by (simp add: and.commute)
qed

lemma mod_offset:
  fixes n a m :: nat
  assumes "a \<le> n" "n < a + m" "a mod m = 0"
  shows "n mod m = n - a"
proof -
  have "(a + (n - a)) mod m = (n - a) mod m" using assms(3) by (metis add_0 mod_add_left_eq)
  then show ?thesis using assms by simp
qed

lemma head_value_mod:
  assumes "first_state n \<noteq> 1" "n < 256"
  shows "n mod 2 ^ (8 - byte_type n) = head_value n"
proof -
  consider "n < 128" | "194 \<le> n" "n < 224" | "n = 224" | "n = 237" | "224 < n" "n < 240" "n \<noteq> 237"
    | "n = 240" | "240 < n" "n < 244" | "n = 244"
    using assms by (fastforce simp: first_state_def split: if_splits)
  then show ?thesis
    by cases (simp_all add: byte_type_def head_value_def mod_offset [of 192 n 64] mod_offset [of 224 n 32] mod_offset [of 240 n 4])
qed

lemma reads_first: "utf8_text 0 0 (b # bs) = reads (first_state (unat b)) (head_value (unat b)) bs"
proof (cases "first_state (unat b) = 1")
  case True
  then show ?thesis using decode_byte [of 0 0 b] by (simp add: reads_def next_state_def UTF8_REJECT_def)
next
  case False
  then have val: "unat (drop_bit (byte_type (unat b)) 0xFF AND ucast b :: u32) = head_value (unat b)"
    using head_value_mod [OF _ unat_byte_less] by (simp add: unat_head unat_ucast_byte)
  have "utf8_decode (of_nat 0) 0 (ucast b) = Inr (of_nat (next_state 0 (unat b)), of_nat (head_value (unat b)))"
    using decode_byte [of 0 0 b] eq_of_nat_unat [OF val] by simp
  from utf8_text_Cons [OF _ this] show ?thesis by (simp add: next_state_def)
qed


section \<open>Encodings on numbers\<close>

definition encoding :: "nat \<Rightarrow> nat list" where
  "encoding n =
     (if n < 0x80 then [n]
      else if n < 0x800 then [0xC0 + n div 64, 0x80 + n mod 64]
      else if n < 0x10000 then [0xE0 + n div 4096, 0x80 + n div 64 mod 64, 0x80 + n mod 64]
      else [0xF0 + n div 262144, 0x80 + n div 4096 mod 64, 0x80 + n div 64 mod 64, 0x80 + n mod 64])"

lemma unat_drop_bit: "unat (drop_bit i c :: u32) = unat c div 2 ^ i"
  using unsigned_less [of c, where 'a = nat]
  by (simp only: unsigned_drop_bit_eq) (simp add: drop_bit_eq_div take_bit_nat_eq_self)

lemma unat_encoded:
  assumes "j \<le> k" "h * 2 ^ k + 2 ^ k \<le> 256"
  shows "unat (ucast (of_nat (h * 2 ^ k) OR (drop_bit i c AND mask j) :: u32) :: byte) = h * 2 ^ k + unat c div 2 ^ i mod 2 ^ j"
proof -
  let ?a = "unat c div 2 ^ i mod 2 ^ j"
  have a: "?a < 2 ^ k" by (rule order.strict_trans2 [OF mod_less_divisor power_increasing [OF assms(1)]]) simp_all
  have "drop_bit i c AND mask j = of_nat ?a"
    by (intro eq_of_nat_unat) (simp only: and_mask_unat unat_drop_bit)
  moreover have "of_nat (h * 2 ^ k) = (push_bit k (of_nat h) :: u32)" by (simp add: push_bit_eq_mult)
  ultimately have "unat (of_nat (h * 2 ^ k) OR (drop_bit i c AND mask j) :: u32) = ?a + h * 2 ^ k"
    using or_add_shifted [OF a, of h] a assms(2) by (simp add: or.commute)
  then show ?thesis using a assms(2) by (simp add: unsigned_ucast_eq take_bit_nat_eq_self)
qed


lemma sint_small: "unat (c :: u32) < 2 ^ 31 \<Longrightarrow> sint c = int (unat c)"
proof -
  assume "unat c < 2 ^ 31"
  then have "uint c < 2 ^ 31" unfolding uint_nat by (metis of_nat_less_iff of_nat_numeral of_nat_power)
  moreover have "- (2 ^ 31) \<le> uint c" by (rule order.trans [OF _ unsigned_greater_eq]) simp
  ultimately show ?thesis by (simp add: sint_uint signed_take_bit_int_eq_self)
qed

lemma utf8_encode_bytes:
  fixes c :: u32
  shows "unat (ucast (0xC0 OR (drop_bit 6 c AND 0x1F)) :: byte) = 0xC0 + unat c div 64 mod 32"
    "unat (ucast (0xE0 OR (drop_bit 12 c AND 0x0F)) :: byte) = 0xE0 + unat c div 4096 mod 16"
    "unat (ucast (0xF0 OR (drop_bit 18 c AND 0x07)) :: byte) = 0xF0 + unat c div 262144 mod 8"
    "unat (ucast (0x80 OR (drop_bit 12 c AND 0x3F)) :: byte) = 0x80 + unat c div 4096 mod 64"
    "unat (ucast (0x80 OR (drop_bit 6 c AND 0x3F)) :: byte) = 0x80 + unat c div 64 mod 64"
    "unat (ucast (0x80 OR (c AND 0x3F)) :: byte) = 0x80 + unat c mod 64"
proof -
  have m: "(0x3F :: u32) = mask 6" "(0x1F :: u32) = mask 5" "(0x0F :: u32) = mask 4" "(0x07 :: u32) = mask 3"
    by (simp_all add: mask_eq_exp_minus_1)
  show "unat (ucast (0xC0 OR (drop_bit 6 c AND 0x1F)) :: byte) = 0xC0 + unat c div 64 mod 32"
    using unat_encoded [of 5 6 3 6 c] unfolding m by simp
  show "unat (ucast (0xE0 OR (drop_bit 12 c AND 0x0F)) :: byte) = 0xE0 + unat c div 4096 mod 16"
    using unat_encoded [of 4 5 7 12 c] unfolding m by simp
  show "unat (ucast (0xF0 OR (drop_bit 18 c AND 0x07)) :: byte) = 0xF0 + unat c div 262144 mod 8"
    using unat_encoded [of 3 4 15 18 c] unfolding m by simp
  show "unat (ucast (0x80 OR (drop_bit 12 c AND 0x3F)) :: byte) = 0x80 + unat c div 4096 mod 64"
    using unat_encoded [of 6 6 2 12 c] unfolding m by simp
  show "unat (ucast (0x80 OR (drop_bit 6 c AND 0x3F)) :: byte) = 0x80 + unat c div 64 mod 64"
    using unat_encoded [of 6 6 2 6 c] unfolding m by simp
  show "unat (ucast (0x80 OR (c AND 0x3F)) :: byte) = 0x80 + unat c mod 64"
    using unat_encoded [of 6 6 2 0 c] unfolding m by simp
qed

lemma utf8_encode_nat:
  assumes "unat c < 0x110000"
  shows "map unat (utf8_encode c) = encoding (unat c)"
proof -
  let ?n = "unat c"
  have s: "sint c = int ?n" using assms by (intro sint_small) simp
  have one: "?n < 0x80 \<Longrightarrow> unat (ucast c :: byte) = ?n" by (simp add: unsigned_ucast_eq take_bit_nat_eq_self)
  have d: "?n < 0x800 \<Longrightarrow> ?n div 64 mod 32 = ?n div 64" "?n < 0x10000 \<Longrightarrow> ?n div 4096 mod 16 = ?n div 4096"
    "?n div 262144 mod 8 = ?n div 262144" using assms by simp_all
  have le: "sint c \<le> 0x7F \<longleftrightarrow> ?n < 0x80" "sint c \<le> 0x7FF \<longleftrightarrow> ?n < 0x800" "sint c \<le> 0xFFFF \<longleftrightarrow> ?n < 0x10000"
    "sint c \<le> 0x10FFFF \<longleftrightarrow> ?n < 0x110000" unfolding s by linarith+
  show ?thesis using assms one d unfolding utf8_encode_def encoding_def le by (simp add: utf8_encode_bytes unat_drop_bit)
qed

lemma utf8_encode_eqI: "unat c < 0x110000 \<Longrightarrow> map unat bs = encoding (unat c) \<Longrightarrow> utf8_encode c = bs"
  using utf8_encode_nat [of c] by (metis inj_map_eq_map injI word_unat_eq_iff)


section \<open>The decoder reads exactly the encodings\<close>

definition reads_ok :: "nat \<Rightarrow> bool" where
  "reads_ok n \<longleftrightarrow> n < 0x110000 \<and> \<not> (0xD800 \<le> n \<and> n < 0xE000)"

declare utf8_text.simps(2) [simp del]

lemma split_64:
  fixes n :: nat
  obtains p q r where "n = (p * 64 + q) * 64 + r" "n div 4096 = p" "n div 64 mod 64 = q" "n div 64 = p * 64 + q"
    "n mod 64 = r" "q < 64" "r < 64"
proof
  show "n div 64 = n div 4096 * 64 + n div 64 mod 64"
    using div_mult_mod_eq [of "n div 64" 64] by (simp add: div_mult2_eq [symmetric])
  then show "n = (n div 4096 * 64 + n div 64 mod 64) * 64 + n mod 64"
    using div_mult_mod_eq [of n 64] by simp
qed simp_all

lemma tail_mod: "q < 64 \<Longrightarrow> (128 + q) mod 64 = (q :: nat)"
  by (simp add: mod_add_left_eq [symmetric])

lemma encoding_read2:
  assumes "0x80 \<le> n" "n < 0x800" "unat a = 0xC0 + n div 64" "unat b = 0x80 + n mod 64"
  shows "utf8_text 0 0 (a # b # bs) = reads 0 n bs"
proof -
  have "2 \<le> n div 64" "n div 64 < 32" using assms by auto
  then have "first_state (unat a) = 2" "head_value (unat a) = n div 64"
    by (simp_all add: assms first_state_def head_value_def)
  moreover have "tail_ok 2 (unat b)" "unat b mod 64 = n mod 64" by (simp_all add: assms tail_ok_def mod_add_left_eq [symmetric])
  ultimately show ?thesis using assms by (simp add: reads_first reads_tail tail_state_def)
qed

lemma encoding_read3:
  assumes "reads_ok n" "0x800 \<le> n" "n < 0x10000"
    and "unat a = 0xE0 + n div 4096" "unat b = 0x80 + n div 64 mod 64" "unat c = 0x80 + n mod 64"
  shows "utf8_text 0 0 (a # b # c # bs) = reads 0 n bs"
proof -
  obtain p q r where n: "n = (p * 64 + q) * 64 + r" "n div 4096 = p" "n div 64 mod 64 = q" "n div 64 = p * 64 + q"
    "n mod 64 = r" "q < 64" "r < 64" by (rule split_64)
  have bytes: "unat a = 224 + p" "unat b = 128 + q" "unat c = 128 + r" using assms(4-6) n(2,3,5) by (simp_all only:)
  let ?s = "first_state (unat a)"
  have p: "p < 16" using assms(3) n(2) by auto
  then have s: "?s = (if p = 0 then 4 else if p = 13 then 5 else 3)" and h: "head_value (unat a) = p"
    by (simp_all add: bytes first_state_def head_value_def)
  have bounds: "2048 \<le> (p * 64 + q) * 64 + r" "\<not> (55296 \<le> (p * 64 + q) * 64 + r \<and> (p * 64 + q) * 64 + r < 57344)"
    using assms(1,2) n(1) by (simp_all add: reads_ok_def)
  have "p = 0 \<Longrightarrow> 32 \<le> q" "p = 13 \<Longrightarrow> q < 32" using bounds n(6,7) by simp_all
  then have "tail_ok ?s (unat b)" using n(6) unfolding s by (simp add: bytes tail_ok_def)
  moreover have "tail_ok 2 (unat c)" using n(7) by (simp add: bytes tail_ok_def)
  ultimately have "utf8_text 0 0 (a # b # c # bs) = reads 0 ((p * 64 + q) * 64 + r) bs" using s h p n(6,7)
    by (simp add: reads_first reads_tail tail_state_def bytes(2,3) tail_mod)
  then show ?thesis by (simp only: n(1))
qed

lemma encoding_read4:
  assumes "reads_ok n" "0x10000 \<le> n"
    and "unat a = 0xF0 + n div 262144" "unat b = 0x80 + n div 4096 mod 64" "unat c = 0x80 + n div 64 mod 64"
      "unat d = 0x80 + n mod 64"
  shows "utf8_text 0 0 (a # b # c # d # bs) = reads 0 n bs"
proof -
  obtain t u r where n: "n = (t * 64 + u) * 64 + r" "n div 4096 = t" "n div 64 mod 64 = u" "n div 64 = t * 64 + u"
    "n mod 64 = r" "u < 64" "r < 64" by (rule split_64)
  define p q where "p = t div 64" and "q = t mod 64"
  have t: "t = p * 64 + q" "q < 64" by (simp_all add: p_def q_def)
  have tb: "16 \<le> t" "t < 272" using assms(1,2) n(2) by (auto simp: reads_ok_def)
  have a: "unat a = 0xF0 + p" using assms(3) unfolding p_def n(2) [symmetric] by (simp add: div_mult2_eq [symmetric])
  have bytes: "unat b = 128 + q" "unat c = 128 + u" "unat d = 128 + r" using assms(4-6) n(2,3,5) by (simp_all only: q_def)
  let ?s = "first_state (unat a)"
  have p: "p < 5" using tb t by linarith
  then have s: "?s = (if p = 0 then 6 else if p = 4 then 8 else 7)" and h: "head_value (unat a) = p"
    by (simp_all add: a first_state_def head_value_def)
  have "p = 0 \<Longrightarrow> 16 \<le> q" "p = 4 \<Longrightarrow> q < 16" using tb t by simp_all
  then have "tail_ok ?s (unat b)" using t(2) unfolding s by (simp add: bytes tail_ok_def)
  moreover have "tail_ok 3 (unat c)" "tail_ok 2 (unat d)" using n(6,7) by (simp_all add: bytes tail_ok_def)
  ultimately have "utf8_text 0 0 (a # b # c # d # bs) = reads 0 (((p * 64 + q) * 64 + u) * 64 + r) bs" using s h p t(2) n(6,7)
    by (simp add: reads_first reads_tail tail_state_def bytes tail_mod)
  then show ?thesis by (simp only: n(1) t(1))
qed

lemma encoding_read:
  assumes "reads_ok n" "map unat es = encoding n"
  shows "utf8_text 0 0 (es @ bs) = reads 0 n bs"
proof -
  consider (one) "n < 0x80" | (two) "0x80 \<le> n" "n < 0x800" | (three) "0x800 \<le> n" "n < 0x10000" | (four) "0x10000 \<le> n"
    by linarith
  then show ?thesis
  proof cases
    case one
    with assms(2) obtain a where "es = [a]" "unat a = n" by (auto simp: encoding_def)
    then show ?thesis using one by (simp add: reads_first first_state_def head_value_def)
  next
    case two
    then show ?thesis using assms(2) encoding_read2 [of n] by (auto simp: encoding_def)
  next
    case three
    then show ?thesis using assms(2) encoding_read3 [OF assms(1)] by (auto simp: encoding_def)
  next
    case four
    then show ?thesis using assms(2) encoding_read4 [OF assms(1)] by (auto simp: encoding_def)
  qed
qed


lemma reads_tail_Some:
  assumes "reads s v bs = Some cs" "s < 9" "2 \<le> s" "v < 2 ^ 26"
  shows "\<exists>b bs' q. bs = b # bs' \<and> unat b = 128 + q \<and> q < 64 \<and> tail_ok s (128 + q) \<and>
    reads (tail_state s) (v * 64 + q) bs' = Some cs"
proof (cases bs)
  case Nil
  have "(of_nat s :: u32) \<noteq> 0" using assms(2,3) of_nat_state_eq [of s 0] by simp
  then show ?thesis using assms Nil by (simp add: reads_def UTF8_ACCEPT_def)
next
  case (Cons b bs')
  then have *: "tail_ok s (unat b)" "reads (tail_state s) (v * 64 + unat b mod 64) bs' = Some cs"
    using assms reads_tail [of s v b bs'] by (auto split: if_splits)
  have q: "128 \<le> unat b" "unat b < 192" using *(1) by (simp_all add: tail_ok_def)
  then have "unat b mod 64 = unat b - 128" by (intro mod_offset) simp_all
  with * q Cons show ?thesis by (intro exI [of _ b] exI [of _ bs'] exI [of _ "unat b - 128"]) simp
qed

lemma shift_parts:
  fixes m r :: nat
  assumes "r < 64"
  shows "(m * 64 + r) div 64 = m" "(m * 64 + r) mod 64 = r" "(m * 64 + r) div 4096 = m div 64" "(m * 64 + r) div 262144 = m div 4096"
proof -
  show d: "(m * 64 + r) div 64 = m" "(m * 64 + r) mod 64 = r" using assms by simp_all
  show "(m * 64 + r) div 4096 = m div 64" using div_mult2_eq [of "m * 64 + r" 64 64] d by simp
  show "(m * 64 + r) div 262144 = m div 4096" using div_mult2_eq [of "m * 64 + r" 64 4096] d by simp
qed

lemma encoding_two: "2 \<le> p \<Longrightarrow> p < 32 \<Longrightarrow> r < 64 \<Longrightarrow> encoding (p * 64 + r) = [0xC0 + p, 128 + r]"
  by (simp add: encoding_def shift_parts)

lemma encoding_three:
  assumes "p < 16" "q < 64" "r < 64" "p = 0 \<longrightarrow> 32 \<le> q"
  shows "encoding ((p * 64 + q) * 64 + r) = [0xE0 + p, 128 + q, 128 + r]"
proof -
  let ?n = "(p * 64 + q) * 64 + r"
  have "2048 \<le> ?n" using assms by (cases "p = 0") simp_all
  then have "\<not> ?n < 0x80" "\<not> ?n < 0x800" "?n < 0x10000" using assms by simp_all
  then show ?thesis by (simp only: encoding_def shift_parts [OF assms(3)] shift_parts [OF assms(2)] if_True if_False)
qed

lemma encoding_four:
  assumes "p < 5" "q < 64" "u < 64" "r < 64" "p = 0 \<longrightarrow> 16 \<le> q"
  shows "encoding (((p * 64 + q) * 64 + u) * 64 + r) = [0xF0 + p, 128 + q, 128 + u, 128 + r]"
proof -
  let ?n = "((p * 64 + q) * 64 + u) * 64 + r"
  have "65536 \<le> ?n" using assms by (cases "p = 0") simp_all
  then have "\<not> ?n < 0x80" "\<not> ?n < 0x800" "\<not> ?n < 0x10000" by simp_all
  then show ?thesis
    by (simp only: encoding_def shift_parts [OF assms(4)] shift_parts [OF assms(3)] shift_parts [OF assms(2)] if_False)
qed

definition next_char :: "byte list \<Rightarrow> u32 list \<Rightarrow> bool" where
  "next_char bs cs \<longleftrightarrow> (\<exists>n es bs'. bs = es @ bs' \<and> reads_ok n \<and> map unat es = encoding n \<and> reads 0 n bs' = Some cs)"

lemma next_charI: "reads_ok n \<Longrightarrow> map unat es = encoding n \<Longrightarrow> reads 0 n bs' = Some cs \<Longrightarrow> next_char (es @ bs') cs"
  by (auto simp: next_char_def)

lemma next_char_three:
  assumes "reads s p bs = Some cs" "unat a = 0xE0 + p" "p < 16" "s = (if p = 0 then 4 else if p = 13 then 5 else 3)"
  shows "next_char (a # bs) cs"
proof -
  have s: "s < 9" "2 \<le> s" "tail_state s = 2" using assms(4) by (simp_all add: tail_state_def)
  obtain b q bs1 where 1: "bs = b # bs1" "unat b = 128 + q" "q < 64" "tail_ok s (128 + q)" "reads 2 (p * 64 + q) bs1 = Some cs"
    using reads_tail_Some [OF assms(1) s(1,2)] assms(3) s(3) by auto
  obtain c r bs2 where 2: "bs1 = c # bs2" "unat c = 128 + r" "r < 64" "reads 0 ((p * 64 + q) * 64 + r) bs2 = Some cs"
    using reads_tail_Some [OF 1(5)] assms(3) 1(3) by (auto simp: tail_state_def)
  have pq: "p = 0 \<longrightarrow> 32 \<le> q" "p = 13 \<longrightarrow> q < 32" using 1(4) assms(4) by (auto simp: tail_ok_def)
  have "reads_ok ((p * 64 + q) * 64 + r)"
    unfolding reads_ok_def using assms(3) 1(3) 2(3) pq(2) by (cases "p < 13"; cases "p = 13") simp_all
  then show ?thesis
    using next_charI [of _ "[a, b, c]", OF _ _ 2(4)] encoding_three [OF assms(3) 1(3) 2(3) pq(1)] assms(2) 1 2 by simp
qed

lemma next_char_four:
  assumes "reads s p bs = Some cs" "unat a = 0xF0 + p" "p < 5" "s = (if p = 0 then 6 else if p = 4 then 8 else 7)"
  shows "next_char (a # bs) cs"
proof -
  have s: "s < 9" "2 \<le> s" "tail_state s = 3" using assms(4) by (simp_all add: tail_state_def)
  obtain b q bs1 where 1: "bs = b # bs1" "unat b = 128 + q" "q < 64" "tail_ok s (128 + q)" "reads 3 (p * 64 + q) bs1 = Some cs"
    using reads_tail_Some [OF assms(1) s(1,2)] assms(3) s(3) by auto
  obtain c u bs2 where 2: "bs1 = c # bs2" "unat c = 128 + u" "u < 64" "reads 2 ((p * 64 + q) * 64 + u) bs2 = Some cs"
    using reads_tail_Some [OF 1(5)] assms(3) 1(3) by (auto simp: tail_state_def)
  obtain d r bs3 where 3: "bs2 = d # bs3" "unat d = 128 + r" "r < 64" "reads 0 (((p * 64 + q) * 64 + u) * 64 + r) bs3 = Some cs"
    using reads_tail_Some [OF 2(4)] assms(3) 1(3) 2(3) by (auto simp: tail_state_def)
  have pq: "p = 0 \<longrightarrow> 16 \<le> q" "p = 4 \<longrightarrow> q < 16" using 1(4) assms(4) by (auto simp: tail_ok_def)
  have "reads_ok (((p * 64 + q) * 64 + u) * 64 + r)"
    unfolding reads_ok_def using assms(3) 1(3) 2(3) 3(3) pq by (cases "p = 0"; cases "p = 4") simp_all
  then show ?thesis
    using next_charI [of _ "[a, b, c, d]", OF _ _ 3(4)] encoding_four [OF assms(3) 1(3) 2(3) 3(3) pq(1)] assms(2) 1 2 3 by simp
qed


lemma text_next_char:
  assumes "utf8_text 0 0 (a # bs) = Some cs"
  shows "next_char (a # bs) cs"
proof -
  let ?n = "unat a" and ?s = "first_state (unat a)"
  have r: "reads ?s (head_value ?n) bs = Some cs" using assms by (simp add: reads_first)
  then have "?s \<noteq> 1" by (auto simp: reads_def)
  then consider (one) "?n < 128" | (two) "194 \<le> ?n" "?n < 224" | (three) "224 \<le> ?n" "?n < 240" | (four) "240 \<le> ?n" "?n < 245"
    by (fastforce simp: first_state_def split: if_splits)
  then show ?thesis
  proof cases
    case one
    then have "reads 0 ?n bs = Some cs" using r by (simp add: first_state_def head_value_def)
    then show ?thesis using next_charI [of ?n "[a]"] one by (simp add: reads_ok_def encoding_def)
  next
    case two
    then have v: "?s = 2" "head_value ?n = ?n - 192" by (simp_all add: first_state_def head_value_def)
    define p where "p = ?n - 192"
    have r2: "reads 2 p bs = Some cs" using r v by (simp only: p_def)
    have p: "?n = 192 + p" "2 \<le> p" "p < 32" using two by (simp_all add: p_def)
    obtain b bs1 q where 1: "bs = b # bs1" "unat b = 128 + q" "q < 64" "reads 0 (p * 64 + q) bs1 = Some cs"
      using reads_tail_Some [OF r2] p(3) by (auto simp: tail_state_def)
    have "reads_ok (p * 64 + q)" using p 1(3) by (simp add: reads_ok_def)
    then show ?thesis using next_charI [of _ "[a, b]", OF _ _ 1(4)] encoding_two [OF p(2,3) 1(3)] p(1) 1 by simp
  next
    case three
    then have "?s = (if ?n - 224 = 0 then 4 else if ?n - 224 = 13 then 5 else 3)" "head_value ?n = ?n - 224"
      by (auto simp: first_state_def head_value_def)
    then show ?thesis using three r by (intro next_char_three [of ?s "?n - 224"]) simp_all
  next
    case four
    then have "?s = (if ?n - 240 = 0 then 6 else if ?n - 240 = 4 then 8 else 7)" "head_value ?n = ?n - 240"
      by (auto simp: first_state_def head_value_def)
    then show ?thesis using four r by (intro next_char_four [of ?s "?n - 240"]) simp_all
  qed
qed

lemma scalar_nat: "scalar c \<longleftrightarrow> reads_ok (unat c)"
  by (simp add: scalar_def reads_ok_def)

lemma utf8_text_encode: "scalar c \<Longrightarrow> utf8_text 0 0 (utf8_encode c @ bs) = map_option ((#) c) (utf8_text 0 0 bs)"
  using encoding_read [of "unat c" "utf8_encode c" bs] utf8_encode_nat [of c]
  by (simp add: scalar_nat reads_def) (simp add: reads_ok_def)

lemma utf8_text_complete: "list_all scalar cs \<Longrightarrow> utf8_text 0 0 (concat (map utf8_encode cs)) = Some cs"
  by (induction cs) (simp_all add: utf8_text_encode UTF8_ACCEPT_def)

lemma utf8_text_sound: "utf8_text 0 0 bs = Some cs \<Longrightarrow> list_all scalar cs \<and> bs = concat (map utf8_encode cs)"
proof (induction "length bs" arbitrary: bs cs rule: less_induct)
  case less
  show ?case
  proof (cases bs)
    case Nil
    then show ?thesis using less.prems by (simp add: UTF8_ACCEPT_def)
  next
    case (Cons a as)
    obtain n es bs' where n: "bs = es @ bs'" "reads_ok n" "map unat es = encoding n" "reads 0 n bs' = Some cs"
      using text_next_char [OF less.prems [unfolded Cons]] unfolding Cons next_char_def by blast
    then obtain cs' where cs: "cs = of_nat n # cs'" "utf8_text 0 0 bs' = Some cs'" by (auto simp: reads_def)
    have u: "unat (of_nat n :: u32) = n" using n(2) by (simp add: reads_ok_def unat_of_nat)
    have "es \<noteq> []" using n(3) by (auto simp: encoding_def split: if_splits)
    then have "list_all scalar cs' \<and> bs' = concat (map utf8_encode cs')" using less.hyps [OF _ cs(2)] n(1) by simp
    moreover have "utf8_encode (of_nat n) = es" using n(2,3) by (intro utf8_encode_eqI) (simp_all add: u reads_ok_def)
    ultimately show ?thesis using n(1,2) cs(1) by (simp add: scalar_nat u)
  qed
qed


section \<open>Reading a stream\<close>

text \<open>
  The code around \<open>utf8_decode\<close> in the VT100 emulation and in host mode, for one byte; the
  result is the new state, the value and the character that is complete, if one is.
\<close>

definition utf8_input :: "u32 \<Rightarrow> u32 \<Rightarrow> byte \<Rightarrow> (u32 \<times> u32 \<times> u32 option) run" where
  "utf8_input st c b =
     andthen (utf8_decode st c (ucast b)) (\<lambda>(st', c').
       if st = st' \<and> st' \<noteq> UTF8_ACCEPT then Inr (0, c', None)
       else if st' \<noteq> UTF8_ACCEPT then Inr (st', c', None)
       else Inr (st', c', Some c'))"

fun utf8_stream :: "u32 \<Rightarrow> u32 \<Rightarrow> byte list \<Rightarrow> (u32 \<times> u32 list) run" where
  "utf8_stream st c [] = Inr (st, [])"
| "utf8_stream st c (b # bs) =
     andthen (utf8_input st c b) (\<lambda>(st', c', ch).
       andthen (utf8_stream st' c' bs) (\<lambda>(st'', cs). Inr (st'', case ch of None \<Rightarrow> cs | Some x \<Rightarrow> x # cs)))"

lemma next_state_moves: "s \<noteq> 0 \<Longrightarrow> s \<noteq> 1 \<Longrightarrow> next_state s n \<noteq> s"
  by (auto simp: next_state_def tail_state_def tail_ok_def)

lemma utf8_input_step:
  assumes "s < 9"
  obtains c' where "utf8_decode (of_nat s) c (ucast b) = Inr (of_nat (next_state s (unat b)), c')"
    "utf8_input (of_nat s) c b = Inr (
       if s = 1 then 0 else of_nat (next_state s (unat b)), c', if next_state s (unat b) = 0 then Some c' else None)"
proof -
  let ?t = "next_state s (unat b)"
  obtain c' where d: "utf8_decode (of_nat s) c (ucast b) = Inr (of_nat ?t, c')" using decode_byte [OF assms] by blast
  have "of_nat s = (of_nat ?t :: u32) \<longleftrightarrow> s = ?t" "(of_nat ?t :: u32) = 0 \<longleftrightarrow> ?t = 0"
    using of_nat_state_eq [OF assms next_state_less] of_nat_state_eq [OF next_state_less, of 0] by auto
  moreover have "s = 1 \<longrightarrow> ?t = 1" by (simp add: next_state_def tail_ok_def)
  moreover have "s = ?t \<longrightarrow> s = 0 \<or> s = 1" by (metis next_state_moves)
  ultimately have "utf8_input (of_nat s) c b = Inr (if s = 1 then 0 else of_nat ?t, c', if ?t = 0 then Some c' else None)"
    using d by (auto simp: utf8_input_def UTF8_ACCEPT_def)
  with d show thesis by (rule that)
qed

lemma utf8_stream_total: "s < 9 \<Longrightarrow> \<exists>t cs. t < 9 \<and> utf8_stream (of_nat s) c bs = Inr (of_nat t, cs)"
proof (induction bs arbitrary: s c)
  case (Cons b bs)
  obtain c' where "utf8_input (of_nat s) c b = Inr (
       if s = 1 then 0 else of_nat (next_state s (unat b)), c', if next_state s (unat b) = 0 then Some c' else None)"
    using utf8_input_step [OF Cons.prems, of c b] by blast
  then show ?case using Cons.IH [of "if s = 1 then 0 else next_state s (unat b)" c'] next_state_less by (auto split: if_splits)
qed auto

lemma utf8_stream_text:
  "utf8_text (of_nat s) c bs = Some cs \<Longrightarrow> s < 9 \<Longrightarrow> s \<noteq> 1 \<Longrightarrow> utf8_stream (of_nat s) c bs = Inr (UTF8_ACCEPT, cs)"
proof (induction bs arbitrary: s c cs)
  case Nil
  then show ?case by (simp split: if_splits)
next
  case (Cons b bs)
  let ?t = "next_state s (unat b)"
  obtain c' where c: "utf8_decode (of_nat s) c (ucast b) = Inr (of_nat ?t, c')"
    "utf8_input (of_nat s) c b = Inr (if s = 1 then 0 else of_nat ?t, c', if ?t = 0 then Some c' else None)"
    using utf8_input_step [OF Cons.prems(2), of c b] by blast
  have e: "(of_nat ?t :: u32) = 1 \<longleftrightarrow> ?t = 1" "(of_nat ?t :: u32) = 0 \<longleftrightarrow> ?t = 0"
    using of_nat_state_eq [OF next_state_less, of 1] of_nat_state_eq [OF next_state_less, of 0] by auto
  have t: "?t \<noteq> 1" using Cons.prems(1) c(1) e by (auto simp: utf8_text.simps(2) UTF8_REJECT_def)
  show ?case
  proof (cases "?t = 0")
    case True
    then obtain cs' where "cs = c' # cs'" "utf8_text (of_nat 0) c' bs = Some cs'"
      using Cons.prems(1) c(1) t by (auto simp: utf8_text.simps(2) UTF8_REJECT_def UTF8_ACCEPT_def)
    then show ?thesis using Cons.IH [of 0 c' cs'] c(2) True Cons.prems(3) by simp
  next
    case False
    then have "utf8_text (of_nat ?t) c' bs = Some cs"
      using Cons.prems(1) c(1) t e by (simp add: utf8_text.simps(2) UTF8_REJECT_def UTF8_ACCEPT_def)
    then show ?thesis using Cons.IH [OF _ next_state_less t] c(2) False Cons.prems(3) by simp
  qed
qed


lemma utf8_stream_any: "utf8_stream 0 c bs = utf8_stream 0 0 bs"
proof (cases bs)
  case (Cons b bs')
  have "utf8_input 0 c b = utf8_input 0 0 b" by (simp add: utf8_input_def utf8_decode_def UTF8_ACCEPT_def)
  then show ?thesis using Cons by simp
qed simp

lemma utf8_stream_append:
  "utf8_stream st c bs = Inr (0, ds) \<Longrightarrow> utf8_stream 0 0 xs = Inr (t, es) \<Longrightarrow> utf8_stream st c (bs @ xs) = Inr (t, ds @ es)"
proof (induction bs arbitrary: st c ds)
  case Nil
  then show ?case using utf8_stream_any [of c xs] by simp
next
  case (Cons b bs)
  from Cons.prems(1) obtain st1 c1 ch ds1 where 1: "utf8_input st c b = Inr (st1, c1, ch)" "utf8_stream st1 c1 bs = Inr (0, ds1)"
    "ds = (case ch of None \<Rightarrow> ds1 | Some x \<Rightarrow> x # ds1)"
    by (auto simp: andthen_eq_Inr)
  show ?case using Cons.IH [OF 1(2) Cons.prems(2)] 1 by (simp split: option.split)
qed

lemma utf8_stream_encoded: "list_all scalar cs \<Longrightarrow> utf8_stream 0 c (concat (map utf8_encode cs)) = Inr (UTF8_ACCEPT, cs)"
  using utf8_stream_text [of 0 0 _ cs] utf8_text_complete [of cs] utf8_stream_any [of c] by simp

section \<open>Properties\<close>

text \<open>
  C33.  The table driven decoder, started in its accepting state, reads a byte string to the
  end without rejecting it exactly when the string is the concatenation of what
  \<open>utf8_encode\<close> writes for Unicode scalar values, and then it delivers these: overlong
  forms, surrogates, values above 0x10FFFF and truncated forms are all refused.
\<close>

theorem utf8_decoder_exact:
  "utf8_text UTF8_ACCEPT 0 bs = Some cs \<longleftrightarrow> list_all scalar cs \<and> bs = concat (map utf8_encode cs)"
  unfolding UTF8_ACCEPT_def using utf8_text_sound utf8_text_complete by blast

text \<open>
  C34.  On any bytes the decoder stays inside its table, and text that is well formed
  comes out of the input code of the VT100 emulation and of host mode unchanged, however
  many bytes precede it, as long as they leave the decoder between two characters.
\<close>

theorem utf8_stream_delivers:
  "\<exists>st ds. utf8_stream UTF8_ACCEPT 0 bs = Inr (st, ds) \<and>
     (st = UTF8_ACCEPT \<and> list_all scalar cs \<longrightarrow>
        utf8_stream UTF8_ACCEPT 0 (bs @ concat (map utf8_encode cs)) = Inr (UTF8_ACCEPT, ds @ cs))"
proof -
  obtain t ds where "utf8_stream UTF8_ACCEPT 0 bs = Inr (of_nat t, ds)"
    using utf8_stream_total [of 0 0 bs] by (auto simp: UTF8_ACCEPT_def)
  then show ?thesis using utf8_stream_append [OF _ utf8_stream_encoded [of cs 0]] by (auto simp: UTF8_ACCEPT_def)
qed

theorem utf8_stream_delivers_witness:
  "\<exists>st ds. utf8_stream UTF8_ACCEPT 0 [] = Inr (st, ds) \<and> st = UTF8_ACCEPT \<and> list_all scalar [0xE9] \<and>
     utf8_stream UTF8_ACCEPT 0 ([] @ concat (map utf8_encode [0xE9])) = Inr (UTF8_ACCEPT, ds @ [0xE9])"
  using utf8_stream_delivers [of "[]" "[0xE9]"] by (simp add: scalar_def)

text \<open>
  A byte the decoder rejects costs that byte and the next one: what follows the two is
  read as if the decoder had been fresh.
\<close>

lemma utf8_resynchronises:
  assumes "utf8_decode (of_nat s) c (ucast b) = Inr (UTF8_REJECT, c')" "s < 9" "s \<noteq> 1" "list_all scalar cs"
  shows "utf8_stream (of_nat s) c (b # x # concat (map utf8_encode cs)) = Inr (UTF8_ACCEPT, cs)"
proof -
  let ?t = "next_state s (unat b)"
  obtain c1 where 1: "utf8_decode (of_nat s) c (ucast b) = Inr (of_nat ?t, c1)"
    "utf8_input (of_nat s) c b = Inr (if s = 1 then 0 else of_nat ?t, c1, if ?t = 0 then Some c1 else None)"
    using utf8_input_step [OF assms(2), of c b] by blast
  have t: "?t = 1" using assms(1) 1(1) of_nat_state_eq [OF next_state_less, of 1] by (simp add: UTF8_REJECT_def)
  obtain c2 where "utf8_input (of_nat 1) c1 x = Inr (0, c2, None)"
    using utf8_input_step [of 1 c1 x] by (auto simp: next_state_def tail_ok_def)
  then show ?thesis using 1(2) t assms(3) utf8_stream_encoded [OF assms(4), of c2] by simp
qed

end
