(* ===== verification/Script_Io.thy ===== *)
theory Script_Io
  imports Utf8 Translate
begin

text \<open>
  The data paths of a running script (script.c): the buffer of characters for the script's
  standard input, the decoding of its standard output towards the remote side and of its
  standard error towards the lines on the screen.  The number of bytes that \<open>write()\<close> takes
  and the bytes that \<open>read()\<close> delivers are arguments.  Starting, stopping and pausing the
  process is not modelled.
\<close>

section \<open>Data\<close>

record script_io =
  print_buffer :: "byte list"
  print_buffer_full :: bool
  print_buffer_empty :: bool
  running :: bool
  paused :: bool
  stdout_buffer :: "byte list"
  stdout_utf8_state :: u32
  stderr_buffer :: "byte list"
  stderr_utf8_state :: u32
  stderr_utf8_buffer :: "u32 list"
  stderr_lines :: "u32 list list"

abbreviation (input) print_buffer_size :: nat where
  "print_buffer_size \<equiv> 512"

abbreviation (input) script_buffer_size :: nat where
  "script_buffer_size \<equiv> 4096"

section \<open>To the script\<close>

definition update_print_buffer_flags :: "script_io \<Rightarrow> script_io" where
  "update_print_buffer_flags s =
     s\<lparr>print_buffer_full := print_buffer_size - 4 \<le> length (print_buffer s),
       print_buffer_empty := (length (print_buffer s) = 0)\<rparr>"

definition script_print_character :: "u32 \<Rightarrow> script_io \<Rightarrow> script_io run" where
  "script_print_character ch s =
     (if paused s then Inr s
      else if \<not> running s then Inr (update_print_buffer_flags (s\<lparr>print_buffer := []\<rparr>))
      else if print_buffer_full s then Inr s
      else let b = print_buffer s @ utf8_encode ch
           in check (length b \<le> print_buffer_size) Buffer_overflow
                (Inr (update_print_buffer_flags (s\<lparr>print_buffer := b\<rparr>))))"

text \<open>\<open>rc\<close> is the result of \<open>write()\<close>; a negative one leaves the buffer alone.\<close>

definition script_write_stdin :: "int \<Rightarrow> script_io \<Rightarrow> (byte list \<times> script_io) run" where
  "script_write_stdin rc s =
     (if rc < 0 then Inr ([], s)
      else check (nat rc \<le> length (print_buffer s)) Assert_failed
        (Inr (take (nat rc) (print_buffer s), update_print_buffer_flags (s\<lparr>print_buffer := drop (nat rc) (print_buffer s)\<rparr>))))"

section \<open>From the script\<close>

definition script_put :: "bool \<Rightarrow> translate \<Rightarrow> u32 \<Rightarrow> byte list" where
  "script_put utf8 t c = (if utf8 then utf8_encode (translate_unicode_out t c) else [ucast (c AND 0xFF)])"

text \<open>
  The loop over the bytes of standard output: \<open>last_st\<close> is the decoder state when the loop
  started, \<open>c\<close> the value so far; the result is the state, the bytes left over and the output.
\<close>

fun stdout_loop :: "bool \<Rightarrow> translate \<Rightarrow> nat \<Rightarrow> u32 \<Rightarrow> u32 \<Rightarrow> u32 \<Rightarrow> byte list \<Rightarrow> byte list \<Rightarrow> (u32 \<times> byte list \<times> byte list) run" where
  "stdout_loop utf8 t output_max last_st st c [] out = Inr (st, [], out)"
| "stdout_loop utf8 t output_max last_st st c (b # bs) out =
     andthen (utf8_decode st c (ucast b)) (\<lambda>(st', c').
       if last_st = st' \<and> st' \<noteq> UTF8_ACCEPT then stdout_loop utf8 t output_max last_st 0 c' bs out
       else if st' \<noteq> UTF8_ACCEPT then stdout_loop utf8 t output_max last_st st' c' bs out
       else let out' = out @ script_put utf8 t c'
            in check (length out' \<le> output_max) Buffer_overflow
              (if (of_nat output_max - of_nat (length out') :: u32) < 4 then Inr (st', bs, out')
               else stdout_loop utf8 t output_max last_st st' (if utf8 then translate_unicode_out t c' else c') bs out'))"

text \<open>
  One call with the bytes that \<open>read()\<close> delivered; \<open>garbage\<close> is what the uninitialised local
  variable \<open>utf8_char\<close> holds.
\<close>

definition script_stdout :: "bool \<Rightarrow> translate \<Rightarrow> nat \<Rightarrow> u32 \<Rightarrow> byte list \<Rightarrow> byte list \<Rightarrow> script_io \<Rightarrow> (byte list \<times> script_io) run" where
  "script_stdout utf8 t output_max garbage new out s =
     check (length (stdout_buffer s) + length new \<le> script_buffer_size) Buffer_overflow
       (andthen (stdout_loop utf8 t output_max (stdout_utf8_state s) (stdout_utf8_state s) garbage (stdout_buffer s @ new) out)
         (\<lambda>(st, rest, out'). Inr (out', s\<lparr>stdout_utf8_state := st, stdout_buffer := rest\<rparr>)))"

fun stderr_loop :: "u32 \<Rightarrow> u32 \<Rightarrow> u32 \<Rightarrow> byte list \<Rightarrow> u32 list \<Rightarrow> (u32 \<times> byte list \<times> u32 list) run" where
  "stderr_loop last_st st c [] out = Inr (st, [], out)"
| "stderr_loop last_st st c (b # bs) out =
     andthen (utf8_decode st c (ucast b)) (\<lambda>(st', c').
       if last_st = st' \<and> st' \<noteq> UTF8_ACCEPT then stderr_loop last_st 0 c' bs out
       else if st' \<noteq> UTF8_ACCEPT then stderr_loop last_st st' c' bs out
       else check (length out < script_buffer_size) Buffer_overflow
         (if length (out @ [c']) = script_buffer_size then Inr (st', bs, out @ [c'])
          else stderr_loop last_st st' c' bs (out @ [c'])))"

text \<open>The lines, the current one first; \<open>width\<close> is the width of the screen.\<close>

definition stderr_put :: "nat \<Rightarrow> u32 \<Rightarrow> u32 list list \<Rightarrow> u32 list list" where
  "stderr_put width c ls =
     (let ls1 = (case ls of [] \<Rightarrow> [[]] | _ \<Rightarrow> ls);
          ls2 = (if (c = 13 \<or> c = 10 \<or> length (hd ls1) = width) \<and> hd ls1 \<noteq> [] then [] # ls1 else ls1)
      in if c \<noteq> 13 \<and> c \<noteq> 10 then (hd ls2 @ [c]) # tl ls2 else ls2)"

definition print_stderr :: "nat \<Rightarrow> script_io \<Rightarrow> script_io" where
  "print_stderr width s =
     s\<lparr>stderr_lines := fold (stderr_put width) (stderr_utf8_buffer s) (case stderr_lines s of [] \<Rightarrow> [[]] | ls \<Rightarrow> ls),
       stderr_utf8_buffer := []\<rparr>"

definition script_stderr :: "nat \<Rightarrow> u32 \<Rightarrow> byte list \<Rightarrow> script_io \<Rightarrow> script_io run" where
  "script_stderr width garbage new s =
     check (length (stderr_buffer s) + length new \<le> script_buffer_size) Buffer_overflow
       (andthen (stderr_loop (stderr_utf8_state s) (stderr_utf8_state s) garbage (stderr_buffer s @ new) (stderr_utf8_buffer s))
         (\<lambda>(st, rest, out). Inr (print_stderr width
            (s\<lparr>stderr_utf8_state := st, stderr_buffer := rest, stderr_utf8_buffer := out\<rparr>))))"

section \<open>The input side\<close>

datatype script_event = Print u32 | Write int

fun script_events :: "script_event list \<Rightarrow> script_io \<Rightarrow> (byte list \<times> script_io) run" where
  "script_events [] s = Inr ([], s)"
| "script_events (Print c # es) s = andthen (script_print_character c s) (script_events es)"
| "script_events (Write rc # es) s =
     andthen (script_write_stdin (min rc (int (length (print_buffer s)))) s) (\<lambda>(w, s1).
       andthen (script_events es s1) (\<lambda>(ws, s2). Inr (w @ ws, s2)))"

definition print_inv :: "script_io \<Rightarrow> bool" where
  "print_inv s \<longleftrightarrow> running s \<and> \<not> paused s \<and> length (print_buffer s) \<le> 511 \<and>
     print_buffer_full s = (508 \<le> length (print_buffer s))"

text \<open>The characters of the events that find room.\<close>

fun taken :: "script_event list \<Rightarrow> nat \<Rightarrow> u32 list" where
  "taken [] n = []"
| "taken (Print c # es) n = (if 508 \<le> n then taken es n else c # taken es (n + length (utf8_encode c)))"
| "taken (Write rc # es) n = taken es (n - nat (min rc (int n)))"

lemma utf8_encode_length: "length (utf8_encode c) \<le> 4"
  by (simp add: utf8_encode_def)

lemma script_events_run:
  "print_inv s \<Longrightarrow> \<exists>w s'. script_events es s = Inr (w, s') \<and> print_inv s' \<and>
     w @ print_buffer s' = print_buffer s @ concat (map utf8_encode (taken es (length (print_buffer s))))"
proof (induction es arbitrary: s)
  case (Cons e es)
  show ?case
  proof (cases e)
    case (Print c)
    let ?s = "update_print_buffer_flags (s\<lparr>print_buffer := print_buffer s @ utf8_encode c\<rparr>)"
    show ?thesis
    proof (cases "print_buffer_full s")
      case True
      then show ?thesis using Cons.IH [OF Cons.prems] Cons.prems Print
        by (auto simp: script_print_character_def print_inv_def)
    next
      case False
      then have "length (print_buffer s) < 508" using Cons.prems by (simp add: print_inv_def)
      then have "script_print_character c s = Inr ?s" "print_inv ?s"
        using Cons.prems False utf8_encode_length [of c]
        by (simp_all add: script_print_character_def print_inv_def update_print_buffer_flags_def Let_def)
      then show ?thesis using Cons.IH [of ?s] Print \<open>length (print_buffer s) < 508\<close>
        by (auto simp: update_print_buffer_flags_def)
    qed
  next
    case (Write rc)
    let ?n = "nat (min rc (int (length (print_buffer s))))"
    let ?s = "if rc < 0 then s else update_print_buffer_flags (s\<lparr>print_buffer := drop ?n (print_buffer s)\<rparr>)"
    have w: "script_write_stdin (min rc (int (length (print_buffer s)))) s = Inr (take ?n (print_buffer s), ?s)"
      by (auto simp: script_write_stdin_def)
    have "print_inv ?s" using Cons.prems by (auto simp: print_inv_def update_print_buffer_flags_def)
    then obtain w' s' where IH: "script_events es ?s = Inr (w', s')" "print_inv s'"
      "w' @ print_buffer s' = print_buffer ?s @ concat (map utf8_encode (taken es (length (print_buffer ?s))))"
      using Cons.IH by blast
    have b: "print_buffer ?s = drop ?n (print_buffer s)" by (auto simp: update_print_buffer_flags_def)
    have "script_events (e # es) s = Inr (take ?n (print_buffer s) @ w', s')" using w IH(1) Write by simp
    moreover have "taken (e # es) (length (print_buffer s)) = taken es (length (drop ?n (print_buffer s)))" using Write by simp
    ultimately show ?thesis using IH(2,3) unfolding b
      by (intro exI [of _ "take ?n (print_buffer s) @ w'"] exI [of _ s']) simp
  qed
qed auto

section \<open>The output side\<close>

lemma script_put_length: "length (script_put utf8 t c) \<le> 4"
  using utf8_encode_length by (simp add: script_put_def)

lemma u32_room: "n + 4 \<le> m \<Longrightarrow> m < 2 ^ 32 \<Longrightarrow> \<not> (of_nat m - of_nat n :: u32) < 4"
proof -
  assume "n + 4 \<le> m" "m < 2 ^ 32"
  moreover from this have "of_nat m - of_nat n = (of_nat (m - n) :: u32)" by (subst of_nat_diff) simp_all
  ultimately show ?thesis by (simp only: word_less_nat_alt unat_of_nat) simp
qed

lemma stdout_loop_text:
  assumes "utf8_text (of_nat s) c bs = Some cs" "s < 9" "s \<noteq> 1" "length out + 4 * length bs + 4 \<le> output_max" "output_max < 2 ^ 32"
  shows "stdout_loop utf8 t output_max UTF8_ACCEPT (of_nat s) c bs out = Inr (UTF8_ACCEPT, [], out @ concat (map (script_put utf8 t) cs))"
  using assms(1-4)
proof (induction bs arbitrary: s c cs out)
  case Nil
  then show ?case by (simp split: if_splits)
next
  case (Cons b bs)
  let ?t = "next_state s (unat b)"
  obtain c' where d: "utf8_decode (of_nat s) c (ucast b) = Inr (of_nat ?t, c')" using decode_byte [OF Cons.prems(2)] by blast
  have e: "(of_nat ?t :: u32) = 1 \<longleftrightarrow> ?t = 1" "(of_nat ?t :: u32) = 0 \<longleftrightarrow> ?t = 0"
    using of_nat_state_eq [OF next_state_less, of 1] of_nat_state_eq [OF next_state_less, of 0] by auto
  have t: "?t \<noteq> 1" using Cons.prems(1) d e by (auto simp: utf8_text.simps(2) UTF8_REJECT_def)
  show ?case
  proof (cases "?t = 0")
    case True
    then obtain cs' where cs: "cs = c' # cs'" "utf8_text (of_nat 0) c' bs = Some cs'"
      using Cons.prems(1) d t by (auto simp: utf8_text.simps(2) UTF8_REJECT_def UTF8_ACCEPT_def)
    let ?c = "if utf8 then translate_unicode_out t c' else c'" and ?out = "out @ script_put utf8 t c'"
    have "utf8_text (of_nat 0) ?c bs = Some cs'" using cs(2) utf8_text_any [of c' bs] utf8_text_any [of ?c bs] by simp
    then have IH: "stdout_loop utf8 t output_max UTF8_ACCEPT (of_nat 0) ?c bs ?out =
        Inr (UTF8_ACCEPT, [], ?out @ concat (map (script_put utf8 t) cs'))"
      using Cons.prems(4) script_put_length [of utf8 t c'] by (intro Cons.IH) simp_all
    have "length ?out + 4 \<le> output_max" using Cons.prems(4) script_put_length [of utf8 t c'] by simp
    then show ?thesis using d True cs(1) IH u32_room [OF _ assms(5), of "length ?out"]
      by (simp add: UTF8_ACCEPT_def Let_def)
  next
    case False
    then have "utf8_text (of_nat ?t) c' bs = Some cs"
      using Cons.prems(1) d t e by (simp add: utf8_text.simps(2) UTF8_REJECT_def UTF8_ACCEPT_def)
    then have "stdout_loop utf8 t output_max UTF8_ACCEPT (of_nat ?t) c' bs out = Inr (UTF8_ACCEPT, [], out @ concat (map (script_put utf8 t) cs))"
      using Cons.prems(4) t by (intro Cons.IH) (simp_all add: next_state_less)
    then show ?thesis using d False e by (auto simp: UTF8_ACCEPT_def)
  qed
qed


section \<open>Properties\<close>

definition sample_script :: script_io where
  "sample_script =
     \<lparr>print_buffer = [], print_buffer_full = False, print_buffer_empty = True, running = True, paused = False,
      stdout_buffer = [], stdout_utf8_state = UTF8_ACCEPT, stderr_buffer = [], stderr_utf8_state = UTF8_ACCEPT,
      stderr_utf8_buffer = [], stderr_lines = []\<rparr>"

text \<open>
  However characters for a running script and writes to it alternate, the print buffer
  is never overrun, and what the script has been given, followed by what still waits in the
  buffer, is the UTF-8 text of the characters that found room: a character is passed on
  whole or not at all, in order.
\<close>

lemma script_stdin_is_text:
  assumes "running s" "\<not> paused s" "print_buffer s = []" "\<not> print_buffer_full s"
  shows "\<exists>w s'. script_events es s = Inr (w, s') \<and> length (print_buffer s') < print_buffer_size \<and>
    w @ print_buffer s' = concat (map utf8_encode (taken es 0))"
  using script_events_run [of s es] assms by (auto simp: print_inv_def)

text \<open>
  C39.  A piece of standard output that holds whole characters and comes while the decoder is
  between two characters is put into the output buffer completely and in order, when the buffer
  has room for four bytes for every byte of the piece and four more (1023 bytes when it is
  empty): for the UTF-8 emulations each character translated and encoded again, for the 8-bit
  emulations its low byte.  A comment in the code says of the latter that the character is mapped
  back to the codepage; the value computed for that is overwritten (a defect).
\<close>

theorem script_stdout_sends_text:
  assumes "stdout_utf8_state s = UTF8_ACCEPT" "stdout_buffer s = []" "list_all scalar cs"
    and "length (concat (map utf8_encode cs)) \<le> 4096"
    and "length out + 4 * length (concat (map utf8_encode cs)) + 4 \<le> output_max" "output_max < 2 ^ 32"
  shows "script_stdout utf8 t output_max garbage (concat (map utf8_encode cs)) out s =
    Inr (out @ concat (map (script_put utf8 t) cs), s)"
proof -
  let ?bs = "concat (map utf8_encode cs)"
  have "utf8_text (of_nat 0) garbage ?bs = Some cs" using utf8_text_complete [OF assms(3)] utf8_text_any [of garbage ?bs] by simp
  from stdout_loop_text [OF this _ _ assms(5,6)]
  have "stdout_loop utf8 t output_max UTF8_ACCEPT UTF8_ACCEPT garbage ?bs out = Inr (UTF8_ACCEPT, [], out @ concat (map (script_put utf8 t) cs))"
    by (simp add: UTF8_ACCEPT_def)
  then show ?thesis using assms(1,2,4) by (simp add: script_stdout_def)
qed

theorem script_stdout_sends_text_witness:
  "script_stdout True sample_translate 4096 7 (concat (map utf8_encode [0x41, 0x20AC])) [] sample_script =
     Inr ([] @ concat (map (script_put True sample_translate) [0x41, 0x20AC]), sample_script)"
proof (rule script_stdout_sends_text)
  have "length (concat (map utf8_encode [0x41, 0x20AC])) \<le> 8"
    using utf8_encode_length [of "0x41"] utf8_encode_length [of "0x20AC"] by simp
  then show "length (concat (map utf8_encode [0x41, 0x20AC])) \<le> 4096"
    "length ([] :: byte list) + 4 * length (concat (map utf8_encode [0x41, 0x20AC])) + 4 \<le> 4096" by simp_all
qed (simp_all add: sample_script_def scalar_def)

text \<open>
  A character whose bytes come in two pieces spoils the second piece: the value decoded
  so far is lost with the local variable that held it, and the next character with as many
  bytes left as the split one is taken for a bad one and dropped with all that follows.  So
  of two letters "e" with acute accent, split after the first byte, one character with an
  arbitrary value arrives and the decoder ends in its rejecting state.
\<close>

lemma script_split_character_lost:
  "\<exists>s1 s2. script_stdout True sample_translate 4096 0 [0xC3] [] sample_script = Inr ([], s1) \<and>
     script_stdout True sample_translate 4096 garbage [0xA9, 0xC3, 0xA9] [] s1 =
       Inr (utf8_encode (translate_unicode_out sample_translate (0x29 OR push_bit 6 garbage)), s2) \<and>
     stdout_utf8_state s2 = UTF8_REJECT"
proof -
  have d: "utf8_decode 0 c 0xC3 = Inr (2, 3)" "utf8_decode 2 c 0xA9 = Inr (0, 0x29 OR push_bit 6 c)" "utf8_decode 0 c 0xA9 = Inr (1, 1)" for c
    by (simp_all add: utf8_decode_def utf8d_def UTF8_ACCEPT_def Let_def)
  let ?v = "0x29 OR push_bit 6 garbage"
  let ?out = "script_put True sample_translate ?v"
  have "length ?out + 4 \<le> 4096" using script_put_length [of True sample_translate ?v] by simp
  then have "stdout_loop True sample_translate 4096 2 2 garbage [0xA9, 0xC3, 0xA9] [] = Inr (1, [], ?out)"
    using d u32_room [of "length ?out" 4096] by (simp add: UTF8_ACCEPT_def Let_def)
  moreover have "stdout_loop True sample_translate 4096 0 0 0 [0xC3] [] = Inr (2, [], [])"
    using d by (simp add: UTF8_ACCEPT_def)
  ultimately show ?thesis
    by (simp add: script_stdout_def sample_script_def script_put_def UTF8_ACCEPT_def UTF8_REJECT_def)
qed

end
