(* ===== verification/Ebcdic.thy ===== *)
theory Ebcdic
  imports Translate
begin

text \<open>
  The EBCDIC translation that translate.c writes into the data directory when it is
  missing, and the start of the translation module.
\<close>

definition ebcdic_to_cp437 :: "nat list" where
  "ebcdic_to_cp437 =
    [0, 1, 2, 3, 0xEC, 9, 0xCA, 0x1C, 0xE2, 0xD2, 0xD3, 0x0B, 0x0C, 0x0D, 0x0E, 0x0F,
     0x10, 0x11, 0x12, 0x13, 0xEF, 0xC5, 8, 0xCB, 0x18, 0x19, 0xDC, 0xD8, 0x1A, 0x1D, 0x1E, 0x1F,
     0xB7, 0xB8, 0xB9, 0xBB, 0xC4, 0x0A, 0x17, 0x1B, 0xCC, 0xCD, 0xCF, 0xD0, 0xD1, 5, 6, 7,
     0xD9, 0xDA, 0x16, 0xDD, 0xDE, 0xDF, 0xE0, 4, 0xE3, 0xE5, 0xE9, 0xEB, 0xB0, 0xB1, 0x9E, 0x7F,
     0x20, 0xFF, 0x83, 0x84, 0x85, 0xA0, 0xF2, 0x86, 0x87, 0xA4, 0x5B, 0x2E, 0x3C, 0x28, 0x2B, 0x21,
     0x26, 0x82, 0x88, 0x89, 0x8A, 0xA1, 0x8C, 0x8B, 0x8D, 0xE1, 0x5D, 0x24, 0x2A, 0x29, 0x3B, 0x5E,
     0x2D, 0x2F, 0xB2, 0x8E, 0xB4, 0xB5, 0xB6, 0x8F, 0x80, 0xA5, 0xB3, 0x2C, 0x25, 0x5F, 0x3E, 0x3F,
     0xBA, 0x90, 0xBC, 0xBD, 0xBE, 0xF3, 0xC0, 0xC1, 0xC2, 0x60, 0x3A, 0x23, 0x40, 0x27, 0x3D, 0x22,
     0xC3, 0x61, 0x62, 0x63, 0x64, 0x65, 0x66, 0x67, 0x68, 0x69, 0xAE, 0xAF, 0xC6, 0xC7, 0xC8, 0xF1,
     0xF8, 0x6A, 0x6B, 0x6C, 0x6D, 0x6E, 0x6F, 0x70, 0x71, 0x72, 0xA6, 0xA7, 0x91, 0xCE, 0x92, 0xA9,
     0xE6, 0x7E, 0x73, 0x74, 0x75, 0x76, 0x77, 0x78, 0x79, 0x7A, 0xAD, 0xA8, 0xD4, 0xD5, 0xD6, 0xD7,
     0x9B, 0x9C, 0x9D, 0xFA, 0x9F, 0x15, 0x14, 0xAC, 0xAB, 0xFC, 0xAA, 0x7C, 0xE4, 0xFE, 0xBF, 0xE7,
     0x7B, 0x41, 0x42, 0x43, 0x44, 0x45, 0x46, 0x47, 0x48, 0x49, 0xE8, 0x93, 0x94, 0x95, 0xA2, 0xED,
     0x7D, 0x4A, 0x4B, 0x4C, 0x4D, 0x4E, 0x4F, 0x50, 0x51, 0x52, 0xEE, 0x96, 0x81, 0x97, 0xA3, 0x98,
     0x5C, 0xF6, 0x53, 0x54, 0x55, 0x56, 0x57, 0x58, 0x59, 0x5A, 0xFD, 0xF5, 0x99, 0xF7, 0xF0, 0xF9,
     0x30, 0x31, 0x32, 0x33, 0x34, 0x35, 0x36, 0x37, 0x38, 0x39, 0xDB, 0xFB, 0x9A, 0xF4, 0xEA, 0xC9]"

definition cp437_to_ebcdic :: "nat list" where
  "cp437_to_ebcdic =
    [0, 1, 2, 3, 0x37, 0x2D, 0x2E, 0x2F, 0x16, 5, 0x25, 0x0B, 0x0C, 0x0D, 0x0E, 0x0F,
     0x10, 0x11, 0x12, 0x13, 0xB6, 0xB5, 0x32, 0x26, 0x18, 0x19, 0x1C, 0x27, 7, 0x1D, 0x1E, 0x1F,
     0x40, 0x4F, 0x7F, 0x7B, 0x5B, 0x6C, 0x50, 0x7D, 0x4D, 0x5D, 0x5C, 0x4E, 0x6B, 0x60, 0x4B, 0x61,
     0xF0, 0xF1, 0xF2, 0xF3, 0xF4, 0xF5, 0xF6, 0xF7, 0xF8, 0xF9, 0x7A, 0x5E, 0x4C, 0x7E, 0x6E, 0x6F,
     0x7C, 0xC1, 0xC2, 0xC3, 0xC4, 0xC5, 0xC6, 0xC7, 0xC8, 0xC9, 0xD1, 0xD2, 0xD3, 0xD4, 0xD5, 0xD6,
     0xD7, 0xD8, 0xD9, 0xE2, 0xE3, 0xE4, 0xE5, 0xE6, 0xE7, 0xE8, 0xE9, 0x4A, 0xE0, 0x5A, 0x5F, 0x6D,
     0x79, 0x81, 0x82, 0x83, 0x84, 0x85, 0x86, 0x87, 0x88, 0x89, 0x91, 0x92, 0x93, 0x94, 0x95, 0x96,
     0x97, 0x98, 0x99, 0xA2, 0xA3, 0xA4, 0xA5, 0xA6, 0xA7, 0xA8, 0xA9, 0xC0, 0xBB, 0xD0, 0xA1, 0x3F,
     0x68, 0xDC, 0x51, 0x42, 0x43, 0x44, 0x47, 0x48, 0x52, 0x53, 0x54, 0x57, 0x56, 0x58, 0x63, 0x67,
     0x71, 0x9C, 0x9E, 0xCB, 0xCC, 0xCD, 0xDB, 0xDD, 0xDF, 0xEC, 0xFC, 0xB0, 0xB1, 0xB2, 0x3E, 0xB4,
     0x45, 0x55, 0xCE, 0xDE, 0x49, 0x69, 0x9A, 0x9B, 0xAB, 0x9F, 0xBA, 0xB8, 0xB7, 0xAA, 0x8A, 0x8B,
     0x3C, 0x3D, 0x62, 0x6A, 0x64, 0x65, 0x66, 0x20, 0x21, 0x22, 0x70, 0x23, 0x72, 0x73, 0x74, 0xBE,
     0x76, 0x77, 0x78, 0x80, 0x24, 0x15, 0x8C, 0x8D, 0x8E, 0xFF, 6, 0x17, 0x28, 0x29, 0x9D, 0x2A,
     0x2B, 0x2C, 9, 0x0A, 0xAC, 0xAD, 0xAE, 0xAF, 0x1B, 0x30, 0x31, 0xFA, 0x1A, 0x33, 0x34, 0x35,
     0x36, 0x59, 8, 0x38, 0xBC, 0x39, 0xA0, 0xBF, 0xCA, 0x3A, 0xFE, 0x3B, 4, 0xCF, 0xDA, 0x14,
     0xEE, 0x8F, 0x46, 0x75, 0xFD, 0xEB, 0xE1, 0xED, 0x90, 0xEF, 0xB3, 0xFB, 0xB9, 0xEA, 0xBD, 0x41]"

definition create_ebcdic_file :: "cstring \<Rightarrow> translate \<Rightarrow> translate" where
  "create_ebcdic_file filename s =
     (if data_files s filename \<noteq> None then s
      else save_translate_tables_8bit filename (map of_nat ebcdic_to_cp437) (map of_nat cp437_to_ebcdic) s)"

definition EBCDIC_FILENAME :: cstring where "EBCDIC_FILENAME = ascii ''ebcdic.xl8''"
definition DEFAULT_8BIT_FILENAME :: cstring where "DEFAULT_8BIT_FILENAME = ascii ''default.xl8''"
definition DEFAULT_UNICODE_FILENAME :: cstring where "DEFAULT_UNICODE_FILENAME = ascii ''default.xlu''"

definition initialize_translate_tables :: "translate \<Rightarrow> translate" where
  "initialize_translate_tables s =
     create_ebcdic_file EBCDIC_FILENAME
       (use_translate_table_unicode DEFAULT_UNICODE_FILENAME
         (use_translate_table_8bit DEFAULT_8BIT_FILENAME
           (s\<lparr>table_8bit_input := reset_table_8bit, table_8bit_output := reset_table_8bit,
              table_unicode_input := reset_table_unicode, table_unicode_output := reset_table_unicode\<rparr>)))"

lemma ebcdic_inverse: "map ((!) ebcdic_to_cp437) cp437_to_ebcdic = [0..<256]"
  by (simp add: cp437_to_ebcdic_def ebcdic_to_cp437_def upt_conv_Cons)

lemma ebcdic_bytes: "length ebcdic_to_cp437 = 256" "length cp437_to_ebcdic = 256" "list_all (\<lambda>n. n < 256) cp437_to_ebcdic"
  by (simp_all add: ebcdic_to_cp437_def cp437_to_ebcdic_def)

lemma ebcdic_nth:
  assumes "n < 256"
  shows "cp437_to_ebcdic ! n < 256" "ebcdic_to_cp437 ! (cp437_to_ebcdic ! n) = n"
  using assms ebcdic_bytes arg_cong [OF ebcdic_inverse, of "\<lambda>l. l ! n"] by (simp_all add: list_all_length)

lemma initialize_writes:
  assumes "\<not> read_only s" "\<And>f. may_write s f" "data_files s EBCDIC_FILENAME = None"
  defines "i \<equiv> initialize_translate_tables s"
  obtains t where "i = save_translate_tables_8bit EBCDIC_FILENAME (map of_nat ebcdic_to_cp437) (map of_nat cp437_to_ebcdic) t"
    "\<not> read_only t" "may_write t EBCDIC_FILENAME"
proof -
  have ne: "EBCDIC_FILENAME \<noteq> DEFAULT_8BIT_FILENAME" "EBCDIC_FILENAME \<noteq> DEFAULT_UNICODE_FILENAME"
    by (simp_all add: EBCDIC_FILENAME_def DEFAULT_8BIT_FILENAME_def DEFAULT_UNICODE_FILENAME_def ascii_def)
  have u8: "read_only (use_translate_table_8bit f t) = read_only t" "may_write (use_translate_table_8bit f t) = may_write t"
    "g \<noteq> f \<Longrightarrow> data_files (use_translate_table_8bit f t) g = data_files t g" for f g t
    by (simp_all add: use_translate_table_8bit_def load_translate_tables_8bit_def save_translate_tables_8bit_def
        split: option.split prod.split)
  have uu: "read_only (use_translate_table_unicode f t) = read_only t" "may_write (use_translate_table_unicode f t) = may_write t"
    "g \<noteq> f \<Longrightarrow> data_files (use_translate_table_unicode f t) g = data_files t g" for f g t
    by (simp_all add: use_translate_table_unicode_def load_translate_tables_unicode_def save_translate_tables_unicode_def
        split: option.split prod.split)
  show ?thesis
    by (rule that [of "use_translate_table_unicode DEFAULT_UNICODE_FILENAME (use_translate_table_8bit DEFAULT_8BIT_FILENAME
         (s\<lparr>table_8bit_input := reset_table_8bit, table_8bit_output := reset_table_8bit,
            table_unicode_input := reset_table_unicode, table_unicode_output := reset_table_unicode\<rparr>))"]) (use assms(1-3) ne in \<open>simp_all add: i_def initialize_translate_tables_def create_ebcdic_file_def u8 uu\<close>)
qed

text \<open>
  C38.  On a first start, when there is no EBCDIC file yet, one is written from which the
  program later loads two tables that undo each other: a byte translated for the remote
  side and back is the same byte.
\<close>

theorem ebcdic_translation_reversible:
  assumes "\<not> read_only s" "\<And>f. may_write s f" "data_files s EBCDIC_FILENAME = None"
  shows "let u = use_translate_table_8bit EBCDIC_FILENAME (initialize_translate_tables s)
    in translate_8bit_in u (translate_8bit_out u b) = b"
proof -
  obtain t where t: "initialize_translate_tables s =
      save_translate_tables_8bit EBCDIC_FILENAME (map of_nat ebcdic_to_cp437) (map of_nat cp437_to_ebcdic) t"
    "\<not> read_only t" "may_write t EBCDIC_FILENAME" using initialize_writes [OF assms] by blast
  let ?u = "use_translate_table_8bit EBCDIC_FILENAME (initialize_translate_tables s)"
  have "data_files (initialize_translate_tables s) EBCDIC_FILENAME \<noteq> None"
    using t by (simp add: save_translate_tables_8bit_def)
  then have "?u = load_translate_tables_8bit EBCDIC_FILENAME (initialize_translate_tables s)"
    by (simp only: use_translate_table_8bit_def if_False)
  then have u: "table_8bit_input ?u = map of_nat ebcdic_to_cp437" "table_8bit_output ?u = map of_nat cp437_to_ebcdic"
    using load_after_save_8bit [OF t(2,3), of "map of_nat ebcdic_to_cp437" "map of_nat cp437_to_ebcdic"] t(1) ebcdic_bytes
    by simp_all
  have b: "unat b < 256" by (rule unat_byte_256)
  have "unat (of_nat (cp437_to_ebcdic ! unat b) :: byte) = cp437_to_ebcdic ! unat b" using ebcdic_nth(1) [OF b] by (simp add: unat_of_nat)
  then show ?thesis
    using u ebcdic_nth [OF b] b ebcdic_bytes by (simp add: translate_8bit_in_def translate_8bit_out_def Let_def of_nat_unat)
qed

theorem ebcdic_translation_reversible_witness:
  "let u = use_translate_table_8bit EBCDIC_FILENAME (initialize_translate_tables sample_translate)
   in translate_8bit_in u (translate_8bit_out u 0x41) = 0x41"
  by (rule ebcdic_translation_reversible) (simp_all add: sample_translate_def)

end
