(* ===== verification/Zmodem_Codec.thy ===== *)
theory Zmodem_Codec
  imports Check_Registers
begin

text \<open>
  The byte layer of the Zmodem engine (zmodem.c): the CRC-16 loop, the CRC-32 table and
  loop, hexadecimal headers, the escape map with \<open>encode_byte\<close>, and the encoding and
  decoding of data subpackets.  The static tables (\<open>crc_32_tab\<close>, \<open>encode_byte_map\<close>) are
  arguments.  An output buffer is the list of the bytes written to it so far; a write the
  source does not guard is checked against the size of the buffer here.
\<close>

section \<open>Constants\<close>

definition ZPAD :: byte where "ZPAD = 42"
definition ZCRCE :: byte where "ZCRCE = 104"
definition ZCRCG :: byte where "ZCRCG = 105"
definition ZCRCQ :: byte where "ZCRCQ = 106"
definition ZCRCW :: byte where "ZCRCW = 107"

definition TX_CAN_FULL_DUPLEX :: ulong where "TX_CAN_FULL_DUPLEX = 0x01"
definition TX_CAN_OVERLAP_IO :: ulong where "TX_CAN_OVERLAP_IO = 0x02"
definition TX_CAN_BREAK :: ulong where "TX_CAN_BREAK = 0x04"
definition TX_CAN_DECRYPT :: ulong where "TX_CAN_DECRYPT = 0x08"
definition TX_CAN_LZW :: ulong where "TX_CAN_LZW = 0x10"
definition TX_CAN_CRC32 :: ulong where "TX_CAN_CRC32 = 0x20"
definition TX_ESCAPE_CTRL :: ulong where "TX_ESCAPE_CTRL = 0x40"
definition TX_ESCAPE_8BIT :: ulong where "TX_ESCAPE_8BIT = 0x80"

lemmas zcrc_bytes = ZCRCE_def ZCRCG_def ZCRCQ_def ZCRCW_def
lemmas tx_flags = TX_CAN_FULL_DUPLEX_def TX_CAN_OVERLAP_IO_def TX_CAN_BREAK_def TX_CAN_DECRYPT_def
  TX_CAN_LZW_def TX_CAN_CRC32_def TX_ESCAPE_CTRL_def TX_ESCAPE_8BIT_def

definition ZMODEM_BLOCK_SIZE :: nat where "ZMODEM_BLOCK_SIZE = 1024"
definition ZMODEM_MAX_BLOCK_SIZE :: nat where "ZMODEM_MAX_BLOCK_SIZE = 2 * (ZMODEM_BLOCK_SIZE + 4 + 1)"

definition crc_escape :: "byte \<Rightarrow> bool" where
  "crc_escape b \<longleftrightarrow> b = ZCRCE \<or> b = ZCRCG \<or> b = ZCRCQ \<or> b = ZCRCW"

section \<open>CRC\<close>

definition compute_crc16 :: "u32 \<Rightarrow> byte list \<Rightarrow> u32" where
  "compute_crc16 crc bs = foldl crc_byte crc bs AND 0xFFFF"

text \<open>
  \<open>makecrc\<close>: eight passes, \<open>j = 128, 64, ..., 1\<close>; each shifts \<open>h\<close> once and fills the
  entries at odd multiples of \<open>j\<close>.
\<close>

definition crc32_halve :: "u32 \<Rightarrow> u32" where
  "crc32_halve h = (if h AND 1 \<noteq> 0 then drop_bit 1 h XOR 0xEDB88320 else drop_bit 1 h)"

definition makecrc_fill :: "u32 \<Rightarrow> nat \<Rightarrow> u32 list \<Rightarrow> nat list \<Rightarrow> u32 list" where
  "makecrc_fill h j = foldl (\<lambda>tab i. tab[i + j := tab ! i XOR h])"

definition makecrc_pass :: "u32 \<times> u32 list \<Rightarrow> nat \<Rightarrow> u32 \<times> u32 list" where
  "makecrc_pass hv j =
     (let h = crc32_halve (fst hv)
      in (h, makecrc_fill h j (snd hv) (filter (\<lambda>i. (j + j) dvd i) [0..<256])))"

definition makecrc :: "u32 list \<Rightarrow> u32 list" where
  "makecrc tab = snd (foldl makecrc_pass (1, tab[0 := 0]) [128, 64, 32, 16, 8, 4, 2, 1])"

definition crc32_byte :: "u32 list \<Rightarrow> u32 \<Rightarrow> byte \<Rightarrow> u32" where
  "crc32_byte tab crc b = drop_bit 8 crc XOR tab ! unat ((crc XOR ucast b) AND 0xFF)"

text \<open>\<open>None\<close> is the null buffer, which asks for the preset value.\<close>

definition compute_crc32 :: "u32 list \<Rightarrow> u32 \<Rightarrow> byte list option \<Rightarrow> u32" where
  "compute_crc32 tab old_crc buf =
     (case buf of None \<Rightarrow> 0xFFFFFFFF | Some bs \<Rightarrow> foldl (crc32_byte tab) old_crc bs XOR 0xFFFFFFFF)"

section \<open>Hexadecimal\<close>

definition hex_digits :: cstring where
  "hex_digits = ascii ''0123456789abcdefg''"

definition hexify_string :: "byte list \<Rightarrow> nat \<Rightarrow> byte list run" where
  "hexify_string inp output_max =
     check (length inp * 2 \<le> output_max) Assert_failed
       (Inr (concat (map (\<lambda>b. [hex_digits ! unat (drop_bit 4 (b AND 0xF0)), hex_digits ! unat (b AND 0x0F)]) inp)))"

definition hex_value :: "byte \<Rightarrow> byte option" where
  "hex_value b =
     (let ch = to_lower b
      in if 48 \<le> ch \<and> ch \<le> 57 then Some (ch - 48)
         else if 97 \<le> ch \<and> ch \<le> 102 then Some (ch - 97 + 0x0A) else None)"

text \<open>
  \<open>dehexify_string\<close> reads two digits at a time while fewer than \<open>n\<close> are consumed.
  \<open>None\<close> is the result \<open>Q_FALSE\<close>; the input is the array from the pointer on.
\<close>

fun dehexify_loop :: "nat \<Rightarrow> byte list \<Rightarrow> byte list option run" where
  "dehexify_loop n inp =
     (if n = 0 then Inr (Some [])
      else (case inp of
              a # b # rest \<Rightarrow>
                (case (hex_value a, hex_value b) of
                   (Some x, Some y) \<Rightarrow>
                     andthen (dehexify_loop (n - 2) rest)
                       (\<lambda>r. Inr (map_option (Cons (push_bit 4 x OR y)) r))
                 | _ \<Rightarrow> Inr None)
            | _ \<Rightarrow> Inl Buffer_overflow))"

declare dehexify_loop.simps [simp del]

definition dehexify_string :: "byte list \<Rightarrow> nat \<Rightarrow> nat \<Rightarrow> byte list option run" where
  "dehexify_string inp n output_max = check (n div 2 \<le> output_max) Assert_failed (dehexify_loop n inp)"

section \<open>Escaping\<close>

definition encode_char :: "ulong \<Rightarrow> byte \<Rightarrow> bool" where
  "encode_char flags ch \<longleftrightarrow>
     ch = C_CAN \<or> ch = C_XON \<or> ch = C_XOFF \<or> ch = C_XON OR 0x80 \<or> ch = C_XOFF OR 0x80 \<or>
     (ch < 0x20 \<and> flags AND TX_ESCAPE_CTRL \<noteq> 0) \<or> (0x80 \<le> ch \<and> ch < 0xA0) \<or>
     (ch AND 0x80 \<noteq> 0 \<and> flags AND TX_ESCAPE_8BIT \<noteq> 0)"

definition encode_entry :: "ulong \<Rightarrow> byte \<Rightarrow> byte" where
  "encode_entry flags ch =
     (if encode_char flags ch then ch OR 0x40
      else if ch = 0x7F then 108 else if ch = 0xFF then 109 else ch)"

definition setup_encode_byte_map :: "ulong \<Rightarrow> byte list" where
  "setup_encode_byte_map flags = map (\<lambda>n. encode_entry flags (of_nat n)) [0..<256]"

definition encode_byte :: "byte list \<Rightarrow> nat \<Rightarrow> byte \<Rightarrow> byte list \<Rightarrow> byte list run" where
  "encode_byte bmap output_max ch out =
     (let new_ch = bmap ! unat ch
      in check (length out + 2 \<le> output_max) Assert_failed
           (Inr (if new_ch \<noteq> ch then out @ [C_CAN, new_ch] else out @ [ch])))"

fun encode_bytes :: "byte list \<Rightarrow> nat \<Rightarrow> byte list \<Rightarrow> byte list \<Rightarrow> byte list run" where
  "encode_bytes bmap output_max [] out = Inr out"
| "encode_bytes bmap output_max (b # bs) out =
     andthen (encode_byte bmap output_max b out) (encode_bytes bmap output_max bs)"

text \<open>A store to the output buffer that the source does not guard.\<close>

definition put_raw :: "nat \<Rightarrow> byte list \<Rightarrow> byte list \<Rightarrow> byte list run" where
  "put_raw output_max bs out = check (length out + length bs \<le> output_max) Buffer_overflow (Inr (out @ bs))"

section \<open>Data subpackets\<close>

definition crc32_le :: "u32 \<Rightarrow> byte list" where
  "crc32_le crc = [ucast (crc AND 0xFF), ucast (drop_bit 8 crc AND 0xFF),
                   ucast (drop_bit 16 crc AND 0xFF), ucast (drop_bit 24 crc AND 0xFF)]"

definition crc16_be :: "u32 \<Rightarrow> byte list" where
  "crc16_be crc = [ucast (drop_bit 8 crc AND 0xFF), ucast (crc AND 0xFF)]"

text \<open>The CRC of a subpacket: the data and then the escape byte, one byte at a time.\<close>

definition zdata_crc :: "u32 list \<Rightarrow> bool \<Rightarrow> byte list \<Rightarrow> byte \<Rightarrow> byte list" where
  "zdata_crc tab crc32 bs crc_type =
     (if crc32 then
        let c0 = compute_crc32 tab 0 None;
            c1 = foldl (\<lambda>c b. NOT (compute_crc32 tab c (Some [b]))) c0 bs;
            c2 = NOT (compute_crc32 tab c1 (Some [crc_type]))
        in crc32_le (NOT c2)
      else crc16_be (compute_crc16 (compute_crc16 0 bs) [crc_type]))"

definition encode_zdata_bytes ::
  "byte list \<Rightarrow> u32 list \<Rightarrow> bool \<Rightarrow> byte list \<Rightarrow> nat \<Rightarrow> byte \<Rightarrow> byte list \<Rightarrow> byte list run" where
  "encode_zdata_bytes bmap tab crc32 bs output_max crc_type out =
     andthen (encode_bytes bmap output_max bs out) (\<lambda>o1.
     andthen (put_raw output_max [C_CAN, crc_type] o1) (\<lambda>o2.
     andthen (encode_bytes bmap output_max (zdata_crc tab crc32 bs crc_type) o2) (\<lambda>o3.
       if crc_type = ZCRCW then put_raw output_max [C_XON] o3 else Inr o3)))"

text \<open>
  \<open>decode_zdata_bytes\<close>.  The first scan looks for a CRC escape and gives up when there is
  none.  The state of the second loop is the type of the CRC escape seen, the bytes of
  \<open>output\<close>, the bytes of \<open>crc_buffer\<close> and the input index \<open>i\<close>.
\<close>

fun crc_escape_present :: "byte list \<Rightarrow> bool" where
  "crc_escape_present (b # c # bs) =
     (if b = C_CAN then crc_escape c \<or> crc_escape_present bs else crc_escape_present (c # bs))"
| "crc_escape_present _ = False"

datatype zdecode_rc = ZD_FALSE | ZD_CANCEL | ZD_TRUE

record zdecode =
  zd_type :: "byte option"
  zd_out :: "byte list"
  zd_crc :: "byte list"
  zd_i :: nat

definition unescape :: "byte \<Rightarrow> byte option" where
  "unescape c = (if c = 108 then Some 0x7F else if c = 109 then Some 0xFF
                 else if c AND 0x40 \<noteq> 0 then Some (c AND 0xBF) else None)"

definition zd_store :: "byte \<Rightarrow> zdecode \<Rightarrow> zdecode" where
  "zd_store b d = (if zd_type d = None then d\<lparr>zd_out := zd_out d @ [b]\<rparr> else d\<lparr>zd_crc := zd_crc d @ [b]\<rparr>)"

definition zd_skip :: "nat \<Rightarrow> zdecode \<Rightarrow> zdecode" where
  "zd_skip k d = d\<lparr>zd_i := zd_i d + k\<rparr>"

definition zd_done :: "nat \<Rightarrow> zdecode \<Rightarrow> bool" where
  "zd_done k d \<longleftrightarrow> zd_type d \<noteq> None \<and> length (zd_crc d) = k"

fun decode_loop :: "nat \<Rightarrow> byte list \<Rightarrow> zdecode \<Rightarrow> zdecode_rc \<times> zdecode" where
  "decode_loop k [] d = (ZD_FALSE, d)"
| "decode_loop k [b] d =
     (if b = C_CAN then (ZD_FALSE, d)
      else let d' = zd_skip 1 (zd_store b d) in if zd_done k d' then (ZD_TRUE, d') else (ZD_FALSE, d'))"
| "decode_loop k (b # c # bs) d =
     (if b \<noteq> C_CAN then
        (let d' = zd_skip 1 (zd_store b d)
         in if zd_done k d' then (ZD_TRUE, d') else decode_loop k (c # bs) d')
      else if crc_escape c then
        (if zd_type d \<noteq> None then (ZD_FALSE, d)
         else decode_loop k (c # bs) (zd_skip 1 (d\<lparr>zd_type := Some c\<rparr>)))
      else (case unescape c of
              Some x \<Rightarrow>
                (let d' = zd_skip 2 (zd_store x d)
                 in if zd_done k d' then (ZD_TRUE, d') else decode_loop k bs d')
            | None \<Rightarrow>
                if c = C_CAN then (ZD_CANCEL, d)
                else let d' = zd_skip 2 d
                     in if zd_done k d' then (ZD_TRUE, d') else decode_loop k bs d'))"

text \<open>
  \<open>inp\<close> is the whole input array and \<open>n\<close> the number of bytes in it.  On success the bytes
  consumed are shifted out, \<open>memmove(input, input + i, n - i)\<close>, which with \<open>i > n\<close> asks for
  2^32 - 1 bytes.
\<close>

definition shift_input :: "byte list \<Rightarrow> nat \<Rightarrow> nat \<Rightarrow> (byte list \<times> nat) run" where
  "shift_input inp n i =
     check (i \<le> n) Buffer_overflow (Inr (memcpy inp 0 (take (n - i) (drop i inp)), n - i))"

definition decode_zdata_bytes ::
  "bool \<Rightarrow> byte list \<Rightarrow> nat \<Rightarrow> nat \<Rightarrow> (zdecode_rc \<times> zdecode \<times> byte list \<times> nat) option run" where
  "decode_zdata_bytes crc32 inp n output_max =
     check (n \<le> output_max * 2) Assert_failed
       (if \<not> crc_escape_present (take n inp) then Inr None
        else
          let (rc, d) = decode_loop (if crc32 then 5 else 3) (take n inp)
                          \<lparr>zd_type = None, zd_out = [], zd_crc = [], zd_i = 0\<rparr>
          in check (length (zd_out d) \<le> output_max) Buffer_overflow
               (if rc \<noteq> ZD_TRUE then Inr (Some (rc, d, inp, n))
                else if zd_type d = Some ZCRCW \<and> length inp \<le> zd_i d then Inl Buffer_overflow
                else
                  let i = (if zd_type d = Some ZCRCW \<and> inp ! zd_i d = C_XON then zd_i d + 1 else zd_i d)
                  in andthen (shift_input inp n i) (\<lambda>(inp', n'). Inr (Some (rc, d, inp', n')))))"

section \<open>The CRC-32 table\<close>

abbreviation crc32_entry :: "u32 \<Rightarrow> u32" where
  "crc32_entry x \<equiv> (lfsr_right 0xEDB88320 ^^ 8) x"

lemma crc32_halve_eq: "crc32_halve = lfsr_right 0xEDB88320"
proof
  fix h show "crc32_halve h = lfsr_right 0xEDB88320 h"
    using bit_and_exp [of h 0] by (simp add: crc32_halve_def lfsr_right_def)
qed

lemma length_makecrc_fill [simp]: "length (makecrc_fill h j tab is) = length tab"
  unfolding makecrc_fill_def by (induction "is" arbitrary: tab) auto

lemma makecrc_fill_snoc:
  "makecrc_fill h j tab (is @ [i]) = (makecrc_fill h j tab is)[i + j := makecrc_fill h j tab is ! i XOR h]"
  by (simp add: makecrc_fill_def)

lemma makecrc_fill_nth:
  assumes "0 < j" "list_all (\<lambda>i. (j + j) dvd i \<and> i + j < length tab) is"
  shows "makecrc_fill h j tab is ! x = (if x \<in> (\<lambda>i. i + j) ` set is then tab ! (x - j) XOR h else tab ! x)"
  using assms(2)
proof (induction "is" arbitrary: x rule: rev_induct)
  case (snoc i "is")
  have "i \<noteq> y + j" if "(j + j) dvd y" for y
  proof
    assume "i = y + j"
    moreover have "(j + j) dvd i" using snoc.prems by simp
    ultimately have "(j + j) dvd j" using that by (simp add: dvd_add_right_iff)
    then show False using assms(1) by (auto dest: dvd_imp_le)
  qed
  then have "i \<notin> (\<lambda>i. i + j) ` set is" using snoc.prems by (auto simp: list_all_iff)
  then show ?case using snoc by (auto simp: makecrc_fill_snoc nth_list_update)
qed (simp add: makecrc_fill_def)

lemma of_nat_add_xor:
  assumes "(2 ^ Suc m) dvd i"
  shows "(of_nat (i + 2 ^ m) :: u32) = of_nat i XOR of_nat (2 ^ m)"
proof -
  have "\<not> bit i m" using assms by (auto simp: bit_iff_odd elim!: dvdE)
  then have "i AND 2 ^ m = 0" by (simp add: and_exp_eq_0_iff_not_bit)
  then have "i + 2 ^ m = i XOR 2 ^ m" by (metis disjunctive_xor_eq_or disjunctive_add_eq_or)
  then show ?thesis by (simp only: of_nat_xor_eq)
qed

definition table_from :: "nat \<Rightarrow> u32 list \<Rightarrow> bool" where
  "table_from k tab \<longleftrightarrow> length tab = 256 \<and> (\<forall>i < 256. 2 ^ k dvd i \<longrightarrow> tab ! i = crc32_entry (of_nat i))"

lemma dvd_add_le: "d dvd i \<Longrightarrow> d dvd n \<Longrightarrow> i < n \<Longrightarrow> i + d \<le> (n :: nat)"
  using dvd_imp_le [of d "n - i"] by simp

lemma makecrc_pass_table:
  assumes "table_from (Suc m) tab" "crc32_halve h = crc32_entry (of_nat (2 ^ m))" "m < 8"
  shows "table_from m (snd (makecrc_pass (h, tab) (2 ^ m)))"
proof -
  define j :: nat where "j = 2 ^ m"
  have jj: "2 ^ Suc m = j + j" and j: "0 < j" by (simp_all add: j_def)
  let ?is = "filter (\<lambda>i. (j + j) dvd i) [0..<256]"
  have len: "length tab = 256" using assms(1) by (simp add: table_from_def)
  have "(2::nat) ^ Suc m dvd 2 ^ 8" using assms(3) by (intro le_imp_power_dvd) simp
  then have dvd: "j + j dvd 256" unfolding jj by simp
  have fit: "i + j < 256" if "j + j dvd i" "i < 256" for i
    using dvd_add_le [OF that(1) dvd that(2)] j by simp
  then have "list_all (\<lambda>i. (j + j) dvd i \<and> i + j < length tab) ?is"
    by (auto simp: list_all_iff len)
  note nth = makecrc_fill_nth [OF j this, of "crc32_halve h"]
  have lin: "crc32_entry (of_nat (i + j)) = crc32_entry (of_nat i) XOR crc32_entry (of_nat j)"
    if "j + j dvd i" for i
    unfolding j_def of_nat_add_xor [OF that [folded jj]] by (rule funpow_xor) (rule lfsr_right_xor)
  have old: "tab ! i = crc32_entry (of_nat i)" if "j + j dvd i" "i < 256" for i
    using assms(1) that unfolding table_from_def jj by blast
  have "makecrc_fill (crc32_halve h) j tab ?is ! x = crc32_entry (of_nat x)" if x: "x < 256" "j dvd x" for x
  proof (cases "x \<in> (\<lambda>i. i + j) ` set ?is")
    case True
    then obtain i where i: "x = i + j" "j + j dvd i" "i < 256" by auto
    then show ?thesis using nth [of x] True lin [OF i(2)] old [OF i(2,3)] assms(2) by (simp add: j_def)
  next
    case False
    obtain q where q: "x = j * q" using x(2) by (elim dvdE)
    have "even q"
    proof (rule ccontr)
      assume "odd q"
      then obtain r where "q = 2 * r + 1" by (elim oddE)
      then have "x = (j + j) * r + j" by (simp add: q algebra_simps)
      then show False using False x(1) by auto
    qed
    then obtain r where "q = 2 * r" by (elim evenE)
    then have "x = (j + j) * r" by (simp add: q algebra_simps)
    then have "j + j dvd x" by simp
    then show ?thesis using nth [of x] False old x(1) by simp
  qed
  then show ?thesis by (simp add: table_from_def makecrc_pass_def Let_def len flip: j_def)
qed

lemma lfsr_right_exp: "Suc m < 32 \<Longrightarrow> lfsr_right p (2 ^ Suc m :: u32) = 2 ^ m"
proof -
  assume "Suc m < 32"
  then have "drop_bit 1 (2 ^ Suc m :: u32) = 2 ^ m"
    by (intro bit_word_eqI) (auto simp: bit_drop_bit_eq bit_exp_iff simp del: power_Suc)
  moreover have "\<not> bit (2 ^ Suc m :: u32) 0" by (simp add: bit_exp_iff del: power_Suc)
  ultimately show ?thesis by (simp add: lfsr_right_def del: power_Suc)
qed

lemma lfsr_right_pow: "m < 32 \<Longrightarrow> (lfsr_right p ^^ m) (2 ^ m :: u32) = 1"
  by (induction m) (simp_all add: lfsr_right_exp funpow_Suc_right del: power_Suc funpow.simps)

lemma crc32_entry_exp:
  assumes "m < 8"
  shows "crc32_entry (of_nat (2 ^ m)) = crc32_halve ((crc32_halve ^^ (7 - m)) 1)"
proof -
  have "crc32_entry (2 ^ m) = (crc32_halve ^^ (Suc (7 - m) + m)) (2 ^ m)"
    using assms by (simp add: crc32_halve_eq)
  also have "\<dots> = (crc32_halve ^^ Suc (7 - m)) 1"
    using assms unfolding funpow_add by (simp add: crc32_halve_eq lfsr_right_pow)
  finally show ?thesis by simp
qed

lemma crc32_entry_0: "crc32_entry 0 = 0"
  using crc32.step_0_0 by (simp add: crc32_step_def)

lemma makecrc_table:
  assumes "length tab = 256"
  shows "table_from 0 (makecrc tab)"
proof -
  define inv where "inv m ht \<longleftrightarrow> fst ht = (crc32_halve ^^ (8 - m)) 1 \<and> table_from m (snd ht)" for m ht
  have step: "inv m (makecrc_pass ht (2 ^ m))" if "inv (Suc m) ht" "m < 8" for ht m
  proof -
    have "8 - m = Suc (7 - m)" using that(2) by simp
    then show ?thesis
      using makecrc_pass_table [of m "snd ht" "fst ht"] crc32_entry_exp [of m] that
      by (simp add: inv_def makecrc_pass_def Let_def)
  qed
  have 8: "inv 8 (1, tab[0 := 0])"
    unfolding inv_def table_from_def using assms by (auto simp: crc32_entry_0 nth_list_update dest!: dvd_imp_le)
  have "inv 8 ht \<Longrightarrow> inv 7 (makecrc_pass ht 128)" "inv 7 ht \<Longrightarrow> inv 6 (makecrc_pass ht 64)"
    "inv 6 ht \<Longrightarrow> inv 5 (makecrc_pass ht 32)" "inv 5 ht \<Longrightarrow> inv 4 (makecrc_pass ht 16)"
    "inv 4 ht \<Longrightarrow> inv 3 (makecrc_pass ht 8)" "inv 3 ht \<Longrightarrow> inv 2 (makecrc_pass ht 4)"
    "inv 2 ht \<Longrightarrow> inv 1 (makecrc_pass ht 2)" "inv 1 ht \<Longrightarrow> inv 0 (makecrc_pass ht 1)" for ht
    using step [of 7 ht] step [of 6 ht] step [of 5 ht] step [of 4 ht] step [of 3 ht] step [of 2 ht]
      step [of 1 ht] step [of 0 ht] by (simp_all flip: numeral_2_eq_2)
  then have "inv 0 (foldl makecrc_pass (1, tab[0 := 0]) [128, 64, 32, 16, 8, 4, 2, 1])"
    using 8 by simp
  then show ?thesis by (simp only: makecrc_def inv_def)
qed

section \<open>CRC-32\<close>

lemma FF_mask: "(0xFF :: u32) = mask 8"
  by (simp add: mask_eq_exp_minus_1)

lemma crc32_byte_eq:
  assumes "table_from 0 tab"
  shows "crc32_byte tab r b = crc32_step r b"
proof -
  define x where "x = r XOR ucast b"
  have "drop_bit 8 x = drop_bit 8 r"
    unfolding x_def
    by (rule bit_word_eqI) (auto simp only: bit_drop_bit_eq o_apply bit_xor_iff bit_ucast_iff, auto dest: bit_imp_le_length)
  then have "crc32_step r b = crc32_entry (x AND mask 8) XOR drop_bit 8 r"
    unfolding crc32_step_def using lfsr_right_table [of 8 "0xEDB88320" x] by (simp add: x_def)
  moreover have "unat (x AND mask 8) < 256"
    using take_bit_nat_less_exp [of 8 "unat x"] by (simp flip: take_bit_eq_mask add: unsigned_take_bit_eq del: take_bit_nat_less_exp)
  ultimately show ?thesis using assms
    by (simp add: crc32_byte_def table_from_def FF_mask xor.commute flip: x_def)
qed

lemma foldl_crc32_byte: "table_from 0 tab \<Longrightarrow> foldl (crc32_byte tab) r bs = foldl crc32_step r bs"
  by (induction bs arbitrary: r) (simp_all add: crc32_byte_eq)

lemma xor_ones: "x XOR 0xFFFFFFFF = NOT (x :: u32)"
proof -
  have "(0xFFFFFFFF :: u32) = - 1" by simp
  then show ?thesis by (simp only: bit.xor_one_right)
qed

lemma compute_crc32_eq:
  assumes "table_from 0 tab"
  shows "compute_crc32 tab r (Some bs) = NOT (foldl crc32_step r bs)"
  by (simp add: compute_crc32_def foldl_crc32_byte [OF assms] xor_ones)

text \<open>
  The engine computes a CRC in three ways: over a buffer at once, byte by byte with the
  inversion undone after every byte, and with the table.  All are the CRC-32 of the
  standard: register preset to ones, result inverted.
\<close>

definition crc32_of :: "byte list \<Rightarrow> u32" where
  "crc32_of bs = NOT (foldl crc32_step 0xFFFFFFFF bs)"

lemma foldl_compute_crc32:
  assumes "table_from 0 tab"
  shows "foldl (\<lambda>c b. NOT (compute_crc32 tab c (Some [b]))) r bs = foldl crc32_step r bs"
  by (simp add: compute_crc32_eq [OF assms])

lemma zdata_crc32:
  assumes "table_from 0 tab"
  shows "zdata_crc tab True bs t = crc32_le (crc32_of (bs @ [t]))"
  by (simp add: zdata_crc_def Let_def foldl_compute_crc32 [OF assms] compute_crc32_eq [OF assms] crc32_of_def)
     (simp add: compute_crc32_def)

lemma compute_crc16_eq: "compute_crc16 r bs = ucast (foldl crc16_step (ucast r) bs)"
  by (simp add: compute_crc16_def and_FFFF ucast_foldl_crc_byte)

lemma ucast_16_32_16: "ucast (ucast (x :: 16 word) :: u32) = (x :: 16 word)"
  by (subst ucast_ucast_up) simp_all

lemma zdata_crc16: "zdata_crc tab False bs t = crc16_be (ucast (foldl crc16_step 0 (bs @ [t])))"
  by (simp add: zdata_crc_def compute_crc16_eq ucast_16_32_16)

section \<open>Hexadecimal round trip\<close>

lemma hex_value_digits: "list_all (\<lambda>n. hex_value (hex_digits ! n) = Some (of_nat n)) [0..<16]"
  by (simp add: upt_conv_Cons hex_value_def hex_digits_def ascii_def to_lower_def)

lemma hex_value_digit: "unat b < 16 \<Longrightarrow> hex_value (hex_digits ! unat b) = Some b"
  using hex_value_digits by (simp add: list_all_iff)

lemma nibbles:
  fixes b :: byte
  shows "unat (drop_bit 4 (b AND 0xF0)) < 16" "unat (b AND 0x0F) < 16"
    and "push_bit 4 (drop_bit 4 (b AND 0xF0)) OR (b AND 0x0F) = b"
proof -
  have m: "(0x0F :: byte) = mask 4" "(0xF0 :: byte) = NOT (mask 4)"
    by (simp_all add: mask_eq_exp_minus_1 not_eq_complement)
  show "unat (b AND 0x0F) < 16"
    using take_bit_nat_less_exp [of 4 "unat b"]
    by (simp add: m(1) unsigned_take_bit_eq flip: take_bit_eq_mask del: take_bit_nat_less_exp)
  have "take_bit 8 (unat (b AND 0xF0)) < 16 * 16" using take_bit_nat_less_exp [of 8] by simp
  then show "unat (drop_bit 4 (b AND 0xF0)) < 16"
    unfolding unsigned_drop_bit_eq by (simp add: drop_bit_eq_div less_mult_imp_div_less)
  show "push_bit 4 (drop_bit 4 (b AND 0xF0)) OR (b AND 0x0F) = b"
    unfolding m by (rule bit_word_eqI)
      (auto simp only: bit_or_iff bit_push_bit_iff bit_drop_bit_eq o_apply bit_and_iff bit_not_iff bit_mask_iff possible_bit_word, auto)
qed

definition hexify :: "byte list \<Rightarrow> byte list" where
  "hexify bs = concat (map (\<lambda>b. [hex_digits ! unat (drop_bit 4 (b AND 0xF0)), hex_digits ! unat (b AND 0x0F)]) bs)"

lemma hexify_string_eq: "hexify_string bs m = check (length bs * 2 \<le> m) Assert_failed (Inr (hexify bs))"
  by (simp add: hexify_string_def hexify_def)

lemma length_hexify [simp]: "length (hexify bs) = 2 * length bs"
  by (induction bs) (simp_all add: hexify_def)

lemma dehexify_hexify: "dehexify_loop (2 * length bs) (hexify bs @ rest) = Inr (Some bs)"
proof (induction bs)
  case Nil
  then show ?case by (simp add: dehexify_loop.simps)
next
  case (Cons b bs)
  note hex_value_digit [OF nibbles(1), of b] hex_value_digit [OF nibbles(2), of b]
  then show ?case using Cons nibbles(3) [of b] by (subst dehexify_loop.simps) (simp add: hexify_def)
qed

section \<open>Escaping\<close>

text \<open>What the decoders rely on in the escape map of the sender.\<close>

locale escape_map =
  fixes enc :: "byte list"
  assumes plain: "enc ! unat b = b \<Longrightarrow> b \<noteq> C_CAN"
    and escaped: "enc ! unat b \<noteq> b \<Longrightarrow> \<not> crc_escape (enc ! unat b) \<and> unescape (enc ! unat b) = Some b"
    and no_can: "enc ! unat b \<noteq> C_CAN"
begin

definition esc :: "byte \<Rightarrow> byte list" where
  "esc b = (if enc ! unat b \<noteq> b then [C_CAN, enc ! unat b] else [b])"

lemma length_esc: "length (esc b) \<le> 2" and esc_nonempty: "esc b \<noteq> []"
  by (simp_all add: esc_def)

lemma length_escs: "length (concat (map esc bs)) \<le> 2 * length bs"
proof (induction bs)
  case (Cons b bs)
  then show ?case using length_esc [of b] by simp
qed simp

lemma encode_bytes_esc:
  "length out + 2 * length bs \<le> m \<Longrightarrow> encode_bytes enc m bs out = Inr (out @ concat (map esc bs))"
proof (induction bs arbitrary: out)
  case (Cons b bs)
  then show ?case using length_esc [of b] by (simp add: encode_byte_def Let_def esc_def)
qed simp

lemma decode_loop_esc:
  "decode_loop k (esc b @ rest) d =
     (let d' = zd_skip (length (esc b)) (zd_store b d)
      in if zd_done k d' then (ZD_TRUE, d') else decode_loop k rest d')"
proof (cases "enc ! unat b = b")
  case True
  then show ?thesis using plain [OF True] by (cases rest) (simp_all add: esc_def Let_def)
next
  case False
  then show ?thesis using escaped [OF False] by (simp add: esc_def Let_def numeral_2_eq_2)
qed

lemma decode_loop_data:
  assumes "zd_type d = None"
  shows "decode_loop k (concat (map esc bs) @ rest) d =
    decode_loop k rest (d\<lparr>zd_out := zd_out d @ bs, zd_i := zd_i d + length (concat (map esc bs))\<rparr>)"
  using assms
proof (induction bs arbitrary: d)
  case (Cons b bs)
  then show ?case by (simp add: decode_loop_esc zd_store_def zd_skip_def zd_done_def Let_def add.assoc)
qed simp

lemma decode_loop_crc:
  assumes "zd_type d = Some t" "bs \<noteq> []" "length (zd_crc d) + length bs = k"
  shows "decode_loop k (concat (map esc bs) @ rest) d =
    (ZD_TRUE, d\<lparr>zd_crc := zd_crc d @ bs, zd_i := zd_i d + length (concat (map esc bs))\<rparr>)"
  using assms
proof (induction bs arbitrary: d)
  case (Cons b bs)
  then show ?case
    by (cases "bs = []") (auto simp: decode_loop_esc zd_store_def zd_skip_def zd_done_def Let_def add.assoc)
qed simp

lemma crc_escape_present_esc: "crc_escape_present rest \<Longrightarrow> crc_escape_present (esc b @ rest)"
  using plain [of b] by (cases rest) (auto simp: esc_def)

lemma crc_escape_present_escs:
  "crc_escape t \<Longrightarrow> crc_escape_present (concat (map esc bs) @ C_CAN # t # rest)"
  by (induction bs) (simp_all add: crc_escape_present_esc)

lemma crc_escape_plain: "crc_escape t \<Longrightarrow> t \<noteq> C_CAN"
  by (auto simp: crc_escape_def zcrc_bytes C_CAN_def)

lemma decode_loop_subpacket:
  assumes "crc_escape t" "length crc = k" "0 < k"
  shows "decode_loop (Suc k) (concat (map esc bs) @ C_CAN # t # concat (map esc crc) @ rest)
      \<lparr>zd_type = None, zd_out = [], zd_crc = [], zd_i = 0\<rparr> =
    (ZD_TRUE, \<lparr>zd_type = Some t, zd_out = bs, zd_crc = t # crc,
       zd_i = length (concat (map esc bs)) + 2 + length (concat (map esc crc))\<rparr>)"
proof -
  have "crc \<noteq> []" using assms(2,3) by auto
  then have "concat (map esc crc) @ rest \<noteq> []"
    using esc_nonempty by (cases crc) simp_all
  then obtain r rs where r: "concat (map esc crc) @ rest = r # rs" by (meson neq_Nil_conv)
  show ?thesis
    using assms \<open>crc \<noteq> []\<close> crc_escape_plain [OF assms(1)] decode_loop_crc [of _ t crc "Suc k" rest]
    by (simp add: decode_loop_data) (simp add: r zd_store_def zd_skip_def zd_done_def Let_def)
qed

end

lemma or_40: 
  assumes "b OR 0x40 \<noteq> (b :: byte)"
  shows "(b OR 0x40) AND 0xBF = b" "(b OR 0x40) AND 0x40 \<noteq> 0" "b OR 0x40 = b + 0x40"
proof -
  have s: "(0x40 :: byte) = push_bit 6 1" "(0xBF :: byte) = NOT (push_bit 6 1)" by (simp_all add: not_eq_complement push_bit_eq_mult)
  have 6: "bit (push_bit 6 1 :: byte) n \<longleftrightarrow> n = 6" for n
    by (auto simp: bit_push_bit_iff bit_1_iff simp del: push_bit_of_1)
  have n: "\<not> bit b 6"
  proof
    assume "bit b 6"
    then have "b OR push_bit 6 1 = b"
      by (intro bit_word_eqI) (auto simp only: bit_or_iff 6)
    then show False using assms [unfolded s(1)] by contradiction
  qed
  show "(b OR 0x40) AND 0xBF = b"
    unfolding s using n by (intro bit_word_eqI) (auto simp only: bit_or_iff 6 bit_and_iff bit_not_iff possible_bit_word)
  show "(b OR 0x40) AND 0x40 \<noteq> 0"
    using bit_and_exp [of "b OR 0x40" 6] 6 [of 6] by (simp add: bit_or_iff)
  have "b AND 0x40 = 0" using n bit_and_exp [of b 6] by simp
  then show "b OR 0x40 = b + 0x40" by (rule disjunctive_add_eq_or [symmetric])
qed

lemma encode_char_range: "encode_char flags b \<Longrightarrow> b \<notin> {40, 41, 42, 43, 44, 45}"
  by (auto simp: encode_char_def C_CAN_def C_XON_def C_XOFF_def)

lemma encode_entry_escaped:
  assumes "encode_entry flags b \<noteq> b"
  shows "\<not> crc_escape (encode_entry flags b)" "unescape (encode_entry flags b) = Some b" "encode_entry flags b \<noteq> C_CAN"
proof -
  consider "encode_char flags b" "encode_entry flags b = b OR 0x40" "b OR 0x40 \<noteq> b"
    | "b = 0x7F" "encode_entry flags b = 108" | "b = 0xFF" "encode_entry flags b = 109"
    using assms by (auto simp: encode_entry_def split: if_split_asm)
  then have "\<not> crc_escape (encode_entry flags b) \<and> unescape (encode_entry flags b) = Some b \<and> encode_entry flags b \<noteq> C_CAN"
  proof cases
    case 1
    define c where "c = b OR 0x40"
    have c: "b = c - 0x40" "c AND 0x40 \<noteq> 0" "c AND 0xBF = b" using or_40 [OF 1(3)] by (simp_all add: c_def)
    have "c \<notin> {104, 105, 106, 107, 108, 109}"
      using encode_char_range [OF 1(1)] by (auto simp: c(1))
    moreover have "c \<noteq> C_CAN" using c(2) by (auto simp: C_CAN_def)
    moreover have "encode_entry flags b = c" using 1(2) by (simp add: c_def)
    ultimately show ?thesis using c(2,3) by (simp add: crc_escape_def zcrc_bytes unescape_def)
  qed (simp_all add: crc_escape_def zcrc_bytes unescape_def C_CAN_def)
  then show "\<not> crc_escape (encode_entry flags b)" "unescape (encode_entry flags b) = Some b" "encode_entry flags b \<noteq> C_CAN"
    by simp_all
qed

lemma setup_encode_byte_map_nth: "setup_encode_byte_map flags ! unat b = encode_entry flags b"
  using unsigned_less [of b, where ?'a = nat] by (simp add: setup_encode_byte_map_def)

interpretation encode_map: escape_map "setup_encode_byte_map flags" for flags
proof unfold_locales
  fix b :: byte
  show "b \<noteq> C_CAN" if "setup_encode_byte_map flags ! unat b = b"
    using that unfolding setup_encode_byte_map_nth by (auto simp: encode_entry_def encode_char_def C_CAN_def)
  show "\<not> crc_escape (setup_encode_byte_map flags ! unat b) \<and> unescape (setup_encode_byte_map flags ! unat b) = Some b"
    if "setup_encode_byte_map flags ! unat b \<noteq> b"
    using that encode_entry_escaped unfolding setup_encode_byte_map_nth by blast
  show "setup_encode_byte_map flags ! unat b \<noteq> C_CAN"
    unfolding setup_encode_byte_map_nth
    using encode_entry_escaped(3) [of flags b] by (cases "encode_entry flags b = b")
      (auto simp: encode_entry_def encode_char_def C_CAN_def)
qed

section \<open>Data subpackets\<close>

abbreviation escaped_bytes :: "ulong \<Rightarrow> byte list \<Rightarrow> byte list" where
  "escaped_bytes flags bs \<equiv> concat (map (encode_map.esc flags) bs)"

text \<open>
  What goes over the line for the data \<open>bs\<close>, ended by the CRC escape \<open>t\<close>, with the check
  bytes \<open>crc\<close>; a subpacket has the right ones.
\<close>

definition subframe :: "ulong \<Rightarrow> byte list \<Rightarrow> byte \<Rightarrow> byte list \<Rightarrow> byte list" where
  "subframe flags bs t crc =
     escaped_bytes flags bs @ [C_CAN, t] @ escaped_bytes flags crc @ (if t = ZCRCW then [C_XON] else [])"

definition subpacket :: "ulong \<Rightarrow> bool \<Rightarrow> byte list \<Rightarrow> byte \<Rightarrow> byte list" where
  "subpacket flags crc32 bs t = subframe flags bs t (zdata_crc (makecrc (replicate 256 0)) crc32 bs t)"

lemma zdata_crc_table: "table_from 0 tab \<Longrightarrow> zdata_crc tab c bs t = zdata_crc (makecrc (replicate 256 0)) c bs t"
  using makecrc_table [of "replicate 256 0"] by (cases c) (simp_all add: zdata_crc32 zdata_crc16)

lemma length_zdata_crc: "length (zdata_crc tab c bs t) = (if c then 4 else 2)"
  by (simp add: zdata_crc_def Let_def crc32_le_def crc16_be_def)

lemma encode_zdata_bytes_eq:
  assumes "table_from 0 tab \<or> \<not> c" "length out + 2 * length bs + (if t = ZCRCW then 11 else 10) \<le> m"
  shows "encode_zdata_bytes (setup_encode_byte_map flags) tab c bs m t out = Inr (out @ subpacket flags c bs t)"
proof -
  have z: "zdata_crc tab c bs t = zdata_crc (makecrc (replicate 256 0)) c bs t"
    using assms(1) zdata_crc_table by (cases c) (simp_all add: zdata_crc16)
  have "length (escaped_bytes flags (zdata_crc (makecrc (replicate 256 0)) c bs t)) \<le> 8"
    using encode_map.length_escs [of flags "zdata_crc (makecrc (replicate 256 0)) c bs t"]
    by (simp add: length_zdata_crc split: if_split_asm)
  then show ?thesis
    using assms(2) z encode_map.length_escs [of flags bs]
    by (cases "t = ZCRCW")
      (simp_all add: encode_zdata_bytes_def encode_map.encode_bytes_esc put_raw_def subpacket_def subframe_def length_zdata_crc)
qed

lemma decode_subframe:
  assumes "crc_escape t" "n = length (subframe flags bs t crc @ rest)" "n \<le> 2 * m" "length bs \<le> m"
    and "length crc = (if c then 4 else 2)"
  shows "decode_zdata_bytes c (subframe flags bs t crc @ rest @ stale) n m =
    Inr (Some (ZD_TRUE,
      \<lparr>zd_type = Some t, zd_out = bs, zd_crc = t # crc,
       zd_i = length (subframe flags bs t crc) - (if t = ZCRCW then 1 else 0)\<rparr>,
      memcpy (subframe flags bs t crc @ rest @ stale) 0 rest, length rest))"
proof -
  let ?w = "escaped_bytes flags bs @ C_CAN # t # escaped_bytes flags crc"
  have w: "subframe flags bs t crc = ?w @ (if t = ZCRCW then [C_XON] else [])"
    by (simp add: subframe_def)
  have t: "take n (subframe flags bs t crc @ rest @ stale) = subframe flags bs t crc @ rest"
    using assms(2) by simp
  have k: "(if c then 5 else 3) = Suc (length crc)" by (simp add: assms(5))
  have d: "decode_loop (if c then 5 else 3) (subframe flags bs t crc @ rest) \<lparr>zd_type = None, zd_out = [], zd_crc = [], zd_i = 0\<rparr> =
    (ZD_TRUE, \<lparr>zd_type = Some t, zd_out = bs, zd_crc = t # crc, zd_i = length ?w\<rparr>)"
    unfolding k w using encode_map.decode_loop_subpacket [OF assms(1) refl, of crc flags bs]
    by (simp add: assms(5))
  have p: "crc_escape_present (subframe flags bs t crc @ rest)"
    unfolding w using encode_map.crc_escape_present_escs [OF assms(1)] by simp
  define W where "W = ?w"
  have len: "length (subframe flags bs t crc) = length W + (if t = ZCRCW then 1 else 0)"
    and xon: "t = ZCRCW \<Longrightarrow> (subframe flags bs t crc @ rest @ stale) ! length W = C_XON"
    unfolding w W_def [symmetric] by simp_all
  show ?thesis
    using assms(2,3,4) p xon len unfolding decode_zdata_bytes_def t Let_def d W_def [symmetric]
    by (cases "t = ZCRCW") (simp_all add: shift_input_def)
qed

lemma decode_subpacket:
  assumes "crc_escape t" "n = length (subpacket flags c bs t @ rest)" "n \<le> 2 * m" "length bs \<le> m"
  shows "decode_zdata_bytes c (subpacket flags c bs t @ rest @ stale) n m =
    Inr (Some (ZD_TRUE,
      \<lparr>zd_type = Some t, zd_out = bs, zd_crc = t # zdata_crc (makecrc (replicate 256 0)) c bs t,
       zd_i = length (subpacket flags c bs t) - (if t = ZCRCW then 1 else 0)\<rparr>,
      memcpy (subpacket flags c bs t @ rest @ stale) 0 rest, length rest))"
  using assms unfolding subpacket_def by (intro decode_subframe) (simp_all add: length_zdata_crc)

end
