(* ===== verification/Zmodem_State.thy ===== *)
theory Zmodem_State
  imports Transfer_Stats Zmodem_Codec
begin

text \<open>
  State of the Zmodem engine (the static variables of zmodem.c) and its bookkeeping: the
  block size, the statistics, the next file of a batch, timeouts and the end of a
  transfer.  The fields of \<open>status\<close>, \<open>packet\<close> and the other static variables carry the
  prefix \<open>z_\<close> or \<open>p_\<close>.  \<open>z_out\<close> is what the caller's output buffer holds, \<open>z_outbound\<close> the
  content of \<open>outbound_packet\<close>.  The two options of \<open>q_status\<close> the engine reads are
  \<open>z_opt_escape_ctrl\<close> and \<open>z_opt_zchallenge\<close>.  Not modelled are the debug log, \<open>qlog\<close>,
  repainting and the music.
\<close>

section \<open>Constants and data\<close>

definition P_ZRQINIT :: byte where "P_ZRQINIT = 0"
definition P_ZRINIT :: byte where "P_ZRINIT = 1"
definition P_ZSINIT :: byte where "P_ZSINIT = 2"
definition P_ZACK :: byte where "P_ZACK = 3"
definition P_ZFILE :: byte where "P_ZFILE = 4"
definition P_ZSKIP :: byte where "P_ZSKIP = 5"
definition P_ZNAK :: byte where "P_ZNAK = 6"
definition P_ZABORT :: byte where "P_ZABORT = 7"
definition P_ZFIN :: byte where "P_ZFIN = 8"
definition P_ZRPOS :: byte where "P_ZRPOS = 9"
definition P_ZDATA :: byte where "P_ZDATA = 10"
definition P_ZEOF :: byte where "P_ZEOF = 11"
definition P_ZFERR :: byte where "P_ZFERR = 12"
definition P_ZCRC :: byte where "P_ZCRC = 13"
definition P_ZCHALLENGE :: byte where "P_ZCHALLENGE = 14"
definition P_ZCOMPL :: byte where "P_ZCOMPL = 15"
definition P_ZCAN :: byte where "P_ZCAN = 16"
definition P_ZFREECNT :: byte where "P_ZFREECNT = 17"
definition P_ZCOMMAND :: byte where "P_ZCOMMAND = 18"

lemmas packet_types = P_ZRQINIT_def P_ZRINIT_def P_ZSINIT_def P_ZACK_def P_ZFILE_def P_ZSKIP_def
  P_ZNAK_def P_ZABORT_def P_ZFIN_def P_ZRPOS_def P_ZDATA_def P_ZEOF_def P_ZFERR_def P_ZCRC_def
  P_ZCHALLENGE_def P_ZCOMPL_def P_ZCAN_def P_ZFREECNT_def P_ZCOMMAND_def

datatype zmodem_flavor = Z_CRC16 | Z_CRC32

datatype zmodem_state =
    Z_INIT | Z_COMPLETE | Z_ABORT | ZDATA
  | ZRINIT | ZRINIT_WAIT | ZCHALLENGE | ZCHALLENGE_WAIT | ZRPOS | ZRPOS_WAIT | ZSKIP | ZCRC | ZCRC_WAIT
  | ZRQINIT | ZRQINIT_WAIT | ZSINIT | ZSINIT_WAIT | ZFILE | ZFILE_WAIT | ZEOF | ZEOF_WAIT | ZFIN | ZFIN_WAIT

record zmodem_packet =
  p_type :: byte
  p_argument :: u32
  p_use_crc32 :: bool
  p_crc16 :: u32
  p_crc32 :: u32
  p_data :: "byte list"
  p_data_n :: nat
  p_crc_buffer :: "byte list"

definition clear_packet :: zmodem_packet where
  "clear_packet = \<lparr>p_type = 0, p_argument = 0, p_use_crc32 = False, p_crc16 = 0, p_crc32 = 0,
     p_data = replicate ZMODEM_MAX_BLOCK_SIZE 0, p_data_n = 0, p_crc_buffer = replicate 5 0\<rparr>"

record zmodem =
  z_state :: zmodem_state
  z_prior_state :: zmodem_state
  z_flags :: ulong
  z_use_crc32 :: bool
  z_sending :: bool
  z_file_name :: "cstring option"
  z_file_size :: u32
  z_file_modtime :: time_t
  z_file_position :: nat
  z_file_stream :: "stream option"
  z_file_crc32 :: u32
  z_block_size :: nat
  z_ack_required :: bool
  z_waiting_for_ack :: bool
  z_streaming_zdata :: bool
  z_timeout_begin :: time_t
  z_timeout_count :: nat
  z_confirmed_bytes :: int
  z_last_confirmed_bytes :: int
  z_reliable_link :: bool
  z_file_position_downgrade :: int
  z_blocks_ack_count :: u32
  z_consecutive_errors :: nat
  z_file_fullname :: cstring
  z_upload_file_list :: "file_info list"
  z_upload_file_list_i :: nat
  z_download_path :: "cstring option"
  z_packet :: zmodem_packet
  z_packet_buffer :: "byte list"
  z_packet_buffer_n :: nat
  z_outbound :: "byte list"
  z_zchallenge_value :: u32
  z_crc_32_tab :: "u32 list"
  z_encode_byte_map :: "byte list"
  z_can_count :: nat
  z_opt_escape_ctrl :: bool
  z_opt_zchallenge :: bool
  z_stats :: transfer_stats
  z_world :: os
  z_out :: "byte list"

text \<open>
  The static initialisers.  The one of \<open>status\<close> has no entry for \<open>last_confirmed_bytes\<close>,
  so that it takes the \<open>Q_TRUE\<close> meant for \<open>reliable_link\<close>.
\<close>

definition initial_zmodem :: "bool \<Rightarrow> bool \<Rightarrow> os \<Rightarrow> zmodem" where
  "initial_zmodem escape_ctrl zchallenge w =
     \<lparr>z_state = Z_INIT, z_prior_state = Z_INIT, z_flags = 0, z_use_crc32 = True, z_sending = False,
      z_file_name = None, z_file_size = 0, z_file_modtime = 0, z_file_position = 0, z_file_stream = None,
      z_file_crc32 = - 1, z_block_size = ZMODEM_BLOCK_SIZE, z_ack_required = False,
      z_waiting_for_ack = False, z_streaming_zdata = False, z_timeout_begin = 0, z_timeout_count = 0,
      z_confirmed_bytes = 0, z_last_confirmed_bytes = 1, z_reliable_link = False,
      z_file_position_downgrade = 0, z_blocks_ack_count = 0, z_consecutive_errors = 0, z_file_fullname = [],
      z_upload_file_list = [], z_upload_file_list_i = 0, z_download_path = None, z_packet = clear_packet,
      z_packet_buffer = replicate ZMODEM_MAX_BLOCK_SIZE 0, z_packet_buffer_n = 0, z_outbound = [],
      z_zchallenge_value = 0, z_crc_32_tab = replicate 256 0, z_encode_byte_map = replicate 256 0,
      z_can_count = 0, z_opt_escape_ctrl = escape_ctrl, z_opt_zchallenge = zchallenge,
      z_stats = initial_stats\<lparr>t_protocol := Q_PROTOCOL_ZMODEM\<rparr>, z_world = w, z_out = []\<rparr>"

definition z_timeout_length :: int where "z_timeout_length = 10"
definition z_timeout_max :: nat where "z_timeout_max = 5"

definition WINDOW_SIZE_RELIABLE :: u32 where "WINDOW_SIZE_RELIABLE = 32"
definition WINDOW_SIZE_UNRELIABLE :: u32 where "WINDOW_SIZE_UNRELIABLE = 4"

definition FULLNAME_SIZE :: nat where "FULLNAME_SIZE = 256"

definition crc32_preset :: u32 where "crc32_preset = compute_crc32 [] 0 None"

section \<open>End of a transfer\<close>

definition z_update_stats :: "(transfer_stats \<Rightarrow> transfer_stats) \<Rightarrow> zmodem \<Rightarrow> zmodem" where
  "z_update_stats f s = s\<lparr>z_stats := f (z_stats s)\<rparr>"

definition z_last_message :: "string \<Rightarrow> zmodem \<Rightarrow> zmodem" where
  "z_last_message m = z_update_stats (set_transfer_stats_last_message (m, None))"

definition zmodem_stop :: "bool \<Rightarrow> zmodem \<Rightarrow> zmodem" where
  "zmodem_stop save_partial s =
     (let w = (case z_file_stream s of
                 None \<Rightarrow> z_world s
               | Some f \<Rightarrow>
                   if save_partial \<or> z_sending s then fclose f (fflush f (z_world s))
                   else (case z_file_name s of
                           None \<Rightarrow> fclose f (z_world s)
                         | Some n \<Rightarrow> unlink n (fclose f (z_world s))))
      in s\<lparr>z_world := w, z_file_stream := None, z_file_name := None, z_download_path := None\<rparr>)"

text \<open>\<open>stop_file_transfer\<close> of protocols.c as the Zmodem engine sees it.\<close>

definition z_stop_file_transfer :: "q_transfer_state \<Rightarrow> zmodem \<Rightarrow> zmodem" where
  "z_stop_file_transfer new_state s =
     (let s1 = (if t_protocol (z_stats s) = Q_PROTOCOL_ZMODEM then zmodem_stop True s else s)
      in z_update_stats (\<lambda>t. t\<lparr>t_state := new_state, t_end_time := now (z_world s1)\<rparr>) s1)"

text \<open>The common ending of the handlers: the other side is not compliant.\<close>

definition z_abort :: "zmodem \<Rightarrow> zmodem" where
  "z_abort s = z_stop_file_transfer Q_TRANSFER_STATE_ABORT (s\<lparr>z_state := Z_ABORT\<rparr>)"

definition z_abort_message :: "string \<Rightarrow> zmodem \<Rightarrow> zmodem" where
  "z_abort_message m s =
     z_stop_file_transfer Q_TRANSFER_STATE_ABORT (z_last_message m (s\<lparr>z_state := Z_ABORT\<rparr>))"

section \<open>Block size\<close>

definition block_size_up :: "zmodem \<Rightarrow> zmodem" where
  "block_size_up s =
     (let s1 = (if 8196 < z_confirmed_bytes s - z_file_position_downgrade s
                then s\<lparr>z_block_size := min ZMODEM_BLOCK_SIZE (z_block_size s * 2)\<rparr> else s)
      in s1\<lparr>z_last_confirmed_bytes := z_confirmed_bytes s1\<rparr>)"

text \<open>
  The quotient truncates towards zero as in C.  A block size of zero stops the program.
\<close>

definition block_size_down :: "zmodem \<Rightarrow> zmodem run" where
  "block_size_down s =
     check (0 < z_block_size s) Abort_called
       (let bytes = z_confirmed_bytes s - z_last_confirmed_bytes s;
            outstanding = sgn bytes * (\<bar>bytes\<bar> div int (z_block_size s));
            s1 = (if 3 \<le> outstanding \<and> 32 < z_block_size s
                  then s\<lparr>z_block_size := z_block_size s div 2, z_file_position_downgrade := z_confirmed_bytes s\<rparr>
                  else s);
            s2 = (if 10 \<le> outstanding \<and> z_block_size s1 = 32
                  then z_last_message ''LINE NOISE, !@#&*%U''
                         (z_stop_file_transfer Q_TRANSFER_STATE_ABORT (s1\<lparr>z_state := Z_ABORT\<rparr>))
                  else s1)
        in Inr (s2\<lparr>z_blocks_ack_count := WINDOW_SIZE_UNRELIABLE,
                   z_last_confirmed_bytes := z_confirmed_bytes s2\<rparr>))"

section \<open>Statistics\<close>

definition z_stats_new_file :: "cstring \<Rightarrow> int \<Rightarrow> zmodem \<Rightarrow> zmodem" where
  "z_stats_new_file path filesize s =
     z_update_stats (\<lambda>t.
       let quot = (if filesize < 0 then - ((- filesize) div 1024) else filesize div 1024);
           blocks = (if 0 < filesize \<and> 0 < filesize mod 1024 then quot + 1 else quot);
           t1 = t\<lparr>t_blocks_transfer := 0, t_bytes_transfer := 0, t_error_count := 0\<rparr>;
           t2 = (set_transfer_stats_last_message ([], None) t1)
                  \<lparr>t_bytes_total := word_of_int filesize, t_blocks := word_of_int blocks\<rparr>;
           t3 = set_transfer_stats_pathname (dirname path) (set_transfer_stats_filename (basename path) t2)
       in t3\<lparr>t_state := Q_TRANSFER_STATE_TRANSFER, t_file_start_time := now (z_world s)\<rparr>)
     (s\<lparr>z_confirmed_bytes := 0, z_last_confirmed_bytes := 0\<rparr>)"

definition z_stats_increment_blocks :: "zmodem \<Rightarrow> zmodem" where
  "z_stats_increment_blocks s =
     z_update_stats (\<lambda>t. t\<lparr>t_block_size := of_nat (z_block_size s),
       t_blocks_transfer := of_nat (z_file_position s div ZMODEM_BLOCK_SIZE +
         (if 0 < z_file_position s mod ZMODEM_BLOCK_SIZE then 1 else 0))\<rparr>)
     (s\<lparr>z_consecutive_errors := 0\<rparr>)"

definition z_stats_increment_errors :: "string \<Rightarrow> zmodem \<Rightarrow> zmodem" where
  "z_stats_increment_errors m s =
     (let s1 = z_update_stats (\<lambda>t. t\<lparr>t_error_count := t_error_count t + 1, t_block_size := of_nat (z_block_size s)\<rparr>)
                 ((z_last_message m s)\<lparr>z_consecutive_errors := z_consecutive_errors s + 1, z_reliable_link := False\<rparr>)
      in if 15 \<le> z_consecutive_errors s1 \<and> z_state s1 \<noteq> ZDATA
         then (z_stop_file_transfer Q_TRANSFER_STATE_ABORT (z_last_message ''LINE NOISE, !@#&*%U'' s1))
                \<lparr>z_state := Z_ABORT\<rparr>
         else s1)"

section \<open>Files and time\<close>

definition z_setup_for_next_file :: "zmodem \<Rightarrow> bool \<times> zmodem" where
  "z_setup_for_next_file s =
     (let w = (case z_file_stream s of None \<Rightarrow> z_world s | Some f \<Rightarrow> fclose f (z_world s));
          s1 = s\<lparr>z_world := w, z_file_stream := None, z_file_name := None\<rparr>
      in if length (z_upload_file_list s1) \<le> z_upload_file_list_i s1 then
           (True, (z_update_stats (\<lambda>t. t\<lparr>t_batch_bytes_transfer := t_batch_bytes_total t\<rparr>) s1)\<lparr>z_state := ZFIN\<rparr>)
         else
           let fi = z_upload_file_list s1 ! z_upload_file_list_i s1;
               s2 = s1\<lparr>z_file_modtime := fi_mtime fi, z_file_size := of_nat (fi_size fi)\<rparr>
           in (case fopen_rb (z_world s2) (fi_name fi) of
                 None \<Rightarrow>
                   (False, z_last_message ''DISK I/O ERROR''
                      (z_stop_file_transfer Q_TRANSFER_STATE_ABORT (s2\<lparr>z_state := Z_ABORT\<rparr>)))
               | Some f \<Rightarrow>
                   let s3 = s2\<lparr>z_file_stream := Some f, z_file_name := Some (basename (fi_name fi))\<rparr>;
                       s4 = z_stats_new_file (fi_name fi) (sint (of_nat (fi_size fi) :: u32)) s3
                   in (True, if z_state s4 \<noteq> Z_ABORT
                             then (z_update_stats (\<lambda>t. t\<lparr>t_state := Q_TRANSFER_STATE_TRANSFER\<rparr>) s4)\<lparr>z_state := ZFILE\<rparr>
                             else s4)))"

definition z_reset_timer :: "zmodem \<Rightarrow> zmodem" where
  "z_reset_timer s = s\<lparr>z_timeout_begin := now (z_world s)\<rparr>"

definition z_check_timeout :: "zmodem \<Rightarrow> bool \<times> zmodem" where
  "z_check_timeout s =
     (if z_timeout_length \<le> now (z_world s) - z_timeout_begin s then
        let s1 = s\<lparr>z_timeout_count := z_timeout_count s + 1\<rparr>;
            s2 = (if z_timeout_max \<le> z_timeout_count s1
                  then (z_stop_file_transfer Q_TRANSFER_STATE_ABORT
                          (z_stats_increment_errors ''TOO MANY TIMEOUTS, TRANSFER CANCELLED'' s1))
                         \<lparr>z_state := Z_ABORT\<rparr>
                  else z_stats_increment_errors ''TIMEOUT'' s1)
        in (True, z_reset_timer s2)
      else (False, s))"

section \<open>Fields the bookkeeping leaves alone\<close>

lemma z_update_stats_sel [simp]:
  "z_state (z_update_stats f s) = z_state s" "z_prior_state (z_update_stats f s) = z_prior_state s"
  "z_flags (z_update_stats f s) = z_flags s" "z_use_crc32 (z_update_stats f s) = z_use_crc32 s"
  "z_sending (z_update_stats f s) = z_sending s" "z_file_name (z_update_stats f s) = z_file_name s"
  "z_file_size (z_update_stats f s) = z_file_size s" "z_file_modtime (z_update_stats f s) = z_file_modtime s"
  "z_file_position (z_update_stats f s) = z_file_position s" "z_file_stream (z_update_stats f s) = z_file_stream s"
  "z_file_crc32 (z_update_stats f s) = z_file_crc32 s" "z_block_size (z_update_stats f s) = z_block_size s"
  "z_ack_required (z_update_stats f s) = z_ack_required s" "z_waiting_for_ack (z_update_stats f s) = z_waiting_for_ack s"
  "z_streaming_zdata (z_update_stats f s) = z_streaming_zdata s" "z_timeout_begin (z_update_stats f s) = z_timeout_begin s"
  "z_timeout_count (z_update_stats f s) = z_timeout_count s" "z_confirmed_bytes (z_update_stats f s) = z_confirmed_bytes s"
  "z_last_confirmed_bytes (z_update_stats f s) = z_last_confirmed_bytes s" "z_reliable_link (z_update_stats f s) = z_reliable_link s"
  "z_file_position_downgrade (z_update_stats f s) = z_file_position_downgrade s" "z_blocks_ack_count (z_update_stats f s) = z_blocks_ack_count s"
  "z_consecutive_errors (z_update_stats f s) = z_consecutive_errors s" "z_file_fullname (z_update_stats f s) = z_file_fullname s"
  "z_upload_file_list (z_update_stats f s) = z_upload_file_list s" "z_upload_file_list_i (z_update_stats f s) = z_upload_file_list_i s"
  "z_download_path (z_update_stats f s) = z_download_path s" "z_packet (z_update_stats f s) = z_packet s"
  "z_packet_buffer (z_update_stats f s) = z_packet_buffer s" "z_packet_buffer_n (z_update_stats f s) = z_packet_buffer_n s"
  "z_outbound (z_update_stats f s) = z_outbound s" "z_zchallenge_value (z_update_stats f s) = z_zchallenge_value s"
  "z_crc_32_tab (z_update_stats f s) = z_crc_32_tab s" "z_encode_byte_map (z_update_stats f s) = z_encode_byte_map s"
  "z_can_count (z_update_stats f s) = z_can_count s" "z_opt_escape_ctrl (z_update_stats f s) = z_opt_escape_ctrl s"
  "z_opt_zchallenge (z_update_stats f s) = z_opt_zchallenge s" "z_world (z_update_stats f s) = z_world s"
  "z_out (z_update_stats f s) = z_out s"
  by (simp_all add: z_update_stats_def)

lemma z_update_stats_stats [simp]: "z_stats (z_update_stats f s) = f (z_stats s)"
  by (simp add: z_update_stats_def)

lemma z_last_message_sel [simp]:
  "z_state (z_last_message m s) = z_state s" "z_prior_state (z_last_message m s) = z_prior_state s"
  "z_flags (z_last_message m s) = z_flags s" "z_use_crc32 (z_last_message m s) = z_use_crc32 s"
  "z_sending (z_last_message m s) = z_sending s" "z_file_name (z_last_message m s) = z_file_name s"
  "z_file_size (z_last_message m s) = z_file_size s" "z_file_modtime (z_last_message m s) = z_file_modtime s"
  "z_file_position (z_last_message m s) = z_file_position s" "z_file_stream (z_last_message m s) = z_file_stream s"
  "z_file_crc32 (z_last_message m s) = z_file_crc32 s" "z_block_size (z_last_message m s) = z_block_size s"
  "z_ack_required (z_last_message m s) = z_ack_required s" "z_waiting_for_ack (z_last_message m s) = z_waiting_for_ack s"
  "z_streaming_zdata (z_last_message m s) = z_streaming_zdata s" "z_timeout_begin (z_last_message m s) = z_timeout_begin s"
  "z_timeout_count (z_last_message m s) = z_timeout_count s" "z_confirmed_bytes (z_last_message m s) = z_confirmed_bytes s"
  "z_last_confirmed_bytes (z_last_message m s) = z_last_confirmed_bytes s" "z_reliable_link (z_last_message m s) = z_reliable_link s"
  "z_file_position_downgrade (z_last_message m s) = z_file_position_downgrade s" "z_blocks_ack_count (z_last_message m s) = z_blocks_ack_count s"
  "z_consecutive_errors (z_last_message m s) = z_consecutive_errors s" "z_file_fullname (z_last_message m s) = z_file_fullname s"
  "z_upload_file_list (z_last_message m s) = z_upload_file_list s" "z_upload_file_list_i (z_last_message m s) = z_upload_file_list_i s"
  "z_download_path (z_last_message m s) = z_download_path s" "z_packet (z_last_message m s) = z_packet s"
  "z_packet_buffer (z_last_message m s) = z_packet_buffer s" "z_packet_buffer_n (z_last_message m s) = z_packet_buffer_n s"
  "z_outbound (z_last_message m s) = z_outbound s" "z_zchallenge_value (z_last_message m s) = z_zchallenge_value s"
  "z_crc_32_tab (z_last_message m s) = z_crc_32_tab s" "z_encode_byte_map (z_last_message m s) = z_encode_byte_map s"
  "z_can_count (z_last_message m s) = z_can_count s" "z_opt_escape_ctrl (z_last_message m s) = z_opt_escape_ctrl s"
  "z_opt_zchallenge (z_last_message m s) = z_opt_zchallenge s" "z_world (z_last_message m s) = z_world s"
  "z_out (z_last_message m s) = z_out s"
  by (simp_all add: z_last_message_def)

lemma z_last_message_stats [simp]: "z_stats (z_last_message m s) = (z_stats s)\<lparr>t_last_message := (m, None)\<rparr>"
  by (simp add: z_last_message_def set_transfer_stats_last_message_def)

text \<open>While data is transferred no number of errors ends the transfer.\<close>

lemma z_errors_sel [simp]:
  "z_state s = ZDATA \<Longrightarrow> z_state (z_stats_increment_errors m s) = z_state s" "z_state s = ZDATA \<Longrightarrow> z_prior_state (z_stats_increment_errors m s) = z_prior_state s"
  "z_state s = ZDATA \<Longrightarrow> z_flags (z_stats_increment_errors m s) = z_flags s" "z_state s = ZDATA \<Longrightarrow> z_use_crc32 (z_stats_increment_errors m s) = z_use_crc32 s"
  "z_state s = ZDATA \<Longrightarrow> z_sending (z_stats_increment_errors m s) = z_sending s" "z_state s = ZDATA \<Longrightarrow> z_file_name (z_stats_increment_errors m s) = z_file_name s"
  "z_state s = ZDATA \<Longrightarrow> z_file_size (z_stats_increment_errors m s) = z_file_size s" "z_state s = ZDATA \<Longrightarrow> z_file_modtime (z_stats_increment_errors m s) = z_file_modtime s"
  "z_state s = ZDATA \<Longrightarrow> z_file_position (z_stats_increment_errors m s) = z_file_position s" "z_state s = ZDATA \<Longrightarrow> z_file_stream (z_stats_increment_errors m s) = z_file_stream s"
  "z_state s = ZDATA \<Longrightarrow> z_file_crc32 (z_stats_increment_errors m s) = z_file_crc32 s" "z_state s = ZDATA \<Longrightarrow> z_block_size (z_stats_increment_errors m s) = z_block_size s"
  "z_state s = ZDATA \<Longrightarrow> z_ack_required (z_stats_increment_errors m s) = z_ack_required s" "z_state s = ZDATA \<Longrightarrow> z_waiting_for_ack (z_stats_increment_errors m s) = z_waiting_for_ack s"
  "z_state s = ZDATA \<Longrightarrow> z_streaming_zdata (z_stats_increment_errors m s) = z_streaming_zdata s" "z_state s = ZDATA \<Longrightarrow> z_timeout_begin (z_stats_increment_errors m s) = z_timeout_begin s"
  "z_state s = ZDATA \<Longrightarrow> z_timeout_count (z_stats_increment_errors m s) = z_timeout_count s" "z_state s = ZDATA \<Longrightarrow> z_confirmed_bytes (z_stats_increment_errors m s) = z_confirmed_bytes s"
  "z_state s = ZDATA \<Longrightarrow> z_last_confirmed_bytes (z_stats_increment_errors m s) = z_last_confirmed_bytes s" "z_state s = ZDATA \<Longrightarrow> z_file_position_downgrade (z_stats_increment_errors m s) = z_file_position_downgrade s"
  "z_state s = ZDATA \<Longrightarrow> z_blocks_ack_count (z_stats_increment_errors m s) = z_blocks_ack_count s" "z_state s = ZDATA \<Longrightarrow> z_file_fullname (z_stats_increment_errors m s) = z_file_fullname s"
  "z_state s = ZDATA \<Longrightarrow> z_upload_file_list (z_stats_increment_errors m s) = z_upload_file_list s" "z_state s = ZDATA \<Longrightarrow> z_upload_file_list_i (z_stats_increment_errors m s) = z_upload_file_list_i s"
  "z_state s = ZDATA \<Longrightarrow> z_download_path (z_stats_increment_errors m s) = z_download_path s" "z_state s = ZDATA \<Longrightarrow> z_packet (z_stats_increment_errors m s) = z_packet s"
  "z_state s = ZDATA \<Longrightarrow> z_packet_buffer (z_stats_increment_errors m s) = z_packet_buffer s" "z_state s = ZDATA \<Longrightarrow> z_packet_buffer_n (z_stats_increment_errors m s) = z_packet_buffer_n s"
  "z_state s = ZDATA \<Longrightarrow> z_outbound (z_stats_increment_errors m s) = z_outbound s" "z_state s = ZDATA \<Longrightarrow> z_zchallenge_value (z_stats_increment_errors m s) = z_zchallenge_value s"
  "z_state s = ZDATA \<Longrightarrow> z_crc_32_tab (z_stats_increment_errors m s) = z_crc_32_tab s" "z_state s = ZDATA \<Longrightarrow> z_encode_byte_map (z_stats_increment_errors m s) = z_encode_byte_map s"
  "z_state s = ZDATA \<Longrightarrow> z_can_count (z_stats_increment_errors m s) = z_can_count s" "z_state s = ZDATA \<Longrightarrow> z_opt_escape_ctrl (z_stats_increment_errors m s) = z_opt_escape_ctrl s"
  "z_state s = ZDATA \<Longrightarrow> z_opt_zchallenge (z_stats_increment_errors m s) = z_opt_zchallenge s" "z_state s = ZDATA \<Longrightarrow> z_world (z_stats_increment_errors m s) = z_world s"
  "z_state s = ZDATA \<Longrightarrow> z_out (z_stats_increment_errors m s) = z_out s"
  by (simp_all add: z_stats_increment_errors_def Let_def)

end
