(* ===== verification/Zmodem_Packet.thy ===== *)
theory Zmodem_Packet
  imports Zmodem_State
begin

text \<open>
  The packet layer of the Zmodem engine: \<open>build_packet\<close>, which writes a header in one of
  the three formats (hexadecimal, binary with CRC-16, binary with CRC-32), and
  \<open>parse_packet\<close>, which looks for one in the packet buffer.  The theory ends with the
  round trip: what one side builds the other side parses.
\<close>

section \<open>Building a packet\<close>

definition little_endian_type :: "byte \<Rightarrow> bool" where
  "little_endian_type t \<longleftrightarrow> t \<in> {P_ZRPOS, P_ZEOF, P_ZCRC, P_ZCOMPL, P_ZFREECNT}"

definition argument_bytes :: "u32 \<Rightarrow> byte list" where
  "argument_bytes a = [ucast (drop_bit 24 a AND 0xFF), ucast (drop_bit 16 a AND 0xFF),
                       ucast (drop_bit 8 a AND 0xFF), ucast (a AND 0xFF)]"

definition packet_header :: "byte \<Rightarrow> u32 \<Rightarrow> byte list" where
  "packet_header t a =
     t # (if little_endian_type t \<or> t = P_ZSINIT then rev (argument_bytes a) else argument_bytes a)"

definition do_hex :: "byte \<Rightarrow> zmodem \<Rightarrow> bool" where
  "do_hex t s =
     (let h = (t \<in> {P_ZRQINIT, P_ZRINIT, P_ZSINIT, P_ZCHALLENGE, P_ZRPOS} \<or>
               z_flags s AND TX_ESCAPE_CTRL \<noteq> 0 \<or> z_flags s AND TX_ESCAPE_8BIT \<noteq> 0);
          h1 = (if t = P_ZSINIT \<and> z_sending s \<and> z_use_crc32 s then False else h)
      in if t = P_ZCRC \<and> \<not> z_sending s then True else h1)"

text \<open>
  A header is stored at the start of the output buffer, while the length grows from what
  it was: \<open>put_front k bs\<close> writes \<open>bs\<close> at index 0 and adds \<open>k\<close> bytes to the length.
\<close>

definition put_front :: "os \<Rightarrow> nat \<Rightarrow> byte list \<Rightarrow> byte list \<Rightarrow> byte list" where
  "put_front w k bs out = memcpy (out @ replicate k (uninit w)) 0 bs"

definition has_xon :: "byte \<Rightarrow> bool" where
  "has_xon t \<longleftrightarrow> t \<noteq> P_ZFIN \<and> t \<noteq> P_ZACK"

definition HEX_PACKET_LENGTH :: nat where "HEX_PACKET_LENGTH = 20"

definition build_hex :: "os \<Rightarrow> byte \<Rightarrow> byte list \<Rightarrow> byte list \<Rightarrow> byte list run" where
  "build_hex w t header out =
     andthen (hexify_string header (HEX_PACKET_LENGTH - 10)) (\<lambda>h.
     andthen (hexify_string (crc16_be (compute_crc16 0 header)) (HEX_PACKET_LENGTH - 14)) (\<lambda>c.
       Inr (put_front w HEX_PACKET_LENGTH
              ([ZPAD, ZPAD, C_CAN, 66] @ h @ c @ [C_CR, C_LF OR 0x80]) out @
            (if has_xon t then [C_XON] else []))))"

definition header_crc :: "u32 list \<Rightarrow> bool \<Rightarrow> byte list \<Rightarrow> byte list" where
  "header_crc tab crc32 header =
     (if crc32 then crc32_le (compute_crc32 tab (compute_crc32 tab 0 None) (Some header))
      else crc16_be (compute_crc16 0 header))"

definition build_binary :: "os \<Rightarrow> byte list \<Rightarrow> u32 list \<Rightarrow> bool \<Rightarrow> byte list \<Rightarrow> nat \<Rightarrow> byte list \<Rightarrow> byte list run" where
  "build_binary w bmap tab crc32 header output_max out =
     encode_bytes bmap output_max (header @ header_crc tab crc32 header)
       (put_front w 3 [ZPAD, C_CAN, if crc32 then 67 else 65] out)"

definition build_packet :: "byte \<Rightarrow> u32 \<Rightarrow> nat \<Rightarrow> zmodem \<Rightarrow> zmodem run" where
  "build_packet t argument output_max s =
     (let header = packet_header t argument;
          hex = do_hex t s;
          s1 = s\<lparr>z_packet := (z_packet s)\<lparr>p_type := t, p_use_crc32 := z_use_crc32 s \<and> \<not> hex, p_data_n := 0\<rparr>\<rparr>;
          altered = (\<not> hex \<and> t = P_ZSINIT \<and> z_flags s AND TX_ESCAPE_CTRL = 0);
          bmap = (if altered then setup_encode_byte_map (z_flags s OR TX_ESCAPE_CTRL) else z_encode_byte_map s);
          old_flags = ucast (ucast (z_flags s) :: u32);
          s2 = (if altered then s1\<lparr>z_flags := old_flags, z_encode_byte_map := setup_encode_byte_map old_flags\<rparr> else s1)
      in andthen
           (if hex then build_hex (z_world s) t header (z_out s)
            else build_binary (z_world s) bmap (z_crc_32_tab s) (z_use_crc32 s) header output_max (z_out s))
           (\<lambda>out. check (length out \<le> output_max) Assert_failed (Inr (s2\<lparr>z_out := out\<rparr>))))"

section \<open>Parsing a packet\<close>

datatype zm_parse_packet = ZM_PP_INVALID | ZM_PP_NODATA | ZM_PP_CRCERROR | ZM_PP_OK

text \<open>
  The loop over the fields of a binary header: \<open>k\<close> bytes are collected in \<open>acc\<close>, with
  escapes resolved.  It ends with all of them, at the end of the input, or at an escaped
  byte that no escape produces.
\<close>

datatype header_end = Header_complete | Header_short | Header_bad

fun read_header :: "nat \<Rightarrow> bool \<Rightarrow> byte list \<Rightarrow> byte list \<Rightarrow> header_end \<times> byte list \<times> byte list" where
  "read_header k got_can acc inp =
     (if k \<le> length acc then (Header_complete, acc, inp)
      else (case inp of
              [] \<Rightarrow> (Header_short, acc, [])
            | b # bs \<Rightarrow>
                if b = C_CAN then read_header k True acc bs
                else if got_can then
                  (case unescape b of
                     Some ch \<Rightarrow> read_header k False (acc @ [ch]) bs
                   | None \<Rightarrow> (Header_bad, acc, b # bs))
                else read_header k False (acc @ [b]) bs))"

declare read_header.simps [simp del]

text \<open>The fields of the packet after the header bytes \<open>hs\<close> have been read.\<close>

definition or_bytes :: "nat list \<Rightarrow> byte list \<Rightarrow> u32" where
  "or_bytes shifts bs = foldr (\<lambda>(k, b) w. push_bit k (ucast b) OR w) (zip shifts bs) 0"

definition set_header :: "bool \<Rightarrow> byte list \<Rightarrow> zmodem_packet \<Rightarrow> zmodem_packet" where
  "set_header crc32 hs p =
     p\<lparr>p_type := (if hs = [] then p_type p else hd hs), p_use_crc32 := crc32,
       p_argument := or_bytes [24, 16, 8, 0] (take 4 (drop 1 hs)),
       p_crc16 := (if crc32 then p_crc16 p else or_bytes [8, 0] (drop 5 hs)),
       p_crc32 := (if crc32 then or_bytes [0, 8, 16, 24] (drop 5 hs) else p_crc32 p)\<rparr>"

text \<open>
  The bytes after the format letter: either the header bytes and the rest of the input, or
  why there are none.
\<close>

datatype header_result = Header_fail zm_parse_packet zmodem_packet | Header_ok zmodem_packet "byte list" "byte list"

definition parse_binary :: "bool \<Rightarrow> byte list \<Rightarrow> header_result" where
  "parse_binary crc32 inp =
     (if length inp + 1 < (if crc32 then 10 else 8) then Header_fail ZM_PP_NODATA clear_packet
      else (case read_header (if crc32 then 9 else 7) False [] inp of
              (Header_complete, hs, rest) \<Rightarrow> Header_ok (set_header crc32 hs clear_packet) (take 5 hs) rest
            | (Header_short, hs, rest) \<Rightarrow> Header_fail ZM_PP_NODATA (set_header crc32 hs clear_packet)
            | (Header_bad, hs, rest) \<Rightarrow>
                Header_fail (if crc32 then ZM_PP_NODATA else ZM_PP_INVALID) (set_header crc32 hs clear_packet)))"

definition parse_hex :: "byte list \<Rightarrow> header_result run" where
  "parse_hex inp =
     (if length inp < 14 + 2 then Inr (Header_fail ZM_PP_NODATA clear_packet)
      else andthen (dehexify_string inp 2 4) (\<lambda>t.
       case t of None \<Rightarrow> Inr (Header_fail ZM_PP_INVALID clear_packet)
       | Some ts \<Rightarrow>
           let p1 = clear_packet\<lparr>p_type := hd ts\<rparr> in
           andthen (dehexify_string (drop 2 inp) 8 4) (\<lambda>a.
           case a of None \<Rightarrow> Inr (Header_fail ZM_PP_INVALID p1)
           | Some as \<Rightarrow>
               let p2 = p1\<lparr>p_argument := or_bytes [24, 16, 8, 0] as\<rparr> in
               andthen (dehexify_string (drop 10 inp) 4 4) (\<lambda>c.
               case c of None \<Rightarrow> Inr (Header_fail ZM_PP_INVALID p2)
               | Some cs \<Rightarrow>
                   let p3 = p2\<lparr>p_crc16 := or_bytes [8, 0] cs\<rparr>;
                       header = hd ts # argument_bytes (p_argument p3);
                       rest = drop 16 inp
                   in if \<not> has_xon (p_type p3) then Inr (Header_ok p3 header rest)
                      else if rest = [] then Inr (Header_fail ZM_PP_NODATA p3)
                      else Inr (Header_ok p3 header (tl rest))))))"

definition big_to_little_endian :: "u32 \<Rightarrow> u32" where
  "big_to_little_endian x =
     (drop_bit 24 x AND 0xFF) OR (drop_bit 8 x AND 0xFF00) OR (push_bit 8 x AND 0xFF0000) OR
     (push_bit 24 x AND 0xFF000000)"

definition has_data :: "byte \<Rightarrow> bool" where
  "has_data t \<longleftrightarrow> t \<in> {P_ZSINIT, P_ZFILE, P_ZDATA, P_ZCOMMAND}"

definition begin_data :: "zmodem_packet \<Rightarrow> zmodem_packet" where
  "begin_data p = p\<lparr>p_data_n := 0, p_crc16 := 0, p_crc32 := crc32_preset\<rparr>"

definition header_crc_ok :: "u32 list \<Rightarrow> byte list \<Rightarrow> zmodem_packet \<Rightarrow> bool" where
  "header_crc_ok tab header p =
     (if p_use_crc32 p then compute_crc32 tab (compute_crc32 tab 0 None) (Some header) = p_crc32 p
      else compute_crc16 0 header = p_crc16 p)"

text \<open>
  From the header on: the type must be known, the argument of some types is swapped, the
  CRC must agree.  \<open>n\<close> is the length of the input and \<open>d\<close> the bytes before the packet.
\<close>

definition accept_header :: "nat \<Rightarrow> nat \<Rightarrow> zmodem_packet \<Rightarrow> byte list \<Rightarrow> byte list \<Rightarrow> zmodem \<Rightarrow>
    zm_parse_packet \<times> nat \<times> zmodem" where
  "accept_header n d p header rest s =
     (if P_ZCOMMAND < p_type p then (ZM_PP_INVALID, d, s\<lparr>z_packet := p\<rparr>)
      else
        let p1 = (if little_endian_type (p_type p)
                  then p\<lparr>p_argument := big_to_little_endian (p_argument p)\<rparr> else p);
            s1 = s\<lparr>z_packet := p1\<rparr>
        in if \<not> header_crc_ok (z_crc_32_tab s) header p1
           then (ZM_PP_CRCERROR, d, z_stats_increment_errors ''CRC ERROR'' s1)
           else (ZM_PP_OK, n - length rest,
                 if has_data (p_type p1)
                 then s1\<lparr>z_prior_state := z_state s1, z_state := ZDATA, z_packet := begin_data p1\<rparr> else s1))"

definition parse_header :: "byte \<Rightarrow> byte list \<Rightarrow> nat \<Rightarrow> nat \<Rightarrow> zmodem \<Rightarrow> (zm_parse_packet \<times> nat \<times> zmodem) run" where
  "parse_header fmt inp n d s =
     (if fmt \<noteq> 65 \<and> fmt \<noteq> 66 \<and> fmt \<noteq> 67 then Inr (ZM_PP_INVALID, d + 1, s\<lparr>z_packet := clear_packet\<rparr>)
      else andthen (if fmt = 66 then parse_hex inp else Inr (parse_binary (fmt = 67) inp)) (\<lambda>r.
        case r of
          Header_fail rc p \<Rightarrow> Inr (rc, d, s\<lparr>z_packet := p\<rparr>)
        | Header_ok p header rest \<Rightarrow> Inr (accept_header n d p header rest s)))"

definition parse_packet :: "byte list \<Rightarrow> zmodem \<Rightarrow> (zm_parse_packet \<times> nat \<times> zmodem) run" where
  "parse_packet inp s =
     (let s0 = s\<lparr>z_packet := clear_packet\<rparr>;
          d = length (takeWhile (\<lambda>b. b \<noteq> ZPAD) inp)
      in if d = length inp then Inr (ZM_PP_NODATA, d, s0)
         else (case dropWhile (\<lambda>b. b = ZPAD) (drop d inp) of
                 [] \<Rightarrow> Inr (ZM_PP_NODATA, d, s0)
               | b # bs \<Rightarrow>
                   if b \<noteq> C_CAN then Inr (ZM_PP_INVALID, d + 1, s0)
                   else (case bs of
                           [] \<Rightarrow> Inr (ZM_PP_NODATA, d, s0)
                         | fmt # rest \<Rightarrow> parse_header fmt rest (length inp) d s)))"

section \<open>Bytes of a 32-bit value\<close>

lemma or_bytes_simps [simp]:
  "or_bytes [] bs = 0" "or_bytes ks [] = 0" "or_bytes (k # ks) (b # bs) = push_bit k (ucast b) OR or_bytes ks bs"
  by (simp_all add: or_bytes_def)

lemma bit_push_byte: "n < 32 \<Longrightarrow> bit (push_bit k (ucast (b :: byte)) :: u32) n \<longleftrightarrow> k \<le> n \<and> bit b (n - k)"
  by (auto simp: bit_push_bit_iff bit_ucast_iff dest: bit_imp_le_length)

lemma bit_take_byte: "bit (ucast (drop_bit k (a :: u32) AND 0xFF) :: byte) n \<longleftrightarrow> n < 8 \<and> bit a (k + n)"
  unfolding and_FF_byte by (auto simp: bit_ucast_iff bit_drop_bit_eq)

lemma take_byte_0: "(ucast (a AND 0xFF :: u32) :: byte) = ucast (drop_bit 0 a AND 0xFF)"
  by simp

lemma bit_join:
  assumes "n < 32"
  shows "bit (or_bytes [24, 16, 8, 0] [b3, b2, b1, b0]) n =
    (if n < 8 then bit b0 n else if n < 16 then bit b1 (n - 8) else if n < 24 then bit b2 (n - 16) else bit b3 (n - 24))"
proof -
  have "\<not> bit (b :: byte) k" if "8 \<le> k" for b k using that by (auto dest: bit_imp_le_length)
  then show ?thesis using assms by (simp only: or_bytes_simps bit_or_iff bit_push_byte) (simp add: not_less)
qed

lemma argument_bytes_join: "or_bytes [24, 16, 8, 0] (argument_bytes a) = a"
proof (rule bit_word_eqI)
  fix n assume "n < LENGTH(32)"
  then show "bit (or_bytes [24, 16, 8, 0] (argument_bytes a)) n = bit a n"
    unfolding argument_bytes_def take_byte_0 [of a] by (simp only: bit_join bit_take_byte len_num1 len_bit0) auto
qed

lemma join_argument_bytes: "argument_bytes (or_bytes [24, 16, 8, 0] [b3, b2, b1, b0]) = [b3, b2, b1, b0]"
proof -
  have "ucast (drop_bit k (or_bytes [24, 16, 8, 0] [b3, b2, b1, b0]) AND 0xFF) = b"
    if "(k, b) \<in> {(24, b3), (16, b2), (8, b1), (0, b0)}" for k b
  proof (rule bit_word_eqI)
    fix n assume "n < LENGTH(8)"
    then have "k + n < 32" "n < 8" using that by auto
    then show "bit (ucast (drop_bit k (or_bytes [24, 16, 8, 0] [b3, b2, b1, b0]) AND 0xFF) :: byte) n = bit b n"
      using that by (simp only: bit_take_byte bit_join) auto
  qed
  from this [of 24 b3] this [of 16 b2] this [of 8 b1] this [of 0 b0] show ?thesis
    unfolding argument_bytes_def by (simp del: or_bytes_simps)
qed

lemma byte_at:
  fixes x :: u32
  shows "drop_bit 24 x AND 0xFF = push_bit 0 (ucast (ucast (drop_bit 24 x AND 0xFF) :: byte))"
    and "drop_bit 8 x AND 0xFF00 = push_bit 8 (ucast (ucast (drop_bit 16 x AND 0xFF) :: byte))"
    and "push_bit 8 x AND 0xFF0000 = push_bit 16 (ucast (ucast (drop_bit 8 x AND 0xFF) :: byte))"
    and "push_bit 24 x AND 0xFF000000 = push_bit 24 (ucast (ucast (drop_bit 0 x AND 0xFF) :: byte))"
proof -
  have m: "(0xFF :: u32) = push_bit 0 (mask 8)" "(0xFF00 :: u32) = push_bit 8 (mask 8)"
    "(0xFF0000 :: u32) = push_bit 16 (mask 8)" "(0xFF000000 :: u32) = push_bit 24 (mask 8)"
    by (simp_all add: mask_eq_exp_minus_1 push_bit_eq_mult)
  have b: "bit (push_bit k (mask 8) :: u32) n \<longleftrightarrow> k \<le> n \<and> n < k + 8" if "n < 32" for k n
    using that by (auto simp only: bit_push_bit_iff bit_mask_iff possible_bit_word len_num1 len_bit0)
  have x: "bit (push_bit k x) n \<longleftrightarrow> k \<le> n \<and> bit x (n - k)" if "n < 32" for k n
    using that by (simp add: bit_push_bit_iff)
  note bits = bit_and_iff b x bit_push_byte bit_take_byte bit_drop_bit_eq o_apply
  show "drop_bit 24 x AND 0xFF = push_bit 0 (ucast (ucast (drop_bit 24 x AND 0xFF) :: byte))"
    by (rule bit_word_eqI, subst m(1)) (simp only: bits len_num1 len_bit0, auto)
  show "drop_bit 8 x AND 0xFF00 = push_bit 8 (ucast (ucast (drop_bit 16 x AND 0xFF) :: byte))"
    by (rule bit_word_eqI, subst m(2)) (simp only: bits len_num1 len_bit0, auto)
  show "push_bit 8 x AND 0xFF0000 = push_bit 16 (ucast (ucast (drop_bit 8 x AND 0xFF) :: byte))"
    by (rule bit_word_eqI, subst m(3)) (simp only: bits len_num1 len_bit0, auto)
  show "push_bit 24 x AND 0xFF000000 = push_bit 24 (ucast (ucast (drop_bit 0 x AND 0xFF) :: byte))"
    by (rule bit_word_eqI, subst m(4)) (simp only: bits len_num1 len_bit0, auto)
qed

lemma big_to_little_endian_join:
  "big_to_little_endian a = or_bytes [24, 16, 8, 0] (rev (argument_bytes a))"
proof -
  have "or_bytes [24, 16, 8, 0] (rev (argument_bytes a)) =
    push_bit 24 (ucast (ucast (drop_bit 0 a AND 0xFF) :: byte)) OR (push_bit 16 (ucast (ucast (drop_bit 8 a AND 0xFF) :: byte)) OR
    (push_bit 8 (ucast (ucast (drop_bit 16 a AND 0xFF) :: byte)) OR push_bit 0 (ucast (ucast (drop_bit 24 a AND 0xFF) :: byte))))"
    by (simp add: argument_bytes_def)
  then show ?thesis unfolding byte_at [symmetric] big_to_little_endian_def by (simp only: or.commute or.left_commute or.assoc)
qed

lemma big_to_little_endian_involution: "big_to_little_endian (big_to_little_endian a) = a"
proof -
  have "argument_bytes (big_to_little_endian a) = rev (argument_bytes a)"
    unfolding big_to_little_endian_join by (subst (2) argument_bytes_def) (simp only: rev.simps append.simps join_argument_bytes, simp only: argument_bytes_def rev.simps append.simps)
  then show ?thesis by (simp add: big_to_little_endian_join [of "big_to_little_endian a"] argument_bytes_join del: or_bytes_simps)
qed

lemma crc32_le_join: "or_bytes [0, 8, 16, 24] (crc32_le c) = c"
proof -
  have "or_bytes [0, 8, 16, 24] (crc32_le c) = or_bytes [24, 16, 8, 0] (argument_bytes c)"
    by (simp add: crc32_le_def argument_bytes_def or.commute or.left_commute or.assoc)
  then show ?thesis by (simp only: argument_bytes_join)
qed

lemma crc16_be_join: "or_bytes [8, 0] (crc16_be (ucast (r :: 16 word))) = ucast r"
proof -
  have high: "(ucast (drop_bit k (ucast r :: u32) AND 0xFF) :: byte) = 0" if "16 \<le> k" for k
  proof (rule bit_word_eqI)
    fix n
    have "\<not> bit r (k + n)" using that by (auto dest: bit_imp_le_length)
    then show "bit (ucast (drop_bit k (ucast r :: u32) AND 0xFF) :: byte) n = bit (0 :: byte) n"
      by (subst bit_take_byte) (simp add: bit_ucast_iff)
  qed
  have "argument_bytes (ucast r) = [0, 0] @ crc16_be (ucast r)"
    unfolding argument_bytes_def crc16_be_def by (simp only: high append.simps)
  then have "or_bytes [24, 16, 8, 0] ([0, 0] @ crc16_be (ucast r)) = ucast r"
    using argument_bytes_join [of "ucast r"] by simp
  then show ?thesis by simp
qed

section \<open>Reading a header back\<close>

lemma argument_bytes_shape: "length (argument_bytes a) = 4"
  by (simp add: argument_bytes_def)

lemma length_packet_header [simp]: "length (packet_header t a) = 5"
  by (simp add: packet_header_def argument_bytes_def)

lemma hd_packet_header [simp]: "hd (packet_header t a) = t"
  by (simp add: packet_header_def)

lemma packet_header_argument:
  "or_bytes [24, 16, 8, 0] (tl (packet_header t a)) =
     (if little_endian_type t \<or> t = P_ZSINIT then big_to_little_endian a else a)"
  by (simp add: packet_header_def argument_bytes_join big_to_little_endian_join del: or_bytes_simps)

context escape_map
begin

lemma read_header_esc:
  "length acc < k \<Longrightarrow> read_header k False acc (esc b @ rest) = read_header k False (acc @ [b]) rest"
  using plain [of b] escaped [of b] no_can [of b]
  by (cases "enc ! unat b = b") (simp_all add: esc_def read_header.simps [of k False acc] read_header.simps [of k True acc])

lemma read_header_escs:
  "length acc + length bs = k \<Longrightarrow> read_header k False acc (concat (map esc bs) @ rest) = (Header_complete, acc @ bs, rest)"
proof (induction bs arbitrary: acc)
  case Nil
  then show ?case by (simp add: read_header.simps)
next
  case (Cons b bs)
  then show ?case by (simp add: read_header_esc)
qed

lemma length_escs_ge: "length bs \<le> length (concat (map esc bs))"
proof (induction bs)
  case (Cons b bs)
  then show ?case using esc_nonempty [of b] by (cases "esc b") simp_all
qed simp

end

lemma length_header_crc: "length (header_crc tab c h) = (if c then 4 else 2)"
  by (simp add: header_crc_def crc32_le_def crc16_be_def)

lemma parse_binary_packet:
  assumes "length h = 5"
  shows "parse_binary c (escaped_bytes flags (h @ header_crc tab c h) @ rest) =
    Header_ok (set_header c (h @ header_crc tab c h) clear_packet) h rest"
proof -
  let ?b = "h @ header_crc tab c h"
  have "length ?b = (if c then 9 else 7)" using assms by (simp add: length_header_crc)
  then show ?thesis
    using encode_map.length_escs_ge [of ?b flags] encode_map.read_header_escs [of "[]" ?b _ flags rest] assms
    by (cases c) (simp_all add: parse_binary_def del: concat_append map_append)
qed

lemma header_crc_accepted:
  assumes "c \<Longrightarrow> table_from 0 tab \<and> table_from 0 tab'" "length h = 5"
  shows "header_crc_ok tab' h (set_header c (h @ header_crc tab c h) clear_packet)"
  using assms
  by (cases c) (simp_all add: header_crc_ok_def set_header_def header_crc_def crc32_le_join compute_crc32_eq compute_crc16_eq crc16_be_join,
     simp_all add: compute_crc32_def)

lemma hexify_append: "hexify (xs @ ys) = hexify xs @ hexify ys"
  by (simp add: hexify_def)

lemma dehexify_prefix: "dehexify_string (hexify xs @ rest) (2 * length xs) m =
    check (length xs \<le> m) Assert_failed (Inr (Some xs))"
  by (simp add: dehexify_string_def dehexify_hexify)

lemma parse_hex_packet:
  assumes "length h = 5"
  shows "parse_hex (hexify h @ hexify (crc16_be (compute_crc16 0 h)) @ [x, y] @ (if has_xon (hd h) then [z] else []) @ rest) =
    Inr (Header_ok (clear_packet\<lparr>p_type := hd h, p_argument := or_bytes [24, 16, 8, 0] (tl h),
        p_crc16 := compute_crc16 0 h\<rparr>) h rest)"
proof -
  obtain t a b c d where h: "h = [t, a, b, c, d]" using assms by (auto simp: numeral_eq_Suc length_Suc_conv)
  define e where "e = crc16_be (compute_crc16 0 h)"
  define tail where "tail = [x, y] @ (if has_xon t then [z] else []) @ rest"
  define inp where "inp = hexify [t] @ hexify [a, b, c, d] @ hexify e @ tail"
  have le: "length e = 2" by (simp add: e_def crc16_be_def)
  have drops: "drop 2 inp = hexify [a, b, c, d] @ hexify e @ tail" "drop 10 inp = hexify e @ tail"
    "drop 16 inp = (if has_xon t then [z] else []) @ rest" "\<not> length inp < 14 + 2"
    by (simp_all add: inp_def le tail_def)
  have reads: "dehexify_string inp 2 4 = Inr (Some [t])" "dehexify_string (drop 2 inp) 8 4 = Inr (Some [a, b, c, d])"
    "dehexify_string (drop 10 inp) 4 4 = Inr (Some e)"
    using dehexify_prefix [of "[t]" _ 4] dehexify_prefix [of "[a, b, c, d]" _ 4] dehexify_prefix [of e _ 4]
    by (simp_all add: drops(1,2) le inp_def)
  have e: "or_bytes [8, 0] e = compute_crc16 0 h"
    unfolding e_def compute_crc16_eq by (rule crc16_be_join)
  have "parse_hex inp = Inr (Header_ok (clear_packet\<lparr>p_type := t, p_argument := or_bytes [24, 16, 8, 0] [a, b, c, d],
        p_crc16 := compute_crc16 0 h\<rparr>) h rest)"
    unfolding parse_hex_def reads drops(3) if_not_P [OF drops(4)]
    by (simp add: e join_argument_bytes h Let_def del: or_bytes_simps)
  then show ?thesis using hexify_append [of "[t]" "[a, b, c, d]"] by (simp add: h inp_def tail_def e_def del: or_bytes_simps)
qed

section \<open>The round trip\<close>

definition packet_wire :: "byte \<Rightarrow> u32 \<Rightarrow> zmodem \<Rightarrow> byte list" where
  "packet_wire t a s =
     (let h = packet_header t a;
          flags = (if t = P_ZSINIT then z_flags s OR TX_ESCAPE_CTRL else z_flags s)
      in if do_hex t s
         then [ZPAD, ZPAD, C_CAN, 66] @ hexify h @ hexify (crc16_be (compute_crc16 0 h)) @ [C_CR, C_LF OR 0x80] @
              (if has_xon t then [C_XON] else [])
         else [ZPAD, C_CAN, if z_use_crc32 s then 67 else 65] @
              escaped_bytes flags (h @ header_crc (z_crc_32_tab s) (z_use_crc32 s) h))"

lemma length_packet_wire: "length (packet_wire t a s) \<le> 21"
proof -
  let ?h = "packet_header t a" let ?b = "?h @ header_crc (z_crc_32_tab s) (z_use_crc32 s) ?h"
  have "length (escaped_bytes f ?b) \<le> 18" for f
    using encode_map.length_escs [of f ?b] by (simp add: length_header_crc split: if_split_asm)
  then show ?thesis by (auto simp: packet_wire_def Let_def crc16_be_def)
qed

lemma or_flag: "f AND TX_ESCAPE_CTRL \<noteq> 0 \<Longrightarrow> f OR TX_ESCAPE_CTRL = f"
proof (rule bit_word_eqI)
  fix n assume f: "f AND TX_ESCAPE_CTRL \<noteq> 0"
  have c: "TX_ESCAPE_CTRL = push_bit 6 1" by (simp add: TX_ESCAPE_CTRL_def push_bit_eq_mult)
  have "bit f 6" using f bit_and_exp [of f 6] by (simp add: c)
  moreover have "bit (push_bit 6 1 :: ulong) n \<longleftrightarrow> n = 6"
    by (auto simp: bit_push_bit_iff bit_1_iff simp del: push_bit_of_1)
  ultimately show "bit (f OR TX_ESCAPE_CTRL) n = bit f n" by (auto simp only: c bit_or_iff)
qed

definition flags_ok :: "zmodem \<Rightarrow> bool" where
  "flags_ok s \<longleftrightarrow> ucast (ucast (z_flags s) :: u32) = z_flags s \<and> z_encode_byte_map s = setup_encode_byte_map (z_flags s)"

lemma put_front_Nil: "length bs = k \<Longrightarrow> put_front w k bs [] = bs"
  by (simp add: put_front_def memcpy_def)

lemma build_packet_wire:
  assumes "z_out s = []" "flags_ok s" "21 \<le> m"
  shows "build_packet t a m s = Inr (s\<lparr>z_packet := (z_packet s)\<lparr>p_type := t, p_use_crc32 := z_use_crc32 s \<and> \<not> do_hex t s,
    p_data_n := 0\<rparr>, z_out := packet_wire t a s\<rparr>)"
proof (cases "do_hex t s")
  case True
  then show ?thesis using assms length_packet_wire [of t a s]
    by (simp add: build_packet_def Let_def build_hex_def hexify_string_eq HEX_PACKET_LENGTH_def crc16_be_def
        put_front_Nil packet_wire_def)
next
  case False
  let ?h = "packet_header t a" let ?b = "?h @ header_crc (z_crc_32_tab s) (z_use_crc32 s) ?h"
  have "length ?b \<le> 9" by (simp add: length_header_crc)
  then have e: "encode_bytes (setup_encode_byte_map f) m ?b [ZPAD, C_CAN, x] = Inr ([ZPAD, C_CAN, x] @ escaped_bytes f ?b)" for f x
    using assms(3) by (intro encode_map.encode_bytes_esc) simp
  show ?thesis
    using assms False length_packet_wire [of t a s] or_flag [of "z_flags s"] e
    by (cases "z_use_crc32 s"; cases "t = P_ZSINIT"; cases "z_flags s AND TX_ESCAPE_CTRL = 0")
      (simp_all add: build_packet_def Let_def build_binary_def put_front_Nil packet_wire_def flags_ok_def del: map_append concat_append)
qed

definition parsed :: "byte \<Rightarrow> u32 \<Rightarrow> bool \<Rightarrow> zmodem_packet \<Rightarrow> bool" where
  "parsed t a c p \<longleftrightarrow>
     p_type p = t \<and> p_use_crc32 p = c \<and> p_argument p = (if t = P_ZSINIT then big_to_little_endian a else a) \<and>
     p_data p = p_data clear_packet \<and> p_crc_buffer p = p_crc_buffer clear_packet \<and> p_data_n p = 0 \<and>
     (has_data t \<longrightarrow> p_crc16 p = 0)"

definition packet_received :: "byte \<Rightarrow> zmodem_packet \<Rightarrow> zmodem \<Rightarrow> zmodem" where
  "packet_received t p r = (if has_data t then r\<lparr>z_prior_state := z_state r, z_state := ZDATA\<rparr> else r)\<lparr>z_packet := p\<rparr>"

lemma accept_header_ok:
  assumes "hd h = t" "p_type p = t" "t \<le> P_ZCOMMAND"
    "p_argument p = (if little_endian_type t \<or> t = P_ZSINIT then big_to_little_endian a else a)"
    "header_crc_ok (z_crc_32_tab r) h p"
    and fresh: "p_data p = p_data clear_packet" "p_crc_buffer p = p_crc_buffer clear_packet" "p_data_n p = 0"
  shows "\<exists>p'. accept_header n d p h rest r = (ZM_PP_OK, n - length rest, packet_received t p' r) \<and> parsed t a (p_use_crc32 p) p'"
proof -
  have "header_crc_ok (z_crc_32_tab r) h (p\<lparr>p_argument := x\<rparr>)" for x
    using assms(5) by (simp add: header_crc_ok_def)
  moreover have "\<not> (little_endian_type P_ZSINIT)" by (simp add: little_endian_type_def packet_types)
  moreover define p1 where "p1 = (if little_endian_type t then p\<lparr>p_argument := big_to_little_endian (p_argument p)\<rparr> else p)"
  ultimately have "accept_header n d p h rest r =
      (ZM_PP_OK, n - length rest, packet_received t (if has_data t then begin_data p1 else p1) r)"
    and "parsed t a (p_use_crc32 p) (if has_data t then begin_data p1 else p1)"
    using assms
    by (auto simp: accept_header_def Let_def packet_received_def parsed_def begin_data_def big_to_little_endian_involution not_less)
  then show ?thesis by blast
qed

lemma parse_packet_wire:
  assumes "t \<le> P_ZCOMMAND" "z_use_crc32 s \<Longrightarrow> table_from 0 (z_crc_32_tab s) \<and> table_from 0 (z_crc_32_tab r)"
  shows "\<exists>p. parse_packet (packet_wire t a s @ rest) r = Inr (ZM_PP_OK, length (packet_wire t a s), packet_received t p r) \<and>
    parsed t a (z_use_crc32 s \<and> \<not> do_hex t s) p"
proof -
  let ?h = "packet_header t a"
  show ?thesis
  proof (cases "do_hex t s")
    case True
    let ?p = "clear_packet\<lparr>p_type := t, p_argument := or_bytes [24, 16, 8, 0] (tl ?h), p_crc16 := compute_crc16 0 ?h\<rparr>"
    have "parse_packet (packet_wire t a s @ rest) r =
        Inr (accept_header (length (packet_wire t a s @ rest)) 0 ?p ?h rest r)"
      using parse_hex_packet [of ?h C_CR "C_LF OR 0x80" C_XON rest] True
      by (simp add: parse_packet_def packet_wire_def Let_def parse_header_def ZPAD_def C_CAN_def)
    then show ?thesis
      using accept_header_ok [of ?h t ?p a r "length (packet_wire t a s @ rest)" 0 rest] assms(1) True
      by (simp add: packet_header_argument header_crc_ok_def clear_packet_def)
  next
    case False
    let ?c = "z_use_crc32 s"
    let ?p = "set_header ?c (?h @ header_crc (z_crc_32_tab s) ?c ?h) clear_packet"
    have "parse_packet (packet_wire t a s @ rest) r =
        Inr (accept_header (length (packet_wire t a s @ rest)) 0 ?p ?h rest r)"
      using parse_binary_packet [of ?h ?c _ "z_crc_32_tab s" rest] False
      by (cases ?c) (simp_all add: parse_packet_def packet_wire_def Let_def parse_header_def ZPAD_def C_CAN_def del: map_append concat_append)
    moreover have "p_type ?p = t" "p_use_crc32 ?p = ?c" "p_argument ?p = or_bytes [24, 16, 8, 0] (tl ?h)"
      "p_data ?p = p_data clear_packet" "p_crc_buffer ?p = p_crc_buffer clear_packet" "p_data_n ?p = 0"
      by (simp_all add: set_header_def packet_header_def argument_bytes_def clear_packet_def)
    ultimately show ?thesis
      using accept_header_ok [of ?h t ?p a r "length (packet_wire t a s @ rest)" 0 rest] assms False
        header_crc_accepted [of ?c "z_crc_32_tab s" "z_crc_32_tab r" ?h]
      by (simp add: packet_header_argument)
  qed
qed

end
