(* ===== verification/Zmodem_Receive.thy ===== *)
theory Zmodem_Receive
  imports Zmodem_Packet
begin

text \<open>
  The receiving half of the Zmodem engine: one definition per \<open>receive_\<close> function of
  zmodem.c.  A handler yields whether the engine is done with this call (\<open>Q_TRUE\<close>) or goes
  on with the new state, or the fault that stops the program.  \<open>m\<close> is \<open>output_max\<close>.
\<close>

section \<open>What the waiting states share\<close>

definition take_packet :: "zmodem \<Rightarrow> (zm_parse_packet \<times> zmodem) run" where
  "take_packet s =
     andthen (parse_packet (take (z_packet_buffer_n s) (z_packet_buffer s)) s) (\<lambda>(rc, discard, s1).
       if 0 < discard
       then andthen (shift_input (z_packet_buffer s1) (z_packet_buffer_n s1) discard) (\<lambda>(buf, n).
              Inr (rc, s1\<lparr>z_packet_buffer := buf, z_packet_buffer_n := n\<rparr>))
       else Inr (rc, s1))"

definition garbled :: "nat \<Rightarrow> zmodem \<Rightarrow> (bool \<times> zmodem) run" where
  "garbled m s =
     andthen (build_packet P_ZNAK 0 m ((z_stats_increment_errors ''GARBLED HEADER'' s)\<lparr>z_packet_buffer_n := 0\<rparr>))
       (\<lambda>s1. Inr (True, s1))"

definition wait_packet :: "nat \<Rightarrow> (zmodem \<Rightarrow> (bool \<times> zmodem) run) \<Rightarrow> zmodem \<Rightarrow> (bool \<times> zmodem) run" where
  "wait_packet m on_ok s =
     andthen (take_packet s) (\<lambda>(rc, s1).
       case rc of
         ZM_PP_CRCERROR \<Rightarrow> garbled m s1
       | ZM_PP_INVALID \<Rightarrow> garbled m s1
       | ZM_PP_NODATA \<Rightarrow> Inr (True, s1)
       | ZM_PP_OK \<Rightarrow> on_ok s1)"

definition wait_timeout :: "zmodem_state \<Rightarrow> zmodem \<Rightarrow> (bool \<times> zmodem) run" where
  "wait_timeout st s =
     (case z_check_timeout s of
        (True, s1) \<Rightarrow> Inr (False, s1\<lparr>z_state := st\<rparr>)
      | (False, s1) \<Rightarrow> Inr (True, s1))"

text \<open>Send a header and go on in another state with an empty packet buffer.\<close>

definition send_and_wait :: "byte \<Rightarrow> u32 \<Rightarrow> zmodem_state \<Rightarrow> nat \<Rightarrow> zmodem \<Rightarrow> (bool \<times> zmodem) run" where
  "send_and_wait t a st m s =
     andthen (build_packet t a m s) (\<lambda>s1. Inr (False, s1\<lparr>z_state := st, z_packet_buffer_n := 0\<rparr>))"

definition reset_packet_crc :: "zmodem \<Rightarrow> zmodem" where
  "reset_packet_crc s = s\<lparr>z_packet := (z_packet s)\<lparr>p_crc16 := 0, p_crc32 := crc32_preset\<rparr>\<rparr>"

definition enter_data :: "zmodem_state \<Rightarrow> zmodem \<Rightarrow> zmodem" where
  "enter_data prior s =
     s\<lparr>z_prior_state := prior, z_state := ZDATA, z_packet := begin_data (z_packet s)\<rparr>"

section \<open>ZCHALLENGE\<close>

definition receive_zchallenge :: "nat \<Rightarrow> zmodem \<Rightarrow> (bool \<times> zmodem) run" where
  "receive_zchallenge m s =
     send_and_wait P_ZCHALLENGE (entropy (z_world s)) ZCHALLENGE_WAIT m
       (s\<lparr>z_zchallenge_value := entropy (z_world s)\<rparr>)"

definition zchallenge_packet :: "zmodem \<Rightarrow> (bool \<times> zmodem) run" where
  "zchallenge_packet s =
     (let t = p_type (z_packet s)
      in if t = P_ZACK then
           (if p_argument (z_packet s) = z_zchallenge_value s
            then Inr (False, reset_packet_crc ((z_last_message ''ZRINIT'' (z_last_message ''ZCHALLENGE -- OK'' s))\<lparr>z_state := ZRINIT\<rparr>))
            else Inr (True, z_abort (z_stats_increment_errors ''ZCHALLENGE -- ERROR'' s)))
         else if t = P_ZNAK then Inr (False, (z_stats_increment_errors ''ZNAK'' s)\<lparr>z_state := ZCHALLENGE\<rparr>)
         else if t = P_ZRQINIT then Inr (False, (z_last_message ''ZRQINIT'' s)\<lparr>z_state := ZCHALLENGE\<rparr>)
         else Inr (True, z_abort s))"

definition receive_zchallenge_wait :: "nat \<Rightarrow> zmodem \<Rightarrow> (bool \<times> zmodem) run" where
  "receive_zchallenge_wait m s =
     (if 0 < z_packet_buffer_n s then wait_packet m zchallenge_packet s else wait_timeout ZCHALLENGE s)"

section \<open>ZCRC\<close>

text \<open>
  The CRC of a file, read one byte at a time until the end-of-file indicator is set or,
  for the sender, the number of bytes asked for has been read.  A read error sets no
  end-of-file indicator: the loop then never ends.
\<close>

function file_crc_loop :: "os \<Rightarrow> u32 list \<Rightarrow> u32 option \<Rightarrow> stream \<Rightarrow> u32 \<Rightarrow> nat \<Rightarrow> (stream \<times> u32 \<times> nat) run" where
  "file_crc_loop w tab limit f crc bytes_read =
     (if s_eof f \<or> (case limit of None \<Rightarrow> False | Some n \<Rightarrow> n \<le> of_nat bytes_read) then Inr (f, crc, bytes_read)
      else
        let (got, f1) = fread w 1 f
        in if got = [] \<and> \<not> s_eof f1 then Inl Diverges
           else file_crc_loop w tab limit f1 (NOT (compute_crc32 tab crc (Some got))) (bytes_read + length got))"
  by pat_completeness auto
termination
  by (relation "measure (\<lambda>(w, tab, limit, f, crc, bytes_read). if s_eof f then 0 else Suc (length (s_data f) - s_pos f))")
    (auto simp: fread_def Let_def readable_def split: if_split_asm option.splits)

declare file_crc_loop.simps [simp del]

definition file_crc :: "u32 option \<Rightarrow> zmodem \<Rightarrow> (nat \<times> zmodem) run" where
  "file_crc limit s =
     (case z_file_stream s of
        None \<Rightarrow> Inl Null_stream
      | Some f \<Rightarrow>
          andthen (file_crc_loop (z_world s) (z_crc_32_tab s) limit (fseek_set 0 f) crc32_preset 0)
            (\<lambda>(f1, crc, bytes_read).
               Inr (bytes_read, s\<lparr>z_file_stream := Some (fseek_set (z_file_position s) f1), z_file_crc32 := NOT crc\<rparr>)))"

definition receive_zcrc :: "nat \<Rightarrow> zmodem \<Rightarrow> (bool \<times> zmodem) run" where
  "receive_zcrc m s = andthen (file_crc None s) (\<lambda>(bytes_read, s1). send_and_wait P_ZCRC (of_nat bytes_read) ZCRC_WAIT m s1)"

text \<open>\<open>sprintf(file_fullname, ...)\<close> into 256 bytes.\<close>

definition set_fullname :: "cstring \<Rightarrow> zmodem \<Rightarrow> zmodem run" where
  "set_fullname n s = check (length n < FULLNAME_SIZE) Buffer_overflow (Inr (s\<lparr>z_file_fullname := n\<rparr>))"

text \<open>
  The search for an unused name \<open>path/name.0000\<close>, \<open>path/name.0001\<close>, ...  The counter is an
  \<open>int\<close>.  The result is \<open>None\<close> when \<open>stat\<close> fails for another reason.
\<close>

function unused_name :: "cstring \<Rightarrow> nat \<Rightarrow> zmodem \<Rightarrow> (bool \<times> zmodem) run" where
  "unused_name base i s =
     (if 2 ^ 31 \<le> i then Inl Diverges
      else andthen (set_fullname (base @ [46] @ suffix_4d i) s) (\<lambda>s1.
        case stat (z_world s1) (z_file_fullname s1) of
          Stat_enoent \<Rightarrow> Inr (True, s1)
        | Stat_error \<Rightarrow> Inr (False, s1)
        | Stat_ok _ \<Rightarrow> unused_name base (i + 1) s1))"
  by pat_completeness auto
termination
  by (relation "measure (\<lambda>(base, i, s). 2 ^ 31 - i)") auto

declare unused_name.simps [simp del]

definition z_full_path :: "zmodem \<Rightarrow> cstring option" where
  "z_full_path s =
     (case (z_download_path s, z_file_name s) of (Some d, Some n) \<Rightarrow> Some (d @ [slash] @ n) | _ \<Rightarrow> None)"

text \<open>A stream to the file named, at its end; the statistics of a new file.\<close>

definition open_download :: "bool \<Rightarrow> zmodem \<Rightarrow> zmodem option" where
  "open_download exists_already s =
     map_option (\<lambda>(f, w).
         z_stats_new_file (z_file_fullname s) (sint (z_file_size s))
           (s\<lparr>z_file_stream := Some (snd (fseek_end 0 f)), z_world := w\<rparr>))
       (if exists_already then map_option (\<lambda>f. (f, z_world s)) (fopen_rplus (z_world s) (z_file_fullname s))
        else fopen_wb (z_world s) (z_file_fullname s))"

definition cannot_create :: "zmodem \<Rightarrow> zmodem" where
  "cannot_create s = z_abort_message ''CANNOT CREATE FILE'' (s\<lparr>z_file_stream := None\<rparr>)"

definition zcrc_new_file :: "zmodem \<Rightarrow> (bool \<times> zmodem) run" where
  "zcrc_new_file s =
     (case z_full_path s of
        None \<Rightarrow> Inl Null_stream
      | Some base \<Rightarrow>
          andthen (unused_name base 0 s) (\<lambda>(ok, s1).
            if \<not> ok then Inr (True, z_abort_message ''DISK I/O ERROR'' s1)
            else
              let s2 = s1\<lparr>z_file_position := 0\<rparr>
              in (case open_download False s2 of
                    None \<Rightarrow> Inr (True, cannot_create s2)
                  | Some s3 \<Rightarrow> Inr (False, s3\<lparr>z_state := ZRPOS\<rparr>))))"

definition zcrc_packet :: "zmodem \<Rightarrow> (bool \<times> zmodem) run" where
  "zcrc_packet s =
     (let t = p_type (z_packet s)
      in if t = P_ZCRC then
           (if p_argument (z_packet s) = z_file_crc32 s
            then Inr (False, s\<lparr>z_state := (if unat (z_file_size s) = z_file_position s then ZSKIP else ZRPOS)\<rparr>)
            else zcrc_new_file s)
         else if t = P_ZNAK then Inr (False, (z_stats_increment_errors ''ZNAK'' s)\<lparr>z_state := ZCRC\<rparr>)
         else if t = P_ZFILE
         then Inr (False, (z_stats_increment_errors ''Sender does not understand ZCRC!'' s)\<lparr>z_state := ZRPOS\<rparr>)
         else Inr (True, z_abort s))"

definition receive_zcrc_wait :: "nat \<Rightarrow> zmodem \<Rightarrow> (bool \<times> zmodem) run" where
  "receive_zcrc_wait m s =
     (if 0 < z_packet_buffer_n s then wait_packet m zcrc_packet s else wait_timeout ZCRC s)"

section \<open>ZRINIT\<close>

definition receive_zrinit :: "nat \<Rightarrow> zmodem \<Rightarrow> (bool \<times> zmodem) run" where
  "receive_zrinit m s =
     (let o1 = TX_CAN_FULL_DUPLEX OR TX_CAN_OVERLAP_IO;
          o2 = (if z_use_crc32 s then o1 OR TX_CAN_CRC32 else o1);
          opts = (if z_opt_escape_ctrl s then o2 OR TX_ESCAPE_CTRL else o2)
      in send_and_wait P_ZRINIT (ucast opts) ZRINIT_WAIT m (s\<lparr>z_flags := opts\<rparr>))"

definition zskip_or_zrinit :: "zmodem \<Rightarrow> zmodem_state" where
  "zskip_or_zrinit s = (if z_prior_state s = ZSKIP then ZSKIP else ZRINIT)"

definition zsinit_flags :: "zmodem \<Rightarrow> zmodem" where
  "zsinit_flags s =
     (let a = ucast (p_argument (z_packet s));
          f1 = (if a AND TX_ESCAPE_CTRL \<noteq> 0 then z_flags s OR TX_ESCAPE_CTRL else z_flags s);
          f2 = (if a AND TX_ESCAPE_8BIT \<noteq> 0 then f1 OR TX_ESCAPE_8BIT else f1)
      in s\<lparr>z_flags := f2, z_encode_byte_map := setup_encode_byte_map f2\<rparr>)"

definition zrinit_packet :: "nat \<Rightarrow> zmodem \<Rightarrow> (bool \<times> zmodem) run" where
  "zrinit_packet m s =
     (let t = p_type (z_packet s)
      in if t = P_ZFIN then
           andthen (build_packet P_ZFIN 0 m (z_last_message ''ZFIN'' s)) (\<lambda>s1. Inr (False, s1\<lparr>z_state := ZFIN_WAIT\<rparr>))
         else if t = P_ZRQINIT then
           Inr (False, reset_packet_crc ((z_last_message ''ZRINIT'' s)\<lparr>z_state := ZRINIT\<rparr>))
         else if t = P_ZSINIT then
           Inr (False, enter_data ZRINIT_WAIT (zsinit_flags (z_last_message ''ZSINIT'' s)))
         else if t = P_ZCOMMAND then Inr (False, z_last_message ''ERROR: ZCOMMAND NOT SUPPORTED'' s)
         else if t = P_ZFILE then Inr (False, enter_data ZRINIT_WAIT (z_last_message ''ZFILE'' s))
         else if t = P_ZNAK then
           (let s1 = z_stats_increment_errors ''ZNAK'' s in Inr (False, s1\<lparr>z_state := zskip_or_zrinit s1\<rparr>))
         else Inr (True, z_abort s))"

definition receive_zrinit_wait :: "nat \<Rightarrow> zmodem \<Rightarrow> (bool \<times> zmodem) run" where
  "receive_zrinit_wait m s =
     (if 0 < z_packet_buffer_n s then wait_packet m (zrinit_packet m) s else wait_timeout (zskip_or_zrinit s) s)"

section \<open>ZRPOS\<close>

definition receive_zrpos :: "nat \<Rightarrow> zmodem \<Rightarrow> (bool \<times> zmodem) run" where
  "receive_zrpos m s = send_and_wait P_ZRPOS (of_nat (z_file_position s)) ZRPOS_WAIT m s"

text \<open>
  \<open>fclose\<close> and \<open>utime\<close> on a complete file.  The names are freed and cleared.
\<close>

definition finish_download :: "zmodem \<Rightarrow> zmodem run" where
  "finish_download s =
     (case z_file_stream s of
        None \<Rightarrow> Inl Null_stream
      | Some f \<Rightarrow>
          check (z_file_name s \<noteq> None) Assert_failed
            (Inr (s\<lparr>z_world := utime (z_file_fullname s) (z_file_modtime s) (fclose f (z_world s)),
                    z_file_name := None, z_file_stream := None\<rparr>)))"

definition zeof_packet :: "nat \<Rightarrow> zmodem \<Rightarrow> (bool \<times> zmodem) run" where
  "zeof_packet m s =
     (let s1 = z_last_message ''ZEOF'' (z_update_stats (\<lambda>t. t\<lparr>t_state := Q_TRANSFER_STATE_FILE_DONE\<rparr>) s)
      in if z_file_position s1 = unat (p_argument (z_packet s1)) then
           andthen (finish_download s1) (\<lambda>s2.
           andthen (build_packet P_ZRINIT 0 m s2) (\<lambda>s3.
             Inr (False, (z_last_message ''ZRINIT'' s3)\<lparr>z_state := ZRINIT_WAIT\<rparr>)))
         else Inr (False, (z_stats_increment_errors ''BAD FILE POSITION FROM SENDER'' s1)\<lparr>z_state := ZRPOS\<rparr>))"

definition zrpos_packet :: "nat \<Rightarrow> zmodem \<Rightarrow> (bool \<times> zmodem) run" where
  "zrpos_packet m s =
     (let t = p_type (z_packet s)
      in if t = P_ZEOF then zeof_packet m s
         else if t = P_ZDATA then Inr (False, enter_data ZRPOS_WAIT (z_last_message ''ZDATA'' s))
         else if t = P_ZNAK then Inr (False, (z_stats_increment_errors ''ZNAK'' s)\<lparr>z_state := ZRPOS\<rparr>)
         else Inr (True, z_abort s))"

definition receive_zrpos_wait :: "nat \<Rightarrow> zmodem \<Rightarrow> (bool \<times> zmodem) run" where
  "receive_zrpos_wait m s =
     (if 0 < z_packet_buffer_n s then
        andthen (take_packet s) (\<lambda>(rc, s1).
          if rc = ZM_PP_CRCERROR \<or> rc = ZM_PP_INVALID then
            (if z_prior_state s1 \<noteq> ZRPOS_WAIT then garbled m s1 else Inr (False, s1))
          else if rc = ZM_PP_NODATA then Inr (True, s1)
          else zrpos_packet m s1)
      else wait_timeout ZRPOS s)"

section \<open>ZFILE\<close>

text \<open>One integer conversion of \<open>sscanf\<close>: blanks, a sign, digits; saturating at 64 bits.\<close>

definition scan_ulong :: "nat \<Rightarrow> byte list \<Rightarrow> (ulong \<times> byte list) option" where
  "scan_ulong base bs =
     (let b1 = dropWhile is_space bs;
          neg = (b1 \<noteq> [] \<and> hd b1 = 45);
          b2 = (if b1 \<noteq> [] \<and> (hd b1 = 45 \<or> hd b1 = 43) then tl b1 else b1);
          ds = takeWhile (\<lambda>c. 48 \<le> unat c \<and> unat c < 48 + base) b2;
          v = read_base base 0 ds;
          w = (if 2 ^ 64 \<le> v then - 1 else if neg then - of_nat v else of_nat v)
      in if ds = [] then None else Some (w, drop (length ds) b2))"

text \<open>
  The size and the time of a file; a conversion that fails leaves the variables of this and
  the later conversions as they were.
\<close>

definition scan_zfile :: "byte list \<Rightarrow> zmodem \<Rightarrow> zmodem" where
  "scan_zfile bs s =
     (case scan_ulong 10 bs of
        None \<Rightarrow> s
      | Some (sz, bs1) \<Rightarrow>
          let s1 = s\<lparr>z_file_size := ucast sz\<rparr>
          in (case scan_ulong 8 bs1 of
                None \<Rightarrow> s1
              | Some (t, _) \<Rightarrow> s1\<lparr>z_file_modtime := sint t\<rparr>))"

text \<open>
  What \<open>stat\<close> on the name decides: \<open>None\<close> is an error, otherwise whether the file exists
  and whether another name is needed.
\<close>

definition zfile_existing :: "zmodem \<Rightarrow> (bool \<times> bool \<times> zmodem) option" where
  "zfile_existing s =
     (case stat (z_world s) (z_file_fullname s) of
        Stat_error \<Rightarrow> None
      | Stat_enoent \<Rightarrow> Some (False, False, (z_last_message ''ZRPOS'' (s\<lparr>z_file_position := 0\<rparr>))\<lparr>z_state := ZRPOS\<rparr>)
      | Stat_ok n \<Rightarrow>
          let s1 = s\<lparr>z_file_position := n\<rparr>
          in if unat (z_file_size s1) < n then Some (True, True, s1)
             else if unat (z_file_size s1) = n \<or> 0 < z_file_size s1
             then Some (True, False, (z_last_message ''ZCRC'' s1)\<lparr>z_state := ZCRC\<rparr>)
             else Some (True, False, (z_last_message ''ZRPOS'' s1)\<lparr>z_state := ZRPOS\<rparr>))"

definition zfile_open :: "bool \<Rightarrow> zmodem \<Rightarrow> (bool \<times> zmodem) run" where
  "zfile_open exists_already s =
     (case open_download exists_already s of
        None \<Rightarrow> Inr (True, cannot_create s)
      | Some s1 \<Rightarrow> Inr (False, z_update_stats (\<lambda>t. t\<lparr>t_bytes_transfer := of_nat (z_file_position s1)\<rparr>) s1))"

definition receive_zfile :: "zmodem \<Rightarrow> (bool \<times> zmodem) run" where
  "receive_zfile s =
     (let data = p_data (z_packet s);
          name = c_string data;
          s1 = scan_zfile (c_string (drop (length name + 1) data)) (s\<lparr>z_file_name := Some name\<rparr>)
      in (case z_full_path s1 of
            None \<Rightarrow> Inl Null_stream
          | Some base \<Rightarrow>
              andthen (set_fullname base s1) (\<lambda>s2.
                case zfile_existing s2 of
                  None \<Rightarrow> Inr (True, z_abort_message ''DISK I/O ERROR'' s2)
                | Some (exists_already, False, s3) \<Rightarrow> zfile_open exists_already s3
                | Some (_, True, s3) \<Rightarrow>
                    andthen (unused_name base 0 s3) (\<lambda>(ok, s4).
                      if ok then zfile_open False (s4\<lparr>z_file_position := 0, z_state := ZRPOS\<rparr>)
                      else Inr (True, z_abort_message ''DISK I/O ERROR'' s4)))))"

section \<open>ZDATA\<close>

text \<open>
  \<open>decode_zdata_bytes\<close> on the packet buffer and the packet.  The result tells whether a
  whole subpacket was there.
\<close>

definition decode_data :: "zmodem \<Rightarrow> (bool \<times> zmodem) run" where
  "decode_data s =
     (let p = z_packet s
      in andthen (decode_zdata_bytes (p_use_crc32 p) (z_packet_buffer s) (z_packet_buffer_n s)
                    (ZMODEM_MAX_BLOCK_SIZE - p_data_n p)) (\<lambda>r.
           case r of
             None \<Rightarrow> Inr (False, s)
           | Some (rc, d, buf, n) \<Rightarrow>
               let s1 = s\<lparr>z_packet_buffer := buf, z_packet_buffer_n := n,
                          z_packet := p\<lparr>p_data := memcpy (p_data p) (p_data_n p) (zd_out d),
                                        p_data_n := length (zd_out d),
                                        p_crc_buffer := memcpy (p_crc_buffer p) 0 (zd_crc d)\<rparr>\<rparr>
               in (case rc of
                     ZD_TRUE \<Rightarrow> Inr (True, s1)
                   | ZD_FALSE \<Rightarrow> Inr (False, s1)
                   | ZD_CANCEL \<Rightarrow> Inr (False, z_abort_message ''TRANSFER CANCELLED BY SENDER'' s1))))"

text \<open>The CRC over the data and the escape byte, which is stored behind the data.\<close>

definition check_data_crc :: "zmodem \<Rightarrow> (bool \<times> zmodem) run" where
  "check_data_crc s =
     (let p = z_packet s; n = p_data_n p
      in check (n < ZMODEM_MAX_BLOCK_SIZE) Buffer_overflow
           (let p1 = p\<lparr>p_data := (p_data p)[n := p_crc_buffer p ! 0]\<rparr>;
                bs = take (n + 1) (p_data p1)
            in if p_use_crc32 p1
               then let c = compute_crc32 (z_crc_32_tab s) crc32_preset (Some bs)
                    in Inr (or_bytes [0, 8, 16, 24] (drop 1 (p_crc_buffer p1)) = c, s\<lparr>z_packet := p1\<lparr>p_crc32 := c\<rparr>\<rparr>)
               else let c = compute_crc16 (p_crc16 p1) bs
                    in Inr (or_bytes [8, 0] (drop 1 (p_crc_buffer p1)) = c, s\<lparr>z_packet := p1\<lparr>p_crc16 := c\<rparr>\<rparr>)))"

definition write_data :: "zmodem \<Rightarrow> zmodem run" where
  "write_data s =
     (case z_file_stream s of
        None \<Rightarrow> Inl Null_stream
      | Some f \<Rightarrow>
          let n = p_data_n (z_packet s);
              f1 = snd (fwrite (z_world s) (take n (p_data (z_packet s))) f);
              s1 = s\<lparr>z_file_stream := Some f1, z_world := fflush f1 (z_world s),
                     z_file_position := z_file_position s + n, z_block_size := n\<rparr>;
              s2 = z_stats_increment_blocks
                     (z_update_stats (\<lambda>t. t\<lparr>t_bytes_transfer := t_bytes_transfer t + of_nat n\<rparr>) s1)
          in Inr (s2\<lparr>z_packet := begin_data (z_packet s2)\<rparr>))"

definition data_next_state :: "nat \<Rightarrow> zmodem \<Rightarrow> (bool \<times> zmodem) run" where
  "data_next_state m s =
     (if z_prior_state s = ZRINIT_WAIT then
        (let t = p_type (z_packet s)
         in if t = P_ZFILE then Inr (False, s\<lparr>z_state := ZFILE\<rparr>)
            else if t = P_ZSINIT
            then andthen (build_packet P_ZACK 0 m (s\<lparr>z_state := ZRINIT_WAIT\<rparr>)) (\<lambda>s1. Inr (True, s1))
            else if t = P_ZCOMMAND
            then andthen (build_packet P_ZCOMPL 1 m (s\<lparr>z_state := ZRINIT_WAIT\<rparr>)) (\<lambda>s1. Inr (True, s1))
            else Inr (False, s\<lparr>z_state := ZDATA\<rparr>))
      else Inr (False, s\<lparr>z_state := ZDATA\<rparr>))"

definition data_accepted :: "nat \<Rightarrow> bool \<Rightarrow> bool \<Rightarrow> zmodem \<Rightarrow> (bool \<times> zmodem) run" where
  "data_accepted m end_of_packet acknowledge s =
     (if z_prior_state s = ZRPOS_WAIT then
        andthen (write_data s) (\<lambda>s1.
        andthen (if acknowledge
                 then build_packet P_ZACK (big_to_little_endian (of_nat (z_file_position s1))) m s1
                 else Inr s1) (\<lambda>s2.
          if end_of_packet then Inr (False, s2\<lparr>z_state := ZRPOS_WAIT\<rparr>) else data_next_state m s2))
      else data_next_state m s)"

definition data_rejected :: "nat \<Rightarrow> zmodem \<Rightarrow> (bool \<times> zmodem) run" where
  "data_rejected m s =
     (if z_prior_state s = ZRPOS_WAIT then
        andthen (build_packet P_ZRPOS (of_nat (z_file_position s)) m
                   ((z_stats_increment_errors ''CRC ERROR'' s)\<lparr>z_packet_buffer_n := 0\<rparr>))
          (\<lambda>s1. Inr (True, s1\<lparr>z_state := ZRPOS_WAIT\<rparr>))
      else if z_prior_state s = ZRINIT_WAIT then
        andthen (build_packet P_ZNAK 0 m ((z_stats_increment_errors ''CRC ERROR'' s)\<lparr>z_packet_buffer_n := 0\<rparr>))
          (\<lambda>s1. Inr (True, s1\<lparr>z_state := ZRINIT_WAIT\<rparr>))
      else data_next_state m s)"

definition receive_zdata :: "nat \<Rightarrow> zmodem \<Rightarrow> (bool \<times> zmodem) run" where
  "receive_zdata m s =
     andthen (decode_data s) (\<lambda>(ok, s1).
       if \<not> ok then
         Inr (True, if 0 < z_packet_buffer_n s1 then s1\<lparr>z_packet := (z_packet s1)\<lparr>p_data_n := 0\<rparr>\<rparr> else s1)
       else
         let e = p_crc_buffer (z_packet s1) ! 0
         in if \<not> crc_escape e then Inr (True, z_abort s1)
            else andthen (check_data_crc s1) (\<lambda>(crc_ok, s2).
              if crc_ok then data_accepted m (e = ZCRCE \<or> e = ZCRCW) (e = ZCRCW \<or> e = ZCRCQ) s2
              else data_rejected m s2))"

section \<open>ZSKIP\<close>

definition receive_zskip :: "nat \<Rightarrow> zmodem \<Rightarrow> (bool \<times> zmodem) run" where
  "receive_zskip m s =
     andthen (finish_download s) (\<lambda>s1.
     andthen (build_packet P_ZSKIP 0 m s1) (\<lambda>s2.
       Inr (False, (z_last_message ''ZSKIP'' (z_update_stats (\<lambda>t. t\<lparr>t_state := Q_TRANSFER_STATE_FILE_DONE\<rparr>) s2))
         \<lparr>z_prior_state := ZSKIP, z_state := ZRINIT_WAIT, z_packet_buffer_n := 0\<rparr>)))"

end
