(* ===== verification/Zmodem_Send.thy ===== *)
theory Zmodem_Send
  imports Zmodem_Receive
begin

text \<open>
  The sending half of the Zmodem engine: one definition per \<open>send_\<close> function of zmodem.c.
\<close>

section \<open>ZRQINIT and ZSINIT\<close>

definition send_zrqinit :: "nat \<Rightarrow> zmodem \<Rightarrow> (bool \<times> zmodem) run" where
  "send_zrqinit m s = send_and_wait P_ZRQINIT 0 ZRQINIT_WAIT m s"

text \<open>The capabilities of the receiver are added to the flags.\<close>

definition zrinit_flags :: "zmodem \<Rightarrow> zmodem" where
  "zrinit_flags s =
     (let a = ucast (p_argument (z_packet s));
          add = (\<lambda>fl f. if a AND fl \<noteq> 0 then f OR fl else f);
          f = foldl (\<lambda>f fl. add fl f) (z_flags s)
                [TX_ESCAPE_CTRL, TX_ESCAPE_8BIT, TX_CAN_FULL_DUPLEX, TX_CAN_OVERLAP_IO, TX_CAN_BREAK,
                 TX_CAN_DECRYPT, TX_CAN_LZW, TX_CAN_CRC32]
      in s\<lparr>z_flags := f, z_use_crc32 := z_use_crc32 s \<or> a AND TX_CAN_CRC32 \<noteq> 0,
           z_encode_byte_map := setup_encode_byte_map f\<rparr>)"

definition zrqinit_packet :: "nat \<Rightarrow> zmodem \<Rightarrow> (bool \<times> zmodem) run" where
  "zrqinit_packet m s =
     (let t = p_type (z_packet s)
      in if t = P_ZRINIT then Inr (False, (zrinit_flags (z_last_message ''ZRINIT'' s))\<lparr>z_state := ZSINIT\<rparr>)
         else if t = P_ZCHALLENGE
         then andthen (build_packet P_ZACK (p_argument (z_packet s)) m s) (\<lambda>s1. Inr (False, s1))
         else if t = P_ZNAK then Inr (False, (z_stats_increment_errors ''ZNAK'' s)\<lparr>z_state := ZRQINIT\<rparr>)
         else Inr (True, z_abort s))"

definition send_zrqinit_wait :: "nat \<Rightarrow> zmodem \<Rightarrow> (bool \<times> zmodem) run" where
  "send_zrqinit_wait m s =
     (if 0 < z_packet_buffer_n s then wait_packet m (zrqinit_packet m) s else wait_timeout ZRQINIT s)"

text \<open>
  \<open>encode_zdata_bytes\<close> on the packet, to the caller's output or to \<open>outbound_packet\<close>.  A
  ZSINIT subpacket always has a 16-bit CRC.
\<close>

definition encode_packet :: "byte \<Rightarrow> nat \<Rightarrow> byte list \<Rightarrow> zmodem \<Rightarrow> byte list run" where
  "encode_packet crc_type m out s =
     (let p = z_packet s
      in encode_zdata_bytes (z_encode_byte_map s) (z_crc_32_tab s) (p_use_crc32 p \<and> p_type p \<noteq> P_ZSINIT)
           (take (p_data_n p) (p_data p)) m crc_type out)"

definition encode_to_output :: "byte \<Rightarrow> nat \<Rightarrow> zmodem \<Rightarrow> zmodem run" where
  "encode_to_output crc_type m s =
     andthen (encode_packet crc_type m (z_out s) s) (\<lambda>out. Inr (s\<lparr>z_out := out\<rparr>))"

definition encode_to_outbound :: "byte \<Rightarrow> zmodem \<Rightarrow> zmodem run" where
  "encode_to_outbound crc_type s =
     andthen (encode_packet crc_type ZMODEM_MAX_BLOCK_SIZE (z_outbound s) s) (\<lambda>out. Inr (s\<lparr>z_outbound := out\<rparr>))"

definition set_packet_crc32 :: "bool \<Rightarrow> zmodem \<Rightarrow> zmodem" where
  "set_packet_crc32 c s = s\<lparr>z_packet := (z_packet s)\<lparr>p_use_crc32 := c\<rparr>\<rparr>"

definition send_zsinit :: "nat \<Rightarrow> zmodem \<Rightarrow> (bool \<times> zmodem) run" where
  "send_zsinit m s =
     (if z_flags s AND TX_ESCAPE_CTRL = 0 \<and> z_opt_escape_ctrl s then
        andthen (build_packet P_ZSINIT (ucast TX_ESCAPE_CTRL) m s) (\<lambda>s1.
          let s2 = z_last_message ''ZSINIT'' (s1\<lparr>z_state := ZSINIT_WAIT\<rparr>);
              s3 = s2\<lparr>z_packet := (z_packet s2)\<lparr>p_data := (p_data (z_packet s2))[0 := 0], p_data_n := 1\<rparr>\<rparr>
          in andthen (encode_to_output ZCRCW m (set_packet_crc32 False s3))
               (\<lambda>s4. Inr (False, s4\<lparr>z_packet_buffer_n := 0\<rparr>)))
      else Inr (False, (z_last_message ''ZFILE'' s)\<lparr>z_state := ZFILE, z_packet_buffer_n := 0\<rparr>))"

definition zsinit_packet :: "zmodem \<Rightarrow> (bool \<times> zmodem) run" where
  "zsinit_packet s =
     (let t = p_type (z_packet s)
      in if t = P_ZACK then Inr (False, (z_last_message ''ZFILE'' (z_last_message ''ZACK'' s))\<lparr>z_state := ZFILE\<rparr>)
         else if t = P_ZNAK then Inr (False, (z_stats_increment_errors ''ZNAK'' s)\<lparr>z_state := ZSINIT\<rparr>)
         else Inr (True, z_abort s))"

definition send_zsinit_wait :: "nat \<Rightarrow> zmodem \<Rightarrow> (bool \<times> zmodem) run" where
  "send_zsinit_wait m s =
     (if 0 < z_packet_buffer_n s then wait_packet m zsinit_packet s else wait_timeout ZSINIT s)"

section \<open>ZFILE\<close>

text \<open>
  The text \<open>"%s %d %lo 0 0 1 %d"\<close> of name, size, time and size; the blank behind the name
  is then replaced by a NUL.  \<open>snprintf\<close> keeps 2056 bytes at most; \<open>strlen(NULL)\<close> is a fault.
\<close>

definition decimal :: "int \<Rightarrow> cstring" where
  "decimal i = (if i < 0 then 45 # digits_base 10 (nat (- i)) else digits_base 10 (nat i))"

definition zfile_text :: "cstring \<Rightarrow> zmodem \<Rightarrow> byte list" where
  "zfile_text name s =
     (let sz = decimal (sint (z_file_size s));
          mt = digits_base 8 (nat (z_file_modtime s mod 2 ^ 64))
      in take (ZMODEM_MAX_BLOCK_SIZE - 2)
           (name @ [32] @ sz @ [32] @ mt @ ascii '' 0 0 1 '' @ sz))"

definition send_zfile :: "nat \<Rightarrow> zmodem \<Rightarrow> (bool \<times> zmodem) run" where
  "send_zfile m s =
     andthen (build_packet P_ZFILE 0 m s) (\<lambda>s1.
       case z_file_name s1 of
         None \<Rightarrow> Inl Null_stream
       | Some name \<Rightarrow>
           let txt = zfile_text name s1;
               p = z_packet s1;
               data = (memcpy (p_data p) 0 (txt @ [0]))
           in check (length name < ZMODEM_MAX_BLOCK_SIZE) Buffer_overflow
             (andthen (encode_to_output ZCRCW m
                (s1\<lparr>z_state := ZFILE_WAIT,
                    z_packet := p\<lparr>p_data := data[length name := 0], p_data_n := length (c_string txt) + 1,
                                  p_use_crc32 := z_use_crc32 s1\<rparr>\<rparr>))
                (\<lambda>s2. Inr (False, s2\<lparr>z_packet_buffer_n := 0\<rparr>))))"

text \<open>The upload of a file is over: close it and set up the next one.\<close>

definition finish_upload :: "zmodem \<Rightarrow> (bool \<times> zmodem) run" where
  "finish_upload s =
     (let s1 = z_last_message ''ZRINIT'' (z_update_stats (\<lambda>t.
            t\<lparr>t_batch_bytes_transfer := t_batch_bytes_transfer t + ucast (z_file_size s),
              t_state := Q_TRANSFER_STATE_FILE_DONE\<rparr>) s)
      in (case z_file_stream s1 of
            None \<Rightarrow> Inl Null_stream
          | Some f \<Rightarrow>
              check (z_file_name s1 \<noteq> None) Assert_failed
                (Inr (False, snd (z_setup_for_next_file
                   (s1\<lparr>z_world := fclose f (z_world s1), z_file_name := None, z_file_stream := None,
                       z_upload_file_list_i := z_upload_file_list_i s1 + 1\<rparr>))))))"

text \<open>Position the file where the receiver asks and announce the data.\<close>

definition seek_file :: "nat \<Rightarrow> zmodem \<Rightarrow> zmodem run" where
  "seek_file pos s =
     (case z_file_stream s of
        None \<Rightarrow> Inl Null_stream
      | Some f \<Rightarrow> Inr (s\<lparr>z_file_position := pos, z_file_stream := Some (fseek_set pos f)\<rparr>))"

definition build_zdata :: "nat \<Rightarrow> zmodem \<Rightarrow> zmodem run" where
  "build_zdata m s = build_packet P_ZDATA (big_to_little_endian (of_nat (z_file_position s))) m s"

definition zfile_packet :: "nat \<Rightarrow> zmodem \<Rightarrow> (bool \<times> zmodem) run" where
  "zfile_packet m s =
     (let t = p_type (z_packet s); a = p_argument (z_packet s)
      in if t = P_ZRPOS then
           (let s1 = z_last_message ''ZRPOS'' s
            in if z_file_size s1 < a then Inr (True, z_abort s1)
               else andthen (seek_file (unat a) s1) (\<lambda>s2.
                    andthen (build_zdata m s2) (\<lambda>s3.
                      Inr (False, s3\<lparr>z_prior_state := ZFILE_WAIT, z_state := ZDATA, z_ack_required := False\<rparr>))))
         else if t = P_ZNAK then Inr (False, (z_stats_increment_errors ''ZNAK'' s)\<lparr>z_state := ZFILE\<rparr>)
         else if t = P_ZCRC then
           andthen (file_crc (Some a) (z_last_message ''ZCRC'' s)) (\<lambda>(_, s1).
           andthen (build_packet P_ZCRC (z_file_crc32 s1) m s1) (\<lambda>s2. Inr (False, s2)))
         else if t = P_ZSKIP then finish_upload (z_last_message ''ZSKIP'' s)
         else Inr (True, z_abort s))"

definition send_zfile_wait :: "nat \<Rightarrow> zmodem \<Rightarrow> (bool \<times> zmodem) run" where
  "send_zfile_wait m s =
     (if 0 < z_packet_buffer_n s then wait_packet m (zfile_packet m) s else wait_timeout ZFILE s)"

section \<open>ZDATA\<close>

text \<open>
  The packets a sender takes while it sends data.  The result is \<open>None\<close> when the handler
  goes on to the sending part below.
\<close>

definition goto_zeof :: "zmodem \<Rightarrow> zmodem" where
  "goto_zeof s = (z_last_message ''ZEOF'' s)\<lparr>z_state := ZEOF\<rparr>"

definition set_bytes_transfer :: "zmodem \<Rightarrow> zmodem" where
  "set_bytes_transfer s = z_update_stats (\<lambda>t. t\<lparr>t_bytes_transfer := of_nat (z_file_position s)\<rparr>) s"

definition zdata_zrpos :: "nat \<Rightarrow> zmodem \<Rightarrow> (bool option \<times> zmodem) run" where
  "zdata_zrpos m s =
     (let got_error = (\<not> z_ack_required s);
          a = p_argument (z_packet s);
          s1 = (if got_error
                then (z_stats_increment_errors ''CRC ERROR'' s)\<lparr>z_ack_required := True, z_waiting_for_ack := False,
                       z_out := [], z_outbound := [], z_streaming_zdata := False, z_packet_buffer_n := 0\<rparr>
                else s\<lparr>z_ack_required := False, z_waiting_for_ack := False\<rparr>)
      in if a \<le> z_file_size s1 then
           andthen (if got_error then block_size_down (s1\<lparr>z_confirmed_bytes := sint a\<rparr>)
                    else Inr (s1\<lparr>z_confirmed_bytes := sint a\<rparr>)) (\<lambda>s2.
             if got_error \<and> z_state s2 = Z_ABORT then Inr (Some True, s2)
             else andthen (seek_file (unat a) s2) (\<lambda>s3.
                  andthen (build_zdata m (set_bytes_transfer s3)) (\<lambda>s4. Inr (None, s4))))
         else Inr (Some True, z_abort s1))"

definition zdata_zack :: "nat \<Rightarrow> zmodem \<Rightarrow> (bool option \<times> zmodem) run" where
  "zdata_zack m s =
     (let s1 = s\<lparr>z_ack_required := False, z_waiting_for_ack := False\<rparr>;
          a = big_to_little_endian (p_argument (z_packet s1))
      in if z_file_size s1 < a then Inr (Some False, goto_zeof s1)
         else andthen (seek_file (unat a) s1) (\<lambda>s2.
           let s3 = block_size_up (s2\<lparr>z_confirmed_bytes := sint a\<rparr>)
           in if z_file_position s3 = unat (z_file_size s3) then Inr (Some False, goto_zeof s3)
              else
                let s4 = set_bytes_transfer s3
                in if z_streaming_zdata s4 then Inr (None, s4)
                   else andthen (build_zdata m s4) (\<lambda>s5. Inr (None, s5\<lparr>z_streaming_zdata := True\<rparr>))))"

definition zdata_packet :: "nat \<Rightarrow> zmodem \<Rightarrow> (bool option \<times> zmodem) run" where
  "zdata_packet m s =
     (let t = p_type (z_packet s)
      in if t = P_ZSKIP then
           andthen (encode_to_output ZCRCW m (set_packet_crc32 (z_use_crc32 s) (s\<lparr>z_outbound := [], z_out := []\<rparr>)))
             (\<lambda>s1. Inr (Some False, goto_zeof s1))
         else if t = P_ZRPOS then zdata_zrpos m s
         else if t = P_ZACK then zdata_zack m s
         else if t = P_ZNAK then Inr (None, (z_stats_increment_errors ''ZNAK'' s)\<lparr>z_state := ZRPOS\<rparr>)
         else Inr (Some True, z_abort s))"

definition zdata_input :: "nat \<Rightarrow> zmodem \<Rightarrow> (bool option \<times> zmodem) run" where
  "zdata_input m s =
     (if 0 < z_packet_buffer_n s then
        andthen (take_packet s) (\<lambda>(rc, s1).
          case rc of
            ZM_PP_CRCERROR \<Rightarrow> andthen (garbled m s1) (\<lambda>(b, s2). Inr (Some b, s2))
          | ZM_PP_INVALID \<Rightarrow> andthen (garbled m s1) (\<lambda>(b, s2). Inr (Some b, s2))
          | ZM_PP_NODATA \<Rightarrow> Inr (Some True, s1)
          | ZM_PP_OK \<Rightarrow> zdata_packet m s1)
      else if z_waiting_for_ack s then
        (case z_check_timeout s of
           (True, s1) \<Rightarrow> Inr (None, s1\<lparr>z_ack_required := True, z_waiting_for_ack := False\<rparr>)
         | (False, s1) \<Rightarrow> Inr (Some True, s1))
      else Inr (None, s))"

text \<open>The type of the next subpacket and the window that decides it.\<close>

definition next_crc_type :: "bool \<Rightarrow> zmodem \<Rightarrow> byte \<times> zmodem" where
  "next_crc_type last_block s =
     (if last_block then (ZCRCW, s\<lparr>z_waiting_for_ack := True\<rparr>)
      else
        let s1 = s\<lparr>z_blocks_ack_count := z_blocks_ack_count s - 1\<rparr>
        in if z_blocks_ack_count s1 = 0
           then (ZCRCQ, s1\<lparr>z_blocks_ack_count := (if z_reliable_link s1 then WINDOW_SIZE_RELIABLE else WINDOW_SIZE_UNRELIABLE),
                           z_waiting_for_ack := True, z_streaming_zdata := True\<rparr>)
           else (ZCRCG, s1))"

text \<open>
  Read the next block of the file into the packet.  A read error is not noticed: a short
  read is the last block.
\<close>

definition read_block :: "stream \<Rightarrow> zmodem \<Rightarrow> (bool \<times> zmodem) run" where
  "read_block f s =
     check (z_block_size s \<le> ZMODEM_MAX_BLOCK_SIZE) Buffer_overflow
       (let (got, f1) = fread (z_world s) (z_block_size s) f;
            last_block = (length got < z_block_size s \<or> length got = 0);
            p = z_packet s;
            s1 = s\<lparr>z_file_stream := Some f1,
                   z_packet := p\<lparr>p_data := memcpy (p_data p) 0 got, p_data_n := length got\<rparr>,
                   z_file_position := (if last_block then unat (z_file_size s) else z_file_position s + z_block_size s)\<rparr>;
            s2 = z_update_stats (\<lambda>t. t\<lparr>t_bytes_transfer :=
                   (if last_block then ucast (z_file_size s) else t_bytes_transfer t + of_nat (z_block_size s))\<rparr>) s1
        in Inr (last_block, z_stats_increment_blocks s2))"

definition z_send_block :: "nat \<Rightarrow> zmodem \<Rightarrow> (bool \<times> zmodem) run" where
  "z_send_block m s =
     (case z_file_stream s of
        None \<Rightarrow> Inl Null_stream
      | Some f \<Rightarrow>
          if (s_eof f \<and> ftell f \<noteq> unat (z_file_size s)) \<or> z_outbound s \<noteq> [] then Inr (True, s)
          else
            let spare = (m - length (z_out s) < 2 * z_block_size s)
            in andthen (read_block f (z_last_message ''ZDATA'' s)) (\<lambda>(last_block, s1).
                 let (crc_type, s2) = next_crc_type last_block s1;
                     s3 = set_packet_crc32 (z_use_crc32 s2) s2
                 in if spare then andthen (encode_to_outbound crc_type s3) (\<lambda>s4. Inr (False, s4))
                    else andthen (encode_to_output crc_type m s3) (\<lambda>s4. Inr (True, s4))))"

definition send_recovery :: "nat \<Rightarrow> zmodem \<Rightarrow> (bool \<times> zmodem) run" where
  "send_recovery m s =
     (let s1 = s\<lparr>z_packet := (z_packet s)\<lparr>p_data_n := 0\<rparr>\<rparr>
      in if z_outbound s1 \<noteq> [] \<and> 32 < ZMODEM_MAX_BLOCK_SIZE - length (z_outbound s1) then
           andthen (encode_to_outbound ZCRCW (set_packet_crc32 (z_use_crc32 s1) s1))
             (\<lambda>s2. Inr (True, s2\<lparr>z_waiting_for_ack := True\<rparr>))
         else if 32 < m - length (z_out s1) then
           andthen (encode_to_output ZCRCW m (set_packet_crc32 (z_use_crc32 s1) s1))
             (\<lambda>s2. Inr (True, s2\<lparr>z_waiting_for_ack := True\<rparr>))
         else Inr (True, s1))"

definition send_zdata :: "nat \<Rightarrow> zmodem \<Rightarrow> (bool \<times> zmodem) run" where
  "send_zdata m s =
     andthen (zdata_input m s) (\<lambda>(r, s1).
       case r of
         Some b \<Rightarrow> Inr (b, s1)
       | None \<Rightarrow>
           if \<not> z_waiting_for_ack s1 \<and> \<not> z_ack_required s1 then z_send_block m s1
           else if z_ack_required s1 \<and> \<not> z_waiting_for_ack s1 then send_recovery m s1
           else Inr (True, s1))"

section \<open>ZEOF and ZFIN\<close>

definition send_zeof :: "nat \<Rightarrow> zmodem \<Rightarrow> (bool \<times> zmodem) run" where
  "send_zeof m s = send_and_wait P_ZEOF (z_file_size s) ZEOF_WAIT m s"

definition zeof_wait_packet :: "zmodem \<Rightarrow> (bool \<times> zmodem) run" where
  "zeof_wait_packet s =
     (let t = p_type (z_packet s)
      in if t = P_ZRINIT then finish_upload s
         else if t = P_ZNAK then Inr (False, (z_stats_increment_errors ''ZNAK'' s)\<lparr>z_state := ZEOF\<rparr>)
         else Inr (True, z_abort s))"

definition send_zeof_wait :: "nat \<Rightarrow> zmodem \<Rightarrow> (bool \<times> zmodem) run" where
  "send_zeof_wait m s =
     (if 0 < z_packet_buffer_n s then wait_packet m zeof_wait_packet s else wait_timeout ZEOF s)"

definition send_zfin :: "nat \<Rightarrow> zmodem \<Rightarrow> (bool \<times> zmodem) run" where
  "send_zfin m s = send_and_wait P_ZFIN 0 ZFIN_WAIT m s"

text \<open>The end of the session on either side.\<close>

definition z_complete :: "zmodem \<Rightarrow> zmodem" where
  "z_complete s =
     (let s1 = z_stop_file_transfer Q_TRANSFER_STATE_END (z_last_message ''SUCCESS'' (s\<lparr>z_state := Z_COMPLETE\<rparr>))
      in z_update_stats (\<lambda>t. t\<lparr>t_end_time := now (z_world s1)\<rparr>) s1)"

definition zfin_packet :: "zmodem \<Rightarrow> (bool \<times> zmodem) run" where
  "zfin_packet s =
     (let t = p_type (z_packet s)
      in if t = P_ZFIN then Inr (False, z_complete (s\<lparr>z_out := [79, 79]\<rparr>))
         else if t = P_ZNAK then Inr (False, (z_stats_increment_errors ''ZNAK'' s)\<lparr>z_state := ZFIN\<rparr>)
         else if t = P_ZRINIT then Inr (False, (z_stats_increment_errors ''ZRINIT'' s)\<lparr>z_state := ZFIN\<rparr>)
         else Inr (True, z_abort s))"

definition send_zfin_wait :: "nat \<Rightarrow> zmodem \<Rightarrow> (bool \<times> zmodem) run" where
  "send_zfin_wait m s =
     (if 0 < z_packet_buffer_n s then wait_packet m zfin_packet s else wait_timeout ZFIN s)"

end
