(* ===== verification/Zmodem_Engine.thy ===== *)
theory Zmodem_Engine
  imports Zmodem_Send
begin

text \<open>
  The two loops of the Zmodem engine, its entry point \<open>zmodem\<close>, the start of a transfer and
  the call from protocols.c.  A loop may run for ever: its value is then \<open>None\<close>.
\<close>

section \<open>The packet buffer\<close>

definition fill_buffer :: "byte list \<Rightarrow> zmodem \<Rightarrow> byte list \<times> zmodem" where
  "fill_buffer inp s =
     (let room = ZMODEM_MAX_BLOCK_SIZE - z_packet_buffer_n s;
          got = take room inp
      in (drop room inp,
          s\<lparr>z_packet_buffer := memcpy (z_packet_buffer s) (z_packet_buffer_n s) got,
            z_packet_buffer_n := z_packet_buffer_n s + length got\<rparr>))"

section \<open>Receiving\<close>

definition receive_start :: "zmodem \<Rightarrow> zmodem" where
  "receive_start s =
     (if z_opt_zchallenge s then (z_last_message ''ZCHALLENGE'' s)\<lparr>z_state := ZCHALLENGE\<rparr>
      else reset_packet_crc ((z_last_message ''ZRINIT'' s)\<lparr>z_state := ZRINIT\<rparr>))"

definition receive_step :: "nat \<Rightarrow> zmodem \<Rightarrow> (bool \<times> zmodem) run" where
  "receive_step m s =
     (case z_state s of
        Z_INIT \<Rightarrow> Inr (False, receive_start s)
      | ZCHALLENGE \<Rightarrow> receive_zchallenge m s
      | ZCHALLENGE_WAIT \<Rightarrow> receive_zchallenge_wait m s
      | ZCRC \<Rightarrow> receive_zcrc m s
      | ZCRC_WAIT \<Rightarrow> receive_zcrc_wait m s
      | ZRINIT \<Rightarrow> receive_zrinit m s
      | ZRINIT_WAIT \<Rightarrow> receive_zrinit_wait m s
      | ZRPOS \<Rightarrow> receive_zrpos m s
      | ZRPOS_WAIT \<Rightarrow> receive_zrpos_wait m s
      | ZFILE \<Rightarrow> receive_zfile s
      | ZSKIP \<Rightarrow> receive_zskip m s
      | ZDATA \<Rightarrow> receive_zdata m s
      | ZFIN_WAIT \<Rightarrow> Inr (True, z_complete s)
      | Z_ABORT \<Rightarrow> Inr (True, s)
      | Z_COMPLETE \<Rightarrow> Inr (True, s)
      | _ \<Rightarrow> Inl Abort_called)"

partial_function (option) zmodem_receive :: "nat \<Rightarrow> byte list \<Rightarrow> zmodem \<Rightarrow> zmodem run option" where
  "zmodem_receive m inp s =
     (case receive_step m (snd (fill_buffer inp s)) of
        Inl e \<Rightarrow> Some (Inl e)
      | Inr r \<Rightarrow> if fst r then Some (Inr (snd r)) else zmodem_receive m (fst (fill_buffer inp s)) (snd r))"

section \<open>Sending\<close>

text \<open>Four CAN in a row, wherever they are in the buffer, end the transfer.\<close>

definition count_can :: "byte \<Rightarrow> zmodem \<Rightarrow> zmodem" where
  "count_can b s =
     (let s1 = s\<lparr>z_can_count := (if b \<noteq> C_CAN then 0 else z_can_count s + 1)\<rparr>
      in if 4 \<le> z_can_count s1 then z_abort_message ''TRANSFER CANCELLED BY RECEIVER'' s1 else s1)"

definition scan_cans :: "zmodem \<Rightarrow> zmodem" where
  "scan_cans s = fold count_can (take (z_packet_buffer_n s) (z_packet_buffer s)) s"

definition dispatch_outbound :: "nat \<Rightarrow> zmodem \<Rightarrow> zmodem" where
  "dispatch_outbound m s =
     (let n = m - length (z_out s)
      in s\<lparr>z_out := z_out s @ take n (z_outbound s), z_outbound := drop n (z_outbound s)\<rparr>)"

definition send_state :: "nat \<Rightarrow> zmodem \<Rightarrow> (bool \<times> zmodem) run" where
  "send_state m s =
     (case z_state s of
        Z_INIT \<Rightarrow> Inr (False, z_last_message ''ZRQINIT'' (s\<lparr>z_state := ZRQINIT\<rparr>))
      | ZSINIT \<Rightarrow> send_zsinit m s
      | ZSINIT_WAIT \<Rightarrow> send_zsinit_wait m s
      | ZRQINIT \<Rightarrow> send_zrqinit m s
      | ZRQINIT_WAIT \<Rightarrow> send_zrqinit_wait m s
      | ZFILE \<Rightarrow> send_zfile m s
      | ZFILE_WAIT \<Rightarrow> send_zfile_wait m s
      | ZDATA \<Rightarrow> send_zdata m s
      | ZEOF \<Rightarrow> send_zeof m s
      | ZEOF_WAIT \<Rightarrow> send_zeof_wait m s
      | ZFIN \<Rightarrow> send_zfin m s
      | ZFIN_WAIT \<Rightarrow> send_zfin_wait m s
      | Z_ABORT \<Rightarrow> Inr (True, s)
      | Z_COMPLETE \<Rightarrow> Inr (True, s)
      | _ \<Rightarrow> Inl Abort_called)"

definition send_step :: "nat \<Rightarrow> zmodem \<Rightarrow> (bool \<times> zmodem) run" where
  "send_step m s =
     (let s1 = scan_cans s
      in if z_outbound s1 \<noteq> [] then Inr (True, dispatch_outbound m s1) else send_state m s1)"

partial_function (option) zmodem_send :: "nat \<Rightarrow> byte list \<Rightarrow> zmodem \<Rightarrow> zmodem run option" where
  "zmodem_send m inp s =
     (case send_step m (snd (fill_buffer inp s)) of
        Inl e \<Rightarrow> Some (Inl e)
      | Inr r \<Rightarrow> if fst r then Some (Inr (snd r)) else zmodem_send m (fst (fill_buffer inp s)) (snd r))"

declare zmodem_receive.simps [code]
declare zmodem_send.simps [code]

section \<open>The entry point\<close>

definition zmodem :: "byte list \<Rightarrow> nat \<Rightarrow> zmodem \<Rightarrow> zmodem run option" where
  "zmodem inp m s =
     (if m \<le> ZMODEM_MAX_BLOCK_SIZE then Some (Inl Assert_failed)
      else if z_state s = Z_ABORT \<or> z_state s = Z_COMPLETE then Some (Inr s)
      else
        let s1 = (if inp \<noteq> [] then z_reset_timer s else s)
        in map_option (map_sum id (\<lambda>s2. if z_out s2 \<noteq> [] then z_reset_timer s2 else s2))
             (if z_sending s1 then zmodem_send m inp s1 else zmodem_receive m inp s1))"

text \<open>\<open>protocol_process_data\<close> of protocols.c for this protocol.\<close>

definition z_protocol_process_data :: "byte list \<Rightarrow> nat \<Rightarrow> zmodem \<Rightarrow> zmodem run option" where
  "z_protocol_process_data inp m s = (if transfer_over (z_stats s) then Some (Inr s) else zmodem inp m s)"

section \<open>Start\<close>

text \<open>
  \<open>zmodem_start\<close>: \<open>file_list\<close> is given for an upload and absent for a download.  The flags,
  the block size and the acknowledgement state keep the values of the transfer before.
\<close>

definition zmodem_start_common :: "bool \<Rightarrow> zmodem_flavor \<Rightarrow> zmodem \<Rightarrow> zmodem" where
  "zmodem_start_common send flavor s =
     (let s1 = (if flavor = Z_CRC32
                then s\<lparr>z_crc_32_tab := makecrc (z_crc_32_tab s), z_use_crc32 := (if send then z_use_crc32 s else True)\<rparr>
                else s\<lparr>z_use_crc32 := False\<rparr>);
          s2 = z_update_stats (\<lambda>t. t\<lparr>t_block_size := of_nat ZMODEM_BLOCK_SIZE\<rparr>)
                 (s1\<lparr>z_state := Z_INIT, z_confirmed_bytes := 0, z_last_confirmed_bytes := 0,
                     z_consecutive_errors := 0, z_reliable_link := True,
                     z_blocks_ack_count := WINDOW_SIZE_RELIABLE, z_streaming_zdata := False\<rparr>);
          s3 = z_last_message [] s2
      in (z_reset_timer (s3\<lparr>z_packet_buffer_n := 0, z_outbound := []\<rparr>))
           \<lparr>z_timeout_count := 0, z_encode_byte_map := setup_encode_byte_map (z_flags s3)\<rparr>)"

definition zmodem_start ::
  "file_info list option \<Rightarrow> cstring \<Rightarrow> bool \<Rightarrow> zmodem_flavor \<Rightarrow> zmodem \<Rightarrow> (bool \<times> zmodem) run" where
  "zmodem_start file_list pathname send flavor s =
     check (send = (file_list \<noteq> None)) Assert_failed
       (let s0 = s\<lparr>z_state := Z_ABORT, z_upload_file_list := (case file_list of None \<Rightarrow> [] | Some l \<Rightarrow> l),
                   z_upload_file_list_i := 0, z_sending := send\<rparr>
        in if send then
             (case z_setup_for_next_file s0 of
                (False, s1) \<Rightarrow> Inr (False, s1)
              | (True, s1) \<Rightarrow> Inr (True, zmodem_start_common send flavor s1))
           else
             let s1 = z_update_stats (\<lambda>t. set_transfer_stats_pathname pathname (set_transfer_stats_filename [] t))
                        (s0\<lparr>z_download_path := Some pathname\<rparr>)
             in Inr (True, zmodem_start_common send flavor s1))"

end
