(* ===== verification/Zmodem_Link.thy ===== *)
theory Zmodem_Link
  imports Zmodem_Engine
begin

text \<open>
  What the engine does with input that the engine on the other side has built: a header is
  taken from the packet buffer, a data subpacket is decoded and its CRC checked, and none
  of it counts as a cancellation.
\<close>

section \<open>A subpacket arrives\<close>

definition ready_for_data :: "zmodem \<Rightarrow> bool" where
  "ready_for_data s \<longleftrightarrow>
     p_data_n (z_packet s) = 0 \<and> p_crc16 (z_packet s) = 0 \<and>
     length (p_data (z_packet s)) = ZMODEM_MAX_BLOCK_SIZE \<and> length (p_crc_buffer (z_packet s)) = 5 \<and>
     length (z_packet_buffer s) = ZMODEM_MAX_BLOCK_SIZE"

text \<open>The buffer holds the bytes \<open>bs\<close>.\<close>

definition buffered :: "byte list \<Rightarrow> zmodem \<Rightarrow> bool" where
  "buffered bs s \<longleftrightarrow>
     z_packet_buffer_n s = length bs \<and> take (length bs) (z_packet_buffer s) = bs"

definition data_packet :: "byte list \<Rightarrow> byte \<Rightarrow> byte list \<Rightarrow> zmodem \<Rightarrow> zmodem_packet" where
  "data_packet bs t crc s =
     (let p = z_packet s;
          p0 = p\<lparr>p_data := memcpy (p_data p) 0 bs, p_data_n := length bs,
                 p_crc_buffer := memcpy (p_crc_buffer p) 0 (t # crc)\<rparr>;
          p1 = p0\<lparr>p_data := (p_data p0)[length bs := t]\<rparr>
      in if p_use_crc32 p then p1\<lparr>p_crc32 := compute_crc32 (z_crc_32_tab s) crc32_preset (Some (bs @ [t]))\<rparr>
         else p1\<lparr>p_crc16 := compute_crc16 0 (bs @ [t])\<rparr>)"

definition data_taken :: "byte list \<Rightarrow> byte \<Rightarrow> byte list \<Rightarrow> byte list \<Rightarrow> zmodem \<Rightarrow> zmodem" where
  "data_taken bs t crc rest s =
     s\<lparr>z_packet_buffer := memcpy (z_packet_buffer s) 0 rest, z_packet_buffer_n := length rest,
       z_packet := data_packet bs t crc s\<rparr>"

definition data_crc :: "u32 list \<Rightarrow> bool \<Rightarrow> byte list \<Rightarrow> byte list" where
  "data_crc tab c bs = (if c then crc32_le (compute_crc32 tab crc32_preset (Some bs)) else crc16_be (compute_crc16 0 bs))"

lemma crc_escape_cases: "crc_escape t \<longleftrightarrow> t \<in> {ZCRCE, ZCRCG, ZCRCQ, ZCRCW}"
  by (auto simp: crc_escape_def)

lemma or_bytes_crc32: "length crc = 4 \<Longrightarrow> or_bytes [0, 8, 16, 24] crc = c \<longleftrightarrow> crc = crc32_le c"
proof
  assume l: "length crc = 4" and c: "or_bytes [0, 8, 16, 24] crc = c"
  obtain b0 b1 b2 b3 where b: "crc = [b0, b1, b2, b3]" using l by (auto simp: numeral_eq_Suc length_Suc_conv)
  have "c = or_bytes [24, 16, 8, 0] [b3, b2, b1, b0]"
    using c by (simp add: b or.commute or.left_commute or.assoc)
  then have "argument_bytes c = [b3, b2, b1, b0]" by (simp only: join_argument_bytes)
  then show "crc = crc32_le c" by (simp add: b argument_bytes_def crc32_le_def)
qed (simp add: crc32_le_join del: or_bytes_simps)

lemma or_bytes_crc16: "length crc = 2 \<Longrightarrow> or_bytes [8, 0] crc = ucast (r :: 16 word) \<longleftrightarrow> crc = crc16_be (ucast r)"
proof
  assume l: "length crc = 2" and c: "or_bytes [8, 0] crc = ucast (r :: 16 word)"
  obtain b1 b0 where b: "crc = [b1, b0]" using l by (auto simp: numeral_eq_Suc length_Suc_conv)
  have "or_bytes [24, 16, 8, 0] [0, 0, b1, b0] = ucast r" using c by (simp add: b)
  then have "argument_bytes (ucast r) = [0, 0, b1, b0]" using join_argument_bytes [of 0 0 b1 b0] by metis
  then show "crc = crc16_be (ucast r)" by (simp add: b argument_bytes_def crc16_be_def)
qed (simp add: crc16_be_join del: or_bytes_simps)

lemma or_bytes_append: "length ks = length bs \<Longrightarrow> or_bytes ks (bs @ xs) = or_bytes ks bs"
  by (induction ks bs rule: list_induct2) simp_all

lemma take_stored_byte:
  "length bs < length xs \<Longrightarrow> take (Suc (length bs)) ((memcpy xs 0 bs)[length bs := t]) = bs @ [t]"
  by (simp add: memcpy_def take_Suc_conv_app_nth nth_append list_update_append)

lemma receive_subframe:
  assumes "ready_for_data s" "buffered (subframe flags bs t crc @ rest) s" "crc_escape t"
    and "length crc = (if p_use_crc32 (z_packet s) then 4 else 2)" "length bs < ZMODEM_MAX_BLOCK_SIZE"
  shows "receive_zdata m s =
    (if crc = data_crc (z_crc_32_tab s) (p_use_crc32 (z_packet s)) (bs @ [t])
     then data_accepted m (t = ZCRCE \<or> t = ZCRCW) (t = ZCRCW \<or> t = ZCRCQ) (data_taken bs t crc rest s)
     else data_rejected m (data_taken bs t crc rest s))"
proof -
  let ?w = "subframe flags bs t crc" let ?c = "p_use_crc32 (z_packet s)" let ?n = "length (?w @ rest)"
  define stale where "stale = drop ?n (z_packet_buffer s)"
  have buf: "z_packet_buffer s = ?w @ rest @ stale" and n: "z_packet_buffer_n s = ?n"
    using assms(2) append_take_drop_id [of ?n "z_packet_buffer s"] by (simp_all add: buffered_def stale_def)
  have "?n \<le> ZMODEM_MAX_BLOCK_SIZE" using assms(1) buf by (simp add: ready_for_data_def)
  then have d: "decode_zdata_bytes ?c (z_packet_buffer s) (z_packet_buffer_n s) ZMODEM_MAX_BLOCK_SIZE =
     Inr (Some (ZD_TRUE, \<lparr>zd_type = Some t, zd_out = bs, zd_crc = t # crc,
       zd_i = length ?w - (if t = ZCRCW then 1 else 0)\<rparr>, memcpy (z_packet_buffer s) 0 rest, length rest))"
    unfolding buf n using assms(4,5) by (intro decode_subframe [OF assms(3)]) simp_all
  have D: "take (Suc (length bs)) ((memcpy (p_data (z_packet s)) 0 bs)[length bs := t]) = bs @ [t]"
    using assms(1,5) by (simp add: take_stored_byte ready_for_data_def)
  define cb where "cb = memcpy (p_crc_buffer (z_packet s)) 0 (t # crc)"
  have cb: "cb = t # crc @ drop (Suc (length crc)) (p_crc_buffer (z_packet s))"
    by (simp add: cb_def memcpy_def)
  have C: "or_bytes [0, 8, 16, 24] (drop (Suc 0) cb) = c \<longleftrightarrow> crc = crc32_le c" if ?c for c
    using assms(1,4) that or_bytes_crc32 [of crc c] by (simp add: cb ready_for_data_def del: or_bytes_simps)
  have C': "or_bytes [8, 0] (drop (Suc 0) cb) = compute_crc16 0 ys \<longleftrightarrow> crc = crc16_be (compute_crc16 0 ys)" if "\<not> ?c" for ys
    using assms(4) that or_bytes_crc16 [of crc "foldl crc16_step 0 ys"]
    by (simp add: cb or_bytes_append compute_crc16_eq del: or_bytes_simps)
  define s1 where "s1 = s\<lparr>z_packet_buffer := memcpy (z_packet_buffer s) 0 rest, z_packet_buffer_n := length rest,
    z_packet := (z_packet s)\<lparr>p_data := memcpy (p_data (z_packet s)) 0 bs, p_data_n := length bs, p_crc_buffer := cb\<rparr>\<rparr>"
  have "decode_data s = Inr (True, s1)"
    using assms(1) by (simp add: decode_data_def Let_def ready_for_data_def d s1_def cb_def)
  moreover have "check_data_crc s1 = Inr (crc = data_crc (z_crc_32_tab s) ?c (bs @ [t]), data_taken bs t crc rest s)"
    using assms(1,5) C C'
    by (cases ?c) (simp_all add: check_data_crc_def Let_def s1_def D ready_for_data_def data_taken_def data_packet_def
        data_crc_def cb [THEN arg_cong, of "\<lambda>x. x ! 0"] flip: cb_def del: or_bytes_simps)
  moreover have "p_crc_buffer (z_packet s1) ! 0 = t" by (simp add: s1_def cb)
  ultimately show ?thesis using assms(3) by (simp add: receive_zdata_def)
qed

lemma length_subframe: "length (subframe flags bs t crc) \<le> 2 * length bs + 2 * length crc + 3"
  using encode_map.length_escs [of flags bs] encode_map.length_escs [of flags crc] by (simp add: subframe_def)

lemma fill_buffer_Nil [simp]: "fill_buffer [] s = ([], s)"
  by (simp add: fill_buffer_def Let_def)

lemma wire_cong:
  assumes "z_flags s' = z_flags s" "z_sending s' = z_sending s" "z_use_crc32 s' = z_use_crc32 s" "z_crc_32_tab s' = z_crc_32_tab s"
  shows "packet_wire t a s' = packet_wire t a s"
  using assms by (simp add: packet_wire_def do_hex_def Let_def)

lemma packet_wire_fits: "length (packet_wire t a s) \<le> ZMODEM_MAX_BLOCK_SIZE" "0 < length (packet_wire t a s)"
proof -
  show "length (packet_wire t a s) \<le> ZMODEM_MAX_BLOCK_SIZE"
    by (rule order_trans [OF length_packet_wire]) (simp add: ZMODEM_MAX_BLOCK_SIZE_def ZMODEM_BLOCK_SIZE_def)
  show "0 < length (packet_wire t a s)" by (simp add: packet_wire_def Let_def)
qed

lemma zmodem_send_step:
  "zmodem_send m [] s = (case send_step m s of Inl e \<Rightarrow> Some (Inl e)
     | Inr r \<Rightarrow> if fst r then Some (Inr (snd r)) else zmodem_send m [] (snd r))"
  by (subst zmodem_send.simps) (simp split: sum.split)

lemma scan_cans_empty [simp]: "z_packet_buffer_n s = 0 \<Longrightarrow> scan_cans s = s"
  by (simp add: scan_cans_def)

lemma z_stop_sel [simp]:
  "z_flags (z_stop_file_transfer st s) = z_flags s" "z_encode_byte_map (z_stop_file_transfer st s) = z_encode_byte_map s"
  "z_out (z_stop_file_transfer st s) = z_out s" "z_outbound (z_stop_file_transfer st s) = z_outbound s"
  "z_packet_buffer_n (z_stop_file_transfer st s) = z_packet_buffer_n s"
  by (simp_all add: z_stop_file_transfer_def zmodem_stop_def Let_def)

lemma z_increment_errors_sel [simp]:
  "z_flags (z_stats_increment_errors e s) = z_flags s" "z_encode_byte_map (z_stats_increment_errors e s) = z_encode_byte_map s"
  "z_out (z_stats_increment_errors e s) = z_out s" "z_outbound (z_stats_increment_errors e s) = z_outbound s"
  "z_packet_buffer_n (z_stats_increment_errors e s) = z_packet_buffer_n s"
  by (simp_all add: z_stats_increment_errors_def Let_def)

lemma z_stop_stats: "t_protocol (z_stats (z_stop_file_transfer st s)) = t_protocol (z_stats s)"
  by (simp add: z_stop_file_transfer_def zmodem_stop_def Let_def)

lemma z_errors_protocol: "t_protocol (z_stats (z_stats_increment_errors e s)) = t_protocol (z_stats s)"
  by (simp add: z_stats_increment_errors_def Let_def z_stop_stats)

lemma z_stop_closes: "t_protocol (z_stats s) = Q_PROTOCOL_ZMODEM \<Longrightarrow>
    z_file_name (z_stop_file_transfer st s) = None \<and> z_file_stream (z_stop_file_transfer st s) = None"
  by (simp add: z_stop_file_transfer_def zmodem_stop_def Let_def)

section \<open>Cancellation\<close>

text \<open>Input that does not count towards the four CAN that cancel an upload.\<close>

definition calm :: "byte list \<Rightarrow> bool" where
  "calm bs \<longleftrightarrow> (\<forall>s. z_can_count s = 0 \<longrightarrow> fold count_can bs s = s)"

lemma same_can_count: "z_can_count s = 0 \<Longrightarrow> s\<lparr>z_can_count := 0\<rparr> = s"
  by (cases s) simp

lemma calm_Nil [simp]: "calm []"
  by (simp add: calm_def)

lemma calm_append: "calm xs \<Longrightarrow> calm ys \<Longrightarrow> calm (xs @ ys)"
  by (simp add: calm_def)

lemma calm_plain: "b \<noteq> C_CAN \<Longrightarrow> calm bs \<Longrightarrow> calm (b # bs)"
  by (simp add: calm_def count_can_def Let_def same_can_count)

lemma calm_escaped: "b \<noteq> C_CAN \<Longrightarrow> calm bs \<Longrightarrow> calm (C_CAN # b # bs)"
  by (simp add: calm_def count_can_def Let_def same_can_count)

lemma calm_no_can: "C_CAN \<notin> set bs \<Longrightarrow> calm bs"
  by (induction bs) (auto intro: calm_plain)

context escape_map
begin

lemma calm_esc: "calm (esc b)"
  using plain [of b] no_can [of b] by (auto simp: esc_def intro: calm_plain calm_escaped)


lemma calm_escs: "calm (concat (map esc bs))"
  by (induction bs) (simp_all add: calm_append calm_esc)

end

lemma hex_digits_no_can: "n < 16 \<Longrightarrow> hex_digits ! n \<noteq> C_CAN"
proof -
  assume "n < 16"
  then have "hex_digits ! n \<in> set hex_digits" by (intro nth_mem) (simp add: hex_digits_def ascii_def)
  then show ?thesis by (auto simp: hex_digits_def ascii_def C_CAN_def)
qed

lemma calm_hexify: "calm (hexify bs)"
  by (induction bs) (simp_all add: hexify_def calm_plain hex_digits_no_can nibbles)

lemma not_can [simp]: "ZPAD \<noteq> C_CAN" "C_CR \<noteq> C_CAN" "C_LF OR 0x80 \<noteq> C_CAN" "C_XON \<noteq> C_CAN"
  "65 \<noteq> C_CAN" "66 \<noteq> C_CAN" "67 \<noteq> C_CAN"
  by (simp_all add: ZPAD_def C_CAN_def C_CR_def C_LF_def C_XON_def)

lemma calm_packet_wire: "calm (packet_wire t a s)"
proof (cases "do_hex t s")
  case True
  have "calm ([ZPAD, ZPAD, C_CAN, 66] @ hexify h @ hexify c @ [C_CR, C_LF OR 0x80] @ (if x then [C_XON] else []))" for h c x
    by (simp add: calm_plain calm_escaped calm_append calm_hexify)
  then show ?thesis using True by (simp add: packet_wire_def Let_def)
next
  case False
  have "calm ([ZPAD, C_CAN, if c then 67 else 65] @ escaped_bytes f bs)" for c f bs
    by (simp add: calm_plain calm_escaped encode_map.calm_escs)
  then show ?thesis unfolding packet_wire_def Let_def if_not_P [OF False] .
qed

lemma scan_cans_calm: "z_can_count s = 0 \<Longrightarrow> calm (take (z_packet_buffer_n s) (z_packet_buffer s)) \<Longrightarrow> scan_cans s = s"
  by (simp add: calm_def scan_cans_def)

section \<open>Taking a packet\<close>

lemma fill_empty_buffer:
  assumes "z_packet_buffer_n s = 0" "length bs \<le> ZMODEM_MAX_BLOCK_SIZE" "length (z_packet_buffer s) = ZMODEM_MAX_BLOCK_SIZE"
  shows "fill_buffer bs s = ([], s\<lparr>z_packet_buffer := memcpy (z_packet_buffer s) 0 bs, z_packet_buffer_n := length bs\<rparr>)"
  using assms by (simp add: fill_buffer_def Let_def)

lemma take_memcpy_0: "take (length bs) (memcpy xs 0 bs) = bs"
  by (simp add: memcpy_def)

lemma take_packet_wire:
  assumes "buffered (packet_wire t a p @ rest) s" "t \<le> P_ZCOMMAND"
    and "z_use_crc32 p \<Longrightarrow> table_from 0 (z_crc_32_tab p) \<and> table_from 0 (z_crc_32_tab s)"
  shows "\<exists>q. take_packet s = Inr (ZM_PP_OK, (packet_received t q s)
      \<lparr>z_packet_buffer := memcpy (z_packet_buffer s) 0 rest, z_packet_buffer_n := length rest\<rparr>) \<and>
    parsed t a (z_use_crc32 p \<and> \<not> do_hex t p) q"
proof -
  let ?w = "packet_wire t a p" let ?n = "length (?w @ rest)"
  define stale where "stale = drop ?n (z_packet_buffer s)"
  have buf: "z_packet_buffer s = ?w @ rest @ stale" and n: "z_packet_buffer_n s = ?n"
    using assms(1) append_take_drop_id [of ?n "z_packet_buffer s"] by (simp_all add: buffered_def stale_def)
  obtain q where q: "parse_packet (?w @ rest) s = Inr (ZM_PP_OK, length ?w, packet_received t q s)"
      "parsed t a (z_use_crc32 p \<and> \<not> do_hex t p) q"
    using parse_packet_wire [OF assms(2), of p s a rest] assms(3) by blast
  have "0 < length ?w" by (simp add: packet_wire_def Let_def)
  moreover have "z_packet_buffer (packet_received t q s) = ?w @ rest @ stale" "z_packet_buffer_n (packet_received t q s) = ?n"
    using buf n by (simp_all add: packet_received_def)
  ultimately have "take_packet s = Inr (ZM_PP_OK, (packet_received t q s)
      \<lparr>z_packet_buffer := memcpy (z_packet_buffer s) 0 rest, z_packet_buffer_n := length rest\<rparr>)"
    using q(1) buf n by (simp add: take_packet_def shift_input_def)
  then show ?thesis using q(2) by blast
qed

end
