(* ===== verification/Zmodem_Properties.thy ===== *)
theory Zmodem_Properties
  imports Zmodem_Link
begin

text \<open>
  What the Zmodem engine promises, and where it fails: the round trips of headers and data,
  the CRC, damaged input and timeouts.
\<close>

unbundle bit_operations_syntax

section \<open>Round trips\<close>

text \<open>
  C10.  Data encoded into a subpacket, with any flags, any end of the subpacket and either
  CRC, is decoded from the front of a buffer, whatever follows it: the data, the end marker
  and the CRC come back, and what follows is moved to the front.
\<close>

theorem zmodem_data_roundtrip:
  assumes "crc_escape t" "2 * length bs + 11 \<le> m" "length rest \<le> m"
  shows "\<exists>wire d buf.
    encode_zdata_bytes (setup_encode_byte_map flags) (makecrc (replicate 256 0)) c bs m t [] = Inr wire \<and>
    decode_zdata_bytes c (wire @ rest @ stale) (length wire + length rest) m = Inr (Some (ZD_TRUE, d, buf, length rest)) \<and>
    zd_type d = Some t \<and> zd_out d = bs \<and> zd_crc d = t # zdata_crc (makecrc (replicate 256 0)) c bs t \<and>
    take (length rest) buf = rest"
proof -
  let ?w = "subpacket flags c bs t"
  have e: "encode_zdata_bytes (setup_encode_byte_map flags) (makecrc (replicate 256 0)) c bs m t [] = Inr ?w"
    using assms(2) encode_zdata_bytes_eq [of "makecrc (replicate 256 0)" c "[]" bs t m flags]
      makecrc_table [of "replicate 256 0"] by (simp split: if_split_asm)
  have "length ?w \<le> 2 * length bs + 11"
    using length_subframe [of flags bs t "zdata_crc (makecrc (replicate 256 0)) c bs t"]
    by (simp add: subpacket_def length_zdata_crc split: if_split_asm)
  then have "decode_zdata_bytes c (?w @ rest @ stale) (length ?w + length rest) m = Inr (Some (ZD_TRUE,
      \<lparr>zd_type = Some t, zd_out = bs, zd_crc = t # zdata_crc (makecrc (replicate 256 0)) c bs t,
       zd_i = length ?w - (if t = ZCRCW then 1 else 0)\<rparr>, memcpy (?w @ rest @ stale) 0 rest, length rest))"
    using assms(2,3) by (intro decode_subpacket [OF assms(1)]) simp_all
  then show ?thesis using e by (simp add: take_memcpy_0)
qed

theorem zmodem_data_roundtrip_witness:
  "\<exists>wire d buf.
    encode_zdata_bytes (setup_encode_byte_map 0x40) (makecrc (replicate 256 0)) True [24, 17, 0, 255] 64 ZCRCW [] = Inr wire \<and>
    decode_zdata_bytes True (wire @ [ZPAD] @ [1, 2]) (length wire + 1) 64 = Inr (Some (ZD_TRUE, d, buf, 1)) \<and>
    zd_type d = Some ZCRCW \<and> zd_out d = [24, 17, 0, 255] \<and>
    zd_crc d = ZCRCW # zdata_crc (makecrc (replicate 256 0)) True [24, 17, 0, 255] ZCRCW \<and> take 1 buf = [ZPAD]"
  using zmodem_data_roundtrip [of ZCRCW "[24, 17, 0, 255]" 64 "[ZPAD]" "0x40" True "[1, 2]"]
  by (simp add: crc_escape_def)

text \<open>
  C11.  A header written by \<open>build_packet\<close>, in hexadecimal or binary form, is read by
  \<open>parse_packet\<close> from the front of the input: all its bytes are taken, type and
  argument are those given, except that the argument of ZSINIT comes back byte-swapped.
\<close>

theorem zmodem_header_roundtrip:
  assumes "z_out s = []" "flags_ok s" "21 \<le> m" "t \<le> P_ZCOMMAND"
    and "table_from 0 (z_crc_32_tab s)" "table_from 0 (z_crc_32_tab r)"
  shows "\<exists>s' r'. build_packet t a m s = Inr s' \<and>
    parse_packet (z_out s' @ rest) r = Inr (ZM_PP_OK, length (z_out s'), r') \<and>
    p_type (z_packet r') = t \<and> p_argument (z_packet r') = (if t = P_ZSINIT then big_to_little_endian a else a)"
proof -
  obtain p where "parse_packet (packet_wire t a s @ rest) r = Inr (ZM_PP_OK, length (packet_wire t a s), packet_received t p r)"
      "parsed t a (z_use_crc32 s \<and> \<not> do_hex t s) p"
    using parse_packet_wire [OF assms(4), of s r a rest] assms(5,6) by blast
  moreover have "z_packet (packet_received t p r) = p" by (simp add: packet_received_def)
  ultimately show ?thesis using build_packet_wire [OF assms(1-3), of t a] by (auto simp: parsed_def)
qed

text \<open>An engine just started, on a machine with no files.\<close>

definition started :: "bool \<Rightarrow> zmodem" where
  "started send = zmodem_start_common send Z_CRC32 ((initial_zmodem False False
     \<lparr>now = 0, files = (\<lambda>_. None), may_open = (\<lambda>_. True), bad_at = (\<lambda>_. None), space = 65536, uninit = 0,
      stat_denied = (\<lambda>_. False), entropy = 0\<rparr>)\<lparr>z_sending := send\<rparr>)"

lemma started_sel [simp]:
  "z_out (started b) = []" "z_flags (started b) = 0" "z_outbound (started b) = []" "z_sending (started b) = b"
  "z_encode_byte_map (started b) = setup_encode_byte_map 0" "z_crc_32_tab (started b) = makecrc (replicate 256 0)"
  "z_packet_buffer_n (started b) = 0" "length (z_packet_buffer (started b)) = ZMODEM_MAX_BLOCK_SIZE"
  "z_packet (started b) = clear_packet" "now (z_world (started b)) = 0" "z_timeout_begin (started b) = 0"
  "t_protocol (z_stats (started b)) = Q_PROTOCOL_ZMODEM" "z_use_crc32 (started b)"
  by (simp_all add: started_def zmodem_start_common_def initial_zmodem_def Let_def z_reset_timer_def z_last_message_def
      z_update_stats_def set_transfer_stats_last_message_def)

lemma started_ok [simp]: "flags_ok (started b)" "table_from 0 (makecrc (replicate 256 0))"
  by (simp_all add: flags_ok_def makecrc_table)

theorem zmodem_header_roundtrip_witness:
  "\<exists>s' r'. build_packet P_ZRPOS 0x12345678 64 (started False) = Inr s' \<and>
    parse_packet (z_out s' @ [C_XON]) (started True) = Inr (ZM_PP_OK, length (z_out s'), r') \<and>
    p_type (z_packet r') = P_ZRPOS \<and> p_argument (z_packet r') = 0x12345678"
  using zmodem_header_roundtrip [of "started False" 64 P_ZRPOS "started True" "0x12345678" "[C_XON]"]
  by (simp add: packet_types)

section \<open>The CRC\<close>

text \<open>
  C12.  The table filled by \<open>makecrc\<close> and the table driven \<open>compute_crc32\<close> compute the CRC-32
  of the standard: the register shifted bit by bit, preset to ones, the result inverted,
  whatever the table held before, and also when the data comes byte by byte with the
  inversion undone in between, as for the CRC of a file.
\<close>

theorem zmodem_crc32_is_crc32:
  assumes "length tab = 256"
  shows "compute_crc32 (makecrc tab) (compute_crc32 (makecrc tab) r None) (Some bs) = crc32_of bs \<and>
    NOT (foldl (\<lambda>c b. NOT (compute_crc32 (makecrc tab) c (Some [b]))) crc32_preset bs) = crc32_of bs"
proof -
  note tab = makecrc_table [OF assms]
  have "compute_crc32 t r' None = 0xFFFFFFFF" for t r' by (simp add: compute_crc32_def)
  then show ?thesis
    by (simp add: compute_crc32_eq [OF tab] foldl_compute_crc32 [OF tab] crc32_of_def crc32_preset_def)
qed

theorem zmodem_crc32_is_crc32_witness:
  "compute_crc32 (makecrc (replicate 256 7)) (compute_crc32 (makecrc (replicate 256 7)) 0 None) (Some [49, 50]) = crc32_of [49, 50] \<and>
   NOT (foldl (\<lambda>c b. NOT (compute_crc32 (makecrc (replicate 256 7)) c (Some [b]))) crc32_preset [49, 50]) = crc32_of [49, 50]"
  by (rule zmodem_crc32_is_crc32) simp

lemma crc32_of_inj: "crc32_of xs = crc32_of ys \<longleftrightarrow> foldl crc32_step 0xFFFFFFFF xs = foldl crc32_step 0xFFFFFFFF ys"
  by (simp add: crc32_of_def)

lemma damaged_crc32:
  assumes "i < length bs" "b \<noteq> bs ! i"
  shows "crc32_of (bs[i := b] @ [t]) \<noteq> crc32_of (bs @ [t])"
proof -
  have "(bs @ [t]) [i := b] = bs[i := b] @ [t]" using assms(1) by (simp add: list_update_append1)
  then show ?thesis
    unfolding crc32_of_inj using crc32.single_byte_error_detected [of i "bs @ [t]" b] assms by (simp add: nth_append)
qed

section \<open>Damaged data\<close>

text \<open>
  C13.  A download with 32-bit CRC that receives a data subpacket in which one data byte is not
  the one that the CRC was computed from (the byte was changed before the data were escaped; the
  escapes, the end and the CRC of the subpacket are intact) writes nothing: file, position and
  directory stay as they were, and the answer is a ZRPOS that asks for the data from the position
  reached.
\<close>

theorem zmodem_damage_rejected:
  assumes "z_state s = ZDATA" "z_prior_state s = ZRPOS_WAIT" "ready_for_data s" "p_use_crc32 (z_packet s)"
    and "table_from 0 (z_crc_32_tab s)" "flags_ok s" "z_out s = []" "21 \<le> m"
    and "crc_escape t" "length bs \<le> ZMODEM_BLOCK_SIZE" "i < length bs" "b \<noteq> bs ! i"
    and "buffered (subframe flags (bs[i := b]) t (zdata_crc (makecrc (replicate 256 0)) True bs t) @ rest) s"
  shows "\<exists>s'. receive_zdata m s = Inr (True, s') \<and> z_state s' = ZRPOS_WAIT \<and>
    z_file_stream s' = z_file_stream s \<and> z_world s' = z_world s \<and> z_file_position s' = z_file_position s \<and>
    z_out s' = packet_wire P_ZRPOS (of_nat (z_file_position s)) s"
proof -
  let ?crc = "zdata_crc (makecrc (replicate 256 0)) True bs t"
  let ?s1 = "data_taken (bs[i := b]) t ?crc rest s"
  let ?s2 = "(z_stats_increment_errors ''CRC ERROR'' ?s1)\<lparr>z_packet_buffer_n := 0\<rparr>"
  have crc: "?crc = crc32_le (crc32_of (bs @ [t]))" by (rule zdata_crc32) simp
  have "data_crc (z_crc_32_tab s) True (bs[i := b] @ [t]) = crc32_le (crc32_of (bs[i := b] @ [t]))"
    using assms(5) by (simp add: data_crc_def compute_crc32_eq crc32_of_def crc32_preset_def) (simp add: compute_crc32_def)
  moreover have "crc32_le (crc32_of (bs[i := b] @ [t])) \<noteq> ?crc"
    using damaged_crc32 [OF assms(11,12), of t] crc32_le_join unfolding crc by metis
  ultimately have r: "receive_zdata m s = data_rejected m ?s1"
    using receive_subframe [OF assms(3,13,9), of m] assms(4,10) by (auto simp: length_zdata_crc ZMODEM_BLOCK_SIZE_def ZMODEM_MAX_BLOCK_SIZE_def)
  have *: "z_state ?s1 = ZDATA" "z_prior_state ?s1 = ZRPOS_WAIT" using assms(1,2) by (simp_all add: data_taken_def)
  have "build_packet P_ZRPOS (of_nat (z_file_position ?s1)) m ?s2 = Inr (?s2\<lparr>z_packet := (z_packet ?s2)\<lparr>p_type := P_ZRPOS,
      p_use_crc32 := z_use_crc32 ?s2 \<and> \<not> do_hex P_ZRPOS ?s2, p_data_n := 0\<rparr>, z_out := packet_wire P_ZRPOS (of_nat (z_file_position ?s1)) ?s2\<rparr>)"
    using assms(6,7,8) * by (intro build_packet_wire) (simp_all add: flags_ok_def, simp_all add: data_taken_def)
  moreover have "packet_wire P_ZRPOS a ?s2 = packet_wire P_ZRPOS a s" for a
    by (rule wire_cong) (simp_all add: *, simp_all add: data_taken_def)
  ultimately show ?thesis
    unfolding r using * by (simp add: data_rejected_def) (simp add: data_taken_def)
qed

definition damaged_frame :: "byte list" where
  "damaged_frame = subframe 0 [1, 9, 3] ZCRCG (zdata_crc (makecrc (replicate 256 0)) True [1, 2, 3] ZCRCG)"

definition damaged_download :: zmodem where
  "damaged_download = (started False)\<lparr>z_state := ZDATA, z_prior_state := ZRPOS_WAIT,
     z_packet := clear_packet\<lparr>p_use_crc32 := True\<rparr>, z_packet_buffer_n := length damaged_frame,
     z_packet_buffer := memcpy (replicate ZMODEM_MAX_BLOCK_SIZE 0) 0 damaged_frame\<rparr>"

lemma damaged_frame_length: "length damaged_frame \<le> ZMODEM_MAX_BLOCK_SIZE"
  using length_subframe [of 0 "[1, 9, 3]" ZCRCG "zdata_crc (makecrc (replicate 256 0)) True [1, 2, 3] ZCRCG"]
  by (simp add: damaged_frame_def length_zdata_crc ZMODEM_MAX_BLOCK_SIZE_def ZMODEM_BLOCK_SIZE_def)

theorem zmodem_damage_rejected_witness:
  "\<exists>s'. receive_zdata 2100 damaged_download = Inr (True, s') \<and> z_state s' = ZRPOS_WAIT \<and>
    z_file_stream s' = z_file_stream damaged_download \<and> z_world s' = z_world damaged_download \<and>
    z_file_position s' = z_file_position damaged_download \<and>
    z_out s' = packet_wire P_ZRPOS (of_nat (z_file_position damaged_download)) damaged_download"
proof (rule zmodem_damage_rejected)
  show "ready_for_data damaged_download"
    using damaged_frame_length by (simp add: ready_for_data_def damaged_download_def clear_packet_def)
  show "buffered (subframe 0 ([1, 2, 3][1 := 9]) ZCRCG (zdata_crc (makecrc (replicate 256 0)) True [1, 2, 3] ZCRCG) @ []) damaged_download"
    by (simp add: buffered_def damaged_download_def take_memcpy_0 flip: damaged_frame_def)
  show "flags_ok damaged_download" by (simp add: flags_ok_def damaged_download_def)
qed (simp_all add: damaged_download_def crc_escape_def ZMODEM_BLOCK_SIZE_def)

section \<open>Input that stops the program\<close>

text \<open>
  When a ZCRCW subpacket has arrived up to its CRC but the XON behind it has not, and
  the byte of the buffer behind the input happens to be an XON left from earlier input, the
  decoder counts that byte as consumed and moves a negative number of bytes: a write far
  outside the buffer (a defect).
\<close>

lemma zmodem_missing_xon_overflows:
  assumes "w = escaped_bytes flags bs @ [C_CAN, ZCRCW] @ escaped_bytes flags crc" "length crc = (if c then 4 else 2)"
    and "length w \<le> 2 * m" "length bs \<le> m"
  shows "decode_zdata_bytes c (w @ C_XON # stale) (length w) m = Inl Buffer_overflow"
proof -
  have e: "crc_escape ZCRCW" by (simp add: crc_escape_def)
  have k: "(if c then 5 else 3) = Suc (length crc)" by (simp add: assms(2))
  have d: "decode_loop (if c then 5 else 3) w \<lparr>zd_type = None, zd_out = [], zd_crc = [], zd_i = 0\<rparr> =
    (ZD_TRUE, \<lparr>zd_type = Some ZCRCW, zd_out = bs, zd_crc = ZCRCW # crc, zd_i = length w\<rparr>)"
    unfolding k using encode_map.decode_loop_subpacket [OF e refl, of crc flags bs "[]"] by (simp add: assms(1,2))
  have "crc_escape_present w"
    using encode_map.crc_escape_present_escs [OF e] by (simp add: assms(1))
  then show ?thesis using assms(3,4) by (simp add: decode_zdata_bytes_def d Let_def shift_input_def)
qed

text \<open>A hexadecimal header whose first digit is none.\<close>

definition bad_hex_header :: "byte list \<Rightarrow> bool" where
  "bad_hex_header bs \<longleftrightarrow>
     20 \<le> length bs \<and> take 4 bs = [ZPAD, ZPAD, C_CAN, 66] \<and> hex_value (bs ! 4) = None"

lemma parse_bad_hex_header:
  assumes "bad_hex_header bs"
  shows "parse_packet bs s = Inr (ZM_PP_INVALID, 0, s\<lparr>z_packet := clear_packet\<rparr>)"
proof -
  obtain x xs where bs: "bs = [ZPAD, ZPAD, C_CAN, 66] @ x # xs"
    using assms append_take_drop_id [of 4 bs] unfolding bad_hex_header_def
    by (cases "drop 4 bs") (auto simp flip: length_0_conv)
  have "hex_value x = None" "15 \<le> length xs" using assms by (simp_all add: bad_hex_header_def bs)
  then show ?thesis
    by (cases xs) (simp_all add: bs parse_packet_def parse_header_def parse_hex_def dehexify_string_def dehexify_loop.simps ZPAD_def C_CAN_def Let_def)
qed

definition stuck_in_zrpos_wait :: "zmodem \<Rightarrow> bool" where
  "stuck_in_zrpos_wait s \<longleftrightarrow>
     z_state s = ZRPOS_WAIT \<and> z_prior_state s = ZRPOS_WAIT \<and>
     bad_hex_header (take (z_packet_buffer_n s) (z_packet_buffer s)) \<and>
     length (z_packet_buffer s) = ZMODEM_MAX_BLOCK_SIZE"

lemma stuck_step:
  assumes "stuck_in_zrpos_wait s"
  shows "\<exists>s'. receive_step m s = Inr (False, s') \<and> stuck_in_zrpos_wait s'"
proof -
  have "0 < z_packet_buffer_n s" using assms by (auto simp: stuck_in_zrpos_wait_def bad_hex_header_def)
  then have "receive_step m s = Inr (False, s\<lparr>z_packet := clear_packet\<rparr>)"
    using assms by (simp add: receive_step_def receive_zrpos_wait_def take_packet_def stuck_in_zrpos_wait_def parse_bad_hex_header)
  then show ?thesis using assms by (simp add: stuck_in_zrpos_wait_def)
qed

lemma not_stuck_when_done:
  assumes "zmodem_receive m inp s = Some y"
  shows "inp \<noteq> [] \<or> \<not> stuck_in_zrpos_wait s"
proof (rule zmodem_receive.raw_induct [where P = "\<lambda>_ inp s _. inp \<noteq> [] \<or> \<not> stuck_in_zrpos_wait s", OF _ assms])
  fix f m inp s y
  assume IH: "\<And>m inp s y. f m inp s = Some y \<Longrightarrow> inp \<noteq> [] \<or> \<not> stuck_in_zrpos_wait s"
    and body: "(case receive_step m (snd (fill_buffer inp s)) of Inl e \<Rightarrow> Some (Inl e)
      | Inr r \<Rightarrow> if fst r then Some (Inr (snd r)) else f m (fst (fill_buffer inp s)) (snd r)) = Some y"
  show "inp \<noteq> [] \<or> \<not> stuck_in_zrpos_wait s"
    using stuck_step [of s m] IH body by fastforce
qed

text \<open>
  C30.  Once a download has received data, a garbled hexadecimal header at the front of the
  packet buffer is neither answered nor discarded: the loop of the receiver parses it again
  and again and the call never returns (a defect).
\<close>

theorem zmodem_garbled_header_hangs:
  assumes "stuck_in_zrpos_wait s"
  shows "zmodem_receive m [] s = None"
  using not_stuck_when_done [of m "[]" s] assms by (cases "zmodem_receive m [] s") auto

theorem zmodem_garbled_header_hangs_witness:
  "zmodem_receive 2100 [] ((started False)\<lparr>z_state := ZRPOS_WAIT, z_prior_state := ZRPOS_WAIT, z_packet_buffer_n := 20,
     z_packet_buffer := [ZPAD, ZPAD, C_CAN, 66, 33] @ replicate (ZMODEM_MAX_BLOCK_SIZE - 5) 48\<rparr>) = None"
  by (rule zmodem_garbled_header_hangs)
    (simp add: stuck_in_zrpos_wait_def bad_hex_header_def hex_value_def to_lower_def ZMODEM_MAX_BLOCK_SIZE_def ZMODEM_BLOCK_SIZE_def min_def)

section \<open>Timeouts\<close>

definition last_timeout :: "zmodem \<Rightarrow> bool" where
  "last_timeout s \<longleftrightarrow> z_timeout_length \<le> now (z_world s) - z_timeout_begin s \<and> z_timeout_count s = 4 \<and>
     z_packet_buffer_n s = 0 \<and> z_outbound s = [] \<and> z_out s = [] \<and> flags_ok s \<and> t_protocol (z_stats s) = Q_PROTOCOL_ZMODEM"

lemma last_timeout_step:
  assumes "last_timeout s"
  shows "\<exists>s'. wait_timeout st s = Inr (False, s') \<and> z_state s' = st \<and> z_file_name s' = None \<and> z_file_stream s' = None \<and>
    z_packet_buffer_n s' = 0 \<and> z_outbound s' = [] \<and> z_out s' = [] \<and> flags_ok s'"
  using assms z_stop_closes [OF trans [OF z_errors_protocol]]
  by (simp add: wait_timeout_def z_check_timeout_def last_timeout_def z_timeout_max_def Let_def z_reset_timer_def flags_ok_def)

lemma last_timeout_state [simp]: "last_timeout (s\<lparr>z_state := st\<rparr>) = last_timeout s"
  by (simp add: last_timeout_def flags_ok_def)

lemma upload_timeout:
  assumes "last_timeout s" "z_state s = ZFILE_WAIT" "21 \<le> m"
  shows "zmodem_send m [] s = Some (Inl Null_stream)"
proof -
  obtain s' where s': "wait_timeout ZFILE s = Inr (False, s')" "z_state s' = ZFILE" "z_file_name s' = None"
      "z_packet_buffer_n s' = 0" "z_outbound s' = []" "z_out s' = []" "flags_ok s'"
    using last_timeout_step [OF assms(1), of ZFILE] by blast
  have "send_step m s = Inr (False, s')"
    using assms(1,2) s'(1) by (simp add: send_step_def send_state_def send_zfile_wait_def last_timeout_def)
  moreover have "send_step m s' = Inl Null_stream"
    using s' build_packet_wire [OF s'(6,7) assms(3), of P_ZFILE 0]
    by (simp add: send_step_def send_state_def send_zfile_def)
  ultimately show ?thesis
    by (simp add: zmodem_send_step [of m s] zmodem_send_step [of m s'])
qed

lemma download_timeout:
  assumes "last_timeout s" "z_state s = ZCRC_WAIT"
  shows "zmodem_receive m [] s = Some (Inl Null_stream)"
proof -
  obtain s' where s': "wait_timeout ZCRC s = Inr (False, s')" "z_state s' = ZCRC" "z_file_stream s' = None"
    using last_timeout_step [OF assms(1), of ZCRC] by blast
  have "receive_step m s = Inr (False, s')"
    using assms s'(1) by (simp add: receive_step_def receive_zcrc_wait_def last_timeout_def)
  moreover have "receive_step m s' = Inl Null_stream"
    using s' by (simp add: receive_step_def receive_zcrc_def file_crc_def)
  ultimately show ?thesis
    by (simp add: zmodem_receive.simps [of m "[]" s] zmodem_receive.simps [of m "[]" s'])
qed

text \<open>
  The fifth timeout in a row stops the transfer and frees its file and its name, but
  the handler then sets the state that sends the last packet again: an upload that waits
  for the answer to ZFILE and a download that waits for a file CRC use the null pointers
  in the same call (a defect).
\<close>

lemma zmodem_timeout_crashes:
  assumes "last_timeout s" "21 \<le> m"
  shows "zmodem_send m [] (s\<lparr>z_state := ZFILE_WAIT\<rparr>) = Some (Inl Null_stream) \<and>
    zmodem_receive m [] (s\<lparr>z_state := ZCRC_WAIT\<rparr>) = Some (Inl Null_stream)"
  using assms by (simp add: upload_timeout download_timeout)

section \<open>A negative acknowledgement\<close>

text \<open>
  A ZNAK that reaches an upload while it waits for the receiver to acknowledge data
  puts it into a state of the receiver, and the next call of the engine ends the program
  (a defect).
\<close>

lemma zmodem_znak_aborts_program:
  assumes "z_state s = ZDATA" "z_waiting_for_ack s" "z_outbound s = []" "z_can_count s = 0"
    and "z_packet_buffer_n s = 0" "length (z_packet_buffer s) = ZMODEM_MAX_BLOCK_SIZE"
    and "table_from 0 (z_crc_32_tab r)" "table_from 0 (z_crc_32_tab s)"
  shows "\<exists>s'. zmodem_send m (packet_wire P_ZNAK 0 r) s = Some (Inr s') \<and> zmodem_send m [] s' = Some (Inl Abort_called)"
proof -
  let ?w = "packet_wire P_ZNAK 0 r"
  let ?s1 = "s\<lparr>z_packet_buffer := memcpy (z_packet_buffer s) 0 ?w, z_packet_buffer_n := length ?w\<rparr>"
  note len = packet_wire_fits [of P_ZNAK 0 r]
  note fill = fill_empty_buffer [OF assms(5) len(1) assms(6)]
  have scan: "scan_cans ?s1 = ?s1"
    using assms(4) calm_packet_wire [of P_ZNAK 0 r] by (intro scan_cans_calm) (simp_all add: take_memcpy_0)
  have "buffered (?w @ []) ?s1" by (simp add: buffered_def take_memcpy_0)
  then obtain q where q: "take_packet ?s1 = Inr (ZM_PP_OK, (packet_received P_ZNAK q ?s1)
      \<lparr>z_packet_buffer := memcpy (z_packet_buffer ?s1) 0 [], z_packet_buffer_n := length ([] :: byte list)\<rparr>)"
      "parsed P_ZNAK 0 (z_use_crc32 r \<and> \<not> do_hex P_ZNAK r) q"
    using take_packet_wire [of P_ZNAK 0 r "[]" ?s1] assms(7,8) by (auto simp: packet_types)
  define s2 where "s2 = (packet_received P_ZNAK q ?s1)
      \<lparr>z_packet_buffer := memcpy (z_packet_buffer ?s1) 0 [], z_packet_buffer_n := 0\<rparr>"
  have s2: "take_packet ?s1 = Inr (ZM_PP_OK, s2)" "p_type (z_packet s2) = P_ZNAK" "z_state s2 = ZDATA"
      "z_waiting_for_ack s2" "z_outbound s2 = []" "z_packet_buffer_n s2 = 0"
    using q assms(1-3) by (simp_all add: s2_def packet_received_def parsed_def has_data_def packet_types)
  define s3 where "s3 = (z_stats_increment_errors ''ZNAK'' s2)\<lparr>z_state := ZRPOS\<rparr>"
  have s3: "z_state s3 = ZRPOS" "z_outbound s3 = []" "z_packet_buffer_n s3 = 0" "z_waiting_for_ack s3"
    using s2 by (simp_all add: s3_def)
  have "zdata_packet m s2 = Inr (None, s3)"
    using s2(2) by (simp add: zdata_packet_def Let_def s3_def packet_types)
  then have "send_zdata m ?s1 = Inr (True, s3)"
    using s2(1) s3(4) len(2) by (simp add: send_zdata_def zdata_input_def)
  then have "send_step m ?s1 = Inr (True, s3)"
    using assms(1,3) by (simp add: send_step_def scan send_state_def)
  then have "zmodem_send m ?w s = Some (Inr s3)" by (simp add: zmodem_send.simps [of m ?w s] fill)
  moreover have "zmodem_send m [] s3 = Some (Inl Abort_called)"
    using s3 by (simp add: zmodem_send_step [of m s3] send_step_def send_state_def)
  ultimately show ?thesis by blast
qed

end
