(* ===== verification/Zmodem_Session.thy ===== *)
theory Zmodem_Session
  imports Zmodem_Link
begin

text \<open>
  Two engines on a clean line, called in turn: how the sender's blocks and the receiver's
  answers follow each other while the data of a file is sent.  \<open>z_lockstep\<close> is one round of
  both; \<open>z_frame\<close> collects what the data phase leaves alone.
\<close>

unbundle bit_operations_syntax

section \<open>Two engines on a clean line\<close>

definition z_feed :: "byte list \<Rightarrow> nat \<Rightarrow> zmodem \<Rightarrow> zmodem run option" where
  "z_feed inp m s = z_protocol_process_data inp m (s\<lparr>z_out := []\<rparr>)"

text \<open>
  A round: the sender is called with what the receiver has written, then the receiver with
  what the sender has written.
\<close>

fun z_lockstep :: "nat \<Rightarrow> nat \<Rightarrow> zmodem \<times> zmodem \<Rightarrow> (zmodem \<times> zmodem) run option" where
  "z_lockstep m 0 sr = Some (Inr sr)"
| "z_lockstep m (Suc n) sr =
     (case z_feed (z_out (snd sr)) m (fst sr) of
        None \<Rightarrow> None
      | Some (Inl e) \<Rightarrow> Some (Inl e)
      | Some (Inr s) \<Rightarrow>
          (case z_feed (z_out s) m (snd sr) of
             None \<Rightarrow> None
           | Some (Inl e) \<Rightarrow> Some (Inl e)
           | Some (Inr r) \<Rightarrow> z_lockstep m n (s, r)))"

lemma z_lockstep_add:
  "z_lockstep m a sr = Some (Inr sr') \<Longrightarrow> z_lockstep m (a + b) sr = z_lockstep m b sr'"
  by (induction a arbitrary: sr) (auto split: option.splits sum.splits)

lemma z_lockstep_1:
  assumes "z_feed (z_out r) m s = Some (Inr s')" "z_feed (z_out s') m r = Some (Inr r')"
  shows "z_lockstep m (Suc 0) (s, r) = Some (Inr (s', r'))"
  using assms by simp

section \<open>What holds of both engines all the time\<close>

definition z_base :: "zmodem \<Rightarrow> bool" where
  "z_base s \<longleftrightarrow>
     flags_ok s \<and> z_flags s AND TX_ESCAPE_CTRL = 0 \<and> z_flags s AND TX_ESCAPE_8BIT = 0 \<and>
     z_use_crc32 s \<and> table_from 0 (z_crc_32_tab s) \<and>
     length (z_packet_buffer s) = ZMODEM_MAX_BLOCK_SIZE \<and> z_packet_buffer_n s = 0 \<and> z_can_count s = 0 \<and>
     z_outbound s = [] \<and> t_protocol (z_stats s) = Q_PROTOCOL_ZMODEM \<and> \<not> transfer_over (z_stats s) \<and>
     z_timeout_begin s = now (z_world s) \<and> t_error_count (z_stats s) = 0"

lemma z_reset_timer_same: "z_timeout_begin s = now (z_world s) \<Longrightarrow> z_reset_timer s = s"
  by (cases s) (simp add: z_reset_timer_def)

lemma z_check_timeout_fresh: "z_timeout_begin s = now (z_world s) \<Longrightarrow> z_check_timeout s = (False, s)"
  by (simp add: z_check_timeout_def z_timeout_length_def)

lemma z_feed_send:
  assumes "z_base s" "z_sending s" "z_state s \<noteq> Z_ABORT" "z_state s \<noteq> Z_COMPLETE" "ZMODEM_MAX_BLOCK_SIZE < m"
    and "zmodem_send m inp (s\<lparr>z_out := []\<rparr>) = Some (Inr s')" "z_timeout_begin s' = now (z_world s')"
  shows "z_feed inp m s = Some (Inr s')"
  using assms by (cases "inp = []") (simp_all add: z_feed_def z_protocol_process_data_def zmodem_def z_base_def z_reset_timer_same Let_def)

lemma z_feed_receive:
  assumes "z_base s" "\<not> z_sending s" "z_state s \<noteq> Z_ABORT" "z_state s \<noteq> Z_COMPLETE" "ZMODEM_MAX_BLOCK_SIZE < m"
    and "zmodem_receive m inp (s\<lparr>z_out := []\<rparr>) = Some (Inr s')" "z_timeout_begin s' = now (z_world s')"
  shows "z_feed inp m s = Some (Inr s')"
  using assms by (cases "inp = []") (simp_all add: z_feed_def z_protocol_process_data_def zmodem_def z_base_def z_reset_timer_same Let_def)

lemma do_hex_base: "z_base s \<Longrightarrow> t \<in> {P_ZDATA, P_ZEOF, P_ZFILE, P_ZFIN, P_ZACK} \<Longrightarrow> \<not> do_hex t s"
  by (auto simp: do_hex_def z_base_def packet_types)

section \<open>The sender\<close>

definition chunk :: "byte list \<Rightarrow> nat \<Rightarrow> byte list" where
  "chunk d k = take 1024 (drop (1024 * k) d)"

definition chunk_type :: "byte list \<Rightarrow> nat \<Rightarrow> byte" where
  "chunk_type d k = (if length (chunk d k) < 1024 then ZCRCW else if Suc k mod 32 = 0 then ZCRCQ else ZCRCG)"

definition snd_stream :: "byte list \<Rightarrow> os \<Rightarrow> stream \<Rightarrow> bool" where
  "snd_stream d w f \<longleftrightarrow> s_data f = d \<and> bad_at w (s_path f) = None \<and> \<not> s_err f \<and> \<not> s_write f"

definition snd_ok :: "byte list \<Rightarrow> zmodem \<Rightarrow> bool" where
  "snd_ok d s \<longleftrightarrow>
     z_base s \<and> z_sending s \<and> z_file_size s = of_nat (length d) \<and> z_block_size s = 1024 \<and> z_reliable_link s \<and>
     \<not> z_opt_escape_ctrl s \<and> length (z_upload_file_list s) = 1 \<and> z_upload_file_list_i s = 0 \<and>
     z_file_name s \<noteq> None \<and> p_type (z_packet s) \<noteq> P_ZSINIT \<and> length (p_data (z_packet s)) = ZMODEM_MAX_BLOCK_SIZE \<and>
     \<not> z_ack_required s \<and> (\<exists>f. z_file_stream s = Some f \<and> snd_stream d (z_world s) f)"

definition snd_at :: "nat \<Rightarrow> zmodem \<Rightarrow> bool" where
  "snd_at k s \<longleftrightarrow>
     \<not> z_waiting_for_ack s \<and> z_blocks_ack_count s = 32 - of_nat (k mod 32) \<and>
     (\<exists>f. z_file_stream s = Some f \<and> s_pos f = 1024 * k \<and> \<not> s_eof f)"

definition snd_data :: "byte list \<Rightarrow> nat \<Rightarrow> zmodem \<Rightarrow> bool" where
  "snd_data d k s \<longleftrightarrow> snd_ok d s \<and> z_state s = ZDATA \<and> snd_at k s"

definition snd_wait :: "byte list \<Rightarrow> nat \<Rightarrow> zmodem \<Rightarrow> bool" where
  "snd_wait d k s \<longleftrightarrow> snd_ok d s \<and> z_state s = ZDATA \<and> z_waiting_for_ack s \<and>
     (1024 * k < length d \<longrightarrow> z_streaming_zdata s \<and> k mod 32 = 0 \<and> z_blocks_ack_count s = 32)"

lemma ack_count_less: "j < 32 \<Longrightarrow> 32 - of_nat j - 1 = (of_nat (31 - j) :: u32)"
  by (simp add: of_nat_diff)

lemma ack_count: "(32 - of_nat (k mod 32) - 1 = (0 :: u32)) \<longleftrightarrow> Suc k mod 32 = 0"
proof -
  have "(of_nat (31 - k mod 32) = (0 :: u32)) \<longleftrightarrow> 31 - k mod 32 = 0"
    unfolding word_of_nat_eq_0_iff by (auto dest: dvd_imp_le)
  then show ?thesis using ack_count_less [of "k mod 32"] mod_less_divisor [of 32 k] by (auto simp: mod_Suc)
qed

lemma ack_count_Suc: "Suc k mod 32 \<noteq> 0 \<Longrightarrow> 32 - of_nat (k mod 32) - 1 = (32 - of_nat (Suc k mod 32) :: u32)"
  by (simp add: mod_Suc split: if_split_asm)

lemma send_block_step:
  assumes "snd_data d k s" "1024 * k \<le> length d" "length (z_out s) \<le> 21" "2080 \<le> m" "length d < 2 ^ 32"
  shows "\<exists>s'. z_send_block m s = Inr (True, s') \<and>
    z_out s' = z_out s @ subpacket (z_flags s) True (chunk d k) (chunk_type d k) \<and>
    (if chunk_type d k = ZCRCG then snd_data d (Suc k) s' else snd_wait d (Suc k) s')"
proof -
  obtain f where f: "z_file_stream s = Some f" "snd_stream d (z_world s) f" "s_pos f = 1024 * k" "\<not> s_eof f"
    using assms(1) by (auto simp: snd_data_def snd_ok_def snd_at_def)
  have h: "healthy (z_world s) f" using f by (simp add: healthy_def snd_stream_def)
  let ?f1 = "f\<lparr>s_pos := 1024 * k + length (chunk d k), s_err := False, s_eof := length (chunk d k) < 1024\<rparr>"
  have rd: "fread (z_world s) 1024 f = (chunk d k, ?f1)"
    using f fread_healthy [OF h, of 1024] by (simp add: chunk_def snd_stream_def)
  have sz: "unat (z_file_size s) = length d"
    using assms(1,5) by (simp add: snd_data_def snd_ok_def unat_of_nat)
  let ?t = "chunk_type d k"
  let ?lb = "length (chunk d k) < 1024"
  have len: "length (chunk d k) \<le> 1024" by (simp add: chunk_def)
  note so = assms(1) [unfolded snd_data_def snd_ok_def snd_at_def z_base_def]
  define s1 where "s1 = snd (projr (read_block f (z_last_message ''ZDATA'' s)))"
  have s1: "read_block f (z_last_message ''ZDATA'' s) = Inr (?lb, s1)"
    using so len unfolding s1_def by (auto simp: read_block_def rd ZMODEM_MAX_BLOCK_SIZE_def ZMODEM_BLOCK_SIZE_def Let_def)
  have s1_eq: "s1 = z_stats_increment_blocks (z_update_stats (\<lambda>t. t\<lparr>t_bytes_transfer :=
        (if ?lb then ucast (z_file_size s) else t_bytes_transfer t + of_nat (z_block_size s))\<rparr>)
      ((z_last_message ''ZDATA'' s)\<lparr>z_file_stream := Some ?f1,
        z_packet := (z_packet s)\<lparr>p_data := memcpy (p_data (z_packet s)) 0 (chunk d k), p_data_n := length (chunk d k)\<rparr>,
        z_file_position := (if ?lb then unat (z_file_size s) else z_file_position s + z_block_size s)\<rparr>))"
    using so len unfolding s1_def by (auto simp: read_block_def rd ZMODEM_MAX_BLOCK_SIZE_def ZMODEM_BLOCK_SIZE_def Let_def)
  define s2 where "s2 = snd (next_crc_type ?lb s1)"
  have count: "z_blocks_ack_count s1 = 32 - of_nat (k mod 32)"
    and rel: "z_reliable_link s1"
    using so by (simp_all add: s1_eq z_stats_increment_blocks_def)
  have c0: "z_blocks_ack_count s1 = 1 \<longleftrightarrow> Suc k mod 32 = 0"
    using ack_count [of k] unfolding count [symmetric] by simp
  have s2: "next_crc_type ?lb s1 = (?t, s2)"
    unfolding s2_def next_crc_type_def chunk_type_def Let_def by (simp add: c0)
  have s2_eq: "s2 = (if ?lb then s1\<lparr>z_waiting_for_ack := True\<rparr>
      else if Suc k mod 32 = 0 then s1\<lparr>z_blocks_ack_count := 32, z_waiting_for_ack := True, z_streaming_zdata := True\<rparr>
      else s1\<lparr>z_blocks_ack_count := 32 - of_nat (Suc k mod 32)\<rparr>)"
    using rel ack_count_Suc [of k, folded count] c0
    unfolding s2_def next_crc_type_def Let_def by (simp add: WINDOW_SIZE_RELIABLE_def)
  have zc: "ZCRCW \<noteq> ZCRCG" "ZCRCQ \<noteq> ZCRCG" by (simp_all add: zcrc_bytes)
  have ok: "snd_ok d s2" "z_state s2 = ZDATA"
    using so f len
    by (simp_all add: s2_eq s1_eq z_stats_increment_blocks_def snd_ok_def z_base_def flags_ok_def snd_stream_def transfer_over_def
        ZMODEM_MAX_BLOCK_SIZE_def ZMODEM_BLOCK_SIZE_def)
  have inv: "if ?t = ZCRCG then snd_data d (Suc k) s2 else snd_wait d (Suc k) s2"
  proof (cases ?lb)
    case True
    then have "length d \<le> 1024 * Suc k" by (simp add: chunk_def)
    then show ?thesis using True ok by (simp add: chunk_type_def zc snd_wait_def s2_eq)
  next
    case False
    then have full: "length (chunk d k) = 1024" using len by simp
    show ?thesis
    proof (cases "Suc k mod 32 = 0")
      case True
      then show ?thesis using False ok by (simp add: chunk_type_def zc snd_wait_def) (simp add: s2_eq)
    next
      case 2: False
      have "z_blocks_ack_count s2 = 32 - of_nat (Suc k mod 32)" "\<not> z_waiting_for_ack s2" "z_file_stream s2 = Some ?f1"
        using False 2 so by (simp_all add: s2_eq s1_eq z_stats_increment_blocks_def)
      then have "snd_data d (Suc k) s2" using ok full by (simp add: snd_data_def snd_at_def)
      then show ?thesis using False 2 by (simp add: chunk_type_def)
    qed
  qed
  have out: "z_out s2 = z_out s" "z_flags s2 = z_flags s" "z_encode_byte_map s2 = z_encode_byte_map s"
    "z_crc_32_tab s2 = z_crc_32_tab s" "z_use_crc32 s2" "p_type (z_packet s2) = p_type (z_packet s)"
    "take (p_data_n (z_packet s2)) (p_data (z_packet s2)) = chunk d k"
    using so by (simp_all add: s2_eq s1_eq z_stats_increment_blocks_def take_memcpy_0)
  let ?s3 = "set_packet_crc32 True s2" let ?w = "subpacket (z_flags s) True (chunk d k) ?t"
  have fits: "length (z_out s) + 2 * length (chunk d k) + (if ?t = ZCRCW then 11 else 10) \<le> m"
    using assms(3,4) len by (simp split: if_split)
  have B: "encode_to_output ?t m ?s3 = Inr (?s3\<lparr>z_out := z_out s @ ?w\<rparr>)"
    using encode_zdata_bytes_eq [OF _ fits, of "z_crc_32_tab s" True "z_flags s"] so out
    by (simp add: encode_to_output_def encode_packet_def Let_def set_packet_crc32_def flags_ok_def)
  have "\<not> m - length (z_out s) < 2 * z_block_size s" using so assms(3,4) by simp
  then have "z_send_block m s = Inr (True, ?s3\<lparr>z_out := z_out s @ ?w\<rparr>)"
    using so f by (simp add: z_send_block_def s1 s2 out B)
  moreover have "if ?t = ZCRCG then snd_data d (Suc k) (?s3\<lparr>z_out := z_out s @ ?w\<rparr>) else snd_wait d (Suc k) (?s3\<lparr>z_out := z_out s @ ?w\<rparr>)"
    using inv by (simp add: snd_data_def snd_wait_def snd_ok_def snd_at_def z_base_def flags_ok_def set_packet_crc32_def split: if_split_asm)
  ultimately show ?thesis by auto
qed

section \<open>The receiver\<close>

text \<open>What the data phase leaves alone.\<close>

definition z_frame :: "zmodem \<Rightarrow> zmodem \<Rightarrow> bool" where
  "z_frame s s' \<longleftrightarrow>
     z_flags s' = z_flags s \<and> z_encode_byte_map s' = z_encode_byte_map s \<and> z_use_crc32 s' = z_use_crc32 s \<and>
     z_crc_32_tab s' = z_crc_32_tab s \<and> length (z_packet_buffer s') = length (z_packet_buffer s) \<and>
     z_can_count s' = z_can_count s \<and> z_outbound s' = z_outbound s \<and> z_sending s' = z_sending s \<and>
     z_timeout_begin s' = z_timeout_begin s \<and> now (z_world s') = now (z_world s) \<and> space (z_world s') = space (z_world s) \<and>
     t_protocol (z_stats s') = t_protocol (z_stats s) \<and> transfer_over (z_stats s') = transfer_over (z_stats s) \<and>
     t_error_count (z_stats s') = t_error_count (z_stats s) \<and> z_file_name s' = z_file_name s \<and>
     z_file_modtime s' = z_file_modtime s \<and> z_file_fullname s' = z_file_fullname s"

lemma z_frame_base: "z_frame s s' \<Longrightarrow> z_base s \<Longrightarrow> z_packet_buffer_n s' = 0 \<Longrightarrow> z_base s'"
  by (simp add: z_frame_def z_base_def flags_ok_def)

lemma z_frame_trans: "z_frame s s' \<Longrightarrow> z_frame s' s'' \<Longrightarrow> z_frame s s''"
  by (simp add: z_frame_def)

definition rcv_stream :: "byte list \<Rightarrow> nat \<Rightarrow> zmodem \<Rightarrow> bool" where
  "rcv_stream d n r \<longleftrightarrow>
     (\<exists>f. z_file_stream r = Some f \<and> s_path f = z_file_fullname r \<and> s_data f = take n d \<and> s_pos f = n \<and> s_write f) \<and>
     z_file_position r = n \<and> n \<le> length d \<and> length d \<le> space (z_world r) \<and> z_file_name r \<noteq> None"

definition rcv_data :: "byte list \<Rightarrow> nat \<Rightarrow> zmodem \<Rightarrow> bool" where
  "rcv_data d n r \<longleftrightarrow>
     z_base (r\<lparr>z_packet_buffer_n := 0\<rparr>) \<and> \<not> z_sending r \<and> rcv_stream d n r \<and> z_state r = ZDATA \<and> z_prior_state r = ZRPOS_WAIT \<and>
     ready_for_data r \<and> p_use_crc32 (z_packet r)"

definition rcv_pos :: "byte list \<Rightarrow> nat \<Rightarrow> zmodem \<Rightarrow> bool" where
  "rcv_pos d n r \<longleftrightarrow> z_base r \<and> \<not> z_sending r \<and> rcv_stream d n r \<and> z_state r = ZRPOS_WAIT"

lemma data_crc_zdata:
  assumes "table_from 0 tab"
  shows "data_crc tab True (bs @ [t]) = zdata_crc (makecrc (replicate 256 0)) True bs t"
proof -
  have "data_crc tab True (bs @ [t]) = crc32_le (crc32_of (bs @ [t]))"
    using assms by (simp add: data_crc_def compute_crc32_eq crc32_of_def crc32_preset_def) (simp add: compute_crc32_def)
  then show ?thesis using zdata_crc32 [OF makecrc_table, of "replicate 256 0"] by simp
qed

lemma write_data_step:
  assumes "rcv_stream d n s" "p_data_n (z_packet s) = length bs" "take (length bs) (p_data (z_packet s)) = bs"
    and "bs = take (length bs) (drop n d)"
  shows "\<exists>s'. write_data s = Inr s' \<and> z_frame s s' \<and> rcv_stream d (n + length bs) s' \<and> z_packet s' = begin_data (z_packet s) \<and>
    z_packet_buffer_n s' = z_packet_buffer_n s \<and> z_packet_buffer s' = z_packet_buffer s \<and> z_out s' = z_out s \<and>
    z_prior_state s' = z_prior_state s \<and> z_state s' = z_state s"
proof -
  obtain f where f: "z_file_stream s = Some f" "s_path f = z_file_fullname s" "s_data f = take n d" "s_pos f = n" "s_write f"
      and n: "z_file_position s = n" "n \<le> length d" "length d \<le> space (z_world s)" "z_file_name s \<noteq> None"
    using assms(1) by (auto simp: rcv_stream_def)
  have bs: "length bs \<le> length d - n" using assms(4) by (metis length_take length_drop min.cobounded1 min.commute)
  have w: "fwrite (z_world s) bs f = (length bs, f\<lparr>s_data := s_data f @ bs, s_pos := s_pos f + length bs\<rparr>)"
    using f n bs by (intro fwrite_append) simp_all
  have d: "take n d @ bs = take (n + length bs) d" using assms(4) by (simp add: take_add)
  show ?thesis
    using f n bs assms(2,3) d
    by (simp add: write_data_def w Let_def z_frame_def rcv_stream_def z_stats_increment_blocks_def fflush_def fclose_def z_update_stats_def transfer_over_def)
qed


lemma zmodem_receive_step:
  "zmodem_receive m [] s = (case receive_step m s of Inl e \<Rightarrow> Some (Inl e)
     | Inr r \<Rightarrow> if fst r then Some (Inr (snd r)) else zmodem_receive m [] (snd r))"
  by (subst zmodem_receive.simps) (simp split: sum.split)

lemma idle_zdata: "z_packet_buffer_n s = 0 \<Longrightarrow> receive_zdata m s = Inr (True, s)"
  by (simp add: receive_zdata_def decode_data_def decode_zdata_bytes_def Let_def)

lemma idle_wait: "z_timeout_begin s = now (z_world s) \<Longrightarrow> wait_timeout st s = Inr (True, s)"
  by (simp add: wait_timeout_def z_check_timeout_fresh)

lemma data_taken_sel:
  assumes "ready_for_data s" "length bs < ZMODEM_MAX_BLOCK_SIZE" "length crc = 4"
  shows "p_data_n (z_packet (data_taken bs t crc [] s)) = length bs"
    "take (length bs) (p_data (z_packet (data_taken bs t crc [] s))) = bs"
    "z_packet_buffer_n (data_taken bs t crc [] s) = 0"
    "z_frame s (data_taken bs t crc [] s)"
    "length (p_data (z_packet (data_taken bs t crc [] s))) = ZMODEM_MAX_BLOCK_SIZE"
    "length (p_crc_buffer (z_packet (data_taken bs t crc [] s))) = 5"
    "length (z_packet_buffer (data_taken bs t crc [] s)) = ZMODEM_MAX_BLOCK_SIZE"
    "p_use_crc32 (z_packet (data_taken bs t crc [] s)) = p_use_crc32 (z_packet s)"
  using assms by (simp_all add: data_taken_def data_packet_def Let_def ready_for_data_def z_frame_def take_memcpy_0)

lemma data_taken_rest [simp]:
  "z_state (data_taken bs t crc rest s) = z_state s" "z_prior_state (data_taken bs t crc rest s) = z_prior_state s"
  "z_file_stream (data_taken bs t crc rest s) = z_file_stream s" "z_out (data_taken bs t crc rest s) = z_out s"
  "z_file_position (data_taken bs t crc rest s) = z_file_position s" "z_file_name (data_taken bs t crc rest s) = z_file_name s"
  "z_file_fullname (data_taken bs t crc rest s) = z_file_fullname s" "z_world (data_taken bs t crc rest s) = z_world s"
  by (simp_all add: data_taken_def)

lemma receive_data_step:
  assumes "rcv_data d n r" "buffered (subpacket flags True bs t) r" "crc_escape t" "t \<noteq> ZCRCE"
    and "bs = take (length bs) (drop n d)" "length bs \<le> 1024" "z_out r = []" "21 \<le> m"
  shows "\<exists>r'. receive_step m r = Inr (False, r') \<and> z_frame r r' \<and> z_packet_buffer_n r' = 0 \<and> rcv_stream d (n + length bs) r' \<and>
    z_state r' = (if t = ZCRCW then ZRPOS_WAIT else ZDATA) \<and> z_prior_state r' = ZRPOS_WAIT \<and>
    ready_for_data r' \<and> p_use_crc32 (z_packet r') \<and>
    z_out r' = (if t = ZCRCG then [] else packet_wire P_ZACK (big_to_little_endian (of_nat (n + length bs))) r)"
proof -
  let ?crc = "zdata_crc (makecrc (replicate 256 0)) True bs t"
  let ?q = "data_taken bs t ?crc [] r"
  note r = assms(1) [unfolded rcv_data_def]
  have len: "length ?crc = 4" "length bs < ZMODEM_MAX_BLOCK_SIZE"
    using assms(6) by (simp_all add: length_zdata_crc ZMODEM_MAX_BLOCK_SIZE_def ZMODEM_BLOCK_SIZE_def)
  have tab: "table_from 0 (z_crc_32_tab r)" "p_use_crc32 (z_packet r)" "ready_for_data r" using r by (simp_all add: z_base_def)
  note q = data_taken_sel [OF tab(3) len(2,1), of t]
  have "receive_zdata m r = data_accepted m (t = ZCRCE \<or> t = ZCRCW) (t = ZCRCW \<or> t = ZCRCQ) ?q"
    using receive_subframe [OF tab(3) _ assms(3), of flags bs ?crc "[]" m] assms(2) tab(2) len
    by (simp add: subpacket_def data_crc_zdata [OF tab(1)])
  then have step: "receive_step m r = data_accepted m (t = ZCRCW) (t = ZCRCW \<or> t = ZCRCQ) ?q"
    using r assms(4) by (simp add: receive_step_def)
  have "rcv_stream d n ?q" using r by (simp add: rcv_stream_def)
  from write_data_step [OF this q(1,2) assms(5)] obtain q1 where q1: "write_data ?q = Inr q1" "z_frame ?q q1"
      "rcv_stream d (n + length bs) q1" "z_packet q1 = begin_data (z_packet ?q)" "z_packet_buffer_n q1 = z_packet_buffer_n ?q"
      "z_packet_buffer q1 = z_packet_buffer ?q" "z_out q1 = z_out ?q" "z_prior_state q1 = z_prior_state ?q" "z_state q1 = z_state ?q"
    by blast
  have fr: "z_frame r q1" by (rule z_frame_trans [OF q(4) q1(2)])
  have base: "z_base q1"
    using z_frame_base [OF _ conjunct1 [OF r], of q1] fr q1(5) q(3) by (simp add: z_frame_def)
  have ready: "ready_for_data q1" "p_use_crc32 (z_packet q1)"
    using q tab(2) q1(4,6) by (simp_all add: ready_for_data_def begin_data_def)
  let ?w = "packet_wire P_ZACK (big_to_little_endian (of_nat (z_file_position q1))) q1"
  let ?q2 = "q1\<lparr>z_packet := (z_packet q1)\<lparr>p_type := P_ZACK, p_use_crc32 := True, p_data_n := 0\<rparr>, z_out := ?w\<rparr>"
  have ack: "build_packet P_ZACK (big_to_little_endian (of_nat (z_file_position q1))) m q1 = Inr ?q2"
    using build_packet_wire [of q1 m P_ZACK] base do_hex_base [OF base, of P_ZACK] q1(7) assms(7,8) by (simp add: z_base_def)
  have wire: "?w = packet_wire P_ZACK (big_to_little_endian (of_nat (n + length bs))) r"
    using wire_cong [of q1 r] fr q1(3) by (simp add: z_frame_def rcv_stream_def)
  define q3 where "q3 = (if t = ZCRCG then q1 else ?q2)\<lparr>z_state := (if t = ZCRCW then ZRPOS_WAIT else ZDATA)\<rparr>"
  have t: "t = ZCRCG \<or> t = ZCRCQ \<or> t = ZCRCW" using assms(3,4) by (auto simp: crc_escape_def)
  have ne: "ZCRCG \<noteq> ZCRCQ" "ZCRCG \<noteq> ZCRCW" "ZCRCQ \<noteq> ZCRCW" "ZCRCQ \<noteq> ZCRCG" "ZCRCW \<noteq> ZCRCG" by (simp_all add: zcrc_bytes)
  have prior: "z_prior_state ?q = ZRPOS_WAIT" "z_prior_state q1 = ZRPOS_WAIT" using r q1(8) by simp_all
  have nxt: "data_next_state m q1 = Inr (False, q1\<lparr>z_state := ZDATA\<rparr>)" "data_next_state m ?q2 = Inr (False, ?q2\<lparr>z_state := ZDATA\<rparr>)"
    using prior(2) by (simp_all add: data_next_state_def)
  have acc: "data_accepted m e a ?q = andthen (if a then Inr ?q2 else Inr q1) (\<lambda>s2.
      if e then Inr (False, s2\<lparr>z_state := ZRPOS_WAIT\<rparr>) else data_next_state m s2)" for e a
    unfolding data_accepted_def if_P [OF prior(1)] q1(1) ack [symmetric] by (cases a) simp_all
  have "receive_step m r = Inr (False, q3)"
    using t unfolding step acc q3_def by (elim disjE) (simp_all add: ne nxt)
  moreover have "z_frame r q3" using fr by (simp add: q3_def z_frame_def)
  moreover have "rcv_stream d (n + length bs) q3" using q1(3) by (simp add: q3_def rcv_stream_def)
  moreover have "ready_for_data q3" "p_use_crc32 (z_packet q3)" using ready by (simp_all add: q3_def ready_for_data_def)
  moreover have "z_out q3 = (if t = ZCRCG then [] else packet_wire P_ZACK (big_to_little_endian (of_nat (n + length bs))) r)"
    using q1(7) assms(7) wire by (simp add: q3_def)
  moreover have "z_packet_buffer_n q3 = 0" "z_prior_state q3 = ZRPOS_WAIT" "z_state q3 = (if t = ZCRCW then ZRPOS_WAIT else ZDATA)"
    using q1(5,8) q(3) r by (simp_all add: q3_def)
  ultimately show ?thesis by blast
qed

lemma receive_chunk:
  assumes "rcv_data d n r" "buffered (subpacket flags True bs t) r" "crc_escape t" "t \<noteq> ZCRCE"
    and "bs = take (length bs) (drop n d)" "length bs \<le> 1024" "z_out r = []" "21 \<le> m"
  shows "\<exists>r'. zmodem_receive m [] r = Some (Inr r') \<and> z_frame r r' \<and> z_packet_buffer_n r' = 0 \<and>
    (if t = ZCRCW then rcv_pos d (n + length bs) r' else rcv_data d (n + length bs) r') \<and>
    z_out r' = (if t = ZCRCG then [] else packet_wire P_ZACK (big_to_little_endian (of_nat (n + length bs))) r)"
proof -
  obtain r' where r': "receive_step m r = Inr (False, r')" "z_frame r r'" "z_packet_buffer_n r' = 0" "rcv_stream d (n + length bs) r'"
      "z_state r' = (if t = ZCRCW then ZRPOS_WAIT else ZDATA)" "z_prior_state r' = ZRPOS_WAIT"
      "ready_for_data r'" "p_use_crc32 (z_packet r')"
      "z_out r' = (if t = ZCRCG then [] else packet_wire P_ZACK (big_to_little_endian (of_nat (n + length bs))) r)"
    using receive_data_step [OF assms] by blast
  have "z_base (r\<lparr>z_packet_buffer_n := 0\<rparr>)" "\<not> z_sending r" using assms(1) by (simp_all add: rcv_data_def)
  then have base: "z_base r'" "z_base (r'\<lparr>z_packet_buffer_n := 0\<rparr>)" "\<not> z_sending r'" "z_timeout_begin r' = now (z_world r')"
    using r'(2,3) by (simp_all add: z_frame_def z_base_def flags_ok_def)
  have "receive_step m r' = Inr (True, r')"
    using r'(3,5) base(4) by (simp add: receive_step_def idle_zdata receive_zrpos_wait_def idle_wait)
  then have "zmodem_receive m [] r = Some (Inr r')"
    using r'(1) by (simp add: zmodem_receive_step [of m r] zmodem_receive_step [of m r'])
  moreover have "if t = ZCRCW then rcv_pos d (n + length bs) r' else rcv_data d (n + length bs) r'"
    using base r' by (simp add: rcv_pos_def rcv_data_def)
  ultimately show ?thesis using r' by blast
qed

section \<open>Input that arrives in pieces\<close>

lemma fill_packet:
  assumes "z_packet_buffer_n s = 0" "length (z_packet_buffer s) = ZMODEM_MAX_BLOCK_SIZE" "length w \<le> ZMODEM_MAX_BLOCK_SIZE"
  shows "\<exists>rest1 rest2. rest = rest1 @ rest2 \<and> length (w @ rest1) \<le> ZMODEM_MAX_BLOCK_SIZE \<and> fill_buffer (w @ rest) s =
    (rest2, s\<lparr>z_packet_buffer := memcpy (z_packet_buffer s) 0 (w @ rest1), z_packet_buffer_n := length (w @ rest1)\<rparr>)"
proof (intro exI conjI)
  let ?k = "ZMODEM_MAX_BLOCK_SIZE - length w"
  show "rest = take ?k rest @ drop ?k rest" by simp
  show "length (w @ take ?k rest) \<le> ZMODEM_MAX_BLOCK_SIZE" using assms(3) by simp
  show "fill_buffer (w @ rest) s = (drop ?k rest, s\<lparr>z_packet_buffer := memcpy (z_packet_buffer s) 0 (w @ take ?k rest),
      z_packet_buffer_n := length (w @ take ?k rest)\<rparr>)"
    using assms by (simp add: fill_buffer_def Let_def)
qed

lemma refill:
  assumes "buffered rest1 s" "length (z_packet_buffer s) = ZMODEM_MAX_BLOCK_SIZE" "length (rest1 @ rest2) \<le> ZMODEM_MAX_BLOCK_SIZE"
  shows "\<exists>buf. fill_buffer rest2 s = ([], s\<lparr>z_packet_buffer := buf, z_packet_buffer_n := length (rest1 @ rest2)\<rparr>) \<and>
    length buf = ZMODEM_MAX_BLOCK_SIZE \<and> take (length (rest1 @ rest2)) buf = rest1 @ rest2"
proof -
  let ?b = "z_packet_buffer s" let ?n = "length rest1"
  have b: "take ?n ?b = rest1" "z_packet_buffer_n s = ?n" "?n \<le> length ?b" using assms by (simp_all add: buffered_def)
  have "memcpy ?b ?n rest2 = rest1 @ rest2 @ drop (length (rest1 @ rest2)) ?b"
    using b assms(2,3) by (simp add: memcpy_def)
  then show ?thesis using assms(2,3) b(2)
    by (intro exI [of _ "memcpy ?b ?n rest2"]) (simp add: fill_buffer_def Let_def)
qed

lemma zmodem_receive_filled:
  "fill_buffer inp s = ([], s') \<Longrightarrow> zmodem_receive m inp s = zmodem_receive m [] s'"
  by (simp add: zmodem_receive.simps [of m inp s] zmodem_receive.simps [of m "[]" s'] split: sum.split)

lemma zmodem_send_filled:
  "fill_buffer inp s = ([], s') \<Longrightarrow> zmodem_send m inp s = zmodem_send m [] s'"
  by (simp add: zmodem_send.simps [of m inp s] zmodem_send.simps [of m "[]" s'] split: sum.split)

lemma zmodem_receive_next:
  assumes "fill_buffer inp s = (rest, s1)" "receive_step m s1 = Inr (False, s2)"
  shows "zmodem_receive m inp s = zmodem_receive m rest s2"
  using assms by (simp add: zmodem_receive.simps [of m inp s])

lemma zmodem_send_next:
  assumes "fill_buffer inp s = (rest, s1)" "send_step m s1 = Inr (False, s2)"
  shows "zmodem_send m inp s = zmodem_send m rest s2"
  using assms by (simp add: zmodem_send.simps [of m inp s])

text \<open>A single header in an empty buffer.\<close>

lemma take_only_packet:
  assumes "z_base s" "t \<le> P_ZCOMMAND" "z_base p" "inp = packet_wire t a p"
  shows "\<exists>s1 q buf. fill_buffer inp s = ([], s1) \<and> scan_cans s1 = s1 \<and> z_state s1 = z_state s \<and> z_outbound s1 = [] \<and>
    0 < z_packet_buffer_n s1 \<and>
    take_packet s1 = Inr (ZM_PP_OK, (packet_received t q s)\<lparr>z_packet_buffer := buf, z_packet_buffer_n := 0\<rparr>) \<and>
    length buf = ZMODEM_MAX_BLOCK_SIZE \<and> parsed t a (z_use_crc32 p \<and> \<not> do_hex t p) q"
proof -
  note b = assms(1) [unfolded z_base_def] and p = assms(3) [unfolded z_base_def]
  let ?s1 = "s\<lparr>z_packet_buffer := memcpy (z_packet_buffer s) 0 inp, z_packet_buffer_n := length inp\<rparr>"
  note fits = packet_wire_fits [of t a p, folded assms(4)]
  have fill: "fill_buffer inp s = ([], ?s1)" using b fits by (intro fill_empty_buffer) simp_all
  have scan: "scan_cans ?s1 = ?s1"
    using b calm_packet_wire [of t a p] by (intro scan_cans_calm) (simp_all add: take_memcpy_0 assms(4))
  have "buffered (packet_wire t a p @ []) ?s1" by (simp add: buffered_def take_memcpy_0 assms(4))
  from take_packet_wire [OF this assms(2)] obtain q where q: "take_packet ?s1 = Inr (ZM_PP_OK, (packet_received t q ?s1)
      \<lparr>z_packet_buffer := memcpy (z_packet_buffer ?s1) 0 [], z_packet_buffer_n := length ([] :: byte list)\<rparr>)"
      "parsed t a (z_use_crc32 p \<and> \<not> do_hex t p) q"
    using b p by auto
  have "take_packet ?s1 = Inr (ZM_PP_OK, (packet_received t q s)\<lparr>z_packet_buffer := memcpy (z_packet_buffer s) 0 inp, z_packet_buffer_n := 0\<rparr>)"
    using q(1) by (simp add: packet_received_def memcpy_def)
  moreover have "length (memcpy (z_packet_buffer s) 0 inp) = ZMODEM_MAX_BLOCK_SIZE" using b fits by simp
  ultimately show ?thesis using fill scan q(2) fits(2) b by (intro exI [of _ ?s1]) auto
qed


text \<open>A header with more input behind it, which may not fit the buffer at once.\<close>

lemma header_arrives:
  assumes "z_base r" "z_base p" "t \<le> P_ZCOMMAND"
  shows "\<exists>r1 rest1 rest2 q buf. fill_buffer (packet_wire t a p @ rest) r = (rest2, r1) \<and> z_state r1 = z_state r \<and> 0 < z_packet_buffer_n r1 \<and>
    take_packet r1 = Inr (ZM_PP_OK, (packet_received t q r)\<lparr>z_packet_buffer := buf, z_packet_buffer_n := length rest1\<rparr>) \<and>
    rest = rest1 @ rest2 \<and> length buf = ZMODEM_MAX_BLOCK_SIZE \<and> take (length rest1) buf = rest1 \<and>
    parsed t a (z_use_crc32 p \<and> \<not> do_hex t p) q"
proof -
  let ?h = "packet_wire t a p"
  have len: "length (z_packet_buffer r) = ZMODEM_MAX_BLOCK_SIZE" "z_packet_buffer_n r = 0" using assms(1) by (simp_all add: z_base_def)
  obtain w1 w2 where f: "rest = w1 @ w2" "length (?h @ w1) \<le> ZMODEM_MAX_BLOCK_SIZE" "fill_buffer (?h @ rest) r =
      (w2, r\<lparr>z_packet_buffer := memcpy (z_packet_buffer r) 0 (?h @ w1), z_packet_buffer_n := length (?h @ w1)\<rparr>)"
    using fill_packet [of r ?h rest] len packet_wire_fits(1) [of t a p] by auto
  let ?r1 = "r\<lparr>z_packet_buffer := memcpy (z_packet_buffer r) 0 (?h @ w1), z_packet_buffer_n := length (?h @ w1)\<rparr>"
  have "buffered (?h @ w1) ?r1" by (simp add: buffered_def take_memcpy_0 del: length_append)
  then obtain q where q: "take_packet ?r1 = Inr (ZM_PP_OK, (packet_received t q ?r1)
      \<lparr>z_packet_buffer := memcpy (z_packet_buffer ?r1) 0 w1, z_packet_buffer_n := length w1\<rparr>)"
      "parsed t a (z_use_crc32 p \<and> \<not> do_hex t p) q"
    using take_packet_wire [of t a p w1 ?r1] assms by (auto simp: z_base_def)
  let ?buf = "memcpy (z_packet_buffer ?r1) 0 w1"
  have "take_packet ?r1 = Inr (ZM_PP_OK, (packet_received t q r)\<lparr>z_packet_buffer := ?buf, z_packet_buffer_n := length w1\<rparr>)"
    using q(1) by (simp add: packet_received_def)
  moreover have "length ?buf = ZMODEM_MAX_BLOCK_SIZE" "take (length w1) ?buf = w1" using f(2) len(1) by (simp_all add: take_memcpy_0)
  moreover have "0 < z_packet_buffer_n ?r1" "z_state ?r1 = z_state r" using packet_wire_fits(2) [of t a p] by simp_all
  ultimately show ?thesis using f(1,3) q(2) by blast
qed

section \<open>The sender in the data phase\<close>

lemma snd_data_out [simp]: "snd_data d k (s\<lparr>z_out := x\<rparr>) = snd_data d k s"
  by (simp add: snd_data_def snd_ok_def snd_at_def z_base_def flags_ok_def)

lemma snd_inv_base: "snd_data d k s \<Longrightarrow> z_base s \<and> z_sending s \<and> z_state s = ZDATA"
  "snd_wait d k s \<Longrightarrow> z_base s \<and> z_sending s \<and> z_state s = ZDATA"
  by (simp_all add: snd_data_def snd_wait_def snd_ok_def)

lemma base_timer: "z_base s \<Longrightarrow> z_timeout_begin s = now (z_world s)"
  by (simp add: z_base_def)

lemma send_data_fresh:
  assumes "snd_data d k s"
  shows "send_zdata m s = z_send_block m s"
  using assms by (simp add: send_zdata_def zdata_input_def snd_data_def snd_ok_def snd_at_def z_base_def)

lemma feed_next_block:
  assumes "snd_data d k s" "1024 * k \<le> length d" "2080 \<le> m" "length d < 2 ^ 32"
  shows "\<exists>s'. z_feed [] m s = Some (Inr s') \<and>
    z_out s' = subpacket (z_flags s) True (chunk d k) (chunk_type d k) \<and>
    (if chunk_type d k = ZCRCG then snd_data d (Suc k) s' else snd_wait d (Suc k) s')"
proof -
  let ?s = "s\<lparr>z_out := []\<rparr>"
  obtain s' where s': "z_send_block m ?s = Inr (True, s')" "z_out s' = subpacket (z_flags s) True (chunk d k) (chunk_type d k)"
      "if chunk_type d k = ZCRCG then snd_data d (Suc k) s' else snd_wait d (Suc k) s'"
    using send_block_step [of d k ?s m] assms by auto
  have b: "z_base s" "z_sending s" "z_state s = ZDATA" using snd_inv_base(1) [OF assms(1)] by simp_all
  have "z_base s'" using s'(3) snd_inv_base by (metis (full_types))
  have "send_step m ?s = Inr (True, s')"
    using s'(1) b send_data_fresh [of d k ?s m] assms(1) by (simp add: send_step_def send_state_def z_base_def)
  then have "zmodem_send m [] ?s = Some (Inr s')" by (simp add: zmodem_send_step [of m ?s])
  then have "z_feed [] m s = Some (Inr s')"
    using b assms(3) base_timer [OF \<open>z_base s'\<close>]
    by (intro z_feed_send) (simp_all add: ZMODEM_MAX_BLOCK_SIZE_def ZMODEM_BLOCK_SIZE_def)
  then show ?thesis using s' by blast
qed

lemma block_size_up_sel:
  assumes "z_block_size s = 1024"
  shows "block_size_up s = s\<lparr>z_last_confirmed_bytes := z_confirmed_bytes s\<rparr>"
  using assms by (simp add: block_size_up_def Let_def ZMODEM_BLOCK_SIZE_def)


lemma snd_wait_packet:
  assumes "snd_wait d k s" "parsed P_ZACK a c q" "length buf = ZMODEM_MAX_BLOCK_SIZE"
  shows "snd_wait d k ((packet_received P_ZACK q s)\<lparr>z_packet_buffer := buf, z_packet_buffer_n := 0\<rparr>)"
  using assms by (simp add: snd_wait_def snd_ok_def z_base_def flags_ok_def packet_received_def parsed_def has_data_def packet_types clear_packet_def)

lemma zdata_zack_more:
  assumes "snd_wait d k s" "1024 * k < length d" "length d < 2 ^ 32"
    and "p_argument (z_packet s) = big_to_little_endian (of_nat (1024 * k))"
  shows "\<exists>s'. zdata_zack m s = Inr (None, s') \<and> snd_data d k s' \<and> z_out s' = z_out s \<and> z_flags s' = z_flags s"
proof -
  obtain f where f: "z_file_stream s = Some f" "snd_stream d (z_world s) f"
    using assms(1) by (auto simp: snd_wait_def snd_ok_def)
  note so = assms(1) [unfolded snd_wait_def snd_ok_def]
  have a: "big_to_little_endian (p_argument (z_packet s)) = of_nat (1024 * k)"
    by (simp only: assms(4) big_to_little_endian_involution)
  have sz: "z_file_size s = of_nat (length d)" "unat (z_file_size s) = length d" and ka: "unat (of_nat (1024 * k) :: u32) = 1024 * k"
    using so assms(2,3) by (simp_all add: unat_of_nat del: of_nat_mult)
  have le: "\<not> z_file_size s < of_nat (1024 * k)"
    using assms(2,3) ka sz by (simp add: word_less_nat_alt del: of_nat_mult)
  have st: "z_streaming_zdata s" "k mod 32 = 0" "z_blocks_ack_count s = 32" "z_block_size s = 1024"
    using so assms(2) by simp_all
  define s' where "s' = set_bytes_transfer (s\<lparr>z_ack_required := False, z_waiting_for_ack := False, z_file_position := 1024 * k,
    z_file_stream := Some (fseek_set (1024 * k) f), z_confirmed_bytes := sint (of_nat (1024 * k) :: u32),
    z_last_confirmed_bytes := sint (of_nat (1024 * k) :: u32)\<rparr>)"
  have "zdata_zack m s = Inr (None, s')"
    using f(1) st(1,4) assms(2) le ka sz
    by (simp add: zdata_zack_def a Let_def seek_file_def block_size_up_sel set_bytes_transfer_def s'_def del: of_nat_mult)
  moreover have "snd_data d k s'"
    using so f st by (simp add: snd_data_def snd_ok_def snd_at_def s'_def set_bytes_transfer_def z_base_def flags_ok_def
        snd_stream_def fseek_set_def transfer_over_def z_update_stats_def)
  ultimately show ?thesis by (simp add: s'_def set_bytes_transfer_def)
qed

lemma zdata_zack_last:
  assumes "snd_wait d k s" "length d < 2 ^ 32" "p_argument (z_packet s) = big_to_little_endian (of_nat (length d))"
  shows "\<exists>s'. zdata_zack m s = Inr (Some False, s') \<and> snd_ok d s' \<and> z_state s' = ZEOF \<and> z_out s' = z_out s"
proof -
  obtain f where f: "z_file_stream s = Some f" "snd_stream d (z_world s) f"
    using assms(1) by (auto simp: snd_wait_def snd_ok_def)
  note so = assms(1) [unfolded snd_wait_def snd_ok_def]
  have a: "big_to_little_endian (p_argument (z_packet s)) = of_nat (length d)"
    by (simp only: assms(3) big_to_little_endian_involution)
  have sz: "z_file_size s = of_nat (length d)" "unat (of_nat (length d) :: u32) = length d"
    using so assms(2) by (simp_all add: unat_of_nat)
  define s' where "s' = goto_zeof (s\<lparr>z_ack_required := False, z_waiting_for_ack := False, z_file_position := length d,
    z_file_stream := Some (fseek_set (length d) f), z_confirmed_bytes := sint (of_nat (length d) :: u32),
    z_last_confirmed_bytes := sint (of_nat (length d) :: u32)\<rparr>)"
  have "zdata_zack m s = Inr (Some False, s')"
    using f(1) so sz by (simp add: zdata_zack_def a Let_def seek_file_def block_size_up_sel s'_def)
  moreover have "snd_ok d s'"
    using so f by (simp add: snd_ok_def s'_def goto_zeof_def z_base_def flags_ok_def snd_stream_def fseek_set_def transfer_over_def
        z_last_message_def z_update_stats_def set_transfer_stats_last_message_def)
  ultimately show ?thesis by (simp add: s'_def goto_zeof_def)
qed

lemma send_zack_input:
  assumes "snd_wait d k s" "z_base r"
  shows "\<exists>s1 s2. fill_buffer (packet_wire P_ZACK a r) s = ([], s1) \<and> send_step m s1 = send_zdata m s1 \<and>
    zdata_input m s1 = zdata_zack m s2 \<and> snd_wait d k s2 \<and> p_argument (z_packet s2) = a \<and> z_out s2 = z_out s \<and> z_flags s2 = z_flags s"
proof -
  have b: "z_base s" "z_state s = ZDATA" using snd_inv_base(2) [OF assms(1)] by simp_all
  have "P_ZACK \<le> P_ZCOMMAND" by (simp add: packet_types)
  then obtain s1 q buf where s1: "fill_buffer (packet_wire P_ZACK a r) s = ([], s1)" "scan_cans s1 = s1" "z_state s1 = z_state s"
      "z_outbound s1 = []" "0 < z_packet_buffer_n s1"
      "take_packet s1 = Inr (ZM_PP_OK, (packet_received P_ZACK q s)\<lparr>z_packet_buffer := buf, z_packet_buffer_n := 0\<rparr>)"
      "length buf = ZMODEM_MAX_BLOCK_SIZE" "parsed P_ZACK a (z_use_crc32 r \<and> \<not> do_hex P_ZACK r) q"
    using take_only_packet [OF b(1) _ assms(2) refl, of P_ZACK a] by blast
  let ?s2 = "(packet_received P_ZACK q s)\<lparr>z_packet_buffer := buf, z_packet_buffer_n := 0\<rparr>"
  have q: "p_type (z_packet ?s2) = P_ZACK" "p_argument (z_packet ?s2) = a"
    using s1(8) by (simp_all add: parsed_def packet_received_def packet_types)
  have "zdata_packet m ?s2 = zdata_zack m ?s2" using q(1) by (simp add: zdata_packet_def Let_def packet_types)
  then have "zdata_input m s1 = zdata_zack m ?s2" using s1(5,6) by (simp add: zdata_input_def)
  moreover have "send_step m s1 = send_zdata m s1" using s1(2,3,4) b(2) by (simp add: send_step_def send_state_def)
  moreover have "z_out ?s2 = z_out s" "z_flags ?s2 = z_flags s" by (simp_all add: packet_received_def has_data_def packet_types)
  ultimately show ?thesis using s1(1) snd_wait_packet [OF assms(1) s1(8,7)] q(2) by blast
qed


lemma snd_wait_out [simp]: "snd_wait d k (s\<lparr>z_out := x\<rparr>) = snd_wait d k s"
  by (simp add: snd_wait_def snd_ok_def z_base_def flags_ok_def)

lemma feed_zack_more:
  assumes "snd_wait d k s" "1024 * k < length d" "length d < 2 ^ 32" "2080 \<le> m" "z_base r"
  shows "\<exists>s'. z_feed (packet_wire P_ZACK (big_to_little_endian (of_nat (1024 * k))) r) m s = Some (Inr s') \<and>
    z_out s' = subpacket (z_flags s) True (chunk d k) (chunk_type d k) \<and>
    (if chunk_type d k = ZCRCG then snd_data d (Suc k) s' else snd_wait d (Suc k) s')"
proof -
  let ?s = "s\<lparr>z_out := []\<rparr>" let ?a = "big_to_little_endian (of_nat (1024 * k))"
  obtain s1 s2 where s1: "fill_buffer (packet_wire P_ZACK ?a r) ?s = ([], s1)" "send_step m s1 = send_zdata m s1"
      "zdata_input m s1 = zdata_zack m s2" "snd_wait d k s2" "p_argument (z_packet s2) = ?a" "z_out s2 = []" "z_flags s2 = z_flags s"
    using send_zack_input [of d k ?s r ?a m] assms(1,5) by auto
  obtain s3 where s3: "zdata_zack m s2 = Inr (None, s3)" "snd_data d k s3" "z_out s3 = []" "z_flags s3 = z_flags s"
    using zdata_zack_more [OF s1(4) assms(2,3) s1(5), of m] s1(6,7) by auto
  obtain s' where s': "z_send_block m s3 = Inr (True, s')" "z_out s' = subpacket (z_flags s) True (chunk d k) (chunk_type d k)"
      "if chunk_type d k = ZCRCG then snd_data d (Suc k) s' else snd_wait d (Suc k) s'"
    using send_block_step [OF s3(2), of m] assms(2-4) s3(3,4) by auto
  have "\<not> z_waiting_for_ack s3" "\<not> z_ack_required s3" using s3(2) by (simp_all add: snd_data_def snd_ok_def snd_at_def)
  then have "send_step m s1 = Inr (True, s')"
    using s1(2,3) s3(1) s'(1) by (simp add: send_zdata_def)
  then have "zmodem_send m (packet_wire P_ZACK ?a r) ?s = Some (Inr s')"
    unfolding zmodem_send_filled [OF s1(1)] by (simp add: zmodem_send_step [of m s1])
  moreover have "z_base s'" using s'(3) snd_inv_base by (metis (full_types))
  ultimately have "z_feed (packet_wire P_ZACK ?a r) m s = Some (Inr s')"
    using snd_inv_base(2) [OF assms(1)] assms(4) base_timer [of s']
    by (intro z_feed_send) (simp_all add: ZMODEM_MAX_BLOCK_SIZE_def ZMODEM_BLOCK_SIZE_def)
  then show ?thesis using s' by blast
qed

lemma send_and_wait_wire:
  assumes "z_out s = []" "flags_ok s" "21 \<le> m"
  shows "send_and_wait t a st m s = Inr (False, s\<lparr>z_packet := (z_packet s)\<lparr>p_type := t, p_use_crc32 := z_use_crc32 s \<and> \<not> do_hex t s,
    p_data_n := 0\<rparr>, z_out := packet_wire t a s, z_state := st, z_packet_buffer_n := 0\<rparr>)"
  by (simp add: send_and_wait_def build_packet_wire [OF assms])

text \<open>The file has been sent: it is closed when the other side confirms its end.\<close>

definition snd_eof :: "byte list \<Rightarrow> zmodem \<Rightarrow> bool" where
  "snd_eof d s \<longleftrightarrow> snd_ok d s \<and> z_state s = ZEOF_WAIT"

lemma feed_zack_last:
  assumes "snd_wait d k s" "length d < 2 ^ 32" "2080 \<le> m" "z_base r"
  shows "\<exists>s' p. z_feed (packet_wire P_ZACK (big_to_little_endian (of_nat (length d))) r) m s = Some (Inr s') \<and>
    z_out s' = packet_wire P_ZEOF (of_nat (length d)) p \<and> z_base p \<and> snd_eof d s'"
proof -
  let ?s = "s\<lparr>z_out := []\<rparr>" let ?a = "big_to_little_endian (of_nat (length d))"
  obtain s1 s2 where s1: "fill_buffer (packet_wire P_ZACK ?a r) ?s = ([], s1)" "send_step m s1 = send_zdata m s1"
      "zdata_input m s1 = zdata_zack m s2" "snd_wait d k s2" "p_argument (z_packet s2) = ?a" "z_out s2 = []"
    using send_zack_input [of d k ?s r ?a m] assms(1,4) by auto
  obtain s3 where s3: "zdata_zack m s2 = Inr (Some False, s3)" "snd_ok d s3" "z_state s3 = ZEOF" "z_out s3 = []"
    using zdata_zack_last [OF s1(4) assms(2) s1(5), of m] s1(6) by auto
  have b3: "z_base s3" "z_sending s3" "z_file_size s3 = of_nat (length d)" using s3(2) by (simp_all add: snd_ok_def)
  have step1: "send_step m s1 = Inr (False, s3)" using s1(2,3) s3(1) by (simp add: send_zdata_def)
  define s4 where "s4 = s3\<lparr>z_packet := (z_packet s3)\<lparr>p_type := P_ZEOF, p_use_crc32 := z_use_crc32 s3 \<and> \<not> do_hex P_ZEOF s3, p_data_n := 0\<rparr>,
    z_out := packet_wire P_ZEOF (of_nat (length d)) s3, z_state := ZEOF_WAIT, z_packet_buffer_n := 0\<rparr>"
  have "send_step m s3 = send_zeof m s3" using b3(1) s3(3) by (simp add: send_step_def send_state_def z_base_def)
  then have step2: "send_step m s3 = Inr (False, s4)"
    using send_and_wait_wire [OF s3(4), of m P_ZEOF "of_nat (length d)" ZEOF_WAIT] b3 assms(3) by (simp add: send_zeof_def s4_def z_base_def)
  have ok: "snd_ok d s4" using s3(2) by (simp add: s4_def snd_ok_def z_base_def flags_ok_def packet_types)
  then have b4: "z_base s4" by (simp add: snd_ok_def)
  have "send_step m s4 = send_zeof_wait m s4" using b4 by (simp add: send_step_def send_state_def z_base_def) (simp add: s4_def)
  then have step3: "send_step m s4 = Inr (True, s4)"
    using b4 idle_wait [OF base_timer [OF b4], of ZEOF] by (simp add: send_zeof_wait_def z_base_def)
  have "zmodem_send m (packet_wire P_ZACK ?a r) ?s = Some (Inr s4)"
    by (simp add: zmodem_send_filled [OF s1(1)] zmodem_send_step [of m s1] zmodem_send_step [of m s3] zmodem_send_step [of m s4] step1 step2 step3)
  then have "z_feed (packet_wire P_ZACK ?a r) m s = Some (Inr s4)"
    using snd_inv_base(2) [OF assms(1)] assms(3) base_timer [OF b4]
    by (intro z_feed_send) (simp_all add: ZMODEM_MAX_BLOCK_SIZE_def ZMODEM_BLOCK_SIZE_def)
  moreover have "z_out s4 = packet_wire P_ZEOF (of_nat (length d)) s3" "z_state s4 = ZEOF_WAIT" by (simp_all add: s4_def)
  ultimately show ?thesis using ok b3(1) by (auto simp: snd_eof_def)
qed


section \<open>The receiver in the data phase\<close>

lemma length_chunk_subpacket:
  assumes "length bs \<le> 1024" "t = ZCRCW \<Longrightarrow> length bs < 1024"
  shows "length (subpacket flags True bs t) \<le> ZMODEM_MAX_BLOCK_SIZE"
proof -
  have "length (zdata_crc (makecrc (replicate 256 0)) True bs t) = 4" by (simp add: length_zdata_crc)
  then have "length (escaped_bytes flags (zdata_crc (makecrc (replicate 256 0)) True bs t)) \<le> 8"
    using encode_map.length_escs [of flags "zdata_crc (makecrc (replicate 256 0)) True bs t"] by simp
  then show ?thesis using encode_map.length_escs [of flags bs] assms
    by (cases "t = ZCRCW") (simp_all add: subpacket_def subframe_def ZMODEM_MAX_BLOCK_SIZE_def ZMODEM_BLOCK_SIZE_def)
qed

lemma rcv_data_out [simp]: "rcv_data d n (r\<lparr>z_out := x\<rparr>) = rcv_data d n r"
  by (simp add: rcv_data_def rcv_stream_def z_base_def flags_ok_def ready_for_data_def)

lemma rcv_pos_out [simp]: "rcv_pos d n (r\<lparr>z_out := x\<rparr>) = rcv_pos d n r"
  by (simp add: rcv_pos_def rcv_stream_def z_base_def flags_ok_def)

lemma rcv_data_buffer:
  "length buf = ZMODEM_MAX_BLOCK_SIZE \<Longrightarrow> rcv_data d n r \<Longrightarrow> rcv_data d n (r\<lparr>z_packet_buffer := buf, z_packet_buffer_n := k\<rparr>)"
  by (simp add: rcv_data_def rcv_stream_def z_base_def flags_ok_def ready_for_data_def)

lemma packet_wire_out [simp]: "packet_wire t a (s\<lparr>z_out := x\<rparr>) = packet_wire t a s"
  by (rule wire_cong) simp_all

definition rcv_round :: "byte list \<Rightarrow> nat \<Rightarrow> byte \<Rightarrow> zmodem \<Rightarrow> bool" where
  "rcv_round d n t r \<longleftrightarrow>
     (if t = ZCRCW then rcv_pos d n r else rcv_data d n r \<and> z_packet_buffer_n r = 0) \<and>
     (if t = ZCRCG then z_out r = [] else \<exists>p. z_base p \<and> z_out r = packet_wire P_ZACK (big_to_little_endian (of_nat n)) p)"

lemma receive_chunk_round:
  assumes "rcv_data d n r" "buffered (subpacket flags True bs t) r" "crc_escape t" "t \<noteq> ZCRCE"
    and "bs = take (length bs) (drop n d)" "length bs \<le> 1024" "z_out r = []" "2080 \<le> m"
  shows "\<exists>r'. zmodem_receive m [] r = Some (Inr r') \<and> rcv_round d (n + length bs) t r' \<and> z_frame r r'"
proof -
  obtain r' where r': "zmodem_receive m [] r = Some (Inr r')" "z_frame r r'" "z_packet_buffer_n r' = 0"
      "if t = ZCRCW then rcv_pos d (n + length bs) r' else rcv_data d (n + length bs) r'"
      "z_out r' = (if t = ZCRCG then [] else packet_wire P_ZACK (big_to_little_endian (of_nat (n + length bs))) r)"
    using receive_chunk [OF assms(1-7), of m] assms(8) by auto
  have "packet_wire P_ZACK a r = packet_wire P_ZACK a (r\<lparr>z_packet_buffer_n := 0\<rparr>)" for a by (rule wire_cong) simp_all
  moreover have "z_base (r\<lparr>z_packet_buffer_n := 0\<rparr>)" using assms(1) by (simp add: rcv_data_def)
  ultimately show ?thesis using r' by (auto simp: rcv_round_def)
qed

lemma rcv_round_base: "rcv_round d n t r \<Longrightarrow> z_base r \<and> \<not> z_sending r \<and> (z_state r = ZDATA \<or> z_state r = ZRPOS_WAIT)"
proof -
  assume r: "rcv_round d n t r"
  have "z_packet_buffer_n r = 0 \<Longrightarrow> z_base (r\<lparr>z_packet_buffer_n := 0\<rparr>) \<Longrightarrow> z_base r" by (simp add: z_base_def flags_ok_def)
  then show ?thesis using r by (auto simp: rcv_round_def rcv_pos_def rcv_data_def split: if_split_asm)
qed

lemma feed_chunk:
  assumes "rcv_data d n r" "z_packet_buffer_n r = 0" "crc_escape t" "t \<noteq> ZCRCE" "bs = take (length bs) (drop n d)"
    and "length bs \<le> 1024" "t = ZCRCW \<Longrightarrow> length bs < 1024" "2080 \<le> m"
  shows "\<exists>r'. z_feed (subpacket flags True bs t) m r = Some (Inr r') \<and> rcv_round d (n + length bs) t r' \<and> z_frame r r'"
proof -
  let ?w = "subpacket flags True bs t" let ?r = "r\<lparr>z_out := []\<rparr>"
  let ?r1 = "?r\<lparr>z_packet_buffer := memcpy (z_packet_buffer r) 0 ?w, z_packet_buffer_n := length ?w\<rparr>"
  have len: "length (z_packet_buffer r) = ZMODEM_MAX_BLOCK_SIZE" using assms(1) by (simp add: rcv_data_def ready_for_data_def)
  note w = length_chunk_subpacket [OF assms(6,7), of t flags]
  have fill: "fill_buffer ?w ?r = ([], ?r1)"
    using fill_empty_buffer [of ?r ?w] assms(2) len w by simp
  have "rcv_data d n ?r1" using assms(1) len w by (intro rcv_data_buffer) simp_all
  moreover have "buffered ?w ?r1" by (simp add: buffered_def take_memcpy_0)
  ultimately obtain r' where r': "zmodem_receive m [] ?r1 = Some (Inr r')" "rcv_round d (n + length bs) t r'" "z_frame ?r1 r'"
    using receive_chunk_round [OF _ _ assms(3-6), of ?r1 flags m] assms(8) by auto
  have "z_base (r\<lparr>z_packet_buffer_n := 0\<rparr>)" "\<not> z_sending r" "z_state r = ZDATA" using assms(1) by (simp_all add: rcv_data_def)
  then have b: "z_base r" "\<not> z_sending r" "z_state r = ZDATA" using assms(2) by (simp_all add: z_base_def flags_ok_def)
  have "zmodem_receive m ?w ?r = Some (Inr r')" using r'(1) by (simp add: zmodem_receive_filled [OF fill])
  then have "z_feed ?w m r = Some (Inr r')"
    using b assms(8) rcv_round_base [OF r'(2)] base_timer [of r']
    by (intro z_feed_receive) (simp_all add: ZMODEM_MAX_BLOCK_SIZE_def ZMODEM_BLOCK_SIZE_def)
  moreover have "z_frame r r'" using r'(3) w len by (simp add: z_frame_def)
  ultimately show ?thesis using r'(2) by blast
qed

lemma feed_first_chunk:
  assumes "rcv_pos d n r" "z_base p" "crc_escape t" "t \<noteq> ZCRCE" "bs = take (length bs) (drop n d)"
    and "length bs \<le> 1024" "t = ZCRCW \<Longrightarrow> length bs < 1024" "2080 \<le> m"
  shows "\<exists>r'. z_feed (packet_wire P_ZDATA a p @ subpacket flags True bs t) m r = Some (Inr r') \<and> rcv_round d (n + length bs) t r' \<and> z_frame r r'"
proof -
  let ?h = "packet_wire P_ZDATA a p" let ?w = "subpacket flags True bs t" let ?r = "r\<lparr>z_out := []\<rparr>"
  have b: "z_base r" "\<not> z_sending r" "z_state r = ZRPOS_WAIT" "z_base ?r" using assms(1) by (simp_all add: rcv_pos_def z_base_def flags_ok_def)
  have len: "length (z_packet_buffer r) = ZMODEM_MAX_BLOCK_SIZE" using b(1) by (simp add: z_base_def)
  note w = length_chunk_subpacket [OF assms(6,7), of t flags]
  have "P_ZDATA \<le> P_ZCOMMAND" by (simp add: packet_types)
  then obtain r1 w1 w2 q buf where r1: "fill_buffer (?h @ ?w) ?r = (w2, r1)" "z_state r1 = z_state ?r" "0 < z_packet_buffer_n r1"
      "take_packet r1 = Inr (ZM_PP_OK, (packet_received P_ZDATA q ?r)\<lparr>z_packet_buffer := buf, z_packet_buffer_n := length w1\<rparr>)"
      "?w = w1 @ w2" "length buf = ZMODEM_MAX_BLOCK_SIZE" "take (length w1) buf = w1" "parsed P_ZDATA a (z_use_crc32 p \<and> \<not> do_hex P_ZDATA p) q"
    using header_arrives [OF b(4) assms(2), of P_ZDATA a ?w] by blast
  have uq: "z_use_crc32 p \<and> \<not> do_hex P_ZDATA p" using assms(2) do_hex_base [OF assms(2), of P_ZDATA] by (simp add: z_base_def)
  let ?r2 = "(packet_received P_ZDATA q ?r)\<lparr>z_packet_buffer := buf, z_packet_buffer_n := length w1\<rparr>"
  define r3 where "r3 = enter_data ZRPOS_WAIT (z_last_message ''ZDATA'' ?r2)"
  have "zrpos_packet m ?r2 = Inr (False, r3)"
    using r1(8) by (simp add: zrpos_packet_def parsed_def packet_received_def packet_types r3_def)
  then have step: "receive_step m r1 = Inr (False, r3)"
    using r1(2-4) b(3) by (simp add: receive_step_def receive_zrpos_wait_def)
  have hd: "has_data P_ZDATA" by (simp add: has_data_def packet_types)
  have r3: "rcv_data d n r3" "buffered w1 r3" "length (z_packet_buffer r3) = ZMODEM_MAX_BLOCK_SIZE" "z_out r3 = []" "z_frame r r3"
    using assms(1) b r1(6-8) uq len hd
    by (simp_all add: r3_def enter_data_def packet_received_def rcv_data_def rcv_pos_def rcv_stream_def z_base_def flags_ok_def z_frame_def
        ready_for_data_def parsed_def begin_data_def clear_packet_def transfer_over_def z_last_message_def z_update_stats_def
        set_transfer_stats_last_message_def buffered_def)
  then obtain buf' where buf: "fill_buffer w2 r3 = ([], r3\<lparr>z_packet_buffer := buf', z_packet_buffer_n := length ?w\<rparr>)"
      "length buf' = ZMODEM_MAX_BLOCK_SIZE" "take (length ?w) buf' = ?w"
    using refill [of w1 r3 w2] w unfolding r1(5) by blast
  let ?r4 = "r3\<lparr>z_packet_buffer := buf', z_packet_buffer_n := length ?w\<rparr>"
  obtain r' where r': "zmodem_receive m [] ?r4 = Some (Inr r')" "rcv_round d (n + length bs) t r'" "z_frame ?r4 r'"
    using receive_chunk_round [OF rcv_data_buffer [OF buf(2) r3(1), of "length ?w"] _ assms(3-6), of flags m] buf(3) r3(4) assms(8)
    by (auto simp: buffered_def)
  have "zmodem_receive m (?h @ ?w) ?r = Some (Inr r')"
    using r'(1) by (simp add: zmodem_receive_next [OF r1(1) step] zmodem_receive_filled [OF buf(1)])
  then have "z_feed (?h @ ?w) m r = Some (Inr r')"
    using b assms(8) rcv_round_base [OF r'(2)] base_timer [of r']
    by (intro z_feed_receive) (simp_all add: ZMODEM_MAX_BLOCK_SIZE_def ZMODEM_BLOCK_SIZE_def)
  moreover have "z_frame r r'" using r3(5) r'(3) buf(2) len by (simp add: z_frame_def)
  ultimately show ?thesis using r'(2) by blast
qed

section \<open>The data phase\<close>

definition data_state :: "byte list \<Rightarrow> nat \<Rightarrow> zmodem \<times> zmodem \<Rightarrow> bool" where
  "data_state d k sr \<longleftrightarrow>
     (if chunk_type d k = ZCRCG then snd_data d (Suc k) (fst sr) else snd_wait d (Suc k) (fst sr)) \<and>
     rcv_round d (1024 * k + length (chunk d k)) (chunk_type d k) (snd sr)"

lemma chunk_type_cases: "crc_escape (chunk_type d k)" "chunk_type d k \<noteq> ZCRCE"
  "chunk_type d k = ZCRCW \<longleftrightarrow> length (chunk d k) < 1024" "length (chunk d k) \<le> 1024"
  "chunk d k = take (length (chunk d k)) (drop (1024 * k) d)"
  by (auto simp: chunk_type_def crc_escape_def chunk_def zcrc_bytes min_def)

lemma chunk_full: "length (chunk d k) = 1024 \<longleftrightarrow> 1024 * Suc k \<le> length d"
  by (auto simp: chunk_def)

lemma data_step:
  assumes "data_state d k (s, r)" "1024 * Suc k \<le> length d" "length d < 2 ^ 32" "2080 \<le> m"
    and "1024 * Suc k < length d \<or> \<not> (d \<noteq> [] \<and> 32768 dvd length d)"
  shows "\<exists>s' r'. z_lockstep m (Suc 0) (s, r) = Some (Inr (s', r')) \<and> data_state d (Suc k) (s', r') \<and> z_frame r r'"
proof -
  let ?t = "chunk_type d k" let ?n = "1024 * Suc k"
  have full: "length (chunk d k) = 1024" using assms(2) chunk_full by blast
  then have t: "?t \<noteq> ZCRCW" using chunk_type_cases(3) [of d k] by simp
  have rr: "rcv_round d ?n ?t r" using assms(1) full by (simp add: data_state_def add.commute)
  have r: "rcv_data d ?n r" "z_packet_buffer_n r = 0" "if ?t = ZCRCG then z_out r = [] else
      \<exists>p. z_base p \<and> z_out r = packet_wire P_ZACK (big_to_little_endian (of_nat ?n)) p"
    using rr unfolding rcv_round_def if_not_P [OF t] by blast+
  have more: "?n < length d" if "?t \<noteq> ZCRCG"
  proof -
    have "Suc k mod 32 = 0" using that t full by (simp add: chunk_type_def split: if_split_asm)
    then obtain j where "Suc k = 32 * j" by (auto simp: mod_eq_0_iff_dvd elim: dvdE)
    then have "?n = 32768 * j" by simp
    then have "32768 dvd ?n" by (rule dvdI)
    then show ?thesis using assms(2,5) by (cases "?n = length d") auto
  qed
  obtain s' where s': "z_feed (z_out r) m s = Some (Inr s')" "z_out s' = subpacket (z_flags s) True (chunk d (Suc k)) (chunk_type d (Suc k))"
      "if chunk_type d (Suc k) = ZCRCG then snd_data d (Suc (Suc k)) s' else snd_wait d (Suc (Suc k)) s'"
  proof (cases "?t = ZCRCG")
    case True
    then show ?thesis using that feed_next_block [of d "Suc k" s m] assms r(3) by (auto simp: data_state_def)
  next
    case False
    then obtain p where "z_base p" "z_out r = packet_wire P_ZACK (big_to_little_endian (of_nat ?n)) p" using r(3) by auto
    then show ?thesis using that feed_zack_more [of d "Suc k" s m p] assms more [OF False] False by (auto simp: data_state_def)
  qed
  obtain r' where r': "z_feed (z_out s') m r = Some (Inr r')"
      "rcv_round d (?n + length (chunk d (Suc k))) (chunk_type d (Suc k)) r'" "z_frame r r'"
    using feed_chunk [OF r(1,2) chunk_type_cases(1,2) [of d "Suc k"] chunk_type_cases(5,4) [of d "Suc k"], of m "z_flags s"]
      chunk_type_cases(3) [of d "Suc k"] assms(4) s'(2)
    by auto
  have "data_state d (Suc k) (s', r')" using s'(3) r'(2) by (simp add: data_state_def)
  then show ?thesis using z_lockstep_1 [OF s'(1) r'(1)] r'(3) by blast
qed

lemma data_rounds:
  assumes "data_state d 0 (s, r)" "length d < 2 ^ 32" "2080 \<le> m" "1024 * k \<le> length d"
    and "1024 * k < length d \<or> \<not> (d \<noteq> [] \<and> 32768 dvd length d)"
  shows "\<exists>s' r'. z_lockstep m k (s, r) = Some (Inr (s', r')) \<and> data_state d k (s', r') \<and> z_frame r r'"
  using assms(4,5)
proof (induction k)
  case 0
  then show ?case using assms(1) by (simp add: z_frame_def)
next
  case (Suc k)
  then obtain s1 r1 where 1: "z_lockstep m k (s, r) = Some (Inr (s1, r1))" "data_state d k (s1, r1)" "z_frame r r1" by auto
  obtain s2 r2 where 2: "z_lockstep m (Suc 0) (s1, r1) = Some (Inr (s2, r2))" "data_state d (Suc k) (s2, r2)" "z_frame r1 r2"
    using data_step [OF 1(2) Suc.prems(1) assms(2,3) Suc.prems(2)] by blast
  show ?case using z_lockstep_add [OF 1(1), of "Suc 0"] 2 z_frame_trans [OF 1(3) 2(3)] by auto
qed

end
