(* ===== verification/Zmodem_Delivery.thy ===== *)
theory Zmodem_Delivery
  imports Zmodem_Session
begin

text \<open>
  A whole Zmodem session of two engines on a clean line: the opening, the name of the file,
  the rounds of data and the end of the session.
\<close>

unbundle bit_operations_syntax

section \<open>The end of the session\<close>

definition zfile_saved :: "byte list \<Rightarrow> zmodem \<Rightarrow> zmodem \<Rightarrow> bool" where
  "zfile_saved d r0 r \<longleftrightarrow>
     \<not> z_sending r \<and> z_file_stream r = None \<and>
     files (z_world r) (z_file_fullname r0) = Some (d, z_file_modtime r0)"

lemma receive_idle_zrinit: "z_base s \<Longrightarrow> z_state s = ZRINIT_WAIT \<Longrightarrow> receive_step m s = Inr (True, s)"
  using idle_wait [OF base_timer] by (simp add: receive_step_def receive_zrinit_wait_def z_base_def)

lemma base_last_message [simp]: "z_base (z_last_message x s) = z_base s"
  by (simp add: z_base_def flags_ok_def z_last_message_def z_update_stats_def transfer_over_def set_transfer_stats_last_message_def)

lemma feed_zeof:
  assumes "rcv_pos d (length d) r" "z_base p" "length d < 2 ^ 32" "2080 \<le> m"
  shows "\<exists>r' q. z_feed (packet_wire P_ZEOF (of_nat (length d)) p) m r = Some (Inr r') \<and> z_base r' \<and> z_state r' = ZRINIT_WAIT \<and>
    zfile_saved d r r' \<and> z_base q \<and> z_out r' = packet_wire P_ZRINIT 0 q"
proof -
  let ?r = "r\<lparr>z_out := []\<rparr>" let ?w = "packet_wire P_ZEOF (of_nat (length d)) p"
  have b: "z_base ?r" "\<not> z_sending r" "z_state r = ZRPOS_WAIT" and rs: "rcv_stream d (length d) r"
    using assms(1) by (simp_all add: rcv_pos_def z_base_def flags_ok_def)
  obtain f where f: "z_file_stream r = Some f" "s_path f = z_file_fullname r" "s_data f = d" "s_write f" "z_file_name r \<noteq> None"
      "z_file_position r = length d"
    using rs by (auto simp: rcv_stream_def)
  have "P_ZEOF \<le> P_ZCOMMAND" by (simp add: packet_types)
  then obtain r1 q buf where r1: "fill_buffer ?w ?r = ([], r1)" "z_state r1 = z_state ?r" "0 < z_packet_buffer_n r1"
      "take_packet r1 = Inr (ZM_PP_OK, (packet_received P_ZEOF q ?r)\<lparr>z_packet_buffer := buf, z_packet_buffer_n := 0\<rparr>)"
      "length buf = ZMODEM_MAX_BLOCK_SIZE" "parsed P_ZEOF (of_nat (length d)) (z_use_crc32 p \<and> \<not> do_hex P_ZEOF p) q"
    using take_only_packet [OF b(1) _ assms(2) refl, of P_ZEOF "of_nat (length d)"] by blast
  define r2 where "r2 = ?r\<lparr>z_packet := q, z_packet_buffer := buf, z_packet_buffer_n := 0\<rparr>"
  have r2: "(packet_received P_ZEOF q ?r)\<lparr>z_packet_buffer := buf, z_packet_buffer_n := 0\<rparr> = r2"
    by (simp add: packet_received_def has_data_def packet_types r2_def)
  define r3 where "r3 = z_last_message ''ZEOF'' (z_update_stats (\<lambda>t. t\<lparr>t_state := Q_TRANSFER_STATE_FILE_DONE\<rparr>) r2)"
  define r4 where "r4 = r3\<lparr>z_world := utime (z_file_fullname r) (z_file_modtime r) (fclose f (z_world r)), z_file_name := None, z_file_stream := None\<rparr>"
  have sel3: "z_file_stream r3 = Some f" "z_file_name r3 = z_file_name r" "z_file_fullname r3 = z_file_fullname r"
    "z_file_modtime r3 = z_file_modtime r" "z_world r3 = z_world r" "z_packet r3 = q" "z_file_position r3 = length d" "z_out r3 = []"
    using f by (simp_all add: r3_def r2_def)
  have fin: "finish_download r3 = Inr r4" using sel3 f(5) by (simp add: finish_download_def r4_def)
  have b3: "z_base r3" using b r1(5)
    by (simp add: r3_def r2_def z_base_def flags_ok_def z_last_message_def z_update_stats_def transfer_over_def set_transfer_stats_last_message_def)
  then have b4: "z_base r4" "z_out r4 = []" using sel3(5,8) by (simp_all add: r4_def z_base_def flags_ok_def utime_def fclose_def)
  define r5 where "r5 = (z_last_message ''ZRINIT'' (r4\<lparr>z_packet := (z_packet r4)\<lparr>p_type := P_ZRINIT, p_use_crc32 := z_use_crc32 r4 \<and> \<not> do_hex P_ZRINIT r4,
    p_data_n := 0\<rparr>, z_out := packet_wire P_ZRINIT 0 r4\<rparr>))\<lparr>z_state := ZRINIT_WAIT\<rparr>"
  have "unat (p_argument q) = length d" "p_type q = P_ZEOF" using r1(6) assms(3) by (simp_all add: parsed_def packet_types unat_of_nat)
  then have "zrpos_packet m r2 = Inr (False, r5)"
    using sel3(6,7) fin build_packet_wire [OF b4(2), of m P_ZRINIT 0] b4(1) assms(4)
    by (simp add: zrpos_packet_def zeof_packet_def Let_def r5_def z_base_def flip: r3_def) (simp add: r2_def)
  then have step: "receive_step m r1 = Inr (False, r5)"
    using r1(2-4) b(3) r2 by (simp add: receive_step_def receive_zrpos_wait_def)
  have b5: "z_base r5" "z_state r5 = ZRINIT_WAIT"
    using b4(1) by (simp_all add: r5_def z_base_def flags_ok_def z_last_message_def z_update_stats_def transfer_over_def set_transfer_stats_last_message_def)
  have "zmodem_receive m ?w ?r = Some (Inr r5)"
    unfolding zmodem_receive_filled [OF r1(1)]
    by (simp add: zmodem_receive_step [of m r1] zmodem_receive_step [of m r5] step receive_idle_zrinit [OF b5])
  then have "z_feed ?w m r = Some (Inr r5)"
    using b assms(1,4) base_timer [OF b5(1)]
    by (intro z_feed_receive) (simp_all add: rcv_pos_def ZMODEM_MAX_BLOCK_SIZE_def ZMODEM_BLOCK_SIZE_def)
  moreover have "zfile_saved d r r5"
    using b f(2-4) sel3 by (simp add: zfile_saved_def r5_def r4_def utime_def fclose_def) (simp add: r3_def r2_def)
  moreover have "z_out r5 = packet_wire P_ZRINIT 0 r4" by (simp add: r5_def)
  ultimately show ?thesis using b5 b4(1) by blast
qed


lemma feed_zrinit_again:
  assumes "snd_eof d s" "z_base p" "2080 \<le> m"
  shows "\<exists>s' q. z_feed (packet_wire P_ZRINIT 0 p) m s = Some (Inr s') \<and> z_base s' \<and> z_sending s' \<and> z_state s' = ZFIN_WAIT \<and>
    z_file_stream s' = None \<and> z_base q \<and> z_out s' = packet_wire P_ZFIN 0 q"
proof -
  let ?s = "s\<lparr>z_out := []\<rparr>" let ?w = "packet_wire P_ZRINIT 0 p"
  have b: "z_base ?s" "z_sending s" "z_state s = ZEOF_WAIT" and so: "snd_ok d s"
    using assms(1) by (simp_all add: snd_eof_def snd_ok_def z_base_def flags_ok_def)
  obtain f where f: "z_file_stream s = Some f" "\<not> s_write f" using so by (auto simp: snd_ok_def snd_stream_def)
  have "P_ZRINIT \<le> P_ZCOMMAND" by (simp add: packet_types)
  then obtain s1 q buf where s1: "fill_buffer ?w ?s = ([], s1)" "scan_cans s1 = s1" "z_state s1 = z_state ?s" "z_outbound s1 = []"
      "0 < z_packet_buffer_n s1"
      "take_packet s1 = Inr (ZM_PP_OK, (packet_received P_ZRINIT q ?s)\<lparr>z_packet_buffer := buf, z_packet_buffer_n := 0\<rparr>)"
      "length buf = ZMODEM_MAX_BLOCK_SIZE" "parsed P_ZRINIT 0 (z_use_crc32 p \<and> \<not> do_hex P_ZRINIT p) q"
    using take_only_packet [OF b(1) _ assms(2) refl, of P_ZRINIT 0] by blast
  define s2 where "s2 = ?s\<lparr>z_packet := q, z_packet_buffer := buf, z_packet_buffer_n := 0\<rparr>"
  have s2: "(packet_received P_ZRINIT q ?s)\<lparr>z_packet_buffer := buf, z_packet_buffer_n := 0\<rparr> = s2"
    by (simp add: packet_received_def has_data_def packet_types s2_def)
  have b2: "z_base s2" using b(1) s1(7) by (simp add: s2_def z_base_def flags_ok_def)
  define s3 where "s3 = projr (map_sum id snd (finish_upload s2))"
  have s3: "finish_upload s2 = Inr (False, s3)" "z_base s3" "z_state s3 = ZFIN" "z_sending s3" "z_out s3 = []" "z_file_stream s3 = None"
    using so f b2 b(2)
    by (simp_all add: s3_def finish_upload_def Let_def s2_def snd_ok_def z_setup_for_next_file_def fclose_def z_base_def flags_ok_def
        z_last_message_def z_update_stats_def transfer_over_def set_transfer_stats_last_message_def)
  have "zeof_wait_packet s2 = Inr (False, s3)" using s1(8) s3(1) by (simp add: zeof_wait_packet_def s2_def parsed_def)
  then have step1: "send_step m s1 = Inr (False, s3)"
    using s1(2-6) b(3) s2 by (simp add: send_step_def send_state_def send_zeof_wait_def wait_packet_def)
  define s4 where "s4 = s3\<lparr>z_packet := (z_packet s3)\<lparr>p_type := P_ZFIN, p_use_crc32 := z_use_crc32 s3 \<and> \<not> do_hex P_ZFIN s3, p_data_n := 0\<rparr>,
    z_out := packet_wire P_ZFIN 0 s3, z_state := ZFIN_WAIT, z_packet_buffer_n := 0\<rparr>"
  have "send_step m s3 = send_zfin m s3" using s3(2,3) by (simp add: send_step_def send_state_def z_base_def)
  then have step2: "send_step m s3 = Inr (False, s4)"
    using send_and_wait_wire [OF s3(5), of m P_ZFIN 0 ZFIN_WAIT] s3(2) assms(3) by (simp add: send_zfin_def s4_def z_base_def)
  have b4: "z_base s4" "z_state s4 = ZFIN_WAIT" "z_sending s4" "z_file_stream s4 = None" using s3(2,4,6) by (simp_all add: s4_def z_base_def flags_ok_def)
  then have step3: "send_step m s4 = Inr (True, s4)"
    using idle_wait [OF base_timer [OF b4(1)], of ZFIN] by (simp add: send_step_def send_state_def send_zfin_wait_def z_base_def)
  have "zmodem_send m ?w ?s = Some (Inr s4)"
    unfolding zmodem_send_filled [OF s1(1)]
    by (simp add: zmodem_send_step [of m s1] zmodem_send_step [of m s3] zmodem_send_step [of m s4] step1 step2 step3)
  then have "z_feed ?w m s = Some (Inr s4)"
    using b so assms(3) base_timer [OF b4(1)]
    by (intro z_feed_send) (simp_all add: snd_ok_def ZMODEM_MAX_BLOCK_SIZE_def ZMODEM_BLOCK_SIZE_def)
  moreover have "z_out s4 = packet_wire P_ZFIN 0 s3" by (simp add: s4_def)
  ultimately show ?thesis using b4 s3(2) by blast
qed

lemma complete_sel:
  assumes "z_base s" "z_file_stream s = None"
  shows "t_state (z_stats (z_complete s)) = Q_TRANSFER_STATE_END" "t_error_count (z_stats (z_complete s)) = 0"
    "z_world (z_complete s) = z_world s" "z_out (z_complete s) = z_out s" "z_timeout_begin (z_complete s) = now (z_world s)"
    "z_state (z_complete s) = Z_COMPLETE" "z_packet_buffer_n (z_complete s) = 0" "z_outbound (z_complete s) = []"
  using assms by (simp_all add: z_complete_def Let_def z_stop_file_transfer_def zmodem_stop_def z_base_def z_last_message_def z_update_stats_def
      set_transfer_stats_last_message_def)

lemma feed_zfin_receiver:
  assumes "z_base r" "\<not> z_sending r" "z_state r = ZRINIT_WAIT" "z_file_stream r = None" "z_base p" "2080 \<le> m"
  shows "\<exists>r' q. z_feed (packet_wire P_ZFIN 0 p) m r = Some (Inr r') \<and> t_state (z_stats r') = Q_TRANSFER_STATE_END \<and>
    t_error_count (z_stats r') = 0 \<and> z_world r' = z_world r \<and> z_base q \<and> z_out r' = packet_wire P_ZFIN 0 q"
proof -
  let ?r = "r\<lparr>z_out := []\<rparr>" let ?w = "packet_wire P_ZFIN 0 p"
  have b: "z_base ?r" using assms(1) by (simp add: z_base_def flags_ok_def)
  have "P_ZFIN \<le> P_ZCOMMAND" by (simp add: packet_types)
  then obtain r1 q buf where r1: "fill_buffer ?w ?r = ([], r1)" "z_state r1 = z_state ?r" "0 < z_packet_buffer_n r1"
      "take_packet r1 = Inr (ZM_PP_OK, (packet_received P_ZFIN q ?r)\<lparr>z_packet_buffer := buf, z_packet_buffer_n := 0\<rparr>)"
      "length buf = ZMODEM_MAX_BLOCK_SIZE" "parsed P_ZFIN 0 (z_use_crc32 p \<and> \<not> do_hex P_ZFIN p) q"
    using take_only_packet [OF b _ assms(5) refl, of P_ZFIN 0] by blast
  define r2 where "r2 = ?r\<lparr>z_packet := q, z_packet_buffer := buf, z_packet_buffer_n := 0\<rparr>"
  have r2: "(packet_received P_ZFIN q ?r)\<lparr>z_packet_buffer := buf, z_packet_buffer_n := 0\<rparr> = r2"
    by (simp add: packet_received_def has_data_def packet_types r2_def)
  define r3 where "r3 = z_last_message ''ZFIN'' r2"
  have b3: "z_base r3" "z_out r3 = []" "z_file_stream r3 = None" "z_world r3 = z_world r"
    using b r1(5) assms(4) by (simp_all add: r3_def r2_def z_base_def flags_ok_def transfer_over_def)
  define r4 where "r4 = r3\<lparr>z_packet := (z_packet r3)\<lparr>p_type := P_ZFIN, p_use_crc32 := z_use_crc32 r3 \<and> \<not> do_hex P_ZFIN r3, p_data_n := 0\<rparr>,
    z_out := packet_wire P_ZFIN 0 r3, z_state := ZFIN_WAIT\<rparr>"
  have "zrinit_packet m r2 = Inr (False, r4)"
    using r1(6) build_packet_wire [OF b3(2), of m P_ZFIN 0] b3(1) assms(6)
    by (simp add: zrinit_packet_def Let_def r4_def z_base_def flip: r3_def) (simp add: r2_def parsed_def)
  then have step1: "receive_step m r1 = Inr (False, r4)"
    using r1(2-4) assms(3) r2 by (simp add: receive_step_def receive_zrinit_wait_def wait_packet_def)
  have step2: "receive_step m r4 = Inr (True, z_complete r4)" by (simp add: receive_step_def r4_def)
  have b4: "z_base r4" "z_file_stream r4 = None" "z_world r4 = z_world r" using b3 by (simp_all add: r4_def z_base_def flags_ok_def)
  note c = complete_sel [OF b4(1,2)]
  have "zmodem_receive m ?w ?r = Some (Inr (z_complete r4))"
    unfolding zmodem_receive_filled [OF r1(1)]
    by (simp add: zmodem_receive_step [of m r1] zmodem_receive_step [of m r4] step1 step2)
  then have "z_feed ?w m r = Some (Inr (z_complete r4))"
    using assms c(3,5) by (intro z_feed_receive) (simp_all add: ZMODEM_MAX_BLOCK_SIZE_def ZMODEM_BLOCK_SIZE_def)
  moreover have "z_out (z_complete r4) = packet_wire P_ZFIN 0 r3" using c(4) by (simp add: r4_def)
  ultimately show ?thesis using c b4(3) b3(1) by auto
qed

lemma feed_zfin_sender:
  assumes "z_base s" "z_sending s" "z_state s = ZFIN_WAIT" "z_file_stream s = None" "z_base p" "2080 \<le> m"
  shows "\<exists>s'. z_feed (packet_wire P_ZFIN 0 p) m s = Some (Inr s') \<and> t_state (z_stats s') = Q_TRANSFER_STATE_END \<and>
    t_error_count (z_stats s') = 0"
proof -
  let ?s = "s\<lparr>z_out := []\<rparr>" let ?w = "packet_wire P_ZFIN 0 p"
  have b: "z_base ?s" using assms(1) by (simp add: z_base_def flags_ok_def)
  have "P_ZFIN \<le> P_ZCOMMAND" by (simp add: packet_types)
  then obtain s1 q buf where s1: "fill_buffer ?w ?s = ([], s1)" "scan_cans s1 = s1" "z_state s1 = z_state ?s" "z_outbound s1 = []"
      "0 < z_packet_buffer_n s1"
      "take_packet s1 = Inr (ZM_PP_OK, (packet_received P_ZFIN q ?s)\<lparr>z_packet_buffer := buf, z_packet_buffer_n := 0\<rparr>)"
      "length buf = ZMODEM_MAX_BLOCK_SIZE" "parsed P_ZFIN 0 (z_use_crc32 p \<and> \<not> do_hex P_ZFIN p) q"
    using take_only_packet [OF b _ assms(5) refl, of P_ZFIN 0] by blast
  define s2 where "s2 = ?s\<lparr>z_packet := q, z_packet_buffer := buf, z_packet_buffer_n := 0\<rparr>"
  have s2: "(packet_received P_ZFIN q ?s)\<lparr>z_packet_buffer := buf, z_packet_buffer_n := 0\<rparr> = s2"
    by (simp add: packet_received_def has_data_def packet_types s2_def)
  let ?s3 = "s2\<lparr>z_out := [79, 79]\<rparr>"
  have b3: "z_base ?s3" "z_file_stream ?s3 = None" using b s1(7) assms(4) by (simp_all add: s2_def z_base_def flags_ok_def)
  note c = complete_sel [OF b3]
  have "zfin_packet s2 = Inr (False, z_complete ?s3)" using s1(8) by (simp add: zfin_packet_def s2_def parsed_def)
  then have step1: "send_step m s1 = Inr (False, z_complete ?s3)"
    using s1(2-6) assms(3) s2 by (simp add: send_step_def send_state_def send_zfin_wait_def wait_packet_def)
  have step2: "send_step m (z_complete ?s3) = Inr (True, z_complete ?s3)"
    using c(6-8) by (simp add: send_step_def send_state_def)
  have "zmodem_send m ?w ?s = Some (Inr (z_complete ?s3))"
    unfolding zmodem_send_filled [OF s1(1)]
    by (simp add: zmodem_send_step [of m s1] zmodem_send_step [of m "z_complete ?s3"] step1 step2)
  then have "z_feed ?w m s = Some (Inr (z_complete ?s3))"
    using assms c(3,5) by (intro z_feed_send) (simp_all add: ZMODEM_MAX_BLOCK_SIZE_def ZMODEM_BLOCK_SIZE_def)
  then show ?thesis using c by auto
qed

section \<open>The opening\<close>

lemma setup_encode_plain:
  "f AND TX_ESCAPE_CTRL = 0 \<Longrightarrow> f AND TX_ESCAPE_8BIT = 0 \<Longrightarrow> setup_encode_byte_map f = setup_encode_byte_map 0"
  by (simp add: setup_encode_byte_map_def encode_entry_def encode_char_def)

definition snd_pre :: "byte list \<Rightarrow> cstring \<Rightarrow> time_t \<Rightarrow> zmodem \<Rightarrow> bool" where
  "snd_pre d name mt s \<longleftrightarrow> snd_ok d s \<and> z_file_name s = Some name \<and> z_file_modtime s = mt \<and>
     \<not> z_waiting_for_ack s \<and> z_blocks_ack_count s = 32 \<and> z_flags s = 0"

definition rcv_pre :: "cstring \<Rightarrow> os \<Rightarrow> zmodem \<Rightarrow> bool" where
  "rcv_pre dir w r \<longleftrightarrow> z_base r \<and> \<not> z_sending r \<and> z_download_path r = Some dir \<and> z_world r = w \<and>
     \<not> z_opt_escape_ctrl r \<and> \<not> z_opt_zchallenge r"

lemma upload_started:
  assumes "may_open w (fi_name fi)" "map_option fst (files w (fi_name fi)) = Some d" "bad_at w (fi_name fi) = None" "fi_size fi = length d"
  shows "\<exists>s. zmodem_start (Some [fi]) path True Z_CRC32 (initial_zmodem False zch w) = Inr (True, s) \<and>
    snd_pre d (basename (fi_name fi)) (fi_mtime fi) s \<and> z_state s = Z_INIT"
proof -
  obtain t where f: "files w (fi_name fi) = Some (d, t)" using assms(2) by auto
  show ?thesis
    using assms(1,3,4) f makecrc_table [of "replicate 256 0"]
    by (simp add: zmodem_start_def initial_zmodem_def z_setup_for_next_file_def Let_def fopen_rb_def zmodem_start_common_def snd_pre_def
        snd_ok_def z_base_def flags_ok_def z_reset_timer_def z_last_message_def z_update_stats_def set_transfer_stats_last_message_def
        z_stats_new_file_def snd_stream_def transfer_over_def set_transfer_stats_filename_def set_transfer_stats_pathname_def
        WINDOW_SIZE_RELIABLE_def clear_packet_def packet_types initial_stats_def ZMODEM_BLOCK_SIZE_def)
qed

lemma download_started:
  "\<exists>r. zmodem_start None dir False Z_CRC32 (initial_zmodem False False w) = Inr (True, r) \<and> rcv_pre dir w r \<and> z_state r = Z_INIT \<and> z_out r = []"
  using makecrc_table [of "replicate 256 0"]
  by (simp add: zmodem_start_def initial_zmodem_def Let_def zmodem_start_common_def rcv_pre_def
      z_base_def flags_ok_def z_reset_timer_def z_last_message_def z_update_stats_def set_transfer_stats_last_message_def
      transfer_over_def set_transfer_stats_filename_def set_transfer_stats_pathname_def initial_stats_def)

lemma snd_pre_base: "snd_pre d name mt s \<Longrightarrow> z_base s \<and> z_sending s \<and> \<not> z_opt_escape_ctrl s"
  by (simp add: snd_pre_def snd_ok_def)

lemma feed_opening:
  assumes "snd_pre d name mt s" "z_state s = Z_INIT" "2080 \<le> m"
  shows "\<exists>s' q. z_feed [] m s = Some (Inr s') \<and> snd_pre d name mt s' \<and> z_state s' = ZRQINIT_WAIT \<and>
    z_base q \<and> z_out s' = packet_wire P_ZRQINIT 0 q"
proof -
  let ?s = "s\<lparr>z_out := []\<rparr>"
  note so = assms(1) [unfolded snd_pre_def snd_ok_def]
  have b: "z_base ?s" "z_sending s" "z_base s" using so by (simp_all add: z_base_def flags_ok_def)
  define s1 where "s1 = z_last_message ''ZRQINIT'' (?s\<lparr>z_state := ZRQINIT\<rparr>)"
  have step1: "send_step m ?s = Inr (False, s1)" using b(1) assms(2) by (simp add: send_step_def send_state_def s1_def z_base_def)
  have b1: "z_base s1" "z_out s1 = []" "z_state s1 = ZRQINIT" using b(1) by (simp_all add: s1_def) (simp add: z_base_def flags_ok_def)
  define s2 where "s2 = s1\<lparr>z_packet := (z_packet s1)\<lparr>p_type := P_ZRQINIT, p_use_crc32 := z_use_crc32 s1 \<and> \<not> do_hex P_ZRQINIT s1, p_data_n := 0\<rparr>,
    z_out := packet_wire P_ZRQINIT 0 s1, z_state := ZRQINIT_WAIT, z_packet_buffer_n := 0\<rparr>"
  have step2: "send_step m s1 = Inr (False, s2)"
    using send_and_wait_wire [OF b1(2), of m P_ZRQINIT 0 ZRQINIT_WAIT] b1(1,3) assms(3)
    by (simp add: send_step_def send_state_def send_zrqinit_def s2_def z_base_def)
  have b2: "z_base s2" "z_state s2 = ZRQINIT_WAIT" using b1(1) by (simp_all add: s2_def z_base_def flags_ok_def)
  then have step3: "send_step m s2 = Inr (True, s2)"
    using idle_wait [OF base_timer [OF b2(1)], of ZRQINIT] by (simp add: send_step_def send_state_def send_zrqinit_wait_def z_base_def)
  have "zmodem_send m [] ?s = Some (Inr s2)"
    by (simp add: zmodem_send_step [of m ?s] zmodem_send_step [of m s1] zmodem_send_step [of m s2] step1 step2 step3)
  then have "z_feed [] m s = Some (Inr s2)"
    using b(2,3) assms base_timer [OF b2(1)] by (intro z_feed_send) (simp_all add: ZMODEM_MAX_BLOCK_SIZE_def ZMODEM_BLOCK_SIZE_def)
  moreover have "snd_pre d name mt s2"
    using so b2(1) by (simp add: snd_pre_def snd_ok_def s2_def s1_def packet_types)
  moreover have "z_out s2 = packet_wire P_ZRQINIT 0 s1" by (simp add: s2_def)
  ultimately show ?thesis using b1(1) b2(2) by blast
qed

lemma feed_opening_receiver:
  assumes "rcv_pre dir w r" "z_state r = Z_INIT" "2080 \<le> m" "length inp \<le> ZMODEM_MAX_BLOCK_SIZE"
  shows "\<exists>r' q. z_feed inp m r = Some (Inr r') \<and> rcv_pre dir w r' \<and> z_state r' = ZRINIT_WAIT \<and> z_prior_state r' = z_prior_state r \<and>
    z_base q \<and> z_out r' = packet_wire P_ZRINIT 0x23 q"
proof -
  let ?r = "r\<lparr>z_out := []\<rparr>"
  note ro = assms(1) [unfolded rcv_pre_def]
  define r1 where "r1 = ?r\<lparr>z_packet_buffer := memcpy (z_packet_buffer r) 0 inp, z_packet_buffer_n := length inp\<rparr>"
  have fill: "fill_buffer inp ?r = ([], r1)"
    using fill_empty_buffer [of ?r inp] ro assms(4) by (simp add: z_base_def r1_def)
  define r2 where "r2 = receive_start r1"
  have step1: "receive_step m r1 = Inr (False, r2)" using assms(2) by (simp add: receive_step_def r2_def) (simp add: r1_def)
  let ?opts = "(TX_CAN_FULL_DUPLEX OR TX_CAN_OVERLAP_IO) OR TX_CAN_CRC32"
  have o: "?opts = 0x23" by (simp add: tx_flags)
  define r3 where "r3 = r2\<lparr>z_flags := ?opts\<rparr>"
  have "setup_encode_byte_map ?opts = setup_encode_byte_map (z_flags r)"
    using ro setup_encode_plain [of ?opts] setup_encode_plain [of "z_flags r"] by (simp add: z_base_def o tx_flags)
  then have b3: "z_base (r3\<lparr>z_packet_buffer_n := 0\<rparr>)" "z_out r3 = []" "z_use_crc32 r2" "\<not> z_opt_escape_ctrl r2" "z_state r2 = ZRINIT" "flags_ok r3"
    using ro assms(4)
    by (simp_all add: r3_def r2_def r1_def receive_start_def reset_packet_crc_def z_base_def flags_ok_def o tx_flags z_last_message_def z_update_stats_def
        set_transfer_stats_last_message_def transfer_over_def)
  define r4 where "r4 = r3\<lparr>z_packet := (z_packet r3)\<lparr>p_type := P_ZRINIT, p_use_crc32 := z_use_crc32 r3 \<and> \<not> do_hex P_ZRINIT r3, p_data_n := 0\<rparr>,
    z_out := packet_wire P_ZRINIT 0x23 r3, z_state := ZRINIT_WAIT, z_packet_buffer_n := 0\<rparr>"
  have "(ucast ?opts :: u32) = 0x23" by (simp add: o)
  then have step2: "receive_step m r2 = Inr (False, r4)"
    using send_and_wait_wire [OF b3(2,6), of m P_ZRINIT "0x23" ZRINIT_WAIT] b3(3-5) assms(3)
    by (simp add: receive_step_def receive_zrinit_def Let_def r4_def flip: r3_def)
  have b4: "z_base r4" "z_state r4 = ZRINIT_WAIT" using b3(1) by (simp_all add: r4_def z_base_def flags_ok_def)
  have "zmodem_receive m inp ?r = Some (Inr r4)"
    unfolding zmodem_receive_filled [OF fill]
    by (simp add: zmodem_receive_step [of m r1] zmodem_receive_step [of m r2] zmodem_receive_step [of m r4] step1 step2 receive_idle_zrinit [OF b4])
  then have "z_feed inp m r = Some (Inr r4)"
    using ro assms(2,3) base_timer [OF b4(1)] by (intro z_feed_receive) (simp_all add: ZMODEM_MAX_BLOCK_SIZE_def ZMODEM_BLOCK_SIZE_def)
  moreover have "rcv_pre dir w r4" "z_prior_state r4 = z_prior_state r"
    using ro b4(1) by (simp_all add: rcv_pre_def r4_def r3_def r2_def r1_def receive_start_def reset_packet_crc_def)
  moreover have "z_out r4 = packet_wire P_ZRINIT 0x23 (r3\<lparr>z_packet_buffer_n := 0\<rparr>)"
    unfolding r4_def by simp (rule wire_cong, simp_all)
  ultimately show ?thesis using b4(2) b3(1) by blast
qed


text \<open>The data of a ZFILE packet.\<close>

definition zfile_info :: "cstring \<Rightarrow> nat \<Rightarrow> time_t \<Rightarrow> byte list" where
  "zfile_info name n mt = digits_base 10 n @ [32] @ digits_base 8 (nat mt) @ ascii '' 0 0 1 '' @ digits_base 10 n"

definition zfile_data :: "cstring \<Rightarrow> nat \<Rightarrow> time_t \<Rightarrow> byte list" where
  "zfile_data name n mt = name @ [0] @ zfile_info name n mt @ [0]"

lemma zfile_info_bytes: "0 \<notin> set (zfile_info name n mt)"
  using digits_not(1) [of 10 _ n] digits_not(1) [of 8 _ "nat mt"] by (auto simp: zfile_info_def ascii_def)

lemma zfile_info_length: "n < 2 ^ 31 \<Longrightarrow> mt < 2 ^ 63 \<Longrightarrow> length (zfile_info name n mt) \<le> 49"
proof -
  assume n: "n < 2 ^ 31" and mt: "mt < 2 ^ 63"
  have "length (digits_base 10 n) \<le> 10" using digits_length [of 10 n 9] n by simp
  moreover have "length (digits_base 8 (nat mt)) \<le> 21" using digits_length [of 8 "nat mt" 20] mt by simp
  ultimately show ?thesis by (simp add: zfile_info_def ascii_def)
qed

lemma decimal_size: "n < 2 ^ 31 \<Longrightarrow> decimal (sint (of_nat n :: u32)) = digits_base 10 n"
proof -
  assume n: "n < 2 ^ 31"
  have "sint (of_nat n :: u32) = int n"
    using sint_of_word_of_int [of "int n", where 'a = 32] n by simp
  then show ?thesis by (simp add: decimal_def)
qed

lemma send_zfile_wire:
  assumes "snd_ok d s" "z_file_name s = Some name" "z_file_modtime s = mt" "z_out s = []" "2080 \<le> m"
    and "length d < 2 ^ 31" "0 \<le> mt" "mt < 2 ^ 63" "0 \<notin> set name" "length name \<le> 254"
  shows "\<exists>s'. send_zfile m s = Inr (False, s') \<and> snd_ok d s' \<and> z_state s' = ZFILE_WAIT \<and>
    z_waiting_for_ack s' = z_waiting_for_ack s \<and> z_blocks_ack_count s' = z_blocks_ack_count s \<and>
    z_out s' = packet_wire P_ZFILE 0 s @ subpacket (z_flags s) True (zfile_data name (length d) mt) ZCRCW"
proof -
  note so = assms(1) [unfolded snd_ok_def z_base_def]
  let ?i = "zfile_info name (length d) mt"
  have li: "length ?i \<le> 49" by (rule zfile_info_length) (use assms(6,8) in simp_all)
  define s1 where "s1 = s\<lparr>z_packet := (z_packet s)\<lparr>p_type := P_ZFILE, p_use_crc32 := True, p_data_n := 0\<rparr>, z_out := packet_wire P_ZFILE 0 s\<rparr>"
  have "\<not> do_hex P_ZFILE s" using so assms(1) by (intro do_hex_base) (simp_all add: snd_ok_def)
  then have bp: "build_packet P_ZFILE 0 m s = Inr s1"
    using build_packet_wire [OF assms(4), of m P_ZFILE 0] so assms(5) by (simp add: s1_def)
  have mtmod: "mt mod 18446744073709551616 = mt" using assms(7,8) by (simp add: mod_pos_pos_trivial)
  have tx: "zfile_text name s1 = name @ [32] @ ?i"
    using so assms(3,10) li decimal_size [OF assms(6)]
    by (simp add: zfile_text_def Let_def s1_def mtmod zfile_info_def ZMODEM_MAX_BLOCK_SIZE_def ZMODEM_BLOCK_SIZE_def del: take_append)
  have cs: "c_string (zfile_text name s1) = name @ [32] @ ?i" unfolding tx using assms(9) zfile_info_bytes by (intro c_string_id) auto
  let ?p = "z_packet s1" let ?D = "zfile_data name (length d) mt"
  have nm: "z_file_name s1 = Some name" using assms(2) by (simp add: s1_def)
  have lp: "length (p_data ?p) = ZMODEM_MAX_BLOCK_SIZE" using so by (simp add: s1_def)
  have "(memcpy (p_data ?p) 0 (zfile_text name s1 @ [0]))[length name := 0] = memcpy (p_data ?p) 0 ?D"
    by (simp add: tx memcpy_def zfile_data_def)
  moreover have lD: "length ?D = length (c_string (zfile_text name s1)) + 1" unfolding cs by (simp add: zfile_data_def)
  ultimately have sz: "send_zfile m s = andthen (encode_to_output ZCRCW m (s1\<lparr>z_state := ZFILE_WAIT,
      z_packet := ?p\<lparr>p_data := memcpy (p_data ?p) 0 ?D, p_data_n := length ?D, p_use_crc32 := z_use_crc32 s1\<rparr>\<rparr>))
      (\<lambda>s2. Inr (False, s2\<lparr>z_packet_buffer_n := 0\<rparr>))"
    using bp nm assms(10) by (simp add: send_zfile_def Let_def ZMODEM_MAX_BLOCK_SIZE_def ZMODEM_BLOCK_SIZE_def)
  define s2 where "s2 = s1\<lparr>z_state := ZFILE_WAIT, z_packet := ?p\<lparr>p_data := memcpy (p_data ?p) 0 ?D, p_data_n := length ?D, p_use_crc32 := z_use_crc32 s1\<rparr>\<rparr>"
  have fits: "length (z_out s1) + 2 * length ?D + (if ZCRCW = ZCRCW then 11 else 10) \<le> m"
    using length_packet_wire [of P_ZFILE 0 s] li assms(5,10) by (simp add: s1_def zfile_data_def)
  have "encode_to_output ZCRCW m s2 = Inr (s2\<lparr>z_out := packet_wire P_ZFILE 0 s @ subpacket (z_flags s) True ?D ZCRCW\<rparr>)"
    using encode_zdata_bytes_eq [OF _ fits, of "z_crc_32_tab s" True "z_flags s"] so
    by (simp add: encode_to_output_def encode_packet_def Let_def s2_def s1_def flags_ok_def take_memcpy_0 packet_types)
  then have r: "send_zfile m s = Inr (False, s2\<lparr>z_out := packet_wire P_ZFILE 0 s @ subpacket (z_flags s) True ?D ZCRCW, z_packet_buffer_n := 0\<rparr>)"
    unfolding sz s2_def [symmetric] by simp
  have "length (memcpy (p_data ?p) 0 ?D) = ZMODEM_MAX_BLOCK_SIZE"
    using lp li assms(10) by (simp add: zfile_data_def ZMODEM_MAX_BLOCK_SIZE_def ZMODEM_BLOCK_SIZE_def)
  then have "snd_ok d (s2\<lparr>z_out := x, z_packet_buffer_n := 0\<rparr>)" for x
    using so assms(1) by (simp add: snd_ok_def z_base_def flags_ok_def s2_def packet_types) (simp add: s1_def packet_types)
  then show ?thesis using r by (simp add: s2_def s1_def)
qed


definition snd_named :: "byte list \<Rightarrow> zmodem \<Rightarrow> bool" where
  "snd_named d s \<longleftrightarrow> snd_ok d s \<and> z_state s = ZFILE_WAIT \<and> \<not> z_waiting_for_ack s \<and> z_blocks_ack_count s = 32"

lemma zrinit_flags_0x23:
  assumes "z_flags s = 0" "p_argument (z_packet s) = 0x23"
  shows "zrinit_flags s = s\<lparr>z_flags := 0x23, z_use_crc32 := True, z_encode_byte_map := setup_encode_byte_map 0x23\<rparr>"
  using assms by (simp add: zrinit_flags_def Let_def tx_flags)

lemma snd_ok_zrinit:
  assumes "snd_ok d s"
  shows "snd_ok d (s\<lparr>z_flags := 0x23, z_use_crc32 := True, z_encode_byte_map := setup_encode_byte_map 0x23\<rparr>)"
  using assms by (simp add: snd_ok_def z_base_def flags_ok_def tx_flags)

lemma snd_ok_state [simp]: "snd_ok d (s\<lparr>z_state := x\<rparr>) = snd_ok d s" "snd_ok d (s\<lparr>z_out := y\<rparr>) = snd_ok d s"
  "snd_ok d (z_last_message m s) = snd_ok d s"
  by (simp_all add: snd_ok_def z_base_def flags_ok_def)
    (simp add: z_last_message_def z_update_stats_def transfer_over_def set_transfer_stats_last_message_def)

lemma snd_ok_packet:
  assumes "snd_ok d s" "parsed t a c q" "t \<noteq> P_ZSINIT" "length buf = ZMODEM_MAX_BLOCK_SIZE"
  shows "snd_ok d (s\<lparr>z_packet := q, z_packet_buffer := buf, z_packet_buffer_n := 0\<rparr>)"
  using assms by (simp add: snd_ok_def z_base_def flags_ok_def parsed_def clear_packet_def)

lemma snd_ok_base: "snd_ok d s \<Longrightarrow> z_base s" "snd_ok d s \<Longrightarrow> z_sending s"
  by (simp_all add: snd_ok_def)

lemma feed_zrinit:
  assumes "snd_pre d name mt s" "z_state s = ZRQINIT_WAIT" "2080 \<le> m" "z_base p"
    and "length d < 2 ^ 31" "0 \<le> mt" "mt < 2 ^ 63" "0 \<notin> set name" "length name \<le> 254"
  shows "\<exists>s' q flags. z_feed (packet_wire P_ZRINIT 0x23 p) m s = Some (Inr s') \<and> snd_named d s' \<and> z_base q \<and>
    z_out s' = packet_wire P_ZFILE 0 q @ subpacket flags True (zfile_data name (length d) mt) ZCRCW"
proof -
  let ?s = "s\<lparr>z_out := []\<rparr>" let ?w = "packet_wire P_ZRINIT 0x23 p"
  have so: "snd_ok d ?s" "z_file_name s = Some name" "z_file_modtime s = mt" "\<not> z_waiting_for_ack s" "z_blocks_ack_count s = 32" "z_flags s = 0"
    "\<not> z_opt_escape_ctrl s"
    using assms(1) by (simp_all add: snd_pre_def) (simp add: snd_ok_def)
  note b = snd_ok_base [OF so(1)]
  have "P_ZRINIT \<le> P_ZCOMMAND" by (simp add: packet_types)
  then obtain s1 q buf where s1: "fill_buffer ?w ?s = ([], s1)" "scan_cans s1 = s1" "z_state s1 = z_state ?s" "z_outbound s1 = []"
      "0 < z_packet_buffer_n s1"
      "take_packet s1 = Inr (ZM_PP_OK, (packet_received P_ZRINIT q ?s)\<lparr>z_packet_buffer := buf, z_packet_buffer_n := 0\<rparr>)"
      "length buf = ZMODEM_MAX_BLOCK_SIZE" "parsed P_ZRINIT 0x23 (z_use_crc32 p \<and> \<not> do_hex P_ZRINIT p) q"
    using take_only_packet [OF b(1) _ assms(4) refl, of P_ZRINIT "0x23"] by blast
  define s2 where "s2 = ?s\<lparr>z_packet := q, z_packet_buffer := buf, z_packet_buffer_n := 0\<rparr>"
  have s2: "(packet_received P_ZRINIT q ?s)\<lparr>z_packet_buffer := buf, z_packet_buffer_n := 0\<rparr> = s2"
    by (simp add: packet_received_def has_data_def packet_types s2_def)
  have ok2: "snd_ok d s2" unfolding s2_def by (rule snd_ok_packet [OF so(1) s1(8) _ s1(7)]) (simp add: packet_types)
  have q: "p_type q = P_ZRINIT" "p_argument q = 0x23" using s1(8) by (simp_all add: parsed_def packet_types)
  let ?l = "z_last_message ''ZRINIT'' s2"
  define s3 where "s3 = (?l\<lparr>z_flags := 0x23, z_use_crc32 := True, z_encode_byte_map := setup_encode_byte_map 0x23\<rparr>)\<lparr>z_state := ZSINIT\<rparr>"
  have "zrinit_flags ?l = ?l\<lparr>z_flags := 0x23, z_use_crc32 := True, z_encode_byte_map := setup_encode_byte_map 0x23\<rparr>"
    using so(6) q(2) by (intro zrinit_flags_0x23) (simp_all add: s2_def)
  then have "zrqinit_packet m s2 = Inr (False, s3)"
    using q(1) by (simp add: zrqinit_packet_def Let_def s3_def) (simp add: s2_def)
  then have step1: "send_step m s1 = Inr (False, s3)"
    using s1(2-6) assms(2) s2 by (simp add: send_step_def send_state_def send_zrqinit_wait_def wait_packet_def)
  have ok3: "snd_ok d s3" using snd_ok_zrinit [of d ?l] ok2 by (simp add: s3_def)
  define s4 where "s4 = (z_last_message ''ZFILE'' s3)\<lparr>z_state := ZFILE, z_packet_buffer_n := 0\<rparr>"
  have n3: "z_packet_buffer_n s3 = 0" using snd_ok_base(1) [OF ok3] by (simp add: z_base_def)
  have step2: "send_step m s3 = Inr (False, s4)"
    using snd_ok_base(1) [OF ok3] so(7)
    by (simp add: send_step_def send_state_def z_base_def) (simp add: s3_def s4_def send_zsinit_def s2_def)
  have "(z_last_message ''ZFILE'' s3)\<lparr>z_packet_buffer_n := 0\<rparr> = z_last_message ''ZFILE'' s3"
    using n3 by (cases s3) (simp add: z_last_message_def z_update_stats_def)
  then have "s4 = (z_last_message ''ZFILE'' s3)\<lparr>z_state := ZFILE\<rparr>"
    unfolding s4_def by (metis (no_types, lifting) zmodem.surjective zmodem.update_convs(1) zmodem.update_convs(30))
  then have ok4: "snd_ok d s4" using ok3 by simp
  have sel4: "z_file_name s4 = Some name" "z_file_modtime s4 = mt" "z_out s4 = []" "z_state s4 = ZFILE"
    "\<not> z_waiting_for_ack s4" "z_blocks_ack_count s4 = 32"
    using so by (simp_all add: s4_def s3_def s2_def)
  obtain s5 where s5: "send_zfile m s4 = Inr (False, s5)" "snd_ok d s5" "z_state s5 = ZFILE_WAIT"
      "z_waiting_for_ack s5 = z_waiting_for_ack s4" "z_blocks_ack_count s5 = z_blocks_ack_count s4"
      "z_out s5 = packet_wire P_ZFILE 0 s4 @ subpacket (z_flags s4) True (zfile_data name (length d) mt) ZCRCW"
    using send_zfile_wire [OF ok4 sel4(1-3) assms(3,5-9)] by blast
  have step3: "send_step m s4 = Inr (False, s5)"
    using snd_ok_base(1) [OF ok4] sel4(4) s5(1) by (simp add: send_step_def send_state_def z_base_def)
  note b5 = snd_ok_base [OF s5(2)]
  have step4: "send_step m s5 = Inr (True, s5)"
    using b5(1) s5(3) idle_wait [OF base_timer [OF b5(1)], of ZFILE] by (simp add: send_step_def send_state_def send_zfile_wait_def z_base_def)
  have "zmodem_send m ?w ?s = Some (Inr s5)"
    unfolding zmodem_send_filled [OF s1(1)]
    by (simp add: zmodem_send_step [of m s1] zmodem_send_step [of m s3] zmodem_send_step [of m s4] zmodem_send_step [of m s5] step1 step2 step3 step4)
  then have "z_feed ?w m s = Some (Inr s5)"
    using snd_pre_base [OF assms(1)] assms(2,3) base_timer [OF b5(1)]
    by (intro z_feed_send) (simp_all add: ZMODEM_MAX_BLOCK_SIZE_def ZMODEM_BLOCK_SIZE_def)
  moreover have "snd_named d s5" using s5 sel4 by (simp add: snd_named_def)
  ultimately show ?thesis using s5(6) snd_ok_base(1) [OF ok4] by blast
qed

section \<open>The name of the file arrives\<close>

lemma scan_ulong_blank: "scan_ulong b (32 # xs) = scan_ulong b xs"
  by (simp add: scan_ulong_def is_space_def)

lemma scan_ulong_digits:
  assumes "2 \<le> b" "b \<le> 10" "k < 2 ^ 64"
  shows "scan_ulong b (digits_base b k @ 32 # xs) = Some (of_nat k, 32 # xs)"
proof -
  let ?d = "digits_base b k"
  obtain c cs where d: "?d = c # cs" by (rule digits_Cons)
  have c: "\<not> is_space c" "c \<noteq> 45" "c \<noteq> 43" using digits_not [OF assms(1,2), of c k] by (simp_all add: d)
  have tw: "takeWhile (\<lambda>c. 48 \<le> unat c \<and> unat c < 48 + b) (?d @ 32 # xs) = ?d"
    using digits_base_lt [OF assms(1,2)] by (subst takeWhile_append2) auto
  have "read_base b 0 ?d = k" using read_base_digits [OF assms(1,2), of 0 k "[]"] by simp
  then show ?thesis
    using c tw assms(3) by (simp add: scan_ulong_def Let_def d [THEN arg_cong, of "\<lambda>x. x @ 32 # xs", simplified])
qed

lemma scan_zfile_info:
  assumes "n < 2 ^ 31" "0 \<le> mt" "mt < 2 ^ 63"
  shows "scan_zfile (zfile_info name n mt) s = s\<lparr>z_file_size := of_nat n, z_file_modtime := mt\<rparr>"
proof -
  let ?t = "ascii ''0 0 1 '' @ digits_base 10 n"
  have i: "zfile_info name n mt = digits_base 10 n @ 32 # digits_base 8 (nat mt) @ 32 # ?t"
    by (simp add: zfile_info_def ascii_def)
  have "sint (of_nat (nat mt) :: ulong) = mt"
    using sint_of_word_of_int [of mt, where 'a = 64] assms(2,3) by (simp add: of_nat_nat)
  moreover have "(ucast (of_nat n :: ulong) :: u32) = of_nat n"
    using assms(1) by (simp add: unsigned_of_nat take_bit_nat_eq_self)
  ultimately show ?thesis
    using scan_ulong_digits [of 10 n "digits_base 8 (nat mt) @ 32 # ?t"] scan_ulong_digits [of 8 "nat mt" ?t] assms
    by (simp add: scan_zfile_def i scan_ulong_blank Let_def)
qed

lemma c_string_field: "0 \<notin> set w \<Longrightarrow> c_string (w @ 0 # xs) = w"
  by (induction w) (auto simp: c_string_def)

lemma receive_zfile_new:
  assumes "p_data (z_packet s) = zfile_data name n mt @ xs" "z_download_path s = Some dir" "0 \<notin> set name"
    and "n < 2 ^ 31" "0 \<le> mt" "mt < 2 ^ 63" "path = dir @ [slash] @ name" "length path < FULLNAME_SIZE"
    and "\<not> stat_denied (z_world s) path" "files (z_world s) path = None" "may_open (z_world s) path"
    and "z_base s" "\<not> z_sending s" "length d \<le> space (z_world s)"
  shows "\<exists>s'. receive_zfile s = Inr (False, s') \<and> z_base s' \<and> \<not> z_sending s' \<and> z_state s' = ZRPOS \<and> rcv_stream d 0 s' \<and>
    z_file_fullname s' = path \<and> z_file_modtime s' = mt \<and> z_out s' = z_out s"
proof -
  have nm: "c_string (p_data (z_packet s)) = name"
    using c_string_field [OF assms(3)] by (simp add: assms(1) zfile_data_def)
  have info: "c_string (drop (length name + 1) (p_data (z_packet s))) = zfile_info name n mt"
    using c_string_field [OF zfile_info_bytes] by (simp add: assms(1) zfile_data_def)
  define s1 where "s1 = s\<lparr>z_file_name := Some name, z_file_size := of_nat n, z_file_modtime := mt, z_file_fullname := path\<rparr>"
  define s2 where "s2 = (z_last_message ''ZRPOS'' (s1\<lparr>z_file_position := 0\<rparr>))\<lparr>z_state := ZRPOS\<rparr>"
  have "zfile_existing s1 = Some (False, False, s2)"
    using assms(9,10) by (simp add: zfile_existing_def stat_def stat_size_def s1_def s2_def)
  then have r: "receive_zfile s = zfile_open False s2"
    using assms(2,7,8) nm info scan_zfile_info [OF assms(4-6)]
    by (simp add: receive_zfile_def Let_def z_full_path_def set_fullname_def flip: s1_def) (simp add: s1_def)
  let ?f = "\<lparr>s_path = path, s_data = [], s_pos = 0, s_eof = False, s_err = False, s_write = True\<rparr>"
  let ?w = "(z_world s)\<lparr>files := (files (z_world s))(path \<mapsto> ([], now (z_world s)))\<rparr>"
  define s3 where "s3 = z_stats_new_file path (sint (of_nat n :: u32)) (s2\<lparr>z_file_stream := Some ?f, z_world := ?w\<rparr>)"
  have "open_download False s2 = Some s3"
    using assms(11) by (simp add: open_download_def s2_def s1_def s3_def fopen_wb_def fseek_end_def)
  then have "receive_zfile s = Inr (False, z_update_stats (\<lambda>t. t\<lparr>t_bytes_transfer := of_nat (z_file_position s3)\<rparr>) s3)"
    unfolding r by (simp add: zfile_open_def)
  then show ?thesis
    using assms(12-14)
    by (simp add: s3_def s2_def s1_def z_stats_new_file_def z_base_def flags_ok_def rcv_stream_def transfer_over_def Let_def
      z_last_message_def z_update_stats_def set_transfer_stats_last_message_def set_transfer_stats_pathname_def set_transfer_stats_filename_def)
qed


lemma receive_zfile_data:
  assumes "ready_for_data r" "buffered (subpacket flags True D ZCRCW) r" "p_use_crc32 (z_packet r)" "p_type (z_packet r) = P_ZFILE"
    and "z_prior_state r = ZRINIT_WAIT" "z_state r = ZDATA" "table_from 0 (z_crc_32_tab r)" "length D < 1024"
  shows "receive_step m r = Inr (False, (data_taken D ZCRCW (zdata_crc (makecrc (replicate 256 0)) True D ZCRCW) [] r)\<lparr>z_state := ZFILE\<rparr>)"
proof -
  let ?crc = "zdata_crc (makecrc (replicate 256 0)) True D ZCRCW" let ?q = "data_taken D ZCRCW ?crc [] r"
  have "length D < ZMODEM_MAX_BLOCK_SIZE" "length ?crc = 4" "crc_escape ZCRCW"
    using assms(8) by (simp_all add: length_zdata_crc ZMODEM_MAX_BLOCK_SIZE_def ZMODEM_BLOCK_SIZE_def crc_escape_def)
  then have "receive_zdata m r = data_accepted m True True ?q"
    using receive_subframe [OF assms(1) _ \<open>crc_escape ZCRCW\<close>, of flags D ?crc "[]" m] assms(2,3)
    by (simp add: subpacket_def data_crc_zdata [OF assms(7)])
  moreover have "p_type (z_packet ?q) = P_ZFILE" using assms(4) by (simp add: data_taken_def data_packet_def Let_def)
  ultimately show ?thesis
    using assms(5,6) by (simp add: receive_step_def data_accepted_def data_next_state_def)
qed

lemma feed_zfile:
  assumes "rcv_pre dir w r" "z_state r = ZRINIT_WAIT" "z_base p" "2080 \<le> m"
    and "n < 2 ^ 31" "0 \<le> mt" "mt < 2 ^ 63" "0 \<notin> set name" "path = dir @ [slash] @ name" "length path < FULLNAME_SIZE"
    and "\<not> stat_denied w path" "files w path = None" "may_open w path" "length d \<le> space w"
  shows "\<exists>r' q. z_feed (packet_wire P_ZFILE 0 p @ subpacket flags True (zfile_data name n mt) ZCRCW) m r = Some (Inr r') \<and>
    rcv_pos d 0 r' \<and> z_file_fullname r' = path \<and> z_file_modtime r' = mt \<and> z_base q \<and> z_out r' = packet_wire P_ZRPOS 0 q"
proof -
  let ?D = "zfile_data name n mt" let ?w = "subpacket flags True ?D ZCRCW" let ?r = "r\<lparr>z_out := []\<rparr>"
  note ro = assms(1) [unfolded rcv_pre_def]
  have b: "z_base ?r" using ro by (simp add: z_base_def flags_ok_def)
  have lD: "length ?D < 1024"
    using zfile_info_length [OF assms(5,7), of name] assms(9,10) by (simp add: zfile_data_def FULLNAME_SIZE_def)
  have lw: "length ?w \<le> ZMODEM_MAX_BLOCK_SIZE" using lD by (intro length_chunk_subpacket) simp_all
  have "P_ZFILE \<le> P_ZCOMMAND" and hd: "has_data P_ZFILE" by (simp_all add: packet_types has_data_def)
  then obtain r1 w1 w2 q buf where r1: "fill_buffer (packet_wire P_ZFILE 0 p @ ?w) ?r = (w2, r1)" "z_state r1 = z_state ?r" "0 < z_packet_buffer_n r1"
      "take_packet r1 = Inr (ZM_PP_OK, (packet_received P_ZFILE q ?r)\<lparr>z_packet_buffer := buf, z_packet_buffer_n := length w1\<rparr>)"
      "?w = w1 @ w2" "length buf = ZMODEM_MAX_BLOCK_SIZE" "take (length w1) buf = w1" "parsed P_ZFILE 0 (z_use_crc32 p \<and> \<not> do_hex P_ZFILE p) q"
    using header_arrives [OF b assms(3), of P_ZFILE 0 ?w] by blast
  have uq: "z_use_crc32 p \<and> \<not> do_hex P_ZFILE p" using assms(3) do_hex_base [OF assms(3), of P_ZFILE] by (simp add: z_base_def)
  let ?r2 = "(packet_received P_ZFILE q ?r)\<lparr>z_packet_buffer := buf, z_packet_buffer_n := length w1\<rparr>"
  define r3 where "r3 = enter_data ZRINIT_WAIT (z_last_message ''ZFILE'' ?r2)"
  have "zrinit_packet m ?r2 = Inr (False, r3)"
    using r1(8) by (simp add: zrinit_packet_def parsed_def packet_received_def packet_types r3_def)
  then have step1: "receive_step m r1 = Inr (False, r3)"
    using r1(2-4) assms(2) by (simp add: receive_step_def receive_zrinit_wait_def wait_packet_def)
  have "buffered w1 r3" "length (z_packet_buffer r3) = ZMODEM_MAX_BLOCK_SIZE"
    using r1(6,7) by (simp_all add: buffered_def r3_def enter_data_def)
  then obtain buf' where f: "fill_buffer w2 r3 = ([], r3\<lparr>z_packet_buffer := buf', z_packet_buffer_n := length ?w\<rparr>)"
      "length buf' = ZMODEM_MAX_BLOCK_SIZE" "take (length ?w) buf' = ?w"
    using refill [of w1 r3 w2] lw unfolding r1(5) by blast
  define r4 where "r4 = r3\<lparr>z_packet_buffer := buf', z_packet_buffer_n := length ?w\<rparr>"
  have r4: "ready_for_data r4" "p_use_crc32 (z_packet r4)" "p_type (z_packet r4) = P_ZFILE" "z_prior_state r4 = ZRINIT_WAIT" "z_state r4 = ZDATA"
      "z_base (r4\<lparr>z_packet_buffer_n := 0\<rparr>)" "z_out r4 = []" "z_download_path r4 = Some dir" "z_world r4 = w" "\<not> z_sending r4"
      "p_data (z_packet r4) = p_data clear_packet"
    using ro r1(6,8) uq f(2)
    by (simp_all add: r4_def r3_def enter_data_def packet_received_def hd ready_for_data_def parsed_def begin_data_def clear_packet_def z_base_def flags_ok_def)
      (simp add: transfer_over_def z_last_message_def z_update_stats_def set_transfer_stats_last_message_def)
  have tab: "table_from 0 (z_crc_32_tab r4)" using r4(6) by (simp add: z_base_def)
  have "buffered ?w r4" using f(3) by (simp add: buffered_def r4_def)
  then have step2: "receive_step m r4 = Inr (False, (data_taken ?D ZCRCW (zdata_crc (makecrc (replicate 256 0)) True ?D ZCRCW) [] r4)\<lparr>z_state := ZFILE\<rparr>)"
    using receive_zfile_data [OF r4(1) _ r4(2-5) tab lD] by blast
  define r5 where "r5 = (data_taken ?D ZCRCW (zdata_crc (makecrc (replicate 256 0)) True ?D ZCRCW) [] r4)\<lparr>z_state := ZFILE\<rparr>"
  have "p_data (z_packet r5) = (memcpy (p_data clear_packet) 0 ?D)[length ?D := ZCRCW]"
    using r4(11) by (simp add: r5_def data_taken_def data_packet_def Let_def)
  then have d5: "\<exists>xs. p_data (z_packet r5) = ?D @ xs" by (simp add: memcpy_def list_update_append)
  have r5: "z_base r5" "z_download_path r5 = Some dir" "z_world r5 = w" "\<not> z_sending r5" "z_out r5 = []" "z_state r5 = ZFILE"
    using r4 f(2) by (simp_all add: r5_def data_taken_def z_base_def flags_ok_def)
  obtain r6 where r6: "receive_zfile r5 = Inr (False, r6)" "z_base r6" "\<not> z_sending r6" "z_state r6 = ZRPOS" "rcv_stream d 0 r6"
      "z_file_fullname r6 = path" "z_file_modtime r6 = mt" "z_out r6 = []"
    using d5 receive_zfile_new [OF _ r5(2) assms(8,5-7,9,10) _ _ _ r5(1,4), of _ d] r5(3,5) assms(11-14) by auto
  have step3: "receive_step m r5 = Inr (False, r6)" using r5(6) r6(1) by (simp add: receive_step_def)
  define r7 where "r7 = r6\<lparr>z_packet := (z_packet r6)\<lparr>p_type := P_ZRPOS, p_use_crc32 := z_use_crc32 r6 \<and> \<not> do_hex P_ZRPOS r6, p_data_n := 0\<rparr>,
    z_out := packet_wire P_ZRPOS 0 r6, z_state := ZRPOS_WAIT, z_packet_buffer_n := 0\<rparr>"
  have "z_file_position r6 = 0" "flags_ok r6" using r6(2,5) by (simp_all add: rcv_stream_def z_base_def)
  then have step4: "receive_step m r6 = Inr (False, r7)"
    using send_and_wait_wire [OF r6(8), of m P_ZRPOS 0 ZRPOS_WAIT] r6(4) assms(4) by (simp add: receive_step_def receive_zrpos_def r7_def)
  have pos: "rcv_pos d 0 r7" using r6 by (simp add: rcv_pos_def r7_def rcv_stream_def z_base_def flags_ok_def)
  then have b7: "z_base r7" "z_state r7 = ZRPOS_WAIT" by (simp_all add: rcv_pos_def)
  then have step5: "receive_step m r7 = Inr (True, r7)"
    using idle_wait [OF base_timer [OF b7(1)], of ZRPOS] by (simp add: receive_step_def receive_zrpos_wait_def z_base_def)
  have "zmodem_receive m (packet_wire P_ZFILE 0 p @ ?w) ?r = Some (Inr r7)"
    unfolding zmodem_receive_next [OF r1(1) step1] zmodem_receive_filled [OF f(1)] r4_def [symmetric]
    by (simp add: zmodem_receive_step [of m r4] zmodem_receive_step [of m r5] zmodem_receive_step [of m r6] zmodem_receive_step [of m r7]
        step2 [folded r5_def] step3 step4 step5)
  then have "z_feed (packet_wire P_ZFILE 0 p @ ?w) m r = Some (Inr r7)"
    using ro assms(2,4) base_timer [OF b7(1)] by (intro z_feed_receive) (simp_all add: ZMODEM_MAX_BLOCK_SIZE_def ZMODEM_BLOCK_SIZE_def)
  moreover have "z_out r7 = packet_wire P_ZRPOS 0 r6" "z_file_fullname r7 = path" "z_file_modtime r7 = mt" using r6(6,7) by (simp_all add: r7_def)
  ultimately show ?thesis using pos r6(2) by blast
qed

lemma feed_zrpos:
  assumes "snd_named d s" "z_base p" "2080 \<le> m" "length d < 2 ^ 32"
  shows "\<exists>s' q a flags. z_feed (packet_wire P_ZRPOS 0 p) m s = Some (Inr s') \<and> z_base q \<and>
    z_out s' = packet_wire P_ZDATA a q @ subpacket flags True (chunk d 0) (chunk_type d 0) \<and>
    (if chunk_type d 0 = ZCRCG then snd_data d (Suc 0) s' else snd_wait d (Suc 0) s')"
proof -
  let ?s = "s\<lparr>z_out := []\<rparr>" let ?w = "packet_wire P_ZRPOS 0 p"
  have so: "snd_ok d ?s" "z_state s = ZFILE_WAIT" "\<not> z_waiting_for_ack s" "z_blocks_ack_count s = 32"
    using assms(1) by (simp_all add: snd_named_def)
  note b = snd_ok_base [OF so(1)]
  have "P_ZRPOS \<le> P_ZCOMMAND" by (simp add: packet_types)
  then obtain s1 q buf where s1: "fill_buffer ?w ?s = ([], s1)" "scan_cans s1 = s1" "z_state s1 = z_state ?s" "z_outbound s1 = []"
      "0 < z_packet_buffer_n s1"
      "take_packet s1 = Inr (ZM_PP_OK, (packet_received P_ZRPOS q ?s)\<lparr>z_packet_buffer := buf, z_packet_buffer_n := 0\<rparr>)"
      "length buf = ZMODEM_MAX_BLOCK_SIZE" "parsed P_ZRPOS 0 (z_use_crc32 p \<and> \<not> do_hex P_ZRPOS p) q"
    using take_only_packet [OF b(1) _ assms(2) refl, of P_ZRPOS 0] by blast
  define s2 where "s2 = ?s\<lparr>z_packet := q, z_packet_buffer := buf, z_packet_buffer_n := 0\<rparr>"
  have s2: "(packet_received P_ZRPOS q ?s)\<lparr>z_packet_buffer := buf, z_packet_buffer_n := 0\<rparr> = s2"
    by (simp add: packet_received_def has_data_def packet_types s2_def)
  have ok2: "snd_ok d s2" unfolding s2_def by (rule snd_ok_packet [OF so(1) s1(8) _ s1(7)]) (simp add: packet_types)
  then obtain f where f: "z_file_stream s2 = Some f" "snd_stream d (z_world s2) f" by (auto simp: snd_ok_def)
  define s3 where "s3 = (z_last_message ''ZRPOS'' s2)\<lparr>z_file_position := 0, z_file_stream := Some (fseek_set 0 f)\<rparr>"
  let ?a = "big_to_little_endian (of_nat 0)"
  have sk: "seek_file 0 (z_last_message ''ZRPOS'' s2) = Inr s3" using f(1) by (simp add: seek_file_def s3_def)
  have b3: "z_base s3" "z_out s3 = []" "flags_ok s3"
    using snd_ok_base(1) [OF ok2] by (simp_all add: s3_def z_base_def flags_ok_def transfer_over_def) (simp add: s2_def)
  define s4 where "s4 = s3\<lparr>z_packet := (z_packet s3)\<lparr>p_type := P_ZDATA, p_use_crc32 := z_use_crc32 s3 \<and> \<not> do_hex P_ZDATA s3, p_data_n := 0\<rparr>,
    z_out := packet_wire P_ZDATA ?a s3, z_prior_state := ZFILE_WAIT, z_state := ZDATA, z_ack_required := False\<rparr>"
  have bz: "build_zdata m s3 = Inr (s3\<lparr>z_packet := (z_packet s3)\<lparr>p_type := P_ZDATA, p_use_crc32 := z_use_crc32 s3 \<and> \<not> do_hex P_ZDATA s3, p_data_n := 0\<rparr>,
      z_out := packet_wire P_ZDATA ?a s3\<rparr>)"
    using build_packet_wire [OF b3(2,3), of m P_ZDATA ?a] assms(3) unfolding build_zdata_def by (simp add: s3_def)
  have "p_type q = P_ZRPOS" "p_argument q = 0" using s1(8) by (simp_all add: parsed_def packet_types)
  then have "zfile_packet m s2 = Inr (False, s4)"
    using sk bz by (simp add: zfile_packet_def Let_def s4_def) (simp add: s2_def)
  then have step1: "send_step m s1 = Inr (False, s4)"
    using s1(2-6) so(2) s2 by (simp add: send_step_def send_state_def send_zfile_wait_def wait_packet_def)
  have ok4: "snd_ok d s4"
    using ok2 b3(1) f by (simp add: snd_ok_def s4_def z_base_def flags_ok_def packet_types) (simp add: s3_def snd_stream_def fseek_set_def)
  have d4: "snd_data d 0 s4"
    using ok4 so(3,4) by (simp add: snd_data_def snd_at_def) (simp add: s4_def s3_def s2_def fseek_set_def)
  have o4: "z_out s4 = packet_wire P_ZDATA ?a s3" by (simp add: s4_def)
  obtain s' where s': "z_send_block m s4 = Inr (True, s')" "z_out s' = z_out s4 @ subpacket (z_flags s4) True (chunk d 0) (chunk_type d 0)"
      "if chunk_type d 0 = ZCRCG then snd_data d (Suc 0) s' else snd_wait d (Suc 0) s'"
    using send_block_step [OF d4, of m] assms(3,4) o4 length_packet_wire [of P_ZDATA ?a s3] by auto
  have step2: "send_step m s4 = Inr (True, s')"
    using s'(1) send_data_fresh [OF d4, of m] snd_ok_base(1) [OF ok4] d4 by (simp add: send_step_def send_state_def z_base_def snd_data_def)
  have "zmodem_send m ?w ?s = Some (Inr s')"
    unfolding zmodem_send_filled [OF s1(1)] by (simp add: zmodem_send_step [of m s1] zmodem_send_step [of m s4] step1 step2)
  moreover have "z_base s'" using s'(3) snd_inv_base by (metis (full_types))
  moreover have "z_base s" "z_sending s" using assms(1) by (simp_all add: snd_named_def snd_ok_def)
  ultimately have "z_feed ?w m s = Some (Inr s')"
    using so(2) assms(3) base_timer [of s'] by (intro z_feed_send) (simp_all add: ZMODEM_MAX_BLOCK_SIZE_def ZMODEM_BLOCK_SIZE_def)
  then show ?thesis using s'(2,3) b3(1) o4 by metis
qed

section \<open>The whole session\<close>

lemma z_lockstep_round:
  assumes "z_feed (z_out r) m s = Some (Inr s')" "z_feed (z_out s') m r = Some (Inr r')"
  shows "z_lockstep m (Suc k) (s, r) = z_lockstep m k (s', r')"
  using assms by simp

definition session_over :: "cstring \<Rightarrow> byte list \<Rightarrow> time_t \<Rightarrow> zmodem \<times> zmodem \<Rightarrow> bool" where
  "session_over path d mt sr \<longleftrightarrow>
     t_state (z_stats (fst sr)) = Q_TRANSFER_STATE_END \<and> t_error_count (z_stats (fst sr)) = 0 \<and>
     t_state (z_stats (snd sr)) = Q_TRANSFER_STATE_END \<and> t_error_count (z_stats (snd sr)) = 0 \<and>
     files (z_world (snd sr)) path = Some (d, mt)"

lemma closing_rounds:
  assumes "snd_wait d k s" "rcv_round d (length d) ZCRCW r" "length d < 2 ^ 32" "2080 \<le> m"
  shows "\<exists>sr. z_lockstep m 3 (s, r) = Some (Inr sr) \<and> session_over (z_file_fullname r) d (z_file_modtime r) sr"
proof -
  have ne: "ZCRCW \<noteq> ZCRCG" by (simp add: zcrc_bytes)
  have r: "rcv_pos d (length d) r" using assms(2) by (simp add: rcv_round_def)
  obtain p where p: "z_base p" "z_out r = packet_wire P_ZACK (big_to_little_endian (of_nat (length d))) p"
    using assms(2) ne by (auto simp: rcv_round_def)
  obtain s1 p1 where 1: "z_feed (z_out r) m s = Some (Inr s1)" "z_out s1 = packet_wire P_ZEOF (of_nat (length d)) p1" "z_base p1" "snd_eof d s1"
    using feed_zack_last [OF assms(1,3,4) p(1)] p(2) by auto
  obtain r1 q1 where r1: "z_feed (z_out s1) m r = Some (Inr r1)" "z_base r1" "z_state r1 = ZRINIT_WAIT" "zfile_saved d r r1" "z_base q1"
      "z_out r1 = packet_wire P_ZRINIT 0 q1"
    using feed_zeof [OF r 1(3) assms(3,4)] 1(2) by auto
  obtain s2 p2 where 2: "z_feed (z_out r1) m s1 = Some (Inr s2)" "z_base s2" "z_sending s2" "z_state s2 = ZFIN_WAIT" "z_file_stream s2 = None"
      "z_base p2" "z_out s2 = packet_wire P_ZFIN 0 p2"
    using feed_zrinit_again [OF 1(4) r1(5) assms(4)] r1(6) by auto
  obtain r2 q2 where r2: "z_feed (z_out s2) m r1 = Some (Inr r2)" "t_state (z_stats r2) = Q_TRANSFER_STATE_END" "t_error_count (z_stats r2) = 0"
      "z_world r2 = z_world r1" "z_base q2" "z_out r2 = packet_wire P_ZFIN 0 q2"
    using feed_zfin_receiver [OF r1(2) _ r1(3) _ 2(6) assms(4)] r1(4) 2(7) by (auto simp: zfile_saved_def)
  obtain s3 where 3: "z_feed (z_out r2) m s2 = Some (Inr s3)" "t_state (z_stats s3) = Q_TRANSFER_STATE_END" "t_error_count (z_stats s3) = 0"
    using feed_zfin_sender [OF 2(2-5) r2(5) assms(4)] r2(6) by auto
  have "z_feed inp m r2 = Some (Inr (r2\<lparr>z_out := []\<rparr>))" for inp
    using r2(2) by (simp add: z_feed_def z_protocol_process_data_def transfer_over_def)
  then have "z_lockstep m 3 (s, r) = Some (Inr (s3, r2\<lparr>z_out := []\<rparr>))"
    by (simp add: numeral_3_eq_3 1(1) r1(1) 2(1) r2(1) 3(1))
  then show ?thesis using 3 r2 r1(4) by (auto simp: session_over_def zfile_saved_def)
qed

lemma opening_rounds:
  assumes "snd_pre d name mt s" "z_state s = Z_INIT" "rcv_pre dir w r" "z_state r = Z_INIT" "z_out r = []" "2080 \<le> m"
    and "length d < 2 ^ 31" "0 \<le> mt" "mt < 2 ^ 63" "0 \<notin> set name"
    and "path = dir @ [slash] @ name" "length path < FULLNAME_SIZE"
    and "\<not> stat_denied w path" "files w path = None" "may_open w path" "length d \<le> space w"
  shows "\<exists>s' r'. z_lockstep m 3 (s, r) = Some (Inr (s', r')) \<and> data_state d 0 (s', r') \<and>
     z_file_fullname r' = path \<and> z_file_modtime r' = mt"
proof -
  have nm: "length name \<le> 254" and d32: "length d < 2 ^ 32" using assms(7,11,12) by (simp_all add: FULLNAME_SIZE_def)
  obtain s1 p1 where 1: "z_feed (z_out r) m s = Some (Inr s1)" "snd_pre d name mt s1" "z_state s1 = ZRQINIT_WAIT" "z_base p1"
      "z_out s1 = packet_wire P_ZRQINIT 0 p1"
    using feed_opening [OF assms(1,2,6)] assms(5) by auto
  obtain r1 q1 where r1: "z_feed (z_out s1) m r = Some (Inr r1)" "rcv_pre dir w r1" "z_state r1 = ZRINIT_WAIT" "z_base q1"
      "z_out r1 = packet_wire P_ZRINIT 0x23 q1"
    using feed_opening_receiver [OF assms(3,4,6), of "z_out s1"] packet_wire_fits(1) [of P_ZRQINIT 0 p1] 1(5) by auto
  obtain s2 p2 fl2 where 2: "z_feed (z_out r1) m s1 = Some (Inr s2)" "snd_named d s2" "z_base p2"
      "z_out s2 = packet_wire P_ZFILE 0 p2 @ subpacket fl2 True (zfile_data name (length d) mt) ZCRCW"
    using feed_zrinit [OF 1(2,3) assms(6) r1(4) assms(7-10) nm] r1(5) by auto
  obtain r2 q2 where r2: "z_feed (z_out s2) m r1 = Some (Inr r2)" "rcv_pos d 0 r2" "z_file_fullname r2 = path" "z_file_modtime r2 = mt"
      "z_base q2" "z_out r2 = packet_wire P_ZRPOS 0 q2"
    using feed_zfile [OF r1(2,3) 2(3) assms(6,7-16), of fl2] 2(4) by auto
  obtain s3 p3 a3 fl3 where 3: "z_feed (z_out r2) m s2 = Some (Inr s3)" "z_base p3"
      "z_out s3 = packet_wire P_ZDATA a3 p3 @ subpacket fl3 True (chunk d 0) (chunk_type d 0)"
      "if chunk_type d 0 = ZCRCG then snd_data d (Suc 0) s3 else snd_wait d (Suc 0) s3"
    using feed_zrpos [OF 2(2) r2(5) assms(6) d32] r2(6) by auto
  obtain r3 where r3: "z_feed (z_out s3) m r2 = Some (Inr r3)" "rcv_round d (length (chunk d 0)) (chunk_type d 0) r3" "z_frame r2 r3"
    using feed_first_chunk [OF r2(2) 3(2) chunk_type_cases(1,2) [of d 0] _ chunk_type_cases(4) [of d 0] _ assms(6), of a3 fl3]
      chunk_type_cases(3,5) [of d 0] 3(3) by auto
  have "data_state d 0 (s3, r3)" using 3(4) r3(2) by (simp add: data_state_def)
  moreover have "z_lockstep m 3 (s, r) = Some (Inr (s3, r3))"
    unfolding numeral_3_eq_3 z_lockstep_round [OF 1(1) r1(1)] z_lockstep_round [OF 2(1) r2(1)] z_lockstep_round [OF 3(1) r3(1)] by simp
  ultimately show ?thesis using r2(3,4) r3(3) by (auto simp: z_frame_def)
qed

lemma session_delivers:
  assumes "snd_pre d name mt s" "z_state s = Z_INIT" "rcv_pre dir w r" "z_state r = Z_INIT" "z_out r = []" "2080 \<le> m"
    and "length d < 2 ^ 31" "0 \<le> mt" "mt < 2 ^ 63" "0 \<notin> set name"
    and "path = dir @ [slash] @ name" "length path < FULLNAME_SIZE"
    and "\<not> stat_denied w path" "files w path = None" "may_open w path" "length d \<le> space w"
    and "\<not> (d \<noteq> [] \<and> 32768 dvd length d)"
  shows "\<exists>sr. z_lockstep m (length d div 1024 + 6) (s, r) = Some (Inr sr) \<and> session_over path d mt sr"
proof -
  have d32: "length d < 2 ^ 32" using assms(7) by simp
  obtain s3 r3 where 3: "z_lockstep m 3 (s, r) = Some (Inr (s3, r3))" "data_state d 0 (s3, r3)"
      "z_file_fullname r3 = path" "z_file_modtime r3 = mt"
    using opening_rounds [OF assms(1-16)] by blast
  obtain s4 r4 where 4: "z_lockstep m (length d div 1024) (s3, r3) = Some (Inr (s4, r4))" "data_state d (length d div 1024) (s4, r4)" "z_frame r3 r4"
    using data_rounds [OF 3(2) d32 assms(6), of "length d div 1024"] assms(17) by auto
  have lc: "length (chunk d (length d div 1024)) = length d mod 1024" by (simp add: chunk_def minus_mult_div_eq_mod)
  then have W: "chunk_type d (length d div 1024) = ZCRCW" using chunk_type_cases(3) [of d "length d div 1024"] by simp
  have ne: "ZCRCW \<noteq> ZCRCG" by (simp add: zcrc_bytes)
  have e: "snd_wait d (Suc (length d div 1024)) s4" "rcv_round d (length d) ZCRCW r4"
    using 4(2) unfolding data_state_def W lc mult_div_mod_eq by (simp_all add: ne)
  have fr: "z_file_fullname r4 = path" "z_file_modtime r4 = mt" using 3(3,4) 4(3) by (simp_all add: z_frame_def)
  have n6: "length d div 1024 + 6 = 3 + (length d div 1024 + 3)" by simp
  have "z_lockstep m (length d div 1024 + 6) (s, r) = z_lockstep m 3 (s4, r4)"
    unfolding n6 z_lockstep_add [OF 3(1)] z_lockstep_add [OF 4(1)] by (rule refl)
  then show ?thesis using closing_rounds [OF e d32 assms(6)] fr by simp
qed

section \<open>A session that stalls\<close>

context escape_map
begin

lemma crc_escape_absent_esc: "crc_escape_present (esc b @ rest) = crc_escape_present rest"
  using plain [of b] escaped [of b] no_can [of b] by (cases rest) (auto simp: esc_def)

lemma crc_escape_absent: "\<not> crc_escape_present (concat (map esc bs))"
  by (induction bs) (simp_all add: crc_escape_absent_esc)

end

lemma header_no_crc_escape:
  assumes "\<not> do_hex t s"
  shows "\<not> crc_escape_present (packet_wire t a s)"
proof -
  have "\<not> crc_escape_present xs \<Longrightarrow> \<not> crc_escape_present (ZPAD # C_CAN # (if c then 67 else 65) # xs)" for c xs
    by (simp add: crc_escape_def zcrc_bytes ZPAD_def C_CAN_def)
  then show ?thesis using assms encode_map.crc_escape_absent
    by (cases "z_use_crc32 s") (simp_all add: packet_wire_def Let_def crc_escape_def zcrc_bytes ZPAD_def C_CAN_def del: concat_append map_append)
qed

definition rcv_stuck :: "zmodem \<Rightarrow> bool" where
  "rcv_stuck r \<longleftrightarrow> z_base (r\<lparr>z_packet_buffer_n := 0\<rparr>) \<and> \<not> z_sending r \<and> z_state r = ZDATA \<and> ready_for_data r \<and>
     z_packet_buffer_n r \<le> ZMODEM_MAX_BLOCK_SIZE \<and> \<not> crc_escape_present (take (z_packet_buffer_n r) (z_packet_buffer r))"

lemma stuck_receive:
  assumes "rcv_stuck r"
  shows "\<exists>r'. zmodem_receive m [] r = Some (Inr r') \<and> rcv_stuck r' \<and> z_out r' = z_out r"
proof -
  define r' where "r' = (if 0 < z_packet_buffer_n r then r\<lparr>z_packet := (z_packet r)\<lparr>p_data_n := 0\<rparr>\<rparr> else r)"
  have "receive_step m r = Inr (True, r')"
    using assms by (simp add: rcv_stuck_def receive_step_def receive_zdata_def decode_data_def decode_zdata_bytes_def Let_def r'_def ready_for_data_def)
  then have "zmodem_receive m [] r = Some (Inr r')" by (simp add: zmodem_receive_step [of m r])
  moreover have "rcv_stuck r'" "z_out r' = z_out r"
    using assms by (simp_all add: rcv_stuck_def r'_def ready_for_data_def z_base_def flags_ok_def)
  ultimately show ?thesis by blast
qed

lemma stuck_feed:
  assumes "rcv_stuck r1" "fill_buffer inp (r\<lparr>z_out := []\<rparr>) = ([], r1)" "z_base (r\<lparr>z_packet_buffer_n := 0\<rparr>)" "\<not> z_sending r" "z_state r = ZDATA" "2080 \<le> m"
    and "z_out r1 = []"
  shows "\<exists>r'. z_feed inp m r = Some (Inr r') \<and> rcv_stuck r' \<and> z_out r' = []"
proof -
  obtain r' where r': "zmodem_receive m [] r1 = Some (Inr r')" "rcv_stuck r'" "z_out r' = z_out r1" using stuck_receive [OF assms(1)] by blast
  have "zmodem_receive m inp (r\<lparr>z_out := []\<rparr>) = Some (Inr r')" using r'(1) by (simp add: zmodem_receive_filled [OF assms(2)])
  then have "z_feed inp m r = Some (Inr r')"
    using assms(3-7) r'(3) by (cases "inp = []")
      (simp_all add: z_feed_def z_protocol_process_data_def zmodem_def z_base_def z_reset_timer_same Let_def ZMODEM_MAX_BLOCK_SIZE_def ZMODEM_BLOCK_SIZE_def)
  then show ?thesis using r' assms(7) by auto
qed

lemma eof_idle:
  assumes "snd_eof d s" "2080 \<le> m"
  shows "z_feed [] m s = Some (Inr (s\<lparr>z_out := []\<rparr>))" "snd_eof d (s\<lparr>z_out := []\<rparr>)"
proof -
  let ?s = "s\<lparr>z_out := []\<rparr>"
  show e: "snd_eof d ?s" using assms(1) by (simp add: snd_eof_def)
  then have b: "z_base ?s" "z_state ?s = ZEOF_WAIT" "z_base s" "z_sending s" "z_state s = ZEOF_WAIT"
    using assms(1) by (simp_all add: snd_eof_def snd_ok_def z_base_def flags_ok_def)
  have "send_step m ?s = Inr (True, ?s)"
    using b(1,2) idle_wait [OF base_timer [OF b(1)], of ZEOF] by (simp add: send_step_def send_state_def send_zeof_wait_def z_base_def)
  then have "zmodem_send m [] ?s = Some (Inr ?s)" by (simp add: zmodem_send_step [of m ?s])
  then show "z_feed [] m s = Some (Inr ?s)"
    using b assms(2) base_timer [OF b(1)] by (intro z_feed_send) (simp_all add: ZMODEM_MAX_BLOCK_SIZE_def ZMODEM_BLOCK_SIZE_def)
qed

lemma stalled_rounds:
  assumes "snd_eof d s" "rcv_stuck r" "z_out r = []" "2080 \<le> m"
  shows "\<exists>s' r'. z_lockstep m k (s, r) = Some (Inr (s', r')) \<and> snd_eof d s' \<and> rcv_stuck r'"
  using assms(1-3)
proof (induction k arbitrary: s r)
  case 0
  then show ?case by simp
next
  case (Suc k)
  have "rcv_stuck (r\<lparr>z_out := []\<rparr>)" using Suc.prems(2) by (simp add: rcv_stuck_def z_base_def flags_ok_def ready_for_data_def)
  then obtain r' where r': "z_feed [] m r = Some (Inr r')" "rcv_stuck r'" "z_out r' = []"
    using stuck_feed [of "r\<lparr>z_out := []\<rparr>" "[]" r m] Suc.prems(2) assms(4) by (auto simp: rcv_stuck_def)
  have "z_lockstep m (Suc k) (s, r) = z_lockstep m k (s\<lparr>z_out := []\<rparr>, r')"
    using eof_idle(1) [OF Suc.prems(1) assms(4)] Suc.prems(3) r'(1) by simp
  then show ?case using Suc.IH [OF eof_idle(2) [OF Suc.prems(1) assms(4)] r'(2,3)] by simp
qed

lemma session_stalls:
  assumes "data_state d k (s, r)" "length d = 1024 * Suc k" "chunk_type d k = ZCRCQ" "length d < 2 ^ 32" "2080 \<le> m"
  shows "\<exists>s' r'. z_lockstep m (Suc n) (s, r) = Some (Inr (s', r')) \<and> snd_eof d s' \<and> rcv_stuck r'"
proof -
  have ne: "ZCRCQ \<noteq> ZCRCG" "ZCRCQ \<noteq> ZCRCW" by (simp_all add: zcrc_bytes)
  have full: "length (chunk d k) = 1024" using chunk_full [of d k] assms(2) by simp
  have n: "1024 * k + length (chunk d k) = length d" using full assms(2) by simp
  have s: "snd_wait d (Suc k) s" and r: "rcv_data d (length d) r" "z_packet_buffer_n r = 0"
    and out: "\<exists>p. z_base p \<and> z_out r = packet_wire P_ZACK (big_to_little_endian (of_nat (length d))) p"
    using assms(1) unfolding data_state_def n assms(3) rcv_round_def if_not_P [OF ne(1)] if_not_P [OF ne(2)] by auto
  obtain p where p: "z_base p" "z_out r = packet_wire P_ZACK (big_to_little_endian (of_nat (length d))) p" using out by blast
  obtain s1 q where s1: "z_feed (z_out r) m s = Some (Inr s1)" "z_out s1 = packet_wire P_ZEOF (of_nat (length d)) q" "z_base q" "snd_eof d s1"
    using feed_zack_last [OF s assms(4,5) p(1)] p(2) by auto
  let ?w = "packet_wire P_ZEOF (of_nat (length d)) q"
  define r1 where "r1 = r\<lparr>z_out := [], z_packet_buffer := memcpy (z_packet_buffer r) 0 ?w, z_packet_buffer_n := length ?w\<rparr>"
  have rd: "z_base (r\<lparr>z_packet_buffer_n := 0\<rparr>)" "\<not> z_sending r" "z_state r = ZDATA" "ready_for_data r" using r(1) by (simp_all add: rcv_data_def)
  have len: "length (z_packet_buffer r) = ZMODEM_MAX_BLOCK_SIZE" using rd(4) by (simp add: ready_for_data_def)
  have fits: "length ?w \<le> ZMODEM_MAX_BLOCK_SIZE" by (rule packet_wire_fits)
  have fill: "fill_buffer ?w (r\<lparr>z_out := []\<rparr>) = ([], r1)"
    using fill_empty_buffer [of "r\<lparr>z_out := []\<rparr>" ?w] r(2) len fits by (simp add: r1_def)
  have "\<not> crc_escape_present ?w" using do_hex_base [OF s1(3), of P_ZEOF] by (intro header_no_crc_escape) simp
  then have "rcv_stuck r1"
    using rd len fits by (simp add: rcv_stuck_def r1_def z_base_def flags_ok_def ready_for_data_def take_memcpy_0)
  then obtain r2 where r2: "z_feed ?w m r = Some (Inr r2)" "rcv_stuck r2" "z_out r2 = []"
    using stuck_feed [OF _ fill rd(1-3) assms(5)] by (auto simp: r1_def)
  have "z_lockstep m (Suc n) (s, r) = z_lockstep m n (s1, r2)" using z_lockstep_round [OF s1(1), of r2] r2(1) s1(2) by simp
  then show ?thesis using stalled_rounds [OF s1(4) r2(2,3) assms(5)] by simp
qed

lemma session_stalls_at_32k:
  assumes "snd_pre d name mt s" "z_state s = Z_INIT" "rcv_pre dir w r" "z_state r = Z_INIT" "z_out r = []" "2080 \<le> m"
    and "length d < 2 ^ 31" "0 \<le> mt" "mt < 2 ^ 63" "0 \<notin> set name"
    and "path = dir @ [slash] @ name" "length path < FULLNAME_SIZE"
    and "\<not> stat_denied w path" "files w path = None" "may_open w path" "length d \<le> space w"
    and "length d = 32768 * Suc n"
  shows "\<exists>s' r'. z_lockstep m (32 * Suc n + 3 + k) (s, r) = Some (Inr (s', r')) \<and> snd_eof d s' \<and> rcv_stuck r'"
proof -
  let ?k = "32 * n + 31"
  have d32: "length d < 2 ^ 32" using assms(7) by simp
  obtain s3 r3 where 3: "z_lockstep m 3 (s, r) = Some (Inr (s3, r3))" "data_state d 0 (s3, r3)"
    using opening_rounds [OF assms(1-16)] by blast
  have l: "length d = 1024 * Suc ?k" using assms(17) by simp
  then obtain s4 r4 where 4: "z_lockstep m ?k (s3, r3) = Some (Inr (s4, r4))" "data_state d ?k (s4, r4)"
    using data_rounds [OF 3(2) d32 assms(6), of ?k] by auto
  have "length (chunk d ?k) = 1024" using chunk_full [of d ?k] l by simp
  moreover have "Suc ?k mod 32 = 0" by presburger
  ultimately have Q: "chunk_type d ?k = ZCRCQ" by (simp add: chunk_type_def)
  have n: "32 * Suc n + 3 + k = 3 + (?k + Suc k)" by simp
  show ?thesis using session_stalls [OF 4(2) l Q d32 assms(6)]
    unfolding n z_lockstep_add [OF 3(1)] z_lockstep_add [OF 4(1)] .
qed

end
