(* ===== verification/Kermit_Codec.thy ===== *)
theory Kermit_Codec
  imports Check_Registers
begin

text \<open>
  The encoding layer of kermit.c: the printable forms of small numbers and control bytes,
  the two checksums and the CRC, and the data field of a packet, with its prefixes for
  control bytes (QCTL), for the eighth bit (QBIN) and for runs (REPT).  A prefix that was not
  agreed on is a space.  The theory ends with the round trip: what \<open>encode_data_field\<close>
  writes \<open>decode_data_field\<close> reads, and with a bound on the length of a data field.
\<close>

unbundle bit_operations_syntax

section \<open>Printable characters\<close>

definition kermit_tochar :: "byte \<Rightarrow> byte" where
  "kermit_tochar b = b + 32"

definition kermit_unchar :: "byte \<Rightarrow> byte" where
  "kermit_unchar ch = ch - 32"

definition kermit_ctl :: "byte \<Rightarrow> byte" where
  "kermit_ctl b = b XOR 0x40"

section \<open>Block checks\<close>

text \<open>
  \<open>makecrc\<close> fills the table; its register is an \<open>int\<close> that stays below 2 to the 16.
\<close>

definition k_crc_bit :: "u32 \<Rightarrow> u32" where
  "k_crc_bit crc = drop_bit 1 crc XOR (if crc AND 1 \<noteq> 0 then 0x8408 else 0)"

definition k_makecrc :: "16 word list" where
  "k_makecrc = map (\<lambda>i. ucast ((k_crc_bit ^^ 8) (of_nat i) AND 0xFFFF)) [0..<256]"

definition seven_bit :: "bool \<Rightarrow> byte \<Rightarrow> byte" where
  "seven_bit seven ch = (if seven then ch AND 0x7F else ch)"

text \<open>
  One byte of \<open>compute_crc16\<close>.  The register is an \<open>unsigned long\<close>; an entry of the table
  is a \<open>short\<close> and extended by its sign, which the mask removes.
\<close>

definition k_crc_step :: "16 word list \<Rightarrow> ulong \<Rightarrow> byte \<Rightarrow> ulong" where
  "k_crc_step tab crc ch =
     (scast (tab ! unat ((crc XOR ucast ch) AND 0xFF)) XOR drop_bit 8 crc) AND 0xFFFF"

definition k_compute_crc16 :: "16 word list \<Rightarrow> bool \<Rightarrow> byte list \<Rightarrow> 16 word" where
  "k_compute_crc16 tab seven bs = ucast (foldl (k_crc_step tab) 0 (map (seven_bit seven) bs) AND 0xFFFF)"

definition compute_checksum :: "bool \<Rightarrow> byte list \<Rightarrow> byte" where
  "compute_checksum seven bs =
     (let sum = sum_list (map (seven_bit seven) bs)
      in (sum + (sum AND 0xC0) div 0x40) AND 0x3F)"

definition compute_checksum2 :: "bool \<Rightarrow> byte list \<Rightarrow> 16 word" where
  "compute_checksum2 seven bs = sum_list (map (ucast \<circ> seven_bit seven) bs) AND 0x0FFF"

section \<open>Encoding a data field\<close>

text \<open>The agreed prefixes, and whether the block check is of type B, which allows no spaces.\<close>

record kcodec =
  kc_rept :: byte
  kc_qbin :: byte
  kc_qctl :: byte
  kc_check_b :: bool

definition needs_quote :: "kcodec \<Rightarrow> byte \<Rightarrow> bool" where
  "needs_quote c ch7bit \<longleftrightarrow>
     (kc_rept c \<noteq> 32 \<and> ch7bit = kc_rept c) \<or> (kc_qbin c \<noteq> 32 \<and> ch7bit = kc_qbin c) \<or> ch7bit = kc_qctl c"

definition is_control :: "byte \<Rightarrow> bool" where
  "is_control ch7bit \<longleftrightarrow> ch7bit < 0x20 \<or> ch7bit = 0x7F"

text \<open>The body of the loop of \<open>encode_one_byte\<close>.\<close>

definition encode_prefixed :: "kcodec \<Rightarrow> byte \<Rightarrow> byte list" where
  "encode_prefixed c ch =
     (let ch7bit = ch AND 0x7F;
          need_qbin = (kc_qbin c \<noteq> 32 \<and> ch AND 0x80 \<noteq> 0);
          ch_is_ctl = (\<not> needs_quote c ch7bit \<and> is_control ch7bit);
          output_ch = (if need_qbin then ch7bit else ch)
      in (if need_qbin then [kc_qbin c] else []) @
         (if needs_quote c ch7bit \<or> ch_is_ctl then [kc_qctl c] else []) @
         [if ch_is_ctl then kermit_ctl output_ch else output_ch])"

definition encode_one_byte :: "kcodec \<Rightarrow> byte \<Rightarrow> nat \<Rightarrow> byte list" where
  "encode_one_byte c ch repeat_count =
     (if 3 < repeat_count \<or> (kc_check_b c \<and> ch = 32)
      then [kc_rept c, kermit_tochar (of_nat repeat_count)] @ encode_prefixed c ch
      else concat (replicate repeat_count (encode_prefixed c ch)))"

text \<open>
  The local variables of \<open>encode_data_field\<close>.  \<open>en_used\<close> counts the bytes taken from the
  file or the input (\<open>outstanding_bytes\<close>).
\<close>

record encoder =
  en_out :: "byte list"
  en_used :: nat
  en_last :: byte
  en_count :: nat
  en_first :: bool
  en_crlf :: bool

definition encoder_start :: encoder where
  "encoder_start = \<lparr>en_out = [], en_used = 0, en_last = 0, en_count = 0, en_first = True, en_crlf = False\<rparr>"

definition k_encode_char :: "kcodec \<Rightarrow> byte \<Rightarrow> encoder \<Rightarrow> encoder" where
  "k_encode_char c ch e =
     (let e1 = (if en_first e then e\<lparr>en_last := ch, en_first := False, en_count := 0\<rparr> else e)
      in if en_last e1 = ch \<and> en_count e1 < 94 then e1\<lparr>en_count := en_count e1 + 1\<rparr>
         else e1\<lparr>en_out := en_out e1 @ encode_one_byte c (en_last e1) (en_count e1),
                 en_count := 1, en_last := ch\<rparr>)"

text \<open>
  The loop.  \<open>lim\<close> is where a packet has no more room and \<open>tlim\<close> the same in text mode, where
  a line feed becomes two bytes.  The result tells what is left of the source, and whether
  its end was met.  \<open>en_crlf\<close> is only ever set in text mode.
\<close>

function encode_loop :: "kcodec \<Rightarrow> bool \<Rightarrow> nat \<Rightarrow> nat \<Rightarrow> encoder \<Rightarrow> byte list \<Rightarrow> encoder \<times> byte list \<times> bool" where
  "encode_loop c text_mode lim tlim e src =
     (if lim \<le> length (en_out e) \<or> (text_mode \<and> tlim \<le> length (en_out e)) then (e, src, False)
      else if en_crlf e then encode_loop c text_mode lim tlim (k_encode_char c C_LF (e\<lparr>en_crlf := False\<rparr>)) src
      else (case src of
              [] \<Rightarrow> (e, [], True)
            | ch # rest \<Rightarrow>
                let e1 = e\<lparr>en_used := en_used e + 1\<rparr>
                in if text_mode \<and> ch = C_CR then encode_loop c text_mode lim tlim e1 rest
                   else if text_mode \<and> ch = C_LF
                   then encode_loop c text_mode lim tlim (k_encode_char c C_CR (e1\<lparr>en_crlf := True\<rparr>)) rest
                   else encode_loop c text_mode lim tlim (k_encode_char c ch e1) rest))"
  by pat_completeness auto

lemma encode_char_sel [simp]: "en_crlf (k_encode_char c ch e) = en_crlf e" "en_used (k_encode_char c ch e) = en_used e"
  by (simp_all add: k_encode_char_def Let_def)

termination encode_loop
  by (relation "measure (\<lambda>(c, text_mode, lim, tlim, e, src). 2 * length src + (if en_crlf e then 1 else 0))") auto

declare encode_loop.simps [simp del]

definition encode_finish :: "kcodec \<Rightarrow> bool \<Rightarrow> encoder \<Rightarrow> byte list" where
  "encode_finish c text_mode e =
     en_out e @ (if 0 < en_count e then encode_one_byte c (en_last e) (en_count e) else []) @
     (if text_mode \<and> en_crlf e then encode_one_byte c C_LF 1 else [])"

text \<open>The data of Send-Init, of its acknowledgement and of attributes is copied as it is.\<close>

fun encode_plain :: "bool \<Rightarrow> nat \<Rightarrow> nat \<Rightarrow> byte list \<Rightarrow> byte list \<Rightarrow> byte list" where
  "encode_plain text_mode lim tlim out src =
     (if lim \<le> length out \<or> (text_mode \<and> tlim \<le> length out) then out
      else (case src of [] \<Rightarrow> out | ch # rest \<Rightarrow> encode_plain text_mode lim tlim (out @ [ch]) rest))"

declare encode_plain.simps [simp del]

section \<open>Decoding a data field\<close>

record decoder =
  de_ctrl :: bool
  de_8bit :: bool
  de_rept :: bool
  de_count :: nat
  de_ch :: byte
  de_pending :: bool
  de_out :: "byte list"

definition decoder_start :: decoder where
  "decoder_start = \<lparr>de_ctrl = False, de_8bit = False, de_rept = False, de_count = 1, de_ch = 0,
                    de_pending = False, de_out = []\<rparr>"

text \<open>Text files are stored without CR; \<open>strip\<close> tells whether this is one.\<close>

definition repeated :: "bool \<Rightarrow> nat \<Rightarrow> byte \<Rightarrow> byte list" where
  "repeated strip n ch = (if strip \<and> ch = C_CR then [] else replicate n ch)"

definition flush_pending :: "bool \<Rightarrow> decoder \<Rightarrow> decoder" where
  "flush_pending strip d =
     (if de_pending d
      then d\<lparr>de_out := de_out d @ repeated strip (de_count d) (de_ch d), de_count := 1, de_pending := False\<rparr>
      else d)"

definition quoted_char :: "byte \<Rightarrow> decoder \<Rightarrow> decoder" where
  "quoted_char ch d =
     d\<lparr>de_ch := (if de_8bit d then ch OR 0x80 else ch), de_pending := True, de_ctrl := False, de_8bit := False\<rparr>"

definition decode_rept :: "kcodec \<Rightarrow> decoder \<Rightarrow> decoder" where
  "decode_rept c d =
     (if de_ctrl d then (quoted_char (kc_rept c) d)\<lparr>de_rept := False\<rparr>
      else if de_rept d then d\<lparr>de_count := unat (kermit_unchar (kc_rept c)), de_rept := False\<rparr>
      else d\<lparr>de_rept := True, de_pending := False\<rparr>)"

definition decode_qctl :: "kcodec \<Rightarrow> decoder \<Rightarrow> decoder" where
  "decode_qctl c d =
     (if de_ctrl d then quoted_char (kc_qctl c) d else d\<lparr>de_ctrl := True, de_pending := False\<rparr>)"

definition decode_qbin :: "kcodec \<Rightarrow> decoder \<Rightarrow> decoder option" where
  "decode_qbin c d =
     (if de_8bit d \<and> \<not> de_ctrl d then None
      else if de_ctrl d then Some (quoted_char (kc_qbin c) d)
      else Some (d\<lparr>de_8bit := True, de_pending := False\<rparr>))"

definition decode_regular :: "bool \<Rightarrow> byte \<Rightarrow> decoder \<Rightarrow> decoder" where
  "decode_regular strip ch d =
     (let ch1 = (if de_ctrl d \<and> is_control (kermit_ctl ch AND 0x7F) then kermit_ctl ch else ch);
          ch2 = (if de_8bit d then ch1 OR 0x80 else ch1)
      in d\<lparr>de_ctrl := False, de_8bit := False, de_count := 1,
           de_out := de_out d @ repeated strip (de_count d) ch2\<rparr>)"

definition decode_char :: "kcodec \<Rightarrow> bool \<Rightarrow> byte \<Rightarrow> decoder \<Rightarrow> decoder option" where
  "decode_char c strip ch d0 =
     (let d = flush_pending strip d0
      in if kc_rept c \<noteq> 32 \<and> ch = kc_rept c then Some (decode_rept c d)
         else if de_rept d then Some (d\<lparr>de_count := unat (kermit_unchar ch), de_rept := False\<rparr>)
         else if ch = kc_qctl c then Some (decode_qctl c d)
         else if kc_qbin c \<noteq> 32 \<and> ch = kc_qbin c then decode_qbin c d
         else Some (decode_regular strip ch d))"

fun k_decode_loop :: "kcodec \<Rightarrow> bool \<Rightarrow> byte list \<Rightarrow> decoder \<Rightarrow> decoder option" where
  "k_decode_loop c strip [] d = Some d"
| "k_decode_loop c strip (ch # bs) d = Option.bind (decode_char c strip ch d) (k_decode_loop c strip bs)"

definition k_decode_data :: "kcodec \<Rightarrow> bool \<Rightarrow> byte list \<Rightarrow> byte list option" where
  "k_decode_data c strip bs = map_option (\<lambda>d. de_out (flush_pending strip d)) (k_decode_loop c strip bs decoder_start)"

definition k_encode_data :: "kcodec \<Rightarrow> bool \<Rightarrow> nat \<Rightarrow> nat \<Rightarrow> byte list \<Rightarrow> byte list \<times> nat \<times> bool" where
  "k_encode_data c text_mode lim tlim src =
     (case encode_loop c text_mode lim tlim encoder_start src of
        (e, rest, at_end) \<Rightarrow> (encode_finish c text_mode e, en_used e, at_end))"

section \<open>The CRC is a register\<close>

definition kermit_crc_step :: "16 word \<Rightarrow> byte \<Rightarrow> 16 word" where
  "kermit_crc_step r b = (lfsr_right 0x8408 ^^ 8) (r XOR ucast b)"

lemma ucast_byte_16_inj: "(ucast b :: 16 word) = ucast c \<Longrightarrow> b = (c :: byte)"
proof (rule bit_word_eqI)
  fix n assume eq: "(ucast b :: 16 word) = ucast c" and n: "n < LENGTH(8)"
  then have "bit (ucast b :: 16 word) n = bit (ucast c :: 16 word) n" by simp
  then show "bit b n = bit c n" using n by (simp add: bit_ucast_iff)
qed

lemma inj_kermit_crc_shift: "inj (lfsr_right (0x8408 :: 16 word) ^^ 8)"
  by (intro inj_fn inj_lfsr_right) simp

interpretation kermit_crc: linear_register kermit_crc_step
proof unfold_locales
  show "r = s" if "kermit_crc_step r b = kermit_crc_step s b" for r s b
    using injD [OF inj_kermit_crc_shift that [unfolded kermit_crc_step_def]] by (simp add: xor_right_cancel)
  show "b = c" if "kermit_crc_step r b = kermit_crc_step r c" for r b c
    using injD [OF inj_kermit_crc_shift that [unfolded kermit_crc_step_def]]
    by (simp only: xor_left_cancel ucast_byte_16_inj)
  show "kermit_crc_step (r XOR s) (b XOR c) = kermit_crc_step r b XOR kermit_crc_step s c" for r s b c
    unfolding kermit_crc_step_def ucast_xor_distrib
    by (subst funpow_xor [symmetric], rule lfsr_right_xor) (simp only: xor_group)
qed

lemma k_crc_bit_eq: "k_crc_bit (ucast (r :: 16 word)) = ucast (lfsr_right 0x8408 r)"
proof -
  have m: "(0x8408 :: u32) = ucast (0x8408 :: 16 word)" by simp
  have b: "(ucast r :: u32) AND 1 \<noteq> 0 \<longleftrightarrow> bit r 0" using bit_and_exp [of "ucast r :: u32" 0] by (simp add: bit_ucast_iff)
  have "drop_bit 1 (ucast r :: u32) = ucast (drop_bit 1 r)"
    by (rule bit_word_eqI) (auto simp only: bit_drop_bit_eq o_apply bit_ucast_iff, auto dest: bit_imp_le_length)
  then show ?thesis unfolding k_crc_bit_def b lfsr_right_def m by (simp add: ucast_xor_distrib)
qed

lemma FFFF_mask: "(0xFFFF :: 'a::len word) = mask 16"
  by (simp add: mask_eq_exp_minus_1)

lemma k_makecrc_nth: "i < 256 \<Longrightarrow> k_makecrc ! i = (lfsr_right 0x8408 ^^ 8) (of_nat i)"
proof -
  assume i: "i < 256"
  have "(k_crc_bit ^^ n) (ucast (r :: 16 word)) = ucast ((lfsr_right 0x8408 ^^ n) r)" for n r
    by (induction n) (simp_all add: k_crc_bit_eq)
  moreover have "(of_nat i :: u32) = ucast (of_nat i :: 16 word)"
    using i by (simp add: unsigned_of_nat take_bit_nat_eq_self)
  ultimately have "(k_crc_bit ^^ 8) (of_nat i) = ucast ((lfsr_right 0x8408 ^^ 8) (of_nat i :: 16 word))" by simp
  moreover have "ucast ((ucast x :: u32) AND 0xFFFF) = (x :: 16 word)" for x
    unfolding FFFF_mask by (rule bit_word_eqI) (simp add: bit_ucast_iff bit_and_iff bit_mask_iff del: mask_numeral)
  ultimately show ?thesis using i by (simp add: k_makecrc_def)
qed

lemma k_crc_step_eq: "k_crc_step k_makecrc (ucast r) b = ucast (kermit_crc_step r b)"
proof -
  let ?x = "r XOR ucast b"
  have m: "(0xFF :: ulong) = mask 8" by (simp add: mask_eq_exp_minus_1)
  have i: "((ucast r :: ulong) XOR ucast b) AND 0xFF = ucast (?x AND mask 8)"
    unfolding m by (rule bit_word_eqI) (auto simp only: bit_and_iff bit_mask_iff bit_ucast_iff bit_xor_iff, auto dest: bit_imp_le_length)
  have lt: "unat (y AND mask 8) < 256" for y :: "16 word"
    using take_bit_nat_less_exp [of 8 "unat y"] by (simp flip: take_bit_eq_mask add: unsigned_take_bit_eq del: take_bit_nat_less_exp)
  have "drop_bit 8 ?x = drop_bit 8 r"
    by (rule bit_word_eqI) (auto simp only: bit_drop_bit_eq o_apply bit_xor_iff bit_ucast_iff, auto dest: bit_imp_le_length)
  then have e: "kermit_crc_step r b = (lfsr_right 0x8408 ^^ 8) (?x AND mask 8) XOR drop_bit 8 r"
    unfolding kermit_crc_step_def using lfsr_right_table [of 8 "0x8408" ?x] by simp
  have "((scast (y :: 16 word) :: ulong) XOR drop_bit 8 (ucast r)) AND 0xFFFF = ucast (y XOR drop_bit 8 r)" for y
    unfolding FFFF_mask
  proof (rule bit_word_eqI)
    fix n :: nat
    have "n < 16 \<Longrightarrow> min 15 n = n" "\<not> n < 16 \<Longrightarrow> \<not> bit (y XOR drop_bit 8 r) n"
      by (auto dest: bit_imp_le_length)
    then show "bit (((scast y :: ulong) XOR drop_bit 8 (ucast r)) AND mask 16) n = bit (ucast (y XOR drop_bit 8 r) :: ulong) n"
      by (cases "n < 16") (auto simp: bit_and_iff bit_mask_iff bit_ucast_iff bit_xor_iff bit_drop_bit_eq bit_signed_iff simp del: mask_numeral dest: bit_imp_le_length)
  qed
  moreover have "unat (ucast z :: ulong) = unat z" for z :: "16 word"
    using unsigned_less [of z, where 'a = nat] by (simp add: unsigned_ucast_eq take_bit_nat_eq_self)
  ultimately show ?thesis using k_makecrc_nth [OF lt] by (simp add: k_crc_step_def i e)
qed

lemma k_compute_crc16_eq: "k_compute_crc16 k_makecrc seven bs = foldl kermit_crc_step 0 (map (seven_bit seven) bs)"
proof -
  have "foldl (k_crc_step k_makecrc) (ucast r) cs = ucast (foldl kermit_crc_step r cs)" for r cs
    by (induction cs arbitrary: r) (simp_all add: k_crc_step_eq)
  from this [of 0] have "foldl (k_crc_step k_makecrc) 0 cs = ucast (foldl kermit_crc_step 0 cs)" for cs by simp
  moreover have "ucast ((ucast x :: ulong) AND 0xFFFF) = (x :: 16 word)" for x
    unfolding FFFF_mask by (rule bit_word_eqI) (simp add: bit_ucast_iff bit_and_iff bit_mask_iff del: mask_numeral)
  ultimately show ?thesis by (simp add: k_compute_crc16_def)
qed

section \<open>The round trip of a data field\<close>

text \<open>The characters the protocol allows as prefixes.\<close>

definition valid_prefix :: "byte \<Rightarrow> bool" where
  "valid_prefix ch \<longleftrightarrow> (33 \<le> ch \<and> ch \<le> 62) \<or> (96 \<le> ch \<and> ch \<le> 126)"

definition codec_ok :: "kcodec \<Rightarrow> bool" where
  "codec_ok c \<longleftrightarrow> valid_prefix (kc_qctl c) \<and> valid_prefix (kc_rept c) \<and> kc_qctl c \<noteq> kc_rept c \<and>
     (kc_qbin c = 32 \<or> valid_prefix (kc_qbin c) \<and> kc_qbin c \<noteq> kc_qctl c \<and> kc_qbin c \<noteq> kc_rept c)"

text \<open>
  Between two characters the decoder is idle: no prefix is open.  What it has read so far is
  its output and the quoted character that it still holds.
\<close>

definition de_idle :: "decoder \<Rightarrow> bool" where
  "de_idle d \<longleftrightarrow> \<not> de_ctrl d \<and> \<not> de_8bit d \<and> \<not> de_rept d \<and> (de_pending d \<or> de_count d = 1)"

definition de_value :: "bool \<Rightarrow> decoder \<Rightarrow> byte list" where
  "de_value strip d = de_out (flush_pending strip d)"

lemma bit_byte_odd: "bit (p :: byte) n \<longleftrightarrow> odd (unat p div 2 ^ n)"
proof -
  have "bit (unat p) n = bit p n" by (auto simp: bit_unsigned_iff dest: bit_imp_le_length)
  then show ?thesis by (simp add: bit_iff_odd)
qed

lemma mask_7: "(0x7F :: byte) = mask 7" by (simp add: mask_eq_exp_minus_1)
lemma exp_7: "(0x80 :: byte) = push_bit 7 1" by simp

lemma bit_7F: "bit (ch AND 0x7F :: byte) n \<longleftrightarrow> n < 7 \<and> bit ch n"
  unfolding mask_7 by (auto simp only: bit_and_iff bit_mask_iff possible_bit_word) simp

lemma bit_or_80: "bit (ch OR 0x80 :: byte) n \<longleftrightarrow> n = 7 \<or> bit ch n"
  unfolding exp_7 by (auto simp only: bit_or_iff bit_push_bit_iff bit_1_iff possible_bit_word) auto

lemma and_80: "ch AND 0x80 = (0 :: byte) \<longleftrightarrow> \<not> bit ch 7"
  using bit_and_exp [of ch 7] by auto

lemma bit_ctl: "bit (kermit_ctl ch) n \<longleftrightarrow> bit ch n \<noteq> (n = 6)"
proof -
  have *: "(0x40 :: byte) = push_bit 6 1" by simp
  show ?thesis unfolding kermit_ctl_def *
    by (cases "n = 6") (auto simp only: bit_xor_iff bit_push_bit_iff bit_1_iff possible_bit_word, auto)
qed

lemma byte_split:
  fixes ch :: byte
  shows "ch AND 0x80 = 0 \<Longrightarrow> ch AND 0x7F = ch" "ch AND 0x80 \<noteq> 0 \<Longrightarrow> (ch AND 0x7F) OR 0x80 = ch"
proof -
  have top: "bit ch n \<Longrightarrow> n \<le> 7" for n using bit_imp_le_length [of ch n] by simp
  show "ch AND 0x80 = 0 \<Longrightarrow> ch AND 0x7F = ch"
    by (rule bit_word_eqI) (use top in \<open>auto simp: and_80 bit_7F le_less\<close>)
  show "ch AND 0x80 \<noteq> 0 \<Longrightarrow> (ch AND 0x7F) OR 0x80 = ch"
    by (rule bit_word_eqI) (use top in \<open>auto simp: and_80 bit_7F bit_or_80 le_less\<close>)
qed

lemma control_bits: "is_control ch \<longleftrightarrow> ch = 0x7F \<or> \<not> bit ch 5 \<and> \<not> bit ch 6 \<and> \<not> bit ch 7"
proof -
  have lt: "unat ch < 256" using unsigned_less [of ch, where 'a = nat] by simp
  have "ch < 0x20 \<longleftrightarrow> unat ch < 32" by (simp add: word_less_nat_alt)
  moreover define q where "q = unat ch div 32"
  have "unat ch div 64 = q div 2" "unat ch div 128 = q div 4" by (simp_all add: q_def flip: div_mult2_eq)
  moreover have "q = 0 \<or> q = 1 \<or> q = 2 \<or> q = 3 \<or> q = 4 \<or> q = 5 \<or> q = 6 \<or> q = 7" using lt unfolding q_def by linarith
  then have "q = 0 \<longleftrightarrow> even q \<and> even (q div 2) \<and> even (q div 4)" by auto
  moreover have "unat ch < 32 \<longleftrightarrow> q = 0" by (simp add: q_def div_eq_0_iff)
  ultimately show ?thesis by (auto simp: is_control_def bit_byte_odd simp flip: q_def)
qed

lemma valid_prefix_bits:
  assumes "valid_prefix p"
  shows "bit p 5" "\<not> bit p 7" "p \<noteq> 63" "p \<noteq> 127" "p \<noteq> 32"
proof -
  have "(33 \<le> unat p \<and> unat p \<le> 62) \<or> (96 \<le> unat p \<and> unat p \<le> 126)"
    using assms by (simp add: valid_prefix_def word_le_nat_alt)
  then have "unat p div 32 = 1 \<or> unat p div 32 = 3" "unat p div 128 = 0" by linarith+
  then show "bit p 5" "\<not> bit p 7" by (auto simp: bit_byte_odd)
  show "p \<noteq> 63" "p \<noteq> 127" "p \<noteq> 32" using assms by (auto simp: valid_prefix_def)
qed

lemma valid_prefix_facts:
  assumes "valid_prefix p"
  shows "p \<noteq> 32" "p AND 0x80 = 0" "p AND 0x7F = p" "\<not> is_control p"
    "ch AND 0x7F = p \<Longrightarrow> \<not> is_control (kermit_ctl ch AND 0x7F)"
proof -
  note b = valid_prefix_bits [OF assms]
  show "p \<noteq> 32" "p AND 0x80 = 0" using b by (simp_all add: and_80)
  then show "p AND 0x7F = p" by (simp add: byte_split)
  show "\<not> is_control p" using b by (simp add: control_bits)
  show "\<not> is_control (kermit_ctl ch AND 0x7F)" if "ch AND 0x7F = p"
  proof
    assume c: "is_control (kermit_ctl ch AND 0x7F)"
    have p: "bit p n \<longleftrightarrow> n < 7 \<and> bit ch n" for n using that bit_7F [of ch n] by simp
    have "kermit_ctl ch AND 0x7F = 0x7F" using c b(1) p [of 5] by (auto simp: control_bits bit_7F bit_ctl)
    moreover have "n < 7 \<Longrightarrow> bit (0x7F :: byte) n" for n unfolding mask_7 by (simp add: bit_mask_iff del: mask_numeral)
    ultimately have "n < 7 \<Longrightarrow> bit ch n \<noteq> (n = 6)" for n using bit_7F [of "kermit_ctl ch" n] by (simp add: bit_ctl)
    then have "bit p n \<longleftrightarrow> n < 6" for n using p [of n] by (cases "n = 6") auto
    moreover have "bit (63 :: byte) n \<longleftrightarrow> n < 6" for n
    proof -
      have "(63 :: byte) = mask 6" by (simp add: mask_eq_exp_minus_1)
      then show ?thesis by (auto simp only: bit_mask_iff possible_bit_word) simp
    qed
    ultimately have "p = 63" by (intro bit_word_eqI) blast
    then show False using b(3) by blast
  qed
qed


lemma kermit_ctl_twice [simp]: "kermit_ctl (kermit_ctl ch) = ch"
  by (simp add: kermit_ctl_def xor.assoc)

lemma ctl_7F: "kermit_ctl ch AND 0x7F = kermit_ctl (ch AND 0x7F)"
  by (rule bit_word_eqI) (auto simp: bit_7F bit_ctl)

text \<open>The printable form of a control byte is no prefix, with or without its eighth bit.\<close>

lemma ctl_not_prefix:
  assumes "valid_prefix p" "is_control (ch AND 0x7F)"
  shows "kermit_ctl ch \<noteq> p"
proof
  assume "kermit_ctl ch = p"
  then have "kermit_ctl ch AND 0x7F = p" using valid_prefix_facts(3) [OF assms(1)] by simp
  then have "\<not> is_control (kermit_ctl (kermit_ctl ch) AND 0x7F)" by (rule valid_prefix_facts(5) [OF assms(1)])
  then show False using assms(2) by simp
qed

definition de_open :: "decoder \<Rightarrow> bool" where
  "de_open d \<longleftrightarrow> \<not> de_ctrl d \<and> \<not> de_8bit d \<and> \<not> de_rept d \<and> \<not> de_pending d"

lemma flush_flush [simp]: "flush_pending strip (flush_pending strip d) = flush_pending strip d"
  by (simp add: flush_pending_def)

lemma decode_char_flush: "decode_char c strip ch (flush_pending strip d) = decode_char c strip ch d"
  by (simp add: decode_char_def)

lemma decode_loop_flush: "bs \<noteq> [] \<Longrightarrow> k_decode_loop c strip bs (flush_pending strip d) = k_decode_loop c strip bs d"
  by (cases bs) (simp_all add: decode_char_flush)

lemma decode_loop_append:
  "k_decode_loop c strip (xs @ ys) d = Option.bind (k_decode_loop c strip xs d) (k_decode_loop c strip ys)"
  by (induction xs arbitrary: d) (auto split: Option.bind_splits)

definition not_prefix :: "kcodec \<Rightarrow> byte \<Rightarrow> bool" where
  "not_prefix c ch \<longleftrightarrow> ch \<noteq> kc_rept c \<and> ch \<noteq> kc_qctl c \<and> (kc_qbin c = 32 \<or> ch \<noteq> kc_qbin c)"

lemma decode_char_simps:
  assumes "codec_ok c" "\<not> de_pending d" "\<not> de_rept d"
  shows "not_prefix c ch \<Longrightarrow> decode_char c strip ch d = Some (decode_regular strip ch d)"
    "decode_char c strip (kc_qctl c) d = Some (decode_qctl c d)"
    "decode_char c strip (kc_rept c) d = Some (decode_rept c d)"
    "kc_qbin c \<noteq> 32 \<Longrightarrow> decode_char c strip (kc_qbin c) d = decode_qbin c d"
  using assms valid_prefix_facts(1) by (auto simp: decode_char_def flush_pending_def codec_ok_def not_prefix_def Let_def)

lemma needs_quote_cases:
  assumes "codec_ok c" "needs_quote c ch"
  obtains "ch = kc_rept c" | "ch = kc_qctl c" | "kc_qbin c \<noteq> 32" "ch = kc_qbin c"
  using assms by (auto simp: needs_quote_def)

lemma quote_valid: "codec_ok c \<Longrightarrow> needs_quote c ch \<Longrightarrow> valid_prefix ch"
  by (auto simp: codec_ok_def needs_quote_def)

lemma de_value_simps:
  "de_pending d \<Longrightarrow> de_value strip d = de_out d @ repeated strip (de_count d) (de_ch d)"
  "\<not> de_pending d \<Longrightarrow> de_value strip d = de_out d"
  by (simp_all add: de_value_def flush_pending_def)

lemma decode_quoted_char:
  assumes ok: "codec_ok c" and d: "\<not> de_ctrl d" "\<not> de_rept d" "\<not> de_pending d" "de_8bit d \<Longrightarrow> ch AND 0x80 = 0"
    and q: "needs_quote c (ch AND 0x7F)"
  shows "\<exists>d'. k_decode_loop c strip [kc_qctl c, ch] d = Some d' \<and> de_idle d' \<and>
     de_value strip d' = de_out d @ repeated strip (de_count d) (if de_8bit d then ch OR 0x80 else ch)"
proof -
  let ?d = "d\<lparr>de_ctrl := True, de_pending := False\<rparr>"
  have 1: "k_decode_loop c strip [kc_qctl c, ch] d = decode_char c strip ch ?d"
    using decode_char_simps(2) [OF ok d(3,2)] d(1) by (simp add: decode_qctl_def split: Option.bind_splits)
  have v: "valid_prefix (ch AND 0x7F)" by (rule quote_valid [OF ok q])
  show ?thesis
  proof (cases "ch AND 0x80 = 0")
    case True
    then have "needs_quote c ch" using q by (simp add: byte_split)
    then have "decode_char c strip ch ?d = Some ((quoted_char ch ?d)\<lparr>de_rept := False\<rparr>)"
      using ok d by (elim needs_quote_cases [OF ok])
        (simp_all add: decode_char_simps [OF ok, of ?d] decode_rept_def decode_qctl_def decode_qbin_def quoted_char_def)
    then show ?thesis unfolding 1 using d by (simp add: quoted_char_def de_idle_def de_value_simps)
  next
    case False
    then have "not_prefix c ch" using ok valid_prefix_facts(2) by (auto simp: not_prefix_def codec_ok_def)
    then have "decode_char c strip ch ?d = Some (decode_regular strip ch ?d)" using d by (simp add: decode_char_simps [OF ok])
    then show ?thesis unfolding 1 using d False valid_prefix_facts(5) [OF v refl]
      by (auto simp: decode_regular_def Let_def de_idle_def de_value_simps)
  qed
qed

lemma decode_control_char:
  assumes ok: "codec_ok c" and d: "\<not> de_ctrl d" "\<not> de_rept d" "\<not> de_pending d"
    and q: "is_control (ch AND 0x7F)"
  shows "\<exists>d'. k_decode_loop c strip [kc_qctl c, kermit_ctl ch] d = Some d' \<and> de_idle d' \<and>
     de_value strip d' = de_out d @ repeated strip (de_count d) (if de_8bit d then ch OR 0x80 else ch)"
proof -
  let ?d = "d\<lparr>de_ctrl := True, de_pending := False\<rparr>"
  have "not_prefix c (kermit_ctl ch)" using ok ctl_not_prefix [OF _ q] by (auto simp: not_prefix_def codec_ok_def)
  then have "decode_char c strip (kermit_ctl ch) ?d = Some (decode_regular strip (kermit_ctl ch) ?d)"
    using d by (simp add: decode_char_simps [OF ok])
  moreover have "decode_char c strip (kc_qctl c) d = Some ?d" using decode_char_simps(2) [OF ok d(3,2)] d(1) by (simp add: decode_qctl_def)
  ultimately show ?thesis using d q by (simp add: decode_regular_def Let_def de_idle_def de_value_simps)
qed

lemma decode_plain_char:
  assumes ok: "codec_ok c" and d: "\<not> de_ctrl d" "\<not> de_rept d" "\<not> de_pending d"
    and q: "\<not> needs_quote c (ch AND 0x7F)"
  shows "\<exists>d'. k_decode_loop c strip [ch] d = Some d' \<and> de_idle d' \<and>
     de_value strip d' = de_out d @ repeated strip (de_count d) (if de_8bit d then ch OR 0x80 else ch)"
proof -
  have "not_prefix c ch"
    using ok valid_prefix_facts(1,3) q by (auto simp: not_prefix_def needs_quote_def codec_ok_def)
  then show ?thesis using d by (simp add: decode_char_simps [OF ok] decode_regular_def Let_def de_idle_def de_value_simps)
qed

lemma decode_prefixed:
  assumes ok: "codec_ok c" and d: "de_open d"
  shows "\<exists>d'. k_decode_loop c strip (encode_prefixed c ch) d = Some d' \<and> de_idle d' \<and>
     de_value strip d' = de_out d @ repeated strip (de_count d) ch"
proof -
  define b where "b \<longleftrightarrow> kc_qbin c \<noteq> 32 \<and> ch AND 0x80 \<noteq> 0"
  define x where "x = (if b then ch AND 0x7F else ch)"
  define d1 where "d1 = (if b then d\<lparr>de_8bit := True, de_pending := False\<rparr> else d)"
  define body where "body = (if needs_quote c (ch AND 0x7F) then [kc_qctl c, x]
     else if is_control (ch AND 0x7F) then [kc_qctl c, kermit_ctl x] else [x])"
  have e: "encode_prefixed c ch = (if b then [kc_qbin c] else []) @ body"
    by (simp add: encode_prefixed_def Let_def body_def b_def x_def)
  have sel: "\<not> de_ctrl d" "\<not> de_8bit d" "\<not> de_rept d" "\<not> de_pending d" using d by (simp_all add: de_open_def)
  have "k_decode_loop c strip (encode_prefixed c ch) d = k_decode_loop c strip body d1"
    using sel by (simp add: e d1_def b_def decode_char_simps [OF ok] decode_qbin_def)
  moreover have d1: "\<not> de_ctrl d1" "\<not> de_rept d1" "\<not> de_pending d1" "de_8bit d1 = b" "de_out d1 = de_out d" "de_count d1 = de_count d"
    using sel by (simp_all add: d1_def)
  have x7: "x AND 0x7F = ch AND 0x7F" by (simp add: x_def and.assoc)
  have "bit (ch AND 0x7F) 7 \<longleftrightarrow> False" by (simp add: bit_7F)
  then have x80: "b \<Longrightarrow> x AND 0x80 = 0" by (simp add: x_def and_80)
  have undo: "(if b then x OR 0x80 else x) = ch" using byte_split(2) [of ch] by (simp add: x_def b_def)
  have "\<exists>d'. k_decode_loop c strip body d1 = Some d' \<and> de_idle d' \<and>
     de_value strip d' = de_out d1 @ repeated strip (de_count d1) (if de_8bit d1 then x OR 0x80 else x)"
    using decode_quoted_char [OF ok d1(1-3), of x strip] decode_control_char [OF ok d1(1-3), of x strip]
      decode_plain_char [OF ok d1(1-3), of x strip] x80 d1(4) unfolding body_def x7 by auto
  ultimately show ?thesis by (simp add: d1 undo)
qed


lemma de_idle_flush:
  assumes "de_idle d"
  shows "de_open (flush_pending strip d)" "de_count (flush_pending strip d) = 1" "de_out (flush_pending strip d) = de_value strip d"
  using assms by (auto simp: de_idle_def de_open_def flush_pending_def de_value_def)

lemma encode_prefixed_nonempty: "encode_prefixed c ch \<noteq> []"
  by (simp add: encode_prefixed_def Let_def)

lemma repeated_0 [simp]: "repeated strip 0 ch = []"
  by (simp add: repeated_def)

lemma repeated_append: "repeated strip m ch @ repeated strip n ch = repeated strip (m + n) ch"
  by (simp add: repeated_def replicate_add)

lemma decode_once:
  assumes "codec_ok c" "de_idle d"
  shows "\<exists>d'. k_decode_loop c strip (encode_prefixed c ch) d = Some d' \<and> de_idle d' \<and>
     de_value strip d' = de_value strip d @ repeated strip 1 ch"
  using decode_prefixed [OF assms(1) de_idle_flush(1) [OF assms(2), of strip], of strip ch]
  by (simp add: de_idle_flush [OF assms(2)] decode_loop_flush encode_prefixed_nonempty)

lemma decode_replicated:
  assumes "codec_ok c" "de_idle d"
  shows "\<exists>d'. k_decode_loop c strip (concat (replicate n (encode_prefixed c ch))) d = Some d' \<and> de_idle d' \<and>
     de_value strip d' = de_value strip d @ repeated strip n ch"
  using assms(2)
proof (induction n arbitrary: d)
  case 0
  then show ?case by (simp add: repeated_def)
next
  case (Suc n)
  obtain d1 where 1: "k_decode_loop c strip (encode_prefixed c ch) d = Some d1" "de_idle d1"
      "de_value strip d1 = de_value strip d @ repeated strip 1 ch"
    using decode_once [OF assms(1) Suc.prems] by blast
  show ?case using Suc.IH [OF 1(2)] 1 repeated_append [of strip 1 ch n] by (simp add: decode_loop_append)
qed

lemma unchar_tochar [simp]: "kermit_unchar (kermit_tochar b) = b"
  by (simp add: kermit_unchar_def kermit_tochar_def)

lemma decode_one_byte:
  assumes ok: "codec_ok c" and d: "de_idle d" and n: "n \<le> 94"
  shows "\<exists>d'. k_decode_loop c strip (encode_one_byte c ch n) d = Some d' \<and> de_idle d' \<and>
     de_value strip d' = de_value strip d @ repeated strip n ch"
proof (cases "3 < n \<or> kc_check_b c \<and> ch = 32")
  case False
  then have "encode_one_byte c ch n = concat (replicate n (encode_prefixed c ch))" by (auto simp: encode_one_byte_def)
  then show ?thesis using decode_replicated [OF ok d] by simp
next
  case True
  define f where "f = flush_pending strip d"
  note f = de_idle_flush [OF d, of strip, folded f_def]
  have sel: "\<not> de_ctrl f" "\<not> de_8bit f" "\<not> de_rept f" "\<not> de_pending f" using f(1) by (simp_all add: de_open_def)
  have u: "unat (of_nat n :: byte) = n" using n by (simp add: unat_of_nat take_bit_nat_eq_self)
  have 1: "decode_char c strip (kc_rept c) d = Some (f\<lparr>de_rept := True, de_pending := False\<rparr>)" (is "_ = Some ?g")
    using decode_char_simps(3) [OF ok sel(4,3), of strip] sel by (simp add: decode_rept_def f_def decode_char_flush)
  have 2: "decode_char c strip (kermit_tochar (of_nat n)) ?g = Some (?g\<lparr>de_count := n, de_rept := False\<rparr>)"
  proof (cases "kermit_tochar (of_nat n) = kc_rept c")
    case True
    then have "unat (kermit_unchar (kc_rept c)) = n" "kc_rept c \<noteq> 32"
      using u unchar_tochar [of "of_nat n"] ok valid_prefix_facts(1) by (auto simp: codec_ok_def)
    then show ?thesis using sel True by (simp add: decode_char_def decode_rept_def flush_pending_def Let_def)
  qed (use sel u in \<open>simp add: decode_char_def flush_pending_def Let_def\<close>)
  let ?h = "?g\<lparr>de_count := n, de_rept := False\<rparr>"
  have "de_open ?h" using sel by (simp add: de_open_def)
  from decode_prefixed [OF ok this, of strip ch] show ?thesis using True f(3) by (simp add: encode_one_byte_def 1 2)
qed

section \<open>What the encoder has written\<close>

definition strip_cr :: "bool \<Rightarrow> byte list \<Rightarrow> byte list" where
  "strip_cr strip bs = (if strip then filter (\<lambda>b. b \<noteq> C_CR) bs else bs)"

lemma strip_cr_Nil [simp]: "strip_cr strip [] = []"
  by (simp add: strip_cr_def)

lemma strip_cr_append: "strip_cr strip (xs @ ys) = strip_cr strip xs @ strip_cr strip ys"
  by (simp add: strip_cr_def)

text \<open>The encoder \<open>e\<close> was given the characters \<open>xs\<close>.\<close>

definition encoded :: "kcodec \<Rightarrow> bool \<Rightarrow> encoder \<Rightarrow> byte list \<Rightarrow> bool" where
  "encoded c strip e xs \<longleftrightarrow>
     (\<exists>d. k_decode_loop c strip (en_out e) decoder_start = Some d \<and> de_idle d \<and>
        de_value strip d @ repeated strip (en_count e) (en_last e) = strip_cr strip xs) \<and>
     en_count e \<le> 94 \<and> (en_first e \<longrightarrow> en_count e = 0)"

lemma encoded_start: "encoded c strip encoder_start []"
  by (simp add: encoded_def encoder_start_def decoder_start_def de_idle_def de_value_simps repeated_def strip_cr_def)

lemma encoded_char:
  assumes ok: "codec_ok c" and e: "encoded c strip e xs"
  shows "encoded c strip (k_encode_char c ch e) (xs @ [ch])"
proof -
  obtain d where d: "k_decode_loop c strip (en_out e) decoder_start = Some d" "de_idle d"
      "de_value strip d @ repeated strip (en_count e) (en_last e) = strip_cr strip xs"
    and n: "en_count e \<le> 94" "en_first e \<Longrightarrow> en_count e = 0" using e by (auto simp: encoded_def)
  have one: "strip_cr strip [ch] = repeated strip 1 ch" by (simp add: strip_cr_def repeated_def)
  obtain d1 where d1: "k_decode_loop c strip (encode_one_byte c (en_last e) (en_count e)) d = Some d1" "de_idle d1"
      "de_value strip d1 = de_value strip d @ repeated strip (en_count e) (en_last e)"
    using decode_one_byte [OF ok d(2) n(1)] by blast
  have z: "repeated strip 0 b = []" for b by (simp add: repeated_def)
  show ?thesis
  proof (cases "en_first e \<or> (en_last e = ch \<and> en_count e < 94)")
    case True
    have "de_value strip d @ repeated strip (Suc (en_count e)) (en_last e) = strip_cr strip xs @ repeated strip 1 (en_last e)"
      using d(3) repeated_append [of strip "en_count e" "en_last e" 1] by (metis append.assoc Suc_eq_plus1)
    then show ?thesis using True d n z by (auto simp: encoded_def k_encode_char_def strip_cr_append one)
  next
    case False
    then show ?thesis using d d1 n
      by (auto simp: encoded_def k_encode_char_def strip_cr_append one decode_loop_append)
  qed
qed


lemma encoded_cong: "encoded c strip e xs \<Longrightarrow> encoded c strip (e\<lparr>en_crlf := b\<rparr>) xs" "encoded c strip e xs \<Longrightarrow> encoded c strip (e\<lparr>en_used := n\<rparr>) xs"
  by (simp_all add: encoded_def)

definition text_form :: "bool \<Rightarrow> byte list \<Rightarrow> byte list" where
  "text_form text_mode bs =
     concat (map (\<lambda>b. if text_mode \<and> b = C_CR then [] else if text_mode \<and> b = C_LF then [C_CR, C_LF] else [b]) bs)"

lemma text_form_simps [simp]: "text_form text_mode [] = []" "text_form text_mode (b # bs) = text_form text_mode [b] @ text_form text_mode bs"
  by (simp_all add: text_form_def)

definition due_lf :: "encoder \<Rightarrow> byte list" where
  "due_lf e = (if en_crlf e then [C_LF] else [])"

lemma encode_loop_encoded:
  assumes "codec_ok c" "encoded c strip e xs" "en_crlf e \<Longrightarrow> text_mode"
    and "encode_loop c text_mode lim tlim e src = (e', rest, at_end)"
  shows "\<exists>taken xs'. src = taken @ rest \<and> en_used e' = en_used e + length taken \<and> encoded c strip e' xs' \<and>
     xs' @ due_lf e' = xs @ due_lf e @ text_form text_mode taken \<and> (en_crlf e' \<longrightarrow> text_mode) \<and>
     (at_end \<longrightarrow> rest = [] \<and> \<not> en_crlf e')"
  using assms
proof (induction c text_mode lim tlim e src arbitrary: xs rule: encode_loop.induct)
  case (1 c text_mode lim tlim e src)
  note step = encode_loop.simps [of c text_mode lim tlim e src]
  show ?case
  proof (cases "lim \<le> length (en_out e) \<or> (text_mode \<and> tlim \<le> length (en_out e))")
    case True
    then show ?thesis using 1 step by auto
  next
    case room: False
    show ?thesis
    proof (cases "en_crlf e")
      case crlf: True
      let ?e = "k_encode_char c C_LF (e\<lparr>en_crlf := False\<rparr>)"
      have "encoded c strip ?e (xs @ [C_LF])" using 1 by (intro encoded_char encoded_cong)
      moreover have "encode_loop c text_mode lim tlim ?e src = (e', rest, at_end)" using "1.prems"(4) room crlf unfolding step by simp
      ultimately show ?thesis using "1.IH"(1) [OF room crlf] 1 crlf by (fastforce simp: due_lf_def)
    next
      case nocrlf: False
      show ?thesis
      proof (cases src)
        case Nil
        then show ?thesis using 1 room nocrlf step by auto
      next
        case (Cons ch r)
        let ?e = "e\<lparr>en_used := en_used e + 1\<rparr>"
        have e: "encoded c strip ?e xs" using 1 by (intro encoded_cong)
        consider "text_mode" "ch = C_CR" | "text_mode" "ch = C_LF" | "\<not> (text_mode \<and> (ch = C_CR \<or> ch = C_LF))" by blast
        then show ?thesis
        proof cases
          case 1
          have "encode_loop c text_mode lim tlim ?e r = (e', rest, at_end)" using "1.prems"(4) room nocrlf Cons 1 unfolding step by simp
          from "1.IH"(2) [OF room nocrlf Cons refl _ "1.prems"(1) e _ this] 1 nocrlf show ?thesis
            by (fastforce simp: Cons due_lf_def text_form_def)
        next
          case 2
          let ?f = "k_encode_char c C_CR (?e\<lparr>en_crlf := True\<rparr>)"
          have f: "encoded c strip ?f (xs @ [C_CR])" using encoded_char [OF "1.prems"(1) encoded_cong(1) [OF e]] by simp
          have "encode_loop c text_mode lim tlim ?f r = (e', rest, at_end)" using "1.prems"(4) room nocrlf Cons 2 unfolding step by (simp add: C_CR_def C_LF_def)
          from "1.IH"(3) [OF room nocrlf Cons refl _ _ "1.prems"(1) f _ this] 2 nocrlf show ?thesis
            by (fastforce simp: Cons due_lf_def text_form_def C_CR_def C_LF_def)
        next
          case 3
          let ?f = "k_encode_char c ch ?e"
          have f: "encoded c strip ?f (xs @ [ch])" using "1.prems"(1) e by (intro encoded_char)
          have "encode_loop c text_mode lim tlim ?f r = (e', rest, at_end)" using "1.prems"(4) room nocrlf Cons 3 unfolding step by auto
          from "1.IH"(4) [OF room nocrlf Cons refl _ _ "1.prems"(1) f _ this] 3 nocrlf show ?thesis
            by (fastforce simp: Cons due_lf_def text_form_def)
        qed
      qed
    qed
  qed
qed


lemma encode_data_decodes:
  assumes ok: "codec_ok c" and enc: "k_encode_data c text_mode lim tlim src = (out, used, at_end)"
  shows "k_decode_data c strip out = Some (strip_cr strip (text_form text_mode (take used src)))"
    "used \<le> length src" "at_end \<Longrightarrow> used = length src"
proof -
  obtain e rest where l: "encode_loop c text_mode lim tlim encoder_start src = (e, rest, at_end)"
      and out: "out = encode_finish c text_mode e" "used = en_used e"
    using enc by (auto simp: k_encode_data_def split: prod.splits)
  have nl: "en_crlf encoder_start = False" "en_used encoder_start = 0" by (simp_all add: encoder_start_def)
  from encode_loop_encoded [OF ok encoded_start [of c strip] _ l] obtain taken xs where
    t: "src = taken @ rest" "en_used e = length taken" "encoded c strip e xs" "xs @ due_lf e = text_form text_mode taken"
      "en_crlf e \<longrightarrow> text_mode" "at_end \<longrightarrow> rest = [] \<and> \<not> en_crlf e" by (auto simp: nl due_lf_def)
  then show "used \<le> length src" "at_end \<Longrightarrow> used = length src" by (auto simp: out)
  obtain d where d: "k_decode_loop c strip (en_out e) decoder_start = Some d" "de_idle d"
      "de_value strip d @ repeated strip (en_count e) (en_last e) = strip_cr strip xs" "en_count e \<le> 94"
    using t(3) by (auto simp: encoded_def)
  obtain d1 where d1: "k_decode_loop c strip (encode_one_byte c (en_last e) (en_count e)) d = Some d1" "de_idle d1"
      "de_value strip d1 = strip_cr strip xs"
    using decode_one_byte [OF ok d(2,4), of strip "en_last e"] d(3) by auto
  have "\<exists>d'. k_decode_loop c strip (en_out e @ (if 0 < en_count e then encode_one_byte c (en_last e) (en_count e) else [])) decoder_start = Some d' \<and>
      de_idle d' \<and> de_value strip d' = strip_cr strip xs"
    using d d1 by (cases "en_count e") (auto simp: decode_loop_append)
  then obtain d' where d': "k_decode_loop c strip (en_out e @ (if 0 < en_count e then encode_one_byte c (en_last e) (en_count e) else [])) decoder_start = Some d'"
      "de_idle d'" "de_value strip d' = strip_cr strip xs" by blast
  obtain d3 where d3: "k_decode_loop c strip (encode_one_byte c C_LF 1) d' = Some d3" "de_value strip d3 = strip_cr strip xs @ repeated strip 1 C_LF"
    using decode_one_byte [OF ok d'(2), of 1 strip C_LF] d'(3) by auto
  have "strip_cr strip [C_LF] = repeated strip 1 C_LF" by (simp add: strip_cr_def repeated_def)
  then have "k_decode_data c strip out = Some (strip_cr strip (xs @ due_lf e))"
    using d' d3 t(5) by (auto simp: k_decode_data_def out encode_finish_def due_lf_def strip_cr_append decode_loop_append
        simp flip: append_assoc de_value_def)
  then show "k_decode_data c strip out = Some (strip_cr strip (text_form text_mode (take used src)))" by (simp add: t out)
qed

lemma strip_text_form: "strip_cr True (text_form True bs) = filter (\<lambda>b. b \<noteq> C_CR) bs"
  by (induction bs) (auto simp: strip_cr_def text_form_def C_CR_def C_LF_def)

lemma text_form_binary: "text_form False bs = bs"
  by (induction bs) (auto simp: text_form_def)

section \<open>How long a data field can be\<close>

lemma length_encode_prefixed: "length (encode_prefixed c ch) \<le> 3"
  by (simp add: encode_prefixed_def Let_def)

lemma length_encode_one_byte: "length (encode_one_byte c ch n) \<le> 9" "length (encode_one_byte c ch 1) \<le> 5"
proof -
  have "n \<le> 3 \<Longrightarrow> length (encode_prefixed c ch) * n \<le> 9"
    using mult_le_mono [OF length_encode_prefixed [of c ch], of n 3] by simp
  then show "length (encode_one_byte c ch n) \<le> 9" "length (encode_one_byte c ch 1) \<le> 5"
    using length_encode_prefixed [of c ch] by (auto simp: encode_one_byte_def length_concat sum_list_replicate mult.commute)
qed

lemma length_encode_char: "length (en_out (k_encode_char c ch e)) \<le> length (en_out e) + 9"
  using length_encode_one_byte(1) [of c "en_last e" "en_count e"] by (auto simp: k_encode_char_def Let_def)

lemma encode_loop_length:
  "encode_loop c text_mode lim tlim e src = (e', rest, at_end) \<Longrightarrow> length (en_out e) \<le> lim + 8 \<Longrightarrow> length (en_out e') \<le> lim + 8"
proof (induction c text_mode lim tlim e src rule: encode_loop.induct)
  case (1 c text_mode lim tlim e src)
  have grow: "\<not> lim \<le> length (en_out e) \<Longrightarrow> en_out f = en_out e \<Longrightarrow> length (en_out (k_encode_char c ch f)) \<le> lim + 8" for ch f
    using length_encode_char [of c ch f] by simp
  show ?case using 1 by (subst (asm) (2) encode_loop.simps)
    (auto simp: grow Let_def split: if_split_asm list.split_asm)
qed

lemma encode_data_length:
  assumes "k_encode_data c text_mode lim tlim src = (out, used, at_end)"
  shows "length out \<le> lim + 22"
proof -
  obtain e rest where l: "encode_loop c text_mode lim tlim encoder_start src = (e, rest, at_end)" and out: "out = encode_finish c text_mode e"
    using assms by (auto simp: k_encode_data_def split: prod.splits)
  have "length (en_out e) \<le> lim + 8" using encode_loop_length [OF l] by (simp add: encoder_start_def)
  then show ?thesis using length_encode_one_byte(1) [of c "en_last e" "en_count e"] length_encode_one_byte(2) [of c C_LF]
    by (simp add: out encode_finish_def)
qed

end
