(* ===== verification/Kermit_State.thy ===== *)
theory Kermit_State
  imports Transfer_Stats Kermit_Codec
begin

text \<open>
  State of the Kermit engine (the static variables of kermit.c) and its bookkeeping.  The
  fields of \<open>status\<close> and the other static variables carry the prefix \<open>k_\<close>, those of a packet
  \<open>kp_\<close>, of a window slot \<open>ks_\<close> and of the session parameters \<open>sp_\<close>.  A packet holds its data
  and the size of the buffer behind it; the bytes after the data are zero.  The options of
  \<open>q_status\<close> the engine reads are in \<open>k_opt\<close>.  The calendar functions of the C library depend
  on the time zone: \<open>k_strftime\<close> stands for \<open>strftime\<close> with \<open>localtime\<close>, \<open>k_strptime\<close> for
  the attempts of \<open>strptime\<close> with \<open>mktime\<close>.  \<open>k_modes\<close> records what \<open>fchmod\<close> was called with.
  Not modelled are the debug log, \<open>qlog\<close>, repainting and the music.
\<close>

section \<open>Data\<close>

definition KERMIT_BLOCK_SIZE :: nat where "KERMIT_BLOCK_SIZE = 1024"

definition DIALOG_MESSAGE_SIZE :: nat where "DIALOG_MESSAGE_SIZE = 128"


datatype kermit_packet_type =
    P_KSINIT | P_KACK | P_KNAK | P_KDATA | P_KFILE | P_KEOF | P_KBREAK | P_KERROR | P_KSERVINIT | P_KTEXT
  | P_KRINIT | P_KATTRIBUTES | P_KCOMMAND | P_KKERMIT_COMMAND | P_KGENERIC_COMMAND | P_KRESERVED1 | P_KRESERVED2
  | P_KUNKNOWN

text \<open>\<open>P_KUNKNOWN\<close> is the value -1 that \<open>packet_type\<close> returns for other characters.\<close>

definition packet_type_chars :: "(kermit_packet_type \<times> byte) list" where
  "packet_type_chars =
     [(P_KSINIT, 83), (P_KACK, 89), (P_KNAK, 78), (P_KDATA, 68), (P_KFILE, 70), (P_KEOF, 90), (P_KBREAK, 66),
      (P_KERROR, 69), (P_KSERVINIT, 73), (P_KTEXT, 88), (P_KRINIT, 82), (P_KATTRIBUTES, 65), (P_KCOMMAND, 67),
      (P_KKERMIT_COMMAND, 75), (P_KGENERIC_COMMAND, 71), (P_KRESERVED1, 84), (P_KRESERVED2, 81)]"

fun find_type :: "(kermit_packet_type \<times> byte) list \<Rightarrow> byte \<Rightarrow> kermit_packet_type" where
  "find_type [] ch = P_KUNKNOWN"
| "find_type ((t, c) # ps) ch = (if c = ch then t else find_type ps ch)"

definition packet_type :: "byte \<Rightarrow> kermit_packet_type" where
  "packet_type type_char = find_type packet_type_chars type_char"

definition type_char :: "kermit_packet_type \<Rightarrow> byte" where
  "type_char t = (case map_of packet_type_chars t of None \<Rightarrow> 0 | Some c \<Rightarrow> c)"

datatype kermit_state =
    K_INIT | K_COMPLETE | K_ABORT | KM_S | KM_SF | KM_SA | KM_SDW | KM_SZ | KM_SB | KM_R | KM_RF | KM_RDW

datatype k_access = K_ACCESS_NEW | K_ACCESS_SUPERSEDE | K_ACCESS_APPEND | K_ACCESS_WARN

record session_parameters =
  sp_MARK :: byte
  sp_MAXL :: byte
  sp_TIME :: byte
  sp_NPAD :: byte
  sp_PADC :: byte
  sp_EOL :: byte
  sp_QCTL :: byte
  sp_QBIN :: byte
  sp_CHKT :: byte
  sp_REPT :: byte
  sp_CAPAS :: byte
  sp_WINDO :: byte
  sp_MAXLX1 :: byte
  sp_MAXLX2 :: byte
  sp_WHATAMI :: byte
  sp_attributes :: bool
  sp_windowing :: bool
  sp_long_packets :: bool
  sp_streaming :: bool
  sp_WINDO_in :: nat
  sp_WINDO_out :: nat

record kermit_packet =
  kp_parsed_ok :: bool
  kp_seq :: nat
  kp_type :: kermit_packet_type
  kp_length :: nat
  kp_long_packet :: bool
  kp_data :: "byte list"
  kp_data_max :: nat

record packet_serial =
  ks_seq :: nat
  ks_try_count :: nat
  ks_acked :: bool
  ks_type :: kermit_packet_type
  ks_data :: "byte list option"

definition empty_slot :: packet_serial where
  "empty_slot = \<lparr>ks_seq = 0, ks_try_count = 0, ks_acked = False, ks_type = P_KSINIT, ks_data = None\<rparr>"

record kfile_info = file_info +
  fi_mode :: u32

record kermit_options =
  ko_robust_filename :: bool
  ko_streaming :: bool
  ko_long_packets :: bool
  ko_uploads_force_binary :: bool
  ko_downloads_convert_text :: bool
  ko_resend :: bool
  ko_seven_bit_line :: bool

record kermit =
  k_state :: kermit_state
  k_check_type :: nat
  k_sequence_number :: nat
  k_sending :: bool
  k_file_name :: "cstring option"
  k_file_size :: u32
  k_file_size_k :: u32
  k_file_modtime :: time_t
  k_file_position :: nat
  k_file_stream :: "stream option"
  k_file_protection :: u32
  k_outstanding_bytes :: nat
  k_block_size :: nat
  k_access :: k_access
  k_timeout_begin :: time_t
  k_timeout_count :: nat
  k_first_R :: bool
  k_first_S :: bool
  k_first_SB :: bool
  k_sent_nak :: bool
  k_skip_file :: bool
  k_text_mode :: bool
  k_seven_bit_only :: bool
  k_do_resend :: bool
  k_is_first_data_packet :: bool
  k_file_fullname :: cstring
  k_upload_file_list :: "kfile_info list"
  k_upload_file_list_i :: nat
  k_download_path :: "cstring option"
  k_local :: session_parameters
  k_remote :: session_parameters
  k_session :: session_parameters
  k_input :: kermit_packet
  k_output :: kermit_packet
  k_packet_buffer :: "byte list"
  k_packet_buffer_n :: nat
  k_in_window :: "packet_serial list"
  k_in_begin :: nat
  k_in_i :: nat
  k_in_n :: nat
  k_out_window :: "packet_serial list"
  k_out_begin :: nat
  k_out_i :: nat
  k_out_n :: nat
  k_ctrl_c_count :: nat
  k_crc_16_tab :: "16 word list"
  k_opt :: kermit_options
  k_strftime :: "time_t \<Rightarrow> cstring"
  k_strptime :: "cstring \<Rightarrow> time_t option"
  k_modes :: "cstring \<Rightarrow> u32 option"
  k_stats :: transfer_stats
  k_world :: os
  k_out :: "byte list"

section \<open>Default parameters\<close>

definition set_default_session_parameters :: "bool \<Rightarrow> kermit_options \<Rightarrow> session_parameters" where
  "set_default_session_parameters seven_bit_only opt =
     \<lparr>sp_MARK = C_SOH, sp_MAXL = 80, sp_TIME = 5, sp_NPAD = 0, sp_PADC = 0, sp_EOL = C_CR, sp_QCTL = 35,
      sp_QBIN = (if seven_bit_only then 38 else 89), sp_CHKT = 51, sp_REPT = 126,
      sp_CAPAS = 0x10 OR 0x08 OR 0x04 OR (if ko_long_packets opt then 0x02 else 0), sp_WINDO = 30,
      sp_MAXLX1 = of_nat (KERMIT_BLOCK_SIZE div 95), sp_MAXLX2 = of_nat (KERMIT_BLOCK_SIZE mod 95),
      sp_WHATAMI = (if ko_streaming opt then 0x28 else 0), sp_attributes = True, sp_windowing = True,
      sp_long_packets = ko_long_packets opt, sp_streaming = ko_streaming opt, sp_WINDO_in = 1, sp_WINDO_out = 1\<rparr>"

definition zero_parameters :: session_parameters where
  "zero_parameters =
     \<lparr>sp_MARK = 0, sp_MAXL = 0, sp_TIME = 0, sp_NPAD = 0, sp_PADC = 0, sp_EOL = 0, sp_QCTL = 0, sp_QBIN = 0,
      sp_CHKT = 0, sp_REPT = 0, sp_CAPAS = 0, sp_WINDO = 0, sp_MAXLX1 = 0, sp_MAXLX2 = 0, sp_WHATAMI = 0,
      sp_attributes = False, sp_windowing = False, sp_long_packets = False, sp_streaming = False,
      sp_WINDO_in = 0, sp_WINDO_out = 0\<rparr>"

definition empty_packet :: "nat \<Rightarrow> kermit_packet" where
  "empty_packet m = \<lparr>kp_parsed_ok = False, kp_seq = 0, kp_type = P_KSINIT, kp_length = 0, kp_long_packet = False,
                     kp_data = [], kp_data_max = m\<rparr>"

text \<open>The state before the first transfer: the static initialisers.\<close>

definition initial_kermit :: "kermit_options \<Rightarrow> (time_t \<Rightarrow> cstring) \<Rightarrow> (cstring \<Rightarrow> time_t option) \<Rightarrow> os \<Rightarrow> kermit" where
  "initial_kermit opt fmt parse w =
     \<lparr>k_state = K_INIT, k_check_type = 1, k_sequence_number = 0, k_sending = False, k_file_name = None,
      k_file_size = 0, k_file_size_k = 0, k_file_modtime = 0, k_file_position = 0, k_file_stream = None,
      k_file_protection = 0, k_outstanding_bytes = 0, k_block_size = KERMIT_BLOCK_SIZE, k_access = K_ACCESS_WARN,
      k_timeout_begin = 0, k_timeout_count = 0, k_first_R = False, k_first_S = False, k_first_SB = False,
      k_sent_nak = False, k_skip_file = False, k_text_mode = False, k_seven_bit_only = False,
      k_do_resend = False, k_is_first_data_packet = False, k_file_fullname = [], k_upload_file_list = [],
      k_upload_file_list_i = 0, k_download_path = None, k_local = zero_parameters, k_remote = zero_parameters,
      k_session = zero_parameters, k_input = empty_packet 0, k_output = empty_packet 0,
      k_packet_buffer = replicate (KERMIT_BLOCK_SIZE * 2) 0, k_packet_buffer_n = 0,
      k_in_window = [], k_in_begin = 0, k_in_i = 0, k_in_n = 0,
      k_out_window = [], k_out_begin = 0, k_out_i = 0, k_out_n = 0, k_ctrl_c_count = 0,
      k_crc_16_tab = replicate 256 0, k_opt = opt, k_strftime = fmt, k_strptime = parse, k_modes = Map.empty,
      k_stats = initial_stats\<lparr>t_protocol := Q_PROTOCOL_KERMIT\<rparr>, k_world = w, k_out = []\<rparr>"

section \<open>End of a transfer\<close>

definition k_update_stats :: "(transfer_stats \<Rightarrow> transfer_stats) \<Rightarrow> kermit \<Rightarrow> kermit" where
  "k_update_stats f s = s\<lparr>k_stats := f (k_stats s)\<rparr>"

definition k_last_message :: "string \<Rightarrow> kermit \<Rightarrow> kermit" where
  "k_last_message m = k_update_stats (set_transfer_stats_last_message (m, None))"

definition kermit_stop :: "bool \<Rightarrow> kermit \<Rightarrow> kermit" where
  "kermit_stop save_partial s =
     (let w = (case k_file_stream s of
                 None \<Rightarrow> k_world s
               | Some f \<Rightarrow>
                   if save_partial \<or> k_sending s then fclose f (fflush f (k_world s))
                   else (case k_file_name s of
                           None \<Rightarrow> fclose f (k_world s)
                         | Some n \<Rightarrow> unlink n (fclose f (k_world s))))
      in s\<lparr>k_world := w, k_file_stream := None, k_file_name := None, k_download_path := None\<rparr>)"

text \<open>\<open>stop_file_transfer\<close> of protocols.c as the Kermit engine sees it.\<close>

definition k_stop_file_transfer :: "q_transfer_state \<Rightarrow> kermit \<Rightarrow> kermit" where
  "k_stop_file_transfer new_state s =
     (let s1 = (if t_protocol (k_stats s) = Q_PROTOCOL_KERMIT then kermit_stop True s else s)
      in k_update_stats (\<lambda>t. t\<lparr>t_state := new_state, t_end_time := now (k_world s1)\<rparr>) s1)"

definition kermit_skip_file :: "kermit \<Rightarrow> kermit" where
  "kermit_skip_file s = s\<lparr>k_skip_file := True\<rparr>"

section \<open>Packets to send\<close>

text \<open>Data for the output packet is copied into its buffer, which has a fixed size.\<close>

definition set_output :: "kermit_packet_type \<Rightarrow> nat \<Rightarrow> byte list \<Rightarrow> kermit \<Rightarrow> kermit run" where
  "set_output t seq bs s =
     check (length bs \<le> kp_data_max (k_output s)) Buffer_overflow
       (Inr (s\<lparr>k_output := (k_output s)\<lparr>kp_parsed_ok := True, kp_type := t, kp_seq := seq, kp_data := bs\<rparr>\<rparr>))"

definition error_packet :: "string \<Rightarrow> kermit \<Rightarrow> kermit run" where
  "error_packet message s = set_output P_KERROR (k_sequence_number s mod 64) (ascii message) s"

text \<open>The common ending of the handlers: the other side does not keep to the protocol.\<close>

definition k_abort_message :: "string \<Rightarrow> string \<Rightarrow> kermit \<Rightarrow> kermit run" where
  "k_abort_message shown sent s =
     error_packet sent (k_stop_file_transfer Q_TRANSFER_STATE_ABORT (k_last_message shown (s\<lparr>k_state := K_ABORT\<rparr>)))"

definition k_sequence_error :: "kermit \<Rightarrow> kermit run" where
  "k_sequence_error = k_abort_message ''PACKET SEQUENCE ERROR'' ''Wrong packet in sequence''"

section \<open>Statistics\<close>

definition k_stats_new_file :: "cstring \<Rightarrow> int \<Rightarrow> kermit \<Rightarrow> kermit" where
  "k_stats_new_file path filesize s =
     k_update_stats (\<lambda>t.
       let quot = sgn filesize * (\<bar>filesize\<bar> div int KERMIT_BLOCK_SIZE);
           blocks = (if 0 < filesize \<and> 0 < filesize mod int KERMIT_BLOCK_SIZE then quot + 1 else quot);
           t1 = t\<lparr>t_blocks_transfer := 0, t_bytes_transfer := 0, t_error_count := 0\<rparr>;
           t2 = (set_transfer_stats_last_message ([], None) t1)
                  \<lparr>t_bytes_total := word_of_int filesize, t_blocks := word_of_int blocks\<rparr>;
           t3 = set_transfer_stats_pathname (dirname path) (set_transfer_stats_filename (basename path) t2)
       in t3\<lparr>t_state := Q_TRANSFER_STATE_TRANSFER, t_file_start_time := now (k_world s)\<rparr>) s"

text \<open>The number of blocks is a quotient by MAXL: a zero there stops the program.\<close>

definition k_stats_increment_blocks :: "kermit \<Rightarrow> kermit run" where
  "k_stats_increment_blocks s =
     (let m = unat (sp_MAXL (k_session s))
      in check (0 < m) Abort_called
           (Inr (k_update_stats (\<lambda>t. t\<lparr>t_block_size := of_nat (k_block_size s),
              t_blocks_transfer := of_nat (k_file_position s div m + (if 0 < k_file_position s mod m then 1 else 0)),
              t_blocks := of_nat (unat (k_file_size s) div m)\<rparr>) s)))"

definition k_stats_increment_errors :: "message \<Rightarrow> kermit \<Rightarrow> kermit" where
  "k_stats_increment_errors m =
     k_update_stats (\<lambda>t. (set_transfer_stats_last_message m t)\<lparr>t_error_count := t_error_count t + 1\<rparr>)"

section \<open>Time\<close>

definition k_timeout_max :: nat where "k_timeout_max = 5"

definition k_reset_timer :: "kermit \<Rightarrow> kermit" where
  "k_reset_timer s = s\<lparr>k_timeout_begin := now (k_world s)\<rparr>"

definition k_check_timeout :: "kermit \<Rightarrow> (bool \<times> kermit) run" where
  "k_check_timeout s =
     (if sp_streaming (k_session s) \<and> (k_state s = KM_RDW \<or> k_state s = KM_SDW) then Inr (False, k_reset_timer s)
      else if uint (sp_TIME (k_session s)) \<le> now (k_world s) - k_timeout_begin s then
        let s1 = s\<lparr>k_timeout_count := k_timeout_count s + 1\<rparr>
        in andthen
             (if k_timeout_max \<le> k_timeout_count s1
              then error_packet ''Too many timeouts''
                     ((k_stop_file_transfer Q_TRANSFER_STATE_ABORT
                        (k_stats_increment_errors (''TOO MANY TIMEOUTS, TRANSFER CANCELLED'', None) s1))
                        \<lparr>k_state := K_ABORT\<rparr>)
              else Inr (k_stats_increment_errors (''TIMEOUT'', None) s1))
             (\<lambda>s2. Inr (True, k_reset_timer s2))
      else Inr (False, s))"

end
