(* ===== verification/Kermit_Packet.thy ===== *)
theory Kermit_Packet
  imports Kermit_State
begin

text \<open>
  The packets of kermit.c: what each side sends (file header, attributes, end of file, end of
  transmission, acknowledgements), what it makes of the packets it receives (parameters, file
  name, attributes, errors) and the negotiation of the parameters.
\<close>

unbundle bit_operations_syntax

section \<open>Characters\<close>

definition is_lower :: "byte \<Rightarrow> bool" where
  "is_lower ch \<longleftrightarrow> 97 \<le> ch \<and> ch \<le> 122"

definition is_alnum :: "byte \<Rightarrow> bool" where
  "is_alnum ch \<longleftrightarrow> is_lower ch \<or> (65 \<le> ch \<and> ch \<le> 90) \<or> (48 \<le> ch \<and> ch \<le> 57)"

section \<open>Packets the sender makes\<close>

text \<open>
  The common form of a file name: upper case letters, digits and at most one dot, which is
  neither the first nor the last character.
\<close>

definition common_form :: "cstring \<Rightarrow> byte list" where
  "common_form name =
     (let bs = map (\<lambda>ch. if is_lower ch then ch - 32 else if is_alnum ch then ch else 95) name
      in if 46 \<in> set name then bs[length name - Suc (length (takeWhile (\<lambda>ch. ch \<noteq> 46) (rev name))) := 46] else bs)"

definition strip_dots :: "byte list \<Rightarrow> byte list run" where
  "strip_dots bs =
     (let bs1 = (if bs \<noteq> [] \<and> hd bs = 46 then tl bs else bs)
      in check (bs1 \<noteq> []) Buffer_overflow (Inr (if last bs1 = 46 then butlast bs1 else bs1)))"

definition send_file_header :: "kermit \<Rightarrow> kermit run" where
  "send_file_header s =
     (case k_file_name s of
        None \<Rightarrow> Inl Null_stream
      | Some name \<Rightarrow>
          andthen (if ko_robust_filename (k_opt s) then strip_dots (common_form name) else Inr name)
            (\<lambda>bs. set_output P_KFILE (k_sequence_number s mod 64) bs s))"

definition attribute :: "byte \<Rightarrow> byte list \<Rightarrow> byte list" where
  "attribute t bs = t # kermit_tochar (of_nat (length bs)) # bs"

definition kermit_protection :: "u32 \<Rightarrow> byte" where
  "kermit_protection mode =
     (if mode AND 1 \<noteq> 0 then 4 else 0) OR (if mode AND 2 \<noteq> 0 then 2 else 0) OR (if mode AND 4 \<noteq> 0 then 1 else 0)"

definition file_attributes :: "bool \<Rightarrow> kermit \<Rightarrow> byte list" where
  "file_attributes resend s =
     attribute 34 (if k_text_mode s then [65] else [66, 56]) @
     attribute 49 (digits_base 10 (unat (k_file_size s))) @
     attribute 35 (k_strftime s (k_file_modtime s)) @
     attribute 44 (digits_base 8 (unat (k_file_protection s AND 0x1FF))) @
     attribute 45 [kermit_tochar (kermit_protection (k_file_protection s))] @
     (if resend then attribute 43 [82] else [])"

definition send_file_attributes :: "kermit \<Rightarrow> kermit run" where
  "send_file_attributes s =
     (let resend = (sp_CAPAS (k_session s) AND 0x10 \<noteq> 0 \<and> ko_resend (k_opt s))
      in set_output P_KATTRIBUTES (k_sequence_number s mod 64) (file_attributes resend s)
           (if resend then s\<lparr>k_do_resend := True\<rparr> else s))"

text \<open>The data of a file data packet is read by \<open>encode_data_field\<close>.\<close>

definition send_file_data :: "kermit \<Rightarrow> (bool \<times> kermit) run" where
  "send_file_data s =
     (case k_file_stream s of
        None \<Rightarrow> Inl Null_stream
      | Some f \<Rightarrow>
          if s_eof f then Inr (False, s)
          else andthen (set_output P_KDATA (k_sequence_number s mod 64) [] s) (\<lambda>s1. Inr (True, s1)))"

definition send_eof :: "kermit \<Rightarrow> kermit run" where
  "send_eof s =
     set_output P_KEOF (k_sequence_number s mod 64) (if k_skip_file s then [68] else []) (s\<lparr>k_skip_file := False\<rparr>)"

definition send_eot :: "kermit \<Rightarrow> kermit run" where
  "send_eot s = set_output P_KBREAK (k_sequence_number s mod 64) [] s"

section \<open>Parameters\<close>

definition send_init_data :: "session_parameters \<Rightarrow> session_parameters \<Rightarrow> byte list" where
  "send_init_data loc ses =
     [kermit_tochar (sp_MAXL ses), kermit_tochar (sp_TIME ses), kermit_tochar (sp_NPAD loc),
      kermit_ctl (sp_PADC loc), kermit_tochar (sp_EOL loc), sp_QCTL loc, sp_QBIN ses, sp_CHKT ses, sp_REPT ses,
      kermit_tochar (sp_CAPAS ses), kermit_tochar (sp_WINDO ses), kermit_tochar (sp_MAXLX1 ses),
      kermit_tochar (sp_MAXLX2 ses), 48, 95, 95, 95, kermit_tochar (sp_WHATAMI ses)]"

definition ack_send_init :: "kermit \<Rightarrow> kermit run" where
  "ack_send_init s = set_output P_KACK 0 (send_init_data (k_local s) (k_session s)) (s\<lparr>k_sequence_number := 0\<rparr>)"

text \<open>
  \<open>process_send_init\<close>.  A field that is missing or a space keeps the default of the
  protocol.  The capability bytes end with the first even one; after them come the window
  size, the two digits of the length of a long packet, four bytes that are ignored and the
  byte that tells about streaming.  What follows has no effect.
\<close>

definition bare_parameters :: "session_parameters" where
  "bare_parameters =
     \<lparr>sp_MARK = C_SOH, sp_MAXL = 80, sp_TIME = 5, sp_NPAD = 0, sp_PADC = 0, sp_EOL = C_CR, sp_QCTL = 35,
      sp_QBIN = 32, sp_CHKT = 49, sp_REPT = 32, sp_CAPAS = 0, sp_WINDO = 0, sp_MAXLX1 = 0, sp_MAXLX2 = 0,
      sp_WHATAMI = 0, sp_attributes = False, sp_windowing = False, sp_long_packets = False, sp_streaming = False,
      sp_WINDO_in = 1, sp_WINDO_out = 1\<rparr>"

definition field_or :: "(byte \<Rightarrow> byte) \<Rightarrow> byte list \<Rightarrow> nat \<Rightarrow> byte \<Rightarrow> byte" where
  "field_or f bs i d = (if i < length bs \<and> bs ! i \<noteq> 32 then f (bs ! i) else d)"

fun after_capas :: "byte list \<Rightarrow> byte list" where
  "after_capas [] = []"
| "after_capas (b # bs) = (if kermit_unchar b AND 0x01 = 0 then bs else after_capas bs)"

definition read_capas :: "byte list \<Rightarrow> session_parameters \<Rightarrow> session_parameters" where
  "read_capas bs p =
     (case bs of
        [] \<Rightarrow> p
      | b # _ \<Rightarrow>
          let capas = kermit_unchar b;
              r = after_capas bs;
              p1 = p\<lparr>sp_CAPAS := capas, sp_attributes := capas AND 0x08 \<noteq> 0, sp_windowing := capas AND 0x04 \<noteq> 0,
                     sp_long_packets := capas AND 0x02 \<noteq> 0\<rparr>;
              p2 = (if 0 < length r then p1\<lparr>sp_WINDO := kermit_unchar (r ! 0)\<rparr> else p1);
              p3 = (if 1 < length r then p2\<lparr>sp_MAXLX1 := kermit_unchar (r ! 1)\<rparr> else p2);
              p4 = (if 2 < length r then p3\<lparr>sp_MAXLX2 := kermit_unchar (r ! 2)\<rparr> else p3)
          in if 7 < length r then p4\<lparr>sp_streaming := kermit_unchar (r ! 7) AND 0x08 \<noteq> 0\<rparr> else p4)"

definition long_length :: "session_parameters \<Rightarrow> nat" where
  "long_length p = unat (sp_MAXLX1 p) * 95 + unat (sp_MAXLX2 p)"

definition default_long_length :: "session_parameters \<Rightarrow> session_parameters" where
  "default_long_length p =
     (let p1 = (if sp_long_packets p \<and> sp_MAXLX1 p = 0 \<and> sp_MAXLX2 p = 0
                then p\<lparr>sp_MAXLX1 := of_nat (500 div 95), sp_MAXLX2 := of_nat (500 mod 95)\<rparr> else p)
      in if sp_long_packets p1 \<and> KERMIT_BLOCK_SIZE < long_length p1
         then p1\<lparr>sp_MAXLX1 := of_nat (KERMIT_BLOCK_SIZE div 95), sp_MAXLX2 := of_nat (KERMIT_BLOCK_SIZE mod 95)\<rparr> else p1)"

definition read_parameters :: "byte list \<Rightarrow> session_parameters option" where
  "read_parameters bs =
     (let p = bare_parameters\<lparr>sp_MAXL := field_or kermit_unchar bs 0 80\<rparr>
      in if 94 < sp_MAXL p then None
         else Some (default_long_length (read_capas (drop 9 bs)
                (p\<lparr>sp_TIME := field_or kermit_unchar bs 1 5, sp_NPAD := field_or kermit_unchar bs 2 0,
                   sp_PADC := field_or kermit_ctl bs 3 0, sp_EOL := field_or kermit_unchar bs 4 C_CR,
                   sp_QCTL := field_or id bs 5 35, sp_QBIN := field_or id bs 6 32,
                   sp_CHKT := field_or id bs 7 49, sp_REPT := field_or id bs 8 32\<rparr>))))"

definition process_send_init :: "kermit \<Rightarrow> bool \<times> kermit" where
  "process_send_init s =
     (case read_parameters (kp_data (k_input s)) of
        None \<Rightarrow> (False, s)
      | Some p \<Rightarrow> (True, s\<lparr>k_remote := p\<rparr>))"

text \<open>
  \<open>negotiate_send_init\<close>, one group of parameters after the other.
\<close>

definition prefix_range :: "byte \<Rightarrow> bool" where
  "prefix_range ch \<longleftrightarrow> (33 \<le> ch \<and> ch \<le> 62) \<or> (96 \<le> ch \<and> ch \<le> 126)"

definition negotiate_lengths :: "session_parameters \<Rightarrow> session_parameters \<Rightarrow> session_parameters \<Rightarrow> session_parameters" where
  "negotiate_lengths loc rem ses =
     ses\<lparr>sp_MAXL := (if sp_MAXL loc < sp_MAXL rem then sp_MAXL loc else sp_MAXL rem), sp_TIME := sp_TIME loc,
         sp_NPAD := sp_NPAD rem, sp_PADC := sp_PADC rem, sp_EOL := sp_EOL rem, sp_QCTL := sp_QCTL loc\<rparr>"

definition negotiate_qbin :: "session_parameters \<Rightarrow> session_parameters \<Rightarrow> session_parameters \<Rightarrow> session_parameters" where
  "negotiate_qbin loc rem ses =
     (let q1 = (if sp_QBIN rem = 89 then (if prefix_range (sp_QBIN loc) then sp_QBIN loc else sp_QBIN ses)
                else if sp_QBIN rem = 78 then 32
                else if prefix_range (sp_QBIN rem) then sp_QBIN rem else sp_QBIN ses);
          q2 = (if q1 = 89 then 32 else q1)
      in ses\<lparr>sp_QBIN := (if sp_QBIN rem = sp_QCTL ses then 32 else q2)\<rparr>)"

definition negotiate_chkt :: "session_parameters \<Rightarrow> session_parameters \<Rightarrow> session_parameters \<Rightarrow> session_parameters" where
  "negotiate_chkt loc rem ses = ses\<lparr>sp_CHKT := (if sp_CHKT loc = sp_CHKT rem then sp_CHKT rem else 49)\<rparr>"

text \<open>\<open>check_type\<close> is an \<open>int\<close>: the difference to the character 0, or 12 for type B.\<close>

definition check_type_of :: "byte \<Rightarrow> nat" where
  "check_type_of chkt = (if chkt = 66 then 12 else unat chkt - 48)"

definition negotiate_rept :: "session_parameters \<Rightarrow> session_parameters \<Rightarrow> session_parameters \<Rightarrow> session_parameters" where
  "negotiate_rept loc rem ses =
     (let r1 = (if sp_REPT loc = sp_REPT rem then sp_REPT rem else 32)
      in ses\<lparr>sp_REPT := (if sp_REPT rem = sp_QCTL ses \<or> sp_REPT rem = sp_QBIN ses then 32 else r1)\<rparr>)"

definition negotiate_capas :: "session_parameters \<Rightarrow> session_parameters \<Rightarrow> session_parameters \<Rightarrow> session_parameters" where
  "negotiate_capas loc rem ses =
     (let a = (sp_attributes loc = sp_attributes rem);
          l = (sp_long_packets loc = sp_long_packets rem \<and> sp_long_packets loc);
          st = (sp_streaming loc = sp_streaming rem)
      in ses\<lparr>sp_attributes := a \<and> sp_attributes loc, sp_long_packets := l,
             sp_CAPAS := (if a then 0x10 OR 0x08 else 0) OR (if l then 0x02 else 0),
             sp_streaming := st \<and> sp_streaming loc,
             sp_WHATAMI := (if st then (if sp_streaming loc then 0x28 else sp_WHATAMI ses) else 0)\<rparr>)"

text \<open>
  Windows: the smaller size of the two.  The windows are allocated anew when they are used.
\<close>

definition window_size :: "session_parameters \<Rightarrow> session_parameters \<Rightarrow> byte" where
  "window_size loc rem = (if sp_WINDO rem < sp_WINDO loc then sp_WINDO rem else sp_WINDO loc)"

definition negotiate_windows :: "kermit \<Rightarrow> kermit run" where
  "negotiate_windows s =
     (let loc = k_local s; rem = k_remote s; ses = k_session s; w = window_size loc rem
      in if sp_windowing loc \<noteq> sp_windowing rem then Inr (s\<lparr>k_session := ses\<lparr>sp_windowing := False\<rparr>\<rparr>)
         else
           let ses1 = (if w < 2 then ses\<lparr>sp_WINDO := 0, sp_windowing := False, sp_WINDO_out := 1\<rparr>
                       else ses\<lparr>sp_WINDO := w, sp_WINDO_in := unat w, sp_WINDO_out := unat w\<rparr>)
           in if sp_streaming ses1
              then Inr (s\<lparr>k_session := ses1\<lparr>sp_windowing := False, sp_WINDO_in := 1, sp_WINDO_out := 1\<rparr>\<rparr>)
              else if \<not> sp_windowing loc
              then Inr (s\<lparr>k_session := ses1\<lparr>sp_windowing := False, sp_WINDO_in := 1, sp_WINDO_out := 1\<rparr>\<rparr>)
              else check (k_in_window s \<noteq> [] \<and> k_out_window s \<noteq> []) Assert_failed
                (Inr (s\<lparr>k_session := ses1\<lparr>sp_windowing := True, sp_CAPAS := sp_CAPAS ses1 OR 0x04\<rparr>,
                        k_in_window := replicate (sp_WINDO_in ses1) empty_slot,
                        k_out_window := replicate (sp_WINDO_out ses1) empty_slot,
                        k_in_n := 0, k_in_i := 0, k_in_begin := 0\<rparr>)))"

definition negotiate_send_init :: "kermit \<Rightarrow> kermit run" where
  "negotiate_send_init s =
     (let loc = k_local s; rem = k_remote s;
          ses = negotiate_capas loc rem (negotiate_rept loc rem (negotiate_chkt loc rem
                  (negotiate_qbin loc rem (negotiate_lengths loc rem (k_session s)))))
      in negotiate_windows
           (s\<lparr>k_session := ses, k_check_type := check_type_of (sp_CHKT ses),
              k_do_resend := k_do_resend s \<or> sp_CAPAS ses AND 0x10 \<noteq> 0\<rparr>))"

section \<open>Packets the receiver makes\<close>

definition ack_packet :: "bool \<Rightarrow> kermit \<Rightarrow> kermit run" where
  "ack_packet really s =
     check (\<not> k_sending s) Assert_failed
       (if k_skip_file s then set_output P_KACK (kp_seq (k_input s)) [88] (s\<lparr>k_skip_file := False\<rparr>)
        else if \<not> sp_streaming (k_session s) \<or> really then set_output P_KACK (kp_seq (k_input s)) [] s
        else Inr s)"

definition ack_packet_param :: "byte list \<Rightarrow> kermit \<Rightarrow> kermit run" where
  "ack_packet_param param s =
     check (\<not> k_sending s) Assert_failed (set_output P_KACK (kp_seq (k_input s)) param s)"

definition ack_file_packet :: "kermit \<Rightarrow> kermit run" where
  "ack_file_packet s =
     (case k_file_name s of
        None \<Rightarrow> Inl Null_stream
      | Some n \<Rightarrow> set_output P_KACK (kp_seq (k_input s)) n s)"

section \<open>The file to receive\<close>

text \<open>\<open>sprintf(status.file_fullname, ...)\<close> into 256 bytes.\<close>

definition k_set_fullname :: "cstring \<Rightarrow> kermit \<Rightarrow> kermit run" where
  "k_set_fullname n s = check (length n < FILENAME_SIZE) Buffer_overflow (Inr (s\<lparr>k_file_fullname := n\<rparr>))"

function k_unused_name :: "cstring \<Rightarrow> nat \<Rightarrow> kermit \<Rightarrow> (bool \<times> kermit) run" where
  "k_unused_name base i s =
     (if 2 ^ 31 \<le> i then Inl Diverges
      else andthen (k_set_fullname (base @ [46] @ suffix_4d i) s) (\<lambda>s1.
        case stat (k_world s1) (k_file_fullname s1) of
          Stat_enoent \<Rightarrow> Inr (True, s1\<lparr>k_file_position := 0\<rparr>)
        | Stat_error \<Rightarrow> Inr (False, s1)
        | Stat_ok _ \<Rightarrow> k_unused_name base (i + 1) s1))"
  by pat_completeness auto
termination
  by (relation "measure (\<lambda>(base, i, s). 2 ^ 31 - i)") auto

declare k_unused_name.simps [simp del]

text \<open>The size the sender has announced, in bytes or else in kilobytes.\<close>

definition announced_size :: "kermit \<Rightarrow> u32" where
  "announced_size s =
     (if 0 < k_file_size s then k_file_size s else if 0 < k_file_size_k s then k_file_size_k s * 1024 else 0)"

text \<open>
  A file of that name exists and has \<open>n\<close> bytes: whether a new name is needed, and where to
  go on writing.
\<close>

definition existing_file :: "nat \<Rightarrow> kermit \<Rightarrow> bool \<times> kermit" where
  "existing_file n s =
     (case k_access s of
        K_ACCESS_NEW \<Rightarrow> (True, s)
      | K_ACCESS_SUPERSEDE \<Rightarrow> (True, s)
      | K_ACCESS_WARN \<Rightarrow> if k_do_resend s then (False, s\<lparr>k_file_position := n\<rparr>) else (True, s)
      | K_ACCESS_APPEND \<Rightarrow>
          if unat (announced_size s) < n then (True, s\<lparr>k_file_position := 0\<rparr>)
          else (False, (if 0 < announced_size s then k_last_message ''APPEND'' else id) (s\<lparr>k_file_position := n\<rparr>)))"

definition disk_error :: "kermit \<Rightarrow> (bool \<times> kermit) run" where
  "disk_error s = andthen (k_abort_message ''DISK I/O ERROR'' ''Disk I/O error'' s) (\<lambda>s1. Inr (False, s1))"

definition k_open_stream :: "bool \<Rightarrow> kermit \<Rightarrow> (stream \<times> os) option" where
  "k_open_stream file_exists s =
     (if file_exists then map_option (\<lambda>f. (f, k_world s)) (fopen_rplus (k_world s) (k_file_fullname s))
      else fopen_wb (k_world s) (k_file_fullname s))"

text \<open>The acknowledgement of the attributes: where to go on, or that the file is accepted.\<close>

definition ack_attributes :: "kermit \<Rightarrow> kermit run" where
  "ack_attributes s =
     (if kp_type (k_input s) \<noteq> P_KATTRIBUTES then Inr s
      else if k_do_resend s
      then ack_packet_param (attribute 49 (digits_base 10 (k_file_position s))) s
      else ack_packet_param [89] s)"

definition finish_open :: "bool \<Rightarrow> kermit \<Rightarrow> (bool \<times> kermit) run" where
  "finish_open file_exists s =
     (case k_open_stream file_exists s of
        None \<Rightarrow>
          andthen (k_abort_message ''CANNOT CREATE FILE'' ''Disk I/O error: cannot create file'' s) (\<lambda>s1. Inr (False, s1))
      | Some (f, w) \<Rightarrow>
          andthen (ack_attributes (s\<lparr>k_file_stream := Some (snd (fseek_end 0 f)), k_world := w\<rparr>)) (\<lambda>s1.
            let s2 = (if k_file_modtime s1 = - 1 then s1\<lparr>k_file_modtime := now (k_world s1)\<rparr> else s1);
                s3 = k_stats_new_file (k_file_fullname s2) (sint (announced_size s2)) s2
            in Inr (True, k_update_stats (\<lambda>t. t\<lparr>t_bytes_transfer := of_nat (k_file_position s3)\<rparr>) s3)))"

definition open_receive_file :: "kermit \<Rightarrow> (bool \<times> kermit) run" where
  "open_receive_file s =
     check (k_file_stream s = None) Assert_failed
       (if k_do_resend s \<and> k_text_mode s then andthen (ack_packet_param [78, 43] s) (\<lambda>s1. Inr (False, s1))
        else (case (k_download_path s, k_file_name s) of
          (Some d, Some n) \<Rightarrow>
            andthen (k_set_fullname (d @ [slash] @ n) s) (\<lambda>s1.
              case stat (k_world s1) (k_file_fullname s1) of
                Stat_error \<Rightarrow> disk_error s1
              | Stat_enoent \<Rightarrow> finish_open False (k_last_message ''FILE HEADER'' (s1\<lparr>k_file_position := 0\<rparr>))
              | Stat_ok st_size \<Rightarrow>
                  (case existing_file st_size s1 of
                     (False, s2) \<Rightarrow> finish_open True s2
                   | (True, s2) \<Rightarrow>
                       andthen (k_unused_name (d @ [slash] @ n) 0 s2) (\<lambda>(ok, s3).
                         if ok then finish_open False s3 else disk_error s3)))
        | _ \<Rightarrow> Inl Null_stream))"

section \<open>The file to send\<close>

definition is_text :: "os \<Rightarrow> stream \<Rightarrow> bool \<times> stream" where
  "is_text w f = (case fread w 1024 (fseek_set 0 f) of (bs, f1) \<Rightarrow> (list_all (\<lambda>b. b AND 0x80 = 0) bs, fseek_set 0 f1))"

definition k_setup_for_next_file :: "kermit \<Rightarrow> (bool \<times> kermit) run" where
  "k_setup_for_next_file s =
     (let w = (case k_file_stream s of None \<Rightarrow> k_world s | Some f \<Rightarrow> fclose f (k_world s));
          s1 = s\<lparr>k_world := w, k_file_stream := None, k_file_name := None\<rparr>
      in if length (k_upload_file_list s1) \<le> k_upload_file_list_i s1 then
           Inr (True, (k_update_stats (\<lambda>t. t\<lparr>t_batch_bytes_transfer := t_batch_bytes_total t\<rparr>) s1)\<lparr>k_state := KM_SB\<rparr>)
         else
           let fi = k_upload_file_list s1 ! k_upload_file_list_i s1;
               s2 = s1\<lparr>k_file_modtime := fi_mtime fi, k_file_size := of_nat (fi_size fi), k_file_protection := fi_mode fi\<rparr>
           in (case fopen_rb w (fi_name fi) of
                 None \<Rightarrow> disk_error s2
               | Some f \<Rightarrow>
                   let (text, f1) = (if ko_uploads_force_binary (k_opt s) then (False, f) else is_text w f);
                       s3 = s2\<lparr>k_file_stream := Some f1, k_text_mode := text, k_file_name := Some (basename (fi_name fi))\<rparr>;
                       s4 = (k_stats_new_file (fi_name fi) (sint (of_nat (fi_size fi) :: u32)) s3)\<lparr>k_file_position := 0\<rparr>
                   in if k_state s4 = K_ABORT then Inr (True, s4)
                      else andthen (send_file_header (k_last_message ''FILE HEADER''
                             (k_update_stats (\<lambda>t. t\<lparr>t_state := Q_TRANSFER_STATE_TRANSFER\<rparr>) s4)))
                           (\<lambda>s5. Inr (True, s5\<lparr>k_state := KM_SF\<rparr>))))"

section \<open>Packets received\<close>

text \<open>A zero is written behind the data, which must not fill the buffer.\<close>

definition terminate_input :: "kermit \<Rightarrow> kermit run" where
  "terminate_input s = check (length (kp_data (k_input s)) < kp_data_max (k_input s)) Buffer_overflow (Inr s)"

definition process_file_header :: "kermit \<Rightarrow> kermit run" where
  "process_file_header s =
     andthen (terminate_input s) (\<lambda>s1.
       let bs = kp_data (k_input s1);
           name = (if list_ex is_lower bs then bs else map to_lower bs)
       in Inr (s1\<lparr>k_input := (k_input s1)\<lparr>kp_data := name\<rparr>, k_file_name := Some (c_string name),
                 k_file_size := 0, k_file_size_k := 0, k_file_protection := 0xFFFF, k_file_modtime := - 1\<rparr>))"

text \<open>
  One attribute: its type, its value, and the byte that follows the length (which is the
  next attribute, or the terminating zero, when the value is empty).
\<close>

definition set_access :: "byte \<Rightarrow> kermit \<Rightarrow> kermit" where
  "set_access ch s =
     (if ch = 78 then s\<lparr>k_access := K_ACCESS_NEW\<rparr>
      else if ch = 83 then s\<lparr>k_access := K_ACCESS_SUPERSEDE\<rparr>
      else if ch = 65 then s\<lparr>k_access := K_ACCESS_APPEND\<rparr>
      else if ch = 87 then s\<lparr>k_access := K_ACCESS_WARN\<rparr> else s)"

definition apply_attribute :: "byte \<Rightarrow> byte list \<Rightarrow> byte \<Rightarrow> kermit \<Rightarrow> kermit" where
  "apply_attribute t v ch s =
     (if t = 33 then s\<lparr>k_file_size_k := word_of_int (atol (c_string v))\<rparr>
      else if t = 34 then
        (if v \<noteq> [] \<and> hd v = 65 \<and> ko_downloads_convert_text (k_opt s) then s\<lparr>k_text_mode := True\<rparr> else s)
      else if t = 35 then
        s\<lparr>k_file_modtime := (case k_strptime s (c_string v) of None \<Rightarrow> now (k_world s) | Some m \<Rightarrow> m)\<rparr>
      else if t = 41 then set_access ch s
      else if t = 43 then (if ch = 82 then s\<lparr>k_do_resend := True\<rparr> else s)
      else if t = 44 then s\<lparr>k_file_protection := word_of_int (signed_numeral 8 (dropWhile is_space (c_string v)))\<rparr>
      else if t = 49 then s\<lparr>k_file_size := word_of_int (atol (c_string v))\<rparr>
      else s)"

datatype attributes_end = Attributes_complete | Attributes_short | Attributes_long

fun read_attributes :: "byte list \<Rightarrow> byte \<Rightarrow> kermit \<Rightarrow> attributes_end \<times> byte \<times> kermit" where
  "read_attributes (t # l # r) prot s =
     (let n = unat (kermit_unchar l); ch = (if r = [] then 0 else hd r)
      in if length r < n then (Attributes_short, prot, s)
         else read_attributes (drop n r) (if t = 45 then kermit_unchar ch else prot) (apply_attribute t (take n r) ch s))"
| "read_attributes [] prot s = (Attributes_complete, prot, s)"
| "read_attributes [t] prot s = (Attributes_long, prot, s)"

definition default_protection :: "byte \<Rightarrow> u32" where
  "default_protection prot =
     0x180 OR (if prot AND 1 \<noteq> 0 then 0x24 else 0) OR (if prot AND 2 \<noteq> 0 then 0x12 else 0) OR
     (if prot AND 1 \<noteq> 0 then 0x49 else 0)"

definition process_attributes :: "kermit \<Rightarrow> (bool \<times> kermit) run" where
  "process_attributes s =
     andthen (terminate_input s) (\<lambda>s0.
       case read_attributes (kp_data (k_input s0)) 0 s0 of
         (Attributes_short, prot, s1) \<Rightarrow>
           andthen (k_abort_message ''ERROR PARSING PACKET'' ''Error parsing packet'' s1) (\<lambda>s2. Inr (False, s2))
       | (Attributes_long, prot, s1) \<Rightarrow>
           andthen (k_abort_message ''ERROR PARSING ATTRIBUTE PACKET'' ''Error parsing packet'' s1) (\<lambda>s2. Inr (False, s2))
       | (Attributes_complete, prot, s1) \<Rightarrow>
           Inr (True, if k_file_protection s1 = 0xFFFF then s1\<lparr>k_file_protection := default_protection prot\<rparr> else s1))"

text \<open>
  The text of an error packet is the format of a message, printed into 128 bytes: a
  conversion in it has no argument, and a longer text does not fit.
\<close>

definition process_error_packet :: "kermit \<Rightarrow> kermit run" where
  "process_error_packet s =
     andthen (terminate_input s) (\<lambda>s1.
       let m = c_string (kp_data (k_input s1))
       in check (37 \<notin> set m) Undefined
            (check (length m < DIALOG_MESSAGE_SIZE) Buffer_overflow
              (Inr (k_stop_file_transfer Q_TRANSFER_STATE_ABORT
                (k_last_message (map (\<lambda>b. char_of (unat b)) m) (s1\<lparr>k_state := K_ABORT\<rparr>))))))"

section \<open>Data fields\<close>

definition encode_codec :: "kermit \<Rightarrow> kcodec" where
  "encode_codec s = \<lparr>kc_rept = sp_REPT (k_session s), kc_qbin = sp_QBIN (k_session s), kc_qctl = sp_QCTL (k_local s),
                     kc_check_b = (k_check_type s = 12)\<rparr>"

definition decode_codec :: "kermit \<Rightarrow> kcodec" where
  "decode_codec s = \<lparr>kc_rept = sp_REPT (k_session s), kc_qbin = sp_QBIN (k_session s), kc_qctl = sp_QCTL (k_remote s),
                     kc_check_b = (k_check_type s = 12)\<rparr>"

text \<open>
  The room in a packet is an \<open>unsigned int\<close>: with a MAXL below 5 the difference wraps.
\<close>

definition data_limit :: "bool \<Rightarrow> session_parameters \<Rightarrow> nat" where
  "data_limit long_packet p =
     unat ((if long_packet then of_nat (long_length p) - 9 else ucast (sp_MAXL p) :: u32) - 5)"

definition text_limit :: "session_parameters \<Rightarrow> nat" where
  "text_limit p = unat (ucast (sp_MAXL p) - 5 - 2 :: u32)"

text \<open>
  \<open>encode_data_field\<close> reads the data of a file data packet from the file, one byte after the
  other, and other data from the packet.
\<close>

definition from_file :: "kermit \<Rightarrow> bool" where
  "from_file s \<longleftrightarrow> kp_type (k_output s) = P_KDATA \<and> k_state s = KM_SDW"

definition encode_data_field :: "kermit \<Rightarrow> (byte list \<times> kermit) run" where
  "encode_data_field s =
     (let lim = data_limit (kp_long_packet (k_output s)) (k_session s);
          tlim = text_limit (k_session s);
          t = kp_type (k_output s)
      in if from_file s then
           (case k_file_stream s of
              None \<Rightarrow> Inl Null_stream
            | Some f \<Rightarrow>
                let f0 = fseek_set (k_file_position s) f;
                    src = drop (s_pos f0) (take (readable (k_world s) f0) (s_data f0));
                    (out, used, at_end) = k_encode_data (encode_codec s) (k_text_mode s) lim tlim src;
                    f1 = snd (fread (k_world s) (used + (if at_end then 1 else 0)) f0)
                in Inr (out, s\<lparr>k_file_stream := Some f1, k_outstanding_bytes := used, k_block_size := length out\<rparr>))
         else if t = P_KSINIT \<or> (k_sequence_number s = 0 \<and> t = P_KACK) \<or> t = P_KATTRIBUTES then
           (let out = encode_plain (k_text_mode s) lim tlim [] (kp_data (k_output s))
            in Inr (out, s\<lparr>k_outstanding_bytes := k_outstanding_bytes s + length out\<rparr>))
         else
           (let (out, used, at_end) = k_encode_data (encode_codec s) (k_text_mode s) lim tlim (kp_data (k_output s))
            in Inr (out, s\<lparr>k_outstanding_bytes := k_outstanding_bytes s + used\<rparr>)))"

text \<open>The buffer for decoded data is doubled whenever it is full.\<close>

function grow_buffer :: "nat \<Rightarrow> nat \<Rightarrow> nat" where
  "grow_buffer n m = (if m < n \<and> 0 < m then grow_buffer n (m * 2) else m)"
  by pat_completeness auto
termination
  by (relation "measure (\<lambda>(n, m). n - m)") auto

declare grow_buffer.simps [simp del]

text \<open>
  \<open>decode_data_field\<close>: \<open>bs\<close> is the input from the data field to the end of the buffer and \<open>n\<close>
  the length of the data field, which a malformed packet makes negative: the loop then
  leaves the buffer, unless it meets an error before.  The result is \<open>None\<close> on an error.
\<close>

definition decode_data_field :: "byte list \<Rightarrow> int \<Rightarrow> kermit \<Rightarrow> (byte list option \<times> kermit) run" where
  "decode_data_field bs n s =
     (let t = kp_type (k_input s)
      in andthen (if t = P_KDATA \<and> k_state s = KM_RDW \<and> k_file_stream s = None
                  then andthen (open_receive_file s) (\<lambda>(_, s1). Inr s1) else Inr s) (\<lambda>s1.
           let strip = (t = P_KDATA \<and> k_state s1 = KM_RDW \<and> k_text_mode s1);
               plain = ((kp_seq (k_input s1) = 0 \<and> (t = P_KACK \<or> t = P_KSINIT)) \<or> t = P_KATTRIBUTES);
               field = (if 0 \<le> n then take (nat n) bs else bs);
               res = (if plain then Some field else k_decode_data (decode_codec s1) strip field)
           in if (n < 0 \<or> int (length bs) < n) \<and> res \<noteq> None then Inl Buffer_overflow
              else (case res of
                 None \<Rightarrow> Inr (None, s1)
               | Some out \<Rightarrow>
                   Inr (res, s1\<lparr>k_input := (k_input s1)\<lparr>kp_data := out,
                                   kp_data_max := grow_buffer (length out) (kp_data_max (k_input s1))\<rparr>\<rparr>))))"

end
