(* ===== verification/Kermit_Window.thy ===== *)
theory Kermit_Window
  imports Kermit_Packet
begin

text \<open>
  The sliding windows of kermit.c.  A window is an array of slots used as a ring: \<open>begin\<close> is
  its oldest slot, \<open>i\<close> the next one to fill and \<open>n\<close> the number in use.  Every transfer has
  both windows, with one slot when windowing was not agreed on.
\<close>

section \<open>Slots\<close>

definition slot :: "packet_serial list \<Rightarrow> nat \<Rightarrow> packet_serial run" where
  "slot w i = (if i < length w then Inr (w ! i) else Inl Buffer_overflow)"

text \<open>
  The loops \<open>do ... i++; i %= size; while (i != stop)\<close>: the first slot with property \<open>P\<close>.  From
  an index below the size the loop is back at \<open>stop\<close> after \<open>size\<close> steps at most.
\<close>

fun ring_find :: "(packet_serial \<Rightarrow> bool) \<Rightarrow> packet_serial list \<Rightarrow> nat \<Rightarrow> nat \<Rightarrow> nat \<Rightarrow> nat \<Rightarrow> nat option run" where
  "ring_find P w sz stop 0 i = Inl Diverges"
| "ring_find P w sz stop (Suc k) i =
     andthen (slot w i) (\<lambda>x.
       if P x then Inr (Some i)
       else if Suc i mod sz = stop then Inr None
       else ring_find P w sz stop k (Suc i mod sz))"

definition in_find :: "(packet_serial \<Rightarrow> bool) \<Rightarrow> kermit \<Rightarrow> nat option run" where
  "in_find P s = ring_find P (k_in_window s) (sp_WINDO_in (k_session s)) (k_in_i s) (Suc (sp_WINDO_in (k_session s))) (k_in_begin s)"

definition out_find :: "(packet_serial \<Rightarrow> bool) \<Rightarrow> kermit \<Rightarrow> nat option run" where
  "out_find P s = ring_find P (k_out_window s) (sp_WINDO_out (k_session s)) (k_out_i s) (Suc (sp_WINDO_out (k_session s))) (k_out_begin s)"

section \<open>Writing what was received\<close>

definition slot_bytes :: "packet_serial \<Rightarrow> byte list" where
  "slot_bytes x = (case ks_data x of None \<Rightarrow> [] | Some bs \<Rightarrow> bs)"

text \<open>The result of \<open>fwrite\<close> is ignored: the position counts all bytes.\<close>

definition write_slot :: "packet_serial \<Rightarrow> kermit \<Rightarrow> kermit run" where
  "write_slot x s =
     (case k_file_stream s of
        None \<Rightarrow> Inl Null_stream
      | Some f \<Rightarrow>
          let pos = k_file_position s + length (slot_bytes x)
          in k_stats_increment_blocks (k_update_stats (\<lambda>t. t\<lparr>t_bytes_transfer := of_nat pos\<rparr>)
               (s\<lparr>k_file_stream := Some (snd (fwrite (k_world s) (slot_bytes x) f)), k_file_position := pos\<rparr>)))"

text \<open>The oldest slot leaves the input window; its data is freed.\<close>

definition roll_off :: "kermit \<Rightarrow> kermit" where
  "roll_off s =
     s\<lparr>k_in_window := (k_in_window s)[k_in_begin s := (k_in_window s ! k_in_begin s)\<lparr>ks_data := None\<rparr>],
       k_in_begin := Suc (k_in_begin s) mod sp_WINDO_in (k_session s), k_in_n := k_in_n s - 1\<rparr>"

text \<open>A new slot at the end of the input window.\<close>

definition append_slot :: "packet_serial \<Rightarrow> kermit \<Rightarrow> kermit" where
  "append_slot x s =
     s\<lparr>k_in_window := (k_in_window s)[k_in_i s := x],
       k_in_i := Suc (k_in_i s) mod sp_WINDO_in (k_session s), k_in_n := k_in_n s + 1\<rparr>"

function window_save_all :: "kermit \<Rightarrow> (bool \<times> kermit) run" where
  "window_save_all s =
     (if k_in_n s = 0 then Inr (True, s)
      else (case slot (k_in_window s) (k_in_begin s) of
              Inl e \<Rightarrow> Inl e
            | Inr x \<Rightarrow>
                if \<not> ks_acked x then Inr (False, s)
                else (case (if ks_type x = P_KDATA then write_slot x s else Inr s) of
                        Inl e \<Rightarrow> Inl e
                      | Inr s1 \<Rightarrow> window_save_all (roll_off s1))))"
  by pat_completeness auto

lemma write_slot_in_n: "write_slot x s = Inr s' \<Longrightarrow> k_in_n s' = k_in_n s"
  by (auto simp: write_slot_def k_stats_increment_blocks_def k_update_stats_def Let_def split: option.splits)

termination window_save_all
  by (relation "measure k_in_n") (auto simp: roll_off_def dest: write_slot_in_n split: if_split_asm)

declare window_save_all.simps [simp del]

section \<open>Sequence numbers\<close>

definition last_in :: "kermit \<Rightarrow> nat" where
  "last_in s = (if k_in_i s = 0 then sp_WINDO_in (k_session s) - 1 else k_in_i s - 1)"

definition window_next_packet_seq :: "nat \<Rightarrow> kermit \<Rightarrow> bool run" where
  "window_next_packet_seq seq s =
     (if k_in_n s = 0 then Inr True
      else andthen (slot (k_in_window s) (last_in s)) (\<lambda>x. Inr (seq = (ks_seq x + 1) mod 64)))"

section \<open>Negative acknowledgements\<close>

text \<open>
  The sequence number to ask for: that of the oldest slot not received, or the one after the
  newest.  Here the newest is looked for before index \<open>n - 1\<close>, not \<open>WINDO_in - 1\<close>, when the ring
  wraps, and the numbers are not reduced modulo 64.
\<close>

definition nak_seq :: "kermit \<Rightarrow> nat run" where
  "nak_seq s =
     andthen
       (if k_in_n s = 0 then Inr (k_sequence_number s + 1)
        else andthen (in_find (\<lambda>x. \<not> ks_acked x) s) (\<lambda>r.
          case r of
            Some j \<Rightarrow> andthen (slot (k_in_window s) j) (\<lambda>x. Inr (ks_seq x))
          | None \<Rightarrow>
              andthen (slot (k_in_window s) (if k_in_i s = 0 then k_in_n s - 1 else k_in_i s - 1)) (\<lambda>x. Inr (ks_seq x + 1))))
       (\<lambda>seq. Inr (if k_sequence_number s = 0 \<and> kp_seq (k_input s) = 0 then 0 else seq))"

definition nak_window :: "kermit \<Rightarrow> kermit run" where
  "nak_window s =
     andthen (window_next_packet_seq (kp_seq (k_input s)) s) (\<lambda>next_one.
       if \<not> next_one then Inr s
       else andthen (slot (k_in_window s) (k_in_begin s)) (\<lambda>x.
         if k_in_n s = sp_WINDO_in (k_session s) \<and> \<not> ks_acked x
         then Inr (s\<lparr>k_output := (k_output s)\<lparr>kp_parsed_ok := False\<rparr>\<rparr>)
         else check (0 < sp_WINDO_in (k_session s)) Assert_failed
           (if ks_acked x \<and> k_in_n s = sp_WINDO_in (k_session s) then
              andthen (if ks_type x = P_KDATA then write_slot x s else Inr s) (\<lambda>s1.
                let s2 = roll_off s1
                in andthen (slot (k_in_window s2) (k_in_i s2)) (\<lambda>y.
                     check (ks_data y = None) Assert_failed
                       (Inr (append_slot (y\<lparr>ks_type := kp_type (k_input s2), ks_seq := kp_seq (k_input s2),
                                            ks_try_count := 1, ks_acked := False\<rparr>) s2))))
            else Inr s)))"

definition nak_packet :: "kermit \<Rightarrow> kermit run" where
  "nak_packet s =
     check (\<not> k_sending s) Assert_failed
       (andthen (nak_seq s) (\<lambda>seq.
        andthen (set_output P_KNAK seq [] s) (\<lambda>s1.
          let s2 = k_stats_increment_errors (''NAK - SEQ %u'', Some (of_nat seq)) s1
          in if sp_windowing (k_session s2) then nak_window s2 else Inr s2)))"

text \<open>What \<open>decode_input_bytes\<close> does with every malformed packet.\<close>

definition nak_bad_packet :: "kermit \<Rightarrow> kermit run" where
  "nak_bad_packet s = (if k_sending s then Inr s else nak_packet s)"

section \<open>Storing a received packet\<close>

text \<open>
  Whether a packet was lost: the number lies within a window behind the newest slot, but not
  next to it.
\<close>

definition packet_lost :: "nat \<Rightarrow> nat \<Rightarrow> nat \<Rightarrow> bool" where
  "packet_lost seq seq_end seq_end_ws \<longleftrightarrow>
     (seq_end + 2 < seq_end_ws \<and> seq_end + 2 \<le> seq \<and> seq \<le> seq_end_ws) \<or>
     (seq_end_ws < seq_end + 2 \<and> (seq_end + 2 \<le> seq \<or> seq \<le> seq_end_ws))"

text \<open>Slots for the packets that are missing, up to the one received or until the window is full.\<close>

function fill_gap :: "nat \<Rightarrow> kermit \<Rightarrow> kermit run" where
  "fill_gap seq s =
     (if seq = kp_seq (k_input s) \<or> sp_WINDO_in (k_session s) \<le> k_in_n s then Inr s
      else (case slot (k_in_window s) (k_in_i s) of
              Inl e \<Rightarrow> Inl e
            | Inr x \<Rightarrow>
                if ks_data x \<noteq> None then Inl Assert_failed
                else fill_gap (Suc seq mod 64) (append_slot (x\<lparr>ks_seq := seq, ks_acked := False\<rparr>) s)))"
  by pat_completeness auto
termination
  by (relation "measure (\<lambda>(seq, s). sp_WINDO_in (k_session s) - k_in_n s)") (auto simp: append_slot_def)

declare fill_gap.simps [simp del]

definition input_slot :: "kermit \<Rightarrow> packet_serial \<Rightarrow> packet_serial" where
  "input_slot s x =
     x\<lparr>ks_seq := kp_seq (k_input s), ks_type := kp_type (k_input s), ks_acked := True,
       ks_data := Some (kp_data (k_input s))\<rparr>"

definition lost_packet :: "nat \<Rightarrow> kermit \<Rightarrow> kermit run" where
  "lost_packet seq_end s =
     (let seq = kp_seq (k_input s)
      in andthen (nak_packet (s\<lparr>k_input := (k_input s)\<lparr>kp_seq := (seq_end + 1) mod 64\<rparr>\<rparr>)) (\<lambda>s1.
         andthen (window_save_all (s1\<lparr>k_input := (k_input s1)\<lparr>kp_seq := seq\<rparr>\<rparr>)) (\<lambda>(_, s2).
         andthen (slot (k_in_window s2) (last_in s2)) (\<lambda>x.
         andthen (fill_gap ((ks_seq x + 1) mod 64) s2) (\<lambda>s3.
           if k_in_n s3 < sp_WINDO_in (k_session s3) then
             andthen (slot (k_in_window s3) (k_in_i s3)) (\<lambda>y.
               check (ks_data y = None) Assert_failed (Inr (append_slot (input_slot s3 y) s3)))
           else Inr s3)))))"

text \<open>\<open>find_input_slot\<close>: the slot for the packet, or \<open>None\<close> when it is to be ignored.\<close>

definition find_input_slot :: "kermit \<Rightarrow> (nat option \<times> kermit) run" where
  "find_input_slot s =
     check (kp_parsed_ok (k_input s)) Assert_failed
       (if k_in_n s = 0 then Inr (Some (k_in_i s), s)
        else andthen (slot (k_in_window s) (last_in s)) (\<lambda>x.
          let seq_end = ks_seq x; seq = kp_seq (k_input s)
          in if seq = (seq_end + 1) mod 64 then
               andthen (slot (k_in_window s) (k_in_begin s)) (\<lambda>y.
               andthen (if ks_type y = P_KDATA \<and> ks_acked y then write_slot y s else Inr s) (\<lambda>s1.
                 let s2 = (if ks_acked y \<and> k_in_n s1 = sp_WINDO_in (k_session s1) then roll_off s1 else s1)
                 in Inr (Some (k_in_i s2), s2)))
             else if packet_lost seq seq_end ((seq_end + sp_WINDO_in (k_session s)) mod 64) then
               andthen (lost_packet seq_end s) (\<lambda>s1. Inr (None, s1))
             else andthen (in_find (\<lambda>y. ks_seq y = seq) s) (\<lambda>r. Inr (r, s))))"

definition save_input_packet :: "kermit \<Rightarrow> kermit run" where
  "save_input_packet s =
     (if \<not> kp_parsed_ok (k_input s) \<or> k_sending s then Inr s
      else andthen (find_input_slot s) (\<lambda>(r, s1).
        case r of
          None \<Rightarrow> Inr (s1\<lparr>k_input := (k_input s1)\<lparr>kp_parsed_ok := False\<rparr>\<rparr>)
        | Some i \<Rightarrow>
            andthen (slot (k_in_window s1) i) (\<lambda>x.
              let s2 = s1\<lparr>k_in_window := (k_in_window s1)[i := (input_slot s1 x)\<lparr>ks_try_count := 0\<rparr>]\<rparr>
              in check (k_in_n s2 = sp_WINDO_in (k_session s2) \<longrightarrow> k_in_i s2 = k_in_begin s2) Assert_failed
                   (if i \<noteq> k_in_i s2 then Inr s2
                    else if k_in_n s2 < sp_WINDO_in (k_session s2)
                    then Inr (s2\<lparr>k_in_n := k_in_n s2 + 1, k_in_i := Suc (k_in_i s2) mod sp_WINDO_in (k_session s2),
                                 k_sequence_number := k_sequence_number s2 + 1\<rparr>)
                    else check (i = k_in_begin s2) Assert_failed
                           (Inr (s2\<lparr>k_sequence_number := k_sequence_number s2 + 1\<rparr>))))))"

section \<open>Packets sent\<close>

text \<open>\<open>find_output_slot\<close>: a window of one slot is not searched as a ring.\<close>

definition find_output_slot :: "kermit \<Rightarrow> nat option run" where
  "find_output_slot s =
     check (kp_parsed_ok (k_input s)) Assert_failed
       (let seq = kp_seq (k_input s)
        in if 1 < k_out_n s then out_find (\<lambda>x. ks_seq x = seq) s
           else if k_out_n s = 1 then
             andthen (slot (k_out_window s) (k_out_begin s)) (\<lambda>x. Inr (if ks_seq x = seq then Some (k_out_begin s) else None))
           else Inr None)"

definition resend_slot :: "nat \<Rightarrow> kermit \<Rightarrow> kermit run" where
  "resend_slot i s =
     andthen (slot (k_out_window s) i) (\<lambda>x.
       Inr (s\<lparr>k_out := k_out s @ slot_bytes x,
              k_out_window := (k_out_window s)[i := x\<lparr>ks_try_count := ks_try_count x + 1\<rparr>]\<rparr>))"

text \<open>The slots of the output window are freed; an empty one among them fails an assertion.\<close>

fun clear_ring :: "nat \<Rightarrow> nat \<Rightarrow> kermit \<Rightarrow> kermit run" where
  "clear_ring 0 i s = Inl Diverges"
| "clear_ring (Suc k) i s =
     andthen (slot (k_out_window s) i) (\<lambda>x.
       check (ks_data x \<noteq> None) Assert_failed
         (let s1 = s\<lparr>k_out_window := (k_out_window s)[i := x\<lparr>ks_data := None\<rparr>], k_out_n := k_out_n s - 1\<rparr>;
              j = Suc i mod sp_WINDO_out (k_session s)
          in if j = k_out_i s then Inr s1 else clear_ring k j s1))"

definition clear_out_window :: "kermit \<Rightarrow> kermit run" where
  "clear_out_window s =
     andthen (if k_out_n s = 0 then Inr s else clear_ring (Suc (sp_WINDO_out (k_session s))) (k_out_begin s) s)
       (\<lambda>s1. Inr (s1\<lparr>k_out_i := 0, k_out_begin := 0\<rparr>))"

definition drop_input :: "kermit \<Rightarrow> kermit" where
  "drop_input s = s\<lparr>k_input := (k_input s)\<lparr>kp_parsed_ok := False\<rparr>\<rparr>"

definition answer_to_slot :: "nat \<Rightarrow> kermit \<Rightarrow> kermit run" where
  "answer_to_slot i s =
     (if \<not> k_sending s then andthen (resend_slot i s) (\<lambda>s1. Inr (drop_input s1))
      else if kp_type (k_input s) = P_KACK then
        andthen (slot (k_out_window s) i) (\<lambda>x. Inr (s\<lparr>k_out_window := (k_out_window s)[i := x\<lparr>ks_acked := True\<rparr>]\<rparr>))
      else if kp_type (k_input s) = P_KNAK then
        andthen (resend_slot i (k_stats_increment_errors (''NAK - SEQ %u'', Some (of_nat (kp_seq (k_input s)))) s))
          (\<lambda>s1. Inr (drop_input s1))
      else andthen (k_sequence_error s) (\<lambda>s1. Inr (drop_input s1)))"

definition check_for_repeat :: "kermit \<Rightarrow> kermit run" where
  "check_for_repeat s =
     (if \<not> kp_parsed_ok (k_input s) then Inr s
      else if sp_streaming (k_session s) \<and> (k_state s = KM_RDW \<or> k_state s = KM_SDW) then Inr s
      else andthen (find_output_slot s) (\<lambda>r.
        case r of
          Some i \<Rightarrow> answer_to_slot i s
        | None \<Rightarrow>
            if k_sending s \<and> kp_seq (k_input s) = (k_sequence_number s + 1) mod 64 \<and> kp_type (k_input s) = P_KNAK then
              andthen (clear_out_window s) (\<lambda>s1.
                Inr (s1\<lparr>k_input := (k_input s1)\<lparr>kp_type := P_KACK, kp_seq := k_sequence_number s1 mod 64, kp_data := []\<rparr>\<rparr>))
            else Inr s))"

function move_out_window :: "kermit \<Rightarrow> kermit run" where
  "move_out_window s =
     (if k_out_n s = 0 then Inr s
      else (case slot (k_out_window s) (k_out_begin s) of
              Inl e \<Rightarrow> Inl e
            | Inr x \<Rightarrow>
                if \<not> ks_acked x then Inr s
                else move_out_window
                  (s\<lparr>k_out_n := k_out_n s - 1, k_out_window := (k_out_window s)[k_out_begin s := x\<lparr>ks_data := None\<rparr>],
                     k_out_begin := Suc (k_out_begin s) mod sp_WINDO_out (k_session s)\<rparr>)))"
  by pat_completeness auto
termination
  by (relation "measure k_out_n") auto

declare move_out_window.simps [simp del]

definition move_windows :: "kermit \<Rightarrow> kermit run" where
  "move_windows s = (if k_sending s then move_out_window s else Inr s)"

section \<open>Timeouts\<close>

text \<open>
  When everything was received the receiver asks for the packet before \<open>i\<close>; before index 0 it
  reads slot \<open>WINDO_in\<close>, which is outside the window.
\<close>

definition handle_timeout :: "kermit \<Rightarrow> kermit run" where
  "handle_timeout s =
     (if \<not> k_sending s then
        andthen
          (if 0 < k_in_n s then
             andthen (in_find (\<lambda>x. \<not> ks_acked x) s) (\<lambda>r.
               let j = (case r of Some j \<Rightarrow> j | None \<Rightarrow> if k_in_i s = 0 then sp_WINDO_in (k_session s) else k_in_i s - 1)
               in andthen (slot (k_in_window s) j) (\<lambda>x. Inr (ks_seq x)))
           else Inr (k_sequence_number s))
          (\<lambda>seq. nak_packet (s\<lparr>k_input := (k_input s)\<lparr>kp_seq := seq\<rparr>\<rparr>))
      else if sp_windowing (k_session s) \<and> 0 < k_out_n s then
        andthen (out_find (\<lambda>x. \<not> ks_acked x) s) (\<lambda>r.
          case r of Some i \<Rightarrow> resend_slot i s | None \<Rightarrow> Inl Abort_called)
      else Inr s)"

end
