(* ===== verification/Kermit_Frame.thy ===== *)
theory Kermit_Frame
  imports Kermit_Window
begin

text \<open>
  The frame of a packet: \<open>encode_output_packet\<close> turns the output packet into bytes and
  \<open>decode_input_bytes\<close> looks for a packet in the packet buffer, checks it and hands its data
  to the functions for its type.  The packet buffer is a fixed array: what is behind the
  bytes in use is left over from before.
\<close>

unbundle bit_operations_syntax

section \<open>Block checks\<close>

definition block_check :: "16 word list \<Rightarrow> bool \<Rightarrow> nat \<Rightarrow> byte \<Rightarrow> byte list \<Rightarrow> byte list" where
  "block_check tab seven check_type stale bs =
     (if check_type = 1 then [kermit_tochar (compute_checksum seven bs)]
      else if check_type = 2 then
        (let c = compute_checksum2 seven bs
         in [kermit_tochar (ucast (drop_bit 6 c AND 0x3F)), kermit_tochar (ucast (c AND 0x3F))])
      else if check_type = 12 then
        (let c = compute_checksum2 seven bs
         in [kermit_tochar (ucast ((drop_bit 6 c AND 0x3F) + 1)), kermit_tochar (ucast ((c AND 0x3F) + 1))])
      else if check_type = 3 then
        (let c = k_compute_crc16 tab seven bs
         in [kermit_tochar (ucast (drop_bit 12 c AND 0x0F)), kermit_tochar (ucast (drop_bit 6 c AND 0x3F)),
             kermit_tochar (ucast (c AND 0x3F))])
      else replicate check_type stale)"

definition check_length :: "nat \<Rightarrow> nat" where
  "check_length check_type = (if check_type = 12 then 2 else check_type)"

definition block_check_ok :: "16 word list \<Rightarrow> bool \<Rightarrow> nat \<Rightarrow> byte list \<Rightarrow> byte list \<Rightarrow> bool" where
  "block_check_ok tab seven check_type bs given \<longleftrightarrow>
     (if check_type = 1 then kermit_tochar (compute_checksum seven bs) = given ! 0
      else if check_type = 2 then
        uint (compute_checksum2 seven bs) =
          push_bit 6 (uint (kermit_unchar (given ! 0))) OR uint (kermit_unchar (given ! 1))
      else if check_type = 12 then
        uint (compute_checksum2 seven bs) =
          (uint (kermit_unchar (given ! 0)) - 1) * 64 OR (uint (kermit_unchar (given ! 1)) - 1)
      else if check_type = 3 then
        uint (k_compute_crc16 tab seven bs) =
          push_bit 12 (uint (kermit_unchar (given ! 0))) OR push_bit 6 (uint (kermit_unchar (given ! 1))) OR
          uint (kermit_unchar (given ! 2))
      else True)"

text \<open>The check of the header of a long packet.\<close>

definition header_check :: "byte list \<Rightarrow> nat" where
  "header_check bs =
     (let sum = sum_list (map unat bs) in (sum + (sum AND 192) div 64) AND 63)"

section \<open>Sending\<close>

definition output_check_type :: "kermit \<Rightarrow> nat" where
  "output_check_type s =
     (let t = kp_type (k_output s)
      in if t = P_KSINIT \<or> t = P_KNAK \<or> (t = P_KACK \<and> k_sequence_number s = 0) then 1 else k_check_type s)"

definition frame_header :: "bool \<Rightarrow> nat \<Rightarrow> byte \<Rightarrow> nat \<Rightarrow> nat \<Rightarrow> byte list" where
  "frame_header long_packet seq tc data_length check_len =
     (if long_packet then
        (let h = [kermit_tochar 0, kermit_tochar (of_nat seq), tc,
                  kermit_tochar (of_nat ((data_length + 3) div 95)), kermit_tochar (of_nat ((data_length + 3) mod 95))]
         in h @ [kermit_tochar (of_nat (header_check h))])
      else [kermit_tochar (of_nat (data_length + 2 + check_len)), kermit_tochar (of_nat seq), tc])"

text \<open>
  A file data packet counts as delivered at once when streaming or windowing.
\<close>

definition count_delivered :: "kermit \<Rightarrow> kermit run" where
  "count_delivered s =
     (if (sp_streaming (k_session s) \<or> sp_windowing (k_session s)) \<and> kp_type (k_output s) = P_KDATA then
        (let pos = k_file_position s + k_outstanding_bytes s
         in k_stats_increment_blocks
              (k_update_stats (\<lambda>t. t\<lparr>t_bytes_transfer := of_nat pos\<rparr>) (s\<lparr>k_file_position := pos\<rparr>)))
      else Inr s)"

definition encode_output_packet :: "kermit \<Rightarrow> kermit run" where
  "encode_output_packet s =
     (if \<not> kp_parsed_ok (k_output s) then Inr s
      else
        let long = (kp_type (k_output s) = P_KDATA \<and> sp_long_packets (k_session s));
            ct = output_check_type s
        in andthen (encode_data_field (s\<lparr>k_output := (k_output s)\<lparr>kp_long_packet := long\<rparr>\<rparr>)) (\<lambda>(data, s1).
             let body = frame_header long (kp_seq (k_output s1)) (type_char (kp_type (k_output s1))) (length data) (check_length ct) @ data;
                 frame = sp_MARK (k_session s1) # body @
                   block_check (k_crc_16_tab s1) (k_seven_bit_only s1) ct (uninit (k_world s1)) body @ [sp_EOL (k_session s1)]
             in count_delivered
                  (s1\<lparr>k_out := k_out s1 @ frame, k_output := (k_output s1)\<lparr>kp_parsed_ok := False\<rparr>\<rparr>)))"

section \<open>Receiving\<close>

text \<open>The result of the search: whether a packet was taken, and how many bytes to discard.\<close>

type_synonym decoded = "bool \<times> nat \<times> kermit"

definition bad_packet :: "kermit \<Rightarrow> decoded run" where
  "bad_packet s = andthen (nak_bad_packet s) (\<lambda>s1. Inr (True, k_packet_buffer_n s1, s1))"

definition update_input :: "(kermit_packet \<Rightarrow> kermit_packet) \<Rightarrow> kermit \<Rightarrow> kermit" where
  "update_input f s = s\<lparr>k_input := f (k_input s)\<rparr>"

definition input_check_type :: "nat \<Rightarrow> kermit \<Rightarrow> nat" where
  "input_check_type len s =
     (case kp_type (k_input s) of
        P_KSINIT \<Rightarrow> 1
      | P_KNAK \<Rightarrow> if 3 \<le> len \<and> len \<le> 5 then len - 2 else 1
      | _ \<Rightarrow> k_check_type s)"

text \<open>The payload of a packet whose frame is right.\<close>

definition process_payload :: "kermit \<Rightarrow> kermit run" where
  "process_payload s =
     (case kp_type (k_input s) of
        P_KSINIT \<Rightarrow> (case process_send_init s of (ok, s1) \<Rightarrow> Inr (update_input (kp_parsed_ok_update (\<lambda>_. ok)) s1))
      | P_KFILE \<Rightarrow> process_file_header s
      | P_KATTRIBUTES \<Rightarrow> andthen (process_attributes s) (\<lambda>(ok, s1). Inr (update_input (kp_parsed_ok_update (\<lambda>_. ok)) s1))
      | P_KERROR \<Rightarrow> process_error_packet s
      | P_KRESERVED1 \<Rightarrow> k_abort_message ''ERROR - WRONG PACKET TYPE'' ''Improper packet type'' (drop_input s)
      | P_KRESERVED2 \<Rightarrow> k_abort_message ''ERROR - WRONG PACKET TYPE'' ''Improper packet type'' (drop_input s)
      | P_KNAK \<Rightarrow>
          if k_sending s \<and> sp_streaming (k_session s) \<and> (k_state s = KM_SDW \<or> k_state s = KM_SZ)
          then k_abort_message ''ERROR - NAK WHILE STREAMING'' ''NAK while streaming'' (drop_input s) else Inr s
      | _ \<Rightarrow> Inr s)"

text \<open>
  From the length on: \<open>m\<close> is the index of the mark, \<open>h\<close> the length of the header after it (3, or
  6 for a long packet) and \<open>n\<close> the number of bytes after that header.
\<close>

definition decode_body :: "nat \<Rightarrow> nat \<Rightarrow> nat \<Rightarrow> nat \<Rightarrow> kermit \<Rightarrow> decoded run" where
  "decode_body m h n len s =
     (let buf = k_packet_buffer s;
          ct = input_check_type len s;
          span = h + n - check_length ct
      in check (m + 1 + span + check_length ct \<le> length buf) Buffer_overflow
           (if \<not> block_check_ok (k_crc_16_tab s) (k_seven_bit_only s) ct (take span (drop (m + 1) buf)) (drop (m + 1 + span) buf)
            then bad_packet s
            else andthen (decode_data_field (drop (m + 1 + h) buf) (int n - int (check_length ct)) s) (\<lambda>(res, s1).
              case res of
                None \<Rightarrow> bad_packet s1
              | Some _ \<Rightarrow>
                  andthen (process_payload (update_input (kp_parsed_ok_update (\<lambda>_. True)) s1)) (\<lambda>s2.
                    Inr (True, m + 1 + h + n, s2)))))"

definition decode_long :: "nat \<Rightarrow> kermit \<Rightarrow> decoded run" where
  "decode_long m s =
     (let buf = k_packet_buffer s;
          n = unat (kermit_unchar (buf ! (m + 4))) * 95 + unat (kermit_unchar (buf ! (m + 5)));
          s1 = update_input (kp_length_update (\<lambda>_. n)) s
      in if long_length (k_session s) < n then bad_packet s1
         else
           let s2 = update_input (kp_length_update (\<lambda>_. n + 5)) s1
           in if unat (kermit_unchar (buf ! (m + 6))) \<noteq> header_check (take 5 (drop (m + 1) buf)) then bad_packet s2
              else if m + 7 \<le> k_packet_buffer_n s \<and> k_packet_buffer_n s - (m + 7) < n then Inr (False, m, s2)
              else decode_body m 6 n 0 s2)"

definition decode_header :: "nat \<Rightarrow> kermit \<Rightarrow> decoded run" where
  "decode_header m s =
     (let buf = k_packet_buffer s;
          n = k_packet_buffer_n s;
          len = unat (kermit_unchar (buf ! (m + 1)));
          long = (len = 0);
          s1 = update_input (\<lambda>p. p\<lparr>kp_length := len, kp_long_packet := long \<and> sp_long_packets (k_session s)\<rparr>) s
      in if (long \<and> \<not> sp_long_packets (k_session s)) \<or> len = 1 \<or> len = 2 then bad_packet s1
         else if \<not> long \<and> unat (sp_MAXL (k_session s)) < len then bad_packet s1
         else if m + 2 \<le> n \<and> n - (m + 2) < (if long then 5 else len) then Inr (False, m, s1)
         else check (m + (if long then 6 else 3) < length buf) Buffer_overflow
           (let seq = unat (kermit_unchar (buf ! (m + 2)));
                s2 = update_input (kp_seq_update (\<lambda>_. seq)) s1
            in if 63 < seq then bad_packet s2
               else
                 let s3 = update_input (kp_type_update (\<lambda>_. packet_type (buf ! (m + 3)))) s2
                 in if long then decode_long m s3 else decode_body m 3 (len - 2) len s3))"

definition decode_input_bytes :: "kermit \<Rightarrow> decoded run" where
  "decode_input_bytes s =
     (let n = k_packet_buffer_n s;
          m = length (takeWhile (\<lambda>b. b \<noteq> sp_MARK (k_session s)) (take n (k_packet_buffer s)));
          s0 = update_input (\<lambda>p. p\<lparr>kp_parsed_ok := False, kp_seq := 0, kp_type := P_KSINIT, kp_length := 0,
                                   kp_long_packet := False, kp_data := []\<rparr>) s
      in if n < 5 then Inr (False, 0, s)
         else if m = n then Inr (False, n, s0)
         else check (m + 1 < length (k_packet_buffer s)) Buffer_overflow (decode_header m s0))"

end
