(* ===== verification/Kermit_Progress.thy ===== *)
theory Kermit_Progress
  imports Kermit_Frame
begin

text \<open>
  What every operation of the Kermit engine leaves alone.  \<open>k_frame s t\<close>: from \<open>s\<close> to \<open>t\<close> the packet
  buffer, the length of long packets and the direction are the same, the engine does not
  fall back to its first state, and no input packet appears.  The loops of the engine end
  because of this.
\<close>

section \<open>The frame\<close>

definition b_frame :: "kermit \<Rightarrow> kermit \<Rightarrow> bool" where
  "b_frame s t \<longleftrightarrow> k_packet_buffer t = k_packet_buffer s \<and> k_packet_buffer_n t = k_packet_buffer_n s \<and>
     long_length (k_session t) = long_length (k_session s) \<and> k_sending t = k_sending s"

definition k_frame :: "kermit \<Rightarrow> kermit \<Rightarrow> bool" where
  "k_frame s t \<longleftrightarrow> b_frame s t \<and> (k_state s \<noteq> K_INIT \<longrightarrow> k_state t \<noteq> K_INIT) \<and>
     (\<not> kp_parsed_ok (k_input s) \<longrightarrow> \<not> kp_parsed_ok (k_input t))"

lemmas frame_defs = k_frame_def b_frame_def

lemma k_frame_refl [simp]: "k_frame s s"
  by (simp add: frame_defs)

lemma k_frame_trans: "k_frame s t \<Longrightarrow> k_frame t u \<Longrightarrow> k_frame s u"
  by (auto simp: frame_defs)

lemma k_frame_update [simp]:
  "k_frame s (t\<lparr>k_check_type := v0\<rparr>) = k_frame s t"
  "k_frame s (t\<lparr>k_sequence_number := v1\<rparr>) = k_frame s t"
  "k_frame s (t\<lparr>k_file_name := v2\<rparr>) = k_frame s t"
  "k_frame s (t\<lparr>k_file_size := v3\<rparr>) = k_frame s t"
  "k_frame s (t\<lparr>k_file_size_k := v4\<rparr>) = k_frame s t"
  "k_frame s (t\<lparr>k_file_modtime := v5\<rparr>) = k_frame s t"
  "k_frame s (t\<lparr>k_file_position := v6\<rparr>) = k_frame s t"
  "k_frame s (t\<lparr>k_file_stream := v7\<rparr>) = k_frame s t"
  "k_frame s (t\<lparr>k_file_protection := v8\<rparr>) = k_frame s t"
  "k_frame s (t\<lparr>k_outstanding_bytes := v9\<rparr>) = k_frame s t"
  "k_frame s (t\<lparr>k_block_size := v10\<rparr>) = k_frame s t"
  "k_frame s (t\<lparr>k_access := v11\<rparr>) = k_frame s t"
  "k_frame s (t\<lparr>k_timeout_begin := v12\<rparr>) = k_frame s t"
  "k_frame s (t\<lparr>k_timeout_count := v13\<rparr>) = k_frame s t"
  "k_frame s (t\<lparr>k_first_R := v14\<rparr>) = k_frame s t"
  "k_frame s (t\<lparr>k_first_S := v15\<rparr>) = k_frame s t"
  "k_frame s (t\<lparr>k_first_SB := v16\<rparr>) = k_frame s t"
  "k_frame s (t\<lparr>k_sent_nak := v17\<rparr>) = k_frame s t"
  "k_frame s (t\<lparr>k_skip_file := v18\<rparr>) = k_frame s t"
  "k_frame s (t\<lparr>k_text_mode := v19\<rparr>) = k_frame s t"
  "k_frame s (t\<lparr>k_seven_bit_only := v20\<rparr>) = k_frame s t"
  "k_frame s (t\<lparr>k_do_resend := v21\<rparr>) = k_frame s t"
  "k_frame s (t\<lparr>k_is_first_data_packet := v22\<rparr>) = k_frame s t"
  "k_frame s (t\<lparr>k_file_fullname := v23\<rparr>) = k_frame s t"
  "k_frame s (t\<lparr>k_upload_file_list := v24\<rparr>) = k_frame s t"
  "k_frame s (t\<lparr>k_upload_file_list_i := v25\<rparr>) = k_frame s t"
  "k_frame s (t\<lparr>k_download_path := v26\<rparr>) = k_frame s t"
  "k_frame s (t\<lparr>k_local := v27\<rparr>) = k_frame s t"
  "k_frame s (t\<lparr>k_remote := v28\<rparr>) = k_frame s t"
  "k_frame s (t\<lparr>k_output := v29\<rparr>) = k_frame s t"
  "k_frame s (t\<lparr>k_in_window := v30\<rparr>) = k_frame s t"
  "k_frame s (t\<lparr>k_in_begin := v31\<rparr>) = k_frame s t"
  "k_frame s (t\<lparr>k_in_i := v32\<rparr>) = k_frame s t"
  "k_frame s (t\<lparr>k_in_n := v33\<rparr>) = k_frame s t"
  "k_frame s (t\<lparr>k_out_window := v34\<rparr>) = k_frame s t"
  "k_frame s (t\<lparr>k_out_begin := v35\<rparr>) = k_frame s t"
  "k_frame s (t\<lparr>k_out_i := v36\<rparr>) = k_frame s t"
  "k_frame s (t\<lparr>k_out_n := v37\<rparr>) = k_frame s t"
  "k_frame s (t\<lparr>k_ctrl_c_count := v38\<rparr>) = k_frame s t"
  "k_frame s (t\<lparr>k_crc_16_tab := v39\<rparr>) = k_frame s t"
  "k_frame s (t\<lparr>k_opt := v40\<rparr>) = k_frame s t"
  "k_frame s (t\<lparr>k_strftime := v41\<rparr>) = k_frame s t"
  "k_frame s (t\<lparr>k_strptime := v42\<rparr>) = k_frame s t"
  "k_frame s (t\<lparr>k_modes := v43\<rparr>) = k_frame s t"
  "k_frame s (t\<lparr>k_stats := v44\<rparr>) = k_frame s t"
  "k_frame s (t\<lparr>k_world := v45\<rparr>) = k_frame s t"
  "k_frame s (t\<lparr>k_out := v46\<rparr>) = k_frame s t"
  by (simp_all add: frame_defs)

lemma k_frame_update_cond [simp]:
  "v \<noteq> K_INIT \<Longrightarrow> k_frame s t \<Longrightarrow> k_frame s (t\<lparr>k_state := v\<rparr>)"
  "(kp_parsed_ok p \<longrightarrow> kp_parsed_ok (k_input t)) \<Longrightarrow> k_frame s t \<Longrightarrow> k_frame s (t\<lparr>k_input := p\<rparr>)"
  "long_length q = long_length (k_session t) \<Longrightarrow> k_frame s t \<Longrightarrow> k_frame s (t\<lparr>k_session := q\<rparr>)"
  by (auto simp: frame_defs)

definition kept :: "kermit \<Rightarrow> kermit run \<Rightarrow> bool" where
  "kept s r = yields (k_frame s) r"

definition kept2 :: "kermit \<Rightarrow> ('a \<times> kermit) run \<Rightarrow> bool" where
  "kept2 s r = yields (\<lambda>x. k_frame s (snd x)) r"

lemma kept_simps [simp]:
  "kept s (Inl e)" "kept s (Inr t) = k_frame s t" "kept2 s (Inl e)" "kept2 s (Inr x) = k_frame s (snd x)"
  by (simp_all add: kept_def kept2_def)

lemma kept_check [intro!]:
  "(b \<Longrightarrow> kept s r) \<Longrightarrow> kept s (check b e r)" "(b \<Longrightarrow> kept2 s q) \<Longrightarrow> kept2 s (check b e q)"
  by (simp_all add: kept_def kept2_def check_def)

lemma kept_andthen [intro!]:
  "kept s r \<Longrightarrow> (\<And>t. k_frame s t \<Longrightarrow> kept s (f t)) \<Longrightarrow> kept s (andthen r f)"
  "kept s r \<Longrightarrow> (\<And>t. k_frame s t \<Longrightarrow> kept2 s (g t)) \<Longrightarrow> kept2 s (andthen r g)"
  "kept2 s q \<Longrightarrow> (\<And>x t. k_frame s t \<Longrightarrow> kept s (h (x, t))) \<Longrightarrow> kept s (andthen q h)"
  "kept2 s q \<Longrightarrow> (\<And>x t. k_frame s t \<Longrightarrow> kept2 s (k (x, t))) \<Longrightarrow> kept2 s (andthen q k)"
  by (auto simp: kept_def kept2_def yields_iff andthen_eq_Inr)

lemma kept_andthen_value:
  "(\<And>x. kept s (f x)) \<Longrightarrow> kept s (andthen r f)" "(\<And>x. kept2 s (g x)) \<Longrightarrow> kept2 s (andthen r g)"
  by (auto simp: kept_def kept2_def intro: yields_andthen_any)

lemmas kept_values [intro!] =
  kept_andthen_value [where r = "r :: packet_serial run" for r] kept_andthen_value [where r = "r :: nat run" for r]
  kept_andthen_value [where r = "r :: bool run" for r] kept_andthen_value [where r = "r :: nat option run" for r]
  kept_andthen_value [where r = "r :: byte list run" for r]

lemma kept_trans: "k_frame s t \<Longrightarrow> kept t r \<Longrightarrow> kept s r" "k_frame s t \<Longrightarrow> kept2 t q \<Longrightarrow> kept2 s q"
  by (auto simp: kept_def kept2_def yields_iff intro: k_frame_trans)

section \<open>Bookkeeping and packets\<close>

named_theorems kept_intros \<open>operations that keep the frame\<close>

lemma bookkeeping_frame [simp]:
  "k_frame s (k_update_stats f t) = k_frame s t" "k_frame s (k_last_message m t) = k_frame s t"
  "k_frame s (kermit_stop b t) = k_frame s t" "k_frame s (k_stop_file_transfer st t) = k_frame s t"
  "k_frame s (k_stats_new_file p z t) = k_frame s t" "k_frame s (k_stats_increment_errors e t) = k_frame s t"
  "k_frame s (roll_off t) = k_frame s t" "k_frame s (append_slot x t) = k_frame s t"
  "k_frame s (k_reset_timer t) = k_frame s t"
  by (simp_all add: frame_defs k_update_stats_def k_last_message_def kermit_stop_def k_stop_file_transfer_def
      k_stats_new_file_def k_stats_increment_errors_def roll_off_def append_slot_def k_reset_timer_def Let_def)

lemma bookkeeping_sel [simp]:
  "k_state (k_update_stats f t) = k_state t" "k_state (k_last_message m t) = k_state t"
  "k_state (k_stop_file_transfer st t) = k_state t" "k_input (k_update_stats f t) = k_input t"
  "k_input (k_last_message m t) = k_input t" "k_input (k_stop_file_transfer st t) = k_input t"
  by (simp_all add: k_update_stats_def k_last_message_def kermit_stop_def k_stop_file_transfer_def Let_def)

lemma drop_input_frame [simp]: "k_frame s t \<Longrightarrow> k_frame s (drop_input t)"
  by (simp add: frame_defs drop_input_def)

lemma drop_input_sel [simp]: "k_state (drop_input s) = k_state s" "\<not> kp_parsed_ok (k_input (drop_input s))"
  by (simp_all add: drop_input_def)

lemma set_output_kept [kept_intros]: "k_frame s t \<Longrightarrow> kept s (set_output ty q bs t)"
  by (auto simp: set_output_def)

lemma error_packet_kept [kept_intros]: "k_frame s t \<Longrightarrow> kept s (error_packet m t)"
  by (simp add: error_packet_def set_output_kept)

lemma k_abort_message_kept [kept_intros]: "k_frame s t \<Longrightarrow> kept s (k_abort_message a b t)"
  by (auto simp: k_abort_message_def intro!: error_packet_kept)

lemma k_sequence_error_kept [kept_intros]: "k_frame s t \<Longrightarrow> kept s (k_sequence_error t)"
  by (simp add: k_sequence_error_def k_abort_message_kept)

lemma k_stats_increment_blocks_kept [kept_intros]: "k_frame s t \<Longrightarrow> kept s (k_stats_increment_blocks t)"
  by (auto simp: k_stats_increment_blocks_def Let_def)

lemma k_check_timeout_kept [kept_intros]: "k_frame s t \<Longrightarrow> kept2 s (k_check_timeout t)"
  unfolding k_check_timeout_def Let_def
  by (auto intro!: kept_intros)

lemma send_packets_kept [kept_intros]:
  "k_frame s t \<Longrightarrow> kept s (send_file_header t)" "k_frame s t \<Longrightarrow> kept s (send_file_attributes t)"
  "k_frame s t \<Longrightarrow> kept2 s (send_file_data t)" "k_frame s t \<Longrightarrow> kept s (send_eof t)" "k_frame s t \<Longrightarrow> kept s (send_eot t)"
  "k_frame s t \<Longrightarrow> kept s (ack_send_init t)" "k_frame s t \<Longrightarrow> kept s (ack_packet b t)"
  "k_frame s t \<Longrightarrow> kept s (ack_packet_param bs t)" "k_frame s t \<Longrightarrow> kept s (ack_file_packet t)"
  by (auto simp: send_file_header_def send_file_attributes_def send_file_data_def send_eof_def send_eot_def Let_def
      ack_send_init_def ack_packet_def ack_packet_param_def ack_file_packet_def split: option.split
      intro!: kept_intros)

lemma negotiate_parameters_long [simp]:
  "long_length (negotiate_capas l r (negotiate_rept l r (negotiate_chkt l r (negotiate_qbin l r (negotiate_lengths l r p))))) =
   long_length p"
  by (simp add: long_length_def negotiate_capas_def negotiate_rept_def negotiate_chkt_def negotiate_qbin_def
      negotiate_lengths_def Let_def)

lemma long_length_update [simp]:
  "long_length (p\<lparr>sp_windowing := b\<rparr>) = long_length p" "long_length (p\<lparr>sp_WINDO := w\<rparr>) = long_length p"
  "long_length (p\<lparr>sp_WINDO_in := i\<rparr>) = long_length p" "long_length (p\<lparr>sp_WINDO_out := i\<rparr>) = long_length p"
  "long_length (p\<lparr>sp_CAPAS := c\<rparr>) = long_length p"
  by (simp_all add: long_length_def)

lemma negotiate_windows_kept [kept_intros]: "k_frame s t \<Longrightarrow> kept s (negotiate_windows t)"
  by (auto simp: negotiate_windows_def Let_def)

lemma negotiate_send_init_kept [kept_intros]: "k_frame s t \<Longrightarrow> kept s (negotiate_send_init t)"
  unfolding negotiate_send_init_def Let_def
  by (auto intro!: negotiate_windows_kept)

section \<open>Files\<close>

lemma k_set_fullname_kept [kept_intros]: "k_frame s t \<Longrightarrow> kept s (k_set_fullname n t)"
  by (auto simp: k_set_fullname_def)

lemma k_unused_name_kept [kept_intros]: "k_frame s t \<Longrightarrow> kept2 s (k_unused_name b i t)"
proof (induction b i t rule: k_unused_name.induct)
  case (1 b i t)
  show ?case
    by (subst k_unused_name.simps)
      (use 1 in \<open>auto split: stat_result.split intro!: k_set_fullname_kept\<close>)
qed

lemma existing_file_frame: "existing_file n t = (b, u) \<Longrightarrow> k_frame s t \<Longrightarrow> k_frame s u"
  by (auto simp: existing_file_def split: k_access.splits if_split_asm)

lemma disk_error_kept [kept_intros]: "k_frame s t \<Longrightarrow> kept2 s (disk_error t)"
  by (auto simp: disk_error_def intro!: kept_intros)

lemma ack_attributes_kept [kept_intros]: "k_frame s t \<Longrightarrow> kept s (ack_attributes t)"
  by (auto simp: ack_attributes_def intro!: kept_intros)

lemma finish_open_kept [kept_intros]: "k_frame s t \<Longrightarrow> kept2 s (finish_open b t)"
  by (auto simp: finish_open_def Let_def split: option.split intro!: kept_intros)

lemma open_receive_file_kept [kept_intros]: "k_frame s t \<Longrightarrow> kept2 s (open_receive_file t)"
  unfolding open_receive_file_def
  by (auto split: option.split stat_result.split prod.split bool.split intro!: kept_intros
      dest: existing_file_frame)

lemma k_setup_for_next_file_kept [kept_intros]: "k_frame s t \<Longrightarrow> kept2 s (k_setup_for_next_file t)"
  unfolding k_setup_for_next_file_def Let_def
  by (auto split: option.split prod.split intro!: kept_intros)

lemma terminate_input_kept [kept_intros]: "k_frame s t \<Longrightarrow> kept s (terminate_input t)"
  by (auto simp: terminate_input_def)

lemma process_file_header_kept [kept_intros]: "k_frame s t \<Longrightarrow> kept s (process_file_header t)"
  by (auto simp: process_file_header_def Let_def intro!: kept_intros)

lemma apply_attribute_frame: "k_frame s t \<Longrightarrow> k_frame s (apply_attribute ty v ch t)"
  by (simp add: apply_attribute_def set_access_def)

lemma read_attributes_frame: "read_attributes bs prot t = (e, p, u) \<Longrightarrow> k_frame s t \<Longrightarrow> k_frame s u"
  by (induction bs prot t rule: read_attributes.induct) (auto simp: Let_def apply_attribute_frame split: if_split_asm)

lemma process_attributes_kept [kept_intros]: "k_frame s t \<Longrightarrow> kept2 s (process_attributes t)"
  unfolding process_attributes_def
  by (auto split: prod.split attributes_end.split intro!: kept_intros dest: read_attributes_frame)

lemma process_error_packet_kept [kept_intros]: "k_frame s t \<Longrightarrow> kept s (process_error_packet t)"
  by (auto simp: process_error_packet_def Let_def intro!: kept_intros)

lemma encode_data_field_kept [kept_intros]: "k_frame s t \<Longrightarrow> kept2 s (encode_data_field t)"
  by (auto simp: encode_data_field_def Let_def split: option.split prod.split)

lemma decode_data_field_kept [kept_intros]: "k_frame s t \<Longrightarrow> kept2 s (decode_data_field bs n t)"
  unfolding decode_data_field_def Let_def
  by (auto split: option.split intro!: kept_intros)

section \<open>Windows\<close>

lemma write_slot_kept [kept_intros]: "k_frame s t \<Longrightarrow> kept s (write_slot x t)"
  by (auto simp: write_slot_def Let_def split: option.splits intro!: kept_intros)

lemma window_save_all_kept [kept_intros]: "k_frame s t \<Longrightarrow> kept2 s (window_save_all t)"
proof (induction t rule: window_save_all.induct)
  case (1 t)
  have "k_frame s u" if "(if ks_type x = P_KDATA then write_slot x t else Inr t) = Inr u" for u x
    using write_slot_kept [OF 1(2), of x] that 1(2) by (auto split: if_split_asm)
  then show ?case
    by (subst window_save_all.simps) (use 1 in \<open>auto split: sum.split\<close>)
qed

lemma nak_window_kept [kept_intros]: "k_frame s t \<Longrightarrow> kept s (nak_window t)"
  unfolding nak_window_def Let_def
  by (auto intro!: kept_intros)

lemma nak_packet_kept [kept_intros]: "k_frame s t \<Longrightarrow> kept s (nak_packet t)"
  unfolding nak_packet_def Let_def
  by (auto intro!: kept_intros)

lemma nak_bad_packet_kept [kept_intros]: "k_frame s t \<Longrightarrow> kept s (nak_bad_packet t)"
  by (auto simp: nak_bad_packet_def intro!: kept_intros)

lemma fill_gap_kept [kept_intros]: "k_frame s t \<Longrightarrow> kept s (fill_gap q t)"
proof (induction q t rule: fill_gap.induct)
  case (1 q t)
  show ?case
    by (subst fill_gap.simps) (use 1 in \<open>auto split: sum.split\<close>)
qed

lemma lost_packet_kept [kept_intros]: "k_frame s t \<Longrightarrow> kept s (lost_packet q t)"
  unfolding lost_packet_def Let_def
  by (auto intro!: kept_intros)

lemma find_input_slot_kept [kept_intros]: "k_frame s t \<Longrightarrow> kept2 s (find_input_slot t)"
  unfolding find_input_slot_def Let_def
  by (auto intro!: kept_intros)

lemma save_input_packet_kept [kept_intros]: "k_frame s t \<Longrightarrow> kept s (save_input_packet t)"
  unfolding save_input_packet_def Let_def
  by (auto split: option.split intro!: kept_intros)

lemma resend_slot_kept [kept_intros]: "k_frame s t \<Longrightarrow> kept s (resend_slot i t)"
  by (auto simp: resend_slot_def)

lemma clear_ring_kept [kept_intros]: "k_frame s t \<Longrightarrow> kept s (clear_ring k i t)"
  by (induction k i t rule: clear_ring.induct) (auto simp: Let_def)

lemma clear_out_window_kept [kept_intros]: "k_frame s t \<Longrightarrow> kept s (clear_out_window t)"
  by (auto simp: clear_out_window_def simp del: clear_ring.simps intro!: kept_intros)

lemma answer_to_slot_kept [kept_intros]: "k_frame s t \<Longrightarrow> kept s (answer_to_slot i t)"
  by (auto simp: answer_to_slot_def intro!: kept_intros)

lemma check_for_repeat_kept [kept_intros]: "k_frame s t \<Longrightarrow> kept s (check_for_repeat t)"
  by (auto simp: check_for_repeat_def split: option.split intro!: kept_intros)

lemma move_windows_kept [kept_intros]: "k_frame s t \<Longrightarrow> kept s (move_windows t)"
proof -
  have "k_frame s t \<Longrightarrow> kept s (move_out_window t)"
  proof (induction t rule: move_out_window.induct)
    case (1 t)
    show ?case
      by (subst move_out_window.simps) (use 1 in \<open>auto split: sum.split\<close>)
  qed
  then show "k_frame s t \<Longrightarrow> kept s (move_windows t)" by (simp add: move_windows_def)
qed

lemma handle_timeout_kept [kept_intros]: "k_frame s t \<Longrightarrow> kept s (handle_timeout t)"
  by (auto simp: handle_timeout_def Let_def split: option.split intro!: kept_intros)

lemma count_delivered_kept [kept_intros]: "k_frame s t \<Longrightarrow> kept s (count_delivered t)"
  by (auto simp: count_delivered_def Let_def intro!: kept_intros)

lemma encode_output_packet_kept [kept_intros]: "k_frame s t \<Longrightarrow> kept s (encode_output_packet t)"
  by (auto simp: encode_output_packet_def Let_def intro!: kept_intros)

end
