(* ===== verification/Kermit_Engine.thy ===== *)
theory Kermit_Engine
  imports Kermit_Progress
begin

text \<open>
  The states of the Kermit engine for receiving and sending, its entry point \<open>kermit\<close> and the
  start of a transfer.  The loops over the states end by the measures given; the main loop
  and the loops that free the windows of the transfer before may run for ever: their value
  is then \<open>None\<close>.
\<close>

section \<open>Receiving\<close>

definition receive_R :: "kermit \<Rightarrow> (bool \<times> kermit) run" where
  "receive_R s =
     (let s1 = (if k_first_R s then (k_last_message ''WAITING FOR SEND-INIT...'' s)\<lparr>k_first_R := False\<rparr> else s)
      in if \<not> kp_parsed_ok (k_input s1) then Inr (True, s1)
         else if kp_type (k_input s1) = P_KSINIT then
           andthen (negotiate_send_init (k_last_message ''ACK SEND-INIT'' s1)) (\<lambda>s2.
           andthen (ack_send_init s2) (\<lambda>s3.
             Inr (True, (k_last_message ''WAITING FOR FILE HEADER...'' (drop_input s3))\<lparr>k_state := KM_RF\<rparr>)))
         else andthen (k_sequence_error s1) (\<lambda>s2. Inr (True, s2)))"

definition receive_RF :: "kermit \<Rightarrow> (bool \<times> kermit) run" where
  "receive_RF s =
     (if \<not> kp_parsed_ok (k_input s) then Inr (True, s)
      else if kp_type (k_input s) = P_KFILE then
        andthen (ack_file_packet (k_last_message ''FILE HEADER'' s)) (\<lambda>s1.
          Inr (True, (k_last_message ''WAITING FOR ATTRIBUTES OR FILE DATA...'' (drop_input s1))\<lparr>k_state := KM_RDW\<rparr>))
      else if kp_type (k_input s) = P_KBREAK then
        andthen (ack_packet True (k_last_message ''END OF TRANSMISSION'' (drop_input s))) (\<lambda>s1.
          Inr (True, k_update_stats (\<lambda>t. t\<lparr>t_end_time := now (k_world s1)\<rparr>)
            (k_stop_file_transfer Q_TRANSFER_STATE_END (k_last_message ''SUCCESS'' (s1\<lparr>k_state := K_COMPLETE\<rparr>)))))
      else andthen (k_sequence_error s) (\<lambda>s1. Inr (True, s1)))"

text \<open>The end of a file: its mode, its times and the acknowledgement.\<close>

definition finish_file :: "kermit \<Rightarrow> kermit run" where
  "finish_file s =
     (case k_file_stream s of
        None \<Rightarrow> Inl Null_stream
      | Some f \<Rightarrow>
          check (k_file_name s \<noteq> None) Assert_failed
            (Inr (s\<lparr>k_modes := (if k_file_protection s \<noteq> 0xFFFF then (k_modes s)(s_path f \<mapsto> k_file_protection s) else k_modes s),
                    k_world := utime (k_file_fullname s) (k_file_modtime s) (fclose f (k_world s)),
                    k_file_name := None, k_file_stream := None\<rparr>)))"

definition receive_eof :: "kermit \<Rightarrow> (bool \<times> kermit) run" where
  "receive_eof s =
     (let skipped = (kp_data (k_input s) \<noteq> [] \<and> hd (kp_data (k_input s)) = 68)
      in andthen (if \<not> skipped \<and> sp_windowing (k_session s) then window_save_all s else Inr (True, s)) (\<lambda>(all_saved, s1).
           if \<not> all_saved then andthen (nak_packet s1) (\<lambda>s2. Inr (False, drop_input s2))
           else
             let s2 = k_update_stats (\<lambda>t. t\<lparr>t_state := Q_TRANSFER_STATE_FILE_DONE\<rparr>)
                        (k_last_message (if skipped then ''SKIP FILE'' else ''EOF'') s1)
             in andthen (finish_file s2) (\<lambda>s3.
                andthen (ack_packet True s3) (\<lambda>s4.
                  Inr (False, (k_last_message ''WAITING FOR FILE HEADER...'' (drop_input s4))\<lparr>k_state := KM_RF\<rparr>)))))"

definition k_receive_data :: "kermit \<Rightarrow> (bool \<times> kermit) run" where
  "k_receive_data s =
     (let s1 = k_update_stats (\<lambda>t. t\<lparr>t_bytes_transfer := of_nat (k_file_position s)\<rparr>)
                 ((k_last_message ''DATA'' s)\<lparr>k_block_size := kp_length (k_input s)\<rparr>)
      in andthen (k_stats_increment_blocks s1) (\<lambda>s2.
         andthen (ack_packet False s2) (\<lambda>s3. Inr (True, drop_input s3))))"

definition receive_attributes :: "kermit \<Rightarrow> (bool \<times> kermit) run" where
  "receive_attributes s =
     (let s1 = k_last_message ''ATTRIBUTES'' s
      in andthen (if k_file_stream s1 = None then open_receive_file s1 else Inr (True, s1))
           (\<lambda>(_, s2). Inr (True, drop_input s2)))"

definition receive_RDW :: "kermit \<Rightarrow> (bool \<times> kermit) run" where
  "receive_RDW s =
     (if \<not> kp_parsed_ok (k_input s) then Inr (True, s)
      else (case kp_type (k_input s) of
              P_KEOF \<Rightarrow> receive_eof s
            | P_KDATA \<Rightarrow> k_receive_data s
            | P_KATTRIBUTES \<Rightarrow> receive_attributes s
            | _ \<Rightarrow> andthen (k_sequence_error s) (\<lambda>s1. Inr (True, s1))))"

definition k_receive_step :: "kermit \<Rightarrow> (bool \<times> kermit) run" where
  "k_receive_step s =
     (case k_state s of
        K_INIT \<Rightarrow> Inr (False, s\<lparr>k_state := KM_R, k_text_mode := False\<rparr>)
      | KM_R \<Rightarrow> receive_R s
      | KM_RF \<Rightarrow> receive_RF s
      | KM_RDW \<Rightarrow> receive_RDW s
      | K_ABORT \<Rightarrow> Inr (True, s)
      | K_COMPLETE \<Rightarrow> Inr (True, s)
      | _ \<Rightarrow> Inl Abort_called)"

text \<open>How many more steps there can be: a step that is not the last one uses up the packet.\<close>

definition steps_left :: "kermit \<Rightarrow> nat" where
  "steps_left s = (if k_state s = K_INIT then 2 else if kp_parsed_ok (k_input s) then 1 else 0)"

section \<open>Sending\<close>

definition send_init_packet :: "kermit \<Rightarrow> kermit run" where
  "send_init_packet s = andthen (ack_send_init s) (\<lambda>s1. Inr (s1\<lparr>k_output := (k_output s1)\<lparr>kp_type := P_KSINIT\<rparr>\<rparr>))"

definition send_S :: "kermit \<Rightarrow> (bool \<times> kermit) run" where
  "send_S s =
     andthen (if k_first_S s
              then andthen (send_init_packet (k_last_message ''SENDING SEND-INIT...'' s)) (\<lambda>s1. Inr (s1\<lparr>k_first_S := False\<rparr>))
              else Inr s) (\<lambda>s1.
       if \<not> kp_parsed_ok (k_input s1) then Inr (True, s1)
       else if kp_type (k_input s1) = P_KNAK then andthen (send_init_packet s1) (\<lambda>s2. Inr (True, drop_input s2))
       else if kp_type (k_input s1) = P_KACK then
         andthen (negotiate_send_init (snd (process_send_init s1))) (\<lambda>s2.
         andthen (send_file_header (k_last_message ''FILE HEADER''
                   ((drop_input s2)\<lparr>k_sequence_number := k_sequence_number s2 + 1\<rparr>))) (\<lambda>s3.
           Inr (False, s3\<lparr>k_state := KM_SF\<rparr>)))
       else andthen (k_sequence_error s1) (\<lambda>s2. Inr (True, s2)))"

definition send_end_of_file :: "kermit \<Rightarrow> kermit run" where
  "send_end_of_file s = andthen (send_eof (k_last_message ''EOF'' s)) (\<lambda>s1. Inr (s1\<lparr>k_state := KM_SZ\<rparr>))"

definition send_SF :: "kermit \<Rightarrow> (bool \<times> kermit) run" where
  "send_SF s =
     (if \<not> kp_parsed_ok (k_input s) then Inr (True, s)
      else if kp_type (k_input s) \<noteq> P_KACK then andthen (k_sequence_error s) (\<lambda>s1. Inr (True, s1))
      else
        let s1 = (drop_input s)\<lparr>k_sequence_number := k_sequence_number s + 1\<rparr>
        in if sp_attributes (k_session s1) then
             andthen (send_file_attributes (k_last_message ''ATTRIBUTES'' s1)) (\<lambda>s2. Inr (False, s2\<lparr>k_state := KM_SA\<rparr>))
           else
             andthen (send_file_data (k_last_message ''DATA'' s1)) (\<lambda>(more_data, s2).
               if more_data then Inr (False, s2\<lparr>k_state := KM_SDW\<rparr>)
               else andthen (send_end_of_file s2) (\<lambda>s3. Inr (False, s3))))"

text \<open>The answer to the attributes may ask to go on at a position of the file.\<close>

definition resume_at :: "kermit \<Rightarrow> kermit run" where
  "resume_at s =
     (let bs = kp_data (k_input s)
      in if k_do_resend s \<and> bs \<noteq> [] \<and> hd bs = 49 then
           (case k_file_stream s of
              None \<Rightarrow> Inl Null_stream
            | Some f \<Rightarrow>
                let pos = nat (atol (c_string (drop 2 bs)))
                in Inr (s\<lparr>k_file_position := pos, k_file_stream := Some (fseek_set pos f), k_outstanding_bytes := 0\<rparr>))
         else Inr s)"

definition send_SA :: "kermit \<Rightarrow> (bool \<times> kermit) run" where
  "send_SA s =
     (if \<not> kp_parsed_ok (k_input s) then Inr (True, s)
      else if kp_type (k_input s) \<noteq> P_KACK then andthen (k_sequence_error s) (\<lambda>s1. Inr (True, s1))
      else
        let s1 = (drop_input s)\<lparr>k_output := (k_output s)\<lparr>kp_parsed_ok := False\<rparr>, k_is_first_data_packet := True\<rparr>
        in andthen (resume_at s1) (\<lambda>s2.
             let s3 = (if sp_streaming (k_session s2) \<or> sp_windowing (k_session s2) then s2
                       else s2\<lparr>k_sequence_number := k_sequence_number s2 + 1\<rparr>)
             in Inr (False, (k_last_message ''DATA'' s3)\<lparr>k_state := KM_SDW\<rparr>)))"

definition send_SD_next_packet :: "kermit \<Rightarrow> kermit run" where
  "send_SD_next_packet s =
     (if sp_streaming (k_session s) \<and> kp_parsed_ok (k_output s) then Inr s
      else
        let s1 = (if sp_streaming (k_session s) \<or> sp_windowing (k_session s)
                  then s\<lparr>k_sequence_number := k_sequence_number s + 1\<rparr> else s)
        in if k_file_position s1 = unat (k_file_size s1) \<or> k_skip_file s1 then send_end_of_file s1
           else andthen (send_file_data s1) (\<lambda>(more_data, s2). if more_data then Inr s2 else send_end_of_file s2))"

definition send_SDW_ack :: "kermit \<Rightarrow> (bool \<times> kermit) run" where
  "send_SDW_ack s =
     (let bs = kp_data (k_input s);
          s0 = drop_input s;
          s1 = (if bs \<noteq> [] \<and> (hd bs = 88 \<or> hd bs = 90)
                then (k_last_message ''SKIP FILE'' s0)\<lparr>k_skip_file := True\<rparr> else s0)
      in if sp_windowing (k_session s1) \<and> k_out_window s1 \<noteq> []
         then andthen (send_SD_next_packet s1) (\<lambda>s2. Inr (True, s2))
         else
           andthen (if sp_streaming (k_session s1) \<or> sp_windowing (k_session s1) then Inr s1
                    else
                      let pos = k_file_position s1 + k_outstanding_bytes s1
                      in k_stats_increment_blocks (k_update_stats (\<lambda>t. t\<lparr>t_bytes_transfer := of_nat pos\<rparr>)
                           (s1\<lparr>k_sequence_number := k_sequence_number s1 + 1, k_file_position := pos\<rparr>))) (\<lambda>s2.
           andthen (send_SD_next_packet s2) (\<lambda>s3. Inr (False, s3))))"

definition send_SDW :: "kermit \<Rightarrow> (bool \<times> kermit) run" where
  "send_SDW s =
     (if \<not> kp_parsed_ok (k_input s) then
        (if sp_streaming (k_session s) \<or> sp_windowing (k_session s) \<or> k_is_first_data_packet s
         then andthen (send_SD_next_packet (s\<lparr>k_is_first_data_packet := False\<rparr>)) (\<lambda>s1. Inr (True, s1))
         else Inr (True, s))
      else if kp_type (k_input s) = P_KACK then send_SDW_ack s
      else andthen (k_sequence_error s) (\<lambda>s1. Inr (True, s1)))"

definition k_finish_upload :: "kermit \<Rightarrow> kermit run" where
  "k_finish_upload s =
     (case k_file_stream s of
        None \<Rightarrow> Inl Null_stream
      | Some f \<Rightarrow>
          check (k_file_name s \<noteq> None) Assert_failed
            (Inr (k_update_stats (\<lambda>t. t\<lparr>t_batch_bytes_transfer := t_batch_bytes_transfer t + ucast (k_file_size s),
                                        t_state := Q_TRANSFER_STATE_FILE_DONE\<rparr>)
              (s\<lparr>k_sequence_number := k_sequence_number s + 1, k_world := fclose f (k_world s), k_file_name := None,
                 k_file_stream := None, k_upload_file_list_i := k_upload_file_list_i s + 1\<rparr>))))"

definition send_SZ :: "kermit \<Rightarrow> (bool \<times> kermit) run" where
  "send_SZ s =
     (if \<not> kp_parsed_ok (k_input s) then Inr (True, s)
      else if kp_type (k_input s) \<noteq> P_KACK then andthen (k_sequence_error s) (\<lambda>s1. Inr (True, s1))
      else
        let s1 = drop_input s
        in if sp_windowing (k_session s1) \<and> k_out_window s1 \<noteq> [] \<and> 0 < k_out_n s1 then Inr (True, s1)
           else andthen (k_finish_upload s1) (\<lambda>s2. andthen (k_setup_for_next_file s2) (\<lambda>(_, s3). Inr (False, s3))))"

definition send_SB :: "kermit \<Rightarrow> (bool \<times> kermit) run" where
  "send_SB s =
     andthen (if k_first_SB s
              then andthen (send_eot (k_last_message ''SENDING EOT...'' s)) (\<lambda>s1. Inr (s1\<lparr>k_first_SB := False\<rparr>))
              else Inr s) (\<lambda>s1.
       if \<not> kp_parsed_ok (k_input s1) then Inr (True, s1)
       else if kp_type (k_input s1) \<noteq> P_KACK then andthen (k_sequence_error s1) (\<lambda>s2. Inr (True, s2))
       else Inr (False, k_update_stats (\<lambda>t. t\<lparr>t_end_time := now (k_world s1)\<rparr>)
              (k_stop_file_transfer Q_TRANSFER_STATE_END
                (k_last_message ''SUCCESS'' ((drop_input s1)\<lparr>k_state := K_COMPLETE\<rparr>)))))"

definition k_send_step :: "kermit \<Rightarrow> (bool \<times> kermit) run" where
  "k_send_step s =
     (case k_state s of
        K_INIT \<Rightarrow> Inr (False, s\<lparr>k_state := KM_S\<rparr>)
      | KM_S \<Rightarrow> send_S s
      | KM_SF \<Rightarrow> send_SF s
      | KM_SA \<Rightarrow> send_SA s
      | KM_SDW \<Rightarrow> send_SDW s
      | KM_SZ \<Rightarrow> send_SZ s
      | KM_SB \<Rightarrow> send_SB s
      | K_ABORT \<Rightarrow> Inr (True, s)
      | K_COMPLETE \<Rightarrow> Inr (True, s)
      | _ \<Rightarrow> Inl Abort_called)"

section \<open>The loops over the states\<close>

lemmas receive_defs = receive_R_def receive_RF_def receive_RDW_def receive_eof_def k_receive_data_def
  receive_attributes_def finish_file_def

lemmas send_defs = send_S_def send_SF_def send_SA_def send_SDW_def send_SDW_ack_def send_SZ_def send_SB_def

lemma finish_file_kept [kept_intros]: "k_frame s t \<Longrightarrow> kept s (finish_file t)"
  by (auto simp: finish_file_def split: option.split)

lemma receive_states_kept [kept_intros]:
  "k_frame s t \<Longrightarrow> kept2 s (receive_R t)" "k_frame s t \<Longrightarrow> kept2 s (receive_RF t)"
  "k_frame s t \<Longrightarrow> kept2 s (receive_eof t)" "k_frame s t \<Longrightarrow> kept2 s (k_receive_data t)"
  "k_frame s t \<Longrightarrow> kept2 s (receive_attributes t)"
  by (auto simp: receive_R_def receive_RF_def receive_eof_def k_receive_data_def receive_attributes_def Let_def
      intro!: kept_intros)

lemma receive_RDW_kept [kept_intros]: "k_frame s t \<Longrightarrow> kept2 s (receive_RDW t)"
  by (auto simp: receive_RDW_def split: kermit_packet_type.split intro!: kept_intros)

lemma k_receive_step_kept: "kept2 s (k_receive_step s)"
  by (auto simp: k_receive_step_def split: kermit_state.split intro!: kept_intros)

lemma send_parts_kept [kept_intros]:
  "k_frame s t \<Longrightarrow> kept s (send_init_packet t)" "k_frame s t \<Longrightarrow> kept s (send_end_of_file t)"
  "k_frame s t \<Longrightarrow> kept s (resume_at t)" "k_frame s t \<Longrightarrow> kept s (k_finish_upload t)"
  by (auto simp: send_init_packet_def send_end_of_file_def resume_at_def k_finish_upload_def Let_def
      split: option.split intro!: kept_intros)

lemma process_send_init_frame: "k_frame s t \<Longrightarrow> k_frame s (snd (process_send_init t))"
  by (simp add: process_send_init_def split: option.split)

lemma send_SD_next_packet_kept [kept_intros]: "k_frame s t \<Longrightarrow> kept s (send_SD_next_packet t)"
  by (auto simp: send_SD_next_packet_def Let_def intro!: kept_intros)

lemma send_SDW_ack_kept [kept_intros]: "k_frame s t \<Longrightarrow> kept2 s (send_SDW_ack t)"
  unfolding send_SDW_ack_def Let_def
  by (cases "kp_data (k_input t) \<noteq> [] \<and> (hd (kp_data (k_input t)) = 88 \<or> hd (kp_data (k_input t)) = 90)";
      cases "sp_windowing (k_session t)"; cases "sp_streaming (k_session t)"; cases "k_out_window t")
    (auto intro!: kept_intros)

lemma send_SDW_kept [kept_intros]: "k_frame s t \<Longrightarrow> kept2 s (send_SDW t)"
  by (auto simp: send_SDW_def intro!: kept_intros)

lemma send_states_kept [kept_intros]:
  "k_frame s t \<Longrightarrow> kept2 s (send_S t)" "k_frame s t \<Longrightarrow> kept2 s (send_SF t)" "k_frame s t \<Longrightarrow> kept2 s (send_SA t)"
  "k_frame s t \<Longrightarrow> kept2 s (send_SZ t)" "k_frame s t \<Longrightarrow> kept2 s (send_SB t)"
  by (auto simp: send_S_def send_SF_def send_SA_def send_SZ_def send_SB_def Let_def
      intro!: kept_intros process_send_init_frame)

lemma k_send_step_kept: "kept2 s (k_send_step s)"
  by (auto simp: k_send_step_def split: kermit_state.split intro!: kept_intros)

text \<open>A step after which the loop goes on has used up the input packet.\<close>

definition used_up :: "kermit \<Rightarrow> (bool \<times> kermit) run \<Rightarrow> bool" where
  "used_up s r = yields (\<lambda>x. \<not> fst x \<longrightarrow> k_frame (drop_input s) (snd x)) r"

lemma used_up_simps [simp]:
  "used_up s (Inl e)" "used_up s (Inr x) \<longleftrightarrow> (\<not> fst x \<longrightarrow> k_frame (drop_input s) (snd x))"
  "used_up s (andthen r (\<lambda>t. Inr (True, t)))"
  by (auto simp: used_up_def yields_iff andthen_eq_Inr)

lemma used_up_drop: "kept2 (drop_input s) r \<Longrightarrow> used_up s r"
  by (simp add: used_up_def kept2_def yields_iff)

lemma used_up_andthen:
  "kept s r \<Longrightarrow> (\<And>t. k_frame s t \<Longrightarrow> used_up s (f t)) \<Longrightarrow> used_up s (andthen r f)"
  "kept2 s q \<Longrightarrow> (\<And>x t. k_frame s t \<Longrightarrow> used_up s (g (x, t))) \<Longrightarrow> used_up s (andthen q g)"
  by (auto simp: used_up_def kept_def kept2_def yields_iff andthen_eq_Inr)

lemma drop_input_both [simp]: "k_frame s t \<Longrightarrow> k_frame (drop_input s) (drop_input t)"
  by (auto simp: frame_defs drop_input_def)

lemma receive_used_up:
  "used_up s (receive_R s)" "used_up s (receive_RF s)" "used_up s (receive_RDW s)"
proof -
  have "used_up s (receive_eof s)" "used_up s (k_receive_data s)" "used_up s (receive_attributes s)"
    by (auto simp: receive_eof_def k_receive_data_def receive_attributes_def Let_def intro!: used_up_andthen kept_intros)
  then show "used_up s (receive_RDW s)"
    by (simp add: receive_RDW_def split: kermit_packet_type.split)
qed (auto simp: receive_R_def receive_RF_def Let_def intro!: used_up_andthen kept_intros)

lemma send_S_used_up: "used_up s (send_S s)"
proof -
  have header: "used_up s (andthen (send_file_header (k_last_message m ((drop_input t)\<lparr>k_sequence_number := n\<rparr>)))
      (\<lambda>u. Inr (False, u\<lparr>k_state := KM_SF\<rparr>)))" if "k_frame s t" for m t n
    using that by (auto intro!: used_up_drop kept_intros)
  show ?thesis
    unfolding send_S_def
    by (rule used_up_andthen, force intro!: kept_intros)
      (auto intro!: used_up_andthen(1) [OF _ header] used_up_andthen(1) [of _ "send_init_packet t" for t] kept_intros
        process_send_init_frame)
qed

lemma send_used_up:
  "used_up s (send_SF s)" "used_up s (send_SA s)" "used_up s (send_SDW s)" "used_up s (send_SZ s)" "used_up s (send_SB s)"
proof -
  have "used_up s (send_SDW_ack s)"
    unfolding send_SDW_ack_def Let_def
    by (rule used_up_drop)
      (cases "kp_data (k_input s) \<noteq> [] \<and> (hd (kp_data (k_input s)) = 88 \<or> hd (kp_data (k_input s)) = 90)";
        cases "sp_windowing (k_session s)"; cases "sp_streaming (k_session s)"; cases "k_out_window s";
        auto intro!: kept_intros)
  then show "used_up s (send_SDW s)" by (simp add: send_SDW_def)
  show "used_up s (send_SB s)"
    unfolding send_SB_def by (rule used_up_andthen, force intro!: kept_intros) simp
qed (auto simp: send_SF_def send_SA_def send_SZ_def Let_def intro!: used_up_drop kept_intros)

lemma steps_left_used_up:
  "k_state s \<noteq> K_INIT \<Longrightarrow> used_up s r \<Longrightarrow> r = Inr (False, t) \<Longrightarrow> kp_parsed_ok (k_input s) \<Longrightarrow> steps_left t < steps_left s"
  by (auto simp: steps_left_def frame_defs)

lemma no_packet_last:
  assumes "\<not> kp_parsed_ok (k_input s)"
  shows "receive_R s \<noteq> Inr (False, t)" "receive_RF s \<noteq> Inr (False, t)" "receive_RDW s \<noteq> Inr (False, t)"
    "send_SF s \<noteq> Inr (False, t)" "send_SA s \<noteq> Inr (False, t)" "send_SZ s \<noteq> Inr (False, t)" "send_SDW s \<noteq> Inr (False, t)"
  using assms
  by (auto simp: receive_R_def receive_RF_def receive_RDW_def send_SF_def send_SA_def send_SZ_def send_SDW_def Let_def
      andthen_eq_Inr)

lemma no_packet_kept: "kept s r \<Longrightarrow> r = Inr t \<Longrightarrow> \<not> kp_parsed_ok (k_input s) \<Longrightarrow> \<not> kp_parsed_ok (k_input t)"
  by (auto simp: frame_defs)

lemma no_packet_last_S:
  assumes "\<not> kp_parsed_ok (k_input s)"
  shows "send_S s \<noteq> Inr (False, t)" "send_SB s \<noteq> Inr (False, t)"
proof -
  have "kept s (if k_first_S s
              then andthen (send_init_packet (k_last_message ''SENDING SEND-INIT...'' s)) (\<lambda>s1. Inr (s1\<lparr>k_first_S := False\<rparr>))
              else Inr s)"
    "kept s (if k_first_SB s
              then andthen (send_eot (k_last_message ''SENDING EOT...'' s)) (\<lambda>s1. Inr (s1\<lparr>k_first_SB := False\<rparr>))
              else Inr s)"
    by (auto intro!: kept_intros)
  from this [THEN no_packet_kept] assms show "send_S s \<noteq> Inr (False, t)" "send_SB s \<noteq> Inr (False, t)"
    unfolding send_S_def send_SB_def by (fastforce simp: andthen_eq_Inr simp del: if_split)+
qed

lemma steps_left_states:
  assumes "k_state s \<noteq> K_INIT"
    and "r \<in> {receive_R s, receive_RF s, receive_RDW s, send_S s, send_SF s, send_SA s, send_SDW s, send_SZ s, send_SB s}"
    and "r = Inr (False, t)"
  shows "steps_left t < steps_left s"
proof (rule steps_left_used_up)
  show "used_up s r" using assms(2) receive_used_up send_S_used_up send_used_up by auto
  show "kp_parsed_ok (k_input s)"
  proof (rule ccontr)
    assume "\<not> kp_parsed_ok (k_input s)"
    from no_packet_last [OF this, of t] no_packet_last_S [OF this, of t] assms(2,3) show False by auto
  qed
qed (use assms in auto)

lemma receive_step_progress: "k_receive_step s = Inr (False, t) \<Longrightarrow> steps_left t < steps_left s"
  using steps_left_states [of s _ t]
  by (cases "k_state s") (auto simp: k_receive_step_def, simp add: steps_left_def)

lemma send_step_progress: "k_send_step s = Inr (False, t) \<Longrightarrow> steps_left t < steps_left s"
  using steps_left_states [of s _ t]
  by (cases "k_state s") (auto simp: k_send_step_def, simp add: steps_left_def)

function kermit_receive :: "kermit \<Rightarrow> kermit run" where
  "kermit_receive s =
     (case k_receive_step s of
        Inl e \<Rightarrow> Inl e
      | Inr r \<Rightarrow> if fst r then Inr (snd r) else kermit_receive (snd r))"
  by pat_completeness auto
termination
  by (relation "measure steps_left") (auto intro!: receive_step_progress)

function kermit_send :: "kermit \<Rightarrow> kermit run" where
  "kermit_send s =
     (case k_send_step s of
        Inl e \<Rightarrow> Inl e
      | Inr r \<Rightarrow> if fst r then Inr (snd r) else kermit_send (snd r))"
  by pat_completeness auto
termination
  by (relation "measure steps_left") (auto intro!: send_step_progress)

declare kermit_receive.simps [simp del] kermit_send.simps [simp del]

section \<open>The main loop\<close>

text \<open>The input is added to the packet buffer: what does not fit, and the buffer.\<close>

definition k_fill_buffer :: "byte list \<Rightarrow> kermit \<Rightarrow> byte list \<times> kermit" where
  "k_fill_buffer inp s =
     (let room = length (k_packet_buffer s) - k_packet_buffer_n s;
          bs = take room inp
      in (drop room inp, s\<lparr>k_packet_buffer := memcpy (k_packet_buffer s) (k_packet_buffer_n s) bs,
                           k_packet_buffer_n := k_packet_buffer_n s + length bs\<rparr>))"

text \<open>\<open>memmove\<close> of the bytes not yet used, unless there are none.\<close>

definition k_discard :: "nat \<Rightarrow> kermit \<Rightarrow> kermit run" where
  "k_discard d s =
     check (d \<le> k_packet_buffer_n s) Assert_failed
       (let n = k_packet_buffer_n s
        in Inr (s\<lparr>k_packet_buffer := (if d = n then k_packet_buffer s
                                      else memcpy (k_packet_buffer s) 0 (take (n - d) (drop d (k_packet_buffer s)))),
                  k_packet_buffer_n := n - d\<rparr>))"

text \<open>Three control-C in a row, in little input, end the transfer; the count is never reset.\<close>

definition count_ctrl_c :: "byte list \<Rightarrow> nat \<Rightarrow> nat" where
  "count_ctrl_c inp c = (if length inp < 10 then fold (\<lambda>b k. if b = 3 then k + 1 else 0) inp c else c)"

definition look_for_ctrl_c :: "byte list \<Rightarrow> kermit \<Rightarrow> kermit run" where
  "look_for_ctrl_c inp s =
     (let s1 = s\<lparr>k_ctrl_c_count := count_ctrl_c inp (k_ctrl_c_count s)\<rparr>
      in if 3 \<le> k_ctrl_c_count s1
         then error_packet ''Aborted by remote side''
                (k_last_message ''ABORTED BY REMOTE SIDE''
                  (k_stop_file_transfer Q_TRANSFER_STATE_ABORT (s1\<lparr>k_state := K_ABORT\<rparr>)))
         else Inr s1)"

definition pad_output :: "kermit \<Rightarrow> kermit" where
  "pad_output s =
     (if kp_parsed_ok (k_output s)
      then s\<lparr>k_out := k_out s @ replicate (unat (sp_NPAD (k_remote s))) (sp_PADC (k_remote s))\<rparr> else s)"

text \<open>A packet that was sent is kept until it is acknowledged; \<open>start\<close> is where it begins in the output.\<close>

definition keep_sent_packet :: "nat \<Rightarrow> kermit \<Rightarrow> kermit run" where
  "keep_sent_packet start s =
     (let w = sp_WINDO_out (k_session s)
      in if length (k_out s) = start \<or> kp_type (k_output s) = P_KNAK then Inr s
         else check (k_sending s \<longrightarrow> k_out_n s < w) Assert_failed
           (andthen (slot (k_out_window s) (k_out_i s)) (\<lambda>_.
             let rotate = (k_sending s \<and> \<not> sp_streaming (k_session s));
                 x = \<lparr>ks_seq = kp_seq (k_output s), ks_try_count = 1, ks_acked = \<not> rotate,
                      ks_type = kp_type (k_output s), ks_data = Some (drop start (k_out s))\<rparr>;
                 s1 = s\<lparr>k_out_window := (k_out_window s)[k_out_i s := x]\<rparr>
             in Inr (if rotate then s1\<lparr>k_out_n := k_out_n s1 + 1, k_out_i := Suc (k_out_i s1) mod w\<rparr>
                     else s1\<lparr>k_out_n := 1\<rparr>))))"

text \<open>
  The second half of a round: a full window ends the loop, otherwise the states are run and
  what they have to say is sent.
\<close>

definition window_full :: "kermit \<Rightarrow> bool" where
  "window_full s \<longleftrightarrow> k_out_n s = sp_WINDO_out (k_session s) \<and> k_sending s \<and> \<not> sp_streaming (k_session s)"

definition run_and_send :: "nat \<Rightarrow> kermit \<Rightarrow> kermit run" where
  "run_and_send m s =
     andthen (if k_sending s then kermit_send s else kermit_receive s) (\<lambda>s1.
       let s2 = pad_output s1
       in andthen (encode_output_packet s2) (\<lambda>s3.
          check (length (k_out s3) \<le> m) Buffer_overflow (keep_sent_packet (length (k_out s2)) s3)))"

text \<open>
  One round: whether the loop ends, whether there was a packet, the input that is left and
  the state.  \<open>after_decoding\<close> is the part of the round behind \<open>decode_input_bytes\<close>.
\<close>

type_synonym round_result = "bool \<times> bool \<times> byte list \<times> kermit"

definition act_on_packet :: "nat \<Rightarrow> byte list \<Rightarrow> bool \<Rightarrow> kermit \<Rightarrow> round_result run" where
  "act_on_packet m inp had s =
     (if window_full s then Inr (True, had, inp, s)
      else andthen (run_and_send m s) (\<lambda>s1. Inr (inp = [] \<and> \<not> had, had, inp, s1)))"

definition after_decoding :: "nat \<Rightarrow> byte list \<Rightarrow> bool \<times> nat \<times> kermit \<Rightarrow> round_result run" where
  "after_decoding m inp = (\<lambda>(had, d, s).
     andthen (k_discard d s) (\<lambda>s1.
     andthen (check_for_repeat s1) (\<lambda>s2.
     check (length (k_out s2) \<le> m) Buffer_overflow
       (andthen (save_input_packet s2) (\<lambda>s3.
        andthen (move_windows s3) (act_on_packet m inp had))))))"

definition kermit_round :: "nat \<Rightarrow> bool \<Rightarrow> byte list \<Rightarrow> kermit \<Rightarrow> round_result run" where
  "kermit_round m toss inp s =
     andthen (look_for_ctrl_c inp s) (\<lambda>s1.
       case k_fill_buffer (if toss then [] else inp) s1 of
         (inp2, s2) \<Rightarrow> andthen (decode_input_bytes s2) (after_decoding m inp2))"

definition free_space_needed :: "kermit \<Rightarrow> nat" where
  "free_space_needed s =
     (if sp_long_packets (k_session s) then long_length (k_session s) else unat (sp_MAXL (k_session s))) +
     unat (sp_NPAD (k_remote s)) + 10"

text \<open>The space needed is found once, before the loop.\<close>

partial_function (option) kermit_loop ::
  "nat \<Rightarrow> nat \<Rightarrow> bool \<Rightarrow> bool \<Rightarrow> byte list \<Rightarrow> kermit \<Rightarrow> kermit run option" where
  "kermit_loop m need toss had inp s =
     (if m - length (k_out s) < need then Some (check (k_sending s) Assert_failed (Inr s))
      else if window_full s \<and> inp = [] \<and> \<not> had then Some (Inr s)
      else (case kermit_round m toss inp s of
              Inl e \<Rightarrow> Some (Inl e)
            | Inr (finished, had2, inp2, s2) \<Rightarrow>
                if finished then Some (Inr s2) else kermit_loop m need toss had2 inp2 s2))"

declare kermit_loop.simps [code]

section \<open>The entry point\<close>

definition first_call :: "kermit \<Rightarrow> (bool \<times> kermit) run" where
  "first_call s =
     (if k_sequence_number s = 0 \<and> \<not> k_sent_nak s then
        andthen (if k_state s = K_INIT \<and> \<not> k_sending s then nak_packet s else Inr s)
          (\<lambda>s1. Inr (True, s1\<lparr>k_sent_nak := True\<rparr>))
      else Inr (False, s))"

definition k_watch_timer :: "byte list \<Rightarrow> kermit \<Rightarrow> kermit run" where
  "k_watch_timer inp s =
     (if inp \<noteq> [] then Inr (k_reset_timer s)
      else andthen (k_check_timeout s) (\<lambda>(expired, s1). if expired then handle_timeout s1 else Inr s1))"

definition kermit_before_loop :: "byte list \<Rightarrow> nat \<Rightarrow> kermit \<Rightarrow> (bool \<times> kermit) run" where
  "kermit_before_loop inp m s =
     andthen (first_call s) (\<lambda>(toss, s1).
     andthen (k_watch_timer inp s1) (\<lambda>s2. check (length (k_out s2) \<le> m) Buffer_overflow (Inr (toss, s2))))"

definition kermit_after_loop :: "kermit \<Rightarrow> kermit" where
  "kermit_after_loop s = drop_input (if k_out s \<noteq> [] then k_reset_timer s else s)"

definition kermit :: "byte list \<Rightarrow> nat \<Rightarrow> kermit \<Rightarrow> kermit run option" where
  "kermit inp m s =
     (if m \<le> KERMIT_BLOCK_SIZE * 2 then Some (Inl Assert_failed)
      else if k_state s = K_ABORT \<or> k_state s = K_COMPLETE then Some (Inr s)
      else (case kermit_before_loop inp m s of
              Inl e \<Rightarrow> Some (Inl e)
            | Inr (toss, s1) \<Rightarrow>
                map_option (map_sum id kermit_after_loop)
                  (if m - length (k_out s1) < free_space_needed s \<or> (window_full s1 \<and> inp = [] \<and> k_packet_buffer_n s1 < 5)
                   then Some (Inr s1) else kermit_loop m (free_space_needed s) toss True inp s1)))"

text \<open>\<open>protocol_process_data\<close> of protocols.c for this protocol.\<close>

definition k_protocol_process_data :: "byte list \<Rightarrow> nat \<Rightarrow> kermit \<Rightarrow> kermit run option" where
  "k_protocol_process_data inp m s = (if transfer_over (k_stats s) then Some (Inr s) else kermit inp m s)"

section \<open>Start\<close>

text \<open>
  The loops at the start of \<open>kermit_start\<close> that free the slots of the windows of the transfer
  before, from the first one in use to the one behind the last one in use.  The index is
  advanced only in the first of the two.
\<close>

partial_function (option) free_in_window :: "nat \<Rightarrow> nat \<Rightarrow> nat \<Rightarrow> packet_serial list \<Rightarrow> packet_serial list run option" where
  "free_in_window windo stop i w =
     (if length w \<le> i then Some (Inl Buffer_overflow)
      else if windo = 0 then Some (Inl Undefined)
      else let w1 = w[i := (w ! i)\<lparr>ks_data := None\<rparr>];
               i1 = Suc i mod windo
           in if i1 = stop then Some (Inr w1) else free_in_window windo stop i1 w1)"

partial_function (option) free_out_window :: "nat \<Rightarrow> nat \<Rightarrow> nat \<Rightarrow> packet_serial list \<Rightarrow> packet_serial list run option" where
  "free_out_window windo stop i w =
     (if windo = 0 then Some (Inl Undefined)
      else let i1 = i mod windo
           in if length w \<le> i1 then Some (Inl Buffer_overflow)
              else let w1 = w[i1 := (w ! i1)\<lparr>ks_data := None\<rparr>]
                   in if i1 = stop then Some (Inr w1) else free_out_window windo stop i1 w1)"

definition ended :: "'a run option \<Rightarrow> 'a run" where
  "ended r = (case r of None \<Rightarrow> Inl Diverges | Some x \<Rightarrow> x)"

definition free_windows :: "kermit \<Rightarrow> unit run" where
  "free_windows s =
     andthen (if k_in_window s \<noteq> [] \<and> 0 < k_in_n s
              then ended (free_in_window (sp_WINDO_in (k_session s)) (k_in_i s) (k_in_begin s) (k_in_window s))
              else Inr []) (\<lambda>_.
     andthen (if k_out_window s \<noteq> [] \<and> 0 < k_out_n s
              then ended (free_out_window (sp_WINDO_out (k_session s)) (k_out_i s) (k_out_begin s) (k_out_window s))
              else Inr []) (\<lambda>_. Inr ()))"

text \<open>
  \<open>kermit_start\<close>.  The parameters of the other side, the capacity for resuming and the count
  of control-C are those of the transfer before.
\<close>

definition kermit_start_common :: "kermit \<Rightarrow> kermit run" where
  "kermit_start_common s =
     andthen (free_windows s) (\<lambda>_.
       (let seven = ko_seven_bit_line (k_opt s);
            p = set_default_session_parameters seven (k_opt s)
        in Inr (k_reset_timer (k_last_message []
          (s\<lparr>k_crc_16_tab := k_makecrc, k_state := K_INIT, k_check_type := 1, k_sequence_number := 0,
             k_first_R := True, k_first_S := True, k_first_SB := True, k_sent_nak := False, k_skip_file := False,
             k_seven_bit_only := seven, k_do_resend := False, k_is_first_data_packet := False,
             k_in_window := [empty_slot], k_in_begin := 0, k_in_i := 0, k_in_n := 0,
             k_out_window := [empty_slot], k_out_begin := 0, k_out_i := 0, k_out_n := 0,
             k_packet_buffer_n := 0, k_input := empty_packet KERMIT_BLOCK_SIZE,
             k_output := empty_packet KERMIT_BLOCK_SIZE, k_timeout_count := 0, k_local := p, k_session := p\<rparr>)))))"

definition kermit_start :: "kfile_info list option \<Rightarrow> cstring \<Rightarrow> bool \<Rightarrow> kermit \<Rightarrow> (bool \<times> kermit) run" where
  "kermit_start file_list pathname send s =
     check (send = (file_list \<noteq> None)) Assert_failed
       (let s0 = s\<lparr>k_state := K_ABORT, k_upload_file_list := (case file_list of None \<Rightarrow> [] | Some l \<Rightarrow> l),
                   k_upload_file_list_i := 0, k_sending := send\<rparr>
        in andthen (if send then k_setup_for_next_file s0
                    else Inr (True, k_update_stats
                      (\<lambda>t. set_transfer_stats_pathname pathname (set_transfer_stats_filename [] (t\<lparr>t_bytes_total := 0\<rparr>)))
                      (s0\<lparr>k_download_path := Some pathname\<rparr>)))
             (\<lambda>(ok, s1). if ok then andthen (kermit_start_common s1) (\<lambda>s2. Inr (True, s2)) else Inr (False, s1)))"

end
