(* ===== verification/Kermit_Properties.thy ===== *)
theory Kermit_Properties
  imports Kermit_Engine
begin

text \<open>
  The loop of a call of the Kermit engine ends, with a result or with a fault: every round
  of it takes bytes from the input or from the packet buffer.
\<close>

unbundle bit_operations_syntax

section \<open>The loop of a call\<close>

lemma b_frame_refl [simp]: "b_frame s s"
  by (simp add: b_frame_def)

lemma b_frame_update_input [simp]: "b_frame s (update_input f t) = b_frame s t"
  by (simp add: b_frame_def update_input_def)

lemma kept_b_frame: "b_frame s t \<Longrightarrow> kept t r \<Longrightarrow> yields (b_frame s) r"
  "b_frame s t \<Longrightarrow> kept2 t q \<Longrightarrow> yields (\<lambda>x. b_frame s (snd x)) q"
  by (auto simp: kept_def kept2_def yields_iff frame_defs)

lemma bookkeeping_b_frame [simp]:
  "b_frame s (k_update_stats f t) = b_frame s t" "b_frame s (k_last_message m t) = b_frame s t"
  "b_frame s (k_stop_file_transfer st t) = b_frame s t" "b_frame s (drop_input t) = b_frame s t"
  "b_frame s (t\<lparr>k_state := ks\<rparr>) = b_frame s t" "b_frame s (t\<lparr>k_sent_nak := b\<rparr>) = b_frame s t"
  "b_frame s (t\<lparr>k_out := bs\<rparr>) = b_frame s t"
  "b_frame s (t\<lparr>k_ctrl_c_count := c\<rparr>) = b_frame s t" "b_frame s (k_reset_timer t) = b_frame s t"
  by (simp_all add: b_frame_def k_update_stats_def k_last_message_def kermit_stop_def k_stop_file_transfer_def
      drop_input_def k_reset_timer_def Let_def)

text \<open>
  What the search for a packet returns: nothing is discarded only when there was no packet and
  there is little in the buffer.
\<close>

definition decoded_well :: "kermit \<Rightarrow> decoded run \<Rightarrow> bool" where
  "decoded_well s r \<longleftrightarrow> yields (\<lambda>(had, d, t). b_frame s t \<and>
     (d = 0 \<longrightarrow> \<not> had \<and> k_packet_buffer_n s < 262 + long_length (k_session s))) r"

lemma decoded_well_simps [simp]:
  "decoded_well s (Inl e)"
  "decoded_well s (Inr (had, d, t)) \<longleftrightarrow> b_frame s t \<and>
     (d = 0 \<longrightarrow> \<not> had \<and> k_packet_buffer_n s < 262 + long_length (k_session s))"
  by (simp_all add: decoded_well_def)

lemma decoded_well_check [intro!]: "(b \<Longrightarrow> decoded_well s r) \<Longrightarrow> decoded_well s (check b e r)"
  by (simp add: check_def)

lemma decoded_well_andthen:
  "yields (b_frame s) r \<Longrightarrow> (\<And>t. b_frame s t \<Longrightarrow> decoded_well s (f t)) \<Longrightarrow> decoded_well s (andthen r f)"
  "yields (\<lambda>x. b_frame s (snd x)) q \<Longrightarrow> (\<And>x t. b_frame s t \<Longrightarrow> decoded_well s (g (x, t))) \<Longrightarrow> decoded_well s (andthen q g)"
  by (cases r; simp) (cases q; auto)

lemma bad_packet_well: "b_frame s t \<Longrightarrow> 0 < k_packet_buffer_n s \<Longrightarrow> decoded_well s (bad_packet t)"
  unfolding bad_packet_def
  by (rule decoded_well_andthen(1), rule kept_b_frame(1) [of s t])
    (auto intro: nak_bad_packet_kept simp: b_frame_def)

lemma process_payload_b_frame: "b_frame s t \<Longrightarrow> yields (b_frame s) (process_payload t)"
proof -
  assume t: "b_frame s t"
  have "yields (b_frame s) (process_file_header t)" "yields (b_frame s) (process_error_packet t)"
    "yields (b_frame s) (k_abort_message a b (drop_input t))" for a b
    using t by (auto intro!: kept_b_frame kept_intros)
  moreover have "yields (b_frame s) (andthen (process_attributes t) (\<lambda>(ok, s1). Inr (update_input (f ok) s1)))" for f
    by (rule yields_andthen [OF kept_b_frame(2) [OF t process_attributes_kept]]) auto
  moreover have "b_frame s (snd (process_send_init t))"
    using process_send_init_frame [OF k_frame_refl] t by (auto simp: frame_defs)
  ultimately show ?thesis using t
    by (auto simp: process_payload_def split: kermit_packet_type.split prod.split)
qed

lemma decode_body_well: "b_frame s t \<Longrightarrow> 0 < k_packet_buffer_n s \<Longrightarrow> decoded_well s (decode_body m h n len t)"
  unfolding decode_body_def Let_def
  by (auto split: option.split intro!: decoded_well_andthen bad_packet_well kept_b_frame [of s t]
      decode_data_field_kept process_payload_b_frame)

lemma decode_long_well: "b_frame s t \<Longrightarrow> 0 < k_packet_buffer_n s \<Longrightarrow> decoded_well s (decode_long m t)"
  unfolding decode_long_def Let_def
  by (auto intro!: decode_body_well bad_packet_well) (auto simp: b_frame_def update_input_def)

lemma decode_header_well: "b_frame s t \<Longrightarrow> 0 < k_packet_buffer_n s \<Longrightarrow> decoded_well s (decode_header m t)"
  using unsigned_less [of "sp_MAXL (k_session t)", where 'a = nat]
  unfolding decode_header_def Let_def
  by (auto intro!: decode_long_well decode_body_well bad_packet_well) (auto simp: b_frame_def update_input_def)

lemma decode_input_bytes_well: "decoded_well s (decode_input_bytes s)"
  unfolding decode_input_bytes_def Let_def
  by (auto intro!: decode_header_well)

text \<open>What the main loop relies on: the size of the packet buffer and the length of a long packet.\<close>

definition k_engine_ok :: "kermit \<Rightarrow> bool" where
  "k_engine_ok s \<longleftrightarrow> length (k_packet_buffer s) = 2048 \<and> k_packet_buffer_n s \<le> 2048 \<and> long_length (k_session s) \<le> 1024"

lemma k_engine_ok_frame: "b_frame s t \<Longrightarrow> k_engine_ok t = k_engine_ok s"
  by (simp add: k_engine_ok_def b_frame_def)

lemma k_fill_buffer_ok:
  assumes "k_fill_buffer inp s = (inp2, t)" "k_engine_ok s"
  shows "k_engine_ok t" "length inp2 + k_packet_buffer_n t = length inp + k_packet_buffer_n s"
    "inp2 \<noteq> [] \<Longrightarrow> k_packet_buffer_n t = 2048"
  using assms by (auto simp: k_fill_buffer_def k_engine_ok_def Let_def)

lemma k_discard_ok:
  "k_engine_ok s \<Longrightarrow> yields (\<lambda>t. k_engine_ok t \<and> k_packet_buffer_n t + d = k_packet_buffer_n s) (k_discard d s)"
  by (auto simp: k_discard_def k_engine_ok_def Let_def min_def memcpy_def intro!: yields_check)

lemma kermit_states_kept:
  "kept s (kermit_receive s)" "kept s (kermit_send s)"
proof -
  show "kept s (kermit_receive s)"
  proof (induction s rule: kermit_receive.induct)
    case (1 s)
    show ?case using 1 k_receive_step_kept [of s]
      by (subst kermit_receive.simps) (auto split: sum.split intro: kept_trans)
  qed
  show "kept s (kermit_send s)"
  proof (induction s rule: kermit_send.induct)
    case (1 s)
    show ?case using 1 k_send_step_kept [of s]
      by (subst kermit_send.simps) (auto split: sum.split intro: kept_trans)
  qed
qed

lemma keep_sent_packet_kept: "k_frame s t \<Longrightarrow> kept s (keep_sent_packet n t)"
  by (auto simp: keep_sent_packet_def Let_def)

lemma run_and_send_kept: "kept s (run_and_send m s)"
proof -
  have "kept s (if k_sending s then kermit_send s else kermit_receive s)" by (simp add: kermit_states_kept)
  then show ?thesis
    unfolding run_and_send_def Let_def
    by (auto simp: pad_output_def intro!: keep_sent_packet_kept kept_intros)
qed

lemma look_for_ctrl_c_b_frame: "yields (b_frame s) (look_for_ctrl_c inp s)"
  by (rule kept_b_frame(1) [OF b_frame_refl]) (auto simp: look_for_ctrl_c_def Let_def intro!: kept_intros)

definition round_progress :: "nat \<Rightarrow> (bool \<times> bool \<times> byte list \<times> kermit) run \<Rightarrow> bool" where
  "round_progress n r = yields (\<lambda>(finished, had, inp2, t). k_engine_ok t \<and>
     (\<not> finished \<longrightarrow> length inp2 + k_packet_buffer_n t < n)) r"

lemma round_progress_andthen:
  "yields P r \<Longrightarrow> (\<And>x. P x \<Longrightarrow> round_progress n (f x)) \<Longrightarrow> round_progress n (andthen r f)"
  "kept s q \<Longrightarrow> (\<And>x. k_frame s x \<Longrightarrow> round_progress n (g x)) \<Longrightarrow> round_progress n (andthen q g)"
  by (auto simp: round_progress_def kept_def intro: yields_andthen)

lemma act_on_packet_progress:
  assumes "k_engine_ok s" "\<not> (inp = [] \<and> \<not> had) \<Longrightarrow> length inp + k_packet_buffer_n s < n"
  shows "round_progress n (act_on_packet m inp had s)"
proof -
  have "round_progress n (andthen (run_and_send m s) (\<lambda>t. Inr (inp = [] \<and> \<not> had, had, inp, t)))"
  proof (rule round_progress_andthen(2) [OF run_and_send_kept])
    fix t assume t: "k_frame s t"
    show "round_progress n (Inr (inp = [] \<and> \<not> had, had, inp, t))"
      using t assms by (simp add: round_progress_def frame_defs k_engine_ok_def)
  qed
  then show ?thesis using assms by (simp add: act_on_packet_def round_progress_def)
qed

lemma after_decoding_progress:
  assumes ok: "k_engine_ok s" and len: "length inp + k_packet_buffer_n s \<le> n" "inp \<noteq> [] \<Longrightarrow> k_packet_buffer_n s = 2048"
    and d: "d = 0 \<Longrightarrow> \<not> had \<and> k_packet_buffer_n s < 262 + long_length (k_session s)"
  shows "round_progress n (after_decoding m inp (had, d, s))"
  unfolding after_decoding_def prod.case
proof (rule round_progress_andthen(1) [OF k_discard_ok [OF ok]])
  fix t assume t: "k_engine_ok t \<and> k_packet_buffer_n t + d = k_packet_buffer_n s"
  have less: "\<not> (inp = [] \<and> \<not> had) \<Longrightarrow> length inp + k_packet_buffer_n t < n"
    using t d len ok by (cases "d = 0") (auto simp: k_engine_ok_def)
  have last: "round_progress n (act_on_packet m inp had u)" if "k_frame t u" for u
    using that t less by (intro act_on_packet_progress) (auto simp: frame_defs k_engine_ok_def)
  have "round_progress n (andthen (save_input_packet u) (\<lambda>v. andthen (move_windows v) (act_on_packet m inp had)))"
    if "k_frame t u" for u
    by (rule round_progress_andthen(2) [OF save_input_packet_kept [OF that]],
        rule round_progress_andthen(2) [OF move_windows_kept]) (auto intro: last)
  then show "round_progress n (andthen (check_for_repeat t) (\<lambda>s2. check (length (k_out s2) \<le> m) Buffer_overflow
      (andthen (save_input_packet s2) (\<lambda>s3. andthen (move_windows s3) (act_on_packet m inp had)))))"
    by (intro round_progress_andthen(2) [OF check_for_repeat_kept [OF k_frame_refl]])
      (simp add: check_def round_progress_def)
qed

lemma kermit_round_progress:
  assumes "k_engine_ok s"
  shows "round_progress (length inp + k_packet_buffer_n s) (kermit_round m toss inp s)"
  unfolding kermit_round_def
proof (rule round_progress_andthen(1) [OF look_for_ctrl_c_b_frame])
  fix s1 assume s1: "b_frame s s1"
  obtain inp2 s2 where fill: "k_fill_buffer (if toss then [] else inp) s1 = (inp2, s2)"
    by (cases "k_fill_buffer (if toss then [] else inp) s1")
  have ok1: "k_engine_ok s1" and n1: "k_packet_buffer_n s1 = k_packet_buffer_n s"
    using s1 assms k_engine_ok_frame [OF s1] by (simp_all add: b_frame_def)
  note f = k_fill_buffer_ok [OF fill ok1]
  have len: "length inp2 + k_packet_buffer_n s2 \<le> length inp + k_packet_buffer_n s"
    using f(2) n1 by (simp split: if_split_asm)
  have "round_progress (length inp + k_packet_buffer_n s) (andthen (decode_input_bytes s2) (after_decoding m inp2))"
  proof (rule round_progress_andthen(1) [OF decode_input_bytes_well [unfolded decoded_well_def]])
    fix x :: "bool \<times> nat \<times> kermit"
    assume x: "case x of (had, d, t) \<Rightarrow> b_frame s2 t \<and> (d = 0 \<longrightarrow> \<not> had \<and> k_packet_buffer_n s2 < 262 + long_length (k_session s2))"
    obtain had d t where xs: "x = (had, d, t)" by (cases x)
    have t: "b_frame s2 t" "d = 0 \<Longrightarrow> \<not> had \<and> k_packet_buffer_n s2 < 262 + long_length (k_session s2)"
      using x by (auto simp: xs)
    show "round_progress (length inp + k_packet_buffer_n s) (after_decoding m inp2 x)"
      unfolding xs using t f(1,3) len by (intro after_decoding_progress) (auto simp: b_frame_def k_engine_ok_def)
  qed
  then show "round_progress (length inp + k_packet_buffer_n s)
      (case k_fill_buffer (if toss then [] else inp) s1 of
         (inp2, s2) \<Rightarrow> andthen (decode_input_bytes s2) (after_decoding m inp2))"
    by (simp add: fill)
qed

lemma kermit_loop_returns:
  "k_engine_ok s \<Longrightarrow> \<exists>r. kermit_loop m need toss had inp s = Some r \<and> yields k_engine_ok r"
proof (induction "length inp + k_packet_buffer_n s" arbitrary: inp s had rule: less_induct)
  case less
  show ?case
  proof (cases "kermit_round m toss inp s")
    case (Inl e)
    then show ?thesis using less(2) by (subst kermit_loop.simps) (auto simp: check_def)
  next
    case (Inr x)
    obtain finished had2 inp2 t where x: "x = (finished, had2, inp2, t)" by (cases x)
    have p: "k_engine_ok t" "\<not> finished \<Longrightarrow> length inp2 + k_packet_buffer_n t < length inp + k_packet_buffer_n s"
      using kermit_round_progress [OF less(2), of inp m toss] Inr by (simp_all add: x round_progress_def)
    show ?thesis using less(2) Inr p less(1) [OF p(2) p(1)] by (subst kermit_loop.simps) (auto simp: x check_def)
  qed
qed

lemma kermit_before_loop_ok: "k_engine_ok s \<Longrightarrow> yields (\<lambda>x. k_engine_ok (snd x)) (kermit_before_loop inp m s)"
proof -
  assume ok: "k_engine_ok s"
  have first: "kept2 s (first_call s)" by (auto simp: first_call_def intro!: kept_intros)
  have "kept2 s (kermit_before_loop inp m s)"
    unfolding kermit_before_loop_def
    by (rule kept_andthen(4) [OF first]) (auto simp: k_watch_timer_def intro!: kept_intros)
  then show ?thesis using ok by (simp add: kept2_def yields_iff frame_defs k_engine_ok_def)
qed

lemma kermit_after_loop_ok: "k_engine_ok (kermit_after_loop s) = k_engine_ok s"
  by (auto simp: kermit_after_loop_def k_engine_ok_def drop_input_def k_reset_timer_def)

lemma kermit_start_ok:
  assumes "kermit_start l p send s = Inr (True, t)" "length (k_packet_buffer s) = 2048"
  shows "k_engine_ok t"
proof -
  have "long_length (set_default_session_parameters b opt) = 1024" for b opt
    by (simp add: long_length_def set_default_session_parameters_def KERMIT_BLOCK_SIZE_def)
  moreover have "k_packet_buffer u = k_packet_buffer v" if "k_setup_for_next_file v = Inr (b, u)" for b u v
    using k_setup_for_next_file_kept [OF k_frame_refl, of v] that by (simp add: frame_defs)
  ultimately show ?thesis using assms
    by (auto simp: kermit_start_def kermit_start_common_def k_engine_ok_def andthen_eq_Inr Let_def k_update_stats_def
        k_last_message_def k_reset_timer_def split: if_split_asm)
qed

text \<open>
  The loop of a call of \<open>kermit\<close> ends, whatever the input, the state of the transfer and
  the room in the output are, with a result or with a fault of one of its rounds (which may be
  \<open>Diverges\<close>, for the loops over a window).  It needs the size of the packet buffer and the limit
  on long packets, which \<open>kermit_start\<close> sets up and which hold again after the call.
\<close>

lemma kermit_call_ends:
  assumes "k_engine_ok s"
  shows "\<exists>r. kermit inp m s = Some r \<and> yields k_engine_ok r"
proof (cases "kermit_before_loop inp m s")
  case (Inr x)
  obtain toss t where x: "x = (toss, t)" by (cases x)
  have "k_engine_ok t" using kermit_before_loop_ok [OF assms, of inp m] Inr by (simp add: x)
  from kermit_loop_returns [OF this, of m "free_space_needed s" toss True inp]
  obtain r where r: "kermit_loop m (free_space_needed s) toss True inp t = Some r" "yields k_engine_ok r" by blast
  have "yields k_engine_ok (map_sum id kermit_after_loop r)"
    using r(2) by (cases r) (simp_all add: kermit_after_loop_ok)
  then show ?thesis using assms \<open>k_engine_ok t\<close> Inr r(1)
    by (simp add: kermit_def x kermit_after_loop_ok)
qed (use assms in \<open>simp add: kermit_def\<close>)

end
