(* ===== verification/Kermit_Roundtrip.thy ===== *)
theory Kermit_Roundtrip
  imports Kermit_Properties
begin

text \<open>
  What \<open>encode_output_packet\<close> writes \<open>decode_input_bytes\<close> reads: the block checks, the header of a
  short and of a long packet, and the data of the file.
\<close>

unbundle bit_operations_syntax

section \<open>Block checks\<close>

lemma packet_type_char [simp]: "t \<noteq> P_KUNKNOWN \<Longrightarrow> packet_type (type_char t) = t"
  by (cases t) (simp_all add: packet_type_def type_char_def packet_type_chars_def)

lemma masks_16: "(0x3F :: 16 word) = mask 6" "(0x0F :: 16 word) = mask 4" "(0x0FFF :: 16 word) = mask 12"
  by (simp_all add: mask_eq_exp_minus_1)

lemmas bits_of_16 = bit_uint_iff bit_ucast_iff bit_and_iff bit_or_iff bit_mask_iff bit_push_bit_iff bit_drop_bit_eq

lemma six_bits: "uint (ucast (x AND mask 6 :: 16 word) :: byte) = uint (x AND mask 6)"
  by (rule bit_eqI) (auto simp: bits_of_16)

lemma four_bits: "uint (ucast (x AND mask 4 :: 16 word) :: byte) = uint (x AND mask 4)"
  by (rule bit_eqI) (auto simp: bits_of_16)

lemma sum_split:
  assumes "x AND mask 12 = (x :: 16 word)"
  shows "uint x = push_bit 6 (uint (drop_bit 6 x AND mask 6)) OR uint (x AND mask 6)"
proof (rule bit_eqI)
  fix n
  have "bit x n \<Longrightarrow> n < 12" using assms by (metis bit_and_iff bit_mask_iff)
  then show "bit (uint x) n = bit (push_bit 6 (uint (drop_bit 6 x AND mask 6)) OR uint (x AND mask 6)) n"
    by (cases "n < 6") (auto simp: bits_of_16)
qed

lemma crc_split:
  "uint (x :: 16 word) =
     push_bit 12 (uint (drop_bit 12 x AND mask 4)) OR push_bit 6 (uint (drop_bit 6 x AND mask 6)) OR uint (x AND mask 6)"
proof (rule bit_eqI)
  fix n
  have "bit x n \<Longrightarrow> n < 16" using bit_imp_le_length by fastforce
  then show "bit (uint x) n =
     bit (push_bit 12 (uint (drop_bit 12 x AND mask 4)) OR push_bit 6 (uint (drop_bit 6 x AND mask 6)) OR uint (x AND mask 6)) n"
    by (cases "n < 6"; cases "n < 12") (auto simp: bits_of_16)
qed

lemma six_bits_less: "uint (x AND mask 6 :: 16 word) < 64"
proof -
  have "uint (x AND mask 6) = uint x AND mask 6" by (rule bit_eqI) (auto simp: bits_of_16)
  then show ?thesis using take_bit_int_less_exp [of 6 "uint x"] by (simp add: take_bit_eq_mask)
qed

lemma six_bits_plus: "uint (ucast ((x AND mask 6) + 1 :: 16 word) :: byte) = uint (x AND mask 6) + 1"
proof -
  have "uint ((x AND mask 6) + 1) = uint (x AND mask 6) + 1"
    using six_bits_less [of x] by (simp add: uint_word_ariths)
  then show ?thesis using six_bits_less [of x] by (simp add: unsigned_ucast_eq take_bit_int_eq_self_iff)
qed

lemma block_check_ok_own:
  assumes "check_type \<in> {1, 2, 3, 12}"
  shows "block_check_ok tab seven check_type bs (block_check tab seven check_type stale bs @ rest)"
proof -
  let ?c = "compute_checksum2 seven bs"
  have c: "?c AND mask 12 = ?c"
    by (simp add: compute_checksum2_def masks_16 and.assoc)
  consider "check_type = 1" | "check_type = 2" | "check_type = 12" | "check_type = 3" using assms by auto
  then show ?thesis
  proof cases
    case 3
    have "uint ?c = uint (drop_bit 6 ?c AND mask 6) * 64 OR uint (?c AND mask 6)"
      using sum_split [OF c] by (simp add: push_bit_eq_mult)
    then show ?thesis
      by (simp add: 3 block_check_def block_check_ok_def Let_def masks_16 six_bits_plus)
  qed (use sum_split [OF c] crc_split [of "k_compute_crc16 tab seven bs"] in
      \<open>simp_all add: block_check_def block_check_ok_def Let_def masks_16 six_bits four_bits\<close>)
qed

lemma length_block_check: "check_type \<in> {1, 2, 3, 12} \<Longrightarrow> length (block_check tab seven check_type stale bs) = check_length check_type"
  by (auto simp: block_check_def check_length_def Let_def)

section \<open>Frames\<close>

text \<open>A frame for the parameters of a session, and the packet buffer that begins with it.\<close>

definition frame_body :: "bool \<Rightarrow> nat \<Rightarrow> kermit_packet_type \<Rightarrow> byte list \<Rightarrow> nat \<Rightarrow> byte list" where
  "frame_body long seq t bs ct = frame_header long seq (type_char t) (length bs) (check_length ct) @ bs"

definition frame :: "kermit \<Rightarrow> bool \<Rightarrow> nat \<Rightarrow> kermit_packet_type \<Rightarrow> byte list \<Rightarrow> nat \<Rightarrow> byte \<Rightarrow> byte list" where
  "frame s long seq t bs ct stale =
     sp_MARK (k_session s) # frame_body long seq t bs ct @
       block_check (k_crc_16_tab s) (k_seven_bit_only s) ct stale (frame_body long seq t bs ct) @ [sp_EOL (k_session s)]"

text \<open>The input packet when its header has been read.\<close>

definition header_read :: "bool \<Rightarrow> nat \<Rightarrow> kermit_packet_type \<Rightarrow> nat \<Rightarrow> kermit \<Rightarrow> kermit" where
  "header_read long seq t n = update_input (\<lambda>p. p\<lparr>kp_parsed_ok := False, kp_seq := seq, kp_type := t, kp_length := n,
     kp_long_packet := long, kp_data := []\<rparr>)"

lemma header_read_sel [simp]:
  "k_packet_buffer (header_read long seq t n s) = k_packet_buffer s" "k_crc_16_tab (header_read long seq t n s) = k_crc_16_tab s"
  "k_seven_bit_only (header_read long seq t n s) = k_seven_bit_only s" "k_check_type (header_read long seq t n s) = k_check_type s"
  by (simp_all add: header_read_def update_input_def)

definition take_data :: "byte list \<Rightarrow> nat \<Rightarrow> nat \<Rightarrow> kermit \<Rightarrow> decoded run" where
  "take_data bs n d s =
     andthen (decode_data_field bs (int n) s) (\<lambda>(res, s1).
       case res of
         None \<Rightarrow> bad_packet s1
       | Some _ \<Rightarrow> andthen (process_payload (update_input (kp_parsed_ok_update (\<lambda>_. True)) s1)) (\<lambda>s2. Inr (True, d, s2)))"

lemma decode_body_own:
  assumes "k_packet_buffer s = mark # body @ block_check (k_crc_16_tab s) (k_seven_bit_only s) ct stale body @ rest"
    and "ct = input_check_type len s" "ct \<in> {1, 2, 3, 12}" "length body + check_length ct = h + n" "h \<le> length body"
  shows "decode_body 0 h n len s = take_data (drop (Suc h) (k_packet_buffer s)) (length body - h) (1 + h + n) s"
proof -
  have "h + n - check_length ct = length body" "int n - int (check_length ct) = int (length body - h)" using assms(4,5) by auto
  moreover have "take (length body) (drop (Suc 0) (k_packet_buffer s)) = body"
    "drop (Suc (length body)) (k_packet_buffer s) = block_check (k_crc_16_tab s) (k_seven_bit_only s) ct stale body @ rest"
    "Suc (length body) + check_length ct \<le> length (k_packet_buffer s)"
    using assms(3) by (simp_all add: assms(1) length_block_check)
  ultimately show ?thesis
    using block_check_ok_own [OF assms(3)] assms(5)
    unfolding decode_body_def take_data_def Let_def add_0 assms(2) [symmetric] by simp
qed

lemma unat_byte [simp]: "n < 256 \<Longrightarrow> unat (of_nat n :: byte) = n"
  by (simp add: unat_of_nat)

lemma buffer_starts: "take (length xs) bs = xs \<Longrightarrow> bs = xs @ drop (length xs) bs"
  by (metis append_take_drop_id)

lemma decode_short_header:
  assumes buf: "k_packet_buffer s = sp_MARK (k_session s) # frame_body False seq t bs ct @ chk @ rest"
    and n: "k_packet_buffer_n s = length bs + check_length ct + 5" and chk: "length chk = check_length ct" "rest \<noteq> []"
    and ct: "0 < check_length ct" and len: "length bs + 2 + check_length ct < 256" and fits: "length bs + 2 + check_length ct \<le> unat (sp_MAXL (k_session s))"
    and seq: "seq < 64" and t: "t \<noteq> P_KUNKNOWN"
  shows "decode_input_bytes s =
    decode_body 0 3 (length bs + check_length ct) (length bs + 2 + check_length ct)
      (header_read False seq t (length bs + 2 + check_length ct) s)"
proof -
  let ?len = "length bs + 2 + check_length ct"
  have seq256: "seq < 256" using seq by simp
  have body: "frame_body False seq t bs ct = [kermit_tochar (of_nat ?len), kermit_tochar (of_nat seq), type_char t] @ bs"
    by (simp add: frame_body_def frame_header_def)
  have parts: "k_packet_buffer s ! 1 = kermit_tochar (of_nat ?len)" "k_packet_buffer s ! 2 = kermit_tochar (of_nat seq)"
    "k_packet_buffer s ! 3 = type_char t" "4 < length (k_packet_buffer s)"
    using chk ct by (simp_all add: buf body)
  have m: "length (takeWhile (\<lambda>b. b \<noteq> sp_MARK (k_session s)) (take (k_packet_buffer_n s) (k_packet_buffer s))) = 0"
    using n by (simp add: buf take_Cons')
  have st: "update_input (kp_type_update (\<lambda>_. t)) (update_input (kp_seq_update (\<lambda>_. seq))
      (update_input (\<lambda>p. p\<lparr>kp_length := ?len, kp_long_packet := False\<rparr>)
        (update_input (\<lambda>p. p\<lparr>kp_parsed_ok := False, kp_seq := 0, kp_type := P_KSINIT, kp_length := 0,
                                   kp_long_packet := False, kp_data := []\<rparr>) s))) = header_read False seq t ?len s"
    by (simp add: update_input_def header_read_def)
  have acc: "k_packet_buffer (update_input f u) = k_packet_buffer u" "k_packet_buffer_n (update_input f u) = k_packet_buffer_n u"
    "k_session (update_input f u) = k_session u" for f u by (simp_all add: update_input_def)
  have "decode_input_bytes s = decode_header 0 (update_input (\<lambda>p. p\<lparr>kp_parsed_ok := False, kp_seq := 0, kp_type := P_KSINIT, kp_length := 0,
                                   kp_long_packet := False, kp_data := []\<rparr>) s)"
    using n parts(4) unfolding decode_input_bytes_def Let_def m by simp
  also have "\<dots> = decode_body 0 3 (?len - 2) ?len (header_read False seq t ?len s)"
    unfolding decode_header_def Let_def acc add_0 parts unchar_tochar unat_byte [OF len] unat_byte [OF seq256]
    using ct n parts(4) seq t fits st by simp
  finally show ?thesis by simp
qed

text \<open>The buffer holds one frame of the kind the receiver expects.\<close>

definition holds_frame :: "kermit \<Rightarrow> bool \<Rightarrow> nat \<Rightarrow> kermit_packet_type \<Rightarrow> byte list \<Rightarrow> nat \<Rightarrow> byte \<Rightarrow> bool" where
  "holds_frame s long seq t bs ct stale \<longleftrightarrow>
     (\<exists>rest. k_packet_buffer s = frame s long seq t bs ct stale @ rest) \<and>
     k_packet_buffer_n s = length (frame s long seq t bs ct stale)"

lemma decode_own_short:
  assumes holds: "holds_frame s False seq t bs ct stale" and ct: "ct \<in> {1, 2, 3, 12}"
    and fits: "length bs + 2 + check_length ct \<le> unat (sp_MAXL (k_session s))" and seq: "seq < 64" and t: "t \<noteq> P_KUNKNOWN"
    and same: "ct = input_check_type (length bs + 2 + check_length ct) (header_read False seq t (length bs + 2 + check_length ct) s)"
  shows "decode_input_bytes s =
    take_data (drop 4 (k_packet_buffer s)) (length bs) (length bs + 4 + check_length ct)
      (header_read False seq t (length bs + 2 + check_length ct) s)"
proof -
  let ?len = "length bs + 2 + check_length ct" and ?b = "frame_body False seq t bs ct"
  let ?s = "header_read False seq t ?len s"
  obtain rest where buf: "k_packet_buffer s = sp_MARK (k_session s) # ?b @
        block_check (k_crc_16_tab s) (k_seven_bit_only s) ct stale ?b @ sp_EOL (k_session s) # rest"
    using holds by (auto simp: holds_frame_def frame_def)
  have n: "k_packet_buffer_n s = length bs + check_length ct + 5"
    using holds ct by (auto simp: holds_frame_def frame_def frame_body_def frame_header_def length_block_check)
  have body: "?b = [kermit_tochar (of_nat ?len), kermit_tochar (of_nat seq), type_char t] @ bs"
    by (simp add: frame_body_def frame_header_def)
  have cl: "0 < check_length ct" "?len < 256" using ct fits unsigned_less [of "sp_MAXL (k_session s)", where 'a = nat]
    by (auto simp: check_length_def)
  have "decode_input_bytes s = decode_body 0 3 (length bs + check_length ct) ?len ?s"
    by (rule decode_short_header [OF buf n]) (use cl ct fits seq t in \<open>simp_all add: length_block_check\<close>)
  also have "\<dots> = take_data (drop (Suc 3) (k_packet_buffer ?s)) (length ?b - 3) (1 + 3 + (length bs + check_length ct)) ?s"
    by (rule decode_body_own [where mark = "sp_MARK (k_session s)" and stale = stale and rest = "sp_EOL (k_session s) # rest"])
      (use same ct in \<open>simp_all add: buf, simp_all add: body\<close>)
  also have "Suc 3 = 4" by simp
  also have "length ?b - 3 = length bs" by (simp add: body)
  also have "1 + 3 + (length bs + check_length ct) = length bs + 4 + check_length ct" by simp
  finally show ?thesis by simp
qed

lemma header_check_less: "header_check bs < 64"
proof -
  have "x AND 63 = x mod 64" for x :: nat using take_bit_eq_mask [of 6 x] by (simp add: take_bit_eq_mod mask_eq_exp_minus_1)
  then show ?thesis by (simp add: header_check_def Let_def)
qed

lemma decode_own_long:
  assumes holds: "holds_frame s True seq t bs 3 stale" and len: "length bs + 3 \<le> long_length (k_session s)"
      "long_length (k_session s) \<le> 1024"
    and long: "sp_long_packets (k_session s)" and seq: "seq < 64" and t: "t \<noteq> P_KUNKNOWN"
    and same: "3 = input_check_type 0 (header_read True seq t (length bs + 8) s)"
  shows "decode_input_bytes s =
    take_data (drop 7 (k_packet_buffer s)) (length bs) (length bs + 10) (header_read True seq t (length bs + 8) s)"
proof -
  let ?n = "length bs + 3"
  let ?b = "frame_body True seq t bs 3"
  let ?h = "[kermit_tochar 0, kermit_tochar (of_nat seq), type_char t, kermit_tochar (of_nat (?n div 95)), kermit_tochar (of_nat (?n mod 95))]"
  let ?s = "header_read True seq t (length bs + 8) s"
  have cl: "check_length 3 = 3" by (simp add: check_length_def)
  have body: "?b = (?h @ [kermit_tochar (of_nat (header_check ?h))]) @ bs"
    by (simp add: frame_body_def frame_header_def Let_def)
  obtain rest where buf: "k_packet_buffer s = frame s True seq t bs 3 stale @ rest" and n: "k_packet_buffer_n s = length bs + 11"
    using holds by (auto simp: holds_frame_def frame_def frame_body_def frame_header_def Let_def length_block_check cl)
  define hc where "hc = kermit_tochar (of_nat (header_check ?h))"
  obtain tail where tail: "k_packet_buffer s = sp_MARK (k_session s) # (?h @ [hc]) @ tail" "4 \<le> length tail"
    by (simp add: buf frame_def body hc_def [symmetric] length_block_check cl)
  have parts: "k_packet_buffer s ! 1 = kermit_tochar 0" "k_packet_buffer s ! 2 = kermit_tochar (of_nat seq)"
    "k_packet_buffer s ! 3 = type_char t" "k_packet_buffer s ! 4 = kermit_tochar (of_nat (?n div 95))"
    "k_packet_buffer s ! 5 = kermit_tochar (of_nat (?n mod 95))" "k_packet_buffer s ! 6 = kermit_tochar (of_nat (header_check ?h))"
    "6 < length (k_packet_buffer s)" "take 5 (drop 1 (k_packet_buffer s)) = ?h"
    by (simp_all add: tail(1) hc_def [symmetric])
  have m: "length (takeWhile (\<lambda>b. b \<noteq> sp_MARK (k_session s)) (take (k_packet_buffer_n s) (k_packet_buffer s))) = 0"
    using n by (simp add: buf frame_def take_Cons')
  have "decode_body 0 6 ?n 0 ?s = take_data (drop (Suc 6) (k_packet_buffer ?s)) (length ?b - 6) (1 + 6 + ?n) ?s"
    by (rule decode_body_own [where mark = "sp_MARK (k_session s)" and stale = stale and rest = "sp_EOL (k_session s) # rest"])
      (use same in \<open>auto simp: header_read_def update_input_def buf frame_def body cl\<close>)
  moreover have "Suc 6 = 7" "length ?b - 6 = length bs" "1 + 6 + ?n = length bs + 10" "k_packet_buffer ?s = k_packet_buffer s"
    by (simp_all add: body header_read_def update_input_def)
  ultimately have dec: "decode_body 0 6 ?n 0 ?s = take_data (drop 7 (k_packet_buffer s)) (length bs) (length bs + 10) ?s"
    by metis
  have acc: "k_packet_buffer (update_input f u) = k_packet_buffer u" "k_packet_buffer_n (update_input f u) = k_packet_buffer_n u"
    "k_session (update_input f u) = k_session u" for f u by (simp_all add: update_input_def)
  have small: "?n div 95 < 256" using len by simp
  have nn: "unat (of_nat (?n div 95) :: byte) * 95 + unat (of_nat (?n mod 95) :: byte) = ?n"
    using small by simp
  let ?u = "update_input (kp_type_update (\<lambda>_. t)) (update_input (kp_seq_update (\<lambda>_. seq))
      (update_input (\<lambda>p. p\<lparr>kp_length := 0, kp_long_packet := True\<rparr>)
        (update_input (\<lambda>p. p\<lparr>kp_parsed_ok := False, kp_seq := 0, kp_type := P_KSINIT, kp_length := 0,
                                   kp_long_packet := False, kp_data := []\<rparr>) s)))"
  have st: "update_input (kp_length_update (\<lambda>_. ?n + 5)) (update_input (kp_length_update (\<lambda>_. ?n)) ?u) = ?s"
    by (simp add: update_input_def header_read_def)
  have hc: "unat (of_nat (header_check ?h) :: byte) = header_check ?h"
    using header_check_less [of ?h] by simp
  have "decode_long 0 ?u = decode_body 0 6 ?n 0 ?s"
    unfolding decode_long_def Let_def acc add_0 parts unchar_tochar nn hc st
    using n len by simp
  moreover have "decode_header 0 (update_input (\<lambda>p. p\<lparr>kp_parsed_ok := False, kp_seq := 0, kp_type := P_KSINIT, kp_length := 0,
                                   kp_long_packet := False, kp_data := []\<rparr>) s) = decode_long 0 ?u"
    unfolding decode_header_def Let_def acc add_0 parts unchar_tochar
    using n parts(7) seq t long by simp
  ultimately show ?thesis
    using n parts(7) unfolding decode_input_bytes_def Let_def m dec by simp
qed

section \<open>File data\<close>

text \<open>The bytes of the file that were not acknowledged yet.\<close>

definition unsent :: "kermit \<Rightarrow> byte list" where
  "unsent s = (case k_file_stream s of None \<Rightarrow> [] | Some f \<Rightarrow>
     drop (k_file_position s) (take (readable (k_world s) (fseek_set (k_file_position s) f)) (s_data f)))"

lemma fseek_set_sel [simp]: "s_pos (fseek_set n f) = n" "s_data (fseek_set n f) = s_data f"
  by (simp_all add: fseek_set_def)

lemma count_delivered_sel:
  "count_delivered s = Inr t \<Longrightarrow> k_out t = k_out s \<and> k_outstanding_bytes t = k_outstanding_bytes s"
  by (auto simp: count_delivered_def k_stats_increment_blocks_def k_update_stats_def Let_def split: if_split_asm)

text \<open>Of a file data packet: the frame, and what of the file is in its data.\<close>

lemma encode_file_data_by:
  assumes enc: "encode_output_packet s = Inr s1" and ok: "kp_parsed_ok (k_output s)"
    and data: "from_file s" and out: "k_out s = []"
  obtains bs at_end where
    "k_out s1 = frame s (sp_long_packets (k_session s)) (kp_seq (k_output s)) P_KDATA bs (k_check_type s) (uninit (k_world s))"
    "k_encode_data (encode_codec s) (k_text_mode s) (data_limit (sp_long_packets (k_session s)) (k_session s))
       (text_limit (k_session s)) (unsent s) = (bs, k_outstanding_bytes s1, at_end)"
proof -
  let ?long = "sp_long_packets (k_session s)"
  let ?s = "s\<lparr>k_output := (k_output s)\<lparr>kp_long_packet := ?long\<rparr>\<rparr>"
  let ?lim = "data_limit ?long (k_session s)"
  have t: "kp_type (k_output s) = P_KDATA" "k_state s = KM_SDW" using data by (simp_all add: from_file_def)
  obtain f where f: "k_file_stream s = Some f"
    using enc ok t by (cases "k_file_stream s") (auto simp: encode_output_packet_def encode_data_field_def from_file_def Let_def)
  obtain bs used at_end where e: "k_encode_data (encode_codec s) (k_text_mode s) ?lim (text_limit (k_session s)) (unsent s) = (bs, used, at_end)"
    by (cases "k_encode_data (encode_codec s) (k_text_mode s) ?lim (text_limit (k_session s)) (unsent s)")
  let ?f1 = "snd (fread (k_world s) (used + (if at_end then 1 else 0)) (fseek_set (k_file_position s) f))"
  have fld: "encode_data_field ?s = Inr (bs, ?s\<lparr>k_file_stream := Some ?f1, k_outstanding_bytes := used, k_block_size := length bs\<rparr>)"
    using e f t by (simp add: encode_data_field_def from_file_def unsent_def encode_codec_def)
  have ct: "output_check_type s = k_check_type s" by (simp add: output_check_type_def t)
  have "k_out s1 = frame s ?long (kp_seq (k_output s)) P_KDATA bs (k_check_type s) (uninit (k_world s)) \<and> k_outstanding_bytes s1 = used"
    using enc ok fld ct count_delivered_sel
    by (auto simp: encode_output_packet_def t Let_def out frame_def frame_body_def)
  then show thesis using that e by simp
qed

lemma encode_file_data:
  assumes "encode_output_packet s = Inr s1" "kp_parsed_ok (k_output s)" "codec_ok (encode_codec s)" "from_file s" "k_out s = []"
  obtains bs where
    "k_out s1 = frame s (sp_long_packets (k_session s)) (kp_seq (k_output s)) P_KDATA bs (k_check_type s) (uninit (k_world s))"
    "\<And>strip. k_decode_data (encode_codec s) strip bs =
       Some (strip_cr strip (text_form (k_text_mode s) (take (k_outstanding_bytes s1) (unsent s))))"
  using encode_file_data_by [OF assms(1,2,4,5)] encode_data_decodes(1) [OF assms(3)] by metis

definition session_matches :: "kermit \<Rightarrow> kermit \<Rightarrow> bool" where
  "session_matches s r \<longleftrightarrow> k_session r = k_session s \<and> k_check_type r = k_check_type s \<and>
     k_crc_16_tab r = k_crc_16_tab s \<and> k_seven_bit_only r = k_seven_bit_only s \<and> decode_codec r = encode_codec s"

definition frame_fits :: "kermit \<Rightarrow> byte list \<Rightarrow> bool" where
  "frame_fits s fr \<longleftrightarrow>
     (if sp_long_packets (k_session s) then k_check_type s = 3 \<and> length fr \<le> long_length (k_session s) + 8 \<and> long_length (k_session s) \<le> 1024
      else k_check_type s \<in> {1, 2, 3, 12} \<and> length fr \<le> unat (sp_MAXL (k_session s)) + 3)"

lemma take_file_data:
  assumes "k_state s = KM_RDW" "k_file_stream s \<noteq> None" "kp_type (k_input s) = P_KDATA" "\<not> kp_parsed_ok (k_input s)"
    and "k_decode_data (decode_codec s) (k_text_mode s) (take n bs) = Some out" "n \<le> length bs"
  shows "\<exists>t. take_data bs n d s = Inr (True, d, t) \<and> kp_parsed_ok (k_input t) \<and> kp_data (k_input t) = out \<and>
    kp_type (k_input t) = P_KDATA \<and> kp_seq (k_input t) = kp_seq (k_input s)"
  using assms by (auto simp: take_data_def decode_data_field_def Let_def process_payload_def update_input_def)

text \<open>
  C14.  A file data packet that \<open>encode_output_packet\<close> has made is taken by
  \<open>decode_input_bytes\<close> of an engine with the same session parameters.  It is a short packet with a
  block check of type 1, 2, 3 or B, or a long packet with the CRC, not longer than was agreed on;
  the prefixes for control characters and for repetitions are valid ones, the one for the eighth
  bit is valid or not in use.  The packet found has the type and the sequence number of the one
  sent, its data are the next bytes of the file (in text mode with the line ends converted),
  and all bytes of the frame but the last, the EOL, are used up.
\<close>

theorem kermit_file_data_delivered:
  assumes enc: "encode_output_packet s = Inr s1" "kp_parsed_ok (k_output s)" "codec_ok (encode_codec s)"
      "from_file s" "k_out s = []" "kp_seq (k_output s) < 64"
    and fits: "frame_fits s (k_out s1)" and same: "session_matches s r"
    and rcv: "k_state r = KM_RDW" "k_file_stream r \<noteq> None"
    and buf: "take (k_packet_buffer_n r) (k_packet_buffer r) = k_out s1" "k_packet_buffer_n r = length (k_out s1)"
  shows "\<exists>t. decode_input_bytes r = Inr (True, length (k_out s1) - 1, t) \<and> kp_parsed_ok (k_input t) \<and>
    kp_type (k_input t) = P_KDATA \<and> kp_seq (k_input t) = kp_seq (k_output s) \<and>
    kp_data (k_input t) = strip_cr (k_text_mode r) (text_form (k_text_mode s) (take (k_outstanding_bytes s1) (unsent s)))"
proof -
  let ?long = "sp_long_packets (k_session s)" and ?seq = "kp_seq (k_output s)"
  let ?stale = "uninit (k_world s)"
  obtain bs where bs: "k_out s1 = frame s ?long ?seq P_KDATA bs (k_check_type s) ?stale"
    "k_decode_data (encode_codec s) (k_text_mode r) bs =
       Some (strip_cr (k_text_mode r) (text_form (k_text_mode s) (take (k_outstanding_bytes s1) (unsent s))))"
    using encode_file_data [OF enc(1-5)] by metis
  have fr: "frame r l q t b c x = frame s l q t b c x" for l q t b c x
    using same by (simp add: frame_def session_matches_def)
  have holds: "holds_frame r ?long ?seq P_KDATA bs (k_check_type s) ?stale"
    using buf buffer_starts [of "k_out s1" "k_packet_buffer r"] by (auto simp: holds_frame_def fr bs(1))
  have ct: "k_check_type s \<in> {1, 2, 3, 12}" using fits by (auto simp: frame_fits_def split: if_split_asm)
  have ict: "input_check_type n (header_read l q P_KDATA k r) = k_check_type s" for n l q k
    using same by (simp add: input_check_type_def header_read_def update_input_def session_matches_def)
  obtain rest where pb: "k_packet_buffer r = k_out s1 @ rest" using holds by (auto simp: holds_frame_def fr bs(1))
  show ?thesis
  proof (cases ?long)
    case True
    have c3: "k_check_type s = 3" and lens: "length bs + 3 \<le> long_length (k_session r)" "long_length (k_session r) \<le> 1024"
      and fl: "length (k_out s1) - 1 = length bs + 10"
      using fits True same
      by (auto simp: frame_fits_def bs(1) frame_def frame_body_def frame_header_def Let_def length_block_check check_length_def session_matches_def)
    have d: "take (length bs) (drop 7 (k_packet_buffer r)) = bs" "length bs \<le> length (drop 7 (k_packet_buffer r))"
      by (simp_all add: pb bs(1) True frame_def frame_body_def frame_header_def Let_def)
    show ?thesis
      using decode_own_long [of r ?seq P_KDATA bs ?stale] holds True c3 lens enc(6) same ict
        take_file_data [of "header_read True ?seq P_KDATA (length bs + 8) r" "length bs" "drop 7 (k_packet_buffer r)" _ "length bs + 10"]
        rcv d bs(2) fl
      by (auto simp: session_matches_def header_read_def update_input_def decode_codec_def)
  next
    case False
    let ?n = "length bs + 2 + check_length (k_check_type s)"
    have lens: "?n \<le> unat (sp_MAXL (k_session r))"
      and fl: "length (k_out s1) - 1 = length bs + 4 + check_length (k_check_type s)"
      using fits False same ct
      by (auto simp: frame_fits_def bs(1) frame_def frame_body_def frame_header_def Let_def length_block_check session_matches_def)
    have d: "take (length bs) (drop 4 (k_packet_buffer r)) = bs" "length bs \<le> length (drop 4 (k_packet_buffer r))"
      by (simp_all add: pb bs(1) False frame_def frame_body_def frame_header_def Let_def)
    show ?thesis
      using decode_own_short [of r ?seq P_KDATA bs "k_check_type s" ?stale] holds False lens ct enc(6) ict
        take_file_data [of "header_read False ?seq P_KDATA ?n r" "length bs" "drop 4 (k_packet_buffer r)" _ "length bs + 4 + check_length (k_check_type s)"]
        rcv d bs(2) fl same
      by (auto simp: session_matches_def header_read_def update_input_def decode_codec_def)
  qed
qed

lemma encode_file_data_succeeds:
  assumes "from_file s" "k_file_stream s \<noteq> None" "0 < sp_MAXL (k_session s)"
  shows "\<exists>t. encode_output_packet s = Inr t"
proof -
  have "0 < unat (sp_MAXL (k_session s))" using assms(3) by (simp add: word_less_nat_alt)
  then show ?thesis using assms
    by (auto simp: encode_output_packet_def encode_data_field_def from_file_def Let_def count_delivered_def
        k_stats_increment_blocks_def k_update_stats_def split: prod.split)
qed

text \<open>A sender with a file, and a receiver that holds what the sender has sent.\<close>

definition sample_parameters :: "byte \<Rightarrow> session_parameters" where
  "sample_parameters maxl = bare_parameters\<lparr>sp_MAXL := maxl, sp_CHKT := 51, sp_REPT := 126\<rparr>"

definition kermit_sample :: "byte \<Rightarrow> byte list \<Rightarrow> kermit" where
  "kermit_sample maxl bs =
     (initial_kermit \<lparr>ko_robust_filename = False, ko_streaming = False, ko_long_packets = False, ko_uploads_force_binary = True,
          ko_downloads_convert_text = False, ko_resend = False, ko_seven_bit_line = False\<rparr> (\<lambda>_. []) (\<lambda>_. None)
        \<lparr>now = 0, files = Map.empty, may_open = (\<lambda>_. True), bad_at = (\<lambda>_. None), space = 4096, uninit = 0,
         stat_denied = (\<lambda>_. False), entropy = 0\<rparr>)
       \<lparr>k_local := sample_parameters maxl, k_remote := sample_parameters maxl, k_session := sample_parameters maxl,
        k_check_type := 3, k_crc_16_tab := k_makecrc, k_in_window := [empty_slot], k_out_window := [empty_slot],
        k_file_stream := Some \<lparr>s_path = [97], s_data = bs, s_pos = 0, s_eof = False, s_err = False, s_write = False\<rparr>\<rparr>"

definition k_sample_sender :: "byte \<Rightarrow> byte list \<Rightarrow> kermit" where
  "k_sample_sender maxl bs = (kermit_sample maxl bs)
     \<lparr>k_state := KM_SDW, k_sending := True, k_output := (empty_packet 1024)\<lparr>kp_parsed_ok := True, kp_type := P_KDATA, kp_seq := 5\<rparr>\<rparr>"

definition k_sample_receiver :: "byte \<Rightarrow> byte list \<Rightarrow> kermit" where
  "k_sample_receiver maxl fr = (kermit_sample maxl [])
     \<lparr>k_state := KM_RDW, k_packet_buffer := memcpy (replicate 2048 0) 0 fr, k_packet_buffer_n := length fr\<rparr>"

lemmas sample_kermit_defs = k_sample_sender_def k_sample_receiver_def kermit_sample_def sample_parameters_def bare_parameters_def
  initial_kermit_def empty_packet_def

lemma sample_matches: "session_matches (k_sample_sender maxl bs) (k_sample_receiver maxl fr)"
  by (simp add: session_matches_def decode_codec_def encode_codec_def sample_kermit_defs)

lemma sample_codec: "codec_ok (encode_codec (k_sample_sender maxl bs))"
  by (simp add: codec_ok_def encode_codec_def valid_prefix_def sample_kermit_defs)

lemma sample_from_file: "from_file (k_sample_sender maxl bs)"
  by (simp add: from_file_def sample_kermit_defs)

lemma sample_buffer: "length fr \<le> 2048 \<Longrightarrow> take (length fr) (k_packet_buffer (k_sample_receiver maxl fr)) = fr"
  using take_drop_memcpy [of 0 fr "replicate 2048 0" "length fr"] by (simp add: k_sample_receiver_def)

lemma sample_unsent: "unsent (k_sample_sender maxl bs) = bs"
  by (simp add: unsent_def sample_kermit_defs readable_def)

lemma sample_sel:
  "k_text_mode (k_sample_sender maxl bs) = False" "k_text_mode (k_sample_receiver maxl fr) = False"
  "kp_seq (k_output (k_sample_sender maxl bs)) = 5"
  by (simp_all add: sample_kermit_defs)

lemma sample_sent:
  assumes "0 < maxl"
  shows "\<exists>s1 d at_end. encode_output_packet (k_sample_sender maxl bs) = Inr s1 \<and> length (k_out s1) = length d + 8 \<and>
    k_encode_data (encode_codec (k_sample_sender maxl bs)) False (data_limit False (sample_parameters maxl))
       (text_limit (sample_parameters maxl)) bs = (d, k_outstanding_bytes s1, at_end)"
proof -
  let ?s = "k_sample_sender maxl bs"
  have sel: "kp_parsed_ok (k_output ?s)" "k_out ?s = []" "\<not> sp_long_packets (k_session ?s)" "k_check_type ?s = 3"
    "\<not> k_text_mode ?s" "k_session ?s = sample_parameters maxl" "k_file_stream ?s \<noteq> None" "sp_MAXL (k_session ?s) = maxl"
    by (simp_all add: sample_kermit_defs)
  obtain s1 where s1: "encode_output_packet ?s = Inr s1"
    using encode_file_data_succeeds [OF sample_from_file sel(7)] assms sel(8) by auto
  from encode_file_data_by [OF this sel(1) sample_from_file sel(2)] obtain d at_end where d:
    "k_out s1 = frame ?s (sp_long_packets (k_session ?s)) (kp_seq (k_output ?s)) P_KDATA d (k_check_type ?s) (uninit (k_world ?s))"
    "k_encode_data (encode_codec ?s) (k_text_mode ?s) (data_limit (sp_long_packets (k_session ?s)) (k_session ?s))
       (text_limit (k_session ?s)) (unsent ?s) = (d, k_outstanding_bytes s1, at_end)" .
  have "length (k_out s1) = length d + 8"
    unfolding d(1) sel(4) frame_def frame_body_def using sel(3) by (simp add: frame_header_def length_block_check check_length_def)
  moreover have "k_encode_data (encode_codec ?s) False (data_limit False (sample_parameters maxl))
      (text_limit (sample_parameters maxl)) bs = (d, k_outstanding_bytes s1, at_end)"
    using d(2) sel(3,5,6) by (simp add: sample_unsent)
  ultimately show ?thesis using s1 by blast
qed

theorem kermit_file_data_delivered_witness:
  "\<exists>s1 t. encode_output_packet (k_sample_sender 80 [72, 105]) = Inr s1 \<and>
     decode_input_bytes (k_sample_receiver 80 (k_out s1)) = Inr (True, length (k_out s1) - 1, t) \<and> kp_parsed_ok (k_input t) \<and>
     kp_type (k_input t) = P_KDATA \<and> kp_seq (k_input t) = 5 \<and> kp_data (k_input t) = [72, 105]"
proof -
  obtain s1 d e where s1: "encode_output_packet (k_sample_sender 80 [72, 105]) = Inr s1" "length (k_out s1) = length d + 8"
    "k_encode_data (encode_codec (k_sample_sender 80 [72, 105])) False (data_limit False (sample_parameters 80))
       (text_limit (sample_parameters 80)) [72, 105] = (d, k_outstanding_bytes s1, e)"
    using sample_sent [of 80 "[72, 105]"] by auto
  have d: "d = [72, 105]" "k_outstanding_bytes s1 = 2"
    using s1(3)
    by (simp_all add: k_encode_data_def encode_loop.simps encoder_start_def k_encode_char_def encode_finish_def encode_one_byte_def
        encode_prefixed_def needs_quote_def is_control_def encode_codec_def data_limit_def sample_kermit_defs)
  have "\<exists>t. decode_input_bytes (k_sample_receiver 80 (k_out s1)) = Inr (True, length (k_out s1) - 1, t) \<and> kp_parsed_ok (k_input t) \<and>
    kp_type (k_input t) = P_KDATA \<and> kp_seq (k_input t) = kp_seq (k_output (k_sample_sender 80 [72, 105])) \<and>
    kp_data (k_input t) = strip_cr (k_text_mode (k_sample_receiver 80 (k_out s1))) (text_form (k_text_mode (k_sample_sender 80 [72, 105]))
      (take (k_outstanding_bytes s1) (unsent (k_sample_sender 80 [72, 105]))))"
  proof (rule kermit_file_data_delivered [OF s1(1) _ sample_codec sample_from_file _ _ _ sample_matches])
    show "take (k_packet_buffer_n (k_sample_receiver 80 (k_out s1))) (k_packet_buffer (k_sample_receiver 80 (k_out s1))) = k_out s1"
      using sample_buffer [of "k_out s1" 80] s1(2) d(1) by (simp add: k_sample_receiver_def)
  qed (use s1(2) d in \<open>simp_all add: frame_fits_def sample_kermit_defs\<close>)
  then show ?thesis using s1(1) d(2)
    by (simp add: sample_unsent sample_sel strip_cr_def text_form_def)
qed

end
