(* ===== verification/Kermit_Safety.thy ===== *)
theory Kermit_Safety
  imports Kermit_Roundtrip
begin

text \<open>
  Two engines agree on their parameters, damaged packets are refused, and the inputs and
  orders of events on which the Kermit engine fails.
\<close>

unbundle bit_operations_syntax

section \<open>Negotiation\<close>

text \<open>
  What each side makes of the parameters of the other: the receiver of the Send-Init packet,
  the sender of its acknowledgement.
\<close>

definition take_parameters :: "byte list \<Rightarrow> kermit \<Rightarrow> kermit run" where
  "take_parameters bs s = negotiate_send_init (snd (process_send_init (update_input (kp_data_update (\<lambda>_. bs)) s)))"

definition exchange_parameters :: "kermit \<Rightarrow> kermit \<Rightarrow> (kermit \<times> kermit) run" where
  "exchange_parameters a b =
     andthen (take_parameters (send_init_data (k_local a) (k_session a)) b) (\<lambda>b'.
     andthen (take_parameters (send_init_data (k_local b') (k_session b')) a) (\<lambda>a'. Inr (a', b')))"

definition default_parameters :: "bool \<Rightarrow> bool \<Rightarrow> bool \<Rightarrow> session_parameters" where
  "default_parameters seven long st =
     \<lparr>sp_MARK = C_SOH, sp_MAXL = 80, sp_TIME = 5, sp_NPAD = 0, sp_PADC = 0, sp_EOL = C_CR, sp_QCTL = 35,
      sp_QBIN = (if seven then 38 else 89), sp_CHKT = 51, sp_REPT = 126, sp_CAPAS = (if long then 30 else 28), sp_WINDO = 30,
      sp_MAXLX1 = 10, sp_MAXLX2 = 74, sp_WHATAMI = (if st then 0x28 else 0), sp_attributes = True, sp_windowing = True,
      sp_long_packets = long, sp_streaming = st, sp_WINDO_in = 1, sp_WINDO_out = 1\<rparr>"

lemma set_default_session_parameters_eq:
  "set_default_session_parameters seven opt = default_parameters seven (ko_long_packets opt) (ko_streaming opt)"
  by (simp add: set_default_session_parameters_def default_parameters_def KERMIT_BLOCK_SIZE_def)

lemmas negotiation_defs = negotiate_capas_def negotiate_rept_def negotiate_chkt_def negotiate_qbin_def
  negotiate_lengths_def window_size_def check_type_of_def prefix_range_def send_init_data_def read_parameters_def
  bare_parameters_def field_or_def read_capas_def default_long_length_def long_length_def KERMIT_BLOCK_SIZE_def
  kermit_tochar_def kermit_unchar_def kermit_ctl_def C_SOH_def C_CR_def default_parameters_def

text \<open>What the other side reads of the defaults.\<close>

lemma read_default_parameters:
  "read_parameters (send_init_data (default_parameters seven long st) (default_parameters seven long st)) =
     Some ((default_parameters seven long st)\<lparr>sp_WHATAMI := 0, sp_MAXLX1 := 10, sp_MAXLX2 := 74\<rparr>)"
  by (cases seven; cases long; cases st) (simp_all add: negotiation_defs Let_def)

text \<open>The parameters of the session from the own ones and those of the other side.\<close>

definition settle_windows :: "session_parameters \<Rightarrow> session_parameters \<Rightarrow> session_parameters \<Rightarrow> session_parameters" where
  "settle_windows loc rem ses =
     (let w = window_size loc rem;
          ses1 = (if w < 2 then ses\<lparr>sp_WINDO := 0, sp_windowing := False, sp_WINDO_out := 1\<rparr>
                  else ses\<lparr>sp_WINDO := w, sp_WINDO_in := unat w, sp_WINDO_out := unat w\<rparr>)
      in if sp_windowing loc \<noteq> sp_windowing rem then ses\<lparr>sp_windowing := False\<rparr>
         else if sp_streaming ses1 \<or> \<not> sp_windowing loc then ses1\<lparr>sp_windowing := False, sp_WINDO_in := 1, sp_WINDO_out := 1\<rparr>
         else ses1\<lparr>sp_windowing := True, sp_CAPAS := sp_CAPAS ses1 OR 0x04\<rparr>)"

definition settle :: "session_parameters \<Rightarrow> session_parameters \<Rightarrow> session_parameters" where
  "settle loc rem = settle_windows loc rem (negotiate_capas loc rem (negotiate_rept loc rem (negotiate_chkt loc rem
                  (negotiate_qbin loc rem (negotiate_lengths loc rem loc)))))"

lemma settle_CHKT: "sp_CHKT (settle loc rem) = (if sp_CHKT loc = sp_CHKT rem then sp_CHKT rem else 49)"
  by (simp add: settle_def settle_windows_def negotiate_chkt_def negotiate_capas_def negotiate_rept_def Let_def)

definition fresh_session :: "bool \<Rightarrow> bool \<Rightarrow> bool \<Rightarrow> kermit \<Rightarrow> bool" where
  "fresh_session seven long st s \<longleftrightarrow> k_local s = default_parameters seven long st \<and>
     k_session s = default_parameters seven long st \<and> k_in_window s \<noteq> [] \<and> k_out_window s \<noteq> []"

lemma kermit_start_fresh:
  "kermit_start_common s = Inr t \<Longrightarrow>
   fresh_session (ko_seven_bit_line (k_opt s)) (ko_long_packets (k_opt s)) (ko_streaming (k_opt s)) t"
  by (auto simp: kermit_start_common_def fresh_session_def set_default_session_parameters_eq andthen_eq_Inr Let_def k_reset_timer_def
      k_last_message_def k_update_stats_def)

lemma take_parameters_settles:
  assumes "fresh_session x l st s" "read_parameters bs = Some rem"
  shows "\<exists>t. take_parameters bs s = Inr t \<and> k_session t = settle (default_parameters x l st) rem \<and> k_remote t = rem \<and>
    k_local t = k_local s \<and> k_check_type t = check_type_of (sp_CHKT (settle (default_parameters x l st) rem))"
proof -
  let ?u = "update_input (kp_data_update (\<lambda>_. bs)) s"
  have u: "process_send_init ?u = (True, ?u\<lparr>k_remote := rem\<rparr>)" by (simp add: process_send_init_def update_input_def assms)
  have w: "k_in_window s \<noteq> []" "k_out_window s \<noteq> []" "k_local s = default_parameters x l st" "k_session s = default_parameters x l st"
    using assms(1) by (simp_all add: fresh_session_def)
  show ?thesis
    unfolding take_parameters_def u snd_conv negotiate_send_init_def Let_def settle_CHKT
    by (simp add: negotiate_windows_def settle_def settle_windows_def Let_def update_input_def w negotiate_chkt_def
        negotiate_capas_def negotiate_rept_def)
qed

text \<open>The same computed for the defaults: what both sides end with.\<close>

definition common_parameters :: "bool \<Rightarrow> bool \<Rightarrow> bool \<Rightarrow> session_parameters" where
  "common_parameters seven long st =
     \<lparr>sp_MARK = C_SOH, sp_MAXL = 80, sp_TIME = 5, sp_NPAD = 0, sp_PADC = 0, sp_EOL = C_CR, sp_QCTL = 35,
      sp_QBIN = (if seven then 38 else 32), sp_CHKT = 51, sp_REPT = 126,
      sp_CAPAS = (if long then 26 else 24) + (if st then 0 else 4), sp_WINDO = 30,
      sp_MAXLX1 = 10, sp_MAXLX2 = 74, sp_WHATAMI = (if st then 0x28 else 0), sp_attributes = True, sp_windowing = (\<not> st),
      sp_long_packets = long, sp_streaming = st, sp_WINDO_in = (if st then 1 else 30), sp_WINDO_out = (if st then 1 else 30)\<rparr>"

definition read_back :: "session_parameters \<Rightarrow> session_parameters" where
  "read_back p = p\<lparr>sp_WHATAMI := 0, sp_WINDO_in := 1, sp_WINDO_out := 1,
     sp_MAXLX1 := 10, sp_MAXLX2 := 74\<rparr>"

lemma read_common_parameters:
  "read_parameters (send_init_data (default_parameters y m su) (common_parameters x l st)) = Some (read_back (common_parameters x l st))"
  by (cases x; cases l; cases st) (simp_all add: negotiation_defs Let_def common_parameters_def read_back_def)

lemmas settle_defs = settle_def settle_windows_def negotiate_capas_def negotiate_rept_def negotiate_chkt_def
  negotiate_qbin_def negotiate_lengths_def window_size_def prefix_range_def Let_def

lemma settle_receiver:
  "settle (default_parameters y m su) ((default_parameters x l st)\<lparr>sp_WHATAMI := 0, sp_MAXLX1 := 10, sp_MAXLX2 := 74\<rparr>) =
   common_parameters (x \<or> y) (l \<and> m) (st \<and> su)"
  by (cases x; cases y; cases l; cases m; cases st; cases su)
    (simp_all add: settle_defs default_parameters_def common_parameters_def)

lemma settle_sender:
  "settle (default_parameters x l st) (read_back (common_parameters (x \<or> y) (l \<and> m) (st \<and> su))) =
   common_parameters (x \<or> y) (l \<and> m) (st \<and> su)"
  by (cases x; cases y; cases l; cases m; cases st; cases su)
    (simp_all add: settle_defs default_parameters_def common_parameters_def read_back_def)

definition agreed :: "kermit \<Rightarrow> kermit \<Rightarrow> bool" where
  "agreed s t \<longleftrightarrow> k_session t = k_session s \<and> k_check_type s = 3 \<and> k_check_type t = 3 \<and>
     decode_codec t = encode_codec s \<and> decode_codec s = encode_codec t \<and> codec_ok (encode_codec s)"

lemma exchange_agrees:
  assumes a: "fresh_session x l st a" and b: "fresh_session y m su b"
  shows "\<exists>a' b'. exchange_parameters a b = Inr (a', b') \<and> agreed a' b'"
proof -
  let ?c = "common_parameters (x \<or> y) (l \<and> m) (st \<and> su)"
  have pa: "k_local a = default_parameters x l st" "k_session a = default_parameters x l st" "k_local b = default_parameters y m su"
    using a b by (simp_all add: fresh_session_def)
  obtain b' where b': "take_parameters (send_init_data (k_local a) (k_session a)) b = Inr b'" "k_session b' = ?c"
      "k_remote b' = (default_parameters x l st)\<lparr>sp_WHATAMI := 0, sp_MAXLX1 := 10, sp_MAXLX2 := 74\<rparr>"
      "k_local b' = default_parameters y m su" "k_check_type b' = check_type_of (sp_CHKT ?c)"
    using take_parameters_settles [OF b read_default_parameters [of x l st]] by (auto simp: pa settle_receiver)
  obtain a' where a': "take_parameters (send_init_data (k_local b') (k_session b')) a = Inr a'" "k_session a' = ?c"
      "k_remote a' = read_back ?c" "k_local a' = default_parameters x l st" "k_check_type a' = check_type_of (sp_CHKT ?c)"
    using take_parameters_settles [OF a read_common_parameters [of y m su "x \<or> y" "l \<and> m" "st \<and> su"]] by (auto simp: pa b' settle_sender)
  have "agreed a' b'"
    by (simp add: agreed_def a' b' decode_codec_def encode_codec_def codec_ok_def valid_prefix_def read_back_def
        common_parameters_def default_parameters_def check_type_of_def)
  then show ?thesis unfolding exchange_parameters_def b'(1) andthen.simps a'(1) by simp
qed

text \<open>
  C15.  Two engines that have just been started, each with its own options (a line of seven bits
  or not, long packets or not, streaming or not), agree on one session when the parameters in
  the Send-Init packet and those in its acknowledgement have been exchanged: the negotiated
  parameters are equal field by field, both use the CRC, and each decodes the prefixes the
  other one encodes.
\<close>

theorem kermit_parameters_agree:
  assumes "kermit_start_common s = Inr a" "kermit_start_common t = Inr b"
  shows "\<exists>a' b'. exchange_parameters a b = Inr (a', b') \<and> agreed a' b'"
  by (rule exchange_agrees) (rule kermit_start_fresh, rule assms)+

theorem kermit_parameters_agree_witness:
  "\<exists>a b a' b'. kermit_start_common (kermit_sample 80 []) = Inr a \<and>
     kermit_start_common ((kermit_sample 80 [])\<lparr>k_opt := (k_opt (kermit_sample 80 []))\<lparr>ko_streaming := True, ko_seven_bit_line := True\<rparr>\<rparr>) = Inr b \<and>
     exchange_parameters a b = Inr (a', b') \<and> agreed a' b'"
proof -
  obtain a b where "kermit_start_common (kermit_sample 80 []) = Inr a"
    "kermit_start_common ((kermit_sample 80 [])\<lparr>k_opt := (k_opt (kermit_sample 80 []))\<lparr>ko_streaming := True, ko_seven_bit_line := True\<rparr>\<rparr>) = Inr b"
    by (simp add: kermit_start_common_def free_windows_def kermit_sample_def initial_kermit_def Let_def)
  then show ?thesis using kermit_parameters_agree by blast
qed

section \<open>Refused packets\<close>

text \<open>A receiver whose input window has one slot, without windowing, answers a bad packet with a NAK.\<close>

definition single_slot :: "kermit \<Rightarrow> bool" where
  "single_slot s \<longleftrightarrow> \<not> k_sending s \<and> \<not> sp_windowing (k_session s) \<and> sp_WINDO_in (k_session s) = 1 \<and>
     length (k_in_window s) = 1 \<and> k_in_begin s = 0 \<and> k_in_i s = 0 \<and> k_in_n s \<le> 1"

definition refused :: "kermit \<Rightarrow> decoded run \<Rightarrow> bool" where
  "refused s r \<longleftrightarrow> (\<exists>t. r = Inr (True, k_packet_buffer_n s, t) \<and> \<not> kp_parsed_ok (k_input t) \<and>
     kp_parsed_ok (k_output t) \<and> kp_type (k_output t) = P_KNAK \<and>
     k_file_stream t = k_file_stream s \<and> k_world t = k_world s \<and> k_file_position t = k_file_position s)"

lemma nak_packet_single:
  assumes "single_slot s"
  shows "\<exists>q. nak_packet s = Inr (k_stats_increment_errors (''NAK - SEQ %u'', Some (of_nat q))
    (s\<lparr>k_output := (k_output s)\<lparr>kp_parsed_ok := True, kp_type := P_KNAK, kp_seq := q, kp_data := []\<rparr>\<rparr>))"
proof -
  have w: "k_in_window s = [k_in_window s ! 0]" using assms by (cases "k_in_window s") (auto simp: single_slot_def)
  obtain q where "nak_seq s = Inr q"
  proof (cases "k_in_n s")
    case (Suc n)
    then have "k_in_n s = 1" using assms by (simp add: single_slot_def)
    then show ?thesis using that assms
      by (cases "ks_acked (k_in_window s ! 0)") (auto simp: nak_seq_def in_find_def slot_def single_slot_def)
  qed (use that in \<open>auto simp: nak_seq_def\<close>)
  then show ?thesis using assms
    by (intro exI [of _ q]) (simp add: nak_packet_def single_slot_def set_output_def Let_def k_stats_increment_errors_def k_update_stats_def)
qed

lemma bad_packet_refused:
  assumes "single_slot s" "\<not> kp_parsed_ok (k_input s)"
  shows "refused s (bad_packet s)"
  using nak_packet_single [OF assms(1)] assms
  by (auto simp: bad_packet_def nak_bad_packet_def single_slot_def refused_def k_stats_increment_errors_def k_update_stats_def)

lemma refused_header: "refused (header_read long seq t n s) r \<Longrightarrow> refused s r"
  by (simp add: refused_def header_read_def update_input_def)

lemma single_slot_header: "single_slot s \<Longrightarrow> single_slot (header_read long seq t n s)"
  by (simp add: single_slot_def header_read_def update_input_def)

lemma not_parsed_header: "\<not> kp_parsed_ok (k_input (header_read long seq t n s))"
  by (simp add: header_read_def update_input_def)

text \<open>One byte of the data was replaced by another.\<close>

lemma crc_check_ok_iff:
  "block_check_ok tab seven 3 bs (block_check tab seven 3 stale cs @ rest) \<longleftrightarrow>
   k_compute_crc16 tab seven bs = k_compute_crc16 tab seven cs"
  using crc_split [of "k_compute_crc16 tab seven cs"]
  by (simp add: block_check_ok_def block_check_def Let_def masks_16 six_bits four_bits flip: crc_split word_uint_eq_iff)

lemma damaged_crc:
  assumes "i < length bs" "b \<noteq> bs ! i"
  shows "k_compute_crc16 k_makecrc False (xs @ bs[i := b]) \<noteq> k_compute_crc16 k_makecrc False (xs @ bs)"
proof -
  have "(xs @ bs)[length xs + i := b] = xs @ bs[i := b]" by (simp add: list_update_append)
  moreover have "seven_bit False = id" by (rule ext) (simp add: seven_bit_def)
  ultimately show ?thesis
    using kermit_crc.single_byte_error_detected [of "length xs + i" "xs @ bs" b 0] assms
    by (simp add: k_compute_crc16_eq nth_append)
qed

definition kermit_damaged_frame :: "kermit \<Rightarrow> nat \<Rightarrow> kermit_packet_type \<Rightarrow> byte list \<Rightarrow> nat \<Rightarrow> byte \<Rightarrow> byte list" where
  "kermit_damaged_frame s seq t bs i b = (frame s False seq t bs 3 0)[i + 4 := b]"

lemma update_behind_header:
  "length h = 3 \<Longrightarrow> i < length bs \<Longrightarrow> (m # h @ bs @ r)[i + 4 := b] = m # h @ bs[i := b] @ r"
proof -
  assume h: "length h = 3" "i < length bs"
  then have "i + 4 = Suc (length h + i)" by simp
  then show ?thesis using h(2) by (simp only: list_update.simps nat.case) (simp add: list_update_append)
qed

text \<open>
  C16.  On a line of eight bits, a short packet with the 16-bit CRC, within the length agreed on,
  in which one byte of the data has been replaced by another is refused by a receiver without
  windowing: the whole buffer is thrown away, no packet is handed on, a NAK is sent, and file,
  position and directory stay as they were.
\<close>

theorem kermit_damage_refused:
  assumes "k_packet_buffer s = kermit_damaged_frame s seq t bs i b @ rest" "k_packet_buffer_n s = length (kermit_damaged_frame s seq t bs i b)"
    and "i < length bs" "b \<noteq> bs ! i" "k_crc_16_tab s = k_makecrc" "\<not> k_seven_bit_only s" "k_check_type s = 3"
    and "length bs + 5 \<le> unat (sp_MAXL (k_session s))" "seq < 64" "t \<notin> {P_KUNKNOWN, P_KSINIT, P_KNAK}" "single_slot s"
  shows "refused s (decode_input_bytes s)"
proof -
  let ?c = "frame_header False seq (type_char t) (length bs) 3"
  let ?chk = "block_check k_makecrc False 3 0 (?c @ bs)" and ?s = "header_read False seq t (length bs + 5) s"
  have cl: "check_length 3 = 3" by (simp add: check_length_def)
  have hl: "length ?c = 3" by (simp add: frame_header_def)
  have "kermit_damaged_frame s seq t bs i b = sp_MARK (k_session s) # frame_body False seq t (bs[i := b]) 3 @ ?chk @ [sp_EOL (k_session s)]"
    using update_behind_header [OF hl assms(3)] assms(5,6)
    unfolding kermit_damaged_frame_def frame_def frame_body_def cl append_assoc length_list_update by simp
  with assms(1) have buf: "k_packet_buffer s = sp_MARK (k_session s) # frame_body False seq t (bs[i := b]) 3 @ ?chk @ sp_EOL (k_session s) # rest"
    by simp
  have lc: "length ?chk = 3" by (simp add: length_block_check cl)
  have n: "k_packet_buffer_n s = length bs + 8"
    using assms(2) unfolding kermit_damaged_frame_def length_list_update by (simp add: frame_def frame_body_def cl hl length_block_check)
  have m: "length bs + 5 < 256" using assms(8) unsigned_less [of "sp_MAXL (k_session s)", where 'a = nat] by simp
  have "decode_input_bytes s = decode_body 0 3 (length bs + 3) (length bs + 5) ?s"
    using decode_short_header [OF buf, of] n assms(8-10) m lc by (simp add: cl add.commute)
  moreover have "input_check_type (length bs + 5) ?s = 3"
    using assms(7,10) by (cases t) (simp_all add: input_check_type_def header_read_def update_input_def)
  moreover have "\<not> block_check_ok k_makecrc False 3 (?c @ bs[i := b]) (?chk @ sp_EOL (k_session s) # rest)"
    using damaged_crc [OF assms(3,4), of ?c] by (simp add: crc_check_ok_iff)
  moreover have parts: "take (3 + length bs) (drop (Suc 0) (k_packet_buffer s)) = ?c @ bs[i := b]"
    "drop (4 + length bs) (k_packet_buffer s) = ?chk @ sp_EOL (k_session s) # rest" "7 + length bs \<le> length (k_packet_buffer s)"
  proof -
    have b: "k_packet_buffer s = (sp_MARK (k_session s) # ?c @ bs[i := b]) @ ?chk @ sp_EOL (k_session s) # rest"
      by (simp add: buf frame_body_def cl)
    have l: "length (sp_MARK (k_session s) # ?c @ bs[i := b]) = 4 + length bs" by (simp add: hl)
    show "drop (4 + length bs) (k_packet_buffer s) = ?chk @ sp_EOL (k_session s) # rest" unfolding b l [symmetric] by simp
    show "take (3 + length bs) (drop (Suc 0) (k_packet_buffer s)) = ?c @ bs[i := b]" by (simp add: b hl)
    show "7 + length bs \<le> length (k_packet_buffer s)" by (simp add: b hl lc)
  qed
  ultimately have "decode_input_bytes s = bad_packet ?s"
    using assms(5,6) parts by (simp add: decode_body_def Let_def cl)
  then show ?thesis
    using bad_packet_refused [OF single_slot_header [OF assms(11)] not_parsed_header] refused_header by metis
qed

theorem kermit_damage_refused_witness:
  "let r = k_sample_receiver 80 [];
       r' = r\<lparr>k_packet_buffer := kermit_damaged_frame r 7 P_KDATA [72, 105] 1 106 @ replicate 2038 0, k_packet_buffer_n := 10\<rparr>
   in refused r' (decode_input_bytes r')"
proof -
  let ?r = "k_sample_receiver 80 []"
  let ?d = "kermit_damaged_frame ?r 7 P_KDATA [72, 105] 1 106"
  let ?r' = "?r\<lparr>k_packet_buffer := ?d @ replicate 2038 0, k_packet_buffer_n := 10\<rparr>"
  have "kermit_damaged_frame ?r' 7 P_KDATA [72, 105] 1 106 = ?d" by (simp add: kermit_damaged_frame_def frame_def)
  moreover have "length ?d = 10"
    unfolding kermit_damaged_frame_def length_list_update
    by (simp add: frame_def frame_body_def frame_header_def length_block_check check_length_def)
  ultimately have "refused ?r' (decode_input_bytes ?r')"
    by (intro kermit_damage_refused [where seq = 7 and t = P_KDATA and bs = "[72, 105]" and i = 1 and b = 106 and rest = "replicate 2038 0"])
      (simp_all, simp_all add: sample_kermit_defs single_slot_def)
  then show ?thesis by (simp add: Let_def)
qed

text \<open>
  The room the encoder leaves in a short packet is measured before the last characters are
  written, so a packet can be longer than MAXL; the receiver of the same program refuses it.
\<close>

lemma overlong_refused:
  assumes buf: "k_packet_buffer s = sp_MARK (k_session s) # frame_body False seq t bs ct @ rest"
    and n: "5 \<le> k_packet_buffer_n s" and len: "length bs + 2 + check_length ct < 256" "0 < check_length ct"
    and over: "unat (sp_MAXL (k_session s)) < length bs + 2 + check_length ct" and slot: "single_slot s"
  shows "refused s (decode_input_bytes s)"
proof -
  let ?len = "length bs + 2 + check_length ct"
  let ?s = "update_input (\<lambda>p. p\<lparr>kp_parsed_ok := False, kp_seq := 0, kp_type := P_KSINIT, kp_length := ?len,
                                   kp_long_packet := False, kp_data := []\<rparr>) s"
  have parts: "k_packet_buffer s ! 1 = kermit_tochar (of_nat ?len)" "1 < length (k_packet_buffer s)"
    by (simp_all add: buf frame_body_def frame_header_def)
  have m: "length (takeWhile (\<lambda>b. b \<noteq> sp_MARK (k_session s)) (take (k_packet_buffer_n s) (k_packet_buffer s))) = 0"
    using n by (simp add: buf take_Cons')
  have acc: "k_packet_buffer (update_input f u) = k_packet_buffer u" "k_packet_buffer_n (update_input f u) = k_packet_buffer_n u"
    "k_session (update_input f u) = k_session u" for f u by (simp_all add: update_input_def)
  have st: "update_input (\<lambda>p. p\<lparr>kp_length := ?len, kp_long_packet := False\<rparr>)
      (update_input (\<lambda>p. p\<lparr>kp_parsed_ok := False, kp_seq := 0, kp_type := P_KSINIT, kp_length := 0,
                                   kp_long_packet := False, kp_data := []\<rparr>) s) = ?s"
    by (simp add: update_input_def)
  have "decode_header 0 (update_input (\<lambda>p. p\<lparr>kp_parsed_ok := False, kp_seq := 0, kp_type := P_KSINIT, kp_length := 0,
                                   kp_long_packet := False, kp_data := []\<rparr>) s) = bad_packet ?s"
    unfolding decode_header_def Let_def acc add_0 parts unchar_tochar unat_byte [OF len(1)]
    using len(2) over st by simp
  then have "decode_input_bytes s = bad_packet ?s"
    using n parts(2) unfolding decode_input_bytes_def Let_def m by simp
  moreover have "refused ?s (bad_packet ?s)"
    using slot by (intro bad_packet_refused) (simp_all add: single_slot_def update_input_def)
  ultimately show ?thesis by (simp add: refused_def update_input_def)
qed

text \<open>
  A packet that was ended for lack of room, not at the end of the file, has data beyond the
  limit: the limit was reached by what was written and one character is still to come.
\<close>

lemma encode_char_count: "0 < en_count (k_encode_char c ch e)"
  by (simp add: k_encode_char_def Let_def)

lemma encode_loop_full:
  assumes "encode_loop c tm lim tlim e src = (e', rest, False)" "\<not> tm" "0 < lim" "en_out e = [] \<or> 0 < en_count e" "\<not> en_crlf e"
  shows "lim \<le> length (en_out e') \<and> 0 < en_count e'"
  using assms
proof (induction c tm lim tlim e src arbitrary: e' rest rule: encode_loop.induct)
  case (1 c tm lim tlim e src)
  note step = encode_loop.simps [of c tm lim tlim e src]
  show ?case
  proof (cases "lim \<le> length (en_out e)")
    case True
    then have "e' = e" using "1.prems"(1) by (simp add: step)
    then show ?thesis using True "1.prems" by auto
  next
    case False
    then obtain ch src' where src: "src = ch # src'"
      using "1.prems"(1) [unfolded step] "1.prems"(2-) by (cases src) auto
    let ?e = "k_encode_char c ch (e\<lparr>en_used := en_used e + 1\<rparr>)"
    have "encode_loop c tm lim tlim ?e src' = (e', rest, False)"
      using "1.prems"(1) [unfolded step] "1.prems"(2-) False by (simp add: src Let_def)
    then show ?thesis
      using "1.IH"(4) [OF _ _ src refl] False "1.prems" encode_char_count [of c ch "e\<lparr>en_used := en_used e + 1\<rparr>"] by simp
  qed
qed

lemma full_packet_length:
  assumes "codec_ok c" "k_encode_data c False lim tlim src = (bs, used, at_end)" "0 < lim" "used < length src"
  shows "lim < length bs"
proof -
  have "\<not> at_end" using encode_data_decodes(3) [OF assms(1,2)] assms(4) by auto
  then obtain e rest where e: "encode_loop c False lim tlim encoder_start src = (e, rest, False)" "bs = encode_finish c False e"
    using assms(2) by (auto simp: k_encode_data_def split: prod.splits)
  have "lim \<le> length (en_out e)" "0 < en_count e"
    using encode_loop_full [OF e(1) _ assms(3)] by (simp_all add: encoder_start_def)
  moreover have "encode_one_byte c (en_last e) (en_count e) \<noteq> []"
    using \<open>0 < en_count e\<close> by (cases "en_count e") (auto simp: encode_one_byte_def encode_prefixed_nonempty)
  ultimately show ?thesis by (cases "encode_one_byte c (en_last e) (en_count e)") (auto simp: e(2) encode_finish_def)
qed

text \<open>
  Short packets do not carry a file that needs more than one: a file data packet that ends
  for lack of room before the end of the file is longer than MAXL, and a receiver of the same
  program with the same parameters (CRC, no windowing) refuses it.  As the sender makes the
  same packet again for every NAK, the transfer never gets past it (a defect).
\<close>

lemma kermit_full_packet_refused:
  assumes enc: "encode_output_packet s = Inr s1" "kp_parsed_ok (k_output s)" "codec_ok (encode_codec s)"
      "from_file s" "k_out s = []" "\<not> k_text_mode s"
    and short: "\<not> sp_long_packets (k_session s)" "k_check_type s = 3" "6 \<le> unat (sp_MAXL (k_session s))" "unat (sp_MAXL (k_session s)) \<le> 94"
    and more: "k_outstanding_bytes s1 < length (unsent s)"
    and same: "session_matches s r" "single_slot r"
    and buf: "take (k_packet_buffer_n r) (k_packet_buffer r) = k_out s1" "k_packet_buffer_n r = length (k_out s1)"
  shows "refused r (decode_input_bytes r)"
proof -
  let ?m = "unat (sp_MAXL (k_session s))"
  obtain bs at_end where bs: "k_out s1 = frame s False (kp_seq (k_output s)) P_KDATA bs 3 (uninit (k_world s))"
      "k_encode_data (encode_codec s) False (data_limit False (k_session s)) (text_limit (k_session s)) (unsent s) = (bs, k_outstanding_bytes s1, at_end)"
    using encode_file_data_by [OF enc(1,2,4,5)] short(1,2) enc(6) by metis
  have lim: "data_limit False (k_session s) = ?m - 5"
  proof -
    have u: "unat (ucast (sp_MAXL (k_session s)) :: u32) = ?m" using short(4) by (simp add: unsigned_ucast_eq take_bit_nat_eq_self)
    then have "(5 :: u32) \<le> ucast (sp_MAXL (k_session s))" using short(3) by (simp add: word_le_nat_alt)
    then show ?thesis using u by (simp add: data_limit_def unat_sub)
  qed
  have len: "?m - 5 < length bs" "length bs \<le> ?m + 17"
    using full_packet_length [OF enc(3) bs(2)] encode_data_length [OF bs(2)] short(3) more by (auto simp: lim)
  have cl: "check_length 3 = 3" by (simp add: check_length_def)
  have n: "length (k_out s1) = length bs + 8"
    by (simp add: bs(1) frame_def frame_body_def frame_header_def length_block_check cl)
  obtain rest where "k_packet_buffer r = sp_MARK (k_session r) # frame_body False (kp_seq (k_output s)) P_KDATA bs 3 @ rest"
    using buffer_starts [of "k_out s1" "k_packet_buffer r"] buf same(1) by (simp add: bs frame_def session_matches_def)
  then show ?thesis
    by (rule overlong_refused) (use len n cl short(3,4) buf(2) same in \<open>simp_all add: session_matches_def\<close>)
qed

section \<open>Starting again\<close>

lemma kermit_stop_window [simp]:
  "k_out_window (k_stop_file_transfer st s) = k_out_window s" "k_out_n (k_stop_file_transfer st s) = k_out_n s"
  "k_out_begin (k_stop_file_transfer st s) = k_out_begin s" "k_out_i (k_stop_file_transfer st s) = k_out_i s"
  "k_in_window (k_stop_file_transfer st s) = k_in_window s" "k_in_n (k_stop_file_transfer st s) = k_in_n s"
  "k_in_begin (k_stop_file_transfer st s) = k_in_begin s" "k_in_i (k_stop_file_transfer st s) = k_in_i s"
  "k_session (k_stop_file_transfer st s) = k_session s" "k_opt (k_stop_file_transfer st s) = k_opt s"
  by (simp_all add: k_stop_file_transfer_def kermit_stop_def k_update_stats_def Let_def)

text \<open>The loop over the input window goes around until it meets its end.\<close>

lemma free_in_window_ends:
  "(Suc i + d) mod windo = stop \<Longrightarrow> i < windo \<Longrightarrow> windo \<le> length w \<Longrightarrow> \<exists>w'. free_in_window windo stop i w = Some (Inr w')"
proof (induction d arbitrary: i w)
  case 0
  then show ?case by (simp add: free_in_window.simps Let_def)
next
  case (Suc d)
  let ?w = "w[i := (w ! i)\<lparr>ks_data := None\<rparr>]" and ?i = "Suc i mod windo"
  have i: "\<not> length w \<le> i" "0 < windo" using Suc.prems by auto
  show ?case
  proof (cases "?i = stop")
    case True
    then show ?thesis using i by (subst free_in_window.simps) (simp add: Let_def)
  next
    case False
    have "(Suc ?i + d) mod windo = (?i + Suc d) mod windo" by simp
    also have "\<dots> = (Suc i + Suc d) mod windo" by (rule mod_add_left_eq)
    finally have "(Suc ?i + d) mod windo = stop" using Suc.prems(1) by simp
    then obtain w' where "free_in_window windo stop ?i ?w = Some (Inr w')"
      using Suc.IH [of ?i ?w] i(2) Suc.prems(3) by auto
    then show ?thesis using i False by (subst free_in_window.simps) (simp add: Let_def)
  qed
qed

text \<open>The loop over the output window stays where it is.\<close>

lemma free_out_window_stays:
  assumes "free_out_window windo stop i w = Some r"
  shows "\<not> (i < windo \<and> windo \<le> length w \<and> i \<noteq> stop)"
proof (rule free_out_window.raw_induct [where P = "\<lambda>windo stop i w _. \<not> (i < windo \<and> windo \<le> length w \<and> i \<noteq> stop)", OF _ assms])
  fix f windo stop i w r
  assume IH: "\<And>windo stop i w r. f windo stop i w = Some r \<Longrightarrow> \<not> (i < windo \<and> windo \<le> length w \<and> i \<noteq> stop)"
    and body: "(if windo = 0 then Some (Inl Undefined)
      else let i1 = i mod windo
           in if length w \<le> i1 then Some (Inl Buffer_overflow)
              else let w1 = w[i1 := (w ! i1)\<lparr>ks_data := None\<rparr>]
                   in if i1 = stop then Some (Inr w1) else f windo stop i1 w1) = Some r"
  show "\<not> (i < windo \<and> windo \<le> length w \<and> i \<noteq> stop)"
  proof
    assume a: "i < windo \<and> windo \<le> length w \<and> i \<noteq> stop"
    then have "f windo stop i (w[i := (w ! i)\<lparr>ks_data := None\<rparr>]) = Some r" using body by (simp add: Let_def)
    from IH [OF this] show False using a by simp
  qed
qed

lemma free_out_window_full: "i < windo \<Longrightarrow> windo \<le> length w \<Longrightarrow> \<exists>w'. free_out_window windo i i w = Some (Inr w')"
  by (subst free_out_window.simps) (simp add: Let_def)

text \<open>
  A window as a ring of slots: \<open>n\<close> slots from \<open>b\<close> on are in use, and the next one is \<open>i\<close>.
\<close>

definition ring_window :: "packet_serial list \<Rightarrow> nat \<Rightarrow> nat \<Rightarrow> nat \<Rightarrow> nat \<Rightarrow> bool" where
  "ring_window w windo b i n \<longleftrightarrow> length w = windo \<and> b < windo \<and> n \<le> windo \<and> i = (b + n) mod windo"

lemma ring_window_closed: "ring_window w windo b i n \<Longrightarrow> i = b \<longleftrightarrow> n = 0 \<or> n = windo"
proof -
  assume r: "ring_window w windo b i n"
  then have "b + n < windo \<or> (b + n) mod windo = b + n - windo" by (auto simp: ring_window_def mod_if)
  then show "i = b \<longleftrightarrow> n = 0 \<or> n = windo" using r by (auto simp: ring_window_def)
qed

lemma free_windows_ring:
  assumes out: "ring_window (k_out_window s) (sp_WINDO_out (k_session s)) (k_out_begin s) (k_out_i s) (k_out_n s)"
    and inw: "ring_window (k_in_window s) (sp_WINDO_in (k_session s)) (k_in_begin s) (k_in_i s) (k_in_n s)"
  shows "free_windows s = (if 0 < k_out_n s \<and> k_out_n s < sp_WINDO_out (k_session s) then Inl Diverges else Inr ())"
proof -
  let ?in = "free_in_window (sp_WINDO_in (k_session s)) (k_in_i s) (k_in_begin s) (k_in_window s)"
  let ?out = "free_out_window (sp_WINDO_out (k_session s)) (k_out_i s) (k_out_begin s) (k_out_window s)"
  let ?W = "sp_WINDO_in (k_session s)"
  have "k_in_i s < ?W" using inw by (auto simp: ring_window_def)
  then have "(Suc (k_in_begin s) + (?W + k_in_i s - Suc (k_in_begin s))) mod ?W = k_in_i s" using inw by (auto simp: ring_window_def)
  then have ends: "\<exists>w'. ?in = Some (Inr w')"
    by (rule free_in_window_ends) (use inw in \<open>simp_all add: ring_window_def\<close>)
  note closed = ring_window_closed [OF out]
  show ?thesis
  proof (cases "0 < k_out_n s \<and> k_out_n s < sp_WINDO_out (k_session s)")
    case True
    then have "?out \<noteq> Some x" for x
      using free_out_window_stays [of "sp_WINDO_out (k_session s)" "k_out_i s" "k_out_begin s" "k_out_window s" x] closed out
      by (auto simp: ring_window_def)
    then have "?out = None" by (cases ?out) auto
    moreover have "k_out_window s \<noteq> []" using out by (auto simp: ring_window_def)
    ultimately show ?thesis using True ends by (auto simp: free_windows_def ended_def)
  next
    case False
    then have "k_out_n s = 0 \<or> (\<exists>w'. ?out = Some (Inr w'))"
      using closed out free_out_window_full [of "k_out_begin s" "sp_WINDO_out (k_session s)" "k_out_window s"]
      by (auto simp: ring_window_def)
    then show ?thesis using False ends by (auto simp: free_windows_def ended_def)
  qed
qed

lemma kermit_start_common_windows: "\<exists>t. kermit_start_common s = andthen (free_windows s) (\<lambda>_. Inr t)"
  unfolding kermit_start_common_def Let_def by (rule exI, rule refl)

text \<open>
  C31.  The start of a download after an upload with windowing that was stopped: it never
  comes back exactly when some, but not all slots of the output window held packets that were
  waiting for their acknowledgement, because the loop that frees the old window does not
  advance (a defect); with an empty or a full window the download starts.
\<close>

theorem kermit_restart_hangs:
  assumes "ring_window (k_out_window s) (sp_WINDO_out (k_session s)) (k_out_begin s) (k_out_i s) (k_out_n s)"
    and "ring_window (k_in_window s) (sp_WINDO_in (k_session s)) (k_in_begin s) (k_in_i s) (k_in_n s)"
  shows "if 0 < k_out_n s \<and> k_out_n s < sp_WINDO_out (k_session s)
     then kermit_start None path False (k_stop_file_transfer Q_TRANSFER_STATE_ABORT s) = Inl Diverges
     else \<exists>t. kermit_start None path False (k_stop_file_transfer Q_TRANSFER_STATE_ABORT s) = Inr (True, t)"
proof -
  let ?u = "k_update_stats (\<lambda>t. set_transfer_stats_pathname path (set_transfer_stats_filename [] (t\<lparr>t_bytes_total := 0\<rparr>)))
     ((k_stop_file_transfer Q_TRANSFER_STATE_ABORT s)\<lparr>k_state := K_ABORT, k_upload_file_list := [],
        k_upload_file_list_i := 0, k_sending := False, k_download_path := Some path\<rparr>)"
  have "kermit_start None path False (k_stop_file_transfer Q_TRANSFER_STATE_ABORT s) =
      andthen (kermit_start_common ?u) (\<lambda>s2. Inr (True, s2))"
    by (simp add: kermit_start_def check_def)
  moreover obtain t where "kermit_start_common ?u = andthen (free_windows ?u) (\<lambda>_. Inr t)"
    using kermit_start_common_windows by blast
  moreover have "free_windows ?u = free_windows s" by (simp add: free_windows_def k_update_stats_def)
  ultimately show ?thesis using free_windows_ring [OF assms] by simp
qed

theorem kermit_restart_hangs_witness:
  "kermit_start None [47] False (k_stop_file_transfer Q_TRANSFER_STATE_ABORT
     ((kermit_sample 80 [])\<lparr>k_session := (sample_parameters 80)\<lparr>sp_WINDO_out := 2\<rparr>, k_sending := True,
        k_out_window := replicate 2 empty_slot, k_out_n := 1, k_out_i := 1\<rparr>)) = Inl Diverges"
  using kermit_restart_hangs [of "(kermit_sample 80 [])\<lparr>k_session := (sample_parameters 80)\<lparr>sp_WINDO_out := 2\<rparr>, k_sending := True,
        k_out_window := replicate 2 empty_slot, k_out_n := 1, k_out_i := 1\<rparr>" "[47]"]
  by (simp add: sample_kermit_defs ring_window_def)

section \<open>Control-C\<close>

text \<open>A receiver that has not got anything yet.\<close>

definition idle_receiver :: "kermit \<Rightarrow> bool" where
  "idle_receiver s \<longleftrightarrow> \<not> k_sending s \<and> k_packet_buffer_n s = 0 \<and> \<not> kp_parsed_ok (k_input s) \<and> k_out s = [] \<and>
     kp_data_max (k_output s) = 1024 \<and> length (k_out_window s) = 1 \<and> k_out_i s = 0 \<and> k_check_type s = 1 \<and>
     (\<exists>x l st. k_session s = default_parameters x l st)"

lemma quiet_round:
  assumes "look_for_ctrl_c [] s = Inr u" "k_packet_buffer_n u = 0" "\<not> kp_parsed_ok (k_input u)" "\<not> k_sending u" "k_out u = []"
    and "run_and_send m u = Inr t"
  shows "kermit_round m toss [] s = Inr (True, False, [], t)"
proof -
  have d: "k_discard 0 u = Inr u" using assms(2) by (simp add: k_discard_def)
  have f: "k_fill_buffer (if toss then [] else []) u = ([], u)" by (simp add: k_fill_buffer_def)
  have i: "decode_input_bytes u = Inr (False, 0, u)" using assms(2) by (simp add: decode_input_bytes_def)
  have "check_for_repeat u = Inr u" "save_input_packet u = Inr u" "move_windows u = Inr u"
    using assms(3,4) by (simp_all add: check_for_repeat_def save_input_packet_def move_windows_def)
  moreover have "act_on_packet m [] False u = Inr (True, False, [], t)"
    using assms(4,6) by (simp add: act_on_packet_def window_full_def)
  ultimately show ?thesis
    unfolding kermit_round_def assms(1) andthen.simps f prod.case i after_decoding_def d by (simp add: assms(5))
qed

lemma encode_error_packet:
  assumes "kp_parsed_ok (k_output s)" "kp_type (k_output s) = P_KERROR" "k_check_type s = 1" "k_session s = default_parameters x l st"
  shows "\<exists>fr n p. encode_output_packet s = Inr (s\<lparr>k_output := p, k_outstanding_bytes := n, k_out := k_out s @ fr\<rparr>) \<and>
    length fr \<le> 110 \<and> fr \<noteq> [] \<and> kp_type p = P_KERROR"
proof -
  let ?s = "s\<lparr>k_output := (k_output s)\<lparr>kp_long_packet := False\<rparr>\<rparr>"
  obtain bs used e where enc: "k_encode_data (encode_codec s) (k_text_mode s) (data_limit False (k_session s)) (text_limit (k_session s)) (kp_data (k_output s)) = (bs, used, e)"
    by (cases "k_encode_data (encode_codec s) (k_text_mode s) (data_limit False (k_session s)) (text_limit (k_session s)) (kp_data (k_output s))")
  have lb: "length bs \<le> 97" using encode_data_length [OF enc] assms(4) by (simp add: data_limit_def default_parameters_def)
  have f: "encode_data_field ?s = Inr (bs, ?s\<lparr>k_outstanding_bytes := k_outstanding_bytes s + used\<rparr>)"
    using enc assms(2) by (simp add: encode_data_field_def from_file_def encode_codec_def Let_def)
  define fr where "fr = sp_MARK (k_session s) # (frame_header False (kp_seq (k_output s)) (type_char P_KERROR) (length bs) 1 @ bs) @
     block_check (k_crc_16_tab s) (k_seven_bit_only s) 1 (uninit (k_world s))
       (frame_header False (kp_seq (k_output s)) (type_char P_KERROR) (length bs) 1 @ bs) @ [sp_EOL (k_session s)]"
  have "length fr \<le> 110" "fr \<noteq> []"
    using lb by (simp_all add: fr_def frame_header_def length_block_check check_length_def)
  moreover have "encode_output_packet s = Inr (s\<lparr>k_output := (k_output s)\<lparr>kp_long_packet := False, kp_parsed_ok := False\<rparr>,
      k_outstanding_bytes := k_outstanding_bytes s + used, k_out := k_out s @ fr\<rparr>)"
    using assms f by (simp add: encode_output_packet_def output_check_type_def Let_def count_delivered_def check_length_def fr_def)
  ultimately show ?thesis using assms(2)
    by (intro exI [of _ fr] exI [of _ "k_outstanding_bytes s + used"]
        exI [of _ "(k_output s)\<lparr>kp_long_packet := False, kp_parsed_ok := False\<rparr>"]) simp
qed

lemma run_aborted:
  assumes "k_state s = K_ABORT" "\<not> k_sending s" "kp_parsed_ok (k_output s)" "kp_type (k_output s) = P_KERROR" "k_check_type s = 1"
    and "k_session s = default_parameters x l st" "length (k_out_window s) = 1" "k_out_i s = 0" "k_out s = []" "2048 < m"
  shows "\<exists>t. run_and_send m s = Inr t \<and> k_state t = K_ABORT \<and> k_stats t = k_stats s"
proof -
  have rcv: "kermit_receive s = Inr s"
    by (subst kermit_receive.simps) (simp add: k_receive_step_def assms(1))
  define pad where "pad = replicate (unat (sp_NPAD (k_remote s))) (sp_PADC (k_remote s))"
  have pad: "pad_output s = s\<lparr>k_out := pad\<rparr>" "length pad \<le> 255"
    using assms unsigned_less [of "sp_NPAD (k_remote s)", where 'a = nat] by (simp_all add: pad_output_def pad_def)
  obtain fr n p where enc: "encode_output_packet (s\<lparr>k_out := pad\<rparr>) = Inr (s\<lparr>k_output := p, k_outstanding_bytes := n, k_out := pad @ fr\<rparr>)"
      "length fr \<le> 110" "fr \<noteq> []" "kp_type p = P_KERROR"
    using encode_error_packet [of "s\<lparr>k_out := pad\<rparr>" x l st] assms by auto
  show ?thesis
    using assms pad(2) enc(2-4)
    by (simp add: run_and_send_def rcv pad(1) enc(1) Let_def keep_sent_packet_def slot_def)
qed

lemma ctrl_c_round:
  assumes "idle_receiver s" "3 \<le> k_ctrl_c_count s" "2048 < m"
  shows "\<exists>t. kermit_round m toss [] s = Inr (True, False, [], t) \<and> k_state t = K_ABORT \<and>
    t_state (k_stats t) = Q_TRANSFER_STATE_ABORT"
proof -
  obtain x l st where ses: "k_session s = default_parameters x l st" using assms(1) by (auto simp: idle_receiver_def)
  let ?u = "k_last_message ''ABORTED BY REMOTE SIDE'' (k_stop_file_transfer Q_TRANSFER_STATE_ABORT (s\<lparr>k_state := K_ABORT\<rparr>))"
  let ?text = "ascii ''Aborted by remote side''"
  let ?s1 = "?u\<lparr>k_output := (k_output s)\<lparr>kp_parsed_ok := True, kp_type := P_KERROR,
    kp_seq := k_sequence_number s mod 64, kp_data := ?text\<rparr>\<rparr>"
  have sel: "k_out ?u = k_out s" "k_packet_buffer_n ?u = k_packet_buffer_n s" "k_packet_buffer ?u = k_packet_buffer s"
    "k_output ?u = k_output s" "k_sequence_number ?u = k_sequence_number s" "k_input ?u = k_input s" "k_sending ?u = k_sending s"
    "k_session ?u = k_session s" "k_out_window ?u = k_out_window s" "k_out_i ?u = k_out_i s" "k_check_type ?u = k_check_type s"
    "k_state ?u = K_ABORT" "t_state (k_stats ?u) = Q_TRANSFER_STATE_ABORT" "k_remote ?u = k_remote s"
    by (simp_all add: k_last_message_def k_stop_file_transfer_def kermit_stop_def k_update_stats_def Let_def
        set_transfer_stats_last_message_def)
  have "length ?text = 22" by (simp add: ascii_def)
  then have look: "look_for_ctrl_c [] s = Inr ?s1"
    using assms(1,2) by (simp add: look_for_ctrl_c_def count_ctrl_c_def error_packet_def set_output_def Let_def sel idle_receiver_def)
  have "\<exists>t. run_and_send m ?s1 = Inr t \<and> k_state t = K_ABORT \<and> k_stats t = k_stats ?s1"
    by (rule run_aborted) (use assms(1,3) ses in \<open>simp_all add: sel idle_receiver_def\<close>)
  then obtain t where run: "run_and_send m ?s1 = Inr t" "k_state t = K_ABORT" "t_state (k_stats t) = Q_TRANSFER_STATE_ABORT"
    by (auto simp: sel)
  then show ?thesis
    using assms(1) quiet_round [OF look _ _ _ _ run(1)] by (simp add: sel idle_receiver_def)
qed

text \<open>The first call after the start of a download.\<close>

text \<open>
  The count of control-C characters outlives the transfer they have ended: the next
  download, when nothing has come in yet, is ended at once by the first call (a defect).
\<close>

lemma kermit_ctrl_c_sticks:
  assumes s: "3 \<le> k_ctrl_c_count s" "k_out s = []" "2048 < m"
    and start: "kermit_start None path False s = Inr (True, t)"
  shows "\<exists>u. kermit [] m t = Some (Inr u) \<and> k_state u = K_ABORT \<and> t_state (k_stats u) = Q_TRANSFER_STATE_ABORT"
proof -
  have t: "k_sending t = False" "k_state t = K_INIT" "k_sequence_number t = 0" "k_sent_nak t = False" "k_packet_buffer_n t = 0"
    "k_input t = empty_packet 1024" "k_output t = empty_packet 1024" "k_out_window t = [empty_slot]" "k_in_window t = [empty_slot]"
    "k_out_i t = 0" "k_in_n t = 0" "k_in_begin t = 0" "k_check_type t = 1" "k_out t = []" "k_ctrl_c_count t = k_ctrl_c_count s"
    "k_session t = default_parameters (ko_seven_bit_line (k_opt s)) (ko_long_packets (k_opt s)) (ko_streaming (k_opt s))" "k_timeout_begin t = now (k_world t)"
    using start s(2)
    by (auto simp: kermit_start_def kermit_start_common_def andthen_eq_Inr Let_def k_update_stats_def k_last_message_def
        k_reset_timer_def set_default_session_parameters_eq KERMIT_BLOCK_SIZE_def)
  obtain x l st where ses: "k_session t = default_parameters x l st" using t(16) by blast
  let ?u = "(k_stats_increment_errors (''NAK - SEQ %u'', Some 0) (t\<lparr>k_output := (k_output t)\<lparr>kp_parsed_ok := True,
    kp_type := P_KNAK, kp_seq := 0, kp_data := []\<rparr>\<rparr>))\<lparr>k_sent_nak := True\<rparr>"
  have sel: "k_session ?u = k_session t" "k_state ?u = K_INIT" "k_world ?u = k_world t" "k_timeout_begin ?u = k_timeout_begin t"
    "k_out ?u = []" "k_out_n ?u = k_out_n t" "k_sending ?u = False" "k_packet_buffer_n ?u = 0" "k_ctrl_c_count ?u = k_ctrl_c_count s"
    "k_remote ?u = k_remote t"
    using t by (simp_all add: k_stats_increment_errors_def k_update_stats_def)
  have "first_call t = Inr (True, ?u)"
    by (simp add: first_call_def t nak_packet_def nak_seq_def set_output_def nak_window_def window_next_packet_seq_def
        slot_def ses default_parameters_def empty_packet_def empty_slot_def Let_def k_stats_increment_errors_def k_update_stats_def)
  moreover have "k_watch_timer [] ?u = Inr ?u"
    unfolding k_watch_timer_def k_check_timeout_def sel by (simp add: ses default_parameters_def t)
  ultimately have before: "kermit_before_loop [] m t = Inr (True, ?u)"
    by (simp add: kermit_before_loop_def sel)
  have idle: "idle_receiver ?u"
    using t ses by (auto simp: idle_receiver_def empty_packet_def k_stats_increment_errors_def k_update_stats_def)
  obtain v where v: "kermit_round m True [] ?u = Inr (True, False, [], v)" "k_state v = K_ABORT" "t_state (k_stats v) = Q_TRANSFER_STATE_ABORT"
    using ctrl_c_round [OF idle _ s(3)] s(1) sel by auto
  have need: "free_space_needed t \<le> m"
    using s(3) unsigned_less [of "sp_NPAD (k_remote t)", where 'a = nat]
    by (auto simp: free_space_needed_def ses default_parameters_def long_length_def)
  have "kermit_loop m (free_space_needed t) True True [] ?u = Some (Inr v)"
    using need by (subst kermit_loop.simps) (simp add: sel v(1))
  moreover have "\<not> m - length (k_out ?u) < free_space_needed t" "\<not> window_full ?u"
    using need by (simp_all add: sel window_full_def)
  ultimately have "kermit [] m t = Some (Inr (kermit_after_loop v))"
    using s(3) by (simp add: kermit_def KERMIT_BLOCK_SIZE_def t before)
  then show ?thesis using v by (simp add: kermit_after_loop_def drop_input_def k_reset_timer_def)
qed

end
