(* ===== verification/Screen.thy ===== *)
theory Screen
  imports Codepage
begin

text \<open>
  The screen of the terminal: scrollback.c.  The scrollback buffer is a doubly linked list of
  lines; here it is a list, and the pointers \<open>q_scrollback_current\<close> (the line of the cursor) and
  \<open>q_scrollback_position\<close> (the line at the bottom of the screen) are indices into it.  A pointer
  that a function keeps in a local variable while lines may be freed is \<open>sc_pin\<close>; freeing a line
  that is still pointed at is the fault \<open>Undefined\<close>.  The fields after the lines are those of
  \<open>q_status\<close> the functions use.

  The model is that of the console: the program is not in the scrollback view, no script runs and
  neither capture nor quicklearn is on, so that nothing else hears of the characters.  The flag
  \<open>dirty\<close> and the colors of a search, which only the drawing reads, are left out, and so is
  \<open>insert_scrollback_line\<close>: \<open>rectangle_scroll_down\<close> calls it when it runs out of lines
  above the screen, which its first test excludes (the fault \<open>Undefined\<close> there is never met).
\<close>

section \<open>Data\<close>

datatype q_emulation =
    Q_EMUL_TTY | Q_EMUL_ANSI | Q_EMUL_VT52 | Q_EMUL_VT100 | Q_EMUL_VT102 | Q_EMUL_VT220
  | Q_EMUL_AVATAR | Q_EMUL_PETSCII | Q_EMUL_ATASCII | Q_EMUL_DEBUG | Q_EMUL_LINUX
  | Q_EMUL_LINUX_UTF8 | Q_EMUL_XTERM | Q_EMUL_XTERM_UTF8

text \<open>A curses attribute: the number of a color pair and a set of flags.\<close>

record cattr =
  a_pair :: byte
  a_bold :: bool
  a_dim :: bool
  a_underline :: bool
  a_blink :: bool
  a_reverse :: bool
  a_protect :: bool

definition A_NORMAL :: cattr where
  "A_NORMAL = \<lparr>a_pair = 0, a_bold = False, a_dim = False, a_underline = False, a_blink = False,
               a_reverse = False, a_protect = False\<rparr>"

definition color_to_attr :: "byte \<Rightarrow> cattr" where
  "color_to_attr color = A_NORMAL\<lparr>a_pair := color\<rparr>"

definition Q_MAX_LINE_LENGTH :: nat where "Q_MAX_LINE_LENGTH = 256"

record scrolline =
  sl_length :: nat
  sl_chars :: "u32 list"
  sl_colors :: "cattr list"
  sl_double_width :: bool
  sl_double_height :: nat
  sl_reverse_color :: bool

record screen =
  sc_lines :: "scrolline list"
  sc_current :: nat
  sc_position :: nat
  sc_pin :: "nat option"
  sc_wrap_flag :: bool
  sc_count :: nat
  sc_max :: nat
  sc_enabled :: bool
  sc_buffer_freed :: bool
  sc_HEIGHT :: nat
  sc_WIDTH :: nat
  sc_STATUS_HEIGHT :: nat
  sc_status_visible :: bool
  sc_cursor_x :: nat
  sc_cursor_y :: nat
  sc_region_top :: nat
  sc_region_bottom :: nat
  sc_insert_mode :: bool
  sc_line_wrap :: bool
  sc_origin_mode :: bool
  sc_reverse_video :: bool
  sc_line_feed_on_cr :: bool
  sc_assume_80_columns :: bool
  sc_display_null :: bool
  sc_wide_font :: bool
  sc_emulation :: q_emulation
  sc_right_margin :: int
  sc_color :: cattr
  sc_text_fg :: byte
  sc_text_bg :: byte
  sc_text_bold :: bool

text \<open>
  \<open>sc_wide_font\<close> is the flag of ATASCII or PETSCII, whichever runs; \<open>sc_text_fg\<close> and the two
  fields after it are the entry \<open>Q_COLOR_CONSOLE_TEXT\<close> of the colors, and \<open>console_text\<close> is
  \<open>scrollback_full_attr\<close> of it.
\<close>

definition console_text :: "screen \<Rightarrow> cattr" where
  "console_text s = (color_to_attr (push_bit 3 (sc_text_fg s) OR sc_text_bg s))\<lparr>a_bold := sc_text_bold s\<rparr>"

text \<open>The index of the last row of the screen.\<close>

definition last_row :: "screen \<Rightarrow> nat" where
  "last_row s = sc_HEIGHT s - sc_STATUS_HEIGHT s - 1"

section \<open>Lines\<close>

definition find_top_scrollback_line :: "screen \<Rightarrow> nat run" where
  "find_top_scrollback_line s =
     (let row = sc_HEIGHT s - 1 - (if sc_status_visible s then sc_STATUS_HEIGHT s else 0)
      in check (0 < row) Assert_failed (Inr (sc_position s - row)))"

definition blank_line :: "screen \<Rightarrow> scrolline" where
  "blank_line s =
     \<lparr>sl_length = (if sc_reverse_video s then sc_WIDTH s else 0),
      sl_chars = replicate Q_MAX_LINE_LENGTH 32,
      sl_colors = replicate Q_MAX_LINE_LENGTH
        (if sc_emulation s = Q_EMUL_DEBUG then (console_text s)\<lparr>a_reverse := True\<rparr>
         else if sc_reverse_video s then console_text s else A_NORMAL),
      sl_double_width = False, sl_double_height = 0, sl_reverse_color = sc_reverse_video s\<rparr>"

text \<open>The index a pointer has after line \<open>k\<close> was freed.\<close>

definition shift_index :: "nat \<Rightarrow> nat \<Rightarrow> nat" where
  "shift_index k i = (if k < i then i - 1 else i)"

text \<open>
  A new line at the end.  When the buffer is full its first line is freed, or with the scrollback
  disabled the top line of the screen; in the second case \<open>q_scrollback_buffer\<close> keeps pointing at
  the first line even when it was that one that was freed.
\<close>

definition free_line :: "nat \<Rightarrow> screen \<Rightarrow> screen run" where
  "free_line k s =
     check (sc_current s \<noteq> k \<and> sc_pin s \<noteq> Some k) Undefined
       (Inr (s\<lparr>sc_lines := take k (sc_lines s) @ drop (Suc k) (sc_lines s),
               sc_current := shift_index k (sc_current s), sc_position := shift_index k (sc_position s),
               sc_pin := map_option (shift_index k) (sc_pin s)\<rparr>))"

definition buffer_full :: "screen \<Rightarrow> bool" where
  "buffer_full s \<longleftrightarrow> (0 < sc_max s \<and> sc_max s \<le> sc_count s) \<or> (\<not> sc_enabled s \<and> last_row s < sc_count s)"

definition new_scrollback_line :: "screen \<Rightarrow> screen run" where
  "new_scrollback_line s =
     andthen (find_top_scrollback_line s) (\<lambda>top.
       let s1 = s\<lparr>sc_lines := sc_lines s @ [blank_line s], sc_position := length (sc_lines s)\<rparr>
       in if buffer_full s
          then (if sc_enabled s then free_line 0 s1
                else andthen (free_line top s1) (\<lambda>s2. Inr (s2\<lparr>sc_buffer_freed := sc_buffer_freed s \<or> top = 0\<rparr>)))
          else Inr (s1\<lparr>sc_count := sc_count s + 1\<rparr>))"

text \<open>
  \<open>if (line->next == NULL) new_scrollback_line();\<close> for the current line, and for a line at index
  \<open>i\<close> with the step to the next one.
\<close>

definition ensure_next :: "screen \<Rightarrow> screen run" where
  "ensure_next s = (if Suc (sc_current s) < length (sc_lines s) then Inr s else new_scrollback_line s)"

definition next_line :: "nat \<Rightarrow> screen \<Rightarrow> (nat \<times> screen) run" where
  "next_line i s =
     (if Suc i < length (sc_lines s) then Inr (Suc i, s)
      else andthen (new_scrollback_line s) (\<lambda>s1. Inr (length (sc_lines s1) - 1, s1)))"

fun walk_down :: "nat \<Rightarrow> nat \<Rightarrow> screen \<Rightarrow> (nat \<times> screen) run" where
  "walk_down 0 i s = Inr (i, s)"
| "walk_down (Suc n) i s = andthen (next_line i s) (\<lambda>(j, s1). walk_down n j s1)"

definition current_line :: "screen \<Rightarrow> scrolline" where
  "current_line s = sc_lines s ! sc_current s"

definition set_line :: "nat \<Rightarrow> scrolline \<Rightarrow> screen \<Rightarrow> screen" where
  "set_line i ln s = s\<lparr>sc_lines := (sc_lines s)[i := ln]\<rparr>"

definition set_current :: "scrolline \<Rightarrow> screen \<Rightarrow> screen" where
  "set_current ln s = set_line (sc_current s) ln s"

definition put_cell :: "nat \<Rightarrow> u32 \<Rightarrow> cattr \<Rightarrow> scrolline \<Rightarrow> scrolline" where
  "put_cell i c a ln = ln\<lparr>sl_chars := (sl_chars ln)[i := c], sl_colors := (sl_colors ln)[i := a]\<rparr>"

text \<open>Spaces from index \<open>m\<close> up to, but not including, \<open>n\<close>.\<close>

definition put_spaces :: "nat \<Rightarrow> nat \<Rightarrow> cattr \<Rightarrow> scrolline \<Rightarrow> scrolline" where
  "put_spaces m n a ln = fold (\<lambda>i. put_cell i 32 a) [m..<n] ln"

text \<open>A line shorter than \<open>n\<close> is filled up to \<open>n\<close>.\<close>

definition pad_line :: "nat \<Rightarrow> cattr \<Rightarrow> scrolline \<Rightarrow> scrolline run" where
  "pad_line n a ln =
     (if sl_length ln < n
      then check (n \<le> Q_MAX_LINE_LENGTH) Buffer_overflow (Inr ((put_spaces (sl_length ln) n a ln)\<lparr>sl_length := n\<rparr>))
      else Inr ln)"

section \<open>Printing\<close>

definition vt100_like :: "q_emulation \<Rightarrow> bool" where
  "vt100_like e \<longleftrightarrow> e \<in> {Q_EMUL_VT100, Q_EMUL_VT102, Q_EMUL_VT220, Q_EMUL_LINUX, Q_EMUL_LINUX_UTF8,
                        Q_EMUL_XTERM, Q_EMUL_XTERM_UTF8}"

definition wrap_current_line :: "screen \<Rightarrow> screen run" where
  "wrap_current_line s =
     andthen (ensure_next s) (\<lambda>s1.
       Inr (s1\<lparr>sc_current := Suc (sc_current s1), sc_cursor_x := 0,
               sc_cursor_y := (if sc_cursor_y s1 < last_row s1 then sc_cursor_y s1 + 1 else sc_cursor_y s1)\<rparr>))"

text \<open>A line of double width has half the columns.\<close>

definition halve_margin :: "screen \<Rightarrow> nat \<Rightarrow> nat" where
  "halve_margin s m = (if sl_double_width (current_line s) then (m + 1) div 2 - 1 else m)"

definition print_margin :: "screen \<Rightarrow> nat" where
  "print_margin s = halve_margin s
     (let e = sc_emulation s
      in if e = Q_EMUL_ANSI \<or> e = Q_EMUL_AVATAR \<or> e = Q_EMUL_TTY
         then (if sc_assume_80_columns s then 79 else sc_WIDTH s - 1)
         else if e = Q_EMUL_ATASCII \<or> e = Q_EMUL_PETSCII then (if sc_wide_font s then 39 else 79)
         else if 0 < sc_right_margin s then nat (sc_right_margin s) else sc_WIDTH s - 1)"

text \<open>The character is stored at the cursor, or behind the end of the line.\<close>

definition store_char :: "u32 \<Rightarrow> screen \<Rightarrow> screen run" where
  "store_char c s =
     (let ln = current_line s; x = sc_cursor_x s
      in if x < sl_length ln then
           check (x < Q_MAX_LINE_LENGTH) Buffer_overflow
             (Inr (set_current
               (if sc_insert_mode s
                then ln\<lparr>sl_chars := take x (sl_chars ln) @ c # take (Q_MAX_LINE_LENGTH - x - 1) (drop x (sl_chars ln)),
                        sl_colors := take x (sl_colors ln) @ sc_color s # take (Q_MAX_LINE_LENGTH - x - 1) (drop x (sl_colors ln)),
                        sl_length := (if sl_length ln < Q_MAX_LINE_LENGTH then sl_length ln + 1 else sl_length ln)\<rparr>
                else put_cell x c (sc_color s) ln) s))
         else check (sl_length ln < Q_MAX_LINE_LENGTH) Buffer_overflow
                (Inr (set_current ((put_cell (sl_length ln) c (sc_color s) ln)\<lparr>sl_length := sl_length ln + 1\<rparr>) s)))"

text \<open>
  Wrapping before the character is stored: at the right margin of the emulations that follow the
  VT100 the first character stays, the next one wraps.  The flag tells of the first.
\<close>

definition wrap_before :: "nat \<Rightarrow> screen \<Rightarrow> screen run" where
  "wrap_before margin s =
     (if sc_cursor_x s = margin then
        (if vt100_like (sc_emulation s) \<and> sc_line_wrap s then
           (if \<not> sc_wrap_flag s then Inr (s\<lparr>sc_wrap_flag := True\<rparr>)
            else wrap_current_line (s\<lparr>sc_wrap_flag := False\<rparr>))
         else Inr s)
      else if sc_cursor_x s \<le> margin then Inr (s\<lparr>sc_wrap_flag := False\<rparr>)
      else Inr s)"

definition advance_cursor :: "nat \<Rightarrow> screen \<Rightarrow> screen" where
  "advance_cursor margin s =
     (if sc_wrap_flag s then s
      else s\<lparr>sc_cursor_x := (if margin < sc_cursor_x s + 1 then sc_cursor_x s else sc_cursor_x s + 1)\<rparr>)"

definition print_glyph :: "u32 \<Rightarrow> screen \<Rightarrow> screen run" where
  "print_glyph c s =
     (let margin = print_margin s;
          wrap_after = (sc_cursor_x s = margin \<and> \<not> vt100_like (sc_emulation s) \<and> sc_line_wrap s)
      in andthen (wrap_before margin s) (\<lambda>s1.
         andthen (store_char c s1) (\<lambda>s2.
         let s3 = advance_cursor margin s2
         in if wrap_after then wrap_current_line s3 else Inr s3)))"

definition print_character :: "u32 \<Rightarrow> screen \<Rightarrow> screen run" where
  "print_character c s =
     andthen (pad_line (sc_cursor_x s) (console_text s) (current_line s)) (\<lambda>ln.
       let s1 = set_current ln s
       in if c = 7 \<or> (c = 0 \<and> \<not> sc_display_null s) then Inr s1
          else print_glyph (if c = 0 then 32 else c) s1)"

section \<open>Moving the cursor\<close>

text \<open>The last argument is \<open>honor_scroll_region\<close>.\<close>

fun up_loop :: "nat \<Rightarrow> bool \<Rightarrow> screen \<Rightarrow> screen run" where
  "up_loop 0 honor s = Inr s"
| "up_loop (Suc n) honor s =
     (if honor \<and> sc_cursor_y s < sc_region_top s then Inr s
      else if (if honor then sc_region_top s else 0) < sc_cursor_y s
      then check (0 < sc_current s) Undefined
             (up_loop n honor (s\<lparr>sc_cursor_y := sc_cursor_y s - 1, sc_current := sc_current s - 1\<rparr>))
      else up_loop n honor s)"

definition clear_wrap_flag :: "nat \<Rightarrow> screen \<Rightarrow> screen" where
  "clear_wrap_flag n s = (if 0 < n then s\<lparr>sc_wrap_flag := False\<rparr> else s)"

definition cursor_up :: "nat \<Rightarrow> bool \<Rightarrow> screen \<Rightarrow> screen run" where
  "cursor_up n honor s = up_loop n honor (clear_wrap_flag n s)"

text \<open>A line made by moving down is as long as the column of the cursor; only its colors are set.\<close>

definition color_up_to :: "nat \<Rightarrow> cattr \<Rightarrow> scrolline \<Rightarrow> scrolline run" where
  "color_up_to n a ln =
     (if sl_length ln < n
      then check (n \<le> Q_MAX_LINE_LENGTH) Buffer_overflow
             (Inr (ln\<lparr>sl_colors := fold (\<lambda>i cs. cs[i := a]) [sl_length ln..<n] (sl_colors ln), sl_length := n\<rparr>))
      else Inr ln)"

definition down_one :: "screen \<Rightarrow> screen run" where
  "down_one s =
     (if Suc (sc_current s) < length (sc_lines s)
      then Inr (s\<lparr>sc_current := Suc (sc_current s), sc_cursor_y := sc_cursor_y s + 1\<rparr>)
      else andthen (new_scrollback_line (s\<lparr>sc_cursor_y := sc_cursor_y s + 1\<rparr>)) (\<lambda>s1.
             let s2 = s1\<lparr>sc_current := Suc (sc_current s1)\<rparr>
             in andthen (color_up_to (sc_cursor_x s2) (console_text s2) (current_line s2)) (\<lambda>ln. Inr (set_current ln s2))))"

fun down_loop :: "nat \<Rightarrow> bool \<Rightarrow> screen \<Rightarrow> screen run" where
  "down_loop 0 honor s = Inr s"
| "down_loop (Suc n) honor s =
     (if honor \<and> sc_region_bottom s < sc_cursor_y s then Inr s
      else if sc_cursor_y s < (if honor then sc_region_bottom s else last_row s)
      then andthen (down_one s) (down_loop n honor)
      else down_loop n honor s)"

definition cursor_down :: "nat \<Rightarrow> bool \<Rightarrow> screen \<Rightarrow> screen run" where
  "cursor_down n honor s = down_loop n honor (clear_wrap_flag n s)"

definition outside_region :: "bool \<Rightarrow> screen \<Rightarrow> bool" where
  "outside_region honor s \<longleftrightarrow> honor \<and> (sc_cursor_y s < sc_region_top s \<or> sc_region_bottom s < sc_cursor_y s)"

definition cursor_left :: "nat \<Rightarrow> bool \<Rightarrow> screen \<Rightarrow> screen" where
  "cursor_left n honor s =
     (let s1 = clear_wrap_flag n s
      in if outside_region honor s then s1 else s1\<lparr>sc_cursor_x := sc_cursor_x s - n\<rparr>)"

text \<open>The right margin of the cursor functions; that of printing depends on the emulation.\<close>

definition cursor_margin :: "screen \<Rightarrow> nat" where
  "cursor_margin s = halve_margin s (if 0 < sc_right_margin s then nat (sc_right_margin s) else sc_WIDTH s - 1)"

fun right_loop :: "nat \<Rightarrow> nat \<Rightarrow> screen \<Rightarrow> screen run" where
  "right_loop 0 margin s = Inr s"
| "right_loop (Suc n) margin s =
     (let ln = current_line s
      in if sc_cursor_x s < margin then
           (if sl_length ln \<le> sc_cursor_x s
            then check (sl_length ln < Q_MAX_LINE_LENGTH) Buffer_overflow
                   (right_loop n margin
                     ((set_current ((put_cell (sl_length ln) 32 (sc_color s) ln)\<lparr>sl_length := sl_length ln + 1\<rparr>) s)
                        \<lparr>sc_cursor_x := sc_cursor_x s + 1\<rparr>))
            else right_loop n margin (s\<lparr>sc_cursor_x := sc_cursor_x s + 1\<rparr>))
         else right_loop n margin s)"

definition cursor_right :: "nat \<Rightarrow> bool \<Rightarrow> screen \<Rightarrow> screen run" where
  "cursor_right n honor s =
     (let s1 = clear_wrap_flag n s
      in if outside_region honor s then Inr s1 else right_loop n (cursor_margin s) s1)"

text \<open>\<open>cursor_position\<close>; its two assertions say that row and column are not negative.\<close>

definition cursor_position :: "nat \<Rightarrow> nat \<Rightarrow> screen \<Rightarrow> screen run" where
  "cursor_position row col s =
     (let x = min col (sc_WIDTH s - 1);
          x1 = (if 0 < sc_right_margin s \<and> sc_right_margin s < int x then cursor_margin s else x);
          s1 = s\<lparr>sc_cursor_x := x1\<rparr>;
          row1 = (if sc_origin_mode s then row + sc_region_top s else row)
      in andthen (if sc_cursor_y s1 < row1 then cursor_down (row1 - sc_cursor_y s1) False s1
                  else if row1 < sc_cursor_y s1 then cursor_up (sc_cursor_y s1 - row1) False s1
                  else Inr s1)
           (\<lambda>s2. Inr (s2\<lparr>sc_wrap_flag := False\<rparr>)))"

section \<open>Erasing and scrolling\<close>

text \<open>Erasing with the current color, except on the VT100 and its successors of DEC.\<close>

definition erase_attr :: "screen \<Rightarrow> cattr" where
  "erase_attr s = (if sc_emulation s \<in> {Q_EMUL_VT100, Q_EMUL_VT102, Q_EMUL_VT220} then console_text s
                   else color_to_attr (a_pair (sc_color s)))"

definition fill_cell :: "u32 \<Rightarrow> cattr \<Rightarrow> bool \<Rightarrow> nat \<Rightarrow> scrolline \<Rightarrow> scrolline" where
  "fill_cell c a honor_protected i ln =
     (if honor_protected \<and> a_protect (sl_colors ln ! i) then ln else put_cell i c a ln)"

definition fit_length :: "nat \<Rightarrow> nat \<Rightarrow> scrolline \<Rightarrow> scrolline" where
  "fit_length width end_col ln =
     (let n = (if sl_length ln < end_col then end_col + 1 else sl_length ln)
      in ln\<lparr>sl_length := (if width < n then width else n)\<rparr>)"

definition fill_line_with_character :: "nat \<Rightarrow> nat \<Rightarrow> u32 \<Rightarrow> bool \<Rightarrow> screen \<Rightarrow> screen run" where
  "fill_line_with_character start_col end_col c honor_protected s =
     (if end_col < start_col then Inr s
      else andthen (pad_line start_col (console_text s) (current_line s)) (\<lambda>ln.
        check (end_col < Q_MAX_LINE_LENGTH) Buffer_overflow
          (Inr (set_current (fit_length (sc_WIDTH s) end_col
            (fold (fill_cell c (erase_attr s) honor_protected) [start_col..<Suc end_col] ln)) s))))"

definition erase_line :: "nat \<Rightarrow> nat \<Rightarrow> bool \<Rightarrow> screen \<Rightarrow> screen run" where
  "erase_line start_col end_col honor_protected s = fill_line_with_character start_col end_col 32 honor_protected s"

text \<open>The rows from the current line on, the current one and \<open>n\<close> more.\<close>

fun erase_rows :: "nat \<Rightarrow> nat \<Rightarrow> nat \<Rightarrow> bool \<Rightarrow> screen \<Rightarrow> screen run" where
  "erase_rows 0 a b hp s = erase_line a b hp s"
| "erase_rows (Suc n) a b hp s =
     andthen (erase_line a b hp s) (\<lambda>s1.
     andthen (ensure_next s1) (\<lambda>s2. erase_rows n a b hp (s2\<lparr>sc_current := Suc (sc_current s2)\<rparr>)))"

text \<open>Back to the line that was current when the function was called.\<close>

definition restore_current :: "screen \<Rightarrow> screen" where
  "restore_current s = (case sc_pin s of None \<Rightarrow> s | Some i \<Rightarrow> s\<lparr>sc_current := i, sc_pin := None\<rparr>)"

definition erase_screen :: "nat \<Rightarrow> nat \<Rightarrow> nat \<Rightarrow> nat \<Rightarrow> bool \<Rightarrow> screen \<Rightarrow> screen run" where
  "erase_screen start_row start_col end_row end_col hp s =
     (if end_row < start_row \<or> end_col < start_col then Inr s
      else andthen (find_top_scrollback_line s) (\<lambda>top.
           andthen (walk_down start_row top (s\<lparr>sc_pin := Some (sc_current s)\<rparr>)) (\<lambda>(i, s1).
           andthen (erase_rows (end_row - start_row) start_col end_col hp (s1\<lparr>sc_current := i\<rparr>)) (\<lambda>s2.
           Inr (restore_current s2)))))"

text \<open>The columns from \<open>a\<close> up to, but not including, \<open>b\<close> of one line, and its width, in another.\<close>

definition copy_cells :: "nat \<Rightarrow> nat \<Rightarrow> scrolline \<Rightarrow> scrolline \<Rightarrow> scrolline" where
  "copy_cells a b src dst =
     dst\<lparr>sl_chars := memcpy (sl_chars dst) a (take (b - a) (drop a (sl_chars src))),
         sl_colors := memcpy (sl_colors dst) a (take (b - a) (drop a (sl_colors src))),
         sl_length := sl_length src, sl_double_width := sl_double_width src,
         sl_double_height := sl_double_height src, sl_reverse_color := sl_reverse_color src\<rparr>"

text \<open>The padding of a shorter line before it is overwritten; the length is set afterwards anyway.\<close>

definition pad_target :: "bool \<Rightarrow> nat \<Rightarrow> cattr \<Rightarrow> scrolline \<Rightarrow> scrolline" where
  "pad_target shorter b a dst = (if shorter then put_spaces (sl_length dst) b a dst else dst)"

fun copy_up :: "nat \<Rightarrow> nat \<Rightarrow> nat \<Rightarrow> nat \<Rightarrow> nat \<Rightarrow> screen \<Rightarrow> screen" where
  "copy_up 0 i j a b s = s"
| "copy_up (Suc n) i j a b s =
     (let src = sc_lines s ! j; dst = sc_lines s ! i;
          s1 = set_line i (copy_cells a b src (pad_target (sl_length dst < sl_length src) b (console_text s) dst)) s
      in if Suc j < length (sc_lines s) then copy_up n (Suc i) (Suc j) a b s1 else s1)"

definition rectangle_scroll_up :: "nat \<Rightarrow> nat \<Rightarrow> nat \<Rightarrow> nat \<Rightarrow> nat \<Rightarrow> screen \<Rightarrow> screen run" where
  "rectangle_scroll_up row left last_r right n s =
     (if last_r \<le> row \<or> right \<le> left then Inr s
      else if last_r + 1 - row \<le> n then erase_screen row left last_r (right - 1) False s
      else check (right \<le> Q_MAX_LINE_LENGTH) Buffer_overflow
        (andthen (find_top_scrollback_line s) (\<lambda>t.
         andthen (walk_down row t s) (\<lambda>(i, s1).
         andthen (walk_down n i (s1\<lparr>sc_pin := Some i\<rparr>)) (\<lambda>(j, s2).
           let remaining = last_r + 1 - row - n
           in erase_screen (row + remaining) left last_r (right - 1) False
                (copy_up remaining (the (sc_pin s2)) j left right (s2\<lparr>sc_pin := None\<rparr>)))))))"

definition scrolling_region_scroll_up :: "nat \<Rightarrow> nat \<Rightarrow> nat \<Rightarrow> screen \<Rightarrow> screen run" where
  "scrolling_region_scroll_up region_top region_bottom n s =
     rectangle_scroll_up region_top 0 region_bottom Q_MAX_LINE_LENGTH n s"

definition scroll_up :: "nat \<Rightarrow> screen \<Rightarrow> screen run" where
  "scroll_up n s = scrolling_region_scroll_up 0 (last_row s) n s"

fun copy_down :: "nat \<Rightarrow> nat \<Rightarrow> nat \<Rightarrow> nat \<Rightarrow> nat \<Rightarrow> screen \<Rightarrow> screen" where
  "copy_down 0 i j a b s = s"
| "copy_down (Suc n) i j a b s =
     (let src = sc_lines s ! j; dst = sc_lines s ! i
      in copy_down n (i - 1) (j - 1) a b
           (set_line i (copy_cells a b src (pad_target (sl_length dst < a) b (console_text s) dst)) s))"

definition rectangle_scroll_down :: "nat \<Rightarrow> nat \<Rightarrow> nat \<Rightarrow> nat \<Rightarrow> nat \<Rightarrow> screen \<Rightarrow> screen run" where
  "rectangle_scroll_down row left last_r right n s =
     (if last_r \<le> row \<or> right \<le> left then Inr s
      else if last_r + 1 - row \<le> n then erase_screen row left last_r (right - 1) False s
      else check (right \<le> Q_MAX_LINE_LENGTH) Buffer_overflow
        (andthen (find_top_scrollback_line s) (\<lambda>t.
         andthen (walk_down last_r t s) (\<lambda>(i, s1).
           check (n \<le> i) Undefined
             (let s2 = copy_down (last_r + 1 - row - n) i (i - n) left right s1
              in if n = 0 then Inr s2 else erase_screen row left (row + n - 1) (right - 1) False s2)))))"

definition scrolling_region_scroll_down :: "nat \<Rightarrow> nat \<Rightarrow> nat \<Rightarrow> screen \<Rightarrow> screen run" where
  "scrolling_region_scroll_down region_top region_bottom n s =
     rectangle_scroll_down region_top 0 region_bottom Q_MAX_LINE_LENGTH n s"

definition scroll_down :: "nat \<Rightarrow> screen \<Rightarrow> screen run" where
  "scroll_down n s = scrolling_region_scroll_down 0 (last_row s) n s"

section \<open>Line feeds\<close>

definition whole_screen_region :: "screen \<Rightarrow> bool" where
  "whole_screen_region s \<longleftrightarrow> sc_region_bottom s = last_row s \<and> sc_region_top s = 0"

definition linefeed_scroll :: "screen \<Rightarrow> screen run" where
  "linefeed_scroll s =
     (if whole_screen_region s then
        andthen (ensure_next s) (\<lambda>s1.
          let s2 = s1\<lparr>sc_current := Suc (sc_current s1)\<rparr>
          in Inr (set_current ((current_line s2)\<lparr>sl_length := (if sc_reverse_video s2 then sc_WIDTH s2 else sc_cursor_x s2)\<rparr>) s2))
      else scrolling_region_scroll_up (sc_region_top s) (sc_region_bottom s) 1 s)"

definition cursor_linefeed :: "bool \<Rightarrow> screen \<Rightarrow> screen run" where
  "cursor_linefeed new_line_mode s =
     andthen (if sc_cursor_y s < sc_region_bottom s
              then andthen (ensure_next (s\<lparr>sc_cursor_y := sc_cursor_y s + 1\<rparr>)) (\<lambda>s1.
                     Inr (s1\<lparr>sc_current := Suc (sc_current s1)\<rparr>))
              else linefeed_scroll s)
       (\<lambda>s1. Inr (s1\<lparr>sc_cursor_x := (if new_line_mode then 0 else sc_cursor_x s1), sc_wrap_flag := False\<rparr>))"

definition cursor_carriage_return :: "screen \<Rightarrow> screen run" where
  "cursor_carriage_return s =
     (let s1 = s\<lparr>sc_cursor_x := 0\<rparr>
      in andthen (if sc_line_feed_on_cr s then cursor_linefeed False s1 else Inr s1)
           (\<lambda>s2. Inr (s2\<lparr>sc_wrap_flag := False\<rparr>)))"

fun linefeeds :: "nat \<Rightarrow> screen \<Rightarrow> screen run" where
  "linefeeds 0 s = Inr s"
| "linefeeds (Suc n) s = andthen (cursor_linefeed False s) (linefeeds n)"

definition cursor_formfeed :: "screen \<Rightarrow> screen run" where
  "cursor_formfeed s =
     andthen (linefeeds (2 * last_row s + 1 - sc_cursor_y s) s) (\<lambda>s1.
     andthen (erase_screen 0 0 (last_row s1) (sc_WIDTH s1 - 1) False s1) (cursor_position 0 0))"

section \<open>Inserting and deleting\<close>

definition delete_one :: "nat \<Rightarrow> scrolline \<Rightarrow> scrolline" where
  "delete_one x ln =
     ln\<lparr>sl_chars := memcpy (sl_chars ln) x (drop (x + 1) (sl_chars ln)),
        sl_colors := memcpy (sl_colors ln) x (drop (x + 1) (sl_colors ln)),
        sl_length := (if x < sl_length ln then sl_length ln - 1 else sl_length ln)\<rparr>"

definition delete_character :: "nat \<Rightarrow> screen \<Rightarrow> screen run" where
  "delete_character n s =
     check (n = 0 \<or> sc_cursor_x s < Q_MAX_LINE_LENGTH) Buffer_overflow
       (Inr (set_current ((delete_one (sc_cursor_x s) ^^ n) (current_line s)) s))"

text \<open>
  The line is moved by \<open>n\<close> columns, but the loop that follows stores its \<open>n\<close> spaces all in the
  column of the cursor.  With fewer than \<open>n\<close> columns behind the cursor the number of cells to move
  wraps to a huge one.
\<close>

definition move_right :: "nat \<Rightarrow> nat \<Rightarrow> 'a list \<Rightarrow> 'a list" where
  "move_right x n cs = memcpy cs (x + n) (take (Q_MAX_LINE_LENGTH - x - n) (drop x cs))"

definition insert_blanks :: "nat \<Rightarrow> screen \<Rightarrow> screen run" where
  "insert_blanks n s =
     (let ln = current_line s; x = sc_cursor_x s;
          ln1 = ln\<lparr>sl_chars := move_right x n (sl_chars ln), sl_colors := move_right x n (sl_colors ln)\<rparr>
      in check (x + n \<le> Q_MAX_LINE_LENGTH) Buffer_overflow
           (Inr (set_current
             (if n = 0 then ln1
              else (put_cell x 32 (sc_color s) ln1)\<lparr>sl_length := max (sl_length ln) (min (sl_length ln + n) Q_MAX_LINE_LENGTH)\<rparr>) s)))"

section \<open>Whole lines\<close>

definition set_double_width :: "bool \<Rightarrow> screen \<Rightarrow> screen" where
  "set_double_width b s = set_current ((current_line s)\<lparr>sl_double_width := b, sl_double_height := 0\<rparr>) s"

definition set_double_height :: "nat \<Rightarrow> screen \<Rightarrow> screen" where
  "set_double_height n s = set_current ((current_line s)\<lparr>sl_double_width := True, sl_double_height := n\<rparr>) s"

fun single_width_rows :: "nat \<Rightarrow> screen \<Rightarrow> screen run" where
  "single_width_rows 0 s = Inr (set_double_width False s)"
| "single_width_rows (Suc n) s =
     andthen (ensure_next (set_double_width False s)) (\<lambda>s1. single_width_rows n (s1\<lparr>sc_current := Suc (sc_current s1)\<rparr>))"

definition set_single_width :: "nat \<Rightarrow> nat \<Rightarrow> screen \<Rightarrow> screen run" where
  "set_single_width start_row end_row s =
     (if end_row < start_row then Inr s
      else andthen (find_top_scrollback_line s) (\<lambda>top.
           andthen (walk_down start_row top (s\<lparr>sc_pin := Some (sc_current s)\<rparr>)) (\<lambda>(i, s1).
           andthen (single_width_rows (end_row - start_row) (s1\<lparr>sc_current := i\<rparr>)) (\<lambda>s2.
           Inr (restore_current s2)))))"

definition invert_line :: "screen \<Rightarrow> screen run" where
  "invert_line s =
     (let ln = current_line s; s1 = set_current (ln\<lparr>sl_reverse_color := \<not> sl_reverse_color ln\<rparr>) s
      in if sl_length ln < sc_WIDTH s then erase_line (sl_length ln) (sc_WIDTH s - 1) False s1 else Inr s1)"

fun invert_rows :: "nat \<Rightarrow> screen \<Rightarrow> screen run" where
  "invert_rows 0 s = invert_line s"
| "invert_rows (Suc n) s =
     andthen (invert_line s) (\<lambda>s1. andthen (ensure_next s1) (\<lambda>s2. invert_rows n (s2\<lparr>sc_current := Suc (sc_current s2)\<rparr>)))"

definition invert_scrollback_colors :: "screen \<Rightarrow> screen run" where
  "invert_scrollback_colors s =
     andthen (find_top_scrollback_line s) (\<lambda>top.
     andthen (invert_rows (last_row s) (s\<lparr>sc_pin := Some (sc_current s), sc_current := top\<rparr>)) (\<lambda>s1.
     Inr (restore_current s1)))"

end
