(* ===== verification/Screen_Invariant.thy ===== *)
theory Screen_Invariant
  imports Screen
begin

text \<open>
  The invariant of the screen.  \<open>scrollback_ok\<close>: the lines have their size, none is longer than the
  screen is wide (\<open>columns\<close>), and the bottom of the screen is the last line.  \<open>screen_ok\<close>: besides,
  the cursor is on the screen, and \<open>q_scrollback_current\<close> is the line in its row.  Every operation
  that does not insert characters returns and keeps it, for rows and columns that are on the
  screen.  \<open>with_lines\<close> is a screen with other lines, \<open>surely\<close> a step that succeeds.
\<close>

section \<open>Success\<close>

fun surely :: "('a \<Rightarrow> bool) \<Rightarrow> 'a run \<Rightarrow> bool" where
  "surely Q (Inl e) = False"
| "surely Q (Inr x) = Q x"

named_theorems surely_intros \<open>steps that succeed\<close>

lemma surely_iff: "surely Q r \<longleftrightarrow> (\<exists>x. r = Inr x \<and> Q x)"
  by (cases r) auto

lemma surely_mono: "surely P r \<Longrightarrow> (\<And>x. P x \<Longrightarrow> Q x) \<Longrightarrow> surely Q r"
  by (auto simp: surely_iff)

lemma surely_andthen: "surely P r \<Longrightarrow> (\<And>x. P x \<Longrightarrow> surely Q (f x)) \<Longrightarrow> surely Q (andthen r f)"
  by (cases r) auto

lemma surely_check: "b \<Longrightarrow> surely Q r \<Longrightarrow> surely Q (check b e r)"
  by simp

section \<open>The invariant\<close>

definition columns :: "screen \<Rightarrow> nat" where
  "columns s = max (sc_WIDTH s) 80"

definition line_ok :: "nat \<Rightarrow> scrolline \<Rightarrow> bool" where
  "line_ok n ln \<longleftrightarrow> length (sl_chars ln) = Q_MAX_LINE_LENGTH \<and> length (sl_colors ln) = Q_MAX_LINE_LENGTH \<and> sl_length ln \<le> n"

definition lines_ok :: "nat \<Rightarrow> scrolline list \<Rightarrow> bool" where
  "lines_ok n ls \<longleftrightarrow> ls \<noteq> [] \<and> (\<forall>ln\<in>set ls. line_ok n ln)"

definition geometry_ok :: "screen \<Rightarrow> bool" where
  "geometry_ok s \<longleftrightarrow> 0 < last_row s \<and> (sc_status_visible s \<or> sc_STATUS_HEIGHT s = 0) \<and> 2 \<le> sc_WIDTH s \<and>
     sc_WIDTH s < Q_MAX_LINE_LENGTH \<and> sc_right_margin s < int (columns s) \<and> (0 < sc_max s \<longrightarrow> last_row s < sc_max s) \<and>
     sc_region_top s \<le> sc_region_bottom s \<and> sc_region_bottom s \<le> last_row s \<and> \<not> sc_insert_mode s \<and> sc_pin s = None"

definition scrollback_ok :: "screen \<Rightarrow> bool" where
  "scrollback_ok s \<longleftrightarrow> lines_ok (columns s) (sc_lines s) \<and> sc_position s = length (sc_lines s) - 1 \<and>
     sc_count s = length (sc_lines s)"

definition cursor_ok :: "screen \<Rightarrow> bool" where
  "cursor_ok s \<longleftrightarrow> sc_current s = (length (sc_lines s) - 1 - last_row s) + sc_cursor_y s \<and>
     sc_current s < length (sc_lines s) \<and> sc_cursor_x s < columns s"

definition screen_ok :: "screen \<Rightarrow> bool" where
  "screen_ok s \<longleftrightarrow> geometry_ok s \<and> scrollback_ok s \<and> cursor_ok s"

definition with_lines :: "scrolline list \<Rightarrow> nat \<Rightarrow> screen \<Rightarrow> screen" where
  "with_lines L k s = s\<lparr>sc_lines := L, sc_position := length L - 1, sc_count := length L, sc_current := k\<rparr>"

lemma with_lines_simps [simp]:
  "sc_lines (with_lines L k s) = L" "sc_position (with_lines L k s) = length L - 1"
  "sc_count (with_lines L k s) = length L" "sc_current (with_lines L k s) = k"
  "with_lines M j (with_lines L k s) = with_lines M j s"
  "(with_lines L k s)\<lparr>sc_current := j\<rparr> = with_lines L j s"
  "sc_pin (with_lines L k s) = sc_pin s" "sc_max (with_lines L k s) = sc_max s"
  "sc_enabled (with_lines L k s) = sc_enabled s" "sc_HEIGHT (with_lines L k s) = sc_HEIGHT s"
  "sc_WIDTH (with_lines L k s) = sc_WIDTH s" "sc_STATUS_HEIGHT (with_lines L k s) = sc_STATUS_HEIGHT s"
  "sc_status_visible (with_lines L k s) = sc_status_visible s" "sc_cursor_x (with_lines L k s) = sc_cursor_x s"
  "sc_cursor_y (with_lines L k s) = sc_cursor_y s" "sc_region_top (with_lines L k s) = sc_region_top s"
  "sc_region_bottom (with_lines L k s) = sc_region_bottom s" "sc_insert_mode (with_lines L k s) = sc_insert_mode s"
  "sc_line_wrap (with_lines L k s) = sc_line_wrap s" "sc_origin_mode (with_lines L k s) = sc_origin_mode s"
  "sc_reverse_video (with_lines L k s) = sc_reverse_video s" "sc_emulation (with_lines L k s) = sc_emulation s"
  "sc_right_margin (with_lines L k s) = sc_right_margin s" "sc_color (with_lines L k s) = sc_color s"
  "sc_wrap_flag (with_lines L k s) = sc_wrap_flag s" "sc_display_null (with_lines L k s) = sc_display_null s"
  "last_row (with_lines L k s) = last_row s" "columns (with_lines L k s) = columns s"
  "console_text (with_lines L k s) = console_text s" "blank_line (with_lines L k s) = blank_line s"
  "erase_attr (with_lines L k s) = erase_attr s" "geometry_ok (with_lines L k s) = geometry_ok s"
  by (simp_all add: with_lines_def last_row_def columns_def console_text_def blank_line_def erase_attr_def geometry_ok_def)

lemma with_lines_self: "scrollback_ok s \<Longrightarrow> with_lines (sc_lines s) (sc_current s) s = s"
  by (simp add: with_lines_def scrollback_ok_def)

lemma with_lines_pin [simp]: "(with_lines L k s)\<lparr>sc_pin := p\<rparr> = with_lines L k (s\<lparr>sc_pin := p\<rparr>)"
  by (simp add: with_lines_def)

lemma pin_simps [simp]:
  "last_row (s\<lparr>sc_pin := p\<rparr>) = last_row s" "columns (s\<lparr>sc_pin := p\<rparr>) = columns s"
  "blank_line (s\<lparr>sc_pin := p\<rparr>) = blank_line s" "console_text (s\<lparr>sc_pin := p\<rparr>) = console_text s"
  by (simp_all add: last_row_def columns_def blank_line_def console_text_def)

lemma lines_ok_update: "lines_ok n L \<Longrightarrow> line_ok n ln \<Longrightarrow> lines_ok n (L[i := ln])"
  by (auto simp: lines_ok_def dest: set_update_subset_insert [THEN subsetD])

lemma lines_ok_append: "lines_ok n L \<Longrightarrow> (\<And>ln. ln \<in> set M \<Longrightarrow> line_ok n ln) \<Longrightarrow> lines_ok n (L @ M)"
  by (auto simp: lines_ok_def)

lemma lines_ok_nth: "lines_ok n L \<Longrightarrow> i < length L \<Longrightarrow> line_ok n (L ! i)"
  by (simp add: lines_ok_def)

lemma line_ok_blank: "line_ok (columns s) (blank_line s)"
  by (simp add: line_ok_def blank_line_def columns_def)

lemma columns_lt: "geometry_ok s \<Longrightarrow> columns s < Q_MAX_LINE_LENGTH"
  by (simp add: geometry_ok_def columns_def Q_MAX_LINE_LENGTH_def)

section \<open>Cells\<close>

lemma put_cell_simps [simp]:
  "sl_length (put_cell i c a ln) = sl_length ln" "length (sl_chars (put_cell i c a ln)) = length (sl_chars ln)"
  "length (sl_colors (put_cell i c a ln)) = length (sl_colors ln)"
  "sl_double_width (put_cell i c a ln) = sl_double_width ln"
  by (simp_all add: put_cell_def)

lemma fold_cells:
  assumes "\<And>i ln. sl_length (f i ln) = sl_length ln \<and> length (sl_chars (f i ln)) = length (sl_chars ln) \<and>
                   length (sl_colors (f i ln)) = length (sl_colors ln)"
  shows "sl_length (fold f is ln) = sl_length ln" "length (sl_chars (fold f is ln)) = length (sl_chars ln)"
    "length (sl_colors (fold f is ln)) = length (sl_colors ln)"
  by (induction "is" arbitrary: ln) (simp_all add: assms)

lemma put_spaces_simps [simp]:
  "sl_length (put_spaces m n a ln) = sl_length ln" "length (sl_chars (put_spaces m n a ln)) = length (sl_chars ln)"
  "length (sl_colors (put_spaces m n a ln)) = length (sl_colors ln)"
  unfolding put_spaces_def by (rule fold_cells, simp)+

lemma fill_cells_simps [simp]:
  "sl_length (fold (fill_cell c a hp) is ln) = sl_length ln" "length (sl_chars (fold (fill_cell c a hp) is ln)) = length (sl_chars ln)"
  "length (sl_colors (fold (fill_cell c a hp) is ln)) = length (sl_colors ln)"
  by (rule fold_cells, simp add: fill_cell_def)+

lemma pad_line_surely: "line_ok n ln \<Longrightarrow> m \<le> n' \<Longrightarrow> n \<le> n' \<Longrightarrow> m \<le> Q_MAX_LINE_LENGTH \<Longrightarrow>
    surely (\<lambda>t. line_ok n' t \<and> m \<le> sl_length t \<and> sl_length t = max m (sl_length ln)) (pad_line m a ln)"
  by (auto simp: pad_line_def line_ok_def)

section \<open>New lines\<close>

text \<open>The lines after as many blank ones were added that there are \<open>m\<close>.\<close>

definition grown :: "nat \<Rightarrow> screen \<Rightarrow> scrolline list \<Rightarrow> scrolline list" where
  "grown m s L = L @ replicate (m - length L) (blank_line s)"

lemma length_extend [simp]: "length (grown m s L) = max m (length L)"
  by (simp add: grown_def)

lemma extend_id: "m \<le> length L \<Longrightarrow> grown m s L = L"
  by (simp add: grown_def)

lemma extend_extend: "grown m s (grown k s L) = grown (max m k) s L"
proof -
  have "(k - length L) + (m - (length L + (k - length L))) = max m k - length L" by arith
  then show ?thesis by (simp add: grown_def replicate_add [symmetric] del: max_nat.left_neutral)
qed

lemma extend_pin [simp]: "grown m (s\<lparr>sc_pin := p\<rparr>) L = grown m s L" "grown m (with_lines M k s) L = grown m s L"
  by (simp_all add: grown_def)

lemma lines_ok_extend: "lines_ok (columns s) L \<Longrightarrow> lines_ok (columns s) (grown m s L)"
  unfolding grown_def by (rule lines_ok_append) (auto simp: line_ok_blank)

text \<open>What the geometry says that does not mention the pointer in use.\<close>

definition room :: "screen \<Rightarrow> bool" where
  "room s \<longleftrightarrow> 0 < last_row s \<and> (sc_status_visible s \<or> sc_STATUS_HEIGHT s = 0) \<and> (0 < sc_max s \<longrightarrow> last_row s < sc_max s)"

lemma room_simps [simp]: "room (with_lines L k s) = room s" "room (s\<lparr>sc_pin := p\<rparr>) = room s"
  by (simp_all add: room_def)

lemma geometry_room: "geometry_ok s \<Longrightarrow> room s"
  by (simp add: geometry_ok_def room_def)

lemma find_top_ok: "room s \<Longrightarrow> find_top_scrollback_line s = Inr (sc_position s - last_row s)"
  by (auto simp: find_top_scrollback_line_def room_def last_row_def)

lemma new_line_in_screen:
  assumes "room s" "L \<noteq> []" "length L \<le> last_row s"
  shows "new_scrollback_line (with_lines L k s) = Inr (with_lines (L @ [blank_line s]) k s)"
proof -
  have "\<not> buffer_full (with_lines L k s)" using assms by (auto simp: room_def buffer_full_def)
  then show ?thesis using assms(1) unfolding new_scrollback_line_def
    by (simp add: find_top_ok Let_def) (simp add: with_lines_def)
qed

lemma next_line_ok:
  assumes "room s" "i < length L" "Suc i \<le> max (length L - 1) (last_row s)"
  shows "next_line i (with_lines L k s) = Inr (Suc i, with_lines (grown (Suc (Suc i)) s L) k s)"
proof (cases "Suc i < length L")
  case False
  then have "length L = Suc i" "L \<noteq> []" using assms(2) by auto
  then show ?thesis using assms by (simp add: next_line_def new_line_in_screen grown_def)
qed (simp add: next_line_def extend_id)

lemma walk_down_ok:
  "room s \<Longrightarrow> i < length L \<Longrightarrow> i + n \<le> max (length L - 1) (last_row s) \<Longrightarrow>
   walk_down n i (with_lines L k s) = Inr (i + n, with_lines (grown (i + n + 1) s L) k s)"
proof (induction n arbitrary: i L)
  case 0
  then show ?case by (simp add: extend_id)
next
  case (Suc n)
  have nl: "next_line i (with_lines L k s) = Inr (Suc i, with_lines (grown (Suc (Suc i)) s L) k s)"
    by (rule next_line_ok) (use Suc.prems in auto)
  have "walk_down n (Suc i) (with_lines (grown (Suc (Suc i)) s L) k s) =
      Inr (Suc i + n, with_lines (grown (Suc i + n + 1) s (grown (Suc (Suc i)) s L)) k s)"
    by (rule Suc.IH) (use Suc.prems in auto)
  then show ?case using nl by (simp add: extend_extend max_def)
qed

lemma ensure_next_ok:
  assumes "room s" "k < length L" "Suc k \<le> max (length L - 1) (last_row s)"
  shows "ensure_next (with_lines L k s) = Inr (with_lines (grown (Suc (Suc k)) s L) k s)"
proof (cases "Suc k < length L")
  case False
  then have "length L = Suc k" "L \<noteq> []" using assms(2) by auto
  then show ?thesis using assms by (simp add: ensure_next_def new_line_in_screen grown_def)
qed (simp add: ensure_next_def extend_id)

text \<open>Fields that do not matter for the geometry.\<close>

lemma update_simps [simp]:
  "last_row (s\<lparr>sc_buffer_freed := b\<rparr>) = last_row s"
  "columns (s\<lparr>sc_buffer_freed := b\<rparr>) = columns s"
  "geometry_ok (s\<lparr>sc_buffer_freed := b\<rparr>) = geometry_ok s"
  "room (s\<lparr>sc_buffer_freed := b\<rparr>) = room s"
  "blank_line (s\<lparr>sc_buffer_freed := b\<rparr>) = blank_line s"
  "console_text (s\<lparr>sc_buffer_freed := b\<rparr>) = console_text s"
  "scrollback_ok (s\<lparr>sc_buffer_freed := b\<rparr>) = scrollback_ok s"
  "last_row (s\<lparr>sc_cursor_x := x\<rparr>) = last_row s"
  "columns (s\<lparr>sc_cursor_x := x\<rparr>) = columns s"
  "geometry_ok (s\<lparr>sc_cursor_x := x\<rparr>) = geometry_ok s"
  "room (s\<lparr>sc_cursor_x := x\<rparr>) = room s"
  "blank_line (s\<lparr>sc_cursor_x := x\<rparr>) = blank_line s"
  "console_text (s\<lparr>sc_cursor_x := x\<rparr>) = console_text s"
  "scrollback_ok (s\<lparr>sc_cursor_x := x\<rparr>) = scrollback_ok s"
  "last_row (s\<lparr>sc_cursor_y := y\<rparr>) = last_row s"
  "columns (s\<lparr>sc_cursor_y := y\<rparr>) = columns s"
  "geometry_ok (s\<lparr>sc_cursor_y := y\<rparr>) = geometry_ok s"
  "room (s\<lparr>sc_cursor_y := y\<rparr>) = room s"
  "blank_line (s\<lparr>sc_cursor_y := y\<rparr>) = blank_line s"
  "console_text (s\<lparr>sc_cursor_y := y\<rparr>) = console_text s"
  "scrollback_ok (s\<lparr>sc_cursor_y := y\<rparr>) = scrollback_ok s"
  "last_row (s\<lparr>sc_wrap_flag := f\<rparr>) = last_row s"
  "columns (s\<lparr>sc_wrap_flag := f\<rparr>) = columns s"
  "geometry_ok (s\<lparr>sc_wrap_flag := f\<rparr>) = geometry_ok s"
  "room (s\<lparr>sc_wrap_flag := f\<rparr>) = room s"
  "blank_line (s\<lparr>sc_wrap_flag := f\<rparr>) = blank_line s"
  "console_text (s\<lparr>sc_wrap_flag := f\<rparr>) = console_text s"
  "scrollback_ok (s\<lparr>sc_wrap_flag := f\<rparr>) = scrollback_ok s"
  "last_row (s\<lparr>sc_color := c\<rparr>) = last_row s"
  "columns (s\<lparr>sc_color := c\<rparr>) = columns s"
  "geometry_ok (s\<lparr>sc_color := c\<rparr>) = geometry_ok s"
  "room (s\<lparr>sc_color := c\<rparr>) = room s"
  "blank_line (s\<lparr>sc_color := c\<rparr>) = blank_line s"
  "console_text (s\<lparr>sc_color := c\<rparr>) = console_text s"
  "scrollback_ok (s\<lparr>sc_color := c\<rparr>) = scrollback_ok s"
  by (simp_all add: last_row_def columns_def geometry_ok_def room_def blank_line_def console_text_def scrollback_ok_def)

lemma with_lines_update [simp]:
  "(with_lines L k s)\<lparr>sc_cursor_x := x\<rparr> = with_lines L k (s\<lparr>sc_cursor_x := x\<rparr>)"
  "(with_lines L k s)\<lparr>sc_cursor_y := y\<rparr> = with_lines L k (s\<lparr>sc_cursor_y := y\<rparr>)"
  "(with_lines L k s)\<lparr>sc_wrap_flag := f\<rparr> = with_lines L k (s\<lparr>sc_wrap_flag := f\<rparr>)"
  "(with_lines L k s)\<lparr>sc_buffer_freed := b\<rparr> = with_lines L k (s\<lparr>sc_buffer_freed := b\<rparr>)"
  by (simp_all add: with_lines_def)

lemma scrollback_ok_with_lines [simp]: "scrollback_ok (with_lines L k s) \<longleftrightarrow> lines_ok (columns s) L"
  by (simp add: scrollback_ok_def)

text \<open>What no operation of the screen changes.\<close>

definition fixed_parts :: "screen \<Rightarrow> (nat \<times> nat \<times> nat) \<times> q_emulation \<times> int \<times> (nat \<times> nat) \<times> bool \<times> bool" where
  "fixed_parts s = ((sc_HEIGHT s, sc_WIDTH s, sc_STATUS_HEIGHT s), sc_emulation s, sc_right_margin s,
     (sc_region_top s, sc_region_bottom s), sc_assume_80_columns s, sc_line_wrap s)"

lemma fixed_parts_simps [simp]:
  "fixed_parts (with_lines L k s) = fixed_parts s" "fixed_parts (s\<lparr>sc_buffer_freed := b\<rparr>) = fixed_parts s" "fixed_parts (s\<lparr>sc_cursor_x := x\<rparr>) = fixed_parts s"
  "fixed_parts (s\<lparr>sc_cursor_y := y\<rparr>) = fixed_parts s" "fixed_parts (s\<lparr>sc_wrap_flag := f\<rparr>) = fixed_parts s" "fixed_parts (s\<lparr>sc_color := c\<rparr>) = fixed_parts s"
  "fixed_parts (s\<lparr>sc_pin := p\<rparr>) = fixed_parts s"
  by (simp_all add: fixed_parts_def with_lines_def)

definition moved :: "screen \<Rightarrow> screen \<Rightarrow> bool" where
  "moved s t \<longleftrightarrow> screen_ok t \<and> fixed_parts t = fixed_parts s"

lemma moved_refl: "screen_ok s \<Longrightarrow> moved s s"
  by (simp add: moved_def)

lemma moved_trans: "moved s t \<Longrightarrow> moved t u \<Longrightarrow> moved s u"
  by (simp add: moved_def)

lemma moved_ok: "moved s t \<Longrightarrow> screen_ok t"
  by (simp add: moved_def)

lemma surely_moved_andthen:
  "surely (moved s) r \<Longrightarrow> (\<And>t. screen_ok t \<Longrightarrow> surely (moved t) (f t)) \<Longrightarrow> surely (moved s) (andthen r f)"
proof (erule surely_andthen)
  fix t assume "\<And>t. screen_ok t \<Longrightarrow> surely (moved t) (f t)" "moved s t"
  then show "surely (moved s) (f t)" using surely_mono [of "moved t" "f t" "moved s"] by (simp add: moved_def)
qed

text \<open>The screen in terms of its lines.\<close>

lemma screen_ok_with_lines:
  "screen_ok (with_lines L k s) \<longleftrightarrow> geometry_ok s \<and> lines_ok (columns s) L \<and>
     k = (length L - 1 - last_row s) + sc_cursor_y s \<and> k < length L \<and> sc_cursor_x s < columns s"
  by (auto simp: screen_ok_def cursor_ok_def)

lemma screen_okD:
  assumes "screen_ok s"
  shows "geometry_ok s" "scrollback_ok s" "room s" "lines_ok (columns s) (sc_lines s)" "sc_current s < length (sc_lines s)"
    "sc_cursor_x s < columns s" "sc_cursor_x s < Q_MAX_LINE_LENGTH" "sc_cursor_y s \<le> last_row s"
    "with_lines (sc_lines s) (sc_current s) s = s" "line_ok (columns s) (current_line s)"
    "Suc (sc_current s) \<le> max (length (sc_lines s) - 1) (last_row s) \<or>
       (sc_current s = length (sc_lines s) - 1 \<and> last_row s < length (sc_lines s) \<and> sc_cursor_y s = last_row s)"
proof -
  show g: "geometry_ok s" "scrollback_ok s" using assms by (simp_all add: screen_ok_def)
  then show "room s" "lines_ok (columns s) (sc_lines s)" by (simp_all add: geometry_room scrollback_ok_def)
  show "sc_current s < length (sc_lines s)" "sc_cursor_x s < columns s" using assms by (simp_all add: screen_ok_def cursor_ok_def)
  then show "sc_cursor_x s < Q_MAX_LINE_LENGTH" "line_ok (columns s) (current_line s)"
    using columns_lt [OF g(1)] g(2) by (simp_all add: current_line_def scrollback_ok_def lines_ok_nth)
  show "with_lines (sc_lines s) (sc_current s) s = s" using g(2) by (rule with_lines_self)
  show "sc_cursor_y s \<le> last_row s"
    "Suc (sc_current s) \<le> max (length (sc_lines s) - 1) (last_row s) \<or>
     (sc_current s = length (sc_lines s) - 1 \<and> last_row s < length (sc_lines s) \<and> sc_cursor_y s = last_row s)"
    using assms by (auto simp: screen_ok_def cursor_ok_def)
qed

lemma set_current_ok:
  assumes "screen_ok s" "line_ok (columns s) ln"
  shows "moved s (set_current ln s)"
proof -
  have "set_current ln s = with_lines ((sc_lines s)[sc_current s := ln]) (sc_current s) s"
    using screen_okD(2) [OF assms(1)] by (cases s) (simp add: set_current_def set_line_def with_lines_def scrollback_ok_def)
  moreover have "lines_ok (columns s) ((sc_lines s)[sc_current s := ln])"
    using assms by (intro lines_ok_update screen_okD)
  ultimately show ?thesis using assms(1)
    by (simp add: moved_def screen_ok_with_lines) (auto simp: screen_ok_def cursor_ok_def)
qed

text \<open>One line below the last one, the first line or the top line being freed when the buffer is full.\<close>

lemma new_line_at_bottom:
  assumes "room s" "lines_ok (columns s) L" "last_row s < length L" "sc_pin s = None"
  shows "\<exists>M b. new_scrollback_line (with_lines L (length L - 1) s) = Inr (with_lines M (length M - 2) (s\<lparr>sc_buffer_freed := b\<rparr>)) \<and>
     lines_ok (columns s) M \<and> last_row s < length M"
proof (cases "buffer_full (with_lines L (length L - 1) s)")
  case False
  then have "new_scrollback_line (with_lines L (length L - 1) s) =
      Inr (with_lines (L @ [blank_line s]) (length (L @ [blank_line s]) - 2) (s\<lparr>sc_buffer_freed := sc_buffer_freed s\<rparr>))"
    using assms by (simp add: new_scrollback_line_def find_top_ok Let_def) (simp add: with_lines_def)
  moreover have "lines_ok (columns s) (L @ [blank_line s])" using assms(2) by (rule lines_ok_append) (simp add: line_ok_blank)
  ultimately show ?thesis using assms(3) by (metis length_append_singleton less_SucI)
next
  case True
  define k where "k = (if sc_enabled s then 0 else length L - 1 - last_row s)"
  define M where "M = take k (L @ [blank_line s]) @ drop (Suc k) (L @ [blank_line s])"
  define b where "b = (if sc_enabled s then sc_buffer_freed s else sc_buffer_freed s \<or> length L - 1 - last_row s = 0)"
  have k: "k < length L - 1" "2 \<le> length L" using assms by (auto simp: k_def room_def)
  have len: "length M = length L" using k by (simp add: M_def)
  have M: "M \<noteq> []" using len k by auto
  have ok: "lines_ok (columns s) M" using assms(2) M
    by (auto simp: M_def lines_ok_def line_ok_blank dest!: in_set_takeD in_set_dropD)
  have "new_scrollback_line (with_lines L (length L - 1) s) =
      Inr (with_lines M (length M - 2) (s\<lparr>sc_buffer_freed := b\<rparr>))"
  proof (cases "sc_enabled s")
    case en: True
    then show ?thesis using True k assms len unfolding new_scrollback_line_def free_line_def M_def b_def
      by (simp add: find_top_ok Let_def shift_index_def k_def) (cases s; cases L; auto simp add: with_lines_def)
  next
    case en: False
    then show ?thesis using True k assms len unfolding new_scrollback_line_def free_line_def M_def b_def
      by (simp add: find_top_ok Let_def shift_index_def k_def) (cases s; cases L; auto simp add: with_lines_def)
  qed
  then show ?thesis using ok len assms(3) by metis
qed

text \<open>The line below row \<open>y\<close>, and the row the cursor is in when it has gone there.\<close>

lemma ensure_next_row:
  assumes "room s" "lines_ok (columns s) L" "sc_pin s = None" "k = (length L - 1 - last_row s) + y" "k < length L"
  shows "\<exists>M b j. ensure_next (with_lines L k s) = Inr (with_lines M j (s\<lparr>sc_buffer_freed := b\<rparr>)) \<and> lines_ok (columns s) M \<and>
     Suc j < length M \<and> Suc j = (length M - 1 - last_row s) + (if y < last_row s then y + 1 else y)"
proof (cases "Suc k \<le> max (length L - 1) (last_row s)")
  case True
  have e: "ensure_next (with_lines L k s) = Inr (with_lines (grown (Suc (Suc k)) s L) k (s\<lparr>sc_buffer_freed := sc_buffer_freed s\<rparr>))"
    using ensure_next_ok [OF assms(1,5) True] by simp
  have "Suc k = (length (grown (Suc (Suc k)) s L) - 1 - last_row s) + (if y < last_row s then y + 1 else y)"
    using True assms(4,5) by (auto simp: max_def)
  then show ?thesis using e lines_ok_extend [OF assms(2)] by (metis length_extend less_max_iff_disj lessI)
next
  case False
  then have k: "k = length L - 1" "last_row s < length L" "y = last_row s" "\<not> Suc k < length L" using assms(4,5) by auto
  obtain M b where M: "new_scrollback_line (with_lines L (length L - 1) s) = Inr (with_lines M (length M - 2) (s\<lparr>sc_buffer_freed := b\<rparr>))"
    "lines_ok (columns s) M" "last_row s < length M"
    using new_line_at_bottom [OF assms(1,2) k(2) assms(3)] by blast
  have "0 < last_row s" using assms(1) by (simp add: room_def)
  then show ?thesis using M k by (intro exI [of _ M] exI [of _ b] exI [of _ "length M - 2"]) (auto simp: ensure_next_def)
qed

lemma screen_ok_cases:
  assumes "screen_ok s"
  obtains L k where "s = with_lines L k s" "room s" "lines_ok (columns s) L" "sc_pin s = None" "geometry_ok s"
    "k = (length L - 1 - last_row s) + sc_cursor_y s" "k < length L" "sc_cursor_x s < columns s" "sc_cursor_y s \<le> last_row s"
    "sc_lines s = L" "sc_current s = k"
proof (rule that [of "sc_lines s" "sc_current s"])
  show "s = with_lines (sc_lines s) (sc_current s) s" using screen_okD(9) [OF assms] by (rule sym)
  show "sc_pin s = None" using screen_okD(1) [OF assms] by (simp add: geometry_ok_def)
qed (use screen_okD [OF assms] assms in \<open>simp_all add: screen_ok_def cursor_ok_def\<close>)

section \<open>Printing and moving\<close>

lemma wrap_current_line_ok: "screen_ok s \<Longrightarrow> surely (moved s) (wrap_current_line s)"
proof (erule screen_ok_cases)
  fix L k assume s: "s = with_lines L k s" "room s" "lines_ok (columns s) L" "sc_pin s = None" "geometry_ok s"
    "k = (length L - 1 - last_row s) + sc_cursor_y s" "k < length L"
  obtain M b j where M: "ensure_next (with_lines L k s) = Inr (with_lines M j (s\<lparr>sc_buffer_freed := b\<rparr>))" "lines_ok (columns s) M"
    "Suc j < length M" "Suc j = (length M - 1 - last_row s) + (if sc_cursor_y s < last_row s then sc_cursor_y s + 1 else sc_cursor_y s)"
    using ensure_next_row [OF s(2-4,6,7)] by blast
  have "ensure_next s = Inr (with_lines M j (s\<lparr>sc_buffer_freed := b\<rparr>))" using M(1) s(1) by simp
  then show ?thesis using M(2-4) s(5) by (simp add: wrap_current_line_def moved_def screen_ok_with_lines) (simp add: columns_def)
qed

lemma screen_ok_flag [simp]: "screen_ok (s\<lparr>sc_wrap_flag := f\<rparr>) = screen_ok s"
  by (simp add: screen_ok_def cursor_ok_def)

lemma screen_ok_color [simp]: "screen_ok (s\<lparr>sc_color := c\<rparr>) = screen_ok s"
  by (simp add: screen_ok_def cursor_ok_def)

lemma screen_ok_x: "screen_ok s \<Longrightarrow> x < columns s \<Longrightarrow> screen_ok (s\<lparr>sc_cursor_x := x\<rparr>)"
  by (simp add: screen_ok_def cursor_ok_def)

lemma halve_margin_le: "halve_margin s m \<le> m"
  unfolding halve_margin_def by auto

lemma print_margin_lt: "geometry_ok s \<Longrightarrow> print_margin s < columns s"
  unfolding print_margin_def
  by (rule le_less_trans [OF halve_margin_le]) (auto simp: geometry_ok_def columns_def Let_def)

lemma cursor_margin_lt: "geometry_ok s \<Longrightarrow> cursor_margin s < columns s"
  unfolding cursor_margin_def
  by (rule le_less_trans [OF halve_margin_le]) (auto simp: geometry_ok_def columns_def)

lemma store_char_ok: "screen_ok s \<Longrightarrow> sc_cursor_x s \<le> sl_length (current_line s) \<or> sl_length (current_line s) < columns s \<Longrightarrow>
    surely (moved s) (store_char c s)"
proof -
  assume s: "screen_ok s" and x: "sc_cursor_x s \<le> sl_length (current_line s) \<or> sl_length (current_line s) < columns s"
  let ?ln = "current_line s"
  have ln: "line_ok (columns s) ?ln" "sc_cursor_x s < columns s" "columns s < Q_MAX_LINE_LENGTH" "\<not> sc_insert_mode s"
    using screen_okD [OF s] columns_lt [of s] by (auto simp: geometry_ok_def)
  have "surely (moved s) (Inr (set_current (put_cell (sc_cursor_x s) c (sc_color s) ?ln) s))"
    by (simp add: set_current_ok [OF s]) (rule set_current_ok [OF s], use ln in \<open>simp add: line_ok_def\<close>)
  moreover have "surely (moved s) (Inr (set_current ((put_cell (sl_length ?ln) c (sc_color s) ?ln)\<lparr>sl_length := sl_length ?ln + 1\<rparr>) s))"
    if "\<not> sc_cursor_x s < sl_length ?ln"
    using that ln x by (simp, intro set_current_ok [OF s]) (auto simp: line_ok_def)
  ultimately show ?thesis using ln by (auto simp: store_char_def Let_def)
qed

end
