(* ===== verification/Screen_Moves.thy ===== *)
theory Screen_Moves
  imports Screen_Invariant
begin

text \<open>
  The operations of the screen return and keep the invariant: printing a character, the cursor
  functions, erasing, scrolling and the line feeds.
\<close>

section \<open>Printing\<close>

lemma moved_columns: "moved s t \<Longrightarrow> columns t = columns s"
  by (simp add: moved_def fixed_parts_def columns_def)

lemma moved_geometry: "moved s t \<Longrightarrow> geometry_ok t"
  by (simp add: moved_def screen_ok_def)

lemma current_line_set_current: "screen_ok s \<Longrightarrow> current_line (set_current ln s) = ln"
  using screen_okD(5) [of s] by (simp add: current_line_def set_current_def set_line_def)

lemma set_current_simps [simp]:
  "sc_cursor_x (set_current ln s) = sc_cursor_x s" "sc_cursor_y (set_current ln s) = sc_cursor_y s"
  "sc_wrap_flag (set_current ln s) = sc_wrap_flag s" "sc_line_wrap (set_current ln s) = sc_line_wrap s"
  "sc_emulation (set_current ln s) = sc_emulation s" "sc_current (set_current ln s) = sc_current s"
  "sc_color (set_current ln s) = sc_color s" "sc_insert_mode (set_current ln s) = sc_insert_mode s"
  by (simp_all add: set_current_def set_line_def)

lemma current_line_simps [simp]:
  "current_line (s\<lparr>sc_wrap_flag := f\<rparr>) = current_line s" "current_line (s\<lparr>sc_cursor_x := x\<rparr>) = current_line s"
  by (simp_all add: current_line_def)

lemma pad_current:
  assumes "screen_ok s"
  shows "surely (\<lambda>ln. line_ok (columns s) ln \<and> sc_cursor_x s \<le> sl_length ln) (pad_line (sc_cursor_x s) a (current_line s))"
  using pad_line_surely [of "columns s" "current_line s" "sc_cursor_x s" "columns s" a] screen_okD [OF assms]
  by (auto elim!: surely_mono)

lemma moved_flag: "screen_ok s \<Longrightarrow> moved s (s\<lparr>sc_wrap_flag := f\<rparr>)"
  by (simp add: moved_def)

lemma wrap_current_line_x: "wrap_current_line s = Inr t \<Longrightarrow> sc_cursor_x t = 0"
  by (cases "ensure_next s") (auto simp: wrap_current_line_def)

lemma wrap_before_ok:
  assumes "screen_ok s" "sc_cursor_x s \<le> sl_length (current_line s)"
  shows "surely (\<lambda>t. moved s t \<and> sc_cursor_x t \<le> sl_length (current_line t)) (wrap_before m s)"
proof -
  have w: "surely (\<lambda>t. moved s t \<and> sc_cursor_x t \<le> sl_length (current_line t)) (wrap_current_line (s\<lparr>sc_wrap_flag := False\<rparr>))"
  proof -
    have "surely (moved (s\<lparr>sc_wrap_flag := False\<rparr>)) (wrap_current_line (s\<lparr>sc_wrap_flag := False\<rparr>))"
      by (rule wrap_current_line_ok) (simp add: assms)
    then show ?thesis using wrap_current_line_x by (fastforce simp: surely_iff moved_def)
  qed
  have f: "moved s (s\<lparr>sc_wrap_flag := f\<rparr>)" "sc_cursor_x s \<le> sl_length (current_line (s\<lparr>sc_wrap_flag := f\<rparr>))" for f
    using assms by (simp_all add: moved_flag)
  have "surely (\<lambda>t. moved s t \<and> sc_cursor_x t \<le> sl_length (current_line t)) (Inr (s\<lparr>sc_wrap_flag := f\<rparr>))" for f
    using f by simp
  moreover have "surely (\<lambda>t. moved s t \<and> sc_cursor_x t \<le> sl_length (current_line t)) (Inr s)" using assms moved_refl by simp
  ultimately show ?thesis using w unfolding wrap_before_def by presburger
qed

lemma advance_cursor_ok: "screen_ok s \<Longrightarrow> m < columns s \<Longrightarrow> moved s (advance_cursor m s)"
  by (auto simp: advance_cursor_def moved_def intro!: screen_ok_x dest: screen_okD(6))

lemma print_glyph_ok:
  assumes s: "screen_ok s" and x: "sc_cursor_x s \<le> sl_length (current_line s)"
  shows "surely (moved s) (print_glyph c s)"
proof -
  define m where "m = print_margin s"
  have m: "m < columns s" using print_margin_lt [of s] screen_okD(1) [OF s] by (simp add: m_def)
  have rest: "surely (moved s) (andthen (store_char c t) (\<lambda>s2. let s3 = advance_cursor m s2 in if w then wrap_current_line s3 else Inr s3))"
    if t: "moved s t" "sc_cursor_x t \<le> sl_length (current_line t)" for t w
  proof -
    have "surely (moved t) (store_char c t)" using t by (intro store_char_ok) (auto simp: moved_def)
    then have 1: "surely (moved s) (store_char c t)" by (rule surely_mono) (rule moved_trans [OF t(1)])
    have 2: "surely (moved s) (let s3 = advance_cursor m u in if w then wrap_current_line s3 else Inr s3)" if u: "moved s u" for u
    proof -
      have a: "moved s (advance_cursor m u)"
        using advance_cursor_ok [of u m] m moved_columns [OF u] u moved_trans by (metis moved_ok)
      have "surely (moved s) (wrap_current_line (advance_cursor m u))"
        by (rule surely_mono [OF wrap_current_line_ok [OF moved_ok [OF a]] moved_trans [OF a]])
      then show ?thesis using a by (simp add: Let_def)
    qed
    show ?thesis by (rule surely_andthen [OF 1 2])
  qed
  show ?thesis unfolding print_glyph_def Let_def m_def [symmetric]
    by (rule surely_andthen [OF wrap_before_ok [OF s x]]) (elim conjE, rule rest [unfolded Let_def])
qed

lemma print_character_ok:
  assumes s: "screen_ok s"
  shows "surely (moved s) (print_character c s)"
  unfolding print_character_def
proof (rule surely_andthen [OF pad_current [OF s]], elim conjE)
  fix ln assume ln: "line_ok (columns s) ln" "sc_cursor_x s \<le> sl_length ln"
  have a: "moved s (set_current ln s)" by (rule set_current_ok [OF s ln(1)])
  have "surely (moved (set_current ln s)) (print_glyph c' (set_current ln s))" for c'
    by (rule print_glyph_ok) (use a ln s in \<open>auto simp: moved_def current_line_set_current\<close>)
  then have "surely (moved s) (print_glyph c' (set_current ln s))" for c'
    by (rule surely_mono) (rule moved_trans [OF a])
  then show "surely (moved s) (let s1 = set_current ln s in if c = 7 \<or> c = 0 \<and> \<not> sc_display_null s then Inr s1
      else print_glyph (if c = 0 then 32 else c) s1)" using a by (simp add: Let_def)
qed

section \<open>The cursor\<close>

lemma up_loop_ok: "screen_ok s \<Longrightarrow> surely (moved s) (up_loop n honor s)"
proof (induction n arbitrary: s)
  case (Suc n)
  show ?case
  proof (cases "0 < sc_cursor_y s")
    case True
    let ?t = "s\<lparr>sc_cursor_y := sc_cursor_y s - 1, sc_current := sc_current s - 1\<rparr>"
    have c: "0 < sc_current s" using Suc.prems True by (simp add: screen_ok_def cursor_ok_def)
    have t: "moved s ?t"
    proof (rule screen_ok_cases [OF Suc.prems])
      fix L k assume a: "s = with_lines L k s" "geometry_ok s" "lines_ok (columns s) L" "k = (length L - 1 - last_row s) + sc_cursor_y s"
        "k < length L" "sc_cursor_x s < columns s"
      have "?t = with_lines L (k - 1) (s\<lparr>sc_cursor_y := sc_cursor_y s - 1\<rparr>)"
        by (subst a(1), subst a(1), subst a(1)) (simp add: with_lines_def)
      then show ?thesis using a(2-6) True by (simp add: moved_def screen_ok_with_lines)
    qed
    have "surely (moved s) (up_loop n honor ?t)"
      by (rule surely_mono [OF Suc.IH [OF moved_ok [OF t]] moved_trans [OF t]])
    moreover have "surely (moved s) (up_loop n honor s)" by (rule Suc.IH [OF Suc.prems])
    ultimately show ?thesis using c moved_refl [OF Suc.prems] by simp
  next
    case False
    then show ?thesis using Suc moved_refl [OF Suc.prems] by simp
  qed
qed (simp add: moved_refl)

lemma clear_wrap_flag_ok: "screen_ok s \<Longrightarrow> moved s (clear_wrap_flag n s)"
  by (simp add: clear_wrap_flag_def moved_def)

lemma after_move: "moved s t \<Longrightarrow> surely (moved t) r \<Longrightarrow> surely (moved s) r"
  by (erule surely_mono) (rule moved_trans)

lemma cursor_up_ok: "screen_ok s \<Longrightarrow> surely (moved s) (cursor_up n honor s)"
  unfolding cursor_up_def
  by (rule after_move [OF clear_wrap_flag_ok]) (auto intro: up_loop_ok moved_ok clear_wrap_flag_ok)

lemma color_up_to_ok: "line_ok n ln \<Longrightarrow> m \<le> n \<Longrightarrow> n \<le> Q_MAX_LINE_LENGTH \<Longrightarrow> surely (line_ok n) (color_up_to m a ln)"
proof -
  have "length (fold (\<lambda>i cs. cs[i := a]) is cs) = length cs" for "is" and cs :: "cattr list"
    by (induction "is" arbitrary: cs) auto
  then show "line_ok n ln \<Longrightarrow> m \<le> n \<Longrightarrow> n \<le> Q_MAX_LINE_LENGTH \<Longrightarrow> ?thesis"
    by (auto simp: color_up_to_def line_ok_def)
qed

lemma down_one_ok:
  assumes "screen_ok s" "sc_cursor_y s < last_row s"
  shows "surely (moved s) (down_one s)"
proof (rule screen_ok_cases [OF assms(1)])
  fix L k assume a: "s = with_lines L k s" "room s" "lines_ok (columns s) L" "sc_pin s = None" "geometry_ok s"
    "k = (length L - 1 - last_row s) + sc_cursor_y s" "k < length L" "sc_cursor_x s < columns s" "sc_lines s = L" "sc_current s = k"
  let ?y = "s\<lparr>sc_cursor_y := sc_cursor_y s + 1\<rparr>"
  show ?thesis
  proof (cases "Suc k < length L")
    case True
    have "s\<lparr>sc_current := Suc k, sc_cursor_y := sc_cursor_y s + 1\<rparr> = with_lines L (Suc k) ?y"
      by (subst a(1), subst a(1)) (simp add: with_lines_def)
    moreover have "moved s (with_lines L (Suc k) ?y)" using a True by (simp add: moved_def screen_ok_with_lines)
    ultimately show ?thesis using True a(9,10) by (simp add: down_one_def)
  next
    case False
    then have k: "length L = Suc k" "length L \<le> last_row s" "sc_cursor_y s = k" using a(6,7) assms(2) by auto
    have y: "?y = with_lines L k ?y" using a(1) by (metis with_lines_update(2))
    have n: "new_scrollback_line ?y = Inr (with_lines (L @ [blank_line s]) k ?y)"
      by (subst y, subst new_line_in_screen) (use a(2,7) k(2) in auto)
    let ?u = "with_lines (L @ [blank_line s]) (Suc k) ?y"
    have u: "screen_ok ?u" "fixed_parts ?u = fixed_parts s"
      using a(3,5,7,8) k lines_ok_append [OF a(3), of "[blank_line s]"] by (auto simp: screen_ok_with_lines line_ok_blank)
    have cl: "surely (line_ok (columns s)) (color_up_to (sc_cursor_x s) (console_text s) (current_line ?u))"
      using screen_okD(10) [OF u(1)] screen_okD(6) [OF u(1)] columns_lt [OF a(5)] by (intro color_up_to_ok) auto
    have "surely (moved s) (Inr (set_current ln ?u))" if "line_ok (columns s) ln" for ln
      using set_current_ok [OF u(1), of ln] that u(2) by (simp add: moved_def)
    then show ?thesis using False a(9,10) n cl
      by (simp add: down_one_def Let_def) (erule surely_andthen, simp)
  qed
qed

lemma fixed_rows: "fixed_parts t = fixed_parts s \<Longrightarrow> last_row t = last_row s"
  by (simp add: fixed_parts_def last_row_def)

lemma down_loop_ok: "screen_ok s \<Longrightarrow> surely (moved s) (down_loop n honor s)"
proof (induction n arbitrary: s)
  case (Suc n)
  have b: "sc_region_bottom s \<le> last_row s" using screen_okD(1) [OF Suc.prems] by (simp add: geometry_ok_def)
  have "surely (moved s) (andthen (down_one s) (down_loop n honor))" if "sc_cursor_y s < last_row s"
    by (rule surely_moved_andthen [OF down_one_ok [OF Suc.prems that] Suc.IH])
  then show ?case using b Suc.IH [OF Suc.prems] moved_refl [OF Suc.prems] by auto
qed (simp add: moved_refl)

lemma cursor_down_ok: "screen_ok s \<Longrightarrow> surely (moved s) (cursor_down n honor s)"
  unfolding cursor_down_def
  by (rule after_move [OF clear_wrap_flag_ok]) (auto intro: down_loop_ok moved_ok clear_wrap_flag_ok)

lemma cursor_left_ok: "screen_ok s \<Longrightarrow> moved s (cursor_left n honor s)"
  by (auto simp: cursor_left_def Let_def clear_wrap_flag_def moved_def intro!: screen_ok_x dest: screen_okD(6))

lemma right_loop_ok: "screen_ok s \<Longrightarrow> m < columns s \<Longrightarrow> surely (moved s) (right_loop n m s)"
proof (induction n arbitrary: s)
  case (Suc n)
  let ?ln = "current_line s"
  let ?u = "set_current ((put_cell (sl_length ?ln) 32 (sc_color s) ?ln)\<lparr>sl_length := sl_length ?ln + 1\<rparr>) s"
  have x: "moved t (t\<lparr>sc_cursor_x := sc_cursor_x s + 1\<rparr>)" if "moved s t" "sc_cursor_x s < m" for t
    using that Suc.prems moved_columns [OF that(1)] by (auto simp: moved_def intro!: screen_ok_x)
  have loop: "surely (moved s) (right_loop n m t)" if "moved s t" for t
    using after_move [OF that Suc.IH] that Suc.prems moved_columns [OF that] by (simp add: moved_ok)
  have u: "moved s ?u" if "sl_length ?ln \<le> sc_cursor_x s"
    using that screen_okD(6,10) [OF Suc.prems(1)] by (intro set_current_ok [OF Suc.prems(1)]) (auto simp: line_ok_def)
  have "sl_length ?ln < Q_MAX_LINE_LENGTH" if "sl_length ?ln \<le> sc_cursor_x s"
    using that screen_okD(7) [OF Suc.prems(1)] by simp
  then show ?case using loop [OF moved_refl [OF Suc.prems(1)]] loop [OF moved_trans [OF u x [OF u]]]
      loop [OF x [OF moved_refl [OF Suc.prems(1)]]] by (simp add: Let_def)
qed (simp add: moved_refl)

lemma cursor_right_ok: "screen_ok s \<Longrightarrow> surely (moved s) (cursor_right n honor s)"
proof -
  assume s: "screen_ok s"
  have c: "moved s (clear_wrap_flag n s)" by (rule clear_wrap_flag_ok [OF s])
  have "cursor_margin s < columns (clear_wrap_flag n s)" using cursor_margin_lt [of s] screen_okD(1) [OF s] moved_columns [OF c] by simp
  then have "surely (moved (clear_wrap_flag n s)) (right_loop n (cursor_margin s) (clear_wrap_flag n s))"
    by (rule right_loop_ok [OF moved_ok [OF c]])
  then show ?thesis using c after_move [OF c] by (simp add: cursor_right_def Let_def)
qed

lemma cursor_position_ok: "screen_ok s \<Longrightarrow> surely (moved s) (cursor_position row col s)"
proof -
  assume s: "screen_ok s"
  have lt: "sc_WIDTH s - 1 < columns s" using screen_okD(1) [OF s] by (auto simp: geometry_ok_def columns_def)
  have "surely (moved s) (andthen (if sc_cursor_y (s\<lparr>sc_cursor_x := x\<rparr>) < r then cursor_down (r - sc_cursor_y (s\<lparr>sc_cursor_x := x\<rparr>)) False (s\<lparr>sc_cursor_x := x\<rparr>)
      else if r < sc_cursor_y (s\<lparr>sc_cursor_x := x\<rparr>) then cursor_up (sc_cursor_y (s\<lparr>sc_cursor_x := x\<rparr>) - r) False (s\<lparr>sc_cursor_x := x\<rparr>)
      else Inr (s\<lparr>sc_cursor_x := x\<rparr>)) (\<lambda>s2. Inr (s2\<lparr>sc_wrap_flag := False\<rparr>)))" (is "surely _ (andthen ?r _)") if "x < columns s" for x r
  proof -
    have t: "moved s (s\<lparr>sc_cursor_x := x\<rparr>)" using s that by (simp add: moved_def screen_ok_x)
    have "surely (moved s) ?r"
      using after_move [OF t cursor_down_ok [OF moved_ok [OF t]]] after_move [OF t cursor_up_ok [OF moved_ok [OF t]]] t by simp
    then show ?thesis by (rule surely_moved_andthen) (simp add: moved_flag)
  qed
  note main = this
  show ?thesis unfolding cursor_position_def Let_def
    by (rule main) (use lt cursor_margin_lt [OF screen_okD(1) [OF s]] in auto)
qed

end
