(* ===== verification/Screen_Scroll.thy ===== *)
theory Screen_Scroll
  imports Screen_Moves
begin

text \<open>
  Erasing, scrolling and the line feeds keep the invariant.  They walk over the lines with
  \<open>q_scrollback_current\<close> or with a pointer of their own, so that the invariant of the cursor does
  not hold on the way; what holds is said of the lines of \<open>with_lines\<close>.
\<close>

section \<open>Other lines under the same cursor\<close>

lemma moved_lines:
  assumes "screen_ok s" "lines_ok (columns s) M" "length (sc_lines s) \<le> length M"
    "length M \<le> max (length (sc_lines s)) (last_row s + 1)"
  shows "moved s (with_lines M (sc_current s) s)"
  using assms by (simp add: moved_def screen_ok_with_lines) (auto simp: screen_ok_def cursor_ok_def)

lemma lines_length_pos: "lines_ok n L \<Longrightarrow> 0 < length L"
  by (simp add: lines_ok_def)

lemma set_line_with_lines: "set_line i ln (with_lines L k s) = with_lines (L[i := ln]) k s"
  by (simp add: set_line_def with_lines_def)

lemma set_current_with_lines: "set_current ln (with_lines L k s) = with_lines (L[k := ln]) k s"
  by (simp add: set_current_def set_line_with_lines)

lemma current_line_with_lines: "current_line (with_lines L k s) = L ! k"
  by (simp add: current_line_def)

text \<open>The number of lines when the screen is full, and the index of its top line.\<close>

definition rows :: "screen \<Rightarrow> scrolline list \<Rightarrow> nat" where
  "rows s L = max (length L) (last_row s + 1)"

definition top_line :: "screen \<Rightarrow> scrolline list \<Rightarrow> nat" where
  "top_line s L = length L - 1 - last_row s"

lemma top_line_rows: "top_line s L + last_row s < rows s L"
  by (auto simp: top_line_def rows_def)

lemma top_line_lt: "lines_ok n L \<Longrightarrow> top_line s L < length L"
  by (auto simp: top_line_def dest: lines_length_pos)

lemma rows_extend: "m \<le> rows s L \<Longrightarrow> rows s (grown m s L) = rows s L"
  by (auto simp: rows_def)

lemma rows_pin [simp]: "rows (s\<lparr>sc_pin := p\<rparr>) L = rows s L"
  by (simp add: rows_def)

lemma rows_le: "i < rows s L \<Longrightarrow> i \<le> max (length L - 1) (last_row s)"
  by (auto simp: rows_def)

lemma length_extend_rows: "m \<le> rows s L \<Longrightarrow> length L \<le> length (grown m s L) \<and> length (grown m s L) \<le> rows s L"
  by (auto simp: rows_def)

lemma walk_down_rows:
  "room s \<Longrightarrow> i < length L \<Longrightarrow> i + n < rows s L \<Longrightarrow> walk_down n i (with_lines L k s) = Inr (i + n, with_lines (grown (i + n + 1) s L) k s)"
  by (rule walk_down_ok) (assumption | rule rows_le)+

lemma find_top_rows: "room s \<Longrightarrow> find_top_scrollback_line (with_lines L k s) = Inr (top_line s L)"
  by (simp add: find_top_ok top_line_def)

section \<open>Erasing\<close>

lemma fit_length_ok: "length (sl_chars ln) = Q_MAX_LINE_LENGTH \<Longrightarrow> length (sl_colors ln) = Q_MAX_LINE_LENGTH \<Longrightarrow> w \<le> n \<Longrightarrow>
    line_ok n (fit_length w end_col ln)"
  by (simp add: fit_length_def line_ok_def Let_def)

lemma fill_line_lines:
  assumes "sc_WIDTH s \<le> columns s" "lines_ok (columns s) L" "k < length L" "end_col < Q_MAX_LINE_LENGTH"
  shows "\<exists>ln. fill_line_with_character a end_col c hp (with_lines L k s) = Inr (with_lines (L[k := ln]) k s) \<and> line_ok (columns s) ln"
proof (cases "end_col < a")
  case True
  then show ?thesis using lines_ok_nth [OF assms(2,3)]
    by (intro exI [of _ "L ! k"]) (simp add: fill_line_with_character_def)
next
  case False
  have "line_ok (columns s) (L ! k)" by (rule lines_ok_nth [OF assms(2,3)])
  then have "surely (line_ok (max a (columns s))) (pad_line a (console_text s) (L ! k))"
    using pad_line_surely [of "columns s" "L ! k" a "max a (columns s)" "console_text s"] False assms(4)
    by (auto elim!: surely_mono)
  then obtain ln where ln: "pad_line a (console_text s) (L ! k) = Inr ln" "line_ok (max a (columns s)) ln"
    by (auto simp: surely_iff)
  moreover have "line_ok (columns s) (fit_length (sc_WIDTH s) end_col (fold (fill_cell c (erase_attr s) hp) is ln))" for "is"
    by (rule fit_length_ok) (use ln(2) assms(1) in \<open>simp_all add: line_ok_def\<close>)
  ultimately show ?thesis using False assms(4)
    by (simp add: fill_line_with_character_def current_line_with_lines set_current_with_lines del: upt_Suc) blast
qed

lemma erase_line_lines:
  assumes "sc_WIDTH s \<le> columns s" "lines_ok (columns s) L" "k < length L" "b < Q_MAX_LINE_LENGTH"
  shows "\<exists>M. erase_line a b hp (with_lines L k s) = Inr (with_lines M k s) \<and> lines_ok (columns s) M \<and> length M = length L"
  using fill_line_lines [OF assms, of a 32 hp] lines_ok_update [OF assms(2)] unfolding erase_line_def by fastforce

lemma erase_line_ok:
  assumes "screen_ok s" "b < Q_MAX_LINE_LENGTH"
  shows "surely (moved s) (erase_line a b hp s)"
proof -
  obtain M where M: "erase_line a b hp (with_lines (sc_lines s) (sc_current s) s) = Inr (with_lines M (sc_current s) s)"
    "lines_ok (columns s) M" "length M = length (sc_lines s)"
    using erase_line_lines [of s "sc_lines s" "sc_current s" b a hp] assms screen_okD(4,5) [OF assms(1)] by (auto simp: columns_def)
  moreover have "moved s (with_lines M (sc_current s) s)"
    by (rule moved_lines [OF assms(1) M(2)]) (simp_all add: M(3))
  ultimately show ?thesis using screen_okD(9) [OF assms(1)] by simp
qed

lemma erase_rows_lines:
  assumes "room s" "sc_WIDTH s \<le> columns s" "b < Q_MAX_LINE_LENGTH"
  shows "lines_ok (columns s) L \<Longrightarrow> k < length L \<Longrightarrow> k + n < rows s L \<Longrightarrow>
    \<exists>M. erase_rows n a b hp (with_lines L k s) = Inr (with_lines M (k + n) s) \<and> lines_ok (columns s) M \<and>
        length L \<le> length M \<and> length M \<le> rows s L"
proof (induction n arbitrary: L k)
  case 0
  then show ?case using erase_line_lines [OF assms(2) 0(1,2) assms(3), of a hp] by (auto simp: rows_def)
next
  case (Suc n)
  obtain M where M: "erase_line a b hp (with_lines L k s) = Inr (with_lines M k s)" "lines_ok (columns s) M" "length M = length L"
    using erase_line_lines [OF assms(2) Suc.prems(1,2) assms(3)] by blast
  have r: "rows s M = rows s L" using M(3) by (simp add: rows_def)
  have e: "ensure_next (with_lines M k s) = Inr (with_lines (grown (Suc (Suc k)) s M) k s)"
    by (rule ensure_next_ok [OF assms(1)]) (use M(3) r Suc.prems rows_le [of "Suc k" s M] in auto)
  let ?E = "grown (Suc (Suc k)) s M"
  have E: "rows s ?E = rows s L" "length L \<le> length ?E"
    using rows_extend [of "Suc (Suc k)" s M] r M(3) Suc.prems(3) by simp_all
  have "\<exists>N. erase_rows n a b hp (with_lines ?E (Suc k) s) = Inr (with_lines N (Suc k + n) s) \<and>
      lines_ok (columns s) N \<and> length ?E \<le> length N \<and> length N \<le> rows s ?E"
    by (rule Suc.IH) (use E Suc.prems(3) lines_ok_extend [OF M(2)] in simp_all)
  then obtain N where N: "erase_rows n a b hp (with_lines ?E (Suc k) s) = Inr (with_lines N (Suc k + n) s)"
      "lines_ok (columns s) N" "length ?E \<le> length N" "length N \<le> rows s ?E" by blast
  have "length L \<le> length N" "length N \<le> rows s L" using N(3,4) E by linarith+
  then show ?case using M(1) e N(1,2) by (intro exI [of _ N]) simp
qed

lemma restore_with_lines: "restore_current (with_lines M k (s\<lparr>sc_pin := Some i\<rparr>)) = with_lines M i (s\<lparr>sc_pin := None\<rparr>)"
  unfolding restore_current_def with_lines_def by simp

lemma pin_none [simp]: "sc_pin s = None \<Longrightarrow> s\<lparr>sc_pin := None\<rparr> = s"
  by (cases s) simp

lemma erase_screen_lines:
  assumes "room s" "sc_pin s = None" "sc_WIDTH s \<le> columns s" "lines_ok (columns s) L"
    "end_row \<le> last_row s" "end_col < Q_MAX_LINE_LENGTH"
  shows "\<exists>M. erase_screen start_row start_col end_row end_col hp (with_lines L k s) = Inr (with_lines M k s) \<and>
    lines_ok (columns s) M \<and> length L \<le> length M \<and> length M \<le> rows s L"
proof (cases "end_row < start_row \<or> end_col < start_col")
  case True
  then show ?thesis using assms(4) by (intro exI [of _ L]) (simp add: erase_screen_def rows_def)
next
  case False
  let ?p = "s\<lparr>sc_pin := Some k\<rparr>" and ?i = "top_line s L + start_row"
  let ?L = "grown (?i + 1) s L"
  have i: "?i < rows s L" "?i + (end_row - start_row) < rows s L" using top_line_rows [of s L] False assms(5) by linarith+
  have w: "walk_down start_row (top_line s L) (with_lines L k ?p) = Inr (?i, with_lines ?L k ?p)"
    using walk_down_rows [of ?p "top_line s L" L start_row k] assms(1) i(1) top_line_lt [OF assms(4)] by simp
  have r: "rows s ?L = rows s L" "length L \<le> length ?L" using rows_extend [of "?i + 1" s L] i(1) by simp_all
  have "\<exists>M. erase_rows (end_row - start_row) start_col end_col hp (with_lines ?L ?i ?p) =
      Inr (with_lines M (?i + (end_row - start_row)) ?p) \<and> lines_ok (columns ?p) M \<and> length ?L \<le> length M \<and> length M \<le> rows ?p ?L"
    by (rule erase_rows_lines) (use assms(1,3,6) lines_ok_extend [OF assms(4)] r(1) i in simp_all)
  then obtain M where M: "erase_rows (end_row - start_row) start_col end_col hp (with_lines ?L ?i ?p) =
      Inr (with_lines M (?i + (end_row - start_row)) ?p)" "lines_ok (columns s) M" "length ?L \<le> length M" "length M \<le> rows s L"
    unfolding rows_pin r(1) pin_simps by blast
  have "erase_screen start_row start_col end_row end_col hp (with_lines L k s) = Inr (with_lines M k s)"
    using False w M(1) assms(1,2) unfolding erase_screen_def
    by (simp add: find_top_rows restore_with_lines)
  then show ?thesis using M(2-4) r(2) by (intro exI [of _ M]) linarith
qed

lemma screen_width: "screen_ok s \<Longrightarrow> sc_WIDTH s \<le> columns s"
  by (simp add: columns_def)

lemma lines_lemma:
  assumes s: "screen_ok s"
    and f: "\<exists>M. f (with_lines (sc_lines s) (sc_current s) s) = Inr (with_lines M (sc_current s) s) \<and> lines_ok (columns s) M \<and>
      length (sc_lines s) \<le> length M \<and> length M \<le> rows s (sc_lines s)"
  shows "surely (moved s) (f s)"
proof -
  obtain M where "f (with_lines (sc_lines s) (sc_current s) s) = Inr (with_lines M (sc_current s) s)" "lines_ok (columns s) M"
    "length (sc_lines s) \<le> length M" "length M \<le> rows s (sc_lines s)" using f by blast
  then show ?thesis using moved_lines [OF s] screen_okD(9) [OF s] by (simp add: rows_def)
qed

lemma erase_screen_ok:
  assumes "screen_ok s" "end_row \<le> last_row s" "end_col < Q_MAX_LINE_LENGTH"
  shows "surely (moved s) (erase_screen start_row start_col end_row end_col hp s)"
  by (rule lines_lemma [OF assms(1)], rule erase_screen_lines)
    (use assms screen_okD [OF assms(1)] screen_width in \<open>auto simp: geometry_ok_def\<close>)

section \<open>Scrolling\<close>

lemma copy_cells_ok: "line_ok n src \<Longrightarrow> line_ok m dst \<Longrightarrow> b \<le> Q_MAX_LINE_LENGTH \<Longrightarrow> line_ok n (copy_cells a b src dst)"
  by (cases "a \<le> b") (auto simp: line_ok_def copy_cells_def)

lemma copied_cells_ok: "line_ok n src \<Longrightarrow> line_ok n dst \<Longrightarrow> b \<le> Q_MAX_LINE_LENGTH \<Longrightarrow> line_ok n (copy_cells a b src (pad_target sh c at dst))"
  by (rule copy_cells_ok [of _ _ n]) (simp_all add: pad_target_def line_ok_def)

lemma copy_up_lines:
  assumes "b \<le> Q_MAX_LINE_LENGTH"
  shows "lines_ok (columns s) L \<Longrightarrow> i \<le> j \<Longrightarrow> j < length L \<Longrightarrow>
    \<exists>M. copy_up n i j a b (with_lines L k s) = with_lines M k s \<and> lines_ok (columns s) M \<and> length M = length L"
proof (induction n arbitrary: L i j)
  case 0
  then show ?case by auto
next
  case (Suc n)
  let ?ln = "copy_cells a b (L ! j) (pad_target (sl_length (L ! i) < sl_length (L ! j)) b (console_text s) (L ! i))"
  have "line_ok (columns s) ?ln"
    using lines_ok_nth [OF Suc.prems(1)] Suc.prems(2,3) assms by (auto intro!: copied_cells_ok)
  then have ok: "lines_ok (columns s) (L[i := ?ln])" by (rule lines_ok_update [OF Suc.prems(1)])
  show ?case using Suc.IH [OF ok, of "Suc i" "Suc j"] ok Suc.prems(2,3)
    by (auto simp: Let_def set_line_with_lines)
qed

lemma copy_down_lines:
  assumes "b \<le> Q_MAX_LINE_LENGTH"
  shows "lines_ok (columns s) L \<Longrightarrow> j \<le> i \<Longrightarrow> i < length L \<Longrightarrow>
    \<exists>M. copy_down n i j a b (with_lines L k s) = with_lines M k s \<and> lines_ok (columns s) M \<and> length M = length L"
proof (induction n arbitrary: L i j)
  case 0
  then show ?case by auto
next
  case (Suc n)
  let ?ln = "copy_cells a b (L ! j) (pad_target (sl_length (L ! i) < a) b (console_text s) (L ! i))"
  have "line_ok (columns s) ?ln"
    using lines_ok_nth [OF Suc.prems(1)] Suc.prems(2,3) assms by (auto intro!: copied_cells_ok)
  then have ok: "lines_ok (columns s) (L[i := ?ln])" by (rule lines_ok_update [OF Suc.prems(1)])
  show ?case using Suc.IH [OF ok, of "j - 1" "i - 1"] Suc.prems(2,3)
    by (auto simp: Let_def set_line_with_lines)
qed

lemma rectangle_scroll_up_lines:
  assumes "room s" "sc_pin s = None" "sc_WIDTH s \<le> columns s" "lines_ok (columns s) L"
    "last_r \<le> last_row s" "right \<le> Q_MAX_LINE_LENGTH"
  shows "\<exists>M. rectangle_scroll_up row left last_r right n (with_lines L k s) = Inr (with_lines M k s) \<and>
    lines_ok (columns s) M \<and> length L \<le> length M \<and> length M \<le> rows s L"
proof (cases "last_r \<le> row \<or> right \<le> left")
  case True
  then show ?thesis using assms(4) by (intro exI [of _ L]) (simp add: rectangle_scroll_up_def rows_def)
next
  case outer: False
  have r: "right - 1 < Q_MAX_LINE_LENGTH" using outer assms(6) by linarith
  show ?thesis
  proof (cases "last_r + 1 - row \<le> n")
    case True
    then show ?thesis using outer erase_screen_lines [OF assms(1-5) r] by (simp add: rectangle_scroll_up_def)
  next
    case False
    let ?i = "top_line s L + row"
    let ?p = "s\<lparr>sc_pin := Some ?i\<rparr>" and ?L = "grown (?i + 1) s L"
    let ?M = "grown (?i + n + 1) s ?L"
    have i: "?i < rows s L" "?i + n < rows s L" using top_line_rows [of s L] False outer assms(5) by linarith+
    have w1: "walk_down row (top_line s L) (with_lines L k s) = Inr (?i, with_lines ?L k s)"
      using walk_down_rows [of s "top_line s L" L row k] assms(1) i(1) top_line_lt [OF assms(4)] by simp
    have rL: "rows s ?L = rows s L" "length L \<le> length ?L" "?i < length ?L" using rows_extend [of "?i + 1" s L] i(1) by simp_all
    have w2: "walk_down n ?i (with_lines ?L k ?p) = Inr (?i + n, with_lines ?M k ?p)"
      using walk_down_rows [of ?p ?i ?L n k] assms(1) i(2) rL(1,3) by simp
    have rM: "rows s ?M = rows s L" "length ?L \<le> length ?M" "?i + n < length ?M"
      using rows_extend [of "?i + n + 1" s ?L] i(2) rL(1) by simp_all
    have lM: "lines_ok (columns s) ?M" using assms(4) by (auto intro!: lines_ok_extend)
    obtain N where N: "copy_up (last_r + 1 - row - n) ?i (?i + n) left right (with_lines ?M k s) = with_lines N k s"
      "lines_ok (columns s) N" "length N = length ?M"
      using copy_up_lines [OF assms(6) lM le_add1 rM(3)] by metis
    have rN: "rows s N = rows s L" using rM(1) N(3) by (simp add: rows_def)
    have e: "row + (last_r + 1 - row - n) = Suc last_r - n" using outer False by linarith
    obtain M where M: "erase_screen (Suc last_r - n) left last_r (right - 1) False (with_lines N k s) = Inr (with_lines M k s)"
      "lines_ok (columns s) M" "length N \<le> length M" "length M \<le> rows s L"
      using erase_screen_lines [OF assms(1-3) N(2) assms(5) r, unfolded rN] by metis
    have p: "(with_lines ?M k ?p)\<lparr>sc_pin := None\<rparr> = with_lines ?M k s" using assms(2) by simp
    have "rectangle_scroll_up row left last_r right n (with_lines L k s) = Inr (with_lines M k s)"
      using outer False assms(6) unfolding rectangle_scroll_up_def
      by (simp add: find_top_rows assms(1) w1 [simplified] w2 [simplified] Let_def N(1) [simplified] M(1) [simplified] assms(2) e [simplified])
    then show ?thesis using M(2-4) N(3) rM(2) rL(2) by (intro exI [of _ M]) linarith
  qed
qed

lemma rectangle_scroll_down_lines:
  assumes "room s" "sc_pin s = None" "sc_WIDTH s \<le> columns s" "lines_ok (columns s) L"
    "last_r \<le> last_row s" "right \<le> Q_MAX_LINE_LENGTH"
  shows "\<exists>M. rectangle_scroll_down row left last_r right n (with_lines L k s) = Inr (with_lines M k s) \<and>
    lines_ok (columns s) M \<and> length L \<le> length M \<and> length M \<le> rows s L"
proof (cases "last_r \<le> row \<or> right \<le> left")
  case True
  then show ?thesis using assms(4) by (intro exI [of _ L]) (simp add: rectangle_scroll_down_def rows_def)
next
  case outer: False
  have r: "right - 1 < Q_MAX_LINE_LENGTH" using outer assms(6) by linarith
  show ?thesis
  proof (cases "last_r + 1 - row \<le> n")
    case True
    then show ?thesis using outer erase_screen_lines [OF assms(1-5) r] by (simp add: rectangle_scroll_down_def)
  next
    case False
    let ?i = "top_line s L + last_r"
    let ?M = "grown (?i + 1) s L"
    have i: "?i < rows s L" using top_line_rows [of s L] assms(5) by linarith
    have w: "walk_down last_r (top_line s L) (with_lines L k s) = Inr (?i, with_lines ?M k s)"
      using walk_down_rows [of s "top_line s L" L last_r k] assms(1) i top_line_lt [OF assms(4)] by simp
    have rM: "rows s ?M = rows s L" "length L \<le> length ?M" "?i < length ?M" using rows_extend [of "?i + 1" s L] i by simp_all
    have lM: "lines_ok (columns s) ?M" by (rule lines_ok_extend [OF assms(4)])
    have n: "n \<le> ?i" "row + n - 1 \<le> last_row s" using False outer assms(5) by linarith+
    obtain N where N: "copy_down (last_r + 1 - row - n) ?i (?i - n) left right (with_lines ?M k s) = with_lines N k s"
      "lines_ok (columns s) N" "length N = length ?M"
      using copy_down_lines [OF assms(6) lM diff_le_self rM(3)] by metis
    have rN: "rows s N = rows s L" using rM(1) N(3) by (simp add: rows_def)
    obtain M where M: "erase_screen row left (row + n - 1) (right - 1) False (with_lines N k s) = Inr (with_lines M k s)"
      "lines_ok (columns s) M" "length N \<le> length M" "length M \<le> rows s L"
      using erase_screen_lines [OF assms(1-3) N(2) n(2) r, unfolded rN] by metis
    have "length N \<le> rows s L" using rN by (metis max.cobounded1 rows_def)
    moreover have "rectangle_scroll_down row left last_r right n (with_lines L k s) = Inr (with_lines (if n = 0 then N else M) k s)"
      using outer False assms(6) n(1) N(1) unfolding rectangle_scroll_down_def
      by (cases "n = 0") (simp_all add: find_top_rows assms(1) w [simplified] Let_def M(1) [simplified])
    moreover have "length L \<le> length N" using N(3) rM(2) by (simp only:)
    ultimately show ?thesis using M(2-4) N(2) by (intro exI [of _ "if n = 0 then N else M"]) auto
  qed
qed

lemma region_scroll_ok:
  assumes s: "screen_ok s" and b: "bottom \<le> last_row s"
  shows "surely (moved s) (scrolling_region_scroll_up a bottom n s)" "surely (moved s) (scrolling_region_scroll_down a bottom n s)"
proof -
  have p: "sc_pin s = None" using screen_okD(1) [OF s] by (simp add: geometry_ok_def)
  note facts = screen_okD(3) [OF s] p screen_width [OF s] screen_okD(4) [OF s] b order_refl [of Q_MAX_LINE_LENGTH]
  show "surely (moved s) (scrolling_region_scroll_up a bottom n s)"
    unfolding scrolling_region_scroll_up_def by (rule lines_lemma [OF s]) (rule rectangle_scroll_up_lines [OF facts])
  show "surely (moved s) (scrolling_region_scroll_down a bottom n s)"
    unfolding scrolling_region_scroll_down_def by (rule lines_lemma [OF s]) (rule rectangle_scroll_down_lines [OF facts])
qed

lemma scroll_ok: "screen_ok s \<Longrightarrow> surely (moved s) (scroll_up n s)" "screen_ok s \<Longrightarrow> surely (moved s) (scroll_down n s)"
  unfolding scroll_up_def scroll_down_def by (rule region_scroll_ok, assumption, simp)+

section \<open>Line feeds\<close>

text \<open>The current line becomes the one in the row below, or the new one at the bottom.\<close>

lemma next_row_ok:
  assumes "screen_ok s" and y: "y = (if sc_cursor_y s < last_row s then sc_cursor_y s + 1 else sc_cursor_y s)"
  shows "surely (\<lambda>t. moved s (t\<lparr>sc_cursor_y := y, sc_current := Suc (sc_current t)\<rparr>)) (ensure_next s)"
proof (rule screen_ok_cases [OF assms(1)])
  fix L k assume s: "s = with_lines L k s" "room s" "lines_ok (columns s) L" "sc_pin s = None" "geometry_ok s"
    "k = (length L - 1 - last_row s) + sc_cursor_y s" "k < length L" "sc_cursor_x s < columns s"
  obtain M b j where M: "ensure_next (with_lines L k s) = Inr (with_lines M j (s\<lparr>sc_buffer_freed := b\<rparr>))" "lines_ok (columns s) M"
    "Suc j < length M" "Suc j = (length M - 1 - last_row s) + (if sc_cursor_y s < last_row s then sc_cursor_y s + 1 else sc_cursor_y s)"
    using ensure_next_row [OF s(2-4,6,7)] by blast
  have "ensure_next s = Inr (with_lines M j (s\<lparr>sc_buffer_freed := b\<rparr>))" using M(1) s(1) by simp
  then show ?thesis using M(2-4) s(5,8) by (simp add: moved_def screen_ok_with_lines y)
qed

lemma ensure_next_y: "ensure_next (s\<lparr>sc_cursor_y := y\<rparr>) = andthen (ensure_next s) (\<lambda>t. Inr (t\<lparr>sc_cursor_y := y\<rparr>))"
proof -
  have "find_top_scrollback_line (s\<lparr>sc_cursor_y := y\<rparr>) = find_top_scrollback_line s" by (simp add: find_top_scrollback_line_def)
  then show ?thesis
    by (cases "find_top_scrollback_line s")
      (auto simp: ensure_next_def new_scrollback_line_def Let_def buffer_full_def last_row_def free_line_def check_def)
qed

lemma linefeed_scroll_ok:
  assumes s: "screen_ok s" and y: "\<not> sc_cursor_y s < sc_region_bottom s"
  shows "surely (moved s) (linefeed_scroll s)"
proof (cases "whole_screen_region s")
  case True
  have yl: "sc_cursor_y s = last_row s" using True y screen_okD(8) [OF s] by (simp add: whole_screen_region_def)
  have "surely (moved s) (let s2 = t\<lparr>sc_current := Suc (sc_current t)\<rparr>
      in Inr (set_current ((current_line s2)\<lparr>sl_length := (if sc_reverse_video s2 then sc_WIDTH s2 else sc_cursor_x s2)\<rparr>) s2))"
    if t: "moved s (t\<lparr>sc_cursor_y := last_row s, sc_current := Suc (sc_current t)\<rparr>)" "sc_cursor_y t = last_row s" for t
  proof -
    let ?u = "t\<lparr>sc_current := Suc (sc_current t)\<rparr>"
    have u: "moved s ?u" using t by (cases t) simp
    have "line_ok (columns ?u) ((current_line ?u)\<lparr>sl_length := (if sc_reverse_video ?u then sc_WIDTH ?u else sc_cursor_x ?u)\<rparr>)"
      using screen_okD(6,10) [OF moved_ok [OF u]] by (auto simp: line_ok_def columns_def)
    then have "moved ?u (set_current ((current_line ?u)\<lparr>sl_length := (if sc_reverse_video ?u then sc_WIDTH ?u else sc_cursor_x ?u)\<rparr>) ?u)"
      by (rule set_current_ok [OF moved_ok [OF u]])
    then show ?thesis using moved_trans [OF u] by (simp add: Let_def)
  qed
  moreover have "surely (\<lambda>t. moved s (t\<lparr>sc_cursor_y := last_row s, sc_current := Suc (sc_current t)\<rparr>) \<and> sc_cursor_y t = last_row s) (ensure_next s)"
  proof (cases "ensure_next s")
    case (Inr t)
    have "s\<lparr>sc_cursor_y := last_row s\<rparr> = s" using yl by (cases s) auto
    then have t: "t\<lparr>sc_cursor_y := last_row s\<rparr> = t" using ensure_next_y [of "last_row s" s] Inr by simp
    have "sc_cursor_y t = last_row s" using arg_cong [OF t, of sc_cursor_y] by simp
    then show ?thesis using next_row_ok [OF s, of "last_row s"] yl Inr by simp
  qed (use next_row_ok [OF s, of "last_row s"] yl in simp)
  ultimately show ?thesis using True by (simp add: linefeed_scroll_def) (erule surely_andthen, blast)
next
  case False
  have "sc_region_bottom s \<le> last_row s" using screen_okD(1) [OF s] by (simp add: geometry_ok_def)
  then show ?thesis using False region_scroll_ok(1) [OF s] by (simp add: linefeed_scroll_def)
qed

lemma cursor_linefeed_ok:
  assumes s: "screen_ok s"
  shows "surely (moved s) (cursor_linefeed nl s)"
proof -
  have "surely (moved s) (if sc_cursor_y s < sc_region_bottom s
      then andthen (ensure_next (s\<lparr>sc_cursor_y := sc_cursor_y s + 1\<rparr>)) (\<lambda>s1. Inr (s1\<lparr>sc_current := Suc (sc_current s1)\<rparr>))
      else linefeed_scroll s)" (is "surely _ ?r")
  proof (cases "sc_cursor_y s < sc_region_bottom s")
    case True
    then have "sc_cursor_y s < last_row s" using screen_okD(1) [OF s] by (simp add: geometry_ok_def)
    then have "surely (\<lambda>t. moved s (t\<lparr>sc_cursor_y := sc_cursor_y s + 1, sc_current := Suc (sc_current t)\<rparr>)) (ensure_next s)"
      by (intro next_row_ok [OF s]) simp
    then show ?thesis using True by (auto simp: ensure_next_y surely_iff)
  qed (use linefeed_scroll_ok [OF s] in simp)
  then show ?thesis unfolding cursor_linefeed_def
    by (rule surely_moved_andthen) (auto simp: moved_def columns_def intro!: screen_ok_x dest: screen_okD(6))
qed

lemma cursor_carriage_return_ok:
  assumes s: "screen_ok s"
  shows "surely (moved s) (cursor_carriage_return s)"
proof -
  have x: "moved s (s\<lparr>sc_cursor_x := 0\<rparr>)" using s by (simp add: moved_def screen_ok_x columns_def)
  have "surely (moved s) (if sc_line_feed_on_cr s then cursor_linefeed False (s\<lparr>sc_cursor_x := 0\<rparr>) else Inr (s\<lparr>sc_cursor_x := 0\<rparr>))"
    using x after_move [OF x cursor_linefeed_ok [OF moved_ok [OF x]]] by simp
  then show ?thesis unfolding cursor_carriage_return_def Let_def by (rule surely_moved_andthen) (simp add: moved_flag)
qed

lemma linefeeds_ok: "screen_ok s \<Longrightarrow> surely (moved s) (linefeeds n s)"
proof (induction n arbitrary: s)
  case (Suc n)
  then show ?case using surely_moved_andthen [OF cursor_linefeed_ok [OF Suc.prems] Suc.IH] by simp
qed (simp add: moved_refl)

lemma screen_width_lt: "screen_ok s \<Longrightarrow> sc_WIDTH s - 1 < Q_MAX_LINE_LENGTH"
  using screen_okD(1) [of s] by (auto simp: geometry_ok_def)

lemma cursor_formfeed_ok:
  assumes s: "screen_ok s"
  shows "surely (moved s) (cursor_formfeed s)"
  unfolding cursor_formfeed_def
  by (rule surely_moved_andthen [OF linefeeds_ok [OF s]], rule surely_moved_andthen, rule erase_screen_ok)
    (auto intro: screen_width_lt [simplified] cursor_position_ok)

section \<open>Deleting\<close>

lemma delete_one_ok: "line_ok n ln \<Longrightarrow> x < Q_MAX_LINE_LENGTH \<Longrightarrow> line_ok n (delete_one x ln)"
  by (auto simp: line_ok_def delete_one_def)

lemma delete_character_ok:
  assumes s: "screen_ok s"
  shows "surely (moved s) (delete_character n s)"
proof -
  have "line_ok (columns s) ((delete_one (sc_cursor_x s) ^^ m) (current_line s))" for m
    by (induction m) (use screen_okD(7,10) [OF s] in \<open>simp_all add: delete_one_ok\<close>)
  then show ?thesis using screen_okD(7) [OF s] set_current_ok [OF s] by (simp add: delete_character_def)
qed

end
