(* ===== verification/Screen_History.thy ===== *)
theory Screen_History
  imports Screen_Scroll
begin

text \<open>
  What scrolling does to the lines: a line feed at the bottom of the screen keeps the history, and
  scrolling a region is the removal of its first lines.
\<close>

section \<open>A sample\<close>

text \<open>A screen of three rows of 80 columns with \<open>n\<close> lines, the cursor in column \<open>x\<close> of row \<open>y\<close>.\<close>

definition sample_screen :: "q_emulation \<Rightarrow> nat \<Rightarrow> nat \<Rightarrow> nat \<Rightarrow> screen" where
  "sample_screen em n x y =
     \<lparr>sc_lines = replicate n \<lparr>sl_length = x, sl_chars = replicate 256 32, sl_colors = replicate 256 A_NORMAL, sl_double_width = False,
                   sl_double_height = 0, sl_reverse_color = False\<rparr>,
      sc_current = y, sc_position = n - 1, sc_pin = None, sc_wrap_flag = False, sc_count = n, sc_max = 20000, sc_enabled = True,
      sc_buffer_freed = False, sc_HEIGHT = 4, sc_WIDTH = 80, sc_STATUS_HEIGHT = 1, sc_status_visible = True, sc_cursor_x = x,
      sc_cursor_y = y, sc_region_top = 0, sc_region_bottom = 2, sc_insert_mode = False, sc_line_wrap = True, sc_origin_mode = False,
      sc_reverse_video = False, sc_line_feed_on_cr = False, sc_assume_80_columns = True, sc_display_null = False,
      sc_wide_font = False, sc_emulation = em, sc_right_margin = -1, sc_color = A_NORMAL, sc_text_fg = 7, sc_text_bg = 0,
      sc_text_bold = False\<rparr>"

lemma sample_screen_ok: "x < 80 \<Longrightarrow> y < n \<Longrightarrow> n \<le> 3 \<Longrightarrow> screen_ok (sample_screen em n x y)"
  by (simp add: screen_ok_def geometry_ok_def scrollback_ok_def cursor_ok_def sample_screen_def columns_def last_row_def
      Q_MAX_LINE_LENGTH_def lines_ok_def line_ok_def)

section \<open>The line feed at the bottom\<close>

text \<open>The line a line feed adds.\<close>

definition added_line :: "screen \<Rightarrow> scrolline" where
  "added_line s = (blank_line s)\<lparr>sl_length := (if sc_reverse_video s then sc_WIDTH s else sc_cursor_x s)\<rparr>"

text \<open>
  C18.  With the scrollback on and no scrolling region set, a line feed in the last row adds one
  line below the screen and keeps all the others, except that the oldest one is dropped when the
  buffer is full; the cursor stays in its row and column, and the buffer does not outgrow its
  limit.
\<close>

theorem linefeed_keeps_history:
  assumes s: "screen_ok s" and w: "whole_screen_region s" "sc_cursor_y s = last_row s" "sc_enabled s"
  shows "\<exists>t. cursor_linefeed False s = Inr t \<and>
    sc_lines t = (if buffer_full s then tl (sc_lines s) else sc_lines s) @ [added_line s] \<and>
    sc_cursor_y t = last_row s \<and> sc_cursor_x t = sc_cursor_x s \<and> screen_ok t \<and>
    (0 < sc_max s \<and> sc_count s \<le> sc_max s \<longrightarrow> sc_count t \<le> sc_max s)"
proof -
  define L where "L = sc_lines s"
  have k: "sc_current s = length L - 1" "last_row s < length L" "sc_count s = length L" "sc_position s = length L - 1" "sc_pin s = None"
    using s w(2) by (auto simp: screen_ok_def cursor_ok_def scrollback_ok_def geometry_ok_def L_def)
  have r: "room s" "0 < last_row s" using screen_okD(3) [OF s] by (simp_all add: room_def)
  let ?M = "(if buffer_full s then tl L else L) @ [blank_line s]"
  let ?u = "s\<lparr>sc_lines := ?M, sc_position := length ?M - 1, sc_current := length ?M - 2, sc_count := length ?M\<rparr>"
  have "new_scrollback_line s = Inr ?u"
  proof (cases "buffer_full s")
    case True
    have "Suc 0 < length L" using k(2) r(2) by simp
    then show ?thesis using True k r w(3)
      by (cases L) (auto simp: new_scrollback_line_def find_top_ok free_line_def shift_index_def L_def [symmetric])
  next
    case False
    then show ?thesis using k r by (simp add: new_scrollback_line_def find_top_ok L_def [symmetric])
  qed
  moreover have "\<not> Suc (sc_current s) < length (sc_lines s)" using k(1,2) by (simp add: L_def [symmetric])
  ultimately have n: "ensure_next s = Inr ?u" by (simp add: ensure_next_def)
  have "1 \<le> length (tl L)" using k(2) r(2) by simp
  then have len: "2 \<le> length ?M" using k(2) r(2) by simp
  let ?v = "?u\<lparr>sc_current := Suc (sc_current ?u)\<rparr>"
  have cur: "sc_current ?v = length ?M - 1" using len by simp
  then have line: "current_line ?v = blank_line s" by (simp add: current_line_def nth_append)
  have "sc_lines (set_current (added_line s) ?v) = ?M[length ?M - 1 := added_line s]"
    unfolding set_current_def set_line_def cur by simp
  also have "\<dots> = (if buffer_full s then tl L else L) @ [added_line s]" by simp
  finally have lines: "sc_lines (set_current (added_line s) ?v) = (if buffer_full s then tl L else L) @ [added_line s]" .
  have "linefeed_scroll s = Inr (set_current (added_line s) ?v)"
    using w(1) n line by (simp add: linefeed_scroll_def Let_def added_line_def)
  moreover have "\<not> sc_cursor_y s < sc_region_bottom s" using w(1,2) by (simp add: whole_screen_region_def)
  ultimately have t: "cursor_linefeed False s = Inr ((set_current (added_line s) ?v)\<lparr>sc_wrap_flag := False\<rparr>)"
    by (simp add: cursor_linefeed_def set_current_def set_line_def)
  have "screen_ok ((set_current (added_line s) ?v)\<lparr>sc_wrap_flag := False\<rparr>)"
    using cursor_linefeed_ok [OF s, of False] t by (simp add: moved_def)
  moreover have "length ?M \<le> sc_max s" if "0 < sc_max s" "sc_count s \<le> sc_max s"
    using that k(2,3) w(3) by (auto simp: buffer_full_def)
  ultimately show ?thesis using t lines w(2) k(3)
    by (simp add: set_current_def set_line_def L_def)
qed

theorem linefeed_keeps_history_witness:
  "\<exists>t. cursor_linefeed False (sample_screen Q_EMUL_ANSI 3 5 2) = Inr t \<and>
    sc_lines t = (if buffer_full (sample_screen Q_EMUL_ANSI 3 5 2) then tl (sc_lines (sample_screen Q_EMUL_ANSI 3 5 2))
                  else sc_lines (sample_screen Q_EMUL_ANSI 3 5 2)) @ [added_line (sample_screen Q_EMUL_ANSI 3 5 2)] \<and>
    sc_cursor_y t = last_row (sample_screen Q_EMUL_ANSI 3 5 2) \<and> sc_cursor_x t = sc_cursor_x (sample_screen Q_EMUL_ANSI 3 5 2) \<and> screen_ok t \<and>
    (0 < sc_max (sample_screen Q_EMUL_ANSI 3 5 2) \<and> sc_count (sample_screen Q_EMUL_ANSI 3 5 2) \<le> sc_max (sample_screen Q_EMUL_ANSI 3 5 2) \<longrightarrow>
     sc_count t \<le> sc_max (sample_screen Q_EMUL_ANSI 3 5 2))"
  by (rule linefeed_keeps_history [OF sample_screen_ok])
    (simp_all add: sample_screen_def whole_screen_region_def last_row_def)

section \<open>Scrolling a region\<close>


lemma fill_cells_all:
  assumes "length (sl_chars ln) = Q_MAX_LINE_LENGTH" "length (sl_colors ln) = Q_MAX_LINE_LENGTH"
  shows "n \<le> Q_MAX_LINE_LENGTH \<Longrightarrow> fold (fill_cell c a False) [0..<n] ln =
    ln\<lparr>sl_chars := replicate n c @ drop n (sl_chars ln), sl_colors := replicate n a @ drop n (sl_colors ln)\<rparr>"
proof (induction n)
  case (Suc n)
  have u: "(replicate n x @ drop n xs)[n := x] = replicate (Suc n) x @ drop (Suc n) xs" if "n < length xs" for xs and x :: 'x
    using that by (simp add: list_update_append Cons_nth_drop_Suc [symmetric] replicate_append_same [symmetric])
  show ?case using Suc assms by (simp add: fill_cell_def put_cell_def u)
qed simp

text \<open>A row after it was erased.\<close>

definition erased_row :: "screen \<Rightarrow> scrolline \<Rightarrow> scrolline" where
  "erased_row s ln = ln\<lparr>sl_length := sc_WIDTH s, sl_chars := replicate Q_MAX_LINE_LENGTH 32,
     sl_colors := replicate Q_MAX_LINE_LENGTH (erase_attr s)\<rparr>"

lemma erase_whole_line:
  assumes "sc_WIDTH s < Q_MAX_LINE_LENGTH" "line_ok (columns s) (L ! k)" "columns s < Q_MAX_LINE_LENGTH"
  shows "erase_line 0 (Q_MAX_LINE_LENGTH - 1) False (with_lines L k s) = Inr (with_lines (L[k := erased_row s (L ! k)]) k s)"
proof -
  have l: "length (sl_chars (L ! k)) = Q_MAX_LINE_LENGTH" "length (sl_colors (L ! k)) = Q_MAX_LINE_LENGTH" "sl_length (L ! k) \<le> columns s"
    using assms(2) by (simp_all add: line_ok_def)
  have n: "Suc (Q_MAX_LINE_LENGTH - 1) = Q_MAX_LINE_LENGTH" "0 < Q_MAX_LINE_LENGTH" by (simp_all add: Q_MAX_LINE_LENGTH_def)
  have "fit_length (sc_WIDTH s) (Q_MAX_LINE_LENGTH - 1) (fold (fill_cell 32 (erase_attr s) False) [0..<Q_MAX_LINE_LENGTH] (L ! k)) = erased_row s (L ! k)"
    unfolding fill_cells_all [OF l(1,2) order_refl] using assms(1,3) l
    by (simp add: fit_length_def erased_row_def Let_def)
  then show ?thesis using n(2)
    by (simp add: erase_line_def fill_line_with_character_def pad_line_def current_line_with_lines set_current_with_lines n(1) del: upt_Suc One_nat_def)
qed

lemma erase_whole_rows:
  assumes "sc_WIDTH s < Q_MAX_LINE_LENGTH" "columns s < Q_MAX_LINE_LENGTH"
  shows "\<forall>ln\<in>set L. line_ok (columns s) ln \<Longrightarrow> k + n < length L \<Longrightarrow>
    erase_rows n 0 (Q_MAX_LINE_LENGTH - 1) False (with_lines L k s) =
    Inr (with_lines (take k L @ map (erased_row s) (take (Suc n) (drop k L)) @ drop (k + Suc n) L) (k + n) s)"
proof (induction n arbitrary: L k)
  case 0
  then show ?case using erase_whole_line [OF assms(1) _ assms(2), of L k]
    by (simp add: upd_conv_take_nth_drop take_Suc_conv_app_nth take_Suc hd_drop_conv_nth)
next
  case (Suc n)
  let ?L = "L[k := erased_row s (L ! k)]"
  have e: "erase_line 0 (Q_MAX_LINE_LENGTH - 1) False (with_lines L k s) = Inr (with_lines ?L k s)"
    using Suc.prems by (intro erase_whole_line [OF assms(1) _ assms(2)]) simp
  have er: "line_ok (columns s) (erased_row s (L ! k))" by (simp add: line_ok_def erased_row_def columns_def)
  have ok: "\<forall>ln\<in>set ?L. line_ok (columns s) ln" using Suc.prems(1) er by (auto dest: set_update_subset_insert [THEN subsetD])
  have "erase_rows n 0 (Q_MAX_LINE_LENGTH - 1) False (with_lines ?L (Suc k) s) =
    Inr (with_lines (take (Suc k) ?L @ map (erased_row s) (take (Suc n) (drop (Suc k) ?L)) @ drop (Suc k + Suc n) ?L) (Suc k + n) s)"
    by (rule Suc.IH [OF ok]) (use Suc.prems in simp)
  moreover have "take (Suc k) ?L = take k L @ [erased_row s (L ! k)]" using Suc.prems(2) by (simp add: take_Suc_conv_app_nth)
  moreover have "take (Suc (Suc n)) (drop k L) = L ! k # take (Suc n) (drop (Suc k) L)"
    using Suc.prems(2) by (simp add: Cons_nth_drop_Suc [symmetric])
  ultimately show ?case using e Suc.prems(2) by (simp add: ensure_next_def)
qed

lemma copy_whole_cells:
  assumes "line_ok n src" "line_ok m dst"
  shows "copy_cells 0 Q_MAX_LINE_LENGTH src dst = src"
  using assms by (cases src) (simp add: copy_cells_def line_ok_def memcpy_def)

lemma copy_up_whole:
  "\<forall>ln\<in>set L. line_ok (columns s) ln \<Longrightarrow> i \<le> j \<Longrightarrow> j + n \<le> length L \<Longrightarrow>
   copy_up n i j 0 Q_MAX_LINE_LENGTH (with_lines L k s) = with_lines (take i L @ take n (drop j L) @ drop (i + n) L) k s"
proof (induction n arbitrary: L i j)
  case (Suc n)
  have ij: "j < length L" "i < length L" using Suc.prems by simp_all
  have ok: "line_ok (columns s) (L ! i)" "line_ok (columns s) (L ! j)" using ij Suc.prems(1) by simp_all
  have c: "copy_cells 0 Q_MAX_LINE_LENGTH (L ! j) (pad_target b Q_MAX_LINE_LENGTH a (L ! i)) = L ! j" for b a
    by (rule copy_whole_cells [OF ok(2), of "columns s"]) (use ok(1) in \<open>simp add: pad_target_def line_ok_def\<close>)
  let ?L = "L[i := L ! j]"
  have "\<forall>ln\<in>set ?L. line_ok (columns s) ln" using Suc.prems(1) ok by (auto dest: set_update_subset_insert [THEN subsetD])
  then have IH: "copy_up n (Suc i) (Suc j) 0 Q_MAX_LINE_LENGTH (with_lines ?L k s) =
      with_lines (take (Suc i) ?L @ take n (drop (Suc j) ?L) @ drop (Suc i + n) ?L) k s"
    using Suc.prems(2,3) by (intro Suc.IH) simp_all
  have "take (Suc i) ?L = take i L @ [L ! j]" using ij by (simp add: take_Suc_conv_app_nth)
  moreover have "take (Suc n) (drop j L) = L ! j # take n (drop (Suc j) L)" using ij by (simp add: Cons_nth_drop_Suc [symmetric])
  ultimately have l: "take (Suc i) ?L @ take n (drop (Suc j) ?L) @ drop (Suc i + n) ?L = take i L @ take (Suc n) (drop j L) @ drop (i + Suc n) L"
    using Suc.prems(2) by simp
  show ?case
  proof (cases "Suc j < length L")
    case True
    then have "copy_up (Suc n) i j 0 Q_MAX_LINE_LENGTH (with_lines L k s) = copy_up n (Suc i) (Suc j) 0 Q_MAX_LINE_LENGTH (with_lines ?L k s)"
      using c by (simp add: Let_def set_line_with_lines)
    then show ?thesis unfolding IH l .
  next
    case False
    then have "n = 0" "drop (Suc j) L = []" using Suc.prems(3) by simp_all
    then have "with_lines ?L k s = with_lines (take i L @ take (Suc n) (drop j L) @ drop (i + Suc n) L) k s"
      using ij by (simp add: upd_conv_take_nth_drop Cons_nth_drop_Suc [symmetric])
    then show ?thesis using False c by (simp add: Let_def set_line_with_lines)
  qed
qed simp

text \<open>The region after its first \<open>n\<close> lines were removed: the others move up, blank ones follow.\<close>

definition scrolled :: "nat \<Rightarrow> nat \<Rightarrow> nat \<Rightarrow> screen \<Rightarrow> scrolline list \<Rightarrow> scrolline list" where
  "scrolled i j n s L = take i L @ take (j - i - n) (drop (i + n) L) @ map (erased_row s) (take n (drop (j - n) L)) @ drop j L"

lemma walk_in_buffer:
  "room s \<Longrightarrow> last_row s < length M \<Longrightarrow> i + m < length M \<Longrightarrow> walk_down m i (with_lines M k s) = Inr (i + m, with_lines M k s)"
  using walk_down_rows [of s i M m k] by (simp add: rows_def extend_id)

text \<open>Whole rows of the screen are erased.\<close>

lemma erase_whole_screen_rows:
  assumes s: "room s" "sc_pin s = None" "sc_WIDTH s < Q_MAX_LINE_LENGTH" "columns s < Q_MAX_LINE_LENGTH"
    and M: "\<forall>ln\<in>set M. line_ok (columns s) ln" "last_row s < length M" "bottom \<le> last_row s" "row \<le> bottom + 1"
  defines "t \<equiv> top_line s M"
  shows "erase_screen row 0 bottom (Q_MAX_LINE_LENGTH - 1) False (with_lines M k s) =
    Inr (with_lines (take (t + row) M @ map (erased_row s) (take (bottom + 1 - row) (drop (t + row) M)) @ drop (t + bottom + 1) M) k s)"
proof (cases "row = bottom + 1")
  case True
  then show ?thesis by (simp add: erase_screen_def)
next
  case False
  let ?p = "s\<lparr>sc_pin := Some k\<rparr>" and ?m = "bottom - row"
  have t: "t + last_row s + 1 = length M" using M(2) by (simp add: t_def top_line_def)
  have m: "Suc ?m = bottom + 1 - row" "t + row + ?m = t + bottom" "t + row + Suc ?m = t + bottom + 1" "t + bottom < length M"
    using False M(3,4) t by linarith+
  have e: "erased_row ?p = erased_row s" by (rule ext) (simp add: erased_row_def erase_attr_def console_text_def)
  have "erase_rows ?m 0 (Q_MAX_LINE_LENGTH - 1) False (with_lines M (t + row) ?p) =
      Inr (with_lines (take (t + row) M @ map (erased_row ?p) (take (Suc ?m) (drop (t + row) M)) @ drop (t + row + Suc ?m) M) (t + row + ?m) ?p)"
    by (rule erase_whole_rows) (use s M m in simp_all)
  moreover have "walk_down row t (with_lines M k ?p) = Inr (t + row, with_lines M k ?p)"
    by (rule walk_in_buffer) (use s(1) M(2) m in simp_all)
  moreover have "find_top_scrollback_line (with_lines M k s) = Inr t" unfolding t_def by (rule find_top_rows [OF s(1)])
  moreover have "\<not> (bottom < row \<or> Q_MAX_LINE_LENGTH - 1 < 0)" using False M(4) by linarith
  ultimately show ?thesis unfolding erase_screen_def e m(1,3) using s(2) by (simp add: restore_with_lines)
qed

lemma erase_behind_copy:
  assumes "i + n \<le> j" "j \<le> length L"
  defines "N \<equiv> take i L @ take (j - i - n) (drop (i + n) L) @ drop (j - n) L"
  shows "take (j - n) N @ map (erased_row s) (take n (drop (j - n) N)) @ drop j N = scrolled i j n s L"
proof -
  have cut: "take m (xs @ ys @ zs) = xs @ ys" "drop m (xs @ ys @ zs) = zs" if "m = length xs + length ys" for m and xs ys zs :: "scrolline list"
    using that by simp_all
  have m: "j - n = length (take i L) + length (take (j - i - n) (drop (i + n) L))" using assms(1,2) by simp
  have "drop j N = drop n (drop (j - n) N)" using assms(1) by simp
  also have "\<dots> = drop n (drop (j - n) L)" unfolding N_def cut(2) [OF m] ..
  also have "\<dots> = drop j L" using assms(1) by simp
  finally show ?thesis unfolding N_def scrolled_def cut [OF m] by simp
qed

lemma length_scrolled: "i + n \<le> j \<Longrightarrow> j \<le> length L \<Longrightarrow> length (scrolled i j n s L) = length L"
  by (simp add: scrolled_def)

text \<open>
  C19.  Scrolling a region of a full screen up by \<open>n\<close> removes its first \<open>n\<close> lines: the other lines of
  the region move up with their characters, colors and widths, \<open>n\<close> blank lines follow in the
  color of the emulation, and neither the lines outside the region nor the cursor change.
\<close>

theorem region_scroll_moves_lines:
  assumes s: "screen_ok s" and r: "a < bottom" "bottom \<le> last_row s" "a + n \<le> bottom" "last_row s < length (sc_lines s)"
  shows "scrolling_region_scroll_up a bottom n s =
    Inr (s\<lparr>sc_lines := scrolled (top_line s (sc_lines s) + a) (top_line s (sc_lines s) + bottom + 1) n s (sc_lines s)\<rparr>)"
proof -
  define L k t where d: "L = sc_lines s" "k = sc_current s" "t = top_line s L"
  have sw: "s = with_lines L k s" using screen_okD(9) [OF s] by (simp add: d)
  have w: "room s" "sc_pin s = None" "sc_WIDTH s < Q_MAX_LINE_LENGTH" "columns s < Q_MAX_LINE_LENGTH"
    using screen_okD(1,3) [OF s] columns_lt by (auto simp: geometry_ok_def)
  have Lok: "\<forall>ln\<in>set L. line_ok (columns s) ln" using screen_okD(4) [OF s] by (auto simp: lines_ok_def d)
  have len: "t + last_row s + 1 = length L" "last_row s < length L" using r(4) by (simp_all add: d top_line_def)
  let ?i = "t + a" and ?j = "t + bottom + 1" and ?m = "bottom + 1 - a - n"
  let ?N = "take ?i L @ take (?j - ?i - n) (drop (?i + n) L) @ drop (?j - n) L"
  have ij: "?i + n \<le> ?j" "?j \<le> length L" "?j - ?i - n = ?m" "?i + ?m = ?j - n" "a + ?m = bottom + 1 - n" "?i + n < length L"
    "t + (bottom + 1 - n) = ?j - n" "bottom + 1 - (bottom + 1 - n) = n"
    using r len by linarith+
  have N: "length ?N = length L" "\<forall>ln\<in>set ?N. line_ok (columns s) ln"
    using ij(1,2) Lok by (auto dest: in_set_takeD in_set_dropD)
  have copy: "copy_up ?m ?i (?i + n) 0 Q_MAX_LINE_LENGTH (with_lines L k s) = with_lines ?N k s"
    using copy_up_whole [OF Lok, of ?i "?i + n" ?m k] ij(1,2) unfolding ij(3) ij(4) by simp
  have tN: "top_line s M = t" if "length M = length L" for M using that by (simp add: d(3) top_line_def)
  have erase: "erase_screen (a + ?m) 0 bottom (Q_MAX_LINE_LENGTH - 1) False (with_lines ?N k s) = Inr (with_lines (scrolled ?i ?j n s L) k s)"
    using erase_whole_screen_rows [OF w N(2) _ r(2), of "a + ?m" k] len(2)
    unfolding N(1) tN [OF N(1)] ij(5,7,8) erase_behind_copy [OF ij(1,2)] by simp
  have walk: "walk_down a t (with_lines L k s) = Inr (?i, with_lines L k s)"
    "walk_down n ?i (with_lines L k (s\<lparr>sc_pin := Some ?i\<rparr>)) = Inr (?i + n, with_lines L k (s\<lparr>sc_pin := Some ?i\<rparr>))"
    by (rule walk_in_buffer; use w(1) len(2) ij(6) in simp)+
  have top: "find_top_scrollback_line (with_lines L k s) = Inr t" unfolding d(3) by (rule find_top_rows [OF w(1)])
  have c: "(bottom \<le> a \<or> Q_MAX_LINE_LENGTH \<le> 0) = False" "(bottom + 1 - a \<le> n) = False" "\<And>q. s\<lparr>sc_pin := q, sc_pin := None\<rparr> = s"
    "\<And>q. sc_pin (with_lines L k (s\<lparr>sc_pin := q\<rparr>)) = q"
    using r w(2) by (auto simp: Q_MAX_LINE_LENGTH_def)
  have "rectangle_scroll_up a 0 bottom Q_MAX_LINE_LENGTH n (with_lines L k s) = Inr (with_lines (scrolled ?i ?j n s L) k s)"
    unfolding rectangle_scroll_up_def
    by (simp only: c if_False top walk andthen.simps prod.case with_lines_pin screen.simps Let_def option.sel copy erase check_True order_refl)
  moreover have "with_lines (scrolled ?i ?j n s L) k s = s\<lparr>sc_lines := scrolled ?i ?j n s L\<rparr>"
    using screen_okD(2) [OF s] length_scrolled [OF ij(1,2), of s]
    by (cases s) (simp add: with_lines_def scrollback_ok_def d(1,2))
  ultimately show ?thesis using sw by (simp add: scrolling_region_scroll_up_def d)
qed

theorem region_scroll_moves_lines_witness:
  "scrolling_region_scroll_up 0 2 1 (sample_screen Q_EMUL_ANSI 3 5 2) =
    Inr (sample_screen Q_EMUL_ANSI 3 5 2
      \<lparr>sc_lines := scrolled (top_line (sample_screen Q_EMUL_ANSI 3 5 2) (sc_lines (sample_screen Q_EMUL_ANSI 3 5 2)) + 0)
        (top_line (sample_screen Q_EMUL_ANSI 3 5 2) (sc_lines (sample_screen Q_EMUL_ANSI 3 5 2)) + 2 + 1) 1
        (sample_screen Q_EMUL_ANSI 3 5 2) (sc_lines (sample_screen Q_EMUL_ANSI 3 5 2))\<rparr>)"
  by (rule region_scroll_moves_lines [OF sample_screen_ok]) (simp_all add: sample_screen_def last_row_def)

end
