(* ===== verification/Emulation.thy ===== *)
theory Emulation
  imports Screen
begin

text \<open>
  The emulation layer of emulation.c and the emulations TTY (emulation.c), ANSI (ansi.c) and VT52
  (vt52.c): the bytes from the remote side move the state machine of the emulation, which moves
  the cursor, prints and answers.  \<open>emulator\<close> holds the screen, the static variables of the
  three files (\<open>an_\<close>, \<open>vt_\<close>) and the options they read; \<open>em_to_screen\<close> is the variable of the
  caller the character to print is stored in, \<open>em_sent\<close> what \<open>qodem_write\<close> sent.  The
  buffer \<open>q_emul_buffer\<close> is a list of 128 bytes; the pointers \<open>count\<close> are indices into it.

  Not modelled: the sound (BEL, ANSI music), the repainting for ANSI animation and the tables of
  the keystrokes.
\<close>

unbundle bit_operations_syntax

section \<open>Data\<close>

datatype emulation_status = Q_EMUL_FSM_NO_CHAR_YET | Q_EMUL_FSM_ONE_CHAR | Q_EMUL_FSM_MANY_CHARS

datatype ansi_scan_state =
    AN_SCAN_NONE | AN_SCAN_ESC | AN_SCAN_START_SEQUENCE | AN_SCAN_COUNT | AN_SCAN_COUNT_TWO
  | AN_SCAN_COUNT_MANY | AN_SCAN_MUSIC

datatype vt52_scan_state =
    VT_SCAN_NONE | VT_SCAN_ESC | VT_SCAN_Y_1 | VT_SCAN_Y_2 | VT_SCAN_CSI | VT_SCAN_CSI_PARAM

definition EMUL_BUFFER_SIZE :: nat where "EMUL_BUFFER_SIZE = 128"
definition ANSI_MUSIC_BUFFER_SIZE :: nat where "ANSI_MUSIC_BUFFER_SIZE = 1024"
definition C_ESC :: byte where "C_ESC = 0x1B"

record emulator =
  em_screen :: screen
  em_buffer :: "byte list"
  em_n :: nat
  em_i :: nat
  em_last :: emulation_status
  em_bytes_received :: ulong
  em_sent :: cstring
  em_to_screen :: u32
  em_codepage :: Q_CODEPAGE
  em_answerback :: cstring
  em_ansi_music :: bool
  em_vt52_color :: bool
  em_hold_screen_mode :: bool
  an_scan :: ansi_scan_state
  an_saved_x :: nat
  an_saved_y :: nat
  an_rep :: u32
  an_private :: bool
  an_dec_private :: bool
  an_discard :: bool
  an_music :: "byte list"
  an_music_n :: nat
  an_count :: nat
  an_attributes :: cattr
  vt_scan :: vt52_scan_state
  vt_graphics :: bool
  vt_alternate_keypad :: bool
  vt_count :: nat
  vt_attributes :: cattr

type_synonym emulated = "(emulation_status \<times> emulator) run"

text \<open>An operation of the screen on the emulator, and what is sent to the remote side.\<close>

definition on_screen :: "(screen \<Rightarrow> screen run) \<Rightarrow> emulator \<Rightarrow> emulator run" where
  "on_screen f e = andthen (f (em_screen e)) (\<lambda>s. Inr (e\<lparr>em_screen := s\<rparr>))"

definition qodem_write :: "cstring \<Rightarrow> emulator \<Rightarrow> emulator" where
  "qodem_write bs e = e\<lparr>em_sent := em_sent e @ bs\<rparr>"

definition map_char :: "emulator \<Rightarrow> byte \<Rightarrow> u32" where
  "map_char e b = codepage_map_char (sc_emulation (em_screen e) = Q_EMUL_VT52) (em_codepage e) b"

definition is_cntrl :: "byte \<Rightarrow> bool" where
  "is_cntrl b \<longleftrightarrow> b < 32 \<or> b = 127"

definition is_digit :: "byte \<Rightarrow> bool" where
  "is_digit b \<longleftrightarrow> 48 \<le> b \<and> b \<le> 57"

definition clear_buffer :: "emulator \<Rightarrow> emulator" where
  "clear_buffer e = e\<lparr>em_n := 0, em_i := 0, em_buffer := replicate EMUL_BUFFER_SIZE 0\<rparr>"

definition push_byte :: "byte \<Rightarrow> emulator \<Rightarrow> emulator run" where
  "push_byte b e =
     check (em_n e < EMUL_BUFFER_SIZE) Buffer_overflow
       (Inr (e\<lparr>em_buffer := (em_buffer e)[em_n e := b], em_n := em_n e + 1\<rparr>))"

definition save_char :: "byte \<Rightarrow> emulator \<Rightarrow> emulator run" where
  "save_char b e = andthen (push_byte b e) (\<lambda>e1. Inr (e1\<lparr>em_to_screen := 1\<rparr>))"

definition no_char :: "emulator \<Rightarrow> emulated" where
  "no_char e = Inr (Q_EMUL_FSM_NO_CHAR_YET, e)"

text \<open>
  A sequence that is not understood: it is printed, one character now and the rest by
  \<open>terminal_emulator\<close>.  The scan state is reset by the emulation.
\<close>

definition dump_sequence :: "byte \<Rightarrow> emulator \<Rightarrow> emulated" where
  "dump_sequence b e =
     andthen (push_byte b e) (\<lambda>e1.
       let e2 = e1\<lparr>em_to_screen := ucast (em_buffer e1 ! em_i e1), em_i := em_i e1 + 1\<rparr>
       in check (em_i e1 < EMUL_BUFFER_SIZE) Buffer_overflow
            (if em_n e2 = 1 then Inr (Q_EMUL_FSM_ONE_CHAR, e2\<lparr>em_i := 0, em_n := 0\<rparr>)
             else Inr (Q_EMUL_FSM_MANY_CHARS, e2)))"

section \<open>Control characters\<close>

text \<open>
  The loop of a tab.  \<open>None\<close> is a loop that does not end; \<open>move\<close> prints a space or moves the
  cursor to the right.
\<close>

partial_function (option) tab_loop :: "(screen \<Rightarrow> screen run) \<Rightarrow> nat \<Rightarrow> screen \<Rightarrow> screen run option" where
  "tab_loop move limit s =
     (if sc_cursor_x s < limit then
        (case move s of
           Inl f \<Rightarrow> Some (Inl f)
         | Inr s1 \<Rightarrow> if sc_cursor_x s1 mod 8 = 0 then Some (Inr s1) else tab_loop move limit s1)
      else Some (Inr s))"

declare tab_loop.simps [code]

definition tab_by :: "(screen \<Rightarrow> screen run) \<Rightarrow> nat \<Rightarrow> screen \<Rightarrow> screen run" where
  "tab_by move limit s = (case tab_loop move limit s of None \<Rightarrow> Inl Diverges | Some r \<Rightarrow> r)"

definition generic_handle_control_char :: "byte \<Rightarrow> emulator \<Rightarrow> emulator run" where
  "generic_handle_control_char b e =
     (if b = 0x05 then Inr (qodem_write (em_answerback e) e)
      else if b = 0x07 then Inr e
      else if b = 0x08 then on_screen (\<lambda>s. Inr (cursor_left 1 False s)) e
      else if b = 0x09 then on_screen (tab_by (print_character 32) 80) e
      else if b = 0x0A \<or> b = 0x0B then on_screen (cursor_linefeed False) e
      else if b = 0x0C then on_screen cursor_formfeed e
      else if b = 0x0D then on_screen cursor_carriage_return e
      else on_screen (print_character (of_nat (cp437_chars ! unat b))) e)"

section \<open>TTY\<close>

text \<open>An underscore over a character underlines it; the cursor moves on without a look at the margin.\<close>

definition tty_underline :: "screen \<Rightarrow> screen run" where
  "tty_underline s =
     (let ln = current_line s; x = sc_cursor_x s
      in Inr ((set_current (ln\<lparr>sl_colors := (sl_colors ln)[x := (sl_colors ln ! x)\<lparr>a_underline := True\<rparr>]\<rparr>) s)
                \<lparr>sc_cursor_x := x + 1\<rparr>))"

definition tty_consume :: "emulator run \<Rightarrow> emulated" where
  "tty_consume r = andthen r (\<lambda>e. no_char (e\<lparr>em_to_screen := 1\<rparr>))"

definition tty :: "byte \<Rightarrow> emulator \<Rightarrow> emulated" where
  "tty b e =
     (let s = em_screen e
      in if b = 0x05 then tty_consume (Inr (qodem_write (em_answerback e) e))
         else if b = 0x07 \<or> b = 0x0E \<or> b = 0x0F then tty_consume (Inr e)
         else if b = 0x08 then tty_consume (on_screen (\<lambda>s. Inr (cursor_left 1 False s)) e)
         else if b = 0x09 then tty_consume (on_screen (tab_by (print_character 32) 80) e)
         else if b = 0x0A \<or> b = 0x0B \<or> b = 0x0C then tty_consume (on_screen (cursor_linefeed False) e)
         else if b = 0x0D then tty_consume (on_screen cursor_carriage_return e)
         else if b = 95 \<and> sc_emulation s = Q_EMUL_TTY then
           check (sc_cursor_x s < Q_MAX_LINE_LENGTH) Buffer_overflow
             (if sl_chars (current_line s) ! sc_cursor_x s \<noteq> 32 then tty_consume (on_screen tty_underline e)
              else Inr (Q_EMUL_FSM_ONE_CHAR, e\<lparr>em_to_screen := map_char e b\<rparr>))
         else Inr (Q_EMUL_FSM_ONE_CHAR, e\<lparr>em_to_screen := map_char e b\<rparr>))"

section \<open>ANSI: parameters\<close>

text \<open>
  The parameters are read from the buffer, from the pointer \<open>count\<close> on; \<open>read_ps\<close> is
  \<open>ansi_ps\<close>: a number of at most six digits and what is behind it.
\<close>

definition read_ps :: "byte list \<Rightarrow> (nat \<times> byte list) option run" where
  "read_ps bs =
     (let ds = takeWhile is_digit (take 6 bs); rest = drop (length ds) bs
      in check (rest \<noteq> []) Buffer_overflow
           (Inr (if ds = [] \<or> is_digit (hd rest) then None else Some (read_base 10 0 ds, rest))))"

definition an_parameters :: "emulator \<Rightarrow> byte list" where
  "an_parameters e = drop (an_count e) (em_buffer e)"

text \<open>
  The parsing loop of \<open>ansi_ich\<close>, \<open>ansi_dch\<close>, \<open>ansi_il\<close>, \<open>ansi_dl\<close>, \<open>ansi_vpa\<close>, \<open>ansi_cht\<close>,
  \<open>ansi_cha\<close>, \<open>ansi_rep\<close> and \<open>ansi_set_mode\<close>: one parameter.  An omitted one ends the loop at
  its second round without success.
\<close>

definition one_parameter :: "byte list \<Rightarrow> nat option run" where
  "one_parameter bs =
     check (bs \<noteq> []) Buffer_overflow
       (if hd bs = 59 then Inr None
        else andthen (read_ps bs) (\<lambda>r.
          case r of
            None \<Rightarrow> Inr None
          | Some (v, rest) \<Rightarrow>
              if hd rest = 0 then Inr (Some v)
              else if hd rest \<noteq> 59 then Inr None
              else check (2 < length rest) Buffer_overflow (Inr (if rest ! 2 = 0 then Some v else None))))"

text \<open>The same with a parameter that counts from one: 0 is refused.\<close>

definition from_one :: "nat option \<Rightarrow> nat option" where
  "from_one r = (case r of Some (Suc n) \<Rightarrow> Some n | _ \<Rightarrow> None)"

text \<open>\<open>ansi_position\<close>: row and column, both counted from zero.\<close>

definition position_end :: "nat \<Rightarrow> nat \<Rightarrow> byte list \<Rightarrow> (nat \<times> nat) option run" where
  "position_end row col rest =
     check (1 < length rest) Buffer_overflow (Inr (if rest ! 1 = 0 then Some (row, col) else None))"

definition position_column :: "nat \<Rightarrow> byte list \<Rightarrow> (nat \<times> nat) option run" where
  "position_column row bs =
     check (bs \<noteq> []) Buffer_overflow
       (if hd bs = 0 then position_end row 0 bs
        else if hd bs \<noteq> 59 then Inr None
        else andthen (read_ps (tl bs)) (\<lambda>r.
          case r of None \<Rightarrow> Inr None | Some (v, rest) \<Rightarrow> position_end row (v - 1) rest))"

definition ansi_position :: "byte list \<Rightarrow> (nat \<times> nat) option run" where
  "ansi_position bs =
     check (bs \<noteq> []) Buffer_overflow
       (if hd bs = 59 then position_column 0 (tl bs)
        else andthen (read_ps bs) (\<lambda>r.
          case r of None \<Rightarrow> Inr None | Some (v, rest) \<Rightarrow> position_column (v - 1) rest))"

section \<open>ANSI: colors\<close>

text \<open>One parameter of a color sequence, on the attributes, the foreground and the background.\<close>

definition sgr_parameter :: "screen \<Rightarrow> nat \<Rightarrow> cattr \<times> byte \<times> byte \<Rightarrow> cattr \<times> byte \<times> byte" where
  "sgr_parameter s v = (\<lambda>(out, fg, bg).
     if v = 0 then (A_NORMAL\<lparr>a_bold := sc_text_bold s\<rparr>, sc_text_fg s, sc_text_bg s)
     else if v = 1 then (out\<lparr>a_bold := True\<rparr>, fg, bg)
     else if v = 2 then (out\<lparr>a_dim := True\<rparr>, fg, bg)
     else if v = 4 then (out\<lparr>a_underline := True\<rparr>, fg, bg)
     else if v = 5 then (out\<lparr>a_blink := True\<rparr>, fg, bg)
     else if v = 7 then (out\<lparr>a_reverse := True\<rparr>, fg, bg)
     else if v = 21 \<or> v = 22 then (out\<lparr>a_dim := False, a_bold := False\<rparr>, fg, bg)
     else if v = 24 then (out\<lparr>a_underline := False\<rparr>, fg, bg)
     else if v = 25 then (out\<lparr>a_blink := False\<rparr>, fg, bg)
     else if v = 27 then (out\<lparr>a_reverse := False\<rparr>, fg, bg)
     else if 30 \<le> v \<and> v \<le> 37 then (out, of_nat (v - 30), bg)
     else if v = 38 then (out\<lparr>a_bold := a_bold out \<or> sc_text_bold s, a_underline := True\<rparr>, sc_text_fg s, bg)
     else if v = 39 then (out\<lparr>a_bold := a_bold out \<or> sc_text_bold s, a_underline := False\<rparr>, sc_text_fg s, bg)
     else if 40 \<le> v \<and> v \<le> 47 then (out, fg, of_nat (v - 40))
     else if v = 49 then (out\<lparr>a_underline := False\<rparr>, fg, sc_text_bg s)
     else (out, fg, bg))"

text \<open>Whether the sequence was right, and the attributes, which change in any case.\<close>

lemma read_ps_length: "read_ps bs = Inr (Some (v, rest)) \<Longrightarrow> length rest < length bs"
  by (cases bs) (auto simp: read_ps_def Let_def less_Suc_eq_le split: if_splits)

function sgr_loop :: "screen \<Rightarrow> cattr \<times> byte \<times> byte \<Rightarrow> byte list \<Rightarrow> (bool \<times> cattr) run" where
  "sgr_loop s st bs =
     (if bs = [] then Inr (False, fst st)
      else case read_ps bs of
        Inl f \<Rightarrow> Inl f
      | Inr None \<Rightarrow> Inr (False, fst st)
      | Inr (Some (v, rest)) \<Rightarrow>
          (case sgr_parameter s v st of (out, fg, bg) \<Rightarrow>
             if hd rest = 59 then sgr_loop s (out, fg, bg) (tl rest)
             else Inr (True, out\<lparr>a_pair := a_pair out OR (push_bit 3 fg OR bg)\<rparr>)))"
  by pat_completeness auto
termination
  by (relation "measure (\<lambda>(s, st, bs). length bs)") (auto dest!: read_ps_length)

definition ansi_color :: "screen \<Rightarrow> cattr \<Rightarrow> byte list \<Rightarrow> (bool \<times> cattr) run" where
  "ansi_color s out bs =
     (let color = a_pair (sc_color s)
      in sgr_loop s (out\<lparr>a_pair := 0\<rparr>, drop_bit 3 (color AND 0x38), color AND 0x07) bs)"

section \<open>ANSI: the state machine\<close>

definition an_clear :: "emulator \<Rightarrow> emulator" where
  "an_clear e = (clear_buffer e)\<lparr>an_private := False, an_dec_private := False, an_discard := False,
     an_scan := AN_SCAN_NONE, em_to_screen := 1\<rparr>"

definition an_done :: "emulator run \<Rightarrow> emulated" where
  "an_done r = andthen r (\<lambda>e. no_char (an_clear e))"

definition an_keep :: "byte \<Rightarrow> ansi_scan_state \<Rightarrow> emulator \<Rightarrow> emulated" where
  "an_keep b st e = andthen (save_char b e) (\<lambda>e1. no_char (e1\<lparr>an_scan := st\<rparr>))"

definition an_dump :: "byte \<Rightarrow> emulator \<Rightarrow> emulated" where
  "an_dump b e = dump_sequence b (e\<lparr>an_scan := AN_SCAN_NONE\<rparr>)"

text \<open>A sequence with a parameter: it is carried out, or dumped when the parameter is wrong.\<close>

definition an_with :: "byte \<Rightarrow> 'a option run \<Rightarrow> ('a \<Rightarrow> emulator \<Rightarrow> emulator run) \<Rightarrow> emulator \<Rightarrow> emulated" where
  "an_with b r f e = andthen r (\<lambda>p. case p of None \<Rightarrow> an_dump b e | Some v \<Rightarrow> an_done (f v e))"

fun repeat_screen :: "nat \<Rightarrow> (screen \<Rightarrow> screen run) \<Rightarrow> screen \<Rightarrow> screen run" where
  "repeat_screen 0 f s = Inr s"
| "repeat_screen (Suc n) f s = andthen (f s) (repeat_screen n f)"

definition an_sgr :: "byte \<Rightarrow> emulator \<Rightarrow> emulated" where
  "an_sgr b e =
     andthen (ansi_color (em_screen e) (an_attributes e) (an_parameters e)) (\<lambda>(ok, a).
       let e1 = e\<lparr>an_attributes := a\<rparr>
       in if ok then an_done (on_screen (\<lambda>s. Inr (s\<lparr>sc_color := a\<rparr>)) e1) else an_dump b e1)"

definition an_report :: "emulator \<Rightarrow> emulator" where
  "an_report e =
     (if em_n e = 3 \<and> em_buffer e ! 2 = 54
      then qodem_write (take 15 ([27, 91] @ digits_base 10 (sc_cursor_y (em_screen e) + 1) @ 59 #
             digits_base 10 (sc_cursor_x (em_screen e) + 1) @ [82])) e
      else e)"

definition an_set_mode :: "bool \<Rightarrow> nat \<Rightarrow> emulator \<Rightarrow> emulator run" where
  "an_set_mode set_mode v e =
     (if v = 7 \<and> (an_private e \<or> an_dec_private e)
      then on_screen (\<lambda>s. Inr (s\<lparr>sc_line_wrap := set_mode\<rparr>)) e else Inr e)"

text \<open>The identification is cut off after three bytes.\<close>

definition an_identify :: "emulator \<Rightarrow> emulator run" where
  "an_identify e = Inr (qodem_write [27, 91, 63] e)"

definition erase_to_end_of_line :: "screen \<Rightarrow> screen run" where
  "erase_to_end_of_line s = erase_line (sc_cursor_x s) (sl_length (current_line s)) False s"

definition erase_to_end_of_screen :: "screen \<Rightarrow> screen run" where
  "erase_to_end_of_screen s = erase_screen (sc_cursor_y s) (sc_cursor_x s) (last_row s) (sc_WIDTH s - 1) False s"

definition an_erase_line :: "nat \<Rightarrow> screen \<Rightarrow> screen run" where
  "an_erase_line v s =
     (if v = 0 then erase_to_end_of_line s
      else if v = 1 then erase_line 0 (sc_cursor_x s) False s
      else if v = 2 then erase_line 0 (sl_length (current_line s)) False s
      else Inr s)"

definition an_erase_screen :: "nat \<Rightarrow> screen \<Rightarrow> screen run" where
  "an_erase_screen v s =
     (if v = 0 then erase_to_end_of_screen s
      else if v = 1 then erase_screen 0 0 (sc_cursor_y s) (sc_cursor_x s) False s
      else if v = 2 then cursor_formfeed s
      else Inr s)"

definition an_scroll_down :: "nat \<Rightarrow> screen \<Rightarrow> screen run" where
  "an_scroll_down n s = scrolling_region_scroll_down (sc_cursor_y s) (sc_region_bottom s) n s"

definition an_scroll_up :: "nat \<Rightarrow> screen \<Rightarrow> screen run" where
  "an_scroll_up n s = scrolling_region_scroll_up (sc_cursor_y s) (sc_region_bottom s) n s"

definition an_none :: "byte \<Rightarrow> emulator \<Rightarrow> emulated" where
  "an_none b e =
     (if b = C_ESC then
        andthen (save_char b e) (\<lambda>e1. no_char (e1\<lparr>an_scan := AN_SCAN_ESC, an_attributes := sc_color (em_screen e1)\<rparr>))
      else if is_cntrl b then andthen (generic_handle_control_char b e) (\<lambda>e1. no_char (e1\<lparr>em_to_screen := 1\<rparr>))
      else Inr (Q_EMUL_FSM_ONE_CHAR, e\<lparr>em_to_screen := map_char e b, an_rep := map_char e b\<rparr>))"

definition an_esc :: "byte \<Rightarrow> emulator \<Rightarrow> emulated" where
  "an_esc b e =
     (if b = 91 then an_keep b AN_SCAN_START_SEQUENCE e
      else if b = 90 then an_done (an_identify e)
      else if b = C_ESC then no_char (e\<lparr>em_to_screen := 1\<rparr>)
      else an_dump b e)"

definition an_start :: "byte \<Rightarrow> emulator \<Rightarrow> emulated" where
  "an_start b e =
     (if is_digit b then an_keep b AN_SCAN_COUNT (e\<lparr>an_count := em_n e\<rparr>)
      else if b = 75 then an_done (on_screen erase_to_end_of_line e)
      else if b = 74 then an_done (on_screen erase_to_end_of_screen e)
      else if b = 109 then an_done (on_screen (\<lambda>s. Inr (s\<lparr>sc_color := console_text s\<rparr>)) e)
      else if b = 65 then an_done (on_screen (cursor_up 1 False) e)
      else if b = 66 then an_done (on_screen (cursor_down 1 False) e)
      else if b = 67 then an_done (on_screen (cursor_right 1 False) e)
      else if b = 68 then an_done (on_screen (\<lambda>s. Inr (cursor_left 1 False s)) e)
      else if b = 72 \<or> b = 102 then an_done (on_screen (cursor_position 0 0) e)
      else if b = 59 then an_keep b AN_SCAN_COUNT_TWO (e\<lparr>an_count := em_n e\<rparr>)
      else if b = 99 then an_done (an_identify e)
      else if b = 115 then an_done (Inr (e\<lparr>an_saved_x := sc_cursor_x (em_screen e), an_saved_y := sc_cursor_y (em_screen e)\<rparr>))
      else if b = 117 then an_done (on_screen (cursor_position (an_saved_y e) (an_saved_x e)) e)
      else if b = 73 then an_done (on_screen (tab_by (print_character 32) 79) e)
      else if b = 64 then an_done (on_screen (insert_blanks 1) e)
      else if b = 100 then an_done (on_screen (\<lambda>s. cursor_position 0 (sc_cursor_x s) s) e)
      else if b = 71 then an_done (on_screen (\<lambda>s. cursor_position (sc_cursor_y s) 0 s) e)
      else if b = 76 then an_done (on_screen (an_scroll_down 1) e)
      else if b = 80 then an_done (on_screen (delete_character 1) e)
      else if b = 98 then an_done (on_screen (print_character (an_rep e)) e)
      else if b = 77 then
        (if \<not> em_ansi_music e then an_done (on_screen (an_scroll_up 1) e)
         else no_char (e\<lparr>an_music := (replicate ANSI_MUSIC_BUFFER_SIZE 0)[0 := b], an_music_n := 1, an_scan := AN_SCAN_MUSIC\<rparr>))
      else if b = 61 then no_char (e\<lparr>an_private := True\<rparr>)
      else if b = 63 then no_char (e\<lparr>an_dec_private := True\<rparr>)
      else if b = 32 then no_char (e\<lparr>an_discard := True\<rparr>)
      else if b = 33 then an_done (Inr e)
      else an_dump b e)"

definition an_count_state :: "byte \<Rightarrow> emulator \<Rightarrow> emulated" where
  "an_count_state b e =
     (let ps = an_parameters e;
          p = andthen (read_ps ps) (\<lambda>r. Inr (map_option fst r));
          on = (\<lambda>r f. an_with b r (\<lambda>v. on_screen (f v)) e)
      in if is_digit b then an_keep b AN_SCAN_COUNT e
         else if b = 75 then on p an_erase_line
         else if b = 74 then on p an_erase_screen
         else if b = 65 then on p (\<lambda>v. cursor_up v False)
         else if b = 66 then on p (\<lambda>v. cursor_down v False)
         else if b = 67 then on p (\<lambda>v. cursor_right v False)
         else if b = 68 then on p (\<lambda>v s. Inr (cursor_left v False s))
         else if b = 59 then an_keep b AN_SCAN_COUNT_TWO e
         else if b = 72 \<or> b = 102 then an_with b (ansi_position ps) (\<lambda>(row, col). on_screen (cursor_position row col)) e
         else if b = 109 then an_sgr b e
         else if b = 110 then an_done (Inr (an_report e))
         else if b = 64 then on (one_parameter ps) insert_blanks
         else if b = 73 then on (andthen (one_parameter ps) (\<lambda>r. Inr (from_one r))) (\<lambda>v. repeat_screen v (tab_by (print_character 32) 79))
         else if b = 100 then on (andthen (one_parameter ps) (\<lambda>r. Inr (from_one r))) (\<lambda>v s. cursor_position v (sc_cursor_x s) s)
         else if b = 71 then on (andthen (one_parameter ps) (\<lambda>r. Inr (from_one r))) (\<lambda>v s. cursor_position (sc_cursor_y s) v s)
         else if b = 76 then on (one_parameter ps) an_scroll_down
         else if b = 77 then on (one_parameter ps) an_scroll_up
         else if b = 80 then on (one_parameter ps) delete_character
         else if b = 98 then on (one_parameter ps) (\<lambda>v. repeat_screen v (print_character (an_rep e)))
         else if b = 104 then an_with b (one_parameter ps) (an_set_mode True) e
         else if b = 108 then an_with b (one_parameter ps) (an_set_mode False) e
         else if b = 32 then no_char (e\<lparr>an_discard := True\<rparr>)
         else if b = 33 then an_done (Inr e)
         else an_dump b e)"

definition an_count_two :: "byte \<Rightarrow> emulator \<Rightarrow> emulated" where
  "an_count_two b e =
     (if is_digit b then an_keep b AN_SCAN_COUNT_TWO e
      else if b = 59 then an_keep b AN_SCAN_COUNT_MANY e
      else if b = 72 \<or> b = 102
      then an_with b (ansi_position (an_parameters e)) (\<lambda>(row, col). on_screen (cursor_position row col)) e
      else if b = 109 then an_sgr b e
      else if b = 32 then no_char (e\<lparr>an_discard := True\<rparr>)
      else if b = 68 \<and> an_discard e then an_done (Inr e)
      else an_dump b e)"

definition an_count_many :: "byte \<Rightarrow> emulator \<Rightarrow> emulated" where
  "an_count_many b e =
     (if is_digit b \<or> b = 59 then an_keep b AN_SCAN_COUNT_MANY e
      else if b = 109 then an_sgr b e
      else an_dump b e)"

definition an_music_state :: "byte \<Rightarrow> emulator \<Rightarrow> emulated" where
  "an_music_state b e =
     (if b = 0x0E \<or> b = C_CR then an_done (Inr e)
      else check (an_music_n e < ANSI_MUSIC_BUFFER_SIZE) Buffer_overflow
        (let e1 = e\<lparr>an_music := (an_music e)[an_music_n e := b], an_music_n := an_music_n e + 1\<rparr>
         in if ANSI_MUSIC_BUFFER_SIZE \<le> an_music_n e1 then an_done (Inr e1) else no_char e1))"

definition ansi :: "byte \<Rightarrow> emulator \<Rightarrow> emulated" where
  "ansi b e =
     (case an_scan e of
        AN_SCAN_NONE \<Rightarrow> an_none b e
      | AN_SCAN_ESC \<Rightarrow> an_esc b e
      | AN_SCAN_START_SEQUENCE \<Rightarrow> an_start b e
      | AN_SCAN_COUNT \<Rightarrow> an_count_state b e
      | AN_SCAN_COUNT_TWO \<Rightarrow> an_count_two b e
      | AN_SCAN_COUNT_MANY \<Rightarrow> an_count_many b e
      | AN_SCAN_MUSIC \<Rightarrow> an_music_state b e)"

definition ansi_reset :: "emulator \<Rightarrow> emulator" where
  "ansi_reset e = e\<lparr>an_scan := AN_SCAN_NONE, an_saved_x := sc_cursor_x (em_screen e), an_saved_y := sc_cursor_y (em_screen e),
     an_private := False, an_dec_private := False, an_discard := False\<rparr>"

section \<open>VT52\<close>

text \<open>The graphics characters, from \<open>^\<close> on.\<close>

definition vt52_graphics :: "nat list" where
  "vt52_graphics = [cp437_chars ! 0x20, cp437_chars ! 0x20, cp437_chars ! 0x20, cp437_chars ! 0xFE, 0x215F,
     cp437_chars ! 0xB0, cp437_chars ! 0xB0, cp437_chars ! 0xB0, cp437_chars ! 0xF8, cp437_chars ! 0xF1,
     cp437_chars ! 0x1A, 0x2026, 0x00F7, cp437_chars ! 0x19, 0x23BA, 0x23BA, 0x23BB, 0x23BB,
     cp437_chars ! 0xC4, cp437_chars ! 0xC4, 0x23BC, 0x23BC, 0x2080, 0x2081, 0x2082, 0x2083, 0x2084,
     0x2085, 0x2086, 0x2087, 0x2088, 0x2089, 0x00B6]"

definition map_character :: "bool \<Rightarrow> byte \<Rightarrow> u32" where
  "map_character graphics b =
     (if graphics \<and> 94 \<le> b \<and> b \<le> 126 then of_nat (vt52_graphics ! (unat b - 94)) else ucast b)"

definition vt_clear :: "emulator \<Rightarrow> emulator" where
  "vt_clear e = (clear_buffer e)\<lparr>vt_scan := VT_SCAN_NONE, em_to_screen := 1\<rparr>"

definition vt_done :: "emulator run \<Rightarrow> emulated" where
  "vt_done r = andthen r (\<lambda>e. no_char (vt_clear e))"

definition vt_keep :: "byte \<Rightarrow> vt52_scan_state \<Rightarrow> emulator \<Rightarrow> emulated" where
  "vt_keep b st e = andthen (save_char b e) (\<lambda>e1. no_char (e1\<lparr>vt_scan := st\<rparr>))"

definition vt_dump :: "byte \<Rightarrow> emulator \<Rightarrow> emulated" where
  "vt_dump b e = dump_sequence b (e\<lparr>vt_scan := VT_SCAN_NONE\<rparr>)"

definition vt_none :: "byte \<Rightarrow> emulator \<Rightarrow> emulated" where
  "vt_none b e =
     (if b = C_ESC then vt_keep b VT_SCAN_ESC e
      else if b = 0x05 then vt_done (Inr (qodem_write (em_answerback e) e))
      else if b = 0x08 then vt_done (on_screen (\<lambda>s. Inr (cursor_left 1 False s)) e)
      else if b = 0x09 then vt_done (on_screen (tab_by (cursor_right 1 False) 80) e)
      else if is_cntrl b then vt_done (Inr e)
      else Inr (Q_EMUL_FSM_ONE_CHAR, e\<lparr>em_to_screen := map_character (vt_graphics e) b\<rparr>))"

text \<open>Reverse line feed.\<close>

definition vt_reverse_linefeed :: "screen \<Rightarrow> screen run" where
  "vt_reverse_linefeed s = (if sc_cursor_y s = 0 then scroll_down 1 s else cursor_up 1 False s)"

definition vt_esc :: "byte \<Rightarrow> emulator \<Rightarrow> emulated" where
  "vt_esc b e =
     (if b = 65 then vt_done (on_screen (cursor_up 1 False) e)
      else if b = 66 then vt_done (on_screen (cursor_down 1 False) e)
      else if b = 67 then vt_done (on_screen (cursor_right 1 False) e)
      else if b = 68 then vt_done (on_screen (\<lambda>s. Inr (cursor_left 1 False s)) e)
      else if b = 69 then vt_done (on_screen cursor_formfeed e)
      else if b = 70 then vt_done (Inr (e\<lparr>vt_graphics := True\<rparr>))
      else if b = 71 then vt_done (Inr (e\<lparr>vt_graphics := False\<rparr>))
      else if b = 72 then vt_done (on_screen (cursor_position 0 0) e)
      else if b = 73 then vt_done (on_screen vt_reverse_linefeed e)
      else if b = 74 then vt_done (on_screen erase_to_end_of_screen e)
      else if b = 75 then vt_done (on_screen erase_to_end_of_line e)
      else if b = 89 then vt_keep b VT_SCAN_Y_1 e
      else if b = 90 then vt_done (Inr (qodem_write [27, 47, 75] e))
      else if b = 61 then vt_done (Inr (e\<lparr>vt_alternate_keypad := True\<rparr>))
      else if b = 62 then vt_done (Inr (e\<lparr>vt_alternate_keypad := False\<rparr>))
      else if b = 91 then (if em_vt52_color e then vt_keep b VT_SCAN_CSI e
                           else vt_done (Inr (e\<lparr>em_hold_screen_mode := True\<rparr>)))
      else if b = 92 then vt_done (Inr (e\<lparr>em_hold_screen_mode := False\<rparr>))
      else vt_dump b e)"

text \<open>The cursor position; a byte below a space counts as the first row or column.\<close>

definition vt_position :: "byte \<Rightarrow> emulator \<Rightarrow> emulated" where
  "vt_position b e =
     vt_done (on_screen (cursor_position (unat (em_buffer e ! 2) - 32) (unat b - 32)) e)"

definition vt_csi :: "byte \<Rightarrow> emulator \<Rightarrow> emulated" where
  "vt_csi b e =
     (if is_digit b then vt_keep b VT_SCAN_CSI_PARAM (e\<lparr>vt_count := em_n e\<rparr>)
      else if b = 109 then vt_done (on_screen (\<lambda>s. Inr (s\<lparr>sc_color := console_text s\<rparr>)) e)
      else vt_none b (vt_clear (e\<lparr>em_hold_screen_mode := True\<rparr>)))"

definition vt_csi_param :: "byte \<Rightarrow> emulator \<Rightarrow> emulated" where
  "vt_csi_param b e =
     (if is_digit b \<or> b = 59 then vt_keep b VT_SCAN_CSI_PARAM e
      else if b = 109 then
        andthen (ansi_color (em_screen e) (vt_attributes e) (drop (vt_count e) (em_buffer e))) (\<lambda>(ok, a).
          let e1 = e\<lparr>vt_attributes := a\<rparr>
          in if ok then vt_done (on_screen (\<lambda>s. Inr (s\<lparr>sc_color := a\<rparr>)) e1) else vt_dump b e1)
      else vt_dump b e)"

definition vt52 :: "byte \<Rightarrow> emulator \<Rightarrow> emulated" where
  "vt52 from_modem e =
     (let b = from_modem AND 0x7F
      in case vt_scan e of
           VT_SCAN_NONE \<Rightarrow> vt_none b e
         | VT_SCAN_ESC \<Rightarrow> vt_esc b e
         | VT_SCAN_Y_1 \<Rightarrow> vt_keep b VT_SCAN_Y_2 e
         | VT_SCAN_Y_2 \<Rightarrow> vt_position b e
         | VT_SCAN_CSI \<Rightarrow> vt_csi b e
         | VT_SCAN_CSI_PARAM \<Rightarrow> vt_csi_param b e)"

definition vt52_reset :: "emulator \<Rightarrow> emulator" where
  "vt52_reset e = e\<lparr>vt_scan := VT_SCAN_NONE, vt_graphics := False, vt_alternate_keypad := False\<rparr>"

section \<open>The dispatcher\<close>

text \<open>
  \<open>terminal_emulator\<close> for the three emulations; with another one, which is not modelled, the
  model stops with \<open>Undefined\<close>.  A full buffer is emptied first.  After
  \<open>MANY_CHARS\<close> the characters of the buffer are returned one by one; the byte that is passed
  does not matter then.
\<close>

definition junk_buffer :: "emulator \<Rightarrow> emulator" where
  "junk_buffer e =
     (if EMUL_BUFFER_SIZE - 1 \<le> em_n e then (clear_buffer e)\<lparr>em_last := Q_EMUL_FSM_NO_CHAR_YET\<rparr> else e)"

definition next_dumped :: "emulator \<Rightarrow> emulated" where
  "next_dumped e =
     (if em_n e = 0 then no_char (e\<lparr>em_last := Q_EMUL_FSM_NO_CHAR_YET, em_to_screen := 0\<rparr>)
      else check (em_i e < EMUL_BUFFER_SIZE) Buffer_overflow
        (let e1 = e\<lparr>em_to_screen := map_char e (em_buffer e ! em_i e), em_i := em_i e + 1\<rparr>
         in Inr (Q_EMUL_FSM_MANY_CHARS, if em_i e1 = em_n e1 then clear_buffer e1 else e1)))"

definition emulate :: "byte \<Rightarrow> emulator \<Rightarrow> emulated" where
  "emulate b e =
     (let em = sc_emulation (em_screen e)
      in if em = Q_EMUL_ANSI then ansi b e else if em = Q_EMUL_VT52 then vt52 b e
         else if em = Q_EMUL_TTY then tty b e else Inl Undefined)"

definition terminal_emulator :: "byte \<Rightarrow> emulator \<Rightarrow> emulated" where
  "terminal_emulator b e0 =
     (let e = junk_buffer e0
      in if em_last e = Q_EMUL_FSM_MANY_CHARS then next_dumped e
         else
           let e1 = e\<lparr>em_bytes_received := em_bytes_received e + 1\<rparr>
           in if b = C_CR then andthen (on_screen cursor_carriage_return e1) (\<lambda>e2. no_char (e2\<lparr>em_to_screen := 1\<rparr>))
              else if b = C_LF then andthen (on_screen (cursor_linefeed False) e1) (\<lambda>e2. no_char (e2\<lparr>em_to_screen := 1\<rparr>))
              else andthen (emulate b e1) (\<lambda>(st, e2). Inr (st, e2\<lparr>em_last := st\<rparr>)))"

text \<open>
  The loop of \<open>console_process_incoming_data\<close> around it: the characters are printed until there
  is none left.
\<close>

partial_function (option) drain :: "emulation_status \<Rightarrow> emulator \<Rightarrow> emulator run option" where
  "drain st e =
     (case st of
        Q_EMUL_FSM_NO_CHAR_YET \<Rightarrow> Some (Inr e)
      | Q_EMUL_FSM_ONE_CHAR \<Rightarrow> Some (on_screen (print_character (em_to_screen e)) e)
      | Q_EMUL_FSM_MANY_CHARS \<Rightarrow>
          (case andthen (on_screen (print_character (em_to_screen e)) e) (terminal_emulator 255) of
             Inl f \<Rightarrow> Some (Inl f)
           | Inr (st1, e1) \<Rightarrow> drain st1 e1))"

declare drain.simps [code]

definition console_byte :: "byte \<Rightarrow> emulator \<Rightarrow> emulator run" where
  "console_byte b e =
     andthen (terminal_emulator b e) (\<lambda>(st, e1). case drain st e1 of None \<Rightarrow> Inl Diverges | Some r \<Rightarrow> r)"

fun console_bytes :: "byte list \<Rightarrow> emulator \<Rightarrow> emulator run" where
  "console_bytes [] e = Inr e"
| "console_bytes (b # bs) e = andthen (console_byte b e) (console_bytes bs)"

end
