(* ===== verification/Emulation_Tabs.thy ===== *)
theory Emulation_Tabs
  imports Screen_Scroll Emulation
begin

text \<open>
  One character printed left of the right margin, at the right margin, and the loops of the tab:
  with line wrap on they end at a multiple of eight or at their limit.
\<close>

section \<open>One character\<close>

lemma print_margin_cong:
  "sl_double_width (current_line t) = sl_double_width (current_line s) \<Longrightarrow> sc_emulation t = sc_emulation s \<Longrightarrow>
   sc_assume_80_columns t = sc_assume_80_columns s \<Longrightarrow> sc_WIDTH t = sc_WIDTH s \<Longrightarrow> sc_wide_font t = sc_wide_font s \<Longrightarrow>
   sc_right_margin t = sc_right_margin s \<Longrightarrow> print_margin t = print_margin s"
  by (simp add: print_margin_def halve_margin_def Let_def)

lemma print_margin_simps [simp]:
  "print_margin (s\<lparr>sc_wrap_flag := f\<rparr>) = print_margin s" "print_margin (s\<lparr>sc_cursor_x := x\<rparr>) = print_margin s"
  by (rule print_margin_cong; simp)+

lemma print_margin_set_current:
  assumes "screen_ok s" "sl_double_width ln = sl_double_width (current_line s)"
  shows "print_margin (set_current ln s) = print_margin s"
proof (rule print_margin_cong)
  show "sl_double_width (current_line (set_current ln s)) = sl_double_width (current_line s)"
    by (simp add: current_line_set_current [OF assms(1)] assms(2))
qed (simp_all add: set_current_def set_line_def)

text \<open>The line after the character was stored in it.\<close>

definition stored_line :: "u32 \<Rightarrow> screen \<Rightarrow> scrolline \<Rightarrow> scrolline" where
  "stored_line c s ln = (put_cell (sc_cursor_x s) c (sc_color s) ln)\<lparr>sl_length := max (sc_cursor_x s + 1) (sl_length ln)\<rparr>"

lemma set_current_twice: "set_current a (set_current b s) = set_current a s"
  by (simp add: set_current_def set_line_def)

lemma store_char_line:
  assumes "screen_ok s" "line_ok (columns s) ln" "sc_cursor_x s \<le> sl_length ln"
  shows "store_char c (set_current ln s) = Inr (set_current (stored_line c s ln) s)"
proof -
  have i: "\<not> sc_insert_mode s" "sc_cursor_x s < Q_MAX_LINE_LENGTH"
    using screen_okD(1,7) [OF assms(1)] by (simp_all add: geometry_ok_def)
  show ?thesis
  proof (cases "sc_cursor_x s < sl_length ln")
    case True
    then have "stored_line c s ln = put_cell (sc_cursor_x s) c (sc_color s) ln"
      by (cases ln) (simp add: stored_line_def put_cell_def max_def)
    then show ?thesis using True i
      by (simp add: store_char_def Let_def current_line_set_current [OF assms(1)] set_current_twice)
  next
    case False
    then have "sl_length ln = sc_cursor_x s" using assms(3) by simp
    then show ?thesis using i
      by (simp add: store_char_def Let_def current_line_set_current [OF assms(1)] set_current_twice stored_line_def max_def)
  qed
qed

definition padded_line :: "screen \<Rightarrow> scrolline" where
  "padded_line s = (case pad_line (sc_cursor_x s) (console_text s) (current_line s) of Inl f \<Rightarrow> current_line s | Inr ln \<Rightarrow> ln)"

lemma pad_double_width: "pad_line n a ln = Inr ln' \<Longrightarrow> sl_double_width ln' = sl_double_width ln"
proof -
  have "sl_double_width (fold (\<lambda>i. put_cell i c a) is ln) = sl_double_width ln" for c "is"
    by (induction "is" arbitrary: ln) simp_all
  then show "pad_line n a ln = Inr ln' \<Longrightarrow> ?thesis" by (auto simp: pad_line_def put_spaces_def check_def split: if_splits)
qed

lemma padded_line_ok:
  assumes "screen_ok s"
  shows "pad_line (sc_cursor_x s) (console_text s) (current_line s) = Inr (padded_line s)" "line_ok (columns s) (padded_line s)"
    "sc_cursor_x s \<le> sl_length (padded_line s)" "sl_double_width (padded_line s) = sl_double_width (current_line s)"
  using pad_current [OF assms, of "console_text s"] pad_double_width by (auto simp: surely_iff padded_line_def)

lemma stored_line_ok:
  assumes "screen_ok s"
  shows "line_ok (columns s) (stored_line c s (padded_line s))" "sl_double_width (stored_line c s (padded_line s)) = sl_double_width (current_line s)"
  using padded_line_ok [OF assms] screen_okD(6) [OF assms] by (auto simp: stored_line_def line_ok_def)

lemma print_inside:
  assumes s: "screen_ok s" and x: "sc_cursor_x s < print_margin s" and c: "c \<noteq> 7" "c \<noteq> 0"
  shows "print_character c s =
    Inr ((set_current (stored_line c s (padded_line s)) s)\<lparr>sc_wrap_flag := False, sc_cursor_x := sc_cursor_x s + 1\<rparr>)"
proof -
  let ?t = "set_current (padded_line s) s" and ?u = "set_current (stored_line c s (padded_line s)) s"
  have m: "print_margin ?t = print_margin s"
    by (rule print_margin_set_current [OF s padded_line_ok(4) [OF s]])
  have w: "wrap_before (print_margin s) ?t = Inr (set_current (padded_line s) (s\<lparr>sc_wrap_flag := False\<rparr>))"
    using x by (simp add: wrap_before_def set_current_def set_line_def)
  have st: "store_char c (set_current (padded_line s) (s\<lparr>sc_wrap_flag := False\<rparr>)) = Inr (?u\<lparr>sc_wrap_flag := False\<rparr>)"
    using store_char_line [of "s\<lparr>sc_wrap_flag := False\<rparr>" "padded_line s" c] s padded_line_ok [OF s]
    by (simp add: stored_line_def set_current_def set_line_def)
  have "advance_cursor (print_margin s) (?u\<lparr>sc_wrap_flag := False\<rparr>) = ?u\<lparr>sc_wrap_flag := False, sc_cursor_x := sc_cursor_x s + 1\<rparr>"
    using x by (simp add: advance_cursor_def)
  then show ?thesis using x c w st
    by (simp add: print_character_def padded_line_ok [OF s] print_glyph_def m)
qed

lemma print_at_margin:
  assumes s: "screen_ok s" and x: "sc_cursor_x s = print_margin s" and e: "\<not> vt100_like (sc_emulation s)" "sc_line_wrap s"
    and c: "c \<noteq> 7" "c \<noteq> 0"
  shows "surely (\<lambda>t. sc_cursor_x t = 0) (print_character c s)"
proof -
  have m: "print_margin (set_current (padded_line s) s) = print_margin s"
    by (rule print_margin_set_current [OF s padded_line_ok(4) [OF s]])
  have "surely (moved s) (print_character c s)" by (rule print_character_ok [OF s])
  then obtain t where t: "print_character c s = Inr t" by (auto simp: surely_iff)
  have "print_character c s = andthen (wrap_before (print_margin s) (set_current (padded_line s) s)) (\<lambda>s1.
      andthen (store_char c s1) (\<lambda>s2. wrap_current_line (advance_cursor (print_margin s) s2)))"
    using x e c unfolding print_character_def padded_line_ok(1) [OF s]
    by (simp add: print_glyph_def Let_def m)
  then have "andthen (wrap_before (print_margin s) (set_current (padded_line s) s)) (\<lambda>s1.
      andthen (store_char c s1) (\<lambda>s2. wrap_current_line (advance_cursor (print_margin s) s2))) = Inr t" using t by simp
  then have "sc_cursor_x t = 0" by (auto simp: andthen_eq_Inr intro: wrap_current_line_x)
  then show ?thesis by (simp add: t)
qed

section \<open>The tab\<close>

text \<open>The state of a screen in which a tab is harmless.\<close>

definition tab_safe :: "screen \<Rightarrow> bool" where
  "tab_safe s \<longleftrightarrow> sc_line_wrap s \<and> sc_cursor_x s \<le> print_margin s"

lemma space_step:
  assumes s: "screen_ok s" "tab_safe s" and e: "\<not> vt100_like (sc_emulation s)"
  shows "surely (\<lambda>t. moved s t \<and> tab_safe t \<and> (sc_cursor_x t = sc_cursor_x s + 1 \<or> sc_cursor_x t = 0)) (print_character 32 s)"
proof -
  obtain t where t: "print_character 32 s = Inr t" "moved s t" using print_character_ok [OF s(1), of 32] by (auto simp: surely_iff)
  have wrap: "sc_line_wrap t" using t(2) s(2) by (simp add: moved_def fixed_parts_def tab_safe_def)
  show ?thesis
  proof (cases "sc_cursor_x s < print_margin s")
    case True
    have "t = (set_current (stored_line 32 s (padded_line s)) s)\<lparr>sc_wrap_flag := False, sc_cursor_x := sc_cursor_x s + 1\<rparr>"
      using t(1) print_inside [OF s(1) True, of 32] by simp
    then have x: "sc_cursor_x t = sc_cursor_x s + 1" "print_margin t = print_margin s"
      by (simp_all add: print_margin_set_current [OF s(1) stored_line_ok(2) [OF s(1)]])
    then show ?thesis using t wrap True by (simp add: tab_safe_def)
  next
    case False
    then have "sc_cursor_x s = print_margin s" using s(2) by (simp add: tab_safe_def)
    then have "sc_cursor_x t = 0" using print_at_margin [OF s(1) _ e, of 32] s(2) t(1) by (simp add: tab_safe_def)
    then show ?thesis using t wrap by (simp add: tab_safe_def)
  qed
qed

lemma tab_loop_ends:
  "screen_ok s \<Longrightarrow> tab_safe s \<Longrightarrow> \<not> vt100_like (sc_emulation s) \<Longrightarrow>
   \<exists>t. tab_loop (print_character 32) limit s = Some (Inr t) \<and> moved s t \<and> tab_safe t \<and>
       (sc_cursor_x t mod 8 = 0 \<or> limit \<le> sc_cursor_x t)"
proof (induction "limit - sc_cursor_x s" arbitrary: s rule: less_induct)
  case less
  show ?case
  proof (cases "sc_cursor_x s < limit")
    case True
    obtain t where t: "print_character 32 s = Inr t" "moved s t" "tab_safe t" "sc_cursor_x t = sc_cursor_x s + 1 \<or> sc_cursor_x t = 0"
      using space_step [OF less.prems] by (auto simp: surely_iff)
    show ?thesis
    proof (cases "sc_cursor_x t mod 8 = 0")
      case True
      then show ?thesis using \<open>sc_cursor_x s < limit\<close> t by (subst tab_loop.simps) simp
    next
      case False
      then have x: "sc_cursor_x t = sc_cursor_x s + 1" using t(4) by auto
      have "\<not> vt100_like (sc_emulation t)" using t(2) less.prems(3) by (simp add: moved_def fixed_parts_def)
      then obtain u where u: "tab_loop (print_character 32) limit t = Some (Inr u)" "moved t u" "tab_safe u"
        "sc_cursor_x u mod 8 = 0 \<or> limit \<le> sc_cursor_x u"
        using less.hyps [of t] x True moved_ok [OF t(2)] t(3) by (auto simp: diff_less_mono2)
      then show ?thesis using t(1,2) False True by (subst tab_loop.simps) (auto intro: moved_trans)
    qed
  next
    case False
    then show ?thesis using less.prems by (subst tab_loop.simps) (simp add: moved_refl)
  qed
qed

lemma tab_by_ok:
  assumes "screen_ok s" "tab_safe s" "\<not> vt100_like (sc_emulation s)"
  shows "surely (\<lambda>t. moved s t \<and> tab_safe t \<and> (sc_cursor_x t mod 8 = 0 \<or> limit \<le> sc_cursor_x t)) (tab_by (print_character 32) limit s)"
  using tab_loop_ends [OF assms, of limit] by (auto simp: tab_by_def)

section \<open>The tab of the VT52\<close>

text \<open>The tab stop to the right of the cursor is on the screen.\<close>

definition vt_tab_safe :: "screen \<Rightarrow> bool" where
  "vt_tab_safe s \<longleftrightarrow> 80 \<le> sc_cursor_x s \<or> 8 * (sc_cursor_x s div 8 + 1) \<le> cursor_margin s"

lemma cursor_right_x:
  assumes "sc_cursor_x s < cursor_margin s" "screen_ok s"
  shows "surely (\<lambda>t. moved s t \<and> sc_cursor_x t = sc_cursor_x s + 1 \<and> cursor_margin t = cursor_margin s) (cursor_right 1 False s)"
proof -
  obtain t where t: "cursor_right 1 False s = Inr t" "moved s t" using cursor_right_ok [OF assms(2)] by (auto simp: surely_iff)
  have s: "screen_ok (s\<lparr>sc_wrap_flag := False\<rparr>)" using assms(2) by simp
  have "sc_cursor_x t = sc_cursor_x s + 1" "sl_double_width (current_line t) = sl_double_width (current_line s)"
    using t(1) assms(1) current_line_set_current [OF s]
    by (auto simp: cursor_right_def outside_region_def clear_wrap_flag_def Let_def check_def split: if_splits)
  moreover have "sc_right_margin t = sc_right_margin s" "sc_WIDTH t = sc_WIDTH s" using t(2) by (simp_all add: moved_def fixed_parts_def)
  ultimately show ?thesis using t by (simp add: cursor_margin_def halve_margin_def)
qed

lemma vt_tab_loop_ends:
  "screen_ok s \<Longrightarrow> 8 * (sc_cursor_x s div 8 + 1) \<le> cursor_margin s \<Longrightarrow>
   \<exists>t. tab_loop (cursor_right 1 False) limit s = Some (Inr t) \<and> moved s t"
proof (induction "8 * (sc_cursor_x s div 8 + 1) - sc_cursor_x s" arbitrary: s rule: less_induct)
  case less
  have lt: "sc_cursor_x s < 8 * (sc_cursor_x s div 8 + 1)" by presburger
  then have "sc_cursor_x s < cursor_margin s" using less.prems(2) by linarith
  then obtain t where t: "cursor_right 1 False s = Inr t" "moved s t" "sc_cursor_x t = sc_cursor_x s + 1" "cursor_margin t = cursor_margin s"
    using cursor_right_x [OF _ less.prems(1)] by (auto simp: surely_iff)
  show ?case
  proof (cases "sc_cursor_x s < limit \<and> sc_cursor_x t mod 8 \<noteq> 0")
    case True
    have d: "sc_cursor_x t div 8 = sc_cursor_x s div 8" using True t(3) by presburger
    have "\<exists>u. tab_loop (cursor_right 1 False) limit t = Some (Inr u) \<and> moved t u"
      using less.hyps [of t] less.prems(2) t(3,4) d lt moved_ok [OF t(2)] by simp
    then show ?thesis using True t(1,2) by (subst tab_loop.simps) (auto intro: moved_trans)
  next
    case False
    then show ?thesis using t(1,2) moved_refl [OF less.prems(1)] by (subst tab_loop.simps) auto
  qed
qed

lemma vt_tab_ok:
  assumes "screen_ok s" "vt_tab_safe s"
  shows "surely (moved s) (tab_by (cursor_right 1 False) 80 s)"
proof (cases "80 \<le> sc_cursor_x s")
  case True
  then show ?thesis using moved_refl [OF assms(1)] by (simp add: tab_by_def tab_loop.simps [of _ 80 s])
next
  case False
  then show ?thesis using vt_tab_loop_ends [OF assms(1), of 80] assms(2) by (auto simp: tab_by_def vt_tab_safe_def)
qed

end
