(* ===== verification/Emulation_Safety.thy ===== *)
theory Emulation_Safety
  imports Emulation_Tabs
begin

text \<open>
  The invariant of the emulator and the bytes it survives.  \<open>settled st e\<close>: the screen is right,
  the buffer holds at most 127 bytes followed by zeros, and after the status \<open>st\<close> the indices into
  the buffer are within it.  \<open>hazard\<close> names the bytes of which the program may not survive or not
  return; every other byte is processed and leaves a settled emulator.
\<close>

unbundle bit_operations_syntax

section \<open>The invariant\<close>

definition stays :: "screen \<Rightarrow> screen \<Rightarrow> bool" where
  "stays s t \<longleftrightarrow> screen_ok t \<and> sc_emulation t = sc_emulation s"

definition modelled :: "emulator \<Rightarrow> bool" where
  "modelled e \<longleftrightarrow> sc_emulation (em_screen e) \<in> {Q_EMUL_ANSI, Q_EMUL_VT52, Q_EMUL_TTY}"

definition counts_ok :: "emulator \<Rightarrow> bool" where
  "counts_ok e \<longleftrightarrow> an_count e \<le> 126 \<and> vt_count e \<le> 126 \<and> (an_scan e = AN_SCAN_MUSIC \<longrightarrow> an_music_n e < ANSI_MUSIC_BUFFER_SIZE)"

definition bytes_ok :: "emulator \<Rightarrow> bool" where
  "bytes_ok e \<longleftrightarrow> length (em_buffer e) = EMUL_BUFFER_SIZE \<and> em_n e < EMUL_BUFFER_SIZE \<and>
     (\<forall>i. max 1 (em_n e) \<le> i \<and> i < EMUL_BUFFER_SIZE \<longrightarrow> em_buffer e ! i = 0)"

definition idle :: "emulator \<Rightarrow> bool" where
  "idle e \<longleftrightarrow> (sc_emulation (em_screen e) = Q_EMUL_ANSI \<longrightarrow> an_scan e = AN_SCAN_NONE) \<and>
     (sc_emulation (em_screen e) = Q_EMUL_VT52 \<longrightarrow> vt_scan e = VT_SCAN_NONE)"

definition settled :: "emulation_status \<Rightarrow> emulator \<Rightarrow> bool" where
  "settled st e \<longleftrightarrow> screen_ok (em_screen e) \<and> modelled e \<and> counts_ok e \<and> bytes_ok e \<and>
     (if st = Q_EMUL_FSM_MANY_CHARS then idle e \<and> (em_i e < em_n e \<or> (em_n e = 0 \<and> em_i e = 0)) else em_i e = 0)"

definition emulator_ok :: "emulator \<Rightarrow> bool" where
  "emulator_ok e \<longleftrightarrow> settled (em_last e) e"

text \<open>Before a byte is interpreted there is room for it in the buffer.\<close>

definition ready :: "emulator \<Rightarrow> bool" where
  "ready e \<longleftrightarrow> screen_ok (em_screen e) \<and> modelled e \<and> counts_ok e \<and> bytes_ok e \<and> em_n e \<le> 126 \<and> em_i e = 0"

abbreviation survives :: "emulated \<Rightarrow> bool" where
  "survives r \<equiv> surely (\<lambda>(st, e). settled st e) r"

text \<open>An operation that leaves the buffer alone.\<close>

definition buffer_kept :: "emulator \<Rightarrow> emulator \<Rightarrow> bool" where
  "buffer_kept e e1 \<longleftrightarrow> stays (em_screen e) (em_screen e1) \<and> an_count e1 = an_count e \<and> vt_count e1 = vt_count e \<and>
     an_scan e1 = an_scan e \<and> an_music_n e1 = an_music_n e \<and> em_buffer e1 = em_buffer e \<and> em_n e1 = em_n e \<and> em_i e1 = em_i e"

lemma moved_stays: "moved s t \<Longrightarrow> stays s t"
  by (simp add: moved_def stays_def fixed_parts_def)

lemma stays_trans: "stays s t \<Longrightarrow> stays t u \<Longrightarrow> stays s u"
  by (simp add: stays_def)

lemma kept_on_screen: "surely (stays (em_screen e)) (f (em_screen e)) \<Longrightarrow> surely (buffer_kept e) (on_screen f e)"
  by (auto simp: on_screen_def buffer_kept_def surely_iff)

lemma kept_moved: "surely (moved (em_screen e)) (f (em_screen e)) \<Longrightarrow> surely (buffer_kept e) (on_screen f e)"
  by (rule kept_on_screen) (erule surely_mono, erule moved_stays)

lemma kept_same: "screen_ok (em_screen e) \<Longrightarrow> em_screen e1 = em_screen e \<Longrightarrow> an_count e1 = an_count e \<Longrightarrow> vt_count e1 = vt_count e \<Longrightarrow>
    an_scan e1 = an_scan e \<Longrightarrow> an_music_n e1 = an_music_n e \<Longrightarrow> em_buffer e1 = em_buffer e \<Longrightarrow> em_n e1 = em_n e \<Longrightarrow> em_i e1 = em_i e \<Longrightarrow> buffer_kept e e1"
  by (simp add: buffer_kept_def stays_def)

lemma ready_kept: "ready e \<Longrightarrow> buffer_kept e e1 \<Longrightarrow> ready e1"
  by (simp add: ready_def buffer_kept_def stays_def modelled_def counts_ok_def bytes_ok_def)

lemma readyD: "ready e \<Longrightarrow> screen_ok (em_screen e)" "ready e \<Longrightarrow> em_n e \<le> 126" "ready e \<Longrightarrow> em_i e = 0"
  "ready e \<Longrightarrow> em_n e < EMUL_BUFFER_SIZE" "ready e \<Longrightarrow> modelled e"
  by (simp_all add: ready_def EMUL_BUFFER_SIZE_def)

lemma ready_settled: "ready e \<Longrightarrow> st \<noteq> Q_EMUL_FSM_MANY_CHARS \<Longrightarrow> settled st e"
  by (simp add: ready_def settled_def)

section \<open>Ends of a step\<close>

lemma clear_bytes_ok: "bytes_ok (clear_buffer e)"
  by (simp add: bytes_ok_def clear_buffer_def EMUL_BUFFER_SIZE_def)

lemma an_clear_settled: "ready e \<Longrightarrow> st \<noteq> Q_EMUL_FSM_MANY_CHARS \<Longrightarrow> settled st (an_clear e)"
  by (auto simp: ready_def settled_def an_clear_def modelled_def counts_ok_def bytes_ok_def clear_buffer_def EMUL_BUFFER_SIZE_def)

lemma vt_clear_settled: "ready e \<Longrightarrow> st \<noteq> Q_EMUL_FSM_MANY_CHARS \<Longrightarrow> settled st (vt_clear e)"
  by (auto simp: ready_def settled_def vt_clear_def modelled_def counts_ok_def bytes_ok_def clear_buffer_def EMUL_BUFFER_SIZE_def)

lemma an_done_survives: "ready e \<Longrightarrow> surely (buffer_kept e) r \<Longrightarrow> survives (an_done r)"
  unfolding an_done_def no_char_def by (erule surely_andthen) (simp add: an_clear_settled ready_kept)

lemma vt_done_survives: "ready e \<Longrightarrow> surely (buffer_kept e) r \<Longrightarrow> survives (vt_done r)"
  unfolding vt_done_def no_char_def by (erule surely_andthen) (simp add: vt_clear_settled ready_kept)

lemma push_byte_ready: "ready e \<Longrightarrow> push_byte b e = Inr (e\<lparr>em_buffer := (em_buffer e)[em_n e := b], em_n := em_n e + 1\<rparr>)"
  by (simp add: push_byte_def readyD)

lemma pushed_bytes_ok: "ready e \<Longrightarrow> bytes_ok (e\<lparr>em_buffer := (em_buffer e)[em_n e := b], em_n := em_n e + 1\<rparr>)"
  by (auto simp: ready_def bytes_ok_def EMUL_BUFFER_SIZE_def)

lemma pushed_settled:
  "ready e \<Longrightarrow> em_screen e1 = em_screen e \<Longrightarrow> em_buffer e1 = (em_buffer e)[em_n e := b] \<Longrightarrow> em_n e1 = em_n e + 1 \<Longrightarrow> em_i e1 = 0 \<Longrightarrow>
   counts_ok e1 \<Longrightarrow> settled Q_EMUL_FSM_NO_CHAR_YET e1"
  using pushed_bytes_ok [of e b] by (simp add: settled_def bytes_ok_def modelled_def readyD) (simp add: ready_def modelled_def)

lemma an_keep_survives: "ready e \<Longrightarrow> st \<noteq> AN_SCAN_MUSIC \<Longrightarrow> survives (an_keep b st e)"
  by (simp add: an_keep_def save_char_def push_byte_ready no_char_def)
    (rule pushed_settled [of e _ b], auto simp: readyD, simp add: ready_def counts_ok_def)

lemma vt_keep_survives: "ready e \<Longrightarrow> survives (vt_keep b st e)"
  by (simp add: vt_keep_def save_char_def push_byte_ready no_char_def)
    (rule pushed_settled [of e _ b], auto simp: readyD, simp add: ready_def counts_ok_def)

lemma dump_survives:
  assumes "ready e" "idle e"
  shows "survives (dump_sequence b e)"
proof (cases "em_n e = 0")
  case True
  then show ?thesis using assms
    by (auto simp: dump_sequence_def push_byte_ready readyD Let_def settled_def counts_ok_def modelled_def EMUL_BUFFER_SIZE_def)
      (auto simp: ready_def bytes_ok_def counts_ok_def modelled_def EMUL_BUFFER_SIZE_def)
next
  case False
  then show ?thesis using assms pushed_bytes_ok [OF assms(1), of b]
    by (auto simp: dump_sequence_def push_byte_ready readyD Let_def settled_def EMUL_BUFFER_SIZE_def)
      (auto simp: ready_def idle_def counts_ok_def modelled_def bytes_ok_def)
qed

lemma an_dump_survives: "ready e \<Longrightarrow> sc_emulation (em_screen e) = Q_EMUL_ANSI \<Longrightarrow> survives (an_dump b e)"
  unfolding an_dump_def by (rule dump_survives) (auto simp: ready_def idle_def counts_ok_def modelled_def bytes_ok_def)

lemma vt_dump_survives: "ready e \<Longrightarrow> sc_emulation (em_screen e) = Q_EMUL_VT52 \<Longrightarrow> survives (vt_dump b e)"
  unfolding vt_dump_def by (rule dump_survives) (auto simp: ready_def idle_def counts_ok_def modelled_def bytes_ok_def)

lemma one_char_survives: "ready e \<Longrightarrow> em_screen e1 = em_screen e \<Longrightarrow> em_buffer e1 = em_buffer e \<Longrightarrow> em_n e1 = em_n e \<Longrightarrow> em_i e1 = em_i e \<Longrightarrow>
    an_count e1 = an_count e \<Longrightarrow> vt_count e1 = vt_count e \<Longrightarrow> an_scan e1 = an_scan e \<Longrightarrow> an_music_n e1 = an_music_n e \<Longrightarrow>
    st \<noteq> Q_EMUL_FSM_MANY_CHARS \<Longrightarrow> survives (Inr (st, e1))"
  by (simp add: settled_def ready_def modelled_def counts_ok_def bytes_ok_def)

lemma no_char_survives: "ready e \<Longrightarrow> surely (buffer_kept e) r \<Longrightarrow> survives (andthen r (\<lambda>e1. no_char (e1\<lparr>em_to_screen := 1\<rparr>)))"
  unfolding no_char_def by (erule surely_andthen, rule one_char_survives, erule (1) ready_kept) simp_all

section \<open>Parameters\<close>

definition zero_ended :: "byte list \<Rightarrow> bool" where
  "zero_ended bs \<longleftrightarrow> (\<exists>xs. bs = xs @ [0, 0])"

lemma digits_before_zero: "length (takeWhile is_digit (take n (xs @ [0, 0]))) \<le> length xs"
proof (rule ccontr)
  let ?ds = "takeWhile is_digit (take n (xs @ [0, 0]))"
  assume "\<not> length ?ds \<le> length xs"
  then have lt: "length xs < length ?ds" by simp
  then have "?ds ! length xs = take n (xs @ [0, 0]) ! length xs" by (rule takeWhile_nth)
  also have "\<dots> = 0"
    using lt length_takeWhile_le [of is_digit "take n (xs @ [0, 0])"] by (simp add: nth_append)
  finally have "0 \<in> set ?ds" using lt nth_mem by metis
  then show False using set_takeWhileD [of 0 is_digit] by (auto simp: is_digit_def)
qed

lemma read_ps_zero_ended:
  assumes "zero_ended bs"
  shows "\<exists>r. read_ps bs = Inr r \<and> (\<forall>v rest. r = Some (v, rest) \<longrightarrow> zero_ended rest)"
proof -
  obtain xs where bs: "bs = xs @ [0, 0]" using assms by (auto simp: zero_ended_def)
  define k where "k = length (takeWhile is_digit (take 6 bs))"
  have k: "k \<le> length xs" using digits_before_zero [of 6 xs] by (simp add: k_def bs)
  then have "drop k bs = drop k xs @ [0, 0]" by (simp add: bs)
  then show ?thesis by (auto simp: read_ps_def Let_def k_def [symmetric] zero_ended_def)
qed

lemma zero_endedD: "zero_ended bs \<Longrightarrow> bs \<noteq> []" "zero_ended bs \<Longrightarrow> 1 < length bs" "zero_ended bs \<Longrightarrow> hd bs \<noteq> 0 \<Longrightarrow> zero_ended (tl bs)"
proof -
  show "zero_ended bs \<Longrightarrow> bs \<noteq> []" "zero_ended bs \<Longrightarrow> 1 < length bs" by (auto simp: zero_ended_def)
  show "zero_ended bs \<Longrightarrow> hd bs \<noteq> 0 \<Longrightarrow> zero_ended (tl bs)" by (auto simp: zero_ended_def) (metis hd_append list.sel(1) tl_append2)
qed

lemma one_parameter_total: "zero_ended bs \<Longrightarrow> \<exists>r. one_parameter bs = Inr r"
proof -
  assume z: "zero_ended bs"
  obtain r where r: "read_ps bs = Inr r" "\<forall>v rest. r = Some (v, rest) \<longrightarrow> zero_ended rest" using read_ps_zero_ended [OF z] by blast
  have "2 < length rest" if "zero_ended rest" "hd rest = 59" for rest
    using zero_endedD(3) [OF that(1)] that zero_endedD(2) [of "tl rest"] by (cases rest) auto
  then show ?thesis using r zero_endedD(1) [OF z] by (cases r) (auto simp: one_parameter_def)
qed

lemma position_column_total: "zero_ended bs \<Longrightarrow> \<exists>r. position_column row bs = Inr r"
proof -
  assume z: "zero_ended bs"
  have pe: "\<exists>r. position_end a c rest = Inr r" if "zero_ended rest" for a c rest
    using zero_endedD(2) [OF that] by (simp add: position_end_def)
  show ?thesis
  proof (cases "hd bs = 59")
    case True
    then have "zero_ended (tl bs)" using zero_endedD(3) [OF z] by simp
    then obtain r where "read_ps (tl bs) = Inr r" "\<forall>v rest. r = Some (v, rest) \<longrightarrow> zero_ended rest" using read_ps_zero_ended by blast
    then show ?thesis using pe True zero_endedD(1) [OF z] by (cases r) (auto simp: position_column_def)
  qed (use pe [OF z] zero_endedD(1) [OF z] in \<open>auto simp: position_column_def\<close>)
qed

lemma ansi_position_total: "zero_ended bs \<Longrightarrow> \<exists>r. ansi_position bs = Inr r"
proof -
  assume z: "zero_ended bs"
  obtain r where r: "read_ps bs = Inr r" "\<forall>v rest. r = Some (v, rest) \<longrightarrow> zero_ended rest" using read_ps_zero_ended [OF z] by blast
  have "\<exists>r. position_column 0 (tl bs) = Inr r" if "hd bs = 59"
    by (rule position_column_total) (use zero_endedD(3) [OF z] that in simp)
  then show ?thesis using r zero_endedD(1) [OF z] position_column_total by (cases r) (auto simp: ansi_position_def)
qed

lemma sgr_loop_total: "zero_ended bs \<Longrightarrow> \<exists>r. sgr_loop s st bs = Inr r"
proof (induction s st bs rule: sgr_loop.induct)
  case (1 s st bs)
  obtain r where r: "read_ps bs = Inr r" "\<forall>v rest. r = Some (v, rest) \<longrightarrow> zero_ended rest" using read_ps_zero_ended [OF 1(2)] by blast
  show ?case
  proof (cases r)
    case None
    then show ?thesis using r(1) zero_endedD(1) [OF 1(2)] by (subst sgr_loop.simps) auto
  next
    case (Some p)
    obtain v rest where p: "p = (v, rest)" by (cases p)
    obtain out fg bg where t: "sgr_parameter s v st = (out, fg, bg)" by (cases "sgr_parameter s v st") auto
    show ?thesis
    proof (cases "hd rest = 59")
      case True
      have "zero_ended (tl rest)" using r(2) Some p zero_endedD(3) [of rest] True by simp
      then have "\<exists>x. sgr_loop s (out, fg, bg) (tl rest) = Inr x"
        using 1(1) [OF zero_endedD(1) [OF 1(2)] r(1) Some p [symmetric] t [symmetric] refl True] by simp
      then show ?thesis using r(1) Some p t True zero_endedD(1) [OF 1(2)] by (subst sgr_loop.simps) simp
    qed (use r(1) Some p t zero_endedD(1) [OF 1(2)] in \<open>subst sgr_loop.simps, auto\<close>)
  qed
qed

lemma ready_zero_ended: "ready e \<Longrightarrow> k \<le> 126 \<Longrightarrow> zero_ended (drop k (em_buffer e))"
proof -
  assume e: "ready e" and k: "k \<le> 126"
  have b: "length (em_buffer e) = 128" "em_buffer e ! 126 = 0" "em_buffer e ! 127 = 0"
    using e by (auto simp: ready_def bytes_ok_def EMUL_BUFFER_SIZE_def)
  have "em_buffer e = take 126 (em_buffer e) @ drop 126 (em_buffer e)" by simp
  also have "drop 126 (em_buffer e) = [0, 0]"
    using b by (intro nth_equalityI) (auto simp: less_Suc_eq numeral_2_eq_2)
  finally have "drop k (em_buffer e) = drop k (take 126 (em_buffer e) @ [0, 0])" by simp
  also have "\<dots> = drop k (take 126 (em_buffer e)) @ [0, 0]" using k b(1) by simp
  finally show ?thesis unfolding zero_ended_def by blast
qed

section \<open>The emulations\<close>

text \<open>
  A tab where it may not end, in ANSI and TTY with the line wrap off or the cursor beyond the right
  margin, in VT52 with the tab stop beyond the margin; the insertion of characters (ICH); and
  in TTY an underscore in the last column.
\<close>

definition hazard :: "byte \<Rightarrow> emulator \<Rightarrow> bool" where
  "hazard b e \<longleftrightarrow>
     (let s = em_screen e
      in if sc_emulation s = Q_EMUL_ANSI then
           (an_scan e = AN_SCAN_NONE \<and> b = 9 \<and> \<not> tab_safe s) \<or>
           (an_scan e \<in> {AN_SCAN_START_SEQUENCE, AN_SCAN_COUNT} \<and> (b = 64 \<or> (b = 73 \<and> \<not> tab_safe s)))
         else if sc_emulation s = Q_EMUL_VT52 then b AND 0x7F = 9 \<and> \<not> vt_tab_safe s
         else (b = 9 \<and> \<not> tab_safe s) \<or> (b = 95 \<and> columns s \<le> sc_cursor_x s + 1))"

lemma cursor_left_kept: "ready e \<Longrightarrow> surely (buffer_kept e) (on_screen (\<lambda>s. Inr (cursor_left n h s)) e)"
  by (rule kept_moved) (simp add: readyD cursor_left_ok)

lemma tab_kept: "ready e \<Longrightarrow> tab_safe (em_screen e) \<Longrightarrow> \<not> vt100_like (sc_emulation (em_screen e)) \<Longrightarrow>
    surely (buffer_kept e) (on_screen (tab_by (print_character 32) n) e)"
  by (rule kept_moved, rule surely_mono, rule tab_by_ok) (simp_all add: readyD)

lemma vt100_like_simps [simp]: "\<not> vt100_like Q_EMUL_ANSI" "\<not> vt100_like Q_EMUL_TTY" "\<not> vt100_like Q_EMUL_VT52"
  by (simp_all add: vt100_like_def)

text \<open>The operations of the screen that always succeed, lifted to the emulator.\<close>

lemma screen_kept:
  assumes "ready e"
  shows "surely (buffer_kept e) (on_screen (cursor_linefeed nl) e)" "surely (buffer_kept e) (on_screen cursor_formfeed e)"
    "surely (buffer_kept e) (on_screen cursor_carriage_return e)" "surely (buffer_kept e) (on_screen (print_character c) e)"
    "surely (buffer_kept e) (on_screen (cursor_up n h) e)" "surely (buffer_kept e) (on_screen (cursor_down n h) e)"
    "surely (buffer_kept e) (on_screen (cursor_right n h) e)" "surely (buffer_kept e) (on_screen (cursor_position row col) e)"
    "surely (buffer_kept e) (on_screen (delete_character n) e)" "surely (buffer_kept e) (on_screen (\<lambda>s. cursor_position row (sc_cursor_x s) s) e)"
    "surely (buffer_kept e) (on_screen (\<lambda>s. cursor_position (sc_cursor_y s) col s) e)"
  using readyD(1) [OF assms]
  by (auto intro!: kept_moved cursor_linefeed_ok cursor_formfeed_ok cursor_carriage_return_ok print_character_ok cursor_up_ok
      cursor_down_ok cursor_right_ok cursor_position_ok delete_character_ok)

lemma control_kept:
  assumes "ready e" "b = 9 \<Longrightarrow> tab_safe (em_screen e)" "\<not> vt100_like (sc_emulation (em_screen e))"
  shows "surely (buffer_kept e) (generic_handle_control_char b e)"
proof -
  have q: "surely (buffer_kept e) (Inr (qodem_write bs e))" "surely (buffer_kept e) (Inr e)" for bs
    using readyD(1) [OF assms(1)] by (simp_all add: qodem_write_def kept_same)
  show ?thesis using q screen_kept [OF assms(1)] cursor_left_kept [OF assms(1)] tab_kept [OF assms(1)] assms(2,3)
    unfolding generic_handle_control_char_def by presburger
qed

lemma an_none_survives:
  assumes e: "ready e" and a: "sc_emulation (em_screen e) = Q_EMUL_ANSI" and h: "b = 9 \<Longrightarrow> tab_safe (em_screen e)"
  shows "survives (an_none b e)"
proof -
  have "survives (andthen (save_char b e) (\<lambda>e1. no_char (e1\<lparr>an_scan := AN_SCAN_ESC, an_attributes := sc_color (em_screen e1)\<rparr>)))"
    using e by (simp add: save_char_def push_byte_ready no_char_def) (rule pushed_settled [of e _ b], auto simp: readyD, simp add: ready_def counts_ok_def)
  moreover have "survives (andthen (generic_handle_control_char b e) (\<lambda>e1. no_char (e1\<lparr>em_to_screen := 1\<rparr>)))"
    by (rule no_char_survives [OF e control_kept [OF e h]]) (simp_all add: a)
  moreover have "survives (Inr (Q_EMUL_FSM_ONE_CHAR, e\<lparr>em_to_screen := map_char e b, an_rep := map_char e b\<rparr>))"
    by (rule one_char_survives [OF e]) simp_all
  ultimately show ?thesis unfolding an_none_def by presburger
qed

lemma an_esc_survives:
  assumes e: "ready e" and a: "sc_emulation (em_screen e) = Q_EMUL_ANSI"
  shows "survives (an_esc b e)"
proof -
  have "survives (an_done (an_identify e))"
    by (rule an_done_survives [OF e]) (use readyD(1) [OF e] in \<open>simp add: an_identify_def qodem_write_def kept_same\<close>)
  moreover have "survives (no_char (e\<lparr>em_to_screen := 1\<rparr>))" unfolding no_char_def by (rule one_char_survives [OF e]) simp_all
  moreover have "survives (an_keep b AN_SCAN_START_SEQUENCE e)" by (rule an_keep_survives [OF e]) simp
  ultimately show ?thesis using an_dump_survives [OF e a] unfolding an_esc_def by presburger
qed

lemma surely_if: "(b \<Longrightarrow> surely Q r) \<Longrightarrow> (\<not> b \<Longrightarrow> surely Q r') \<Longrightarrow> surely Q (if b then r else r')"
  by simp

lemma erasing_ok:
  assumes s: "screen_ok s"
  shows "surely (moved s) (erase_to_end_of_line s)" "surely (moved s) (erase_to_end_of_screen s)"
    "surely (moved s) (an_erase_line v s)" "surely (moved s) (an_erase_screen v s)"
    "surely (moved s) (an_scroll_down v s)" "surely (moved s) (an_scroll_up v s)"
proof -
  have len: "sl_length (current_line s) < Q_MAX_LINE_LENGTH"
    using screen_okD(10) [OF s] columns_lt [OF screen_okD(1) [OF s]] by (simp add: line_ok_def)
  have b: "sc_region_bottom s \<le> last_row s" using screen_okD(1) [OF s] by (simp add: geometry_ok_def)
  note facts = erase_line_ok [OF s] erase_screen_ok [OF s] cursor_formfeed_ok [OF s] moved_refl [OF s] screen_okD(7,8) [OF s]
    len screen_width_lt [OF s]
  show a: "surely (moved s) (erase_to_end_of_line s)" "surely (moved s) (erase_to_end_of_screen s)"
    unfolding erase_to_end_of_line_def erase_to_end_of_screen_def by (simp_all add: facts del: One_nat_def)
  show "surely (moved s) (an_erase_line v s)" "surely (moved s) (an_erase_screen v s)"
    unfolding an_erase_line_def an_erase_screen_def by (simp_all add: a facts)
  show "surely (moved s) (an_scroll_down v s)" "surely (moved s) (an_scroll_up v s)"
    unfolding an_scroll_down_def an_scroll_up_def by (simp_all add: region_scroll_ok [OF s b])
qed

lemma erasing_kept:
  assumes "ready e"
  shows "surely (buffer_kept e) (on_screen erase_to_end_of_line e)" "surely (buffer_kept e) (on_screen erase_to_end_of_screen e)"
    "surely (buffer_kept e) (on_screen (an_erase_line v) e)" "surely (buffer_kept e) (on_screen (an_erase_screen v) e)"
    "surely (buffer_kept e) (on_screen (an_scroll_down v) e)" "surely (buffer_kept e) (on_screen (an_scroll_up v) e)"
  using readyD(1) [OF assms] by (auto intro!: kept_moved erasing_ok)

lemma color_kept: "ready e \<Longrightarrow> surely (buffer_kept e) (on_screen (\<lambda>s. Inr (s\<lparr>sc_color := f s\<rparr>)) e)"
  by (rule kept_moved) (simp add: moved_def readyD)

lemma an_start_survives:
  assumes e: "ready e" and a: "sc_emulation (em_screen e) = Q_EMUL_ANSI" and h: "b \<noteq> 64" "b = 73 \<Longrightarrow> tab_safe (em_screen e)"
  shows "survives (an_start b e)"
proof -
  let ?e = "e\<lparr>an_count := em_n e\<rparr>"
  have e': "ready ?e" using e by (simp add: ready_def modelled_def counts_ok_def bytes_ok_def)
  note fin = an_done_survives [OF e]
  have ident: "surely (buffer_kept e) (an_identify e)" "surely (buffer_kept e) (Inr e)"
    "surely (buffer_kept e) (Inr (e\<lparr>an_saved_x := sc_cursor_x (em_screen e), an_saved_y := sc_cursor_y (em_screen e)\<rparr>))"
    using readyD(1) [OF e] by (simp_all add: an_identify_def qodem_write_def kept_same)
  have flags: "survives (no_char (e\<lparr>an_private := True\<rparr>))" "survives (no_char (e\<lparr>an_dec_private := True\<rparr>))"
    "survives (no_char (e\<lparr>an_discard := True\<rparr>))"
    unfolding no_char_def by (rule one_char_survives [OF e]; simp)+
  have music: "survives (no_char (e\<lparr>an_music := m, an_music_n := 1, an_scan := AN_SCAN_MUSIC\<rparr>))" for m
    using e by (simp add: no_char_def settled_def ready_def modelled_def counts_ok_def bytes_ok_def ANSI_MUSIC_BUFFER_SIZE_def)
  have tab: "b = 73 \<Longrightarrow> surely (buffer_kept e) (on_screen (tab_by (print_character 32) 79) e)"
    by (rule tab_kept [OF e h(2)]) (simp_all add: a)
  show ?thesis unfolding an_start_def
    by (intro surely_if; (erule notE [OF h(1)] | rule flags music | rule an_keep_survives [OF e']; simp |
        rule an_dump_survives [OF e a] | rule fin; (rule ident cursor_left_kept [OF e] screen_kept [OF e] erasing_kept [OF e] color_kept [OF e] | erule tab)))
qed

lemma an_with_survives:
  assumes "ready e" "sc_emulation (em_screen e) = Q_EMUL_ANSI" "\<exists>p. r = Inr p" "\<And>v. surely (buffer_kept e) (f v e)"
  shows "survives (an_with b r f e)"
proof -
  obtain p where "r = Inr p" using assms(3) by blast
  then show ?thesis using an_dump_survives [OF assms(1,2)] an_done_survives [OF assms(1,4)]
    by (cases p) (auto simp: an_with_def)
qed

lemma repeat_print_ok: "screen_ok s \<Longrightarrow> surely (moved s) (repeat_screen n (print_character c) s)"
proof (induction n arbitrary: s)
  case (Suc n)
  then show ?case using surely_moved_andthen [OF print_character_ok [OF Suc.prems] Suc.IH] by simp
qed (simp add: moved_refl)

lemma repeat_tab_ok:
  "screen_ok s \<Longrightarrow> tab_safe s \<Longrightarrow> \<not> vt100_like (sc_emulation s) \<Longrightarrow> surely (moved s) (repeat_screen n (tab_by (print_character 32) limit) s)"
proof (induction n arbitrary: s)
  case (Suc n)
  show ?case unfolding repeat_screen.simps
  proof (rule surely_andthen [OF tab_by_ok [OF Suc.prems]], elim conjE)
    fix t assume t: "moved s t" "tab_safe t"
    have "\<not> vt100_like (sc_emulation t)" using t(1) Suc.prems(3) by (simp add: moved_def fixed_parts_def)
    then show "surely (moved s) (repeat_screen n (tab_by (print_character 32) limit) t)"
      by (rule after_move [OF t(1) Suc.IH [OF moved_ok [OF t(1)] t(2)]])
  qed
qed (simp add: moved_refl)

lemma screen_ok_line_wrap [simp]: "screen_ok (s\<lparr>sc_line_wrap := f\<rparr>) = screen_ok s"
  by (simp add: screen_ok_def geometry_ok_def scrollback_ok_def cursor_ok_def columns_def last_row_def)

lemma set_mode_kept: "ready e \<Longrightarrow> surely (buffer_kept e) (an_set_mode m v e)"
proof -
  assume e: "ready e"
  have "surely (buffer_kept e) (on_screen (\<lambda>s. Inr (s\<lparr>sc_line_wrap := m\<rparr>)) e)"
    by (rule kept_on_screen) (simp add: stays_def readyD [OF e])
  moreover have "surely (buffer_kept e) (Inr e)" using readyD(1) [OF e] by (simp add: kept_same)
  ultimately show ?thesis unfolding an_set_mode_def by presburger
qed

lemma an_parameters_zero_ended: "ready e \<Longrightarrow> zero_ended (an_parameters e)"
  unfolding an_parameters_def by (rule ready_zero_ended) (simp_all add: ready_def counts_ok_def)

lemma ansi_color_total: "zero_ended bs \<Longrightarrow> \<exists>ok a. ansi_color s out bs = Inr (ok, a)"
  using sgr_loop_total by (fastforce simp: ansi_color_def Let_def)

lemma an_sgr_survives:
  assumes e: "ready e" and a: "sc_emulation (em_screen e) = Q_EMUL_ANSI"
  shows "survives (an_sgr b e)"
proof -
  obtain ok c where c: "ansi_color (em_screen e) (an_attributes e) (an_parameters e) = Inr (ok, c)"
    using ansi_color_total [OF an_parameters_zero_ended [OF e]] by blast
  let ?e = "e\<lparr>an_attributes := c\<rparr>"
  have e': "ready ?e" "sc_emulation (em_screen ?e) = Q_EMUL_ANSI"
    using e a by (simp_all add: ready_def modelled_def counts_ok_def bytes_ok_def)
  show ?thesis using an_dump_survives [OF e'] an_done_survives [OF e'(1) color_kept [OF e'(1), of "\<lambda>_. c"]]
    by (simp add: an_sgr_def c Let_def)
qed

lemma an_count_survives:
  assumes e: "ready e" and a: "sc_emulation (em_screen e) = Q_EMUL_ANSI" and h: "b \<noteq> 64" "b = 73 \<Longrightarrow> tab_safe (em_screen e)"
  shows "survives (an_count_state b e)"
proof -
  note z = an_parameters_zero_ended [OF e] and s = readyD(1) [OF e]
  have ps: "\<exists>p. andthen (read_ps (an_parameters e)) (\<lambda>r. Inr (map_option fst r)) = Inr p"
    "\<exists>p. one_parameter (an_parameters e) = Inr p" "\<exists>p. andthen (one_parameter (an_parameters e)) (\<lambda>r. Inr (from_one r)) = Inr p"
    using read_ps_zero_ended [OF z] one_parameter_total [OF z] by auto
  have same: "surely (buffer_kept e) (Inr e)" "surely (buffer_kept e) (Inr (an_report e))"
    using s by (simp_all add: kept_same an_report_def qodem_write_def)
  have rep: "surely (buffer_kept e) (on_screen (repeat_screen v (print_character c)) e)" for v c
    by (rule kept_moved) (rule repeat_print_ok [OF s])
  have tab: "surely (buffer_kept e) (on_screen (repeat_screen v (tab_by (print_character 32) 79)) e)" if "b = 73" for v
    by (rule kept_moved) (rule repeat_tab_ok [OF s h(2) [OF that]], simp add: a)
  have pos: "survives (an_with b (ansi_position (an_parameters e)) (\<lambda>(row, col). on_screen (cursor_position row col)) e)"
    by (rule an_with_survives [OF e a ansi_position_total [OF z]]) (auto simp: screen_kept [OF e])
  have flag: "survives (no_char (e\<lparr>an_discard := True\<rparr>))" unfolding no_char_def by (rule one_char_survives [OF e]) simp_all
  have keep: "survives (an_keep b AN_SCAN_COUNT e)" "survives (an_keep b AN_SCAN_COUNT_TWO e)" by (rule an_keep_survives [OF e]; simp)+
  show ?thesis unfolding an_count_state_def Let_def
    by (intro surely_if; (erule notE [OF h(1)] | rule flag pos keep an_sgr_survives [OF e a] | rule an_dump_survives [OF e a] |
        rule an_done_survives [OF e]; rule same |
        rule an_with_survives [OF e a], rule ps, (rule cursor_left_kept [OF e] screen_kept [OF e] erasing_kept [OF e] set_mode_kept [OF e] rep | erule tab)))
qed

lemma an_count_two_survives:
  assumes e: "ready e" and a: "sc_emulation (em_screen e) = Q_EMUL_ANSI"
  shows "survives (an_count_two b e)"
proof -
  have pos: "survives (an_with b (ansi_position (an_parameters e)) (\<lambda>(row, col). on_screen (cursor_position row col)) e)"
    by (rule an_with_survives [OF e a ansi_position_total [OF an_parameters_zero_ended [OF e]]]) (auto simp: screen_kept [OF e])
  have flag: "survives (no_char (e\<lparr>an_discard := True\<rparr>))" unfolding no_char_def by (rule one_char_survives [OF e]) simp_all
  have keep: "survives (an_keep b AN_SCAN_COUNT_TWO e)" "survives (an_keep b AN_SCAN_COUNT_MANY e)" by (rule an_keep_survives [OF e]; simp)+
  have fin: "survives (an_done (Inr e))" by (rule an_done_survives [OF e]) (use readyD(1) [OF e] in \<open>simp add: kept_same\<close>)
  show ?thesis unfolding an_count_two_def
    by (intro surely_if; rule flag pos keep fin an_sgr_survives [OF e a] an_dump_survives [OF e a])
qed

lemma an_count_many_survives:
  assumes e: "ready e" and a: "sc_emulation (em_screen e) = Q_EMUL_ANSI"
  shows "survives (an_count_many b e)"
proof -
  have "survives (an_keep b AN_SCAN_COUNT_MANY e)" by (rule an_keep_survives [OF e]) simp
  then show ?thesis unfolding an_count_many_def
    by (intro surely_if) (simp_all add: an_sgr_survives [OF e a] an_dump_survives [OF e a])
qed

lemma an_music_survives:
  assumes e: "ready e" and m: "an_scan e = AN_SCAN_MUSIC"
  shows "survives (an_music_state b e)"
proof -
  let ?e = "e\<lparr>an_music := (an_music e)[an_music_n e := b], an_music_n := an_music_n e + 1\<rparr>"
  have n: "an_music_n e < ANSI_MUSIC_BUFFER_SIZE" using e m by (simp add: ready_def counts_ok_def)
  have fin: "survives (an_done (Inr e))" by (rule an_done_survives [OF e]) (use readyD(1) [OF e] in \<open>simp add: kept_same\<close>)
  have 1: "survives (an_done (Inr ?e))" using e
    by (auto simp: an_done_def no_char_def an_clear_def ready_def settled_def modelled_def counts_ok_def bytes_ok_def clear_buffer_def EMUL_BUFFER_SIZE_def)
  have 2: "survives (no_char ?e)" if "\<not> ANSI_MUSIC_BUFFER_SIZE \<le> an_music_n e + 1"
    using e that by (simp add: no_char_def settled_def ready_def modelled_def counts_ok_def bytes_ok_def)
  show ?thesis using fin 1 2 n by (simp add: an_music_state_def Let_def)
qed

lemma ansi_survives:
  assumes "ready e" "sc_emulation (em_screen e) = Q_EMUL_ANSI" "\<not> hazard b e"
  shows "survives (ansi b e)"
  using assms
  by (cases "an_scan e")
    (auto simp: ansi_def hazard_def Let_def intro!: an_none_survives an_esc_survives an_start_survives an_count_survives
      an_count_two_survives an_count_many_survives an_music_survives)

lemma vt_tab_kept: "ready e \<Longrightarrow> vt_tab_safe (em_screen e) \<Longrightarrow> surely (buffer_kept e) (on_screen (tab_by (cursor_right 1 False) 80) e)"
  by (rule kept_moved) (rule vt_tab_ok [OF readyD(1)])

lemma vt_none_survives:
  assumes e: "ready e" and v: "sc_emulation (em_screen e) = Q_EMUL_VT52" and h: "b = 9 \<Longrightarrow> vt_tab_safe (em_screen e)"
  shows "survives (vt_none b e)"
proof -
  have q: "surely (buffer_kept e) (Inr (qodem_write bs e))" "surely (buffer_kept e) (Inr e)" for bs
    using readyD(1) [OF e] by (simp_all add: qodem_write_def kept_same)
  have tab: "surely (buffer_kept e) (on_screen (tab_by (cursor_right 1 False) 80) e)" if "b = 9" by (rule vt_tab_kept [OF e h [OF that]])
  have one: "survives (Inr (Q_EMUL_FSM_ONE_CHAR, e\<lparr>em_to_screen := c\<rparr>))" for c by (rule one_char_survives [OF e]) simp_all
  show ?thesis unfolding vt_none_def
    by (intro surely_if; (rule one vt_keep_survives [OF e] | rule vt_done_survives [OF e]; (rule q cursor_left_kept [OF e] | erule tab)))
qed

lemma reverse_linefeed_ok: "screen_ok s \<Longrightarrow> surely (moved s) (vt_reverse_linefeed s)"
  by (simp add: vt_reverse_linefeed_def scroll_ok cursor_up_ok)

lemma vt_esc_survives:
  assumes e: "ready e" and v: "sc_emulation (em_screen e) = Q_EMUL_VT52"
  shows "survives (vt_esc b e)"
proof -
  have same: "surely (buffer_kept e) (Inr (e\<lparr>vt_graphics := g\<rparr>))" "surely (buffer_kept e) (Inr (qodem_write bs e))"
    "surely (buffer_kept e) (Inr (e\<lparr>vt_alternate_keypad := g\<rparr>))" "surely (buffer_kept e) (Inr (e\<lparr>em_hold_screen_mode := g\<rparr>))" for g bs
    using readyD(1) [OF e] by (simp_all add: qodem_write_def kept_same)
  have rl: "surely (buffer_kept e) (on_screen vt_reverse_linefeed e)" by (rule kept_moved) (rule reverse_linefeed_ok [OF readyD(1) [OF e]])
  show ?thesis unfolding vt_esc_def
    by (intro surely_if; (rule vt_keep_survives [OF e] vt_dump_survives [OF e v] |
        rule vt_done_survives [OF e]; rule same rl cursor_left_kept [OF e] screen_kept [OF e] erasing_kept [OF e]))
qed

lemma vt_clear_ready: "ready e \<Longrightarrow> ready (vt_clear e)"
  by (auto simp: ready_def vt_clear_def modelled_def counts_ok_def bytes_ok_def clear_buffer_def EMUL_BUFFER_SIZE_def)

lemma vt_csi_survives:
  assumes e: "ready e" and v: "sc_emulation (em_screen e) = Q_EMUL_VT52" and h: "b = 9 \<Longrightarrow> vt_tab_safe (em_screen e)"
  shows "survives (vt_csi b e)"
proof -
  have 1: "ready (e\<lparr>vt_count := em_n e\<rparr>)" "ready (e\<lparr>em_hold_screen_mode := True\<rparr>)"
    using e by (simp_all add: ready_def modelled_def counts_ok_def bytes_ok_def)
  let ?v = "vt_clear (e\<lparr>em_hold_screen_mode := True\<rparr>)"
  have v': "em_screen ?v = em_screen e" by (simp add: vt_clear_def clear_buffer_def)
  have "survives (vt_none b ?v)" by (rule vt_none_survives [OF vt_clear_ready [OF 1(2)]]) (simp_all add: v v' h)
  then show ?thesis using vt_keep_survives [OF 1(1)] vt_done_survives [OF e color_kept [OF e]]
    by (simp add: vt_csi_def)
qed

lemma vt_csi_param_survives:
  assumes e: "ready e" and v: "sc_emulation (em_screen e) = Q_EMUL_VT52"
  shows "survives (vt_csi_param b e)"
proof -
  obtain ok c where c: "ansi_color (em_screen e) (vt_attributes e) (drop (vt_count e) (em_buffer e)) = Inr (ok, c)"
  proof -
    have "vt_count e \<le> 126" using e by (simp add: ready_def counts_ok_def)
    then show ?thesis using ansi_color_total [OF ready_zero_ended [OF e]] that by blast
  qed
  let ?e = "e\<lparr>vt_attributes := c\<rparr>"
  have e': "ready ?e" "sc_emulation (em_screen ?e) = Q_EMUL_VT52"
    using e v by (simp_all add: ready_def modelled_def counts_ok_def bytes_ok_def)
  show ?thesis using vt_keep_survives [OF e] vt_dump_survives [OF e v] vt_dump_survives [OF e']
      vt_done_survives [OF e'(1) color_kept [OF e'(1), of "\<lambda>_. c"]]
    by (simp add: vt_csi_param_def c Let_def)
qed

lemma vt52_survives:
  assumes e: "ready e" and v: "sc_emulation (em_screen e) = Q_EMUL_VT52" and h: "b AND 0x7F = 9 \<Longrightarrow> vt_tab_safe (em_screen e)"
  shows "survives (vt52 b e)"
proof -
  have "survives (vt_position c e)" for c
    unfolding vt_position_def by (rule vt_done_survives [OF e screen_kept(8) [OF e]])
  then show ?thesis
    using vt_none_survives [OF e v h] vt_esc_survives [OF e v] vt_keep_survives [OF e] vt_csi_survives [OF e v h] vt_csi_param_survives [OF e v]
    by (cases "vt_scan e") (auto simp: vt52_def Let_def)
qed

section \<open>TTY\<close>

lemma tty_underline_ok:
  assumes s: "screen_ok s" and x: "sc_cursor_x s + 1 < columns s"
  shows "surely (moved s) (tty_underline s)"
proof -
  have m: "moved s (set_current ((current_line s)\<lparr>sl_colors := cs\<rparr>) s)" if "length cs = length (sl_colors (current_line s))" for cs
    by (rule set_current_ok [OF s]) (use screen_okD(10) [OF s] that in \<open>simp add: line_ok_def\<close>)
  have "moved s (t\<lparr>sc_cursor_x := sc_cursor_x s + 1\<rparr>)" if "moved s t" for t
    using that x moved_columns [OF that] by (simp add: moved_def screen_ok_x)
  then show ?thesis using m by (simp add: tty_underline_def Let_def)
qed

lemma tty_survives:
  assumes e: "ready e" and t: "sc_emulation (em_screen e) = Q_EMUL_TTY"
    and h: "b = 9 \<Longrightarrow> tab_safe (em_screen e)" "b = 95 \<Longrightarrow> sc_cursor_x (em_screen e) + 1 < columns (em_screen e)"
  shows "survives (tty b e)"
proof -
  have c: "survives (tty_consume r)" if "surely (buffer_kept e) r" for r
    unfolding tty_consume_def by (rule no_char_survives [OF e that])
  have q: "surely (buffer_kept e) (Inr (qodem_write bs e))" "surely (buffer_kept e) (Inr e)" for bs
    using readyD(1) [OF e] by (simp_all add: qodem_write_def kept_same)
  have tab: "surely (buffer_kept e) (on_screen (tab_by (print_character 32) 80) e)" if "b = 9"
    by (rule tab_kept [OF e h(1) [OF that]]) (simp add: t)
  have u: "surely (buffer_kept e) (on_screen tty_underline e)" if "b = 95"
    by (rule kept_moved) (rule tty_underline_ok [OF readyD(1) [OF e] h(2) [OF that]])
  have one: "survives (Inr (Q_EMUL_FSM_ONE_CHAR, e\<lparr>em_to_screen := ch\<rparr>))" for ch by (rule one_char_survives [OF e]) simp_all
  have x: "sc_cursor_x (em_screen e) < Q_MAX_LINE_LENGTH" by (rule screen_okD(7) [OF readyD(1) [OF e]])
  show ?thesis unfolding tty_def Let_def
    by (intro surely_if surely_check; (rule one x | rule c; (rule q cursor_left_kept [OF e] screen_kept [OF e] | erule tab | rule u; simp)))
qed

section \<open>The console\<close>

lemma emulate_survives:
  assumes "ready e" "\<not> hazard b e"
  shows "survives (emulate b e)"
proof -
  have m: "sc_emulation (em_screen e) \<in> {Q_EMUL_ANSI, Q_EMUL_VT52, Q_EMUL_TTY}" using assms(1) by (simp add: ready_def modelled_def)
  then show ?thesis using assms
    by (auto simp: emulate_def Let_def hazard_def intro!: ansi_survives vt52_survives tty_survives)
qed

text \<open>The state after \<open>terminal_emulator\<close>: it remembers the status, unless a CR or LF came.\<close>

definition returned :: "emulation_status \<Rightarrow> emulator \<Rightarrow> bool" where
  "returned st e \<longleftrightarrow> emulator_ok e \<and> (st = Q_EMUL_FSM_MANY_CHARS \<longleftrightarrow> em_last e = Q_EMUL_FSM_MANY_CHARS)"

lemma settled_screen: "settled st e \<Longrightarrow> stays (em_screen e) s \<Longrightarrow> settled st (e\<lparr>em_screen := s\<rparr>)"
  by (cases "st = Q_EMUL_FSM_MANY_CHARS") (simp_all add: settled_def stays_def modelled_def counts_ok_def bytes_ok_def idle_def)

lemma on_screen_returned:
  assumes "returned st e" "surely (moved (em_screen e)) (f (em_screen e))"
  shows "surely (\<lambda>e1. returned st e1 \<and> em_n e1 = em_n e \<and> em_i e1 = em_i e) (on_screen f e)"
proof -
  obtain s where s: "f (em_screen e) = Inr s" "moved (em_screen e) s" using assms(2) by (auto simp: surely_iff)
  have "returned st (e\<lparr>em_screen := s\<rparr>)"
    using assms(1) settled_screen [of "em_last e" e s] moved_stays [OF s(2)] by (simp add: returned_def emulator_ok_def)
  then show ?thesis using s(1) by (simp add: on_screen_def)
qed

lemma junk_ready:
  assumes "emulator_ok e" "em_last e \<noteq> Q_EMUL_FSM_MANY_CHARS \<or> EMUL_BUFFER_SIZE - 1 \<le> em_n e"
  shows "ready (junk_buffer e)" "em_last (junk_buffer e) \<noteq> Q_EMUL_FSM_MANY_CHARS" "em_screen (junk_buffer e) = em_screen e"
    "an_scan (junk_buffer e) = an_scan e" "vt_scan (junk_buffer e) = vt_scan e"
  using assms
  by (auto simp: junk_buffer_def emulator_ok_def settled_def ready_def modelled_def counts_ok_def bytes_ok_def clear_buffer_def EMUL_BUFFER_SIZE_def)

lemma ready_received: "ready e \<Longrightarrow> ready (e\<lparr>em_bytes_received := n\<rparr>)"
  by (simp add: ready_def modelled_def counts_ok_def bytes_ok_def)

lemma kept_returned:
  assumes "ready e" "em_last e \<noteq> Q_EMUL_FSM_MANY_CHARS" "surely (moved (em_screen e)) (f (em_screen e))"
  shows "surely (\<lambda>(st, e1). returned st e1) (andthen (on_screen f e) (\<lambda>e2. no_char (e2\<lparr>em_to_screen := 1\<rparr>)))"
proof -
  have "returned Q_EMUL_FSM_NO_CHAR_YET e" using assms(2) ready_settled [OF assms(1,2)] by (simp add: returned_def emulator_ok_def)
  then have "surely (\<lambda>e1. returned Q_EMUL_FSM_NO_CHAR_YET e1 \<and> em_n e1 = em_n e \<and> em_i e1 = em_i e) (on_screen f e)"
    by (rule on_screen_returned) (rule assms(3))
  then show ?thesis
  proof (rule surely_andthen)
    fix x assume "returned Q_EMUL_FSM_NO_CHAR_YET x \<and> em_n x = em_n e \<and> em_i x = em_i e"
    then have "returned Q_EMUL_FSM_NO_CHAR_YET (x\<lparr>em_to_screen := 1\<rparr>)"
      by (cases "em_last x = Q_EMUL_FSM_MANY_CHARS") (simp_all add: returned_def emulator_ok_def settled_def modelled_def counts_ok_def bytes_ok_def idle_def)
    then show "surely (\<lambda>(st, e1). returned st e1) (no_char (x\<lparr>em_to_screen := 1\<rparr>))" by (simp add: no_char_def)
  qed
qed

lemma hazard_cong: "em_screen e1 = em_screen e \<Longrightarrow> an_scan e1 = an_scan e \<Longrightarrow> hazard b e1 = hazard b e"
proof -
  assume a: "em_screen e1 = em_screen e" "an_scan e1 = an_scan e"
  show ?thesis unfolding hazard_def Let_def a by (rule refl)
qed

lemma terminal_interprets:
  assumes e: "emulator_ok e" "em_last e \<noteq> Q_EMUL_FSM_MANY_CHARS \<or> EMUL_BUFFER_SIZE - 1 \<le> em_n e" and h: "\<not> hazard b e"
  shows "surely (\<lambda>(st, e1). returned st e1) (terminal_emulator b e)"
proof -
  let ?e = "(junk_buffer e)\<lparr>em_bytes_received := em_bytes_received (junk_buffer e) + 1\<rparr>"
  have r: "ready ?e" "em_last ?e \<noteq> Q_EMUL_FSM_MANY_CHARS" using junk_ready [OF e] by (simp_all add: ready_received)
  have "\<not> hazard b ?e" using h hazard_cong [of ?e e b] junk_ready(3,4) [OF e] by simp
  then have "survives (emulate b ?e)" by (rule emulate_survives [OF r(1)])
  moreover have "returned st (e1\<lparr>em_last := st\<rparr>)" if "settled st e1" for st e1
    using that by (cases "st = Q_EMUL_FSM_MANY_CHARS") (simp_all add: returned_def emulator_ok_def settled_def modelled_def counts_ok_def bytes_ok_def idle_def)
  ultimately have "surely (\<lambda>(st, e1). returned st e1) (andthen (emulate b ?e) (\<lambda>(st, e2). Inr (st, e2\<lparr>em_last := st\<rparr>)))"
    by (auto simp: surely_iff)
  then show ?thesis using kept_returned [OF r, of cursor_carriage_return] kept_returned [OF r, of "cursor_linefeed False"]
      cursor_carriage_return_ok [OF readyD(1) [OF r(1)]] cursor_linefeed_ok [OF readyD(1) [OF r(1)]] junk_ready(2) [OF e]
    by (simp add: terminal_emulator_def Let_def)
qed

lemma idle_255:
  assumes "ready e" "idle e" "emulate 255 e = Inr (st, e1)"
  shows "st \<noteq> Q_EMUL_FSM_MANY_CHARS"
proof -
  have "sc_emulation (em_screen e) \<in> {Q_EMUL_ANSI, Q_EMUL_VT52, Q_EMUL_TTY}" using assms(1) by (simp add: ready_def modelled_def)
  moreover have "(255 :: byte) AND 127 = 127" by simp
  ultimately show ?thesis using assms(2,3)
    by (auto simp: emulate_def Let_def idle_def ansi_def vt52_def tty_def an_none_def vt_none_def is_cntrl_def C_ESC_def vt_done_def no_char_def)
qed

text \<open>How many characters are left in the buffer.\<close>

definition left_over :: "emulator \<Rightarrow> nat" where
  "left_over e = (if em_n e = 0 then 0 else em_n e - em_i e + 1)"

lemma terminal_dumps:
  assumes e: "emulator_ok e" "em_last e = Q_EMUL_FSM_MANY_CHARS"
  shows "surely (\<lambda>(st, e1). returned st e1 \<and> (st = Q_EMUL_FSM_MANY_CHARS \<longrightarrow> left_over e1 < left_over e)) (terminal_emulator 255 e)"
proof (cases "EMUL_BUFFER_SIZE - 1 \<le> em_n e")
  case True
  have h: "\<not> hazard 255 e" by (simp add: hazard_def Let_def)
  have j: "ready (junk_buffer e)" "em_last (junk_buffer e) \<noteq> Q_EMUL_FSM_MANY_CHARS" "idle (junk_buffer e)"
    using junk_ready [OF e(1)] True e by (auto simp: idle_def emulator_ok_def settled_def)
  let ?e = "(junk_buffer e)\<lparr>em_bytes_received := em_bytes_received (junk_buffer e) + 1\<rparr>"
  have i: "idle ?e" using j(3) by (simp add: idle_def)
  obtain st e1 where t: "terminal_emulator 255 e = Inr (st, e1)" "returned st e1"
    using terminal_interprets [OF e(1) _ h] True by (auto simp: surely_iff)
  then have "st \<noteq> Q_EMUL_FSM_MANY_CHARS"
    using j(2) idle_255 [OF ready_received [OF j(1)] i]
    by (auto simp: terminal_emulator_def Let_def C_CR_def C_LF_def andthen_eq_Inr)
  then show ?thesis using t by simp
next
  case False
  then have j: "junk_buffer e = e" by (simp add: junk_buffer_def)
  have s: "settled Q_EMUL_FSM_MANY_CHARS e" using e by (simp add: emulator_ok_def)
  show ?thesis
  proof (cases "em_n e = 0")
    case True
    then show ?thesis using s e(2) j
      by (simp add: terminal_emulator_def next_dumped_def no_char_def returned_def emulator_ok_def settled_def modelled_def counts_ok_def bytes_ok_def)
  next
    case n: False
    then have i: "em_i e < em_n e" "em_n e < EMUL_BUFFER_SIZE" using s by (auto simp: settled_def bytes_ok_def)
    let ?u = "e\<lparr>em_to_screen := map_char e (em_buffer e ! em_i e), em_i := em_i e + 1\<rparr>"
    have t: "terminal_emulator 255 e = Inr (Q_EMUL_FSM_MANY_CHARS, if em_i ?u = em_n ?u then clear_buffer ?u else ?u)"
      using n i e(2) j by (simp add: terminal_emulator_def next_dumped_def Let_def)
    have "returned Q_EMUL_FSM_MANY_CHARS (clear_buffer ?u)" using s e(2)
      by (simp add: returned_def emulator_ok_def settled_def modelled_def counts_ok_def bytes_ok_def idle_def clear_buffer_def EMUL_BUFFER_SIZE_def)
    moreover have "returned Q_EMUL_FSM_MANY_CHARS ?u" if "em_i e + 1 \<noteq> em_n e" using s e(2) that i
      by (simp add: returned_def emulator_ok_def settled_def modelled_def counts_ok_def bytes_ok_def idle_def)
    moreover have "left_over (clear_buffer ?u) < left_over e" "left_over ?u < left_over e" using n i
      by (simp_all add: left_over_def clear_buffer_def)
    ultimately show ?thesis unfolding t by (cases "em_i e + 1 = em_n e") simp_all
  qed
qed

lemma drain_ends:
  "returned st e \<Longrightarrow> \<exists>e1. drain st e = Some (Inr e1) \<and> emulator_ok e1 \<and> em_last e1 \<noteq> Q_EMUL_FSM_MANY_CHARS"
proof (induction "left_over e" arbitrary: st e rule: less_induct)
  case less
  have p: "surely (moved (em_screen e)) (print_character (em_to_screen e) (em_screen e))"
    by (rule print_character_ok) (use less.prems in \<open>simp add: returned_def emulator_ok_def settled_def\<close>)
  obtain e1 where e1: "on_screen (print_character (em_to_screen e)) e = Inr e1" "returned st e1" "em_n e1 = em_n e" "em_i e1 = em_i e"
    using on_screen_returned [where f = "print_character (em_to_screen e)", OF less.prems p] by (auto simp: surely_iff)
  show ?case
  proof (cases st)
    case Q_EMUL_FSM_NO_CHAR_YET
    then show ?thesis using less.prems by (subst drain.simps) (simp add: returned_def)
  next
    case Q_EMUL_FSM_ONE_CHAR
    then show ?thesis using e1(1,2) by (subst drain.simps) (simp add: returned_def)
  next
    case Q_EMUL_FSM_MANY_CHARS
    then have "emulator_ok e1" "em_last e1 = Q_EMUL_FSM_MANY_CHARS" using e1(2) by (auto simp: returned_def)
    then obtain st2 e2 where e2: "terminal_emulator 255 e1 = Inr (st2, e2)" "returned st2 e2"
      "st2 = Q_EMUL_FSM_MANY_CHARS \<longrightarrow> left_over e2 < left_over e1"
      using terminal_dumps [of e1] by (auto simp: surely_iff)
    have l: "left_over e1 = left_over e" using e1(3,4) by (simp add: left_over_def)
    have "\<exists>e3. drain st2 e2 = Some (Inr e3) \<and> emulator_ok e3 \<and> em_last e3 \<noteq> Q_EMUL_FSM_MANY_CHARS"
    proof (cases "st2 = Q_EMUL_FSM_MANY_CHARS")
      case True
      then show ?thesis using less.hyps [of e2 st2] e2(2,3) l by simp
    next
      case False
      have q: "surely (moved (em_screen e2)) (print_character (em_to_screen e2) (em_screen e2))"
        by (rule print_character_ok) (use e2(2) in \<open>simp add: returned_def emulator_ok_def settled_def\<close>)
      show ?thesis using False on_screen_returned [where f = "print_character (em_to_screen e2)", OF e2(2) q] e2(2)
        by (cases st2) (auto simp: drain.simps surely_iff returned_def)
    qed
    then show ?thesis using Q_EMUL_FSM_MANY_CHARS e1(1) e2(1) by (subst drain.simps) simp
  qed
qed

lemma console_byte_survives:
  assumes "emulator_ok e" "em_last e \<noteq> Q_EMUL_FSM_MANY_CHARS" "\<not> hazard b e"
  shows "surely (\<lambda>e1. emulator_ok e1 \<and> em_last e1 \<noteq> Q_EMUL_FSM_MANY_CHARS) (console_byte b e)"
proof -
  obtain st e1 where "terminal_emulator b e = Inr (st, e1)" "returned st e1"
    using terminal_interprets [OF assms(1) _ assms(3)] assms(2) by (auto simp: surely_iff)
  then show ?thesis using drain_ends [of st e1] by (auto simp: console_byte_def)
qed

text \<open>A stream none of whose bytes is a hazard when it arrives.\<close>

fun harmless :: "byte list \<Rightarrow> emulator \<Rightarrow> bool" where
  "harmless [] e = True"
| "harmless (b # bs) e = (\<not> hazard b e \<and> (case console_byte b e of Inl f \<Rightarrow> True | Inr e1 \<Rightarrow> harmless bs e1))"

lemma console_bytes_survive:
  "emulator_ok e \<Longrightarrow> em_last e \<noteq> Q_EMUL_FSM_MANY_CHARS \<Longrightarrow> harmless bs e \<Longrightarrow>
   surely (\<lambda>e1. emulator_ok e1 \<and> em_last e1 \<noteq> Q_EMUL_FSM_MANY_CHARS) (console_bytes bs e)"
proof (induction bs arbitrary: e)
  case (Cons b bs)
  obtain e1 where e1: "console_byte b e = Inr e1" "emulator_ok e1" "em_last e1 \<noteq> Q_EMUL_FSM_MANY_CHARS"
    using console_byte_survives [OF Cons.prems(1,2)] Cons.prems(3) by (auto simp: surely_iff)
  then show ?case using Cons.IH [OF e1(2,3)] Cons.prems(3) by simp
qed simp

end
