(* ===== verification/Emulation_Properties.thy ===== *)
theory Emulation_Properties
  imports Screen_History Emulation_Safety
begin

text \<open>
  What the three emulations do with the bytes from the remote side: every stream without a
  hazard is processed, tabs end at a tab stop, text appears at the cursor; and the byte that
  hangs the VT52 emulation.
\<close>

unbundle bit_operations_syntax

section \<open>A sample\<close>

definition sample_emulator :: "q_emulation \<Rightarrow> nat \<Rightarrow> emulator" where
  "sample_emulator em x =
     \<lparr>em_screen = sample_screen em 1 x 0, em_buffer = replicate 128 0, em_n = 0, em_i = 0, em_last = Q_EMUL_FSM_NO_CHAR_YET,
      em_bytes_received = 0, em_sent = [], em_to_screen = 1, em_codepage = Q_CODEPAGE_CP437, em_answerback = [], em_ansi_music = False,
      em_vt52_color = True, em_hold_screen_mode = False, an_scan = AN_SCAN_NONE, an_saved_x = 0, an_saved_y = 0, an_rep = 32,
      an_private = False, an_dec_private = False, an_discard = False, an_music = replicate 1024 0, an_music_n = 0, an_count = 0,
      an_attributes = A_NORMAL, vt_scan = VT_SCAN_NONE, vt_graphics = False, vt_alternate_keypad = False, vt_count = 0,
      vt_attributes = A_NORMAL\<rparr>"

lemma sample_emulator_ok:
  "x < 80 \<Longrightarrow> em \<in> {Q_EMUL_ANSI, Q_EMUL_VT52, Q_EMUL_TTY} \<Longrightarrow> emulator_ok (sample_emulator em x)"
  by (auto simp: emulator_ok_def settled_def sample_emulator_def modelled_def counts_ok_def bytes_ok_def EMUL_BUFFER_SIZE_def sample_screen_ok)
    (simp_all add: sample_screen_def)

section \<open>Streams\<close>

text \<open>
  C17.  A stream from the remote side none of whose bytes is a hazard when it arrives is processed
  to its end: no buffer overflows, no line is used after it was freed, every loop ends, and the
  invariant of screen and emulator holds afterwards.
\<close>

theorem emulation_survives_streams:
  assumes "emulator_ok e" "em_last e \<noteq> Q_EMUL_FSM_MANY_CHARS" "harmless bs e"
  shows "\<exists>e1. console_bytes bs e = Inr e1 \<and> emulator_ok e1 \<and> em_last e1 \<noteq> Q_EMUL_FSM_MANY_CHARS"
  using console_bytes_survive [OF assms] by (auto simp: surely_iff)

lemma hazard_bytes: "hazard b e \<Longrightarrow> b AND 127 \<in> {9, 64, 73, 95}"
  by (auto simp: hazard_def Let_def split: if_splits)

lemma harmless_bytes: "\<forall>b\<in>set bs. b AND 127 \<notin> {9, 64, 73, 95} \<Longrightarrow> harmless bs e"
proof (induction bs arbitrary: e)
  case (Cons b bs)
  have "\<not> hazard b e" for e using hazard_bytes [of b e] Cons.prems by auto
  then show ?case using Cons by (auto split: sum.split)
qed simp

text \<open>Text, a new line, a color, a cursor position, the screen erased, a sequence that is not understood.\<close>

theorem emulation_survives_streams_witness:
  "\<exists>e1. console_bytes [72, 105, 13, 10, 27, 91, 49, 59, 51, 49, 109, 66, 27, 91, 50, 59, 53, 72, 27, 91, 50, 74, 27, 120]
      (sample_emulator Q_EMUL_ANSI 3) = Inr e1 \<and> emulator_ok e1 \<and> em_last e1 \<noteq> Q_EMUL_FSM_MANY_CHARS"
proof (rule emulation_survives_streams)
  show "emulator_ok (sample_emulator Q_EMUL_ANSI 3)" by (rule sample_emulator_ok) simp_all
  show "em_last (sample_emulator Q_EMUL_ANSI 3) \<noteq> Q_EMUL_FSM_MANY_CHARS" by (simp add: sample_emulator_def)
  show "harmless [72, 105, 13, 10, 27, 91, 49, 59, 51, 49, 109, 66, 27, 91, 50, 59, 53, 72, 27, 91, 50, 74, 27, 120] (sample_emulator Q_EMUL_ANSI 3)"
    by (rule harmless_bytes) simp
qed

section \<open>Tabs\<close>

text \<open>
  C22.  In the emulations ANSI and TTY a tab ends, with the line wrap on and the cursor not
  beyond the right margin: the cursor is then at a multiple of eight or at the limit of the loop.
\<close>

theorem tab_reaches_stop:
  assumes "screen_ok s" "sc_line_wrap s" "sc_cursor_x s \<le> print_margin s" "sc_emulation s \<in> {Q_EMUL_ANSI, Q_EMUL_TTY}"
  shows "\<exists>t. tab_by (print_character 32) limit s = Inr t \<and> screen_ok t \<and> (sc_cursor_x t mod 8 = 0 \<or> limit \<le> sc_cursor_x t)"
  using tab_by_ok [of s limit] assms by (auto simp: surely_iff tab_safe_def moved_def)

theorem tab_reaches_stop_witness:
  "\<exists>t. tab_by (print_character 32) 80 (sample_screen Q_EMUL_ANSI 1 3 0) = Inr t \<and> screen_ok t \<and> (sc_cursor_x t mod 8 = 0 \<or> 80 \<le> sc_cursor_x t)"
  by (rule tab_reaches_stop)
    (simp_all add: sample_screen_ok, simp_all add: sample_screen_def print_margin_def halve_margin_def current_line_def)

lemma tab_loop_none:
  assumes step: "\<And>s. stuck s \<Longrightarrow> sc_cursor_x s < limit \<and> (\<exists>t. move s = Inr t \<and> stuck t \<and> sc_cursor_x t mod 8 \<noteq> 0)"
    and s: "stuck s"
  shows "tab_loop move limit s = None"
proof (rule ccontr)
  assume "tab_loop move limit s \<noteq> None"
  then obtain r where r: "tab_loop move limit s = Some r" by blast
  have "\<not> (move' = move \<and> limit' = limit \<and> stuck s')" if "tab_loop move' limit' s' = Some r'" for move' limit' s' r'
  proof (rule tab_loop.raw_induct [where P = "\<lambda>move' limit' s' r'. \<not> (move' = move \<and> limit' = limit \<and> stuck s')", OF _ that])
    fix f m l u y
    assume IH: "\<And>m l u y. f m l u = Some y \<Longrightarrow> \<not> (m = move \<and> l = limit \<and> stuck u)"
      and body: "(if sc_cursor_x u < l then (case m u of Inl g \<Rightarrow> Some (Inl g)
          | Inr s1 \<Rightarrow> if sc_cursor_x s1 mod 8 = 0 then Some (Inr s1) else f m l s1) else Some (Inr u)) = Some y"
    show "\<not> (m = move \<and> l = limit \<and> stuck u)"
    proof
      assume a: "m = move \<and> l = limit \<and> stuck u"
      then obtain t where t: "move u = Inr t" "stuck t" "sc_cursor_x t mod 8 \<noteq> 0" "sc_cursor_x u < limit" using step by blast
      then have "f m l t = Some y" using body a by simp
      then show False using IH a t(2) by blast
    qed
  qed
  then show False using r s by blast
qed

text \<open>
  C23.  In the emulation VT52 a tab hangs the program when the last column is not a tab stop and
  the cursor is behind the last tab stop of the screen, as in the columns 72 to 79 of 80: the loop
  waits for a column that is a multiple of eight, and the cursor cannot get there (a defect).
\<close>

theorem vt52_tab_hangs:
  assumes "emulator_ok e" "em_last e \<noteq> Q_EMUL_FSM_MANY_CHARS" "em_n e \<le> 126" "sc_emulation (em_screen e) = Q_EMUL_VT52"
    "vt_scan e = VT_SCAN_NONE" "sc_cursor_x (em_screen e) < 80" "sc_cursor_x (em_screen e) \<le> cursor_margin (em_screen e)"
    "8 * (sc_cursor_x (em_screen e) div 8) < cursor_margin (em_screen e)"
    "cursor_margin (em_screen e) < 8 * (sc_cursor_x (em_screen e) div 8 + 1)"
  shows "console_byte 9 e = Inl Diverges"
proof -
  define stuck where "stuck s \<longleftrightarrow> screen_ok s \<and> sc_cursor_x s < 80 \<and> sc_cursor_x s \<le> cursor_margin s \<and>
      8 * (sc_cursor_x s div 8) < cursor_margin s \<and> cursor_margin s < 8 * (sc_cursor_x s div 8 + 1)" for s
  have step: "sc_cursor_x s < 80 \<and> (\<exists>t. cursor_right 1 False s = Inr t \<and> stuck t \<and> sc_cursor_x t mod 8 \<noteq> 0)" if "stuck s" for s
  proof (cases "sc_cursor_x s < cursor_margin s")
    case True
    have "screen_ok s" using that by (simp add: stuck_def)
    from cursor_right_x [OF True this] obtain t where t: "cursor_right 1 False s = Inr t" "moved s t"
      "sc_cursor_x t = sc_cursor_x s + 1" "cursor_margin t = cursor_margin s"
      unfolding surely_iff by blast
    have x: "sc_cursor_x t < 8 * (sc_cursor_x s div 8 + 1)" using that True t(3) by (simp add: stuck_def)
    then have d: "sc_cursor_x t div 8 = sc_cursor_x s div 8" "sc_cursor_x t mod 8 \<noteq> 0" using t(3) by presburger+
    have y: "sc_cursor_x s < 80" using that by (simp add: stuck_def)
    then have "sc_cursor_x s div 8 < 10" by (simp add: div_less_iff_less_mult)
    then have "sc_cursor_x t < 80" unfolding d(1) [symmetric] by (simp add: div_less_iff_less_mult)
    moreover have "sc_cursor_x t \<le> cursor_margin t" using True t(3,4) by linarith
    moreover have "8 * (sc_cursor_x t div 8) < cursor_margin t" "cursor_margin t < 8 * (sc_cursor_x t div 8 + 1)"
      using that unfolding stuck_def t(4) d(1) by blast+
    ultimately have "stuck t" using moved_ok [OF t(2)] unfolding stuck_def by blast
    then show ?thesis using t(1) d(2) y by blast
  next
    case False
    then have x: "sc_cursor_x s = cursor_margin s" using that by (simp add: stuck_def)
    have "cursor_right 1 False s = Inr (s\<lparr>sc_wrap_flag := False\<rparr>)"
      using x by (simp add: cursor_right_def outside_region_def clear_wrap_flag_def Let_def)
    moreover have "cursor_margin (s\<lparr>sc_wrap_flag := False\<rparr>) = cursor_margin s" by (simp add: cursor_margin_def halve_margin_def)
    then have "stuck (s\<lparr>sc_wrap_flag := False\<rparr>)" using that by (simp add: stuck_def)
    moreover have "8 * (sc_cursor_x s div 8) < sc_cursor_x s" using x that by (simp add: stuck_def)
    then have "sc_cursor_x s mod 8 \<noteq> 0" by presburger
    ultimately show ?thesis using that by (simp add: stuck_def)
  qed
  have "tab_loop (cursor_right 1 False) 80 (em_screen e) = None"
    by (rule tab_loop_none [where stuck = stuck, OF step])
      (use assms in \<open>simp_all add: stuck_def emulator_ok_def settled_def\<close>)
  then have "vt_none 9 (e\<lparr>em_bytes_received := n\<rparr>) = Inl Diverges" for n
    by (simp add: vt_none_def C_ESC_def vt_done_def on_screen_def tab_by_def)
  moreover have "(9 :: byte) AND 127 = 9" by simp
  moreover have "junk_buffer e = e" using assms(3) by (simp add: junk_buffer_def EMUL_BUFFER_SIZE_def)
  ultimately show ?thesis using assms(2,4,5)
    by (simp add: console_byte_def terminal_emulator_def Let_def C_CR_def C_LF_def emulate_def vt52_def)
qed

theorem vt52_tab_hangs_witness: "console_byte 9 (sample_emulator Q_EMUL_VT52 75) = Inl Diverges"
  by (rule vt52_tab_hangs)
    (simp_all add: sample_emulator_ok, simp_all add: sample_emulator_def sample_screen_def cursor_margin_def halve_margin_def current_line_def)

section \<open>Text\<close>

lemma console_bytes_append: "console_bytes (as @ bs) e = andthen (console_bytes as e) (console_bytes bs)"
proof (induction as arbitrary: e)
  case (Cons b as)
  then show ?case by (cases "console_byte b e") simp_all
qed simp

lemma map_char_cong: "sc_emulation (em_screen e1) = sc_emulation (em_screen e) \<Longrightarrow> em_codepage e1 = em_codepage e \<Longrightarrow> map_char e1 = map_char e"
  by (rule ext) (simp add: map_char_def)

lemma console_byte_plain:
  assumes "em_last e \<noteq> Q_EMUL_FSM_MANY_CHARS" "em_n e \<le> 126" "sc_emulation (em_screen e) = Q_EMUL_ANSI" "an_scan e = AN_SCAN_NONE"
    "32 \<le> b" "b \<noteq> 127" "print_character (map_char e b) (em_screen e) = Inr s"
  shows "console_byte b e = Inr (e\<lparr>em_bytes_received := em_bytes_received e + 1, em_to_screen := map_char e b, an_rep := map_char e b,
      em_last := Q_EMUL_FSM_ONE_CHAR, em_screen := s\<rparr>)"
proof -
  have j: "junk_buffer e = e" using assms(2) by (simp add: junk_buffer_def EMUL_BUFFER_SIZE_def)
  have b: "b \<noteq> C_CR" "b \<noteq> C_LF" "b \<noteq> C_ESC" "\<not> is_cntrl b" using assms(5,6) by (auto simp: C_CR_def C_LF_def C_ESC_def is_cntrl_def)
  have m: "map_char (e\<lparr>em_bytes_received := n\<rparr>) b = map_char e b" for n by (simp add: map_char_def)
  show ?thesis using assms(1,3,4,7) j b
    by (simp add: console_byte_def terminal_emulator_def Let_def emulate_def ansi_def an_none_def m drain.simps on_screen_def)
qed

text \<open>From the space on every code page maps a byte to a glyph, not to NUL or BEL.\<close>

definition glyph_table :: "nat list \<Rightarrow> bool" where
  "glyph_table cs \<longleftrightarrow> list_all (\<lambda>c. 7 < c \<and> c < 2 ^ 32) (drop 32 cs)"

lemma glyph_tables:
  "glyph_table cp437_chars" "glyph_table iso8859_1_chars" "glyph_table cp720_chars" "glyph_table cp737_chars" "glyph_table cp775_chars"
  "glyph_table cp850_chars" "glyph_table cp852_chars" "glyph_table cp857_chars" "glyph_table cp858_chars" "glyph_table cp860_chars"
  "glyph_table cp862_chars" "glyph_table cp863_chars" "glyph_table cp866_chars" "glyph_table cp1250_chars" "glyph_table cp1251_chars"
  "glyph_table cp1252_chars" "glyph_table koi8_r_chars" "glyph_table koi8_u_chars"
  by (simp_all add: glyph_table_def cp437_chars_def iso8859_1_chars_def cp720_chars_def cp737_chars_def cp775_chars_def cp850_chars_def
      cp852_chars_def cp857_chars_def cp858_chars_def cp860_chars_def cp862_chars_def cp863_chars_def cp866_chars_def
      cp1250_chars_def cp1251_chars_def cp1252_chars_def koi8_r_chars_def koi8_u_chars_def)

lemma glyph_nth: "glyph_table cs \<Longrightarrow> length cs = 256 \<Longrightarrow> 32 \<le> b \<Longrightarrow> 7 < (of_nat (cs ! unat b) :: u32)" for b :: byte
proof -
  assume t: "glyph_table cs" "length cs = 256" and b: "32 \<le> b"
  have u: "32 \<le> unat b" "unat b < 256" using b unat_byte_256 [of b] by (simp_all add: word_le_nat_alt)
  then have "cs ! unat b = drop 32 cs ! (unat b - 32)" "unat b - 32 < length (drop 32 cs)" using t(2) by simp_all
  then have c: "7 < cs ! unat b" "cs ! unat b < 2 ^ 32" using t(1) unfolding glyph_table_def list_all_length by metis+
  have "unat (of_nat (cs ! unat b) :: u32) = cs ! unat b" using c(2) by (simp add: unsigned_of_nat take_bit_nat_eq_self)
  then show ?thesis using c(1) by (simp add: word_less_nat_alt)
qed

lemma glyph_above_7: "32 \<le> b \<Longrightarrow> 7 < codepage_map_char v cp b"
proof -
  assume b: "32 \<le> b"
  have "7 < (ucast b :: u32)" using b unat_byte_256 [of b] by (simp add: word_less_nat_alt word_le_nat_alt unsigned_ucast_eq take_bit_nat_eq_self)
  then show ?thesis using glyph_nth [OF glyph_tables(1) _ b] glyph_nth [OF glyph_tables(2) _ b] glyph_nth [OF glyph_tables(3) _ b]
    glyph_nth [OF glyph_tables(4) _ b] glyph_nth [OF glyph_tables(5) _ b] glyph_nth [OF glyph_tables(6) _ b] glyph_nth [OF glyph_tables(7) _ b]
    glyph_nth [OF glyph_tables(8) _ b] glyph_nth [OF glyph_tables(9) _ b] glyph_nth [OF glyph_tables(10) _ b] glyph_nth [OF glyph_tables(11) _ b]
    glyph_nth [OF glyph_tables(12) _ b] glyph_nth [OF glyph_tables(13) _ b] glyph_nth [OF glyph_tables(14) _ b] glyph_nth [OF glyph_tables(15) _ b]
    glyph_nth [OF glyph_tables(16) _ b] glyph_nth [OF glyph_tables(17) _ b] glyph_nth [OF glyph_tables(18) _ b]
    by (cases cp) simp_all
qed
lemma memcpy_snoc: "i + length cs < length xs \<Longrightarrow> (memcpy xs i cs)[i + length cs := c] = memcpy xs i (cs @ [c])"
  by (rule nth_equalityI) (auto simp: nth_memcpy nth_list_update nth_append)

text \<open>The screen after glyphs were written into the current line from the cursor on.\<close>

definition written :: "u32 list \<Rightarrow> screen \<Rightarrow> screen" where
  "written cs s =
     (set_current ((current_line s)\<lparr>sl_chars := memcpy (sl_chars (current_line s)) (sc_cursor_x s) cs,
          sl_colors := memcpy (sl_colors (current_line s)) (sc_cursor_x s) (replicate (length cs) (sc_color s)),
          sl_length := max (sl_length (current_line s)) (sc_cursor_x s + length cs)\<rparr>) s)
       \<lparr>sc_cursor_x := sc_cursor_x s + length cs, sc_wrap_flag := False\<rparr>"

lemma padded_line_id: "sc_cursor_x s \<le> sl_length (current_line s) \<Longrightarrow> padded_line s = current_line s"
  by (simp add: padded_line_def pad_line_def)

lemma print_one:
  assumes s: "screen_ok s" and x: "sc_cursor_x s < print_margin s" "sc_cursor_x s \<le> sl_length (current_line s)" and c: "7 < c"
  shows "print_character c s = Inr (written [c] s)" "screen_ok (written [c] s)" "print_margin (written [c] s) = print_margin s"
    "sc_cursor_x (written [c] s) = sc_cursor_x s + 1" "sc_cursor_x (written [c] s) \<le> sl_length (current_line (written [c] s))"
    "sc_emulation (written [c] s) = sc_emulation s"
proof -
  have lt: "sc_cursor_x s < length (sl_chars (current_line s))" "sc_cursor_x s < length (sl_colors (current_line s))"
    using screen_okD(7,10) [OF s] by (simp_all add: line_ok_def)
  have one: "memcpy xs i [y] = xs[i := y]" if "i < length xs" for xs :: "'x list" and i y
    using that by (simp add: memcpy_def upd_conv_take_nth_drop)
  have l: "stored_line c s (padded_line s) = (current_line s)\<lparr>sl_chars := memcpy (sl_chars (current_line s)) (sc_cursor_x s) [c],
      sl_colors := memcpy (sl_colors (current_line s)) (sc_cursor_x s) [sc_color s],
      sl_length := max (sl_length (current_line s)) (sc_cursor_x s + 1)\<rparr>"
    using lt by (simp add: padded_line_id [OF x(2)] stored_line_def put_cell_def one max.commute)
  have w: "written [c] s = (set_current (stored_line c s (padded_line s)) s)\<lparr>sc_wrap_flag := False, sc_cursor_x := sc_cursor_x s + 1\<rparr>"
    unfolding l by (simp add: written_def set_current_def set_line_def)
  show p: "print_character c s = Inr (written [c] s)"
    unfolding w by (rule print_inside [OF s x(1)]) (use c in auto)
  show "screen_ok (written [c] s)" using print_character_ok [OF s, of c] p by (simp add: moved_def)
  show "print_margin (written [c] s) = print_margin s"
    unfolding w by (simp add: print_margin_set_current [OF s stored_line_ok(2) [OF s]])
  show "sc_cursor_x (written [c] s) = sc_cursor_x s + 1" "sc_emulation (written [c] s) = sc_emulation s" by (simp_all add: w)
  show "sc_cursor_x (written [c] s) \<le> sl_length (current_line (written [c] s))"
    by (simp add: written_def current_line_set_current [OF s])
qed

lemma written_Cons:
  assumes s: "screen_ok s" "sc_cursor_x s + length (c # cs) \<le> Q_MAX_LINE_LENGTH"
  shows "written cs (written [c] s) = written (c # cs) s"
proof -
  have ln: "length (sl_chars (current_line s)) = Q_MAX_LINE_LENGTH" "length (sl_colors (current_line s)) = Q_MAX_LINE_LENGTH"
    using screen_okD(10) [OF s(1)] by (simp_all add: line_ok_def)
  have m: "memcpy (memcpy xs i [y]) (Suc i) ys = memcpy xs i (y # ys)" if "i + length (y # ys) \<le> length xs" for xs :: "'x list" and i y ys
    by (rule nth_equalityI) (use that in \<open>auto simp: nth_memcpy nth_Cons'\<close>)
  have i: "sc_current s < length (sc_lines s)" by (rule screen_okD(5) [OF s(1)])
  show ?thesis using s(2) ln i
    by (simp add: written_def set_current_def set_line_def current_line_def m [simplified] replicate_append_same ac_simps)
qed

text \<open>
  The screen whose current line was first filled up to the cursor, when it ends before it,
  with blanks in the color of the console.
\<close>

definition gap_filled :: "screen \<Rightarrow> screen" where
  "gap_filled s =
     (let ln = current_line s; n = sl_length ln; k = sc_cursor_x s - n
      in set_current (ln\<lparr>sl_chars := memcpy (sl_chars ln) n (replicate k 32),
           sl_colors := memcpy (sl_colors ln) n (replicate k (console_text s)), sl_length := n + k\<rparr>) s)"

lemma put_spaces_memcpy:
  assumes "m + k \<le> length (sl_chars ln)" "length (sl_colors ln) = length (sl_chars ln)"
  shows "put_spaces m (m + k) a ln = ln\<lparr>sl_chars := memcpy (sl_chars ln) m (replicate k 32), sl_colors := memcpy (sl_colors ln) m (replicate k a)\<rparr>"
  using assms(1)
proof (induction k)
  case 0
  then show ?case by (simp add: put_spaces_def memcpy_def)
next
  case (Suc k)
  then show ?case using assms(2) memcpy_snoc [of m "replicate k 32" "sl_chars ln" 32] memcpy_snoc [of m "replicate k a" "sl_colors ln" a]
    by (simp add: put_spaces_def put_cell_def replicate_append_same del: replicate_Suc) (simp add: replicate_append_same)
qed

lemma gap_filled_padded:
  assumes "screen_ok s"
  shows "gap_filled s = set_current (padded_line s) s"
proof -
  let ?ln = "current_line s"
  have ln: "length (sl_chars ?ln) = Q_MAX_LINE_LENGTH" "length (sl_colors ?ln) = Q_MAX_LINE_LENGTH"
    and x: "sc_cursor_x s < Q_MAX_LINE_LENGTH"
    using screen_okD(7,10) [OF assms] by (simp_all add: line_ok_def)
  show ?thesis
  proof (cases "sl_length ?ln < sc_cursor_x s")
    case True
    then show ?thesis using put_spaces_memcpy [of "sl_length ?ln" "sc_cursor_x s - sl_length ?ln" ?ln "console_text s"] ln x
      by (simp add: gap_filled_def padded_line_def pad_line_def check_def Let_def)
  next
    case False
    then show ?thesis by (simp add: gap_filled_def padded_line_def pad_line_def memcpy_def Let_def)
  qed
qed

lemma gap_filled_ok:
  assumes s: "screen_ok s"
  shows "screen_ok (gap_filled s)" "print_margin (gap_filled s) = print_margin s" "sc_cursor_x (gap_filled s) = sc_cursor_x s"
    "sc_cursor_x (gap_filled s) \<le> sl_length (current_line (gap_filled s))" "sc_emulation (gap_filled s) = sc_emulation s"
  using set_current_ok [OF s, of "padded_line s"] padded_line_ok [OF s] print_margin_set_current [OF s padded_line_ok(4) [OF s]]
  by (simp_all add: gap_filled_padded [OF s] current_line_set_current [OF s] moved_def)

lemma print_gap_filled:
  assumes s: "screen_ok s" and x: "sc_cursor_x s < print_margin s" and c: "7 < c"
  shows "print_character c s = print_character c (gap_filled s)"
proof -
  let ?t = "gap_filled s"
  note t = gap_filled_ok [OF s]
  have cc: "c \<noteq> 7" "c \<noteq> 0" using c by auto
  have "sc_color ?t = sc_color s" by (simp add: gap_filled_padded [OF s])
  moreover have "padded_line ?t = padded_line s"
    using padded_line_id [OF t(4)] by (simp add: gap_filled_padded [OF s] current_line_set_current [OF s])
  ultimately have "set_current (stored_line c ?t (padded_line ?t)) ?t = set_current (stored_line c s (padded_line s)) s"
    using t(3) by (simp add: stored_line_def) (simp add: gap_filled_padded [OF s] set_current_twice)
  then show ?thesis using print_inside [OF s x cc] print_inside [OF t(1) _ cc] x t(2,3) by simp
qed

lemma text_written:
  assumes "screen_ok (em_screen e)" "sc_emulation (em_screen e) = Q_EMUL_ANSI" "an_scan e = AN_SCAN_NONE" "em_last e \<noteq> Q_EMUL_FSM_MANY_CHARS"
    "em_n e \<le> 126" "\<forall>b\<in>set bs. 32 \<le> b \<and> b \<noteq> 127" "sc_cursor_x (em_screen e) + length bs \<le> print_margin (em_screen e)"
    "sc_cursor_x (em_screen e) \<le> sl_length (current_line (em_screen e))" "bs \<noteq> []"
  shows "\<exists>e1. console_bytes bs e = Inr e1 \<and> em_screen e1 = written (map (map_char e) bs) (em_screen e)"
  using assms
proof (induction bs arbitrary: e)
  case (Cons b bs)
  let ?s = "em_screen e" and ?c = "map_char e b"
  have c: "7 < ?c" using Cons.prems(6) by (simp add: map_char_def glyph_above_7)
  have x: "sc_cursor_x ?s < print_margin ?s" using Cons.prems(7) by simp
  note one = print_one [OF Cons.prems(1) x Cons.prems(8) c]
  let ?e = "e\<lparr>em_bytes_received := em_bytes_received e + 1, em_to_screen := ?c, an_rep := ?c, em_last := Q_EMUL_FSM_ONE_CHAR,
      em_screen := written [?c] ?s\<rparr>"
  have b: "console_byte b e = Inr ?e"
    by (rule console_byte_plain) (use Cons.prems one(1) in auto)
  show ?case
  proof (cases "bs = []")
    case True
    then show ?thesis using b by simp
  next
    case False
    have m: "map_char ?e = map_char e" by (rule map_char_cong) (simp_all add: one(6))
    have "\<exists>e1. console_bytes bs ?e = Inr e1 \<and> em_screen e1 = written (map (map_char ?e) bs) (em_screen ?e)"
      by (rule Cons.IH) (use Cons.prems one False in auto)
    moreover have "sc_cursor_x ?s + length (?c # map (map_char e) bs) \<le> Q_MAX_LINE_LENGTH"
      using Cons.prems(7) print_margin_lt [OF screen_okD(1) [OF Cons.prems(1)]] columns_lt [OF screen_okD(1) [OF Cons.prems(1)]] by simp
    ultimately show ?thesis using b m written_Cons [OF Cons.prems(1), of ?c "map (map_char e) bs"] by simp
  qed
qed simp

text \<open>
  C21.  Text appears where the cursor is: in the emulation ANSI printable bytes that fit left of
  the right margin are shown, with the glyphs of the code page and in the current color, from the
  column of the cursor on; the cursor is behind them.  When the line ends before the cursor, the
  gap is filled with blanks in the color of the console; nothing else of the screen changes.
\<close>

theorem ansi_text_appears:
  assumes "screen_ok (em_screen e)" "sc_emulation (em_screen e) = Q_EMUL_ANSI" "an_scan e = AN_SCAN_NONE" "em_last e \<noteq> Q_EMUL_FSM_MANY_CHARS"
    "em_n e \<le> 126" "\<forall>b\<in>set bs. 32 \<le> b \<and> b \<noteq> 127" "sc_cursor_x (em_screen e) + length bs \<le> print_margin (em_screen e)"
    "bs \<noteq> []"
  shows "\<exists>e1. console_bytes bs e = Inr e1 \<and> em_screen e1 = written (map (map_char e) bs) (gap_filled (em_screen e))"
proof -
  obtain b bs' where bs: "bs = b # bs'" using assms(8) by (cases bs) auto
  let ?t = "gap_filled (em_screen e)"
  let ?e = "e\<lparr>em_screen := ?t\<rparr>"
  note t = gap_filled_ok [OF assms(1)]
  have x: "sc_cursor_x (em_screen e) < print_margin (em_screen e)" using assms(7) bs by simp
  have m: "map_char ?e = map_char e" by (rule map_char_cong) (simp_all add: t(5))
  have c: "7 < map_char e b" using assms(6) bs by (simp add: map_char_def glyph_above_7)
  have "print_character (map_char e b) ?t = Inr (written [map_char e b] ?t)"
    using print_one(1) [OF t(1) _ t(4) c] x t(2,3) by simp
  then have "console_byte b e = console_byte b ?e"
    using console_byte_plain [of e b "written [map_char e b] ?t"] console_byte_plain [of ?e b "written [map_char e b] ?t"]
      print_gap_filled [OF assms(1) x c] assms(2-6) bs t(5) m by simp
  then have "console_bytes bs e = console_bytes bs ?e" by (simp add: bs)
  moreover have "\<exists>e1. console_bytes bs ?e = Inr e1 \<and> em_screen e1 = written (map (map_char ?e) bs) (em_screen ?e)"
    by (rule text_written) (use assms t in simp_all)
  ultimately show ?thesis by (simp add: m)
qed

text \<open>The line of the sample ends in column 3, before the cursor in column 10.\<close>

theorem ansi_text_appears_witness:
  "let e = (sample_emulator Q_EMUL_ANSI 3)\<lparr>em_screen := (sample_screen Q_EMUL_ANSI 1 3 0)\<lparr>sc_cursor_x := 10\<rparr>\<rparr>
   in sl_length (current_line (em_screen e)) = 3 \<and>
     (\<exists>e1. console_bytes [72, 105] e = Inr e1 \<and> em_screen e1 = written (map (map_char e) [72, 105]) (gap_filled (em_screen e)))"
  unfolding Let_def
proof (intro conjI ansi_text_appears)
  show "screen_ok (em_screen ((sample_emulator Q_EMUL_ANSI 3)\<lparr>em_screen := (sample_screen Q_EMUL_ANSI 1 3 0)\<lparr>sc_cursor_x := 10\<rparr>\<rparr>))"
    by (simp add: screen_ok_def geometry_ok_def scrollback_ok_def cursor_ok_def sample_screen_def columns_def last_row_def
        Q_MAX_LINE_LENGTH_def lines_ok_def line_ok_def)
qed (simp_all add: sample_emulator_def sample_screen_def print_margin_def halve_margin_def current_line_def)

end
