(* ===== verification/Ansi_Sequences.thy ===== *)
theory Ansi_Sequences
  imports Emulation_Properties
begin

text \<open>
  Whole sequences of the ANSI emulation, byte by byte: how the numbers of a sequence are
  collected in the buffer and read back, the round trip of the cursor position and its report, and
  the insertion of characters beyond the end of a line.
\<close>

section \<open>The cursor\<close>

lemma up_loop_y: "up_loop n False s = Inr t \<Longrightarrow> n \<le> sc_cursor_y s \<Longrightarrow> sc_cursor_y t = sc_cursor_y s - n \<and> sc_cursor_x t = sc_cursor_x s"
proof (induction n arbitrary: s)
  case (Suc n)
  then show ?case using Suc.IH [of "s\<lparr>sc_cursor_y := sc_cursor_y s - 1, sc_current := sc_current s - 1\<rparr>"] by (auto simp: check_def split: if_splits)
qed simp

lemma free_line_keeps: "free_line k s = Inr t \<Longrightarrow> sc_cursor_y t = sc_cursor_y s \<and> sc_cursor_x t = sc_cursor_x s \<and> last_row t = last_row s"
  by (auto simp: free_line_def check_def last_row_def split: if_splits)

lemma new_line_keeps:
  assumes "new_scrollback_line s = Inr t"
  shows "sc_cursor_y t = sc_cursor_y s \<and> sc_cursor_x t = sc_cursor_x s \<and> last_row t = last_row s"
proof (cases "buffer_full s")
  case True
  then show ?thesis using assms by (auto simp: new_scrollback_line_def Let_def andthen_eq_Inr last_row_def split: if_splits dest!: free_line_keeps)
next
  case False
  then show ?thesis using assms by (auto simp: new_scrollback_line_def Let_def andthen_eq_Inr last_row_def)
qed

lemma last_row_set_current [simp]: "last_row (set_current ln s) = last_row s"
  by (simp add: set_current_def set_line_def last_row_def)

lemma last_row_current [simp]: "last_row (s\<lparr>sc_current := k\<rparr>) = last_row s"
  by (simp add: last_row_def)

lemma down_one_y:
  assumes "down_one s = Inr t"
  shows "sc_cursor_y t = sc_cursor_y s + 1 \<and> sc_cursor_x t = sc_cursor_x s \<and> last_row t = last_row s"
proof (cases "Suc (sc_current s) < length (sc_lines s)")
  case True
  then show ?thesis using assms by (auto simp: down_one_def last_row_def)
next
  case False
  then obtain s1 ln where "new_scrollback_line (s\<lparr>sc_cursor_y := sc_cursor_y s + 1\<rparr>) = Inr s1" "t = set_current ln (s1\<lparr>sc_current := Suc (sc_current s1)\<rparr>)"
    using assms by (auto simp: down_one_def Let_def andthen_eq_Inr)
  then show ?thesis using new_line_keeps [of "s\<lparr>sc_cursor_y := sc_cursor_y s + 1\<rparr>" s1] by simp
qed

lemma down_loop_y:
  "down_loop n False s = Inr t \<Longrightarrow> sc_cursor_y s + n \<le> last_row s \<Longrightarrow> sc_cursor_y t = sc_cursor_y s + n \<and> sc_cursor_x t = sc_cursor_x s"
proof (induction n arbitrary: s)
  case (Suc n)
  obtain u where u: "down_one s = Inr u" "down_loop n False u = Inr t" using Suc.prems by (auto simp: andthen_eq_Inr)
  show ?case using Suc.IH [OF u(2)] down_one_y [OF u(1)] Suc.prems(2) by simp
qed simp

lemma cursor_position_exact:
  assumes s: "screen_ok s" and p: "row \<le> last_row s" "col < sc_WIDTH s" "\<not> sc_origin_mode s" "sc_right_margin s \<le> 0 \<or> int col \<le> sc_right_margin s"
  shows "surely (\<lambda>t. moved s t \<and> sc_cursor_x t = col \<and> sc_cursor_y t = row) (cursor_position row col s)"
proof -
  obtain t where t: "cursor_position row col s = Inr t" "moved s t" using cursor_position_ok [OF s] by (auto simp: surely_iff)
  have x: "(if 0 < sc_right_margin s \<and> sc_right_margin s < int (min col (sc_WIDTH s - 1)) then cursor_margin s else min col (sc_WIDTH s - 1)) = col"
    using p by auto
  have "sc_cursor_x t = col \<and> sc_cursor_y t = row"
    using t(1) p(1,3) screen_okD(8) [OF s] unfolding cursor_position_def x Let_def
    by (auto simp: andthen_eq_Inr cursor_down_def cursor_up_def clear_wrap_flag_def split: if_splits dest!: up_loop_y down_loop_y)
  then show ?thesis using t by simp
qed

section \<open>Numbers\<close>

lemma digits_are_digits: "d \<in> set (digits_base 10 n) \<Longrightarrow> is_digit d"
  using digits_base_lt [of 10 d n] by (auto simp: is_digit_def word_le_nat_alt)

lemma read_ps_digits:
  assumes "n < 10 ^ 6" "rest \<noteq> []" "\<not> is_digit (hd rest)"
  shows "read_ps (digits_base 10 n @ rest) = Inr (Some (n, rest))"
proof -
  let ?ds = "digits_base 10 n"
  have len: "length ?ds \<le> 6" using digits_length [of 10 n 5] assms(1) by simp
  have all: "\<forall>d\<in>set ?ds. is_digit d" using digits_are_digits by blast
  obtain r rs where r: "rest = r # rs" using assms(2) by (cases rest) auto
  have "takeWhile is_digit (take m rest) = []" for m using assms(3) by (cases m) (simp_all add: r)
  moreover have "take 6 (?ds @ rest) = ?ds @ take (6 - length ?ds) rest" using len by simp
  ultimately have "takeWhile is_digit (take 6 (?ds @ rest)) = ?ds" using all by (simp add: takeWhile_append2)
  then show ?thesis using assms(2,3) read_base_digits [of 10 0 n "[]"] by (simp add: read_ps_def Let_def)
qed

lemma ansi_position_digits:
  assumes "r < 10 ^ 6 - 1" "c < 10 ^ 6 - 1" "2 \<le> k"
  shows "ansi_position (digits_base 10 (r + 1) @ 59 # digits_base 10 (c + 1) @ replicate k 0) = Inr (Some (r, c))"
proof -
  have 1: "read_ps (digits_base 10 (r + 1) @ 59 # digits_base 10 (c + 1) @ replicate k 0) = Inr (Some (r + 1, 59 # digits_base 10 (c + 1) @ replicate k 0))"
    by (rule read_ps_digits) (use assms in \<open>simp_all add: is_digit_def\<close>)
  obtain j where "k = 2 + j" using le_Suc_ex [OF assms(3)] by blast
  then have k: "replicate k 0 = (0 :: byte) # 0 # replicate j 0" by simp
  have 2: "read_ps (digits_base 10 (c + 1) @ replicate k 0) = Inr (Some (c + 1, replicate k 0))"
    by (rule read_ps_digits) (use assms k in \<open>simp_all add: is_digit_def\<close>)
  have h: "hd (digits_base 10 (r + 1) @ 59 # digits_base 10 (c + 1) @ replicate k 0) \<noteq> 59"
  proof -
    have "is_digit (hd (digits_base 10 (r + 1)))" by (rule digits_are_digits [of _ "r + 1"]) (rule hd_in_set, rule digits_base_nonempty)
    then show ?thesis by (auto simp: is_digit_def hd_append simp del: digits_base.simps)
  qed
  show ?thesis using 1 2 h k by (simp add: ansi_position_def position_column_def position_end_def del: digits_base.simps)
qed

section \<open>The buffer\<close>

definition holds :: "byte list \<Rightarrow> ansi_scan_state \<Rightarrow> emulator \<Rightarrow> bool" where
  "holds xs st e \<longleftrightarrow> em_buffer e = xs @ replicate (128 - length xs) 0 \<and> em_n e = length xs \<and> em_i e = 0 \<and>
     em_last e \<noteq> Q_EMUL_FSM_MANY_CHARS \<and> sc_emulation (em_screen e) = Q_EMUL_ANSI \<and> an_scan e = st"

text \<open>What a byte that is only collected leaves alone.\<close>

definition unmoved :: "emulator \<Rightarrow> emulator \<Rightarrow> bool" where
  "unmoved e e1 \<longleftrightarrow> em_screen e1 = em_screen e \<and> em_sent e1 = em_sent e"

lemma console_collects:
  assumes "holds xs st e" "length xs \<le> 126" "b \<noteq> 13" "b \<noteq> 10"
    "ansi b (e\<lparr>em_bytes_received := em_bytes_received e + 1\<rparr>) = Inr (Q_EMUL_FSM_NO_CHAR_YET, e1)"
  shows "console_byte b e = Inr (e1\<lparr>em_last := Q_EMUL_FSM_NO_CHAR_YET\<rparr>)"
proof -
  have "junk_buffer e = e" using assms(1,2) by (simp add: junk_buffer_def holds_def EMUL_BUFFER_SIZE_def)
  then show ?thesis using assms
    by (simp add: console_byte_def terminal_emulator_def Let_def holds_def C_CR_def C_LF_def emulate_def drain.simps)
qed

lemma buffer_push:
  assumes "length xs \<le> 126"
  shows "(xs @ replicate (128 - length xs) 0)[length xs := b] = (xs @ [b]) @ replicate (127 - length xs) (0 :: byte)"
proof -
  have "(replicate (128 - length xs) 0)[0 := b] = b # replicate (127 - length xs) (0 :: byte)" using assms
    by (cases "128 - length xs") (auto simp: Suc_diff_le)
  then show ?thesis by (simp add: list_update_append)
qed

lemma keep_collects:
  assumes "holds xs st e" "length xs \<le> 126" "b \<noteq> 13" "b \<noteq> 10"
    "ansi b (e\<lparr>em_bytes_received := em_bytes_received e + 1\<rparr>) = an_keep b st1 (e\<lparr>em_bytes_received := em_bytes_received e + 1, an_count := k\<rparr>)"
  shows "\<exists>e1. console_byte b e = Inr e1 \<and> holds (xs @ [b]) st1 e1 \<and> unmoved e e1 \<and> an_count e1 = k"
  using console_collects [OF assms(1-4)] assms(1,2,5) buffer_push [OF assms(2), of b]
  by (simp add: an_keep_def save_char_def push_byte_def holds_def unmoved_def EMUL_BUFFER_SIZE_def no_char_def)

lemma collects_escape:
  assumes "holds [] AN_SCAN_NONE e"
  shows "\<exists>e1. console_byte 27 e = Inr e1 \<and> holds [27] AN_SCAN_ESC e1 \<and> unmoved e e1"
  using console_collects [OF assms, of 27] assms buffer_push [of "[]" 27]
  by (simp add: ansi_def an_none_def C_ESC_def save_char_def push_byte_def holds_def unmoved_def EMUL_BUFFER_SIZE_def no_char_def)

lemma same_count: "e\<lparr>em_bytes_received := n, an_count := an_count e\<rparr> = e\<lparr>em_bytes_received := n\<rparr>"
  by (cases e) simp

lemma collects_bracket:
  assumes "holds [27] AN_SCAN_ESC e"
  shows "\<exists>e1. console_byte 91 e = Inr e1 \<and> holds [27, 91] AN_SCAN_START_SEQUENCE e1 \<and> unmoved e e1"
  using keep_collects [OF assms, of 91 AN_SCAN_START_SEQUENCE "an_count e"] assms
  by (simp add: ansi_def an_esc_def holds_def same_count) blast

lemma collects_introducer:
  assumes "holds [] AN_SCAN_NONE e"
  shows "\<exists>e1. console_bytes [27, 91] e = Inr e1 \<and> holds [27, 91] AN_SCAN_START_SEQUENCE e1 \<and> unmoved e e1"
proof -
  obtain e1 where e1: "console_byte 27 e = Inr e1" "holds [27] AN_SCAN_ESC e1" "unmoved e e1" using collects_escape [OF assms] by blast
  obtain e2 where "console_byte 91 e1 = Inr e2" "holds [27, 91] AN_SCAN_START_SEQUENCE e2" "unmoved e1 e2" using collects_bracket [OF e1(2)] by blast
  then show ?thesis using e1 by (simp add: unmoved_def)
qed

lemma digit_plain: "is_digit d \<Longrightarrow> d \<noteq> 13 \<and> d \<noteq> 10"
  by (auto simp: is_digit_def)

lemma collects_first_digit:
  assumes "holds [27, 91] AN_SCAN_START_SEQUENCE e" "is_digit d"
  shows "\<exists>e1. console_byte d e = Inr e1 \<and> holds [27, 91, d] AN_SCAN_COUNT e1 \<and> unmoved e e1 \<and> an_count e1 = 2"
  using keep_collects [OF assms(1), of d AN_SCAN_COUNT 2] assms digit_plain [OF assms(2)]
  by (simp add: ansi_def an_start_def holds_def numeral_2_eq_2)

lemma collects_digits:
  assumes "st = AN_SCAN_COUNT \<or> st = AN_SCAN_COUNT_TWO"
  shows "holds xs st e \<Longrightarrow> \<forall>d\<in>set ds. is_digit d \<Longrightarrow> length xs + length ds \<le> 126 \<Longrightarrow>
    \<exists>e1. console_bytes ds e = Inr e1 \<and> holds (xs @ ds) st e1 \<and> unmoved e e1 \<and> an_count e1 = an_count e"
proof (induction ds arbitrary: xs e)
  case Nil
  then show ?case by (simp add: unmoved_def)
next
  case (Cons d ds)
  have "\<exists>e1. console_byte d e = Inr e1 \<and> holds (xs @ [d]) st e1 \<and> unmoved e e1 \<and> an_count e1 = an_count e"
    by (rule keep_collects) (use Cons.prems assms digit_plain [of d] in
        \<open>auto simp: ansi_def an_count_state_def an_count_two_def holds_def same_count\<close>)
  then obtain e1 where e1: "console_byte d e = Inr e1" "holds (xs @ [d]) st e1" "unmoved e e1" "an_count e1 = an_count e" by blast
  have "\<exists>e2. console_bytes ds e1 = Inr e2 \<and> holds ((xs @ [d]) @ ds) st e2 \<and> unmoved e1 e2 \<and> an_count e2 = an_count e1"
    by (rule Cons.IH [OF e1(2)]) (use Cons.prems in simp_all)
  then show ?case using e1 by (auto simp: unmoved_def)
qed

lemma collects_semicolon:
  assumes "holds xs AN_SCAN_COUNT e" "length xs \<le> 126"
  shows "\<exists>e1. console_byte 59 e = Inr e1 \<and> holds (xs @ [59]) AN_SCAN_COUNT_TWO e1 \<and> unmoved e e1 \<and> an_count e1 = an_count e"
  by (rule keep_collects [OF assms]) (use assms in \<open>simp_all add: ansi_def an_count_state_def holds_def same_count is_digit_def Let_def\<close>)

text \<open>The introducer and a number.\<close>

lemma collects_number:
  assumes "holds [] AN_SCAN_NONE e" "n < 10 ^ 6"
  shows "\<exists>e1. console_bytes ([27, 91] @ digits_base 10 n) e = Inr e1 \<and> holds ([27, 91] @ digits_base 10 n) AN_SCAN_COUNT e1 \<and>
    unmoved e e1 \<and> an_count e1 = 2"
proof -
  obtain d ds where d: "digits_base 10 n = d # ds" by (rule digits_Cons)
  have dig: "is_digit d" "\<forall>d\<in>set ds. is_digit d" using digits_are_digits [of _ n] by (simp_all add: d)
  have len: "length ds \<le> 5" using digits_length [of 10 n 5] assms(2) by (simp add: d)
  obtain e1 where e1: "console_bytes [27, 91] e = Inr e1" "holds [27, 91] AN_SCAN_START_SEQUENCE e1" "unmoved e e1"
    using collects_introducer [OF assms(1)] by blast
  obtain e2 where e2: "console_byte d e1 = Inr e2" "holds [27, 91, d] AN_SCAN_COUNT e2" "unmoved e1 e2" "an_count e2 = 2"
    using collects_first_digit [OF e1(2) dig(1)] by blast
  obtain e3 where e3: "console_bytes ds e2 = Inr e3" "holds ([27, 91, d] @ ds) AN_SCAN_COUNT e3" "unmoved e2 e3" "an_count e3 = 2"
    using collects_digits [OF _ e2(2) dig(2)] len e2(4) by auto
  have "console_bytes ([27, 91] @ d # ds) e = Inr e3" using e1(1) e2(1) e3(1) unfolding console_bytes_append by simp
  then show ?thesis using e1(3) e2(3) e3 by (simp add: d unmoved_def)
qed

section \<open>The cursor position\<close>

lemma an_cleared_holds:
  assumes "sc_emulation (em_screen e) = Q_EMUL_ANSI"
  shows "holds [] AN_SCAN_NONE ((an_clear e)\<lparr>em_last := Q_EMUL_FSM_NO_CHAR_YET\<rparr>)" "em_screen (an_clear e) = em_screen e" "em_sent (an_clear e) = em_sent e"
  using assms by (simp_all add: holds_def an_clear_def clear_buffer_def EMUL_BUFFER_SIZE_def)

text \<open>The sequence that sets the cursor, \<open>ESC [ row ; col H\<close>, counted from one.\<close>

definition position_sequence :: "nat \<Rightarrow> nat \<Rightarrow> byte list" where
  "position_sequence row col = [27, 91] @ digits_base 10 (row + 1) @ 59 # digits_base 10 (col + 1) @ [72]"

lemma position_sets_cursor:
  assumes e: "holds [] AN_SCAN_NONE e" and s: "screen_ok (em_screen e)" and p: "row \<le> last_row (em_screen e)" "col < sc_WIDTH (em_screen e)"
      "\<not> sc_origin_mode (em_screen e)" "sc_right_margin (em_screen e) \<le> 0 \<or> int col \<le> sc_right_margin (em_screen e)" "row < 10 ^ 6 - 1"
  shows "\<exists>e1. console_bytes (position_sequence row col) e = Inr e1 \<and> holds [] AN_SCAN_NONE e1 \<and> em_sent e1 = em_sent e \<and>
    moved (em_screen e) (em_screen e1) \<and> sc_cursor_x (em_screen e1) = col \<and> sc_cursor_y (em_screen e1) = row"
proof -
  let ?r = "digits_base 10 (row + 1)" and ?c = "digits_base 10 (col + 1)"
  have col: "col < 255" using p(2) screen_okD(1) [OF s] by (simp add: geometry_ok_def Q_MAX_LINE_LENGTH_def)
  have len: "length ?r \<le> 6" "length ?c \<le> 6" using digits_length [of 10 "row + 1" 5] digits_length [of 10 "col + 1" 5] p(5) col by simp_all
  have "row + 1 < 10 ^ 6" using p(5) by simp
  then obtain e1 where e1: "console_bytes ([27, 91] @ ?r) e = Inr e1" "holds ([27, 91] @ ?r) AN_SCAN_COUNT e1" "unmoved e e1" "an_count e1 = 2"
    using collects_number [OF e] by blast
  obtain e2 where e2: "console_byte 59 e1 = Inr e2" "holds (([27, 91] @ ?r) @ [59]) AN_SCAN_COUNT_TWO e2" "unmoved e1 e2" "an_count e2 = 2"
    using collects_semicolon [OF e1(2)] len e1(4) by auto
  obtain e3 where e3: "console_bytes ?c e2 = Inr e3" "holds ((([27, 91] @ ?r) @ [59]) @ ?c) AN_SCAN_COUNT_TWO e3" "unmoved e2 e3" "an_count e3 = 2"
    using collects_digits [OF _ e2(2), of ?c] len e2(4) digits_are_digits by auto
  let ?f = "e3\<lparr>em_bytes_received := em_bytes_received e3 + 1\<rparr>"
  have same: "em_screen ?f = em_screen e" "em_sent ?f = em_sent e" using e1(3) e2(3) e3(3) by (simp_all add: unmoved_def)
  obtain t where t: "cursor_position row col (em_screen e) = Inr t" "moved (em_screen e) t" "sc_cursor_x t = col" "sc_cursor_y t = row"
    using cursor_position_exact [OF s p(1-4)] by (auto simp: surely_iff)
  have "an_parameters ?f = ?r @ 59 # ?c @ replicate (125 - length ?r - length ?c) 0" using e3(2,4) by (simp add: an_parameters_def holds_def)
  then have "ansi_position (an_parameters ?f) = Inr (Some (row, col))"
    using ansi_position_digits [of row col "125 - length ?r - length ?c"] p(5) col len by simp
  then have a: "ansi 72 ?f = Inr (Q_EMUL_FSM_NO_CHAR_YET, an_clear (?f\<lparr>em_screen := t\<rparr>))"
    using e3(2) t(1) same(1)
    by (simp add: ansi_def an_count_two_def holds_def is_digit_def an_with_def an_done_def no_char_def on_screen_def)
  have "console_byte 72 e3 = Inr ((an_clear (?f\<lparr>em_screen := t\<rparr>))\<lparr>em_last := Q_EMUL_FSM_NO_CHAR_YET\<rparr>)"
    by (rule console_collects [OF e3(2)]) (use len a in simp_all)
  then have "console_bytes (?c @ [72]) e2 = Inr ((an_clear (?f\<lparr>em_screen := t\<rparr>))\<lparr>em_last := Q_EMUL_FSM_NO_CHAR_YET\<rparr>)"
    using e3(1) by (simp add: console_bytes_append)
  then have "console_bytes (59 # ?c @ [72]) e1 = Inr ((an_clear (?f\<lparr>em_screen := t\<rparr>))\<lparr>em_last := Q_EMUL_FSM_NO_CHAR_YET\<rparr>)"
    using e2(1) by simp
  then have "console_bytes (([27, 91] @ ?r) @ 59 # ?c @ [72]) e = Inr ((an_clear (?f\<lparr>em_screen := t\<rparr>))\<lparr>em_last := Q_EMUL_FSM_NO_CHAR_YET\<rparr>)"
    unfolding console_bytes_append [of "[27, 91] @ ?r"] e1(1) by simp
  moreover have "sc_emulation t = Q_EMUL_ANSI" using t(2) e by (simp add: moved_def fixed_parts_def holds_def)
  ultimately show ?thesis using t same(2) an_cleared_holds [of "?f\<lparr>em_screen := t\<rparr>"]
    by (simp add: position_sequence_def)
qed

text \<open>The request of a report, \<open>ESC [ 6 n\<close>, and the report.\<close>

definition report_request :: "byte list" where
  "report_request = [27, 91, 54, 110]"

definition position_report :: "nat \<Rightarrow> nat \<Rightarrow> byte list" where
  "position_report row col = [27, 91] @ digits_base 10 (row + 1) @ 59 # digits_base 10 (col + 1) @ [82]"

lemma report_sends_position:
  assumes e: "holds [] AN_SCAN_NONE e" and x: "sc_cursor_x (em_screen e) < 255" "sc_cursor_y (em_screen e) < 10 ^ 6 - 1"
  shows "\<exists>e1. console_bytes report_request e = Inr e1 \<and> em_screen e1 = em_screen e \<and>
    em_sent e1 = em_sent e @ position_report (sc_cursor_y (em_screen e)) (sc_cursor_x (em_screen e))"
proof -
  let ?r = "digits_base 10 (sc_cursor_y (em_screen e) + 1)" and ?c = "digits_base 10 (sc_cursor_x (em_screen e) + 1)"
  have len: "length ?r \<le> 6" "length ?c \<le> 3" using digits_length [of 10 _ 5] digits_length [of 10 _ 2] x by simp_all
  have six: "digits_base 10 6 = [54]" by (simp add: digits_base_small digit_def)
  obtain e1 where e1: "console_bytes [27, 91, 54] e = Inr e1" "holds [27, 91, 54] AN_SCAN_COUNT e1" "unmoved e e1" "an_count e1 = 2"
    using collects_number [OF e, of 6] by (simp add: six) blast
  let ?f = "e1\<lparr>em_bytes_received := em_bytes_received e1 + 1\<rparr>"
  have cut: "take 15 ([27, 91] @ ?r @ 59 # ?c @ [82]) = [27, 91] @ ?r @ 59 # ?c @ [82]"
    using len by (intro take_all) simp
  have "an_report ?f = ?f\<lparr>em_sent := em_sent e @ [27, 91] @ ?r @ 59 # ?c @ [82]\<rparr>"
    using e1(2,3) cut by (simp add: an_report_def holds_def unmoved_def qodem_write_def)
  then have "ansi 110 ?f = Inr (Q_EMUL_FSM_NO_CHAR_YET, an_clear (?f\<lparr>em_sent := em_sent e @ [27, 91] @ ?r @ 59 # ?c @ [82]\<rparr>))"
    using e1(2) by (simp add: ansi_def an_count_state_def holds_def is_digit_def Let_def an_done_def no_char_def)
  then have "console_byte 110 e1 = Inr ((an_clear (?f\<lparr>em_sent := em_sent e @ [27, 91] @ ?r @ 59 # ?c @ [82]\<rparr>))\<lparr>em_last := Q_EMUL_FSM_NO_CHAR_YET\<rparr>)"
    by (intro console_collects [OF e1(2)]) simp_all
  moreover have "console_bytes ([27, 91, 54] @ [110]) e = console_byte 110 e1"
    unfolding console_bytes_append e1(1) by (cases "console_byte 110 e1") simp_all
  ultimately show ?thesis using e1(3) an_cleared_holds(2,3) [of "?f\<lparr>em_sent := em_sent e @ [27, 91] @ ?r @ 59 # ?c @ [82]\<rparr>"] e1(2)
    by (simp add: report_request_def position_report_def holds_def unmoved_def)
qed

text \<open>
  C20.  The cursor position makes a round trip: after the remote side has set the cursor to a
  row and column of the screen with ESC [ row ; col H, the request ESC [ 6 n is answered with just that
  row and column, the cursor is there, and the invariant of the screen holds.
\<close>

theorem cursor_position_roundtrip:
  assumes "holds [] AN_SCAN_NONE e" "screen_ok (em_screen e)" "row \<le> last_row (em_screen e)" "col < sc_WIDTH (em_screen e)"
      "\<not> sc_origin_mode (em_screen e)" "sc_right_margin (em_screen e) \<le> 0 \<or> int col \<le> sc_right_margin (em_screen e)" "row < 10 ^ 6 - 1"
  shows "\<exists>e1. console_bytes (position_sequence row col @ report_request) e = Inr e1 \<and>
    em_sent e1 = em_sent e @ position_report row col \<and>
    sc_cursor_x (em_screen e1) = col \<and> sc_cursor_y (em_screen e1) = row \<and> screen_ok (em_screen e1)"
proof -
  obtain e1 where e1: "console_bytes (position_sequence row col) e = Inr e1" "holds [] AN_SCAN_NONE e1" "em_sent e1 = em_sent e"
    "moved (em_screen e) (em_screen e1)" "sc_cursor_x (em_screen e1) = col" "sc_cursor_y (em_screen e1) = row"
    using position_sets_cursor [OF assms] by blast
  have "col < 255" using assms(4) screen_okD(1) [OF assms(2)] by (simp add: geometry_ok_def Q_MAX_LINE_LENGTH_def)
  then show ?thesis using report_sends_position [OF e1(2)] e1 assms(7) moved_ok [OF e1(4)] by (auto simp: console_bytes_append)
qed

theorem cursor_position_roundtrip_witness:
  "\<exists>e1. console_bytes (position_sequence 2 40 @ report_request) (sample_emulator Q_EMUL_ANSI 3) = Inr e1 \<and>
    em_sent e1 = em_sent (sample_emulator Q_EMUL_ANSI 3) @ position_report 2 40 \<and>
    sc_cursor_x (em_screen e1) = 40 \<and> sc_cursor_y (em_screen e1) = 2 \<and> screen_ok (em_screen e1)"
  by (rule cursor_position_roundtrip)
    (simp_all add: holds_def sample_emulator_def sample_screen_ok, simp_all add: sample_screen_def last_row_def)

section \<open>Insertion\<close>

text \<open>
  C24.  The number of characters to insert is taken from the remote side as it is: with
  ESC [ n @ in the column x and x + n greater than 256, \<open>insert_blanks\<close> computes a negative size
  for its \<open>memmove\<close>, and memory far beyond the line is overwritten (a defect).
\<close>

theorem ansi_insert_overflows:
  assumes "holds [] AN_SCAN_NONE e" "n < 10 ^ 6" "Q_MAX_LINE_LENGTH < sc_cursor_x (em_screen e) + n"
  shows "console_bytes ([27, 91] @ digits_base 10 n @ [64]) e = Inl Buffer_overflow"
proof -
  let ?n = "digits_base 10 n"
  obtain e1 where e1: "console_bytes ([27, 91] @ ?n) e = Inr e1" "holds ([27, 91] @ ?n) AN_SCAN_COUNT e1" "unmoved e e1" "an_count e1 = 2"
    using collects_number [OF assms(1,2)] by blast
  have len: "length ?n \<le> 6" using digits_length [of 10 n 5] assms(2) by simp
  let ?f = "e1\<lparr>em_bytes_received := em_bytes_received e1 + 1\<rparr>"
  have "2 \<le> 126 - length ?n" using len by simp
  then obtain j where j: "126 - length ?n = 2 + j" using le_Suc_ex by blast
  then have ps: "an_parameters ?f = ?n @ 0 # 0 # replicate j 0" using e1(2,4) by (simp add: an_parameters_def holds_def)
  have "hd (an_parameters ?f) \<noteq> 59"
    using digits_are_digits [OF hd_in_set [OF digits_base_nonempty [of 10 n]]] by (auto simp: ps hd_append is_digit_def)
  moreover have "read_ps (an_parameters ?f) = Inr (Some (n, 0 # 0 # replicate j 0))"
    unfolding ps by (rule read_ps_digits [OF assms(2)]) (simp_all add: is_digit_def)
  ultimately have "one_parameter (an_parameters ?f) = Inr (Some n)" by (simp add: one_parameter_def ps)
  then have "ansi 64 ?f = Inl Buffer_overflow" using e1(2,3) assms(3)
    by (simp add: ansi_def an_count_state_def holds_def is_digit_def Let_def an_with_def an_done_def on_screen_def insert_blanks_def unmoved_def)
  moreover have "junk_buffer e1 = e1" using e1(2) len by (simp add: junk_buffer_def holds_def EMUL_BUFFER_SIZE_def)
  ultimately have "console_byte 64 e1 = Inl Buffer_overflow" using e1(2)
    by (simp add: console_byte_def terminal_emulator_def Let_def holds_def C_CR_def C_LF_def emulate_def)
  then show ?thesis unfolding append_assoc [symmetric] console_bytes_append [of "[27, 91] @ ?n"] e1(1) by simp
qed

theorem ansi_insert_overflows_witness:
  "console_bytes ([27, 91] @ digits_base 10 300 @ [64]) (sample_emulator Q_EMUL_ANSI 3) = Inl Buffer_overflow"
  by (rule ansi_insert_overflows) (simp_all add: holds_def sample_emulator_def Q_MAX_LINE_LENGTH_def, simp add: sample_screen_def)

end
