(* ===== verification/Spec2Isabelle.thy ===== *)
theory Spec2Isabelle
  imports Xmodem_Properties Ascii_Transfer Script_Io Ebcdic Zmodem_Properties Zmodem_Delivery Kermit_Safety Ansi_Sequences
begin

text \<open>
  Verification of the core of the Qodem terminal emulator: the file transfer protocols, the
  character sets and the terminal emulations that turn the bytes of a session into a screen.

  The program.  The console loop (console.c) reads bytes from the connection.  Outside of a transfer each byte
  goes to \<open>terminal_emulator\<close> (emulation.c), which passes it to the state machine of the emulation
  in use; that prints characters and moves the cursor with the operations of scrollback.c and sends
  its answers back.  During a transfer the bytes go to \<open>protocol_process_data\<close> (protocols.c),
  which hands them to the engine of the protocol: xmodem.c (Xmodem and Ymodem), zmodem.c, kermit.c
  or the ASCII transfer of protocols.c.  An engine is a function of the input, of its static
  variables and of the clock; it consumes input, produces output and keeps the record
  \<open>q_transfer_stats\<close> up to date.  The main loop (\<open>process_incoming_data\<close>, qodem.c) calls it until it
  writes nothing more, passes what it wrote through the 8-bit translation table and writes as
  much as the connection takes; the rest stays in the output buffer for the next round.  Codepages (codepage.c), translation tables (translate.c) and the
  pipes of a script (script.c) convert characters on the way.

  How it is modelled.  The static variables of a file are the fields of one record, under the
  names of the code, behind a prefix where names would clash: \<open>xmodem\<close>, \<open>zmodem\<close> (\<open>z_\<close>), \<open>kermit\<close>
  (\<open>k_\<close>), \<open>ascii_xfer\<close>, \<open>screen\<close> (\<open>sc_\<close>), \<open>emulator\<close> (\<open>em_\<close>, \<open>an_\<close>, \<open>vt_\<close>).  A C function is a HOL
  function of the same name on that record; its long state handlers are split along their
  states.  A function that can fail returns \<open>'a run\<close>: \<open>Inl\<close> a fault (a failed assertion, a null
  pointer, a buffer overflow, an endless loop), or \<open>Inr\<close> the result.  Integers whose width matters
  are words.  Loops whose end is a property are \<open>partial_function (option)\<close>, where \<open>None\<close> is a run
  that does not end, or the fault \<open>Diverges\<close>; no fuel limits them.  The rounds of
  \<open>xmodem_delivers_file\<close>, \<open>zmodem_delivers_file\<close> and \<open>ascii_upload_sends_file\<close> are counted in
  their statements.

  Foundations.  \<open>Qodem_Prelude\<close>: faults, \<open>check\<close>, \<open>andthen\<close>, C strings, \<open>memcpy\<close> and number
  formats.  \<open>Stdio\<close>: clock, files and \<open>FILE\<close> streams; the locale \<open>block_source\<close> is the contract of
  a stream that is read in blocks, interpreted on \<open>fread\<close>.  \<open>Check_Registers\<close>: checksums and CRCs
  as registers stepped once per byte (locales \<open>check_register\<close>, \<open>linear_register\<close>), interpreted on
  the CRC loops of the engines, and by \<open>Xmodem_Block\<close> and \<open>Kermit_Codec\<close> on the checksum of Xmodem
  and the CRC of Kermit.  \<open>Transfer_Stats\<close>: \<open>q_transfer_stats\<close> and its setters (protocols.c).
  \<open>Main_Loop\<close>: one round of \<open>process_incoming_data\<close> during a transfer, over any engine.  The locale
  \<open>transfer_engine\<close> states what it relies on and shows when its loop ends and with what; it is
  interpreted on the engines of Xmodem and of the ASCII transfer, whose sessions are sequences of
  such rounds.  The sessions of Zmodem call their engine once per round with an emptied output
  buffer, which is a line that takes all output; those of Kermit are single calls.

  Xmodem and Ymodem (xmodem.c).  \<open>Xmodem_State\<close>, \<open>Xmodem_Block\<close> (building and verifying blocks),
  \<open>Ymodem_Block0\<close> (the header block), \<open>Xmodem_Receive\<close>, \<open>Xmodem_Send\<close>, \<open>Xmodem_Engine\<close> (the two
  loops, start and stop).  \<open>Xmodem_Padding\<close>: the loop that trims a file, with its 32-bit file size
  (hence the bound of 2 GiB in several statements).  \<open>Xmodem_Safety\<close>: no input makes the engine
  fail, as an invariant of the step relation \<open>program_step\<close>, whose rounds may leave output unwritten.
  \<open>Xmodem_Session\<close>: two programs on a line; the locale \<open>stop_and_wait\<close> is the contract of a
  sender that waits for each acknowledgement, interpreted on the engine for the delivery theorem
  below.  \<open>Xmodem_Properties\<close>: round trips, error detection, recovery and the defects found.

  Zmodem (zmodem.c).  \<open>Zmodem_Codec\<close> (CRC-32, escapes; the locale \<open>escape_map\<close> is what decoding
  relies on, interpreted on \<open>setup_encode_byte_map\<close>), \<open>Zmodem_Packet\<close> (headers), \<open>Zmodem_State\<close>,
  \<open>Zmodem_Receive\<close>, \<open>Zmodem_Send\<close>, \<open>Zmodem_Engine\<close>.  \<open>Zmodem_Link\<close> shows that each side reads what
  the other writes, \<open>Zmodem_Session\<close> and \<open>Zmodem_Delivery\<close> follow two engines through a whole
  file, \<open>Zmodem_Properties\<close> holds round trips, damage and defects.

  Kermit (kermit.c).  \<open>Kermit_Codec\<close> (the encoding of a data field and its round trip),
  \<open>Kermit_State\<close>, \<open>Kermit_Packet\<close> (every packet type and the negotiation), \<open>Kermit_Frame\<close> (short and
  long packets), \<open>Kermit_Window\<close>, \<open>Kermit_Engine\<close>.  \<open>Kermit_Roundtrip\<close>: what one side writes the
  other reads.  \<open>Kermit_Progress\<close> and \<open>Kermit_Properties\<close>: the loop of a call ends, with a result or
  a fault, by the measure of the bytes that wait.  \<open>Kermit_Safety\<close>: agreement on parameters, damage,
  and the defects found, among them the loop of \<open>kermit_start\<close> that does not end.

  Characters.  \<open>Utf8\<close> (encoder and table driven decoder, exact with respect to the definition of
  UTF-8), \<open>Codepage\<close> (the tables and their inverses), \<open>Translate\<close> (tables and their files; the locale
  \<open>mapping_file\<close> is the contract of a line format and gives the round trip of both files), \<open>Ebcdic\<close>,
  \<open>Ascii_Transfer\<close> (protocols.c, with its upload under any connection) and \<open>Script_Io\<close> (script.c).

  The terminal.  \<open>Screen\<close>: the lines, the cursor and every operation of scrollback.c the emulations
  use.  \<open>Emulation\<close>: the TTY, ANSI and VT52 state machines, the dispatcher and the loop of the console.
  \<open>Screen_Invariant\<close>, \<open>Screen_Moves\<close> and \<open>Screen_Scroll\<close>: each operation keeps the invariant
  \<open>screen_ok\<close> and its frame \<open>moved\<close>; \<open>Screen_History\<close>: what scrolling does to the lines.
  \<open>Emulation_Tabs\<close> and \<open>Emulation_Safety\<close>: the loops of the tab and the bytes the emulator survives;
  \<open>Emulation_Properties\<close> and \<open>Ansi_Sequences\<close>: streams, text, tabs, whole sequences and the defects
  found.

  Parameters of the model: the contents of disk and clock, the options, the number of bytes a
  pipe or the connection takes (\<open>qodem_write\<close>), and the calendar functions of the C library that Kermit calls, which depend on the
  time zone.

  Not modelled.  Drawing, dialogs, menus, logs, sound and the keyboard (I/O on curses and devices
  around the modelled state); the emulations VT100 and its relatives, Avatar, ATASCII, PETSCII and
  DEBUG, which are further state machines on the same screen operations; the scrollback viewer
  and capture; the rest of the main loop (errors of the connection, the at_rest timer, the dialer,
  hanging up, the multiplexing of descriptors); the network client, whose option negotiation is woven into non-blocking sockets
  and which calls cryptlib for SSH; the modem, phonebook, host mode and
  configuration files.  The libraries under lib/ are third-party code.
\<close>

section \<open>A whole transfer\<close>

text \<open>
  C1.  Two copies of the program joined by a clean line, which takes all output at once and
  under no translation, the one uploading and the other downloading with the same Xmodem
  protocol (plain, CRC, relaxed or 1K): after the receiver has sent its first byte, as many
  rounds of both main loops as the file has blocks and two more bring both sides to the end of
  the transfer, with no error counted on either side, and the downloaded file is the uploaded
  one without the SUB bytes at its end.  The file holds a byte other than SUB and is shorter
  than 2 GiB by more than a block.
\<close>

theorem xmodem_delivers_file:
  assumes "waiting_flavor (t_protocol (stats s0)) = Some fl" "t_protocol (stats r0) = t_protocol (stats s0)"
    and "file_path src" "readable_file (world s0) src d" "\<exists>b\<in>set d. b \<noteq> C_SUB" "length d + 1024 < 2 ^ 31"
    and "file_path dst" "writable_file (world r0) dst (length d + 1024)"
  shows "\<exists>s r m r1 s' r'.
    start_file_transfer Q_STATE_UPLOAD src [] s0 = Some (Inr (True, s)) \<and>
    start_file_transfer Q_STATE_DOWNLOAD dst [] r0 = Some (Inr (True, r)) \<and>
    feed [] (at_rest r) = Inr (m, r1) \<and> lockstep (length (payloads fl d) + 2) (m, at_rest s, r1) = Inr (s', r') \<and>
    t_state (stats (engine s')) = Q_TRANSFER_STATE_END \<and> t_error_count (stats (engine s')) = 0 \<and>
    t_state (stats (engine r')) = Q_TRANSFER_STATE_END \<and> t_error_count (stats (engine r')) = 0 \<and>
    map_option fst (files (world (engine r')) dst) = Some (strip_subs d)"
  using transfer_completes [OF assms] unfolding snd_complete_def rcv_saved_def strip_payloads by blast

theorem xmodem_delivers_file_witness:
  "let d = [72, 105]; s0 = initial_xmodem Q_PROTOCOL_XMODEM_1K (sample_os d);
       r0 = initial_xmodem Q_PROTOCOL_XMODEM_1K (sample_os [])
   in \<exists>s r m r1 s' r'.
    start_file_transfer Q_STATE_UPLOAD sample_path [] s0 = Some (Inr (True, s)) \<and>
    start_file_transfer Q_STATE_DOWNLOAD sample_path [] r0 = Some (Inr (True, r)) \<and>
    feed [] (at_rest r) = Inr (m, r1) \<and> lockstep (length (payloads X_1K d) + 2) (m, at_rest s, r1) = Inr (s', r') \<and>
    t_state (stats (engine s')) = Q_TRANSFER_STATE_END \<and> t_error_count (stats (engine s')) = 0 \<and>
    t_state (stats (engine r')) = Q_TRANSFER_STATE_END \<and> t_error_count (stats (engine r')) = 0 \<and>
    map_option fst (files (world (engine r')) sample_path) = Some (strip_subs d)"
  unfolding Let_def
  by (rule xmodem_delivers_file)
    (simp_all add: sample_defs waiting_flavor_def file_path_def slash_def readable_file_def writable_file_def control_bytes)

text \<open>
  C8.  Two copies of the program joined by a clean line, the one uploading a file with
  Zmodem and the other downloading into a directory that does not yet have the file: as many
  rounds as the file has blocks and six more bring both sides to the end of the transfer with
  no error counted, and the downloaded file has the contents and the modification time of the
  one uploaded, whatever its bytes.  The one restriction on the length, that it is no positive
  multiple of 32 KiB, is needed: the next theorem shows what happens then.
\<close>

theorem zmodem_delivers_file:
  assumes "may_open w (fi_name fi)" "map_option fst (files w (fi_name fi)) = Some d" "bad_at w (fi_name fi) = None" "fi_size fi = length d"
    and "length d < 2 ^ 31" "0 \<le> fi_mtime fi" "fi_mtime fi < 2 ^ 63" "0 \<notin> set (basename (fi_name fi))"
    and "path = dir @ [slash] @ basename (fi_name fi)" "length path < FULLNAME_SIZE"
    and "\<not> stat_denied w' path" "files w' path = None" "may_open w' path" "length d \<le> space w'" "2080 \<le> m"
    and "\<not> (d \<noteq> [] \<and> 32768 dvd length d)"
  shows "\<exists>s r s' r'.
    zmodem_start (Some [fi]) [] True Z_CRC32 (initial_zmodem False False w) = Inr (True, s) \<and>
    zmodem_start None dir False Z_CRC32 (initial_zmodem False False w') = Inr (True, r) \<and>
    z_lockstep m (length d div 1024 + 6) (s, r) = Some (Inr (s', r')) \<and>
    t_state (z_stats s') = Q_TRANSFER_STATE_END \<and> t_error_count (z_stats s') = 0 \<and>
    t_state (z_stats r') = Q_TRANSFER_STATE_END \<and> t_error_count (z_stats r') = 0 \<and>
    files (z_world r') path = Some (d, fi_mtime fi)"
proof -
  obtain s where s: "zmodem_start (Some [fi]) [] True Z_CRC32 (initial_zmodem False False w) = Inr (True, s)"
      "snd_pre d (basename (fi_name fi)) (fi_mtime fi) s" "z_state s = Z_INIT"
    using upload_started [OF assms(1-4)] by blast
  obtain r where r: "zmodem_start None dir False Z_CRC32 (initial_zmodem False False w') = Inr (True, r)"
      "rcv_pre dir w' r" "z_state r = Z_INIT" "z_out r = []"
    using download_started by blast
  show ?thesis using session_delivers [OF s(2,3) r(2-4) assms(15,5-14,16)] s(1) r(1) by (auto simp: session_over_def)
qed

theorem zmodem_delivers_file_witness:
  "let d = [72, 24, 105]; fi = \<lparr>fi_name = sample_path, fi_size = 3, fi_mtime = 86400\<rparr>; dir = [47, 116] in
   \<exists>s r s' r'.
    zmodem_start (Some [fi]) [] True Z_CRC32 (initial_zmodem False False (sample_os d)) = Inr (True, s) \<and>
    zmodem_start None dir False Z_CRC32 (initial_zmodem False False (sample_os [])) = Inr (True, r) \<and>
    z_lockstep 2080 (length d div 1024 + 6) (s, r) = Some (Inr (s', r')) \<and>
    t_state (z_stats s') = Q_TRANSFER_STATE_END \<and> t_error_count (z_stats s') = 0 \<and>
    t_state (z_stats r') = Q_TRANSFER_STATE_END \<and> t_error_count (z_stats r') = 0 \<and>
    files (z_world r') [47, 116, 47, 97] = Some (d, fi_mtime fi)"
  unfolding Let_def
  by (rule zmodem_delivers_file) (simp_all add: sample_defs basename_def Let_def strip_slashes_def slash_def FULLNAME_SIZE_def dvd_eq_mod_eq_0)

text \<open>
  C9.  The same two programs with a file whose length is a positive multiple of 32 KiB: after
  the last block the sender announces the end of the file while the receiver still waits for
  more data of the open frame, which the announcement is not.  Neither side writes another
  byte: after any number of further rounds in which no timeout strikes, the sender waits for
  an answer to the announcement and the receiver for data.
\<close>

theorem zmodem_32k_file_stalls:
  assumes "may_open w (fi_name fi)" "map_option fst (files w (fi_name fi)) = Some d" "bad_at w (fi_name fi) = None" "fi_size fi = length d"
    and "length d < 2 ^ 31" "0 \<le> fi_mtime fi" "fi_mtime fi < 2 ^ 63" "0 \<notin> set (basename (fi_name fi))"
    and "path = dir @ [slash] @ basename (fi_name fi)" "length path < FULLNAME_SIZE"
    and "\<not> stat_denied w' path" "files w' path = None" "may_open w' path" "length d \<le> space w'" "2080 \<le> m"
    and "length d = 32768 * Suc n"
  shows "\<exists>s r s' r'.
    zmodem_start (Some [fi]) [] True Z_CRC32 (initial_zmodem False False w) = Inr (True, s) \<and>
    zmodem_start None dir False Z_CRC32 (initial_zmodem False False w') = Inr (True, r) \<and>
    z_lockstep m (length d div 1024 + 3 + k) (s, r) = Some (Inr (s', r')) \<and>
    z_state s' = ZEOF_WAIT \<and> z_state r' = ZDATA"
proof -
  obtain s where s: "zmodem_start (Some [fi]) [] True Z_CRC32 (initial_zmodem False False w) = Inr (True, s)"
      "snd_pre d (basename (fi_name fi)) (fi_mtime fi) s" "z_state s = Z_INIT"
    using upload_started [OF assms(1-4)] by blast
  obtain r where r: "zmodem_start None dir False Z_CRC32 (initial_zmodem False False w') = Inr (True, r)"
      "rcv_pre dir w' r" "z_state r = Z_INIT" "z_out r = []"
    using download_started by blast
  have "length d div 1024 = 32 * Suc n" using assms(16) by simp
  then show ?thesis using session_stalls_at_32k [OF s(2,3) r(2-4) assms(15,5-14,16), of k] s(1) r(1)
    by (auto simp: snd_eof_def rcv_stuck_def)
qed

theorem zmodem_32k_file_stalls_witness:
  "let d = replicate 32768 0; fi = \<lparr>fi_name = sample_path, fi_size = 32768, fi_mtime = 86400\<rparr>; dir = [47, 116] in
   \<exists>s r s' r'.
    zmodem_start (Some [fi]) [] True Z_CRC32 (initial_zmodem False False (sample_os d)) = Inr (True, s) \<and>
    zmodem_start None dir False Z_CRC32 (initial_zmodem False False ((sample_os [])\<lparr>space := 65536\<rparr>)) = Inr (True, r) \<and>
    z_lockstep 2080 (length d div 1024 + 3 + 100) (s, r) = Some (Inr (s', r')) \<and>
    z_state s' = ZEOF_WAIT \<and> z_state r' = ZDATA"
  unfolding Let_def
  by (rule zmodem_32k_file_stalls [where path = "[47, 116, 47, 97]" and n = 0])
    (simp_all add: sample_defs basename_def Let_def strip_slashes_def slash_def FULLNAME_SIZE_def)

end
